(* ===== verification/Go_Prelude.thy ===== *)
theory Go_Prelude
  imports Main "HOL-Library.List_Lexorder" "HOL-Library.Char_ord" "HOL-Library.AList"
    "HOL-Library.Multiset"
begin

text \<open>
  The vocabulary every component shares: Go's 64-bit wrap-around, the functions of the packages
  \<^verbatim>\<open>strings\<close>, \<^verbatim>\<open>strconv\<close> and \<^verbatim>\<open>fmt\<close> that polytable calls, error values, and
  Go maps as association lists. A Go string is a list of bytes, which is what \<^typ>\<open>string\<close>
  (a \<^typ>\<open>char list\<close>) is; letter case and white space are those of ASCII.

  Collections: \<open>go_str\<close> holds the rewrite rules for string functions, \<open>go_conv\<close> the
  print/parse round trips, \<open>go_map\<close> the laws of Go maps.
\<close>

named_theorems go_str
named_theorems go_conv
named_theorems go_map

section \<open>Results\<close>

text \<open>
  The verb \<^verbatim>\<open>%q\<close> on ASCII text: printable bytes are kept, a quote and a backslash are escaped,
  control characters become escapes.
\<close>

definition quote_char :: "char \<Rightarrow> string" where
  "quote_char c =
     (let n = (of_char c :: nat);
          hex = (\<lambda>k. if k < 10 then char_of (48 + k) else char_of (87 + k) :: char) in
      if n = 34 \<or> n = 92 then [CHR 0x5C, c]
      else if n = 7 then [CHR 0x5C, CHR ''a'']
      else if n = 8 then [CHR 0x5C, CHR ''b'']
      else if n = 9 then [CHR 0x5C, CHR ''t'']
      else if n = 10 then [CHR 0x5C, CHR ''n'']
      else if n = 11 then [CHR 0x5C, CHR ''v'']
      else if n = 12 then [CHR 0x5C, CHR ''f'']
      else if n = 13 then [CHR 0x5C, CHR ''r'']
      else if n < 32 \<or> n = 127 then [CHR 0x5C, CHR ''x'', hex (n div 16), hex (n mod 16)]
      else [c])"

definition quoted :: "string \<Rightarrow> string" where
  "quoted s = CHR 0x22 # concat (map quote_char s) @ [CHR 0x22]"

text \<open>
  A Go error is a message, possibly wrapping another one with \<^verbatim>\<open>%w\<close>, or one of the sentinel
  errors of \<^verbatim>\<open>pkg/io\<close>; the text of an error of the Go library is shortened. A function returning a value and an error returns a sum with the
  error on the left. A run-time panic (a nil pointer dereferenced) is an error value too,
  \<open>ErrPanic\<close>, which no modelled caller recovers from.
\<close>

datatype gerr =
    ErrNotFound string
  | ErrInvalidPath string
  | ErrPathNotUnderBase string
  | ErrNotImplemented string
  | ErrPanic string
  | ErrMsg string
  | ErrWrap string gerr

type_synonym 'a res = "gerr + 'a"

definition nil_panic :: gerr where
  "nil_panic = ErrPanic ''invalid memory address or nil pointer dereference''"

text \<open>\<^verbatim>\<open>err.Error()\<close>: a wrapped error is rendered after its context.\<close>

fun err_text :: "gerr \<Rightarrow> string" where
  "err_text (ErrNotFound m) = ''file not found: '' @ m"
| "err_text (ErrInvalidPath m) = ''invalid storage path: '' @ m"
| "err_text (ErrPathNotUnderBase m) = ''path is not under the base path: '' @ m"
| "err_text (ErrNotImplemented m) = ''catalog type recognised but not implemented: '' @ m"
| "err_text (ErrPanic m) = ''panic: '' @ m"
| "err_text (ErrMsg m) = m"
| "err_text (ErrWrap c e) = c @ '': '' @ err_text e"

text \<open>\<^verbatim>\<open>errors.Is(err, io.ErrNotFound)\<close>.\<close>

fun is_not_found :: "gerr \<Rightarrow> bool" where
  "is_not_found (ErrNotFound _) = True"
| "is_not_found (ErrWrap _ e) = is_not_found e"
| "is_not_found _ = False"

fun bind_res :: "'a res \<Rightarrow> ('a \<Rightarrow> 'b res) \<Rightarrow> 'b res" where
  "bind_res (Inl e) f = Inl e"
| "bind_res (Inr x) f = f x"

text \<open>The idiom \<^verbatim>\<open>if err != nil { return fmt.Errorf("ctx: %w", err) }\<close>.\<close>

fun wrap_res :: "string \<Rightarrow> 'a res \<Rightarrow> 'a res" where
  "wrap_res c (Inl e) = Inl (ErrWrap c e)"
| "wrap_res c (Inr x) = Inr x"

text \<open>A loop that appends \<open>f x\<close> for every \<open>x\<close> and returns at the first error.\<close>

fun map_res :: "('a \<Rightarrow> 'b res) \<Rightarrow> 'a list \<Rightarrow> 'b list res" where
  "map_res f [] = Inr []"
| "map_res f (x # xs) =
     (case f x of Inl e \<Rightarrow> Inl e
      | Inr y \<Rightarrow> (case map_res f xs of Inl e \<Rightarrow> Inl e | Inr ys \<Rightarrow> Inr (y # ys)))"

lemma map_res_cong [fundef_cong]:
  assumes "xs = ys" and "\<And>x. x \<in> set ys \<Longrightarrow> f x = g x"
  shows "map_res f xs = map_res g ys"
proof -
  have "map_res f ys = map_res g ys"
    using assms(2) by (induction ys) (auto split: sum.splits)
  with assms(1) show ?thesis by simp
qed

lemma bind_res_cong [fundef_cong]:
  assumes "x = y" and "\<And>a. y = Inr a \<Longrightarrow> f a = g a"
  shows "bind_res x f = bind_res y g"
  using assms by (cases y) auto

lemma bind_res_eq_Inr [simp]:
  "bind_res x f = Inr b \<longleftrightarrow> (\<exists>a. x = Inr a \<and> f a = Inr b)"
  by (cases x) auto

lemma wrap_res_eq_Inr [simp]: "wrap_res c x = Inr a \<longleftrightarrow> x = Inr a"
  by (cases x) auto

lemma map_res_Inr_length: "map_res f xs = Inr ys \<Longrightarrow> length ys = length xs"
  by (induction xs arbitrary: ys) (auto split: sum.splits)

lemma map_res_Inr_iff:
  "map_res f xs = Inr ys \<longleftrightarrow> list_all2 (\<lambda>x y. f x = Inr y) xs ys"
proof (induction xs arbitrary: ys)
  case Nil
  then show ?case by auto
next
  case (Cons x xs)
  have "map_res f (x # xs) = Inr ys \<longleftrightarrow>
      (\<exists>z zs. f x = Inr z \<and> map_res f xs = Inr zs \<and> ys = z # zs)"
    by (auto split: sum.splits)
  also have "\<dots> \<longleftrightarrow> list_all2 (\<lambda>x y. f x = Inr y) (x # xs) ys"
    by (auto simp: Cons.IH list_all2_Cons1)
  finally show ?case .
qed

lemma map_res_all_Inr: "(\<And>x. x \<in> set xs \<Longrightarrow> f x = Inr (g x)) \<Longrightarrow> map_res f xs = Inr (map g xs)"
  by (induction xs) auto

lemma map_res_map: "map_res f (map g xs) = map_res (\<lambda>x. f (g x)) xs"
  by (induction xs) (auto split: sum.splits)

lemma map_res_elem: "map_res f xs = Inr ys \<Longrightarrow> y \<in> set ys \<Longrightarrow> \<exists>x \<in> set xs. f x = Inr y"
  by (induction xs arbitrary: ys) (auto split: sum.splits)

lemma map_res_append:
  "map_res f (xs @ ys) =
     bind_res (map_res f xs) (\<lambda>as. bind_res (map_res f ys) (\<lambda>bs. Inr (as @ bs)))"
proof (induction xs)
  case Nil
  show ?case by (cases "map_res f ys") auto
next
  case (Cons x xs)
  then show ?case
    by (cases "f x"; cases "map_res f xs"; cases "map_res f ys") auto
qed

section \<open>Machine integers\<close>

text \<open>
  Go's \<^verbatim>\<open>int64\<close> (and \<^verbatim>\<open>int\<close>, which is 64 bits on every platform polytable is built for) is
  an \<^typ>\<open>int\<close>; where an operation can leave the range, its result is passed through \<open>wrap64\<close>.
\<close>

abbreviation min_int64 :: int where "min_int64 \<equiv> - 9223372036854775808"
abbreviation max_int64 :: int where "max_int64 \<equiv> 9223372036854775807"

definition in_int64 :: "int \<Rightarrow> bool" where
  "in_int64 i \<longleftrightarrow> min_int64 \<le> i \<and> i \<le> max_int64"

definition wrap64 :: "int \<Rightarrow> int" where
  "wrap64 i = (i + 9223372036854775808) mod 18446744073709551616 - 9223372036854775808"

lemma wrap64_id [simp]: "in_int64 i \<Longrightarrow> wrap64 i = i"
  by (simp add: wrap64_def in_int64_def)

lemma in_int64_wrap64 [simp]: "in_int64 (wrap64 i)"
proof -
  have "0 \<le> (i + 9223372036854775808) mod 18446744073709551616"
    and "(i + 9223372036854775808) mod 18446744073709551616 < 18446744073709551616"
    by simp_all
  then show ?thesis unfolding in_int64_def wrap64_def by linarith
qed

section \<open>Package strings\<close>

definition hasPrefix :: "string \<Rightarrow> string \<Rightarrow> bool" where
  "hasPrefix s p \<longleftrightarrow> take (length p) s = p"

definition trimPrefix :: "string \<Rightarrow> string \<Rightarrow> string" where
  "trimPrefix s p = (if hasPrefix s p then drop (length p) s else s)"

definition hasSuffix :: "string \<Rightarrow> string \<Rightarrow> bool" where
  "hasSuffix s p \<longleftrightarrow> length p \<le> length s \<and> drop (length s - length p) s = p"

definition trimSuffix :: "string \<Rightarrow> string \<Rightarrow> string" where
  "trimSuffix s p = (if hasSuffix s p then take (length s - length p) s else s)"

lemma hasPrefix_append [simp, go_str]: "hasPrefix (p @ s) p"
  by (simp add: hasPrefix_def)

lemma hasPrefix_iff: "hasPrefix s p \<longleftrightarrow> (\<exists>t. s = p @ t)"
  by (metis append_take_drop_id append_eq_conv_conj hasPrefix_def)

lemma hasPrefix_Nil [simp]: "hasPrefix s []"
  by (simp add: hasPrefix_def)

lemma hasPrefix_of_Nil [simp]: "hasPrefix [] p \<longleftrightarrow> p = []"
  by (auto simp: hasPrefix_def)

lemma hasPrefix_Cons [simp, go_str]:
  "hasPrefix (c # s) (d # p) \<longleftrightarrow> c = d \<and> hasPrefix s p"
  by (auto simp: hasPrefix_def)

lemma trimPrefix_append [simp, go_str]: "trimPrefix (p @ s) p = s"
  by (simp add: trimPrefix_def)

lemma trimPrefix_Nil [simp]: "trimPrefix s [] = s"
  by (simp add: trimPrefix_def)

lemma hasSuffix_append [simp, go_str]: "hasSuffix (s @ p) p"
  by (simp add: hasSuffix_def)

lemma trimSuffix_append [simp, go_str]: "trimSuffix (s @ p) p = s"
  by (simp add: trimSuffix_def)

lemma hasSuffix_iff: "hasSuffix s p \<longleftrightarrow> (\<exists>t. s = t @ p)"
  by (metis append_take_drop_id hasSuffix_append hasSuffix_def)

text \<open>\<^verbatim>\<open>strings.Contains\<close>, \<^verbatim>\<open>strings.Index\<close> with one separator, \<^verbatim>\<open>strings.Cut\<close>.\<close>

fun containsStr :: "string \<Rightarrow> string \<Rightarrow> bool" where
  "containsStr [] p = (p = [])"
| "containsStr (c # s) p = (hasPrefix (c # s) p \<or> containsStr s p)"

fun cutStr :: "string \<Rightarrow> string \<Rightarrow> (string \<times> string) option" where
  "cutStr [] p = (if p = [] then Some ([], []) else None)"
| "cutStr (c # s) p =
     (if hasPrefix (c # s) p then Some ([], drop (length p) (c # s))
      else map_option (\<lambda>(a, b). (c # a, b)) (cutStr s p))"

lemma cutStr_Some: "cutStr s p = Some (a, b) \<Longrightarrow> s = a @ p @ b"
proof (induction s arbitrary: a b)
  case Nil
  then show ?case by (auto split: if_splits)
next
  case (Cons c s)
  show ?case
  proof (cases "hasPrefix (c # s) p")
    case True
    then obtain t where "c # s = p @ t" by (auto simp: hasPrefix_iff)
    moreover from True Cons.prems have "a = []" and "b = drop (length p) (c # s)" by auto
    ultimately show ?thesis by simp
  next
    case False
    with Cons show ?thesis by auto
  qed
qed

lemma cutStr_None_iff: "cutStr s p = None \<longleftrightarrow> \<not> containsStr s p"
  by (induction s) auto

text \<open>\<^verbatim>\<open>strings.Split(s, sep)\<close> for a separator of one byte.\<close>

fun splitChar :: "char \<Rightarrow> string \<Rightarrow> string list" where
  "splitChar sep [] = [[]]"
| "splitChar sep (c # s) =
     (if c = sep then [] # splitChar sep s
      else (case splitChar sep s of [] \<Rightarrow> [[c]] | w # ws \<Rightarrow> (c # w) # ws))"

fun joinWith :: "string \<Rightarrow> string list \<Rightarrow> string" where
  "joinWith sep [] = []"
| "joinWith sep [w] = w"
| "joinWith sep (w # v # ws) = w @ sep @ joinWith sep (v # ws)"

lemma splitChar_nonempty [simp]: "splitChar sep s \<noteq> []"
  by (induction s) (auto split: list.splits)

lemma splitChar_no_sep: "sep \<notin> set s \<Longrightarrow> splitChar sep s = [s]"
  by (induction s) auto

lemma splitChar_append_sep:
  "sep \<notin> set w \<Longrightarrow> splitChar sep (w @ sep # s) = w # splitChar sep s"
  by (induction w) (auto split: list.splits)

lemma splitChar_elems_no_sep: "w \<in> set (splitChar sep s) \<Longrightarrow> sep \<notin> set w"
  by (induction s arbitrary: w) (auto split: if_splits list.splits)

lemma joinWith_Cons: "ws \<noteq> [] \<Longrightarrow> joinWith sep (w # ws) = w @ sep @ joinWith sep ws"
  by (cases ws) auto

lemma joinWith_splitChar [go_str]: "joinWith [sep] (splitChar sep s) = s"
proof (induction s)
  case Nil
  then show ?case by simp
next
  case (Cons c s)
  obtain w ws where "splitChar sep s = w # ws"
    using splitChar_nonempty by (meson neq_Nil_conv)
  with Cons show ?case by (cases ws) auto
qed

lemma splitChar_joinWith [go_str]:
  "ws \<noteq> [] \<Longrightarrow> \<forall>w \<in> set ws. sep \<notin> set w \<Longrightarrow> splitChar sep (joinWith [sep] ws) = ws"
proof (induction "[sep]" ws rule: joinWith.induct)
  case 1
  then show ?case by simp
next
  case (2 w)
  then show ?case by (simp add: splitChar_no_sep)
next
  case (3 w v ws)
  then show ?case by (simp add: splitChar_append_sep)
qed

lemma joinWith_inj:
  assumes "ws \<noteq> []" and "vs \<noteq> []"
    and "\<forall>w \<in> set ws. sep \<notin> set w" and "\<forall>v \<in> set vs. sep \<notin> set v"
    and "joinWith [sep] ws = joinWith [sep] vs"
  shows "ws = vs"
  using assms splitChar_joinWith by metis

text \<open>\<^verbatim>\<open>strings.Replace(s, p, q, 1)\<close> and \<^verbatim>\<open>strings.ReplaceAll(s, "//", "/")\<close>.\<close>

definition replaceFirst :: "string \<Rightarrow> string \<Rightarrow> string \<Rightarrow> string" where
  "replaceFirst s p q = (case cutStr s p of None \<Rightarrow> s | Some (a, b) \<Rightarrow> a @ q @ b)"

fun replaceSlashes :: "string \<Rightarrow> string" where
  "replaceSlashes (c # d # s) =
     (if c = CHR ''/'' \<and> d = CHR ''/'' then CHR ''/'' # replaceSlashes s
      else c # replaceSlashes (d # s))"
| "replaceSlashes s = s"

lemma replaceSlashes_length: "length (replaceSlashes s) \<le> length s"
  by (induction s rule: replaceSlashes.induct) auto

lemma replaceSlashes_shorter: "containsStr s ''//'' \<Longrightarrow> length (replaceSlashes s) < length s"
proof (induction s rule: replaceSlashes.induct)
  case (1 c d s)
  show ?case
  proof (cases "c = CHR ''/'' \<and> d = CHR ''/''")
    case True
    then show ?thesis using replaceSlashes_length [of s] by simp
  next
    case False
    with "1.prems" have "containsStr (d # s) ''//''" by auto
    with False "1.IH" show ?thesis by auto
  qed
qed auto

section \<open>Letter case and white space\<close>

definition is_space :: "char \<Rightarrow> bool" where
  "is_space c \<longleftrightarrow> (let n = (of_char c :: nat) in n = 32 \<or> (9 \<le> n \<and> n \<le> 13))"

definition lower_char :: "char \<Rightarrow> char" where
  "lower_char c = (let n = (of_char c :: nat) in if 65 \<le> n \<and> n \<le> 90 then char_of (n + 32) else c)"

definition upper_char :: "char \<Rightarrow> char" where
  "upper_char c = (let n = (of_char c :: nat) in if 97 \<le> n \<and> n \<le> 122 then char_of (n - 32) else c)"

definition toLower :: "string \<Rightarrow> string" where
  "toLower s = map lower_char s"

definition toUpper :: "string \<Rightarrow> string" where
  "toUpper s = map upper_char s"

definition equalFold :: "string \<Rightarrow> string \<Rightarrow> bool" where
  "equalFold s t \<longleftrightarrow> toLower s = toLower t"

definition trimSpace :: "string \<Rightarrow> string" where
  "trimSpace s = rev (dropWhile is_space (rev (dropWhile is_space s)))"

lemma equalFold_refl [simp]: "equalFold s s"
  by (simp add: equalFold_def)

lemma trimSpace_idem_hd: "s \<noteq> [] \<Longrightarrow> \<not> is_space (hd s) \<Longrightarrow> \<not> is_space (last s) \<Longrightarrow> trimSpace s = s"
proof -
  assume s: "s \<noteq> []" and h: "\<not> is_space (hd s)" and l: "\<not> is_space (last s)"
  from s h have "dropWhile is_space s = s" by (cases s) auto
  moreover from s l have "dropWhile is_space (rev s) = rev s" by (cases s rule: rev_cases) auto
  ultimately show ?thesis by (simp add: trimSpace_def)
qed

lemma upper_char_idem [simp]: "upper_char (upper_char c) = upper_char c"
  by (auto simp: upper_char_def Let_def)

lemma toUpper_idem [simp]: "toUpper (toUpper s) = toUpper s"
  by (simp add: toUpper_def)

section \<open>Package strconv and the integer verbs of fmt\<close>

definition is_digit :: "char \<Rightarrow> bool" where
  "is_digit c \<longleftrightarrow> (let n = (of_char c :: nat) in 48 \<le> n \<and> n \<le> 57)"

definition digit_val :: "char \<Rightarrow> nat" where
  "digit_val c = of_char c - 48"

definition digit_char :: "nat \<Rightarrow> char" where
  "digit_char n = char_of (48 + n)"

lemma digit_char_is_digit [simp]: "n < 10 \<Longrightarrow> is_digit (digit_char n)"
  by (simp add: is_digit_def digit_char_def Let_def)

lemma digit_char_values:
  "digit_char 0 = CHR ''0''" "digit_char 1 = CHR ''1''" "digit_char 2 = CHR ''2''" "digit_char 3 = CHR ''3''"
  "digit_char 4 = CHR ''4''" "digit_char 5 = CHR ''5''" "digit_char 6 = CHR ''6''" "digit_char 7 = CHR ''7''"
  "digit_char 8 = CHR ''8''" "digit_char 9 = CHR ''9''"
  by code_simp+

lemma digit_val_char [simp]: "n < 10 \<Longrightarrow> digit_val (digit_char n) = n"
  by (simp add: digit_val_def digit_char_def)

fun nat_dec :: "nat \<Rightarrow> string" where
  "nat_dec n = (if n < 10 then [digit_char n] else nat_dec (n div 10) @ [digit_char (n mod 10)])"

declare nat_dec.simps [simp del]

definition digits_val :: "string \<Rightarrow> nat" where
  "digits_val s = foldl (\<lambda>a c. 10 * a + digit_val c) 0 s"

definition formatInt :: "int \<Rightarrow> string" where
  "formatInt i = (if i < 0 then CHR ''-'' # nat_dec (nat (- i)) else nat_dec (nat i))"

text \<open>\<^verbatim>\<open>strconv.ParseInt(s, 10, 64)\<close>: \<open>None\<close> for a syntax or a range error.\<close>

definition parseInt :: "string \<Rightarrow> int option" where
  "parseInt s =
     (let (neg, ds) =
        (case s of
           c # r \<Rightarrow> if c = CHR ''-'' then (True, r) else if c = CHR ''+'' then (False, r) else (False, s)
         | [] \<Rightarrow> (False, []))
      in if ds \<noteq> [] \<and> list_all is_digit ds
         then (let v = (if neg then - int (digits_val ds) else int (digits_val ds))
               in if in_int64 v then Some v else None)
         else None)"

text \<open>\<^verbatim>\<open>fmt.Sprintf("%0wd", i)\<close>.\<close>

definition padZero :: "nat \<Rightarrow> string \<Rightarrow> string" where
  "padZero w s = replicate (w - length s) (CHR ''0'') @ s"

definition formatPadded :: "nat \<Rightarrow> int \<Rightarrow> string" where
  "formatPadded w i =
     (if i < 0 then CHR ''-'' # padZero (w - 1) (nat_dec (nat (- i))) else padZero w (nat_dec (nat i)))"

lemma nat_dec_nonempty [simp]: "nat_dec n \<noteq> []"
  by (subst nat_dec.simps) simp

lemma nat_dec_digits: "list_all is_digit (nat_dec n)"
proof (induction n rule: nat_dec.induct)
  case (1 n)
  show ?case
  proof (cases "n < 10")
    case True
    then show ?thesis by (subst nat_dec.simps) simp
  next
    case False
    with 1 have "list_all is_digit (nat_dec (n div 10))" by simp
    with False show ?thesis by (subst nat_dec.simps) simp
  qed
qed

lemma digits_val_append: "digits_val (s @ t) = digits_val s * 10 ^ length t + digits_val t"
proof (induction t rule: rev_induct)
  case Nil
  then show ?case by (simp add: digits_val_def)
next
  case (snoc c t)
  have "digits_val (s @ t @ [c]) = 10 * digits_val (s @ t) + digit_val c"
    by (simp add: digits_val_def)
  also have "\<dots> = digits_val s * 10 ^ length (t @ [c]) + (10 * digits_val t + digit_val c)"
    by (simp add: snoc.IH)
  also have "10 * digits_val t + digit_val c = digits_val (t @ [c])"
    by (simp add: digits_val_def)
  finally show ?case .
qed

lemma digits_val_zeros [simp]: "digits_val (replicate n (CHR ''0'')) = 0"
  by (induction n) (auto simp: digits_val_def digit_val_def)

lemma digits_val_nat_dec [simp]: "digits_val (nat_dec n) = n"
proof (induction n rule: nat_dec.induct)
  case (1 n)
  show ?case
  proof (cases "n < 10")
    case True
    then show ?thesis by (subst nat_dec.simps) (simp add: digits_val_def)
  next
    case False
    with 1 have "digits_val (nat_dec (n div 10)) = n div 10" by simp
    with False show ?thesis
      by (subst nat_dec.simps) (simp add: digits_val_append, simp add: digits_val_def)
  qed
qed

lemma padZero_nonempty [simp]: "s \<noteq> [] \<Longrightarrow> padZero w s \<noteq> []"
  by (simp add: padZero_def)

lemma padZero_digits: "list_all is_digit s \<Longrightarrow> list_all is_digit (padZero w s)"
  by (auto simp: padZero_def is_digit_def list_all_iff Let_def)

lemma digits_val_padZero [simp]: "digits_val (padZero w s) = digits_val s"
  by (simp add: padZero_def digits_val_append)

lemma digits_hd:
  assumes "s \<noteq> []" and "list_all is_digit s"
  shows "hd s \<noteq> CHR ''-''" and "hd s \<noteq> CHR ''+''"
proof -
  from assms have "is_digit (hd s)" by (cases s) auto
  then show "hd s \<noteq> CHR ''-''" and "hd s \<noteq> CHR ''+''"
    by (auto simp: is_digit_def)
qed

lemma parseInt_digits:
  assumes "s \<noteq> []" and "list_all is_digit s" and "in_int64 (int (digits_val s))"
  shows "parseInt s = Some (int (digits_val s))"
proof -
  from assms(1) obtain c r where s: "s = c # r" by (cases s) auto
  from digits_hd [OF assms(1,2)] have "c \<noteq> CHR ''-''" and "c \<noteq> CHR ''+''" by (auto simp: s)
  with assms show ?thesis by (simp add: parseInt_def s)
qed

lemma parseInt_neg_digits:
  assumes "s \<noteq> []" and "list_all is_digit s" and "in_int64 (- int (digits_val s))"
  shows "parseInt (CHR ''-'' # s) = Some (- int (digits_val s))"
  using assms by (simp add: parseInt_def)

lemma parseInt_formatInt [simp, go_conv]: "in_int64 i \<Longrightarrow> parseInt (formatInt i) = Some i"
  by (auto simp: formatInt_def parseInt_digits parseInt_neg_digits nat_dec_digits)

lemma parseInt_formatPadded [simp, go_conv]: "in_int64 i \<Longrightarrow> parseInt (formatPadded w i) = Some i"
  by (auto simp: formatPadded_def parseInt_digits parseInt_neg_digits nat_dec_digits padZero_digits)

lemma formatInt_inj: "in_int64 i \<Longrightarrow> in_int64 j \<Longrightarrow> formatInt i = formatInt j \<Longrightarrow> i = j"
  by (metis option.inject parseInt_formatInt)

lemma formatPadded_inj: "in_int64 i \<Longrightarrow> in_int64 j \<Longrightarrow> formatPadded w i = formatPadded w j \<Longrightarrow> i = j"
  by (metis option.inject parseInt_formatPadded)

lemma parseInt_in_int64: "parseInt s = Some i \<Longrightarrow> in_int64 i"
  by (auto simp: parseInt_def Let_def split: prod.splits if_splits)

lemma formatPadded_chars:
  "c \<in> set (formatPadded w i) \<Longrightarrow> is_digit c \<or> c = CHR ''-''"
proof -
  have "list_all is_digit (padZero v (nat_dec n))" for v n
    by (simp add: padZero_digits nat_dec_digits)
  then show "c \<in> set (formatPadded w i) \<Longrightarrow> is_digit c \<or> c = CHR ''-''"
    by (auto simp: formatPadded_def list_all_iff split: if_splits)
qed

section \<open>Go maps\<close>

text \<open>
  A Go map is an association list with distinct keys. Assignment \<^verbatim>\<open>m[k] = v\<close> is
  \<open>AList.update\<close>, \<^verbatim>\<open>delete(m, k)\<close> is \<open>AList.delete\<close>, lookup is \<open>map_of\<close>. The order of the
  list stands for the unspecified order of a \<^verbatim>\<open>range\<close> loop; nothing is claimed about it.
\<close>

type_synonym ('k, 'v) gomap = "('k \<times> 'v) list"

definition map_put :: "'k \<Rightarrow> 'v \<Rightarrow> ('k, 'v) gomap \<Rightarrow> ('k, 'v) gomap" where
  "map_put k v m = AList.update k v m"

definition map_del :: "'k \<Rightarrow> ('k, 'v) gomap \<Rightarrow> ('k, 'v) gomap" where
  "map_del k m = filter (\<lambda>p. fst p \<noteq> k) m"

definition wf_map :: "('k, 'v) gomap \<Rightarrow> bool" where
  "wf_map m \<longleftrightarrow> distinct (map fst m)"

lemma map_of_map_put [simp, go_map]: "map_of (map_put k v m) = (map_of m)(k \<mapsto> v)"
  by (simp add: map_put_def update_conv')

lemma map_of_map_del [simp, go_map]: "map_of (map_del k m) = (map_of m)(k := None)"
  by (induction m) (auto simp: map_del_def fun_eq_iff)

lemma wf_map_Nil [simp, go_map]: "wf_map []"
  by (simp add: wf_map_def)

lemma wf_map_put [simp, go_map]: "wf_map m \<Longrightarrow> wf_map (map_put k v m)"
  by (simp add: wf_map_def map_put_def distinct_update)

lemma wf_map_del [simp, go_map]: "wf_map m \<Longrightarrow> wf_map (map_del k m)"
  unfolding wf_map_def map_del_def by (induction m) auto

lemma wf_map_lookup [go_map]: "wf_map m \<Longrightarrow> (k, v) \<in> set m \<longleftrightarrow> map_of m k = Some v"
  by (simp add: wf_map_def)

lemma snd_set_wf_map: "wf_map m \<Longrightarrow> snd ` set m = ran (map_of m)"
  by (simp add: wf_map_def ran_distinct)

lemma fst_set_map_put [simp]: "fst ` set (map_put k v m) = insert k (fst ` set m)"
  by (induction m) (auto simp: map_put_def)

lemma distinct_map_sort_key [simp]: "distinct (map f (sort_key g xs)) = distinct (map f xs)"
  by (rule mset_eq_imp_distinct_iff) simp

lemma wf_map_sort_key [simp, go_map]: "wf_map (sort_key g m) = wf_map m"
  by (simp add: wf_map_def)

lemma map_of_sort_key [simp, go_map]: "wf_map m \<Longrightarrow> map_of (sort_key g m) = map_of m"
  unfolding wf_map_def by (intro map_of_eqI) (auto simp: map_of_eq_Some_iff)

text \<open>Filling a map in a loop: \<^verbatim>\<open>for _, x := range xs { m[key(x)] = x }\<close>.\<close>

definition index_by :: "('a \<Rightarrow> 'k) \<Rightarrow> 'a list \<Rightarrow> ('k, 'a) gomap" where
  "index_by key xs = foldl (\<lambda>m x. map_put (key x) x m) [] xs"

lemma index_by_snoc: "index_by key (xs @ [x]) = map_put (key x) x (index_by key xs)"
  by (simp add: index_by_def)

lemma index_by_Nil [simp]: "index_by key [] = []"
  by (simp add: index_by_def)

lemma wf_index_by [simp, go_map]: "wf_map (index_by key xs)"
  by (induction xs rule: rev_induct) (auto simp: index_by_snoc)

lemma index_by_Some: "map_of (index_by key xs) k = Some x \<Longrightarrow> x \<in> set xs \<and> key x = k"
  by (induction xs rule: rev_induct) (auto simp: index_by_snoc split: if_splits)

lemma index_by_None: "map_of (index_by key xs) k = None \<longleftrightarrow> k \<notin> key ` set xs"
  by (induction xs rule: rev_induct) (auto simp: index_by_snoc split: if_splits)

lemma index_by_distinct:
  "distinct (map key xs) \<Longrightarrow> x \<in> set xs \<Longrightarrow> map_of (index_by key xs) (key x) = Some x"
  by (induction xs rule: rev_induct) (auto simp: index_by_snoc intro: rev_image_eqI)

lemma index_by_distinct_iff:
  "distinct (map key xs) \<Longrightarrow> map_of (index_by key xs) k = Some x \<longleftrightarrow> x \<in> set xs \<and> key x = k"
  by (metis index_by_distinct index_by_Some)

lemma keys_index_by: "fst ` set (index_by key xs) = key ` set xs"
  by (induction xs rule: rev_induct) (auto simp: index_by_snoc)

section \<open>Sizes and numbers\<close>

lemma elem_size_list: "x \<in> set xs \<Longrightarrow> g x \<le> size_list g xs"
  by (induction xs) auto

lemma number_text:
  "c \<in> set (formatInt i) \<Longrightarrow> is_digit c \<or> c = CHR ''-''"
  using nat_dec_digits [of "nat i"] nat_dec_digits [of "nat (- i)"]
  by (auto simp: formatInt_def list_all_iff split: if_splits)

lemma number_text_plain:
  "c \<in> set (formatInt i) \<Longrightarrow> lower_char c = c \<and> \<not> is_space c \<and> c \<noteq> CHR '','' \<and> c \<noteq> CHR '')''"
  using number_text [of c i] by (auto simp: is_digit_def lower_char_def is_space_def Let_def)

lemma toLower_formatInt [simp]: "toLower (formatInt i) = formatInt i"
  unfolding toLower_def by (rule map_idI) (use number_text_plain in blast)

lemma formatInt_nonempty [simp]: "formatInt i \<noteq> []"
  by (simp add: formatInt_def)

end
