(* ===== verification/Json_Codec.thy ===== *)
theory Json_Codec
  imports Go_Prelude
begin

text \<open>
  Package \<^verbatim>\<open>encoding/json\<close> as far as polytable uses it: every table format stores its metadata
  as JSON text, some of it nested inside JSON strings (a Delta \<^verbatim>\<open>schemaString\<close>, an add action's
  \<^verbatim>\<open>stats\<close>, the \<^verbatim>\<open>XTABLE_METADATA\<close> table property), so text and document are kept apart
  here and the components work on real strings. A number keeps its literal, as a decoder with a
  typed destination reads it. Strings are UTF-8 byte sequences free of U+2028 and U+2029.
\<close>

datatype json =
    JNull
  | JBool bool
  | JNum string
  | JStr string
  | JArr "json list"
  | JObj "(string \<times> json) list"

section \<open>Marshal\<close>

definition hex_digit :: "nat \<Rightarrow> char" where
  "hex_digit n = (if n < 10 then char_of (48 + n) else char_of (87 + n))"

definition escape_char :: "char \<Rightarrow> string" where
  "escape_char c =
     (let n = (of_char c :: nat) in
      if n = 34 then [CHR 0x5C, CHR 0x22]
      else if n = 92 then [CHR 0x5C, CHR 0x5C]
      else if n = 8 then [CHR 0x5C, CHR ''b'']
      else if n = 9 then [CHR 0x5C, CHR ''t'']
      else if n = 10 then [CHR 0x5C, CHR ''n'']
      else if n = 12 then [CHR 0x5C, CHR ''f'']
      else if n = 13 then [CHR 0x5C, CHR ''r'']
      else if n < 32 \<or> n = 38 \<or> n = 60 \<or> n = 62
        then [CHR 0x5C, CHR ''u'', CHR ''0'', CHR ''0'', hex_digit (n div 16), hex_digit (n mod 16)]
      else [c])"

definition json_quote :: "string \<Rightarrow> string" where
  "json_quote s = CHR 0x22 # concat (map escape_char s) @ [CHR 0x22]"

fun json_print :: "json \<Rightarrow> string" where
  "json_print JNull = ''null''"
| "json_print (JBool b) = (if b then ''true'' else ''false'')"
| "json_print (JNum l) = l"
| "json_print (JStr s) = json_quote s"
| "json_print (JArr xs) = CHR ''['' # joinWith '','' (map json_print xs) @ [CHR '']'']"
| "json_print (JObj kvs) =
     CHR ''{'' # joinWith '','' (map (\<lambda>kv. json_quote (fst kv) @ CHR '':'' # json_print (snd kv)) kvs)
       @ [CHR ''}'']"

section \<open>Unmarshal\<close>

definition hex_val :: "char \<Rightarrow> nat option" where
  "hex_val c =
     (let n = (of_char c :: nat) in
      if 48 \<le> n \<and> n \<le> 57 then Some (n - 48)
      else if 97 \<le> n \<and> n \<le> 102 then Some (n - 87)
      else if 65 \<le> n \<and> n \<le> 70 then Some (n - 55)
      else None)"

fun hex4 :: "string \<Rightarrow> nat option" where
  "hex4 (a # b # c # d # _) =
     (case (hex_val a, hex_val b, hex_val c, hex_val d) of
        (Some w, Some x, Some y, Some z) \<Rightarrow> Some (((w * 16 + x) * 16 + y) * 16 + z)
      | _ \<Rightarrow> None)"
| "hex4 _ = None"

definition utf8 :: "nat \<Rightarrow> string" where
  "utf8 n =
     (if n < 128 then [char_of n]
      else if n < 2048 then [char_of (192 + n div 64), char_of (128 + n mod 64)]
      else if n < 65536 then
        [char_of (224 + n div 4096), char_of (128 + n div 64 mod 64), char_of (128 + n mod 64)]
      else [char_of (240 + n div 262144), char_of (128 + n div 4096 mod 64),
            char_of (128 + n div 64 mod 64), char_of (128 + n mod 64)])"

text \<open>
  A \<^verbatim>\<open>\uXXXX\<close> escape of value \<open>n\<close> followed by \<open>rest\<close>: the bytes it stands for and how many bytes
  after the \<^verbatim>\<open>u\<close> it takes. A surrogate pair is one code point, a lone surrogate U+FFFD.
\<close>

definition unicode_escape :: "nat \<Rightarrow> string \<Rightarrow> string \<times> nat" where
  "unicode_escape n rest =
     (if 55296 \<le> n \<and> n < 57344 then
        (case (if n < 56320 \<and> hasPrefix rest [CHR 0x5C, CHR ''u''] then hex4 (drop 2 rest) else None) of
           Some m \<Rightarrow>
             if 56320 \<le> m \<and> m < 57344
             then (utf8 (65536 + (n - 55296) * 1024 + (m - 56320)), 10)
             else (utf8 65533, 4)
         | None \<Rightarrow> (utf8 65533, 4))
      else (utf8 n, 4))"

definition unescape_char :: "char \<Rightarrow> char option" where
  "unescape_char c =
     (if c = CHR 0x22 \<or> c = CHR 0x5C \<or> c = CHR ''/'' then Some c
      else if c = CHR ''b'' then Some (CHR 0x08)
      else if c = CHR ''f'' then Some (CHR 0x0C)
      else if c = CHR ''n'' then Some (CHR 0x0A)
      else if c = CHR ''r'' then Some (CHR 0x0D)
      else if c = CHR ''t'' then Some (CHR 0x09)
      else None)"

abbreviation cons_str :: "string \<Rightarrow> (string \<times> string) option \<Rightarrow> (string \<times> string) option" where
  "cons_str p \<equiv> map_option (\<lambda>(s, r). (p @ s, r))"

function json_chars :: "string \<Rightarrow> (string \<times> string) option" where
  "json_chars [] = None"
| "json_chars (c # s) =
     (if c = CHR 0x22 then Some ([], s)
      else if c = CHR 0x5C then
        (case s of
           [] \<Rightarrow> None
         | e # t \<Rightarrow>
             if e = CHR ''u'' then
               (case hex4 t of
                  None \<Rightarrow> None
                | Some n \<Rightarrow> cons_str (fst (unicode_escape n (drop 4 t)))
                              (json_chars (drop (snd (unicode_escape n (drop 4 t))) t)))
             else (case unescape_char e of None \<Rightarrow> None | Some b \<Rightarrow> cons_str [b] (json_chars t)))
      else if (of_char c :: nat) < 32 then None
      else cons_str [c] (json_chars s))"
  by pat_completeness auto
termination
  by (relation "measure length") auto

definition is_jws :: "char \<Rightarrow> bool" where
  "is_jws c \<longleftrightarrow> c = CHR '' '' \<or> c = CHR 0x09 \<or> c = CHR 0x0A \<or> c = CHR 0x0D"

definition skip_ws :: "string \<Rightarrow> string" where
  "skip_ws s = dropWhile is_jws s"

text \<open>The number grammar: the literal and what follows it.\<close>

definition num_int :: "string \<Rightarrow> (string \<times> string) option" where
  "num_int s =
     (case s of
        [] \<Rightarrow> None
      | c # t \<Rightarrow>
          if c = CHR ''0'' then Some ([c], t)
          else if is_digit c then Some (takeWhile is_digit s, dropWhile is_digit s)
          else None)"

definition num_frac :: "string \<Rightarrow> (string \<times> string) option" where
  "num_frac s =
     (case s of
        c # t \<Rightarrow>
          if c = CHR ''.'' then
            (if takeWhile is_digit t = [] then None else Some (c # takeWhile is_digit t, dropWhile is_digit t))
          else Some ([], s)
      | [] \<Rightarrow> Some ([], []))"

definition num_exp :: "string \<Rightarrow> (string \<times> string) option" where
  "num_exp s =
     (case s of
        c # t \<Rightarrow>
          if c = CHR ''e'' \<or> c = CHR ''E'' then
            (let sg = (case t of d # _ \<Rightarrow> if d = CHR ''+'' \<or> d = CHR ''-'' then [d] else [] | [] \<Rightarrow> []);
                 u = drop (length sg) t
             in if takeWhile is_digit u = [] then None
                else Some (c # sg @ takeWhile is_digit u, dropWhile is_digit u))
          else Some ([], s)
      | [] \<Rightarrow> Some ([], []))"

definition json_number :: "string \<Rightarrow> (string \<times> string) option" where
  "json_number s =
     (let sg = (if hasPrefix s ''-'' then ''-'' else []) in
      case num_int (drop (length sg) s) of
        None \<Rightarrow> None
      | Some (i, r1) \<Rightarrow>
          (case num_frac r1 of
             None \<Rightarrow> None
           | Some (f, r2) \<Rightarrow>
               (case num_exp r2 of
                  None \<Rightarrow> None
                | Some (x, r3) \<Rightarrow> Some (sg @ i @ f @ x, r3))))"

fun json_value :: "nat \<Rightarrow> string \<Rightarrow> (json \<times> string) option"
  and json_elems :: "nat \<Rightarrow> string \<Rightarrow> (json list \<times> string) option"
  and json_members :: "nat \<Rightarrow> string \<Rightarrow> ((string \<times> json) list \<times> string) option" where
  "json_value 0 s = None"
| "json_value (Suc n) s =
     (case skip_ws s of
        [] \<Rightarrow> None
      | c # t \<Rightarrow>
          if c = CHR ''{'' then
            (if hasPrefix (skip_ws t) ''}'' then Some (JObj [], tl (skip_ws t))
             else map_option (\<lambda>(m, r). (JObj m, r)) (json_members n t))
          else if c = CHR ''['' then
            (if hasPrefix (skip_ws t) '']'' then Some (JArr [], tl (skip_ws t))
             else map_option (\<lambda>(m, r). (JArr m, r)) (json_elems n t))
          else if c = CHR 0x22 then map_option (\<lambda>(x, r). (JStr x, r)) (json_chars t)
          else if hasPrefix (c # t) ''null'' then Some (JNull, drop 4 (c # t))
          else if hasPrefix (c # t) ''true'' then Some (JBool True, drop 4 (c # t))
          else if hasPrefix (c # t) ''false'' then Some (JBool False, drop 5 (c # t))
          else map_option (\<lambda>(l, r). (JNum l, r)) (json_number (c # t)))"
| "json_elems 0 s = None"
| "json_elems (Suc n) s =
     (case json_value n s of
        None \<Rightarrow> None
      | Some (v, r) \<Rightarrow>
          (case skip_ws r of
             [] \<Rightarrow> None
           | c # r' \<Rightarrow>
               if c = CHR '','' then map_option (\<lambda>(vs, q). (v # vs, q)) (json_elems n r')
               else if c = CHR '']'' then Some ([v], r')
               else None))"
| "json_members 0 s = None"
| "json_members (Suc n) s =
     (case skip_ws s of
        [] \<Rightarrow> None
      | c # t \<Rightarrow>
          if c = CHR 0x22 then
            (case json_chars t of
               None \<Rightarrow> None
             | Some (k, r) \<Rightarrow>
                 (case skip_ws r of
                    [] \<Rightarrow> None
                  | c' # r' \<Rightarrow>
                      if c' = CHR '':'' then
                        (case json_value n r' of
                           None \<Rightarrow> None
                         | Some (v, q) \<Rightarrow>
                             (case skip_ws q of
                                [] \<Rightarrow> None
                              | d # q' \<Rightarrow>
                                  if d = CHR '','' then
                                    map_option (\<lambda>(kvs, z). ((k, v) # kvs, z)) (json_members n q')
                                  else if d = CHR ''}'' then Some ([(k, v)], q')
                                  else None))
                      else None))
          else None)"

text \<open>
  Every call spends one unit of fuel and every value takes at least one byte, so twice the length
  of the text is always enough.
\<close>

definition json_unmarshal :: "string \<Rightarrow> json option" where
  "json_unmarshal s =
     (case json_value (2 * length s + 2) s of
        Some (j, r) \<Rightarrow> if skip_ws r = [] then Some j else None
      | None \<Rightarrow> None)"

section \<open>Round trip\<close>

definition wf_num :: "string \<Rightarrow> bool" where
  "wf_num l \<longleftrightarrow> json_number l = Some (l, [])"

fun wf_json :: "json \<Rightarrow> bool" where
  "wf_json (JNum l) = wf_num l"
| "wf_json (JArr xs) = list_all wf_json xs"
| "wf_json (JObj kvs) = list_all (\<lambda>kv. wf_json (snd kv)) kvs"
| "wf_json _ = True"

lemma hex_val_digit [simp]: "n < 16 \<Longrightarrow> hex_val (hex_digit n) = Some n"
  by (auto simp: hex_val_def hex_digit_def Let_def)

lemma of_char_nat_eq: "(of_char c :: nat) = of_char d \<longleftrightarrow> c = d"
  by simp

lemma char_codes:
  "(of_char c :: nat) = 34 \<longleftrightarrow> c = CHR 0x22" "(of_char c :: nat) = 92 \<longleftrightarrow> c = CHR 0x5C"
  "(of_char c :: nat) = 8 \<longleftrightarrow> c = CHR 0x08" "(of_char c :: nat) = 9 \<longleftrightarrow> c = CHR 0x09"
  "(of_char c :: nat) = 10 \<longleftrightarrow> c = CHR 0x0A" "(of_char c :: nat) = 12 \<longleftrightarrow> c = CHR 0x0C"
  "(of_char c :: nat) = 13 \<longleftrightarrow> c = CHR 0x0D"
  using of_char_nat_eq [of c "CHR 0x22"] of_char_nat_eq [of c "CHR 0x5C"] of_char_nat_eq [of c "CHR 0x08"]
    of_char_nat_eq [of c "CHR 0x09"] of_char_nat_eq [of c "CHR 0x0A"] of_char_nat_eq [of c "CHR 0x0C"]
    of_char_nat_eq [of c "CHR 0x0D"]
  by simp_all

lemma hex_val_zero [simp]: "hex_val (CHR ''0'') = Some 0"
  by (simp add: hex_val_def)

lemma json_chars_escape_special:
  assumes "c \<in> {CHR 0x22, CHR 0x5C, CHR 0x08, CHR 0x09, CHR 0x0A, CHR 0x0C, CHR 0x0D}"
  shows "json_chars (escape_char c @ r) = cons_str [c] (json_chars r)"
  using assms by (elim insertE emptyE) (simp_all add: escape_char_def unescape_char_def)

lemma json_chars_escape_hex:
  assumes "\<not> (of_char c = (34::nat) \<or> of_char c = (92::nat) \<or> of_char c = (8::nat) \<or> of_char c = (9::nat)
      \<or> of_char c = (10::nat) \<or> of_char c = (12::nat) \<or> of_char c = (13::nat))"
    and "of_char c < (32::nat) \<or> of_char c = (38::nat) \<or> of_char c = (60::nat) \<or> of_char c = (62::nat)"
  shows "json_chars (escape_char c @ r) = cons_str [c] (json_chars r)"
proof -
  define n :: nat where "n = of_char c"
  have c: "char_of n = c" by (simp add: n_def)
  from assms(2) have "n < 128" by (auto simp: n_def)
  then have h: "hex4 (CHR ''0'' # CHR ''0'' # hex_digit (n div 16) # hex_digit (n mod 16) # r) = Some n"
    by simp
  have u: "unicode_escape n r' = ([c], 4)" for r'
    using \<open>n < 128\<close> c by (simp add: unicode_escape_def utf8_def)
  from assms have "escape_char c =
      [CHR 0x5C, CHR ''u'', CHR ''0'', CHR ''0'', hex_digit (n div 16), hex_digit (n mod 16)]"
    by (simp add: escape_char_def n_def Let_def)
  then show ?thesis by (simp add: h u del: hex4.simps)
qed

lemma json_chars_escape_char:
  "json_chars (escape_char c @ r) = cons_str [c] (json_chars r)"
proof -
  consider "c \<in> {CHR 0x22, CHR 0x5C, CHR 0x08, CHR 0x09, CHR 0x0A, CHR 0x0C, CHR 0x0D}"
    | "c \<notin> {CHR 0x22, CHR 0x5C, CHR 0x08, CHR 0x09, CHR 0x0A, CHR 0x0C, CHR 0x0D}"
      "of_char c < (32::nat) \<or> of_char c = (38::nat) \<or> of_char c = (60::nat) \<or> of_char c = (62::nat)"
    | "c \<notin> {CHR 0x22, CHR 0x5C, CHR 0x08, CHR 0x09, CHR 0x0A, CHR 0x0C, CHR 0x0D}"
      "\<not> (of_char c < (32::nat) \<or> of_char c = (38::nat) \<or> of_char c = (60::nat) \<or> of_char c = (62::nat))"
    by blast
  then show ?thesis
  proof cases
    case 1
    then show ?thesis by (rule json_chars_escape_special)
  next
    case 2
    then show ?thesis by (intro json_chars_escape_hex) (simp_all add: char_codes)
  next
    case 3
    then show ?thesis by (simp add: escape_char_def Let_def char_codes)
  qed
qed

lemma json_chars_quote:
  "json_chars (concat (map escape_char s) @ CHR 0x22 # r) = Some (s, r)"
  by (induction s) (simp_all add: json_chars_escape_char)

lemma skip_ws_Cons [simp]: "skip_ws (c # s) = (if is_jws c then skip_ws s else c # s)"
  by (simp add: skip_ws_def)

lemma skip_ws_Nil [simp]: "skip_ws [] = []"
  by (simp add: skip_ws_def)

definition num_stop :: "string \<Rightarrow> bool" where
  "num_stop r \<longleftrightarrow> (r = [] \<or> hd r = CHR '','' \<or> hd r = CHR '']'' \<or> hd r = CHR ''}'' \<or> hd r = CHR 0x0A)"


lemma num_stop_takeWhile [simp]:
  assumes "num_stop r"
  shows "takeWhile is_digit (s @ r) = takeWhile is_digit s"
    and "dropWhile is_digit (s @ r) = dropWhile is_digit s @ r"
proof -
  from assms have "takeWhile is_digit r = []" and "dropWhile is_digit r = r"
    by (cases r; auto simp: num_stop_def is_digit_def)+
  then show "takeWhile is_digit (s @ r) = takeWhile is_digit s"
    and "dropWhile is_digit (s @ r) = dropWhile is_digit s @ r"
    by (induction s) auto
qed

lemma num_int_append:
  "num_int s = Some (i, t) \<Longrightarrow> num_stop r \<Longrightarrow> num_int (s @ r) = Some (i, t @ r)"
  using num_stop_takeWhile [of r s]
  by (cases s) (auto simp: num_int_def simp del: takeWhile.simps dropWhile.simps num_stop_takeWhile
      split: if_splits)

lemma num_frac_append:
  assumes "num_frac s = Some (i, t)" and "num_stop r"
  shows "num_frac (s @ r) = Some (i, t @ r)"
proof (cases s)
  case Nil
  with assms show ?thesis by (cases r) (auto simp: num_frac_def num_stop_def)
next
  case (Cons c u)
  with assms show ?thesis by (auto simp: num_frac_def split: if_splits)
qed

lemma num_exp_append:
  assumes "num_exp s = Some (i, t)" and "num_stop r"
  shows "num_exp (s @ r) = Some (i, t @ r)"
proof (cases s)
  case Nil
  with assms show ?thesis by (cases r) (auto simp: num_exp_def num_stop_def)
next
  case (Cons c u)
  show ?thesis
  proof (cases u)
    case Nil
    with Cons assms show ?thesis by (auto simp: num_exp_def split: if_splits)
  next
    case (Cons d v)
    have "takeWhile is_digit (d # v @ r) = takeWhile is_digit (d # v)"
      and "dropWhile is_digit (d # v @ r) = dropWhile is_digit (d # v) @ r"
      using num_stop_takeWhile [OF assms(2), of "d # v"] by simp_all
    with Cons \<open>s = c # u\<close> assms show ?thesis
      by (auto simp: num_exp_def Let_def simp del: takeWhile.simps dropWhile.simps split: if_splits)
  qed
qed

lemma json_number_append:
  assumes "json_number s = Some (l, t)" and "num_stop r"
  shows "json_number (s @ r) = Some (l, t @ r)"
proof -
  let ?sg = "if hasPrefix s ''-'' then ''-'' else []"
  from assms(1) obtain i f x r1 r2 where
    i: "num_int (drop (length ?sg) s) = Some (i, r1)" and
    f: "num_frac r1 = Some (f, r2)" and x: "num_exp r2 = Some (x, t)" and l: "l = ?sg @ i @ f @ x"
    by (auto simp: json_number_def Let_def split: option.splits)
  from i have "s \<noteq> []" by (auto simp: num_int_def)
  then have sg: "hasPrefix (s @ r) ''-'' = hasPrefix s ''-''" by (cases s) auto
  have dr: "drop (length ?sg) (s @ r) = drop (length ?sg) s @ r"
    using \<open>s \<noteq> []\<close> by (cases s) auto
  show ?thesis
    using num_int_append [OF i assms(2)] num_frac_append [OF f assms(2)] num_exp_append [OF x assms(2)]
    by (simp add: json_number_def Let_def sg dr l del: drop_append append.simps)
qed

lemma wf_num_append: "wf_num l \<Longrightarrow> num_stop r \<Longrightarrow> json_number (l @ r) = Some (l, r)"
  using json_number_append [of l l "[]" r] by (simp add: wf_num_def)

lemma wf_num_hd:
  assumes "wf_num l"
  obtains c t where "l = c # t" and "is_digit c \<or> c = CHR ''-''"
proof -
  from assms obtain i r1 where
    "num_int (drop (length (if hasPrefix l ''-'' then ''-'' else [])) l) = Some (i, r1)"
    by (auto simp: wf_num_def json_number_def Let_def split: option.splits)
  then have "l \<noteq> []" and "hasPrefix l ''-'' \<or> is_digit (hd l)"
    by (auto simp: num_int_def is_digit_def split: list.splits if_splits)
  then show thesis using that by (cases l) auto
qed

lemma nat_dec_hd: "0 < n \<Longrightarrow> hd (nat_dec n) \<noteq> CHR ''0''"
proof (induction n rule: nat_dec.induct)
  case (1 n)
  show ?case
  proof (cases "n < 10")
    case True
    then have "hd (nat_dec n) = digit_char n" by (subst nat_dec.simps) simp
    moreover from True "1.prems" have "digit_val (digit_char n) \<noteq> digit_val (CHR ''0'')"
      by (simp, simp add: digit_val_def)
    ultimately show ?thesis by metis
  next
    case False
    with 1 have "hd (nat_dec (n div 10)) \<noteq> CHR ''0''" by simp
    with False show ?thesis by (subst nat_dec.simps) simp
  qed
qed

lemma num_int_nat_dec: "num_int (nat_dec n) = Some (nat_dec n, [])"
proof (cases "n = 0")
  case True
  have "nat_dec 0 = ''0''" 
    using of_char_nat_eq [of "digit_char 0" "CHR ''0''"]
    by (subst nat_dec.simps) (simp add: digit_char_def)
  with True show ?thesis by (simp add: num_int_def)
next
  case False
  obtain c t where d: "nat_dec n = c # t" by (meson nat_dec_nonempty neq_Nil_conv)
  from False nat_dec_hd [of n] have "c \<noteq> CHR ''0''" by (simp add: d)
  moreover have "takeWhile is_digit (nat_dec n) = nat_dec n" and "dropWhile is_digit (nat_dec n) = []"
    using nat_dec_digits [of n] by (simp_all add: list_all_iff takeWhile_eq_all_conv)
  moreover have "is_digit c" using nat_dec_digits [of n] by (simp add: d)
  ultimately show ?thesis by (simp add: num_int_def d)
qed

lemma wf_num_formatInt [simp]: "wf_num (formatInt i)"
proof -
  have "\<not> hasPrefix (nat_dec n) ''-''" for n
    using digits_hd(1) [OF nat_dec_nonempty nat_dec_digits, of n] by (cases "nat_dec n") auto
  then show ?thesis
    by (auto simp: wf_num_def formatInt_def json_number_def num_int_nat_dec num_frac_def num_exp_def)
qed

lemma wf_json_print_hd:
  assumes "wf_json j"
  shows "json_print j \<noteq> [] \<and> \<not> is_jws (hd (json_print j)) \<and>
    hd (json_print j) \<noteq> CHR '']'' \<and> hd (json_print j) \<noteq> CHR ''}''"
proof (cases j)
  case (JNum l)
  with assms obtain c t where "l = c # t" and "is_digit c \<or> c = CHR ''-''"
    by (auto elim: wf_num_hd)
  moreover from this have "\<not> is_jws c" and "c \<noteq> CHR '']''" and "c \<noteq> CHR ''}''"
    by (auto simp: is_jws_def is_digit_def Let_def)
  ultimately show ?thesis using JNum by simp
next
  case (JBool b)
  then show ?thesis by (cases b) (simp_all add: is_jws_def)
next
  case (JStr s)
  then show ?thesis by (simp add: json_quote_def is_jws_def)
qed (simp_all add: is_jws_def)

lemma json_value_number:
  assumes "wf_num l" and "num_stop r"
  shows "json_value (Suc n) (l @ r) = Some (JNum l, r)"
proof -
  from assms(1) obtain c t where l: "l = c # t" and c: "is_digit c \<or> c = CHR ''-''"
    by (rule wf_num_hd)
  from c have "\<not> is_jws c" and "c \<notin> {CHR ''{'', CHR ''['', CHR 0x22, CHR ''n'', CHR ''t'', CHR ''f''}"
    by (auto simp: is_jws_def is_digit_def Let_def)
  then show ?thesis using wf_num_append [OF assms] by (simp add: l)
qed

definition json_ok :: "json \<Rightarrow> bool" where
  "json_ok j \<longleftrightarrow> (\<forall>n r. 2 * length (json_print j) \<le> n \<longrightarrow> num_stop r \<longrightarrow>
      json_value n (json_print j @ r) = Some (j, r))"

lemma json_okD:
  "json_ok j \<Longrightarrow> 2 * length (json_print j) \<le> n \<Longrightarrow> num_stop r \<Longrightarrow>
    json_value n (json_print j @ r) = Some (j, r)"
  by (simp add: json_ok_def)

lemma num_stop_simps [simp]:
  "num_stop (CHR '','' # r)" "num_stop (CHR '']'' # r)" "num_stop (CHR ''}'' # r)" "num_stop []"
  by (simp_all add: num_stop_def)

definition elems_fuel :: "json list \<Rightarrow> nat" where
  "elems_fuel xs = (\<Sum>x\<leftarrow>xs. 2 * length (json_print x) + 1)"

lemma json_elems_print:
  assumes "xs \<noteq> []" and "\<forall>x \<in> set xs. json_ok x" and "elems_fuel xs \<le> n"
  shows "json_elems n (joinWith '','' (map json_print xs) @ CHR '']'' # r) = Some (xs, r)"
  using assms
proof (induction xs arbitrary: n)
  case (Cons x xs)
  then obtain m where n: "n = Suc m" by (cases n) (auto simp: elems_fuel_def)
  have x: "json_ok x" and m: "2 * length (json_print x) \<le> m"
    using Cons.prems n by (auto simp: elems_fuel_def)
  show ?case
  proof (cases "xs = []")
    case True
    with json_okD [OF x m, of "CHR '']'' # r"] show ?thesis by (simp add: n is_jws_def)
  next
    case False
    with Cons.prems n have "json_elems m (joinWith '','' (map json_print xs) @ CHR '']'' # r) = Some (xs, r)"
      by (intro Cons.IH) (auto simp: elems_fuel_def)
    moreover have "json_value m (json_print x @ CHR '','' # joinWith '','' (map json_print xs) @ CHR '']'' # r) =
        Some (x, CHR '','' # joinWith '','' (map json_print xs) @ CHR '']'' # r)"
      using x m by (rule json_okD) simp
    ultimately show ?thesis using False by (simp add: n joinWith_Cons is_jws_def)
  qed
qed simp

definition member_print :: "string \<times> json \<Rightarrow> string" where
  "member_print kv = json_quote (fst kv) @ CHR '':'' # json_print (snd kv)"

definition members_fuel :: "(string \<times> json) list \<Rightarrow> nat" where
  "members_fuel kvs = (\<Sum>kv\<leftarrow>kvs. 2 * length (json_print (snd kv)) + 1)"

lemma json_members_step:
  assumes "json_ok v" and "2 * length (json_print v) \<le> m" and "num_stop r"
  shows "json_members (Suc m) (member_print (k, v) @ r) =
    (case skip_ws r of
       [] \<Rightarrow> None
     | d # q' \<Rightarrow>
         if d = CHR '','' then map_option (\<lambda>(kvs, z). ((k, v) # kvs, z)) (json_members m q')
         else if d = CHR ''}'' then Some ([(k, v)], q')
         else None)"
  using json_okD [OF assms]
  by (simp add: member_print_def json_quote_def json_chars_quote is_jws_def)

lemma json_members_print:
  assumes "kvs \<noteq> []" and "\<forall>kv \<in> set kvs. json_ok (snd kv)" and "members_fuel kvs \<le> n"
  shows "json_members n (joinWith '','' (map member_print kvs) @ CHR ''}'' # r) = Some (kvs, r)"
  using assms
proof (induction kvs arbitrary: n)
  case (Cons kv kvs)
  obtain k v where kv: "kv = (k, v)" by fastforce
  from Cons.prems obtain m where n: "n = Suc m" by (cases n) (auto simp: members_fuel_def)
  have v: "json_ok v" and m: "2 * length (json_print v) \<le> m"
    using Cons.prems n by (auto simp: members_fuel_def kv)
  show ?case
  proof (cases "kvs = []")
    case True
    with json_members_step [OF v m, of "CHR ''}'' # r" k] show ?thesis
      by (simp add: n kv is_jws_def)
  next
    case False
    with Cons.prems n have "json_members m (joinWith '','' (map member_print kvs) @ CHR ''}'' # r) = Some (kvs, r)"
      by (intro Cons.IH) (auto simp: members_fuel_def)
    with False json_members_step [OF v m, of "CHR '','' # joinWith '','' (map member_print kvs) @ CHR ''}'' # r" k]
    show ?thesis by (simp add: n kv joinWith_Cons is_jws_def)
  qed
qed simp

lemma length_joinWith_print:
  "xs \<noteq> [] \<Longrightarrow> length (joinWith '','' (map f xs)) + 1 = (\<Sum>x\<leftarrow>xs. length (f x) + 1)"
proof (induction xs)
  case (Cons x xs)
  then show ?case by (cases "xs = []") (auto simp: joinWith_Cons)
qed simp

lemma sum_list_fuel_le:
  "(\<And>x. x \<in> set xs \<Longrightarrow> g x \<le> length (f x)) \<Longrightarrow>
    (\<Sum>x\<leftarrow>xs. 2 * g x + 1) \<le> 2 * (\<Sum>x\<leftarrow>xs. length (f x) + 1)"
  by (induction xs) (auto simp: algebra_simps, fastforce)

lemma json_ok_JArr:
  assumes "\<forall>x \<in> set xs. wf_json x" and "\<forall>x \<in> set xs. json_ok x"
  shows "json_ok (JArr xs)"
  unfolding json_ok_def
proof (intro allI impI)
  fix n r
  assume n: "2 * length (json_print (JArr xs)) \<le> n" and "num_stop r"
  then obtain m where m: "n = Suc m" by (cases n) auto
  show "json_value n (json_print (JArr xs) @ r) = Some (JArr xs, r)"
  proof (cases "xs = []")
    case True
    then show ?thesis by (simp add: m is_jws_def)
  next
    case False
    have "elems_fuel xs \<le> m"
      using n length_joinWith_print [OF False, of json_print] sum_list_fuel_le [of xs "\<lambda>x. length (json_print x)" json_print]
      by (simp add: m elems_fuel_def)
    then have "json_elems m (joinWith '','' (map json_print xs) @ CHR '']'' # r) = Some (xs, r)"
      using False assms(2) by (intro json_elems_print)
    moreover obtain c t where "joinWith '','' (map json_print xs) = c # t" and "\<not> is_jws c" and "c \<noteq> CHR '']''"
    proof -
      from False obtain x xs' where x: "xs = x # xs'" by (meson neq_Nil_conv)
      then have "wf_json x" using assms(1) by simp
      from wf_json_print_hd [OF this] obtain c t where "json_print x = c # t" "\<not> is_jws c" "c \<noteq> CHR '']''"
        by (cases "json_print x") auto
      with x show thesis using that by (cases "xs' = []") (auto simp: joinWith_Cons)
    qed
    ultimately show ?thesis by (simp add: m is_jws_def)
  qed
qed

lemma json_print_JObj: "json_print (JObj kvs) = CHR ''{'' # joinWith '','' (map member_print kvs) @ ''}''"
  by (simp add: member_print_def [abs_def])

lemma json_ok_JObj:
  assumes "\<forall>kv \<in> set kvs. json_ok (snd kv)"
  shows "json_ok (JObj kvs)"
  unfolding json_ok_def
proof (intro allI impI)
  fix n r
  assume n: "2 * length (json_print (JObj kvs)) \<le> n" and "num_stop r"
  then obtain m where m: "n = Suc m" by (cases n) auto
  show "json_value n (json_print (JObj kvs) @ r) = Some (JObj kvs, r)"
  proof (cases "kvs = []")
    case True
    then show ?thesis by (simp add: m is_jws_def)
  next
    case False
    have "length (json_print (snd kv)) \<le> length (member_print kv)" for kv
      by (simp add: member_print_def)
    then have "members_fuel kvs \<le> m"
      using n length_joinWith_print [OF False, of member_print]
        sum_list_fuel_le [of kvs "\<lambda>kv. length (json_print (snd kv))" member_print]
      by (simp add: m members_fuel_def json_print_JObj del: json_print.simps)
    then have "json_members m (joinWith '','' (map member_print kvs) @ CHR ''}'' # r) = Some (kvs, r)"
      using False assms by (intro json_members_print)
    moreover obtain t where "joinWith '','' (map member_print kvs) = CHR 0x22 # t"
    proof -
      from False obtain kv kvs' where x: "kvs = kv # kvs'" by (meson neq_Nil_conv)
      then show thesis using that
        by (cases "kvs' = []") (auto simp: joinWith_Cons member_print_def json_quote_def)
    qed
    ultimately show ?thesis by (simp add: m is_jws_def json_print_JObj del: json_print.simps)
  qed
qed

lemma json_okI:
  assumes "json_print j \<noteq> []" and "\<And>m r. num_stop r \<Longrightarrow> json_value (Suc m) (json_print j @ r) = Some (j, r)"
  shows "json_ok j"
  unfolding json_ok_def
proof (intro allI impI)
  fix n r
  assume n: "2 * length (json_print j) \<le> n" and r: "num_stop r"
  with assms(1) obtain m where "n = Suc m" by (cases n) auto
  with assms(2) [OF r] show "json_value n (json_print j @ r) = Some (j, r)" by simp
qed

lemma wf_json_ok: "wf_json j \<Longrightarrow> json_ok j"
proof (induction j)
  case (JArr xs)
  then show ?case by (intro json_ok_JArr) (auto simp: list_all_iff)
next
  case (JObj kvs)
  then have "json_ok (snd kv)" if "kv \<in> set kvs" for kv
    using that by (cases kv) (auto simp: list_all_iff snds.simps)
  then show ?case by (intro json_ok_JObj) simp
next
  case (JNum l)
  then have "wf_num l" and "l \<noteq> []" by (auto elim: wf_num_hd)
  then show ?case
    by (intro json_okI) (simp_all add: json_value_number del: json_value.simps)
next
  case (JStr s)
  then show ?case
    by (intro json_okI) (simp_all add: json_quote_def json_chars_quote is_jws_def)
next
  case (JBool b)
  then show ?case by (intro json_okI; cases b) (simp_all add: is_jws_def)
next
  case JNull
  then show ?case by (intro json_okI) (simp_all add: is_jws_def)
qed

text \<open>What \<^verbatim>\<open>json.Marshal\<close> writes, \<^verbatim>\<open>json.Unmarshal\<close> reads back.\<close>

lemma json_unmarshal_print [simp, go_conv]: "wf_json j \<Longrightarrow> json_unmarshal (json_print j) = Some j"
  using json_okD [OF wf_json_ok, of j "2 * length (json_print j) + 2" "[]"]
  by (simp add: json_unmarshal_def)

section \<open>The parser never runs out of fuel\<close>

lemma json_chars_shorter: "json_chars s = Some (x, r) \<Longrightarrow> length r < length s"
proof (induction s arbitrary: x rule: json_chars.induct)
  case 1
  then show ?case by simp
next
  case (2 c s)
  show ?case
  proof (cases "c = CHR 0x5C")
    case True
    with "2.prems" obtain e t where s: "s = e # t" by (auto split: list.splits)
    show ?thesis
    proof (cases "e = CHR ''u''")
      case u: True
      with True "2.prems" obtain n where n: "hex4 t = Some n" by (auto simp: s split: option.splits)
      with True u "2.prems" obtain y where
        "json_chars (drop (snd (unicode_escape n (drop 4 t))) t) = Some (y, r)"
        by (auto simp: s)
      from "2.IH"(1) [OF _ True s u n this] True have
        "length r < length (drop (snd (unicode_escape n (drop 4 t))) t)" by simp
      then show ?thesis by (simp add: s)
    next
      case False
      with True "2.prems" obtain b y where b: "unescape_char e = Some b" and "json_chars t = Some (y, r)"
        by (auto simp: s split: option.splits)
      from "2.IH"(2) [OF _ True s False b this(2)] True show ?thesis by (simp add: s)
    qed
  next
    case False
    with "2.prems" "2.IH"(3) show ?thesis by (fastforce split: if_splits)
  qed
qed

lemma skip_ws_length: "length (skip_ws s) \<le> length s"
  by (simp add: skip_ws_def length_dropWhile_le)

lemma skip_ws_Cons_length: "skip_ws s = c # t \<Longrightarrow> length t < length s"
  using skip_ws_length [of s] by simp

lemma json_number_shorter: "json_number s = Some (l, r) \<Longrightarrow> length r < length s"
proof -
  have f: "num_frac u = Some (a, v) \<Longrightarrow> length v \<le> length u" for u a v
    using length_dropWhile_le [of is_digit "tl u"]
    by (cases u) (auto simp: num_frac_def split: if_splits)
  have x: "num_exp u = Some (a, v) \<Longrightarrow> length v \<le> length u" for u a v
    by (cases u) (auto simp: num_exp_def Let_def split: if_splits intro: le_SucI le_trans [OF length_dropWhile_le])
  have i: "num_int u = Some (a, v) \<Longrightarrow> length v < length u" for u a v
    by (cases u) (auto simp: num_int_def less_Suc_eq_le length_dropWhile_le split: if_splits)
  show "json_number s = Some (l, r) \<Longrightarrow> length r < length s"
    by (fastforce simp: json_number_def Let_def split: option.splits dest!: f x i)
qed

lemma json_fuel:
  shows "json_value n s = Some (j, r) \<Longrightarrow>
      length r < length s \<and> (\<forall>m. 2 * length s \<le> m \<longrightarrow> json_value m s = Some (j, r))"
    and "json_elems n s = Some (js, r) \<Longrightarrow>
      length r < length s \<and> (\<forall>m. 2 * length s + 1 \<le> m \<longrightarrow> json_elems m s = Some (js, r))"
    and "json_members n s = Some (kvs, r) \<Longrightarrow>
      length r < length s \<and> (\<forall>m. 2 * length s + 1 \<le> m \<longrightarrow> json_members m s = Some (kvs, r))"
proof (induction n s and n s and n s arbitrary: j r and js r and kvs r
    rule: json_value_json_elems_json_members.induct)
  case (2 n s)
  from "2.prems" obtain c t where s: "skip_ws s = c # t" by (auto split: list.splits)
  then have t: "length t < length s" by (rule skip_ws_Cons_length)
  have *: "\<exists>m'. m = Suc m' \<and> Suc (2 * length t) \<le> m'" if "2 * length s \<le> m" for m
    using that t by (cases m) auto
  have tl: "length (tl (skip_ws t)) < length s"
    using t skip_ws_length [of t] by simp
  consider "c = CHR ''{''" | "c = CHR ''[''" | "c \<noteq> CHR ''{''" "c \<noteq> CHR ''[''" by blast
  then show ?case
  proof cases
    case 1
    show ?thesis
    proof (cases "hasPrefix (skip_ws t) ''}''")
      case True
      with 1 s tl "2.prems" show ?thesis by (auto dest!: *)
    next
      case False
      with 1 s "2.prems" obtain kvs where "json_members n t = Some (kvs, r)" and "j = JObj kvs" by auto
      with "2.IH"(1) [OF s 1 False this(1)] 1 False s t show ?thesis by (auto dest!: *)
    qed
  next
    case 2
    then have nb: "c \<noteq> CHR ''{''" by simp
    show ?thesis
    proof (cases "hasPrefix (skip_ws t) '']''")
      case True
      with 2 s tl "2.prems" show ?thesis by (auto dest!: *)
    next
      case False
      with 2 s "2.prems" obtain js where "json_elems n t = Some (js, r)" and "j = JArr js" by auto
      with "2.IH"(2) [OF s nb 2 False this(1)] 2 False s t show ?thesis by (auto dest!: *)
    qed
  next
    case 3
    let ?lit = "hasPrefix (c # t) ''null'' \<or> hasPrefix (c # t) ''true'' \<or> hasPrefix (c # t) ''false''"
    have "length r \<le> length t"
    proof (cases "c = CHR 0x22")
      case True
      with s "2.prems" obtain x where "json_chars t = Some (x, r)" by auto
      then show ?thesis using json_chars_shorter by fastforce
    next
      case q: False
      show ?thesis
      proof (cases ?lit)
        case True
        with 3 q s "2.prems" have "r = drop 4 (c # t) \<or> r = drop 5 (c # t)" by (simp split: if_splits)
        then show ?thesis by auto
      next
        case False
        with 3 q s "2.prems" obtain l where "json_number (c # t) = Some (l, r)" by auto
        then show ?thesis using json_number_shorter by fastforce
      qed
    qed
    with t have "length r < length s" by simp
    have same: "json_value (Suc m) s = json_value (Suc n) s" for m using 3 s by simp
    have "json_value m s = Some (j, r)" if "2 * length s \<le> m" for m
      using * [OF that] same "2.prems" by (elim exE conjE) (simp only:)
    with \<open>length r < length s\<close> show ?thesis by blast
  qed
next
  case (4 n s)
  from "4.prems" obtain v q where v: "json_value n s = Some (v, q)" by (auto split: option.splits)
  with "4.prems" obtain c q' where q: "skip_ws q = c # q'" by (auto split: list.splits)
  then have q': "length q' < length q" by (rule skip_ws_Cons_length)
  from "4.IH"(1) [OF v] have lq: "length q < length s"
    and fv: "\<And>m. 2 * length s \<le> m \<Longrightarrow> json_value m s = Some (v, q)" by auto
  have *: "\<exists>m'. m = Suc m' \<and> 2 * length s \<le> m' \<and> Suc (2 * length q') \<le> m'" if "Suc (2 * length s) \<le> m" for m
    using that lq q' by (cases m) auto
  show ?case
  proof (cases "c = CHR '',''")
    case True
    with v q "4.prems" obtain vs where vs: "json_elems n q' = Some (vs, r)" and "js = v # vs" by auto
    with "4.IH"(2) [OF v _ q True vs] True q lq q' show ?thesis by (auto simp: fv dest!: *)
  next
    case False
    with v q "4.prems" have "c = CHR '']''" "js = [v]" "r = q'" by (auto split: if_splits)
    with q lq q' show ?thesis by (auto simp: fv dest!: *)
  qed
next
  case (6 n s)
  from "6.prems" obtain c t where s: "skip_ws s = c # t" by (auto split: list.splits)
  then have t: "length t < length s" by (rule skip_ws_Cons_length)
  from s "6.prems" have c: "c = CHR 0x22" by (auto split: if_splits)
  from s c "6.prems" obtain k p where k: "json_chars t = Some (k, p)" by (auto split: option.splits)
  from s c k "6.prems" obtain d p' where p: "skip_ws p = d # p'" by (auto split: list.splits)
  from s c k p "6.prems" have d: "d = CHR '':''" by (auto split: if_splits)
  from s c k p d "6.prems" obtain v q where v: "json_value n p' = Some (v, q)" by (auto split: option.splits)
  from s c k p d v "6.prems" obtain e q' where q: "skip_ws q = e # q'" by (auto split: list.splits)
  have p': "length p' < length s"
    using t json_chars_shorter [OF k] skip_ws_Cons_length [OF p] by simp
  from "6.IH"(1) [OF s c k _ p d v] have lq: "length q < length p'"
    and fv: "\<And>m. 2 * length p' \<le> m \<Longrightarrow> json_value m p' = Some (v, q)" by auto
  have q': "length q' < length s" using lq p' skip_ws_Cons_length [OF q] by simp
  have *: "\<exists>m'. m = Suc m' \<and> 2 * length p' \<le> m' \<and> Suc (2 * length q') \<le> m'" if "Suc (2 * length s) \<le> m" for m
    using that p' q' by (cases m) auto
  show ?case
  proof (cases "e = CHR '',''")
    case True
    with s c k p d v q "6.prems" obtain ms where ms: "json_members n q' = Some (ms, r)"
      and "kvs = (k, v) # ms" by auto
    with "6.IH"(2) [OF s c k refl p d v refl q True ms] True s c k p d q q' show ?thesis by (auto simp: fv dest!: *)
  next
    case False
    with s c k p d v q "6.prems" have "e = CHR ''}''" "kvs = [(k, v)]" "r = q'" by (auto split: if_splits)
    with s c k p d q q' show ?thesis by (auto simp: fv dest!: *)
  qed
qed simp_all

lemma json_unmarshal_complete:
  "json_value n s = Some (j, r) \<Longrightarrow> skip_ws r = [] \<Longrightarrow> json_unmarshal s = Some j"
  using json_fuel(1) [of n s j r] by (simp add: json_unmarshal_def del: json_value.simps)

section \<open>Decoding into Go values\<close>

text \<open>Printed text has no control characters, so a document fits on one line of a log.\<close>

definition num_char :: "char \<Rightarrow> bool" where
  "num_char c \<longleftrightarrow> is_digit c \<or> c \<in> set ''-+.eE''"

lemma takeWhile_num: "c \<in> set (takeWhile is_digit s) \<Longrightarrow> num_char c"
  by (auto simp: num_char_def dest: set_takeWhileD)

lemma num_frac_chars: "num_frac s = Some (i, t) \<Longrightarrow> c \<in> set i \<Longrightarrow> num_char c"
  by (auto simp: num_frac_def num_char_def dest!: set_takeWhileD split: list.splits if_splits)

lemma num_exp_chars: "num_exp s = Some (i, t) \<Longrightarrow> c \<in> set i \<Longrightarrow> num_char c"
  by (auto simp: num_exp_def num_char_def Let_def dest!: set_takeWhileD split: list.splits if_splits)

lemma num_int_chars: "num_int s = Some (i, t) \<Longrightarrow> c \<in> set i \<Longrightarrow> num_char c"
  by (auto simp: num_int_def num_char_def is_digit_def dest!: set_takeWhileD split: list.splits if_splits)

lemma wf_num_chars: "wf_num l \<Longrightarrow> c \<in> set l \<Longrightarrow> num_char c"
proof -
  assume l: "wf_num l" "c \<in> set l"
  define sg where "sg = (if hasPrefix l ''-'' then ''-'' else [] :: string)"
  obtain i r where i: "num_int (drop (length sg) l) = Some (i, r)"
    using l(1) by (cases "num_int (drop (length sg) l)") (auto simp: wf_num_def json_number_def Let_def sg_def)
  obtain f r2 where f: "num_frac r = Some (f, r2)"
    using l(1) i by (cases "num_frac r") (auto simp: wf_num_def json_number_def Let_def sg_def)
  obtain e r3 where e: "num_exp r2 = Some (e, r3)"
    using l(1) i f by (cases "num_exp r2") (auto simp: wf_num_def json_number_def Let_def sg_def)
  have "json_number l = Some (sg @ i @ f @ e, r3)"
    unfolding json_number_def sg_def [symmetric] Let_def by (simp add: i f e)
  then have "l = sg @ i @ f @ e" using l(1) by (simp add: wf_num_def)
  then have "c \<in> set sg \<or> c \<in> set i \<or> c \<in> set f \<or> c \<in> set e" using l(2) by (metis Un_iff set_append)
  moreover have "c \<in> set sg \<Longrightarrow> num_char c" by (auto simp: sg_def num_char_def split: if_splits)
  ultimately show "num_char c"
    using num_int_chars [OF i] num_frac_chars [OF f] num_exp_chars [OF e] by blast
qed

definition printable :: "char \<Rightarrow> bool" where
  "printable c \<longleftrightarrow> 32 \<le> (of_char c :: nat)"

lemma num_char_printable: "num_char c \<Longrightarrow> printable c"
  by (auto simp: num_char_def printable_def is_digit_def Let_def)

lemma escape_printable: "d \<in> set (escape_char c) \<Longrightarrow> printable d"
proof -
  have "printable (hex_digit n)" if "n < 16" for n
    using that by (auto simp: printable_def hex_digit_def)
  moreover have "(of_char c :: nat) div 16 < 16" by (simp add: of_char_of less_mult_imp_div_less)
  ultimately show "d \<in> set (escape_char c) \<Longrightarrow> printable d"
    by (auto simp: escape_char_def Let_def printable_def split: if_splits)
qed

lemma quote_printable: "c \<in> set (json_quote s) \<Longrightarrow> printable c"
  by (auto simp: json_quote_def dest: escape_printable) (simp_all add: printable_def)

lemma joinWith_chars: "c \<in> set (joinWith sep ws) \<Longrightarrow> c \<in> set sep \<or> (\<exists>w \<in> set ws. c \<in> set w)"
  by (induction sep ws rule: joinWith.induct) auto

lemma json_print_printable: "wf_json j \<Longrightarrow> c \<in> set (json_print j) \<Longrightarrow> printable c"
proof (induction j arbitrary: c)
  case (JArr xs)
  have p: "printable (CHR ''['')" "printable (CHR '']'')" "printable (CHR '','')" by (simp_all add: printable_def)
  from JArr show ?case by (auto simp: list_all_iff p dest!: joinWith_chars)
next
  case (JObj kvs)
  have p: "printable (CHR ''{'')" "printable (CHR ''}'')" "printable (CHR '','')" "printable (CHR '':'')"
    by (simp_all add: printable_def)
  have "printable x" if kv: "(k, v) \<in> set kvs" and x: "x \<in> set (json_quote k @ CHR '':'' # json_print v)" for k v x
    using JObj.IH [OF kv, of v x] JObj.prems(1) kv x p quote_printable [of x k] by (auto simp: list_all_iff)
  with JObj.prems(2) show ?case by (auto simp: p dest!: joinWith_chars)
next
  case (JBool b)
  then show ?case by (cases b) (auto simp: printable_def)
next
  case (JNum l)
  then show ?case using num_char_printable [OF wf_num_chars] by simp
next
  case (JStr s)
  then show ?case using quote_printable by simp
qed (auto simp: printable_def)

text \<open>
  The destination of a decode is a struct field: a key matches it up to letter case, the last of
  several matching keys wins, an absent key and \<^verbatim>\<open>null\<close> leave the zero value, and a value of
  the wrong type is an error (\<open>None\<close>).
\<close>

definition jfield :: "string \<Rightarrow> (string \<times> json) list \<Rightarrow> json option" where
  "jfield k kvs = map_option snd (List.find (\<lambda>kv. equalFold (fst kv) k) (rev kvs))"

lemma jfield_Nil [simp]: "jfield k [] = None"
  by (simp add: jfield_def)

lemma find_append: "List.find P (xs @ ys) = (case List.find P xs of None \<Rightarrow> List.find P ys | r \<Rightarrow> r)"
  by (induction xs) auto

lemma jfield_append:
  "jfield k (xs @ ys) = (case jfield k ys of None \<Rightarrow> jfield k xs | Some v \<Rightarrow> Some v)"
  by (simp add: jfield_def find_append split: option.splits)

lemma jfield_Cons:
  "jfield k (kv # kvs) = (case jfield k kvs of None \<Rightarrow> if equalFold (fst kv) k then Some (snd kv) else None | Some v \<Rightarrow> Some v)"
proof -
  have "jfield k [kv] = (if equalFold (fst kv) k then Some (snd kv) else None)" by (simp add: jfield_def)
  with jfield_append [of k "[kv]" kvs] show ?thesis by (cases "jfield k kvs") (simp_all only: append.simps option.case)
qed

fun dec_string :: "json option \<Rightarrow> string option" where
  "dec_string (Some (JStr s)) = Some s"
| "dec_string (Some JNull) = Some []"
| "dec_string None = Some []"
| "dec_string _ = None"

fun dec_int :: "json option \<Rightarrow> int option" where
  "dec_int (Some (JNum l)) = parseInt l"
| "dec_int (Some JNull) = Some 0"
| "dec_int None = Some 0"
| "dec_int _ = None"

fun dec_int_ptr :: "json option \<Rightarrow> int option option" where
  "dec_int_ptr (Some (JNum l)) = map_option Some (parseInt l)"
| "dec_int_ptr (Some JNull) = Some None"
| "dec_int_ptr None = Some None"
| "dec_int_ptr _ = None"

fun dec_bool :: "json option \<Rightarrow> bool option" where
  "dec_bool (Some (JBool b)) = Some b"
| "dec_bool (Some JNull) = Some False"
| "dec_bool None = Some False"
| "dec_bool _ = None"

fun opt_all :: "('a \<Rightarrow> 'b option) \<Rightarrow> 'a list \<Rightarrow> 'b list option" where
  "opt_all f [] = Some []"
| "opt_all f (x # xs) =
     (case f x of None \<Rightarrow> None
      | Some y \<Rightarrow> (case opt_all f xs of None \<Rightarrow> None | Some ys \<Rightarrow> Some (y # ys)))"

lemma opt_all_cong [fundef_cong]:
  assumes "xs = ys" and "\<And>x. x \<in> set ys \<Longrightarrow> f x = g x"
  shows "opt_all f xs = opt_all g ys"
proof -
  have "opt_all f ys = opt_all g ys"
    using assms(2) by (induction ys) (auto split: option.splits)
  with assms(1) show ?thesis by simp
qed

lemma opt_all_map: "(\<And>x. x \<in> set xs \<Longrightarrow> f (g x) = Some (h x)) \<Longrightarrow> opt_all f (map g xs) = Some (map h xs)"
  by (induction xs) auto

lemma opt_all_map_id: "(\<And>x. x \<in> set xs \<Longrightarrow> f (g x) = Some x) \<Longrightarrow> opt_all f (map g xs) = Some xs"
  using opt_all_map [of xs f g "\<lambda>x. x"] by simp

fun dec_list :: "(json \<Rightarrow> 'a option) \<Rightarrow> json option \<Rightarrow> 'a list option" where
  "dec_list f (Some (JArr xs)) = opt_all f xs"
| "dec_list f (Some JNull) = Some []"
| "dec_list f None = Some []"
| "dec_list f _ = None"

text \<open>A JSON object decoded into a Go map: later keys overwrite earlier ones.\<close>

fun dec_map :: "(json \<Rightarrow> 'a option) \<Rightarrow> json option \<Rightarrow> (string, 'a) gomap option" where
  "dec_map f (Some (JObj kvs)) =
     map_option (foldl (\<lambda>m kv. map_put (fst kv) (snd kv) m) [])
       (opt_all (\<lambda>kv. map_option (Pair (fst kv)) (f (snd kv))) kvs)"
| "dec_map f (Some JNull) = Some []"
| "dec_map f None = Some []"
| "dec_map f _ = None"

lemma foldl_map_put_distinct:
  "wf_map (m @ kvs) \<Longrightarrow> foldl (\<lambda>m kv. map_put (fst kv) (snd kv) m) m kvs = m @ kvs"
proof (induction kvs arbitrary: m)
  case (Cons kv kvs)
  obtain k v where kv: "kv = (k, v)" by fastforce
  have "k \<notin> fst ` set m" using Cons.prems by (auto simp: wf_map_def kv)
  then have "map_put k v m = m @ [(k, v)]"
    by (induction m) (auto simp: map_put_def)
  with Cons.IH [of "m @ [kv]"] Cons.prems show ?case by (simp add: kv)
qed simp

lemma dec_map_roundtrip:
  assumes "wf_map m" and "\<And>k v. (k, v) \<in> set m \<Longrightarrow> f (g v) = Some v"
  shows "dec_map f (Some (JObj (map (\<lambda>kv. (fst kv, g (snd kv))) m))) = Some m"
proof -
  have "opt_all (\<lambda>kv. map_option (Pair (fst kv)) (f (snd kv))) (map (\<lambda>kv. (fst kv, g (snd kv))) m) = Some m"
    by (rule opt_all_map_id) (use assms(2) in force)
  with assms(1) foldl_map_put_distinct [of "[]" m] show ?thesis by simp
qed

text \<open>\<^verbatim>\<open>json.Marshal\<close> of a Go map writes the keys in sorted order.\<close>

definition enc_map :: "('a \<Rightarrow> json) \<Rightarrow> (string, 'a) gomap \<Rightarrow> json" where
  "enc_map g m = JObj (map (\<lambda>kv. (fst kv, g (snd kv))) (sort_key fst m))"

lemma dec_enc_map:
  assumes "wf_map m" and "\<And>k v. (k, v) \<in> set m \<Longrightarrow> f (g v) = Some v"
  shows "dec_map f (Some (enc_map g m)) = Some (sort_key fst m)"
  unfolding enc_map_def by (rule dec_map_roundtrip) (use assms in auto)

lemma jfield_size: "jfield k kvs = Some v \<Longrightarrow> size v < size (JObj kvs)"
proof -
  assume "jfield k kvs = Some v"
  then obtain kv where "kv \<in> set kvs" and v: "v = snd kv"
    by (auto simp: jfield_def find_Some_iff) (metis length_rev nth_mem set_rev snd_conv)
  then have "size_prod (\<lambda>_. 0) size kv \<le> size_list (size_prod (\<lambda>_. 0) size) kvs"
    using elem_size_list by fast
  with v show ?thesis by (cases kv) simp
qed

lemma dec_list_elems: "dec_list g j = Some ys \<Longrightarrow> y \<in> set ys \<Longrightarrow>
    \<exists>xs x. j = Some (JArr xs) \<and> x \<in> set xs \<and> g x = Some y"
proof -
  have "opt_all g xs = Some ys \<Longrightarrow> y \<in> set ys \<Longrightarrow> \<exists>x \<in> set xs. g x = Some y" for xs ys
    by (induction xs arbitrary: ys) (auto split: option.splits)
  then show "dec_list g j = Some ys \<Longrightarrow> y \<in> set ys \<Longrightarrow> ?thesis"
    by (cases "(g, j)" rule: dec_list.cases) auto
qed

end
