(* ===== verification/Model_Core.thy ===== *)
theory Model_Core
  imports Json_Codec
begin

text \<open>
  The canonical pivot model of \<^verbatim>\<open>pkg/model\<close>: types, schemas, partition specifications, tables,
  data files, statistics, snapshots and changes. Every format adapter reads into it and writes
  from it. A Go pointer that may be nil is an \<^typ>\<open>'a option\<close>; the mutually recursive structs
  \<^verbatim>\<open>Schema\<close> and \<^verbatim>\<open>Field\<close> are a mutual datatype, all other structs are records. The lemmas show
  that \<^verbatim>\<open>AllFields\<close> terminates and visits exactly the nested fields, and how
  \<^verbatim>\<open>FieldByPath\<close> resolves a path.
\<close>

section \<open>Values\<close>

text \<open>
  Go's \<^verbatim>\<open>any\<close>. A finite float is given by a decimal literal that denotes it, because the code only
  stores and renders floats; NaN and the infinities are separate since it does test for them.
\<close>

datatype gfloat = FNaN | FPosInf | FNegInf | FFin string

datatype metadata_value = MetadataValueMicros | MetadataValueMillis | MetadataValueNanos

fun metadata_value_text :: "metadata_value \<Rightarrow> string" where
  "metadata_value_text MetadataValueMicros = ''MICROS''"
| "metadata_value_text MetadataValueMillis = ''MILLIS''"
| "metadata_value_text MetadataValueNanos = ''NANOS''"

datatype any =
    ANil
  | ABool bool
  | AInt int
  | AInt32 int
  | AInt64 int
  | AFloat32 gfloat
  | AFloat64 gfloat
  | AStr string
  | ABytes string
  | AMeta metadata_value
  | ABig int
  | AMap "(string \<times> any) list"
  | AList "any list"

fun float_text :: "gfloat \<Rightarrow> string" where
  "float_text FNaN = ''NaN''"
| "float_text FPosInf = ''+Inf''"
| "float_text FNegInf = ''-Inf''"
| "float_text (FFin l) = l"

text \<open>\<^verbatim>\<open>fmt.Sprintf("%v", x)\<close>; maps are printed in key order.\<close>

fun sprintv :: "any \<Rightarrow> string" where
  "sprintv ANil = ''<nil>''"
| "sprintv (ABool b) = (if b then ''true'' else ''false'')"
| "sprintv (AInt i) = formatInt i"
| "sprintv (AInt32 i) = formatInt i"
| "sprintv (AInt64 i) = formatInt i"
| "sprintv (AFloat32 f) = float_text f"
| "sprintv (AFloat64 f) = float_text f"
| "sprintv (AStr s) = s"
| "sprintv (ABytes s) = ''['' @ joinWith '' '' (map (\<lambda>c. nat_dec (of_char c)) s) @ '']''"
| "sprintv (AMeta v) = metadata_value_text v"
| "sprintv (ABig i) = formatInt i"
| "sprintv (AMap m) =
     ''map['' @ joinWith '' '' (map (\<lambda>kv. fst kv @ CHR '':'' # snd kv)
        (sort_key fst (map (\<lambda>kv. (fst kv, sprintv (snd kv))) m))) @ '']''"
| "sprintv (AList xs) = ''['' @ joinWith '' '' (map sprintv xs) @ '']''"

section \<open>Types and formats\<close>

datatype dtype =
    TypeRecord | TypeEnum | TypeList | TypeMap | TypeUnion | TypeUUID | TypeFixed | TypeString
  | TypeBytes | TypeInt | TypeLong | TypeFloat | TypeDouble | TypeBoolean | TypeNull | TypeDate
  | TypeDecimal | TypeTimestamp | TypeTimestampNTZ

fun Type_String :: "dtype \<Rightarrow> string" where
  "Type_String TypeRecord = ''RECORD''"
| "Type_String TypeEnum = ''ENUM''"
| "Type_String TypeList = ''LIST''"
| "Type_String TypeMap = ''MAP''"
| "Type_String TypeUnion = ''UNION''"
| "Type_String TypeUUID = ''UUID''"
| "Type_String TypeFixed = ''FIXED''"
| "Type_String TypeString = ''STRING''"
| "Type_String TypeBytes = ''BYTES''"
| "Type_String TypeInt = ''INT''"
| "Type_String TypeLong = ''LONG''"
| "Type_String TypeFloat = ''FLOAT''"
| "Type_String TypeDouble = ''DOUBLE''"
| "Type_String TypeBoolean = ''BOOLEAN''"
| "Type_String TypeNull = ''NULL''"
| "Type_String TypeDate = ''DATE''"
| "Type_String TypeDecimal = ''DECIMAL''"
| "Type_String TypeTimestamp = ''TIMESTAMP''"
| "Type_String TypeTimestampNTZ = ''TIMESTAMP_NTZ''"

definition IsNonScalar :: "dtype \<Rightarrow> bool" where
  "IsNonScalar t \<longleftrightarrow> (case t of TypeRecord \<Rightarrow> True | TypeList \<Rightarrow> True | TypeMap \<Rightarrow> True | TypeUnion \<Rightarrow> True | _ \<Rightarrow> False)"

datatype metadata_key =
    DecimalScale | DecimalPrecision | EnumValues | FixedBytesSize | TimestampPrecision

datatype file_format = FileFormatParquet | FileFormatORC | FileFormatAvro

text \<open>\<^verbatim>\<open>TableFormat\<close> is a string type: a configuration may carry any value, the empty one included.\<close>

type_synonym table_format = string

definition TableFormatHudi :: table_format where "TableFormatHudi = ''HUDI''"
definition TableFormatIceberg :: table_format where "TableFormatIceberg = ''ICEBERG''"
definition TableFormatDelta :: table_format where "TableFormatDelta = ''DELTA''"
definition TableFormatPaimon :: table_format where "TableFormatPaimon = ''PAIMON''"
definition TableFormatParquet :: table_format where "TableFormatParquet = ''PARQUET''"

lemmas table_format_defs =
  TableFormatHudi_def TableFormatIceberg_def TableFormatDelta_def TableFormatPaimon_def TableFormatParquet_def

definition SupportedTableFormats :: "table_format list" where
  "SupportedTableFormats =
     [TableFormatHudi, TableFormatIceberg, TableFormatDelta, TableFormatPaimon, TableFormatParquet]"

definition ParseTableFormat :: "string \<Rightarrow> table_format res" where
  "ParseTableFormat s =
     (let u = toUpper (trimSpace s) in
      if u = ''HUDI'' then Inr TableFormatHudi
      else if u = ''ICEBERG'' then Inr TableFormatIceberg
      else if u = ''DELTA'' then Inr TableFormatDelta
      else if u = ''PAIMON'' then Inr TableFormatPaimon
      else if u = ''PARQUET'' then Inr TableFormatParquet
      else Inl (ErrMsg (''unknown table format '' @ quoted s @
        '' (expected one of: DELTA, ICEBERG, HUDI, PAIMON, PARQUET)'')))"

lemma ParseTableFormat_supported: "ParseTableFormat s = Inr f \<Longrightarrow> f \<in> set SupportedTableFormats"
  by (auto simp: ParseTableFormat_def SupportedTableFormats_def Let_def split: if_splits)

lemma ParseTableFormat_canonical: "f \<in> set SupportedTableFormats \<Longrightarrow> ParseTableFormat f = Inr f"
  by (auto simp: SupportedTableFormats_def ParseTableFormat_def table_format_defs toUpper_def trimSpace_def
      is_space_def upper_char_def)

section \<open>Schemas\<close>

datatype schema = Schema
    (SchemaName: string)
    (DataType: dtype)
    (Comment: string)
    (IsNullable: bool)
    (Fields: "field list")
    (ElementSchema: "field option")
    (KeySchema: "field option")
    (ValueSchema: "field option")
    (RecordKeyFields: "field list")
    (Metadata: "metadata_key \<Rightarrow> any option")
  and field = Field
    (FieldName: string)
    (ParentPath: string)
    (FieldSchema: "schema option")
    (FieldID: "int option")
    (DefaultValue: any)

text \<open>A struct literal \<^verbatim>\<open>&model.Field{Name: n, Schema: s}\<close>.\<close>

abbreviation mkField :: "string \<Rightarrow> schema option \<Rightarrow> field" where
  "mkField n s \<equiv> Field n '''' s None ANil"

definition Field_Path :: "field \<Rightarrow> string" where
  "Field_Path f = (if ParentPath f = '''' then FieldName f else ParentPath f @ ''.'' @ FieldName f)"

definition NewPrimitiveSchema :: "dtype \<Rightarrow> bool \<Rightarrow> schema" where
  "NewPrimitiveSchema t nullable = Schema '''' t '''' nullable [] None None None [] Map.empty"

definition NewDecimalSchema :: "int \<Rightarrow> int \<Rightarrow> bool \<Rightarrow> schema" where
  "NewDecimalSchema precision scale nullable =
     Schema '''' TypeDecimal '''' nullable [] None None None []
       [DecimalPrecision \<mapsto> AInt precision, DecimalScale \<mapsto> AInt scale]"

definition NewRecordSchema :: "string \<Rightarrow> field list \<Rightarrow> bool \<Rightarrow> schema" where
  "NewRecordSchema name fields nullable =
     Schema name TypeRecord '''' nullable fields None None None [] Map.empty"

text \<open>The list and map schemas every reader builds, and the two parameters of a decimal with their defaults.\<close>

definition list_schema :: "schema \<Rightarrow> bool \<Rightarrow> schema" where
  "list_schema elem nullable =
     Schema '''' TypeList '''' nullable [] (Some (mkField ''element'' (Some elem))) None None [] Map.empty"

definition map_schema :: "schema \<Rightarrow> schema \<Rightarrow> bool \<Rightarrow> schema" where
  "map_schema k v nullable =
     Schema '''' TypeMap '''' nullable [] None (Some (mkField ''key'' (Some k)))
       (Some (mkField ''value'' (Some v))) [] Map.empty"

text \<open>The assignment \<^verbatim>\<open>s.IsNullable = n\<close>.\<close>

fun set_nullable :: "bool \<Rightarrow> schema \<Rightarrow> schema" where
  "set_nullable n (Schema nm t c _ fs e k v r m) = Schema nm t c n fs e k v r m"

definition decimal_precision :: "schema \<Rightarrow> int" where
  "decimal_precision s = (case Metadata s DecimalPrecision of Some (AInt p) \<Rightarrow> p | _ \<Rightarrow> 10)"

definition decimal_scale :: "schema \<Rightarrow> int" where
  "decimal_scale s = (case Metadata s DecimalScale of Some (AInt sc) \<Rightarrow> sc | _ \<Rightarrow> 0)"

lemma size_child_field: "f \<in> set (Fields s) \<Longrightarrow> FieldSchema f = Some t \<Longrightarrow> size t < size s"
proof -
  assume f: "f \<in> set (Fields s)" "FieldSchema f = Some t"
  have "size f \<le> size_list size (Fields s)" by (rule elem_size_list [OF f(1)])
  moreover have "size t < size f" using f(2) by (cases f) auto
  moreover have "size_list size (Fields s) < size s" by (cases s) auto
  ultimately show ?thesis by linarith
qed

lemma size_child_ptr:
  "ElementSchema s = Some f \<or> KeySchema s = Some f \<or> ValueSchema s = Some f \<Longrightarrow>
    FieldSchema f = Some t \<Longrightarrow> size t < size s"
  by (cases s; cases f) auto

text \<open>The size of a schema behind a pointer, the measure of the recursive converters.\<close>

definition child_size :: "schema option \<Rightarrow> nat" where
  "child_size c = (case c of None \<Rightarrow> 0 | Some t \<Rightarrow> Suc (size t))"

lemma child_size_field: "f \<in> set (Fields s) \<Longrightarrow> child_size (FieldSchema f) < Suc (size s)"
  using size_child_field by (cases "FieldSchema f") (auto simp: child_size_def)

lemma child_size_ptr: "ElementSchema s = Some f \<or> KeySchema s = Some f \<or> ValueSchema s = Some f \<Longrightarrow> child_size (FieldSchema f) < Suc (size s)"
  using size_child_ptr by (cases "FieldSchema f") (auto simp: child_size_def)

text \<open>The child fields a traversal descends into.\<close>

definition children :: "field \<Rightarrow> field list" where
  "children f = (case FieldSchema f of None \<Rightarrow> [] | Some s \<Rightarrow> Fields s)"

lemma size_list_children: "size_list size (children f) < size f"
proof (cases f)
  case (Field n p s i d)
  show ?thesis
  proof (cases s)
    case None
    then show ?thesis by (simp add: children_def Field)
  next
    case (Some t)
    then show ?thesis by (cases t) (simp add: children_def Field)
  qed
qed

text \<open>The queue loop of \<^verbatim>\<open>AllFields\<close>.\<close>

function level_order :: "field list \<Rightarrow> field list" where
  "level_order [] = []"
| "level_order (cur # queue) = cur # level_order (queue @ children cur)"
  by pat_completeness auto
termination
  by (relation "measure (size_list size)") (auto simp: size_list_children less_SucI)

fun AllFields :: "schema option \<Rightarrow> field list" where
  "AllFields None = []"
| "AllFields (Some s) = level_order (Fields s)"

text \<open>The specification: the fields that can be reached through nested \<^verbatim>\<open>Fields\<close> lists.\<close>

inductive nested_in :: "field \<Rightarrow> field list \<Rightarrow> bool" where
  top: "f \<in> set fs \<Longrightarrow> nested_in f fs"
| below: "g \<in> set fs \<Longrightarrow> nested_in f (children g) \<Longrightarrow> nested_in f fs"

inductive_simps nested_in_Nil [simp]: "nested_in f []"

lemma nested_in_iff: "nested_in f fs \<longleftrightarrow> f \<in> set fs \<or> (\<exists>g \<in> set fs. nested_in f (children g))"
  by (subst nested_in.simps) auto

lemma nested_in_append [simp]: "nested_in f (fs @ gs) \<longleftrightarrow> nested_in f fs \<or> nested_in f gs"
  by (subst (1 2 3) nested_in_iff) auto

lemma nested_in_Cons [simp]:
  "nested_in f (g # fs) \<longleftrightarrow> f = g \<or> nested_in f (children g) \<or> nested_in f fs"
  by (subst (1 3) nested_in_iff) auto

lemma set_level_order: "f \<in> set (level_order fs) \<longleftrightarrow> nested_in f fs"
  by (induction fs rule: level_order.induct) auto

text \<open>The depth-first enumeration the level order is a permutation of.\<close>

function depth_first :: "field list \<Rightarrow> field list" where
  "depth_first [] = []"
| "depth_first (f # fs) = f # depth_first (children f) @ depth_first fs"
  by pat_completeness auto
termination
  by (relation "measure (size_list size)") (auto simp: size_list_children less_SucI trans_less_add1)

lemma depth_first_append: "depth_first (fs @ gs) = depth_first fs @ depth_first gs"
  by (induction fs) auto

lemma mset_level_order: "mset (level_order fs) = mset (depth_first fs)"
  by (induction fs rule: level_order.induct) (auto simp: depth_first_append)

section \<open>Resolving a path\<close>

text \<open>
  One step of \<^verbatim>\<open>FieldByPath\<close>: the inner loop keeps the first case-insensitive match and stops at
  the first exact one.
\<close>

fun match_field :: "string \<Rightarrow> field option \<Rightarrow> field list \<Rightarrow> field option" where
  "match_field part foldMatched [] = foldMatched"
| "match_field part foldMatched (f # fs) =
     (if FieldName f = part then Some f
      else match_field part
        (if foldMatched = None \<and> equalFold (FieldName f) part then Some f else foldMatched) fs)"

fun resolve_path :: "schema \<Rightarrow> string list \<Rightarrow> field option" where
  "resolve_path current [] = None"
| "resolve_path current [part] = match_field part None (Fields current)"
| "resolve_path current (part # next # parts) =
     (case match_field part None (Fields current) of
        None \<Rightarrow> None
      | Some f \<Rightarrow>
          (case FieldSchema f of
             None \<Rightarrow> None
           | Some s \<Rightarrow> if DataType s \<noteq> TypeRecord then None else resolve_path s (next # parts)))"

fun FieldByPath :: "schema option \<Rightarrow> string \<Rightarrow> field option" where
  "FieldByPath None path = None"
| "FieldByPath (Some s) path = resolve_path s (splitChar (CHR ''.'') path)"

lemma match_field_spec:
  "match_field part m fs =
     (case List.find (\<lambda>f. FieldName f = part) fs of
        Some f \<Rightarrow> Some f
      | None \<Rightarrow> (case m of Some g \<Rightarrow> Some g | None \<Rightarrow> List.find (\<lambda>f. equalFold (FieldName f) part) fs))"
  by (induction fs arbitrary: m) (auto split: option.splits)

lemma match_field_exact: "f \<in> set fs \<Longrightarrow> distinct (map FieldName fs) \<Longrightarrow>
    match_field (FieldName f) m fs = Some f"
  by (induction fs arbitrary: m) (auto simp: image_iff)

lemma match_field_Some:
  "match_field part None fs = Some f \<Longrightarrow> f \<in> set fs \<and> equalFold (FieldName f) part"
  by (auto simp: match_field_spec find_Some_iff split: option.splits)

lemma match_field_None_iff:
  "match_field part None fs = None \<longleftrightarrow> (\<forall>f \<in> set fs. \<not> equalFold (FieldName f) part)"
proof
  assume "match_field part None fs = None"
  then show "\<forall>f \<in> set fs. \<not> equalFold (FieldName f) part"
    by (auto simp: match_field_spec find_None_iff split: option.splits)
next
  assume "\<forall>f \<in> set fs. \<not> equalFold (FieldName f) part"
  then show "match_field part None fs = None"
    using match_field_Some [of part fs] by (cases "match_field part None fs") auto
qed

text \<open>A chain of record fields, outermost first: the walk a dotted path names.\<close>

fun field_chain :: "schema \<Rightarrow> field list \<Rightarrow> bool" where
  "field_chain s [] = False"
| "field_chain s [f] = (f \<in> set (Fields s) \<and> distinct (map FieldName (Fields s)))"
| "field_chain s (f # g # fs) =
     (f \<in> set (Fields s) \<and> distinct (map FieldName (Fields s)) \<and>
      (case FieldSchema f of None \<Rightarrow> False | Some t \<Rightarrow> DataType t = TypeRecord \<and> field_chain t (g # fs)))"

lemma resolve_field_chain: "field_chain s fs \<Longrightarrow> resolve_path s (map FieldName fs) = Some (last fs)"
  by (induction s fs rule: field_chain.induct)
    (auto simp: match_field_exact split: option.splits)

section \<open>Partitions, tables, files\<close>

datatype partition_transform = TransformValue | TransformYear | TransformMonth | TransformDay | TransformHour

record partition_field =
  SourceField :: "field option"
  TransformType :: partition_transform
  PFormat :: string
  CustomPartitionName :: string

abbreviation mkPartitionField :: "field \<Rightarrow> partition_field" where
  "mkPartitionField f \<equiv> \<lparr>SourceField = Some f, TransformType = TransformValue, PFormat = '''', CustomPartitionName = ''''\<rparr>"

datatype layout_strategy = LayoutUnset | DirHierarchical | HiveStyle | FlatLayout

record table =
  TableName :: string
  TableFormat :: table_format
  ReadSchema :: "schema option"
  LayoutStrategy :: layout_strategy
  BasePath :: string
  DataPath :: string
  PartitioningFields :: "partition_field list"
  LatestCommitTime :: int
  LatestMetadataPath :: string

definition GetDataPath :: "table \<Rightarrow> string" where
  "GetDataPath t = (if DataPath t \<noteq> '''' then DataPath t else BasePath t)"

definition IsPartitioned :: "table \<Rightarrow> bool" where
  "IsPartitioned t \<longleftrightarrow> length (PartitioningFields t) > 0"

record range =
  MinValue :: any
  MaxValue :: any

definition NewRange :: "any \<Rightarrow> any \<Rightarrow> range" where
  "NewRange lo hi = \<lparr>MinValue = lo, MaxValue = hi\<rparr>"

definition NewScalarRange :: "any \<Rightarrow> range" where
  "NewScalarRange v = \<lparr>MinValue = v, MaxValue = v\<rparr>"

record column_stat =
  StatField :: "field option"
  StatRange :: "range option"
  NumNulls :: int
  NumNaNs :: int
  TotalValues :: int

record partition_value =
  PVField :: "partition_field option"
  PVRange :: "range option"

record deletion_vector =
  StoragePath :: string
  DVOffset :: int
  SizeInBytes :: int
  Cardinality :: int
  InlineBytes :: string

record data_file =
  PhysicalPath :: string
  FileFormat :: file_format
  FileSizeBytes :: int
  RecordCount :: int
  PartitionValues :: "partition_value list"
  ColumnStats :: "column_stat list"
  LastModified :: int
  DeletionVector :: "deletion_vector option"

record partition_file_group =
  PartitionPath :: string
  GroupFiles :: "data_file list"

section \<open>Snapshots and changes\<close>

record snapshot =
  SnapTable :: table
  PartitionedDataFiles :: "partition_file_group list"
  DataFiles :: "data_file list"
  SnapSourceIdentifier :: string

definition AllDataFiles :: "snapshot \<Rightarrow> data_file list" where
  "AllDataFiles s =
     (if length (DataFiles s) > 0 then DataFiles s
      else concat (map GroupFiles (PartitionedDataFiles s)))"

record files_diff =
  FilesAdded :: "data_file list"
  FilesRemoved :: "data_file list"

record table_change =
  FilesDiff :: files_diff
  TableAsOfChange :: table
  ChangeSourceIdentifier :: string
  CommitTime :: int

record incremental_changes =
  TableChanges :: "table_change list"
  CurrentTable :: table

end
