(* ===== verification/Reconcile.thy ===== *)
theory Reconcile
  imports Go_Prelude
begin

text \<open>
  The contract two parts of polytable share: comparing what a store has with what it should have,
  element by element under a key. \<^verbatim>\<open>model.DiffFiles\<close> does it for data files under their path,
  \<^verbatim>\<open>catalog.DiffPartitions\<close> for partitions under their values. The locale states what such a diff
  promises; its lemmas show that carrying the diff out brings the store in line, that equal inputs
  give an empty diff, and that nothing outside the two inputs is invented.
\<close>

definition keyed :: "('a \<Rightarrow> 'k) \<Rightarrow> 'a list \<Rightarrow> 'k \<Rightarrow> 'a option" where
  "keyed key xs = map_of (index_by key xs)"

lemma keyed_Some: "keyed key xs k = Some x \<Longrightarrow> x \<in> set xs \<and> key x = k"
  unfolding keyed_def by (rule index_by_Some)

lemma keyed_None: "keyed key xs k = None \<longleftrightarrow> k \<notin> key ` set xs"
  unfolding keyed_def by (rule index_by_None)

lemma keyed_dom: "k \<in> key ` set xs \<longleftrightarrow> (\<exists>x. keyed key xs k = Some x)"
  using keyed_None [of key xs k] by (cases "keyed key xs k") auto

text \<open>Carrying out a diff: the dropped keys go, then the upserted elements are stored.\<close>

definition carry_out :: "('a \<Rightarrow> 'k) \<Rightarrow> 'a list \<Rightarrow> 'a list \<Rightarrow> ('k \<Rightarrow> 'a option) \<Rightarrow> ('k \<Rightarrow> 'a option)" where
  "carry_out key ups drs m =
     (\<lambda>k. case keyed key ups k of Some x \<Rightarrow> Some x | None \<Rightarrow> if k \<in> key ` set drs then None else m k)"

locale reconciling_diff =
  fixes key :: "'a \<Rightarrow> 'k"
    and same :: "'a \<Rightarrow> 'a \<Rightarrow> bool"
    and upserts :: "'a list \<Rightarrow> 'a list \<Rightarrow> 'a list"
    and drops :: "'a list \<Rightarrow> 'a list \<Rightarrow> 'a list"
  assumes upsert_sound: "x \<in> set (upserts old new) \<Longrightarrow>
      x \<in> set new \<and> (\<forall>y. keyed key old (key x) = Some y \<longrightarrow> \<not> same y x)"
    and upsert_complete: "keyed key new k = Some x \<Longrightarrow>
      (\<forall>y. keyed key old k = Some y \<longrightarrow> \<not> same y x) \<Longrightarrow> x \<in> set (upserts old new)"
    and drop_sound: "x \<in> set (drops old new) \<Longrightarrow>
      x \<in> set old \<and> (key x \<notin> key ` set new \<or> key x \<in> key ` set (upserts old new))"
    and drop_complete: "k \<in> key ` set old \<Longrightarrow> k \<notin> key ` set new \<Longrightarrow> k \<in> key ` set (drops old new)"
begin

lemma upsert_keys: "key ` set (upserts old new) \<subseteq> key ` set new"
  using upsert_sound by blast

text \<open>After the diff is carried out, exactly the desired keys are there.\<close>

lemma carry_out_dom:
  "carry_out key (upserts old new) (drops old new) (keyed key old) k = None \<longleftrightarrow> k \<notin> key ` set new"
proof (cases "keyed key (upserts old new) k")
  case (Some x)
  then have "k \<in> key ` set (upserts old new)" using keyed_dom by metis
  then have "k \<in> key ` set new" using upsert_keys by blast
  with Some show ?thesis by (simp add: carry_out_def)
next
  case None
  then have nup: "k \<notin> key ` set (upserts old new)" by (simp add: keyed_None)
  show ?thesis
  proof (cases "k \<in> key ` set new")
    case True
    then obtain x where x: "keyed key new k = Some x" by (auto simp: keyed_dom)
    with nup upsert_complete [OF x, of old] keyed_Some [OF x]
    obtain y where "keyed key old k = Some y" by blast
    moreover have "k \<notin> key ` set (drops old new)"
    proof
      assume "k \<in> key ` set (drops old new)"
      then obtain z where "z \<in> set (drops old new)" and "key z = k" by blast
      with drop_sound [of z old new] True nup show False by simp
    qed
    ultimately show ?thesis using True None by (simp add: carry_out_def)
  next
    case False
    then have "k \<in> key ` set (drops old new) \<or> k \<notin> key ` set old" using drop_complete by blast
    moreover have "keyed key old k = None" if "k \<notin> key ` set old" using that by (simp add: keyed_None)
    ultimately show ?thesis using False None by (auto simp: carry_out_def)
  qed
qed

text \<open>Each of them holds the desired element, or the one it had when that was the same already.\<close>

lemma carry_out_value:
  assumes "distinct (map key new)"
    and "carry_out key (upserts old new) (drops old new) (keyed key old) k = Some x"
  shows "keyed key new k = Some x \<or> (\<exists>z. keyed key new k = Some z \<and> same x z)"
proof (cases "keyed key (upserts old new) k")
  case (Some y)
  with assms(2) have "y = x" by (simp add: carry_out_def)
  with keyed_Some [OF Some] upsert_sound have "x \<in> set new" and "key x = k" by blast+
  with assms(1) show ?thesis by (simp add: keyed_def index_by_distinct_iff)
next
  case None
  with assms(2) have old: "keyed key old k = Some x"
    by (auto simp: carry_out_def split: if_splits)
  from assms(2) have "k \<in> key ` set new" using carry_out_dom [of old new k] by auto
  then obtain z where z: "keyed key new k = Some z" by (auto simp: keyed_dom)
  have "same x z"
  proof (rule ccontr)
    assume "\<not> same x z"
    with old upsert_complete [OF z, of old] keyed_Some [OF z] have "k \<in> key ` set (upserts old new)"
      by force
    with None show False by (simp add: keyed_None)
  qed
  with z show ?thesis by blast
qed

lemma no_change_no_diff:
  assumes "distinct (map key xs)" and "\<And>x. same x x"
  shows "upserts xs xs = [] \<and> drops xs xs = []"
proof -
  have u: "upserts xs xs = []"
  proof (rule ccontr)
    assume "upserts xs xs \<noteq> []"
    then obtain x where x: "x \<in> set (upserts xs xs)" by (meson last_in_set)
    with upsert_sound have "x \<in> set xs" by blast
    then have "keyed key xs (key x) = Some x" using assms(1) by (simp add: keyed_def index_by_distinct)
    with upsert_sound [OF x] assms(2) show False by blast
  qed
  moreover have "drops xs xs = []"
  proof (rule ccontr)
    assume "drops xs xs \<noteq> []"
    then obtain x where "x \<in> set (drops xs xs)" by (meson last_in_set)
    from drop_sound [OF this] u show False by auto
  qed
  ultimately show ?thesis by simp
qed

end

end
