(* ===== verification/Model_Diff.thy ===== *)
theory Model_Diff
  imports Model_Core Reconcile
begin

text \<open>
  \<^verbatim>\<open>pkg/model/diff.go\<close>: the difference between two sets of data files, as files added and files
  removed. The interpretation of \<open>reconciling_diff\<close> shows that applying it to the old file set
  gives the new one.
\<close>

definition NewFilesDiff :: "data_file list \<Rightarrow> data_file list \<Rightarrow> files_diff" where
  "NewFilesDiff added removed = \<lparr>FilesAdded = added, FilesRemoved = removed\<rparr>"

fun HasChanges :: "files_diff option \<Rightarrow> bool" where
  "HasChanges None = False"
| "HasChanges (Some d) = (length (FilesAdded d) > 0 \<or> length (FilesRemoved d) > 0)"

fun fileContentChanged :: "data_file option \<Rightarrow> data_file option \<Rightarrow> bool" where
  "fileContentChanged (Some a) (Some b) =
     (FileSizeBytes a \<noteq> FileSizeBytes b \<or> RecordCount a \<noteq> RecordCount b)"
| "fileContentChanged None None = False"
| "fileContentChanged _ _ = True"

text \<open>The loop over the new files; the accumulators are \<^verbatim>\<open>added\<close> and \<^verbatim>\<open>removed\<close>.\<close>

fun diff_new :: "(string, data_file) gomap \<Rightarrow> data_file list \<Rightarrow> data_file list \<Rightarrow> data_file list \<Rightarrow>
    data_file list \<times> data_file list" where
  "diff_new oldMap [] added removed = (added, removed)"
| "diff_new oldMap (file # files) added removed =
     (case map_of oldMap (PhysicalPath file) of
        None \<Rightarrow> diff_new oldMap files (added @ [file]) removed
      | Some prev \<Rightarrow>
          if fileContentChanged (Some prev) (Some file)
          then diff_new oldMap files (added @ [file]) (removed @ [prev])
          else diff_new oldMap files added removed)"

fun diff_old :: "(string, data_file) gomap \<Rightarrow> data_file list \<Rightarrow> data_file list \<Rightarrow> data_file list" where
  "diff_old newMap [] removed = removed"
| "diff_old newMap (file # files) removed =
     (if map_of newMap (PhysicalPath file) = None then diff_old newMap files (removed @ [file])
      else diff_old newMap files removed)"

definition DiffFiles :: "data_file list \<Rightarrow> data_file list \<Rightarrow> files_diff" where
  "DiffFiles oldFiles newFiles =
     (let oldMap = index_by PhysicalPath oldFiles;
          newMap = index_by PhysicalPath newFiles;
          (added, removed1) = diff_new oldMap newFiles [] [];
          removed = diff_old newMap oldFiles removed1
      in \<lparr>FilesAdded = sort_key PhysicalPath added, FilesRemoved = sort_key PhysicalPath removed\<rparr>)"

text \<open>Two records of one path are the same content when \<^verbatim>\<open>fileContentChanged\<close> says so.\<close>

definition sameContent :: "data_file \<Rightarrow> data_file \<Rightarrow> bool" where
  "sameContent a b \<longleftrightarrow> \<not> fileContentChanged (Some a) (Some b)"

lemma sameContent_refl [simp]: "sameContent a a"
  by (simp add: sameContent_def)

lemma diff_new_added:
  "fst (diff_new m files added removed) =
     added @ filter (\<lambda>f. \<forall>p. map_of m (PhysicalPath f) = Some p \<longrightarrow> \<not> sameContent p f) files"
  by (induction files arbitrary: added removed)
    (auto simp: sameContent_def split: option.splits simp del: fileContentChanged.simps)

lemma diff_new_removed:
  "set (snd (diff_new m files added removed)) =
     set removed \<union> {p. \<exists>f \<in> set files. map_of m (PhysicalPath f) = Some p \<and> \<not> sameContent p f}"
  by (induction files arbitrary: added removed)
    (auto simp: sameContent_def split: option.splits simp del: fileContentChanged.simps)

lemma diff_old_removed:
  "set (diff_old m files removed) = set removed \<union> {f \<in> set files. map_of m (PhysicalPath f) = None}"
  by (induction files arbitrary: removed) auto

lemma set_FilesAdded:
  "set (FilesAdded (DiffFiles old new)) =
     {f \<in> set new. \<forall>p. keyed PhysicalPath old (PhysicalPath f) = Some p \<longrightarrow> \<not> sameContent p f}"
  using diff_new_added [of "index_by PhysicalPath old" new "[]" "[]"]
  by (simp add: DiffFiles_def keyed_def Let_def split_def)

lemma set_FilesRemoved:
  "set (FilesRemoved (DiffFiles old new)) =
     {p. \<exists>f \<in> set new. keyed PhysicalPath old (PhysicalPath f) = Some p \<and> \<not> sameContent p f} \<union>
     {f \<in> set old. PhysicalPath f \<notin> PhysicalPath ` set new}"
  using diff_new_removed [of "index_by PhysicalPath old" new "[]" "[]"]
  by (simp add: DiffFiles_def keyed_def Let_def split_def diff_old_removed index_by_None)

interpretation file_diff: reconciling_diff PhysicalPath sameContent
  "\<lambda>old new. FilesAdded (DiffFiles old new)" "\<lambda>old new. FilesRemoved (DiffFiles old new)"
proof
  fix x :: data_file and old new :: "data_file list"
  assume "x \<in> set (FilesRemoved (DiffFiles old new))"
  then show "x \<in> set old \<and> (PhysicalPath x \<notin> PhysicalPath ` set new \<or>
      PhysicalPath x \<in> PhysicalPath ` set (FilesAdded (DiffFiles old new)))"
  proof (cases "PhysicalPath x \<in> PhysicalPath ` set new")
    case True
    with \<open>x \<in> set (FilesRemoved (DiffFiles old new))\<close> obtain f where f: "f \<in> set new"
      and k: "keyed PhysicalPath old (PhysicalPath f) = Some x" and "\<not> sameContent x f"
      by (auto simp: set_FilesRemoved)
    then have "f \<in> set (FilesAdded (DiffFiles old new))" by (simp add: set_FilesAdded)
    moreover from k have "x \<in> set old" and "PhysicalPath f = PhysicalPath x" by (auto dest!: keyed_Some)
    ultimately show ?thesis by (metis image_eqI)
  next
    case False
    with \<open>x \<in> set (FilesRemoved (DiffFiles old new))\<close> show ?thesis
      by (auto simp: set_FilesRemoved dest!: keyed_Some)
  qed
qed (auto simp: set_FilesAdded set_FilesRemoved dest: keyed_Some)

text \<open>The file set a target holds after it applied a diff to the old one.\<close>

definition files_after :: "data_file list \<Rightarrow> files_diff \<Rightarrow> string \<Rightarrow> data_file option" where
  "files_after old d = carry_out PhysicalPath (FilesAdded d) (FilesRemoved d) (keyed PhysicalPath old)"

text \<open>
  C1. Carrying out the diff of two file lists on the old one (the removed paths go, the added files
  are stored under their path) leaves exactly the paths of the new list, and under each path a file
  with the new one's size and record count.
\<close>

theorem DiffFiles_reconciles:
  assumes "distinct (map PhysicalPath new)"
  shows "dom (files_after old (DiffFiles old new)) = PhysicalPath ` set new \<and>
    (\<forall>p f. files_after old (DiffFiles old new) p = Some f \<longrightarrow>
      (\<exists>g \<in> set new. PhysicalPath g = p \<and> FileSizeBytes f = FileSizeBytes g \<and> RecordCount f = RecordCount g))"
proof (intro conjI allI impI)
  show "dom (files_after old (DiffFiles old new)) = PhysicalPath ` set new"
    using file_diff.carry_out_dom by (auto simp: dom_def files_after_def)
next
  fix p f
  assume "files_after old (DiffFiles old new) p = Some f"
  from file_diff.carry_out_value [OF assms this [unfolded files_after_def]]
  show "\<exists>g \<in> set new. PhysicalPath g = p \<and> FileSizeBytes f = FileSizeBytes g \<and> RecordCount f = RecordCount g"
    by (auto dest!: keyed_Some simp: sameContent_def)
qed

definition sample_file :: "string \<Rightarrow> int \<Rightarrow> int \<Rightarrow> data_file" where
  "sample_file p sz records =
     \<lparr>PhysicalPath = p, FileFormat = FileFormatParquet, FileSizeBytes = sz, RecordCount = records,
      PartitionValues = [], ColumnStats = [], LastModified = 0, DeletionVector = None\<rparr>"

theorem DiffFiles_reconciles_witness:
  "dom (files_after [sample_file ''a'' 1 1, sample_file ''b'' 2 2]
      (DiffFiles [sample_file ''a'' 1 1, sample_file ''b'' 2 2] [sample_file ''b'' 5 2, sample_file ''c'' 3 3]))
    = {''b'', ''c''}"
  using DiffFiles_reconciles [of "[sample_file ''b'' 5 2, sample_file ''c'' 3 3]"
      "[sample_file ''a'' 1 1, sample_file ''b'' 2 2]"]
  by (simp add: sample_file_def)

text \<open>
  The two lists of a diff are sorted by path, whatever the order of the inputs, and comparing a
  file list with itself reports nothing.
\<close>

theorem DiffFiles_sorted_idle:
  "sorted (map PhysicalPath (FilesAdded (DiffFiles old new))) \<and>
   sorted (map PhysicalPath (FilesRemoved (DiffFiles old new))) \<and>
   (distinct (map PhysicalPath fs) \<longrightarrow> \<not> HasChanges (Some (DiffFiles fs fs)))"
proof (intro conjI impI)
  show "sorted (map PhysicalPath (FilesAdded (DiffFiles old new)))"
    and "sorted (map PhysicalPath (FilesRemoved (DiffFiles old new)))"
    by (simp_all add: DiffFiles_def Let_def split_def)
  assume "distinct (map PhysicalPath fs)"
  from file_diff.no_change_no_diff [OF this] show "\<not> HasChanges (Some (DiffFiles fs fs))" by simp
qed

theorem DiffFiles_sorted_idle_witness:
  "\<not> HasChanges (Some (DiffFiles [sample_file ''a'' 1 1, sample_file ''b'' 2 2]
      [sample_file ''a'' 1 1, sample_file ''b'' 2 2]))"
  using DiffFiles_sorted_idle [of "[]" "[]" "[sample_file ''a'' 1 1, sample_file ''b'' 2 2]"]
  by (simp add: sample_file_def)

end
