(* ===== verification/Go_Time.thy ===== *)
theory Go_Time
  imports Go_Prelude
begin

text \<open>
  Package \<^verbatim>\<open>time\<close> as far as polytable uses it: the proleptic Gregorian calendar and the layout
  \<^verbatim>\<open>time.RFC3339Nano\<close>, printed and parsed. A \<^verbatim>\<open>time.Time\<close> in UTC is its number of nanoseconds
  since 1970; the years run from March to February inside the conversion, so that the leap day is
  the last one. The lemmas show that a printed instant parses back to itself exactly when its year
  has four digits.
\<close>

section \<open>Calendar\<close>

definition is_leap :: "int \<Rightarrow> bool" where
  "is_leap y \<longleftrightarrow> 4 dvd y \<and> (\<not> 100 dvd y \<or> 400 dvd y)"

definition daysIn :: "int \<Rightarrow> int \<Rightarrow> int" where
  "daysIn m y =
     (if m = 2 then (if is_leap y then 29 else 28)
      else if m = 4 \<or> m = 6 \<or> m = 9 \<or> m = 11 then 30 else 31)"

text \<open>The days before the first of March of year \<open>y\<close>, counted from March of year 0.\<close>

definition march_days :: "int \<Rightarrow> int" where
  "march_days y = 365 * y + y div 4 - y div 100 + y div 400"

definition march_year :: "int \<Rightarrow> int" where
  "march_year d =
     (let e = (400 * d) div 146097 in
      if d < march_days e then e - 1 else if march_days (e + 1) \<le> d then e + 1 else e)"

definition month_days :: "int \<Rightarrow> int" where
  "month_days mp = (153 * mp + 2) div 5"

text \<open>The days since the epoch of a date, and the date of a day.\<close>

definition days_from_civil :: "int \<Rightarrow> int \<Rightarrow> int \<Rightarrow> int" where
  "days_from_civil y m d =
     (let (my, mp) = (if m \<le> 2 then (y - 1, m + 9) else (y, m - 3))
      in march_days my + month_days mp + d - 1 - 719468)"

definition civil_from_days :: "int \<Rightarrow> int \<times> int \<times> int" where
  "civil_from_days z =
     (let d = z + 719468;
          my = march_year d;
          doy = d - march_days my;
          mp = (5 * doy + 2) div 153;
          day = doy - month_days mp + 1
      in if mp < 10 then (my, mp + 3, day) else (my + 1, mp - 9, day))"

lemma march_days_scaled:
  "400 * march_days y = 146097 * y - 100 * (y mod 4) + 4 * (y mod 100) - y mod 400"
  by (simp add: march_days_def minus_mult_div_eq_mod [symmetric] algebra_simps)

lemma march_days_bounds:
  "146097 * y - 699 \<le> 400 * march_days y" "400 * march_days y \<le> 146097 * y + 396"
proof -
  have "0 \<le> y mod 4" "y mod 4 < 4" "0 \<le> y mod 100" "y mod 100 < 100" "0 \<le> y mod 400" "y mod 400 < 400"
    by simp_all
  then show "146097 * y - 699 \<le> 400 * march_days y" and "400 * march_days y \<le> 146097 * y + 396"
    unfolding march_days_scaled by linarith+
qed

lemma div_bounds:
  fixes k a :: int
  assumes "0 < k"
  shows "k * (a div k) \<le> a" and "a < k * (a div k) + k"
  using mult_div_mod_eq [of k a] pos_mod_bound [OF assms, of a] pos_mod_sign [OF assms, of a] by linarith+

lemma march_year_bounds:
  "march_days (march_year d) \<le> d" "d < march_days (march_year d + 1)"
proof -
  define e where "e = (400 * d) div 146097"
  have e: "146097 * e \<le> 400 * d" "400 * d < 146097 * (e + 1)"
    unfolding e_def using div_bounds [of 146097 "400 * d"] by (simp_all add: distrib_left)
  have lo: "march_days (e - 1) \<le> d" using march_days_bounds(2) [of "e - 1"] e unfolding distrib_left right_diff_distrib by linarith
  have hi: "d < march_days (e + 2)" using march_days_bounds(1) [of "e + 2"] e unfolding distrib_left by linarith
  have e2: "e + 1 + 1 = e + 2" "e - 1 + 1 = e" by simp_all
  have y: "march_year d = (if d < march_days e then e - 1 else if march_days (e + 1) \<le> d then e + 1 else e)"
    by (simp add: march_year_def Let_def e_def)
  show "march_days (march_year d) \<le> d" using lo hi by (simp add: y)
  show "d < march_days (march_year d + 1)" using lo hi by (auto simp: y e2)
qed

lemma div_succ:
  fixes y k :: int
  assumes "0 < k"
  shows "(y + 1) div k = y div k + (if k dvd y + 1 then 1 else 0)"
proof -
  have y: "y = k * (y div k) + y mod k" by simp
  have r: "0 \<le> y mod k" "y mod k < k" using assms by simp_all
  have "k dvd y + 1 \<longleftrightarrow> y mod k + 1 = k"
  proof
    assume "k dvd y + 1"
    then have "k dvd y mod k + 1" by (metis dvd_eq_mod_eq_0 mod_add_left_eq)
    with r show "y mod k + 1 = k" using zdvd_imp_le [of k "y mod k + 1"] by linarith
  next
    assume "y mod k + 1 = k"
    then have "y + 1 = k * (y div k) + k" using y by linarith
    then show "k dvd y + 1" by simp
  qed
  moreover have "(y + 1) div k = y div k + 1" if "y mod k + 1 = k"
  proof (rule int_div_pos_eq [where r = 0])
    show "y + 1 = k * (y div k + 1) + 0" using that y unfolding distrib_left by linarith
  qed (use assms in simp_all)
  moreover have "(y + 1) div k = y div k" if "y mod k + 1 \<noteq> k"
    using that y r by (intro int_div_pos_eq [where r = "y mod k + 1"]) auto
  ultimately show ?thesis by simp
qed

lemma march_days_step: "march_days (y + 1) = march_days y + (if is_leap (y + 1) then 366 else 365)"
proof -
  have "(100 :: int) dvd 400" and "(4 :: int) dvd 100" by simp_all
  then have "400 dvd y + 1 \<Longrightarrow> 100 dvd y + 1" and "100 dvd y + 1 \<Longrightarrow> 4 dvd y + 1"
    using dvd_trans by blast+
  moreover have "march_days (y + 1) = 365 * y + 365 + (y div 4 + (if 4 dvd y + 1 then 1 else 0)) -
      (y div 100 + (if 100 dvd y + 1 then 1 else 0)) + (y div 400 + (if 400 dvd y + 1 then 1 else 0))"
    unfolding march_days_def distrib_left by (simp only: div_succ zero_less_numeral mult_1_right)
  moreover have "365 * y + 365 + (y div 4 + (if a then 1 else 0)) - (y div 100 + (if b then 1 else 0)) +
      (y div 400 + (if c then 1 else 0)) = march_days y + (if a \<and> (\<not> b \<or> c) then 366 else 365)"
    if "c \<Longrightarrow> b" "b \<Longrightarrow> a" for a b c
    using that by (cases a; cases b; cases c) (simp_all add: march_days_def)
  ultimately show ?thesis unfolding is_leap_def by (simp only:)
qed

text \<open>The day of the year and the month it lies in.\<close>

lemma month_of_day:
  assumes "0 \<le> doy" and "doy \<le> 365" and "mp = (5 * doy + 2) div 153"
  shows "0 \<le> mp" and "mp \<le> 11" and "month_days mp \<le> doy" and "doy < month_days (mp + 1)"
proof -
  have b: "153 * mp \<le> 5 * doy + 2" "5 * doy + 2 < 153 * mp + 153"
    using div_bounds [of 153 "5 * doy + 2"] assms(3) by simp_all
  have m: "5 * month_days mp \<le> 153 * mp + 2" "153 * (mp + 1) + 2 < 5 * month_days (mp + 1) + 5"
    using div_bounds [of 5 "153 * mp + 2"] div_bounds [of 5 "153 * (mp + 1) + 2"]
    unfolding month_days_def by simp_all
  show "0 \<le> mp" "mp \<le> 11" "month_days mp \<le> doy" using b m assms(1,2) by linarith+
  show "doy < month_days (mp + 1)" using b(2) m(2) unfolding distrib_left by linarith
qed

lemma day_of_year_bounds:
  "0 \<le> d - march_days (march_year d)"
  "d - march_days (march_year d) \<le> (if is_leap (march_year d + 1) then 365 else 364)"
  using march_year_bounds [of d] march_days_step [of "march_year d"] by (simp_all split: if_splits)

lemma month_lengths:
  assumes "0 \<le> mp" "mp < 11"
  shows "month_days (mp + 1) - month_days mp = daysIn (if mp < 10 then mp + 3 else mp - 9) y"
proof -
  have "mp = 0 \<or> mp = 1 \<or> mp = 2 \<or> mp = 3 \<or> mp = 4 \<or> mp = 5 \<or> mp = 6 \<or> mp = 7 \<or> mp = 8 \<or>
      mp = 9 \<or> mp = 10"
    using assms by presburger
  then show ?thesis by (auto simp: month_days_def daysIn_def)
qed

lemma days_civil [simp]:
  "(case civil_from_days z of (y, m, d) \<Rightarrow> days_from_civil y m d) = z"
proof -
  define d where "d = z + 719468"
  define doy where "doy = d - march_days (march_year d)"
  define mp where "mp = (5 * doy + 2) div 153"
  have "0 \<le> doy" "doy \<le> 365"
    using day_of_year_bounds [of d] by (simp_all add: doy_def split: if_splits)
  from month_of_day(1,2) [OF this mp_def] have "0 \<le> mp" "mp \<le> 11" by simp_all
  then show ?thesis
    unfolding civil_from_days_def Let_def d_def [symmetric] doy_def [symmetric] mp_def [symmetric]
    by (simp add: days_from_civil_def) (simp add: doy_def d_def)
qed

lemma civil_valid:
  assumes "civil_from_days z = (y, m, day)"
  shows "1 \<le> m \<and> m \<le> 12 \<and> 1 \<le> day \<and> day \<le> daysIn m y"
proof -
  define d where "d = z + 719468"
  define my where "my = march_year d"
  define doy where "doy = d - march_days my"
  define mp where "mp = (5 * doy + 2) div 153"
  have doy: "0 \<le> doy" "doy \<le> (if is_leap (my + 1) then 365 else 364)"
    using day_of_year_bounds [of d] unfolding doy_def my_def .
  then have "doy \<le> 365" by (simp split: if_splits)
  note mp = month_of_day [OF doy(1) this mp_def]
  have eqs: "y = (if mp < 10 then my else my + 1)" "m = (if mp < 10 then mp + 3 else mp - 9)"
    "day = doy - month_days mp + 1"
    using assms unfolding civil_from_days_def
    unfolding Let_def d_def [symmetric] my_def [symmetric] doy_def [symmetric] mp_def [symmetric]
    by (simp_all split: if_splits)
  have "day \<le> daysIn m y"
  proof (cases "mp < 11")
    case True
    with mp month_lengths [of mp y] show ?thesis by (simp add: eqs)
  next
    case False
    with mp have "mp = 11" by simp
    moreover have "month_days 11 = 337" by (simp add: month_days_def)
    ultimately show ?thesis using doy by (simp add: eqs daysIn_def split: if_splits)
  qed
  with mp show ?thesis by (simp add: eqs)
qed

section \<open>The layout RFC3339Nano\<close>

definition pad2 :: "int \<Rightarrow> string" where
  "pad2 n = [digit_char (nat n div 10), digit_char (nat n mod 10)]"

definition year_text :: "int \<Rightarrow> string" where
  "year_text y =
     (if 0 \<le> y \<and> y < 10000 then pad2 (y div 100) @ pad2 (y mod 100)
      else if y < 0 then CHR ''-'' # padZero 4 (nat_dec (nat (- y))) else nat_dec (nat y))"

lemma digits_val_bound: "list_all is_digit s \<Longrightarrow> digits_val s < 10 ^ length s"
proof (induction s rule: rev_induct)
  case (snoc c s)
  then have "digits_val s + 1 \<le> 10 ^ length s" and "digit_val c < 10"
    by (auto simp: is_digit_def digit_val_def Let_def)
  then have "digits_val (s @ [c]) < (digits_val s + 1) * 10"
    by (simp add: digits_val_append) (simp add: digits_val_def)
  also have "\<dots> \<le> 10 ^ length (s @ [c])"
    using \<open>digits_val s + 1 \<le> 10 ^ length s\<close> by simp
  finally show ?case .
qed (simp add: digits_val_def)

text \<open>The fraction of a second, without its trailing zeros.\<close>

definition frac_text :: "int \<Rightarrow> string" where
  "frac_text nsec =
     (if nsec = 0 then ''''
      else CHR ''.'' # rev (dropWhile (\<lambda>c. c = CHR ''0'') (rev (padZero 9 (nat_dec (nat nsec))))))"

definition format_rfc3339nano :: "int \<times> int \<Rightarrow> string" where
  "format_rfc3339nano t =
     (let (sec, nsec) = t;
          (y, m, d) = civil_from_days (sec div 86400);
          s = sec mod 86400
      in year_text y @ ''-'' @ pad2 m @ ''-'' @ pad2 d @ ''T'' @ pad2 (s div 3600) @ '':'' @
         pad2 (s div 60 mod 60) @ '':'' @ pad2 (s mod 60) @ frac_text nsec @ ''Z'')"

fun num2 :: "string \<Rightarrow> (int \<times> string) option" where
  "num2 (a # b # s) =
     (if is_digit a \<and> is_digit b then Some (int (10 * digit_val a + digit_val b), s) else None)"
| "num2 _ = None"

text \<open>The hour may have one digit.\<close>

fun num12 :: "string \<Rightarrow> (int \<times> string) option" where
  "num12 (a # b # s) =
     (if \<not> is_digit a then None
      else if is_digit b then Some (int (10 * digit_val a + digit_val b), s)
      else Some (int (digit_val a), b # s))"
| "num12 [a] = (if is_digit a then Some (int (digit_val a), []) else None)"
| "num12 [] = None"

definition num4 :: "string \<Rightarrow> (int \<times> string) option" where
  "num4 s =
     (case num2 s of
        None \<Rightarrow> None
      | Some (hi, r) \<Rightarrow> (case num2 r of None \<Rightarrow> None | Some (lo, r') \<Rightarrow> Some (100 * hi + lo, r')))"

fun lit :: "char \<Rightarrow> string \<Rightarrow> string option" where
  "lit c (d # s) = (if c = d then Some s else None)"
| "lit c [] = None"

text \<open>An optional fraction: at most nine digits count, the others are dropped.\<close>

definition parse_frac :: "string \<Rightarrow> int \<times> string" where
  "parse_frac s =
     (case s of
        p # d # r \<Rightarrow>
          if (p = CHR ''.'' \<or> p = CHR '','') \<and> is_digit d
          then (let ds = takeWhile is_digit (d # r) in
                (int (digits_val (take 9 ds) * 10 ^ (9 - length (take 9 ds))), dropWhile is_digit (d # r)))
          else (0, s)
      | _ \<Rightarrow> (0, s))"

text \<open>The zone: \<^verbatim>\<open>Z\<close> or an offset, in seconds, and nothing after it.\<close>

definition parse_zone :: "string \<Rightarrow> int option" where
  "parse_zone s =
     (case s of
        [] \<Rightarrow> None
      | c # r \<Rightarrow>
          if c = CHR ''Z'' then (if r = [] then Some 0 else None)
          else if c = CHR ''+'' \<or> c = CHR ''-'' then
            (case num2 r of
               None \<Rightarrow> None
             | Some (hr, r1) \<Rightarrow>
                 (case lit (CHR '':'') r1 of
                    None \<Rightarrow> None
                  | Some r2 \<Rightarrow>
                      (case num2 r2 of
                         None \<Rightarrow> None
                       | Some (mm, r3) \<Rightarrow>
                           if r3 = [] \<and> hr \<le> 24 \<and> mm \<le> 60
                           then Some ((if c = CHR ''-'' then -1 else 1) * (hr * 3600 + mm * 60)) else None)))
          else None)"

definition parse_rfc3339nano :: "string \<Rightarrow> (int \<times> int) option" where
  "parse_rfc3339nano s =
     Option.bind (num4 s) (\<lambda>(y, s). Option.bind (lit (CHR ''-'') s) (\<lambda>s.
     Option.bind (num2 s) (\<lambda>(m, s). Option.bind (lit (CHR ''-'') s) (\<lambda>s.
     Option.bind (num2 s) (\<lambda>(d, s). Option.bind (lit (CHR ''T'') s) (\<lambda>s.
     Option.bind (num12 s) (\<lambda>(hh, s). Option.bind (lit (CHR '':'') s) (\<lambda>s.
     Option.bind (num2 s) (\<lambda>(mi, s). Option.bind (lit (CHR '':'') s) (\<lambda>s.
     Option.bind (num2 s) (\<lambda>(ss, s).
       (let (nsec, s) = parse_frac s in
        Option.bind (parse_zone s) (\<lambda>off.
          if 1 \<le> m \<and> m \<le> 12 \<and> 1 \<le> d \<and> d \<le> daysIn m y \<and> hh < 24 \<and> mi < 60 \<and> ss < 60
          then Some (days_from_civil y m d * 86400 + hh * 3600 + mi * 60 + ss - off, nsec)
          else None)))))))))))))"

lemma num2_pad2 [simp]: "0 \<le> n \<Longrightarrow> n < 100 \<Longrightarrow> num2 (pad2 n @ s) = Some (n, s)"
proof -
  assume n: "0 \<le> n" "n < 100"
  then have "nat n div 10 < 10" by (simp add: less_mult_imp_div_less nat_less_iff)
  with n show ?thesis by (simp add: pad2_def)
qed

lemma num12_pad2 [simp]: "0 \<le> n \<Longrightarrow> n < 100 \<Longrightarrow> num12 (pad2 n @ s) = Some (n, s)"
  using num2_pad2 [of n s] by (auto simp: pad2_def split: if_splits)

lemma num4_year_text [simp]: "0 \<le> y \<Longrightarrow> y < 10000 \<Longrightarrow> num4 (year_text y @ s) = Some (y, s)"
  by (simp add: num4_def year_text_def)

lemma trim_zeros:
  "\<exists>k. s = rev (dropWhile (\<lambda>c. c = CHR ''0'') (rev s)) @ replicate k (CHR ''0'')"
proof -
  let ?z = "takeWhile (\<lambda>c. c = CHR ''0'') (rev s)"
  have "?z = replicate (length ?z) (CHR ''0'')"
    by (rule replicate_length_same [symmetric]) (auto dest: set_takeWhileD)
  moreover have "s = rev (dropWhile (\<lambda>c. c = CHR ''0'') (rev s)) @ rev ?z"
    by (metis rev_append rev_rev_ident takeWhile_dropWhile_id)
  ultimately show ?thesis by (metis rev_replicate)
qed

lemma nat_dec_length: "n < 10 ^ k \<Longrightarrow> 0 < k \<Longrightarrow> length (nat_dec n) \<le> k"
proof (induction n arbitrary: k rule: nat_dec.induct)
  case (1 n)
  show ?case
  proof (cases "n < 10")
    case True
    then show ?thesis using 1 by (subst nat_dec.simps) simp
  next
    case False
    then obtain j where j: "k = Suc j" "0 < j" using 1 by (cases k; cases "k - 1") auto
    then have "n div 10 < 10 ^ j" using 1 by (simp add: less_mult_imp_div_less mult.commute)
    with 1 False j show ?thesis by (subst nat_dec.simps) simp
  qed
qed

lemma parse_frac_text:
  assumes "0 \<le> nsec" "nsec < 1000000000"
  shows "parse_frac (frac_text nsec @ ''Z'') = (nsec, ''Z'')"
proof (cases "nsec = 0")
  case True
  then show ?thesis by (simp add: frac_text_def parse_frac_def)
next
  case False
  define s where "s = padZero 9 (nat_dec (nat nsec))"
  obtain t k where t: "t = rev (dropWhile (\<lambda>c. c = CHR ''0'') (rev s))" and s: "s = t @ replicate k (CHR ''0'')"
    using trim_zeros [of s] by blast
  have v: "digits_val s = nat nsec" by (simp add: s_def)
  have len: "length s = 9"
    using nat_dec_length [of "nat nsec" 9] assms by (simp add: s_def padZero_def nat_less_iff)
  have "list_all is_digit s" unfolding s_def by (intro padZero_digits nat_dec_digits)
  then have ds: "list_all is_digit t" by (simp add: s)
  have "t \<noteq> []" using v s False assms(1) by auto
  then obtain d r where dr: "t = d # r" by (cases t) auto
  have tw: "takeWhile is_digit (t @ ''Z'') = t" "dropWhile is_digit (t @ ''Z'') = ''Z''"
    using ds by (simp_all add: list_all_iff takeWhile_append2 dropWhile_append2 is_digit_def)
  have "digits_val t * 10 ^ (9 - length t) = nat nsec"
  proof -
    have "k = 9 - length t" using len s by simp
    with v show ?thesis by (simp add: s digits_val_append)
  qed
  then have "int (digits_val t) * 10 ^ (9 - length t) = nsec"
    using assms(1) by (metis int_nat_eq of_nat_mult of_nat_numeral of_nat_power)
  moreover have "length t \<le> 9" using len s by simp
  moreover have "frac_text nsec @ ''Z'' = CHR ''.'' # t @ ''Z''"
    using False by (simp add: frac_text_def t s_def)
  ultimately show ?thesis
    using tw ds assms(1) unfolding parse_frac_def dr by (simp add: Let_def)
qed

text \<open>A printed instant parses back to itself when its year has four digits.\<close>

lemma parse_fields:
  assumes "0 \<le> y" "y < 10000" "1 \<le> m" "m \<le> 12" "1 \<le> d" "d \<le> daysIn m y" "0 \<le> hh" "hh < 24"
    "0 \<le> mi" "mi < 60" "0 \<le> ss" "ss < 60" "0 \<le> nsec" "nsec < 1000000000"
  shows "parse_rfc3339nano (year_text y @ ''-'' @ pad2 m @ ''-'' @ pad2 d @ ''T'' @ pad2 hh @ '':'' @
      pad2 mi @ '':'' @ pad2 ss @ frac_text nsec @ ''Z'') =
    Some (days_from_civil y m d * 86400 + hh * 3600 + mi * 60 + ss, nsec)"
proof -
  have "d < 100" using assms(6) by (simp add: daysIn_def split: if_splits)
  then show ?thesis
    using assms parse_frac_text [OF assms(13,14)] by (simp add: parse_rfc3339nano_def parse_zone_def)
qed

lemma clock_parts:
  fixes sec :: int
  defines "s \<equiv> sec mod 86400"
  shows "0 \<le> s div 3600" "s div 3600 < 24" "0 \<le> s div 60 mod 60" "s div 60 mod 60 < 60" "0 \<le> s mod 60" "s mod 60 < 60"
    and "sec div 86400 * 86400 + s div 3600 * 3600 + s div 60 mod 60 * 60 + s mod 60 = sec"
proof -
  have s: "0 \<le> s" "s < 86400" by (simp_all add: s_def)
  then show "0 \<le> s div 3600" "s div 3600 < 24" "0 \<le> s div 60 mod 60" "s div 60 mod 60 < 60" "0 \<le> s mod 60" "s mod 60 < 60"
    by simp_all
  have "s div 3600 = s div 60 div 60" using zdiv_zmult2_eq [of 60 s 60] by simp
  then have "s div 3600 * 3600 + s div 60 mod 60 * 60 + s mod 60 = s"
    using div_mult_mod_eq [of "s div 60" 60] div_mult_mod_eq [of s 60] by linarith
  then show "sec div 86400 * 86400 + s div 3600 * 3600 + s div 60 mod 60 * 60 + s mod 60 = sec"
    using div_mult_mod_eq [of sec 86400] unfolding s_def by linarith
qed

lemma length_pad2 [simp]: "length (pad2 n) = 2"
  by (simp add: pad2_def)

lemma length_year_text: "0 \<le> y \<Longrightarrow> y < 10000 \<Longrightarrow> length (year_text y) = 4"
  by (simp add: year_text_def)

lemma parse_format_rfc3339nano:
  assumes "civil_from_days (sec div 86400) = (y, m, d)" "0 \<le> y" "y < 10000" "0 \<le> nsec" "nsec < 1000000000"
  shows "parse_rfc3339nano (format_rfc3339nano (sec, nsec)) = Some (sec, nsec)"
proof -
  note v = civil_valid [OF assms(1)]
  define s where "s = sec mod 86400"
  note c = clock_parts [of sec, folded s_def]
  have days: "days_from_civil y m d = sec div 86400" using days_civil [of "sec div 86400"] assms(1) by simp
  with c(7) have "days_from_civil y m d * 86400 + s div 3600 * 3600 + s div 60 mod 60 * 60 + s mod 60 = sec" by simp
  moreover have "format_rfc3339nano (sec, nsec) = year_text y @ ''-'' @ pad2 m @ ''-'' @ pad2 d @ ''T'' @
      pad2 (s div 3600) @ '':'' @ pad2 (s div 60 mod 60) @ '':'' @ pad2 (s mod 60) @ frac_text nsec @ ''Z''"
    unfolding format_rfc3339nano_def Let_def s_def assms(1) prod.case by (rule refl)
  moreover note parse_fields [of y m d "s div 3600" "s div 60 mod 60" "s mod 60" nsec]
  ultimately show ?thesis using v c(1-6) assms(2-5) by (simp only:)
qed

text \<open>A year of any other width is refused by the parser.\<close>

lemma num4_wide_year:
  assumes "\<not> (0 \<le> y \<and> y < 10000)"
  shows "Option.bind (num4 (year_text y @ ''-'' @ r)) (\<lambda>(y, s). Option.bind (lit (CHR ''-'') s) (f y)) = None"
proof (cases "y < 0")
  case True
  then show ?thesis by (cases "padZero 4 (nat_dec (nat (- y))) @ ''-'' @ r")
      (simp_all add: year_text_def num4_def is_digit_def)
next
  case False
  have "\<not> length (nat_dec (nat y)) \<le> 4"
  proof
    assume "length (nat_dec (nat y)) \<le> 4"
    then have "(10::nat) ^ length (nat_dec (nat y)) \<le> 10 ^ 4" by (intro power_increasing) simp_all
    then have "nat y < 10 ^ 4"
      using digits_val_bound [OF nat_dec_digits [of "nat y"]] unfolding digits_val_nat_dec by (rule less_le_trans [rotated])
    with False assms show False by simp
  qed
  then obtain a b c d e s where n: "nat_dec (nat y) = a # b # c # d # e # s"
    by (auto simp: not_le Suc_le_length_iff numeral_eq_Suc less_eq_Suc_le)
  with nat_dec_digits [of "nat y"] have "list_all is_digit [a, b, c, d, e]" by simp
  moreover from this have "e \<noteq> CHR ''-''" by (auto simp: is_digit_def)
  ultimately show ?thesis using False assms by (simp add: year_text_def n num4_def)
qed

lemma parse_wide_year:
  assumes "civil_from_days (sec div 86400) = (y, m, d)" "\<not> (0 \<le> y \<and> y < 10000)"
  shows "parse_rfc3339nano (format_rfc3339nano (sec, nsec)) = None"
  unfolding parse_rfc3339nano_def format_rfc3339nano_def Let_def assms(1) prod.case
  by (rule num4_wide_year [OF assms(2)])

end
