(* ===== verification/Catalog_Credentials.thy ===== *)
theory Catalog_Credentials
  imports Go_Time
begin

text \<open>
  \<^verbatim>\<open>pkg/catalog/vended_credentials.go\<close>: the storage credentials an Iceberg REST catalog vends with a
  table. An instant is its nanoseconds since the epoch; the zero \<^verbatim>\<open>time.Time\<close> is \<open>None\<close>.
\<close>

record storage_credentials =
  VendAccessKeyID :: string
  VendSecretAccessKey :: string
  VendSessionToken :: string
  VendRegion :: string
  VendExpiration :: "int option"

definition redactedStorageCredentials :: string where
  "redactedStorageCredentials = ''catalog.StorageCredentials{REDACTED}''"

definition Credentials_String :: "storage_credentials \<Rightarrow> string" where
  "Credentials_String c = redactedStorageCredentials"

definition Credentials_GoString :: "storage_credentials \<Rightarrow> string" where
  "Credentials_GoString c = redactedStorageCredentials"

definition Credentials_MarshalJSON :: "storage_credentials \<Rightarrow> string" where
  "Credentials_MarshalJSON c = CHR 0x22 # ''REDACTED'' @ [CHR 0x22]"

definition Credentials_Expired :: "storage_credentials \<Rightarrow> int \<Rightarrow> int \<Rightarrow> bool" where
  "Credentials_Expired c now buffer = (case VendExpiration c of None \<Rightarrow> False | Some e \<Rightarrow> \<not> e > now + buffer)"

text \<open>Indexing a Go map of strings: an absent key is the empty string.\<close>

definition str_at :: "(string, string) gomap \<Rightarrow> string \<Rightarrow> string" where
  "str_at m k = (case map_of m k of None \<Rightarrow> '''' | Some v \<Rightarrow> v)"

definition vendedConfigKeyAccessKeyID :: string where "vendedConfigKeyAccessKeyID = ''s3.access-key-id''"
definition vendedConfigKeySecretAccessKey :: string where "vendedConfigKeySecretAccessKey = ''s3.secret-access-key''"
definition vendedConfigKeySessionToken :: string where "vendedConfigKeySessionToken = ''s3.session-token''"
definition vendedConfigKeyExpirationTime :: string where "vendedConfigKeyExpirationTime = ''expiration-time''"
definition vendedConfigKeyClientRegion :: string where "vendedConfigKeyClientRegion = ''client.region''"
definition vendedConfigKeyExpiresAtMs :: string where "vendedConfigKeyExpiresAtMs = ''s3.session-token-expires-at-ms''"

text \<open>A \<^verbatim>\<open>time.Time\<close> from its nanoseconds: the first instant of year 1 is the zero time.\<close>

definition instant_of :: "int \<Rightarrow> int option" where
  "instant_of ns = (if ns = - 62135596800 * 1000000000 then None else Some ns)"

definition parse_instant :: "string \<Rightarrow> int option option" where
  "parse_instant raw =
     (case parse_rfc3339nano raw of
        Some (sec, nsec) \<Rightarrow> Some (instant_of (sec * 1000000000 + nsec))
      | None \<Rightarrow> map_option (\<lambda>ms. instant_of (ms * 1000000)) (parseInt raw))"

fun first_instant :: "string list \<Rightarrow> int option" where
  "first_instant [] = None"
| "first_instant (raw # raws) =
     (if raw = '''' then first_instant raws
      else (case parse_instant raw of Some t \<Rightarrow> t | None \<Rightarrow> first_instant raws))"

definition parseExpiration :: "(string, string) gomap \<Rightarrow> int option" where
  "parseExpiration config =
     first_instant (map (\<lambda>k. trimSpace (str_at config k)) [vendedConfigKeyExpirationTime, vendedConfigKeyExpiresAtMs])"

definition credentialsFromConfig :: "(string, string) gomap \<Rightarrow> storage_credentials option" where
  "credentialsFromConfig config =
     (let accessKeyID = trimSpace (str_at config vendedConfigKeyAccessKeyID);
          secretAccessKey = trimSpace (str_at config vendedConfigKeySecretAccessKey) in
      if accessKeyID = '''' \<or> secretAccessKey = '''' then None
      else Some \<lparr>VendAccessKeyID = accessKeyID, VendSecretAccessKey = secretAccessKey,
        VendSessionToken = trimSpace (str_at config vendedConfigKeySessionToken),
        VendRegion = trimSpace (str_at config vendedConfigKeyClientRegion),
        VendExpiration = parseExpiration config\<rparr>)"

record vended_entry =
  EntryPrefix :: string
  EntryConfig :: "(string, string) gomap"

text \<open>The loop over the entries; \<open>n\<close> is the length of the best prefix so far, \<open>-1\<close> before the first.\<close>

fun best_entry :: "string \<Rightarrow> vended_entry list \<Rightarrow> storage_credentials option \<Rightarrow> int \<Rightarrow> storage_credentials option" where
  "best_entry basePath [] best n = best"
| "best_entry basePath (entry # entries) best n =
     (if EntryPrefix entry \<noteq> '''' \<and> \<not> hasPrefix basePath (EntryPrefix entry) then best_entry basePath entries best n
      else (case credentialsFromConfig (EntryConfig entry) of
              None \<Rightarrow> best_entry basePath entries best n
            | Some creds \<Rightarrow>
                if int (length (EntryPrefix entry)) > n
                then best_entry basePath entries (Some creds) (int (length (EntryPrefix entry)))
                else best_entry basePath entries best n))"

definition bestMatchingStorageCredential :: "string \<Rightarrow> vended_entry list \<Rightarrow> storage_credentials option" where
  "bestMatchingStorageCredential basePath entries = best_entry basePath entries None (- 1)"

definition fill_from :: "storage_credentials option \<Rightarrow> storage_credentials \<Rightarrow> storage_credentials" where
  "fill_from fallback creds =
     (case fallback of
        None \<Rightarrow> creds
      | Some f \<Rightarrow>
          creds\<lparr>VendRegion := (if VendRegion creds = '''' then VendRegion f else VendRegion creds),
                VendExpiration := (if VendExpiration creds = None then VendExpiration f else VendExpiration creds)\<rparr>)"

definition parseStorageCredentials :: "string \<Rightarrow> vended_entry list \<Rightarrow> (string, string) gomap \<Rightarrow> storage_credentials option" where
  "parseStorageCredentials basePath entries config =
     (case bestMatchingStorageCredential basePath entries of
        Some creds \<Rightarrow>
          (let c = fill_from (credentialsFromConfig config) creds in
           Some (if VendRegion c = '''' then c\<lparr>VendRegion := trimSpace (str_at config vendedConfigKeyClientRegion)\<rparr> else c))
      | None \<Rightarrow> credentialsFromConfig config)"

section \<open>The most specific credential\<close>

text \<open>The entries that may be used for a path: their prefix covers it and they carry a credential.\<close>

definition usable :: "string \<Rightarrow> vended_entry \<Rightarrow> storage_credentials option" where
  "usable basePath e =
     (if EntryPrefix e = '''' \<or> hasPrefix basePath (EntryPrefix e) then credentialsFromConfig (EntryConfig e) else None)"

lemma best_entry_spec:
  "(\<forall>e \<in> set seen. usable p e \<noteq> None \<longrightarrow> int (length (EntryPrefix e)) \<le> n) \<Longrightarrow>
    (case best of None \<Rightarrow> n = - 1 \<and> (\<forall>e \<in> set seen. usable p e = None)
     | Some c \<Rightarrow> \<exists>e \<in> set seen. usable p e = Some c \<and> int (length (EntryPrefix e)) = n) \<Longrightarrow>
    (case best_entry p es best n of None \<Rightarrow> \<forall>e \<in> set seen \<union> set es. usable p e = None
     | Some c \<Rightarrow> \<exists>e \<in> set seen \<union> set es. usable p e = Some c \<and>
         (\<forall>e' \<in> set seen \<union> set es. usable p e' \<noteq> None \<longrightarrow> length (EntryPrefix e') \<le> length (EntryPrefix e)))"
proof (induction es arbitrary: seen best n)
  case Nil
  then show ?case by (cases best) fastforce+
next
  case (Cons e es)
  have s: "set seen \<union> set (e # es) = set (e # seen) \<union> set es" by auto
  show ?case
  proof (cases "usable p e")
    case None
    then have "best_entry p (e # es) best n = best_entry p es best n" by (auto simp: usable_def split: if_splits)
    with Cons.IH [of "e # seen" n best] Cons.prems None show ?thesis
      unfolding s by (cases best) auto
  next
    case (Some c)
    then have eq: "best_entry p (e # es) best n =
        (if int (length (EntryPrefix e)) > n then best_entry p es (Some c) (int (length (EntryPrefix e))) else best_entry p es best n)"
      by (auto simp: usable_def split: if_splits)
    show ?thesis
    proof (cases "int (length (EntryPrefix e)) > n")
      case True
      have "\<forall>x \<in> set (e # seen). usable p x \<noteq> None \<longrightarrow> int (length (EntryPrefix x)) \<le> int (length (EntryPrefix e))"
        using Cons.prems(1) True by fastforce
      from Cons.IH [OF this, of "Some c"] show ?thesis unfolding s eq using True Some by simp
    next
      case False
      then obtain b where b: "best = Some b" using Cons.prems(2) by (cases best) auto
      have "\<forall>x \<in> set (e # seen). usable p x \<noteq> None \<longrightarrow> int (length (EntryPrefix x)) \<le> n"
        using Cons.prems(1) False by auto
      moreover have "best_entry p (e # es) best n = best_entry p es (Some b) n" using eq False b by simp
      moreover have "case Some b of None \<Rightarrow> n = - 1 \<and> (\<forall>e \<in> set (e # seen). usable p e = None)
          | Some c \<Rightarrow> \<exists>e \<in> set (e # seen). usable p e = Some c \<and> int (length (EntryPrefix e)) = n"
        using Cons.prems(2) b by auto
      ultimately show ?thesis unfolding s using Cons.IH [of "e # seen" n "Some b"] by metis
    qed
  qed
qed

text \<open>
  The credential chosen for a table is the most specific one: it comes from an entry whose
  prefix covers the table's path and no usable entry has a longer prefix; none is chosen exactly
  when no entry is usable.
\<close>

theorem best_credential:
  "case bestMatchingStorageCredential basePath entries of
     None \<Rightarrow> list_all (\<lambda>e. usable basePath e = None) entries
   | Some c \<Rightarrow> \<exists>e. e \<in> set entries \<and> usable basePath e = Some c \<and>
       list_all (\<lambda>e'. usable basePath e' = None \<or> length (EntryPrefix e') \<le> length (EntryPrefix e)) entries"
proof (cases "bestMatchingStorageCredential basePath entries")
  case None
  then show ?thesis using best_entry_spec [of "[]" basePath "- 1" None entries]
    by (simp add: bestMatchingStorageCredential_def list_all_iff)
next
  case (Some c)
  then obtain e where "e \<in> set entries" "usable basePath e = Some c"
    "\<forall>e' \<in> set entries. usable basePath e' \<noteq> None \<longrightarrow> length (EntryPrefix e') \<le> length (EntryPrefix e)"
    using best_entry_spec [of "[]" basePath "- 1" None entries] by (auto simp: bestMatchingStorageCredential_def)
  then have "list_all (\<lambda>e'. usable basePath e' = None \<or> length (EntryPrefix e') \<le> length (EntryPrefix e)) entries"
    unfolding list_all_iff by blast
  with \<open>e \<in> set entries\<close> \<open>usable basePath e = Some c\<close> show ?thesis unfolding Some by auto
qed

text \<open>
  The region a vended credential needs is not lost: when the chosen entry names none, the
  table-wide configuration's is used, and the key, secret and session token stay the entry's.
\<close>

theorem credential_region:
  assumes "bestMatchingStorageCredential basePath entries = Some c"
  shows "\<exists>c'. parseStorageCredentials basePath entries config = Some c' \<and>
    VendAccessKeyID c' = VendAccessKeyID c \<and> VendSecretAccessKey c' = VendSecretAccessKey c \<and>
    VendSessionToken c' = VendSessionToken c \<and>
    VendRegion c' = (if VendRegion c = '''' then trimSpace (str_at config vendedConfigKeyClientRegion) else VendRegion c)"
  using assms
  by (cases "credentialsFromConfig config")
    (auto simp: parseStorageCredentials_def fill_from_def Let_def credentialsFromConfig_def split: if_splits)

definition sample_entries :: "vended_entry list" where
  "sample_entries =
     [\<lparr>EntryPrefix = ''s3://b'', EntryConfig = [(''s3.access-key-id'', ''A''), (''s3.secret-access-key'', ''x'')]\<rparr>,
      \<lparr>EntryPrefix = ''s3://b/t'', EntryConfig = [(''s3.access-key-id'', ''B''), (''s3.secret-access-key'', ''y'')]\<rparr>]"

theorem credential_region_witness:
  "\<exists>c. parseStorageCredentials ''s3://b/t/1'' sample_entries [(''client.region'', ''eu-west-1'')] = Some c \<and>
    VendAccessKeyID c = ''B'' \<and> VendRegion c = ''eu-west-1''"
proof -
  have "bestMatchingStorageCredential ''s3://b/t/1'' sample_entries =
      Some \<lparr>VendAccessKeyID = ''B'', VendSecretAccessKey = ''y'', VendSessionToken = '''', VendRegion = '''', VendExpiration = None\<rparr>"
    by code_simp
  moreover have "trimSpace (str_at [(''client.region'', ''eu-west-1'')] vendedConfigKeyClientRegion) = ''eu-west-1''" by code_simp
  ultimately show ?thesis using credential_region [of "''s3://b/t/1''" sample_entries _ "[(''client.region'', ''eu-west-1'')]"]
    by fastforce
qed

end
