(* ===== verification/Catalog_Core.thy ===== *)
theory Catalog_Core
  imports Model_Core Catalog_Credentials
begin

text \<open>
  \<^verbatim>\<open>pkg/catalog/catalog.go\<close> and \<^verbatim>\<open>conversion.go\<close>: the configuration of an external catalog, the
  choice of its client, and what the properties of a registered table say about its format, its
  conversion targets and the place of its data. The constructors of the Glue and REST clients talk
  to services and are arguments.
\<close>

section \<open>Catalogs\<close>

type_synonym catalog_type = string

definition CatalogTypeGlue :: catalog_type where "CatalogTypeGlue = ''AWS_GLUE''"
definition CatalogTypeHMS :: catalog_type where "CatalogTypeHMS = ''HIVE_METASTORE''"
definition CatalogTypeIcebergREST :: catalog_type where "CatalogTypeIcebergREST = ''ICEBERG_REST''"

lemmas catalog_type_defs = CatalogTypeGlue_def CatalogTypeHMS_def CatalogTypeIcebergREST_def

definition Implemented :: "catalog_type \<Rightarrow> bool" where
  "Implemented c \<longleftrightarrow> c = CatalogTypeGlue \<or> c = CatalogTypeIcebergREST"

record catalog_config =
  CatType :: catalog_type
  CatalogID :: string
  DatabaseName :: string
  CatURI :: string
  CatProperties :: "(string, string) gomap"
  MaxPartitionsPerRequest :: int

definition Config_Validate :: "catalog_config \<Rightarrow> unit res" where
  "Config_Validate c =
     (if CatType c = '''' then Inl (ErrMsg ''catalog type is required'')
      else if DatabaseName c = '''' then Inl (ErrMsg ''databaseName is required'')
      else Inr ())"

text \<open>The switch \<^verbatim>\<open>NewSyncClient\<close> and \<^verbatim>\<open>NewConversionSource\<close> share.\<close>

definition by_catalog_type :: "(catalog_config \<Rightarrow> 'a res) \<Rightarrow> (catalog_config \<Rightarrow> 'a res) \<Rightarrow> catalog_config \<Rightarrow> 'a res" where
  "by_catalog_type glue rest cfg =
     bind_res (Config_Validate cfg) (\<lambda>_.
       if CatType cfg = CatalogTypeGlue then glue cfg
       else if CatType cfg = CatalogTypeIcebergREST then rest cfg
       else if CatType cfg = CatalogTypeHMS
         then Inl (ErrNotImplemented ''Hive Metastore (HMS) catalog support is not implemented'')
       else Inl (ErrMsg (''unsupported catalog type: '' @ CatType cfg)))"

definition NewSyncClient :: "(catalog_config \<Rightarrow> 'client res) \<Rightarrow> (catalog_config \<Rightarrow> 'client res) \<Rightarrow> catalog_config \<Rightarrow> 'client res" where
  "NewSyncClient NewGlueCatalogSyncClient NewIcebergRESTCatalogClient cfg =
     by_catalog_type NewGlueCatalogSyncClient NewIcebergRESTCatalogClient cfg"

definition NewConversionSource :: "(catalog_config \<Rightarrow> 'src res) \<Rightarrow> (catalog_config \<Rightarrow> 'src res) \<Rightarrow> catalog_config \<Rightarrow> 'src res" where
  "NewConversionSource NewGlueConversionSource NewIcebergRESTConversionSource cfg =
     by_catalog_type NewGlueConversionSource NewIcebergRESTConversionSource cfg"

section \<open>Tables of a catalog\<close>

definition PropTableType :: string where "PropTableType = ''table_type''"
definition PropSparkSQLSourcesProvider :: string where "PropSparkSQLSourcesProvider = ''spark.sql.sources.provider''"
definition PropWriteDataLocation :: string where "PropWriteDataLocation = ''write.data.path''"
definition PropWriteFolderStorageLocation :: string where "PropWriteFolderStorageLocation = ''write.folder-storage.path''"
definition PropObjectStorePath :: string where "PropObjectStorePath = ''write.object-storage.path''"
definition PropTargetFormats :: string where "PropTargetFormats = ''polytable_target_formats''"

lemmas prop_defs = PropTableType_def PropSparkSQLSourcesProvider_def PropWriteDataLocation_def
  PropWriteFolderStorageLocation_def PropObjectStorePath_def PropTargetFormats_def

record table_filter =
  RequireConversionMarkers :: bool

definition Matches :: "table_filter \<Rightarrow> (string, string) gomap \<Rightarrow> bool" where
  "Matches f properties \<longleftrightarrow>
     \<not> (RequireConversionMarkers f \<and> trimSpace (str_at properties PropTargetFormats) = '''')"

record table_identifier =
  IdDatabase :: string
  IdTable :: string

definition Identifier_String :: "table_identifier \<Rightarrow> string" where
  "Identifier_String t = IdDatabase t @ ''.'' @ IdTable t"

definition Identifier_Validate :: "table_identifier \<Rightarrow> unit res" where
  "Identifier_Validate t =
     (if IdDatabase t = '''' then Inl (ErrMsg ''catalog table identifier requires a database'')
      else if IdTable t = '''' then Inl (ErrMsg ''catalog table identifier requires a table name'')
      else Inr ())"

record source_table =
  SrcName :: string
  SrcBasePath :: string
  SrcDataPath :: string
  SrcFormat :: table_format
  SrcProperties :: "(string, string) gomap"
  StorageCredentials :: "storage_credentials option"

definition TableFormatFromProperties :: "(string, string) gomap \<Rightarrow> table_format res" where
  "TableFormatFromProperties properties =
     (let raw0 = trimSpace (str_at properties PropTableType);
          raw = (if raw0 = '''' then trimSpace (str_at properties PropSparkSQLSourcesProvider) else raw0)
      in if raw = ''''
         then Inl (ErrMsg (''catalog table properties carry neither '' @ quoted PropTableType @ '' nor '' @
           quoted PropSparkSQLSourcesProvider @ '', so the table format cannot be determined''))
         else ParseTableFormat (toUpper raw))"

text \<open>The loop over the parts of the marker; blank parts are skipped.\<close>

definition marked_formats :: "string list \<Rightarrow> table_format list res" where
  "marked_formats parts =
     map_res (\<lambda>part. wrap_res (''property '' @ quoted PropTargetFormats) (ParseTableFormat part))
       (filter (\<lambda>part. part \<noteq> '''') (map trimSpace parts))"

definition TargetFormatsFromProperties :: "(string, string) gomap \<Rightarrow> table_format list res" where
  "TargetFormatsFromProperties properties =
     (let raw = trimSpace (str_at properties PropTargetFormats) in
      if raw = '''' then Inr [] else marked_formats (splitChar (CHR '','') raw))"

definition DataLocationForFormat :: "table_format \<Rightarrow> string \<Rightarrow> (string, string) gomap \<Rightarrow> string res" where
  "DataLocationForFormat format basePath properties =
     (if format \<in> {TableFormatDelta, TableFormatHudi, TableFormatPaimon, TableFormatParquet} then Inr basePath
      else if format = TableFormatIceberg then
        Inr (case filter (\<lambda>v. v \<noteq> '''') (map (\<lambda>k. trimSpace (str_at properties k))
                 [PropWriteDataLocation, PropWriteFolderStorageLocation, PropObjectStorePath]) of
               v # _ \<Rightarrow> v
             | [] \<Rightarrow> trimSuffix basePath ''/'' @ ''/data'')
      else Inl (ErrMsg (''unsupported table format for data location: '' @ format)))"

section \<open>What they promise\<close>

text \<open>
  A catalog client is built exactly for the implemented types: every other configuration is
  refused with an error, Hive Metastore with the error that says it is not implemented.
\<close>

theorem NewSyncClient_choice:
  "NewSyncClient glue rest cfg =
     (if CatType cfg = '''' \<or> DatabaseName cfg = '''' then
        Inl (ErrMsg (if CatType cfg = '''' then ''catalog type is required'' else ''databaseName is required''))
      else if Implemented (CatType cfg) then (if CatType cfg = CatalogTypeGlue then glue cfg else rest cfg)
      else Inl (if CatType cfg = CatalogTypeHMS
        then ErrNotImplemented ''Hive Metastore (HMS) catalog support is not implemented''
        else ErrMsg (''unsupported catalog type: '' @ CatType cfg)))"
  by (auto simp: NewSyncClient_def by_catalog_type_def Config_Validate_def Implemented_def catalog_type_defs)

lemma marked_formats_supported: "marked_formats parts = Inr fs \<Longrightarrow> set fs \<subseteq> set SupportedTableFormats"
  unfolding marked_formats_def using map_res_elem ParseTableFormat_supported by fastforce

lemma SupportedTableFormats_location: "f \<in> set SupportedTableFormats \<Longrightarrow> \<exists>p. DataLocationForFormat f basePath props = Inr p"
  by (auto simp: SupportedTableFormats_def DataLocationForFormat_def)

text \<open>
  Whatever the properties of a registered table say, a format polytable takes from them is one
  it supports, and a supported format always has a data location; the target formats it reads are
  supported too.
\<close>

theorem catalog_formats_supported:
  assumes "TableFormatFromProperties props = Inr f" "TargetFormatsFromProperties props' = Inr fs"
  shows "f \<in> set SupportedTableFormats \<and> (\<exists>p. DataLocationForFormat f basePath props = Inr p) \<and>
    set fs \<subseteq> set SupportedTableFormats"
proof -
  have "f \<in> set SupportedTableFormats"
    using assms(1) ParseTableFormat_supported by (auto simp: TableFormatFromProperties_def Let_def split: if_splits)
  moreover have "set fs \<subseteq> set SupportedTableFormats"
    using assms(2) marked_formats_supported by (auto simp: TargetFormatsFromProperties_def Let_def split: if_splits)
  ultimately show ?thesis using SupportedTableFormats_location by blast
qed

theorem catalog_formats_supported_witness:
  "TableFormatDelta \<in> set SupportedTableFormats \<and> (\<exists>p. DataLocationForFormat TableFormatDelta ''s3://b/t'' [(PropTableType, ''delta'')] = Inr p) \<and>
    set [TableFormatIceberg, TableFormatHudi] \<subseteq> set SupportedTableFormats"
proof (rule catalog_formats_supported)
  show "TableFormatFromProperties [(PropTableType, ''delta'')] = Inr TableFormatDelta" by code_simp
  show "TargetFormatsFromProperties [(PropTargetFormats, ''ICEBERG, ,hudi'')] = Inr [TableFormatIceberg, TableFormatHudi]"
    by code_simp
qed

end
