(* ===== verification/Storage_Paths.thy ===== *)
theory Storage_Paths
  imports Go_Prelude
begin

text \<open>
  The path helpers of \<^verbatim>\<open>pkg/io/storage.go\<close>, with the parts of Go's \<^verbatim>\<open>path\<close> and
  \<^verbatim>\<open>path/filepath\<close> they call. Every target stores data files relative to the table, and every
  source joins them back, so the two helpers have to be inverse to each other: that round trip,
  the independence of the URI scheme and the refusal of foreign paths are the lemmas here.
\<close>

section \<open>Package path\<close>

text \<open>
  \<^verbatim>\<open>path.Clean\<close>: the segments are pushed on a stack (its top first); an empty segment and a dot
  are dropped, a double dot pops, and at the root it is dropped too.
\<close>

fun clean_segs :: "bool \<Rightarrow> string list \<Rightarrow> string list \<Rightarrow> string list" where
  "clean_segs rooted [] st = rev st"
| "clean_segs rooted (w # ws) st =
     (if w = '''' \<or> w = ''.'' then clean_segs rooted ws st
      else if w = ''..'' then
        (case st of
           [] \<Rightarrow> if rooted then clean_segs rooted ws [] else clean_segs rooted ws [w]
         | t # st' \<Rightarrow> if t = ''..'' then clean_segs rooted ws (w # st) else clean_segs rooted ws st')
      else clean_segs rooted ws (w # st))"

definition path_Clean :: "string \<Rightarrow> string" where
  "path_Clean p =
     (if p = '''' then ''.''
      else
        let rooted = hasPrefix p ''/'';
            out = joinWith ''/'' (clean_segs rooted (splitChar (CHR ''/'') p) [])
        in if rooted then CHR ''/'' # out else if out = '''' then ''.'' else out)"

text \<open>\<^verbatim>\<open>filepath.Join\<close>: leading empty elements are ignored.\<close>

definition filepath_Join :: "string list \<Rightarrow> string" where
  "filepath_Join es =
     (case dropWhile (\<lambda>e. e = '''') es of [] \<Rightarrow> '''' | fs \<Rightarrow> path_Clean (joinWith ''/'' fs))"

text \<open>\<^verbatim>\<open>filepath.Base\<close>.\<close>

definition filepath_Base :: "string \<Rightarrow> string" where
  "filepath_Base p =
     (if p = '''' then ''.''
      else (let q = rev (dropWhile (\<lambda>c. c = CHR ''/'') (rev p)) in
            if q = '''' then ''/'' else last (splitChar (CHR ''/'') q)))"

lemma splitChar_append: "splitChar sep (s @ sep # t) = splitChar sep s @ splitChar sep t"
proof (induction s)
  case (Cons c s)
  obtain w ws where "splitChar sep s = w # ws" using splitChar_nonempty by (meson neq_Nil_conv)
  with Cons show ?case by simp
qed simp

lemma last_splitChar_append: "sep \<notin> set w \<Longrightarrow> last (splitChar sep (s @ sep # w)) = w"
  by (simp add: splitChar_append splitChar_no_sep)

text \<open>The last segment of a path is its base name.\<close>

lemma filepath_Base_append:
  assumes "w \<noteq> ''''" "CHR ''/'' \<notin> set w"
  shows "filepath_Base (s @ ''/'' @ w) = w"
proof -
  have "dropWhile (\<lambda>c. c = CHR ''/'') (rev (s @ ''/'' @ w)) = rev (s @ ''/'' @ w)"
    using assms by (cases w rule: rev_cases) auto
  then show ?thesis using last_splitChar_append [OF assms(2), of s] by (simp add: filepath_Base_def Let_def)
qed

section \<open>URI schemes\<close>

definition uriSchemes :: "string list" where
  "uriSchemes = [''s3://'', ''s3a://'', ''gs://'', ''abfss://'', ''abfs://'', ''wasbs://'', ''wasb://'',
     ''mem://'', ''file://'']"

definition azureSchemes :: "string list" where
  "azureSchemes = [''abfss://'', ''abfs://'', ''wasbs://'', ''wasb://'']"

definition IsAzurePath :: "string \<Rightarrow> bool" where
  "IsAzurePath p \<longleftrightarrow> list_ex (hasPrefix p) azureSchemes"

fun trim_scheme_in :: "string list \<Rightarrow> string \<Rightarrow> string \<times> string" where
  "trim_scheme_in [] p = ('''', p)"
| "trim_scheme_in (s # ss) p = (if hasPrefix p s then (s, trimPrefix p s) else trim_scheme_in ss p)"

definition TrimScheme :: "string \<Rightarrow> string \<times> string" where
  "TrimScheme p = trim_scheme_in uriSchemes p"

text \<open>The loop that replaces double slashes until none is left.\<close>

function collapse_slashes :: "string \<Rightarrow> string" where
  "collapse_slashes s = (if containsStr s ''//'' then collapse_slashes (replaceSlashes s) else s)"
  by pat_completeness auto
termination
  by (relation "measure length") (auto simp: replaceSlashes_shorter)

declare collapse_slashes.simps [simp del]

definition JoinPath :: "string \<Rightarrow> string list \<Rightarrow> string" where
  "JoinPath base elem =
     (case TrimScheme base of
        (scheme, trimmed) \<Rightarrow>
          if scheme \<noteq> '''' then
            let joined = collapse_slashes (joinWith ''/'' (trimmed # elem))
            in if hasPrefix trimmed ''/'' then scheme @ joined else scheme @ trimPrefix joined ''/''
          else filepath_Join (base # elem))"

section \<open>Relative paths\<close>

definition canonicalHostForCompare :: "string \<Rightarrow> string" where
  "canonicalHostForCompare p =
     (let tp = trimPrefix p ''/'';
          off = length p - length tp;
          n = (if CHR ''/'' \<in> set tp then off + length (takeWhile (\<lambda>c. c \<noteq> CHR ''/'') tp) else length p);
          authority1 = replaceFirst (take n p) ''.blob.core.windows.net'' ''.dfs.core.windows.net'';
          authority2 = replaceFirst authority1 ''onelake.blob.fabric.microsoft.com''
                         ''onelake.dfs.fabric.microsoft.com''
      in authority2 @ drop n p)"

definition RelativizePath :: "string \<Rightarrow> string \<Rightarrow> string res" where
  "RelativizePath physicalPath basePath =
     (let base0 = snd (TrimScheme basePath);
          scheme = fst (TrimScheme physicalPath);
          file0 = snd (TrimScheme physicalPath)
      in
      if base0 = '''' then Inl (ErrInvalidPath (''base path has no path component: '' @ basePath))
      else if file0 = '''' then Inl (ErrInvalidPath (''file path has no path component: '' @ physicalPath))
      else
        let base1 = path_Clean base0; file1 = path_Clean file0 in
        if scheme = '''' \<and> containsStr physicalPath ''://'' then
          Inl (ErrInvalidPath (''scheme not recognised: '' @ physicalPath))
        else if scheme = '''' \<and> \<not> hasPrefix file1 ''/'' then
          (if file1 = ''..'' \<or> hasPrefix file1 ''../''
           then Inl (ErrPathNotUnderBase (physicalPath @ '' climbs out of '' @ basePath))
           else Inr file1)
        else
          let base = canonicalHostForCompare base1; file = canonicalHostForCompare file1 in
          if file = base then Inl (ErrPathNotUnderBase (physicalPath @ '' is the base path itself''))
          else if \<not> hasPrefix file base \<or>
              (\<not> hasPrefix (trimPrefix file base) ''/'' \<and> \<not> hasSuffix base ''/'')
            then Inl (ErrPathNotUnderBase (physicalPath @ '' is not under '' @ basePath))
          else Inr (trimPrefix (trimPrefix file base) ''/''))"

section \<open>Clean paths\<close>

text \<open>A proper segment survives cleaning.\<close>

definition proper_seg :: "string \<Rightarrow> bool" where
  "proper_seg w \<longleftrightarrow> w \<noteq> '''' \<and> w \<noteq> ''.'' \<and> w \<noteq> ''..'' \<and> CHR ''/'' \<notin> set w"

lemma clean_segs_proper: "list_all proper_seg ws \<Longrightarrow> clean_segs r ws st = rev st @ ws"
  by (induction ws arbitrary: st) (auto simp: proper_seg_def)

lemma splitChar_proper: "ws \<noteq> [] \<Longrightarrow> list_all proper_seg ws \<Longrightarrow>
    splitChar (CHR ''/'') (joinWith ''/'' ws) = ws"
  by (rule splitChar_joinWith) (auto simp: list_all_iff proper_seg_def)

lemma joinWith_proper_hd:
  assumes "ws \<noteq> []" and "list_all proper_seg ws"
  shows "joinWith ''/'' ws \<noteq> []" and "\<not> hasPrefix (joinWith ''/'' ws) ''/''"
proof -
  from assms obtain w ws' where w: "ws = w # ws'" by (meson neq_Nil_conv)
  with assms obtain c t where "w = c # t" and "c \<noteq> CHR ''/''"
    by (cases w) (auto simp: proper_seg_def)
  with w have "\<exists>u. joinWith ''/'' ws = c # u" by (cases "ws' = []") (auto simp: joinWith_Cons)
  with \<open>c \<noteq> CHR ''/''\<close> show "joinWith ''/'' ws \<noteq> []" and "\<not> hasPrefix (joinWith ''/'' ws) ''/''"
    by auto
qed

lemma path_Clean_relative:
  assumes "ws \<noteq> []" and "list_all proper_seg ws"
  shows "path_Clean (joinWith ''/'' ws) = joinWith ''/'' ws"
  using joinWith_proper_hd [OF assms] splitChar_proper [OF assms] clean_segs_proper [OF assms(2), of False "[]"]
  by (simp add: path_Clean_def Let_def)

lemma path_Clean_rooted:
  assumes "ws \<noteq> []" and "list_all proper_seg ws"
  shows "path_Clean (CHR ''/'' # joinWith ''/'' ws) = CHR ''/'' # joinWith ''/'' ws"
  using splitChar_proper [OF assms] clean_segs_proper [OF assms(2), of True "[]"]
  by (simp add: path_Clean_def Let_def)

lemma joinWith_append:
  "ws \<noteq> [] \<Longrightarrow> vs \<noteq> [] \<Longrightarrow> joinWith sep (ws @ vs) = joinWith sep ws @ sep @ joinWith sep vs"
proof (induction ws)
  case (Cons w ws)
  then show ?case by (cases "ws = []") (auto simp: joinWith_Cons)
qed simp

lemma containsStr_Cons_neq: "c \<noteq> d \<Longrightarrow> containsStr (c # s) (d # p) \<longleftrightarrow> containsStr s (d # p)"
  by simp

lemma no_double_slash_seg:
  assumes "proper_seg w" and "\<not> containsStr s ''//''" and "\<not> hasPrefix s ''/''"
  shows "\<not> containsStr (w @ s) ''//''" and "\<not> containsStr (w @ CHR ''/'' # s) ''//''"
proof -
  have "CHR ''/'' \<notin> set v \<Longrightarrow> \<not> containsStr (v @ s) ''//'' \<and> \<not> containsStr (v @ CHR ''/'' # s) ''//''" for v
  proof (induction v)
    case Nil
    with assms(2,3) show ?case by (cases s) auto
  qed auto
  with assms(1) show "\<not> containsStr (w @ s) ''//''" and "\<not> containsStr (w @ CHR ''/'' # s) ''//''"
    by (auto simp: proper_seg_def)
qed

lemma joinWith_no_double_slash: "list_all proper_seg ws \<Longrightarrow> \<not> containsStr (joinWith ''/'' ws) ''//''"
proof (induction ws)
  case (Cons w ws)
  show ?case
  proof (cases "ws = []")
    case True
    with Cons no_double_slash_seg(1) [of w "[]"] show ?thesis by simp
  next
    case False
    with Cons joinWith_proper_hd [of ws] no_double_slash_seg(2) [of w "joinWith ''/'' ws"]
    show ?thesis by (simp add: joinWith_Cons)
  qed
qed simp

lemma rooted_no_double_slash:
  assumes "ws \<noteq> []" and "list_all proper_seg ws"
  shows "\<not> containsStr (CHR ''/'' # joinWith ''/'' ws) ''//''"
  using joinWith_no_double_slash [OF assms(2)] joinWith_proper_hd [OF assms]
  by (cases "joinWith ''/'' ws") auto

lemma containsStr_mono: "containsStr s (p @ q) \<Longrightarrow> containsStr s q"
proof (induction s)
  case (Cons c s)
  have drop: "containsStr t q \<Longrightarrow> containsStr (u @ t) q" for t u
    by (induction u) auto
  have pre: "hasPrefix t q \<Longrightarrow> containsStr t q" for t by (cases t) auto
  show ?case
  proof (cases "hasPrefix (c # s) (p @ q)")
    case True
    then obtain t where "c # s = p @ q @ t" by (auto simp: hasPrefix_iff)
    with pre [of "q @ t"] drop show ?thesis by (metis hasPrefix_append)
  next
    case False
    with Cons show ?thesis by auto
  qed
qed simp

lemma collapse_slashes_id: "\<not> containsStr s ''//'' \<Longrightarrow> collapse_slashes s = s"
  by (subst collapse_slashes.simps) simp

text \<open>The collapsing loop ends with a path that has no double slash.\<close>

lemma collapse_slashes_none: "\<not> containsStr (collapse_slashes s) ''//''"
proof (induction s rule: collapse_slashes.induct)
  case (1 s)
  then show ?case by (cases "containsStr s ''//''"; subst collapse_slashes.simps) simp_all
qed

section \<open>Scheme lemmas\<close>

lemma TrimScheme_scheme [simp]: "s \<in> set uriSchemes \<Longrightarrow> TrimScheme (s @ p) = (s, p)"
  unfolding uriSchemes_def list.set
  by (elim insertE emptyE) (simp_all add: TrimScheme_def uriSchemes_def trimPrefix_def)

lemma TrimScheme_slash [simp]: "TrimScheme (CHR ''/'' # p) = ('''', CHR ''/'' # p)"
  by (simp add: TrimScheme_def uriSchemes_def)

lemma scheme_nonempty: "s \<in> set uriSchemes \<Longrightarrow> s \<noteq> ''''"
  by (auto simp: uriSchemes_def)


section \<open>Joining and relativizing are inverse\<close>

text \<open>
  Where the compared part of a path ends: the host rewrite touches the first segment only, so
  appending segments commutes with it.
\<close>

lemma takeWhile_no_slash_append:
  "CHR ''/'' \<notin> set b \<Longrightarrow> takeWhile (\<lambda>c. c \<noteq> CHR ''/'') (b @ CHR ''/'' # r) = b"
  by (induction b) auto

lemma takeWhile_slash_append:
  "CHR ''/'' \<in> set b \<Longrightarrow>
    takeWhile (\<lambda>c. c \<noteq> CHR ''/'') (b @ r) = takeWhile (\<lambda>c. c \<noteq> CHR ''/'') b"
  by (induction b) auto

lemma canonicalHost_append:
  assumes "trimPrefix b ''/'' \<noteq> []"
  shows "canonicalHostForCompare (b @ CHR ''/'' # r) = canonicalHostForCompare b @ CHR ''/'' # r"
proof -
  let ?notSlash = "\<lambda>c. c \<noteq> CHR ''/''"
  have b: "b \<noteq> []" using assms by (auto simp: trimPrefix_def)
  have pre: "hasPrefix (b @ CHR ''/'' # r) ''/'' = hasPrefix b ''/''" using b by (cases b) auto
  have tp: "trimPrefix (b @ CHR ''/'' # r) ''/'' = trimPrefix b ''/'' @ CHR ''/'' # r"
    using b by (cases b) (auto simp: trimPrefix_def)
  define off where "off = length b - length (trimPrefix b ''/'')"
  have len: "length (trimPrefix b ''/'') + off = length b"
    by (auto simp: off_def trimPrefix_def)
  have off': "length (b @ CHR ''/'' # r) - length (trimPrefix (b @ CHR ''/'' # r) ''/'') = off"
    using len by (simp add: tp)
  show ?thesis
  proof (cases "CHR ''/'' \<in> set (trimPrefix b ''/'')")
    case True
    have n: "off + length (takeWhile ?notSlash (trimPrefix b ''/'')) \<le> length b"
      using len length_takeWhile_le [of ?notSlash "trimPrefix b ''/''"] by linarith
    with True show ?thesis
      by (simp add: canonicalHostForCompare_def Let_def off' tp takeWhile_slash_append off_def [symmetric])
  next
    case False
    with len show ?thesis
      by (simp add: canonicalHostForCompare_def Let_def off' tp takeWhile_no_slash_append add.commute)
  qed
qed

text \<open>The base paths a table can have: segments below a recognised scheme or below the root.\<close>

definition base_path :: "string \<Rightarrow> string list \<Rightarrow> string" where
  "base_path pre bs = pre @ joinWith ''/'' bs"

definition base_prefix :: "string \<Rightarrow> bool" where
  "base_prefix pre \<longleftrightarrow> pre \<in> set uriSchemes \<or> pre = ''/'' \<or> (\<exists>s \<in> set uriSchemes. pre = s @ ''/'')"

lemma joinWith_base:
  assumes "bs \<noteq> []" "list_all proper_seg bs" "rs \<noteq> []" "list_all proper_seg rs"
  shows "joinWith ''/'' [joinWith ''/'' bs, joinWith ''/'' rs] = joinWith ''/'' (bs @ rs)"
  using assms by (simp add: joinWith_append)

lemma JoinPath_base:
  assumes "base_prefix pre" "bs \<noteq> []" "list_all proper_seg bs" "rs \<noteq> []" "list_all proper_seg rs"
  shows "JoinPath (base_path pre bs) [joinWith ''/'' rs] = base_path pre (bs @ rs)"
proof -
  let ?j = "joinWith ''/'' (bs @ rs)"
  have app: "joinWith ''/'' bs @ CHR ''/'' # joinWith ''/'' rs = ?j"
    using joinWith_base [OF assms(2-5)] by simp
  have proper: "bs @ rs \<noteq> []" "list_all proper_seg (bs @ rs)" using assms by simp_all
  note nodbl = collapse_slashes_id [OF joinWith_no_double_slash [OF proper(2)]]
    collapse_slashes_id [OF rooted_no_double_slash [OF proper]]
  note hd = joinWith_proper_hd [OF assms(2,3)] joinWith_proper_hd [OF proper]
  from assms(1) consider "pre \<in> set uriSchemes" | "pre = ''/''" | s where "s \<in> set uriSchemes" "pre = s @ ''/''"
    by (auto simp: base_prefix_def)
  then show ?thesis
  proof cases
    case 1
    then show ?thesis using scheme_nonempty [OF 1] nodbl hd
      by (simp add: JoinPath_def base_path_def app trimPrefix_def)
  next
    case 2
    then show ?thesis using path_Clean_rooted [OF proper]
      by (simp add: JoinPath_def base_path_def filepath_Join_def app)
  next
    case 3
    then show ?thesis using scheme_nonempty [OF 3(1)] nodbl
      by (simp add: JoinPath_def base_path_def app)
  qed
qed

text \<open>What \<^verbatim>\<open>TrimScheme\<close> leaves of a base path before its segments: nothing, or the root.\<close>

definition root_of :: "string \<Rightarrow> string" where
  "root_of pre = snd (TrimScheme pre)"

lemma base_path_parts:
  assumes "base_prefix pre"
  shows "snd (TrimScheme (base_path pre ws)) = root_of pre @ joinWith ''/'' ws"
    and "fst (TrimScheme (base_path pre ws)) = '''' \<longrightarrow>
      root_of pre = ''/'' \<and> base_path pre ws = CHR ''/'' # joinWith ''/'' ws"
    and "root_of pre = '''' \<or> root_of pre = ''/''"
proof -
  have s: "TrimScheme s = (s, [])" if "s \<in> set uriSchemes" for s
    using TrimScheme_scheme [OF that, of "[]"] by simp
  have s': "TrimScheme (s @ CHR ''/'' # r) = (s, CHR ''/'' # r)" if "s \<in> set uriSchemes" for s r
    using TrimScheme_scheme [OF that] by simp
  from assms consider "pre \<in> set uriSchemes" | "pre = ''/''" | s where "s \<in> set uriSchemes" "pre = s @ ''/''"
    by (auto simp: base_prefix_def)
  then have "snd (TrimScheme (base_path pre ws)) = root_of pre @ joinWith ''/'' ws \<and>
    (fst (TrimScheme (base_path pre ws)) = '''' \<longrightarrow>
      root_of pre = ''/'' \<and> base_path pre ws = CHR ''/'' # joinWith ''/'' ws) \<and>
    (root_of pre = '''' \<or> root_of pre = ''/'')"
    by cases (simp_all add: base_path_def root_of_def s s' scheme_nonempty)
  then show "snd (TrimScheme (base_path pre ws)) = root_of pre @ joinWith ''/'' ws"
    and "fst (TrimScheme (base_path pre ws)) = '''' \<longrightarrow>
      root_of pre = ''/'' \<and> base_path pre ws = CHR ''/'' # joinWith ''/'' ws"
    and "root_of pre = '''' \<or> root_of pre = ''/''"
    by blast+
qed

text \<open>The path of a file below the root, as it is compared.\<close>

lemma path_Clean_root:
  assumes "ws \<noteq> []" "list_all proper_seg ws" "q = '''' \<or> q = ''/''"
  shows "path_Clean (q @ joinWith ''/'' ws) = q @ joinWith ''/'' ws"
  using assms path_Clean_relative path_Clean_rooted by auto

lemma RelativizePath_base:
  assumes "base_prefix pre" "base_prefix pre'" "root_of pre = root_of pre'"
    and fs: "fs \<noteq> []" "list_all proper_seg fs" and bs: "bs \<noteq> []" "list_all proper_seg bs"
  defines "file \<equiv> canonicalHostForCompare (root_of pre @ joinWith ''/'' fs)"
    and "base \<equiv> canonicalHostForCompare (root_of pre @ joinWith ''/'' bs)"
  shows "RelativizePath (base_path pre fs) (base_path pre' bs) =
    (if file = base then Inl (ErrPathNotUnderBase (base_path pre fs @ '' is the base path itself''))
     else if \<not> hasPrefix file base \<or> (\<not> hasPrefix (trimPrefix file base) ''/'' \<and> \<not> hasSuffix base ''/'')
       then Inl (ErrPathNotUnderBase (base_path pre fs @ '' is not under '' @ base_path pre' bs))
     else Inr (trimPrefix (trimPrefix file base) ''/''))"
proof -
  note P = base_path_parts(1) [OF assms(1), of fs] base_path_parts(2) [OF assms(1), of fs]
    base_path_parts(3) [OF assms(1)]
  note P' = base_path_parts(1) [OF assms(2), of bs]
  have ne: "root_of pre @ joinWith ''/'' fs \<noteq> []" "root_of pre @ joinWith ''/'' bs \<noteq> []"
    using joinWith_proper_hd(1) fs bs by simp_all
  have c: "\<not> containsStr (base_path pre fs) ''://''" if "fst (TrimScheme (base_path pre fs)) = ''''"
  proof -
    have "base_path pre fs = CHR ''/'' # joinWith ''/'' fs" using that P(2) by simp
    with rooted_no_double_slash [OF fs] containsStr_mono [of "base_path pre fs" "'':''" "''//''"]
    show ?thesis by auto
  qed
  have h: "hasPrefix (root_of pre @ joinWith ''/'' fs) ''/''" if "fst (TrimScheme (base_path pre fs)) = ''''"
    using that P(2) by simp
  have cl: "path_Clean (root_of pre @ joinWith ''/'' fs) = root_of pre @ joinWith ''/'' fs"
    "path_Clean (root_of pre' @ joinWith ''/'' bs) = root_of pre @ joinWith ''/'' bs"
    using path_Clean_root [OF fs P(3)] path_Clean_root [OF bs P(3)] assms(3) by simp_all
  show ?thesis
    unfolding RelativizePath_def Let_def P(1) P' cl file_def base_def
    using ne(1) ne(2) [unfolded assms(3)] c h
    by (cases "fst (TrimScheme (base_path pre fs)) = ''''")
      (simp_all only: simp_thms if_True if_False not_True_eq_False not_False_eq_True)
qed

lemma base_not_root:
  assumes "base_prefix pre" "bs \<noteq> []" "list_all proper_seg bs"
  shows "trimPrefix (root_of pre @ joinWith ''/'' bs) ''/'' \<noteq> []"
  using base_path_parts(3) [OF assms(1)] joinWith_proper_hd [OF assms(2,3)]
  by (auto simp: trimPrefix_def)

lemma RelativizePath_join:
  assumes "base_prefix pre" "base_prefix pre'" "root_of pre = root_of pre'"
    and rs: "rs \<noteq> []" "list_all proper_seg rs" and bs: "bs \<noteq> []" "list_all proper_seg bs"
  shows "RelativizePath (base_path pre (bs @ rs)) (base_path pre' bs) = Inr (joinWith ''/'' rs)"
proof -
  have fs: "bs @ rs \<noteq> []" "list_all proper_seg (bs @ rs)" using rs bs by simp_all
  have "canonicalHostForCompare (root_of pre @ joinWith ''/'' (bs @ rs)) =
      canonicalHostForCompare (root_of pre @ joinWith ''/'' bs) @ CHR ''/'' # joinWith ''/'' rs"
    using canonicalHost_append [OF base_not_root [OF assms(1) bs], of "joinWith ''/'' rs"] rs bs
    by (simp add: joinWith_append)
  then show ?thesis
    using RelativizePath_base [OF assms(1-3) fs bs] by (simp add: trimPrefix_def)
qed

text \<open>A compared base path does not end in a separator, so the match has to end at one.\<close>

lemma replaceFirst_last:
  assumes "s \<noteq> []" "last s \<noteq> c" "q \<noteq> []" "last q \<noteq> c"
  shows "replaceFirst s p q \<noteq> [] \<and> last (replaceFirst s p q) \<noteq> c"
proof (cases "cutStr s p")
  case None
  with assms show ?thesis by (simp add: replaceFirst_def)
next
  case (Some ab)
  obtain a b where ab: "ab = (a, b)" by fastforce
  with Some have "s = a @ p @ b" by (simp add: cutStr_Some)
  moreover have "replaceFirst s p q = a @ q @ b" by (simp add: replaceFirst_def Some ab)
  ultimately show ?thesis using assms by (cases "b = []") auto
qed

lemma canonicalHost_last:
  assumes "p \<noteq> []" "last p \<noteq> CHR ''/''"
  shows "\<not> hasSuffix (canonicalHostForCompare p) ''/''"
proof -
  define n where "n = (if CHR ''/'' \<in> set (trimPrefix p ''/'')
    then length p - length (trimPrefix p ''/'') + length (takeWhile (\<lambda>c. c \<noteq> CHR ''/'') (trimPrefix p ''/''))
    else length p)"
  define a where "a = replaceFirst (replaceFirst (take n p) ''.blob.core.windows.net'' ''.dfs.core.windows.net'')
    ''onelake.blob.fabric.microsoft.com'' ''onelake.dfs.fabric.microsoft.com''"
  have eq: "canonicalHostForCompare p = a @ drop n p"
    by (simp add: canonicalHostForCompare_def Let_def n_def a_def)
  have "a @ drop n p \<noteq> [] \<and> last (a @ drop n p) \<noteq> CHR ''/''"
  proof (cases "drop n p = []")
    case True
    then have "take n p = p" by simp
    with assms have "a \<noteq> [] \<and> last a \<noteq> CHR ''/''"
      unfolding a_def by (intro replaceFirst_last) (simp_all add: replaceFirst_last)
    with True show ?thesis by simp
  next
    case False
    then show ?thesis using assms(2) by (simp add: last_drop)
  qed
  then show ?thesis by (auto simp: eq hasSuffix_iff)
qed

lemma joinWith_proper_last:
  assumes "ws \<noteq> []" "list_all proper_seg ws"
  shows "last (joinWith ''/'' ws) \<noteq> CHR ''/''"
  using assms
proof (induction ws)
  case (Cons w ws)
  show ?case
  proof (cases "ws = []")
    case True
    with Cons.prems have "w \<noteq> []" "CHR ''/'' \<notin> set w" by (auto simp: proper_seg_def)
    then have "last w \<noteq> CHR ''/''" by (metis last_in_set)
    with True show ?thesis by simp
  next
    case False
    with Cons joinWith_proper_hd(1) [of ws] show ?thesis by (simp add: joinWith_Cons)
  qed
qed simp

text \<open>
  C30. The path of a file joined onto a table's base path is relativized back to the same relative
  path, and so is the same file written with another spelling of the scheme (\<^verbatim>\<open>s3a://\<close> for
  \<^verbatim>\<open>s3://\<close>, \<^verbatim>\<open>file:///data\<close> for \<^verbatim>\<open>/data\<close>): what a target stores is what a source joins.
\<close>

theorem relativize_join_roundtrip:
  assumes "base_prefix pre" "base_prefix pre'" "root_of pre = root_of pre'"
    and "rs \<noteq> []" "list_all proper_seg rs" "bs \<noteq> []" "list_all proper_seg bs"
  shows "RelativizePath (JoinPath (base_path pre bs) [joinWith ''/'' rs]) (base_path pre' bs) =
      Inr (joinWith ''/'' rs)"
  using RelativizePath_join [OF assms] JoinPath_base [OF assms(1,6,7,4,5)] by simp

theorem relativize_join_roundtrip_witness:
  "RelativizePath (JoinPath ''file:///data/events'' [''day=1/f.parquet'']) ''/data/events'' =
      Inr ''day=1/f.parquet''"
proof -
  have "base_prefix ''file:///''" "base_prefix ''/''"
    by (simp_all add: base_prefix_def uriSchemes_def)
  moreover have "root_of ''file:///'' = root_of ''/''"
    by (simp add: root_of_def TrimScheme_def uriSchemes_def trimPrefix_def)
  ultimately show ?thesis
    using relativize_join_roundtrip [of "''file:///''" "''/''" "[''day=1'', ''f.parquet'']" "[''data'', ''events'']"]
    by (simp add: base_path_def proper_seg_def)
qed

text \<open>
  A file is accepted only if it lies under the table: whenever a base path relativizes an
  absolute file path, the file's path is the base path, a separator and the returned path, up to
  the spelling of the storage host. A sibling directory sharing a name prefix is refused.
\<close>

theorem relativize_sound:
  assumes "base_prefix pre" "base_prefix pre'" "root_of pre = root_of pre'"
    and "fs \<noteq> []" "list_all proper_seg fs" "bs \<noteq> []" "list_all proper_seg bs"
    and "RelativizePath (base_path pre fs) (base_path pre' bs) = Inr r"
  shows "canonicalHostForCompare (root_of pre @ joinWith ''/'' fs) =
      canonicalHostForCompare (root_of pre @ joinWith ''/'' bs) @ ''/'' @ r"
proof -
  have "\<not> hasSuffix (canonicalHostForCompare (root_of pre @ joinWith ''/'' bs)) ''/''"
    using joinWith_proper_hd(1) [OF assms(6,7)] joinWith_proper_last [OF assms(6,7)]
    by (intro canonicalHost_last) simp_all
  with assms(8) show ?thesis
    unfolding RelativizePath_base [OF assms(1-7)]
    by (auto simp: hasPrefix_iff trimPrefix_def split: if_splits)
qed

theorem relativize_sound_witness:
  "canonicalHostForCompare ''/data/events/f'' = canonicalHostForCompare ''/data/events'' @ ''/f''"
proof -
  have p: "base_prefix ''/''" and r: "root_of ''/'' = ''/''"
    by (simp_all add: base_prefix_def root_of_def)
  have "RelativizePath (base_path ''/'' [''data'', ''events'', ''f'']) (base_path ''/'' [''data'', ''events'']) = Inr ''f''"
    using RelativizePath_join [OF p p refl, of "[''f'']" "[''data'', ''events'']"]
    by (simp add: proper_seg_def)
  from relativize_sound [OF p p refl _ _ _ _ this] show ?thesis
    by (simp add: proper_seg_def r)
qed

text \<open>
  A path carrying a scheme polytable does not know is refused rather than taken for a relative
  one, and a relative path is returned cleaned unless it climbs out of the table.
\<close>

theorem relativize_unknown_scheme_and_relative:
  "(fst (TrimScheme p) = '''' \<and> containsStr p ''://'' \<longrightarrow> \<not> (\<exists>r. RelativizePath p b = Inr r)) \<and>
   (fst (TrimScheme p) = '''' \<and> \<not> containsStr p ''://'' \<and> p \<noteq> '''' \<and> snd (TrimScheme b) \<noteq> '''' \<and>
    \<not> hasPrefix (path_Clean p) ''/'' \<longrightarrow>
     (if path_Clean p = ''..'' \<or> hasPrefix (path_Clean p) ''../''
      then \<exists>e. RelativizePath p b = Inl (ErrPathNotUnderBase e)
      else RelativizePath p b = Inr (path_Clean p)))"
proof -
  have "snd (TrimScheme q) = q" if "fst (TrimScheme q) = ''''" for q
    using that by (simp add: TrimScheme_def uriSchemes_def split: if_splits)
  then show ?thesis by (auto simp: RelativizePath_def Let_def)
qed

theorem relativize_unknown_scheme_and_relative_witness:
  "\<not> (\<exists>r. RelativizePath ''gcs://b/f'' ''/data'' = Inr r)"
  using relativize_unknown_scheme_and_relative [of "''gcs://b/f''" "''/data''"]
  by (simp add: TrimScheme_def uriSchemes_def)

section \<open>Files of a table's metadata directory\<close>

definition table_base :: "string \<Rightarrow> bool" where
  "table_base base \<longleftrightarrow> (\<exists>pre bs. base_prefix pre \<and> bs \<noteq> [] \<and> list_all proper_seg bs \<and> base = base_path pre bs)"

lemma JoinPath_two:
  "a \<noteq> '''' \<Longrightarrow> b \<noteq> '''' \<Longrightarrow> JoinPath base [a, b] = JoinPath base [a @ ''/'' @ b]"
  by (cases "TrimScheme base"; cases "base = ''''") (simp_all add: JoinPath_def filepath_Join_def)

lemma JoinPath_dir_file:
  assumes "table_base base" "proper_seg dir" "proper_seg name"
  shows "JoinPath base [dir, name] = JoinPath base [dir] @ ''/'' @ name"
proof -
  obtain pre bs where b: "base_prefix pre" "bs \<noteq> []" "list_all proper_seg bs" "base = base_path pre bs"
    using assms(1) by (auto simp: table_base_def)
  have "JoinPath base [dir, name] = base_path pre (bs @ [dir, name])"
    using JoinPath_base [OF b(1-3), of "[dir, name]"] JoinPath_two [of dir name base] assms(2,3)
    by (auto simp: proper_seg_def b(4))
  moreover have "JoinPath base [dir] = base_path pre (bs @ [dir])"
    using JoinPath_base [OF b(1-3), of "[dir]"] assms(2) by (simp add: b(4))
  ultimately show ?thesis
    using b(2) by (simp add: base_path_def joinWith_append)
qed

text \<open>The files a table at \<open>base\<close> can name by a relative path.\<close>

definition below :: "string \<Rightarrow> string \<Rightarrow> bool" where
  "below base p \<longleftrightarrow>
     (\<exists>pre bs rs. base_prefix pre \<and> bs \<noteq> [] \<and> list_all proper_seg bs \<and> rs \<noteq> [] \<and> list_all proper_seg rs \<and>
        base = base_path pre bs \<and> p = base_path pre (bs @ rs))"

lemma below_relative:
  assumes "below base p"
  shows "\<exists>rel. RelativizePath p base = Inr rel \<and> JoinPath base [rel] = p"
proof -
  obtain pre bs rs where b: "base_prefix pre" "bs \<noteq> []" "list_all proper_seg bs"
    and r: "rs \<noteq> []" "list_all proper_seg rs" and eq: "base = base_path pre bs" "p = base_path pre (bs @ rs)"
    using assms by (auto simp: below_def)
  show ?thesis
    using RelativizePath_join [OF b(1) b(1) refl r b(2,3)] JoinPath_base [OF b r] by (auto simp: eq)
qed

end
