(* ===== verification/Storage_Memory.thy ===== *)
theory Storage_Memory
  imports Storage_Paths
begin

text \<open>
  \<^verbatim>\<open>pkg/io\<close>: the storage interface, the in-memory backend every adapter can run on, the choice of
  a backend from a path, and the rule that tells metadata from data paths. The locale
  \<open>object_store\<close> is the contract of \<^verbatim>\<open>io.Storage\<close> the format adapters rely on; the in-memory
  backend is shown to provide it. Reads of the clock are arguments.
\<close>

section \<open>The interface\<close>

record file_info =
  InfoPath :: string
  InfoSize :: int
  InfoModTime :: int
  InfoIsDir :: bool

locale object_store =
  fixes read :: "'s \<Rightarrow> string \<Rightarrow> string res"
    and put :: "'s \<Rightarrow> string \<Rightarrow> string \<Rightarrow> int \<Rightarrow> 's"
    and list :: "'s \<Rightarrow> string \<Rightarrow> file_info list"
    and invar :: "'s \<Rightarrow> bool"
  assumes read_write: "read (put s p d t) q = (if q = p then Inr d else read s q)"
    and read_error: "read s p = Inl e \<Longrightarrow> is_not_found e"
    and list_paths: "p \<in> InfoPath ` set (list s pre) \<longleftrightarrow> (\<exists>d. read s p = Inr d) \<and> hasPrefix p pre"
    and list_sorted: "invar s \<Longrightarrow> sorted_wrt (<) (map InfoPath (list s pre))"
    and invar_write: "invar s \<Longrightarrow> invar (put s p d t)"
begin

text \<open>A write is seen by the listings of its prefix and by no other.\<close>

lemma list_write:
  "InfoPath ` set (list (put s p d t) pre) =
     (if hasPrefix p pre then insert p (InfoPath ` set (list s pre)) else InfoPath ` set (list s pre))"
proof (rule set_eqI)
  fix q
  show "q \<in> InfoPath ` set (list (put s p d t) pre) \<longleftrightarrow>
      q \<in> (if hasPrefix p pre then insert p (InfoPath ` set (list s pre)) else InfoPath ` set (list s pre))"
    by (cases "q = p") (simp_all add: list_paths read_write)
qed

lemma list_determined:
  assumes "invar s" "invar s'" "InfoPath ` set (list s pre) = InfoPath ` set (list s' pre)"
  shows "map InfoPath (list s pre) = map InfoPath (list s' pre)"
proof -
  have "sorted_list_of_set (set (map InfoPath (list s pre))) = map InfoPath (list s pre)" if "invar s" for s
    using list_sorted [OF that, of pre] sorted_list_of_set.idem_if_sorted_distinct [of "map InfoPath (list s pre)"]
    by (simp add: strict_sorted_iff)
  with assms show ?thesis by (metis list.set_map)
qed

lemma listed_readable: "f \<in> set (list s pre) \<Longrightarrow> \<exists>d. read s (InfoPath f) = Inr d"
  using list_paths [of "InfoPath f" s pre] by blast

end

section \<open>The in-memory backend\<close>

record mem_file =
  mf_data :: string
  mf_modTime :: int

record mem_storage =
  mem_files :: "(string, mem_file) gomap"

definition NewMemoryStorage :: mem_storage where
  "NewMemoryStorage = \<lparr>mem_files = []\<rparr>"

definition mem_Read :: "mem_storage \<Rightarrow> string \<Rightarrow> string res" where
  "mem_Read s path =
     (case map_of (mem_files s) path of
        None \<Rightarrow> Inl (ErrNotFound path)
      | Some f \<Rightarrow> Inr (mf_data f))"

definition mem_Write :: "mem_storage \<Rightarrow> string \<Rightarrow> string \<Rightarrow> int \<Rightarrow> mem_storage" where
  "mem_Write s path data now =
     s\<lparr>mem_files := map_put path \<lparr>mf_data = data, mf_modTime = now\<rparr> (mem_files s)\<rparr>"

definition mem_List :: "mem_storage \<Rightarrow> string \<Rightarrow> file_info list" where
  "mem_List s pre =
     sort_key InfoPath
       (map (\<lambda>pf. \<lparr>InfoPath = fst pf, InfoSize = int (length (mf_data (snd pf))),
                   InfoModTime = mf_modTime (snd pf), InfoIsDir = False\<rparr>)
          (filter (\<lambda>pf. hasPrefix (fst pf) pre) (mem_files s)))"

definition mem_Exists :: "mem_storage \<Rightarrow> string \<Rightarrow> bool" where
  "mem_Exists s path \<longleftrightarrow> map_of (mem_files s) path \<noteq> None"

definition mem_Delete :: "mem_storage \<Rightarrow> string \<Rightarrow> mem_storage" where
  "mem_Delete s path = s\<lparr>mem_files := map_del path (mem_files s)\<rparr>"

text \<open>A Go map never has two entries under one key.\<close>

definition mem_invar :: "mem_storage \<Rightarrow> bool" where
  "mem_invar s \<longleftrightarrow> wf_map (mem_files s)"

lemma mem_invar_ops [simp]:
  "mem_invar NewMemoryStorage"
  "mem_invar s \<Longrightarrow> mem_invar (mem_Write s p d t)"
  "mem_invar s \<Longrightarrow> mem_invar (mem_Delete s p)"
  by (simp_all add: mem_invar_def NewMemoryStorage_def mem_Write_def mem_Delete_def)

lemma mem_Read_Write [simp]: "mem_Read (mem_Write s p d t) q = (if q = p then Inr d else mem_Read s q)"
  by (simp add: mem_Read_def mem_Write_def)

lemma mem_Read_Delete: "mem_Read (mem_Delete s p) q = (if q = p then Inl (ErrNotFound q) else mem_Read s q)"
  by (simp add: mem_Read_def mem_Delete_def)

lemma mem_List_paths:
  "p \<in> InfoPath ` set (mem_List s pre) \<longleftrightarrow> (\<exists>d. mem_Read s p = Inr d) \<and> hasPrefix p pre"
proof -
  have "(\<exists>d. mem_Read s p = Inr d) \<longleftrightarrow> p \<in> fst ` set (mem_files s)"
    using map_of_eq_None_iff [of "mem_files s" p] by (auto simp: mem_Read_def split: option.splits)
  then show ?thesis by (force simp: mem_List_def)
qed

lemma mem_List_sorted: "mem_invar s \<Longrightarrow> sorted_wrt (<) (map InfoPath (mem_List s pre))"
proof -
  assume s: "mem_invar s"
  let ?xs = "map (\<lambda>pf. \<lparr>InfoPath = fst pf, InfoSize = int (length (mf_data (snd pf))),
      InfoModTime = mf_modTime (snd pf), InfoIsDir = False\<rparr>) (filter (\<lambda>pf. hasPrefix (fst pf) pre) (mem_files s))"
  have "map InfoPath ?xs = map fst (filter (\<lambda>pf. hasPrefix (fst pf) pre) (mem_files s))"
    by (simp add: comp_def)
  moreover have "distinct (map fst (filter (\<lambda>pf. hasPrefix (fst pf) pre) (mem_files s)))"
    using s by (simp add: mem_invar_def wf_map_def distinct_map_filter)
  ultimately have "distinct (map InfoPath ?xs)" by (simp only:)
  then have "distinct (map InfoPath (mem_List s pre))"
    unfolding mem_List_def distinct_map_sort_key .
  then show ?thesis by (simp add: strict_sorted_iff mem_List_def)
qed

interpretation mem: object_store mem_Read mem_Write mem_List mem_invar
proof
  show "mem_Read (mem_Write s p d t) q = (if q = p then Inr d else mem_Read s q)" for s p d t q
    by simp
  show "mem_Read s p = Inl e \<Longrightarrow> is_not_found e" for s p e
    by (auto simp: mem_Read_def split: option.splits)
qed (simp_all add: mem_List_paths mem_List_sorted)

text \<open>
  The in-memory backend is a store: after a write the path reads back the bytes written and
  every other path what it read before, a deleted path is not found, and a listing holds exactly
  the readable paths under the prefix, in increasing order.
\<close>

theorem memory_storage_contract:
  "mem_Read (mem_Write s p d t) q = (if q = p then Inr d else mem_Read s q) \<and>
   mem_Read (mem_Delete s p) q = (if q = p then Inl (ErrNotFound q) else mem_Read s q) \<and>
   (\<exists>f \<in> set (mem_List s pre). InfoPath f = q) = (mem_Exists s q \<and> hasPrefix q pre) \<and>
   (mem_invar s \<longrightarrow> sorted_wrt (<) (map InfoPath (mem_List s pre)))"
proof -
  have "(\<exists>f \<in> set (mem_List s pre). InfoPath f = q) = (mem_Exists s q \<and> hasPrefix q pre)"
    using mem_List_paths [of q s pre] by (auto simp: mem_Exists_def mem_Read_def image_iff split: option.splits)
  then show ?thesis by (simp add: mem_Read_Delete mem_List_sorted)
qed

theorem memory_storage_contract_witness:
  "sorted_wrt (<) (map InfoPath (mem_List (mem_Write (mem_Write NewMemoryStorage ''t/b'' ''x'' 1) ''t/a'' ''y'' 2) ''t/''))"
  using memory_storage_contract [of "mem_Write (mem_Write NewMemoryStorage ''t/b'' ''x'' 1) ''t/a'' ''y'' 2"
      _ _ _ _ "''t/''"]
  by simp

section \<open>Metadata paths\<close>

definition metadataDirNames :: "string list" where
  "metadataDirNames = [''metadata'', ''schema'', ''snapshot'', ''manifest'']"

definition IsMetadataPathComponent :: "string \<Rightarrow> bool" where
  "IsMetadataPathComponent name \<longleftrightarrow>
     (if name = '''' then False
      else if hasPrefix name ''_'' \<or> hasPrefix name ''.'' then True
      else List.member metadataDirNames name)"

definition IsMetadataPath :: "string \<Rightarrow> bool" where
  "IsMetadataPath path \<longleftrightarrow> list_ex IsMetadataPathComponent (splitChar (CHR ''/'') path)"

text \<open>A Hive partition segment is never mistaken for metadata.\<close>

lemma partition_segment_not_metadata:
  assumes "k \<noteq> ''''" "\<not> hasPrefix k ''_''" "\<not> hasPrefix k ''.''"
  shows "\<not> IsMetadataPathComponent (k @ CHR ''='' # v)"
proof -
  have "k @ CHR ''='' # v \<notin> set metadataDirNames"
  proof
    assume "k @ CHR ''='' # v \<in> set metadataDirNames"
    moreover have "CHR ''='' \<in> set (k @ CHR ''='' # v)" by simp
    ultimately have "\<exists>w \<in> set metadataDirNames. CHR ''='' \<in> set w" by blast
    then show False by (simp add: metadataDirNames_def)
  qed
  with assms show ?thesis by (cases k) (auto simp: IsMetadataPathComponent_def)
qed

lemma IsMetadataPath_join:
  "ws \<noteq> [] \<Longrightarrow> list_all proper_seg ws \<Longrightarrow>
    IsMetadataPath (joinWith ''/'' ws) \<longleftrightarrow> (\<exists>w \<in> set ws. IsMetadataPathComponent w)"
  by (simp add: IsMetadataPath_def splitChar_proper list_ex_iff)

section \<open>Choosing a backend\<close>

record s3_credentials =
  AccessKeyID :: string
  SecretAccessKey :: string
  SessionToken :: string
  Expiration :: "int option"

text \<open>
  \<^verbatim>\<open>Expired\<close>: a nil credential and one with the zero time (here \<open>None\<close>) never expire.
\<close>

fun Expired :: "s3_credentials option \<Rightarrow> int \<Rightarrow> int \<Rightarrow> bool" where
  "Expired None now buffer = False"
| "Expired (Some c) now buffer =
     (case Expiration c of None \<Rightarrow> False | Some e \<Rightarrow> \<not> e > now + buffer)"

text \<open>The options of the cloud backends; the HTTP client a test may inject is left out.\<close>

record s3_options =
  S3Region :: string
  S3Endpoint :: string
  S3UsePathStyle :: bool
  S3Credentials :: "s3_credentials option"

record azure_options =
  AzEndpoint :: string
  AzAccountName :: string
  AzAccountKey :: string
  AzAccountKeyEnv :: string
  AzSASToken :: string
  AzSASTokenEnv :: string
  AzAnonymous :: bool

record gcs_options =
  GcsEndpoint :: string
  GcsAnonymousAccess :: bool
  GcsCredentialsFile :: string

record options =
  OptS3 :: s3_options
  OptAzure :: azure_options
  OptGCS :: gcs_options

definition zeroOptions :: options where
  "zeroOptions =
     \<lparr>OptS3 = \<lparr>S3Region = '''', S3Endpoint = '''', S3UsePathStyle = False, S3Credentials = None\<rparr>,
      OptAzure = \<lparr>AzEndpoint = '''', AzAccountName = '''', AzAccountKey = '''', AzAccountKeyEnv = '''',
                  AzSASToken = '''', AzSASTokenEnv = '''', AzAnonymous = False\<rparr>,
      OptGCS = \<lparr>GcsEndpoint = '''', GcsAnonymousAccess = False, GcsCredentialsFile = ''''\<rparr>\<rparr>"

text \<open>The backend a path is routed to, with the options its constructor receives.\<close>

datatype backend =
    S3Backend s3_options
  | AzureBackend string azure_options
  | GCSBackend gcs_options
  | MemoryBackend
  | LocalBackend

definition NewStorageForPathWithOptions :: "string \<Rightarrow> (options \<Rightarrow> options) list \<Rightarrow> backend res" where
  "NewStorageForPathWithOptions path optFns =
     (let opts = foldl (\<lambda>os fn. fn os) zeroOptions optFns in
      if hasPrefix path ''s3://'' \<or> hasPrefix path ''s3a://'' then Inr (S3Backend (OptS3 opts))
      else if IsAzurePath path then Inr (AzureBackend path (OptAzure opts))
      else if hasPrefix path ''gs://'' then Inr (GCSBackend (OptGCS opts))
      else if hasPrefix path ''mem://'' then Inr MemoryBackend
      else
        (case cutStr path ''://'' of
           Some (scheme, _) \<Rightarrow>
             if scheme \<noteq> ''file'' then Inl (ErrInvalidPath (''no storage backend for scheme '' @ scheme @ ''://''))
             else Inr LocalBackend
         | None \<Rightarrow> Inr LocalBackend))"

definition NewStorageForPath :: "string \<Rightarrow> backend res" where
  "NewStorageForPath path = NewStorageForPathWithOptions path []"

lemma recognised_scheme_has_backend:
  "s \<in> set uriSchemes \<Longrightarrow> \<exists>b. NewStorageForPathWithOptions (s @ p) fns = Inr b"
  unfolding uriSchemes_def list.set
  by (elim insertE emptyE)
    (simp_all add: NewStorageForPathWithOptions_def IsAzurePath_def azureSchemes_def Let_def)

section \<open>Listings after a write\<close>

lemma listing_write:
  assumes "mem_invar s" "hasPrefix p pre" "mem_Read s p = Inl e"
  shows "mset (map InfoPath (mem_List (mem_Write s p d t) pre)) = add_mset p (mset (map InfoPath (mem_List s pre)))"
proof -
  have dis: "distinct (map InfoPath (mem_List s' pre))" if "mem_invar s'" for s'
    using mem_List_sorted [OF that, of pre] by (simp add: strict_sorted_iff)
  have "set (map InfoPath (mem_List (mem_Write s p d t) pre)) = insert p (set (map InfoPath (mem_List s pre)))"
    using mem.list_write [of s p d t pre] assms(2) by simp
  moreover have "p \<notin> set (map InfoPath (mem_List s pre))"
    using mem_List_paths [of p s pre] assms(3) by simp
  ultimately show ?thesis
    using dis [OF assms(1)] dis [OF mem_invar_ops(2) [OF assms(1)], of p d t]
    by (metis distinct.simps(2) list.simps(15) mset.simps(2) set_eq_iff_mset_eq_distinct)
qed

lemma mset_map_filter:
  "mset (List.map_filter (\<lambda>f. g (h f)) fs) =
     image_mset the (filter_mset (\<lambda>x. x \<noteq> None) (image_mset g (mset (map h fs))))"
  by (induction fs) (auto simp: map_filter_simps split: option.splits)

end
