(* ===== verification/Conversion_Config.thy ===== *)
theory Conversion_Config
  imports Catalog_Core Storage_Memory
begin

text \<open>
  \<^verbatim>\<open>pkg/conversion/config.go\<close> and \<^verbatim>\<open>discovery.go\<close>: the configuration of a dataset, the storage options
  it turns into, the resolution of its table from a catalog, and the discovery of the tables of a
  catalog database that are marked for conversion. An option function is a function on the options
  record; the catalog source a factory returns is an argument.
\<close>

section \<open>Datasets\<close>

type_synonym sync_mode = string

definition SyncModeFull :: sync_mode where "SyncModeFull = ''FULL''"
definition SyncModeIncremental :: sync_mode where "SyncModeIncremental = ''INCREMENTAL''"

record azure_storage_config =
  AzcEndpoint :: string
  AzcAccountName :: string
  AzcAccountKeyEnv :: string
  AzcSASTokenEnv :: string
  AzcAnonymous :: bool

record gcs_storage_config =
  GccEndpoint :: string
  GccAnonymousAccess :: bool
  GccCredentialsFile :: string

record storage_config =
  ScRegion :: string
  ScEndpoint :: string
  ScUsePathStyle :: bool
  ScAzure :: "azure_storage_config option"
  ScGCS :: "gcs_storage_config option"

record source_catalog_config =
  SccCatalog :: catalog_config
  SccTable :: string

record dataset_config =
  DcSourceFormat :: table_format
  DcTargetFormats :: "table_format list"
  DcTableBasePath :: string
  DcTableDataPath :: string
  DcTableName :: string
  DcNamespace :: string
  DcSyncMode :: sync_mode
  DcStorage :: "storage_config option"
  DcCatalogs :: "catalog_config list"
  DcSourceCatalog :: "source_catalog_config option"
  DcVendedCredentials :: "storage_credentials option"

definition SourceCatalog_Validate :: "source_catalog_config \<Rightarrow> unit res" where
  "SourceCatalog_Validate s =
     (if SccTable s = '''' then Inl (ErrMsg ''sourceCatalog.table is required'')
      else if DatabaseName (SccCatalog s) = '''' then Inl (ErrMsg ''sourceCatalog.catalog.databaseName is required'')
      else Config_Validate (SccCatalog s))"

text \<open>\<^verbatim>\<open>Validate\<close> fills in the default sync mode, so it returns the configuration.\<close>

definition Dataset_Validate :: "dataset_config \<Rightarrow> dataset_config res" where
  "Dataset_Validate c =
     (if DcSourceFormat c = '''' then Inl (ErrMsg ''sourceFormat is required'')
      else if DcTargetFormats c = [] then Inl (ErrMsg ''at least one targetFormat must be specified'')
      else if DcTableBasePath c = '''' then
        (case DcSourceCatalog c of
           None \<Rightarrow> Inl (ErrMsg ''either tableBasePath or sourceCatalog is required'')
         | Some sc \<Rightarrow> bind_res (SourceCatalog_Validate sc) (\<lambda>_. Inr c))
      else Inr (if DcSyncMode c = '''' then c\<lparr>DcSyncMode := SyncModeIncremental\<rparr> else c))"

section \<open>Storage options\<close>

type_synonym option_fn = "options \<Rightarrow> options"

definition on_S3 :: "(s3_options \<Rightarrow> s3_options) \<Rightarrow> option_fn" where
  "on_S3 f os = os\<lparr>OptS3 := f (OptS3 os)\<rparr>"

definition on_Azure :: "(azure_options \<Rightarrow> azure_options) \<Rightarrow> option_fn" where
  "on_Azure f os = os\<lparr>OptAzure := f (OptAzure os)\<rparr>"

definition on_GCS :: "(gcs_options \<Rightarrow> gcs_options) \<Rightarrow> option_fn" where
  "on_GCS f os = os\<lparr>OptGCS := f (OptGCS os)\<rparr>"

definition opt_when :: "bool \<Rightarrow> option_fn \<Rightarrow> option_fn list" where
  "opt_when b f = (if b then [f] else [])"

definition azure_option_fns :: "azure_storage_config \<Rightarrow> option_fn list" where
  "azure_option_fns az =
     opt_when (AzcEndpoint az \<noteq> '''') (on_Azure (\<lambda>x. x\<lparr>AzEndpoint := AzcEndpoint az\<rparr>)) @
     opt_when (AzcAccountName az \<noteq> '''') (on_Azure (\<lambda>x. x\<lparr>AzAccountName := AzcAccountName az\<rparr>)) @
     opt_when (AzcAccountKeyEnv az \<noteq> '''') (on_Azure (\<lambda>x. x\<lparr>AzAccountKeyEnv := AzcAccountKeyEnv az\<rparr>)) @
     opt_when (AzcSASTokenEnv az \<noteq> '''') (on_Azure (\<lambda>x. x\<lparr>AzSASTokenEnv := AzcSASTokenEnv az\<rparr>)) @
     opt_when (AzcAnonymous az) (on_Azure (\<lambda>x. x\<lparr>AzAnonymous := True\<rparr>))"

definition gcs_option_fns :: "gcs_storage_config \<Rightarrow> option_fn list" where
  "gcs_option_fns g =
     opt_when (GccEndpoint g \<noteq> '''') (on_GCS (\<lambda>x. x\<lparr>GcsEndpoint := GccEndpoint g\<rparr>)) @
     opt_when (GccAnonymousAccess g) (on_GCS (\<lambda>x. x\<lparr>GcsAnonymousAccess := True\<rparr>)) @
     opt_when (GccCredentialsFile g \<noteq> '''') (on_GCS (\<lambda>x. x\<lparr>GcsCredentialsFile := GccCredentialsFile g\<rparr>))"

definition ToOptionFuncs :: "storage_config option \<Rightarrow> option_fn list" where
  "ToOptionFuncs cfg =
     (case cfg of
        None \<Rightarrow> []
      | Some c \<Rightarrow>
          opt_when (ScRegion c \<noteq> '''') (on_S3 (\<lambda>x. x\<lparr>S3Region := ScRegion c\<rparr>)) @
          opt_when (ScEndpoint c \<noteq> '''') (on_S3 (\<lambda>x. x\<lparr>S3Endpoint := ScEndpoint c\<rparr>)) @
          opt_when (ScUsePathStyle c) (on_S3 (\<lambda>x. x\<lparr>S3UsePathStyle := True\<rparr>)) @
          (case ScAzure c of None \<Rightarrow> [] | Some az \<Rightarrow> azure_option_fns az) @
          (case ScGCS c of None \<Rightarrow> [] | Some g \<Rightarrow> gcs_option_fns g))"

definition vended_option :: "storage_credentials \<Rightarrow> option_fn" where
  "vended_option creds =
     on_S3 (\<lambda>x. x\<lparr>S3Credentials := Some \<lparr>AccessKeyID = VendAccessKeyID creds, SecretAccessKey = VendSecretAccessKey creds,
         SessionToken = VendSessionToken creds, Expiration = VendExpiration creds\<rparr>,
       S3Region := (if VendRegion creds \<noteq> '''' then VendRegion creds else S3Region x)\<rparr>)"

definition StorageOptionFuncs :: "dataset_config \<Rightarrow> option_fn list" where
  "StorageOptionFuncs c =
     (let optFns = ToOptionFuncs (DcStorage c) in
      case DcVendedCredentials c of None \<Rightarrow> optFns | Some creds \<Rightarrow> optFns @ [vended_option creds])"

section \<open>Catalog tables\<close>

record 'src catalog_source_ops =
  GetSourceTable :: "'src \<Rightarrow> table_identifier \<Rightarrow> source_table res"
  ListTables :: "'src \<Rightarrow> string \<Rightarrow> table_filter \<Rightarrow> table_identifier res list"

definition unset_to :: "string \<Rightarrow> string \<Rightarrow> string" where
  "unset_to configured resolved = (if configured = '''' then resolved else configured)"

definition ResolveSourceCatalog :: "'src catalog_source_ops \<Rightarrow> (catalog_config \<Rightarrow> 'src res) \<Rightarrow> dataset_config \<Rightarrow> dataset_config res" where
  "ResolveSourceCatalog ops newSource cfg =
     (case DcSourceCatalog cfg of
        None \<Rightarrow> Inr cfg
      | Some sc \<Rightarrow>
          bind_res (SourceCatalog_Validate sc) (\<lambda>_.
          bind_res (wrap_res ''failed to create catalog conversion source'' (newSource (SccCatalog sc))) (\<lambda>src.
          let i = \<lparr>IdDatabase = DatabaseName (SccCatalog sc), IdTable = SccTable sc\<rparr> in
          bind_res (wrap_res (''failed to resolve '' @ Identifier_String i @ '' from catalog'') (GetSourceTable ops src i)) (\<lambda>resolved.
          Inr (cfg\<lparr>DcSourceFormat := unset_to (DcSourceFormat cfg) (SrcFormat resolved),
                   DcTableBasePath := unset_to (DcTableBasePath cfg) (SrcBasePath resolved),
                   DcTableDataPath := unset_to (DcTableDataPath cfg) (SrcDataPath resolved),
                   DcTableName := unset_to (DcTableName cfg) (SrcName resolved),
                   DcVendedCredentials := StorageCredentials resolved\<rparr>)))))"

text \<open>One turn of the loop of \<^verbatim>\<open>DiscoverDatasets\<close>: no dataset for a table without a marker.\<close>

definition discovered :: "'src catalog_source_ops \<Rightarrow> 'src \<Rightarrow> table_identifier \<Rightarrow> dataset_config list res" where
  "discovered ops src i =
     bind_res (wrap_res (''failed to resolve '' @ Identifier_String i @ '' from catalog'') (GetSourceTable ops src i)) (\<lambda>resolved.
     bind_res (wrap_res (''table '' @ Identifier_String i) (TargetFormatsFromProperties (SrcProperties resolved))) (\<lambda>targets.
     Inr (if targets = [] then []
          else [\<lparr>DcSourceFormat = SrcFormat resolved, DcTargetFormats = targets, DcTableBasePath = SrcBasePath resolved,
                 DcTableDataPath = SrcDataPath resolved, DcTableName = unset_to (SrcName resolved) (IdTable i),
                 DcNamespace = IdDatabase i, DcSyncMode = '''', DcStorage = None, DcCatalogs = [], DcSourceCatalog = None,
                 DcVendedCredentials = StorageCredentials resolved\<rparr>])))"

definition DiscoverDatasets :: "'src catalog_source_ops \<Rightarrow> (catalog_config \<Rightarrow> 'src res) \<Rightarrow> catalog_config option \<Rightarrow> dataset_config list res" where
  "DiscoverDatasets ops newSource cfg =
     (case cfg of
        None \<Rightarrow> Inl (ErrMsg ''a catalog configuration is required to discover tables'')
      | Some c \<Rightarrow>
          bind_res (Config_Validate c) (\<lambda>_.
          bind_res (wrap_res ''failed to create catalog conversion source'' (newSource c)) (\<lambda>src.
          bind_res
            (map_res (\<lambda>listed.
               bind_res (wrap_res (''failed to list tables in catalog database '' @ DatabaseName c) listed) (discovered ops src))
              (ListTables ops src (DatabaseName c) \<lparr>RequireConversionMarkers = True\<rparr>))
            (\<lambda>dss. Inr (concat dss)))))"

section \<open>What the options carry\<close>

definition apply_options :: "option_fn list \<Rightarrow> options \<Rightarrow> options" where
  "apply_options fns os = foldl (\<lambda>os fn. fn os) os fns"

definition secrets :: "options \<Rightarrow> s3_credentials option \<times> string \<times> string" where
  "secrets os = (S3Credentials (OptS3 os), AzAccountKey (OptAzure os), AzSASToken (OptAzure os))"

lemma apply_options_simps [simp]:
  "apply_options [] os = os" "apply_options (f # fns) os = apply_options fns (f os)"
  "apply_options (xs @ ys) os = apply_options ys (apply_options xs os)"
  by (simp_all add: apply_options_def)

lemma secrets_preserved: "list_all (\<lambda>f. \<forall>os. secrets (f os) = secrets os) fns \<Longrightarrow> secrets (apply_options fns os) = secrets os"
  by (induction fns arbitrary: os) auto

lemma ToOptionFuncs_secrets: "list_all (\<lambda>f. \<forall>os. secrets (f os) = secrets os) (ToOptionFuncs cfg)"
  by (cases cfg)
    (auto simp: ToOptionFuncs_def azure_option_fns_def gcs_option_fns_def opt_when_def on_S3_def on_Azure_def on_GCS_def
      secrets_def split: option.splits)

text \<open>
  A configuration file carries no secrets: the storage options of a dataset never set an
  account key or a SAS token, and set S3 credentials exactly when the catalog vended some.
\<close>

theorem config_has_no_secrets:
  "secrets (apply_options (ToOptionFuncs (DcStorage cfg)) os) = secrets os \<and>
   secrets (apply_options (StorageOptionFuncs cfg) os) =
     (case DcVendedCredentials cfg of
        None \<Rightarrow> secrets os
      | Some v \<Rightarrow> (Some \<lparr>AccessKeyID = VendAccessKeyID v, SecretAccessKey = VendSecretAccessKey v,
          SessionToken = VendSessionToken v, Expiration = VendExpiration v\<rparr>, snd (secrets os)))"
proof -
  have t: "secrets (apply_options (ToOptionFuncs (DcStorage cfg)) os) = secrets os"
    by (rule secrets_preserved [OF ToOptionFuncs_secrets])
  have "snd (secrets (vended_option v os')) = snd (secrets os')" for v os'
    by (simp add: secrets_def vended_option_def on_S3_def)
  with t show ?thesis
    by (simp add: StorageOptionFuncs_def Let_def split: option.splits) (simp add: secrets_def vended_option_def on_S3_def)
qed

text \<open>
  Vended credentials are used with their own region: the S3 region of the options is the vended
  one when there is one, else the configured one, else the default.
\<close>

theorem vended_region_wins:
  "S3Region (OptS3 (apply_options (StorageOptionFuncs cfg) zeroOptions)) =
     (case DcVendedCredentials cfg of
        Some v \<Rightarrow> if VendRegion v \<noteq> '''' then VendRegion v
                  else (case DcStorage cfg of None \<Rightarrow> '''' | Some s \<Rightarrow> ScRegion s)
      | None \<Rightarrow> (case DcStorage cfg of None \<Rightarrow> '''' | Some s \<Rightarrow> ScRegion s))"
proof -
  have az: "S3Region (OptS3 (apply_options (azure_option_fns az) os)) = S3Region (OptS3 os)" for az os
    by (simp add: azure_option_fns_def opt_when_def on_Azure_def)
  have gcs: "S3Region (OptS3 (apply_options (gcs_option_fns g) os)) = S3Region (OptS3 os)" for g os
    by (simp add: gcs_option_fns_def opt_when_def on_GCS_def)
  have "S3Region (OptS3 (apply_options (ToOptionFuncs sc) zeroOptions)) = (case sc of None \<Rightarrow> '''' | Some s \<Rightarrow> ScRegion s)" for sc
    by (cases sc) (auto simp: ToOptionFuncs_def opt_when_def on_S3_def zeroOptions_def az gcs split: option.splits)
  then show ?thesis
    by (auto simp: StorageOptionFuncs_def Let_def vended_option_def on_S3_def split: option.splits)
qed

text \<open>
  A table found in a catalog is converted with what was configured: every field the
  configuration sets is kept, the others are the catalog's, and the storage credentials are always
  the ones the catalog vended.
\<close>

theorem resolve_keeps_configuration:
  assumes "ResolveSourceCatalog ops newSource cfg = Inr cfg'" "DcSourceCatalog cfg = Some sc"
  shows "\<exists>src r. newSource (SccCatalog sc) = Inr src \<and>
    GetSourceTable ops src \<lparr>IdDatabase = DatabaseName (SccCatalog sc), IdTable = SccTable sc\<rparr> = Inr r \<and>
    cfg' = cfg\<lparr>DcSourceFormat := unset_to (DcSourceFormat cfg) (SrcFormat r),
      DcTableBasePath := unset_to (DcTableBasePath cfg) (SrcBasePath r),
      DcTableDataPath := unset_to (DcTableDataPath cfg) (SrcDataPath r),
      DcTableName := unset_to (DcTableName cfg) (SrcName r), DcVendedCredentials := StorageCredentials r\<rparr>"
proof -
  from assms obtain src r where "newSource (SccCatalog sc) = Inr src"
    "GetSourceTable ops src \<lparr>IdDatabase = DatabaseName (SccCatalog sc), IdTable = SccTable sc\<rparr> = Inr r"
    by (auto simp: ResolveSourceCatalog_def Let_def)
  with assms show ?thesis by (intro exI [of _ src] exI [of _ r]) (simp add: ResolveSourceCatalog_def Let_def)
qed

text \<open>A catalog of one table, for which nothing but the table's name is known.\<close>

definition sample_catalog :: "source_table catalog_source_ops" where
  "sample_catalog =
     \<lparr>GetSourceTable = \<lambda>src i. if IdTable i = SrcName src then Inr src else Inl (ErrNotFound (IdTable i)),
      ListTables = \<lambda>src db f. if Matches f (SrcProperties src) then [Inr \<lparr>IdDatabase = db, IdTable = SrcName src\<rparr>] else []\<rparr>"

definition sample_entry :: source_table where
  "sample_entry = \<lparr>SrcName = ''orders'', SrcBasePath = ''s3://b/orders'', SrcDataPath = ''s3://b/orders'',
     SrcFormat = TableFormatDelta, SrcProperties = [(PropTargetFormats, ''ICEBERG'')], StorageCredentials = None\<rparr>"

definition sample_catalog_config :: catalog_config where
  "sample_catalog_config = \<lparr>CatType = CatalogTypeGlue, CatalogID = '''', DatabaseName = ''sales'', CatURI = '''',
     CatProperties = [], MaxPartitionsPerRequest = 0\<rparr>"

definition sample_dataset :: dataset_config where
  "sample_dataset = \<lparr>DcSourceFormat = '''', DcTargetFormats = [TableFormatIceberg], DcTableBasePath = '''', DcTableDataPath = '''',
     DcTableName = ''mine'', DcNamespace = '''', DcSyncMode = '''', DcStorage = None, DcCatalogs = [],
     DcSourceCatalog = Some \<lparr>SccCatalog = sample_catalog_config, SccTable = ''orders''\<rparr>, DcVendedCredentials = None\<rparr>"

theorem resolve_keeps_configuration_witness:
  "\<exists>cfg'. ResolveSourceCatalog sample_catalog (\<lambda>_. Inr sample_entry) sample_dataset = Inr cfg' \<and>
    DcTableName cfg' = ''mine'' \<and> DcTableBasePath cfg' = ''s3://b/orders''"
proof -
  obtain cfg' where r: "ResolveSourceCatalog sample_catalog (\<lambda>_. Inr sample_entry) sample_dataset = Inr cfg'"
  proof -
    have "\<not> isl (ResolveSourceCatalog sample_catalog (\<lambda>_. Inr sample_entry) sample_dataset)" by code_simp
    with that show ?thesis by (auto simp: isl_def) (metis obj_sumE)
  qed
  have "DcSourceCatalog sample_dataset = Some \<lparr>SccCatalog = sample_catalog_config, SccTable = ''orders''\<rparr>"
    by (simp add: sample_dataset_def)
  from resolve_keeps_configuration [OF r this] r show ?thesis
    by (auto simp: sample_catalog_def sample_entry_def sample_dataset_def unset_to_def split: if_splits)
qed

lemma map_res_image: "map_res f xs = Inr ys \<Longrightarrow> x \<in> set xs \<Longrightarrow> \<exists>y \<in> set ys. f x = Inr y"
proof (induction xs arbitrary: ys)
  case (Cons a xs)
  then show ?case by (cases "f a"; cases "map_res f xs") auto
qed simp

text \<open>
  Discovery is complete or fails: every table the catalog lists and that is marked for
  conversion becomes a dataset with at least one target format, in the order of the listing, and
  a listing error, an unreadable table or an unknown format fails the whole scan.
\<close>

theorem discovery_complete:
  assumes "DiscoverDatasets ops newSource (Some c) = Inr dss" "newSource c = Inr src"
    and "Inr i \<in> set (ListTables ops src (DatabaseName c) \<lparr>RequireConversionMarkers = True\<rparr>)"
  shows "(\<forall>l \<in> set (ListTables ops src (DatabaseName c) \<lparr>RequireConversionMarkers = True\<rparr>). \<exists>j. l = Inr j) \<and>
    (\<exists>r fs. GetSourceTable ops src i = Inr r \<and> TargetFormatsFromProperties (SrcProperties r) = Inr fs \<and>
      (fs = [] \<or> (\<exists>d \<in> set dss. DcTargetFormats d = fs \<and> DcTableBasePath d = SrcBasePath r \<and> DcSourceFormat d = SrcFormat r))) \<and>
    (\<forall>d \<in> set dss. DcTargetFormats d \<noteq> [])"
proof -
  let ?ls = "ListTables ops src (DatabaseName c) \<lparr>RequireConversionMarkers = True\<rparr>"
  let ?f = "\<lambda>listed. bind_res (wrap_res (''failed to list tables in catalog database '' @ DatabaseName c) listed) (discovered ops src)"
  from assms(1,2) obtain ds where d: "map_res ?f ?ls = Inr ds" "dss = concat ds" by (auto simp: DiscoverDatasets_def)
  have each: "\<exists>j x. l = Inr j \<and> discovered ops src j = Inr x \<and> x \<in> set ds" if "l \<in> set ?ls" for l
  proof -
    from map_res_image [OF d(1) that] obtain x where "?f l = Inr x" "x \<in> set ds" by blast
    then show ?thesis by auto
  qed
  from each [OF assms(3)] obtain x where x: "discovered ops src i = Inr x" "x \<in> set ds" by auto
  then obtain r fs where r: "GetSourceTable ops src i = Inr r" "TargetFormatsFromProperties (SrcProperties r) = Inr fs"
    by (auto simp: discovered_def)
  have "fs = [] \<or> (\<exists>d \<in> set dss. DcTargetFormats d = fs \<and> DcTableBasePath d = SrcBasePath r \<and> DcSourceFormat d = SrcFormat r)"
  proof (cases "fs = []")
    case False
    with x(1) r have "\<exists>d \<in> set x. DcTargetFormats d = fs \<and> DcTableBasePath d = SrcBasePath r \<and> DcSourceFormat d = SrcFormat r"
      by (auto simp: discovered_def)
    with x(2) show ?thesis by (auto simp: d(2))
  qed simp
  moreover have "DcTargetFormats e \<noteq> []" if "e \<in> set dss" for e
  proof -
    from that obtain y where y: "y \<in> set ds" "e \<in> set y" by (auto simp: d(2))
    from map_res_elem [OF d(1) y(1)] obtain j where "discovered ops src j = Inr y" by auto
    with y(2) show ?thesis by (auto simp: discovered_def split: if_splits)
  qed
  ultimately show ?thesis using each r by blast
qed

theorem discovery_complete_witness:
  "\<exists>dss. DiscoverDatasets sample_catalog (\<lambda>_. Inr sample_entry) (Some sample_catalog_config) = Inr dss \<and>
    (\<exists>d \<in> set dss. DcTargetFormats d = [TableFormatIceberg] \<and> DcTableBasePath d = ''s3://b/orders'')"
proof -
  obtain dss where r: "DiscoverDatasets sample_catalog (\<lambda>_. Inr sample_entry) (Some sample_catalog_config) = Inr dss"
  proof -
    have "\<not> isl (DiscoverDatasets sample_catalog (\<lambda>_. Inr sample_entry) (Some sample_catalog_config))" by code_simp
    with that show ?thesis by (auto simp: isl_def) (metis obj_sumE)
  qed
  have l: "Inr \<lparr>IdDatabase = ''sales'', IdTable = ''orders''\<rparr> \<in>
      set (ListTables sample_catalog sample_entry (DatabaseName sample_catalog_config) \<lparr>RequireConversionMarkers = True\<rparr>)"
    by code_simp
  have f: "TargetFormatsFromProperties (SrcProperties sample_entry) = Inr [TableFormatIceberg]" by code_simp
  from discovery_complete [OF r refl l] f r show ?thesis
    by (auto simp: sample_catalog_def sample_entry_def split: if_splits)
qed

end
