(* ===== verification/Catalog_Partition.thy ===== *)
theory Catalog_Partition
  imports Catalog_Core Reconcile
begin

text \<open>
  \<^verbatim>\<open>pkg/catalog/partition.go\<close>: bringing the partitions an external catalog records in line with
  those of a table. The catalog itself is behind an interface, so its operations are an argument
  (\<open>partition_ops\<close>) acting on a state of any type. \<^verbatim>\<open>DiffPartitions\<close> is the second
  implementation of the contract \<open>reconciling_diff\<close>.
\<close>

section \<open>Partitions\<close>

definition DefaultMaxPartitionsPerRequest :: int where
  "DefaultMaxPartitionsPerRequest = 1000"

record partition =
  Values :: "string list"
  StorageLocation :: string

definition Partition_Key :: "partition \<Rightarrow> string" where
  "Partition_Key p = joinWith [CHR 0x1F] (Values p)"

datatype partition_event_type = PartitionEventAdd | PartitionEventUpdate | PartitionEventDrop

fun event_text :: "partition_event_type \<Rightarrow> string" where
  "event_text PartitionEventAdd = ''ADD''"
| "event_text PartitionEventUpdate = ''UPDATE''"
| "event_text PartitionEventDrop = ''DROP''"

record partition_event =
  EventType :: partition_event_type
  EventPartition :: partition

abbreviation mkEvent :: "partition_event_type \<Rightarrow> partition \<Rightarrow> partition_event" where
  "mkEvent t p \<equiv> \<lparr>EventType = t, EventPartition = p\<rparr>"

text \<open>The event for one desired partition, and for one the catalog has.\<close>

definition desired_event :: "(string, partition) gomap \<Rightarrow> partition \<Rightarrow> partition_event option" where
  "desired_event existingByKey want =
     (case map_of existingByKey (Partition_Key want) of
        None \<Rightarrow> Some (mkEvent PartitionEventAdd want)
      | Some have \<Rightarrow>
          if StorageLocation have \<noteq> StorageLocation want then Some (mkEvent PartitionEventUpdate want) else None)"

definition existing_event :: "(string, partition) gomap \<Rightarrow> partition \<Rightarrow> partition_event option" where
  "existing_event desiredByKey have =
     (if map_of desiredByKey (Partition_Key have) = None then Some (mkEvent PartitionEventDrop have) else None)"

definition DiffPartitions :: "partition list \<Rightarrow> partition list \<Rightarrow> partition_event list" where
  "DiffPartitions existing desired =
     (let existingByKey = index_by Partition_Key existing;
          desiredByKey = index_by Partition_Key desired
      in sort_key (\<lambda>e. [event_text (EventType e), Partition_Key (EventPartition e)])
           (List.map_filter (desired_event existingByKey) (map snd desiredByKey) @
            List.map_filter (existing_event desiredByKey) (map snd existingByKey)))"

definition parentDir :: "string \<Rightarrow> string" where
  "parentDir p =
     (let dir = joinWith ''/'' (butlast (splitChar (CHR ''/'') p)) in if dir = '''' then p else dir)"

text \<open>The partition a data file belongs to, when it has partition values.\<close>

definition file_partition :: "data_file \<Rightarrow> partition option" where
  "file_partition file =
     (let values = List.map_filter (\<lambda>pv. map_option (\<lambda>r. sprintv (MinValue r)) (PVRange pv)) (PartitionValues file) in
      if values = [] then None
      else Some \<lparr>Values = values, StorageLocation = parentDir (PhysicalPath file)\<rparr>)"

definition PartitionsFromSnapshot :: "snapshot option \<Rightarrow> partition list" where
  "PartitionsFromSnapshot snap =
     (case snap of
        None \<Rightarrow> []
      | Some s \<Rightarrow>
          sort_key Partition_Key (map snd (index_by Partition_Key (List.map_filter file_partition (DataFiles s)))))"

section \<open>Carrying the events out\<close>

record 'c partition_ops =
  GetAllPartitions :: "'c \<Rightarrow> table_identifier \<Rightarrow> partition list res"
  AddPartitions :: "'c \<Rightarrow> table_identifier \<Rightarrow> partition list \<Rightarrow> 'c \<times> gerr option"
  UpdatePartitions :: "'c \<Rightarrow> table_identifier \<Rightarrow> partition list \<Rightarrow> 'c \<times> gerr option"
  DropPartitions :: "'c \<Rightarrow> table_identifier \<Rightarrow> partition list \<Rightarrow> 'c \<times> gerr option"

text \<open>\<^verbatim>\<open>errors.Join\<close>: no error when there is none, otherwise their texts on a line each.\<close>

definition errors_Join :: "gerr list \<Rightarrow> gerr option" where
  "errors_Join errs = (if errs = [] then None else Some (ErrMsg (joinWith [CHR 0x0A] (map err_text errs))))"

definition add_error :: "gerr list \<Rightarrow> gerr option \<Rightarrow> gerr list" where
  "add_error errs e = (case e of None \<Rightarrow> errs | Some x \<Rightarrow> errs @ [x])"

text \<open>
  The loop of \<^verbatim>\<open>inBatches\<close>: \<open>None\<close> stands for a loop that does not end, which is what a batch
  size of zero gives.
\<close>

partial_function (option) batch_loop ::
    "('c \<Rightarrow> partition list \<Rightarrow> 'c \<times> gerr option) \<Rightarrow> nat \<Rightarrow> partition list \<Rightarrow> gerr list \<Rightarrow> 'c \<Rightarrow> ('c \<times> gerr list) option" where
  "batch_loop fn n ps errs c =
     (if ps = [] then Some (c, errs)
      else batch_loop fn n (drop n ps) (add_error errs (snd (fn c (take n ps)))) (fst (fn c (take n ps))))"

declare batch_loop.simps [code]

definition inBatches :: "('c \<Rightarrow> partition list \<Rightarrow> 'c \<times> gerr option) \<Rightarrow> int \<Rightarrow> partition list \<Rightarrow> 'c \<Rightarrow> ('c \<times> gerr option) option" where
  "inBatches fn batchSize partitions c =
     map_option (\<lambda>(c', errs). (c', errors_Join errs)) (batch_loop fn (nat batchSize) partitions [] c)"

definition events_of :: "partition_event_type \<Rightarrow> partition_event list \<Rightarrow> partition list" where
  "events_of t events = map EventPartition (filter (\<lambda>e. EventType e = t) events)"

definition SyncPartitions :: "'c partition_ops \<Rightarrow> table_identifier \<Rightarrow> partition list \<Rightarrow> int \<Rightarrow> 'c \<Rightarrow> ('c \<times> gerr option) option" where
  "SyncPartitions ops ident desired batchSize c =
     (case Identifier_Validate ident of
        Inl e \<Rightarrow> Some (c, Some e)
      | Inr _ \<Rightarrow>
          (let size = (if batchSize \<le> 0 then DefaultMaxPartitionsPerRequest else batchSize) in
           case GetAllPartitions ops c ident of
             Inl e \<Rightarrow> Some (c, Some (ErrWrap (''failed to list partitions for '' @ Identifier_String ident) e))
           | Inr existing \<Rightarrow>
               (let events = DiffPartitions existing desired in
                Option.bind (inBatches (\<lambda>c. AddPartitions ops c ident) size (events_of PartitionEventAdd events) c) (\<lambda>(c1, e1).
                Option.bind (inBatches (\<lambda>c. UpdatePartitions ops c ident) size (events_of PartitionEventUpdate events) c1) (\<lambda>(c2, e2).
                Option.bind (inBatches (\<lambda>c. DropPartitions ops c ident) size (events_of PartitionEventDrop events) c2) (\<lambda>(c3, e3).
                  Some (c3, errors_Join (add_error (add_error (add_error []
                    (map_option (ErrWrap (''failed to add partitions to '' @ Identifier_String ident)) e1))
                    (map_option (ErrWrap (''failed to update partitions on '' @ Identifier_String ident)) e2))
                    (map_option (ErrWrap (''failed to drop partitions from '' @ Identifier_String ident)) e3)))))))))"

section \<open>The diff\<close>

lemma index_values: "x \<in> set (map snd (index_by key xs)) \<longleftrightarrow> keyed key xs (key x) = Some x"
proof -
  have "x \<in> set (map snd (index_by key xs)) \<longleftrightarrow> (\<exists>k. keyed key xs k = Some x)"
    using snd_set_wf_map [OF wf_index_by, of key xs] by (auto simp: keyed_def ran_def)
  then show ?thesis using keyed_Some [of key xs] by blast
qed

definition upserts :: "partition list \<Rightarrow> partition list \<Rightarrow> partition list" where
  "upserts existing desired =
     events_of PartitionEventAdd (DiffPartitions existing desired) @ events_of PartitionEventUpdate (DiffPartitions existing desired)"

definition drops :: "partition list \<Rightarrow> partition list \<Rightarrow> partition list" where
  "drops existing desired = events_of PartitionEventDrop (DiffPartitions existing desired)"

definition sameLocation :: "partition \<Rightarrow> partition \<Rightarrow> bool" where
  "sameLocation a b \<longleftrightarrow> StorageLocation a = StorageLocation b"

lemma event_partition:
  "desired_event m p = Some e \<Longrightarrow> EventPartition e = p" "existing_event m p = Some e \<Longrightarrow> EventPartition e = p"
  by (auto simp: desired_event_def existing_event_def split: option.splits if_splits)

lemma set_events_of:
  "x \<in> set (events_of t (DiffPartitions old new)) \<longleftrightarrow>
     keyed Partition_Key new (Partition_Key x) = Some x \<and> map_option EventType (desired_event (index_by Partition_Key old) x) = Some t \<or>
     keyed Partition_Key old (Partition_Key x) = Some x \<and> map_option EventType (existing_event (index_by Partition_Key new) x) = Some t"
proof -
  let ?O = "index_by Partition_Key old" and ?N = "index_by Partition_Key new"
  have e: "x \<in> EventPartition ` {e \<in> set (List.map_filter f xs). EventType e = t} \<longleftrightarrow>
      x \<in> set xs \<and> map_option EventType (f x) = Some t"
    if "\<And>p e. f p = Some e \<Longrightarrow> EventPartition e = p" for f :: "partition \<Rightarrow> partition_event option" and xs
    using that by (auto simp: List.map_filter_def image_iff Bex_def) force+
  have "set (events_of t (DiffPartitions old new)) =
      EventPartition ` {e \<in> set (List.map_filter (desired_event ?O) (map snd ?N)). EventType e = t} \<union>
      EventPartition ` {e \<in> set (List.map_filter (existing_event ?N) (map snd ?O)). EventType e = t}"
    by (simp only: events_of_def DiffPartitions_def Let_def set_map set_filter set_sort set_append) blast
  then show ?thesis
    by (simp only: Un_iff e [OF event_partition(1)] e [OF event_partition(2)] index_values)
qed

lemma set_upserts:
  "x \<in> set (upserts old new) \<longleftrightarrow> keyed Partition_Key new (Partition_Key x) = Some x \<and>
     (\<forall>y. keyed Partition_Key old (Partition_Key x) = Some y \<longrightarrow> \<not> sameLocation y x)"
  by (simp only: upserts_def set_append Un_iff set_events_of)
    (auto simp: desired_event_def existing_event_def keyed_def sameLocation_def split: option.splits)

lemma set_drops:
  "x \<in> set (drops old new) \<longleftrightarrow> keyed Partition_Key old (Partition_Key x) = Some x \<and>
     Partition_Key x \<notin> Partition_Key ` set new"
  by (simp only: drops_def set_events_of)
    (auto simp: desired_event_def existing_event_def index_by_None split: option.splits)

interpretation partition_diff: reconciling_diff Partition_Key sameLocation upserts drops
proof
  fix x old new
  show "x \<in> set (upserts old new) \<Longrightarrow>
      x \<in> set new \<and> (\<forall>y. keyed Partition_Key old (Partition_Key x) = Some y \<longrightarrow> \<not> sameLocation y x)"
    using keyed_Some [of Partition_Key new] by (auto simp: set_upserts)
  show "x \<in> set (drops old new) \<Longrightarrow> x \<in> set old \<and>
      (Partition_Key x \<notin> Partition_Key ` set new \<or> Partition_Key x \<in> Partition_Key ` set (upserts old new))"
    using keyed_Some [of Partition_Key old] by (auto simp: set_drops)
next
  fix k x old new
  assume k: "keyed Partition_Key new k = Some x" "\<forall>y. keyed Partition_Key old k = Some y \<longrightarrow> \<not> sameLocation y x"
  moreover have "Partition_Key x = k" using keyed_Some [OF k(1)] by simp
  ultimately show "x \<in> set (upserts old new)" by (simp add: set_upserts)
next
  fix k old new
  assume k: "k \<in> Partition_Key ` set old" "k \<notin> Partition_Key ` set new"
  then obtain x where x: "keyed Partition_Key old k = Some x" by (auto simp: keyed_dom)
  moreover have "Partition_Key x = k" using keyed_Some [OF x] by simp
  ultimately have "x \<in> set (drops old new)" using k(2) by (simp add: set_drops)
  with \<open>Partition_Key x = k\<close> show "k \<in> Partition_Key ` set (drops old new)" by blast
qed

text \<open>
  Carrying out the events of \<^verbatim>\<open>DiffPartitions\<close> leaves exactly the desired partitions, each at
  its desired location.
\<close>

theorem DiffPartitions_reconciles:
  assumes "distinct (map Partition_Key desired)"
  shows "let after = carry_out Partition_Key (upserts existing desired) (drops existing desired) (keyed Partition_Key existing) in
    dom after = Partition_Key ` set desired \<and>
    (\<forall>k p. after k = Some p \<longrightarrow> (\<exists>q \<in> set desired. Partition_Key q = k \<and> StorageLocation p = StorageLocation q))"
proof -
  let ?after = "carry_out Partition_Key (upserts existing desired) (drops existing desired) (keyed Partition_Key existing)"
  have "dom ?after = Partition_Key ` set desired" using partition_diff.carry_out_dom by (auto simp: dom_def)
  moreover have "\<exists>q \<in> set desired. Partition_Key q = k \<and> StorageLocation p = StorageLocation q" if "?after k = Some p" for k p
    using partition_diff.carry_out_value [OF assms that] by (auto dest!: keyed_Some simp: sameLocation_def)
  ultimately show ?thesis by (simp add: Let_def)
qed

definition sample_part :: "string \<Rightarrow> string \<Rightarrow> partition" where
  "sample_part v loc = \<lparr>Values = [v], StorageLocation = loc\<rparr>"

theorem DiffPartitions_reconciles_witness:
  "dom (carry_out Partition_Key (upserts [sample_part ''a'' ''x'', sample_part ''b'' ''y''] [sample_part ''b'' ''z''])
      (drops [sample_part ''a'' ''x'', sample_part ''b'' ''y''] [sample_part ''b'' ''z''])
      (keyed Partition_Key [sample_part ''a'' ''x'', sample_part ''b'' ''y''])) = {''b''}"
  using DiffPartitions_reconciles [of "[sample_part ''b'' ''z'']" "[sample_part ''a'' ''x'', sample_part ''b'' ''y'']"]
  by (simp add: Let_def sample_part_def Partition_Key_def)

section \<open>Batches\<close>

fun chunks :: "nat \<Rightarrow> partition list \<Rightarrow> partition list list" where
  "chunks 0 ps = []"
| "chunks (Suc n) [] = []"
| "chunks (Suc n) (p # ps) = take (Suc n) (p # ps) # chunks (Suc n) (drop n ps)"

definition run_batch :: "('c \<Rightarrow> partition list \<Rightarrow> 'c \<times> gerr option) \<Rightarrow> 'c \<times> gerr list \<Rightarrow> partition list \<Rightarrow> 'c \<times> gerr list" where
  "run_batch fn st b = (fst (fn (fst st) b), add_error (snd st) (snd (fn (fst st) b)))"

lemma batch_loop_chunks:
  "0 < n \<Longrightarrow> batch_loop fn n ps errs c = Some (foldl (run_batch fn) (c, errs) (chunks n ps))"
proof (induction n ps arbitrary: errs c rule: chunks.induct)
  case (2 n)
  then show ?case by (simp add: batch_loop.simps)
next
  case (3 n p ps)
  have "run_batch fn (c, errs) (p # take n ps) = (fst (fn c (p # take n ps)), add_error errs (snd (fn c (p # take n ps))))"
    by (simp add: run_batch_def)
  with 3 show ?case by (subst batch_loop.simps) simp
qed simp

lemma concat_chunks: "0 < n \<Longrightarrow> concat (chunks n ps) = ps"
proof (induction n ps rule: chunks.induct)
  case (3 n p ps)
  have "concat (chunks (Suc n) (drop n ps)) = drop n ps" by (rule 3) simp
  then show ?case by simp
qed simp_all

lemma chunks_bound: "b \<in> set (chunks n ps) \<Longrightarrow> b \<noteq> [] \<and> length b \<le> n"
  by (induction n ps rule: chunks.induct) auto

text \<open>
  \<^verbatim>\<open>inBatches\<close> with a positive batch size ends, having sent every partition exactly once, in
  order, in calls of at least one and at most \<open>batchSize\<close> partitions, and having gone on past every
  failed call.
\<close>

theorem inBatches_batches:
  assumes "0 < batchSize"
  shows "\<exists>bs. concat bs = ps \<and> (\<forall>b \<in> set bs. b \<noteq> [] \<and> int (length b) \<le> batchSize) \<and>
    inBatches fn batchSize ps c =
      Some (fst (foldl (run_batch fn) (c, []) bs), errors_Join (snd (foldl (run_batch fn) (c, []) bs)))"
proof -
  have n: "0 < nat batchSize" using assms by simp
  have "\<forall>b \<in> set (chunks (nat batchSize) ps). b \<noteq> [] \<and> int (length b) \<le> batchSize"
    using chunks_bound [of _ "nat batchSize" ps] assms by fastforce
  with concat_chunks [OF n, of ps] batch_loop_chunks [OF n, of fn ps "[]" c] show ?thesis
    by (intro exI [of _ "chunks (nat batchSize) ps"]) (simp add: inBatches_def split_def)
qed

theorem inBatches_batches_witness:
  "\<exists>bs. concat bs = [sample_part ''a'' ''x'', sample_part ''b'' ''y'', sample_part ''c'' ''z''] \<and>
    (\<forall>b \<in> set bs. b \<noteq> [] \<and> int (length b) \<le> 2) \<and>
    inBatches (\<lambda>c b. (c @ [length b], None)) 2 [sample_part ''a'' ''x'', sample_part ''b'' ''y'', sample_part ''c'' ''z''] ([] :: nat list) =
      Some (fst (foldl (run_batch (\<lambda>c b. (c @ [length b], None))) ([], []) bs),
        errors_Join (snd (foldl (run_batch (\<lambda>c b. (c @ [length b], None))) ([], []) bs)))"
  using inBatches_batches [of 2 "[sample_part ''a'' ''x'', sample_part ''b'' ''y'', sample_part ''c'' ''z'']"] by simp

lemma inBatches_eq:
  "0 < b \<Longrightarrow> inBatches fn b ps c =
    Some (fst (foldl (run_batch fn) (c, []) (chunks (nat b) ps)), errors_Join (snd (foldl (run_batch fn) (c, []) (chunks (nat b) ps))))"
  by (simp add: inBatches_def batch_loop_chunks split_def)

section \<open>A whole reconciliation\<close>

definition request_size :: "int \<Rightarrow> int" where
  "request_size batchSize = (if batchSize \<le> 0 then DefaultMaxPartitionsPerRequest else batchSize)"

lemma request_size_pos: "0 < request_size b"
  by (simp add: request_size_def DefaultMaxPartitionsPerRequest_def)

lemma SyncPartitions_unfold:
  "Identifier_Validate ident = Inr () \<Longrightarrow> GetAllPartitions ops c ident = Inr existing \<Longrightarrow>
    \<exists>c1 c2 c3 e1 e2 e3.
      inBatches (\<lambda>c. AddPartitions ops c ident) (request_size b) (events_of PartitionEventAdd (DiffPartitions existing desired)) c = Some (c1, e1) \<and>
      inBatches (\<lambda>c. UpdatePartitions ops c ident) (request_size b) (events_of PartitionEventUpdate (DiffPartitions existing desired)) c1 = Some (c2, e2) \<and>
      inBatches (\<lambda>c. DropPartitions ops c ident) (request_size b) (events_of PartitionEventDrop (DiffPartitions existing desired)) c2 = Some (c3, e3) \<and>
      SyncPartitions ops ident desired b c = Some (c3, errors_Join (add_error (add_error (add_error []
        (map_option (ErrWrap (''failed to add partitions to '' @ Identifier_String ident)) e1))
        (map_option (ErrWrap (''failed to update partitions on '' @ Identifier_String ident)) e2))
        (map_option (ErrWrap (''failed to drop partitions from '' @ Identifier_String ident)) e3)))"
  by (simp add: SyncPartitions_def Let_def flip: request_size_def) (simp add: inBatches_eq [OF request_size_pos])

text \<open>
  Reconciling the partitions of a table always ends, for every batch size, zero and negative ones
  included, and whatever the catalog answers.
\<close>

lemma SyncPartitions_total: "\<exists>c' err. SyncPartitions ops ident desired batchSize c = Some (c', err)"
proof (cases "Identifier_Validate ident")
  case (Inl e)
  then show ?thesis by (simp add: SyncPartitions_def)
next
  case (Inr u)
  show ?thesis
  proof (cases "GetAllPartitions ops c ident")
    case (Inl e)
    with Inr show ?thesis by (simp add: SyncPartitions_def Let_def)
  next
    case (Inr existing)
    with SyncPartitions_unfold [OF _ Inr, of batchSize desired] \<open>Identifier_Validate ident = Inr u\<close>
    show ?thesis by auto
  qed
qed

text \<open>
  What a catalog with such an interface does, as its documentation says: \<open>parts\<close> is the partitions
  it records for a table, by key. An operation that reports no error has been carried out.
\<close>

definition stored :: "partition list \<Rightarrow> (string \<Rightarrow> partition option) \<Rightarrow> string \<Rightarrow> partition option" where
  "stored ps m = (\<lambda>k. case keyed Partition_Key ps k of Some p \<Rightarrow> Some p | None \<Rightarrow> m k)"

definition without :: "partition list \<Rightarrow> (string \<Rightarrow> partition option) \<Rightarrow> string \<Rightarrow> partition option" where
  "without ps m = (\<lambda>k. if k \<in> Partition_Key ` set ps then None else m k)"

definition lawful_catalog :: "'c partition_ops \<Rightarrow> ('c \<Rightarrow> table_identifier \<Rightarrow> string \<Rightarrow> partition option) \<Rightarrow> bool" where
  "lawful_catalog ops parts \<longleftrightarrow>
     (\<forall>c i ps. GetAllPartitions ops c i = Inr ps \<longrightarrow> keyed Partition_Key ps = parts c i) \<and>
     (\<forall>c i b. snd (AddPartitions ops c i b) = None \<longrightarrow> parts (fst (AddPartitions ops c i b)) i = stored b (parts c i)) \<and>
     (\<forall>c i b. snd (UpdatePartitions ops c i b) = None \<longrightarrow> parts (fst (UpdatePartitions ops c i b)) i = stored b (parts c i)) \<and>
     (\<forall>c i b. snd (DropPartitions ops c i b) = None \<longrightarrow> parts (fst (DropPartitions ops c i b)) i = without b (parts c i))"

lemma keyed_append: "keyed key (xs @ ys) k = (case keyed key ys k of Some p \<Rightarrow> Some p | None \<Rightarrow> keyed key xs k)"
proof (induction ys rule: rev_induct)
  case (snoc y ys)
  have "keyed key (zs @ [y]) = (keyed key zs)(key y \<mapsto> y)" for zs by (simp add: keyed_def index_by_snoc)
  with snoc show ?case by (simp flip: append_assoc)
qed (simp add: keyed_def)

lemma stored_append: "stored (xs @ ys) m = stored ys (stored xs m)"
  by (auto simp: stored_def keyed_append split: option.splits)

lemma without_append: "without (xs @ ys) m = without ys (without xs m)"
  by (rule ext) (auto simp: without_def)

lemma run_batches_law:
  assumes "\<And>c b. snd (fn c b) = None \<Longrightarrow> m (fst (fn c b)) = upd b (m c)"
    and "\<And>xs ys s. upd (xs @ ys) s = upd ys (upd xs s)" "\<And>s. upd [] s = s"
    and "snd (foldl (run_batch fn) (c, errs) bs) = []"
  shows "errs = [] \<and> m (fst (foldl (run_batch fn) (c, errs) bs)) = upd (concat bs) (m c)"
  using assms(4)
proof (induction bs arbitrary: c errs)
  case (Cons b bs)
  obtain c1 errs1 where st: "run_batch fn (c, errs) b = (c1, errs1)" by fastforce
  have "errs1 = [] \<and> m (fst (foldl (run_batch fn) (c1, errs1) bs)) = upd (concat bs) (m c1)"
    by (rule Cons.IH) (use Cons.prems st in simp)
  moreover have "errs = [] \<and> snd (fn c b) = None" if "errs1 = []"
    using that st by (auto simp: run_batch_def add_error_def split: option.splits)
  moreover have "c1 = fst (fn c b)" using st by (simp add: run_batch_def)
  ultimately have r: "errs = []" "m (fst (foldl (run_batch fn) (c1, errs1) bs)) = upd (concat (b # bs)) (m c)"
    using assms(1) [of c b] assms(2) by auto
  have "foldl (run_batch fn) (c, errs) (b # bs) = foldl (run_batch fn) (c1, errs1) bs" by (simp add: st)
  then show ?case using r by (simp only: simp_thms)
qed (simp add: assms(3))

lemma errors_Join_None [simp]: "errors_Join errs = None \<longleftrightarrow> errs = []"
  by (simp add: errors_Join_def)

lemma inBatches_law:
  assumes "\<And>c b. snd (fn c b) = None \<Longrightarrow> m (fst (fn c b)) = upd b (m c)"
    and "\<And>xs ys s. upd (xs @ ys) s = upd ys (upd xs s)" "\<And>s. upd [] s = s"
    and "0 < b" "inBatches fn b ps c = Some (c', None)"
  shows "m c' = upd ps (m c)"
proof -
  let ?r = "foldl (run_batch fn) (c, []) (chunks (nat b) ps)"
  have r: "c' = fst ?r" "snd ?r = []" using assms(5) by (simp_all add: inBatches_eq [OF assms(4)])
  from run_batches_law [of fn m upd, OF assms(1-3) r(2)] r(1) concat_chunks [of "nat b" ps] assms(4)
  show ?thesis by simp
qed

lemma upsert_drop_carry_out:
  "without (drops old new) (stored (upserts old new) m) = carry_out Partition_Key (upserts old new) (drops old new) m"
proof
  fix k
  have "k \<notin> Partition_Key ` set (upserts old new)" if "k \<in> Partition_Key ` set (drops old new)"
    using that partition_diff.upsert_keys [of old new] by (auto simp: set_drops)
  then show "without (drops old new) (stored (upserts old new) m) k = carry_out Partition_Key (upserts old new) (drops old new) m k"
    using keyed_None [of Partition_Key "upserts old new" k] by (auto simp: without_def stored_def carry_out_def split: option.splits)
qed

text \<open>
  C16. When a reconciliation reports no error, the catalog afterwards records exactly the desired
  partitions, each at its desired location, however the requests were batched.
\<close>

theorem SyncPartitions_reconciles:
  assumes "lawful_catalog ops parts" "Identifier_Validate ident = Inr ()" "distinct (map Partition_Key desired)"
    and "SyncPartitions ops ident desired batchSize c = Some (c', None)"
  shows "dom (parts c' ident) = Partition_Key ` set desired \<and>
    (\<forall>k p. parts c' ident k = Some p \<longrightarrow> (\<exists>q \<in> set desired. Partition_Key q = k \<and> StorageLocation p = StorageLocation q))"
proof -
  obtain existing where g: "GetAllPartitions ops c ident = Inr existing"
    using assms(2,4) by (cases "GetAllPartitions ops c ident") (auto simp: SyncPartitions_def Let_def)
  then obtain c1 c2 e1 e2 e3 where b:
      "inBatches (\<lambda>c. AddPartitions ops c ident) (request_size batchSize) (events_of PartitionEventAdd (DiffPartitions existing desired)) c = Some (c1, e1)"
      "inBatches (\<lambda>c. UpdatePartitions ops c ident) (request_size batchSize) (events_of PartitionEventUpdate (DiffPartitions existing desired)) c1 = Some (c2, e2)"
      "inBatches (\<lambda>c. DropPartitions ops c ident) (request_size batchSize) (events_of PartitionEventDrop (DiffPartitions existing desired)) c2 = Some (c', e3)"
    and e: "e1 = None" "e2 = None" "e3 = None"
    using SyncPartitions_unfold [OF assms(2) g, of batchSize desired] assms(4) by (fastforce simp: add_error_def split: option.splits)
  have st: "stored [] s = s" "without [] s = s" for s by (simp_all add: stored_def without_def keyed_def)
  have "parts c1 ident = stored (events_of PartitionEventAdd (DiffPartitions existing desired)) (parts c ident)"
    by (rule inBatches_law [OF _ stored_append st(1) request_size_pos b(1) [unfolded e]]) (use assms(1) in \<open>simp add: lawful_catalog_def\<close>)
  moreover have "parts c2 ident = stored (events_of PartitionEventUpdate (DiffPartitions existing desired)) (parts c1 ident)"
    by (rule inBatches_law [OF _ stored_append st(1) request_size_pos b(2) [unfolded e]]) (use assms(1) in \<open>simp add: lawful_catalog_def\<close>)
  moreover have "parts c' ident = without (drops existing desired) (parts c2 ident)"
    unfolding drops_def
    by (rule inBatches_law [OF _ without_append st(2) request_size_pos b(3) [unfolded e]]) (use assms(1) in \<open>simp add: lawful_catalog_def\<close>)
  moreover have "keyed Partition_Key existing = parts c ident" using assms(1) g by (simp add: lawful_catalog_def)
  ultimately have "parts c' ident = without (drops existing desired) (stored (upserts existing desired) (keyed Partition_Key existing))"
    by (simp only: upserts_def stored_append)
  then have eq: "parts c' ident = carry_out Partition_Key (upserts existing desired) (drops existing desired) (keyed Partition_Key existing)"
    by (simp only: upsert_drop_carry_out)
  have "\<exists>q \<in> set desired. Partition_Key q = k \<and> StorageLocation p = StorageLocation q" if "parts c' ident k = Some p" for k p
    using partition_diff.carry_out_value [OF assms(3) that [unfolded eq]] by (auto dest!: keyed_Some simp: sameLocation_def)
  moreover have "dom (parts c' ident) = Partition_Key ` set desired"
    unfolding eq using partition_diff.carry_out_dom by (auto simp: dom_def)
  ultimately show ?thesis by blast
qed

text \<open>A catalog that keeps its partitions in a list and never fails.\<close>

definition list_catalog :: "partition list partition_ops" where
  "list_catalog =
     \<lparr>GetAllPartitions = \<lambda>c i. Inr c, AddPartitions = \<lambda>c i b. (c @ b, None), UpdatePartitions = \<lambda>c i b. (c @ b, None),
      DropPartitions = \<lambda>c i b. (filter (\<lambda>p. Partition_Key p \<notin> Partition_Key ` set b) c, None)\<rparr>"

lemma keyed_filter:
  "keyed key (filter (\<lambda>p. key p \<notin> K) xs) k = (if k \<in> K then None else keyed key xs k)"
proof (induction xs rule: rev_induct)
  case (snoc x xs)
  have "keyed key (zs @ [x]) = (keyed key zs)(key x \<mapsto> x)" for zs by (simp add: keyed_def index_by_snoc)
  with snoc show ?case by auto
qed (simp add: keyed_def)

theorem SyncPartitions_reconciles_witness:
  "\<exists>c'. SyncPartitions list_catalog \<lparr>IdDatabase = ''d'', IdTable = ''t''\<rparr> [sample_part ''b'' ''z''] 1
      [sample_part ''a'' ''x'', sample_part ''b'' ''y''] = Some (c', None) \<and>
    dom (keyed Partition_Key c') = {''b''}"
proof -
  let ?i = "\<lparr>IdDatabase = ''d'', IdTable = ''t''\<rparr>"
  have l: "lawful_catalog list_catalog (\<lambda>c i. keyed Partition_Key c)"
    by (simp add: lawful_catalog_def list_catalog_def fun_eq_iff stored_def without_def keyed_append keyed_filter)
  have r: "SyncPartitions list_catalog ?i [sample_part ''b'' ''z''] 1 [sample_part ''a'' ''x'', sample_part ''b'' ''y''] =
      Some ([sample_part ''b'' ''y'', sample_part ''b'' ''z''], None)" by code_simp
  have "Identifier_Validate ?i = Inr ()" "distinct (map Partition_Key [sample_part ''b'' ''z''])"
    by (simp_all add: Identifier_Validate_def)
  from SyncPartitions_reconciles [OF l this r] r show ?thesis by (simp add: sample_part_def Partition_Key_def)
qed

section \<open>Partitions of a snapshot\<close>

text \<open>
  The partitions of a snapshot are sorted and have different keys, and each one is the
  partition of one of its files; every file with partition values has its partition among them.
\<close>

theorem PartitionsFromSnapshot_files:
  "sorted (map Partition_Key (PartitionsFromSnapshot (Some s))) \<and> distinct (map Partition_Key (PartitionsFromSnapshot (Some s))) \<and>
   set (PartitionsFromSnapshot (Some s)) \<subseteq> {p. \<exists>f. f \<in> set (DataFiles s) \<and> file_partition f = Some p} \<and>
   Partition_Key ` set (PartitionsFromSnapshot (Some s)) = Partition_Key ` {p. \<exists>f. f \<in> set (DataFiles s) \<and> file_partition f = Some p}"
proof -
  let ?ps = "List.map_filter file_partition (DataFiles s)"
  let ?m = "index_by Partition_Key ?ps"
  have ps: "set ?ps = {p. \<exists>f. f \<in> set (DataFiles s) \<and> file_partition f = Some p}"
    by (force simp: List.map_filter_def)
  have eq: "PartitionsFromSnapshot (Some s) = sort_key Partition_Key (map snd ?m)" by (simp add: PartitionsFromSnapshot_def)
  have key: "Partition_Key (snd kv) = fst kv" if "kv \<in> set ?m" for kv
    using that index_by_Some [of Partition_Key ?ps "fst kv" "snd kv"] wf_map_lookup [OF wf_index_by, of "fst kv" "snd kv"] by simp
  have "map Partition_Key (map snd ?m) = map fst ?m" using key by simp
  then have d: "distinct (map Partition_Key (map snd ?m))" using wf_index_by [of Partition_Key ?ps] by (simp only: wf_map_def)
  have sub: "snd ` set ?m \<subseteq> set ?ps"
    using index_values [of _ Partition_Key ?ps] keyed_Some [of Partition_Key ?ps] by auto
  have k: "Partition_Key ` snd ` set ?m = Partition_Key ` set ?ps"
    unfolding keys_index_by [of Partition_Key ?ps, symmetric] image_image by (rule image_cong [OF refl key])
  show ?thesis unfolding eq ps [symmetric] by (simp only: sorted_sort_key distinct_map_sort_key d set_sort set_map sub k simp_thms)
qed

end
