(* ===== verification/Model_Sync_Metadata.thy ===== *)
theory Model_Sync_Metadata
  imports Model_Core Go_Time
begin

text \<open>
  \<^verbatim>\<open>pkg/model/metadata.go\<close>: the sync watermark a target keeps in its table properties, written in
  two shapes (polytable's flat keys and the JSON document of Java XTable) and read back with the
  document preferred. The theorems show that the watermark survives the trip for every 64-bit
  instant, also when the instant has no ISO-8601 text a parser accepts.
\<close>

record sync_metadata =
  LastInstantSynced :: int
  InstantsToConsiderForNextSync :: "int list"
  SourceFormat :: table_format
  TargetFormat :: table_format
  SourceIdentifier :: string
  CustomProperties :: "(string, string) gomap"

definition KeyLastInstantSynced :: string where "KeyLastInstantSynced = ''xtable_last_instant_synced''"
definition KeySourceFormat :: string where "KeySourceFormat = ''xtable_source_format''"
definition KeyXTableMetadata :: string where "KeyXTableMetadata = ''XTABLE_METADATA''"
definition xtableMetadataVersion :: int where "xtableMetadataVersion = 0"

lemmas metadata_keys = KeyLastInstantSynced_def KeySourceFormat_def KeyXTableMetadata_def

section \<open>Instants as text\<close>

text \<open>\<^verbatim>\<open>time.UnixMilli(ms).UTC().Format(time.RFC3339Nano)\<close>.\<close>

definition instantToISO8601 :: "int \<Rightarrow> string" where
  "instantToISO8601 epochMillis =
     format_rfc3339nano (epochMillis div 1000, epochMillis mod 1000 * 1000000)"

definition iso8601ToInstant :: "string \<Rightarrow> int res" where
  "iso8601ToInstant s =
     (case parse_rfc3339nano s of
        None \<Rightarrow> Inl (ErrWrap (''invalid ISO-8601 instant '' @ quoted s) (ErrMsg ''parsing time''))
      | Some (sec, nsec) \<Rightarrow>
          if nsec mod 1000000 \<noteq> 0
          then Inl (ErrMsg (''instant '' @ quoted s @
            '' has sub-millisecond precision polytable cannot represent losslessly''))
          else Inr (sec * 1000 + nsec div 1000000))"

text \<open>The years the text has room for.\<close>

definition four_digit_year :: "int \<Rightarrow> bool" where
  "four_digit_year ms \<longleftrightarrow> (let y = fst (civil_from_days (ms div 1000 div 86400)) in 0 \<le> y \<and> y < 10000)"

lemma iso8601_roundtrip:
  assumes "four_digit_year ms"
  shows "iso8601ToInstant (instantToISO8601 ms) = Inr ms"
proof -
  obtain y m d where c: "civil_from_days (ms div 1000 div 86400) = (y, m, d)" by (metis prod_cases3)
  have r: "0 \<le> ms mod 1000" "ms mod 1000 < 1000" by simp_all
  have "parse_rfc3339nano (instantToISO8601 ms) = Some (ms div 1000, ms mod 1000 * 1000000)"
    unfolding instantToISO8601_def
    by (rule parse_format_rfc3339nano [OF c]) (use assms c r in \<open>simp_all add: four_digit_year_def Let_def\<close>)
  moreover have "ms div 1000 * 1000 + ms mod 1000 = ms" by simp
  ultimately show ?thesis by (simp add: iso8601ToInstant_def)
qed

lemma iso8601_wide_year:
  assumes "\<not> four_digit_year ms"
  shows "\<exists>e. iso8601ToInstant (instantToISO8601 ms) = Inl e"
proof -
  obtain y m d where c: "civil_from_days (ms div 1000 div 86400) = (y, m, d)" by (metis prod_cases3)
  have "parse_rfc3339nano (instantToISO8601 ms) = None"
    unfolding instantToISO8601_def
    by (rule parse_wide_year [OF c]) (use assms c in \<open>simp add: four_digit_year_def Let_def\<close>)
  then show ?thesis by (simp add: iso8601ToInstant_def)
qed

section \<open>The document of Java XTable\<close>

text \<open>\<^verbatim>\<open>json:",omitempty"\<close> on a string field.\<close>

definition omitempty :: "string \<Rightarrow> string \<Rightarrow> (string \<times> json) list" where
  "omitempty k s = (if s = '''' then [] else [(k, JStr s)])"

definition xtableMetadataJSON :: "sync_metadata \<Rightarrow> string" where
  "xtableMetadataJSON meta =
     json_print (JObj
       ([(''lastInstantSynced'', JStr (instantToISO8601 (LastInstantSynced meta))),
         (''instantsToConsiderForNextSync'',
            JArr (map (\<lambda>ms. JStr (instantToISO8601 ms)) (InstantsToConsiderForNextSync meta))),
         (''version'', JNum (formatInt xtableMetadataVersion))] @
        omitempty ''sourceTableFormat'' (SourceFormat meta) @
        omitempty ''sourceIdentifier'' (SourceIdentifier meta)))"

record java_sync_metadata =
  jLastInstantSynced :: string
  jInstants :: "string list"
  jVersion :: int
  jSourceTableFormat :: string
  jSourceIdentifier :: string

definition dec_java_sync_metadata :: "json \<Rightarrow> java_sync_metadata option" where
  "dec_java_sync_metadata j =
     (case (case j of JObj kvs \<Rightarrow> Some kvs | JNull \<Rightarrow> Some [] | _ \<Rightarrow> None) of
        None \<Rightarrow> None
      | Some kvs \<Rightarrow>
          (case (dec_string (jfield ''lastInstantSynced'' kvs),
                 dec_list (\<lambda>x. dec_string (Some x)) (jfield ''instantsToConsiderForNextSync'' kvs),
                 dec_int (jfield ''version'' kvs),
                 dec_string (jfield ''sourceTableFormat'' kvs),
                 dec_string (jfield ''sourceIdentifier'' kvs)) of
             (Some l, Some is, Some v, Some f, Some i) \<Rightarrow>
               Some \<lparr>jLastInstantSynced = l, jInstants = is, jVersion = v, jSourceTableFormat = f,
                     jSourceIdentifier = i\<rparr>
           | _ \<Rightarrow> None))"

definition ParseXTableMetadataJSON :: "string \<Rightarrow> sync_metadata res" where
  "ParseXTableMetadataJSON data =
     (case Option.bind (json_unmarshal data) dec_java_sync_metadata of
        None \<Rightarrow> Inl (ErrWrap ''invalid XTABLE_METADATA JSON'' (ErrMsg ''json''))
      | Some raw \<Rightarrow>
          if jLastInstantSynced raw = ''''
          then Inl (ErrMsg ''XTABLE_METADATA is missing required field lastInstantSynced'')
          else if jVersion raw > xtableMetadataVersion
          then Inl (ErrMsg (''XTABLE_METADATA version '' @ formatInt (jVersion raw) @
            '' is newer than the supported version '' @ formatInt xtableMetadataVersion))
          else
            (case wrap_res ''XTABLE_METADATA lastInstantSynced'' (iso8601ToInstant (jLastInstantSynced raw)) of
               Inl e \<Rightarrow> Inl e
             | Inr lastInstant \<Rightarrow>
                 (case map_res (\<lambda>s. wrap_res ''XTABLE_METADATA instantsToConsiderForNextSync''
                     (iso8601ToInstant s)) (jInstants raw) of
                    Inl e \<Rightarrow> Inl e
                  | Inr pending \<Rightarrow>
                      Inr \<lparr>LastInstantSynced = lastInstant, InstantsToConsiderForNextSync = pending,
                           SourceFormat = jSourceTableFormat raw, TargetFormat = '''',
                           SourceIdentifier = jSourceIdentifier raw, CustomProperties = []\<rparr>)))"

section \<open>Table properties\<close>

definition flat_sync_metadata :: "(string, string) gomap \<Rightarrow> sync_metadata option" where
  "flat_sync_metadata props =
     (case map_of props KeyLastInstantSynced of
        None \<Rightarrow> None
      | Some lastInstantStr \<Rightarrow>
          (case parseInt lastInstantStr of
             None \<Rightarrow> None
           | Some lastInstant \<Rightarrow>
               Some \<lparr>LastInstantSynced = lastInstant, InstantsToConsiderForNextSync = [],
                     SourceFormat = (case map_of props KeySourceFormat of None \<Rightarrow> '''' | Some f \<Rightarrow> f),
                     TargetFormat = '''', SourceIdentifier = '''', CustomProperties = []\<rparr>))"

definition ReadSyncMetadataFromProperties :: "(string, string) gomap \<Rightarrow> sync_metadata option" where
  "ReadSyncMetadataFromProperties props =
     (if props = [] then None
      else
        (case map_of props KeyXTableMetadata of
           None \<Rightarrow> flat_sync_metadata props
         | Some blob \<Rightarrow>
             if blob = '''' then flat_sync_metadata props
             else (case ParseXTableMetadataJSON blob of
                     Inr meta \<Rightarrow> Some meta
                   | Inl _ \<Rightarrow> flat_sync_metadata props)))"

text \<open>\<^verbatim>\<open>xtableMetadataJSON\<close> cannot fail on a struct of strings and numbers, so the document is always set.\<close>

definition WriteSyncMetadataProperties :: "(string, string) gomap \<Rightarrow> sync_metadata \<Rightarrow> (string, string) gomap" where
  "WriteSyncMetadataProperties props meta =
     (let props1 = map_put KeyLastInstantSynced (formatInt (LastInstantSynced meta)) props;
          props2 = (if SourceFormat meta \<noteq> '''' then map_put KeySourceFormat (SourceFormat meta) props1
                    else props1)
      in map_put KeyXTableMetadata (xtableMetadataJSON meta) props2)"

section \<open>What a written watermark reads back as\<close>

text \<open>The part of the state the document carries.\<close>

definition document_part :: "sync_metadata \<Rightarrow> sync_metadata" where
  "document_part meta = meta\<lparr>TargetFormat := '''', CustomProperties := []\<rparr>"

lemma instant_text_nonempty [simp]: "instantToISO8601 ms \<noteq> ''''"
  by (simp add: instantToISO8601_def format_rfc3339nano_def Let_def split_def)

definition java_of :: "sync_metadata \<Rightarrow> java_sync_metadata" where
  "java_of meta =
     \<lparr>jLastInstantSynced = instantToISO8601 (LastInstantSynced meta),
      jInstants = map instantToISO8601 (InstantsToConsiderForNextSync meta), jVersion = 0,
      jSourceTableFormat = SourceFormat meta, jSourceIdentifier = SourceIdentifier meta\<rparr>"

lemma dec_xtableMetadataJSON:
  "Option.bind (json_unmarshal (xtableMetadataJSON meta)) dec_java_sync_metadata = Some (java_of meta)"
proof -
  let ?is = "map (\<lambda>ms. JStr (instantToISO8601 ms)) (InstantsToConsiderForNextSync meta)"
  have "opt_all (\<lambda>x. dec_string (Some x)) ?is = Some (map instantToISO8601 (InstantsToConsiderForNextSync meta))"
    by (rule opt_all_map) simp
  moreover have "parseInt (formatInt 0) = Some 0" by (simp add: in_int64_def)
  ultimately show ?thesis
    by (simp add: xtableMetadataJSON_def omitempty_def list_all_iff dec_java_sync_metadata_def jfield_def
        equalFold_def toLower_def lower_char_def java_of_def xtableMetadataVersion_def del: json_print.simps)
qed

lemma Parse_xtableMetadataJSON:
  assumes "\<forall>ms \<in> set (LastInstantSynced meta # InstantsToConsiderForNextSync meta). four_digit_year ms"
  shows "ParseXTableMetadataJSON (xtableMetadataJSON meta) = Inr (document_part meta)"
proof -
  have "map_res (\<lambda>s. wrap_res ''XTABLE_METADATA instantsToConsiderForNextSync'' (iso8601ToInstant s))
      (map instantToISO8601 (InstantsToConsiderForNextSync meta)) = Inr (InstantsToConsiderForNextSync meta)"
    unfolding map_res_Inr_iff list_all2_map1
    by (rule list.rel_refl_strong) (use assms in \<open>simp add: iso8601_roundtrip\<close>)
  then show ?thesis
    using assms by (simp add: ParseXTableMetadataJSON_def dec_xtableMetadataJSON java_of_def
        iso8601_roundtrip xtableMetadataVersion_def document_part_def)
qed

lemma Parse_last_instant:
  assumes "ParseXTableMetadataJSON (xtableMetadataJSON meta) = Inr m"
  shows "LastInstantSynced m = LastInstantSynced meta \<and> SourceFormat m = SourceFormat meta"
proof (cases "four_digit_year (LastInstantSynced meta)")
  case True
  with assms show ?thesis
    by (auto simp: ParseXTableMetadataJSON_def dec_xtableMetadataJSON java_of_def iso8601_roundtrip
        xtableMetadataVersion_def split: sum.splits)
next
  case False
  with iso8601_wide_year [OF False] assms show ?thesis
    by (auto simp: ParseXTableMetadataJSON_def dec_xtableMetadataJSON java_of_def xtableMetadataVersion_def)
qed

lemma flat_written:
  assumes "in_int64 (LastInstantSynced meta)"
  shows "\<exists>m. flat_sync_metadata (WriteSyncMetadataProperties props meta) = Some m \<and>
    LastInstantSynced m = LastInstantSynced meta \<and>
    (SourceFormat meta \<noteq> '''' \<longrightarrow> SourceFormat m = SourceFormat meta)"
  using assms by (auto simp: flat_sync_metadata_def WriteSyncMetadataProperties_def Let_def metadata_keys)

lemma Write_nonempty [simp]: "WriteSyncMetadataProperties props meta \<noteq> []"
  using map_of_map_put [of KeyXTableMetadata "xtableMetadataJSON meta"]
  by (force simp: WriteSyncMetadataProperties_def Let_def dest: arg_cong [of _ "[]" map_of])

lemma xtableMetadataJSON_nonempty [simp]: "xtableMetadataJSON meta \<noteq> ''''"
  by (simp add: xtableMetadataJSON_def)

lemma Read_Write_eq:
  "ReadSyncMetadataFromProperties (WriteSyncMetadataProperties props meta) =
     (case ParseXTableMetadataJSON (xtableMetadataJSON meta) of
        Inr m \<Rightarrow> Some m
      | Inl _ \<Rightarrow> flat_sync_metadata (WriteSyncMetadataProperties props meta))"
proof -
  have "map_of (WriteSyncMetadataProperties props meta) KeyXTableMetadata = Some (xtableMetadataJSON meta)"
    by (simp add: WriteSyncMetadataProperties_def Let_def)
  then show ?thesis
    unfolding ReadSyncMetadataFromProperties_def
    by (simp only: Write_nonempty xtableMetadataJSON_nonempty if_False option.case)
qed

lemma Read_Write_watermark:
  assumes "in_int64 (LastInstantSynced meta)"
  shows "\<exists>m. ReadSyncMetadataFromProperties (WriteSyncMetadataProperties props meta) = Some m \<and>
    LastInstantSynced m = LastInstantSynced meta \<and>
    (SourceFormat meta \<noteq> '''' \<longrightarrow> SourceFormat m = SourceFormat meta)"
proof (cases "ParseXTableMetadataJSON (xtableMetadataJSON meta)")
  case (Inl e)
  with flat_written [OF assms, of props] show ?thesis by (simp only: Read_Write_eq sum.case)
next
  case (Inr m)
  with Parse_last_instant [OF Inr] show ?thesis by (simp add: Read_Write_eq)
qed

lemma wf_Write [simp]: "wf_map props \<Longrightarrow> wf_map (WriteSyncMetadataProperties props m)"
  by (simp add: WriteSyncMetadataProperties_def Let_def)

lemma Read_map_of:
  assumes "map_of m = map_of m'" "m = [] \<longleftrightarrow> m' = []"
  shows "ReadSyncMetadataFromProperties m = ReadSyncMetadataFromProperties m'"
proof -
  have "flat_sync_metadata m = flat_sync_metadata m'" by (simp only: flat_sync_metadata_def assms(1))
  then show ?thesis by (simp only: ReadSyncMetadataFromProperties_def assms)
qed

lemma Read_sorted: "wf_map m \<Longrightarrow> ReadSyncMetadataFromProperties (sort_key fst m) = ReadSyncMetadataFromProperties m"
  by (rule Read_map_of) (auto dest: arg_cong [of _ _ set])

text \<open>
  The watermark a sync writes is the one the next sync reads: for every 64-bit instant, whatever
  properties the table had before, the last synced instant comes back exactly, and with it a source
  format that was set.
\<close>

theorem watermark_survives:
  assumes "in_int64 (LastInstantSynced meta)"
  shows "\<exists>m. ReadSyncMetadataFromProperties (WriteSyncMetadataProperties props meta) = Some m \<and>
    LastInstantSynced m = LastInstantSynced meta \<and>
    (SourceFormat meta \<noteq> '''' \<longrightarrow> SourceFormat m = SourceFormat meta)"
  by (rule Read_Write_watermark [OF assms])

definition sample_metadata :: "int \<Rightarrow> sync_metadata" where
  "sample_metadata ms =
     \<lparr>LastInstantSynced = ms, InstantsToConsiderForNextSync = [1500], SourceFormat = ''DELTA'',
      TargetFormat = ''ICEBERG'', SourceIdentifier = ''7'', CustomProperties = []\<rparr>"

theorem watermark_survives_witness:
  "\<exists>m. ReadSyncMetadataFromProperties
      (WriteSyncMetadataProperties [(''owner'', ''etl'')] (sample_metadata 9223372036854775807)) = Some m \<and>
    LastInstantSynced m = 9223372036854775807 \<and> SourceFormat m = ''DELTA''"
  using watermark_survives [of "sample_metadata 9223372036854775807" "[(''owner'', ''etl'')]"]
  by (simp add: sample_metadata_def in_int64_def)

text \<open>
  C29. When every instant of the state lies in the years 0 to 9999, nothing Java XTable's document
  carries is lost either: pending instants and the source identifier come back as well, and only the
  target format and the custom properties, which the caller fills in, are reset.
\<close>

theorem sync_metadata_roundtrip:
  assumes "\<forall>ms \<in> set (LastInstantSynced meta # InstantsToConsiderForNextSync meta). four_digit_year ms"
  shows "ReadSyncMetadataFromProperties (WriteSyncMetadataProperties props meta) =
    Some (meta\<lparr>TargetFormat := '''', CustomProperties := []\<rparr>)"
  by (simp add: Read_Write_eq Parse_xtableMetadataJSON [OF assms] document_part_def)

theorem sync_metadata_roundtrip_witness:
  "ReadSyncMetadataFromProperties (WriteSyncMetadataProperties [] (sample_metadata 1787415052000)) =
    Some ((sample_metadata 1787415052000)\<lparr>TargetFormat := ''''\<rparr>)"
proof -
  have "four_digit_year 1787415052000" and "four_digit_year 1500" by code_simp+
  then show ?thesis
    using sync_metadata_roundtrip [of "sample_metadata 1787415052000" "[]"]
    by (simp add: sample_metadata_def)
qed

text \<open>
  The text of an instant drops the trailing zeros of its milliseconds: half a second is written
  with one digit, where the comment above \<^verbatim>\<open>instantToISO8601\<close> promises none or three. The text
  still reads back.
\<close>

theorem instant_text_digits:
  "instantToISO8601 1500 = ''1970-01-01T00:00:01.5Z'' \<and>
   iso8601ToInstant (instantToISO8601 1500) = Inr 1500"
proof -
  have "nat_dec 500000000 = ''500000000''"
    by (simp add: nat_dec.simps digit_char_values)
  then have "frac_text 500000000 = ''.5''" by (simp add: frac_text_def padZero_def)
  moreover have "civil_from_days 0 = (1970, 1, 1)" by code_simp
  moreover have "year_text 1970 = ''1970''" "pad2 0 = ''00''" "pad2 1 = ''01''" by code_simp+
  ultimately have "instantToISO8601 1500 = ''1970-01-01T00:00:01.5Z''"
    by (simp add: instantToISO8601_def format_rfc3339nano_def)
  moreover have "four_digit_year 1500" by code_simp
  note iso8601_roundtrip [OF this]
  ultimately show ?thesis by blast
qed

end
