(* ===== verification/Conversion_Controller.thy ===== *)
theory Conversion_Controller
  imports Conversion_Config Catalog_Partition Model_Sync_Metadata
begin

text \<open>
  \<^verbatim>\<open>pkg/conversion/controller.go\<close> with the interfaces of \<^verbatim>\<open>pkg/spi\<close>: one sync of a dataset to its
  target formats and catalogs. The adapters are behind interfaces: a source is a record of functions
  that read a store, a target one of functions that read and write it. The stores, the catalogs and
  the durations \<^verbatim>\<open>time.Since\<close> measures are arguments. The locale \<open>sync_target\<close> is the part of a
  target's contract the controller relies on.
\<close>

section \<open>Results\<close>

datatype sync_status_code = SyncStatusSuccess | SyncStatusError | SyncStatusSkipped

record sync_result =
  ResFormat :: table_format
  StatusCode :: sync_status_code
  ResError :: string
  ResLastInstantSynced :: int
  Duration :: int
  NoOp :: bool
  FellBackToFullSync :: bool
  FallbackReason :: string

datatype sync_verdict = SyncVerdictSuccess | SyncVerdictFailed | SyncVerdictNoOp

definition Verdict :: "sync_result option \<Rightarrow> sync_verdict" where
  "Verdict r =
     (case r of
        None \<Rightarrow> SyncVerdictFailed
      | Some x \<Rightarrow>
          if StatusCode x = SyncStatusError then SyncVerdictFailed
          else if NoOp x then SyncVerdictNoOp else SyncVerdictSuccess)"

definition NewSuccessSyncResult :: "table_format \<Rightarrow> int \<Rightarrow> int \<Rightarrow> sync_result" where
  "NewSuccessSyncResult format instant duration =
     \<lparr>ResFormat = format, StatusCode = SyncStatusSuccess, ResError = '''', ResLastInstantSynced = instant,
      Duration = duration, NoOp = False, FellBackToFullSync = False, FallbackReason = ''''\<rparr>"

definition NewErrorSyncResult :: "table_format \<Rightarrow> gerr option \<Rightarrow> int \<Rightarrow> sync_result" where
  "NewErrorSyncResult format err duration =
     \<lparr>ResFormat = format, StatusCode = SyncStatusError,
      ResError = (case err of None \<Rightarrow> '''' | Some e \<Rightarrow> err_text e), ResLastInstantSynced = 0,
      Duration = duration, NoOp = False, FellBackToFullSync = False, FallbackReason = ''''\<rparr>"

section \<open>Adapters\<close>

record 's conversion_source =
  csGetCurrentSnapshot :: "'s \<Rightarrow> snapshot res"
  csGetChangesSince :: "'s \<Rightarrow> int \<Rightarrow> incremental_changes res"
  csIsIncrementalSyncSafeFrom :: "'s \<Rightarrow> int \<Rightarrow> bool res"

record 's conversion_target =
  ctGetTableMetadata :: "'s \<Rightarrow> sync_metadata option res"
  ctCommitSnapshot :: "'s \<Rightarrow> snapshot \<Rightarrow> 's \<times> gerr option"
  ctCommitChanges :: "'s \<Rightarrow> incremental_changes \<Rightarrow> 's \<times> gerr option"

section \<open>One target\<close>

definition applyFallbackReason :: "sync_result \<Rightarrow> string \<Rightarrow> sync_result" where
  "applyFallbackReason result reason =
     (if reason = '''' then result else result\<lparr>FellBackToFullSync := True, FallbackReason := reason\<rparr>)"

text \<open>
  The decision between an incremental and a full sync: the instant to resume at when an incremental
  sync is possible, else the reason for falling back (empty when none was asked for).
\<close>

definition sync_plan :: "sync_mode \<Rightarrow> 's conversion_source \<Rightarrow> 's \<Rightarrow> sync_metadata option \<Rightarrow> string + int" where
  "sync_plan mode source s meta =
     (case meta of
        None \<Rightarrow> Inl ''''
      | Some m \<Rightarrow>
          if LastInstantSynced m > 0 \<and> mode \<noteq> SyncModeFull then
            (case csIsIncrementalSyncSafeFrom source s (LastInstantSynced m) of
               Inl err \<Rightarrow> Inl (''could not verify incremental sync safety from instant '' @ formatInt (LastInstantSynced m) @
                 '': '' @ err_text err)
             | Inr isSafe \<Rightarrow>
                 if isSafe then Inr (LastInstantSynced m)
                 else Inl (''incremental sync from instant '' @ formatInt (LastInstantSynced m) @
                   '' is not safe: the source no longer retains history back to that point''))
          else Inl '''')"

definition incremental_sync :: "'s conversion_source \<Rightarrow> 's conversion_target \<Rightarrow> table_format \<Rightarrow> int \<Rightarrow> bool \<Rightarrow> int \<Rightarrow> 's \<Rightarrow>
    's \<times> sync_result" where
  "incremental_sync source target targetFormat dur dryRun lastSyncedInstant s =
     (case csGetChangesSince source s lastSyncedInstant of
        Inl err \<Rightarrow> (s, NewErrorSyncResult targetFormat (Some (ErrWrap ''failed to extract changes'' err)) dur)
      | Inr changes \<Rightarrow>
          if TableChanges changes \<noteq> [] then
            (let (s', err) = (if dryRun then (s, None) else ctCommitChanges target s changes) in
             case err of
               Some e \<Rightarrow> (s', NewErrorSyncResult targetFormat (Some (ErrWrap ''failed to commit changes'' e)) dur)
             | None \<Rightarrow> (s', NewSuccessSyncResult targetFormat (CommitTime (last (TableChanges changes))) dur))
          else (s, (NewSuccessSyncResult targetFormat lastSyncedInstant dur)\<lparr>NoOp := True\<rparr>))"

definition full_sync :: "'s conversion_source \<Rightarrow> 's conversion_target \<Rightarrow> table_format \<Rightarrow> int \<Rightarrow> bool \<Rightarrow> string \<Rightarrow> 's \<Rightarrow>
    's \<times> sync_result" where
  "full_sync source target targetFormat dur dryRun fallbackReason s =
     (case csGetCurrentSnapshot source s of
        Inl err \<Rightarrow> (s, applyFallbackReason
          (NewErrorSyncResult targetFormat (Some (ErrWrap ''failed to extract current snapshot'' err)) dur) fallbackReason)
      | Inr snap \<Rightarrow>
          (let (s', err) = (if dryRun then (s, None) else ctCommitSnapshot target s snap) in
           (s', applyFallbackReason
              (case err of
                 Some e \<Rightarrow> NewErrorSyncResult targetFormat (Some (ErrWrap ''failed to commit snapshot'' e)) dur
               | None \<Rightarrow> NewSuccessSyncResult targetFormat (LatestCommitTime (SnapTable snap)) dur) fallbackReason)))"

definition syncToTarget :: "sync_mode \<Rightarrow> 's conversion_source \<Rightarrow> 's conversion_target \<Rightarrow> table_format \<Rightarrow> int \<Rightarrow> bool \<Rightarrow> 's \<Rightarrow>
    's \<times> sync_result" where
  "syncToTarget mode source target targetFormat dur dryRun s =
     (let meta = (case ctGetTableMetadata target s of Inl _ \<Rightarrow> None | Inr m \<Rightarrow> m) in
      case sync_plan mode source s meta of
        Inr lastSyncedInstant \<Rightarrow> incremental_sync source target targetFormat dur dryRun lastSyncedInstant s
      | Inl fallbackReason \<Rightarrow> full_sync source target targetFormat dur dryRun fallbackReason s)"

section \<open>Catalogs\<close>

record 'c sync_client =
  CreateOrUpdateTable :: "'c \<Rightarrow> table \<Rightarrow> snapshot \<Rightarrow> 'c \<times> gerr option"
  PartitionOps :: "'c partition_ops option"

definition appendCatalogError :: "string \<Rightarrow> string \<Rightarrow> string" where
  "appendCatalogError baseErr catalogErr =
     (if baseErr = '''' then ''catalog sync error: '' @ catalogErr
      else baseErr @ ''; catalog sync error: '' @ catalogErr)"

definition syncPartitions :: "'c sync_client \<Rightarrow> catalog_config \<Rightarrow> snapshot \<Rightarrow> 'c \<Rightarrow> ('c \<times> gerr option) option" where
  "syncPartitions client cfg snap c =
     (case PartitionOps client of
        None \<Rightarrow> Some (c, None)
      | Some ops \<Rightarrow>
          if PartitioningFields (SnapTable snap) = [] then Some (c, None)
          else SyncPartitions ops \<lparr>IdDatabase = DatabaseName cfg, IdTable = TableName (SnapTable snap)\<rparr>
            (PartitionsFromSnapshot (Some snap)) (MaxPartitionsPerRequest cfg) c)"

text \<open>The loop over the catalogs; the errors are collected and the next catalog is tried.\<close>

fun sync_catalogs :: "(catalog_config \<Rightarrow> 'c sync_client res) \<Rightarrow> snapshot \<Rightarrow> catalog_config list \<Rightarrow> gerr list \<Rightarrow> 'c \<Rightarrow>
    ('c \<times> gerr list) option" where
  "sync_catalogs newClient snap [] errs c = Some (c, errs)"
| "sync_catalogs newClient snap (cfg # cfgs) errs c =
     (case newClient cfg of
        Inl e \<Rightarrow> sync_catalogs newClient snap cfgs
          (errs @ [ErrWrap (''failed to create catalog sync client for '' @ CatType cfg) e]) c
      | Inr client \<Rightarrow>
          (let (c1, e1) = CreateOrUpdateTable client c (SnapTable snap) snap in
           case e1 of
             Some e \<Rightarrow> sync_catalogs newClient snap cfgs (errs @ [ErrWrap (''failed to sync to catalog '' @ CatType cfg) e]) c1
           | None \<Rightarrow>
               Option.bind (syncPartitions client cfg snap c1) (\<lambda>(c2, e2).
                 sync_catalogs newClient snap cfgs
                   (add_error errs (map_option (ErrWrap (''failed to sync partitions to catalog '' @ CatType cfg)) e2)) c2)))"

definition syncTargetToCatalogs :: "(table_format \<Rightarrow> string \<Rightarrow> 's conversion_source res) \<Rightarrow> (catalog_config \<Rightarrow> 'c sync_client res) \<Rightarrow>
    dataset_config \<Rightarrow> table_format \<Rightarrow> 's \<Rightarrow> 'c \<Rightarrow> ('c \<times> gerr option) option" where
  "syncTargetToCatalogs newSource newClient cfg targetFormat s c =
     (case newSource targetFormat (DcTableBasePath cfg) of
        Inl e \<Rightarrow> Some (c, Some (ErrWrap ''failed to create target source for catalog sync'' e))
      | Inr source \<Rightarrow>
          (case csGetCurrentSnapshot source s of
             Inl e \<Rightarrow> Some (c, Some (ErrWrap ''failed to get target snapshot for catalog sync'' e))
           | Inr snap \<Rightarrow>
               map_option (\<lambda>(c', errs). (c', map_option (\<lambda>e. ErrMsg (''catalog sync errors: '' @ err_text e)) (errors_Join errs)))
                 (sync_catalogs newClient snap (DcCatalogs cfg) [] c)))"

section \<open>A whole sync\<close>

record ('s, 'c) controller =
  createSource :: "table_format \<Rightarrow> string \<Rightarrow> 's conversion_source res"
  createTarget :: "table_format \<Rightarrow> string \<Rightarrow> string \<Rightarrow> 's conversion_target res"
  newCatalogClient :: "catalog_config \<Rightarrow> 'c sync_client res"
  elapsed :: int

type_synonym sync_results = "(table_format, sync_result) gomap"

text \<open>The body of the loop for one target format.\<close>

definition sync_one :: "('s, 'c) controller \<Rightarrow> dataset_config \<Rightarrow> 's conversion_source \<Rightarrow> bool \<Rightarrow> table_format \<Rightarrow>
    's \<times> 'c \<times> sync_results \<Rightarrow> ('s \<times> 'c \<times> sync_results) option" where
  "sync_one ctl cfg source dryRun fmt st =
     (let (s, c, results) = st in
      case createTarget ctl fmt (DcTableBasePath cfg) (DcTableName cfg) of
        Inl e \<Rightarrow> Some (s, c, map_put fmt (NewErrorSyncResult fmt (Some e) (elapsed ctl)) results)
      | Inr target \<Rightarrow>
          (let (s', result) = syncToTarget (DcSyncMode cfg) source target fmt (elapsed ctl) dryRun s in
           if \<not> dryRun \<and> StatusCode result = SyncStatusSuccess \<and> DcCatalogs cfg \<noteq> [] then
             map_option (\<lambda>(c', err).
               (s', c', map_put fmt (case err of None \<Rightarrow> result
                  | Some e \<Rightarrow> result\<lparr>ResError := appendCatalogError (ResError result) (err_text e)\<rparr>) results))
               (syncTargetToCatalogs (createSource ctl) (newCatalogClient ctl) cfg fmt s' c)
           else Some (s', c, map_put fmt result results)))"

fun sync_formats :: "('s, 'c) controller \<Rightarrow> dataset_config \<Rightarrow> 's conversion_source \<Rightarrow> bool \<Rightarrow> table_format list \<Rightarrow>
    's \<times> 'c \<times> sync_results \<Rightarrow> ('s \<times> 'c \<times> sync_results) option" where
  "sync_formats ctl cfg source dryRun [] st = Some st"
| "sync_formats ctl cfg source dryRun (fmt # fmts) st =
     (if fmt = DcSourceFormat cfg then sync_formats ctl cfg source dryRun fmts st
      else Option.bind (sync_one ctl cfg source dryRun fmt st) (sync_formats ctl cfg source dryRun fmts))"

definition Sync :: "('s, 'c) controller \<Rightarrow> dataset_config \<Rightarrow> bool \<Rightarrow> 's \<Rightarrow> 'c \<Rightarrow> ('s \<times> 'c \<times> sync_results res) option" where
  "Sync ctl config dryRun s c =
     (case Dataset_Validate config of
        Inl e \<Rightarrow> Some (s, c, Inl (ErrWrap ''invalid dataset configuration'' e))
      | Inr cfg \<Rightarrow>
          (case createSource ctl (DcSourceFormat cfg) (DcTableBasePath cfg) of
             Inl e \<Rightarrow> Some (s, c, Inl (ErrWrap ''failed to create source converter'' e))
           | Inr source \<Rightarrow>
               map_option (\<lambda>(s', c', results). (s', c', Inr results))
                 (sync_formats ctl cfg source dryRun (DcTargetFormats cfg) (s, c, []))))"

section \<open>A sync ends\<close>

lemma syncPartitions_total: "\<exists>c' e. syncPartitions client cfg snap c = Some (c', e)"
  using SyncPartitions_total by (auto simp: syncPartitions_def split: option.splits)

lemma sync_catalogs_total: "\<exists>c' errs'. sync_catalogs newClient snap cfgs errs c = Some (c', errs')"
proof (induction cfgs arbitrary: errs c)
  case (Cons cfg cfgs)
  show ?case
  proof (cases "newClient cfg")
    case (Inr client)
    obtain c1 e1 where c1: "CreateOrUpdateTable client c (SnapTable snap) snap = (c1, e1)" by fastforce
    obtain c2 e2 where "syncPartitions client cfg snap c1 = Some (c2, e2)" using syncPartitions_total [of client cfg snap c1] by auto
    with Inr c1 Cons.IH show ?thesis by (cases e1) (simp_all del: sync_catalogs.simps add: sync_catalogs.simps(2))
  qed (use Cons.IH in simp)
qed simp

lemma syncTargetToCatalogs_total: "\<exists>c' err. syncTargetToCatalogs newSource newClient cfg fmt s c = Some (c', err)"
  using sync_catalogs_total [of newClient _ "DcCatalogs cfg" "[]" c]
  by (fastforce simp: syncTargetToCatalogs_def split: sum.splits)

lemma sync_one_total: "\<exists>st'. sync_one ctl cfg source dryRun fmt st = Some st'"
proof -
  obtain s c results where st: "st = (s, c, results)" by (cases st)
  show ?thesis
  proof (cases "createTarget ctl fmt (DcTableBasePath cfg) (DcTableName cfg)")
    case (Inr target)
    obtain s' r where r: "syncToTarget (DcSyncMode cfg) source target fmt (elapsed ctl) dryRun s = (s', r)" by fastforce
    obtain c' err where "syncTargetToCatalogs (createSource ctl) (newCatalogClient ctl) cfg fmt s' c = Some (c', err)"
      using syncTargetToCatalogs_total [of "createSource ctl" "newCatalogClient ctl" cfg fmt s' c] by auto
    with Inr r show ?thesis by (simp add: sync_one_def st)
  qed (simp add: sync_one_def st)
qed

lemma sync_formats_total: "\<exists>st'. sync_formats ctl cfg source dryRun fmts st = Some st'"
proof (induction fmts arbitrary: st)
  case (Cons fmt fmts)
  obtain st1 where "sync_one ctl cfg source dryRun fmt st = Some st1"
    using sync_one_total [of ctl cfg source dryRun fmt st] by auto
  with Cons show ?case by simp
qed (metis sync_formats.simps(1))

lemma Sync_total: "\<exists>s' c' r. Sync ctl config dryRun s c = Some (s', c', r)"
proof (cases "Dataset_Validate config")
  case (Inr cfg)
  show ?thesis
  proof (cases "createSource ctl (DcSourceFormat cfg) (DcTableBasePath cfg)")
    case (Inr source)
    obtain s' c' results where "sync_formats ctl cfg source dryRun (DcTargetFormats cfg) (s, c, []) = Some (s', c', results)"
      using sync_formats_total [of ctl cfg source dryRun "DcTargetFormats cfg" "(s, c, [])"] by auto
    with \<open>Dataset_Validate config = Inr cfg\<close> Inr show ?thesis by (simp add: Sync_def)
  qed (simp add: Sync_def Inr)
qed (simp add: Sync_def)

text \<open>
  C15. A sync always ends with a result, whatever the adapters and the catalogs answer.
\<close>

theorem Sync_returns: "\<exists>s' c' r. Sync ctl config dryRun s c = Some (s', c', r)"
  by (rule Sync_total)

section \<open>A dry run writes nothing\<close>

lemma syncToTarget_dry: "fst (syncToTarget mode source target fmt dur True s) = s"
  by (auto simp: syncToTarget_def incremental_sync_def full_sync_def Let_def split: sum.splits option.splits)

lemma sync_formats_dry: "sync_formats ctl cfg source True fmts (s, c, results) = Some (s', c', results') \<Longrightarrow> s' = s \<and> c' = c"
proof (induction fmts arbitrary: results)
  case (Cons fmt fmts)
  have one: "\<exists>results1. sync_one ctl cfg source True fmt (s, c, results) = Some (s, c, results1)"
  proof (cases "createTarget ctl fmt (DcTableBasePath cfg) (DcTableName cfg)")
    case (Inr target)
    obtain r where "syncToTarget (DcSyncMode cfg) source target fmt (elapsed ctl) True s = (s, r)"
      using syncToTarget_dry [of "DcSyncMode cfg" source target fmt "elapsed ctl" s] by (metis prod.collapse)
    with Inr show ?thesis by (simp add: sync_one_def)
  qed (simp add: sync_one_def)
  show ?case
  proof (cases "fmt = DcSourceFormat cfg")
    case True
    with Cons show ?thesis by simp
  next
    case False
    from one obtain results1 where "sync_one ctl cfg source True fmt (s, c, results) = Some (s, c, results1)" ..
    with False Cons show ?thesis by simp
  qed
qed simp

text \<open>
  C14. A dry run leaves the storage and every catalog as they were.
\<close>

theorem dry_run_writes_nothing:
  assumes "Sync ctl config True s c = Some (s', c', r)"
  shows "s' = s \<and> c' = c"
  using assms sync_formats_dry by (fastforce simp: Sync_def split: sum.splits)

section \<open>One result per target\<close>

lemma sync_one_results:
  "sync_one ctl cfg source dryRun fmt (s, c, results) = Some (s', c', results') \<Longrightarrow> \<exists>r. results' = map_put fmt r results"
  by (fastforce simp: sync_one_def Let_def split: sum.splits prod.splits if_splits option.splits)

lemma sync_formats_results:
  "sync_formats ctl cfg source dryRun fmts (s, c, results) = Some (s', c', results') \<Longrightarrow> wf_map results \<Longrightarrow>
    wf_map results' \<and> fst ` set results' = fst ` set results \<union> (set fmts - {DcSourceFormat cfg})"
proof (induction fmts arbitrary: s c results)
  case (Cons fmt fmts)
  show ?case
  proof (cases "fmt = DcSourceFormat cfg")
    case True
    with Cons.IH [of s c results] Cons.prems show ?thesis by simp
  next
    case False
    with Cons.prems(1) obtain s1 c1 results1 where o: "sync_one ctl cfg source dryRun fmt (s, c, results) = Some (s1, c1, results1)"
      and rest: "sync_formats ctl cfg source dryRun fmts (s1, c1, results1) = Some (s', c', results')"
      by (cases "sync_one ctl cfg source dryRun fmt (s, c, results)") auto
    from sync_one_results [OF o] obtain r where "results1 = map_put fmt r results" ..
    with Cons.IH [OF rest] Cons.prems(2) False show ?thesis by auto
  qed
qed simp

lemma Dataset_Validate_fields:
  "Dataset_Validate config = Inr cfg \<Longrightarrow> DcTargetFormats cfg = DcTargetFormats config \<and> DcSourceFormat cfg = DcSourceFormat config"
  by (auto simp: Dataset_Validate_def split: if_splits option.splits)

text \<open>
  Every requested target gets exactly one result, the source's own format none: a target that
  fails does not stop the others and is not lost.
\<close>

theorem Sync_results_complete:
  assumes "Sync ctl config dryRun s c = Some (s', c', Inr results)"
  shows "wf_map results \<and> fst ` set results = set (DcTargetFormats config) - {DcSourceFormat config}"
proof -
  from assms obtain cfg source where v: "Dataset_Validate config = Inr cfg"
    and r: "sync_formats ctl cfg source dryRun (DcTargetFormats cfg) (s, c, []) = Some (s', c', results)"
    by (auto simp: Sync_def split: sum.splits)
  from sync_formats_results [OF r] Dataset_Validate_fields [OF v] show ?thesis by simp
qed

section \<open>Full and incremental\<close>

lemma fallback_result:
  "FellBackToFullSync (applyFallbackReason r reason) = (FellBackToFullSync r \<or> reason \<noteq> '''')"
  "FallbackReason (applyFallbackReason r reason) = (if reason = '''' then FallbackReason r else reason)"
  "NoOp (applyFallbackReason r reason) = NoOp r" "StatusCode (applyFallbackReason r reason) = StatusCode r"
  "ResLastInstantSynced (applyFallbackReason r reason) = ResLastInstantSynced r"
  by (simp_all add: applyFallbackReason_def)

lemmas result_defs = NewSuccessSyncResult_def NewErrorSyncResult_def

lemma full_sync_result:
  assumes "full_sync source target fmt dur dry reason s = (s', r)"
  shows "(FellBackToFullSync r \<longleftrightarrow> reason \<noteq> '''') \<and> FallbackReason r = reason \<and> \<not> NoOp r"
  using assms
  by (auto simp: full_sync_def Let_def fallback_result result_defs split: sum.splits prod.splits option.splits)

lemma incremental_sync_result:
  assumes "incremental_sync source target fmt dur dry i s = (s', r)"
  shows "\<not> FellBackToFullSync r" "FallbackReason r = ''''"
    and "NoOp r \<longleftrightarrow> (\<exists>ic. csGetChangesSince source s i = Inr ic \<and> TableChanges ic = [])"
    and "NoOp r \<Longrightarrow> s' = s \<and> StatusCode r = SyncStatusSuccess \<and> ResLastInstantSynced r = i"
  using assms
  by (auto simp: incremental_sync_def Let_def result_defs split: sum.splits prod.splits option.splits if_splits)

text \<open>
  When a sync may continue an earlier one, stated from what the adapters answer: the target has an
  instant \<open>i\<close> of an earlier sync and no full sync is asked for. The source then vouches for the
  history since \<open>i\<close> or it does not.
\<close>

definition may_continue :: "sync_mode \<Rightarrow> 's conversion_target \<Rightarrow> 's \<Rightarrow> int \<Rightarrow> bool" where
  "may_continue mode target s i \<longleftrightarrow>
     (\<exists>m. ctGetTableMetadata target s = Inr (Some m) \<and> LastInstantSynced m = i) \<and> 0 < i \<and> mode \<noteq> SyncModeFull"

lemma may_continue_unique: "may_continue mode target s i \<Longrightarrow> may_continue mode target s j \<Longrightarrow> i = j"
  by (auto simp: may_continue_def)

lemma plan_resumes:
  assumes "sync_plan mode source s (case ctGetTableMetadata target s of Inl _ \<Rightarrow> None | Inr m \<Rightarrow> m) = Inr i"
  shows "may_continue mode target s i" "csIsIncrementalSyncSafeFrom source s i = Inr True"
  using assms by (auto simp: sync_plan_def may_continue_def split: option.splits sum.splits if_splits)

lemma plan_falls_back:
  assumes "sync_plan mode source s (case ctGetTableMetadata target s of Inl _ \<Rightarrow> None | Inr m \<Rightarrow> m) = Inl reason"
  shows "reason \<noteq> '''' \<longleftrightarrow> (\<exists>i. may_continue mode target s i)"
    and "may_continue mode target s i \<Longrightarrow> csIsIncrementalSyncSafeFrom source s i \<noteq> Inr True"
  using assms by (auto simp: sync_plan_def may_continue_def split: option.splits sum.splits if_splits)

text \<open>
  C34. A result says truthfully how the sync ran, in both directions. It reports a fallback, with a
  reason, exactly when the target has the instant of an earlier sync, no full sync was asked for and
  the source did not vouch for the history since that instant; it reports that nothing was to do
  exactly when the source did vouch for it and has no changes since, and then nothing was written
  and the instant reported is the one the target already had.
\<close>

theorem sync_result_truthful:
  assumes "syncToTarget mode source target fmt dur dry s = (s', r)"
  shows "(FellBackToFullSync r \<longleftrightarrow> FallbackReason r \<noteq> '''') \<and>
    (FellBackToFullSync r \<longleftrightarrow> (\<exists>i. may_continue mode target s i \<and> csIsIncrementalSyncSafeFrom source s i \<noteq> Inr True)) \<and>
    (NoOp r \<longleftrightarrow> (\<exists>i ic. may_continue mode target s i \<and> csIsIncrementalSyncSafeFrom source s i = Inr True \<and>
      csGetChangesSince source s i = Inr ic \<and> TableChanges ic = [])) \<and>
    (NoOp r \<longrightarrow> s' = s \<and> StatusCode r = SyncStatusSuccess \<and> \<not> FellBackToFullSync r \<and>
      may_continue mode target s (ResLastInstantSynced r) \<and>
      (\<exists>ic. csGetChangesSince source s (ResLastInstantSynced r) = Inr ic \<and> TableChanges ic = []))"
proof -
  define meta where "meta = (case ctGetTableMetadata target s of Inl _ \<Rightarrow> None | Inr m \<Rightarrow> m)"
  show ?thesis
  proof (cases "sync_plan mode source s meta")
    case (Inr i)
    with assms have f: "incremental_sync source target fmt dur dry i s = (s', r)" by (simp add: syncToTarget_def meta_def)
    note p = plan_resumes [OF Inr [unfolded meta_def]]
    have u: "j = i" if "may_continue mode target s j" for j using may_continue_unique [OF that p(1)] .
    from incremental_sync_result [OF f] p show ?thesis by (auto dest: u)
  next
    case (Inl reason)
    with assms have f: "full_sync source target fmt dur dry reason s = (s', r)" by (simp add: syncToTarget_def meta_def)
    from full_sync_result [OF f] plan_falls_back [OF Inl [unfolded meta_def]] show ?thesis by blast
  qed
qed

section \<open>The watermark\<close>

text \<open>
  What the controller relies on in a target: a commit that reports no error has moved the watermark,
  for the snapshots and changes the target can take.
\<close>

locale sync_target =
  fixes target :: "'s conversion_target"
    and snap_ok :: "'s \<Rightarrow> snapshot \<Rightarrow> bool"
    and changes_ok :: "'s \<Rightarrow> incremental_changes \<Rightarrow> bool"
  assumes snapshot_mark: "snap_ok s snap \<Longrightarrow> ctCommitSnapshot target s snap = (s', None) \<Longrightarrow>
      \<exists>m. ctGetTableMetadata target s' = Inr (Some m) \<and> LastInstantSynced m = LatestCommitTime (SnapTable snap)"
    and changes_mark: "changes_ok s ic \<Longrightarrow> TableChanges ic \<noteq> [] \<Longrightarrow> ctCommitChanges target s ic = (s', None) \<Longrightarrow>
      \<exists>m. ctGetTableMetadata target s' = Inr (Some m) \<and> LastInstantSynced m = CommitTime (last (TableChanges ic))"
begin

lemma full_sync_mark:
  assumes "full_sync source target fmt dur False reason s = (s', r)" "StatusCode r = SyncStatusSuccess"
    and "\<And>snap. csGetCurrentSnapshot source s = Inr snap \<Longrightarrow> snap_ok s snap"
  shows "\<exists>m. ctGetTableMetadata target s' = Inr (Some m) \<and> LastInstantSynced m = ResLastInstantSynced r"
proof (cases "csGetCurrentSnapshot source s")
  case (Inl e)
  with assms(1,2) show ?thesis by (auto simp: full_sync_def fallback_result result_defs)
next
  case (Inr snap)
  obtain s1 err where c: "ctCommitSnapshot target s snap = (s1, err)" by fastforce
  with assms(1,2) Inr have "err = None" "s' = s1" "ResLastInstantSynced r = LatestCommitTime (SnapTable snap)"
    by (auto simp: full_sync_def fallback_result result_defs split: option.splits)
  with snapshot_mark [OF assms(3) [OF Inr], of s1] c show ?thesis by simp
qed

lemma incremental_sync_mark:
  assumes "incremental_sync source target fmt dur False i s = (s', r)" "StatusCode r = SyncStatusSuccess"
    and "\<And>ic. csGetChangesSince source s i = Inr ic \<Longrightarrow> changes_ok s ic"
    and "\<exists>m. ctGetTableMetadata target s = Inr (Some m) \<and> LastInstantSynced m = i"
  shows "\<exists>m. ctGetTableMetadata target s' = Inr (Some m) \<and> LastInstantSynced m = ResLastInstantSynced r"
proof (cases "csGetChangesSince source s i")
  case (Inl e)
  with assms(1,2) show ?thesis by (auto simp: incremental_sync_def result_defs)
next
  case (Inr ic)
  show ?thesis
  proof (cases "TableChanges ic = []")
    case True
    with assms(1,4) Inr show ?thesis by (auto simp: incremental_sync_def result_defs)
  next
    case False
    obtain s1 err where c: "ctCommitChanges target s ic = (s1, err)" by fastforce
    with assms(1,2) Inr False have "err = None" "s' = s1" "ResLastInstantSynced r = CommitTime (last (TableChanges ic))"
      by (auto simp: incremental_sync_def result_defs split: option.splits)
    with changes_mark [OF assms(3) [OF Inr] False, of s1] c show ?thesis by simp
  qed
qed

lemma sync_watermark:
  assumes "syncToTarget mode source target fmt dur False s = (s', r)" "StatusCode r = SyncStatusSuccess"
    and "\<And>snap. csGetCurrentSnapshot source s = Inr snap \<Longrightarrow> snap_ok s snap"
    and "\<And>i ic. csGetChangesSince source s i = Inr ic \<Longrightarrow> changes_ok s ic"
  shows "\<exists>m. ctGetTableMetadata target s' = Inr (Some m) \<and> LastInstantSynced m = ResLastInstantSynced r"
proof -
  define meta where "meta = (case ctGetTableMetadata target s of Inl _ \<Rightarrow> None | Inr m \<Rightarrow> m)"
  show ?thesis
  proof (cases "sync_plan mode source s meta")
    case (Inl reason)
    with assms(1) have "full_sync source target fmt dur False reason s = (s', r)" by (simp add: syncToTarget_def meta_def)
    from full_sync_mark [OF this assms(2,3)] show ?thesis by blast
  next
    case (Inr i)
    with assms(1) have "incremental_sync source target fmt dur False i s = (s', r)" by (simp add: syncToTarget_def meta_def)
    moreover have "\<exists>m. ctGetTableMetadata target s = Inr (Some m) \<and> LastInstantSynced m = i"
      using Inr by (auto simp: sync_plan_def meta_def split: option.splits sum.splits if_splits)
    ultimately show ?thesis using incremental_sync_mark assms(2,4) by blast
  qed
qed

text \<open>So the next sync that may run incrementally resumes exactly at the reported instant.\<close>

lemma next_sync_resumes:
  assumes "syncToTarget mode source target fmt dur False s = (s', r)" "StatusCode r = SyncStatusSuccess"
    and "\<And>snap. csGetCurrentSnapshot source s = Inr snap \<Longrightarrow> snap_ok s snap"
    and "\<And>i ic. csGetChangesSince source s i = Inr ic \<Longrightarrow> changes_ok s ic"
    and "0 < ResLastInstantSynced r" "mode' \<noteq> SyncModeFull" "csIsIncrementalSyncSafeFrom source' s' (ResLastInstantSynced r) = Inr True"
  shows "syncToTarget mode' source' target fmt dur' dry s' =
    incremental_sync source' target fmt dur' dry (ResLastInstantSynced r) s'"
proof -
  obtain m where "ctGetTableMetadata target s' = Inr (Some m)" "LastInstantSynced m = ResLastInstantSynced r"
    using sync_watermark [OF assms(1,2)] assms(3,4) by blast
  with assms(5-7) show ?thesis by (simp add: syncToTarget_def sync_plan_def)
qed

end

end
