(* ===== verification/Json_Struct.thy ===== *)
theory Json_Struct
  imports Json_Codec
begin

text \<open>
  Go structs as JSON documents: what a field tag with \<^verbatim>\<open>omitempty\<close> writes, how a struct, a pointer
  and a map are read, and how the two cancel.
\<close>

type_synonym members = "(string \<times> json) list"

definition jint :: "int \<Rightarrow> json" where
  "jint i = JNum (formatInt i)"

definition omit_str :: "string \<Rightarrow> string \<Rightarrow> members" where
  "omit_str k s = (if s = '''' then [] else [(k, JStr s)])"

definition omit_int :: "string \<Rightarrow> int \<Rightarrow> members" where
  "omit_int k i = (if i = 0 then [] else [(k, jint i)])"

definition omit_bool :: "string \<Rightarrow> bool \<Rightarrow> members" where
  "omit_bool k b = (if b then [(k, JBool True)] else [])"

definition omit_nil :: "string \<Rightarrow> ('a \<Rightarrow> json) \<Rightarrow> 'a option \<Rightarrow> members" where
  "omit_nil k f p = (case p of None \<Rightarrow> [] | Some x \<Rightarrow> [(k, f x)])"

definition omit_map :: "string \<Rightarrow> ('a \<Rightarrow> json) \<Rightarrow> (string, 'a) gomap \<Rightarrow> members" where
  "omit_map k f m = (if m = [] then [] else [(k, enc_map f m)])"

fun enc_pstring :: "string option \<Rightarrow> json" where
  "enc_pstring None = JNull"
| "enc_pstring (Some s) = JStr s"

text \<open>The members of a document read into a struct, and a struct behind a pointer.\<close>

fun struct_members :: "json \<Rightarrow> members option" where
  "struct_members (JObj kvs) = Some kvs"
| "struct_members JNull = Some []"
| "struct_members _ = None"

fun dec_ptr :: "(json \<Rightarrow> 'a option) \<Rightarrow> json option \<Rightarrow> 'a option option" where
  "dec_ptr f None = Some None"
| "dec_ptr f (Some JNull) = Some None"
| "dec_ptr f (Some j) = map_option Some (f j)"

fun dec_pstring :: "json \<Rightarrow> string option option" where
  "dec_pstring JNull = Some None"
| "dec_pstring (JStr s) = Some (Some s)"
| "dec_pstring _ = None"

abbreviation dec_smap :: "json option \<Rightarrow> (string, string) gomap option" where
  "dec_smap \<equiv> dec_map (\<lambda>j. dec_string (Some j))"

abbreviation dec_pmap :: "json option \<Rightarrow> (string, string option) gomap option" where
  "dec_pmap \<equiv> dec_map dec_pstring"

abbreviation dec_strings :: "json option \<Rightarrow> string list option" where
  "dec_strings \<equiv> dec_list (\<lambda>j. dec_string (Some j))"

lemma jfield_omit [simp]:
  "jfield k (omit_str k' s) = (if s \<noteq> '''' \<and> equalFold k' k then Some (JStr s) else None)"
  "jfield k (omit_int k' i) = (if i \<noteq> 0 \<and> equalFold k' k then Some (jint i) else None)"
  "jfield k (omit_bool k' b) = (if b \<and> equalFold k' k then Some (JBool True) else None)"
  "jfield k (omit_nil k' f p) = (if equalFold k' k then map_option f p else None)"
  "jfield k (omit_map k' g m) = (if m \<noteq> [] \<and> equalFold k' k then Some (enc_map g m) else None)"
  by (simp_all add: omit_str_def omit_int_def omit_bool_def omit_nil_def omit_map_def jfield_Cons
      split: option.splits)

lemma dec_int_jint [simp]: "in_int64 i \<Longrightarrow> dec_int (Some (jint i)) = Some i"
  by (simp add: jint_def)

lemma dec_int_ptr_jint [simp]: "in_int64 i \<Longrightarrow> dec_int_ptr (Some (jint i)) = Some (Some i)"
  by (simp add: jint_def)

lemma dec_enc_pstring [simp]: "dec_pstring (enc_pstring p) = Some p"
  by (cases p) auto

lemma dec_enc_maps [simp]:
  "wf_map m \<Longrightarrow> dec_smap (Some (enc_map JStr m)) = Some (sort_key fst m)"
  "wf_map pm \<Longrightarrow> dec_pmap (Some (enc_map enc_pstring pm)) = Some (sort_key fst pm)"
  by (rule dec_enc_map; simp)+

lemma dec_strings_map [simp]: "opt_all (\<lambda>j. dec_string (Some j)) (map JStr xs) = Some xs"
  by (simp add: opt_all_map_id)

lemma enc_map_cases: "\<exists>kvs. enc_map f m = JObj kvs"
  by (simp add: enc_map_def)

lemma dec_ptr_obj [simp]: "dec_ptr f (Some (JObj kvs)) = map_option Some (f (JObj kvs))"
  by simp

lemma dec_ptr_enc_map [simp]: "dec_ptr f (Some (enc_map g m)) = map_option Some (f (enc_map g m))"
  by (simp add: enc_map_def)

text \<open>Key comparison on the literal keys of the actions.\<close>

lemmas key_simps = jfield_append jfield_Cons equalFold_def toLower_def lower_char_def

lemma wf_json_enc_map [simp]: "wf_json (enc_map f m) \<longleftrightarrow> (\<forall>kv \<in> set m. wf_json (f (snd kv)))"
  by (auto simp: enc_map_def list_all_iff)

lemma wf_json_pstring [simp]: "wf_json (enc_pstring p)"
  by (cases p) auto

lemma wf_json_jint [simp]: "wf_json (jint i)"
  by (simp add: jint_def)

lemma wf_json_omit [simp]:
  "list_all (\<lambda>kv. wf_json (snd kv)) (omit_str k s)" "list_all (\<lambda>kv. wf_json (snd kv)) (omit_int k i)"
  "list_all (\<lambda>kv. wf_json (snd kv)) (omit_bool k b)"
  "list_all (\<lambda>kv. wf_json (snd kv)) (omit_nil k f p) \<longleftrightarrow> pred_option (\<lambda>x. wf_json (f x)) p"
  "list_all (\<lambda>kv. wf_json (snd kv)) (omit_map k g m) \<longleftrightarrow> (\<forall>kv \<in> set m. wf_json (g (snd kv)))"
  by (simp_all add: omit_str_def omit_int_def omit_bool_def omit_nil_def omit_map_def split: option.splits)

end
