(* ===== verification/Delta_Actions.thy ===== *)
theory Delta_Actions
  imports Model_Core Json_Struct
begin

text \<open>
  \<^verbatim>\<open>pkg/formats/delta/actions.go\<close>: the actions of a Delta log as records, their JSON lines written
  and read, and the statistics blob of an add action. \<^verbatim>\<open>omitempty\<close> is the helper functions
  \<open>omit_*\<close>; a Go map written to JSON has its keys sorted, which the \<open>canon_*\<close> functions say. The
  lemmas end in the round trip of a line.
\<close>

section \<open>The actions\<close>

record format_provider =
  fp_Provider :: string
  fp_Options :: "(string, string) gomap"

definition NewParquetFormat :: format_provider where
  "NewParquetFormat = \<lparr>fp_Provider = ''parquet'', fp_Options = []\<rparr>"

record protocol_action =
  MinReaderVersion :: int
  MinWriterVersion :: int

text \<open>\<^verbatim>\<open>Configuration\<close> is tested for nil, so it is an option.\<close>

record metadata_action =
  md_ID :: string
  md_Name :: string
  md_Description :: string
  md_Format :: format_provider
  md_SchemaString :: string
  md_PartitionColumns :: "string list"
  md_Configuration :: "(string, string) gomap option"
  md_CreatedTime :: int

record dv_info =
  dv_StorageType :: string
  dv_PathOrInlineDv :: string
  dv_Offset :: "int option"
  dv_SizeInBytes :: int
  dv_Cardinality :: int

record add_action =
  add_Path :: string
  add_PartitionValues :: "(string, string option) gomap"
  add_Size :: int
  add_ModificationTime :: int
  add_DataChange :: bool
  add_Stats :: string
  add_Tags :: "(string, string) gomap"
  add_DeletionVector :: "dv_info option"

record remove_action =
  rm_Path :: string
  rm_DeletionTimestamp :: int
  rm_DataChange :: bool
  rm_ExtendedFileMetadata :: bool
  rm_PartitionValues :: "(string, string option) gomap"
  rm_Size :: "int option"

record commit_info_action =
  ci_Timestamp :: int
  ci_Operation :: string
  ci_OperationParameters :: "(string, string) gomap"
  ci_EngineInfo :: string
  ci_AppID :: string

record single_action =
  act_Protocol :: "protocol_action option"
  act_MetaData :: "metadata_action option"
  act_Add :: "add_action option"
  act_Remove :: "remove_action option"
  act_CommitInfo :: "commit_info_action option"

definition emptyAction :: single_action where
  "emptyAction = \<lparr>act_Protocol = None, act_MetaData = None, act_Add = None, act_Remove = None, act_CommitInfo = None\<rparr>"

section \<open>Marshalling\<close>

definition enc_format :: "format_provider \<Rightarrow> json" where
  "enc_format f = JObj [(''provider'', JStr (fp_Provider f)), (''options'', enc_map JStr (fp_Options f))]"

definition enc_protocol :: "protocol_action \<Rightarrow> json" where
  "enc_protocol p =
     JObj [(''minReaderVersion'', jint (MinReaderVersion p)), (''minWriterVersion'', jint (MinWriterVersion p))]"

definition enc_metadata :: "metadata_action \<Rightarrow> json" where
  "enc_metadata m =
     JObj ([(''id'', JStr (md_ID m))] @ omit_str ''name'' (md_Name m) @
       omit_str ''description'' (md_Description m) @
       [(''format'', enc_format (md_Format m)), (''schemaString'', JStr (md_SchemaString m)),
        (''partitionColumns'', JArr (map JStr (md_PartitionColumns m)))] @
       (case md_Configuration m of None \<Rightarrow> [] | Some c \<Rightarrow> omit_map ''configuration'' JStr c) @
       omit_int ''createdTime'' (md_CreatedTime m))"

definition enc_dv :: "dv_info \<Rightarrow> json" where
  "enc_dv d =
     JObj ([(''storageType'', JStr (dv_StorageType d)), (''pathOrInlineDv'', JStr (dv_PathOrInlineDv d))] @
       omit_nil ''offset'' jint (dv_Offset d) @
       [(''sizeInBytes'', jint (dv_SizeInBytes d)), (''cardinality'', jint (dv_Cardinality d))])"

definition enc_add :: "add_action \<Rightarrow> json" where
  "enc_add a =
     JObj ([(''path'', JStr (add_Path a)), (''partitionValues'', enc_map enc_pstring (add_PartitionValues a)),
        (''size'', jint (add_Size a)), (''modificationTime'', jint (add_ModificationTime a)),
        (''dataChange'', JBool (add_DataChange a))] @
       omit_str ''stats'' (add_Stats a) @ omit_map ''tags'' JStr (add_Tags a) @
       omit_nil ''deletionVector'' enc_dv (add_DeletionVector a))"

definition enc_remove :: "remove_action \<Rightarrow> json" where
  "enc_remove r =
     JObj ([(''path'', JStr (rm_Path r))] @ omit_int ''deletionTimestamp'' (rm_DeletionTimestamp r) @
       [(''dataChange'', JBool (rm_DataChange r))] @
       omit_bool ''extendedFileMetadata'' (rm_ExtendedFileMetadata r) @
       omit_map ''partitionValues'' enc_pstring (rm_PartitionValues r) @
       omit_nil ''size'' jint (rm_Size r))"

definition enc_commit_info :: "commit_info_action \<Rightarrow> json" where
  "enc_commit_info c =
     JObj ([(''timestamp'', jint (ci_Timestamp c)), (''operation'', JStr (ci_Operation c))] @
       omit_map ''operationParameters'' JStr (ci_OperationParameters c) @
       omit_str ''engineInfo'' (ci_EngineInfo c) @ omit_str ''appId'' (ci_AppID c))"

definition enc_action :: "single_action \<Rightarrow> json" where
  "enc_action a =
     JObj (omit_nil ''protocol'' enc_protocol (act_Protocol a) @ omit_nil ''metaData'' enc_metadata (act_MetaData a) @
       omit_nil ''add'' enc_add (act_Add a) @ omit_nil ''remove'' enc_remove (act_Remove a) @
       omit_nil ''commitInfo'' enc_commit_info (act_CommitInfo a))"

section \<open>Unmarshalling\<close>

definition dec_format :: "json option \<Rightarrow> format_provider option" where
  "dec_format j =
     Option.bind (case j of None \<Rightarrow> Some [] | Some d \<Rightarrow> struct_members d) (\<lambda>kvs.
     Option.bind (dec_string (jfield ''provider'' kvs)) (\<lambda>p.
     Option.bind (dec_smap (jfield ''options'' kvs)) (\<lambda>os.
       Some \<lparr>fp_Provider = p, fp_Options = os\<rparr>)))"

definition dec_protocol :: "json \<Rightarrow> protocol_action option" where
  "dec_protocol j =
     Option.bind (struct_members j) (\<lambda>kvs.
     Option.bind (dec_int (jfield ''minReaderVersion'' kvs)) (\<lambda>r.
     Option.bind (dec_int (jfield ''minWriterVersion'' kvs)) (\<lambda>w.
       Some \<lparr>MinReaderVersion = r, MinWriterVersion = w\<rparr>)))"

definition dec_metadata :: "json \<Rightarrow> metadata_action option" where
  "dec_metadata j =
     Option.bind (struct_members j) (\<lambda>kvs.
     Option.bind (dec_string (jfield ''id'' kvs)) (\<lambda>i.
     Option.bind (dec_string (jfield ''name'' kvs)) (\<lambda>n.
     Option.bind (dec_string (jfield ''description'' kvs)) (\<lambda>d.
     Option.bind (dec_format (jfield ''format'' kvs)) (\<lambda>f.
     Option.bind (dec_string (jfield ''schemaString'' kvs)) (\<lambda>s.
     Option.bind (dec_strings (jfield ''partitionColumns'' kvs)) (\<lambda>pc.
     Option.bind (dec_ptr (\<lambda>c. dec_smap (Some c)) (jfield ''configuration'' kvs)) (\<lambda>c.
     Option.bind (dec_int (jfield ''createdTime'' kvs)) (\<lambda>t.
       Some \<lparr>md_ID = i, md_Name = n, md_Description = d, md_Format = f, md_SchemaString = s,
             md_PartitionColumns = pc, md_Configuration = c, md_CreatedTime = t\<rparr>)))))))))"

definition dec_dv :: "json \<Rightarrow> dv_info option" where
  "dec_dv j =
     Option.bind (struct_members j) (\<lambda>kvs.
     Option.bind (dec_string (jfield ''storageType'' kvs)) (\<lambda>st.
     Option.bind (dec_string (jfield ''pathOrInlineDv'' kvs)) (\<lambda>p.
     Option.bind (dec_int_ptr (jfield ''offset'' kvs)) (\<lambda>off.
     Option.bind (dec_int (jfield ''sizeInBytes'' kvs)) (\<lambda>sz.
     Option.bind (dec_int (jfield ''cardinality'' kvs)) (\<lambda>c.
       Some \<lparr>dv_StorageType = st, dv_PathOrInlineDv = p, dv_Offset = off, dv_SizeInBytes = sz,
             dv_Cardinality = c\<rparr>))))))"

definition dec_add :: "json \<Rightarrow> add_action option" where
  "dec_add j =
     Option.bind (struct_members j) (\<lambda>kvs.
     Option.bind (dec_string (jfield ''path'' kvs)) (\<lambda>p.
     Option.bind (dec_pmap (jfield ''partitionValues'' kvs)) (\<lambda>pv.
     Option.bind (dec_int (jfield ''size'' kvs)) (\<lambda>sz.
     Option.bind (dec_int (jfield ''modificationTime'' kvs)) (\<lambda>mt.
     Option.bind (dec_bool (jfield ''dataChange'' kvs)) (\<lambda>dc.
     Option.bind (dec_string (jfield ''stats'' kvs)) (\<lambda>st.
     Option.bind (dec_smap (jfield ''tags'' kvs)) (\<lambda>tg.
     Option.bind (dec_ptr dec_dv (jfield ''deletionVector'' kvs)) (\<lambda>dv.
       Some \<lparr>add_Path = p, add_PartitionValues = pv, add_Size = sz, add_ModificationTime = mt,
             add_DataChange = dc, add_Stats = st, add_Tags = tg, add_DeletionVector = dv\<rparr>)))))))))"

definition dec_remove :: "json \<Rightarrow> remove_action option" where
  "dec_remove j =
     Option.bind (struct_members j) (\<lambda>kvs.
     Option.bind (dec_string (jfield ''path'' kvs)) (\<lambda>p.
     Option.bind (dec_int (jfield ''deletionTimestamp'' kvs)) (\<lambda>t.
     Option.bind (dec_bool (jfield ''dataChange'' kvs)) (\<lambda>dc.
     Option.bind (dec_bool (jfield ''extendedFileMetadata'' kvs)) (\<lambda>x.
     Option.bind (dec_pmap (jfield ''partitionValues'' kvs)) (\<lambda>pv.
     Option.bind (dec_int_ptr (jfield ''size'' kvs)) (\<lambda>sz.
       Some \<lparr>rm_Path = p, rm_DeletionTimestamp = t, rm_DataChange = dc, rm_ExtendedFileMetadata = x,
             rm_PartitionValues = pv, rm_Size = sz\<rparr>)))))))"

definition dec_commit_info :: "json \<Rightarrow> commit_info_action option" where
  "dec_commit_info j =
     Option.bind (struct_members j) (\<lambda>kvs.
     Option.bind (dec_int (jfield ''timestamp'' kvs)) (\<lambda>t.
     Option.bind (dec_string (jfield ''operation'' kvs)) (\<lambda>oper.
     Option.bind (dec_smap (jfield ''operationParameters'' kvs)) (\<lambda>ps.
     Option.bind (dec_string (jfield ''engineInfo'' kvs)) (\<lambda>e.
     Option.bind (dec_string (jfield ''appId'' kvs)) (\<lambda>a.
       Some \<lparr>ci_Timestamp = t, ci_Operation = oper, ci_OperationParameters = ps, ci_EngineInfo = e,
             ci_AppID = a\<rparr>))))))"

definition dec_action :: "json \<Rightarrow> single_action option" where
  "dec_action j =
     Option.bind (struct_members j) (\<lambda>kvs.
     Option.bind (dec_ptr dec_protocol (jfield ''protocol'' kvs)) (\<lambda>p.
     Option.bind (dec_ptr dec_metadata (jfield ''metaData'' kvs)) (\<lambda>m.
     Option.bind (dec_ptr dec_add (jfield ''add'' kvs)) (\<lambda>a.
     Option.bind (dec_ptr dec_remove (jfield ''remove'' kvs)) (\<lambda>r.
     Option.bind (dec_ptr dec_commit_info (jfield ''commitInfo'' kvs)) (\<lambda>c.
       Some \<lparr>act_Protocol = p, act_MetaData = m, act_Add = a, act_Remove = r, act_CommitInfo = c\<rparr>))))))"

section \<open>Round trip\<close>

lemma dec_ptr_enc [simp]:
  "dec_ptr f (Some (enc_dv d)) = map_option Some (f (enc_dv d))"
  "dec_ptr f (Some (enc_add a)) = map_option Some (f (enc_add a))"
  "dec_ptr f (Some (enc_remove r)) = map_option Some (f (enc_remove r))"
  "dec_ptr f (Some (enc_metadata m)) = map_option Some (f (enc_metadata m))"
  "dec_ptr f (Some (enc_protocol p)) = map_option Some (f (enc_protocol p))"
  "dec_ptr f (Some (enc_commit_info c)) = map_option Some (f (enc_commit_info c))"
  by (simp_all add: enc_dv_def enc_add_def enc_remove_def enc_metadata_def enc_protocol_def enc_commit_info_def)

definition canon_add :: "add_action \<Rightarrow> add_action" where
  "canon_add a = a\<lparr>add_PartitionValues := sort_key fst (add_PartitionValues a), add_Tags := sort_key fst (add_Tags a)\<rparr>"

definition canon_remove :: "remove_action \<Rightarrow> remove_action" where
  "canon_remove r = r\<lparr>rm_PartitionValues := sort_key fst (rm_PartitionValues r)\<rparr>"

definition canon_commit_info :: "commit_info_action \<Rightarrow> commit_info_action" where
  "canon_commit_info c = c\<lparr>ci_OperationParameters := sort_key fst (ci_OperationParameters c)\<rparr>"

text \<open>An empty configuration is not written, so it is read back as nil.\<close>

definition canon_metadata :: "metadata_action \<Rightarrow> metadata_action" where
  "canon_metadata m =
     m\<lparr>md_Format := (md_Format m)\<lparr>fp_Options := sort_key fst (fp_Options (md_Format m))\<rparr>,
       md_Configuration := (case md_Configuration m of None \<Rightarrow> None
         | Some c \<Rightarrow> if c = [] then None else Some (sort_key fst c))\<rparr>"

definition canon_action :: "single_action \<Rightarrow> single_action" where
  "canon_action a =
     a\<lparr>act_MetaData := map_option canon_metadata (act_MetaData a), act_Add := map_option canon_add (act_Add a),
       act_Remove := map_option canon_remove (act_Remove a),
       act_CommitInfo := map_option canon_commit_info (act_CommitInfo a)\<rparr>"

definition wf_dv :: "dv_info \<Rightarrow> bool" where
  "wf_dv d \<longleftrightarrow> pred_option in_int64 (dv_Offset d) \<and> in_int64 (dv_SizeInBytes d) \<and> in_int64 (dv_Cardinality d)"

definition wf_add :: "add_action \<Rightarrow> bool" where
  "wf_add a \<longleftrightarrow> wf_map (add_PartitionValues a) \<and> wf_map (add_Tags a) \<and> in_int64 (add_Size a) \<and>
     in_int64 (add_ModificationTime a) \<and> pred_option wf_dv (add_DeletionVector a)"

definition wf_remove :: "remove_action \<Rightarrow> bool" where
  "wf_remove r \<longleftrightarrow> wf_map (rm_PartitionValues r) \<and> in_int64 (rm_DeletionTimestamp r) \<and>
     pred_option in_int64 (rm_Size r)"

definition wf_metadata :: "metadata_action \<Rightarrow> bool" where
  "wf_metadata m \<longleftrightarrow> wf_map (fp_Options (md_Format m)) \<and> pred_option wf_map (md_Configuration m) \<and>
     in_int64 (md_CreatedTime m)"

definition wf_commit_info :: "commit_info_action \<Rightarrow> bool" where
  "wf_commit_info c \<longleftrightarrow> in_int64 (ci_Timestamp c) \<and> wf_map (ci_OperationParameters c)"

definition wf_protocol :: "protocol_action \<Rightarrow> bool" where
  "wf_protocol p \<longleftrightarrow> in_int64 (MinReaderVersion p) \<and> in_int64 (MinWriterVersion p)"

definition wf_action :: "single_action \<Rightarrow> bool" where
  "wf_action a \<longleftrightarrow> pred_option wf_protocol (act_Protocol a) \<and> pred_option wf_metadata (act_MetaData a) \<and>
     pred_option wf_add (act_Add a) \<and> pred_option wf_remove (act_Remove a) \<and>
     pred_option wf_commit_info (act_CommitInfo a)"

lemma dec_enc_dv [simp]: "wf_dv d \<Longrightarrow> dec_dv (enc_dv d) = Some d"
  by (cases "dv_Offset d") (simp_all add: wf_dv_def dec_dv_def enc_dv_def key_simps)

lemma dec_enc_protocol [simp]: "wf_protocol p \<Longrightarrow> dec_protocol (enc_protocol p) = Some p"
  by (simp add: wf_protocol_def dec_protocol_def enc_protocol_def key_simps)

lemma dec_enc_commit_info [simp]: "wf_commit_info c \<Longrightarrow> dec_commit_info (enc_commit_info c) = Some (canon_commit_info c)"
  by (simp add: wf_commit_info_def dec_commit_info_def enc_commit_info_def canon_commit_info_def key_simps)

lemma dec_enc_remove [simp]: "wf_remove r \<Longrightarrow> dec_remove (enc_remove r) = Some (canon_remove r)"
  by (cases "rm_Size r")
    (simp_all add: wf_remove_def dec_remove_def enc_remove_def canon_remove_def key_simps)

lemma dec_enc_add [simp]: "wf_add a \<Longrightarrow> dec_add (enc_add a) = Some (canon_add a)"
  by (cases "add_DeletionVector a")
    (simp_all add: wf_add_def dec_add_def enc_add_def canon_add_def key_simps)

lemma dec_enc_format [simp]:
  "wf_map (fp_Options f) \<Longrightarrow>
    dec_format (Some (enc_format f)) = Some (f\<lparr>fp_Options := sort_key fst (fp_Options f)\<rparr>)"
  by (simp add: dec_format_def enc_format_def key_simps)

lemma dec_enc_metadata [simp]: "wf_metadata m \<Longrightarrow> dec_metadata (enc_metadata m) = Some (canon_metadata m)"
  by (cases "md_Configuration m")
    (simp_all add: wf_metadata_def dec_metadata_def enc_metadata_def canon_metadata_def key_simps)

lemma dec_enc_action: "wf_action a \<Longrightarrow> dec_action (enc_action a) = Some (canon_action a)"
  by (cases "act_Protocol a"; cases "act_MetaData a"; cases "act_Add a"; cases "act_Remove a"; cases "act_CommitInfo a")
    (simp_all add: wf_action_def dec_action_def enc_action_def canon_action_def key_simps)

lemma wf_json_action [simp]: "wf_json (enc_action a)"
proof -
  have d: "wf_json (enc_dv d)" for d
    by (simp add: enc_dv_def pred_option_def)
  have "wf_json (enc_add x)" for x
    by (simp add: enc_add_def pred_option_def d)
  moreover have "wf_json (enc_remove x)" for x
    by (simp add: enc_remove_def pred_option_def)
  moreover have "wf_json (enc_metadata x)" for x
    by (simp add: enc_metadata_def enc_format_def list.pred_map split: option.splits) (simp add: list.pred_True comp_def)
  moreover have "wf_json (enc_commit_info x)" for x
    by (simp add: enc_commit_info_def)
  moreover have "wf_json (enc_protocol x)" for x by (simp add: enc_protocol_def)
  ultimately show ?thesis
    by (simp add: enc_action_def pred_option_def)
qed

text \<open>A line of the log: \<^verbatim>\<open>json.Marshal(action)\<close> and \<^verbatim>\<open>json.Unmarshal(line, &action)\<close>.\<close>

definition marshal_action :: "single_action \<Rightarrow> string" where
  "marshal_action a = json_print (enc_action a)"

definition unmarshal_action :: "string \<Rightarrow> single_action option" where
  "unmarshal_action line = Option.bind (json_unmarshal line) dec_action"

lemma unmarshal_marshal_action:
  "wf_action a \<Longrightarrow> unmarshal_action (marshal_action a) = Some (canon_action a)"
  by (simp add: unmarshal_action_def marshal_action_def dec_enc_action)

end
