(* ===== verification/Delta_Stats.thy ===== *)
theory Delta_Stats
  imports Delta_Actions
begin

text \<open>
  The statistics of an add action: the JSON blob polytable writes (\<^verbatim>\<open>StatsJSON\<close>), the lenient
  one it reads (\<^verbatim>\<open>statsBlob\<close>), the flattening of nested objects to dotted paths and the column
  statistics built from them. A JSON number decoded into \<^verbatim>\<open>any\<close> is a binary64 number, kept here
  as its literal.
\<close>

section \<open>Values in JSON\<close>

fun any_of_json :: "json \<Rightarrow> any" where
  "any_of_json JNull = ANil"
| "any_of_json (JBool b) = ABool b"
| "any_of_json (JNum l) = AFloat64 (FFin l)"
| "any_of_json (JStr s) = AStr s"
| "any_of_json (JArr xs) = AList (map any_of_json xs)"
| "any_of_json (JObj kvs) =
     AMap (foldl (\<lambda>m kv. map_put (fst kv) (snd kv) m) [] (map (\<lambda>kv. (fst kv, any_of_json (snd kv))) kvs))"

text \<open>\<^verbatim>\<open>encoding/base64.StdEncoding\<close>, which \<^verbatim>\<open>json.Marshal\<close> uses for byte slices.\<close>

definition base64_alphabet :: string where
  "base64_alphabet = ''ABCDEFGHIJKLMNOPQRSTUVWXYZabcdefghijklmnopqrstuvwxyz0123456789+/''"

definition b64 :: "nat \<Rightarrow> char" where
  "b64 n = base64_alphabet ! n"

fun base64 :: "string \<Rightarrow> string" where
  "base64 [] = []"
| "base64 [a] = (let x = of_char a in [b64 (x div 4), b64 (x mod 4 * 16), CHR ''='', CHR ''=''])"
| "base64 [a, b] =
     (let x = of_char a; y = of_char b in
      [b64 (x div 4), b64 (x mod 4 * 16 + y div 16), b64 (y mod 16 * 4), CHR ''=''])"
| "base64 (a # b # c # s) =
     (let x = of_char a; y = of_char b; z = of_char c in
      [b64 (x div 4), b64 (x mod 4 * 16 + y div 16), b64 (y mod 16 * 4 + z div 64), b64 (z mod 64)] @ base64 s)"

text \<open>\<^verbatim>\<open>json.Marshal\<close> of a value: \<open>None\<close> for the floats JSON has no literal for.\<close>

fun enc_float :: "gfloat \<Rightarrow> json option" where
  "enc_float (FFin l) = Some (JNum l)"
| "enc_float _ = None"

fun enc_any :: "any \<Rightarrow> json option" where
  "enc_any ANil = Some JNull"
| "enc_any (ABool b) = Some (JBool b)"
| "enc_any (AInt i) = Some (jint i)"
| "enc_any (AInt32 i) = Some (jint i)"
| "enc_any (AInt64 i) = Some (jint i)"
| "enc_any (AFloat32 f) = enc_float f"
| "enc_any (AFloat64 f) = enc_float f"
| "enc_any (AStr s) = Some (JStr s)"
| "enc_any (ABytes s) = Some (JStr (base64 s))"
| "enc_any (AMeta v) = Some (JStr (metadata_value_text v))"
| "enc_any (ABig i) = Some (jint i)"
| "enc_any (AMap m) =
     map_option (\<lambda>kvs. JObj (sort_key fst kvs))
       (opt_all (\<lambda>kv. map_option (Pair (fst kv)) (enc_any (snd kv))) m)"
| "enc_any (AList xs) = map_option JArr (opt_all enc_any xs)"

section \<open>Writing the blob\<close>

record stats_json =
  st_NumRecords :: int
  st_MinValues :: "(string, any) gomap"
  st_MaxValues :: "(string, any) gomap"
  st_NullCount :: "(string, int) gomap"

definition finiteBound :: "any \<Rightarrow> any option" where
  "finiteBound v =
     (case v of
        ANil \<Rightarrow> None
      | AFloat32 f \<Rightarrow> (case f of FFin _ \<Rightarrow> Some v | _ \<Rightarrow> None)
      | AFloat64 f \<Rightarrow> (case f of FFin _ \<Rightarrow> Some v | _ \<Rightarrow> None)
      | _ \<Rightarrow> Some v)"

definition put_bound :: "string \<Rightarrow> any \<Rightarrow> (string, any) gomap \<Rightarrow> (string, any) gomap" where
  "put_bound k v m = (case finiteBound v of None \<Rightarrow> m | Some x \<Rightarrow> map_put k x m)"

text \<open>One turn of the loop over the column statistics of a file.\<close>

definition stats_step :: "stats_json \<Rightarrow> column_stat \<Rightarrow> stats_json" where
  "stats_step st cs =
     (case StatField cs of
        None \<Rightarrow> st
      | Some f \<Rightarrow>
          (let st1 = (case StatRange cs of
                        None \<Rightarrow> st
                      | Some r \<Rightarrow> st\<lparr>st_MinValues := put_bound (FieldName f) (MinValue r) (st_MinValues st),
                                    st_MaxValues := put_bound (FieldName f) (MaxValue r) (st_MaxValues st)\<rparr>)
           in st1\<lparr>st_NullCount := map_put (FieldName f) (NumNulls cs) (st_NullCount st1)\<rparr>))"

definition stats_of_file :: "data_file \<Rightarrow> stats_json" where
  "stats_of_file df =
     foldl stats_step
       \<lparr>st_NumRecords = RecordCount df, st_MinValues = [], st_MaxValues = [], st_NullCount = []\<rparr>
       (ColumnStats df)"

definition enc_any_map :: "(string, any) gomap \<Rightarrow> json option" where
  "enc_any_map m = enc_any (AMap m)"

definition omit_any_map :: "string \<Rightarrow> (string, any) gomap \<Rightarrow> members option" where
  "omit_any_map k m = (if m = [] then Some [] else map_option (\<lambda>j. [(k, j)]) (enc_any_map m))"

text \<open>\<^verbatim>\<open>json.Marshal(stats)\<close> with its error dropped: the text is empty when a value cannot be written.\<close>

definition marshal_stats :: "stats_json \<Rightarrow> string" where
  "marshal_stats st =
     (case (omit_any_map ''minValues'' (st_MinValues st), omit_any_map ''maxValues'' (st_MaxValues st)) of
        (Some mins, Some maxs) \<Rightarrow>
          json_print (JObj ([(''numRecords'', jint (st_NumRecords st))] @ mins @ maxs @
            omit_map ''nullCount'' jint (st_NullCount st)))
      | _ \<Rightarrow> '''')"

section \<open>Reading it\<close>

record stats_blob =
  sb_NumRecords :: int
  sb_MinValues :: "(string, any) gomap"
  sb_MaxValues :: "(string, any) gomap"
  sb_NullCount :: "(string, any) gomap"

definition dec_stats :: "json \<Rightarrow> stats_blob option" where
  "dec_stats j =
     Option.bind (struct_members j) (\<lambda>kvs.
     Option.bind (dec_int (jfield ''numRecords'' kvs)) (\<lambda>n.
     Option.bind (dec_map (\<lambda>v. Some (any_of_json v)) (jfield ''minValues'' kvs)) (\<lambda>mins.
     Option.bind (dec_map (\<lambda>v. Some (any_of_json v)) (jfield ''maxValues'' kvs)) (\<lambda>maxs.
     Option.bind (dec_map (\<lambda>v. Some (any_of_json v)) (jfield ''nullCount'' kvs)) (\<lambda>nulls.
       Some \<lparr>sb_NumRecords = n, sb_MinValues = mins, sb_MaxValues = maxs, sb_NullCount = nulls\<rparr>)))))"

definition sub_path :: "string \<Rightarrow> string \<Rightarrow> string" where
  "sub_path pre key = (if pre \<noteq> '''' then pre @ ''.'' @ key else key)"

fun flattenStatsMap :: "(string \<times> any) list \<Rightarrow> string \<Rightarrow> (string, any) gomap \<Rightarrow> (string, any) gomap" where
  "flattenStatsMap [] pre out = out"
| "flattenStatsMap ((key, val) # raw) pre out =
     (case val of
        AMap nested \<Rightarrow> flattenStatsMap raw pre (flattenStatsMap nested (sub_path pre key) out)
      | _ \<Rightarrow> flattenStatsMap raw pre (map_put (sub_path pre key) val out))"

text \<open>\<^verbatim>\<open>int64(f)\<close> of the number a literal denotes: the fraction is cut off.\<close>

definition lit_parts :: "string \<Rightarrow> bool \<times> string \<times> string \<times> int" where
  "lit_parts l =
     (let neg = hasPrefix l ''-'';
          u = trimPrefix l ''-'';
          ip = takeWhile is_digit u;
          r = dropWhile is_digit u;
          fp = (if hasPrefix r ''.'' then takeWhile is_digit (drop 1 r) else '''');
          r' = (if hasPrefix r ''.'' then dropWhile is_digit (drop 1 r) else r);
          e = (case r' of [] \<Rightarrow> 0 | _ # x \<Rightarrow> (case parseInt x of Some i \<Rightarrow> i | None \<Rightarrow> 0))
      in (neg, ip, fp, e))"

definition lit_int :: "string \<Rightarrow> int" where
  "lit_int l =
     (let (neg, ip, fp, e) = lit_parts l;
          n = int (digits_val (ip @ fp));
          x = e - int (length fp);
          v = (if 0 \<le> x then n * 10 ^ nat x else n div 10 ^ nat (- x))
      in if neg then - v else v)"

fun int64FromStatsValue :: "any \<Rightarrow> int option" where
  "int64FromStatsValue (AFloat64 (FFin l)) = Some (lit_int l)"
| "int64FromStatsValue _ = None"

fun go_type :: "any \<Rightarrow> string" where
  "go_type ANil = ''<nil>''"
| "go_type (ABool _) = ''bool''"
| "go_type (AInt _) = ''int''"
| "go_type (AInt32 _) = ''int32''"
| "go_type (AInt64 _) = ''int64''"
| "go_type (AFloat32 _) = ''float32''"
| "go_type (AFloat64 _) = ''float64''"
| "go_type (AStr _) = ''string''"
| "go_type (ABytes _) = ''[]uint8''"
| "go_type (AMeta _) = ''model.MetadataValue''"
| "go_type (ABig _) = ''*big.Int''"
| "go_type (AMap _) = ''map[string]interface {}''"
| "go_type (AList _) = ''[]interface {}''"

section \<open>Flattening\<close>

text \<open>The leaves of a nested map with the keys that lead to them.\<close>

fun stats_leaves :: "(string \<times> any) list \<Rightarrow> (string list \<times> any) list" where
  "stats_leaves [] = []"
| "stats_leaves ((key, val) # raw) =
     (case val of
        AMap nested \<Rightarrow> map (\<lambda>kv. (key # fst kv, snd kv)) (stats_leaves nested)
      | _ \<Rightarrow> [([key], val)]) @ stats_leaves raw"

text \<open>Keys that can be told apart in a dotted path, at every depth.\<close>

fun plain_keys :: "(string \<times> any) list \<Rightarrow> bool" where
  "plain_keys [] = True"
| "plain_keys ((key, val) # raw) =
     (key \<noteq> '''' \<and> CHR ''.'' \<notin> set key \<and> (case val of AMap nested \<Rightarrow> plain_keys nested | _ \<Rightarrow> True) \<and> plain_keys raw)"

definition put_leaf :: "string \<Rightarrow> (string, any) gomap \<Rightarrow> string list \<times> any \<Rightarrow> (string, any) gomap" where
  "put_leaf pre m kv = map_put (sub_path pre (joinWith ''.'' (fst kv))) (snd kv) m"

lemma stats_leaves_nonempty: "kv \<in> set (stats_leaves raw) \<Longrightarrow> fst kv \<noteq> []"
  by (induction raw rule: stats_leaves.induct) (auto split: any.splits)

lemma sub_path_join:
  "key \<noteq> '''' \<Longrightarrow> ks \<noteq> [] \<Longrightarrow>
    sub_path (sub_path pre key) (joinWith ''.'' ks) = sub_path pre (joinWith ''.'' (key # ks))"
  by (simp add: sub_path_def joinWith_Cons)

lemma foldl_put_leaf_nested:
  assumes "key \<noteq> ''''" "\<forall>kv \<in> set ls. fst kv \<noteq> []"
  shows "foldl (put_leaf (sub_path pre key)) out ls = foldl (put_leaf pre) out (map (\<lambda>kv. (key # fst kv, snd kv)) ls)"
  using assms(2) by (induction ls arbitrary: out) (auto simp: put_leaf_def sub_path_join [OF assms(1)])

lemma flatten_leaves:
  "plain_keys raw \<Longrightarrow> flattenStatsMap raw pre out = foldl (put_leaf pre) out (stats_leaves raw)"
proof (induction raw pre out rule: flattenStatsMap.induct)
  case (2 key val raw pre out)
  show ?case
  proof (cases "\<exists>nested. val = AMap nested")
    case True
    then obtain nested where v: "val = AMap nested" by blast
    with 2 have "flattenStatsMap nested (sub_path pre key) out = foldl (put_leaf (sub_path pre key)) out (stats_leaves nested)"
      by simp
    also have "\<dots> = foldl (put_leaf pre) out (map (\<lambda>kv. (key # fst kv, snd kv)) (stats_leaves nested))"
      by (rule foldl_put_leaf_nested) (use "2.prems" v stats_leaves_nonempty in auto)
    finally show ?thesis using 2 v by simp
  next
    case False
    with 2 show ?thesis by (cases val) (simp_all add: put_leaf_def)
  qed
qed simp

lemma foldl_put_leaf_lookup:
  assumes "distinct (map fst ls)" "(ks, v) \<in> set ls"
    and "\<forall>kv \<in> set ls. fst kv \<noteq> [] \<and> (\<forall>k \<in> set (fst kv). CHR ''.'' \<notin> set k)"
  shows "map_of (foldl (put_leaf '''') out ls) (joinWith ''.'' ks) = Some v"
  using assms
proof (induction ls rule: rev_induct)
  case (snoc kv ls)
  show ?case
  proof (cases "fst kv = ks")
    case True
    with snoc.prems(1) have "ks \<notin> fst ` set ls" by auto
    then have "\<forall>x. (ks, x) \<notin> set ls" by force
    with snoc.prems(2) have "snd kv = v" by auto
    with True show ?thesis by (simp add: put_leaf_def sub_path_def)
  next
    case False
    with snoc have "map_of (foldl (put_leaf '''') out ls) (joinWith ''.'' ks) = Some v"
      by (cases kv) auto
    moreover have "joinWith ''.'' (fst kv) \<noteq> joinWith ''.'' ks"
      using joinWith_inj [of "fst kv" ks "CHR ''.''"] False snoc.prems(2,3) by auto
    ultimately show ?thesis by (simp add: put_leaf_def [of _ _ kv] sub_path_def)
  qed
qed simp

lemma plain_leaves: "plain_keys raw \<Longrightarrow> kv \<in> set (stats_leaves raw) \<Longrightarrow> \<forall>k \<in> set (fst kv). CHR ''.'' \<notin> set k"
  by (induction raw arbitrary: kv rule: stats_leaves.induct) (auto split: any.splits)

text \<open>A Go map at every depth.\<close>

fun wf_nested :: "(string \<times> any) list \<Rightarrow> bool" where
  "wf_nested [] = True"
| "wf_nested ((key, val) # raw) =
     (key \<notin> fst ` set raw \<and> (case val of AMap nested \<Rightarrow> wf_nested nested | _ \<Rightarrow> True) \<and> wf_nested raw)"

lemma stats_leaves_hd: "kv \<in> set (stats_leaves raw) \<Longrightarrow> hd (fst kv) \<in> fst ` set raw"
  by (induction raw rule: stats_leaves.induct) (auto split: any.splits)

lemma distinct_leaves: "wf_nested raw \<Longrightarrow> distinct (map fst (stats_leaves raw))"
proof (induction raw rule: stats_leaves.induct)
  case (2 key val raw)
  have tail: "(key # a, b) \<notin> set (stats_leaves raw)" for a b
    using "2.prems" stats_leaves_hd [of "(key # a, b)" raw] by auto
  show ?case
  proof (cases "\<exists>nested. val = AMap nested")
    case True
    then obtain nested where v: "val = AMap nested" by blast
    with 2 have "distinct (map fst (stats_leaves nested))" and "distinct (map fst (stats_leaves raw))" by simp_all
    moreover from this(1) have "distinct (map (\<lambda>kv. key # fst kv) (stats_leaves nested))"
      by (simp add: distinct_map inj_on_def)
    ultimately show ?thesis using tail by (auto simp: v comp_def)
  next
    case False
    with 2 have "distinct (map fst (stats_leaves raw))" by (cases val) simp_all
    with False tail show ?thesis by (cases val) auto
  qed
qed simp

text \<open>
  Flattening keeps every leaf of a nested statistics object under the dotted path of the keys
  that lead to it, whatever the depth, when the column names have no dots in them.
\<close>

theorem flatten_keeps_leaves:
  assumes "wf_nested raw" and "plain_keys raw" and "(ks, v) \<in> set (stats_leaves raw)"
  shows "map_of (flattenStatsMap raw '''' []) (joinWith ''.'' ks) = Some v"
proof -
  have "\<forall>kv \<in> set (stats_leaves raw). fst kv \<noteq> [] \<and> (\<forall>k \<in> set (fst kv). CHR ''.'' \<notin> set k)"
    using stats_leaves_nonempty plain_leaves [OF assms(2)] by blast
  with foldl_put_leaf_lookup [OF distinct_leaves [OF assms(1)] assms(3)] flatten_leaves [OF assms(2)]
  show ?thesis by simp
qed

theorem flatten_keeps_leaves_witness:
  "map_of (flattenStatsMap [(''id'', AFloat64 (FFin ''0'')),
      (''addr'', AMap [(''city'', AFloat64 (FFin ''1'')), (''zip'', AFloat64 (FFin ''0''))])] '''' []) ''addr.city''
    = Some (AFloat64 (FFin ''1''))"
  using flatten_keeps_leaves [of "[(''id'', AFloat64 (FFin ''0'')),
      (''addr'', AMap [(''city'', AFloat64 (FFin ''1'')), (''zip'', AFloat64 (FFin ''0''))])]"
      "[''addr'', ''city'']" "AFloat64 (FFin ''1'')"]
  by simp

end
