(* ===== verification/Delta_Schema.thy ===== *)
theory Delta_Schema
  imports Model_Core
begin

text \<open>
  \<^verbatim>\<open>pkg/formats/delta/schema.go\<close>: a canonical schema as the JSON text of a Delta
  \<^verbatim>\<open>schemaString\<close> and back. A \<^verbatim>\<open>json.RawMessage\<close> is the document it holds, so nested marshalling
  is building a bigger document and the text is printed once. The theorems say what a schema is
  after the trip: itself up to the type distinctions Delta does not have.
\<close>

section \<open>Writing\<close>

text \<open>The types written as a bare name.\<close>

fun delta_type_name :: "dtype \<Rightarrow> string" where
  "delta_type_name TypeBoolean = ''boolean''"
| "delta_type_name TypeInt = ''integer''"
| "delta_type_name TypeLong = ''long''"
| "delta_type_name TypeFloat = ''float''"
| "delta_type_name TypeDouble = ''double''"
| "delta_type_name TypeBytes = ''binary''"
| "delta_type_name TypeFixed = ''binary''"
| "delta_type_name TypeDate = ''date''"
| "delta_type_name TypeTimestamp = ''timestamp''"
| "delta_type_name TypeTimestampNTZ = ''timestamp_ntz''"
| "delta_type_name _ = ''string''"

definition delta_struct :: "json list \<Rightarrow> json" where
  "delta_struct fs = JObj [(''type'', JStr ''struct''), (''fields'', JArr fs)]"

definition delta_field :: "string \<Rightarrow> json \<Rightarrow> bool \<Rightarrow> json" where
  "delta_field name t nullable =
     JObj [(''name'', JStr name), (''type'', t), (''nullable'', JBool nullable), (''metadata'', JObj [])]"

definition delta_array :: "json \<Rightarrow> bool \<Rightarrow> json" where
  "delta_array elem containsNull =
     JObj [(''type'', JStr ''array''), (''elementType'', elem), (''containsNull'', JBool containsNull)]"

definition delta_map :: "json \<Rightarrow> json \<Rightarrow> bool \<Rightarrow> json" where
  "delta_map k v valueContainsNull =
     JObj [(''type'', JStr ''map''), (''keyType'', k), (''valueType'', v),
           (''valueContainsNull'', JBool valueContainsNull)]"

text \<open>
  \<^verbatim>\<open>typeToDeltaJSON\<close> and \<^verbatim>\<open>toDeltaStruct\<close>. A nil child schema panics where the code
  dereferences it for its nullability.
\<close>

function typeToDeltaJSON :: "schema \<Rightarrow> json res" where
  "typeToDeltaJSON s =
     (case DataType s of
        TypeDecimal \<Rightarrow>
          Inr (JStr (''decimal('' @ formatInt (decimal_precision s) @ '','' @ formatInt (decimal_scale s) @ '')''))
      | TypeRecord \<Rightarrow>
          bind_res
            (map_res (\<lambda>f. case FieldSchema f of
                None \<Rightarrow> Inl nil_panic
              | Some t \<Rightarrow> bind_res (typeToDeltaJSON t) (\<lambda>j. Inr (delta_field (FieldName f) j (IsNullable t))))
              (Fields s))
            (\<lambda>fs. Inr (delta_struct fs))
      | TypeList \<Rightarrow>
          (case ElementSchema s of
             None \<Rightarrow> Inl nil_panic
           | Some f \<Rightarrow>
               (case FieldSchema f of
                  None \<Rightarrow> Inl nil_panic
                | Some t \<Rightarrow> bind_res (typeToDeltaJSON t) (\<lambda>j. Inr (delta_array j (IsNullable t)))))
      | TypeMap \<Rightarrow>
          (case KeySchema s of
             None \<Rightarrow> Inl nil_panic
           | Some kf \<Rightarrow>
               bind_res (case FieldSchema kf of None \<Rightarrow> Inr (JStr ''string'') | Some t \<Rightarrow> typeToDeltaJSON t) (\<lambda>kj.
               (case ValueSchema s of
                  None \<Rightarrow> Inl nil_panic
                | Some vf \<Rightarrow>
                    (case FieldSchema vf of
                       None \<Rightarrow> Inl nil_panic
                     | Some t \<Rightarrow> bind_res (typeToDeltaJSON t) (\<lambda>vj. Inr (delta_map kj vj (IsNullable t)))))))
      | t \<Rightarrow> Inr (JStr (delta_type_name t)))"
  by pat_completeness auto
termination
  by (relation "measure size") (auto intro: size_child_field size_child_ptr)

declare typeToDeltaJSON.simps [simp del]

definition toDeltaStruct :: "schema \<Rightarrow> json res" where
  "toDeltaStruct s =
     bind_res
       (map_res (\<lambda>f. case FieldSchema f of
           None \<Rightarrow> Inl nil_panic
         | Some t \<Rightarrow> bind_res (typeToDeltaJSON t) (\<lambda>j. Inr (delta_field (FieldName f) j (IsNullable t))))
         (Fields s))
       (\<lambda>fs. Inr (delta_struct fs))"

definition SchemaToDeltaJSON :: "schema option \<Rightarrow> string res" where
  "SchemaToDeltaJSON schema =
     (case schema of
        None \<Rightarrow> Inl (ErrMsg ''schema cannot be nil'')
      | Some s \<Rightarrow> bind_res (toDeltaStruct s) (\<lambda>j. Inr (json_print j)))"

section \<open>Reading\<close>

record delta_struct_field =
  dsf_Name :: string
  dsf_Type :: "json option"
  dsf_Nullable :: bool

text \<open>
  One element of \<^verbatim>\<open>fields\<close>: a null element is a nil pointer (\<open>Some None\<close>), an element that does
  not fit the struct fails the decode (\<open>None\<close>).
\<close>

fun dec_struct_field :: "json \<Rightarrow> delta_struct_field option option" where
  "dec_struct_field (JObj kvs) =
     (case (dec_string (jfield ''name'' kvs), dec_bool (jfield ''nullable'' kvs),
            dec_map Some (jfield ''metadata'' kvs)) of
        (Some n, Some b, Some _) \<Rightarrow>
          Some (Some \<lparr>dsf_Name = n, dsf_Type = jfield ''type'' kvs, dsf_Nullable = b\<rparr>)
      | _ \<Rightarrow> None)"
| "dec_struct_field JNull = Some None"
| "dec_struct_field _ = None"

definition dec_struct_type :: "json \<Rightarrow> (string \<times> delta_struct_field option list) option" where
  "dec_struct_type j =
     (case j of
        JObj kvs \<Rightarrow>
          (case (dec_string (jfield ''type'' kvs), dec_list dec_struct_field (jfield ''fields'' kvs)) of
             (Some t, Some fs) \<Rightarrow> Some (t, fs)
           | _ \<Rightarrow> None)
      | JNull \<Rightarrow> Some ('''', [])
      | _ \<Rightarrow> None)"

text \<open>The names \<^verbatim>\<open>parseDeltaType\<close> recognises; any other is read as a string column.\<close>

definition atoi_or :: "int \<Rightarrow> string \<Rightarrow> int" where
  "atoi_or d s = (case parseInt (trimSpace s) of Some i \<Rightarrow> i | None \<Rightarrow> d)"

definition parse_type_name :: "string \<Rightarrow> bool \<Rightarrow> schema" where
  "parse_type_name name nullable =
     (let typeStr = toLower name in
      if typeStr = ''boolean'' then NewPrimitiveSchema TypeBoolean nullable
      else if typeStr = ''integer'' \<or> typeStr = ''int'' \<or> typeStr = ''short'' \<or> typeStr = ''byte''
        then NewPrimitiveSchema TypeInt nullable
      else if typeStr = ''long'' then NewPrimitiveSchema TypeLong nullable
      else if typeStr = ''float'' then NewPrimitiveSchema TypeFloat nullable
      else if typeStr = ''double'' then NewPrimitiveSchema TypeDouble nullable
      else if typeStr = ''string'' then NewPrimitiveSchema TypeString nullable
      else if typeStr = ''binary'' then NewPrimitiveSchema TypeBytes nullable
      else if typeStr = ''date'' then NewPrimitiveSchema TypeDate nullable
      else if typeStr = ''timestamp'' then NewPrimitiveSchema TypeTimestamp nullable
      else if typeStr = ''timestamp_ntz'' then NewPrimitiveSchema TypeTimestampNTZ nullable
      else if hasPrefix typeStr ''decimal'' then
        (case splitChar (CHR '','') (trimSuffix (trimPrefix typeStr ''decimal('') '')'') of
           [p, s] \<Rightarrow> NewDecimalSchema (atoi_or 10 p) (atoi_or 0 s) nullable
         | _ \<Rightarrow> NewDecimalSchema 10 0 nullable)
      else NewPrimitiveSchema TypeString nullable)"

definition unrecognized_type :: "json option \<Rightarrow> gerr" where
  "unrecognized_type raw =
     ErrMsg (''unrecognized delta type structure: '' @ (case raw of None \<Rightarrow> '''' | Some j \<Rightarrow> json_print j))"

lemma dec_struct_type_size:
  assumes "dec_struct_type j = Some (t, fs)" and "Some df \<in> set fs" and "dsf_Type df = Some r"
  shows "size r < size j"
proof -
  from assms(1,2) obtain kvs where j: "j = JObj kvs" and "dec_list dec_struct_field (jfield ''fields'' kvs) = Some fs"
    by (auto simp: dec_struct_type_def split: json.splits option.splits)
  then obtain xs x where f: "jfield ''fields'' kvs = Some (JArr xs)" "x \<in> set xs" "dec_struct_field x = Some (Some df)"
    using dec_list_elems assms(2) by meson
  from f(3) obtain kvs' where "x = JObj kvs'" "dsf_Type df = jfield ''type'' kvs'"
    by (cases x) (auto split: option.splits)
  with assms(3) have "size r < size x" using jfield_size by metis
  also have "size x \<le> size_list size xs" by (rule elem_size_list [OF f(2)])
  also have "\<dots> < size (JArr xs)" by simp
  also have "\<dots> < size j" using jfield_size [OF f(1)] j by simp
  finally show ?thesis .
qed

text \<open>The three attempts at a nested type, in the order the code makes them.\<close>

definition struct_fields :: "json \<Rightarrow> delta_struct_field option list option" where
  "struct_fields j =
     (case dec_struct_type j of Some (t, fs) \<Rightarrow> if t = ''struct'' then Some fs else None | None \<Rightarrow> None)"

definition array_parts :: "json \<Rightarrow> (json option \<times> bool) option" where
  "array_parts j =
     (case j of
        JObj kvs \<Rightarrow>
          (case (dec_string (jfield ''type'' kvs), dec_bool (jfield ''containsNull'' kvs)) of
             (Some t, Some b) \<Rightarrow> if t = ''array'' then Some (jfield ''elementType'' kvs, b) else None
           | _ \<Rightarrow> None)
      | _ \<Rightarrow> None)"

definition map_parts :: "json \<Rightarrow> (json option \<times> json option \<times> bool) option" where
  "map_parts j =
     (case j of
        JObj kvs \<Rightarrow>
          (case (dec_string (jfield ''type'' kvs), dec_bool (jfield ''valueContainsNull'' kvs)) of
             (Some t, Some b) \<Rightarrow>
               if t = ''map'' then Some (jfield ''keyType'' kvs, jfield ''valueType'' kvs, b) else None
           | _ \<Rightarrow> None)
      | _ \<Rightarrow> None)"

lemma struct_fields_size:
  "struct_fields j = Some fs \<Longrightarrow> Some df \<in> set fs \<Longrightarrow> dsf_Type df = Some r \<Longrightarrow> size r < size j"
  using dec_struct_type_size by (auto simp: struct_fields_def split: option.splits if_splits)

lemma array_parts_size: "array_parts j = Some (Some r, b) \<Longrightarrow> size r < size j"
  using jfield_size by (fastforce simp: array_parts_def split: json.splits option.splits if_splits)

lemma map_parts_size:
  "map_parts j = Some (Some r, v, b) \<Longrightarrow> size r < size j" "map_parts j = Some (k, Some r, b) \<Longrightarrow> size r < size j"
  using jfield_size by (fastforce simp: map_parts_def split: json.splits option.splits if_splits)+

function parseDeltaType :: "json option \<Rightarrow> bool \<Rightarrow> schema res" where
  "parseDeltaType None nullable = Inl (unrecognized_type None)"
| "parseDeltaType (Some j) nullable =
     (case dec_string (Some j) of
        Some typeStr \<Rightarrow> Inr (parse_type_name typeStr nullable)
      | None \<Rightarrow>
        (case struct_fields j of
           Some fs \<Rightarrow>
             bind_res
               (map_res (\<lambda>f. case f of
                    None \<Rightarrow> Inl nil_panic
                  | Some df \<Rightarrow>
                      bind_res (parseDeltaType (dsf_Type df) (dsf_Nullable df))
                        (\<lambda>child. Inr (mkField (dsf_Name df) (Some child)))) fs)
               (\<lambda>flds. Inr (NewRecordSchema '''' flds nullable))
         | None \<Rightarrow>
             (case array_parts j of
                Some (elem, containsNull) \<Rightarrow>
                  bind_res (parseDeltaType elem containsNull) (\<lambda>e. Inr (list_schema e nullable))
              | None \<Rightarrow>
                  (case map_parts j of
                     Some (k, v, valueContainsNull) \<Rightarrow>
                       bind_res (parseDeltaType k False) (\<lambda>ks.
                       bind_res (parseDeltaType v valueContainsNull) (\<lambda>vs. Inr (map_schema ks vs nullable)))
                   | None \<Rightarrow> Inl (unrecognized_type (Some j))))))"
  by pat_completeness auto

definition raw_size :: "json option \<Rightarrow> nat" where
  "raw_size r = (case r of None \<Rightarrow> 0 | Some j \<Rightarrow> Suc (size j))"

lemma raw_size_less: "(\<And>r. x = Some r \<Longrightarrow> size r < n) \<Longrightarrow> raw_size x < Suc n"
  by (cases x) (auto simp: raw_size_def)

termination parseDeltaType
proof (relation "measure (\<lambda>(raw, _). raw_size raw)", goal_cases)
  case 1
  show ?case by simp
qed (auto simp: raw_size_def [of "Some _"] intro!: raw_size_less
    intro: struct_fields_size array_parts_size map_parts_size)

declare parseDeltaType.simps [simp del]

text \<open>The body of the loop over the top-level fields.\<close>

definition root_field :: "delta_struct_field option \<Rightarrow> field res" where
  "root_field f =
     (case f of
        None \<Rightarrow> Inl nil_panic
      | Some df \<Rightarrow>
          bind_res (wrap_res (''failed to parse field '' @ dsf_Name df)
              (parseDeltaType (dsf_Type df) (dsf_Nullable df)))
            (\<lambda>fSchema. Inr (mkField (dsf_Name df) (Some fSchema))))"

definition DeltaJSONToSchema :: "string \<Rightarrow> schema res" where
  "DeltaJSONToSchema schemaString =
     (case Option.bind (json_unmarshal schemaString) dec_struct_type of
        None \<Rightarrow> Inl (ErrWrap ''invalid delta schema JSON'' (ErrMsg ''json''))
      | Some (_, fs) \<Rightarrow>
          bind_res (map_res root_field fs) (\<lambda>flds. Inr (NewRecordSchema ''root'' flds False)))"

section \<open>What a schema becomes on the way through Delta\<close>

text \<open>The schemas the writer accepts: no nil child where it is dereferenced, decimals of machine size.\<close>

function complete_schema :: "schema \<Rightarrow> bool" where
  "complete_schema s =
     (case DataType s of
        TypeDecimal \<Rightarrow> in_int64 (decimal_precision s) \<and> in_int64 (decimal_scale s)
      | TypeRecord \<Rightarrow>
          list_all (\<lambda>f. case FieldSchema f of None \<Rightarrow> False | Some t \<Rightarrow> complete_schema t) (Fields s)
      | TypeList \<Rightarrow>
          (case ElementSchema s of
             None \<Rightarrow> False
           | Some f \<Rightarrow> (case FieldSchema f of None \<Rightarrow> False | Some t \<Rightarrow> complete_schema t))
      | TypeMap \<Rightarrow>
          (case KeySchema s of
             None \<Rightarrow> False
           | Some f \<Rightarrow> (case FieldSchema f of None \<Rightarrow> True | Some t \<Rightarrow> complete_schema t)) \<and>
          (case ValueSchema s of
             None \<Rightarrow> False
           | Some f \<Rightarrow> (case FieldSchema f of None \<Rightarrow> False | Some t \<Rightarrow> complete_schema t))
      | _ \<Rightarrow> True)"
  by pat_completeness auto
termination
  by (relation "measure size") (auto intro: size_child_field size_child_ptr)

declare complete_schema.simps [simp del]

text \<open>
  The canonical schema as Delta has it: enumerations, UUIDs, unions and null columns are strings,
  fixed-size bytes are bytes, names of nested records, comments, defaults and field identifiers are
  dropped.
\<close>

function delta_norm :: "bool \<Rightarrow> schema \<Rightarrow> schema" where
  "delta_norm n s =
     (case DataType s of
        TypeDecimal \<Rightarrow> NewDecimalSchema (decimal_precision s) (decimal_scale s) n
      | TypeRecord \<Rightarrow>
          NewRecordSchema '''' (map (\<lambda>f. mkField (FieldName f)
            (case FieldSchema f of None \<Rightarrow> None | Some t \<Rightarrow> Some (delta_norm (IsNullable t) t))) (Fields s)) n
      | TypeList \<Rightarrow>
          (case Option.bind (ElementSchema s) FieldSchema of
             None \<Rightarrow> s
           | Some t \<Rightarrow> list_schema (delta_norm (IsNullable t) t) n)
      | TypeMap \<Rightarrow>
          (case Option.bind (ValueSchema s) FieldSchema of
             None \<Rightarrow> s
           | Some t \<Rightarrow>
               map_schema
                 (case Option.bind (KeySchema s) FieldSchema of
                    None \<Rightarrow> NewPrimitiveSchema TypeString False
                  | Some k \<Rightarrow> delta_norm False k)
                 (delta_norm (IsNullable t) t) n)
      | TypeEnum \<Rightarrow> NewPrimitiveSchema TypeString n
      | TypeUUID \<Rightarrow> NewPrimitiveSchema TypeString n
      | TypeUnion \<Rightarrow> NewPrimitiveSchema TypeString n
      | TypeNull \<Rightarrow> NewPrimitiveSchema TypeString n
      | TypeFixed \<Rightarrow> NewPrimitiveSchema TypeBytes n
      | t \<Rightarrow> NewPrimitiveSchema t n)"
  by pat_completeness auto
termination
  by (relation "measure (\<lambda>(_, s). size s)")
    (auto intro: size_child_field size_child_ptr simp: bind_eq_Some_conv)

declare delta_norm.simps [simp del]

lemmas literal_fields = jfield_def equalFold_def toLower_def lower_char_def

lemma struct_fields_of:
  "struct_fields (delta_struct (map (\<lambda>x. delta_field (nm x) (j x) (b x)) xs)) =
     Some (map (\<lambda>x. Some \<lparr>dsf_Name = nm x, dsf_Type = Some (j x), dsf_Nullable = b x\<rparr>) xs)"
proof -
  have "opt_all dec_struct_field (map (\<lambda>x. delta_field (nm x) (j x) (b x)) xs) =
      Some (map (\<lambda>x. Some \<lparr>dsf_Name = nm x, dsf_Type = Some (j x), dsf_Nullable = b x\<rparr>) xs)"
    by (rule opt_all_map) (simp add: delta_field_def literal_fields)
  then show ?thesis
    by (simp add: struct_fields_def dec_struct_type_def delta_struct_def literal_fields)
qed

lemma nested_views [simp]:
  "struct_fields (delta_array e b) = None" "array_parts (delta_array e b) = Some (Some e, b)"
  "struct_fields (delta_map k v b) = None" "array_parts (delta_map k v b) = None"
  "map_parts (delta_map k v b) = Some (Some k, Some v, b)"
  by (simp_all add: delta_array_def delta_map_def struct_fields_def dec_struct_type_def array_parts_def
      map_parts_def literal_fields)

lemma nested_not_string [simp]:
  "dec_string (Some (delta_struct fs)) = None" "dec_string (Some (delta_array e b)) = None"
  "dec_string (Some (delta_map k v b)) = None"
  by (simp_all add: delta_struct_def delta_array_def delta_map_def)

lemma atoi_formatInt [simp]: "in_int64 i \<Longrightarrow> atoi_or d (formatInt i) = i"
proof -
  have "trimSpace (formatInt i) = formatInt i"
    by (rule trimSpace_idem_hd) (use number_text_plain [of _ i] in \<open>simp_all\<close>)
  then show "in_int64 i \<Longrightarrow> ?thesis" by (simp add: atoi_or_def)
qed

lemma parse_decimal_name:
  assumes "in_int64 p" "in_int64 sc"
  shows "parse_type_name (''decimal('' @ formatInt p @ '','' @ formatInt sc @ '')'') n = NewDecimalSchema p sc n"
proof -
  let ?d = "formatInt p @ '','' @ formatInt sc"
  have l: "toLower (''decimal('' @ ?d @ '')'') = ''decimal('' @ ?d @ '')''"
    using toLower_formatInt [of p] toLower_formatInt [of sc] by (simp add: toLower_def lower_char_def)
  have t: "trimSuffix (trimPrefix (''decimal('' @ ?d @ '')'') ''decimal('') '')'' = ?d"
    by (simp only: trimPrefix_append trimSuffix_append)
  have nc: "CHR '','' \<notin> set (formatInt i)" for i
    using number_text_plain [of "CHR '',''" i] by blast
  have "splitChar (CHR '','') ?d = [formatInt p, formatInt sc]"
    using splitChar_append_sep [OF nc [of p], of "formatInt sc"] by (simp add: splitChar_no_sep [OF nc])
  moreover have "hasPrefix (''decimal('' @ ?d @ '')'') ''decimal''" by simp
  ultimately show ?thesis
    using assms l t unfolding parse_type_name_def Let_def by simp
qed

lemma parse_primitive_name:
  "t \<notin> {TypeDecimal, TypeRecord, TypeList, TypeMap} \<Longrightarrow> DataType s = t \<Longrightarrow>
    parse_type_name (delta_type_name t) n = delta_norm n s"
  by (subst delta_norm.simps; cases t)
    (simp_all add: parse_type_name_def toLower_def lower_char_def Let_def)

lemma wf_delta_json [simp]:
  "wf_json (delta_struct fs) = list_all wf_json fs" "wf_json (delta_field nm j b) = wf_json j"
  "wf_json (delta_array j b) = wf_json j" "wf_json (delta_map k v b) = (wf_json k \<and> wf_json v)"
  by (simp_all add: delta_struct_def delta_field_def delta_array_def delta_map_def)

text \<open>The bodies of the two loops over the fields of a record.\<close>

abbreviation write_field :: "field \<Rightarrow> json res" where
  "write_field \<equiv> \<lambda>f. case FieldSchema f of None \<Rightarrow> Inl nil_panic
     | Some t \<Rightarrow> bind_res (typeToDeltaJSON t) (\<lambda>j. Inr (delta_field (FieldName f) j (IsNullable t)))"

abbreviation read_field :: "(string \<Rightarrow> schema res \<Rightarrow> schema res) \<Rightarrow> delta_struct_field option \<Rightarrow> field res" where
  "read_field wr \<equiv> \<lambda>f. case f of None \<Rightarrow> Inl nil_panic
     | Some df \<Rightarrow> bind_res (wr (dsf_Name df) (parseDeltaType (dsf_Type df) (dsf_Nullable df)))
         (\<lambda>child. Inr (mkField (dsf_Name df) (Some child)))"

lemma read_field_Inr:
  assumes "read_field wr d = Inr f" and "\<forall>c x y. wr c x = Inr y \<longrightarrow> x = Inr y"
  obtains df t where "d = Some df" and "parseDeltaType (dsf_Type df) (dsf_Nullable df) = Inr t"
    and "f = mkField (dsf_Name df) (Some t)"
proof (cases d)
  case (Some df)
  with assms(1) obtain t where "wr (dsf_Name df) (parseDeltaType (dsf_Type df) (dsf_Nullable df)) = Inr t"
    and f: "f = mkField (dsf_Name df) (Some t)"
    by auto
  with assms(2) have "parseDeltaType (dsf_Type df) (dsf_Nullable df) = Inr t" by blast
  from that [OF Some this f] show ?thesis .
qed (use assms(1) in simp)

lemma root_field_eq: "root_field = read_field (\<lambda>c. wrap_res (''failed to parse field '' @ c))"
  by (rule ext) (simp add: root_field_def)

text \<open>Writing a schema and parsing the document gives its Delta form.\<close>

definition delta_trip :: "schema \<Rightarrow> json \<Rightarrow> bool" where
  "delta_trip s j \<longleftrightarrow> typeToDeltaJSON s = Inr j \<and> wf_json j \<and> (\<forall>n. parseDeltaType (Some j) n = Inr (delta_norm n s))"

definition norm_field :: "field \<Rightarrow> field" where
  "norm_field f = mkField (FieldName f)
     (case FieldSchema f of None \<Rightarrow> None | Some t \<Rightarrow> Some (delta_norm (IsNullable t) t))"

lemma fields_trip:
  assumes "\<And>f. f \<in> set fs \<Longrightarrow> \<exists>t j. FieldSchema f = Some t \<and> delta_trip t j"
  shows "\<exists>js dfs. map_res write_field fs = Inr js \<and> list_all wf_json js \<and>
    struct_fields (delta_struct js) = Some dfs \<and>
    (\<forall>wr. (\<forall>c x. wr c (Inr x) = Inr x) \<longrightarrow> map_res (read_field wr) dfs = Inr (map norm_field fs))"
proof -
  obtain J where J: "\<forall>f \<in> set fs. \<exists>t. FieldSchema f = Some t \<and> delta_trip t (J f)"
    using assms by metis
  define b where "b f = IsNullable (the (FieldSchema f))" for f
  let ?js = "map (\<lambda>f. delta_field (FieldName f) (J f) (b f)) fs"
  let ?dfs = "map (\<lambda>f. Some \<lparr>dsf_Name = FieldName f, dsf_Type = Some (J f), dsf_Nullable = b f\<rparr>) fs"
  have "map_res write_field fs = Inr ?js"
    by (rule map_res_all_Inr) (use J in \<open>force simp: delta_trip_def b_def\<close>)
  moreover have "list_all wf_json ?js" using J by (force simp: list_all_iff delta_trip_def)
  moreover have "struct_fields (delta_struct ?js) = Some ?dfs" by (rule struct_fields_of)
  moreover have "map_res (read_field wr) ?dfs = Inr (map norm_field fs)" if "\<forall>c x. wr c (Inr x) = Inr x" for wr
    unfolding map_res_map
    by (rule map_res_all_Inr) (use that J in \<open>force simp: delta_trip_def b_def norm_field_def\<close>)
  ultimately show ?thesis by blast
qed

lemma delta_trip_record:
  assumes "DataType s = TypeRecord" and "\<And>f. f \<in> set (Fields s) \<Longrightarrow> \<exists>t j. FieldSchema f = Some t \<and> delta_trip t j"
  shows "\<exists>j. delta_trip s j"
proof -
  obtain js dfs where f: "map_res write_field (Fields s) = Inr js" "list_all wf_json js"
      "struct_fields (delta_struct js) = Some dfs"
      "map_res (read_field (\<lambda>_ x. x)) dfs = Inr (map norm_field (Fields s))"
  proof -
    have "\<exists>js dfs. map_res write_field (Fields s) = Inr js \<and> list_all wf_json js \<and>
        struct_fields (delta_struct js) = Some dfs \<and>
        (\<forall>wr. (\<forall>c x. wr c (Inr x) = Inr x) \<longrightarrow> map_res (read_field wr) dfs = Inr (map norm_field (Fields s)))"
      by (rule fields_trip) (rule assms(2))
    then show ?thesis using that by (elim exE conjE allE [of _ "\<lambda>_ x. x"]) blast
  qed
  have "parseDeltaType (Some (delta_struct js)) n = Inr (delta_norm n s)" for n
    unfolding parseDeltaType.simps delta_norm.simps [of n s]
    by (simp add: f(3,4) assms(1) norm_field_def [abs_def])
  moreover have "typeToDeltaJSON s = Inr (delta_struct js)"
    by (subst typeToDeltaJSON.simps) (simp add: assms(1) f(1))
  ultimately show ?thesis using f(2) by (auto simp: delta_trip_def)
qed

lemma delta_trip_list:
  assumes "DataType s = TypeList" "ElementSchema s = Some f" "FieldSchema f = Some t" "delta_trip t j"
  shows "delta_trip s (delta_array j (IsNullable t))"
  using assms(4) unfolding delta_trip_def
  by (simp add: typeToDeltaJSON.simps [of s] delta_norm.simps [of _ s] assms(1-3) parseDeltaType.simps)

lemma delta_trip_map:
  assumes "DataType s = TypeMap" "KeySchema s = Some kf" "ValueSchema s = Some vf" "FieldSchema vf = Some t"
    and "delta_trip t vj" and "\<forall>k. FieldSchema kf = Some k \<longrightarrow> delta_trip k kj"
    and "FieldSchema kf = None \<longrightarrow> kj = JStr ''string''"
  shows "delta_trip s (delta_map kj vj (IsNullable t))"
proof (cases "FieldSchema kf")
  case None
  have "parse_type_name ''string'' False = NewPrimitiveSchema TypeString False"
    by (simp add: parse_type_name_def toLower_def lower_char_def Let_def)
  with None assms show ?thesis unfolding delta_trip_def
    by (simp add: typeToDeltaJSON.simps [of s] delta_norm.simps [of _ s] parseDeltaType.simps)
next
  case (Some k)
  with assms(5,6) show ?thesis unfolding delta_trip_def
    by (simp add: typeToDeltaJSON.simps [of s] delta_norm.simps [of _ s] assms(1-4) parseDeltaType.simps)
qed

lemma delta_trip_exists: "complete_schema s \<Longrightarrow> \<exists>j. delta_trip s j"
proof (induction s rule: measure_induct_rule [of size])
  case (less s)
  consider (rec) "DataType s = TypeRecord" | (lst) "DataType s = TypeList" | (mp) "DataType s = TypeMap"
    | (dec) "DataType s = TypeDecimal" | (prim) "DataType s \<notin> {TypeDecimal, TypeRecord, TypeList, TypeMap}"
    by blast
  then show ?case
  proof cases
    case rec
    with less.prems have "\<forall>f \<in> set (Fields s). \<exists>t. FieldSchema f = Some t \<and> complete_schema t"
      by (auto simp: complete_schema.simps [of s] list_all_iff split: option.splits)
    then show ?thesis using less.IH size_child_field by (intro delta_trip_record [OF rec]) metis
  next
    case lst
    with less.prems obtain f t where "ElementSchema s = Some f" "FieldSchema f = Some t" "complete_schema t"
      by (auto simp: complete_schema.simps [of s] split: option.splits)
    with less.IH show ?thesis using size_child_ptr delta_trip_list [OF lst] by meson
  next
    case mp
    with less.prems obtain kf vf t where s: "KeySchema s = Some kf" "ValueSchema s = Some vf" "FieldSchema vf = Some t"
      and t: "complete_schema t" and "\<forall>k. FieldSchema kf = Some k \<longrightarrow> complete_schema k"
      by (auto simp: complete_schema.simps [of s] split: option.splits)
    then have k: "\<And>k. FieldSchema kf = Some k \<Longrightarrow> complete_schema k" by blast
    obtain vj where vj: "delta_trip t vj" using less.IH [OF size_child_ptr t] s by blast
    have "\<exists>kj. (\<forall>k. FieldSchema kf = Some k \<longrightarrow> delta_trip k kj) \<and> (FieldSchema kf = None \<longrightarrow> kj = JStr ''string'')"
    proof (cases "FieldSchema kf")
      case (Some k')
      with less.IH [of k'] k s size_child_ptr [of s kf k'] show ?thesis by simp
    qed simp
    then obtain kj where "\<forall>k. FieldSchema kf = Some k \<longrightarrow> delta_trip k kj"
      and "FieldSchema kf = None \<longrightarrow> kj = JStr ''string''"
      by (elim exE conjE)
    from delta_trip_map [OF mp s vj this] show ?thesis by blast
  next
    case dec
    with less.prems show ?thesis
      by (auto simp: complete_schema.simps [of s] delta_trip_def typeToDeltaJSON.simps [of s]
          delta_norm.simps [of _ s] parseDeltaType.simps parse_decimal_name simp del: append.simps)
  next
    case prim
    then have "typeToDeltaJSON s = Inr (JStr (delta_type_name (DataType s)))"
      by (subst typeToDeltaJSON.simps) (simp split: dtype.splits)
    with parse_primitive_name [OF prim refl] show ?thesis
      by (auto simp: delta_trip_def parseDeltaType.simps)
  qed
qed

text \<open>Whatever the reader returns is complete and already in Delta form.\<close>

lemma parse_type_name_norm:
  "complete_schema (parse_type_name nm n) \<and> IsNullable (parse_type_name nm n) = n \<and>
   delta_norm n (parse_type_name nm n) = parse_type_name nm n"
proof -
  have i: "in_int64 (atoi_or d s)" if "in_int64 d" for d s
    using that by (auto simp: atoi_or_def dest: parseInt_in_int64 split: option.splits)
  have dec: "complete_schema (NewDecimalSchema p sc n) \<and> IsNullable (NewDecimalSchema p sc n) = n \<and>
      delta_norm n (NewDecimalSchema p sc n) = NewDecimalSchema p sc n" if "in_int64 p" "in_int64 sc" for p sc
    using that by (simp add: complete_schema.simps delta_norm.simps NewDecimalSchema_def decimal_precision_def decimal_scale_def)
  have "in_int64 10" "in_int64 0" by (simp_all add: in_int64_def)
  note dec' = dec [OF this] dec [OF i i, OF this]
  have prim: "complete_schema (NewPrimitiveSchema t n) \<and> IsNullable (NewPrimitiveSchema t n) = n \<and>
      delta_norm n (NewPrimitiveSchema t n) = NewPrimitiveSchema t n"
    if "t \<in> {TypeBoolean, TypeInt, TypeLong, TypeFloat, TypeDouble, TypeString, TypeBytes, TypeDate,
      TypeTimestamp, TypeTimestampNTZ}" for t
    using that by (auto simp: complete_schema.simps delta_norm.simps NewPrimitiveSchema_def)
  show ?thesis
    unfolding parse_type_name_def Let_def by (simp add: prim dec' split: list.splits)
qed

lemma parsed_norm:
  "parseDeltaType raw n = Inr s \<Longrightarrow> complete_schema s \<and> IsNullable s = n \<and> delta_norm n s = s"
proof (induction raw n arbitrary: s rule: parseDeltaType.induct)
  case (1 n)
  then show ?case by (simp add: parseDeltaType.simps)
next
  case (2 j n)
  show ?case
  proof (cases "dec_string (Some j)")
    case (Some nm)
    with 2(5) show ?thesis using parse_type_name_norm by (auto simp: parseDeltaType.simps)
  next
    case nostr: None
    show ?thesis
    proof (cases "struct_fields j")
      case (Some fs)
      with 2(5) nostr obtain flds where s: "s = NewRecordSchema '''' flds n"
        and l: "map_res (read_field (\<lambda>_ x. x)) fs = Inr flds"
        by (auto simp: parseDeltaType.simps)
      have flds: "norm_field f = f \<and> (\<exists>t. FieldSchema f = Some t \<and> complete_schema t)" if f: "f \<in> set flds" for f
      proof -
        from map_res_elem [OF l f] obtain d where d: "d \<in> set fs" "read_field (\<lambda>_ x. x) d = Inr f" by blast
        obtain df t where df: "d = Some df" and p: "parseDeltaType (dsf_Type df) (dsf_Nullable df) = Inr t"
          and "f = mkField (dsf_Name df) (Some t)"
          by (rule read_field_Inr [OF d(2)]) simp_all
        with 2(4) [OF nostr Some d(1) df p] show ?thesis by (simp add: norm_field_def)
      qed
      then have "map norm_field flds = flds" "\<forall>f \<in> set flds. \<exists>t. FieldSchema f = Some t \<and> complete_schema t"
        by (auto intro: map_idI)
      then show ?thesis
        by (auto simp: s NewRecordSchema_def complete_schema.simps [of "Schema _ _ _ _ _ _ _ _ _ _"]
            delta_norm.simps [of _ "Schema _ _ _ _ _ _ _ _ _ _"] norm_field_def [abs_def] list_all_iff split: option.splits)
    next
      case nostruct: None
      show ?thesis
      proof (cases "array_parts j")
        case (Some eb)
        then obtain e b where eb: "array_parts j = Some (e, b)" by (cases eb) auto
        with 2(5) nostr nostruct obtain es where "parseDeltaType e b = Inr es" "s = list_schema es n"
          by (auto simp: parseDeltaType.simps)
        with 2(3) [OF nostr nostruct eb refl] show ?thesis
          by (auto simp: list_schema_def complete_schema.simps [of "Schema _ _ _ _ _ _ _ _ _ _"]
            delta_norm.simps [of _ "Schema _ _ _ _ _ _ _ _ _ _"])
      next
        case noarr: None
        with 2(5) nostr nostruct obtain k v b where m: "map_parts j = Some (k, v, b)"
          by (auto simp: parseDeltaType.simps split: option.splits)
        with 2(5) nostr nostruct noarr obtain ks vs where kv: "parseDeltaType k False = Inr ks"
          "parseDeltaType v b = Inr vs" "s = map_schema ks vs n"
          by (auto simp: parseDeltaType.simps)
        with 2(1) [OF nostr nostruct noarr m refl refl kv(1)] 2(2) [OF nostr nostruct noarr m refl refl kv(1) kv(2)]
        show ?thesis
          by (auto simp: map_schema_def complete_schema.simps [of "Schema _ _ _ _ _ _ _ _ _ _"]
            delta_norm.simps [of _ "Schema _ _ _ _ _ _ _ _ _ _"])
      qed
    qed
  qed
qed

lemma schema_trip:
  assumes "\<And>f. f \<in> set (Fields s) \<Longrightarrow> \<exists>t. FieldSchema f = Some t \<and> complete_schema t"
  shows "\<exists>txt. SchemaToDeltaJSON (Some s) = Inr txt \<and>
    DeltaJSONToSchema txt = Inr (NewRecordSchema ''root'' (map norm_field (Fields s)) False)"
proof -
  have "\<exists>js dfs. map_res write_field (Fields s) = Inr js \<and> list_all wf_json js \<and>
      struct_fields (delta_struct js) = Some dfs \<and>
      (\<forall>wr. (\<forall>c x. wr c (Inr x) = Inr x) \<longrightarrow> map_res (read_field wr) dfs = Inr (map norm_field (Fields s)))"
    by (rule fields_trip) (use assms delta_trip_exists in blast)
  then obtain js dfs where w: "map_res write_field (Fields s) = Inr js" "list_all wf_json js"
    and d: "struct_fields (delta_struct js) = Some dfs"
    and r0: "\<forall>wr. (\<forall>c x. wr c (Inr x) = Inr x) \<longrightarrow> map_res (read_field wr) dfs = Inr (map norm_field (Fields s))"
    by (elim exE conjE)
  have r: "map_res root_field dfs = Inr (map norm_field (Fields s))"
    unfolding root_field_eq by (rule r0 [rule_format]) (rule wrap_res.simps)
  have "dec_struct_type (delta_struct js) = Some (''struct'', dfs)"
    using d by (auto simp: struct_fields_def split: option.splits if_splits)
  with w r show ?thesis
    by (simp add: SchemaToDeltaJSON_def toDeltaStruct_def DeltaJSONToSchema_def)
qed

text \<open>
  C23. A schema without nil children is always written, and its \<^verbatim>\<open>schemaString\<close> reads back as the
  same columns, in order and at every depth, with each type in the form Delta has for it.
\<close>

theorem delta_schema_roundtrip:
  assumes "DataType s = TypeRecord" and "complete_schema s"
  shows "\<exists>txt. SchemaToDeltaJSON (Some s) = Inr txt \<and>
    DeltaJSONToSchema txt = Inr (NewRecordSchema ''root'' (Fields (delta_norm False s)) False)"
proof -
  have "Fields (delta_norm False s) = map norm_field (Fields s)"
    by (simp add: delta_norm.simps [of _ s] assms(1) NewRecordSchema_def norm_field_def [abs_def])
  moreover have "\<exists>t. FieldSchema f = Some t \<and> complete_schema t" if "f \<in> set (Fields s)" for f
    using that assms by (auto simp: complete_schema.simps [of s] list_all_iff split: option.splits)
  ultimately show ?thesis using schema_trip [of s] by simp
qed

definition sample_schema :: schema where
  "sample_schema =
     NewRecordSchema ''orders'' [mkField ''id'' (Some (NewPrimitiveSchema TypeLong False)),
       mkField ''price'' (Some (NewDecimalSchema 12 2 True)),
       mkField ''kind'' (Some (NewPrimitiveSchema TypeEnum True)),
       mkField ''tags'' (Some (list_schema (NewPrimitiveSchema TypeString True) False))] False"

theorem delta_schema_roundtrip_witness:
  "\<exists>txt. SchemaToDeltaJSON (Some sample_schema) = Inr txt \<and>
    DeltaJSONToSchema txt = Inr (NewRecordSchema ''root'' (Fields (delta_norm False sample_schema)) False)"
proof (rule delta_schema_roundtrip)
  show "DataType sample_schema = TypeRecord" by (simp add: sample_schema_def NewRecordSchema_def)
  show "complete_schema sample_schema"
    by (simp add: sample_schema_def NewRecordSchema_def NewPrimitiveSchema_def NewDecimalSchema_def
        list_schema_def complete_schema.simps decimal_precision_def decimal_scale_def in_int64_def)
qed

text \<open>
  A schema read from a Delta log is a fixed point: writing it again succeeds and the text reads
  back as exactly the schema that was read, so a table can be synced any number of times.
\<close>

theorem delta_schema_stable:
  assumes "DeltaJSONToSchema txt = Inr s"
  shows "\<exists>txt'. SchemaToDeltaJSON (Some s) = Inr txt' \<and> DeltaJSONToSchema txt' = Inr s"
proof -
  from assms obtain dfs flds where s: "s = NewRecordSchema ''root'' flds False"
    and l: "map_res root_field dfs = Inr flds"
    by (auto simp: DeltaJSONToSchema_def split: option.splits prod.splits)
  have f: "norm_field f = f \<and> (\<exists>t. FieldSchema f = Some t \<and> complete_schema t)" if "f \<in> set flds" for f
  proof -
    from map_res_elem [OF l that] obtain d where d: "root_field d = Inr f" by blast
    obtain df t where "d = Some df" and p: "parseDeltaType (dsf_Type df) (dsf_Nullable df) = Inr t"
      and "f = mkField (dsf_Name df) (Some t)"
      by (rule read_field_Inr [OF d [unfolded root_field_eq]]) simp_all
    with parsed_norm [OF p] show ?thesis by (simp add: norm_field_def)
  qed
  then have "map norm_field flds = flds" by (auto intro: map_idI)
  with schema_trip [of s] f show ?thesis by (simp add: s NewRecordSchema_def)
qed

theorem delta_schema_stable_witness:
  "\<exists>txt. SchemaToDeltaJSON (Some (NewRecordSchema ''root'' [] False)) = Inr txt \<and>
    DeltaJSONToSchema txt = Inr (NewRecordSchema ''root'' [] False)"
proof -
  have "json_unmarshal ''null'' = Some JNull" by code_simp
  then have "DeltaJSONToSchema ''null'' = Inr (NewRecordSchema ''root'' [] False)"
    by (simp add: DeltaJSONToSchema_def dec_struct_type_def)
  from delta_schema_stable [OF this] show ?thesis .
qed

end
