(* ===== verification/Go_Scanner.thy ===== *)
theory Go_Scanner
  imports Go_Prelude
begin

text \<open>
  The line scanner of Go's \<^verbatim>\<open>bufio\<close> package, which the Delta and Hudi readers use with its default
  buffer.
\<close>

text \<open>
  \<^verbatim>\<open>bufio.Scanner\<close> with its default buffer: the lines up to the first one of 64 KiB or more, and
  whether there was such a line, which is the scanner's error. A carriage return before the newline
  is dropped, and so is an empty last line.
\<close>

definition drop_cr :: "string \<Rightarrow> string" where
  "drop_cr l = trimSuffix l [CHR 0x0D]"

definition raw_lines :: "string \<Rightarrow> string list" where
  "raw_lines data =
     (let ls = splitChar (CHR 0x0A) data in if last ls = '''' then butlast ls else ls)"

definition max_line :: nat where "max_line = 65536"

definition scan_lines :: "string \<Rightarrow> string list \<times> bool" where
  "scan_lines data =
     (let ls = raw_lines data in
      (map drop_cr (takeWhile (\<lambda>l. length l < max_line) ls), list_ex (\<lambda>l. max_line \<le> length l) ls))"

lemma raw_lines_text:
  assumes "\<forall>l \<in> set ls. CHR 0x0A \<notin> set l"
  shows "raw_lines (concat (map (\<lambda>l. l @ [CHR 0x0A]) ls)) = ls"
proof -
  have "splitChar (CHR 0x0A) (concat (map (\<lambda>l. l @ [CHR 0x0A]) ls)) = ls @ ['''']"
    using assms by (induction ls) (auto simp: splitChar_append_sep)
  then show ?thesis by (simp add: raw_lines_def Let_def)
qed

lemma scan_lines_text:
  assumes "\<And>l. l \<in> set ls \<Longrightarrow> CHR 0x0A \<notin> set l \<and> drop_cr l = l \<and> length l < max_line"
  shows "scan_lines (concat (map (\<lambda>l. l @ [CHR 0x0A]) ls)) = (ls, False)"
proof -
  have "raw_lines (concat (map (\<lambda>l. l @ [CHR 0x0A]) ls)) = ls"
    using assms by (intro raw_lines_text) auto
  moreover have "takeWhile (\<lambda>l. length l < max_line) ls = ls" using assms by (simp add: takeWhile_eq_all_conv)
  moreover have "map drop_cr ls = ls" using assms by (simp add: map_idI)
  moreover have "\<not> list_ex (\<lambda>l. max_line \<le> length l) ls" using assms by (auto simp: list_ex_iff not_le)
  ultimately show ?thesis by (simp only: scan_lines_def Let_def)
qed

end
