(* ===== verification/Delta_Source.thy ===== *)
theory Delta_Source
  imports Delta_Stats Delta_Schema Storage_Memory Go_Scanner
begin

text \<open>
  \<^verbatim>\<open>pkg/formats/delta/source.go\<close> and \<^verbatim>\<open>checkpoint.go\<close>: reading a Delta log from a store. The
  Parquet decoder of a checkpoint file is third-party code and an argument, \<open>decode\<close>. The store is
  the in-memory backend.
\<close>

section \<open>Checkpoints\<close>

record last_checkpoint_file =
  lc_Version :: int
  lc_Size :: int
  lc_Parts :: "int option"

record checkpoint_state =
  cp_Version :: int
  cp_Meta :: metadata_action
  cp_Adds :: "add_action list"

record cp_deletion_vector =
  cpdv_StorageType :: string
  cpdv_PathOrInlineDv :: string
  cpdv_Offset :: "int option"
  cpdv_SizeInBytes :: int
  cpdv_Cardinality :: int

record cp_add =
  cpa_Path :: string
  cpa_PartitionValues :: "(string, string option) gomap"
  cpa_Size :: int
  cpa_ModificationTime :: int
  cpa_DataChange :: bool
  cpa_Stats :: string
  cpa_Tags :: "(string, string) gomap"
  cpa_DeletionVector :: "cp_deletion_vector option"

record cp_meta_data =
  cpm_ID :: string
  cpm_Name :: string
  cpm_Description :: string
  cpm_Provider :: string
  cpm_Options :: "(string, string) gomap"
  cpm_SchemaString :: string
  cpm_PartitionColumns :: "string list"
  cpm_CreatedTime :: "int option"
  cpm_Configuration :: "(string, string) gomap option"

record cp_row =
  cpr_Add :: "cp_add option"
  cpr_MetaData :: "cp_meta_data option"
  cpr_ReaderFeatures :: "string list option"
  cpr_Sidecar :: "string option"

definition meta_toAction :: "cp_meta_data \<Rightarrow> metadata_action" where
  "meta_toAction m =
     \<lparr>md_ID = cpm_ID m, md_Name = cpm_Name m, md_Description = cpm_Description m,
      md_Format = \<lparr>fp_Provider = cpm_Provider m, fp_Options = cpm_Options m\<rparr>,
      md_SchemaString = cpm_SchemaString m, md_PartitionColumns = cpm_PartitionColumns m,
      md_Configuration = cpm_Configuration m,
      md_CreatedTime = (case cpm_CreatedTime m of None \<Rightarrow> 0 | Some t \<Rightarrow> t)\<rparr>"

definition add_toAction :: "cp_add \<Rightarrow> add_action" where
  "add_toAction a =
     \<lparr>add_Path = cpa_Path a, add_PartitionValues = cpa_PartitionValues a, add_Size = cpa_Size a,
      add_ModificationTime = cpa_ModificationTime a, add_DataChange = cpa_DataChange a,
      add_Stats = cpa_Stats a, add_Tags = cpa_Tags a,
      add_DeletionVector =
        map_option (\<lambda>d. \<lparr>dv_StorageType = cpdv_StorageType d, dv_PathOrInlineDv = cpdv_PathOrInlineDv d,
          dv_Offset = cpdv_Offset d, dv_SizeInBytes = cpdv_SizeInBytes d, dv_Cardinality = cpdv_Cardinality d\<rparr>)
          (cpa_DeletionVector a)\<rparr>"

record delta_source =
  ds_storage :: mem_storage
  ds_basePath :: string

definition NewSource :: "mem_storage \<Rightarrow> string \<Rightarrow> delta_source" where
  "NewSource storage basePath = \<lparr>ds_storage = storage, ds_basePath = basePath\<rparr>"

definition log_path :: "string \<Rightarrow> string \<Rightarrow> string" where
  "log_path base name = JoinPath base [''_delta_log'', name]"

definition dec_last_checkpoint :: "json \<Rightarrow> last_checkpoint_file option" where
  "dec_last_checkpoint j =
     Option.bind (struct_members j) (\<lambda>kvs.
     Option.bind (dec_int (jfield ''version'' kvs)) (\<lambda>v.
     Option.bind (dec_int (jfield ''size'' kvs)) (\<lambda>s.
     Option.bind (dec_int_ptr (jfield ''parts'' kvs)) (\<lambda>p.
       Some \<lparr>lc_Version = v, lc_Size = s, lc_Parts = p\<rparr>))))"

definition readLastCheckpoint :: "delta_source \<Rightarrow> last_checkpoint_file option res" where
  "readLastCheckpoint s =
     (let path = log_path (ds_basePath s) ''_last_checkpoint'' in
      case mem_Read (ds_storage s) path of
        Inl e \<Rightarrow> if is_not_found e then Inr None else Inl (ErrWrap (''failed to read '' @ path) e)
      | Inr data \<Rightarrow>
          (case Option.bind (json_unmarshal data) dec_last_checkpoint of
             None \<Rightarrow> Inl (ErrWrap (''failed to parse '' @ path) (ErrMsg ''json''))
           | Some cp \<Rightarrow> Inr (Some cp)))"

definition checkpointPartFiles :: "last_checkpoint_file \<Rightarrow> string list" where
  "checkpointPartFiles cp =
     (case lc_Parts cp of
        None \<Rightarrow> [formatPadded 20 (lc_Version cp) @ ''.checkpoint.parquet'']
      | Some n \<Rightarrow>
          if n \<le> 1 then [formatPadded 20 (lc_Version cp) @ ''.checkpoint.parquet'']
          else map (\<lambda>i. formatPadded 20 (lc_Version cp) @ ''.checkpoint.'' @ formatPadded 10 i @ ''.'' @
                 formatPadded 10 n @ ''.parquet'') [1..n])"

text \<open>The loop over the rows of one part; the accumulators are the state's fields.\<close>

fun checkpoint_rows :: "string \<Rightarrow> cp_row list \<Rightarrow> metadata_action option \<Rightarrow> add_action list \<Rightarrow>
    (metadata_action option \<times> add_action list) res" where
  "checkpoint_rows path [] meta adds = Inr (meta, adds)"
| "checkpoint_rows path (row # rows) meta adds =
     (case cpr_Sidecar row of
        Some (c # sp) \<Rightarrow> Inl (ErrMsg (''delta checkpoint '' @ path @
          '' is a v2 checkpoint with sidecar files, which is not supported yet''))
      | _ \<Rightarrow>
        if (case cpr_ReaderFeatures row of None \<Rightarrow> False | Some fs \<Rightarrow> ''v2Checkpoint'' \<in> set fs)
        then Inl (ErrMsg (''delta checkpoint '' @ path @
          '' declares the v2Checkpoint reader feature, which is not supported yet''))
        else
          (case cpr_MetaData row of
             Some m \<Rightarrow> checkpoint_rows path rows (Some (meta_toAction m)) adds
           | None \<Rightarrow>
               (case cpr_Add row of
                  Some a \<Rightarrow> checkpoint_rows path rows meta (adds @ [add_toAction a])
                | None \<Rightarrow> checkpoint_rows path rows meta adds)))"

fun checkpoint_parts :: "(string \<Rightarrow> cp_row list option) \<Rightarrow> delta_source \<Rightarrow> string list \<Rightarrow> metadata_action option \<Rightarrow>
    add_action list \<Rightarrow> (metadata_action option \<times> add_action list) res" where
  "checkpoint_parts decode s [] meta adds = Inr (meta, adds)"
| "checkpoint_parts decode s (name # names) meta adds =
     (let path = log_path (ds_basePath s) name in
      bind_res (wrap_res (''failed to read delta checkpoint '' @ path) (mem_Read (ds_storage s) path)) (\<lambda>data.
      case decode data of
        None \<Rightarrow> Inl (ErrWrap (''failed to decode delta checkpoint '' @ path) (ErrMsg ''parquet''))
      | Some rows \<Rightarrow>
          bind_res (checkpoint_rows path rows meta adds) (\<lambda>(meta', adds').
            checkpoint_parts decode s names meta' adds')))"

definition readCheckpoint :: "(string \<Rightarrow> cp_row list option) \<Rightarrow> delta_source \<Rightarrow> last_checkpoint_file \<Rightarrow> checkpoint_state res" where
  "readCheckpoint decode s cp =
     bind_res (checkpoint_parts decode s (checkpointPartFiles cp) None []) (\<lambda>(meta, adds).
     case meta of
       None \<Rightarrow> Inl (ErrMsg (''delta checkpoint at version '' @ formatInt (lc_Version cp) @
         '' carries no metaData action''))
     | Some m \<Rightarrow> Inr \<lparr>cp_Version = lc_Version cp, cp_Meta = m, cp_Adds = adds\<rparr>)"

section \<open>The log\<close>

record delta_commit =
  dc_Version :: int
  dc_Actions :: "single_action list"
  dc_CommitTime :: int

text \<open>The version a listed file stands for, when its name is that of a commit.\<close>

definition commit_version :: "string \<Rightarrow> int option" where
  "commit_version path =
     (let base = filepath_Base path in
      if hasSuffix base ''.json'' \<and> \<not> hasPrefix base ''.'' then parseInt (trimSuffix base ''.json'') else None)"

definition listCommitFiles :: "delta_source \<Rightarrow> int list" where
  "listCommitFiles s =
     sort (List.map_filter (\<lambda>f. commit_version (InfoPath f))
       (mem_List (ds_storage s) (JoinPath (ds_basePath s) [''_delta_log''])))"

record log_state =
  ls_checkpoint :: "checkpoint_state option"
  ls_versions :: "int list"

definition latestVersion :: "log_state \<Rightarrow> int option" where
  "latestVersion st =
     (if ls_versions st \<noteq> [] then Some (last (ls_versions st))
      else (case ls_checkpoint st of Some cp \<Rightarrow> Some (cp_Version cp) | None \<Rightarrow> None))"

definition loadLogState :: "(string \<Rightarrow> cp_row list option) \<Rightarrow> delta_source \<Rightarrow> log_state res" where
  "loadLogState decode s =
     (let versions = listCommitFiles s in
      bind_res (readLastCheckpoint s) (\<lambda>lst.
      case lst of
        None \<Rightarrow>
          if versions \<noteq> [] \<and> hd versions > 0
          then Inl (ErrMsg (''delta log at '' @ ds_basePath s @ '' is truncated: earliest commit is version '' @
            formatInt (hd versions) @ '' and no checkpoint exists''))
          else Inr \<lparr>ls_checkpoint = None, ls_versions = versions\<rparr>
      | Some l \<Rightarrow>
          bind_res (readCheckpoint decode s l) (\<lambda>cp.
          Inr \<lparr>ls_checkpoint = Some cp, ls_versions = filter (\<lambda>v. v > cp_Version cp) versions\<rparr>)))"

definition parse_lines :: "string list \<Rightarrow> single_action list option" where
  "parse_lines ls = opt_all unmarshal_action (filter (\<lambda>l. trimSpace l \<noteq> '''') ls)"

definition commit_time :: "single_action list \<Rightarrow> int" where
  "commit_time acts = foldl (\<lambda>t a. case act_CommitInfo a of None \<Rightarrow> t | Some c \<Rightarrow> ci_Timestamp c) 0 acts"

definition commit_file :: "string \<Rightarrow> int \<Rightarrow> string" where
  "commit_file base version = log_path base (formatPadded 20 version @ ''.json'')"

definition readCommit :: "delta_source \<Rightarrow> int \<Rightarrow> delta_commit res" where
  "readCommit s version =
     (let filePath = commit_file (ds_basePath s) version in
      bind_res (wrap_res (''failed to read delta commit '' @ filePath) (mem_Read (ds_storage s) filePath)) (\<lambda>data.
      (let (ls, too_long) = scan_lines data in
       case parse_lines ls of
         None \<Rightarrow> Inl (ErrWrap (''failed to parse action line in commit '' @ formatInt version) (ErrMsg ''json''))
       | Some acts \<Rightarrow>
           if too_long then Inl (ErrMsg ''bufio.Scanner: token too long'')
           else Inr \<lparr>dc_Version = version, dc_Actions = acts, dc_CommitTime = commit_time acts\<rparr>)))"

definition advanceCommitTime :: "int \<Rightarrow> int \<Rightarrow> int" where
  "advanceCommitTime previous raw = (if raw > previous then raw else wrap64 (previous + 1))"

section \<open>Tables\<close>

definition tableFromMetadata :: "delta_source \<Rightarrow> metadata_action \<Rightarrow> int \<Rightarrow> table res" where
  "tableFromMetadata s meta commitTime =
     bind_res (wrap_res ''failed to parse delta schema'' (DeltaJSONToSchema (md_SchemaString meta))) (\<lambda>readSchema.
     Inr \<lparr>TableName = md_Name meta, TableFormat = TableFormatDelta, ReadSchema = Some readSchema,
          LayoutStrategy = LayoutUnset, BasePath = ds_basePath s, DataPath = '''',
          PartitioningFields =
            map (\<lambda>col. mkPartitionField
              (case FieldByPath (Some readSchema) col of
                 Some f \<Rightarrow> f
               | None \<Rightarrow> mkField col (Some (NewPrimitiveSchema TypeString True)))) (md_PartitionColumns meta),
          LatestCommitTime = commitTime, LatestMetadataPath = ''''\<rparr>)"

text \<open>The last metaData action of a commit, or the one in force before it.\<close>

definition latest_meta :: "metadata_action option \<Rightarrow> single_action list \<Rightarrow> metadata_action option" where
  "latest_meta m acts = foldl (\<lambda>m a. case act_MetaData a of None \<Rightarrow> m | Some m' \<Rightarrow> Some m') m acts"

text \<open>The loop of \<^verbatim>\<open>tableAt\<close> over the versions up to the target.\<close>

fun table_walk :: "delta_source \<Rightarrow> int \<Rightarrow> int list \<Rightarrow> metadata_action option \<Rightarrow> int \<Rightarrow>
    (metadata_action option \<times> int) res" where
  "table_walk s targetVer [] meta t = Inr (meta, t)"
| "table_walk s targetVer (v # vs) meta t =
     (if v > targetVer then Inr (meta, t)
      else bind_res (readCommit s v) (\<lambda>commit.
        table_walk s targetVer vs (latest_meta meta (dc_Actions commit))
          (advanceCommitTime t (dc_CommitTime commit))))"

definition tableAt :: "delta_source \<Rightarrow> log_state \<Rightarrow> int \<Rightarrow> table res" where
  "tableAt s state targetVer =
     (if (case ls_checkpoint state of None \<Rightarrow> False | Some cp \<Rightarrow> targetVer < cp_Version cp)
      then Inl (ErrMsg (''delta version '' @ formatInt targetVer @ '' predates the checkpoint at version '' @
        formatInt (cp_Version (the (ls_checkpoint state))) @ '' and its history has been cleaned up''))
      else bind_res (table_walk s targetVer (ls_versions state) (map_option cp_Meta (ls_checkpoint state)) 0) (\<lambda>(meta, t).
        case meta of
          None \<Rightarrow> Inl (ErrMsg (''no metadata action found in delta log up to version '' @ formatInt targetVer))
        | Some m \<Rightarrow> tableFromMetadata s m t))"

definition delta_GetCurrentTable :: "(string \<Rightarrow> cp_row list option) \<Rightarrow> delta_source \<Rightarrow> table res" where
  "delta_GetCurrentTable decode s =
     bind_res (loadLogState decode s) (\<lambda>state.
     case latestVersion state of
       None \<Rightarrow> Inl (ErrMsg (''no delta log commits found in '' @ ds_basePath s))
     | Some v \<Rightarrow> tableAt s state v)"

definition delta_GetTable :: "(string \<Rightarrow> cp_row list option) \<Rightarrow> delta_source \<Rightarrow> string \<Rightarrow> table res" where
  "delta_GetTable decode s commitID =
     (case parseInt commitID of
        None \<Rightarrow> Inl (ErrWrap (''invalid delta commit version '' @ commitID) (ErrMsg ''strconv.ParseInt''))
      | Some v \<Rightarrow> bind_res (loadLogState decode s) (\<lambda>state. tableAt s state v))"

definition tableAsOf :: "table \<Rightarrow> int \<Rightarrow> table" where
  "tableAsOf tbl commitTime = tbl\<lparr>LatestCommitTime := commitTime\<rparr>"

section \<open>Files\<close>

definition resolveDataPath :: "string \<Rightarrow> string \<Rightarrow> string" where
  "resolveDataPath basePath relPath =
     (if fst (TrimScheme relPath) \<noteq> '''' \<or> hasPrefix relPath ''/'' then relPath else JoinPath basePath [relPath])"

text \<open>The statistics of one field, without those of its nested fields.\<close>

definition field_stat :: "(string, any) gomap \<Rightarrow> (string, any) gomap \<Rightarrow> (string, any) gomap \<Rightarrow> string \<Rightarrow> field \<Rightarrow>
    column_stat list res" where
  "field_stat minValues maxValues nullCounts path f =
     (let mn = map_of minValues path; mx = map_of maxValues path in
      bind_res
        (case map_of nullCounts path of
           None \<Rightarrow> Inr None
         | Some raw \<Rightarrow>
             (case int64FromStatsValue raw of
                None \<Rightarrow> Inl (ErrMsg (''nullCount at '' @ quoted path @ '' is not a number ('' @ go_type raw @ '')''))
              | Some n \<Rightarrow> Inr (Some n)))
        (\<lambda>nulls.
          if mn \<noteq> None \<or> mx \<noteq> None \<or> nulls \<noteq> None then
            Inr [\<lparr>StatField = Some f,
                  StatRange = (if mn \<noteq> None \<or> mx \<noteq> None
                    then Some (NewRange (case mn of Some x \<Rightarrow> x | None \<Rightarrow> ANil) (case mx of Some x \<Rightarrow> x | None \<Rightarrow> ANil))
                    else None),
                  NumNulls = (case nulls of Some n \<Rightarrow> n | None \<Rightarrow> 0), NumNaNs = 0, TotalValues = 0\<rparr>]
          else Inr []))"

function columnStatsFromFlatMaps :: "schema \<Rightarrow> string \<Rightarrow> (string, any) gomap \<Rightarrow> (string, any) gomap \<Rightarrow>
    (string, any) gomap \<Rightarrow> column_stat list res" where
  "columnStatsFromFlatMaps s pre minValues maxValues nullCounts =
     bind_res
       (map_res (\<lambda>f.
          (let path = sub_path pre (FieldName f) in
           bind_res (field_stat minValues maxValues nullCounts path f) (\<lambda>own.
           case FieldSchema f of
             None \<Rightarrow> Inr own
           | Some t \<Rightarrow>
               if DataType t = TypeRecord
               then bind_res (columnStatsFromFlatMaps t path minValues maxValues nullCounts) (\<lambda>nested. Inr (own @ nested))
               else Inr own)))
         (Fields s))
       (\<lambda>xs. Inr (concat xs))"
  by pat_completeness auto
termination
  by (relation "measure (\<lambda>(s, _). size s)") (auto intro: size_child_field)

declare columnStatsFromFlatMaps.simps [simp del]

definition partition_values_of :: "add_action \<Rightarrow> table \<Rightarrow> partition_value list res" where
  "partition_values_of add tbl =
     (if add_PartitionValues add = [] then Inr []
      else bind_res
        (map_res (\<lambda>pf.
           case SourceField pf of
             None \<Rightarrow> Inl nil_panic
           | Some f \<Rightarrow>
               (case map_of (add_PartitionValues add) (FieldName f) of
                  None \<Rightarrow> Inr []
                | Some val \<Rightarrow>
                    Inr [\<lparr>PVField = Some pf,
                          PVRange = Some (NewScalarRange (case val of None \<Rightarrow> ANil | Some x \<Rightarrow> AStr x))\<rparr>]))
           (PartitioningFields tbl))
        (\<lambda>xs. Inr (concat xs)))"

definition stats_of_add :: "add_action \<Rightarrow> table \<Rightarrow> (int \<times> column_stat list) res" where
  "stats_of_add add tbl =
     (if add_Stats add = '''' then Inr (0, [])
      else
        (case Option.bind (json_unmarshal (add_Stats add)) dec_stats of
           None \<Rightarrow> Inl (ErrWrap (''delta: parsing stats for '' @ add_Path add) (ErrMsg ''json''))
         | Some st \<Rightarrow>
             (case ReadSchema tbl of
                None \<Rightarrow> Inr (sb_NumRecords st, [])
              | Some sch \<Rightarrow>
                  bind_res (wrap_res (''delta: stats for '' @ add_Path add)
                    (columnStatsFromFlatMaps sch '''' (flattenStatsMap (sb_MinValues st) '''' [])
                      (flattenStatsMap (sb_MaxValues st) '''' []) (flattenStatsMap (sb_NullCount st) '''' [])))
                  (\<lambda>cols. Inr (sb_NumRecords st, cols)))))"

definition convertAddAction :: "delta_source \<Rightarrow> add_action \<Rightarrow> table \<Rightarrow> data_file res" where
  "convertAddAction s add tbl =
     bind_res (partition_values_of add tbl) (\<lambda>pvs.
     bind_res (stats_of_add add tbl) (\<lambda>(n, cols).
     Inr \<lparr>PhysicalPath = resolveDataPath (ds_basePath s) (add_Path add), FileFormat = FileFormatParquet,
          FileSizeBytes = add_Size add, RecordCount = n, PartitionValues = pvs, ColumnStats = cols,
          LastModified = add_ModificationTime add,
          DeletionVector =
            map_option (\<lambda>d. \<lparr>StoragePath = dv_PathOrInlineDv d,
              DVOffset = (case dv_Offset d of None \<Rightarrow> 0 | Some off \<Rightarrow> off),
              SizeInBytes = dv_SizeInBytes d, Cardinality = dv_Cardinality d, InlineBytes = ''''\<rparr>)
              (add_DeletionVector add)\<rparr>))"

section \<open>The snapshot\<close>

fun replay_adds :: "delta_source \<Rightarrow> table \<Rightarrow> add_action list \<Rightarrow> (string, data_file) gomap \<Rightarrow> (string, data_file) gomap res" where
  "replay_adds s tbl [] active = Inr active"
| "replay_adds s tbl (add # adds) active =
     bind_res (convertAddAction s add tbl) (\<lambda>df. replay_adds s tbl adds (map_put (add_Path add) df active))"

fun replay_actions :: "delta_source \<Rightarrow> table \<Rightarrow> single_action list \<Rightarrow> (string, data_file) gomap \<Rightarrow> (string, data_file) gomap res" where
  "replay_actions s tbl [] active = Inr active"
| "replay_actions s tbl (a # acts) active =
     (case act_Add a of
        Some add \<Rightarrow>
          bind_res (convertAddAction s add tbl) (\<lambda>df. replay_actions s tbl acts (map_put (add_Path add) df active))
      | None \<Rightarrow>
          (case act_Remove a of
             Some rm \<Rightarrow> replay_actions s tbl acts (map_del (rm_Path rm) active)
           | None \<Rightarrow> replay_actions s tbl acts active))"

fun replay_commits :: "delta_source \<Rightarrow> table \<Rightarrow> int list \<Rightarrow> (string, data_file) gomap \<Rightarrow> (string, data_file) gomap res" where
  "replay_commits s tbl [] active = Inr active"
| "replay_commits s tbl (v # vs) active =
     bind_res (readCommit s v) (\<lambda>commit.
     bind_res (replay_actions s tbl (dc_Actions commit) active) (\<lambda>active'. replay_commits s tbl vs active'))"

definition delta_GetCurrentSnapshot :: "(string \<Rightarrow> cp_row list option) \<Rightarrow> delta_source \<Rightarrow> snapshot res" where
  "delta_GetCurrentSnapshot decode s =
     bind_res (loadLogState decode s) (\<lambda>state.
     case latestVersion state of
       None \<Rightarrow> Inl (ErrMsg (''no delta commits found in '' @ ds_basePath s))
     | Some latestVer \<Rightarrow>
         bind_res (tableAt s state latestVer) (\<lambda>tbl.
         bind_res (replay_adds s tbl (case ls_checkpoint state of None \<Rightarrow> [] | Some cp \<Rightarrow> cp_Adds cp) []) (\<lambda>active.
         bind_res (replay_commits s tbl (ls_versions state) active) (\<lambda>activeFiles.
         Inr \<lparr>SnapTable = tbl, PartitionedDataFiles = [], DataFiles = map snd activeFiles,
              SnapSourceIdentifier = formatInt latestVer\<rparr>))))"

section \<open>Changes\<close>

definition removed_file :: "delta_source \<Rightarrow> remove_action \<Rightarrow> data_file" where
  "removed_file s rm =
     \<lparr>PhysicalPath = resolveDataPath (ds_basePath s) (rm_Path rm), FileFormat = FileFormatParquet,
      FileSizeBytes = 0, RecordCount = 0, PartitionValues = [], ColumnStats = [], LastModified = 0,
      DeletionVector = None\<rparr>"

definition changeFromCommit :: "delta_source \<Rightarrow> delta_commit \<Rightarrow> table \<Rightarrow> table_change res" where
  "changeFromCommit s commit tbl =
     bind_res (map_res (\<lambda>add. convertAddAction s add tbl) (List.map_filter act_Add (dc_Actions commit))) (\<lambda>added.
     Inr \<lparr>FilesDiff = \<lparr>FilesAdded = added,
            FilesRemoved = map (removed_file s) (List.map_filter act_Remove (dc_Actions commit))\<rparr>,
          TableAsOfChange = tbl, ChangeSourceIdentifier = formatInt (dc_Version commit),
          CommitTime = LatestCommitTime tbl\<rparr>)"

definition delta_GetTableChangeForCommit :: "(string \<Rightarrow> cp_row list option) \<Rightarrow> delta_source \<Rightarrow> string \<Rightarrow> table_change res" where
  "delta_GetTableChangeForCommit decode s commitID =
     (case parseInt commitID of
        None \<Rightarrow> Inl (ErrWrap (''invalid commit ID '' @ commitID) (ErrMsg ''strconv.ParseInt''))
      | Some v \<Rightarrow>
          bind_res (readCommit s v) (\<lambda>commit.
          bind_res (delta_GetTable decode s commitID) (\<lambda>tbl.
          changeFromCommit s commit tbl)))"

text \<open>The table after the metaData actions of a commit.\<close>

fun commit_table :: "delta_source \<Rightarrow> int \<Rightarrow> single_action list \<Rightarrow> table option \<Rightarrow> table option res" where
  "commit_table s t [] tbl = Inr tbl"
| "commit_table s t (a # acts) tbl =
     (case act_MetaData a of
        None \<Rightarrow> commit_table s t acts tbl
      | Some m \<Rightarrow> bind_res (tableFromMetadata s m t) (\<lambda>tbl'. commit_table s t acts (Some tbl')))"

fun changes_walk :: "delta_source \<Rightarrow> int \<Rightarrow> int list \<Rightarrow> table option \<Rightarrow> int \<Rightarrow> table_change list \<Rightarrow>
    (table_change list \<times> table option \<times> int) res" where
  "changes_walk s fromInstant [] tbl t changes = Inr (changes, tbl, t)"
| "changes_walk s fromInstant (v # vs) tbl t changes =
     bind_res (readCommit s v) (\<lambda>commit.
     let t' = advanceCommitTime t (dc_CommitTime commit) in
     bind_res (commit_table s t' (dc_Actions commit) tbl) (\<lambda>tbl'.
     if t' \<le> fromInstant then changes_walk s fromInstant vs tbl' t' changes
     else
       (case tbl' of
          None \<Rightarrow> Inl (ErrMsg (''no metadata action found in delta log up to version '' @ formatInt v))
        | Some tb \<Rightarrow>
            bind_res (changeFromCommit s commit (tableAsOf tb t')) (\<lambda>change.
            changes_walk s fromInstant vs tbl' t' (changes @ [change])))))"

definition delta_GetChangesSince :: "(string \<Rightarrow> cp_row list option) \<Rightarrow> delta_source \<Rightarrow> int \<Rightarrow> incremental_changes res" where
  "delta_GetChangesSince decode s fromInstant =
     bind_res (loadLogState decode s) (\<lambda>state.
     case latestVersion state of
       None \<Rightarrow> Inl (ErrMsg (''no delta log commits found in '' @ ds_basePath s))
     | Some latest \<Rightarrow>
         bind_res (case ls_checkpoint state of
             None \<Rightarrow> Inr None
           | Some cp \<Rightarrow> bind_res (tableFromMetadata s (cp_Meta cp) 0) (\<lambda>tbl. Inr (Some tbl))) (\<lambda>tbl0.
         bind_res (changes_walk s fromInstant (ls_versions state) tbl0 0 []) (\<lambda>(changes, tbl, t).
         case tbl of
           None \<Rightarrow> Inl (ErrMsg (''no metadata action found in delta log up to version '' @ formatInt latest))
         | Some tb \<Rightarrow> Inr \<lparr>TableChanges = changes, CurrentTable = tableAsOf tb t\<rparr>)))"

definition delta_IsIncrementalSyncSafeFrom :: "delta_source \<Rightarrow> int \<Rightarrow> bool res" where
  "delta_IsIncrementalSyncSafeFrom s earliestInstant =
     (case listCommitFiles s of
        [] \<Rightarrow> Inr False
      | v # _ \<Rightarrow>
          bind_res (readCommit s v) (\<lambda>first.
          if dc_CommitTime first \<le> 0 then Inr False else Inr (dc_CommitTime first \<le> earliestInstant)))"

end
