(* ===== verification/Delta_Target.thy ===== *)
theory Delta_Target
  imports Delta_Source Model_Sync_Metadata
begin

text \<open>
  \<^verbatim>\<open>pkg/formats/delta/target.go\<close>: writing snapshots and changes as commits of a Delta log. The clock
  and the generator of UUIDs are arguments (\<open>commit_env\<close>). A commit that fails leaves the store as
  it was; of several changes the ones before the failure stay, so the operations return the target
  together with the error.
\<close>

record commit_env =
  ce_now :: int
  ce_uuid :: string
  ce_write_time :: int

record delta_target =
  dt_storage :: mem_storage
  dt_targetTable :: "table option"

definition NewTarget :: "mem_storage \<Rightarrow> delta_target" where
  "NewTarget storage = \<lparr>dt_storage = storage, dt_targetTable = None\<rparr>"

definition delta_Init :: "delta_target \<Rightarrow> table \<Rightarrow> delta_target" where
  "delta_Init t targetTable = t\<lparr>dt_targetTable := Some targetTable\<rparr>"

text \<open>The source a target reads its own log with; there is none before \<^verbatim>\<open>Init\<close>.\<close>

definition dt_source :: "delta_target \<Rightarrow> delta_source option" where
  "dt_source t = map_option (\<lambda>tb. NewSource (dt_storage t) (BasePath tb)) (dt_targetTable t)"

section \<open>The watermark\<close>

fun metadata_in :: "single_action list \<Rightarrow> sync_metadata option" where
  "metadata_in [] = None"
| "metadata_in (a # acts) =
     (case Option.bind (act_MetaData a) md_Configuration of
        None \<Rightarrow> metadata_in acts
      | Some config \<Rightarrow>
          map_option (\<lambda>m. m\<lparr>TargetFormat := TableFormatDelta, CustomProperties := config\<rparr>)
            (ReadSyncMetadataFromProperties config))"

definition delta_GetTableMetadata :: "delta_target \<Rightarrow> sync_metadata option res" where
  "delta_GetTableMetadata t =
     (case dt_source t of
        None \<Rightarrow> Inr None
      | Some src \<Rightarrow>
          (let versions = listCommitFiles src in
           if versions = [] then Inr None
           else bind_res (readCommit src (last versions)) (\<lambda>commit. Inr (metadata_in (dc_Actions commit)))))"

section \<open>Actions\<close>

definition makeRelativePath :: "string \<Rightarrow> string \<Rightarrow> string" where
  "makeRelativePath base path = (case RelativizePath path base of Inr rel \<Rightarrow> rel | Inl _ \<Rightarrow> path)"

definition put_partition_value :: "(string, string option) gomap \<Rightarrow> partition_value \<Rightarrow> (string, string option) gomap" where
  "put_partition_value m pv =
     (case (PVField pv, PVRange pv) of
        (Some pf, Some r) \<Rightarrow>
          (case SourceField pf of
             None \<Rightarrow> m
           | Some f \<Rightarrow>
               map_put (FieldName f) (if MinValue r = ANil then None else Some (sprintv (MinValue r))) m)
      | _ \<Rightarrow> m)"

definition convertDataFileToAddAction :: "string \<Rightarrow> data_file \<Rightarrow> add_action" where
  "convertDataFileToAddAction base df =
     \<lparr>add_Path = makeRelativePath base (PhysicalPath df),
      add_PartitionValues = foldl put_partition_value [] (PartitionValues df),
      add_Size = FileSizeBytes df, add_ModificationTime = LastModified df, add_DataChange = True,
      add_Stats = marshal_stats (stats_of_file df), add_Tags = [],
      add_DeletionVector =
        map_option (\<lambda>d. \<lparr>dv_StorageType = ''u'', dv_PathOrInlineDv = StoragePath d, dv_Offset = Some (DVOffset d),
          dv_SizeInBytes = SizeInBytes d, dv_Cardinality = Cardinality d\<rparr>) (DeletionVector df)\<rparr>"

text \<open>The names of the partition columns; a partition field without a source field is a nil dereference.\<close>

definition partition_columns :: "table \<Rightarrow> string list res" where
  "partition_columns tbl =
     map_res (\<lambda>pf. case SourceField pf of None \<Rightarrow> Inl nil_panic | Some f \<Rightarrow> Inr (FieldName f)) (PartitioningFields tbl)"

definition watermark :: "int \<Rightarrow> table_format \<Rightarrow> string \<Rightarrow> sync_metadata" where
  "watermark instant fmt ident =
     \<lparr>LastInstantSynced = instant, InstantsToConsiderForNextSync = [], SourceFormat = fmt, TargetFormat = '''',
      SourceIdentifier = ident, CustomProperties = []\<rparr>"

definition metadata_action_of :: "commit_env \<Rightarrow> string \<Rightarrow> string \<Rightarrow> string list \<Rightarrow> sync_metadata \<Rightarrow> single_action" where
  "metadata_action_of env name schemaJSON cols wm =
     emptyAction\<lparr>act_MetaData := Some \<lparr>md_ID = ce_uuid env, md_Name = name, md_Description = '''',
       md_Format = NewParquetFormat, md_SchemaString = schemaJSON, md_PartitionColumns = cols,
       md_Configuration = Some (WriteSyncMetadataProperties [] wm), md_CreatedTime = ce_now env\<rparr>\<rparr>"

definition protocol_of :: single_action where
  "protocol_of = emptyAction\<lparr>act_Protocol := Some \<lparr>MinReaderVersion = 1, MinWriterVersion = 2\<rparr>\<rparr>"

definition add_of :: "string \<Rightarrow> data_file \<Rightarrow> single_action" where
  "add_of base df = emptyAction\<lparr>act_Add := Some (convertDataFileToAddAction base df)\<rparr>"

definition remove_of :: "string \<Rightarrow> int \<Rightarrow> data_file \<Rightarrow> single_action" where
  "remove_of base now df =
     emptyAction\<lparr>act_Remove := Some \<lparr>rm_Path = makeRelativePath base (PhysicalPath df), rm_DeletionTimestamp = now,
       rm_DataChange = True, rm_ExtendedFileMetadata = False, rm_PartitionValues = [], rm_Size = None\<rparr>\<rparr>"

definition commit_info_of :: "int \<Rightarrow> string \<Rightarrow> single_action" where
  "commit_info_of now oper =
     emptyAction\<lparr>act_CommitInfo := Some \<lparr>ci_Timestamp = now, ci_Operation = oper, ci_OperationParameters = [],
       ci_EngineInfo = ''polytable'', ci_AppID = ''''\<rparr>\<rparr>"

section \<open>Commits\<close>

definition commit_text :: "single_action list \<Rightarrow> string" where
  "commit_text actions = concat (map (\<lambda>a. marshal_action a @ [CHR 0x0A]) actions)"

definition writeCommitFile :: "delta_target \<Rightarrow> table \<Rightarrow> int \<Rightarrow> single_action list \<Rightarrow> int \<Rightarrow> delta_target" where
  "writeCommitFile t tbl version actions wtime =
     t\<lparr>dt_storage := mem_Write (dt_storage t) (commit_file (BasePath tbl) version) (commit_text actions) wtime\<rparr>"

definition next_version :: "delta_source \<Rightarrow> int" where
  "next_version src =
     (let versions = listCommitFiles src in if versions = [] then 0 else wrap64 (last versions + 1))"

definition snapshot_actions :: "commit_env \<Rightarrow> table \<Rightarrow> snapshot \<Rightarrow> single_action list res" where
  "snapshot_actions env target snap =
     bind_res (wrap_res ''failed to convert schema to delta JSON'' (SchemaToDeltaJSON (ReadSchema (SnapTable snap)))) (\<lambda>schemaJSON.
     bind_res (partition_columns (SnapTable snap)) (\<lambda>cols.
     Inr ([protocol_of,
           metadata_action_of env (TableName (SnapTable snap)) schemaJSON cols
             (watermark (LatestCommitTime (SnapTable snap)) (TableFormat (SnapTable snap)) (SnapSourceIdentifier snap))] @
          map (add_of (BasePath target)) (AllDataFiles snap) @
          [commit_info_of (ce_now env) ''POLYTABLE_SYNC_SNAPSHOT''])))"

definition delta_CommitSnapshot :: "commit_env \<Rightarrow> delta_target \<Rightarrow> snapshot \<Rightarrow> delta_target \<times> gerr option" where
  "delta_CommitSnapshot env t snap =
     (case (dt_source t, dt_targetTable t) of
        (Some src, Some target) \<Rightarrow>
          (case snapshot_actions env target snap of
             Inl e \<Rightarrow> (t, Some e)
           | Inr actions \<Rightarrow> (writeCommitFile t target (next_version src) actions (ce_write_time env), None))
      | _ \<Rightarrow> (t, Some nil_panic))"

definition change_actions :: "commit_env \<Rightarrow> table \<Rightarrow> table_change \<Rightarrow> single_action list res" where
  "change_actions env target change =
     (let tbl = TableAsOfChange change in
      bind_res (SchemaToDeltaJSON (ReadSchema tbl)) (\<lambda>schemaJSON.
      bind_res (partition_columns tbl) (\<lambda>cols.
      Inr ([metadata_action_of env (TableName tbl) schemaJSON cols
              (watermark (CommitTime change) (TableFormat tbl) (ChangeSourceIdentifier change))] @
           map (remove_of (BasePath target) (ce_now env)) (FilesRemoved (FilesDiff change)) @
           map (add_of (BasePath target)) (FilesAdded (FilesDiff change)) @
           [commit_info_of (ce_now env) ''POLYTABLE_SYNC_INCREMENTAL'']))))"

text \<open>The loop of \<^verbatim>\<open>CommitChanges\<close>; \<open>env i\<close> is the environment of the change at index \<open>i\<close>.\<close>

fun commit_changes :: "(nat \<Rightarrow> commit_env) \<Rightarrow> nat \<Rightarrow> delta_target \<Rightarrow> table_change list \<Rightarrow> delta_target \<times> gerr option" where
  "commit_changes env i t [] = (t, None)"
| "commit_changes env i t (change # changes) =
     (case (dt_source t, dt_targetTable t) of
        (Some src, Some target) \<Rightarrow>
          (case change_actions (env i) target change of
             Inl e \<Rightarrow> (t, Some e)
           | Inr actions \<Rightarrow>
               commit_changes env (Suc i)
                 (writeCommitFile t target (next_version src) actions (ce_write_time (env i))) changes)
      | _ \<Rightarrow> (t, Some nil_panic))"

definition delta_CommitChanges :: "(nat \<Rightarrow> commit_env) \<Rightarrow> delta_target \<Rightarrow> incremental_changes \<Rightarrow> delta_target \<times> gerr option" where
  "delta_CommitChanges env t changes = commit_changes env 0 t (TableChanges changes)"

end
