(* ===== verification/Delta_Roundtrip.thy ===== *)
theory Delta_Roundtrip
  imports Delta_Target Delta_Log
begin

text \<open>
  The Delta target against the Delta source: what a commit written by polytable is when it is read
  back. The lemmas go from the bytes of a commit file to its actions and from the store to its list
  of versions.
\<close>

section \<open>One commit\<close>

lemma marshal_action_printable: "c \<in> set (marshal_action a) \<Longrightarrow> printable c"
  unfolding marshal_action_def by (rule json_print_printable [OF wf_json_action])

lemma marshal_action_ends: "\<exists>m. marshal_action a = CHR ''{'' # m @ [CHR ''}'']"
  by (simp add: marshal_action_def enc_action_def)

lemma marshal_action_line:
  "CHR 0x0A \<notin> set (marshal_action a)" "drop_cr (marshal_action a) = marshal_action a"
  "trimSpace (marshal_action a) \<noteq> ''''"
proof -
  show "CHR 0x0A \<notin> set (marshal_action a)"
    using marshal_action_printable [of "CHR 0x0A" a] by (auto simp: printable_def)
  obtain m where m: "marshal_action a = CHR ''{'' # m @ [CHR ''}'']" using marshal_action_ends by blast
  show "drop_cr (marshal_action a) = marshal_action a"
    by (auto simp: drop_cr_def trimSuffix_def hasSuffix_iff m)
  show "trimSpace (marshal_action a) \<noteq> ''''"
    using trimSpace_idem_hd [of "marshal_action a"] by (simp add: m is_space_def)
qed

text \<open>The lines of a commit that fit into the reader's buffer.\<close>

definition lines_fit :: "single_action list \<Rightarrow> bool" where
  "lines_fit acts \<longleftrightarrow> list_all (\<lambda>a. length (marshal_action a) < max_line) acts"

lemma scan_commit_text:
  assumes "lines_fit acts"
  shows "scan_lines (commit_text acts) = (map marshal_action acts, False)"
proof -
  have "commit_text acts = concat (map (\<lambda>l. l @ [CHR 0x0A]) (map marshal_action acts))"
    by (simp add: commit_text_def comp_def)
  moreover have "CHR 0x0A \<notin> set l \<and> drop_cr l = l \<and> length l < max_line"
    if "l \<in> set (map marshal_action acts)" for l
    using that assms marshal_action_line by (auto simp: lines_fit_def list_all_iff)
  ultimately show ?thesis using scan_lines_text [of "map marshal_action acts"] by simp
qed

lemma parse_commit_lines:
  assumes "list_all wf_action acts"
  shows "parse_lines (map marshal_action acts) = Some (map canon_action acts)"
proof -
  have "filter (\<lambda>l. trimSpace l \<noteq> '''') (map marshal_action acts) = map marshal_action acts"
    by (simp add: filter_id_conv marshal_action_line(3))
  moreover have "opt_all unmarshal_action (map marshal_action acts) = Some (map canon_action acts)"
    by (rule opt_all_map) (use assms in \<open>simp add: unmarshal_marshal_action list_all_iff\<close>)
  ultimately show ?thesis by (simp add: parse_lines_def)
qed

lemma commit_time_canon: "commit_time (map canon_action acts) = commit_time acts"
proof -
  have "foldl (\<lambda>t a. case act_CommitInfo a of None \<Rightarrow> t | Some c \<Rightarrow> ci_Timestamp c) t (map canon_action acts) =
      foldl (\<lambda>t a. case act_CommitInfo a of None \<Rightarrow> t | Some c \<Rightarrow> ci_Timestamp c) t acts" for t
    by (induction acts arbitrary: t) (auto simp: canon_action_def canon_commit_info_def split: option.splits)
  then show ?thesis by (simp add: commit_time_def)
qed

text \<open>A commit file that holds written actions reads back as those actions.\<close>

lemma readCommit_text:
  assumes "mem_Read (ds_storage s) (commit_file (ds_basePath s) v) = Inr (commit_text acts)"
    and "list_all wf_action acts" and "lines_fit acts"
  shows "readCommit s v = Inr \<lparr>dc_Version = v, dc_Actions = map canon_action acts, dc_CommitTime = commit_time acts\<rparr>"
  using assms by (simp add: readCommit_def Let_def scan_commit_text parse_commit_lines commit_time_canon)

text \<open>
  A line of 64 KiB or more makes the whole commit unreadable, although \<^verbatim>\<open>writeCommitFile\<close> writes it
  without complaint.
\<close>

lemma readCommit_long_line:
  assumes "mem_Read (ds_storage s) (commit_file (ds_basePath s) v) = Inr (commit_text acts)"
    and "\<not> lines_fit acts"
  shows "\<exists>e. readCommit s v = Inl e"
proof -
  have "raw_lines (commit_text acts) = map marshal_action acts"
    using raw_lines_text [of "map marshal_action acts"] marshal_action_line(1)
    by (auto simp: commit_text_def comp_def)
  then have "snd (scan_lines (commit_text acts))"
    using assms(2) by (auto simp: scan_lines_def Let_def lines_fit_def list_all_iff list_ex_iff not_less)
  with assms(1) show ?thesis
    by (auto simp: readCommit_def Let_def split: option.splits prod.splits)
qed

section \<open>The versions in the store\<close>

definition log_dir :: "string \<Rightarrow> string" where
  "log_dir base = JoinPath base [''_delta_log'']"

lemma proper_log_dir: "proper_seg ''_delta_log''"
  by (simp add: proper_seg_def)

lemma log_path_eq:
  assumes "table_base base" "proper_seg name"
  shows "log_path base name = log_dir base @ ''/'' @ name"
  unfolding log_path_def log_dir_def by (rule JoinPath_dir_file [OF assms(1) proper_log_dir assms(2)])

lemma commit_name_proper: "proper_seg (formatPadded w v @ ''.json'')"
proof -
  have "CHR ''/'' \<notin> set (formatPadded w v)" using formatPadded_chars [of "CHR ''/''" w v] by (auto simp: is_digit_def)
  moreover have "formatPadded w v @ ''.json'' \<noteq> ''.''" "formatPadded w v @ ''.json'' \<noteq> ''..''"
    by (auto simp: append_eq_Cons_conv)
  ultimately show ?thesis by (simp add: proper_seg_def)
qed

lemma commit_file_eq:
  "table_base base \<Longrightarrow> commit_file base v = log_dir base @ ''/'' @ formatPadded 20 v @ ''.json''"
  unfolding commit_file_def by (rule log_path_eq [OF _ commit_name_proper])

lemma formatPadded_hd: "formatPadded w v \<noteq> [] \<and> hd (formatPadded w v) \<noteq> CHR ''.''"
proof -
  have ne: "formatPadded w v \<noteq> []" by (simp add: formatPadded_def)
  moreover have "hd (formatPadded w v) \<in> set (formatPadded w v)" using ne by simp
  from formatPadded_chars [OF this] have "hd (formatPadded w v) \<noteq> CHR ''.''" by (auto simp: is_digit_def)
  ultimately show ?thesis by blast
qed

lemma commit_version_file:
  assumes "table_base base" "in_int64 v"
  shows "commit_version (commit_file base v) = Some v"
proof -
  let ?n = "formatPadded 20 v @ ''.json''"
  have "?n \<noteq> ''''" "CHR ''/'' \<notin> set ?n" using commit_name_proper [of 20 v] by (auto simp: proper_seg_def)
  from filepath_Base_append [OF this, of "log_dir base"]
  have base: "filepath_Base (commit_file base v) = ?n" by (simp only: commit_file_eq [OF assms(1)])
  have "\<not> hasPrefix ?n ''.''" using formatPadded_hd [of 20 v] by (cases "formatPadded 20 v") auto
  moreover have "hasSuffix ?n ''.json''" "trimSuffix ?n ''.json'' = formatPadded 20 v"
    by (rule hasSuffix_append) (rule trimSuffix_append)
  ultimately show ?thesis using assms(2) unfolding commit_version_def Let_def base by simp
qed

text \<open>Writing the commit after the last one adds its version to the end of the list.\<close>

lemma versions_mset:
  "mset (listCommitFiles s) =
     image_mset the (filter_mset (\<lambda>x. x \<noteq> None) (image_mset commit_version
       (mset (map InfoPath (mem_List (ds_storage s) (log_dir (ds_basePath s)))))))"
  by (simp add: listCommitFiles_def log_dir_def mset_map_filter)

lemma listCommitFiles_sorted: "sorted (listCommitFiles s)"
  by (simp add: listCommitFiles_def)

lemma listCommitFiles_write:
  assumes "mem_invar (ds_storage s)" "table_base (ds_basePath s)" "in_int64 v"
    and "mem_Read (ds_storage s) (commit_file (ds_basePath s) v) = Inl e"
    and "\<forall>u \<in> set (listCommitFiles s). u \<le> v"
  shows "listCommitFiles (s\<lparr>ds_storage := mem_Write (ds_storage s) (commit_file (ds_basePath s) v) d t\<rparr>) = listCommitFiles s @ [v]"
proof -
  let ?s = "s\<lparr>ds_storage := mem_Write (ds_storage s) (commit_file (ds_basePath s) v) d t\<rparr>"
  have "hasPrefix (commit_file (ds_basePath s) v) (log_dir (ds_basePath s))"
    unfolding commit_file_eq [OF assms(2)] by (rule hasPrefix_append)
  from listing_write [OF assms(1) this assms(4), of d t]
  have "mset (listCommitFiles ?s) = add_mset v (mset (listCommitFiles s))"
    by (simp add: versions_mset commit_version_file [OF assms(2,3)])
  then have "mset (listCommitFiles s @ [v]) = mset (listCommitFiles ?s)" by simp
  moreover have "sorted (listCommitFiles s @ [v])"
    using listCommitFiles_sorted [of s] assms(5) by (simp add: sorted_append)
  ultimately show ?thesis
    by (metis properties_for_sort listCommitFiles_sorted sorted_sort_id)
qed

section \<open>A log written by polytable\<close>

text \<open>
  The commits of a table directory that only polytable has written to: \<open>hist\<close> holds the actions of
  commit 0, 1, \<open>\<dots>\<close>, every one readable, and there is no checkpoint.
\<close>

definition polytable_log :: "delta_source \<Rightarrow> single_action list list \<Rightarrow> bool" where
  "polytable_log s hist \<longleftrightarrow>
     mem_invar (ds_storage s) \<and> table_base (ds_basePath s) \<and>
     listCommitFiles s = map int [0..<length hist] \<and>
     (\<forall>i < length hist. mem_Read (ds_storage s) (commit_file (ds_basePath s) (int i)) = Inr (commit_text (hist ! i))) \<and>
     list_all (\<lambda>acts. list_all wf_action acts \<and> lines_fit acts) hist \<and>
     int (length hist) < max_int64 \<and>
     (\<exists>e. mem_Read (ds_storage s) (log_path (ds_basePath s) ''_last_checkpoint'') = Inl e)"

definition commits_of :: "single_action list list \<Rightarrow> delta_commit list" where
  "commits_of hist =
     map (\<lambda>i. \<lparr>dc_Version = int i, dc_Actions = map canon_action (hist ! i), dc_CommitTime = commit_time (hist ! i)\<rparr>)
       [0..<length hist]"

lemma length_commits_of [simp]: "length (commits_of hist) = length hist"
  by (simp add: commits_of_def)

lemma polytable_log_read:
  assumes "polytable_log s hist"
  shows "map_res (readCommit s) (map int [0..<length hist]) = Inr (commits_of hist)"
  unfolding map_res_map commits_of_def
  by (rule map_res_all_Inr)
    (use assms in \<open>auto simp: polytable_log_def list_all_length intro!: readCommit_text\<close>)

lemma polytable_log_state:
  assumes "polytable_log s hist"
  shows "loadLogState decode s = Inr \<lparr>ls_checkpoint = None, ls_versions = map int [0..<length hist]\<rparr>"
proof -
  from assms obtain e where e: "mem_Read (ds_storage s) (log_path (ds_basePath s) ''_last_checkpoint'') = Inl e"
    by (auto simp: polytable_log_def)
  then have "is_not_found e" by (rule mem.read_error)
  with e have "readLastCheckpoint s = Inr None" by (simp add: readLastCheckpoint_def Let_def)
  moreover have "\<not> (map int [0..<length hist] \<noteq> [] \<and> hd (map int [0..<length hist]) > 0)"
    by (cases "hist = []") (auto simp: hd_map)
  ultimately show ?thesis using assms
    unfolding loadLogState_def Let_def polytable_log_def by (auto simp del: map_is_Nil_conv)
qed

lemma next_version_log:
  assumes "polytable_log s hist"
  shows "next_version s = int (length hist)"
proof -
  have "listCommitFiles s = map int [0..<length hist]" "int (length hist) < max_int64"
    using assms by (simp_all add: polytable_log_def)
  then show ?thesis
    by (cases "length hist") (auto simp: next_version_def Let_def in_int64_def intro!: wrap64_id)
qed

lemma commit_file_unlisted:
  assumes "polytable_log s hist"
  shows "\<exists>e. mem_Read (ds_storage s) (commit_file (ds_basePath s) (int (length hist))) = Inl e"
proof (rule ccontr)
  let ?p = "commit_file (ds_basePath s) (int (length hist))"
  assume "\<not> ?thesis"
  then obtain d where "mem_Read (ds_storage s) ?p = Inr d"
    by (cases "mem_Read (ds_storage s) ?p") auto
  moreover have b: "table_base (ds_basePath s)" "in_int64 (int (length hist))"
    using assms by (simp_all add: polytable_log_def in_int64_def)
  moreover have "hasPrefix ?p (log_dir (ds_basePath s))"
    unfolding commit_file_eq [OF b(1)] by (rule hasPrefix_append)
  ultimately have "?p \<in> InfoPath ` set (mem_List (ds_storage s) (log_dir (ds_basePath s)))"
    by (simp add: mem_List_paths)
  then have "int (length hist) \<in> set (listCommitFiles s)"
    using commit_version_file [OF b] by (force simp: listCommitFiles_def log_dir_def List.map_filter_def)
  then show False using assms by (auto simp: polytable_log_def)
qed

lemma commit_file_inj:
  assumes "table_base base" "in_int64 i" "in_int64 j"
  shows "commit_file base i = commit_file base j \<longleftrightarrow> i = j"
  using formatPadded_inj [OF assms(2,3), of 20] by (auto simp: commit_file_eq [OF assms(1)])

lemma commit_not_checkpoint:
  assumes "table_base base"
  shows "commit_file base i \<noteq> log_path base ''_last_checkpoint''"
proof
  assume "commit_file base i = log_path base ''_last_checkpoint''"
  then have "formatPadded 20 i @ ''.json'' = ''_last_checkpoint''"
    unfolding commit_file_eq [OF assms] by (simp add: log_path_eq [OF assms] proper_seg_def)
  then have "last (formatPadded 20 i @ ''.json'') = last ''_last_checkpoint''" by (rule arg_cong)
  then show False by simp
qed

text \<open>Writing the next commit extends the log by it.\<close>

lemma polytable_log_write:
  assumes "polytable_log s hist" and "list_all wf_action acts" "lines_fit acts"
    and "int (length hist) + 1 < max_int64"
  shows "polytable_log (s\<lparr>ds_storage := mem_Write (ds_storage s) (commit_file (ds_basePath s) (int (length hist)))
      (commit_text acts) wt\<rparr>) (hist @ [acts])"
proof -
  let ?s = "s\<lparr>ds_storage := mem_Write (ds_storage s) (commit_file (ds_basePath s) (int (length hist))) (commit_text acts) wt\<rparr>"
  have b: "table_base (ds_basePath s)" "mem_invar (ds_storage s)" "in_int64 (int (length hist))"
    and l: "listCommitFiles s = map int [0..<length hist]"
    using assms(1) by (simp_all add: polytable_log_def in_int64_def)
  obtain e where "mem_Read (ds_storage s) (commit_file (ds_basePath s) (int (length hist))) = Inl e"
    using commit_file_unlisted [OF assms(1)] by blast
  from listCommitFiles_write [OF b(2,1,3) this] l
  have "listCommitFiles ?s = map int [0..<length (hist @ [acts])]" by simp
  moreover have "commit_file (ds_basePath s) (int i) = commit_file (ds_basePath s) (int (length hist)) \<longleftrightarrow> i = length hist"
    if "i \<le> length hist" for i
    using commit_file_inj [OF b(1), of "int i" "int (length hist)"] that b(3) by (auto simp: in_int64_def)
  ultimately show ?thesis
    using assms b(1,2) commit_not_checkpoint [OF b(1), symmetric]
    by (auto simp: polytable_log_def nth_append less_Suc_eq)
qed

lemma empty_polytable_log:
  assumes "mem_invar st" "table_base base" "\<forall>p d. mem_Read st p = Inr d \<longrightarrow> \<not> hasPrefix p (log_dir base)"
  shows "polytable_log (NewSource st base) []"
proof -
  have "mem_List st (log_dir base) = []"
  proof (rule ccontr)
    assume "mem_List st (log_dir base) \<noteq> []"
    then obtain f where "f \<in> set (mem_List st (log_dir base))" by (meson last_in_set)
    then show False using mem_List_paths [of "InfoPath f" st "log_dir base"] assms(3) by blast
  qed
  moreover have "\<exists>e. mem_Read st (log_path base ''_last_checkpoint'') = Inl e"
    using assms(3) [rule_format, of "log_path base ''_last_checkpoint''"]
      log_path_eq [OF assms(2), of "''_last_checkpoint''"]
    by (cases "mem_Read st (log_path base ''_last_checkpoint'')") (auto simp: proper_seg_def)
  ultimately show ?thesis
    using assms(1,2) by (simp add: polytable_log_def NewSource_def listCommitFiles_def log_dir_def map_filter_simps)
qed

end
