(* ===== verification/Delta_Commit.thy ===== *)
theory Delta_Commit
  imports Delta_Roundtrip
begin

text \<open>
  What the commits of the Delta target do to a table directory only polytable writes to: the
  watermark a commit leaves is the one the next sync reads, a snapshot written to an empty log reads
  back file by file, a change moves the set of files in force by exactly its diff, and a snapshot
  written over an existing log removes nothing.
\<close>

section \<open>The actions are well formed\<close>

definition file_ok :: "data_file \<Rightarrow> bool" where
  "file_ok df \<longleftrightarrow> in_int64 (FileSizeBytes df) \<and> in_int64 (LastModified df) \<and>
     pred_option (\<lambda>d. in_int64 (DVOffset d) \<and> in_int64 (SizeInBytes d) \<and> in_int64 (Cardinality d)) (DeletionVector df)"

lemma wf_put_partition_values: "wf_map m \<Longrightarrow> wf_map (foldl put_partition_value m pvs)"
  by (induction pvs arbitrary: m) (auto simp: put_partition_value_def split: option.splits)

lemma wf_generated [simp]:
  "wf_action protocol_of" "in_int64 now \<Longrightarrow> wf_action (commit_info_of now oper)"
  "in_int64 now \<Longrightarrow> wf_action (remove_of base now df)" "file_ok df \<Longrightarrow> wf_action (add_of base df)"
  "in_int64 (ce_now env) \<Longrightarrow> wf_action (metadata_action_of env name schemaJSON cols wm)"
proof -
  show "wf_action protocol_of"
    by (simp add: protocol_of_def emptyAction_def wf_action_def wf_protocol_def in_int64_def)
  show "in_int64 now \<Longrightarrow> wf_action (commit_info_of now oper)"
    by (simp add: commit_info_of_def emptyAction_def wf_action_def wf_commit_info_def)
  show "in_int64 now \<Longrightarrow> wf_action (remove_of base now df)"
    by (simp add: remove_of_def emptyAction_def wf_action_def wf_remove_def)
  show "file_ok df \<Longrightarrow> wf_action (add_of base df)"
    by (cases "DeletionVector df")
      (simp_all add: add_of_def emptyAction_def wf_action_def wf_add_def convertDataFileToAddAction_def
        wf_put_partition_values file_ok_def wf_dv_def)
  show "in_int64 (ce_now env) \<Longrightarrow> wf_action (metadata_action_of env name schemaJSON cols wm)"
    by (simp add: metadata_action_of_def emptyAction_def wf_action_def wf_metadata_def NewParquetFormat_def)
qed

lemma snapshot_actions_form:
  assumes "snapshot_actions env target snap = Inr acts"
  obtains sj cols where "SchemaToDeltaJSON (ReadSchema (SnapTable snap)) = Inr sj" and "partition_columns (SnapTable snap) = Inr cols"
    and "acts = protocol_of # metadata_action_of env (TableName (SnapTable snap)) sj cols
      (watermark (LatestCommitTime (SnapTable snap)) (TableFormat (SnapTable snap)) (SnapSourceIdentifier snap)) #
      map (add_of (BasePath target)) (AllDataFiles snap) @ [commit_info_of (ce_now env) ''POLYTABLE_SYNC_SNAPSHOT'']"
  using assms by (auto simp: snapshot_actions_def)

lemma change_actions_form:
  assumes "change_actions env target change = Inr acts"
  obtains sj cols where "SchemaToDeltaJSON (ReadSchema (TableAsOfChange change)) = Inr sj"
    and "acts = metadata_action_of env (TableName (TableAsOfChange change)) sj cols
      (watermark (CommitTime change) (TableFormat (TableAsOfChange change)) (ChangeSourceIdentifier change)) #
      map (remove_of (BasePath target) (ce_now env)) (FilesRemoved (FilesDiff change)) @
      map (add_of (BasePath target)) (FilesAdded (FilesDiff change)) @
      [commit_info_of (ce_now env) ''POLYTABLE_SYNC_INCREMENTAL'']"
proof -
  from assms show ?thesis using that by (fastforce simp: change_actions_def Let_def)
qed

lemma wf_snapshot_actions:
  assumes "snapshot_actions env target snap = Inr acts" "in_int64 (ce_now env)" "list_all file_ok (AllDataFiles snap)"
  shows "list_all wf_action acts"
  by (rule snapshot_actions_form [OF assms(1)]) (use assms(2,3) in \<open>auto simp: list_all_iff\<close>)

lemma wf_change_actions:
  assumes "change_actions env target change = Inr acts" "in_int64 (ce_now env)"
    "list_all file_ok (FilesAdded (FilesDiff change))"
  shows "list_all wf_action acts"
  by (rule change_actions_form [OF assms(1)]) (use assms(2,3) in \<open>auto simp: list_all_iff\<close>)

section \<open>One commit on the log\<close>

definition target_log :: "delta_target \<Rightarrow> table \<Rightarrow> single_action list list \<Rightarrow> bool" where
  "target_log t target hist \<longleftrightarrow>
     dt_targetTable t = Some target \<and> polytable_log (NewSource (dt_storage t) (BasePath target)) hist"

lemma target_log_source: "target_log t target hist \<Longrightarrow> dt_source t = Some (NewSource (dt_storage t) (BasePath target))"
  by (simp add: target_log_def dt_source_def)

lemma target_log_write:
  assumes "target_log t target hist" "list_all wf_action acts" "lines_fit acts" "int (length hist) + 1 < max_int64"
  shows "target_log (writeCommitFile t target (next_version (NewSource (dt_storage t) (BasePath target))) acts wt) target
    (hist @ [acts])"
proof -
  have l: "polytable_log (NewSource (dt_storage t) (BasePath target)) hist" using assms(1) by (simp add: target_log_def)
  from polytable_log_write [OF l assms(2-4), of wt] assms(1)
  show ?thesis unfolding writeCommitFile_def next_version_log [OF l] by (simp add: target_log_def NewSource_def)
qed

lemma CommitSnapshot_log:
  assumes "target_log t target hist" "snapshot_actions env target snap = Inr acts"
    "in_int64 (ce_now env)" "list_all file_ok (AllDataFiles snap)" "lines_fit acts" "int (length hist) + 1 < max_int64"
  shows "snd (delta_CommitSnapshot env t snap) = None \<and>
    target_log (fst (delta_CommitSnapshot env t snap)) target (hist @ [acts])"
  using target_log_write [OF assms(1) wf_snapshot_actions [OF assms(2-4)] assms(5,6)] assms(1,2)
  by (simp add: delta_CommitSnapshot_def target_log_source [OF assms(1)]) (simp add: target_log_def)

text \<open>The actions of a list of changes, one list per commit.\<close>

fun changes_actions :: "(nat \<Rightarrow> commit_env) \<Rightarrow> nat \<Rightarrow> table \<Rightarrow> table_change list \<Rightarrow> single_action list list res" where
  "changes_actions env i target [] = Inr []"
| "changes_actions env i target (change # changes) =
     bind_res (change_actions (env i) target change) (\<lambda>acts.
     bind_res (changes_actions env (Suc i) target changes) (\<lambda>rest. Inr (acts # rest)))"

lemma commit_changes_log:
  "target_log t target hist \<Longrightarrow> changes_actions env i target changes = Inr new \<Longrightarrow>
    (\<forall>j. in_int64 (ce_now (env j))) \<Longrightarrow> list_all (\<lambda>c. list_all file_ok (FilesAdded (FilesDiff c))) changes \<Longrightarrow>
    list_all lines_fit new \<Longrightarrow> int (length hist + length new) < max_int64 \<Longrightarrow>
    snd (commit_changes env i t changes) = None \<and> target_log (fst (commit_changes env i t changes)) target (hist @ new)"
proof (induction changes arbitrary: i t hist new)
  case (Cons c cs)
  from Cons.prems(2) obtain acts rest where a: "change_actions (env i) target c = Inr acts"
    and r: "changes_actions env (Suc i) target cs = Inr rest" and new: "new = acts # rest" by auto
  let ?t = "writeCommitFile t target (next_version (NewSource (dt_storage t) (BasePath target))) acts (ce_write_time (env i))"
  have "list_all wf_action acts" using wf_change_actions [OF a] Cons.prems(3,4) by simp
  moreover have "lines_fit acts" "int (length hist) + 1 < max_int64" using Cons.prems(5,6) new by auto
  ultimately have "target_log ?t target (hist @ [acts])" by (rule target_log_write [OF Cons.prems(1)])
  from Cons.IH [OF this r Cons.prems(3)] Cons.prems(4-6) new
  have "snd (commit_changes env (Suc i) ?t cs) = None \<and>
      target_log (fst (commit_changes env (Suc i) ?t cs)) target (hist @ new)" by simp
  moreover have "dt_targetTable t = Some target" using Cons.prems(1) by (simp add: target_log_def)
  ultimately show ?case by (simp add: target_log_source [OF Cons.prems(1)] a)
qed simp

section \<open>The watermark\<close>

lemma last_commit:
  assumes "target_log t target (hist @ [acts])"
  shows "delta_GetTableMetadata t = Inr (metadata_in (map canon_action acts))"
proof -
  let ?s = "NewSource (dt_storage t) (BasePath target)"
  have l: "polytable_log ?s (hist @ [acts])" using assms by (simp add: target_log_def)
  then have v: "listCommitFiles ?s = map int [0..<Suc (length hist)]" by (simp add: polytable_log_def)
  have "readCommit ?s (int (length hist)) =
      Inr \<lparr>dc_Version = int (length hist), dc_Actions = map canon_action acts, dc_CommitTime = commit_time acts\<rparr>"
    by (rule readCommit_text) (use l in \<open>auto simp: polytable_log_def nth_append dest: spec [of _ "length hist"]\<close>)
  then show ?thesis by (simp add: delta_GetTableMetadata_def target_log_source [OF assms] v)
qed

lemma metadata_in_written:
  assumes "in_int64 (LastInstantSynced wm)"
  shows "\<exists>m. metadata_in (canon_action (metadata_action_of env name sj cols wm) # acts) = Some m \<and>
    LastInstantSynced m = LastInstantSynced wm \<and> TargetFormat m = TableFormatDelta \<and>
    (SourceFormat wm \<noteq> '''' \<longrightarrow> SourceFormat m = SourceFormat wm)"
proof -
  have "\<exists>m. ReadSyncMetadataFromProperties (WriteSyncMetadataProperties [] wm) = Some m \<and>
      LastInstantSynced m = LastInstantSynced wm \<and> (SourceFormat wm \<noteq> '''' \<longrightarrow> SourceFormat m = SourceFormat wm)"
    by (rule Read_Write_watermark [OF assms])
  then obtain m where "ReadSyncMetadataFromProperties (WriteSyncMetadataProperties [] wm) = Some m"
    and m: "LastInstantSynced m = LastInstantSynced wm" "SourceFormat wm \<noteq> '''' \<longrightarrow> SourceFormat m = SourceFormat wm"
    by blast
  then have "ReadSyncMetadataFromProperties (sort_key fst (WriteSyncMetadataProperties [] wm)) = Some m"
    by (simp add: Read_sorted)
  moreover have "Option.bind (act_MetaData (canon_action (metadata_action_of env name sj cols wm))) md_Configuration =
      Some (sort_key fst (WriteSyncMetadataProperties [] wm))"
    by (simp add: metadata_action_of_def emptyAction_def canon_action_def canon_metadata_def)
  ultimately show ?thesis using m by simp
qed

lemma metadata_in_protocol: "metadata_in (canon_action protocol_of # acts) = metadata_in acts"
  by (simp add: protocol_of_def emptyAction_def canon_action_def)

text \<open>
  After a snapshot commit the target's metadata is the snapshot's: the next sync reads the
  instant of the table that was written, its source format and the target format DELTA.
\<close>

lemma snapshot_commit_watermark:
  assumes "target_log t target hist" "snapshot_actions env target snap = Inr acts"
    "in_int64 (ce_now env)" "list_all file_ok (AllDataFiles snap)" "lines_fit acts" "int (length hist) + 1 < max_int64"
    "in_int64 (LatestCommitTime (SnapTable snap))"
  shows "\<exists>m. delta_GetTableMetadata (fst (delta_CommitSnapshot env t snap)) = Inr (Some m) \<and>
    LastInstantSynced m = LatestCommitTime (SnapTable snap) \<and> TargetFormat m = TableFormatDelta \<and>
    (TableFormat (SnapTable snap) \<noteq> '''' \<longrightarrow> SourceFormat m = TableFormat (SnapTable snap))"
proof -
  obtain sj cols rest where acts: "acts = protocol_of # metadata_action_of env (TableName (SnapTable snap)) sj cols
      (watermark (LatestCommitTime (SnapTable snap)) (TableFormat (SnapTable snap)) (SnapSourceIdentifier snap)) # rest"
    by (rule snapshot_actions_form [OF assms(2)])
  from CommitSnapshot_log [OF assms(1-6)] last_commit
  have "delta_GetTableMetadata (fst (delta_CommitSnapshot env t snap)) = Inr (metadata_in (map canon_action acts))" by blast
  moreover have "in_int64 (LastInstantSynced (watermark (LatestCommitTime (SnapTable snap)) (TableFormat (SnapTable snap)) (SnapSourceIdentifier snap)))"
    using assms(7) by (simp add: watermark_def)
  note metadata_in_written [OF this, of env "TableName (SnapTable snap)" sj cols "map canon_action rest"]
  ultimately show ?thesis by (simp only: acts list.map metadata_in_protocol) (auto simp: watermark_def)
qed

text \<open>
  After a batch of changes the watermark is the instant of the last change: a resumed sync
  continues exactly where the batch ended.
\<close>

lemma changes_commit_watermark:
  assumes "target_log t target hist" "changes_actions env 0 target (TableChanges ic) = Inr new"
    "\<forall>j. in_int64 (ce_now (env j))" "list_all (\<lambda>c. list_all file_ok (FilesAdded (FilesDiff c))) (TableChanges ic)"
    "list_all lines_fit new" "int (length hist + length new) < max_int64"
    "TableChanges ic \<noteq> []" "in_int64 (CommitTime (last (TableChanges ic)))"
  shows "\<exists>m. delta_GetTableMetadata (fst (delta_CommitChanges env t ic)) = Inr (Some m) \<and>
    LastInstantSynced m = CommitTime (last (TableChanges ic))"
proof -
  have last_acts: "changes_actions env i target cs = Inr new \<Longrightarrow> cs \<noteq> [] \<Longrightarrow>
      new \<noteq> [] \<and> (\<exists>j. change_actions (env j) target (last cs) = Inr (last new))" for i cs new
  proof (induction cs arbitrary: i new)
    case (Cons c cs)
    then show ?case by (cases "cs = []") fastforce+
  qed simp
  from last_acts [OF assms(2,7)] obtain j where n: "new \<noteq> []" "change_actions (env j) target (last (TableChanges ic)) = Inr (last new)"
    by blast
  let ?c = "last (TableChanges ic)"
  obtain sj cols rest where acts: "last new = metadata_action_of (env j) (TableName (TableAsOfChange ?c)) sj cols
      (watermark (CommitTime ?c) (TableFormat (TableAsOfChange ?c)) (ChangeSourceIdentifier ?c)) # rest"
    by (rule change_actions_form [OF n(2)])
  have "target_log (fst (delta_CommitChanges env t ic)) target ((hist @ butlast new) @ [last new])"
    using commit_changes_log [OF assms(1-6)] n(1) by (simp add: delta_CommitChanges_def)
  from last_commit [OF this]
  have "delta_GetTableMetadata (fst (delta_CommitChanges env t ic)) = Inr (metadata_in (map canon_action (last new)))" .
  moreover have "in_int64 (LastInstantSynced (watermark (CommitTime ?c) (TableFormat (TableAsOfChange ?c)) (ChangeSourceIdentifier ?c)))"
    using assms(8) by (simp add: watermark_def)
  note metadata_in_written [OF this, of "env j" "TableName (TableAsOfChange ?c)" sj cols "map canon_action rest"]
  ultimately show ?thesis by (simp only: acts list.map) (auto simp: watermark_def)
qed

section \<open>The files in force\<close>

definition log_files :: "single_action list list \<Rightarrow> live_files" where
  "log_files hist = live Map.empty (all_actions (commits_of hist))"

text \<open>The path of a data file in the log.\<close>

abbreviation rel :: "string \<Rightarrow> data_file \<Rightarrow> string" where
  "rel base df \<equiv> makeRelativePath base (PhysicalPath df)"

lemma all_actions_commits: "all_actions (commits_of hist) = concat (map (map canon_action) hist)"
proof -
  have "map dc_Actions (commits_of hist) = map (\<lambda>i. map canon_action (hist ! i)) [0..<length hist]"
    by (simp add: commits_of_def comp_def)
  also have "\<dots> = map (map canon_action) hist" by (rule nth_equalityI) simp_all
  finally show ?thesis by (simp add: all_actions_def)
qed

lemma log_files_snoc: "log_files (hist @ [acts]) = live (log_files hist) (map canon_action acts)"
  by (simp add: log_files_def all_actions_commits live_append)

lemma log_files_Nil [simp]: "log_files [] = Map.empty"
  by (simp add: log_files_def all_actions_commits live_def)

lemma live_Cons: "live m (a # acts) = live (live_step m a) acts"
  by (simp add: live_def)

lemma live_neutral:
  "live_step m (canon_action protocol_of) = m" "live_step m (canon_action (commit_info_of now oper)) = m"
  "live_step m (canon_action (metadata_action_of env name sj cols wm)) = m"
  by (simp_all add: live_step_def canon_action_def protocol_of_def commit_info_of_def metadata_action_of_def emptyAction_def)

lemma live_adds:
  "live m (map canon_action (map (add_of base) dfs)) =
     foldl (\<lambda>m df. m(rel base df \<mapsto> canon_add (convertDataFileToAddAction base df))) m dfs"
  by (induction dfs arbitrary: m)
    (simp_all add: live_def live_step_def canon_action_def add_of_def emptyAction_def canon_add_def convertDataFileToAddAction_def)

lemma dom_live_adds: "dom (live m (map canon_action (map (add_of base) dfs))) = dom m \<union> rel base ` set dfs"
  unfolding live_adds by (induction dfs arbitrary: m) auto

lemma dom_live_removes:
  "dom (live m (map canon_action (map (remove_of base now) dfs))) = dom m - rel base ` set dfs"
proof (induction dfs arbitrary: m)
  case (Cons df dfs)
  have "live_step m (canon_action (remove_of base now df)) = m(rel base df := None)"
    by (simp add: live_step_def canon_action_def remove_of_def emptyAction_def canon_remove_def)
  then have "dom (live m (map canon_action (map (remove_of base now) (df # dfs)))) =
      dom (m(rel base df := None)) - rel base ` set dfs"
    by (simp only: list.map live_Cons Cons)
  then show ?case by auto
qed (simp add: live_def)

lemma live_change:
  assumes "change_actions env target change = Inr acts"
  shows "dom (live m (map canon_action acts)) =
    (dom m - rel (BasePath target) ` set (FilesRemoved (FilesDiff change))) \<union>
    rel (BasePath target) ` set (FilesAdded (FilesDiff change))"
proof -
  obtain sj cols where acts: "acts = metadata_action_of env (TableName (TableAsOfChange change)) sj cols
      (watermark (CommitTime change) (TableFormat (TableAsOfChange change)) (ChangeSourceIdentifier change)) #
      map (remove_of (BasePath target) (ce_now env)) (FilesRemoved (FilesDiff change)) @
      map (add_of (BasePath target)) (FilesAdded (FilesDiff change)) @
      [commit_info_of (ce_now env) ''POLYTABLE_SYNC_INCREMENTAL'']"
    by (rule change_actions_form [OF assms])
  have "live m' [] = m'" for m' by (simp add: live_def)
  then show ?thesis
    by (simp only: acts list.map map_append live_Cons live_append live_neutral dom_live_adds dom_live_removes)
qed

definition apply_diff :: "string \<Rightarrow> string set \<Rightarrow> table_change \<Rightarrow> string set" where
  "apply_diff base P change =
     (P - rel base ` set (FilesRemoved (FilesDiff change))) \<union> rel base ` set (FilesAdded (FilesDiff change))"

lemma log_files_changes:
  "changes_actions env i target changes = Inr new \<Longrightarrow>
    dom (log_files (hist @ new)) = foldl (apply_diff (BasePath target)) (dom (log_files hist)) changes"
proof (induction changes arbitrary: i hist new)
  case (Cons c cs)
  then obtain acts rest where a: "change_actions (env i) target c = Inr acts"
    and r: "changes_actions env (Suc i) target cs = Inr rest" and new: "new = acts # rest" by auto
  from Cons.IH [OF r, of "hist @ [acts]"] live_change [OF a]
  show ?case by (simp add: new log_files_snoc apply_diff_def)
qed simp

lemma live_path:
  "\<forall>p a. m p = Some a \<longrightarrow> add_Path a = p \<Longrightarrow> live m acts p = Some add \<Longrightarrow> add_Path add = p"
proof (induction acts arbitrary: m)
  case (Cons a acts)
  have "\<forall>p b. live_step m a p = Some b \<longrightarrow> add_Path b = p"
    using Cons.prems(1) by (auto simp: live_step_def split: option.splits if_splits)
  with Cons.IH Cons.prems(2) show ?case by (simp add: live_Cons)
qed (simp add: live_def)

lemma log_files_path: "log_files hist p = Some add \<Longrightarrow> add_Path add = p"
  unfolding log_files_def by (rule live_path) auto

text \<open>What the source reports of such a log.\<close>

lemma snapshot_paths:
  assumes "polytable_log s hist" "delta_GetCurrentSnapshot decode s = Inr snap"
  shows "PhysicalPath ` set (DataFiles snap) = resolveDataPath (ds_basePath s) ` dom (log_files hist)"
proof -
  obtain st cs active where p: "loadLogState decode s = Inr st" "map_res (readCommit s) (ls_versions st) = Inr cs"
    "represents s (SnapTable snap) active (live (checkpoint_files st) (all_actions cs))"
    and d: "DataFiles snap = map snd active"
    by (rule snapshot_parts [OF assms(2)])
  have st: "st = \<lparr>ls_checkpoint = None, ls_versions = map int [0..<length hist]\<rparr>"
    using p(1) polytable_log_state [OF assms(1), of decode] by simp
  with p(2) polytable_log_read [OF assms(1)] have "cs = commits_of hist" by simp
  with p(3) st have r: "represents s (SnapTable snap) active (log_files hist)"
    by (simp add: checkpoint_files_def log_files_def)
  have path: "PhysicalPath df = resolveDataPath (ds_basePath s) p" if "(p, df) \<in> set active" for p df
  proof -
    from that r have "map_of active p = Some df" by (simp add: represents_def wf_map_lookup)
    with r obtain add where a: "log_files hist p = Some add" "convertAddAction s add (SnapTable snap) = Inr df"
      by (metis converts_to_Some represents_def)
    moreover have "add_Path add = p" using a(1) log_files_path by blast
    ultimately show ?thesis by (auto simp: convertAddAction_def)
  qed
  then have "PhysicalPath ` set (DataFiles snap) = resolveDataPath (ds_basePath s) ` fst ` set active"
    by (force simp: d)
  with represents_dom [OF r] show ?thesis by simp
qed

text \<open>Files below the table's base path: written relative to it, they resolve to themselves.\<close>

lemma no_scheme_prefix:
  assumes "\<not> containsStr p ''//''"
  shows "fst (TrimScheme p) = ''''"
proof -
  have pre: "\<not> hasPrefix p (s @ ''//'')" for s
  proof
    assume "hasPrefix p (s @ ''//'')"
    then have "containsStr p (s @ ''//'')" by (cases p; cases s) auto
    then show False using containsStr_mono assms by blast
  qed
  have "fst (trim_scheme_in ss p) = ''''" if "list_all (\<lambda>s. \<exists>t. s = t @ ''//'') ss" for ss
    using that by (induction ss) (auto simp: pre)
  moreover have "list_all (\<lambda>s. \<exists>t. s = t @ ''//'') uriSchemes"
    by (simp add: uriSchemes_def)
  ultimately show ?thesis by (simp add: TrimScheme_def)
qed

lemma resolve_relative:
  assumes "below base p"
  shows "resolveDataPath base (makeRelativePath base p) = p"
proof -
  obtain pre bs rs where b: "base_prefix pre" "bs \<noteq> []" "list_all proper_seg bs"
    and r: "rs \<noteq> []" "list_all proper_seg rs" and eq: "base = base_path pre bs" "p = base_path pre (bs @ rs)"
    using assms by (auto simp: below_def)
  have "makeRelativePath base p = joinWith ''/'' rs"
    using RelativizePath_join [OF b(1) b(1) refl r b(2,3)] by (simp add: makeRelativePath_def eq)
  moreover have "fst (TrimScheme (joinWith ''/'' rs)) = ''''"
    by (rule no_scheme_prefix [OF joinWith_no_double_slash [OF r(2)]])
  ultimately show ?thesis
    using joinWith_proper_hd(2) [OF r] JoinPath_base [OF b r] by (simp add: resolveDataPath_def eq)
qed

text \<open>The log's files are the absolute paths \<open>F\<close>, each written relative to the base.\<close>

definition tracks :: "string \<Rightarrow> single_action list list \<Rightarrow> string set \<Rightarrow> bool" where
  "tracks base hist F \<longleftrightarrow> (\<forall>p \<in> F. below base p) \<and> dom (log_files hist) = makeRelativePath base ` F"

lemma tracks_Nil [simp]: "tracks base [] F \<longleftrightarrow> F = {}"
  by (auto simp: tracks_def)

lemma relative_inj: "\<forall>p \<in> F. below base p \<Longrightarrow> inj_on (makeRelativePath base) F"
  by (rule inj_onI) (metis resolve_relative)

lemma tracks_snapshot:
  assumes "polytable_log s hist" "delta_GetCurrentSnapshot decode s = Inr snap" "tracks (ds_basePath s) hist F"
  shows "PhysicalPath ` set (DataFiles snap) = F"
proof -
  have "resolveDataPath (ds_basePath s) ` makeRelativePath (ds_basePath s) ` F = F"
    using assms(3) by (force simp: tracks_def image_iff resolve_relative)
  with snapshot_paths [OF assms(1,2)] assms(3) show ?thesis by (simp add: tracks_def)
qed

text \<open>What a change says of the set of files.\<close>

definition move_files :: "string set \<Rightarrow> table_change \<Rightarrow> string set" where
  "move_files F change =
     (F - PhysicalPath ` set (FilesRemoved (FilesDiff change))) \<union> PhysicalPath ` set (FilesAdded (FilesDiff change))"

definition change_below :: "string \<Rightarrow> table_change \<Rightarrow> bool" where
  "change_below base change \<longleftrightarrow>
     list_all (\<lambda>df. below base (PhysicalPath df)) (FilesRemoved (FilesDiff change) @ FilesAdded (FilesDiff change))"

lemma apply_diff_move:
  assumes "\<forall>p \<in> F. below base p" "change_below base change"
  shows "apply_diff base (makeRelativePath base ` F) change = makeRelativePath base ` move_files F change \<and>
    (\<forall>p \<in> move_files F change. below base p)"
proof -
  let ?R = "PhysicalPath ` set (FilesRemoved (FilesDiff change))"
  have "\<forall>p \<in> F \<union> ?R. below base p" using assms by (auto simp: change_below_def list_all_iff)
  from inj_on_image_set_diff [OF relative_inj [OF this], of F ?R]
  have "makeRelativePath base ` (F - ?R) = makeRelativePath base ` F - makeRelativePath base ` ?R" by auto
  then have "apply_diff base (makeRelativePath base ` F) change = makeRelativePath base ` move_files F change"
    by (simp only: apply_diff_def move_files_def image_Un image_image)
  moreover have "\<forall>p \<in> move_files F change. below base p"
    using assms by (auto simp: move_files_def change_below_def list_all_iff)
  ultimately show ?thesis ..
qed

lemma apply_diffs_move:
  "\<forall>p \<in> F. below base p \<Longrightarrow> list_all (change_below base) changes \<Longrightarrow>
    foldl (apply_diff base) (makeRelativePath base ` F) changes = makeRelativePath base ` foldl move_files F changes \<and>
    (\<forall>p \<in> foldl move_files F changes. below base p)"
proof (induction changes arbitrary: F)
  case (Cons c cs)
  then have m: "apply_diff base (makeRelativePath base ` F) c = makeRelativePath base ` move_files F c"
    "\<forall>p \<in> move_files F c. below base p" using apply_diff_move [of F base c] by simp_all
  from Cons.IH [OF m(2)] Cons.prems(2) show ?case by (simp only: foldl_Cons m(1) list.pred_inject) blast
qed simp

lemma tracks_changes:
  "changes_actions env i target changes = Inr new \<Longrightarrow> tracks (BasePath target) hist F \<Longrightarrow>
    list_all (change_below (BasePath target)) changes \<Longrightarrow>
    tracks (BasePath target) (hist @ new) (foldl move_files F changes)"
proof -
  assume c: "changes_actions env i target changes = Inr new" and t: "tracks (BasePath target) hist F"
    and b: "list_all (change_below (BasePath target)) changes"
  have base: "\<forall>p \<in> F. below (BasePath target) p" and dom: "dom (log_files hist) = makeRelativePath (BasePath target) ` F"
    using t by (simp_all add: tracks_def)
  have "dom (log_files (hist @ new)) = foldl (apply_diff (BasePath target)) (makeRelativePath (BasePath target) ` F) changes"
    by (simp only: log_files_changes [OF c] dom)
  then show ?thesis unfolding tracks_def using apply_diffs_move [OF base b] by (simp only:) blast
qed

text \<open>
  C4. A batch of changes moves the table by exactly its diffs: after it the snapshot of the target
  table holds the files it had, without those the changes removed and with those they added, in the
  order of the changes.
\<close>

theorem changes_commit_files:
  assumes "target_log t target hist" "changes_actions env 0 target (TableChanges ic) = Inr new"
    "\<forall>j. in_int64 (ce_now (env j))" "list_all (\<lambda>c. list_all file_ok (FilesAdded (FilesDiff c))) (TableChanges ic)"
    "list_all lines_fit new" "int (length hist + length new) < max_int64"
    "tracks (BasePath target) hist F" "list_all (change_below (BasePath target)) (TableChanges ic)"
    "delta_GetCurrentSnapshot decode (NewSource (dt_storage (fst (delta_CommitChanges env t ic))) (BasePath target)) = Inr snap"
  shows "PhysicalPath ` set (DataFiles snap) = foldl move_files F (TableChanges ic)"
proof -
  have "target_log (fst (delta_CommitChanges env t ic)) target (hist @ new)"
    using commit_changes_log [OF assms(1-6)] by (simp add: delta_CommitChanges_def)
  then have "polytable_log (NewSource (dt_storage (fst (delta_CommitChanges env t ic))) (BasePath target)) (hist @ new)"
    by (simp add: target_log_def)
  from tracks_snapshot [OF this assms(9)] tracks_changes [OF assms(2,7,8)] show ?thesis by (simp add: NewSource_def)
qed

lemma tracks_snapshot_commit:
  assumes "snapshot_actions env target snap = Inr acts" "tracks (BasePath target) hist F"
    "list_all (\<lambda>df. below (BasePath target) (PhysicalPath df)) (AllDataFiles snap)"
  shows "tracks (BasePath target) (hist @ [acts]) (F \<union> PhysicalPath ` set (AllDataFiles snap))"
proof -
  obtain sj cols where acts: "acts = protocol_of # metadata_action_of env (TableName (SnapTable snap)) sj cols
      (watermark (LatestCommitTime (SnapTable snap)) (TableFormat (SnapTable snap)) (SnapSourceIdentifier snap)) #
      map (add_of (BasePath target)) (AllDataFiles snap) @ [commit_info_of (ce_now env) ''POLYTABLE_SYNC_SNAPSHOT'']"
    by (rule snapshot_actions_form [OF assms(1)])
  have "live m' [] = m'" for m' by (simp add: live_def)
  then have "dom (log_files (hist @ [acts])) = dom (log_files hist) \<union> rel (BasePath target) ` set (AllDataFiles snap)"
    by (simp only: log_files_snoc acts list.map map_append live_Cons live_append live_neutral dom_live_adds)
  with assms(2,3) show ?thesis by (auto simp: tracks_def list_all_iff)
qed

text \<open>
  C39. A snapshot commit only adds: the table afterwards holds the snapshot's files and every file
  that was in force before. Into an empty log it writes exactly the snapshot; over an existing log
  the files the source has dropped stay in force.
\<close>

theorem snapshot_commit_files:
  assumes "target_log t target hist" "snapshot_actions env target snap = Inr acts"
    "in_int64 (ce_now env)" "list_all file_ok (AllDataFiles snap)" "lines_fit acts" "int (length hist) + 1 < max_int64"
    "tracks (BasePath target) hist F" "list_all (\<lambda>df. below (BasePath target) (PhysicalPath df)) (AllDataFiles snap)"
    "delta_GetCurrentSnapshot decode (NewSource (dt_storage (fst (delta_CommitSnapshot env t snap))) (BasePath target)) = Inr snap'"
  shows "PhysicalPath ` set (DataFiles snap') = F \<union> PhysicalPath ` set (AllDataFiles snap)"
proof -
  have "polytable_log (NewSource (dt_storage (fst (delta_CommitSnapshot env t snap))) (BasePath target)) (hist @ [acts])"
    using CommitSnapshot_log [OF assms(1-6)] by (simp add: target_log_def)
  from tracks_snapshot [OF this assms(9)] tracks_snapshot_commit [OF assms(2,7,8)] show ?thesis by (simp add: NewSource_def)
qed

end
