(* ===== verification/Delta_Readback.thy ===== *)
theory Delta_Readback
  imports Delta_Commit
begin

text \<open>
  A table polytable has written can be read: the add action of a data file converts back to a file
  of the same path, size, row count and time, whatever statistics it carries, so the snapshot of a
  log with a schema exists. On this rest the witnesses of the theorems about snapshots.
\<close>

section \<open>The statistics of a written file\<close>

text \<open>The finite floats of a value are number literals; a float without a literal is not written.\<close>

fun literals_ok :: "any \<Rightarrow> bool" where
  "literals_ok (AFloat32 (FFin l)) = wf_num l"
| "literals_ok (AFloat64 (FFin l)) = wf_num l"
| "literals_ok (AMap m) = list_all (\<lambda>kv. literals_ok (snd kv)) m"
| "literals_ok (AList xs) = list_all literals_ok xs"
| "literals_ok _ = True"

lemma opt_all_elem: "opt_all f xs = Some ys \<Longrightarrow> y \<in> set ys \<Longrightarrow> \<exists>x \<in> set xs. f x = Some y"
  by (induction xs arbitrary: ys) (auto split: option.splits)

lemma enc_any_wf: "enc_any v = Some j \<Longrightarrow> literals_ok v \<Longrightarrow> wf_json j"
proof (induction v arbitrary: j)
  case (AFloat32 f)
  then show ?case by (cases f) auto
next
  case (AFloat64 f)
  then show ?case by (cases f) auto
next
  case (AMap m)
  then obtain kvs where o: "opt_all (\<lambda>kv. map_option (Pair (fst kv)) (enc_any (snd kv))) m = Some kvs"
    and j: "j = JObj (sort_key fst kvs)" by auto
  have "wf_json (snd kv)" if "kv \<in> set kvs" for kv
  proof -
    from opt_all_elem [OF o that] obtain x where x: "x \<in> set m" "enc_any (snd x) = Some (snd kv)"
      by (cases kv) auto
    with AMap.prems(2) have "literals_ok (snd x)" by (auto simp: list_all_iff)
    with AMap.IH [of x "snd x"] x show ?thesis by (cases x) auto
  qed
  then show ?case by (auto simp: j list_all_iff)
next
  case (AList xs)
  then obtain js where o: "opt_all enc_any xs = Some js" and j: "j = JArr js" by auto
  have "wf_json y" if "y \<in> set js" for y
    using opt_all_elem [OF o that] AList.IH AList.prems(2) by (auto simp: list_all_iff)
  then show ?case by (auto simp: j list_all_iff)
qed (auto simp: jint_def)

text \<open>What a data file of the model has to hold: the counts are machine integers.\<close>

definition stats_ok :: "data_file \<Rightarrow> bool" where
  "stats_ok df \<longleftrightarrow> in_int64 (RecordCount df) \<and>
     list_all (\<lambda>cs. in_int64 (NumNulls cs) \<and>
       pred_option (\<lambda>r. literals_ok (MinValue r) \<and> literals_ok (MaxValue r)) (StatRange cs)) (ColumnStats df)"

definition st_ok :: "stats_json \<Rightarrow> bool" where
  "st_ok st \<longleftrightarrow> in_int64 (st_NumRecords st) \<and> wf_map (st_NullCount st) \<and>
     literals_ok (AMap (st_MinValues st)) \<and> literals_ok (AMap (st_MaxValues st))"

lemma literals_ok_put:
  "literals_ok (AMap m) \<Longrightarrow> literals_ok v \<Longrightarrow> literals_ok (AMap (map_put k v m))"
  by (induction m) (auto simp: map_put_def)

lemma literals_ok_bound:
  "literals_ok (AMap m) \<Longrightarrow> literals_ok v \<Longrightarrow> literals_ok (AMap (put_bound k v m))"
proof -
  have "finiteBound v = Some x \<Longrightarrow> x = v" for x
    by (auto simp: finiteBound_def split: any.splits gfloat.splits)
  then show "literals_ok (AMap m) \<Longrightarrow> literals_ok v \<Longrightarrow> literals_ok (AMap (put_bound k v m))"
    using literals_ok_put [of m v k] by (auto simp: put_bound_def split: option.splits)
qed

lemma st_ok_step:
  assumes "st_ok st" "pred_option (\<lambda>r. literals_ok (MinValue r) \<and> literals_ok (MaxValue r)) (StatRange cs)"
  shows "st_ok (stats_step st cs) \<and> st_NumRecords (stats_step st cs) = st_NumRecords st"
  using assms literals_ok_bound
  by (cases "StatField cs"; cases "StatRange cs") (auto simp: st_ok_def stats_step_def Let_def simp del: literals_ok.simps)

lemma stats_of_file_ok:
  assumes "stats_ok df"
  shows "st_ok (stats_of_file df) \<and> st_NumRecords (stats_of_file df) = RecordCount df"
proof -
  have "st_ok (foldl stats_step st css) \<and> st_NumRecords (foldl stats_step st css) = st_NumRecords st"
    if "st_ok st" "list_all (\<lambda>cs. pred_option (\<lambda>r. literals_ok (MinValue r) \<and> literals_ok (MaxValue r)) (StatRange cs)) css"
    for st css
    using that by (induction css arbitrary: st) (auto simp: st_ok_step)
  moreover have "st_ok \<lparr>st_NumRecords = RecordCount df, st_MinValues = [], st_MaxValues = [], st_NullCount = []\<rparr>"
    using assms by (simp add: st_ok_def stats_ok_def wf_map_def)
  moreover have "list_all (\<lambda>cs. pred_option (\<lambda>r. literals_ok (MinValue r) \<and> literals_ok (MaxValue r)) (StatRange cs)) (ColumnStats df)"
    using assms by (auto simp: stats_ok_def list_all_iff)
  ultimately show ?thesis by (simp add: stats_of_file_def)
qed

text \<open>A value a null count can be read from.\<close>

definition numeric :: "any \<Rightarrow> bool" where
  "numeric v \<longleftrightarrow> (\<exists>l. v = AFloat64 (FFin l))"

definition numerics :: "(string \<times> any) list \<Rightarrow> bool" where
  "numerics m = list_all (\<lambda>kv. numeric (snd kv)) m"

lemma put_numerics: "numerics m \<Longrightarrow> numeric v \<Longrightarrow> numerics (map_put k v m)"
  by (induction m) (auto simp: map_put_def numerics_def)

lemma flatten_numerics: "numerics raw \<Longrightarrow> numerics out \<Longrightarrow> numerics (flattenStatsMap raw pre out)"
proof (induction raw arbitrary: out)
  case (Cons kv raw)
  obtain k v where kv: "kv = (k, v)" by fastforce
  with Cons.prems(1) obtain l where v: "v = AFloat64 (FFin l)" by (auto simp: numerics_def numeric_def)
  have "numerics (map_put (sub_path pre k) v out)"
    by (rule put_numerics [OF Cons.prems(2)]) (simp add: numeric_def v)
  moreover have "numerics raw" using Cons.prems(1) by (simp add: numerics_def)
  ultimately show ?case using Cons.IH [of "map_put (sub_path pre k) v out"] by (simp add: kv v)
qed simp

lemma dec_map_any:
  obtains m where "dec_map (\<lambda>v. Some (any_of_json v)) (Some (JObj kvs)) = Some m"
    and "list_all (\<lambda>kv. numeric (any_of_json (snd kv))) kvs \<Longrightarrow> numerics m"
proof -
  have f: "numerics m \<Longrightarrow> numerics xs \<Longrightarrow> numerics (foldl (\<lambda>m kv. map_put (fst kv) (snd kv) m) m xs)" for m xs
  proof (induction xs arbitrary: m)
    case (Cons x xs)
    then have "numerics (map_put (fst x) (snd x) m)" by (intro put_numerics) (simp_all add: numerics_def)
    with Cons show ?case by (simp add: numerics_def)
  qed simp
  have "opt_all (\<lambda>kv. Some (fst kv, any_of_json (snd kv))) kvs =
      Some (map (\<lambda>kv. (fst kv, any_of_json (snd kv))) kvs)"
    using opt_all_map [of kvs "\<lambda>kv. Some (fst kv, any_of_json (snd kv))" "\<lambda>x. x" "\<lambda>kv. (fst kv, any_of_json (snd kv))"] by simp
  moreover have "list_all (\<lambda>kv. numeric (any_of_json (snd kv))) kvs \<Longrightarrow>
      numerics (map (\<lambda>kv. (fst kv, any_of_json (snd kv))) kvs)" by (simp add: numerics_def list.pred_map comp_def)
  ultimately show ?thesis using that f [of "[]"] by (simp add: numerics_def [of "[]"])
qed

text \<open>A member written for a map: absent, or an object.\<close>

definition map_member :: "string \<Rightarrow> members \<Rightarrow> bool" where
  "map_member k ms \<longleftrightarrow> ms = [] \<or> (\<exists>kvs. ms = [(k, JObj kvs)] \<and> wf_json (JObj kvs))"

lemma omit_any_map_member: "omit_any_map k m = Some ms \<Longrightarrow> literals_ok (AMap m) \<Longrightarrow> map_member k ms"
  using enc_any_wf [of "AMap m"]
  by (auto simp: omit_any_map_def map_member_def enc_any_map_def simp del: literals_ok.simps wf_json.simps split: if_splits)

lemma nullCount_member:
  "map_member ''nullCount'' (omit_map ''nullCount'' jint m) \<and>
    (\<forall>kvs. omit_map ''nullCount'' jint m = [(''nullCount'', JObj kvs)] \<longrightarrow>
      list_all (\<lambda>kv. numeric (any_of_json (snd kv))) kvs)"
  by (auto simp: map_member_def omit_map_def enc_map_def numeric_def jint_def list_all_iff)

lemma dec_stats_members:
  assumes "map_member ''minValues'' mins" "map_member ''maxValues'' maxs" "map_member ''nullCount'' nulls" "in_int64 n"
    and "\<And>kvs. nulls = [(''nullCount'', JObj kvs)] \<Longrightarrow> list_all (\<lambda>kv. numeric (any_of_json (snd kv))) kvs"
  shows "\<exists>sb. dec_stats (JObj ([(''numRecords'', jint n)] @ mins @ maxs @ nulls)) = Some sb \<and>
    sb_NumRecords sb = n \<and> numerics (sb_NullCount sb)"
proof -
  let ?ms = "[(''numRecords'', jint n)] @ mins @ maxs @ nulls"
  have get: "jfield k ms = (if ms = [] then None else if equalFold k' k then Some (snd (hd ms)) else None)"
    if "map_member k' ms" for k k' ms using that by (auto simp: map_member_def jfield_Cons)
  have dec: "\<exists>m. dec_map (\<lambda>v. Some (any_of_json v)) (if ms = [] then None else Some (snd (hd ms))) = Some m \<and>
      ((\<forall>kvs. ms = [(k, JObj kvs)] \<longrightarrow> list_all (\<lambda>kv. numeric (any_of_json (snd kv))) kvs) \<longrightarrow> numerics m)"
    if ms: "map_member k ms" for k ms
  proof (cases "ms = []")
    case False
    with ms obtain kvs where "ms = [(k, JObj kvs)]" by (auto simp: map_member_def)
    moreover obtain m where "dec_map (\<lambda>v. Some (any_of_json v)) (Some (JObj kvs)) = Some m"
      "list_all (\<lambda>kv. numeric (any_of_json (snd kv))) kvs \<Longrightarrow> numerics m"
      using dec_map_any [of kvs] by blast
    ultimately show ?thesis by auto
  qed (simp add: numerics_def)
  have "jfield ''numRecords'' ?ms = Some (jint n)"
    by (simp add: jfield_append jfield_Cons get [OF assms(1)] get [OF assms(2)] get [OF assms(3)] key_simps)
  moreover have "jfield ''minValues'' ?ms = (if mins = [] then None else Some (snd (hd mins)))"
    "jfield ''maxValues'' ?ms = (if maxs = [] then None else Some (snd (hd maxs)))"
    "jfield ''nullCount'' ?ms = (if nulls = [] then None else Some (snd (hd nulls)))"
    by (simp_all add: jfield_append jfield_Cons get [OF assms(1)] get [OF assms(2)] get [OF assms(3)] key_simps)
  moreover have "dec_int (Some (jint n)) = Some n" using assms(4) by (simp add: jint_def)
  moreover obtain m1 m2 m3 where
    "dec_map (\<lambda>v. Some (any_of_json v)) (if mins = [] then None else Some (snd (hd mins))) = Some m1"
    "dec_map (\<lambda>v. Some (any_of_json v)) (if maxs = [] then None else Some (snd (hd maxs))) = Some m2"
    "dec_map (\<lambda>v. Some (any_of_json v)) (if nulls = [] then None else Some (snd (hd nulls))) = Some m3" "numerics m3"
    using dec [OF assms(1)] dec [OF assms(2)] dec [OF assms(3)] assms(5) by blast
  ultimately show ?thesis
    by (simp only: dec_stats_def struct_members.simps option.simps bind.simps stats_blob.simps simp_thms)
qed

lemma map_member_wf: "map_member k ms \<Longrightarrow> list_all (\<lambda>kv. wf_json (snd kv)) ms"
  by (auto simp: map_member_def)

lemma written_stats:
  assumes "st_ok st" "marshal_stats st \<noteq> ''''"
  shows "\<exists>sb. Option.bind (json_unmarshal (marshal_stats st)) dec_stats = Some sb \<and>
    sb_NumRecords sb = st_NumRecords st \<and> numerics (sb_NullCount sb)"
proof -
  from assms(2) obtain mins maxs where mm: "omit_any_map ''minValues'' (st_MinValues st) = Some mins"
    "omit_any_map ''maxValues'' (st_MaxValues st) = Some maxs" by (auto simp: marshal_stats_def split: option.splits)
  let ?nulls = "omit_map ''nullCount'' jint (st_NullCount st)"
  have m: "map_member ''minValues'' mins" "map_member ''maxValues'' maxs"
    using omit_any_map_member [OF mm(1)] omit_any_map_member [OF mm(2)] assms(1) by (simp_all only: st_ok_def)
  let ?j = "JObj ([(''numRecords'', jint (st_NumRecords st))] @ mins @ maxs @ ?nulls)"
  have "wf_json ?j" using map_member_wf [OF m(1)] map_member_wf [OF m(2)] by simp
  then have "json_unmarshal (json_print ?j) = Some ?j" by (rule json_unmarshal_print)
  then have "json_unmarshal (marshal_stats st) = Some ?j" by (simp only: marshal_stats_def mm option.case prod.case)
  moreover have "\<exists>sb. dec_stats ?j = Some sb \<and> sb_NumRecords sb = st_NumRecords st \<and> numerics (sb_NullCount sb)"
    by (rule dec_stats_members [OF m]) (use nullCount_member assms(1) in \<open>auto simp: st_ok_def\<close>)
  ultimately show ?thesis by simp
qed

section \<open>A written file reads back\<close>

lemma map_res_total: "(\<And>x. x \<in> set xs \<Longrightarrow> \<exists>y. f x = Inr y) \<Longrightarrow> \<exists>ys. map_res f xs = Inr ys"
proof (induction xs)
  case (Cons x xs)
  then obtain y ys where "f x = Inr y" "map_res f xs = Inr ys" by fastforce
  then show ?case by simp
qed simp

lemma concat_total:
  "(\<And>x. x \<in> set xs \<Longrightarrow> \<exists>y. f x = Inr y) \<Longrightarrow> \<exists>cs. bind_res (map_res f xs) (\<lambda>xs. Inr (concat xs)) = Inr cs"
  using map_res_total [of xs f] by fastforce

lemma field_stat_total: "numerics nulls \<Longrightarrow> \<exists>cs. field_stat mins maxs nulls path f = Inr cs"
proof -
  assume n: "numerics nulls"
  have "\<exists>l. raw = AFloat64 (FFin l)" if "map_of nulls path = Some raw" for raw
    using map_of_SomeD [OF that] n by (auto simp: numerics_def numeric_def list_all_iff)
  then show ?thesis
    by (cases "map_of nulls path"; cases "map_of mins path"; cases "map_of maxs path") (fastforce simp: field_stat_def Let_def)+
qed

lemma columnStats_total: "numerics nulls \<Longrightarrow> \<exists>cs. columnStatsFromFlatMaps s pre mins maxs nulls = Inr cs"
proof (induction s pre mins maxs nulls rule: columnStatsFromFlatMaps.induct)
  case (1 s pre mins maxs nulls)
  show ?case unfolding columnStatsFromFlatMaps.simps [of s]
  proof (rule concat_total)
    fix f
    assume f: "f \<in> set (Fields s)"
    obtain own where own: "field_stat mins maxs nulls (sub_path pre (FieldName f)) f = Inr own"
      using field_stat_total [OF "1.prems"] by blast
    show "\<exists>y. (let path = sub_path pre (FieldName f) in
           bind_res (field_stat mins maxs nulls path f) (\<lambda>own.
           case FieldSchema f of
             None \<Rightarrow> Inr own
           | Some t \<Rightarrow>
               if DataType t = TypeRecord
               then bind_res (columnStatsFromFlatMaps t path mins maxs nulls) (\<lambda>nested. Inr (own @ nested))
               else Inr own)) = Inr y"
      using "1.IH" [OF f refl own] "1.prems" own
      by (cases "FieldSchema f") (fastforce simp: Let_def)+
  qed
qed

definition partition_fields_ok :: "table \<Rightarrow> bool" where
  "partition_fields_ok tbl = list_all (\<lambda>pf. SourceField pf \<noteq> None) (PartitioningFields tbl)"

lemma partition_values_total: "partition_fields_ok tbl \<Longrightarrow> \<exists>pvs. partition_values_of add tbl = Inr pvs"
proof -
  assume "partition_fields_ok tbl"
  then have "\<exists>ys. map_res (\<lambda>pf.
           case SourceField pf of
             None \<Rightarrow> Inl nil_panic
           | Some f \<Rightarrow>
               (case map_of (add_PartitionValues add) (FieldName f) of
                  None \<Rightarrow> Inr []
                | Some val \<Rightarrow>
                    Inr [\<lparr>PVField = Some pf,
                          PVRange = Some (NewScalarRange (case val of None \<Rightarrow> ANil | Some x \<Rightarrow> AStr x))\<rparr>]))
           (PartitioningFields tbl) = Inr ys"
    by (intro map_res_total) (auto simp: partition_fields_ok_def list_all_iff split: option.splits)
  then show ?thesis by (auto simp: partition_values_of_def)
qed

lemma convert_written:
  assumes "stats_ok df" "partition_fields_ok tbl"
  shows "\<exists>df'. convertAddAction s (canon_add (convertDataFileToAddAction base df)) tbl = Inr df' \<and>
    PhysicalPath df' = resolveDataPath (ds_basePath s) (makeRelativePath base (PhysicalPath df)) \<and>
    FileSizeBytes df' = FileSizeBytes df \<and> LastModified df' = LastModified df \<and>
    (marshal_stats (stats_of_file df) \<noteq> '''' \<longrightarrow> RecordCount df' = RecordCount df)"
proof -
  let ?add = "canon_add (convertDataFileToAddAction base df)"
  have st: "add_Stats ?add = marshal_stats (stats_of_file df)" by (simp add: canon_add_def convertDataFileToAddAction_def)
  obtain pvs where p: "partition_values_of ?add tbl = Inr pvs" using partition_values_total [OF assms(2)] by blast
  have "\<exists>n cols. stats_of_add ?add tbl = Inr (n, cols) \<and> (marshal_stats (stats_of_file df) \<noteq> '''' \<longrightarrow> n = RecordCount df)"
  proof (cases "marshal_stats (stats_of_file df) = ''''")
    case False
    with written_stats [of "stats_of_file df"] stats_of_file_ok [OF assms(1)] obtain sb
      where sb: "Option.bind (json_unmarshal (marshal_stats (stats_of_file df))) dec_stats = Some sb"
        "sb_NumRecords sb = RecordCount df" "numerics (sb_NullCount sb)" by auto
    have "numerics (flattenStatsMap (sb_NullCount sb) '''' [])"
      by (rule flatten_numerics [OF sb(3)]) (simp add: numerics_def)
    from columnStats_total [OF this] False sb(1,2) show ?thesis
      by (cases "ReadSchema tbl") (fastforce simp: stats_of_add_def st)+
  qed (simp add: stats_of_add_def st)
  then show ?thesis using p by (auto simp: convertAddAction_def canon_add_def convertDataFileToAddAction_def)
qed

section \<open>The snapshot exists\<close>

lemma table_walk_all:
  "map_res (readCommit s) vs = Inr cs \<Longrightarrow> \<forall>v \<in> set vs. v \<le> target \<Longrightarrow>
    table_walk s target vs m t = Inr (latest_meta m (all_actions cs), last (t # instants t cs))"
proof (induction vs arbitrary: cs m t)
  case (Cons v vs)
  then obtain c rest where c: "readCommit s v = Inr c" "map_res (readCommit s) vs = Inr rest" "cs = c # rest"
    by (auto split: sum.splits)
  with Cons.IH [OF c(2)] Cons.prems(2) show ?case
    by (simp add: all_actions_def latest_meta_def Let_def)
qed (simp add: latest_meta_def all_actions_def)

definition converts :: "delta_source \<Rightarrow> table \<Rightarrow> single_action list \<Rightarrow> bool" where
  "converts s tbl acts \<longleftrightarrow> (\<forall>a \<in> set acts. \<forall>add. act_Add a = Some add \<longrightarrow> (\<exists>df. convertAddAction s add tbl = Inr df))"

lemma replay_actions_total: "converts s tbl acts \<Longrightarrow> \<exists>r. replay_actions s tbl acts active = Inr r"
proof (induction acts arbitrary: active)
  case (Cons a acts)
  then have c: "converts s tbl acts" by (simp add: converts_def)
  show ?case
  proof (cases "act_Add a")
    case None
    then show ?thesis using Cons.IH [OF c] by (cases "act_Remove a") simp_all
  next
    case (Some add)
    with Cons.prems obtain df where "convertAddAction s add tbl = Inr df" by (auto simp: converts_def)
    with Some Cons.IH [OF c] show ?thesis by simp
  qed
qed simp

lemma replay_commits_total:
  "map_res (readCommit s) vs = Inr cs \<Longrightarrow> converts s tbl (all_actions cs) \<Longrightarrow> \<exists>r. replay_commits s tbl vs active = Inr r"
proof (induction vs arbitrary: cs active)
  case (Cons v vs)
  then obtain c rest where c: "readCommit s v = Inr c" "map_res (readCommit s) vs = Inr rest" "cs = c # rest"
    by (auto split: sum.splits)
  with Cons.prems(2) have "converts s tbl (dc_Actions c)" "converts s tbl (all_actions rest)"
    by (auto simp: converts_def all_actions_def)
  with replay_actions_total [of s tbl "dc_Actions c" active] Cons.IH [OF c(2)] c(1) show ?case by fastforce
qed simp

lemma snapshot_total:
  assumes "polytable_log s hist" "hist \<noteq> []"
    and "latest_meta None (all_actions (commits_of hist)) = Some meta"
    and "tableFromMetadata s meta (last (0 # instants 0 (commits_of hist))) = Inr tbl"
    and "converts s tbl (all_actions (commits_of hist))"
  shows "\<exists>snap. delta_GetCurrentSnapshot decode s = Inr snap \<and> SnapTable snap = tbl"
proof -
  let ?vs = "map int [0..<length hist]"
  let ?st = "\<lparr>ls_checkpoint = None, ls_versions = ?vs\<rparr>"
  have v: "latestVersion ?st = Some (last ?vs)" using assms(2) by (simp add: latestVersion_def)
  have "\<forall>v \<in> set ?vs. v \<le> last ?vs" using assms(2) by (auto simp: last_map)
  from table_walk_all [OF polytable_log_read [OF assms(1)] this, of None 0] assms(3,4)
  have "tableAt s ?st (last ?vs) = Inr tbl" by (simp add: tableAt_def)
  moreover obtain r where "replay_commits s tbl ?vs [] = Inr r"
    using replay_commits_total [OF polytable_log_read [OF assms(1)] assms(5)] by blast
  ultimately show ?thesis
    using polytable_log_state [OF assms(1), of decode] v by (simp add: delta_GetCurrentSnapshot_def)
qed

text \<open>Every add action of the log was written by polytable for a file with sound statistics.\<close>

definition written_files :: "string \<Rightarrow> single_action list list \<Rightarrow> bool" where
  "written_files base hist \<longleftrightarrow>
     (\<forall>acts \<in> set hist. \<forall>a \<in> set acts. \<forall>add. act_Add a = Some add \<longrightarrow>
        (\<exists>df. stats_ok df \<and> add = convertDataFileToAddAction base df))"

lemma written_converts:
  assumes "written_files base hist" "partition_fields_ok tbl"
  shows "converts s tbl (all_actions (commits_of hist))"
proof -
  have "\<exists>df. convertAddAction s add tbl = Inr df"
    if "acts \<in> set hist" "a \<in> set acts" "act_Add (canon_action a) = Some add" for acts a add
  proof -
    from that(3) obtain add' where a: "act_Add a = Some add'" "add = canon_add add'" by (auto simp: canon_action_def)
    with assms(1) that(1,2) obtain df where "stats_ok df" "add' = convertDataFileToAddAction base df"
      unfolding written_files_def by blast
    with convert_written [OF _ assms(2)] a show ?thesis by blast
  qed
  then show ?thesis by (auto simp: converts_def all_actions_commits)
qed

lemma tableFromMetadata_ok: "tableFromMetadata s meta ct = Inr tbl \<Longrightarrow> partition_fields_ok tbl"
  by (auto simp: tableFromMetadata_def partition_fields_ok_def list.pred_map list.pred_True comp_def)

text \<open>A log of such actions with a readable schema has a snapshot.\<close>

lemma log_total:
  assumes "polytable_log s hist" "written_files (ds_basePath s) hist"
    and "latest_meta None (all_actions (commits_of hist)) = Some meta" "DeltaJSONToSchema (md_SchemaString meta) = Inr sch"
  shows "\<exists>snap. delta_GetCurrentSnapshot decode s = Inr snap \<and> TableName (SnapTable snap) = md_Name meta \<and>
    ReadSchema (SnapTable snap) = Some sch \<and> partition_fields_ok (SnapTable snap)"
proof -
  obtain tbl where tbl: "tableFromMetadata s meta (last (0 # instants 0 (commits_of hist))) = Inr tbl"
    "TableName tbl = md_Name meta" "ReadSchema tbl = Some sch"
    by (simp add: tableFromMetadata_def assms(4))
  have pf: "partition_fields_ok tbl" by (rule tableFromMetadata_ok [OF tbl(1)])
  have "hist \<noteq> []" using assms(3) by (auto simp: all_actions_commits latest_meta_def)
  from snapshot_total [OF assms(1) this assms(3) tbl(1) written_converts [OF assms(2) pf], of decode] tbl pf
  show ?thesis by blast
qed

section \<open>A snapshot commit reads back\<close>

text \<open>The schema has a type at every field.\<close>

definition readable_schema :: "schema \<Rightarrow> bool" where
  "readable_schema sch \<longleftrightarrow> list_all (\<lambda>f. \<exists>t. FieldSchema f = Some t \<and> complete_schema t) (Fields sch)"

lemma latest_meta_append: "latest_meta m (xs @ ys) = latest_meta (latest_meta m xs) ys"
  by (simp add: latest_meta_def)

lemma latest_meta_tail:
  "latest_meta m (map canon_action (map (remove_of base now) rs)) = m"
  "latest_meta m (map canon_action (map (add_of base) dfs)) = m"
  "latest_meta m [canon_action (commit_info_of now oper)] = m"
proof -
  show "latest_meta m (map canon_action (map (remove_of base now) rs)) = m"
    by (induction rs) (simp_all add: latest_meta_def canon_action_def remove_of_def emptyAction_def)
  show "latest_meta m (map canon_action (map (add_of base) dfs)) = m"
    by (induction dfs) (simp_all add: latest_meta_def canon_action_def add_of_def emptyAction_def)
  show "latest_meta m [canon_action (commit_info_of now oper)] = m"
    by (simp add: latest_meta_def canon_action_def commit_info_of_def emptyAction_def)
qed

lemma latest_meta_head:
  "latest_meta m (canon_action protocol_of # acts) = latest_meta m acts"
  "latest_meta m (canon_action (metadata_action_of env n sj cols wm) # acts) =
     latest_meta (act_MetaData (canon_action (metadata_action_of env n sj cols wm))) acts"
  "\<exists>meta. act_MetaData (canon_action (metadata_action_of env n sj cols wm)) = Some meta \<and> md_SchemaString meta = sj \<and> md_Name meta = n"
  by (simp_all add: latest_meta_def canon_action_def canon_metadata_def protocol_of_def metadata_action_of_def emptyAction_def)

lemma latest_meta_snapshot:
  assumes "snapshot_actions env target snap = Inr acts"
  shows "\<exists>sj meta. SchemaToDeltaJSON (ReadSchema (SnapTable snap)) = Inr sj \<and>
    latest_meta m (map canon_action acts) = Some meta \<and> md_SchemaString meta = sj \<and> md_Name meta = TableName (SnapTable snap)"
proof -
  obtain sj cols where s: "SchemaToDeltaJSON (ReadSchema (SnapTable snap)) = Inr sj"
    and acts: "acts = protocol_of # metadata_action_of env (TableName (SnapTable snap)) sj cols
      (watermark (LatestCommitTime (SnapTable snap)) (TableFormat (SnapTable snap)) (SnapSourceIdentifier snap)) #
      map (add_of (BasePath target)) (AllDataFiles snap) @ [commit_info_of (ce_now env) ''POLYTABLE_SYNC_SNAPSHOT'']"
    by (rule snapshot_actions_form [OF assms])
  show ?thesis using s latest_meta_head(3)
    by (simp only: acts list.map map_append latest_meta_append latest_meta_head(1,2) latest_meta_tail) blast
qed

lemma latest_meta_change:
  assumes "change_actions env target change = Inr acts"
  shows "\<exists>sj meta. SchemaToDeltaJSON (ReadSchema (TableAsOfChange change)) = Inr sj \<and>
    latest_meta m (map canon_action acts) = Some meta \<and> md_SchemaString meta = sj"
proof -
  obtain sj cols where s: "SchemaToDeltaJSON (ReadSchema (TableAsOfChange change)) = Inr sj"
    and acts: "acts = metadata_action_of env (TableName (TableAsOfChange change)) sj cols
      (watermark (CommitTime change) (TableFormat (TableAsOfChange change)) (ChangeSourceIdentifier change)) #
      map (remove_of (BasePath target) (ce_now env)) (FilesRemoved (FilesDiff change)) @
      map (add_of (BasePath target)) (FilesAdded (FilesDiff change)) @
      [commit_info_of (ce_now env) ''POLYTABLE_SYNC_INCREMENTAL'']"
    by (rule change_actions_form [OF assms])
  show ?thesis using s latest_meta_head(3)
    by (simp only: acts list.map map_append latest_meta_append latest_meta_head(1,2) latest_meta_tail) blast
qed

lemma foldl_upd_lookup:
  "distinct (map k xs) \<Longrightarrow> x \<in> set xs \<Longrightarrow> foldl (\<lambda>m y. m(k y \<mapsto> v y)) m xs (k x) = Some (v x)"
  by (induction xs rule: rev_induct) (auto simp: image_iff)

lemma snapshot_log_file:
  assumes "snapshot_actions env target snap = Inr acts" "df \<in> set (AllDataFiles snap)"
    "distinct (map (rel (BasePath target)) (AllDataFiles snap))"
  shows "log_files (hist @ [acts]) (rel (BasePath target) df) = Some (canon_add (convertDataFileToAddAction (BasePath target) df))"
proof -
  obtain sj cols where acts: "acts = protocol_of # metadata_action_of env (TableName (SnapTable snap)) sj cols
      (watermark (LatestCommitTime (SnapTable snap)) (TableFormat (SnapTable snap)) (SnapSourceIdentifier snap)) #
      map (add_of (BasePath target)) (AllDataFiles snap) @ [commit_info_of (ce_now env) ''POLYTABLE_SYNC_SNAPSHOT'']"
    by (rule snapshot_actions_form [OF assms(1)])
  have "live m' [] = m'" for m' by (simp add: live_def)
  then show ?thesis
    by (simp only: log_files_snoc acts list.map map_append live_Cons live_append live_neutral live_adds foldl_upd_lookup [OF assms(3,2)])
qed

lemma log_snapshot_represents:
  assumes "polytable_log s hist" "delta_GetCurrentSnapshot decode s = Inr snap"
  shows "\<exists>active. represents s (SnapTable snap) active (log_files hist) \<and> DataFiles snap = map snd active"
proof -
  obtain st cs active where p: "loadLogState decode s = Inr st" "map_res (readCommit s) (ls_versions st) = Inr cs"
    "represents s (SnapTable snap) active (live (checkpoint_files st) (all_actions cs))"
    and d: "DataFiles snap = map snd active"
    by (rule snapshot_parts [OF assms(2)])
  have st: "st = \<lparr>ls_checkpoint = None, ls_versions = map int [0..<length hist]\<rparr>"
    using p(1) polytable_log_state [OF assms(1), of decode] by simp
  with p(2) polytable_log_read [OF assms(1)] have "cs = commits_of hist" by simp
  with p(3) st d show ?thesis by (auto simp: checkpoint_files_def log_files_def)
qed

lemma written_snapshot:
  assumes "snapshot_actions env target snap = Inr acts" "list_all stats_ok (AllDataFiles snap)"
    "written_files (BasePath target) hist"
  shows "written_files (BasePath target) (hist @ [acts])"
proof -
  obtain sj cols where acts: "acts = protocol_of # metadata_action_of env (TableName (SnapTable snap)) sj cols
      (watermark (LatestCommitTime (SnapTable snap)) (TableFormat (SnapTable snap)) (SnapSourceIdentifier snap)) #
      map (add_of (BasePath target)) (AllDataFiles snap) @ [commit_info_of (ce_now env) ''POLYTABLE_SYNC_SNAPSHOT'']"
    by (rule snapshot_actions_form [OF assms(1)])
  have "\<exists>df. stats_ok df \<and> add = convertDataFileToAddAction (BasePath target) df"
    if "a \<in> set acts" "act_Add a = Some add" for a add
    using that assms(2)
    by (auto simp: acts protocol_of_def metadata_action_of_def add_of_def commit_info_of_def emptyAction_def list_all_iff)
  with assms(3) show ?thesis by (auto simp: written_files_def)
qed

lemma distinct_relative:
  assumes "list_all (\<lambda>df. below base (PhysicalPath df)) dfs" "distinct (map PhysicalPath dfs)"
  shows "distinct (map (rel base) dfs)"
proof -
  have "inj_on (makeRelativePath base) (PhysicalPath ` set dfs)"
    by (rule relative_inj) (use assms(1) in \<open>auto simp: list_all_iff\<close>)
  then show ?thesis using assms(2) comp_inj_on [of PhysicalPath "set dfs" "makeRelativePath base"]
    by (simp add: distinct_map comp_def)
qed

lemma file_reads_back:
  assumes "polytable_log s (hist @ [acts])" "delta_GetCurrentSnapshot decode s = Inr snap'"
    "ds_basePath s = BasePath target" "snapshot_actions env target snap = Inr acts" "df \<in> set (AllDataFiles snap)"
    "list_all (\<lambda>df. below (BasePath target) (PhysicalPath df)) (AllDataFiles snap)"
    "distinct (map PhysicalPath (AllDataFiles snap))" "list_all stats_ok (AllDataFiles snap)"
    "partition_fields_ok (SnapTable snap')"
  shows "\<exists>df' \<in> set (DataFiles snap'). PhysicalPath df' = PhysicalPath df \<and>
      FileSizeBytes df' = FileSizeBytes df \<and> LastModified df' = LastModified df \<and>
      (marshal_stats (stats_of_file df) \<noteq> '''' \<longrightarrow> RecordCount df' = RecordCount df)"
proof -
  let ?add = "canon_add (convertDataFileToAddAction (BasePath target) df)"
  obtain active where a: "represents s (SnapTable snap') active (log_files (hist @ [acts]))" "DataFiles snap' = map snd active"
    using log_snapshot_represents [OF assms(1,2)] by blast
  have "log_files (hist @ [acts]) (rel (BasePath target) df) = Some ?add"
    by (rule snapshot_log_file [OF assms(4,5) distinct_relative [OF assms(6,7)]])
  with a(1) have "converts_to s (SnapTable snap') (Some ?add) (map_of active (rel (BasePath target) df))"
    by (metis represents_def)
  then obtain df' where d: "map_of active (rel (BasePath target) df) = Some df'" "convertAddAction s ?add (SnapTable snap') = Inr df'"
    by (auto simp: converts_to_def)
  have "df' \<in> set (DataFiles snap')" using map_of_SomeD [OF d(1)] a(2) by force
  moreover have "stats_ok df" "resolveDataPath (BasePath target) (rel (BasePath target) df) = PhysicalPath df"
    using assms(5,6,8) by (auto simp: list_all_iff resolve_relative)
  ultimately show ?thesis using convert_written [OF _ assms(9), of df s "BasePath target"] d(2) assms(3) by auto
qed


section \<open>The changes exist\<close>

definition metas_ok :: "single_action list \<Rightarrow> bool" where
  "metas_ok acts \<longleftrightarrow>
     (\<forall>a \<in> set acts. \<forall>m. act_MetaData a = Some m \<longrightarrow> (\<exists>sch. DeltaJSONToSchema (md_SchemaString m) = Inr sch))"

lemma commit_table_total:
  "metas_ok acts \<Longrightarrow> pred_option partition_fields_ok tbl \<Longrightarrow>
    \<exists>tbl'. commit_table s t acts tbl = Inr tbl' \<and> pred_option partition_fields_ok tbl' \<and>
      (tbl \<noteq> None \<or> (\<exists>a \<in> set acts. act_MetaData a \<noteq> None) \<longrightarrow> tbl' \<noteq> None)"
proof (induction acts arbitrary: tbl)
  case (Cons a acts)
  then have m: "metas_ok acts" by (simp add: metas_ok_def)
  show ?case
  proof (cases "act_MetaData a")
    case None
    with Cons.IH [OF m Cons.prems(2)] show ?thesis by auto
  next
    case (Some md)
    with Cons.prems(1) obtain tbl1 where t1: "tableFromMetadata s md t = Inr tbl1"
      by (fastforce simp: metas_ok_def tableFromMetadata_def)
    have "pred_option partition_fields_ok (Some tbl1)" using tableFromMetadata_ok [OF t1] by simp
    from Cons.IH [OF m this] show ?thesis by (auto simp: Some t1)
  qed
qed simp

lemma changeFromCommit_total:
  assumes "converts s tbl (dc_Actions c)"
  shows "\<exists>ch. changeFromCommit s c tbl = Inr ch"
proof -
  have "\<exists>ys. map_res (\<lambda>add. convertAddAction s add tbl) (List.map_filter act_Add (dc_Actions c)) = Inr ys"
    by (rule map_res_total) (use assms in \<open>auto simp: converts_def List.map_filter_def\<close>)
  then show ?thesis by (auto simp: changeFromCommit_def)
qed

lemma changes_walk_total:
  "map_res (readCommit s) vs = Inr cs \<Longrightarrow> metas_ok (all_actions cs) \<Longrightarrow>
    (\<forall>tb. partition_fields_ok tb \<longrightarrow> converts s tb (all_actions cs)) \<Longrightarrow> pred_option partition_fields_ok tbl \<Longrightarrow>
    tbl \<noteq> None \<or> cs = [] \<or> (\<exists>a \<in> set (dc_Actions (hd cs)). act_MetaData a \<noteq> None) \<Longrightarrow>
    \<exists>chs' tbl' t'. changes_walk s from vs tbl t chs = Inr (chs', tbl', t') \<and> (tbl \<noteq> None \<or> cs \<noteq> [] \<longrightarrow> tbl' \<noteq> None)"
proof (induction vs arbitrary: cs tbl t chs)
  case (Cons v vs)
  then obtain c rest where c: "readCommit s v = Inr c" "map_res (readCommit s) vs = Inr rest" "cs = c # rest"
    by (auto split: sum.splits)
  let ?t = "advanceCommitTime t (dc_CommitTime c)"
  have m: "metas_ok (dc_Actions c)" "metas_ok (all_actions rest)"
    using Cons.prems(2) by (auto simp: metas_ok_def all_actions_def c(3))
  have cv: "\<forall>tb. partition_fields_ok tb \<longrightarrow> converts s tb (all_actions rest)"
    "partition_fields_ok tb \<Longrightarrow> converts s tb (dc_Actions c)" for tb
    using Cons.prems(3) by (auto simp: converts_def all_actions_def c(3))
  from commit_table_total [OF m(1) Cons.prems(4)] Cons.prems(5) obtain tb where
    tb: "commit_table s ?t (dc_Actions c) tbl = Inr (Some tb)" "partition_fields_ok tb" by (fastforce simp: c(3))
  then have "partition_fields_ok (tableAsOf tb ?t)" by (simp add: partition_fields_ok_def tableAsOf_def)
  then obtain ch where "changeFromCommit s c (tableAsOf tb ?t) = Inr ch" using changeFromCommit_total cv(2) by blast
  with Cons.IH [OF c(2) m(2) cv(1), of "Some tb"] tb c(1) show ?case by (simp add: Let_def) blast
qed simp

lemma GetChangesSince_total:
  assumes "polytable_log s hist" "written_files (ds_basePath s) hist" "metas_ok (all_actions (commits_of hist))"
    "hist \<noteq> []" "\<exists>a \<in> set (hd hist). act_MetaData a \<noteq> None"
  shows "\<exists>ic. delta_GetChangesSince decode s from = Inr ic"
proof -
  let ?vs = "map int [0..<length hist]"
  have hd: "dc_Actions (hd (commits_of hist)) = map canon_action (hd hist)"
    using assms(4) by (simp add: commits_of_def hd_map hd_conv_nth)
  have "\<exists>a \<in> set (dc_Actions (hd (commits_of hist))). act_MetaData a \<noteq> None"
    using assms(5) unfolding hd by (auto simp: canon_action_def)
  moreover have "commits_of hist \<noteq> []" using assms(4) by (simp add: commits_of_def)
  ultimately obtain chs tb t where "changes_walk s from ?vs None 0 [] = Inr (chs, Some tb, t)"
    using changes_walk_total [OF polytable_log_read [OF assms(1)] assms(3), of None "from" 0 "[]"]
      written_converts [OF assms(2)] by fastforce
  then show ?thesis
    using assms(4) by (simp add: delta_GetChangesSince_def polytable_log_state [OF assms(1)] latestVersion_def del: changes_walk.simps)
qed

end
