(* ===== verification/Delta_Samples.thy ===== *)
theory Delta_Samples
  imports Delta_Readback
begin

text \<open>
  A small Delta table in an empty store, written by one snapshot commit and one change, on which the
  theorems about Delta logs and commits are applied.
\<close>

section \<open>A table\<close>

definition sample_table :: table where
  "sample_table = \<lparr>TableName = ''t'', TableFormat = ''HUDI'', ReadSchema = Some (NewRecordSchema ''t'' [] False),
     LayoutStrategy = LayoutUnset, BasePath = ''s3://b/t'', DataPath = '''', PartitioningFields = [],
     LatestCommitTime = 1000, LatestMetadataPath = ''''\<rparr>"

definition sample_file :: "string \<Rightarrow> data_file" where
  "sample_file p = \<lparr>PhysicalPath = ''s3://b/t/'' @ p, FileFormat = FileFormatParquet, FileSizeBytes = 5,
     RecordCount = 2, PartitionValues = [], ColumnStats = [], LastModified = 8, DeletionVector = None\<rparr>"

definition sample_snapshot :: snapshot where
  "sample_snapshot = \<lparr>SnapTable = sample_table, PartitionedDataFiles = [], DataFiles = [sample_file ''a''],
     SnapSourceIdentifier = ''9''\<rparr>"

definition sample_changes :: incremental_changes where
  "sample_changes = \<lparr>TableChanges = [\<lparr>FilesDiff = \<lparr>FilesAdded = [sample_file ''c''], FilesRemoved = [sample_file ''a'']\<rparr>,
     TableAsOfChange = sample_table, ChangeSourceIdentifier = ''10'', CommitTime = 2000\<rparr>], CurrentTable = sample_table\<rparr>"

definition sample_env :: commit_env where
  "sample_env = \<lparr>ce_now = 11, ce_uuid = ''u'', ce_write_time = 0\<rparr>"

definition sample_target :: delta_target where
  "sample_target = delta_Init (NewTarget NewMemoryStorage) sample_table"

definition sample_acts :: "single_action list" where
  "sample_acts = projr (snapshot_actions sample_env sample_table sample_snapshot)"

definition sample_new :: "single_action list list" where
  "sample_new = projr (changes_actions (\<lambda>_. sample_env) 0 sample_table (TableChanges sample_changes))"


lemma sample_snapshot_acts: "snapshot_actions sample_env sample_table sample_snapshot = Inr sample_acts"
proof -
  have "\<not> isl (snapshot_actions sample_env sample_table sample_snapshot)" by code_simp
  then show ?thesis by (simp add: sample_acts_def)
qed

lemma sample_changes_acts: "changes_actions (\<lambda>_. sample_env) 0 sample_table (TableChanges sample_changes) = Inr sample_new"
proof -
  have "\<not> isl (changes_actions (\<lambda>_. sample_env) 0 sample_table (TableChanges sample_changes))" by code_simp
  then show ?thesis by (simp add: sample_new_def)
qed

lemma sample_acts_short: "list_all (\<lambda>a. length (marshal_action a) < 600) sample_acts"
  by code_simp

lemma sample_new_short: "list_all (list_all (\<lambda>a. length (marshal_action a) < 600)) sample_new"
  by code_simp

lemma short_fit: "list_all (\<lambda>a. length (marshal_action a) < 600) acts \<Longrightarrow> lines_fit acts"
  by (auto simp: lines_fit_def list_all_iff max_line_def)

section \<open>Its log\<close>

lemma sample_base: "base_path ''s3://'' [''b'', ''t''] = ''s3://b/t'' \<and> base_prefix ''s3://'' \<and> list_all proper_seg [''b'', ''t'']"
  by (simp add: base_path_def base_prefix_def uriSchemes_def proper_seg_def)

lemma sample_below: "proper_seg p \<Longrightarrow> below ''s3://b/t'' (PhysicalPath (sample_file p))"
  unfolding below_def
  by (rule exI [of _ "''s3://''"], rule exI [of _ "[''b'', ''t'']"], rule exI [of _ "[p]"])
    (simp add: base_path_def base_prefix_def uriSchemes_def proper_seg_def sample_file_def)

lemma sample_target_log: "target_log sample_target sample_table []"
proof -
  have "table_base ''s3://b/t''" unfolding table_base_def
    using sample_base by (intro exI [of _ "''s3://''"] exI [of _ "[''b'', ''t'']"]) simp
  moreover have "\<forall>p d. mem_Read NewMemoryStorage p = Inr d \<longrightarrow> \<not> hasPrefix p (log_dir ''s3://b/t'')"
    by (simp add: mem_Read_def NewMemoryStorage_def)
  ultimately show ?thesis
    using empty_polytable_log [of NewMemoryStorage "''s3://b/t''"]
    by (simp add: target_log_def sample_target_def delta_Init_def NewTarget_def sample_table_def mem_invar_ops)
qed

lemma sample_env_ok: "in_int64 (ce_now sample_env)"
  by (simp add: sample_env_def in_int64_def)

lemma sample_files:
  "AllDataFiles sample_snapshot = [sample_file ''a'']" "BasePath sample_table = ''s3://b/t''"
  "TableChanges sample_changes = [\<lparr>FilesDiff = \<lparr>FilesAdded = [sample_file ''c''], FilesRemoved = [sample_file ''a'']\<rparr>,
     TableAsOfChange = sample_table, ChangeSourceIdentifier = ''10'', CommitTime = 2000\<rparr>]"
  by (simp_all add: AllDataFiles_def sample_snapshot_def sample_table_def sample_changes_def)

lemma sample_file_ok: "file_ok (sample_file p)" "stats_ok (sample_file p)"
  by (simp_all add: file_ok_def stats_ok_def sample_file_def in_int64_def)

lemmas sample_commit = sample_target_log sample_snapshot_acts sample_env_ok

lemma sample_new_single:
  "\<exists>a. sample_new = [a] \<and> change_actions sample_env sample_table (hd (TableChanges sample_changes)) = Inr a"
  using sample_changes_acts by (fastforce simp: sample_files)

lemma sample_new_fit: "list_all lines_fit sample_new" "length sample_new = 1"
proof -
  obtain a where a: "sample_new = [a]" using sample_new_single by blast
  show "list_all lines_fit sample_new" using sample_new_short by (simp add: a short_fit)
  show "length sample_new = 1" by (simp add: a)
qed

section \<open>The table after the snapshot\<close>

definition sample_written :: delta_target where
  "sample_written = fst (delta_CommitSnapshot sample_env sample_target sample_snapshot)"

abbreviation sample_source :: delta_source where
  "sample_source \<equiv> NewSource (dt_storage sample_written) (BasePath sample_table)"

lemma sample_written_log: "target_log sample_written sample_table [sample_acts]"
  using CommitSnapshot_log [OF sample_commit _ short_fit [OF sample_acts_short]]
  by (simp add: sample_files(1) sample_file_ok sample_written_def)

lemma sample_source_log: "polytable_log sample_source [sample_acts]"
  using sample_written_log by (simp add: target_log_def)

lemma sample_schema_readable:
  "ReadSchema sample_table = Some (NewRecordSchema ''t'' [] False)" "readable_schema (NewRecordSchema ''t'' [] False)"
  by (simp_all add: sample_table_def readable_schema_def NewRecordSchema_def)

lemma sample_schema_trip: "SchemaToDeltaJSON (ReadSchema sample_table) = Inr js \<Longrightarrow> \<exists>sch. DeltaJSONToSchema js = Inr sch"
  using schema_trip [of "NewRecordSchema ''t'' [] False"] by (auto simp: sample_schema_readable(1) NewRecordSchema_def)

lemma sample_written_files: "written_files (BasePath sample_table) [sample_acts]"
  using written_snapshot [OF sample_snapshot_acts, of "[]"]
  by (simp add: sample_files(1) sample_file_ok written_files_def)

lemma sample_snapshot_table: "SnapTable sample_snapshot = sample_table"
  by (simp add: sample_snapshot_def)

lemma sample_read: obtains snap where "delta_GetCurrentSnapshot decode sample_source = Inr snap"
proof -
  obtain js meta where m: "SchemaToDeltaJSON (ReadSchema sample_table) = Inr js"
    "latest_meta None (map canon_action sample_acts) = Some meta" "md_SchemaString meta = js"
    using latest_meta_snapshot [OF sample_snapshot_acts, of None] by (auto simp: sample_snapshot_table)
  from sample_schema_trip [OF m(1)] obtain sch where "DeltaJSONToSchema js = Inr sch" ..
  with log_total [OF sample_source_log, of meta sch decode] sample_written_files m(2,3) that
  show ?thesis by (auto simp: NewSource_def all_actions_commits)
qed

theorem snapshot_is_replay_witness:
  "\<exists>snap. delta_GetCurrentSnapshot (\<lambda>_. None) sample_source = Inr snap \<and>
    length (DataFiles snap) = card (dom (live Map.empty (all_actions (commits_of [sample_acts]))))"
proof -
  obtain snap where s: "delta_GetCurrentSnapshot (\<lambda>_. None) sample_source = Inr snap" by (rule sample_read)
  from snapshot_is_replay [OF s polytable_log_state [OF sample_source_log]] polytable_log_read [OF sample_source_log]
  show ?thesis using s by (auto simp: checkpoint_files_def)
qed

lemma sample_tracks: "tracks (BasePath sample_table) [sample_acts] {''s3://b/t/a''}"
  using tracks_snapshot_commit [OF sample_snapshot_acts, of "[]" "{}"] sample_below [of "''a''"]
  by (simp add: sample_files(1,2) proper_seg_def) (simp add: sample_file_def)

theorem snapshot_commit_files_witness:
  "\<exists>snap. delta_GetCurrentSnapshot (\<lambda>_. None) (NewSource (dt_storage (fst (delta_CommitSnapshot sample_env sample_target sample_snapshot)))
      (BasePath sample_table)) = Inr snap \<and> PhysicalPath ` set (DataFiles snap) = {''s3://b/t/a''}"
proof -
  obtain snap where s: "delta_GetCurrentSnapshot (\<lambda>_. None) sample_source = Inr snap" by (rule sample_read)
  have "PhysicalPath ` set (DataFiles snap) = {} \<union> PhysicalPath ` set (AllDataFiles sample_snapshot)"
    by (rule snapshot_commit_files [OF sample_commit _ short_fit [OF sample_acts_short] _ _ _ s [unfolded sample_written_def]])
      (use sample_below [of "''a''"] in \<open>simp_all add: sample_files(1,2) sample_file_ok proper_seg_def\<close>)
  with s show ?thesis unfolding sample_written_def by (auto simp: sample_files(1)) (auto simp: sample_file_def)
qed


section \<open>The table after the change\<close>

definition sample_changed :: delta_target where
  "sample_changed = fst (delta_CommitChanges (\<lambda>_. sample_env) sample_written sample_changes)"

abbreviation changed_source :: delta_source where
  "changed_source \<equiv> NewSource (dt_storage sample_changed) (BasePath sample_table)"

lemma sample_changed_log: "polytable_log changed_source ([sample_acts] @ sample_new)"
proof -
  have "target_log (fst (commit_changes (\<lambda>_. sample_env) 0 sample_written (TableChanges sample_changes))) sample_table ([sample_acts] @ sample_new)"
    by (rule commit_changes_log [OF sample_written_log sample_changes_acts, THEN conjunct2])
      (use sample_new_fit in \<open>simp_all add: sample_files(3) sample_file_ok sample_env_ok\<close>)
  then show ?thesis by (simp add: target_log_def sample_changed_def delta_CommitChanges_def)
qed

lemma written_change:
  assumes "change_actions env target change = Inr acts" "list_all stats_ok (FilesAdded (FilesDiff change))"
    "written_files (BasePath target) hist"
  shows "written_files (BasePath target) (hist @ [acts])"
proof -
  obtain sj cols where acts: "acts = metadata_action_of env (TableName (TableAsOfChange change)) sj cols
      (watermark (CommitTime change) (TableFormat (TableAsOfChange change)) (ChangeSourceIdentifier change)) #
      map (remove_of (BasePath target) (ce_now env)) (FilesRemoved (FilesDiff change)) @
      map (add_of (BasePath target)) (FilesAdded (FilesDiff change)) @
      [commit_info_of (ce_now env) ''POLYTABLE_SYNC_INCREMENTAL'']"
    by (rule change_actions_form [OF assms(1)])
  have "\<exists>df. stats_ok df \<and> add = convertDataFileToAddAction (BasePath target) df"
    if "a \<in> set acts" "act_Add a = Some add" for a add
    using that assms(2)
    by (auto simp: acts metadata_action_of_def add_of_def remove_of_def commit_info_of_def emptyAction_def list_all_iff)
  with assms(3) show ?thesis by (auto simp: written_files_def)
qed

lemma changed_files: "written_files (BasePath sample_table) ([sample_acts] @ sample_new)"
proof -
  obtain a where a: "sample_new = [a]" "change_actions sample_env sample_table (hd (TableChanges sample_changes)) = Inr a"
    using sample_new_single by blast
  from written_change [OF a(2) _ sample_written_files] a(1) show ?thesis by (simp add: sample_files(3) sample_file_ok)
qed

lemma changed_read: "\<exists>snap. delta_GetCurrentSnapshot decode changed_source = Inr snap"
proof -
  obtain a where a: "sample_new = [a]" "change_actions sample_env sample_table (hd (TableChanges sample_changes)) = Inr a"
    using sample_new_single by blast
  obtain js meta where m: "SchemaToDeltaJSON (ReadSchema sample_table) = Inr js"
    "latest_meta (latest_meta None (map canon_action sample_acts)) (map canon_action a) = Some meta" "md_SchemaString meta = js"
    using latest_meta_change [OF a(2), of "latest_meta None (map canon_action sample_acts)"] by (auto simp: sample_files(3))
  from sample_schema_trip [OF m(1)] obtain sch where "DeltaJSONToSchema js = Inr sch" ..
  moreover have "latest_meta None (all_actions (commits_of ([sample_acts] @ sample_new))) = Some meta"
    using m(2) by (simp add: a(1) all_actions_commits latest_meta_append)
  moreover have "written_files (ds_basePath changed_source) ([sample_acts] @ sample_new)"
    using changed_files by (simp add: NewSource_def)
  ultimately show ?thesis using log_total [OF sample_changed_log, of meta sch decode] m(3) by blast
qed

theorem changes_commit_files_witness:
  "\<exists>snap. delta_GetCurrentSnapshot (\<lambda>_. None) (NewSource (dt_storage (fst (delta_CommitChanges (\<lambda>_. sample_env) sample_written sample_changes)))
      (BasePath sample_table)) = Inr snap \<and> PhysicalPath ` set (DataFiles snap) = {''s3://b/t/c''}"
proof -
  obtain snap where s: "delta_GetCurrentSnapshot (\<lambda>_. None) changed_source = Inr snap" using changed_read by blast
  have "PhysicalPath ` set (DataFiles snap) = foldl move_files {''s3://b/t/a''} (TableChanges sample_changes)"
    by (rule changes_commit_files [OF sample_written_log sample_changes_acts _ _ sample_new_fit(1) _ sample_tracks _ s [unfolded sample_changed_def]])
      (use sample_below [of "''a''"] sample_below [of "''c''"] sample_new_fit(2) in
        \<open>simp_all add: sample_files(2,3) sample_file_ok sample_env_ok change_below_def proper_seg_def\<close>)
  with s show ?thesis unfolding sample_changed_def by (auto simp: sample_files(3) move_files_def) (auto simp: sample_file_def)
qed

text \<open>Both commits carry the clock reading 11; the second one gets the instant 12.\<close>

lemma sample_times: "map commit_time ([sample_acts] @ sample_new) = [11, 11]"
  by code_simp

lemma sample_instants: "instants 0 (commits_of ([sample_acts] @ sample_new)) = [11, 12]"
proof -
  obtain a where a: "sample_new = [a]" using sample_new_single by blast
  have "map dc_CommitTime (commits_of ([sample_acts] @ sample_new)) = [11, 11]"
    using sample_times by (simp add: commits_of_def a)
  then obtain c d where "commits_of ([sample_acts] @ sample_new) = [c, d]" "dc_CommitTime c = 11" "dc_CommitTime d = 11"
    by auto
  then show ?thesis by (simp add: advanceCommitTime_def wrap64_id in_int64_def Let_def)
qed

lemma changed_metas: "metas_ok (all_actions (commits_of ([sample_acts] @ sample_new)))"
proof -
  have "list_all (\<lambda>a. case act_MetaData a of None \<Rightarrow> True | Some m \<Rightarrow>
      SchemaToDeltaJSON (ReadSchema sample_table) = Inr (md_SchemaString m)) (concat ([sample_acts] @ sample_new))"
    by code_simp
  then have trip: "\<exists>sch. DeltaJSONToSchema (md_SchemaString m) = Inr sch"
    if "a \<in> set (concat ([sample_acts] @ sample_new))" "act_MetaData a = Some m" for a m
  proof -
    assume "list_all (\<lambda>a. case act_MetaData a of None \<Rightarrow> True | Some m \<Rightarrow>
      SchemaToDeltaJSON (ReadSchema sample_table) = Inr (md_SchemaString m)) (concat ([sample_acts] @ sample_new))"
    from this [unfolded list_all_iff, THEN bspec, OF that(1)] that(2)
    show ?thesis by (intro sample_schema_trip) (simp only: option.case)
  qed
  have "act_MetaData (canon_action a) = Some m \<Longrightarrow> \<exists>m'. act_MetaData a = Some m' \<and> md_SchemaString m = md_SchemaString m'" for a m
    by (auto simp: canon_action_def canon_metadata_def)
  with trip show ?thesis unfolding metas_ok_def all_actions_commits by (metis (no_types, lifting) imageE list.set_map map_concat)
qed

lemma changed_changes: "\<exists>ic. delta_GetChangesSince decode changed_source from = Inr ic"
proof (rule GetChangesSince_total [OF sample_changed_log])
  show "\<exists>a \<in> set (hd ([sample_acts] @ sample_new)). act_MetaData a \<noteq> None"
  proof -
    have "list_ex (\<lambda>a. act_MetaData a \<noteq> None) sample_acts" by code_simp
    then show ?thesis by (simp add: list_ex_iff)
  qed
qed (use changed_files changed_metas in \<open>simp_all add: NewSource_def\<close>)

theorem changes_since_commit_witness:
  "\<exists>ic. delta_GetChangesSince (\<lambda>_. None) changed_source 11 = Inr ic \<and>
    map ChangeSourceIdentifier (TableChanges ic) = [''1''] \<and> map CommitTime (TableChanges ic) = [12]"
proof -
  obtain ic where ic: "delta_GetChangesSince (\<lambda>_. None) changed_source 11 = Inr ic" using changed_changes by blast
  let ?cs = "commits_of ([sample_acts] @ sample_new)"
  have "times_ok 0 ?cs" by (simp only: times_ok_def sample_instants) (simp add: in_int64_def)
  moreover have "0 < length ?cs" by simp
  moreover have "delta_GetChangesSince (\<lambda>_. None) changed_source (instants 0 ?cs ! 0) = Inr ic"
    using ic by (simp only: sample_instants nth_Cons_0)
  moreover have "map_res (readCommit changed_source) (ls_versions \<lparr>ls_checkpoint = None, ls_versions = map int [0..<length ([sample_acts] @ sample_new)]\<rparr>) = Inr ?cs"
    using polytable_log_read [OF sample_changed_log] by simp
  ultimately have "map ChangeSourceIdentifier (TableChanges ic) = map (\<lambda>c. formatInt (dc_Version c)) (drop (Suc 0) ?cs)"
      "map CommitTime (TableChanges ic) = drop (Suc 0) (instants 0 ?cs)"
    using changes_since_commit [OF polytable_log_state [OF sample_changed_log]] by blast+
  moreover have "formatInt 1 = ''1''" by code_simp
  moreover obtain a where a: "sample_new = [a]" using sample_new_single by blast
  moreover have "map (\<lambda>c. formatInt (dc_Version c)) (drop (Suc 0) ?cs) = [formatInt 1]" by (simp add: commits_of_def a)
  ultimately show ?thesis using ic sample_instants by simp
qed

end
