(* ===== verification/Conversion_Delta.thy ===== *)
theory Conversion_Delta
  imports Conversion_Controller Delta_Samples
begin

text \<open>
  \<^verbatim>\<open>pkg/formats/registry.go\<close> and the Delta adapter behind the controller's interfaces. The
  interpretation of \<open>sync_target\<close> on the Delta target discharges the contract the controller relies
  on, and with it the controller's watermark lemmas hold for syncs into Delta tables.
\<close>

section \<open>The registry\<close>

record 's adapters =
  adDelta :: 's
  adIceberg :: 's
  adHudi :: 's
  adParquet :: 's
  adPaimon :: 's

definition by_format :: "'a adapters \<Rightarrow> table_format \<Rightarrow> 'a option" where
  "by_format ad format =
     (if format = TableFormatDelta then Some (adDelta ad)
      else if format = TableFormatIceberg then Some (adIceberg ad)
      else if format = TableFormatHudi then Some (adHudi ad)
      else if format = TableFormatParquet then Some (adParquet ad)
      else if format = TableFormatPaimon then Some (adPaimon ad)
      else None)"

definition formats_NewSource :: "(string \<Rightarrow> 'src) adapters \<Rightarrow> table_format \<Rightarrow> string \<Rightarrow> 'src res" where
  "formats_NewSource ad format basePath =
     (case by_format ad format of
        Some new \<Rightarrow> Inr (new basePath)
      | None \<Rightarrow> Inl (ErrMsg (''unsupported source table format: '' @ format)))"

definition target_table :: "table_format \<Rightarrow> string \<Rightarrow> string \<Rightarrow> table" where
  "target_table format basePath tableName =
     \<lparr>TableName = tableName, TableFormat = format, ReadSchema = None, LayoutStrategy = LayoutUnset, BasePath = basePath,
      DataPath = '''', PartitioningFields = [], LatestCommitTime = 0, LatestMetadataPath = ''''\<rparr>"

text \<open>An adapter's constructor together with its \<^verbatim>\<open>Init\<close>, which may fail.\<close>

definition formats_NewTarget :: "(table \<Rightarrow> 's conversion_target res) adapters \<Rightarrow> table_format \<Rightarrow> string \<Rightarrow> string \<Rightarrow> 's conversion_target res" where
  "formats_NewTarget ad format basePath tableName =
     (case by_format ad format of
        Some new \<Rightarrow> new (target_table format basePath tableName)
      | None \<Rightarrow> Inl (ErrMsg (''unsupported target table format: '' @ format)))"

definition SupportedSources :: "table_format list" where
  "SupportedSources = [TableFormatDelta, TableFormatIceberg, TableFormatHudi, TableFormatParquet, TableFormatPaimon]"

definition SupportedTargets :: "table_format list" where
  "SupportedTargets = [TableFormatDelta, TableFormatIceberg, TableFormatHudi, TableFormatParquet, TableFormatPaimon]"

text \<open>
  The registry has an adapter for exactly the formats polytable names: whatever
  \<^verbatim>\<open>ParseTableFormat\<close> accepts can be read, and any other format is refused by name.
\<close>

theorem registry_complete:
  "(\<exists>src. formats_NewSource ad format basePath = Inr src) = (format \<in> set SupportedSources) \<and>
   set SupportedSources = set SupportedTableFormats \<and> set SupportedTargets = set SupportedSources \<and>
   (format \<in> set SupportedSources \<or> formats_NewSource ad format basePath = Inl (ErrMsg (''unsupported source table format: '' @ format)))"
  by (auto simp: formats_NewSource_def by_format_def SupportedSources_def SupportedTargets_def SupportedTableFormats_def)

section \<open>The Delta adapters\<close>

definition delta_conversion_source :: "(string \<Rightarrow> cp_row list option) \<Rightarrow> string \<Rightarrow> mem_storage conversion_source" where
  "delta_conversion_source decode basePath =
     \<lparr>csGetCurrentSnapshot = \<lambda>st. delta_GetCurrentSnapshot decode (NewSource st basePath),
      csGetChangesSince = \<lambda>st i. delta_GetChangesSince decode (NewSource st basePath) i,
      csIsIncrementalSyncSafeFrom = \<lambda>st i. delta_IsIncrementalSyncSafeFrom (NewSource st basePath) i\<rparr>"

definition delta_open :: "mem_storage \<Rightarrow> table \<Rightarrow> delta_target" where
  "delta_open st tbl = delta_Init (NewTarget st) tbl"

definition delta_conversion_target :: "commit_env \<Rightarrow> (nat \<Rightarrow> commit_env) \<Rightarrow> table \<Rightarrow> mem_storage conversion_target" where
  "delta_conversion_target env envs tbl =
     \<lparr>ctGetTableMetadata = \<lambda>st. delta_GetTableMetadata (delta_open st tbl),
      ctCommitSnapshot = \<lambda>st snap. (case delta_CommitSnapshot env (delta_open st tbl) snap of (t, e) \<Rightarrow> (dt_storage t, e)),
      ctCommitChanges = \<lambda>st ic. (case delta_CommitChanges envs (delta_open st tbl) ic of (t, e) \<Rightarrow> (dt_storage t, e))\<rparr>"

lemma delta_open_simps: "dt_storage (delta_open st tbl) = st" "dt_targetTable (delta_open st tbl) = Some tbl"
  by (simp_all add: delta_open_def delta_Init_def NewTarget_def)

lemma delta_reopen: "target_log t tbl hist \<Longrightarrow> delta_open (dt_storage t) tbl = t"
  by (cases t) (simp add: target_log_def delta_open_def delta_Init_def NewTarget_def)

text \<open>The snapshots and changes a Delta table can take: what the log needs to stay readable.\<close>

definition delta_snap_ok :: "commit_env \<Rightarrow> table \<Rightarrow> mem_storage \<Rightarrow> snapshot \<Rightarrow> bool" where
  "delta_snap_ok env tbl st snap \<longleftrightarrow>
     (\<exists>hist acts. target_log (delta_open st tbl) tbl hist \<and> snapshot_actions env tbl snap = Inr acts \<and> in_int64 (ce_now env) \<and>
        list_all file_ok (AllDataFiles snap) \<and> lines_fit acts \<and> int (length hist) + 1 < max_int64 \<and>
        in_int64 (LatestCommitTime (SnapTable snap)))"

definition delta_changes_ok :: "(nat \<Rightarrow> commit_env) \<Rightarrow> table \<Rightarrow> mem_storage \<Rightarrow> incremental_changes \<Rightarrow> bool" where
  "delta_changes_ok envs tbl st ic \<longleftrightarrow>
     (\<exists>hist new. target_log (delta_open st tbl) tbl hist \<and> changes_actions envs 0 tbl (TableChanges ic) = Inr new \<and>
        (\<forall>j. in_int64 (ce_now (envs j))) \<and> list_all (\<lambda>c. list_all file_ok (FilesAdded (FilesDiff c))) (TableChanges ic) \<and>
        list_all lines_fit new \<and> int (length hist + length new) < max_int64 \<and>
        (TableChanges ic \<noteq> [] \<longrightarrow> in_int64 (CommitTime (last (TableChanges ic)))))"

interpretation delta_sync: sync_target "delta_conversion_target env envs tbl" "delta_snap_ok env tbl" "delta_changes_ok envs tbl"
  for env envs tbl
proof
  fix st snap st'
  assume ok: "delta_snap_ok env tbl st snap" and c: "ctCommitSnapshot (delta_conversion_target env envs tbl) st snap = (st', None)"
  from ok obtain hist acts where h: "target_log (delta_open st tbl) tbl hist" "snapshot_actions env tbl snap = Inr acts"
    "in_int64 (ce_now env)" "list_all file_ok (AllDataFiles snap)" "lines_fit acts" "int (length hist) + 1 < max_int64"
    "in_int64 (LatestCommitTime (SnapTable snap))" by (auto simp: delta_snap_ok_def)
  let ?t = "fst (delta_CommitSnapshot env (delta_open st tbl) snap)"
  have "st' = dt_storage ?t" using c by (auto simp: delta_conversion_target_def split: prod.splits)
  moreover have "delta_open (dt_storage ?t) tbl = ?t" using CommitSnapshot_log [OF h(1-6)] delta_reopen by blast
  ultimately show "\<exists>m. ctGetTableMetadata (delta_conversion_target env envs tbl) st' = Inr (Some m) \<and>
      LastInstantSynced m = LatestCommitTime (SnapTable snap)"
    using snapshot_commit_watermark [OF h] by (auto simp: delta_conversion_target_def)
next
  fix st ic st'
  assume ok: "delta_changes_ok envs tbl st ic" and ne: "TableChanges ic \<noteq> []"
    and c: "ctCommitChanges (delta_conversion_target env envs tbl) st ic = (st', None)"
  from ok obtain hist new where h: "target_log (delta_open st tbl) tbl hist" "changes_actions envs 0 tbl (TableChanges ic) = Inr new"
    "\<forall>j. in_int64 (ce_now (envs j))" "list_all (\<lambda>c. list_all file_ok (FilesAdded (FilesDiff c))) (TableChanges ic)"
    "list_all lines_fit new" "int (length hist + length new) < max_int64"
    "TableChanges ic \<noteq> [] \<longrightarrow> in_int64 (CommitTime (last (TableChanges ic)))" by (auto simp: delta_changes_ok_def)
  let ?t = "fst (delta_CommitChanges envs (delta_open st tbl) ic)"
  have "st' = dt_storage ?t" using c by (auto simp: delta_conversion_target_def split: prod.splits)
  moreover have "delta_open (dt_storage ?t) tbl = ?t"
    using commit_changes_log [OF h(1-6)] delta_reopen unfolding delta_CommitChanges_def by blast
  ultimately show "\<exists>m. ctGetTableMetadata (delta_conversion_target env envs tbl) st' = Inr (Some m) \<and>
      LastInstantSynced m = CommitTime (last (TableChanges ic))"
    using changes_commit_watermark [OF h(1-6) ne] h(7) ne by (auto simp: delta_conversion_target_def)
qed

text \<open>
  C5. A successful sync into a Delta table, full or incremental, leaves the watermark it reports,
  and the next sync whose source still has the history resumes exactly there: no instant is
  converted twice and none is skipped.
\<close>

theorem delta_sync_resumes:
  assumes "syncToTarget mode source (delta_conversion_target env envs tbl) TableFormatDelta dur False st = (st', r)"
    and "StatusCode r = SyncStatusSuccess"
    and "\<And>snap. csGetCurrentSnapshot source st = Inr snap \<Longrightarrow> delta_snap_ok env tbl st snap"
    and "\<And>i ic. csGetChangesSince source st i = Inr ic \<Longrightarrow> delta_changes_ok envs tbl st ic"
    and "0 < ResLastInstantSynced r" "mode' \<noteq> SyncModeFull"
    and "csIsIncrementalSyncSafeFrom source' st' (ResLastInstantSynced r) = Inr True"
  shows "(\<exists>m. delta_GetTableMetadata (delta_open st' tbl) = Inr (Some m) \<and> LastInstantSynced m = ResLastInstantSynced r) \<and>
    syncToTarget mode' source' (delta_conversion_target env envs tbl) TableFormatDelta dur' dry st' =
      incremental_sync source' (delta_conversion_target env envs tbl) TableFormatDelta dur' dry (ResLastInstantSynced r) st'"
proof -
  have "\<exists>m. ctGetTableMetadata (delta_conversion_target env envs tbl) st' = Inr (Some m) \<and> LastInstantSynced m = ResLastInstantSynced r"
    by (rule delta_sync.sync_watermark [OF assms(1,2)]) (use assms(3,4) in auto)
  then have "\<exists>m. delta_GetTableMetadata (delta_open st' tbl) = Inr (Some m) \<and> LastInstantSynced m = ResLastInstantSynced r"
    by (simp add: delta_conversion_target_def)
  moreover have "syncToTarget mode' source' (delta_conversion_target env envs tbl) TableFormatDelta dur' dry st' =
      incremental_sync source' (delta_conversion_target env envs tbl) TableFormatDelta dur' dry (ResLastInstantSynced r) st'"
    by (rule delta_sync.next_sync_resumes [OF assms(1,2) _ _ assms(5-7)]) (use assms(3,4) in auto)
  ultimately show ?thesis by blast
qed

section \<open>A small sync\<close>

text \<open>A source that has the sample snapshot and no later changes.\<close>

definition sample_conversion_source :: "mem_storage conversion_source" where
  "sample_conversion_source =
     \<lparr>csGetCurrentSnapshot = \<lambda>_. Inr sample_snapshot,
      csGetChangesSince = \<lambda>_ _. Inr \<lparr>TableChanges = [], CurrentTable = sample_table\<rparr>,
      csIsIncrementalSyncSafeFrom = \<lambda>_ _. Inr True\<rparr>"

abbreviation sample_conversion_target :: "mem_storage conversion_target" where
  "sample_conversion_target \<equiv> delta_conversion_target sample_env (\<lambda>_. sample_env) sample_table"

lemma sample_metadata: "delta_GetTableMetadata (delta_open NewMemoryStorage sample_table) = Inr None"
  by code_simp

lemma sample_sync:
  "syncToTarget SyncModeIncremental sample_conversion_source sample_conversion_target TableFormatDelta 1 False NewMemoryStorage =
     (dt_storage sample_written, NewSuccessSyncResult TableFormatDelta 1000 1)"
proof -
  have "snd (delta_CommitSnapshot sample_env sample_target sample_snapshot) = None"
    by (simp add: delta_CommitSnapshot_def sample_target_def delta_Init_def NewTarget_def dt_source_def sample_snapshot_acts)
  then have "delta_CommitSnapshot sample_env (delta_open NewMemoryStorage sample_table) sample_snapshot = (sample_written, None)"
    by (simp add: sample_written_def delta_open_def sample_target_def prod_eq_iff)
  moreover have "LatestCommitTime (SnapTable sample_snapshot) = 1000" by (simp add: sample_snapshot_def sample_table_def)
  ultimately show ?thesis
    by (simp add: syncToTarget_def sync_plan_def full_sync_def delta_conversion_target_def sample_metadata
        sample_conversion_source_def applyFallbackReason_def)
qed

lemma sample_snap_ok: "delta_snap_ok sample_env sample_table NewMemoryStorage sample_snapshot"
  unfolding delta_snap_ok_def
  by (rule exI [of _ "[]"], rule exI [of _ sample_acts])
    (use sample_target_log sample_snapshot_acts sample_env_ok short_fit [OF sample_acts_short] in
      \<open>simp add: delta_open_def sample_target_def sample_files(1) sample_file_ok\<close>, simp add: sample_snapshot_def sample_table_def in_int64_def)

lemma sample_idle_ok: "delta_changes_ok (\<lambda>_. sample_env) sample_table NewMemoryStorage \<lparr>TableChanges = [], CurrentTable = sample_table\<rparr>"
  unfolding delta_changes_ok_def
  by (rule exI [of _ "[]"], rule exI [of _ "[]"])
    (use sample_target_log sample_env_ok in \<open>simp add: delta_open_def sample_target_def\<close>)

theorem delta_sync_resumes_witness:
  "syncToTarget SyncModeIncremental sample_conversion_source sample_conversion_target TableFormatDelta 2 False (dt_storage sample_written) =
     (dt_storage sample_written, (NewSuccessSyncResult TableFormatDelta 1000 2)\<lparr>NoOp := True\<rparr>)"
proof -
  have "syncToTarget SyncModeIncremental sample_conversion_source sample_conversion_target TableFormatDelta 2 False (dt_storage sample_written) =
      incremental_sync sample_conversion_source sample_conversion_target TableFormatDelta 2 False 1000 (dt_storage sample_written)"
    using delta_sync_resumes [OF sample_sync, of SyncModeIncremental sample_conversion_source 2 False] sample_snap_ok sample_idle_ok
    by (simp add: NewSuccessSyncResult_def sample_conversion_source_def SyncModeIncremental_def SyncModeFull_def)
  then show ?thesis by (simp add: incremental_sync_def sample_conversion_source_def)
qed

text \<open>
  The same source once its history is gone: the next sync of the table written above falls back,
  and with the history it has nothing to do.
\<close>

definition sample_forgetful_source :: "mem_storage conversion_source" where
  "sample_forgetful_source = sample_conversion_source\<lparr>csIsIncrementalSyncSafeFrom := \<lambda>_ _. Inr False\<rparr>"

lemma sample_may_continue: "may_continue SyncModeIncremental sample_conversion_target (dt_storage sample_written) 1000"
proof -
  have "\<exists>m. ctGetTableMetadata sample_conversion_target (dt_storage sample_written) = Inr (Some m) \<and>
      LastInstantSynced m = ResLastInstantSynced (NewSuccessSyncResult TableFormatDelta 1000 1)"
    by (rule delta_sync.sync_watermark [OF sample_sync])
      (use sample_snap_ok sample_idle_ok in \<open>simp_all add: NewSuccessSyncResult_def sample_conversion_source_def\<close>)
  then show ?thesis by (simp add: may_continue_def NewSuccessSyncResult_def SyncModeIncremental_def SyncModeFull_def)
qed

theorem sync_result_truthful_witness:
  "\<not> FellBackToFullSync (snd (syncToTarget SyncModeIncremental sample_conversion_source sample_conversion_target
      TableFormatDelta 1 False NewMemoryStorage)) \<and>
   FellBackToFullSync (snd (syncToTarget SyncModeIncremental sample_forgetful_source sample_conversion_target
      TableFormatDelta 2 False (dt_storage sample_written))) \<and>
   NoOp (snd (syncToTarget SyncModeIncremental sample_conversion_source sample_conversion_target
      TableFormatDelta 2 False (dt_storage sample_written)))"
proof -
  let ?run = "\<lambda>source dur st. syncToTarget SyncModeIncremental source sample_conversion_target TableFormatDelta dur False st"
  have p: "?run source dur st = (fst (?run source dur st), snd (?run source dur st))" for source dur st by simp
  note fell_back = sync_result_truthful [OF p, THEN conjunct2, THEN conjunct1]
    and no_op = sync_result_truthful [OF p, THEN conjunct2, THEN conjunct2, THEN conjunct1]
  have none: "\<not> may_continue SyncModeIncremental sample_conversion_target NewMemoryStorage i" for i
    by (simp add: may_continue_def delta_conversion_target_def sample_metadata)
  have gone: "csIsIncrementalSyncSafeFrom sample_forgetful_source (dt_storage sample_written) 1000 \<noteq> Inr True"
    by (simp add: sample_forgetful_source_def)
  have idle: "csIsIncrementalSyncSafeFrom sample_conversion_source (dt_storage sample_written) 1000 = Inr True \<and>
      csGetChangesSince sample_conversion_source (dt_storage sample_written) 1000 =
        Inr \<lparr>TableChanges = [], CurrentTable = sample_table\<rparr> \<and>
      TableChanges \<lparr>TableChanges = [], CurrentTable = sample_table\<rparr> = []"
    by (simp add: sample_conversion_source_def)
  show ?thesis
    unfolding fell_back no_op using none gone idle sample_may_continue by blast
qed

definition sample_controller :: "(mem_storage, unit) controller" where
  "sample_controller =
     \<lparr>createSource = \<lambda>fmt base. Inr sample_conversion_source,
      createTarget = \<lambda>fmt base name. if fmt = TableFormatDelta then Inr sample_conversion_target
        else Inl (ErrMsg (''unsupported target table format: '' @ fmt)),
      newCatalogClient = \<lambda>_. Inl (ErrMsg ''none''), elapsed = 1\<rparr>"

definition sample_sync_config :: dataset_config where
  "sample_sync_config = \<lparr>DcSourceFormat = TableFormatHudi, DcTargetFormats = [TableFormatHudi, TableFormatDelta, ''LANCE''],
     DcTableBasePath = ''s3://b/t'', DcTableDataPath = '''', DcTableName = ''t'', DcNamespace = '''', DcSyncMode = '''',
     DcStorage = None, DcCatalogs = [], DcSourceCatalog = None, DcVendedCredentials = None\<rparr>"

lemma sample_Sync:
  "\<exists>s' results. Sync sample_controller sample_sync_config dry NewMemoryStorage () = Some (s', (), Inr results)"
proof -
  obtain s' results where "sync_formats sample_controller (sample_sync_config\<lparr>DcSyncMode := SyncModeIncremental\<rparr>) sample_conversion_source dry
      (DcTargetFormats sample_sync_config) (NewMemoryStorage, (), []) = Some (s', (), results)"
    using sync_formats_total [of sample_controller "sample_sync_config\<lparr>DcSyncMode := SyncModeIncremental\<rparr>" sample_conversion_source dry
        "DcTargetFormats sample_sync_config" "(NewMemoryStorage, (), [])"] by auto
  moreover have "Dataset_Validate sample_sync_config = Inr (sample_sync_config\<lparr>DcSyncMode := SyncModeIncremental\<rparr>)"
    by (simp add: Dataset_Validate_def sample_sync_config_def table_format_defs)
  ultimately show ?thesis by (simp add: Sync_def sample_controller_def)
qed

theorem Sync_results_complete_witness:
  "\<exists>s' results. Sync sample_controller sample_sync_config False NewMemoryStorage () = Some (s', (), Inr results) \<and>
    fst ` set results = {TableFormatDelta, ''LANCE''}"
proof -
  obtain s' results where r: "Sync sample_controller sample_sync_config False NewMemoryStorage () = Some (s', (), Inr results)"
    using sample_Sync by blast
  from Sync_results_complete [OF r] r show ?thesis by (auto simp: sample_sync_config_def table_format_defs)
qed

theorem dry_run_writes_nothing_witness:
  "\<exists>results. Sync sample_controller sample_sync_config True NewMemoryStorage () = Some (NewMemoryStorage, (), Inr results)"
proof -
  obtain s' results where r: "Sync sample_controller sample_sync_config True NewMemoryStorage () = Some (s', (), Inr results)"
    using sample_Sync by blast
  from dry_run_writes_nothing [OF r] r show ?thesis by simp
qed

end
