(* ===== verification/Go_Float.thy ===== *)
theory Go_Float
  imports Json_Codec
begin

text \<open>
  The numbers of a JSON document decoded into \<^verbatim>\<open>any\<close>: Go makes each a \<^verbatim>\<open>float64\<close>, and the readers
  convert some to \<^verbatim>\<open>int\<close>. \<open>float_trunc n d\<close> is the integer part of the double nearest to \<open>n / d\<close>
  (ties to even). A literal beyond the range of doubles makes the decoder fail.
\<close>

fun ilog2 :: "nat \<Rightarrow> nat" where
  "ilog2 n = (if n < 2 then 0 else Suc (ilog2 (n div 2)))"

declare ilog2.simps [simp del]

definition round_div :: "nat \<Rightarrow> nat \<Rightarrow> nat" where
  "round_div a b =
     (let q = a div b; r = a mod b in if b < 2 * r \<or> (2 * r = b \<and> odd q) then q + 1 else q)"

definition float_trunc :: "nat \<Rightarrow> nat \<Rightarrow> nat" where
  "float_trunc n d =
     (if n < d then (if 2 ^ 54 * (d - n) \<le> d then 1 else 0)
      else
        (let k = ilog2 (n div d) in
         if k \<le> 52 then round_div (n * 2 ^ (52 - k)) d div 2 ^ (52 - k)
         else round_div n (d * 2 ^ (k - 52)) * 2 ^ (k - 52)))"

text \<open>The value of a literal of the JSON grammar: its sign, and numerator and denominator of its magnitude.\<close>

definition literal_exp :: "string \<Rightarrow> int" where
  "literal_exp s =
     (case s of
        [] \<Rightarrow> 0
      | _ # t \<Rightarrow>
          (case t of
             [] \<Rightarrow> 0
           | c # r \<Rightarrow> if c = CHR ''-'' then - int (digits_val r) else if c = CHR ''+'' then int (digits_val r)
               else int (digits_val t)))"

definition literal_value :: "string \<Rightarrow> bool \<times> nat \<times> nat" where
  "literal_value l =
     (let r = trimPrefix l ''-'';
          ip = takeWhile is_digit r;
          r1 = dropWhile is_digit r;
          fp = takeWhile is_digit (trimPrefix r1 ''.'');
          r2 = dropWhile is_digit (trimPrefix r1 ''.'');
          e = literal_exp r2 - int (length fp);
          n = digits_val (ip @ fp)
      in (hasPrefix l ''-'', if 0 \<le> e then n * 10 ^ nat e else n, if 0 \<le> e then 1 else 10 ^ nat (- e)))"

text \<open>
  \<^verbatim>\<open>int(f)\<close> for the double \<open>f\<close> of a literal. Where the double is beyond \<^verbatim>\<open>int64\<close> the language leaves
  the result open; the value here is the one of amd64.
\<close>

definition float_in_range :: "string \<Rightarrow> bool" where
  "float_in_range l \<longleftrightarrow> (case literal_value l of (_, n, d) \<Rightarrow> float_trunc n d < 2 ^ 1024)"

definition float_int :: "string \<Rightarrow> int" where
  "float_int l =
     (case literal_value l of
        (neg, n, d) \<Rightarrow>
          (let v = (if neg then - int (float_trunc n d) else int (float_trunc n d)) in
           if in_int64 v then v else min_int64))"

fun floats_ok :: "json \<Rightarrow> bool" where
  "floats_ok (JNum l) = float_in_range l"
| "floats_ok (JArr xs) = list_all floats_ok xs"
| "floats_ok (JObj kvs) = list_all (\<lambda>kv. floats_ok (snd kv)) kvs"
| "floats_ok _ = True"

text \<open>\<^verbatim>\<open>json.Unmarshal\<close> into \<^verbatim>\<open>any\<close>, and a member of a \<^verbatim>\<open>map[string]any\<close>, nil when it is absent.\<close>

definition json_any :: "string \<Rightarrow> json option" where
  "json_any s = (case json_unmarshal s of None \<Rightarrow> None | Some j \<Rightarrow> if floats_ok j then Some j else None)"

definition jget :: "string \<Rightarrow> (string \<times> json) list \<Rightarrow> json" where
  "jget k kvs = (case map_of (rev kvs) k of None \<Rightarrow> JNull | Some v \<Rightarrow> v)"

text \<open>The type assertions \<^verbatim>\<open>s, _ := v.(string)\<close> and \<^verbatim>\<open>f, _ := v.(float64)\<close> with \<^verbatim>\<open>int(f)\<close>.\<close>

fun any_string :: "json \<Rightarrow> string" where
  "any_string (JStr s) = s"
| "any_string _ = ''''"

fun any_float_int :: "json \<Rightarrow> int" where
  "any_float_int (JNum l) = float_int l"
| "any_float_int _ = 0"

lemma jget_size: "size (jget k kvs) < size (JObj kvs)"
proof (cases "map_of (rev kvs) k")
  case (Some v)
  then have "(k, v) \<in> set kvs" using map_of_SomeD by fastforce
  then have "size_prod (\<lambda>_. 0) size (k, v) \<le> size_list (size_prod (\<lambda>_. 0) size) kvs" by (rule elem_size_list)
  with Some show ?thesis by (simp add: jget_def)
qed (simp add: jget_def)

section \<open>Integers below 2^53 are exact\<close>

lemma ilog2_bound: "n < 2 ^ Suc m \<Longrightarrow> ilog2 n \<le> m"
proof (induction m arbitrary: n)
  case (Suc m)
  then show ?case by (subst ilog2.simps) auto
qed (simp add: ilog2.simps)

lemma round_div_1: "round_div a 1 = a"
  by (simp add: round_div_def)

lemma float_trunc_exact: "n < 2 ^ 53 \<Longrightarrow> float_trunc n 1 = n"
proof (cases "n = 0")
  case False
  assume "n < 2 ^ 53"
  then have "ilog2 n \<le> 52" using ilog2_bound [of n 52] by simp
  with False show ?thesis by (simp add: float_trunc_def Let_def round_div_1 [simplified])
qed (simp add: float_trunc_def)

lemma literal_value_formatInt: "literal_value (formatInt i) = (i < 0, nat \<bar>i\<bar>, 1)"
proof -
  have t: "trimPrefix (formatInt i) ''-'' = nat_dec (nat \<bar>i\<bar>)" "hasPrefix (formatInt i) ''-'' = (i < 0)"
    using nat_dec_digits [of "nat i"]
    by (cases "nat_dec (nat i)"; auto simp: formatInt_def trimPrefix_def hasPrefix_def is_digit_def)+
  have d: "takeWhile is_digit (nat_dec n) = nat_dec n" "dropWhile is_digit (nat_dec n) = []" for n
    using nat_dec_digits [of n] by (simp_all add: takeWhile_eq_all_conv list_all_iff)
  show ?thesis
    unfolding literal_value_def Let_def t
    by (simp add: d digits_val_nat_dec trimPrefix_def literal_exp_def)
qed

lemma float_int_formatInt:
  assumes "\<bar>i\<bar> < 2 ^ 53"
  shows "float_int (formatInt i) = i" "float_in_range (formatInt i)"
proof -
  have i: "nat \<bar>i\<bar> < 2 ^ 53" using assms by (simp add: nat_less_iff)
  then have f: "float_trunc (nat \<bar>i\<bar>) 1 = nat \<bar>i\<bar>" by (rule float_trunc_exact)
  have "in_int64 i" using assms unfolding in_int64_def by (simp add: abs_less_iff)
  then show "float_int (formatInt i) = i"
    using f by (cases "i < 0") (simp_all add: float_int_def literal_value_formatInt Let_def)
  note i
  also have "(2::nat) ^ 53 \<le> 2 ^ 1024" by (rule power_increasing) simp_all
  finally show "float_in_range (formatInt i)"
    using f by (simp only: float_in_range_def literal_value_formatInt prod.case)
qed

end
