(* ===== verification/Hudi_Timeline.thy ===== *)
theory Hudi_Timeline
  imports Json_Struct Go_Float Go_Time Go_Scanner Storage_Memory
begin

text \<open>
  \<^verbatim>\<open>pkg/formats/hudi/timeline.go\<close> and \<^verbatim>\<open>properties.go\<close>: the instants of a Hudi timeline, the body of a
  commit file, and the table properties. The theorems are the round trips of the three, and the
  instants the parser refuses.
\<close>

section \<open>Instants\<close>

text \<open>
  The layout \<^verbatim>\<open>20060102150405000\<close>. In Go's layouts a fraction of a second starts with a dot or a
  comma, so the three zeros are literal: they are written as they stand and must be matched as such.
\<close>

definition InstantFromTime :: "int \<times> int \<Rightarrow> string" where
  "InstantFromTime t =
     (let (sec, nsec) = t;
          (y, m, d) = civil_from_days (sec div 86400);
          s = sec mod 86400
      in year_text y @ pad2 m @ pad2 d @ pad2 (s div 3600) @ pad2 (s div 60 mod 60) @ pad2 (s mod 60) @ ''000'')"

text \<open>\<^verbatim>\<open>time.Parse\<close> with the layout \<^verbatim>\<open>20060102150405\<close> and a literal tail; the hour may have one digit.\<close>

definition parse_compact :: "string \<Rightarrow> string \<Rightarrow> (int \<times> int) option" where
  "parse_compact tail s =
     Option.bind (num4 s) (\<lambda>(y, s). Option.bind (num2 s) (\<lambda>(m, s). Option.bind (num2 s) (\<lambda>(d, s).
     Option.bind (num12 s) (\<lambda>(hh, s). Option.bind (num2 s) (\<lambda>(mi, s). Option.bind (num2 s) (\<lambda>(ss, s).
       (let (nsec, s) = parse_frac s in
        if s = tail \<and> 1 \<le> m \<and> m \<le> 12 \<and> 1 \<le> d \<and> d \<le> daysIn m y \<and> hh < 24 \<and> mi < 60 \<and> ss < 60
        then Some (days_from_civil y m d * 86400 + hh * 3600 + mi * 60 + ss, nsec)
        else None)))))))"

definition TimeFromInstant :: "string \<Rightarrow> (int \<times> int) option" where
  "TimeFromInstant instantStr =
     (if length instantStr = 14 then parse_compact '''' instantStr
      else if length instantStr \<ge> 17 then parse_compact ''000'' (take 17 instantStr)
      else None)"

definition UnixMilli :: "int \<times> int \<Rightarrow> int" where
  "UnixMilli t = fst t * 1000 + snd t div 1000000"

text \<open>The zero \<^verbatim>\<open>time.Time\<close>, which a failed parse returns.\<close>

definition zero_time :: "int \<times> int" where
  "zero_time = (- 62135596800, 0)"

section \<open>Commit metadata\<close>

record hoodie_write_stat =
  ws_FileID :: string
  ws_Path :: string
  ws_PrevCommit :: string
  ws_NumWrites :: int
  ws_TotalWriteBytes :: int
  ws_FileSizeInBytes :: int
  ws_MinValues :: "(string, json) gomap"
  ws_MaxValues :: "(string, json) gomap"
  ws_NullCount :: "(string, int) gomap"

record hoodie_commit_metadata =
  cm_PartitionToWriteStats :: "(string, hoodie_write_stat list) gomap"
  cm_PartitionToReplaceFileIds :: "(string, string list) gomap"
  cm_ExtraMetadata :: "(string, string) gomap"
  cm_OperationType :: string

record instant_action =
  ia_InstantTime :: string
  ia_Action :: string
  ia_State :: string
  ia_FileName :: string

text \<open>The prefix of a file name up to the first underscore, if that is not its first character.\<close>

definition FileGroupID :: "hoodie_write_stat \<Rightarrow> string" where
  "FileGroupID ws =
     (if ws_FileID ws \<noteq> '''' then ws_FileID ws
      else
        (let base = filepath_Base (ws_Path ws) in
         case cutStr base ''_'' of
           Some (c # pre, _) \<Rightarrow> c # pre
         | _ \<Rightarrow> base))"

definition enc_write_stat :: "hoodie_write_stat \<Rightarrow> json" where
  "enc_write_stat ws =
     JObj ([(''fileId'', JStr (ws_FileID ws)), (''path'', JStr (ws_Path ws))] @
       omit_str ''prevCommit'' (ws_PrevCommit ws) @
       [(''numWrites'', jint (ws_NumWrites ws)), (''totalWriteBytes'', jint (ws_TotalWriteBytes ws)),
        (''fileSizeInBytes'', jint (ws_FileSizeInBytes ws))] @
       omit_map ''minValues'' (\<lambda>j. j) (ws_MinValues ws) @ omit_map ''maxValues'' (\<lambda>j. j) (ws_MaxValues ws) @
       omit_map ''nullCount'' jint (ws_NullCount ws))"

definition enc_commit_metadata :: "hoodie_commit_metadata \<Rightarrow> json" where
  "enc_commit_metadata m =
     JObj ([(''partitionToWriteStats'', enc_map (\<lambda>wss. JArr (map enc_write_stat wss)) (cm_PartitionToWriteStats m))] @
       omit_map ''partitionToReplaceFileIds'' (\<lambda>ids. JArr (map JStr ids)) (cm_PartitionToReplaceFileIds m) @
       omit_map ''extraMetadata'' JStr (cm_ExtraMetadata m) @
       [(''operationType'', JStr (cm_OperationType m))])"

text \<open>A value of type \<^verbatim>\<open>any\<close> is kept as its document; a number beyond the doubles fails the decode.\<close>

definition dec_any_doc :: "json \<Rightarrow> json option" where
  "dec_any_doc j = (if floats_ok j then Some j else None)"

definition dec_write_stat :: "json \<Rightarrow> hoodie_write_stat option" where
  "dec_write_stat j =
     Option.bind (struct_members j) (\<lambda>kvs.
     Option.bind (dec_string (jfield ''fileId'' kvs)) (\<lambda>fid.
     Option.bind (dec_string (jfield ''path'' kvs)) (\<lambda>p.
     Option.bind (dec_string (jfield ''prevCommit'' kvs)) (\<lambda>pc.
     Option.bind (dec_int (jfield ''numWrites'' kvs)) (\<lambda>nw.
     Option.bind (dec_int (jfield ''totalWriteBytes'' kvs)) (\<lambda>tb.
     Option.bind (dec_int (jfield ''fileSizeInBytes'' kvs)) (\<lambda>fs.
     Option.bind (dec_map dec_any_doc (jfield ''minValues'' kvs)) (\<lambda>mn.
     Option.bind (dec_map dec_any_doc (jfield ''maxValues'' kvs)) (\<lambda>mx.
     Option.bind (dec_map (\<lambda>n. dec_int (Some n)) (jfield ''nullCount'' kvs)) (\<lambda>nc.
       Some \<lparr>ws_FileID = fid, ws_Path = p, ws_PrevCommit = pc, ws_NumWrites = nw, ws_TotalWriteBytes = tb,
             ws_FileSizeInBytes = fs, ws_MinValues = mn, ws_MaxValues = mx, ws_NullCount = nc\<rparr>))))))))))"

definition dec_commit_metadata :: "json \<Rightarrow> hoodie_commit_metadata option" where
  "dec_commit_metadata j =
     Option.bind (struct_members j) (\<lambda>kvs.
     Option.bind (dec_map (\<lambda>l. dec_list dec_write_stat (Some l)) (jfield ''partitionToWriteStats'' kvs)) (\<lambda>ws.
     Option.bind (dec_map (\<lambda>l. dec_strings (Some l)) (jfield ''partitionToReplaceFileIds'' kvs)) (\<lambda>rf.
     Option.bind (dec_smap (jfield ''extraMetadata'' kvs)) (\<lambda>em.
     Option.bind (dec_string (jfield ''operationType'' kvs)) (\<lambda>ot.
       Some \<lparr>cm_PartitionToWriteStats = ws, cm_PartitionToReplaceFileIds = rf, cm_ExtraMetadata = em,
             cm_OperationType = ot\<rparr>)))))"

definition marshal_commit :: "hoodie_commit_metadata \<Rightarrow> string" where
  "marshal_commit m = json_print (enc_commit_metadata m)"

definition unmarshal_commit :: "string \<Rightarrow> hoodie_commit_metadata option" where
  "unmarshal_commit data = Option.bind (json_unmarshal data) dec_commit_metadata"

section \<open>Table properties\<close>

type_synonym table_properties = "(string, string) gomap"

definition PropTableName :: string where "PropTableName = ''hoodie.table.name''"
definition hudi_PropTableType :: string where "hudi_PropTableType = ''hoodie.table.type''"
definition PropTableVersion :: string where "PropTableVersion = ''hoodie.table.version''"
definition PropBaseFileFormat :: string where "PropBaseFileFormat = ''hoodie.table.base.file.format''"
definition PropPartitionFields :: string where "PropPartitionFields = ''hoodie.table.partition.fields''"
definition PropTableSchema :: string where "PropTableSchema = ''hoodie.table.schema''"
definition PropTimelineLayoutVersion :: string where "PropTimelineLayoutVersion = ''hoodie.timeline.layout.version''"
definition PropPopulateMetaFields :: string where "PropPopulateMetaFields = ''hoodie.populate.meta.fields''"
definition TimelineLayoutVersionV1 :: string where "TimelineLayoutVersionV1 = ''1''"
definition MaxReadableTableVersion :: int where "MaxReadableTableVersion = 6"

lemmas hudi_props = PropTableName_def hudi_PropTableType_def PropTableVersion_def PropBaseFileFormat_def
  PropPartitionFields_def PropTableSchema_def PropTimelineLayoutVersion_def PropPopulateMetaFields_def

definition props_Get :: "table_properties \<Rightarrow> string \<Rightarrow> string" where
  "props_Get p key = (case map_of p key of None \<Rightarrow> '''' | Some v \<Rightarrow> v)"

definition AssertReadableVersion :: "table_properties \<Rightarrow> gerr option" where
  "AssertReadableVersion p =
     (let raw = trimSpace (props_Get p PropTableVersion) in
      if raw = '''' then None
      else
        (case parseInt raw of
           None \<Rightarrow> None
         | Some v \<Rightarrow>
             if v > MaxReadableTableVersion
             then Some (ErrMsg (''hoodie.table.version '' @ formatInt v @
               '' is a Hudi 1.x table, which polytable cannot read yet (supported: version '' @
               formatInt MaxReadableTableVersion @ '' and older)''))
             else None))"

definition put_property :: "table_properties \<Rightarrow> string \<Rightarrow> table_properties" where
  "put_property props text =
     (let line = trimSpace text in
      if line = '''' \<or> hasPrefix line ''#'' \<or> hasPrefix line ''!'' then props
      else
        (case cutStr line ''='' of
           None \<Rightarrow> props
         | Some (k, v) \<Rightarrow> map_put (trimSpace k) (trimSpace v) props))"

definition ParseProperties :: "string \<Rightarrow> table_properties res" where
  "ParseProperties data =
     (let (ls, too_long) = scan_lines data in
      if too_long then Inl (ErrMsg ''bufio.Scanner: token too long'') else Inr (foldl put_property [] ls))"

text \<open>The order of the lines is that of the map's iteration, which is any order: the list's.\<close>

definition Serialize :: "table_properties \<Rightarrow> string" where
  "Serialize p =
     ''# Generated by polytable'' @ [CHR 0x0A] @ concat (map (\<lambda>kv. fst kv @ ''='' @ snd kv @ [CHR 0x0A]) p)"

section \<open>Round trips\<close>

text \<open>Reading a written map whose values are read back up to \<open>h\<close>.\<close>

lemma dec_enc_map_upto:
  assumes "wf_map m" and "\<And>k v. (k, v) \<in> set m \<Longrightarrow> f (g v) = Some (h v)"
  shows "dec_map f (Some (enc_map g m)) = Some (map (\<lambda>kv. (fst kv, h (snd kv))) (sort_key fst m))"
proof -
  let ?kvs = "map (\<lambda>kv. (fst kv, g (snd kv))) (sort_key fst m)"
  let ?out = "map (\<lambda>kv. (fst kv, h (snd kv))) (sort_key fst m)"
  have "opt_all (\<lambda>kv. map_option (Pair (fst kv)) (f (snd kv))) ?kvs = Some ?out"
    by (rule opt_all_map) (use assms(2) in \<open>force simp: set_sort\<close>)
  moreover have "distinct (map fst ?out)"
    using assms(1) wf_map_sort_key by (simp add: wf_map_def comp_def distinct_map_sort_key)
  then have "foldl (\<lambda>m kv. map_put (fst kv) (snd kv) m) [] ?out = ?out"
    using foldl_map_put_distinct [of "[]" ?out] by (simp add: wf_map_def)
  ultimately show ?thesis by (simp add: enc_map_def)
qed

definition wf_stat :: "hoodie_write_stat \<Rightarrow> bool" where
  "wf_stat ws \<longleftrightarrow> in_int64 (ws_NumWrites ws) \<and> in_int64 (ws_TotalWriteBytes ws) \<and> in_int64 (ws_FileSizeInBytes ws) \<and>
     wf_map (ws_MinValues ws) \<and> wf_map (ws_MaxValues ws) \<and> wf_map (ws_NullCount ws) \<and>
     list_all (\<lambda>kv. wf_json (snd kv) \<and> floats_ok (snd kv)) (ws_MinValues ws @ ws_MaxValues ws) \<and>
     list_all (\<lambda>kv. in_int64 (snd kv)) (ws_NullCount ws)"

definition canon_stat :: "hoodie_write_stat \<Rightarrow> hoodie_write_stat" where
  "canon_stat ws = ws\<lparr>ws_MinValues := sort_key fst (ws_MinValues ws), ws_MaxValues := sort_key fst (ws_MaxValues ws),
     ws_NullCount := sort_key fst (ws_NullCount ws)\<rparr>"

definition wf_commit :: "hoodie_commit_metadata \<Rightarrow> bool" where
  "wf_commit m \<longleftrightarrow> wf_map (cm_PartitionToWriteStats m) \<and> wf_map (cm_PartitionToReplaceFileIds m) \<and>
     wf_map (cm_ExtraMetadata m) \<and> list_all (\<lambda>kv. list_all wf_stat (snd kv)) (cm_PartitionToWriteStats m)"

definition canon_commit :: "hoodie_commit_metadata \<Rightarrow> hoodie_commit_metadata" where
  "canon_commit m = m\<lparr>
     cm_PartitionToWriteStats := map (\<lambda>kv. (fst kv, map canon_stat (snd kv))) (sort_key fst (cm_PartitionToWriteStats m)),
     cm_PartitionToReplaceFileIds := sort_key fst (cm_PartitionToReplaceFileIds m),
     cm_ExtraMetadata := sort_key fst (cm_ExtraMetadata m)\<rparr>"

lemma dec_any_map:
  assumes "wf_map m" and "list_all (\<lambda>kv. wf_json (snd kv) \<and> floats_ok (snd kv)) m"
  shows "dec_map dec_any_doc (Some (enc_map (\<lambda>j. j) m)) = Some (sort_key fst m)"
  by (rule dec_enc_map) (use assms in \<open>auto simp: dec_any_doc_def list_all_iff\<close>)

lemma dec_count_map:
  assumes "wf_map m" and "list_all (\<lambda>kv. in_int64 (snd kv)) m"
  shows "dec_map (\<lambda>n. dec_int (Some n)) (Some (enc_map jint m)) = Some (sort_key fst m)"
  by (rule dec_enc_map) (use assms in \<open>auto simp: list_all_iff\<close>)

lemma dec_enc_stat: "wf_stat ws \<Longrightarrow> dec_write_stat (enc_write_stat ws) = Some (canon_stat ws)"
  by (simp add: dec_write_stat_def enc_write_stat_def key_simps wf_stat_def dec_any_map dec_count_map canon_stat_def)

lemma wf_json_stat: "wf_stat ws \<Longrightarrow> wf_json (enc_write_stat ws)"
  by (simp add: enc_write_stat_def wf_stat_def) (auto simp: list_all_iff)

lemma dec_enc_commit:
  assumes "wf_commit m"
  shows "dec_commit_metadata (enc_commit_metadata m) = Some (canon_commit m)"
proof -
  have "opt_all dec_write_stat (map enc_write_stat wss) = Some (map canon_stat wss)" if "list_all wf_stat wss" for wss
    by (rule opt_all_map) (use that in \<open>simp add: dec_enc_stat list_all_iff\<close>)
  then have "dec_map (\<lambda>l. dec_list dec_write_stat (Some l))
      (Some (enc_map (\<lambda>wss. JArr (map enc_write_stat wss)) (cm_PartitionToWriteStats m))) =
      Some (map (\<lambda>kv. (fst kv, map canon_stat (snd kv))) (sort_key fst (cm_PartitionToWriteStats m)))"
    by (intro dec_enc_map_upto) (use assms in \<open>auto simp: wf_commit_def list_all_iff\<close>)
  moreover have "dec_map (\<lambda>l. dec_strings (Some l))
      (Some (enc_map (\<lambda>ids. JArr (map JStr ids)) (cm_PartitionToReplaceFileIds m))) =
      Some (sort_key fst (cm_PartitionToReplaceFileIds m))"
    by (rule dec_enc_map) (use assms in \<open>auto simp: wf_commit_def\<close>)
  ultimately show ?thesis
    using assms by (simp add: dec_commit_metadata_def enc_commit_metadata_def key_simps wf_commit_def canon_commit_def)
qed

lemma commit_roundtrip: "wf_commit m \<Longrightarrow> unmarshal_commit (marshal_commit m) = Some (canon_commit m)"
proof -
  assume m: "wf_commit m"
  then have "wf_json (enc_commit_metadata m)"
    by (simp add: enc_commit_metadata_def wf_commit_def) (auto simp: list_all_iff intro: wf_json_stat)
  with m show ?thesis by (simp add: unmarshal_commit_def marshal_commit_def dec_enc_commit)
qed

text \<open>Properties a line of the file can carry.\<close>

definition clean_property :: "string \<times> string \<Rightarrow> bool" where
  "clean_property kv \<longleftrightarrow> CHR 0x0A \<notin> set (fst kv) \<union> set (snd kv) \<and> CHR ''='' \<notin> set (fst kv) \<and>
     trimSpace (fst kv) = fst kv \<and> trimSpace (snd kv) = snd kv \<and> \<not> hasPrefix (fst kv) ''#'' \<and> \<not> hasPrefix (fst kv) ''!'' \<and>
     length (fst kv) + length (snd kv) + 1 < max_line"

lemma trimSpace_fixed:
  assumes "trimSpace s = s" and "s \<noteq> []"
  shows "\<not> is_space (hd s)" and "\<not> is_space (last s)"
proof -
  have l: "length (trimSpace s) \<le> length (dropWhile is_space s)"
    using length_dropWhile_le [of is_space "rev (dropWhile is_space s)"] by (simp add: trimSpace_def)
  show "\<not> is_space (hd s)"
  proof
    assume "is_space (hd s)"
    with assms(2) have "length (dropWhile is_space s) < length s"
      by (cases s) (auto simp: less_Suc_eq_le length_dropWhile_le)
    with l assms(1) show False by simp
  qed
  then have "dropWhile is_space s = s" using assms(2) by (cases s) auto
  with assms have "rev (dropWhile is_space (rev s)) = s" by (simp add: trimSpace_def)
  then show "\<not> is_space (last s)"
    using assms(2) by (metis dropWhile_eq_Nil_conv hd_dropWhile hd_rev last_rev list.set_sel(1) rev.simps(1) rev_rev_ident)
qed

lemma cutStr_first: "c \<notin> set k \<Longrightarrow> cutStr (k @ c # v) [c] = Some (k, v)"
  by (induction k) (auto simp: hasPrefix_def)

text \<open>A line of the file.\<close>

definition property_line :: "string \<times> string \<Rightarrow> string" where
  "property_line kv = fst kv @ ''='' @ snd kv"

lemma property_line_ends:
  assumes "clean_property kv"
  shows "\<not> is_space (hd (property_line kv))" and "\<not> is_space (last (property_line kv))"
  using assms trimSpace_fixed [of "fst kv"] trimSpace_fixed [of "snd kv"]
  by (cases "fst kv"; cases "snd kv"; simp add: clean_property_def property_line_def is_space_def)+

lemma property_line_scanned:
  assumes "clean_property kv"
  shows "CHR 0x0A \<notin> set (property_line kv) \<and> drop_cr (property_line kv) = property_line kv \<and>
    length (property_line kv) < max_line"
proof -
  have "last (property_line kv) \<noteq> CHR 0x0D" using property_line_ends(2) [OF assms] by (auto simp: is_space_def)
  then have "drop_cr (property_line kv) = property_line kv"
    by (auto simp: drop_cr_def trimSuffix_def hasSuffix_iff)
  with assms show ?thesis by (auto simp: clean_property_def property_line_def)
qed

lemma put_property_line:
  assumes "clean_property kv"
  shows "put_property props (property_line kv) = map_put (fst kv) (snd kv) props"
proof -
  have "trimSpace (property_line kv) = property_line kv"
    by (rule trimSpace_idem_hd) (use property_line_ends [OF assms] in \<open>simp_all add: property_line_def\<close>)
  moreover have "\<not> hasPrefix (property_line kv) ''#'' \<and> \<not> hasPrefix (property_line kv) ''!''"
    using assms by (cases "fst kv") (simp_all add: clean_property_def property_line_def hasPrefix_def)
  moreover have "cutStr (property_line kv) ''='' = Some kv"
    using assms cutStr_first [of "CHR ''=''" "fst kv" "snd kv"] by (simp add: clean_property_def property_line_def)
  moreover have "property_line kv \<noteq> ''''" by (simp add: property_line_def)
  ultimately show ?thesis using assms by (cases kv) (simp add: put_property_def Let_def clean_property_def)
qed

lemma put_property_header: "put_property props ''# Generated by polytable'' = props"
proof -
  have "trimSpace ''# Generated by polytable'' = ''# Generated by polytable''" by code_simp
  then show ?thesis by (simp add: put_property_def hasPrefix_def)
qed

lemma Parse_Serialize:
  assumes "wf_map p" and "list_all clean_property p"
  shows "ParseProperties (Serialize p) = Inr p"
proof -
  let ?ls = "''# Generated by polytable'' # map property_line p"
  have "Serialize p = concat (map (\<lambda>l. l @ [CHR 0x0A]) ?ls)"
    by (simp add: Serialize_def property_line_def comp_def)
  moreover have "scan_lines (concat (map (\<lambda>l. l @ [CHR 0x0A]) ?ls)) = (?ls, False)"
  proof (rule scan_lines_text)
    have "CHR 0x0A \<notin> set ''# Generated by polytable'' \<and> drop_cr ''# Generated by polytable'' = ''# Generated by polytable''"
      by code_simp
    then show "CHR 0x0A \<notin> set l \<and> drop_cr l = l \<and> length l < max_line" if "l \<in> set ?ls" for l
      using that assms(2) property_line_scanned by (auto simp: list_all_iff max_line_def)
  qed
  moreover have "foldl put_property m (map property_line q) = foldl (\<lambda>m kv. map_put (fst kv) (snd kv) m) m q"
    if "list_all clean_property q" for m q
    using that by (induction q arbitrary: m) (simp_all add: put_property_line)
  ultimately show ?thesis
    using assms foldl_map_put_distinct [of "[]" p] by (simp add: ParseProperties_def put_property_header)
qed

text \<open>
  The properties a sync writes are the properties the next one reads, whatever order the map was
  iterated in: for distinct keys and values a line can carry, parsing the serialised file gives back
  the map.
\<close>

theorem properties_roundtrip:
  assumes "wf_map p" and "list_all clean_property p"
  shows "ParseProperties (Serialize p) = Inr p"
  by (rule Parse_Serialize [OF assms])

theorem properties_roundtrip_witness:
  "ParseProperties (Serialize [(PropTableName, ''orders''), (PropTableVersion, ''6'')]) =
    Inr [(PropTableName, ''orders''), (PropTableVersion, ''6'')]"
  by (rule properties_roundtrip) (auto simp: wf_map_def hudi_props clean_property_def trimSpace_def is_space_def
      hasPrefix_def max_line_def)

section \<open>Instants\<close>

lemma parse_compact_fields:
  assumes "0 \<le> y" "y < 10000" "1 \<le> m" "m \<le> 12" "1 \<le> d" "d \<le> daysIn m y" "0 \<le> hh" "hh < 24"
    "0 \<le> mi" "mi < 60" "0 \<le> ss" "ss < 60"
  shows "parse_compact ''000'' (year_text y @ pad2 m @ pad2 d @ pad2 hh @ pad2 mi @ pad2 ss @ ''000'') =
    Some (days_from_civil y m d * 86400 + hh * 3600 + mi * 60 + ss, 0)"
proof -
  have "d < 100" using assms(6) by (simp add: daysIn_def split: if_splits)
  moreover have "parse_frac ''000'' = (0, ''000'')" by (simp add: parse_frac_def)
  ultimately show ?thesis
    using assms by (simp add: parse_compact_def)
qed

lemma InstantFromTime_parts:
  assumes "civil_from_days (sec div 86400) = (y, m, d)"
  shows "InstantFromTime (sec, nsec) = year_text y @ pad2 m @ pad2 d @ pad2 (sec mod 86400 div 3600) @
    pad2 (sec mod 86400 div 60 mod 60) @ pad2 (sec mod 86400 mod 60) @ ''000''"
  unfolding InstantFromTime_def Let_def assms prod.case by (rule refl)

lemma instant_roundtrip:
  assumes "civil_from_days (sec div 86400) = (y, m, d)" "0 \<le> y" "y < 10000"
  shows "TimeFromInstant (InstantFromTime (sec, nsec)) = Some (sec, 0)" and "length (InstantFromTime (sec, nsec)) = 17"
proof -
  note v = civil_valid [OF assms(1)] and c = clock_parts [of sec]
  have days: "days_from_civil y m d = sec div 86400" using days_civil [of "sec div 86400"] assms(1) by simp
  show len: "length (InstantFromTime (sec, nsec)) = 17"
    unfolding InstantFromTime_parts [OF assms(1)] using assms by (simp add: length_year_text)
  have "parse_compact ''000'' (InstantFromTime (sec, nsec)) = Some (sec, 0)"
    unfolding InstantFromTime_parts [OF assms(1)]
    using parse_compact_fields [of y m d, OF assms(2,3) _ _ _ _ c(1-6)] v by (simp only: days c(7))
  with len show "TimeFromInstant (InstantFromTime (sec, nsec)) = Some (sec, 0)"
    by (simp add: TimeFromInstant_def)
qed

lemma num_digits:
  assumes "list_all is_digit s"
  shows "2 \<le> length s \<Longrightarrow> \<exists>n. num2 s = Some (n, drop 2 s)"
    and "2 \<le> length s \<Longrightarrow> \<exists>n. num12 s = Some (n, drop 2 s)"
    and "4 \<le> length s \<Longrightarrow> \<exists>n. num4 s = Some (n, drop 4 s)"
proof -
  have two: "\<exists>n. num2 t = Some (n, drop 2 t)" "\<exists>n. num12 t = Some (n, drop 2 t)"
    if "list_all is_digit t" "2 \<le> length t" for t
    using that by (cases t; cases "tl t"; simp)+
  then show "2 \<le> length s \<Longrightarrow> \<exists>n. num2 s = Some (n, drop 2 s)" "2 \<le> length s \<Longrightarrow> \<exists>n. num12 s = Some (n, drop 2 s)"
    using assms by blast+
  assume "4 \<le> length s"
  with two(1) [OF assms] obtain a where a: "num2 s = Some (a, drop 2 s)" by auto
  have "list_all is_digit (drop 2 s)" using assms by (auto simp: list_all_iff dest: in_set_dropD)
  moreover have "2 \<le> length (drop 2 s)" using \<open>4 \<le> length s\<close> by simp
  ultimately obtain b where "num2 (drop 2 s) = Some (b, drop 2 (drop 2 s))" using two(1) by blast
  with a show "\<exists>n. num4 s = Some (n, drop 4 s)" by (simp add: num4_def)
qed

lemma parse_frac_digits: "list_all is_digit s \<Longrightarrow> parse_frac s = (0, s)"
  by (cases s; cases "tl s") (auto simp: parse_frac_def is_digit_def)

lemma parse_compact_tail:
  assumes "list_all is_digit s" and "14 \<le> length s" and "drop 14 s \<noteq> tail"
  shows "parse_compact tail s = None"
proof -
  have d: "list_all is_digit (drop n s)" for n using assms(1) by (auto simp: list_all_iff dest: in_set_dropD)
  have l: "2 \<le> length (drop n s)" if "n \<le> 12" for n using that assms(2) by simp
  obtain y m dd hh mi ss where
      "num4 s = Some (y, drop 4 s)" "num2 (drop 4 s) = Some (m, drop 6 s)" "num2 (drop 6 s) = Some (dd, drop 8 s)"
      "num12 (drop 8 s) = Some (hh, drop 10 s)" "num2 (drop 10 s) = Some (mi, drop 12 s)"
      "num2 (drop 12 s) = Some (ss, drop 14 s)"
    using num_digits(3) [OF assms(1)] num_digits(1) [OF d l, of 4] num_digits(1) [OF d l, of 6] num_digits(2) [OF d l, of 8]
      num_digits(1) [OF d l, of 10] num_digits(1) [OF d l, of 12] assms(2) by (auto simp del: length_drop)
  then show ?thesis using parse_frac_digits [OF d] assms(3) by (simp add: parse_compact_def)
qed

lemma millis_refused:
  assumes "17 \<le> length s" and "list_all is_digit (take 17 s)" and "take 3 (drop 14 s) \<noteq> ''000''"
  shows "TimeFromInstant s = None"
proof -
  have "drop 14 (take 17 s) = take 3 (drop 14 s)" by (simp add: drop_take)
  with assms parse_compact_tail [of "take 17 s" "''000''"] show ?thesis by (simp add: TimeFromInstant_def)
qed

text \<open>
  An instant made from a time with a four-digit year has the seventeen characters of a Hudi
  instant and parses back to the same second; what the time had below the second is gone, since the
  layout writes three literal zeros for the milliseconds.
\<close>

theorem hudi_instant_roundtrip:
  assumes "0 \<le> fst (civil_from_days (sec div 86400))" and "fst (civil_from_days (sec div 86400)) < 10000"
  shows "length (InstantFromTime (sec, nsec)) = 17 \<and> TimeFromInstant (InstantFromTime (sec, nsec)) = Some (sec, 0)"
proof -
  obtain y m d where c: "civil_from_days (sec div 86400) = (y, m, d)" by (metis prod_cases3)
  with assms have "0 \<le> y" "y < 10000" by simp_all
  from instant_roundtrip [OF c this] show ?thesis by blast
qed

theorem hudi_instant_roundtrip_witness:
  "length (InstantFromTime (1787415052, 123000000)) = 17 \<and>
   TimeFromInstant (InstantFromTime (1787415052, 123000000)) = Some (1787415052, 0)"
  by (rule hudi_instant_roundtrip; code_simp)

text \<open>
  The instants Hudi itself writes, with milliseconds, are not parsed: seventeen digits whose last
  three are not zeros are an error, so the time of such a commit is unknown to the source.
\<close>

theorem millis_instants_refused:
  assumes "17 \<le> length s" and "list_all is_digit (take 17 s)" and "take 3 (drop 14 s) \<noteq> ''000''"
  shows "TimeFromInstant s = None"
  by (rule millis_refused [OF assms])

theorem millis_instants_refused_witness: "TimeFromInstant ''20260101000000123'' = None"
  by (rule millis_instants_refused) (simp_all add: is_digit_def)

end
