(* ===== verification/Hudi_Schema.thy ===== *)
theory Hudi_Schema
  imports Model_Core Go_Float
begin

text \<open>
  \<^verbatim>\<open>pkg/formats/hudi/schema.go\<close>: a canonical schema as the text of an Avro record schema and back.
  The Go values that are marshalled (a string, a \<^verbatim>\<open>map[string]any\<close>, whose keys are written in
  order, an \<^verbatim>\<open>AvroField\<close>) are the JSON documents they become; a nil slice is \<^verbatim>\<open>null\<close>.
\<close>

section \<open>Writing\<close>

text \<open>The types written without their children.\<close>

fun avro_scalar :: "dtype \<Rightarrow> json" where
  "avro_scalar TypeBoolean = JStr ''boolean''"
| "avro_scalar TypeInt = JStr ''int''"
| "avro_scalar TypeLong = JStr ''long''"
| "avro_scalar TypeFloat = JStr ''float''"
| "avro_scalar TypeDouble = JStr ''double''"
| "avro_scalar TypeUUID = JObj [(''logicalType'', JStr ''uuid''), (''type'', JStr ''string'')]"
| "avro_scalar TypeBytes = JStr ''bytes''"
| "avro_scalar TypeFixed = JStr ''bytes''"
| "avro_scalar TypeDate = JObj [(''logicalType'', JStr ''date''), (''type'', JStr ''int'')]"
| "avro_scalar TypeTimestamp = JObj [(''logicalType'', JStr ''timestamp-micros''), (''type'', JStr ''long'')]"
| "avro_scalar TypeTimestampNTZ = JObj [(''logicalType'', JStr ''local-timestamp-micros''), (''type'', JStr ''long'')]"
| "avro_scalar _ = JStr ''string''"

definition avro_decimal :: "int \<Rightarrow> int \<Rightarrow> json" where
  "avro_decimal precision scale =
     JObj [(''logicalType'', JStr ''decimal''), (''precision'', JNum (formatInt precision)),
           (''scale'', JNum (formatInt scale)), (''type'', JStr ''bytes'')]"

text \<open>An \<^verbatim>\<open>AvroField\<close> as marshalled: an empty \<^verbatim>\<open>doc\<close> and the \<^verbatim>\<open>default\<close>, which is always nil, are omitted.\<close>

definition avro_field :: "string \<Rightarrow> json \<Rightarrow> string \<Rightarrow> json" where
  "avro_field name t doc =
     JObj ([(''name'', JStr name), (''type'', t)] @ (if doc = '''' then [] else [(''doc'', JStr doc)]))"

definition avro_fields :: "json list \<Rightarrow> json" where
  "avro_fields fs = (if fs = [] then JNull else JArr fs)"

definition avro_nested_record :: "string \<Rightarrow> json list \<Rightarrow> json" where
  "avro_nested_record name fs =
     JObj [(''fields'', avro_fields fs), (''name'', JStr name), (''type'', JStr ''record'')]"

definition avro_array :: "json \<Rightarrow> json" where
  "avro_array e = JObj [(''items'', e), (''type'', JStr ''array'')]"

definition avro_map :: "json \<Rightarrow> json" where
  "avro_map v = JObj [(''type'', JStr ''map''), (''values'', v)]"

function convertTypeToAvro :: "schema option \<Rightarrow> json res" where
  "convertTypeToAvro None = Inr (JStr ''string'')"
| "convertTypeToAvro (Some s) =
     bind_res
       (case DataType s of
          TypeDecimal \<Rightarrow> Inr (avro_decimal (decimal_precision s) (decimal_scale s))
        | TypeRecord \<Rightarrow>
            bind_res
              (map_res (\<lambda>cf. bind_res (convertTypeToAvro (FieldSchema cf))
                 (\<lambda>cType. Inr (avro_field (FieldName cf) cType ''''))) (Fields s))
              (\<lambda>fs. Inr (avro_nested_record (SchemaName s) fs))
        | TypeList \<Rightarrow>
            (case ElementSchema s of
               None \<Rightarrow> Inl nil_panic
             | Some f \<Rightarrow> bind_res (convertTypeToAvro (FieldSchema f)) (\<lambda>elemType. Inr (avro_array elemType)))
        | TypeMap \<Rightarrow>
            (case ValueSchema s of
               None \<Rightarrow> Inl nil_panic
             | Some f \<Rightarrow> bind_res (convertTypeToAvro (FieldSchema f)) (\<lambda>valType. Inr (avro_map valType)))
        | t \<Rightarrow> Inr (avro_scalar t))
       (\<lambda>baseType. Inr (if IsNullable s then JArr [JStr ''null'', baseType] else baseType))"
  by pat_completeness auto
termination
  by (relation "measure child_size")
    (auto simp: child_size_def [of "Some _"] intro: child_size_field child_size_ptr)

declare convertTypeToAvro.simps(2) [simp del]

text \<open>The loop over the top-level fields dereferences each field's schema for its comment.\<close>

definition root_avro_field :: "field \<Rightarrow> json res" where
  "root_avro_field f =
     bind_res (convertTypeToAvro (FieldSchema f)) (\<lambda>avroType.
     case FieldSchema f of
       None \<Rightarrow> Inl nil_panic
     | Some s \<Rightarrow> Inr (avro_field (FieldName f) avroType (Comment s)))"

definition SchemaToAvroJSON :: "schema option \<Rightarrow> string \<Rightarrow> string \<Rightarrow> string res" where
  "SchemaToAvroJSON schema recordName namespace =
     (case schema of
        None \<Rightarrow> Inl (ErrMsg ''schema cannot be nil'')
      | Some s \<Rightarrow>
          bind_res (map_res root_avro_field (Fields s)) (\<lambda>avroFields.
          Inr (json_print (JObj
            ([(''type'', JStr ''record''), (''name'', JStr (if recordName = '''' then ''record'' else recordName))] @
             (if namespace = '''' then [] else [(''namespace'', JStr namespace)]) @
             [(''fields'', avro_fields avroFields)])))))"

section \<open>Reading\<close>

definition avro_primitive :: "string \<Rightarrow> dtype" where
  "avro_primitive v =
     (if v = ''boolean'' then TypeBoolean else if v = ''int'' then TypeInt else if v = ''long'' then TypeLong
      else if v = ''float'' then TypeFloat else if v = ''double'' then TypeDouble
      else if v = ''string'' then TypeString else if v = ''bytes'' then TypeBytes else TypeString)"

text \<open>The schema a recognised logical type stands for.\<close>

definition avro_logical :: "(string \<times> json) list \<Rightarrow> schema option" where
  "avro_logical v =
     (case jget ''logicalType'' v of
        JStr t \<Rightarrow>
          if t = ''date'' then Some (NewPrimitiveSchema TypeDate False)
          else if t = ''timestamp-millis'' \<or> t = ''timestamp-micros'' then Some (NewPrimitiveSchema TypeTimestamp False)
          else if t = ''local-timestamp-millis'' \<or> t = ''local-timestamp-micros''
            then Some (NewPrimitiveSchema TypeTimestampNTZ False)
          else if t = ''uuid'' then Some (NewPrimitiveSchema TypeUUID False)
          else if t = ''decimal'' then
            Some (NewDecimalSchema (any_float_int (jget ''precision'' v)) (any_float_int (jget ''scale'' v)) False)
          else None
      | _ \<Rightarrow> None)"

text \<open>A union: whether it has \<^verbatim>\<open>"null"\<close>, and the last of its other members (nil when there is none).\<close>

definition union_nullable :: "json list \<Rightarrow> bool" where
  "union_nullable v = list_ex (\<lambda>item. item = JStr ''null'') v"

definition union_type :: "json list \<Rightarrow> json" where
  "union_type v = foldl (\<lambda>actualType item. if item = JStr ''null'' then actualType else item) JNull v"

definition object_elems :: "json \<Rightarrow> (string \<times> json) list list" where
  "object_elems j =
     (case j of
        JArr fs \<Rightarrow> List.map_filter (\<lambda>fr. case fr of JObj m \<Rightarrow> Some m | _ \<Rightarrow> None) fs
      | _ \<Rightarrow> [])"

lemma union_type_size: "size (union_type v) < size (JArr v)"
proof -
  have "union_type v \<in> insert JNull (set v)"
  proof -
    have "foldl (\<lambda>a item. if item = JStr ''null'' then a else item) x v \<in> insert x (set v)" for x
      by (induction v arbitrary: x) auto
    then show ?thesis by (simp add: union_type_def)
  qed
  then show ?thesis using elem_size_list [of "union_type v" v size] by auto
qed

lemma object_elems_size: "m \<in> set (object_elems j) \<Longrightarrow> size (jget k m) < size j"
proof -
  assume "m \<in> set (object_elems j)"
  then obtain fs where j: "j = JArr fs" and "JObj m \<in> set fs"
    by (fastforce simp: object_elems_def List.map_filter_def split: json.splits if_splits)
  then have "size (JObj m) \<le> size_list size fs" by (intro elem_size_list)
  with jget_size [of k m] show ?thesis by (simp add: j)
qed

function parseAvroType :: "json \<Rightarrow> schema res" where
  "parseAvroType (JStr v) = Inr (NewPrimitiveSchema (avro_primitive v) False)"
| "parseAvroType (JArr v) =
     (if union_type v \<noteq> JNull
      then bind_res (parseAvroType (union_type v)) (\<lambda>s. Inr (set_nullable (union_nullable v) s))
      else Inr (NewPrimitiveSchema TypeString True))"
| "parseAvroType (JObj v) =
     (case avro_logical v of
        Some s \<Rightarrow> Inr s
      | None \<Rightarrow>
          (let typeStr = any_string (jget ''type'' v) in
           if typeStr = ''array'' then
             bind_res (parseAvroType (jget ''items'' v)) (\<lambda>elemSchema. Inr (list_schema elemSchema False))
           else if typeStr = ''map'' then
             bind_res (parseAvroType (jget ''values'' v))
               (\<lambda>valSchema. Inr (map_schema (NewPrimitiveSchema TypeString False) valSchema False))
           else if typeStr = ''record'' then
             bind_res
               (map_res (\<lambda>m. bind_res (parseAvroType (jget ''type'' m))
                  (\<lambda>fSchema. Inr (mkField (any_string (jget ''name'' m)) (Some fSchema))))
                  (object_elems (jget ''fields'' v)))
               (\<lambda>flds. Inr (NewRecordSchema '''' flds False))
           else Inr (NewPrimitiveSchema TypeString False)))"
| "parseAvroType JNull = Inr (NewPrimitiveSchema TypeString False)"
| "parseAvroType (JBool b) = Inr (NewPrimitiveSchema TypeString False)"
| "parseAvroType (JNum l) = Inr (NewPrimitiveSchema TypeString False)"
  by pat_completeness auto
termination
  using union_type_size jget_size less_trans [OF object_elems_size jget_size]
  by (relation "measure size") (auto simp del: json.size)

declare parseAvroType.simps(2,3) [simp del]

definition AvroJSONToSchema :: "string \<Rightarrow> schema res" where
  "AvroJSONToSchema avroJSON =
     (case json_any avroJSON of
        Some JNull \<Rightarrow> Inl (ErrMsg ''invalid avro record schema: missing fields'')
      | Some (JObj raw) \<Rightarrow>
          (case jget ''fields'' raw of
             JArr fs \<Rightarrow>
               bind_res
                 (map_res (\<lambda>m. bind_res
                    (wrap_res (''failed to parse avro field '' @ any_string (jget ''name'' m)) (parseAvroType (jget ''type'' m)))
                    (\<lambda>fSchema. Inr (mkField (any_string (jget ''name'' m)) (Some fSchema))))
                   (object_elems (JArr fs)))
                 (\<lambda>flds. Inr (NewRecordSchema (any_string (jget ''name'' raw)) flds False))
           | _ \<Rightarrow> Inl (ErrMsg ''invalid avro record schema: missing fields''))
      | _ \<Rightarrow> Inl (ErrWrap ''failed to parse avro JSON'' (ErrMsg ''json'')))"

section \<open>What a schema becomes on the way through Avro\<close>

text \<open>
  The schemas the writer accepts: lists and maps have their child field, and the parameters of a
  decimal are integers a double holds exactly.
\<close>

function avro_writable :: "schema option \<Rightarrow> bool" where
  "avro_writable None = True"
| "avro_writable (Some s) =
     (case DataType s of
        TypeDecimal \<Rightarrow> \<bar>decimal_precision s\<bar> < 2 ^ 53 \<and> \<bar>decimal_scale s\<bar> < 2 ^ 53
      | TypeRecord \<Rightarrow> list_all (\<lambda>f. avro_writable (FieldSchema f)) (Fields s)
      | TypeList \<Rightarrow> (case ElementSchema s of None \<Rightarrow> False | Some f \<Rightarrow> avro_writable (FieldSchema f))
      | TypeMap \<Rightarrow> (case ValueSchema s of None \<Rightarrow> False | Some f \<Rightarrow> avro_writable (FieldSchema f))
      | _ \<Rightarrow> True)"
  by pat_completeness auto
termination
  by (relation "measure child_size")
    (auto simp: child_size_def [of "Some _"] intro: child_size_field child_size_ptr)

declare avro_writable.simps(2) [simp del]

fun avro_norm_type :: "dtype \<Rightarrow> dtype" where
  "avro_norm_type TypeEnum = TypeString"
| "avro_norm_type TypeUnion = TypeString"
| "avro_norm_type TypeNull = TypeString"
| "avro_norm_type TypeFixed = TypeBytes"
| "avro_norm_type t = t"

text \<open>
  The canonical schema as Hudi has it: enumerations, unions and null columns are strings, fixed-size
  bytes are bytes, map keys are strings, and names of nested records, comments, defaults and field
  identifiers are dropped.
\<close>

function avro_norm :: "schema option \<Rightarrow> schema" where
  "avro_norm None = NewPrimitiveSchema TypeString False"
| "avro_norm (Some s) =
     (case DataType s of
        TypeDecimal \<Rightarrow> NewDecimalSchema (decimal_precision s) (decimal_scale s) (IsNullable s)
      | TypeRecord \<Rightarrow>
          NewRecordSchema '''' (map (\<lambda>f. mkField (FieldName f) (Some (avro_norm (FieldSchema f)))) (Fields s)) (IsNullable s)
      | TypeList \<Rightarrow>
          (case ElementSchema s of None \<Rightarrow> s | Some f \<Rightarrow> list_schema (avro_norm (FieldSchema f)) (IsNullable s))
      | TypeMap \<Rightarrow>
          (case ValueSchema s of
             None \<Rightarrow> s
           | Some f \<Rightarrow> map_schema (NewPrimitiveSchema TypeString False) (avro_norm (FieldSchema f)) (IsNullable s))
      | t \<Rightarrow> NewPrimitiveSchema (avro_norm_type t) (IsNullable s))"
  by pat_completeness auto
termination
  by (relation "measure child_size")
    (auto simp: child_size_def [of "Some _"] intro: child_size_field child_size_ptr)

declare avro_norm.simps(2) [simp del]

definition avro_norm_field :: "field \<Rightarrow> field" where
  "avro_norm_field f = mkField (FieldName f) (Some (avro_norm (FieldSchema f)))"

text \<open>Writing a schema and parsing the document gives its Avro form.\<close>

definition avro_trip :: "schema option \<Rightarrow> json \<Rightarrow> bool" where
  "avro_trip s j \<longleftrightarrow> convertTypeToAvro s = Inr j \<and> wf_json j \<and> floats_ok j \<and> parseAvroType j = Inr (avro_norm s)"

lemma jget_simps [simp]:
  "jget k [] = JNull" "jget k ((k', v) # kvs) = (if k \<in> fst ` set kvs then jget k kvs else if k = k' then v else JNull)"
  by (auto simp: jget_def image_iff map_add_Some_iff map_of_eq_None_iff split: option.splits dest: map_of_SomeD)
    (metis (no_types, lifting) image_iff map_of_eq_None_iff option.distinct(1) set_rev)+

text \<open>A base type and the nullable union around it.\<close>

lemma avro_trip_base:
  assumes "convertTypeToAvro (Some s) = Inr (if IsNullable s then JArr [JStr ''null'', j] else j)"
    and "wf_json j" and "floats_ok j" and "j \<noteq> JNull" and "j \<noteq> JStr ''null''"
    and "\<exists>t. parseAvroType j = Inr t \<and> IsNullable t = False \<and> set_nullable (IsNullable s) t = avro_norm (Some s)"
  shows "\<exists>j. avro_trip (Some s) j"
proof (cases "IsNullable s")
  case True
  have "union_type [JStr ''null'', j] = j" "union_nullable [JStr ''null'', j]"
    using assms(5) by (simp_all add: union_type_def union_nullable_def)
  with True assms have "avro_trip (Some s) (JArr [JStr ''null'', j])"
    by (auto simp: avro_trip_def parseAvroType.simps(2))
  then show ?thesis by blast
next
  case False
  have "set_nullable False t = t" if "IsNullable t = False" for t using that by (cases t) simp
  with False assms have "avro_trip (Some s) j" by (auto simp: avro_trip_def)
  then show ?thesis by blast
qed

lemma nested_fields_trip:
  assumes "\<And>f. f \<in> set fs \<Longrightarrow> avro_trip (FieldSchema f) (J f)"
  shows "map_res (\<lambda>cf. bind_res (convertTypeToAvro (FieldSchema cf))
      (\<lambda>cType. Inr (avro_field (FieldName cf) cType (doc cf)))) fs = Inr (map (\<lambda>f. avro_field (FieldName f) (J f) (doc f)) fs)"
    and "list_all wf_json (map (\<lambda>f. avro_field (FieldName f) (J f) (doc f)) fs)"
    and "list_all floats_ok (map (\<lambda>f. avro_field (FieldName f) (J f) (doc f)) fs)"
  using assms by (auto intro!: map_res_all_Inr simp: avro_trip_def avro_field_def list_all_iff)

lemma object_elems_fields:
  "object_elems (avro_fields (map (\<lambda>f. avro_field (FieldName f) (J f) (doc f)) fs)) =
    map (\<lambda>f. [(''name'', JStr (FieldName f)), (''type'', J f)] @ (if doc f = '''' then [] else [(''doc'', JStr (doc f))])) fs"
  by (induction fs) (auto simp: object_elems_def avro_fields_def avro_field_def List.map_filter_def)

lemma read_fields_trip:
  assumes "\<And>f. f \<in> set fs \<Longrightarrow> avro_trip (FieldSchema f) (J f)" and "\<And>c x. wr c (Inr x) = Inr x"
  shows "map_res (\<lambda>m. bind_res (wr (any_string (jget ''name'' m)) (parseAvroType (jget ''type'' m)))
      (\<lambda>fSchema. Inr (mkField (any_string (jget ''name'' m)) (Some fSchema))))
      (object_elems (avro_fields (map (\<lambda>f. avro_field (FieldName f) (J f) (doc f)) fs))) = Inr (map avro_norm_field fs)"
  unfolding object_elems_fields map_res_map
  by (rule map_res_all_Inr) (use assms in \<open>auto simp: avro_trip_def avro_norm_field_def\<close>)

lemma avro_trip_record:
  assumes "DataType s = TypeRecord" and "\<And>f. f \<in> set (Fields s) \<Longrightarrow> \<exists>j. avro_trip (FieldSchema f) j"
  shows "\<exists>j. avro_trip (Some s) j"
proof -
  obtain J where J: "\<And>f. f \<in> set (Fields s) \<Longrightarrow> avro_trip (FieldSchema f) (J f)" using assms(2) by metis
  let ?fs = "map (\<lambda>f. avro_field (FieldName f) (J f) '''') (Fields s)"
  have "parseAvroType (avro_nested_record (SchemaName s) ?fs) =
      Inr (NewRecordSchema '''' (map avro_norm_field (Fields s)) False)"
    using read_fields_trip [OF J, where wr = "\<lambda>_ x. x" and doc = "\<lambda>_. ''''"]
    by (simp add: avro_nested_record_def parseAvroType.simps(3) avro_logical_def Let_def)
  moreover have "wf_json (avro_nested_record (SchemaName s) ?fs)" "floats_ok (avro_nested_record (SchemaName s) ?fs)"
    using nested_fields_trip(2,3) [OF J, where doc = "\<lambda>_. ''''"] by (simp_all add: avro_nested_record_def avro_fields_def)
  moreover note nested_fields_trip(1) [OF J, where doc = "\<lambda>_. ''''"]
  ultimately show ?thesis
    by (intro avro_trip_base [of s "avro_nested_record (SchemaName s) ?fs"])
      (simp_all add: convertTypeToAvro.simps(2) assms(1) avro_norm.simps(2) avro_norm_field_def [abs_def]
        NewRecordSchema_def avro_nested_record_def)
qed

lemma avro_trip_list:
  assumes "DataType s = TypeList" and "ElementSchema s = Some f" and "avro_trip (FieldSchema f) j"
  shows "\<exists>j. avro_trip (Some s) j"
proof -
  have "parseAvroType (avro_array j) = Inr (list_schema (avro_norm (FieldSchema f)) False)"
    using assms(3) by (simp add: avro_array_def parseAvroType.simps(3) avro_logical_def avro_trip_def)
  with assms show ?thesis
    by (intro avro_trip_base [of s "avro_array j"])
      (simp_all add: convertTypeToAvro.simps(2) avro_norm.simps(2) avro_trip_def list_schema_def avro_array_def)
qed

lemma avro_trip_map:
  assumes "DataType s = TypeMap" and "ValueSchema s = Some f" and "avro_trip (FieldSchema f) j"
  shows "\<exists>j. avro_trip (Some s) j"
proof -
  have "parseAvroType (avro_map j) =
      Inr (map_schema (NewPrimitiveSchema TypeString False) (avro_norm (FieldSchema f)) False)"
    using assms(3) by (simp add: avro_map_def parseAvroType.simps(3) avro_logical_def avro_trip_def)
  with assms show ?thesis
    by (intro avro_trip_base [of s "avro_map j"])
      (simp_all add: convertTypeToAvro.simps(2) avro_norm.simps(2) avro_trip_def map_schema_def avro_map_def)
qed

lemma avro_trip_decimal:
  assumes "DataType s = TypeDecimal" and "\<bar>decimal_precision s\<bar> < 2 ^ 53" and "\<bar>decimal_scale s\<bar> < 2 ^ 53"
  shows "\<exists>j. avro_trip (Some s) j"
  using assms
  by (intro avro_trip_base [of s "avro_decimal (decimal_precision s) (decimal_scale s)"])
    (simp_all add: convertTypeToAvro.simps(2) avro_norm.simps(2) avro_decimal_def parseAvroType.simps(3)
      avro_logical_def NewDecimalSchema_def float_int_formatInt wf_num_formatInt)

lemma avro_scalar_trip:
  assumes "t \<notin> {TypeDecimal, TypeRecord, TypeList, TypeMap}"
  shows "parseAvroType (avro_scalar t) = Inr (NewPrimitiveSchema (avro_norm_type t) False)"
    and "wf_json (avro_scalar t)" "floats_ok (avro_scalar t)" "avro_scalar t \<noteq> JNull" "avro_scalar t \<noteq> JStr ''null''"
  using assms by (cases t; simp add: avro_primitive_def avro_logical_def parseAvroType.simps(3))+

lemma avro_trip_scalar:
  assumes "DataType s \<notin> {TypeDecimal, TypeRecord, TypeList, TypeMap}"
  shows "\<exists>j. avro_trip (Some s) j"
proof (rule avro_trip_base)
  show "convertTypeToAvro (Some s) = Inr (if IsNullable s
      then JArr [JStr ''null'', avro_scalar (DataType s)] else avro_scalar (DataType s))"
    using assms by (cases "DataType s") (simp_all add: convertTypeToAvro.simps(2))
  have "avro_norm (Some s) = NewPrimitiveSchema (avro_norm_type (DataType s)) (IsNullable s)"
    using assms by (cases "DataType s") (simp_all add: avro_norm.simps(2))
  then show "\<exists>t. parseAvroType (avro_scalar (DataType s)) = Inr t \<and> IsNullable t = False \<and>
      set_nullable (IsNullable s) t = avro_norm (Some s)"
    by (simp add: avro_scalar_trip [OF assms] NewPrimitiveSchema_def)
qed (rule avro_scalar_trip [OF assms])+

lemma avro_trip_exists: "avro_writable s \<Longrightarrow> \<exists>j. avro_trip s j"
proof (induction s rule: measure_induct_rule [of child_size])
  case (less c)
  show ?case
  proof (cases c)
    case None
    then show ?thesis by (simp add: avro_trip_def avro_primitive_def)
  next
    case (Some s)
    have sz: "child_size c = Suc (size s)" by (simp add: Some child_size_def)
    note w = less.prems [unfolded Some avro_writable.simps(2)]
    consider (rec) "DataType s = TypeRecord" | (lst) "DataType s = TypeList" | (mp) "DataType s = TypeMap"
      | (dec) "DataType s = TypeDecimal" | (prim) "DataType s \<notin> {TypeDecimal, TypeRecord, TypeList, TypeMap}"
      by blast
    then show ?thesis unfolding Some
    proof cases
      case rec
      with w less.IH child_size_field show "\<exists>j. avro_trip (Some s) j"
        by (intro avro_trip_record) (auto simp: list_all_iff sz)
    next
      case lst
      with w obtain f where f: "ElementSchema s = Some f" "avro_writable (FieldSchema f)" by (auto split: option.splits)
      with less.IH [of "FieldSchema f"] child_size_ptr [of s f] obtain j where "avro_trip (FieldSchema f) j"
        by (auto simp: sz)
      from avro_trip_list [OF lst f(1) this] show "\<exists>j. avro_trip (Some s) j" .
    next
      case mp
      with w obtain f where f: "ValueSchema s = Some f" "avro_writable (FieldSchema f)" by (auto split: option.splits)
      with less.IH [of "FieldSchema f"] child_size_ptr [of s f] obtain j where "avro_trip (FieldSchema f) j"
        by (auto simp: sz)
      from avro_trip_map [OF mp f(1) this] show "\<exists>j. avro_trip (Some s) j" .
    next
      case dec
      with w show "\<exists>j. avro_trip (Some s) j" by (intro avro_trip_decimal) auto
    next
      case prim
      then show "\<exists>j. avro_trip (Some s) j" by (rule avro_trip_scalar)
    qed
  qed
qed

lemma json_any_print: "wf_json j \<Longrightarrow> floats_ok j \<Longrightarrow> json_any (json_print j) = Some j"
  by (simp add: json_any_def json_unmarshal_print)

lemma avro_schema_trip:
  assumes "Fields s \<noteq> []" and "\<And>f. f \<in> set (Fields s) \<Longrightarrow> FieldSchema f \<noteq> None \<and> avro_writable (FieldSchema f)"
  shows "\<exists>j. SchemaToAvroJSON (Some s) name ns = Inr (json_print j) \<and> wf_json j \<and>
    AvroJSONToSchema (json_print j) =
      Inr (NewRecordSchema (if name = '''' then ''record'' else name) (map avro_norm_field (Fields s)) False)"
proof -
  have "\<forall>f \<in> set (Fields s). \<exists>j. avro_trip (FieldSchema f) j" using assms(2) avro_trip_exists by blast
  then obtain J where J: "\<And>f. f \<in> set (Fields s) \<Longrightarrow> avro_trip (FieldSchema f) (J f)" by metis
  let ?doc = "\<lambda>f. Comment (the (FieldSchema f))"
  let ?fs = "map (\<lambda>f. avro_field (FieldName f) (J f) (?doc f)) (Fields s)"
  let ?j = "JObj ([(''type'', JStr ''record''), (''name'', JStr (if name = '''' then ''record'' else name))] @
      (if ns = '''' then [] else [(''namespace'', JStr ns)]) @ [(''fields'', avro_fields ?fs)])"
  have "map_res root_avro_field (Fields s) = Inr ?fs"
    by (rule map_res_all_Inr) (use J assms(2) in \<open>auto simp: root_avro_field_def avro_trip_def split: option.splits\<close>)
  then have w: "SchemaToAvroJSON (Some s) name ns = Inr (json_print ?j)"
    by (simp add: SchemaToAvroJSON_def)
  have ok: "wf_json ?j" "floats_ok ?j"
    using nested_fields_trip(2,3) [OF J, where doc = ?doc] by (simp_all add: avro_fields_def)
  have a: "avro_fields ?fs = JArr ?fs" using assms(1) by (simp add: avro_fields_def)
  have "map_res (\<lambda>m. bind_res (wrap_res (''failed to parse avro field '' @ any_string (jget ''name'' m)) (parseAvroType (jget ''type'' m)))
      (\<lambda>fSchema. Inr (mkField (any_string (jget ''name'' m)) (Some fSchema)))) (object_elems (JArr ?fs)) =
      Inr (map avro_norm_field (Fields s))"
    unfolding a [symmetric] by (rule read_fields_trip) (simp_all only: J wrap_res.simps)
  with a have "AvroJSONToSchema (json_print ?j) =
      Inr (NewRecordSchema (if name = '''' then ''record'' else name) (map avro_norm_field (Fields s)) False)"
    unfolding AvroJSONToSchema_def json_any_print [OF ok] by simp
  with w ok show ?thesis by blast
qed

text \<open>
  C24. A record schema with columns and no nil children is always written as an Avro schema, under any
  name, and the text reads back as the same columns, in order and at every depth, with each type in
  the form Avro has for it.
\<close>

theorem hudi_schema_roundtrip:
  assumes "DataType s = TypeRecord" and "avro_writable (Some s)" and "Fields s \<noteq> []"
    and "list_all (\<lambda>f. FieldSchema f \<noteq> None) (Fields s)"
  shows "\<exists>txt. SchemaToAvroJSON (Some s) name ns = Inr txt \<and>
    AvroJSONToSchema txt =
      Inr (NewRecordSchema (if name = '''' then ''record'' else name) (Fields (avro_norm (Some s))) False)"
proof -
  have "Fields (avro_norm (Some s)) = map avro_norm_field (Fields s)"
    by (simp add: avro_norm.simps(2) assms(1) NewRecordSchema_def avro_norm_field_def [abs_def])
  moreover have "FieldSchema f \<noteq> None \<and> avro_writable (FieldSchema f)" if "f \<in> set (Fields s)" for f
    using that assms by (auto simp: avro_writable.simps(2) list_all_iff)
  ultimately show ?thesis using avro_schema_trip [of s name ns] assms(3) by metis
qed

definition sample_avro_schema :: schema where
  "sample_avro_schema =
     NewRecordSchema ''orders'' [mkField ''id'' (Some (NewPrimitiveSchema TypeUUID False)),
       mkField ''price'' (Some (NewDecimalSchema 12 2 True)),
       mkField ''at'' (Some (NewPrimitiveSchema TypeTimestampNTZ True)),
       mkField ''tags'' (Some (list_schema (NewPrimitiveSchema TypeEnum True) False))] False"

theorem hudi_schema_roundtrip_witness:
  "\<exists>txt. SchemaToAvroJSON (Some sample_avro_schema) ''orders'' ''hoodie.orders'' = Inr txt \<and>
    AvroJSONToSchema txt = Inr (NewRecordSchema ''orders'' (Fields (avro_norm (Some sample_avro_schema))) False)"
proof -
  have s: "DataType sample_avro_schema = TypeRecord" "avro_writable (Some sample_avro_schema)"
    "Fields sample_avro_schema \<noteq> []" "list_all (\<lambda>f. FieldSchema f \<noteq> None) (Fields sample_avro_schema)"
    by (simp_all add: sample_avro_schema_def NewRecordSchema_def NewPrimitiveSchema_def NewDecimalSchema_def
        list_schema_def avro_writable.simps(2) decimal_precision_def decimal_scale_def)
  from hudi_schema_roundtrip [OF s, of "''orders''" "''hoodie.orders''"] show ?thesis by simp
qed

end
