(* ===== verification/Hudi_Source.thy ===== *)
theory Hudi_Source
  imports Hudi_Timeline Hudi_Schema
begin

text \<open>
  \<^verbatim>\<open>pkg/formats/hudi/source.go\<close>: reading a Hudi table from its timeline. A Go map that is iterated is
  the list of its entries, in the list's order; where the order can show, the theorems are about
  sets.
\<close>

record hudi_source =
  hs_storage :: mem_storage
  hs_basePath :: string

definition hudi_NewSource :: "mem_storage \<Rightarrow> string \<Rightarrow> hudi_source" where
  "hudi_NewSource storage basePath = \<lparr>hs_storage = storage, hs_basePath = basePath\<rparr>"

definition hoodie_path :: "string \<Rightarrow> string \<Rightarrow> string" where
  "hoodie_path base name = JoinPath base [''.hoodie'', name]"

definition ReadProperties :: "hudi_source \<Rightarrow> table_properties res" where
  "ReadProperties s =
     (let propsPath = hoodie_path (hs_basePath s) ''hoodie.properties'' in
      bind_res (wrap_res (''failed to read hoodie.properties at '' @ propsPath) (mem_Read (hs_storage s) propsPath)) (\<lambda>data.
      bind_res (ParseProperties data) (\<lambda>props.
      case AssertReadableVersion props of
        Some e \<Rightarrow> Inl e
      | None \<Rightarrow> Inr props)))"

text \<open>The instant a listed file stands for, when its name is that of a completed commit.\<close>

definition completed_instant :: "string \<Rightarrow> instant_action option" where
  "completed_instant path =
     (let base = filepath_Base path; parts = splitChar (CHR ''.'') base in
      if hasPrefix base ''.'' then None
      else if (hasSuffix base ''.commit'' \<or> hasSuffix base ''.deltacommit'' \<or> hasSuffix base ''.replacecommit'') \<and>
        length parts \<ge> 2
      then Some \<lparr>ia_InstantTime = parts ! 0, ia_Action = parts ! 1, ia_State = ''completed'', ia_FileName = base\<rparr>
      else None)"

definition ListCompletedCommits :: "hudi_source \<Rightarrow> instant_action list" where
  "ListCompletedCommits s =
     sort_key ia_InstantTime (List.map_filter (\<lambda>f. completed_instant (InfoPath f))
       (mem_List (hs_storage s) (JoinPath (hs_basePath s) [''.hoodie''])))"

section \<open>The table\<close>

definition schema_of_text :: "string \<Rightarrow> schema option" where
  "schema_of_text txt = (case AvroJSONToSchema txt of Inl _ \<Rightarrow> None | Inr s \<Rightarrow> Some s)"

text \<open>The schema of the properties, else that of the schema directory, else an empty record.\<close>

definition resolve_schema :: "hudi_source \<Rightarrow> table_properties \<Rightarrow> string \<Rightarrow> string \<Rightarrow> schema" where
  "resolve_schema s props tableName commitID =
     (let schemaJSON = props_Get props PropTableSchema;
          fromProps = (if schemaJSON \<noteq> '''' then schema_of_text schemaJSON else None);
          schemaPath = JoinPath (hs_basePath s) [''.hoodie'', ''.schema'', commitID @ ''.avsc''];
          readSchema =
            (case fromProps of
               Some r \<Rightarrow> Some r
             | None \<Rightarrow> (case mem_Read (hs_storage s) schemaPath of Inl _ \<Rightarrow> None | Inr data \<Rightarrow> schema_of_text data))
      in case readSchema of None \<Rightarrow> NewRecordSchema tableName [] False | Some r \<Rightarrow> r)"

definition partition_fields_of :: "schema \<Rightarrow> string \<Rightarrow> partition_field list" where
  "partition_fields_of readSchema partStr =
     (if partStr = '''' then []
      else
        map (\<lambda>pfName. mkPartitionField
          (case FieldByPath (Some readSchema) pfName of
             Some f \<Rightarrow> f
           | None \<Rightarrow> mkField pfName (Some (NewPrimitiveSchema TypeString True))))
          (filter (\<lambda>pfName. pfName \<noteq> '''') (map trimSpace (splitChar (CHR '','') partStr))))"

definition hudi_GetTable :: "hudi_source \<Rightarrow> string \<Rightarrow> table res" where
  "hudi_GetTable s commitID =
     bind_res (ReadProperties s) (\<lambda>props.
     let tableName = (let n = props_Get props PropTableName in if n = '''' then filepath_Base (hs_basePath s) else n);
         readSchema = resolve_schema s props tableName commitID
     in Inr \<lparr>TableName = tableName, TableFormat = TableFormatHudi, ReadSchema = Some readSchema,
             LayoutStrategy = LayoutUnset, BasePath = hs_basePath s, DataPath = '''',
             PartitioningFields = partition_fields_of readSchema (props_Get props PropPartitionFields),
             LatestCommitTime = (case TimeFromInstant commitID of None \<Rightarrow> 0 | Some t \<Rightarrow> UnixMilli t),
             LatestMetadataPath = ''''\<rparr>)"

definition hudi_GetCurrentTable :: "hudi_source \<Rightarrow> table res" where
  "hudi_GetCurrentTable s =
     (let commits = ListCompletedCommits s in
      if commits = [] then Inl (ErrMsg (''no completed commits found in timeline for '' @ hs_basePath s))
      else hudi_GetTable s (ia_InstantTime (last commits)))"

section \<open>The snapshot\<close>

record active_file =
  af_file :: data_file
  af_partition :: string
  af_fileGroup :: string

type_synonym active_files = "(string, active_file) gomap"

definition applyReplacedFileGroups :: "active_files \<Rightarrow> (string, string list) gomap \<Rightarrow> active_files" where
  "applyReplacedFileGroups activeFiles partitionToReplaceFileIDs =
     foldl (\<lambda>active (partitionPath, fileIDs).
        if fileIDs = [] then active
        else filter (\<lambda>(_, af). \<not> (af_partition af = partitionPath \<and> af_fileGroup af \<in> set fileIDs)) active)
       activeFiles partitionToReplaceFileIDs"

definition active_of :: "string \<Rightarrow> table \<Rightarrow> int \<Rightarrow> string \<Rightarrow> hoodie_write_stat \<Rightarrow> active_file" where
  "active_of base tbl commitTimeMs partitionPath ws =
     \<lparr>af_file =
        \<lparr>PhysicalPath = JoinPath base [ws_Path ws], FileFormat = FileFormatParquet,
         FileSizeBytes = ws_FileSizeInBytes ws, RecordCount = ws_NumWrites ws,
         PartitionValues =
           map (\<lambda>pf. \<lparr>PVField = Some pf, PVRange = Some (NewScalarRange (AStr partitionPath))\<rparr>) (PartitioningFields tbl),
         ColumnStats = [], LastModified = commitTimeMs, DeletionVector = None\<rparr>,
      af_partition = partitionPath, af_fileGroup = FileGroupID ws\<rparr>"

definition apply_writes :: "string \<Rightarrow> table \<Rightarrow> int \<Rightarrow> (string, hoodie_write_stat list) gomap \<Rightarrow> active_files \<Rightarrow> active_files" where
  "apply_writes base tbl commitTimeMs stats activeFiles =
     foldl (\<lambda>active (partitionPath, writeStats).
        foldl (\<lambda>active ws. map_put (ws_Path ws) (active_of base tbl commitTimeMs partitionPath ws) active) active writeStats)
       activeFiles stats"

text \<open>What one commit of the timeline does to the active files; an unreadable commit is skipped.\<close>

definition commit_millis :: "string \<Rightarrow> int" where
  "commit_millis instant = UnixMilli (case TimeFromInstant instant of None \<Rightarrow> zero_time | Some t \<Rightarrow> t)"

definition commit_body :: "hudi_source \<Rightarrow> instant_action \<Rightarrow> hoodie_commit_metadata option" where
  "commit_body s c =
     (case mem_Read (hs_storage s) (hoodie_path (hs_basePath s) (ia_FileName c)) of
        Inl _ \<Rightarrow> None
      | Inr data \<Rightarrow> unmarshal_commit data)"

definition apply_commit :: "hudi_source \<Rightarrow> table \<Rightarrow> active_files \<Rightarrow> instant_action \<Rightarrow> active_files" where
  "apply_commit s tbl activeFiles c =
     (case commit_body s c of
        None \<Rightarrow> activeFiles
      | Some meta \<Rightarrow>
          apply_writes (hs_basePath s) tbl (commit_millis (ia_InstantTime c)) (cm_PartitionToWriteStats meta)
            (applyReplacedFileGroups activeFiles (cm_PartitionToReplaceFileIds meta)))"

definition hudi_GetCurrentSnapshot :: "hudi_source \<Rightarrow> snapshot res" where
  "hudi_GetCurrentSnapshot s =
     (let commits = ListCompletedCommits s in
      if commits = [] then Inl (ErrMsg (''no completed commits in '' @ hs_basePath s))
      else
        bind_res (hudi_GetTable s (ia_InstantTime (last commits))) (\<lambda>tbl.
        Inr \<lparr>SnapTable = tbl, PartitionedDataFiles = [],
             DataFiles = map (\<lambda>kv. af_file (snd kv)) (foldl (apply_commit s tbl) [] commits),
             SnapSourceIdentifier = ia_InstantTime (last commits)\<rparr>))"

section \<open>Changes\<close>

definition hudi_GetTableChangeForCommit :: "hudi_source \<Rightarrow> string \<Rightarrow> table_change res" where
  "hudi_GetTableChangeForCommit s commitID =
     bind_res (hudi_GetCurrentSnapshot s) (\<lambda>snap.
     Inr \<lparr>FilesDiff = \<lparr>FilesAdded = DataFiles snap, FilesRemoved = []\<rparr>, TableAsOfChange = SnapTable snap,
          ChangeSourceIdentifier = commitID, CommitTime = LatestCommitTime (SnapTable snap)\<rparr>)"

definition hudi_GetChangesSince :: "hudi_source \<Rightarrow> int \<Rightarrow> incremental_changes res" where
  "hudi_GetChangesSince s fromInstant =
     bind_res (hudi_GetCurrentSnapshot s) (\<lambda>snap.
     bind_res
       (if LatestCommitTime (SnapTable snap) > fromInstant
        then bind_res (hudi_GetTableChangeForCommit s (SnapSourceIdentifier snap)) (\<lambda>change. Inr [change])
        else Inr [])
       (\<lambda>changes. Inr \<lparr>TableChanges = changes, CurrentTable = SnapTable snap\<rparr>))"

definition hudi_IsIncrementalSyncSafeFrom :: "hudi_source \<Rightarrow> int \<Rightarrow> bool res" where
  "hudi_IsIncrementalSyncSafeFrom s earliestInstant =
     (case ListCompletedCommits s of
        [] \<Rightarrow> Inr False
      | c # _ \<Rightarrow>
          (case TimeFromInstant (ia_InstantTime c) of
             None \<Rightarrow> Inl (ErrMsg (''invalid hudi instant format: '' @ ia_InstantTime c))
           | Some t \<Rightarrow> Inr (UnixMilli t \<le> earliestInstant)))"

end
