(* ===== verification/Hudi_Target.thy ===== *)
theory Hudi_Target
  imports Hudi_Source Model_Sync_Metadata
begin

text \<open>
  \<^verbatim>\<open>pkg/formats/hudi/target.go\<close>: writing snapshots and changes into a Hudi timeline. The clock and
  the generator of UUIDs are arguments (\<open>hudi_env\<close>). A commit writes the commit file first and the
  properties after it, so an operation returns the target it leaves behind together with its error.
\<close>

record hudi_env =
  he_now :: "int \<times> int"
  he_uuid :: "nat \<Rightarrow> string"
  he_write_time :: int

record hudi_target =
  ht_storage :: mem_storage
  ht_targetTable :: "table option"

definition hiveDefaultPartition :: string where
  "hiveDefaultPartition = ''__HIVE_DEFAULT_PARTITION__''"

definition hudi_NewTarget :: "mem_storage \<Rightarrow> hudi_target" where
  "hudi_NewTarget storage = \<lparr>ht_storage = storage, ht_targetTable = None\<rparr>"

definition hudi_Init :: "hudi_target \<Rightarrow> table \<Rightarrow> hudi_target" where
  "hudi_Init t targetTable = t\<lparr>ht_targetTable := Some targetTable\<rparr>"

definition ht_source :: "hudi_target \<Rightarrow> table \<Rightarrow> hudi_source" where
  "ht_source t tbl = hudi_NewSource (ht_storage t) (BasePath tbl)"

section \<open>The watermark\<close>

definition as_hudi_metadata :: "table_properties \<Rightarrow> sync_metadata option" where
  "as_hudi_metadata props =
     map_option (\<lambda>m. m\<lparr>TargetFormat := TableFormatHudi, CustomProperties := props\<rparr>) (ReadSyncMetadataFromProperties props)"

text \<open>The metadata in the body of the latest commit, if there is any.\<close>

definition latest_commit_metadata :: "hudi_source \<Rightarrow> sync_metadata option" where
  "latest_commit_metadata src =
     (let commits = ListCompletedCommits src in
      if commits = [] then None
      else
        (case commit_body src (last commits) of
           None \<Rightarrow> None
         | Some meta \<Rightarrow> if cm_ExtraMetadata meta = [] then None else as_hudi_metadata (cm_ExtraMetadata meta)))"

definition hudi_GetTableMetadata :: "hudi_target \<Rightarrow> sync_metadata option res" where
  "hudi_GetTableMetadata t =
     (case ht_targetTable t of
        None \<Rightarrow> Inl nil_panic
      | Some tbl \<Rightarrow>
          (case latest_commit_metadata (ht_source t tbl) of
             Some m \<Rightarrow> Inr (Some m)
           | None \<Rightarrow>
               (case ReadProperties (ht_source t tbl) of
                  Inl e \<Rightarrow> if is_not_found e then Inr None else Inl e
                | Inr props \<Rightarrow> Inr (as_hudi_metadata props))))"

section \<open>Commits\<close>

definition partition_path :: "data_file \<Rightarrow> string" where
  "partition_path df =
     (case PartitionValues df of
        [] \<Rightarrow> ''''
      | pv # _ \<Rightarrow>
          (case PVRange pv of
             None \<Rightarrow> ''''
           | Some r \<Rightarrow> if MinValue r = ANil then hiveDefaultPartition else sprintv (MinValue r)))"

definition write_stat :: "string \<Rightarrow> string \<Rightarrow> data_file \<Rightarrow> hoodie_write_stat" where
  "write_stat uuid relPath df =
     \<lparr>ws_FileID = uuid, ws_Path = relPath, ws_PrevCommit = '''', ws_NumWrites = RecordCount df,
      ws_TotalWriteBytes = FileSizeBytes df, ws_FileSizeInBytes = FileSizeBytes df,
      ws_MinValues = [], ws_MaxValues = [], ws_NullCount = []\<rparr>"

text \<open>The loop over the files; \<open>i\<close> counts the UUIDs drawn.\<close>

fun partition_stats :: "(nat \<Rightarrow> string) \<Rightarrow> string \<Rightarrow> nat \<Rightarrow> data_file list \<Rightarrow> (string, hoodie_write_stat list) gomap \<Rightarrow>
    (string, hoodie_write_stat list) gomap res" where
  "partition_stats uuid base i [] stats = Inr stats"
| "partition_stats uuid base i (df # dfs) stats =
     bind_res (wrap_res (''failed to place data file under '' @ base) (RelativizePath (PhysicalPath df) base)) (\<lambda>relPath.
     partition_stats uuid base (Suc i) dfs
       (map_put (partition_path df)
         ((case map_of stats (partition_path df) of None \<Rightarrow> [] | Some wss \<Rightarrow> wss) @ [write_stat (uuid i) relPath df]) stats))"

definition part_field_names :: "table \<Rightarrow> string list res" where
  "part_field_names tbl =
     map_res (\<lambda>pf. case SourceField pf of None \<Rightarrow> Inl nil_panic | Some f \<Rightarrow> Inr (FieldName f)) (PartitioningFields tbl)"

definition hudi_sync_metadata :: "snapshot \<Rightarrow> sync_metadata" where
  "hudi_sync_metadata snap =
     \<lparr>LastInstantSynced = LatestCommitTime (SnapTable snap), InstantsToConsiderForNextSync = [],
      SourceFormat = TableFormat (SnapTable snap), TargetFormat = '''',
      SourceIdentifier = SnapSourceIdentifier snap, CustomProperties = []\<rparr>"

definition extra_meta :: "snapshot \<Rightarrow> table_properties" where
  "extra_meta snap = WriteSyncMetadataProperties [] (hudi_sync_metadata snap)"

definition commit_metadata_of :: "snapshot \<Rightarrow> (string, hoodie_write_stat list) gomap \<Rightarrow> hoodie_commit_metadata" where
  "commit_metadata_of snap stats =
     \<lparr>cm_PartitionToWriteStats = stats, cm_PartitionToReplaceFileIds = [], cm_ExtraMetadata = extra_meta snap,
      cm_OperationType = ''POLYTABLE_SYNC''\<rparr>"

definition updated_properties :: "snapshot \<Rightarrow> string list \<Rightarrow> string \<Rightarrow> table_properties \<Rightarrow> table_properties" where
  "updated_properties snap partFieldNames avroJSON props =
     (let p1 = map_put PropTableName (TableName (SnapTable snap)) props;
          p2 = map_put hudi_PropTableType ''COPY_ON_WRITE'' p1;
          p3 = map_put PropTableVersion ''6'' p2;
          p4 = map_put PropTimelineLayoutVersion TimelineLayoutVersionV1 p3;
          p5 = map_put PropPopulateMetaFields ''false'' p4;
          p6 = map_put PropBaseFileFormat ''PARQUET'' p5;
          p7 = (if length partFieldNames > 0 then map_put PropPartitionFields (joinWith '','' partFieldNames) p6 else p6);
          p8 = map_put PropTableSchema avroJSON p7
      in foldl (\<lambda>p kv. map_put (fst kv) (snd kv) p) p8 (extra_meta snap))"

definition timeline_file :: "string \<Rightarrow> int \<times> int \<Rightarrow> string" where
  "timeline_file base now = hoodie_path base (InstantFromTime now @ ''.commit'')"

definition avro_text :: "snapshot \<Rightarrow> string res" where
  "avro_text snap =
     wrap_res ''failed to convert schema to avro JSON''
       (SchemaToAvroJSON (ReadSchema (SnapTable snap)) (TableName (SnapTable snap)) (''hoodie.'' @ TableName (SnapTable snap)))"

text \<open>The part of a commit that can fail before anything is written.\<close>

definition prepare_commit :: "hudi_env \<Rightarrow> table \<Rightarrow> snapshot \<Rightarrow>
    (string \<times> string list \<times> (string, hoodie_write_stat list) gomap) res" where
  "prepare_commit env tbl snap =
     bind_res (avro_text snap) (\<lambda>avroJSON.
     bind_res (part_field_names (SnapTable snap)) (\<lambda>partFieldNames.
     bind_res (partition_stats (he_uuid env) (BasePath tbl) 0 (AllDataFiles snap) []) (\<lambda>partitionStats.
     Inr (avroJSON, partFieldNames, partitionStats))))"

definition hudi_CommitSnapshot :: "hudi_env \<Rightarrow> hudi_target \<Rightarrow> snapshot \<Rightarrow> hudi_target \<times> gerr option" where
  "hudi_CommitSnapshot env t snap =
     (case ht_targetTable t of
        None \<Rightarrow> (t, Some (case avro_text snap of Inl e \<Rightarrow> e | Inr _ \<Rightarrow> nil_panic))
      | Some tbl \<Rightarrow>
          (case prepare_commit env tbl snap of
             Inl e \<Rightarrow> (t, Some e)
           | Inr (avroJSON, partFieldNames, partitionStats) \<Rightarrow>
               (let st = mem_Write (ht_storage t) (timeline_file (BasePath tbl) (he_now env))
                      (marshal_commit (commit_metadata_of snap partitionStats)) (he_write_time env);
                    t1 = t\<lparr>ht_storage := st\<rparr>
                in case ReadProperties (ht_source t1 tbl) of
                     Inl e \<Rightarrow>
                       if is_not_found e
                       then (t1\<lparr>ht_storage := mem_Write st (hoodie_path (BasePath tbl) ''hoodie.properties'')
                               (Serialize (updated_properties snap partFieldNames avroJSON [])) (he_write_time env)\<rparr>, None)
                       else (t1, Some (ErrWrap ''refusing to overwrite unreadable hoodie.properties'' e))
                   | Inr props \<Rightarrow>
                       (t1\<lparr>ht_storage := mem_Write st (hoodie_path (BasePath tbl) ''hoodie.properties'')
                          (Serialize (updated_properties snap partFieldNames avroJSON props)) (he_write_time env)\<rparr>, None))))"

definition change_snapshot :: "table_change \<Rightarrow> snapshot" where
  "change_snapshot change =
     \<lparr>SnapTable = TableAsOfChange change, PartitionedDataFiles = [], DataFiles = FilesAdded (FilesDiff change),
      SnapSourceIdentifier = ChangeSourceIdentifier change\<rparr>"

fun hudi_commit_changes :: "(nat \<Rightarrow> hudi_env) \<Rightarrow> nat \<Rightarrow> hudi_target \<Rightarrow> table_change list \<Rightarrow> hudi_target \<times> gerr option" where
  "hudi_commit_changes env i t [] = (t, None)"
| "hudi_commit_changes env i t (change # changes) =
     (case hudi_CommitSnapshot (env i) t (change_snapshot change) of
        (t', Some e) \<Rightarrow> (t', Some e)
      | (t', None) \<Rightarrow> hudi_commit_changes env (Suc i) t' changes)"

definition hudi_CommitChanges :: "(nat \<Rightarrow> hudi_env) \<Rightarrow> hudi_target \<Rightarrow> incremental_changes \<Rightarrow> hudi_target \<times> gerr option" where
  "hudi_CommitChanges env t changes = hudi_commit_changes env 0 t (TableChanges changes)"

end
