(* ===== verification/Hudi_Log.thy ===== *)
theory Hudi_Log
  imports Hudi_Target
begin

text \<open>
  The meaning of a Hudi timeline, independent of the code: the files in force after a list of
  commits, as a map from paths to the write that put them there. The snapshot the source returns is
  shown to be exactly that, and the commits of the target are shown to extend it.
\<close>

section \<open>The files in force\<close>

type_synonym active_entry = "string \<times> hoodie_write_stat \<times> int"

definition entry_writes :: "int \<times> hoodie_commit_metadata \<Rightarrow> (string \<times> active_entry) list" where
  "entry_writes c =
     concat (map (\<lambda>(part, wss). map (\<lambda>ws. (ws_Path ws, part, ws, fst c)) wss) (cm_PartitionToWriteStats (snd c)))"

definition replaced :: "hoodie_commit_metadata \<Rightarrow> active_entry \<Rightarrow> bool" where
  "replaced meta e \<longleftrightarrow>
     list_ex (\<lambda>(part, ids). fst e = part \<and> FileGroupID (fst (snd e)) \<in> set ids) (cm_PartitionToReplaceFileIds meta)"

text \<open>A commit first drops the file groups it replaces, then puts its own files in force.\<close>

definition timeline_step :: "(string \<rightharpoonup> active_entry) \<Rightarrow> int \<times> hoodie_commit_metadata \<Rightarrow> (string \<rightharpoonup> active_entry)" where
  "timeline_step A c =
     (\<lambda>p. case A p of None \<Rightarrow> None | Some e \<Rightarrow> if replaced (snd c) e then None else Some e) ++ map_of (rev (entry_writes c))"

definition timeline_bodies :: "hudi_source \<Rightarrow> (int \<times> hoodie_commit_metadata) list" where
  "timeline_bodies s =
     List.map_filter (\<lambda>c. map_option (Pair (commit_millis (ia_InstantTime c))) (commit_body s c)) (ListCompletedCommits s)"

definition timeline_active :: "hudi_source \<Rightarrow> (string \<rightharpoonup> active_entry)" where
  "timeline_active s = foldl timeline_step Map.empty (timeline_bodies s)"

definition active_entry_file :: "string \<Rightarrow> table \<Rightarrow> active_entry \<Rightarrow> active_file" where
  "active_entry_file base tbl e = active_of base tbl (snd (snd e)) (fst e) (fst (snd e))"

section \<open>The snapshot is the replay\<close>

lemma map_of_filter_wf:
  "wf_map m \<Longrightarrow> map_of (filter P m) k = (case map_of m k of None \<Rightarrow> None | Some v \<Rightarrow> if P (k, v) then Some v else None)"
  by (induction m) (auto simp: wf_map_def map_of_eq_None_iff split: option.splits dest: map_of_SomeD)

lemma wf_map_filter [simp]: "wf_map m \<Longrightarrow> wf_map (filter P m)"
  by (simp add: wf_map_def distinct_map_filter)

lemma map_of_foldl_put:
  "map_of (foldl (\<lambda>m kv. map_put (fst kv) (snd kv) m) m kvs) = map_of m ++ map_of (rev kvs)"
  by (induction kvs arbitrary: m) (auto simp: fun_eq_iff map_add_def split: option.splits)

lemma wf_map_foldl_put:
  "wf_map m \<Longrightarrow> wf_map (foldl (\<lambda>m kv. map_put (fst kv) (snd kv) m) m kvs)"
  by (induction kvs arbitrary: m) auto

lemma applyReplaced_filter:
  "applyReplacedFileGroups m R =
     filter (\<lambda>kv. \<not> list_ex (\<lambda>(part, ids). af_partition (snd kv) = part \<and> af_fileGroup (snd kv) \<in> set ids) R) m"
proof -
  let ?f = "\<lambda>active (partitionPath, fileIDs).
        if fileIDs = [] then active
        else filter (\<lambda>(_, af). \<not> (af_partition af = partitionPath \<and> af_fileGroup af \<in> set fileIDs)) active"
  have "foldl ?f m R = filter (\<lambda>kv. \<not> list_ex (\<lambda>(part, ids). af_partition (snd kv) = part \<and> af_fileGroup (snd kv) \<in> set ids) R) m"
  proof (induction R arbitrary: m)
    case (Cons r R)
    obtain part ids where r: "r = (part, ids)" by fastforce
    show ?case by (cases "ids = []") (simp_all add: r Cons.IH, simp add: split_def)
  qed simp
  then show ?thesis by (simp add: applyReplacedFileGroups_def)
qed

lemma apply_writes_put:
  "apply_writes base tbl ms (cm_PartitionToWriteStats meta) m =
     foldl (\<lambda>m kv. map_put (fst kv) (snd kv) m) m
       (map (\<lambda>kv. (fst kv, active_entry_file base tbl (snd kv))) (entry_writes (ms, meta)))"
proof -
  have "foldl (\<lambda>active ws. map_put (ws_Path ws) (active_of base tbl ms p ws) active) m wss =
      foldl (\<lambda>m kv. map_put (fst kv) (snd kv) m) m
        (map (\<lambda>kv. (fst kv, active_entry_file base tbl (snd kv))) (map (\<lambda>ws. (ws_Path ws, p, ws, ms)) wss))" for p wss m
    by (induction wss arbitrary: m) (simp_all add: active_entry_file_def)
  then have "foldl (\<lambda>active (p, wss). foldl (\<lambda>active ws. map_put (ws_Path ws) (active_of base tbl ms p ws) active) active wss) m stats =
      foldl (\<lambda>m kv. map_put (fst kv) (snd kv) m) m (map (\<lambda>kv. (fst kv, active_entry_file base tbl (snd kv)))
        (concat (map (\<lambda>(part, wss). map (\<lambda>ws. (ws_Path ws, part, ws, ms)) wss) stats)))" for stats
    by (induction stats arbitrary: m) auto
  then show ?thesis by (simp add: apply_writes_def entry_writes_def)
qed

definition rep_active :: "string \<Rightarrow> table \<Rightarrow> active_files \<Rightarrow> (string \<rightharpoonup> active_entry) \<Rightarrow> bool" where
  "rep_active base tbl m A \<longleftrightarrow> wf_map m \<and> map_of m = (\<lambda>p. map_option (active_entry_file base tbl) (A p))"

lemma map_of_rev_map:
  "map_of (rev (map (\<lambda>kv. (fst kv, g (snd kv))) kvs)) = (\<lambda>p. map_option g (map_of (rev kvs) p))"
  unfolding rev_map by (induction "rev kvs" arbitrary: kvs) (auto simp: map_of_map [unfolded split_def])

lemma rep_active_step:
  assumes "rep_active (hs_basePath s) tbl m A"
  shows "rep_active (hs_basePath s) tbl (apply_commit s tbl m c)
    (case commit_body s c of None \<Rightarrow> A | Some meta \<Rightarrow> timeline_step A (commit_millis (ia_InstantTime c), meta))"
proof (cases "commit_body s c")
  case None
  with assms show ?thesis by (simp add: apply_commit_def)
next
  case (Some meta)
  have wf: "wf_map m" and m: "map_of m = (\<lambda>p. map_option (active_entry_file (hs_basePath s) tbl) (A p))"
    using assms by (simp_all add: rep_active_def)
  let ?m = "applyReplacedFileGroups m (cm_PartitionToReplaceFileIds meta)"
  have "map_of ?m p = map_option (active_entry_file (hs_basePath s) tbl)
      (case A p of None \<Rightarrow> None | Some e \<Rightarrow> if replaced meta e then None else Some e)" for p
    by (simp add: applyReplaced_filter map_of_filter_wf [OF wf] m replaced_def active_entry_file_def active_of_def
        split: option.splits)
  then show ?thesis
    using wf by (auto simp: rep_active_def apply_commit_def Some apply_writes_put map_of_foldl_put wf_map_foldl_put
        map_of_rev_map timeline_step_def applyReplaced_filter fun_eq_iff map_add_def split: option.splits)
qed

lemma rep_active_fold:
  "rep_active (hs_basePath s) tbl m A \<Longrightarrow>
    rep_active (hs_basePath s) tbl (foldl (apply_commit s tbl) m cs)
      (foldl timeline_step A (List.map_filter (\<lambda>c. map_option (Pair (commit_millis (ia_InstantTime c))) (commit_body s c)) cs))"
proof (induction cs arbitrary: m A)
  case (Cons c cs)
  from Cons.IH [OF rep_active_step [OF Cons.prems, of c]] show ?case
    by (cases "commit_body s c") (simp_all add: map_filter_simps)
qed (simp add: map_filter_simps)

lemma rep_active_files:
  assumes "rep_active base tbl m A"
  shows "set (map (\<lambda>kv. af_file (snd kv)) m) = (\<lambda>e. af_file (active_entry_file base tbl e)) ` ran A"
    and "fst ` set m = dom A" and "length m = card (dom A)"
proof -
  have wf: "wf_map m" and m: "map_of m = (\<lambda>p. map_option (active_entry_file base tbl) (A p))"
    using assms by (simp_all add: rep_active_def)
  have d: "dom (map_of m) = dom A" by (auto simp: m dom_def)
  have "ran (map_of m) = snd ` set m" using wf by (simp add: wf_map_def ran_distinct)
  moreover have "ran (map_of m) = active_entry_file base tbl ` ran A" by (auto simp: m ran_def)
  ultimately have "snd ` set m = active_entry_file base tbl ` ran A" by simp
  then show "set (map (\<lambda>kv. af_file (snd kv)) m) = (\<lambda>e. af_file (active_entry_file base tbl e)) ` ran A"
    by (metis image_image list.set_map)
  show dm: "fst ` set m = dom A" using d by (simp add: dom_map_of_conv_image_fst)
  have "card (fst ` set m) = length m"
    using wf distinct_card [of "map fst m"] by (simp add: wf_map_def)
  with dm show "length m = card (dom A)" by simp
qed

lemma hudi_snapshot_parts:
  assumes "hudi_GetCurrentSnapshot s = Inr snap"
  shows "rep_active (hs_basePath s) (SnapTable snap) (foldl (apply_commit s (SnapTable snap)) [] (ListCompletedCommits s))
      (timeline_active s)"
    and "DataFiles snap = map (\<lambda>kv. af_file (snd kv)) (foldl (apply_commit s (SnapTable snap)) [] (ListCompletedCommits s))"
    and "SnapSourceIdentifier snap = ia_InstantTime (last (ListCompletedCommits s))"
    and "hudi_GetTable s (ia_InstantTime (last (ListCompletedCommits s))) = Inr (SnapTable snap)"
proof -
  show "rep_active (hs_basePath s) (SnapTable snap) (foldl (apply_commit s (SnapTable snap)) [] (ListCompletedCommits s))
      (timeline_active s)"
    unfolding timeline_active_def timeline_bodies_def by (rule rep_active_fold) (simp add: rep_active_def)
qed (use assms in \<open>auto simp: hudi_GetCurrentSnapshot_def Let_def split: if_splits\<close>)

text \<open>
  C9. The snapshot of a Hudi table is the replay of its timeline: its files are, each once, the files
  in force after the completed commits in order, where a commit drops the file groups it replaces
  before it adds what it wrote, so a group that is replaced and rewritten stays.
\<close>

theorem hudi_snapshot_is_replay:
  assumes "hudi_GetCurrentSnapshot s = Inr snap"
  shows "set (DataFiles snap) = (\<lambda>e. af_file (active_entry_file (hs_basePath s) (SnapTable snap) e)) ` ran (timeline_active s) \<and>
    length (DataFiles snap) = card (dom (timeline_active s))"
  using hudi_snapshot_parts(2) [OF assms] rep_active_files [OF hudi_snapshot_parts(1) [OF assms]] by simp

end
