(* ===== verification/Hudi_Commit.thy ===== *)
theory Hudi_Commit
  imports Hudi_Log
begin

text \<open>
  What a commit of the Hudi target does to the timeline: the new instant is listed last, the commits
  before it read as they did, and the files in force are extended by the snapshot's files. From that
  follow the read-back of a snapshot, the watermark, and that nothing is ever taken out of force.
\<close>

section \<open>Listings\<close>

lemma insort_split: "\<exists>xs ys. zs = xs @ ys \<and> insort z zs = xs @ z # ys"
proof (induction zs)
  case (Cons a zs)
  then obtain xs ys where "zs = xs @ ys" "insort z zs = xs @ z # ys" by blast
  then show ?case
    by (cases "z \<le> a") (auto intro: exI [of _ "[]"] exI [of _ "a # xs"])
qed simp

lemma listing_insert:
  assumes "mem_invar s" "hasPrefix p pre" "mem_Read s p = Inl e"
  shows "\<exists>xs ys. map InfoPath (mem_List s pre) = xs @ ys \<and>
    map InfoPath (mem_List (mem_Write s p d t) pre) = xs @ p # ys"
proof -
  have l: "sorted_list_of_set (InfoPath ` set (mem_List s' pre)) = map InfoPath (mem_List s' pre)" if "mem_invar s'" for s'
    using mem_List_sorted [OF that, of pre] sorted_list_of_set.idem_if_sorted_distinct [of "map InfoPath (mem_List s' pre)"]
    by (simp add: strict_sorted_iff)
  have n: "p \<notin> InfoPath ` set (mem_List s pre)" using mem_List_paths [of p s pre] assms(3) by simp
  have "map InfoPath (mem_List (mem_Write s p d t) pre) = insort p (map InfoPath (mem_List s pre))"
    using l [OF assms(1)] l [OF mem_invar_ops(2) [OF assms(1)], of p d t] mem.list_write [of s p d t pre] assms(2) n
    by (simp add: sorted_list_of_set_insert_remove)
  with insort_split [of "map InfoPath (mem_List s pre)" p] show ?thesis by metis
qed

lemma listing_same:
  assumes "mem_invar s" "mem_Read s p = Inr d'"
  shows "map InfoPath (mem_List (mem_Write s p d t) pre) = map InfoPath (mem_List s pre)"
proof (rule mem.list_determined)
  show "InfoPath ` set (mem_List (mem_Write s p d t) pre) = InfoPath ` set (mem_List s pre)"
    using mem.list_write [of s p d t pre] mem_List_paths [of p s pre] assms(2) by auto
qed (use assms in simp_all)

lemma sort_key_insert_greatest:
  assumes "\<And>y. y \<in> set xs \<union> set ys \<Longrightarrow> f y < f x"
  shows "sort_key f (xs @ x # ys) = sort_key f (xs @ ys) @ [x]"
proof (rule properties_for_sort_key)
  show "filter (\<lambda>y. f k = f y) (sort_key f (xs @ ys) @ [x]) = filter (\<lambda>y. f k = f y) (xs @ x # ys)"
    if "k \<in> set (sort_key f (xs @ ys) @ [x])" for k
  proof (cases "k = x")
    case True
    have "filter (\<lambda>y. f x = f y) zs = []" if "set zs \<subseteq> set xs \<union> set ys" for zs
      using that assms by (force simp: filter_empty_conv)
    from this [of xs] this [of ys] this [of "sort_key f (xs @ ys)"] show ?thesis by (simp add: True)
  next
    case False
    with that assms have "f k < f x" by auto
    moreover have "filter (\<lambda>y. f k = f y) (sort_key f (xs @ ys)) = filter (\<lambda>y. f k = f y) (xs @ ys)"
      using sort_key_stable [of f "f k" "xs @ ys"] by (simp add: eq_commute)
    ultimately show ?thesis by auto
  qed
  show "sorted (map f (sort_key f (xs @ ys) @ [x]))"
    using assms by (force simp: sorted_append less_imp_le)
qed simp

section \<open>Names of the timeline\<close>

definition hoodie_dir :: "string \<Rightarrow> string" where
  "hoodie_dir base = JoinPath base [''.hoodie'']"

lemma hoodie_path_eq: "table_base base \<Longrightarrow> proper_seg name \<Longrightarrow> hoodie_path base name = hoodie_dir base @ ''/'' @ name"
  unfolding hoodie_path_def hoodie_dir_def by (rule JoinPath_dir_file) (simp_all add: proper_seg_def)

lemma pad2_digits: "0 \<le> n \<Longrightarrow> n < k \<Longrightarrow> k \<le> 100 \<Longrightarrow> list_all is_digit (pad2 n)"
  by (simp add: pad2_def less_mult_imp_div_less nat_less_iff)

lemma year_text_chars: "c \<in> set (year_text y) \<Longrightarrow> is_digit c \<or> c = CHR ''-''"
proof (cases "0 \<le> y \<and> y < 10000")
  case True
  then show "c \<in> set (year_text y) \<Longrightarrow> ?thesis"
    using pad2_digits [of "y div 100" 100] pad2_digits [of "y mod 100" 100]
    by (auto simp: year_text_def list_all_iff)
next
  case False
  then show "c \<in> set (year_text y) \<Longrightarrow> ?thesis"
    using padZero_digits [OF nat_dec_digits [of "nat (- y)"], of 4] nat_dec_digits [of "nat y"]
    by (auto simp: year_text_def list_all_iff split: if_splits)
qed

lemma InstantFromTime_chars: "c \<in> set (InstantFromTime now) \<Longrightarrow> is_digit c \<or> c = CHR ''-''"
proof -
  obtain sec nsec where n: "now = (sec, nsec)" by fastforce
  obtain y m d where c: "civil_from_days (sec div 86400) = (y, m, d)" by (metis prod_cases3)
  note v = civil_valid [OF c] and cl = clock_parts [of sec]
  have "d < 100" using v by (auto simp: daysIn_def split: if_splits)
  with v have "list_all is_digit (pad2 m)" "list_all is_digit (pad2 d)"
    by (auto intro: pad2_digits [where k = 100])
  moreover have "list_all is_digit (pad2 (sec mod 86400 div 3600))" by (rule pad2_digits [OF cl(1,2)]) simp
  moreover have "list_all is_digit (pad2 (sec mod 86400 div 60 mod 60))" by (rule pad2_digits [OF cl(3,4)]) simp
  moreover have "list_all is_digit (pad2 (sec mod 86400 mod 60))" by (rule pad2_digits [OF cl(5,6)]) simp
  moreover have "is_digit (CHR ''0'')" by (simp add: is_digit_def)
  ultimately show "c \<in> set (InstantFromTime now) \<Longrightarrow> ?thesis"
    unfolding n InstantFromTime_parts [OF c] list_all_iff using year_text_chars [of c y] by auto
qed

lemma InstantFromTime_nonempty [simp]: "InstantFromTime now \<noteq> ''''"
  by (cases now) (simp add: InstantFromTime_def Let_def split: prod.splits)

lemma instant_name:
  defines "n now \<equiv> InstantFromTime now @ ''.commit''"
  shows "proper_seg (n now)" and "\<not> hasPrefix (n now) ''.''"
    and "splitChar (CHR ''.'') (n now) = [InstantFromTime now, ''commit'']"
proof -
  have dot: "CHR ''.'' \<notin> set (InstantFromTime now)" and sl: "CHR ''/'' \<notin> set (InstantFromTime now)"
    using InstantFromTime_chars [of "CHR ''.''" now] InstantFromTime_chars [of "CHR ''/''" now] by (auto simp: is_digit_def)
  then show "proper_seg (n now)" by (auto simp: n_def proper_seg_def append_eq_Cons_conv)
  show "\<not> hasPrefix (n now) ''.''" using dot by (cases "InstantFromTime now") (auto simp: n_def hasPrefix_def)
  show "splitChar (CHR ''.'') (n now) = [InstantFromTime now, ''commit'']"
    using splitChar_append_sep [OF dot, of "''commit''"] by (simp add: n_def)
qed

definition new_instant :: "int \<times> int \<Rightarrow> instant_action" where
  "new_instant now =
     \<lparr>ia_InstantTime = InstantFromTime now, ia_Action = ''commit'', ia_State = ''completed'',
      ia_FileName = InstantFromTime now @ ''.commit''\<rparr>"

lemma timeline_file_eq:
  "table_base base \<Longrightarrow> timeline_file base now = hoodie_dir base @ ''/'' @ InstantFromTime now @ ''.commit''"
  unfolding timeline_file_def by (rule hoodie_path_eq [OF _ instant_name(1)])

lemma completed_instant_file:
  assumes "table_base base"
  shows "completed_instant (timeline_file base now) = Some (new_instant now)"
proof -
  let ?n = "InstantFromTime now @ ''.commit''"
  have "filepath_Base (timeline_file base now) = ?n"
    unfolding timeline_file_eq [OF assms]
    by (rule filepath_Base_append) (use instant_name(1) [of now] in \<open>auto simp: proper_seg_def\<close>)
  then show ?thesis
    using instant_name(2,3) [of now] hasSuffix_append [of "InstantFromTime now" "''.commit''"]
    by (simp add: completed_instant_def Let_def new_instant_def)
qed

lemma completed_instant_Some:
  assumes "completed_instant p = Some c"
  shows "proper_seg (ia_FileName c)" and "ia_InstantTime c = hd (splitChar (CHR ''.'') (ia_FileName c))"
    and "ia_FileName c \<noteq> ''hoodie.properties''"
proof -
  from assms have f: "ia_FileName c = filepath_Base p" "ia_InstantTime c = splitChar (CHR ''.'') (filepath_Base p) ! 0"
    and s: "hasSuffix (filepath_Base p) ''.commit'' \<or> hasSuffix (filepath_Base p) ''.deltacommit'' \<or>
      hasSuffix (filepath_Base p) ''.replacecommit''"
    by (auto simp: completed_instant_def Let_def split: if_splits)
  show "ia_InstantTime c = hd (splitChar (CHR ''.'') (ia_FileName c))" by (simp add: f hd_conv_nth)
  show "ia_FileName c \<noteq> ''hoodie.properties''" using s unfolding f by (rule_tac notI) (simp add: hasSuffix_def)
  have l: "6 < length (filepath_Base p)" using s by (auto simp: hasSuffix_iff)
  then have "CHR ''/'' \<notin> set (filepath_Base p)"
    using splitChar_elems_no_sep [OF last_in_set [OF splitChar_nonempty]]
    by (auto simp: filepath_Base_def Let_def split: if_splits)
  with l show "proper_seg (ia_FileName c)" by (auto simp: f proper_seg_def)
qed

section \<open>The timeline after a write\<close>

definition hudi_ok :: "hudi_source \<Rightarrow> bool" where
  "hudi_ok s \<longleftrightarrow> mem_invar (hs_storage s) \<and> table_base (hs_basePath s)"

abbreviation hs_write :: "hudi_source \<Rightarrow> string \<Rightarrow> string \<Rightarrow> int \<Rightarrow> hudi_source" where
  "hs_write s p d wt \<equiv> s\<lparr>hs_storage := mem_Write (hs_storage s) p d wt\<rparr>"

lemma hudi_ok_write [simp]: "hudi_ok s \<Longrightarrow> hudi_ok (hs_write s p d wt)"
  by (simp add: hudi_ok_def)

lemma map_filter_map: "List.map_filter g (map h xs) = List.map_filter (\<lambda>x. g (h x)) xs"
  by (induction xs) (simp_all add: map_filter_simps split: option.splits)

lemma commits_of_listing:
  "ListCompletedCommits s =
     sort_key ia_InstantTime (List.map_filter completed_instant (map InfoPath (mem_List (hs_storage s) (hoodie_dir (hs_basePath s)))))"
  by (simp add: map_filter_map ListCompletedCommits_def hoodie_dir_def)

lemma map_filter_append: "List.map_filter g (xs @ ys) = List.map_filter g xs @ List.map_filter g ys"
  by (simp add: List.map_filter_def)

lemma set_map_filter: "set (List.map_filter g xs) = {y. \<exists>x \<in> set xs. g x = Some y}"
  by (force simp: List.map_filter_def)

lemma listed_commit:
  "c \<in> set (ListCompletedCommits s) \<longleftrightarrow>
    (\<exists>p d. mem_Read (hs_storage s) p = Inr d \<and> hasPrefix p (hoodie_dir (hs_basePath s)) \<and> completed_instant p = Some c)"
proof -
  have "c \<in> set (ListCompletedCommits s) \<longleftrightarrow>
      (\<exists>p \<in> InfoPath ` set (mem_List (hs_storage s) (hoodie_dir (hs_basePath s))). completed_instant p = Some c)"
    by (auto simp: commits_of_listing set_map_filter)
  then show ?thesis by (simp only: mem_List_paths Bex_def) blast
qed

definition older_commits :: "hudi_source \<Rightarrow> int \<times> int \<Rightarrow> bool" where
  "older_commits s now \<longleftrightarrow> list_all (\<lambda>c. ia_InstantTime c < InstantFromTime now) (ListCompletedCommits s)"

lemma timeline_file_absent:
  assumes "hudi_ok s" "older_commits s now"
  shows "\<exists>e. mem_Read (hs_storage s) (timeline_file (hs_basePath s) now) = Inl e"
proof (rule ccontr)
  assume "\<not> ?thesis"
  then obtain d where d: "mem_Read (hs_storage s) (timeline_file (hs_basePath s) now) = Inr d"
    by (cases "mem_Read (hs_storage s) (timeline_file (hs_basePath s) now)") auto
  have b: "table_base (hs_basePath s)" using assms(1) by (simp add: hudi_ok_def)
  have "hasPrefix (timeline_file (hs_basePath s) now) (hoodie_dir (hs_basePath s))"
    unfolding timeline_file_eq [OF b] by (rule hasPrefix_append)
  with d completed_instant_file [OF b, of now] have "new_instant now \<in> set (ListCompletedCommits s)"
    unfolding listed_commit by blast
  with assms(2) show False by (auto simp: older_commits_def list_all_iff new_instant_def)
qed

lemma commits_write_new:
  assumes "hudi_ok s" "older_commits s now"
  shows "ListCompletedCommits (hs_write s (timeline_file (hs_basePath s) now) d wt) = ListCompletedCommits s @ [new_instant now]"
proof -
  let ?p = "timeline_file (hs_basePath s) now"
  have b: "table_base (hs_basePath s)" "mem_invar (hs_storage s)" using assms(1) by (simp_all add: hudi_ok_def)
  have "hasPrefix ?p (hoodie_dir (hs_basePath s))" unfolding timeline_file_eq [OF b(1)] by (rule hasPrefix_append)
  moreover obtain e where "mem_Read (hs_storage s) ?p = Inl e" using timeline_file_absent [OF assms] by blast
  ultimately obtain xs ys where
      old: "map InfoPath (mem_List (hs_storage s) (hoodie_dir (hs_basePath s))) = xs @ ys" and
      new: "map InfoPath (mem_List (mem_Write (hs_storage s) ?p d wt) (hoodie_dir (hs_basePath s))) = xs @ ?p # ys"
    using listing_insert [OF b(2)] by metis
  let ?xs = "List.map_filter completed_instant xs" and ?ys = "List.map_filter completed_instant ys"
  have "ListCompletedCommits s = sort_key ia_InstantTime (?xs @ ?ys)" by (simp add: commits_of_listing old map_filter_append)
  moreover have "ListCompletedCommits (hs_write s ?p d wt) = sort_key ia_InstantTime (?xs @ new_instant now # ?ys)"
    by (simp add: commits_of_listing new map_filter_append map_filter_simps completed_instant_file [OF b(1)])
  moreover have "ia_InstantTime c < ia_InstantTime (new_instant now)" if "c \<in> set ?xs \<union> set ?ys" for c
    using that assms(2) by (simp add: older_commits_def list_all_iff \<open>ListCompletedCommits s = _\<close> new_instant_def)
  ultimately show ?thesis using sort_key_insert_greatest [of ?xs ?ys ia_InstantTime "new_instant now"] by simp
qed

lemma commits_write_other:
  assumes "hudi_ok s" "completed_instant p = None"
  shows "ListCompletedCommits (hs_write s p d wt) = ListCompletedCommits s"
proof -
  let ?dir = "hoodie_dir (hs_basePath s)"
  have inv: "mem_invar (hs_storage s)" using assms(1) by (simp add: hudi_ok_def)
  consider d' where "mem_Read (hs_storage s) p = Inr d'" | "\<not> hasPrefix p ?dir"
    | e where "mem_Read (hs_storage s) p = Inl e" "hasPrefix p ?dir"
    by (cases "mem_Read (hs_storage s) p") auto
  then show ?thesis
  proof cases
    case 1
    from listing_same [OF inv this] show ?thesis by (simp add: commits_of_listing)
  next
    case 2
    have "map InfoPath (mem_List (mem_Write (hs_storage s) p d wt) ?dir) = map InfoPath (mem_List (hs_storage s) ?dir)"
      by (rule mem.list_determined) (use inv 2 mem.list_write [of "hs_storage s" p d wt ?dir] in simp_all)
    then show ?thesis by (simp add: commits_of_listing)
  next
    case 3
    from listing_insert [OF inv 3(2,1), of d wt] show ?thesis
      by (auto simp: commits_of_listing map_filter_append map_filter_simps assms(2))
  qed
qed

lemma hoodie_path_inj:
  "table_base base \<Longrightarrow> proper_seg a \<Longrightarrow> proper_seg b \<Longrightarrow> hoodie_path base a = hoodie_path base b \<longleftrightarrow> a = b"
  by (simp add: hoodie_path_eq)

abbreviation props_file :: "string \<Rightarrow> string" where
  "props_file base \<equiv> hoodie_path base ''hoodie.properties''"

lemma props_file_no_instant: "table_base base \<Longrightarrow> completed_instant (props_file base) = None"
proof -
  assume b: "table_base base"
  have "filepath_Base (hoodie_dir base @ ''/'' @ ''hoodie.properties'') = ''hoodie.properties''"
    by (rule filepath_Base_append) simp_all
  moreover have "props_file base = hoodie_dir base @ ''/'' @ ''hoodie.properties''"
    by (rule hoodie_path_eq [OF b]) (simp add: proper_seg_def)
  ultimately show ?thesis by (simp add: completed_instant_def hasSuffix_def)
qed

lemma commit_body_write:
  assumes "hudi_ok s" "proper_seg name" "proper_seg (ia_FileName c)" "ia_FileName c \<noteq> name"
  shows "commit_body (hs_write s (hoodie_path (hs_basePath s) name) d wt) c = commit_body s c"
  using assms hoodie_path_inj [of "hs_basePath s" "ia_FileName c" name] by (simp add: commit_body_def hudi_ok_def)

lemma bodies_unchanged:
  assumes "\<And>c. c \<in> set cs \<Longrightarrow> commit_body s' c = commit_body s c"
  shows "List.map_filter (\<lambda>c. map_option (Pair (commit_millis (ia_InstantTime c))) (commit_body s' c)) cs =
    List.map_filter (\<lambda>c. map_option (Pair (commit_millis (ia_InstantTime c))) (commit_body s c)) cs"
  using assms by (induction cs) (auto simp: map_filter_simps split: option.splits)

lemma bodies_write_props:
  assumes "hudi_ok s"
  shows "timeline_bodies (hs_write s (props_file (hs_basePath s)) d wt) = timeline_bodies s"
proof -
  have b: "table_base (hs_basePath s)" using assms by (simp add: hudi_ok_def)
  have "commit_body (hs_write s (props_file (hs_basePath s)) d wt) c = commit_body s c" if c: "c \<in> set (ListCompletedCommits s)" for c
  proof -
    from c obtain p where "completed_instant p = Some c" unfolding listed_commit by blast
    from completed_instant_Some [OF this] show ?thesis
      by (intro commit_body_write [OF assms]) (simp_all add: proper_seg_def)
  qed
  then show ?thesis
    unfolding timeline_bodies_def commits_write_other [OF assms props_file_no_instant [OF b]]
    by (intro bodies_unchanged) blast
qed

lemma bodies_write_commit:
  assumes "hudi_ok s" "older_commits s now" "unmarshal_commit d = Some meta"
  shows "timeline_bodies (hs_write s (timeline_file (hs_basePath s) now) d wt) =
    timeline_bodies s @ [(commit_millis (InstantFromTime now), meta)]"
proof -
  let ?s = "hs_write s (timeline_file (hs_basePath s) now) d wt"
  have "commit_body ?s c = commit_body s c" if c: "c \<in> set (ListCompletedCommits s)" for c
  proof -
    from c obtain p where "completed_instant p = Some c" unfolding listed_commit by blast
    note f = completed_instant_Some [OF this]
    have "ia_InstantTime c < InstantFromTime now" using c assms(2) by (simp add: older_commits_def list_all_iff)
    then have "ia_FileName c \<noteq> InstantFromTime now @ ''.commit''" using f(2) instant_name(3) [of now] by auto
    with f(1) show ?thesis unfolding timeline_file_def by (intro commit_body_write [OF assms(1) instant_name(1)])
  qed
  moreover have "commit_body ?s (new_instant now) = Some meta"
    using assms(3) by (simp add: commit_body_def new_instant_def timeline_file_def)
  moreover have "ia_InstantTime (new_instant now) = InstantFromTime now" by (simp add: new_instant_def)
  ultimately show ?thesis
    using bodies_unchanged [of "ListCompletedCommits s" ?s s]
    unfolding timeline_bodies_def commits_write_new [OF assms(1,2)]
    by (simp add: map_filter_append map_filter_simps)
qed

section \<open>What a commit writes\<close>

definition relative_path :: "string \<Rightarrow> data_file \<Rightarrow> string" where
  "relative_path base df = (case RelativizePath (PhysicalPath df) base of Inr r \<Rightarrow> r | Inl _ \<Rightarrow> '''')"

fun file_stats :: "(nat \<Rightarrow> string) \<Rightarrow> string \<Rightarrow> nat \<Rightarrow> data_file list \<Rightarrow> (string \<times> hoodie_write_stat) list" where
  "file_stats uuid base i [] = []"
| "file_stats uuid base i (df # dfs) =
     (partition_path df, write_stat (uuid i) (relative_path base df) df) # file_stats uuid base (Suc i) dfs"

definition stat_pairs :: "(string, hoodie_write_stat list) gomap \<Rightarrow> (string \<times> hoodie_write_stat) set" where
  "stat_pairs stats = {(part, ws). \<exists>wss. (part, wss) \<in> set stats \<and> ws \<in> set wss}"

lemma stat_pairs_put:
  assumes "wf_map stats"
  shows "stat_pairs (map_put p ((case map_of stats p of None \<Rightarrow> [] | Some wss \<Rightarrow> wss) @ [w]) stats) = insert (p, w) (stat_pairs stats)"
proof -
  have m: "(q, wss) \<in> set stats \<longleftrightarrow> map_of stats q = Some wss" for q wss
    using assms by (simp add: wf_map_def)
  have "(q, wss) \<in> set (map_put p v stats) \<longleftrightarrow> (if q = p then wss = v else map_of stats q = Some wss)" for q wss v
    using wf_map_put [OF assms, of p v] map_of_eq_Some_iff [of "map_put p v stats" q wss]
    by (auto simp: wf_map_def)
  then have "(q, x) \<in> stat_pairs (map_put p ((case map_of stats p of None \<Rightarrow> [] | Some wss \<Rightarrow> wss) @ [w]) stats) \<longleftrightarrow>
      (q, x) \<in> insert (p, w) (stat_pairs stats)" for q x
    by (cases "q = p") (auto simp: stat_pairs_def m split: option.splits)
  then show ?thesis by auto
qed

lemma partition_stats_pairs:
  "partition_stats uuid base i dfs stats = Inr out \<Longrightarrow> wf_map stats \<Longrightarrow>
    wf_map out \<and> stat_pairs out = stat_pairs stats \<union> set (file_stats uuid base i dfs) \<and>
    list_all (\<lambda>df. \<exists>r. RelativizePath (PhysicalPath df) base = Inr r) dfs"
proof (induction dfs arbitrary: i stats)
  case (Cons df dfs)
  then obtain r where r: "RelativizePath (PhysicalPath df) base = Inr r"
    by (cases "RelativizePath (PhysicalPath df) base") auto
  with Cons.prems Cons.IH [OF _ wf_map_put [OF Cons.prems(2)]] show ?case
    by (auto simp: stat_pairs_put [OF Cons.prems(2)] relative_path_def)
qed simp

lemma file_stats_elem:
  "(part, ws) \<in> set (file_stats uuid base i dfs) \<longleftrightarrow>
    (\<exists>j < length dfs. part = partition_path (dfs ! j) \<and> ws = write_stat (uuid (i + j)) (relative_path base (dfs ! j)) (dfs ! j))"
proof (induction dfs arbitrary: i)
  case (Cons df dfs)
  then show ?case by (auto simp: less_Suc_eq_0_disj)
qed simp

text \<open>The writes of the commit a snapshot becomes.\<close>

definition snapshot_writes :: "hudi_env \<Rightarrow> string \<Rightarrow> data_file list \<Rightarrow> (string \<rightharpoonup> active_entry)" where
  "snapshot_writes env base dfs =
     map_of (map (\<lambda>(part, ws). (ws_Path ws, part, ws, commit_millis (InstantFromTime (he_now env))))
       (file_stats (he_uuid env) base 0 dfs))"

lemma map_of_functional:
  assumes "\<And>k v w. (k, v) \<in> set xs \<Longrightarrow> (k, w) \<in> set xs \<Longrightarrow> v = w"
  shows "map_of xs k = Some v \<longleftrightarrow> (k, v) \<in> set xs"
proof
  assume "(k, v) \<in> set xs"
  moreover from this obtain w where "map_of xs k = Some w" by (metis weak_map_of_SomeI)
  ultimately show "map_of xs k = Some v" using assms map_of_SomeD by metis
qed (rule map_of_SomeD)

lemma file_stats_functional:
  assumes "distinct (map (relative_path base) dfs)"
    and "(part, ws) \<in> set (file_stats uuid base i dfs)" "(part', ws') \<in> set (file_stats uuid base i dfs)" "ws_Path ws = ws_Path ws'"
  shows "part = part' \<and> ws = ws'"
proof -
  from assms(2,3) obtain j k where j: "j < length dfs" "part = partition_path (dfs ! j)"
      "ws = write_stat (uuid (i + j)) (relative_path base (dfs ! j)) (dfs ! j)"
    and k: "k < length dfs" "part' = partition_path (dfs ! k)"
      "ws' = write_stat (uuid (i + k)) (relative_path base (dfs ! k)) (dfs ! k)"
    unfolding file_stats_elem by blast
  with assms(4) have "map (relative_path base) dfs ! j = map (relative_path base) dfs ! k" by (simp add: write_stat_def)
  with assms(1) j(1) k(1) have "j = k" by (simp add: nth_eq_iff_index_eq del: nth_map)
  with j k show ?thesis by simp
qed

lemma canon_write_stat [simp]: "canon_stat (write_stat u r df) = write_stat u r df"
  by (simp add: canon_stat_def write_stat_def)

lemma set_entry_writes:
  "set (entry_writes (ms, canon_commit (commit_metadata_of snap stats))) =
    (\<lambda>(part, ws). (ws_Path ws, part, canon_stat ws, ms)) ` stat_pairs stats"
  by (force simp: entry_writes_def canon_commit_def commit_metadata_of_def stat_pairs_def canon_stat_def)

lemma commit_step:
  assumes "partition_stats (he_uuid env) base 0 dfs [] = Inr stats" "distinct (map (relative_path base) dfs)"
  shows "timeline_step A (commit_millis (InstantFromTime (he_now env)), canon_commit (commit_metadata_of snap stats)) =
    A ++ snapshot_writes env base dfs"
proof -
  define ms where "ms = commit_millis (InstantFromTime (he_now env))"
  define W where "W = map (\<lambda>(part, ws). (ws_Path ws, part, ws, ms)) (file_stats (he_uuid env) base 0 dfs)"
  define E where "E = entry_writes (ms, canon_commit (commit_metadata_of snap stats))"
  have p: "stat_pairs stats = set (file_stats (he_uuid env) base 0 dfs)"
    using partition_stats_pairs [OF assms(1)] by (simp add: stat_pairs_def)
  have "canon_stat ws = ws" if "(part, ws) \<in> set (file_stats (he_uuid env) base 0 dfs)" for part ws
    using that by (auto simp: file_stats_elem)
  then have s: "set E = set W"
    unfolding E_def W_def set_entry_writes p by (force simp: image_iff)
  have f: "v = w" if "(k, v) \<in> set W" "(k, w) \<in> set W" for k v w
    using that file_stats_functional [OF assms(2)] by (fastforce simp: W_def)
  have "map_of (rev E) k = Some v \<longleftrightarrow> map_of W k = Some v" for k v
    using map_of_functional [of "rev E" k v] map_of_functional [of W k v] f by (simp add: s)
  then have "map_of (rev E) = map_of W" by (metis ext not_None_eq)
  moreover have "replaced (canon_commit (commit_metadata_of snap stats)) e = False" for e
    by (simp add: replaced_def canon_commit_def commit_metadata_of_def)
  ultimately show ?thesis
    by (auto simp: timeline_step_def snapshot_writes_def fun_eq_iff map_add_def W_def E_def ms_def split: option.splits)
qed

lemma snapshot_writes_dom: "dom (snapshot_writes env base dfs) = relative_path base ` set dfs"
proof -
  have "map fst (map (\<lambda>(part, ws). (ws_Path ws, part, ws, ms)) (file_stats uuid base i dfs)) = map (relative_path base) dfs" for uuid i ms
    by (induction dfs arbitrary: i) (simp_all add: write_stat_def)
  from arg_cong [OF this, of set] show ?thesis
    unfolding snapshot_writes_def dom_map_of_conv_image_fst by (simp only: set_map)
qed

lemma snapshot_writes_file:
  assumes "distinct (map (relative_path base) dfs)" "df \<in> set dfs"
  shows "\<exists>u. snapshot_writes env base dfs (relative_path base df) =
    Some (partition_path df, write_stat u (relative_path base df) df, commit_millis (InstantFromTime (he_now env)))"
proof -
  from assms(2) obtain j where j: "j < length dfs" "dfs ! j = df" by (auto simp: in_set_conv_nth)
  then have e: "(partition_path df, write_stat (he_uuid env j) (relative_path base df) df) \<in> set (file_stats (he_uuid env) base 0 dfs)"
    by (auto simp: file_stats_elem)
  let ?W = "map (\<lambda>(part, ws). (ws_Path ws, part, ws, commit_millis (InstantFromTime (he_now env)))) (file_stats (he_uuid env) base 0 dfs)"
  have "(relative_path base df, partition_path df, write_stat (he_uuid env j) (relative_path base df) df,
      commit_millis (InstantFromTime (he_now env))) \<in> set ?W"
    using e by (force simp: write_stat_def)
  moreover have "v = w" if "(k, v) \<in> set ?W" "(k, w) \<in> set ?W" for k v w
    using that file_stats_functional [OF assms(1)] by fastforce
  ultimately show ?thesis unfolding snapshot_writes_def using map_of_functional [of ?W] by blast
qed

section \<open>Committing a snapshot\<close>

definition sizes_ok :: "data_file list \<Rightarrow> bool" where
  "sizes_ok dfs \<longleftrightarrow> list_all (\<lambda>df. in_int64 (FileSizeBytes df) \<and> in_int64 (RecordCount df)) dfs"

lemma wf_commit_metadata:
  assumes "partition_stats uuid base 0 dfs [] = Inr stats" "sizes_ok dfs"
  shows "wf_commit (commit_metadata_of snap stats)"
proof -
  have w: "wf_map stats" "stat_pairs stats = set (file_stats uuid base 0 dfs)"
    using partition_stats_pairs [OF assms(1)] by (simp_all add: stat_pairs_def)
  have "wf_stat ws" if "(part, wss) \<in> set stats" "ws \<in> set wss" for part wss ws
  proof -
    from that have "(part, ws) \<in> set (file_stats uuid base 0 dfs)" unfolding w(2) [symmetric] stat_pairs_def by blast
    with assms(2) show ?thesis by (auto simp: file_stats_elem wf_stat_def write_stat_def sizes_ok_def list_all_length)
  qed
  with w(1) show ?thesis
    by (force simp: wf_commit_def commit_metadata_of_def extra_meta_def list_all_iff)
qed

lemma ht_source_simps [simp]:
  "hs_basePath (ht_source t tbl) = BasePath tbl" "hs_storage (ht_source t tbl) = ht_storage t"
  by (simp_all add: ht_source_def hudi_NewSource_def)

lemma ht_source_write: "ht_source (t\<lparr>ht_storage := st\<rparr>) tbl = (ht_source t tbl)\<lparr>hs_storage := st\<rparr>"
  by (simp add: ht_source_def hudi_NewSource_def)

text \<open>The two writes of a successful commit.\<close>

lemma CommitSnapshot_success:
  assumes "ht_targetTable t = Some tbl" "hudi_CommitSnapshot env t snap = (t', None)"
  shows "\<exists>avro names stats props. prepare_commit env tbl snap = Inr (avro, names, stats) \<and>
    t' = t\<lparr>ht_storage := mem_Write (mem_Write (ht_storage t) (timeline_file (BasePath tbl) (he_now env))
        (marshal_commit (commit_metadata_of snap stats)) (he_write_time env)) (props_file (BasePath tbl))
        (Serialize (updated_properties snap names avro props)) (he_write_time env)\<rparr> \<and>
    (props = [] \<or> ReadProperties (hs_write (ht_source t tbl) (timeline_file (BasePath tbl) (he_now env))
        (marshal_commit (commit_metadata_of snap stats)) (he_write_time env)) = Inr props)"
proof -
  obtain avro names stats where p: "prepare_commit env tbl snap = Inr (avro, names, stats)"
    using assms by (cases "prepare_commit env tbl snap") (auto simp: hudi_CommitSnapshot_def)
  let ?r = "ReadProperties (hs_write (ht_source t tbl) (timeline_file (BasePath tbl) (he_now env))
      (marshal_commit (commit_metadata_of snap stats)) (he_write_time env))"
  note d = assms(2) [unfolded hudi_CommitSnapshot_def assms(1) option.case p sum.case prod.case Let_def ht_source_write]
  have "\<exists>props. t' = t\<lparr>ht_storage := mem_Write (mem_Write (ht_storage t) (timeline_file (BasePath tbl) (he_now env))
        (marshal_commit (commit_metadata_of snap stats)) (he_write_time env)) (props_file (BasePath tbl))
        (Serialize (updated_properties snap names avro props)) (he_write_time env)\<rparr> \<and> (props = [] \<or> ?r = Inr props)"
  proof (cases ?r)
    case (Inl e)
    with d show ?thesis by (intro exI [of _ "[]"]) (simp split: if_splits)
  next
    case (Inr props)
    with d show ?thesis by (intro exI [of _ props]) simp
  qed
  with p show ?thesis by blast
qed

lemma prepare_commit_stats:
  assumes "prepare_commit env tbl snap = Inr (avro, names, stats)"
  shows "partition_stats (he_uuid env) (BasePath tbl) 0 (AllDataFiles snap) [] = Inr stats"
    and "avro_text snap = Inr avro" and "part_field_names (SnapTable snap) = Inr names"
  using assms by (auto simp: prepare_commit_def)

text \<open>What a commit needs: a table directory, a clock past every instant of the timeline, sizes of 64 bits.\<close>

definition can_commit :: "hudi_env \<Rightarrow> hudi_target \<Rightarrow> table \<Rightarrow> snapshot \<Rightarrow> bool" where
  "can_commit env t tbl snap \<longleftrightarrow> ht_targetTable t = Some tbl \<and> hudi_ok (ht_source t tbl) \<and>
     older_commits (ht_source t tbl) (he_now env) \<and> sizes_ok (AllDataFiles snap)"

lemma CommitSnapshot_bodies:
  assumes "can_commit env t tbl snap" "hudi_CommitSnapshot env t snap = (t', None)"
  shows "\<exists>avro names stats. prepare_commit env tbl snap = Inr (avro, names, stats) \<and>
    timeline_bodies (ht_source t' tbl) = timeline_bodies (ht_source t tbl) @
      [(commit_millis (InstantFromTime (he_now env)), canon_commit (commit_metadata_of snap stats))] \<and>
    ListCompletedCommits (ht_source t' tbl) = ListCompletedCommits (ht_source t tbl) @ [new_instant (he_now env)] \<and>
    commit_body (ht_source t' tbl) (new_instant (he_now env)) = Some (canon_commit (commit_metadata_of snap stats)) \<and>
    hudi_ok (ht_source t' tbl) \<and> ht_targetTable t' = Some tbl"
proof -
  let ?s = "ht_source t tbl"
  have c: "ht_targetTable t = Some tbl" "hudi_ok ?s" "older_commits ?s (he_now env)" "sizes_ok (AllDataFiles snap)"
    using assms(1) by (simp_all add: can_commit_def)
  from CommitSnapshot_success [OF c(1) assms(2)] obtain avro names stats props where
      p: "prepare_commit env tbl snap = Inr (avro, names, stats)" and
      t': "t' = t\<lparr>ht_storage := mem_Write (mem_Write (ht_storage t) (timeline_file (BasePath tbl) (he_now env))
        (marshal_commit (commit_metadata_of snap stats)) (he_write_time env)) (props_file (BasePath tbl))
        (Serialize (updated_properties snap names avro props)) (he_write_time env)\<rparr>"
    by blast
  let ?s1 = "hs_write ?s (timeline_file (BasePath tbl) (he_now env)) (marshal_commit (commit_metadata_of snap stats)) (he_write_time env)"
  let ?m = "canon_commit (commit_metadata_of snap stats)"
  have s': "ht_source t' tbl = hs_write ?s1 (props_file (BasePath tbl))
      (Serialize (updated_properties snap names avro props)) (he_write_time env)"
    by (simp add: t' ht_source_write)
  have u: "unmarshal_commit (marshal_commit (commit_metadata_of snap stats)) = Some ?m"
    by (rule commit_roundtrip [OF wf_commit_metadata [OF prepare_commit_stats(1) [OF p] c(4)]])
  have ok1: "hudi_ok ?s1" using c(2) by (simp add: hudi_ok_def)
  have b: "table_base (hs_basePath ?s1)" using ok1 by (simp add: hudi_ok_def)
  have bodies: "timeline_bodies (ht_source t' tbl) =
      timeline_bodies ?s @ [(commit_millis (InstantFromTime (he_now env)), ?m)]"
    using bodies_write_props [OF ok1] bodies_write_commit [OF c(2,3) u] by (simp add: s')
  have commits: "ListCompletedCommits (ht_source t' tbl) = ListCompletedCommits ?s @ [new_instant (he_now env)]"
    using commits_write_other [OF ok1 props_file_no_instant [OF b]] commits_write_new [OF c(2,3)] by (simp add: s')
  have "hoodie_path (BasePath tbl) (ia_FileName (new_instant (he_now env))) = timeline_file (BasePath tbl) (he_now env)"
    by (simp add: timeline_file_def new_instant_def)
  moreover have "timeline_file (BasePath tbl) (he_now env) \<noteq> props_file (BasePath tbl)"
    using props_file_no_instant [OF b] completed_instant_file [OF b, of "he_now env"] by auto
  ultimately have body: "commit_body (ht_source t' tbl) (new_instant (he_now env)) = Some ?m"
    using u by (simp add: s' commit_body_def)
  have "hudi_ok (ht_source t' tbl)" unfolding s' using ok1 by (simp add: hudi_ok_def)
  moreover have "ht_targetTable t' = Some tbl" using c(1) by (simp add: t')
  ultimately show ?thesis using p bodies commits body by blast
qed

lemma commit_active:
  assumes "can_commit env t tbl snap" "hudi_CommitSnapshot env t snap = (t', None)"
    and "distinct (map (relative_path (BasePath tbl)) (AllDataFiles snap))"
  shows "timeline_active (ht_source t' tbl) =
    timeline_active (ht_source t tbl) ++ snapshot_writes env (BasePath tbl) (AllDataFiles snap)"
proof -
  from CommitSnapshot_bodies [OF assms(1,2)] obtain avro names stats where
      p: "prepare_commit env tbl snap = Inr (avro, names, stats)" and
      "timeline_bodies (ht_source t' tbl) = timeline_bodies (ht_source t tbl) @
        [(commit_millis (InstantFromTime (he_now env)), canon_commit (commit_metadata_of snap stats))]"
    by blast
  with commit_step [OF prepare_commit_stats(1) [OF p] assms(3)] show ?thesis by (simp add: timeline_active_def)
qed

lemma commit_watermark:
  assumes "can_commit env t tbl snap" "hudi_CommitSnapshot env t snap = (t', None)"
    and "in_int64 (LatestCommitTime (SnapTable snap))"
  shows "\<exists>m. hudi_GetTableMetadata t' = Inr (Some m) \<and> LastInstantSynced m = LatestCommitTime (SnapTable snap)"
proof -
  let ?s = "ht_source t' tbl"
  from CommitSnapshot_bodies [OF assms(1,2)] obtain stats where
      l: "ListCompletedCommits ?s = ListCompletedCommits (ht_source t tbl) @ [new_instant (he_now env)]" and
      b: "commit_body ?s (new_instant (he_now env)) = Some (canon_commit (commit_metadata_of snap stats))" and
      t': "ht_targetTable t' = Some tbl"
    by blast
  have x: "cm_ExtraMetadata (canon_commit (commit_metadata_of snap stats)) = sort_key fst (extra_meta snap)"
    by (simp add: canon_commit_def commit_metadata_of_def)
  have "in_int64 (LastInstantSynced (hudi_sync_metadata snap))" using assms(3) by (simp add: hudi_sync_metadata_def)
  from Read_Write_watermark [OF this, of "[]"] obtain m where
      "ReadSyncMetadataFromProperties (sort_key fst (extra_meta snap)) = Some m" "LastInstantSynced m = LatestCommitTime (SnapTable snap)"
    by (auto simp: Read_sorted extra_meta_def hudi_sync_metadata_def)
  moreover have "sort_key fst (extra_meta snap) \<noteq> []"
    using Write_nonempty [of "[]" "hudi_sync_metadata snap"] by (auto simp: extra_meta_def dest: arg_cong [of _ _ set])
  ultimately have "\<exists>m. latest_commit_metadata ?s = Some m \<and> LastInstantSynced m = LatestCommitTime (SnapTable snap)"
    by (simp add: latest_commit_metadata_def Let_def l b x as_hudi_metadata_def)
  then show ?thesis by (auto simp: hudi_GetTableMetadata_def t')
qed

text \<open>
  What a file of the sync has to look like on the timeline, stated on the file alone. Its partition is
  read off its first partition value: none without one, Hive's marker for a null value, else the value's
  text; the timeline entry carries the file's path below the table, its rows and its bytes.
\<close>

definition in_partition :: "data_file \<Rightarrow> string \<Rightarrow> bool" where
  "in_partition df part \<longleftrightarrow>
     (PartitionValues df = [] \<longrightarrow> part = '''') \<and>
     (\<forall>pv pvs. PartitionValues df = pv # pvs \<and> PVRange pv = None \<longrightarrow> part = '''') \<and>
     (\<forall>pv pvs r. PartitionValues df = pv # pvs \<and> PVRange pv = Some r \<longrightarrow>
        (MinValue r = ANil \<longrightarrow> part = ''__HIVE_DEFAULT_PARTITION__'') \<and>
        (\<forall>s. MinValue r = AStr s \<longrightarrow> part = s) \<and>
        (\<forall>i. MinValue r = AInt i \<or> MinValue r = AInt32 i \<or> MinValue r = AInt64 i \<longrightarrow> part = formatInt i) \<and>
        (\<forall>b. MinValue r = ABool b \<longrightarrow> part = (if b then ''true'' else ''false'')))"

definition entry_of_file :: "string \<Rightarrow> data_file \<Rightarrow> active_entry \<Rightarrow> bool" where
  "entry_of_file base df e \<longleftrightarrow>
     (\<exists>part ws ms. e = (part, ws, ms) \<and> in_partition df part \<and>
        RelativizePath (PhysicalPath df) base = Inr (ws_Path ws) \<and> ws_NumWrites ws = RecordCount df \<and>
        ws_FileSizeInBytes ws = FileSizeBytes df \<and> ws_TotalWriteBytes ws = FileSizeBytes df)"

lemma partition_path_in: "in_partition df (partition_path df)"
  by (auto simp: in_partition_def partition_path_def hiveDefaultPartition_def)

lemma write_stat_entry:
  assumes "RelativizePath (PhysicalPath df) base = Inr r"
  shows "entry_of_file base df (partition_path df, write_stat u (relative_path base df) df, ms)"
  using assms partition_path_in by (simp add: entry_of_file_def write_stat_def relative_path_def)

text \<open>The time of a commit is the second the clock showed.\<close>

lemma commit_millis_now:
  assumes "0 \<le> fst (civil_from_days (sec div 86400))" and "fst (civil_from_days (sec div 86400)) < 10000"
  shows "commit_millis (InstantFromTime (sec, nsec)) = UnixMilli (sec, 0)"
proof -
  obtain y m d where c: "civil_from_days (sec div 86400) = (y, m, d)" by (metis prod_cases3)
  with assms have "0 \<le> y" "y < 10000" by simp_all
  from instant_roundtrip(1) [OF c this] show ?thesis by (simp add: commit_millis_def)
qed

text \<open>
  C18. A committed snapshot extends the timeline: every one of its files is in force afterwards under
  its path below the table, with its own size and record count, in the partition its first partition
  value names, at the second of the commit; every other path keeps exactly the entry it had. Nothing is
  replaced, also not the files of an earlier sync that the source has since dropped.
\<close>

theorem hudi_commit_extends:
  assumes "can_commit env t tbl snap" and "hudi_CommitSnapshot env t snap = (t', None)"
    and "distinct (map (relative_path (BasePath tbl)) (AllDataFiles snap))"
  shows "(\<forall>df \<in> set (AllDataFiles snap). \<exists>path e.
      RelativizePath (PhysicalPath df) (BasePath tbl) = Inr path \<and>
      timeline_active (ht_source t' tbl) path = Some e \<and> entry_of_file (BasePath tbl) df e \<and>
      (0 \<le> fst (civil_from_days (fst (he_now env) div 86400)) \<and> fst (civil_from_days (fst (he_now env) div 86400)) < 10000 \<longrightarrow>
        snd (snd e) = UnixMilli (fst (he_now env), 0))) \<and>
    (\<forall>path. (\<forall>df \<in> set (AllDataFiles snap). RelativizePath (PhysicalPath df) (BasePath tbl) \<noteq> Inr path) \<longrightarrow>
      timeline_active (ht_source t' tbl) path = timeline_active (ht_source t tbl) path)"
proof (intro conjI ballI allI impI)
  note a = commit_active [OF assms]
  have "list_all (\<lambda>df. \<exists>r. RelativizePath (PhysicalPath df) (BasePath tbl) = Inr r) (AllDataFiles snap)"
    using CommitSnapshot_bodies [OF assms(1,2)] prepare_commit_stats(1) partition_stats_pairs by fastforce
  then have rel: "RelativizePath (PhysicalPath df) (BasePath tbl) = Inr (relative_path (BasePath tbl) df)"
    if "df \<in> set (AllDataFiles snap)" for df
    using that by (auto simp: list_all_iff relative_path_def dest!: bspec)
  show "\<exists>path e. RelativizePath (PhysicalPath df) (BasePath tbl) = Inr path \<and>
      timeline_active (ht_source t' tbl) path = Some e \<and> entry_of_file (BasePath tbl) df e \<and>
      (0 \<le> fst (civil_from_days (fst (he_now env) div 86400)) \<and> fst (civil_from_days (fst (he_now env) div 86400)) < 10000 \<longrightarrow>
        snd (snd e) = UnixMilli (fst (he_now env), 0))" if df: "df \<in> set (AllDataFiles snap)" for df
  proof -
    from snapshot_writes_file [OF assms(3) df, of env] obtain u where
      "timeline_active (ht_source t' tbl) (relative_path (BasePath tbl) df) =
        Some (partition_path df, write_stat u (relative_path (BasePath tbl) df) df, commit_millis (InstantFromTime (he_now env)))"
      unfolding a by (auto simp: map_add_def)
    with rel [OF df] write_stat_entry [OF rel [OF df]] commit_millis_now [of "fst (he_now env)" "snd (he_now env)"]
    show ?thesis by auto
  qed
  fix path assume none: "\<forall>df \<in> set (AllDataFiles snap). RelativizePath (PhysicalPath df) (BasePath tbl) \<noteq> Inr path"
  have "snapshot_writes env (BasePath tbl) (AllDataFiles snap) path = None"
    using none rel snapshot_writes_dom [of env "BasePath tbl" "AllDataFiles snap"] by (metis domIff imageE)
  then show "timeline_active (ht_source t' tbl) path = timeline_active (ht_source t tbl) path"
    unfolding a by (simp add: map_add_def)
qed

section \<open>Tables of a newer Hudi\<close>

lemma ReadProperties_newer:
  assumes "mem_Read (hs_storage s) (props_file (hs_basePath s)) = Inr data" "ParseProperties data = Inr props"
    and "parseInt (trimSpace (props_Get props PropTableVersion)) = Some v" "v > MaxReadableTableVersion"
  shows "\<exists>m. ReadProperties s = Inl (ErrMsg m)"
proof -
  have "parseInt '''' = None" by code_simp
  with assms(3) have "trimSpace (props_Get props PropTableVersion) \<noteq> ''''" by auto
  with assms show ?thesis by (simp add: ReadProperties_def AssertReadableVersion_def Let_def)
qed

text \<open>
  C40. A table whose properties carry a version newer than the reader knows is refused on every path: no
  snapshot is returned, and a commit fails and leaves the stored properties untouched.
\<close>

theorem hudi_newer_version_refused:
  assumes "ht_targetTable t = Some tbl" and "table_base (BasePath tbl)"
    and "mem_Read (ht_storage t) (props_file (BasePath tbl)) = Inr data" and "ParseProperties data = Inr props"
    and "parseInt (trimSpace (props_Get props PropTableVersion)) = Some v" and "v > MaxReadableTableVersion"
  shows "(\<exists>e. hudi_GetCurrentSnapshot (ht_source t tbl) = Inl e) \<and>
    (\<exists>e t'. hudi_CommitSnapshot env t snap = (t', Some e) \<and> mem_Read (ht_storage t') (props_file (BasePath tbl)) = Inr data)"
proof
  let ?s = "ht_source t tbl"
  have r: "\<exists>m. ReadProperties s = Inl (ErrMsg m)"
    if "mem_Read (hs_storage s) (props_file (hs_basePath s)) = Inr data" for s
    by (rule ReadProperties_newer [OF that assms(4-6)])
  from r [of ?s] assms(3) show "\<exists>e. hudi_GetCurrentSnapshot ?s = Inl e"
    by (auto simp: hudi_GetCurrentSnapshot_def hudi_GetTable_def Let_def)
  show "\<exists>e t'. hudi_CommitSnapshot env t snap = (t', Some e) \<and> mem_Read (ht_storage t') (props_file (BasePath tbl)) = Inr data"
  proof (cases "prepare_commit env tbl snap")
    case (Inl e)
    with assms(1,3) show ?thesis by (simp add: hudi_CommitSnapshot_def)
  next
    case (Inr x)
    obtain avro names stats where x: "x = (avro, names, stats)" by (metis prod_cases3)
    let ?t = "t\<lparr>ht_storage := mem_Write (ht_storage t) (timeline_file (BasePath tbl) (he_now env))
        (marshal_commit (commit_metadata_of snap stats)) (he_write_time env)\<rparr>"
    have "props_file (BasePath tbl) \<noteq> timeline_file (BasePath tbl) (he_now env)"
      using props_file_no_instant [OF assms(2)] completed_instant_file [OF assms(2), of "he_now env"] by auto
    with assms(3) have k: "mem_Read (ht_storage ?t) (props_file (BasePath tbl)) = Inr data" by simp
    with r [of "ht_source ?t tbl"] obtain m where m: "ReadProperties (ht_source ?t tbl) = Inl (ErrMsg m)" by auto
    have "hudi_CommitSnapshot env t snap =
        (?t, Some (ErrWrap ''refusing to overwrite unreadable hoodie.properties'' (ErrMsg m)))"
      unfolding hudi_CommitSnapshot_def assms(1) option.case Inr x sum.case prod.case Let_def m by simp
    with k show ?thesis by blast
  qed
qed

end
