(* ===== verification/Hudi_Readback.thy ===== *)
theory Hudi_Readback
  imports Hudi_Commit
begin

text \<open>
  A snapshot committed into an empty directory reads back: the properties, the table with its schema
  in Avro form, and the files with their paths, sizes and record counts. Then the loop over
  incremental changes.
\<close>

section \<open>The properties\<close>

lemma wf_updated [simp]: "wf_map props \<Longrightarrow> wf_map (updated_properties snap names avro props)"
  unfolding updated_properties_def Let_def by (intro wf_map_foldl_put) simp

lemma extra_meta_keys: "fst ` set (extra_meta snap) \<subseteq> {KeyLastInstantSynced, KeySourceFormat, KeyXTableMetadata}"
  by (simp add: extra_meta_def WriteSyncMetadataProperties_def Let_def)

lemma updated_lookups:
  "map_of (updated_properties snap names avro props) PropTableName = Some (TableName (SnapTable snap))"
  "map_of (updated_properties snap names avro props) PropTableVersion = Some ''6''"
  "map_of (updated_properties snap names avro props) PropTableSchema = Some avro"
proof -
  have k: "k \<notin> fst ` set (extra_meta snap)" if "k \<in> {PropTableName, PropTableVersion, PropTableSchema}" for k
    using that extra_meta_keys [of snap] by (auto simp: hudi_props metadata_keys)
  have n: "map_of (rev (extra_meta snap)) k = None" if "k \<in> {PropTableName, PropTableVersion, PropTableSchema}" for k
    using k [OF that] by (simp add: map_of_eq_None_iff)
  show "map_of (updated_properties snap names avro props) PropTableName = Some (TableName (SnapTable snap))"
    "map_of (updated_properties snap names avro props) PropTableVersion = Some ''6''"
    "map_of (updated_properties snap names avro props) PropTableSchema = Some avro"
    unfolding updated_properties_def Let_def map_of_foldl_put
    by (simp_all add: map_add_def n) (simp_all add: hudi_props)
qed

lemma ReadProperties_written:
  assumes "mem_Read (hs_storage s) (props_file (hs_basePath s)) = Inr (Serialize (updated_properties snap names avro props))"
    and "wf_map props" "list_all clean_property (updated_properties snap names avro props)"
  shows "ReadProperties s = Inr (updated_properties snap names avro props)"
proof -
  have "AssertReadableVersion (updated_properties snap names avro props) = None"
  proof -
    have "trimSpace ''6'' = ''6''" "parseInt ''6'' = Some 6" by code_simp+
    then show ?thesis
      by (simp add: AssertReadableVersion_def props_Get_def updated_lookups MaxReadableTableVersion_def)
  qed
  with assms show ?thesis by (simp add: ReadProperties_def Let_def Parse_Serialize)
qed

lemma no_schema_in_empty_text: "AvroJSONToSchema '''' = Inl (ErrWrap ''failed to parse avro JSON'' (ErrMsg ''json''))"
proof -
  have "json_unmarshal '''' = None" by code_simp
  then show ?thesis by (simp add: AvroJSONToSchema_def json_any_def)
qed

lemma GetTable_written:
  assumes "ReadProperties s = Inr (updated_properties snap names avro props)" "TableName (SnapTable snap) \<noteq> ''''"
    and "AvroJSONToSchema avro = Inr sch"
  shows "\<exists>tb. hudi_GetTable s commitID = Inr tb \<and> TableName tb = TableName (SnapTable snap) \<and>
    ReadSchema tb = Some sch \<and> BasePath tb = hs_basePath s \<and>
    LatestCommitTime tb = (case TimeFromInstant commitID of None \<Rightarrow> 0 | Some t \<Rightarrow> UnixMilli t)"
proof -
  have "avro \<noteq> ''''" using assms(3) no_schema_in_empty_text by auto
  with assms show ?thesis
    by (simp add: hudi_GetTable_def props_Get_def updated_lookups resolve_schema_def schema_of_text_def Let_def)
qed

section \<open>The files\<close>

lemma below_file:
  assumes "below base (PhysicalPath df)"
  shows "JoinPath base [relative_path base df] = PhysicalPath df"
  using below_relative [OF assms] by (auto simp: relative_path_def)

lemma distinct_relative_paths:
  assumes "list_all (\<lambda>df. below base (PhysicalPath df)) dfs" "distinct (map PhysicalPath dfs)"
  shows "distinct (map (relative_path base) dfs)"
proof -
  have "map PhysicalPath dfs = map (\<lambda>r. JoinPath base [r]) (map (relative_path base) dfs)"
    using assms(1) by (auto simp: list_all_iff below_file)
  with assms(2) show ?thesis using distinct_map by metis
qed

definition file_facts :: "data_file \<Rightarrow> string \<times> int \<times> int" where
  "file_facts df = (PhysicalPath df, FileSizeBytes df, RecordCount df)"

lemma active_file_facts:
  assumes "list_all (\<lambda>df. below base (PhysicalPath df)) dfs" "distinct (map (relative_path base) dfs)"
  shows "(\<lambda>e. file_facts (af_file (active_entry_file base tb e))) ` ran (snapshot_writes env base dfs) = file_facts ` set dfs"
proof -
  have ff: "file_facts (af_file (active_entry_file base tb (partition_path df, write_stat u (relative_path base df) df, ms))) = file_facts df"
    if "df \<in> set dfs" for df u ms
    using that assms(1) by (simp add: file_facts_def active_entry_file_def active_of_def write_stat_def list_all_iff below_file)
  have r: "e \<in> ran (snapshot_writes env base dfs) \<longleftrightarrow> (\<exists>df \<in> set dfs. snapshot_writes env base dfs (relative_path base df) = Some e)" for e
  proof
    assume "e \<in> ran (snapshot_writes env base dfs)"
    then obtain k where k: "snapshot_writes env base dfs k = Some e" by (auto simp: ran_def)
    then have "k \<in> relative_path base ` set dfs" using snapshot_writes_dom [of env base dfs] by blast
    with k show "\<exists>df \<in> set dfs. snapshot_writes env base dfs (relative_path base df) = Some e" by blast
  qed (auto simp: ran_def)
  show ?thesis
  proof (intro equalityI subsetI)
    fix x assume "x \<in> (\<lambda>e. file_facts (af_file (active_entry_file base tb e))) ` ran (snapshot_writes env base dfs)"
    then obtain e df where e: "df \<in> set dfs" "snapshot_writes env base dfs (relative_path base df) = Some e"
      "x = file_facts (af_file (active_entry_file base tb e))" using r by blast
    with snapshot_writes_file [OF assms(2) e(1), of env] ff [OF e(1)] show "x \<in> file_facts ` set dfs" by auto
  next
    fix x assume "x \<in> file_facts ` set dfs"
    then obtain df where df: "df \<in> set dfs" "x = file_facts df" by blast
    with snapshot_writes_file [OF assms(2) df(1), of env] obtain u where
      "snapshot_writes env base dfs (relative_path base df) =
        Some (partition_path df, write_stat u (relative_path base df) df, commit_millis (InstantFromTime (he_now env)))" by blast
    with df r ff [OF df(1), symmetric]
    show "x \<in> (\<lambda>e. file_facts (af_file (active_entry_file base tb e))) ` ran (snapshot_writes env base dfs)" by blast
  qed
qed

text \<open>The table's metadata is such that the text of the properties can carry it.\<close>

definition writable_table :: "snapshot \<Rightarrow> bool" where
  "writable_table snap \<longleftrightarrow> TableName (SnapTable snap) \<noteq> '''' \<and>
     (case ReadSchema (SnapTable snap) of
        None \<Rightarrow> False
      | Some s \<Rightarrow> Fields s \<noteq> [] \<and> list_all (\<lambda>f. FieldSchema f \<noteq> None \<and> avro_writable (FieldSchema f)) (Fields s)) \<and>
     (case (avro_text snap, part_field_names (SnapTable snap)) of
        (Inr avro, Inr names) \<Rightarrow> list_all clean_property (updated_properties snap names avro [])
      | _ \<Rightarrow> False)"

lemma ReadProperties_timeline:
  assumes "table_base (hs_basePath s)"
  shows "ReadProperties (hs_write s (timeline_file (hs_basePath s) now) d wt) = ReadProperties s"
proof -
  have "props_file (hs_basePath s) \<noteq> timeline_file (hs_basePath s) now"
    using props_file_no_instant [OF assms] completed_instant_file [OF assms, of now] by auto
  then show ?thesis by (simp add: ReadProperties_def Let_def)
qed

text \<open>A commit that can be prepared succeeds when the properties are absent or readable.\<close>

lemma CommitSnapshot_None:
  assumes "ht_targetTable t = Some tbl" "table_base (BasePath tbl)" "prepare_commit env tbl snap = Inr x"
    and "\<And>e. ReadProperties (ht_source t tbl) = Inl e \<Longrightarrow> is_not_found e"
  shows "\<exists>t'. hudi_CommitSnapshot env t snap = (t', None)"
proof -
  obtain avro names stats where x: "x = (avro, names, stats)" by (metis prod_cases3)
  have "ReadProperties (ht_source (t\<lparr>ht_storage := mem_Write (ht_storage t) (timeline_file (BasePath tbl) (he_now env)) d wt\<rparr>) tbl) =
      ReadProperties (ht_source t tbl)" for d wt
    using ReadProperties_timeline [of "ht_source t tbl"] assms(2) by (simp add: ht_source_write)
  with assms(4) show ?thesis
    unfolding hudi_CommitSnapshot_def assms(1) option.case assms(3) x sum.case prod.case Let_def
    by (cases "ReadProperties (ht_source t tbl)") auto
qed

lemma first_commit_properties:
  assumes "can_commit env t tbl snap" and "hudi_CommitSnapshot env t snap = (t', None)"
    and "mem_Read (ht_storage t) (props_file (BasePath tbl)) = Inl e" and "writable_table snap"
  shows "\<exists>avro names stats. prepare_commit env tbl snap = Inr (avro, names, stats) \<and>
    ReadProperties (ht_source t' tbl) = Inr (updated_properties snap names avro [])"
proof -
  have c: "ht_targetTable t = Some tbl" "table_base (BasePath tbl)" using assms(1) by (simp_all add: can_commit_def hudi_ok_def)
  from CommitSnapshot_success [OF c(1) assms(2)] obtain avro names stats props where
      p: "prepare_commit env tbl snap = Inr (avro, names, stats)" and
      t': "t' = t\<lparr>ht_storage := mem_Write (mem_Write (ht_storage t) (timeline_file (BasePath tbl) (he_now env))
        (marshal_commit (commit_metadata_of snap stats)) (he_write_time env)) (props_file (BasePath tbl))
        (Serialize (updated_properties snap names avro props)) (he_write_time env)\<rparr>" and
      pr: "props = [] \<or> ReadProperties (hs_write (ht_source t tbl) (timeline_file (BasePath tbl) (he_now env))
        (marshal_commit (commit_metadata_of snap stats)) (he_write_time env)) = Inr props"
    by blast
  have "ReadProperties (ht_source t tbl) \<noteq> Inr props" using assms(3) by (simp add: ReadProperties_def Let_def)
  with pr ReadProperties_timeline [of "ht_source t tbl"] c(2) have props: "props = []" by simp
  have clean: "list_all clean_property (updated_properties snap names avro [])"
    using assms(4) prepare_commit_stats(2,3) [OF p] by (auto simp: writable_table_def)
  have "ReadProperties (ht_source t' tbl) = Inr (updated_properties snap names avro [])"
    by (rule ReadProperties_written) (use clean in \<open>simp_all add: t' props\<close>)
  with p show ?thesis by blast
qed

lemma hudi_reads_back:
  assumes "can_commit env t tbl snap" and "hudi_CommitSnapshot env t snap = (t', None)"
    and "ListCompletedCommits (ht_source t tbl) = []" and "mem_Read (ht_storage t) (props_file (BasePath tbl)) = Inl e"
    and "writable_table snap" and "ReadSchema (SnapTable snap) = Some s"
    and "list_all (\<lambda>df. below (BasePath tbl) (PhysicalPath df)) (AllDataFiles snap)"
    and "distinct (map PhysicalPath (AllDataFiles snap))"
  shows "\<exists>snap'. hudi_GetCurrentSnapshot (ht_source t' tbl) = Inr snap' \<and>
    file_facts ` set (DataFiles snap') = file_facts ` set (AllDataFiles snap) \<and>
    length (DataFiles snap') = length (AllDataFiles snap) \<and>
    TableName (SnapTable snap') = TableName (SnapTable snap) \<and>
    ReadSchema (SnapTable snap') = Some (NewRecordSchema (TableName (SnapTable snap)) (map avro_norm_field (Fields s)) False)"
proof -
  let ?s = "ht_source t' tbl" and ?rel = "relative_path (BasePath tbl)" and ?dfs = "AllDataFiles snap"
  have dis: "distinct (map ?rel ?dfs)" by (rule distinct_relative_paths [OF assms(7,8)])
  from first_commit_properties [OF assms(1,2,4,5)] obtain avro names stats where
      p: "prepare_commit env tbl snap = Inr (avro, names, stats)" and
      rp: "ReadProperties ?s = Inr (updated_properties snap names avro [])"
    by blast
  have clean: "TableName (SnapTable snap) \<noteq> ''''"
    and fs: "Fields s \<noteq> []" "\<And>f. f \<in> set (Fields s) \<Longrightarrow> FieldSchema f \<noteq> None \<and> avro_writable (FieldSchema f)"
    using assms(5,6) by (auto simp: writable_table_def list_all_iff)
  have av: "AvroJSONToSchema avro = Inr (NewRecordSchema (TableName (SnapTable snap)) (map avro_norm_field (Fields s)) False)"
    using avro_schema_trip [OF fs, of "TableName (SnapTable snap)" "''hoodie.'' @ TableName (SnapTable snap)"]
      prepare_commit_stats(2) [OF p] clean assms(6) by (auto simp: avro_text_def)
  from CommitSnapshot_bodies [OF assms(1,2)] assms(3) have l: "ListCompletedCommits ?s = [new_instant (he_now env)]" by auto
  obtain tb where tb: "hudi_GetTable ?s (InstantFromTime (he_now env)) = Inr tb" "TableName tb = TableName (SnapTable snap)"
      "ReadSchema tb = Some (NewRecordSchema (TableName (SnapTable snap)) (map avro_norm_field (Fields s)) False)"
    using GetTable_written [OF rp clean av, of "InstantFromTime (he_now env)"] by auto
  then have "\<exists>snap'. hudi_GetCurrentSnapshot ?s = Inr snap' \<and> SnapTable snap' = tb"
    unfolding hudi_GetCurrentSnapshot_def Let_def l by (simp add: new_instant_def)
  then obtain snap' where snap': "hudi_GetCurrentSnapshot ?s = Inr snap'" "SnapTable snap' = tb" by blast
  have act: "timeline_active ?s = snapshot_writes env (BasePath tbl) ?dfs"
    using commit_active [OF assms(1,2) dis] assms(3)
    by (simp add: timeline_active_def timeline_bodies_def map_filter_simps)
  note rep = rep_active_files [OF hudi_snapshot_parts(1) [OF snap'(1)]] and df = hudi_snapshot_parts(2) [OF snap'(1)]
  have "file_facts ` set (DataFiles snap') = file_facts ` set ?dfs"
  proof -
    have "set (DataFiles snap') = (\<lambda>e. af_file (active_entry_file (BasePath tbl) tb e)) ` ran (snapshot_writes env (BasePath tbl) ?dfs)"
      unfolding df rep(1) using act snap'(2) by simp
    with active_file_facts [OF assms(7) dis, of tb env] show ?thesis by (simp add: image_image)
  qed
  moreover have "length (DataFiles snap') = length ?dfs"
    using distinct_card [OF dis] unfolding df by (simp add: rep(3) act snapshot_writes_dom)
  ultimately show ?thesis using snap' tb(2,3) by blast
qed

text \<open>
  C19. A snapshot committed as the first of a Hudi table reads back: the same files with their paths,
  sizes and record counts, each once, under the same table name, and the columns of its schema with
  each type in Avro form.
\<close>

theorem hudi_snapshot_reads_back:
  assumes "can_commit env t tbl snap" and "hudi_CommitSnapshot env t snap = (t', None)"
    and "ListCompletedCommits (ht_source t tbl) = []" and "mem_Read (ht_storage t) (props_file (BasePath tbl)) = Inl e"
    and "writable_table snap" and "ReadSchema (SnapTable snap) = Some s"
    and "list_all (\<lambda>df. below (BasePath tbl) (PhysicalPath df)) (AllDataFiles snap)"
    and "distinct (map PhysicalPath (AllDataFiles snap))"
  shows "\<exists>snap'. hudi_GetCurrentSnapshot (ht_source t' tbl) = Inr snap' \<and>
    file_facts ` set (DataFiles snap') = file_facts ` set (AllDataFiles snap) \<and>
    length (DataFiles snap') = length (AllDataFiles snap) \<and>
    TableName (SnapTable snap') = TableName (SnapTable snap) \<and>
    ReadSchema (SnapTable snap') = Some (NewRecordSchema (TableName (SnapTable snap)) (map avro_norm_field (Fields s)) False)"
  by (rule hudi_reads_back [OF assms])

section \<open>Incremental changes\<close>

text \<open>What every commit of a list of changes needs; the state threads through the commits.\<close>

fun can_commit_all :: "(nat \<Rightarrow> hudi_env) \<Rightarrow> nat \<Rightarrow> hudi_target \<Rightarrow> table \<Rightarrow> table_change list \<Rightarrow> bool" where
  "can_commit_all env i t tbl [] = (ht_targetTable t = Some tbl)"
| "can_commit_all env i t tbl (c # cs) =
     (can_commit (env i) t tbl (change_snapshot c) \<and>
      can_commit_all env (Suc i) (fst (hudi_CommitSnapshot (env i) t (change_snapshot c))) tbl cs)"

lemma commit_changes_Cons:
  assumes "hudi_commit_changes env i t (c # cs) = (t', None)"
  shows "hudi_CommitSnapshot (env i) t (change_snapshot c) = (fst (hudi_CommitSnapshot (env i) t (change_snapshot c)), None)"
    and "hudi_commit_changes env (Suc i) (fst (hudi_CommitSnapshot (env i) t (change_snapshot c))) cs = (t', None)"
  using assms by (cases "hudi_CommitSnapshot (env i) t (change_snapshot c)"; auto split: option.splits)+

lemma commit_changes_watermark:
  assumes "can_commit_all env i t tbl cs" "hudi_commit_changes env i t cs = (t', None)" "cs \<noteq> []"
    and "in_int64 (LatestCommitTime (TableAsOfChange (last cs)))"
  shows "\<exists>m. hudi_GetTableMetadata t' = Inr (Some m) \<and> LastInstantSynced m = LatestCommitTime (TableAsOfChange (last cs))"
  using assms
proof (induction cs arbitrary: i t)
  case (Cons c cs)
  note s = commit_changes_Cons [OF Cons.prems(2)]
  show ?case
  proof (cases "cs = []")
    case True
    with commit_watermark [of "env i" t tbl, OF _ s(1)] Cons.prems s(2) show ?thesis by (auto simp: change_snapshot_def)
  next
    case False
    with Cons.IH [OF _ s(2)] Cons.prems show ?thesis by simp
  qed
qed simp

lemma AllDataFiles_change [simp]: "AllDataFiles (change_snapshot c) = FilesAdded (FilesDiff c)"
  by (simp add: AllDataFiles_def change_snapshot_def)

definition added_files :: "table_change list \<Rightarrow> data_file set" where
  "added_files cs = (\<Union>c \<in> set cs. set (FilesAdded (FilesDiff c)))"

text \<open>
  Carrying out a list of changes on a Hudi table puts the added files in force and takes nothing
  out: the files each change removes are not looked at, so they stay in the target table.
\<close>

theorem hudi_changes_keep_removed:
  assumes "can_commit_all env i t tbl cs" and "hudi_commit_changes env i t cs = (t', None)"
    and "list_all (\<lambda>c. distinct (map (relative_path (BasePath tbl)) (FilesAdded (FilesDiff c)))) cs"
  shows "dom (timeline_active (ht_source t' tbl)) =
    dom (timeline_active (ht_source t tbl)) \<union> relative_path (BasePath tbl) ` added_files cs"
  using assms
proof (induction cs arbitrary: i t)
  case (Cons c cs)
  note s = commit_changes_Cons [OF Cons.prems(2)]
  have "dom (timeline_active (ht_source (fst (hudi_CommitSnapshot (env i) t (change_snapshot c))) tbl)) =
      dom (timeline_active (ht_source t tbl)) \<union> relative_path (BasePath tbl) ` set (FilesAdded (FilesDiff c))"
    using commit_active [OF _ s(1)] Cons.prems by (auto simp: snapshot_writes_dom)
  with Cons.IH [OF _ s(2)] Cons.prems show ?case by (auto simp: added_files_def)
qed (simp add: added_files_def)

end
