(* ===== verification/Hudi_Samples.thy ===== *)
theory Hudi_Samples
  imports Hudi_Readback
begin

text \<open>
  A small Hudi table in an empty store, written by one snapshot commit and one change, on which the
  theorems about timelines and commits are applied.
\<close>

definition hudi_table :: table where
  "hudi_table = \<lparr>TableName = ''t'', TableFormat = ''DELTA'',
     ReadSchema = Some (NewRecordSchema ''t'' [mkField ''id'' (Some (NewPrimitiveSchema TypeLong False))] False),
     LayoutStrategy = LayoutUnset, BasePath = ''s3://b/t'', DataPath = '''', PartitioningFields = [],
     LatestCommitTime = 1000, LatestMetadataPath = ''''\<rparr>"

definition hudi_file :: "string \<Rightarrow> data_file" where
  "hudi_file p = \<lparr>PhysicalPath = ''s3://b/t/'' @ p, FileFormat = FileFormatParquet, FileSizeBytes = 5,
     RecordCount = 2, PartitionValues = [], ColumnStats = [], LastModified = 8, DeletionVector = None\<rparr>"

definition hudi_snapshot :: snapshot where
  "hudi_snapshot = \<lparr>SnapTable = hudi_table, PartitionedDataFiles = [], DataFiles = [hudi_file ''a''],
     SnapSourceIdentifier = ''9''\<rparr>"

definition hudi_changes :: "table_change list" where
  "hudi_changes = [\<lparr>FilesDiff = \<lparr>FilesAdded = [hudi_file ''c''], FilesRemoved = [hudi_file ''a'']\<rparr>,
     TableAsOfChange = hudi_table, ChangeSourceIdentifier = ''10'', CommitTime = 1000\<rparr>]"

definition hudi_clock :: "int \<Rightarrow> hudi_env" where
  "hudi_clock s = \<lparr>he_now = (s, 0), he_uuid = \<lambda>_. ''u'', he_write_time = 0\<rparr>"

definition hudi_target0 :: hudi_target where
  "hudi_target0 = hudi_Init (hudi_NewTarget NewMemoryStorage) hudi_table"

definition hudi_target1 :: hudi_target where
  "hudi_target1 = fst (hudi_CommitSnapshot (hudi_clock 0) hudi_target0 hudi_snapshot)"

definition hudi_target2 :: hudi_target where
  "hudi_target2 = fst (hudi_commit_changes (\<lambda>_. hudi_clock 60) 0 hudi_target1 hudi_changes)"

section \<open>The snapshot\<close>

lemma hudi_base: "table_base ''s3://b/t''"
  unfolding table_base_def
  by (rule exI [of _ "''s3://''"], rule exI [of _ "[''b'', ''t'']"])
    (simp add: base_path_def base_prefix_def uriSchemes_def proper_seg_def)

lemma hudi_below: "proper_seg p \<Longrightarrow> below ''s3://b/t'' (PhysicalPath (hudi_file p))"
  unfolding below_def
  by (rule exI [of _ "''s3://''"], rule exI [of _ "[''b'', ''t'']"], rule exI [of _ "[p]"])
    (simp add: base_path_def base_prefix_def uriSchemes_def proper_seg_def hudi_file_def)

lemma hudi_target0_parts:
  "ht_targetTable hudi_target0 = Some hudi_table" "ht_storage hudi_target0 = NewMemoryStorage"
  "BasePath hudi_table = ''s3://b/t''" "AllDataFiles hudi_snapshot = [hudi_file ''a'']"
  by (simp_all add: hudi_target0_def hudi_Init_def hudi_NewTarget_def hudi_table_def AllDataFiles_def hudi_snapshot_def)

lemma hudi_no_commits: "ListCompletedCommits (ht_source hudi_target0 hudi_table) = []"
  by (simp add: ListCompletedCommits_def hudi_target0_parts NewMemoryStorage_def mem_List_def map_filter_simps)

lemma hudi_file_sizes: "sizes_ok [hudi_file p]"
  by (simp add: sizes_ok_def hudi_file_def in_int64_def)

lemma hudi_can_commit: "can_commit (hudi_clock 0) hudi_target0 hudi_table hudi_snapshot"
  by (simp add: can_commit_def hudi_target0_parts hudi_ok_def hudi_base older_commits_def hudi_no_commits hudi_file_sizes)

lemma hudi_no_properties:
  "mem_Read (ht_storage hudi_target0) (props_file (BasePath hudi_table)) = Inl (ErrNotFound (props_file (BasePath hudi_table)))"
  by (simp add: hudi_target0_parts mem_Read_def NewMemoryStorage_def)

lemma hudi_prepared: "\<exists>x. prepare_commit (hudi_clock 0) hudi_table hudi_snapshot = Inr x"
  "\<exists>x. prepare_commit (hudi_clock 60) hudi_table (change_snapshot (hd hudi_changes)) = Inr x"
proof -
  have "\<not> isl (prepare_commit (hudi_clock 0) hudi_table hudi_snapshot)"
    "\<not> isl (prepare_commit (hudi_clock 60) hudi_table (change_snapshot (hd hudi_changes)))" by code_simp+
  then show "\<exists>x. prepare_commit (hudi_clock 0) hudi_table hudi_snapshot = Inr x"
    "\<exists>x. prepare_commit (hudi_clock 60) hudi_table (change_snapshot (hd hudi_changes)) = Inr x"
    by (metis sum.collapse(2))+
qed

lemma hudi_commit_ok: "hudi_CommitSnapshot (hudi_clock 0) hudi_target0 hudi_snapshot = (hudi_target1, None)"
proof -
  obtain x where "prepare_commit (hudi_clock 0) hudi_table hudi_snapshot = Inr x" using hudi_prepared(1) by blast
  from CommitSnapshot_None [OF hudi_target0_parts(1) _ this] obtain t' where
      "hudi_CommitSnapshot (hudi_clock 0) hudi_target0 hudi_snapshot = (t', None)"
    using hudi_no_properties by (auto simp: hudi_target0_parts hudi_base ReadProperties_def Let_def)
  then show ?thesis by (simp add: hudi_target1_def)
qed

lemma hudi_avro:
  "avro_text hudi_snapshot = Inr (projr (avro_text hudi_snapshot))" "part_field_names (SnapTable hudi_snapshot) = Inr []"
proof -
  have "\<not> isl (avro_text hudi_snapshot)" by code_simp
  then show "avro_text hudi_snapshot = Inr (projr (avro_text hudi_snapshot))" by simp
  show "part_field_names (SnapTable hudi_snapshot) = Inr []"
    by (simp add: part_field_names_def hudi_snapshot_def hudi_table_def)
qed

definition short_property :: "string \<times> string \<Rightarrow> bool" where
  "short_property kv \<longleftrightarrow> CHR 0x0A \<notin> set (fst kv) \<union> set (snd kv) \<and> CHR ''='' \<notin> set (fst kv) \<and>
     trimSpace (fst kv) = fst kv \<and> trimSpace (snd kv) = snd kv \<and> \<not> hasPrefix (fst kv) ''#'' \<and> \<not> hasPrefix (fst kv) ''!'' \<and>
     length (fst kv) + length (snd kv) + 1 < 400"

lemma short_clean: "list_all short_property p \<Longrightarrow> list_all clean_property p"
  by (auto simp: list_all_iff short_property_def clean_property_def max_line_def)

lemma hudi_writable: "writable_table hudi_snapshot"
proof -
  have "list_all short_property (updated_properties hudi_snapshot [] (projr (avro_text hudi_snapshot)) [])" by code_simp
  from short_clean [OF this] show ?thesis
    unfolding writable_table_def hudi_avro(2) by (subst hudi_avro(1))
      (simp add: hudi_snapshot_def hudi_table_def NewRecordSchema_def NewPrimitiveSchema_def avro_writable.simps(2))
qed

lemma hudi_distinct: "distinct (map (relative_path ''s3://b/t'') [hudi_file p])"
  by simp

lemma hudi_schema: "ReadSchema (SnapTable hudi_snapshot) =
    Some (NewRecordSchema ''t'' [mkField ''id'' (Some (NewPrimitiveSchema TypeLong False))] False)"
  by (simp add: hudi_snapshot_def hudi_table_def)

lemma hudi_all_below: "list_all (\<lambda>df. below (BasePath hudi_table) (PhysicalPath df)) (AllDataFiles hudi_snapshot)"
  "distinct (map PhysicalPath (AllDataFiles hudi_snapshot))"
  using hudi_below [of "''a''"] by (simp_all add: hudi_target0_parts proper_seg_def)

lemmas hudi_first = hudi_can_commit hudi_commit_ok hudi_no_commits hudi_no_properties hudi_writable hudi_schema hudi_all_below

theorem hudi_snapshot_reads_back_witness:
  "\<exists>snap'. hudi_GetCurrentSnapshot (ht_source hudi_target1 hudi_table) = Inr snap' \<and>
    file_facts ` set (DataFiles snap') = {(''s3://b/t/a'', 5, 2)} \<and> length (DataFiles snap') = 1 \<and>
    TableName (SnapTable snap') = ''t''"
  using hudi_snapshot_reads_back [OF hudi_first]
  by (auto simp: hudi_target0_parts file_facts_def hudi_file_def) (simp add: hudi_snapshot_def hudi_table_def)

theorem hudi_snapshot_is_replay_witness:
  "\<exists>snap. hudi_GetCurrentSnapshot (ht_source hudi_target1 hudi_table) = Inr snap \<and>
    length (DataFiles snap) = card (dom (timeline_active (ht_source hudi_target1 hudi_table)))"
proof -
  obtain snap where s: "hudi_GetCurrentSnapshot (ht_source hudi_target1 hudi_table) = Inr snap"
    using hudi_reads_back [OF hudi_first] by blast
  with hudi_snapshot_is_replay [OF s] show ?thesis by blast
qed

theorem hudi_commit_extends_witness:
  "\<exists>ws. timeline_active (ht_source hudi_target1 hudi_table) ''a'' = Some ('''', ws, 0) \<and>
    ws_Path ws = ''a'' \<and> ws_NumWrites ws = 2 \<and> ws_FileSizeInBytes ws = 5"
proof -
  have "RelativizePath (PhysicalPath (hudi_file ''a'')) (BasePath hudi_table) = Inr ''a''"
    "fst (civil_from_days (fst (0, 0) div 86400)) = 1970" "UnixMilli (0, 0) = 0" by code_simp+
  moreover have "AllDataFiles hudi_snapshot = [hudi_file ''a'']" "fst (he_now (hudi_clock 0)) = 0"
    by (simp_all add: hudi_target0_parts hudi_clock_def)
  ultimately show ?thesis
    using hudi_commit_extends [OF hudi_can_commit hudi_commit_ok]
    by (auto simp: hudi_target0_parts entry_of_file_def in_partition_def hudi_file_def)
qed

section \<open>The change\<close>

lemma hudi_target1_parts: "ht_targetTable hudi_target1 = Some hudi_table" "hudi_ok (ht_source hudi_target1 hudi_table)"
  "older_commits (ht_source hudi_target1 hudi_table) (60, 0)"
proof -
  from CommitSnapshot_bodies [OF hudi_can_commit hudi_commit_ok]
  show "ht_targetTable hudi_target1 = Some hudi_table" "hudi_ok (ht_source hudi_target1 hudi_table)" by blast+
  from CommitSnapshot_bodies [OF hudi_can_commit hudi_commit_ok]
  have "ListCompletedCommits (ht_source hudi_target1 hudi_table) = [new_instant (0, 0)]"
    by (auto simp: hudi_no_commits hudi_clock_def)
  moreover have "InstantFromTime (0, 0) < InstantFromTime (60, 0)" by code_simp
  ultimately show "older_commits (ht_source hudi_target1 hudi_table) (60, 0)"
    by (simp add: older_commits_def new_instant_def)
qed

lemma hudi_changes_ok:
  "can_commit_all (\<lambda>_. hudi_clock 60) 0 hudi_target1 hudi_table hudi_changes"
  "hudi_commit_changes (\<lambda>_. hudi_clock 60) 0 hudi_target1 hudi_changes = (hudi_target2, None)"
proof -
  obtain x where x: "prepare_commit (hudi_clock 60) hudi_table (change_snapshot (hd hudi_changes)) = Inr x"
    using hudi_prepared(2) by blast
  have "\<exists>p. ReadProperties (ht_source hudi_target1 hudi_table) = Inr p"
    using first_commit_properties [OF hudi_can_commit hudi_commit_ok hudi_no_properties hudi_writable] by blast
  with CommitSnapshot_None [OF hudi_target1_parts(1) _ x] obtain t' where
      "hudi_CommitSnapshot (hudi_clock 60) hudi_target1 (change_snapshot (hd hudi_changes)) = (t', None)"
    by (auto simp: hudi_target0_parts hudi_base)
  then show c: "hudi_commit_changes (\<lambda>_. hudi_clock 60) 0 hudi_target1 hudi_changes = (hudi_target2, None)"
    by (simp add: hudi_target2_def hudi_changes_def)
  have can: "can_commit (hudi_clock 60) hudi_target1 hudi_table (change_snapshot (hd hudi_changes))"
    using hudi_target1_parts hudi_file_sizes [of "''c''"] by (simp add: can_commit_def hudi_clock_def hudi_changes_def)
  have "hudi_commit_changes (\<lambda>_. hudi_clock 60) 0 hudi_target1 (hd hudi_changes # tl hudi_changes) = (hudi_target2, None)"
    using c by (simp add: hudi_changes_def)
  from CommitSnapshot_bodies [OF can commit_changes_Cons(1) [OF this]] can
  show "can_commit_all (\<lambda>_. hudi_clock 60) 0 hudi_target1 hudi_table hudi_changes" by (auto simp: hudi_changes_def)
qed

theorem hudi_changes_keep_removed_witness:
  "dom (timeline_active (ht_source hudi_target2 hudi_table)) =
    dom (timeline_active (ht_source hudi_target1 hudi_table)) \<union> {relative_path ''s3://b/t'' (hudi_file ''c'')}"
proof -
  have "list_all (\<lambda>c. distinct (map (relative_path (BasePath hudi_table)) (FilesAdded (FilesDiff c)))) hudi_changes"
    by (simp add: hudi_changes_def)
  from hudi_changes_keep_removed [OF hudi_changes_ok this] show ?thesis
    by (simp add: hudi_changes_def added_files_def hudi_target0_parts)
qed

section \<open>A table of Hudi 1.x\<close>

definition hudi_newer :: hudi_target where
  "hudi_newer = hudi_Init (hudi_NewTarget (mem_Write NewMemoryStorage (props_file ''s3://b/t'')
     (Serialize [(PropTableVersion, ''9'')]) 0)) hudi_table"

theorem hudi_newer_version_refused_witness:
  "(\<exists>e. hudi_GetCurrentSnapshot (ht_source hudi_newer hudi_table) = Inl e) \<and>
   (\<exists>e t'. hudi_CommitSnapshot (hudi_clock 0) hudi_newer hudi_snapshot = (t', Some e) \<and>
     mem_Read (ht_storage t') (props_file ''s3://b/t'') = Inr (Serialize [(PropTableVersion, ''9'')]))"
proof -
  have p: "ParseProperties (Serialize [(PropTableVersion, ''9'')]) = Inr [(PropTableVersion, ''9'')]"
    by (rule Parse_Serialize) (auto simp: wf_map_def hudi_props clean_property_def trimSpace_def is_space_def hasPrefix_def max_line_def)
  have "parseInt (trimSpace (props_Get [(PropTableVersion, ''9'')] PropTableVersion)) = Some 9" by code_simp
  from hudi_newer_version_refused [OF _ _ _ p this, of hudi_newer hudi_table "hudi_clock 0" hudi_snapshot] show ?thesis
    by (simp add: hudi_newer_def hudi_Init_def hudi_NewTarget_def hudi_target0_parts hudi_base MaxReadableTableVersion_def)
qed

end
