(* ===== verification/Conversion_Hudi.thy ===== *)
theory Conversion_Hudi
  imports Conversion_Controller Hudi_Samples
begin

text \<open>
  The Hudi adapter behind the controller's interfaces. The interpretation of \<open>sync_target\<close> on the
  Hudi target gives the controller's watermark lemmas for syncs into Hudi tables.
\<close>

definition hudi_conversion_source :: "string \<Rightarrow> mem_storage conversion_source" where
  "hudi_conversion_source basePath =
     \<lparr>csGetCurrentSnapshot = \<lambda>st. hudi_GetCurrentSnapshot (hudi_NewSource st basePath),
      csGetChangesSince = \<lambda>st i. hudi_GetChangesSince (hudi_NewSource st basePath) i,
      csIsIncrementalSyncSafeFrom = \<lambda>st i. hudi_IsIncrementalSyncSafeFrom (hudi_NewSource st basePath) i\<rparr>"

definition hudi_open :: "mem_storage \<Rightarrow> table \<Rightarrow> hudi_target" where
  "hudi_open st tbl = hudi_Init (hudi_NewTarget st) tbl"

definition hudi_conversion_target :: "hudi_env \<Rightarrow> (nat \<Rightarrow> hudi_env) \<Rightarrow> table \<Rightarrow> mem_storage conversion_target" where
  "hudi_conversion_target env envs tbl =
     \<lparr>ctGetTableMetadata = \<lambda>st. hudi_GetTableMetadata (hudi_open st tbl),
      ctCommitSnapshot = \<lambda>st snap. (case hudi_CommitSnapshot env (hudi_open st tbl) snap of (t, e) \<Rightarrow> (ht_storage t, e)),
      ctCommitChanges = \<lambda>st ic. (case hudi_CommitChanges envs (hudi_open st tbl) ic of (t, e) \<Rightarrow> (ht_storage t, e))\<rparr>"

text \<open>
  What a sync into a Hudi table needs: a clock that is past the timeline at every commit, and instants
  of 64 bits. The target records the commit time of the table as of a change, so that has to be the
  time of the change, which is how the sources make their changes.
\<close>

definition hudi_snap_ok :: "hudi_env \<Rightarrow> table \<Rightarrow> mem_storage \<Rightarrow> snapshot \<Rightarrow> bool" where
  "hudi_snap_ok env tbl st snap \<longleftrightarrow>
     can_commit env (hudi_open st tbl) tbl snap \<and> in_int64 (LatestCommitTime (SnapTable snap))"

definition hudi_changes_ok :: "(nat \<Rightarrow> hudi_env) \<Rightarrow> table \<Rightarrow> mem_storage \<Rightarrow> incremental_changes \<Rightarrow> bool" where
  "hudi_changes_ok envs tbl st ic \<longleftrightarrow>
     can_commit_all envs 0 (hudi_open st tbl) tbl (TableChanges ic) \<and>
     list_all (\<lambda>c. LatestCommitTime (TableAsOfChange c) = CommitTime c \<and> in_int64 (CommitTime c)) (TableChanges ic)"

lemma commit_keeps_table: "ht_targetTable (fst (hudi_CommitSnapshot env t snap)) = ht_targetTable t"
  by (auto simp: hudi_CommitSnapshot_def Let_def split: option.splits sum.splits prod.splits)

lemma changes_keep_table: "ht_targetTable (fst (hudi_commit_changes envs i t cs)) = ht_targetTable t"
proof (induction cs arbitrary: i t)
  case (Cons c cs)
  obtain t1 e where c: "hudi_CommitSnapshot (envs i) t (change_snapshot c) = (t1, e)" by fastforce
  with commit_keeps_table [of "envs i" t "change_snapshot c"] Cons.IH [of "Suc i" t1] show ?case
    by (cases e) simp_all
qed simp

lemma hudi_reopen: "ht_targetTable t = Some tbl \<Longrightarrow> hudi_open (ht_storage t) tbl = t"
  by (cases t) (simp add: hudi_open_def hudi_Init_def hudi_NewTarget_def)

lemma hudi_open_table [simp]: "ht_targetTable (hudi_open st tbl) = Some tbl"
  by (simp add: hudi_open_def hudi_Init_def)

interpretation hudi_sync: sync_target "hudi_conversion_target env envs tbl" "hudi_snap_ok env tbl" "hudi_changes_ok envs tbl"
  for env envs tbl
proof
  fix st snap st'
  assume ok: "hudi_snap_ok env tbl st snap" and c: "ctCommitSnapshot (hudi_conversion_target env envs tbl) st snap = (st', None)"
  then obtain t where t: "hudi_CommitSnapshot env (hudi_open st tbl) snap = (t, None)" "st' = ht_storage t"
    by (auto simp: hudi_conversion_target_def split: prod.splits)
  with commit_keeps_table [of env "hudi_open st tbl" snap] have "hudi_open st' tbl = t" by (simp add: hudi_reopen)
  with commit_watermark [OF _ t(1)] ok show "\<exists>m. ctGetTableMetadata (hudi_conversion_target env envs tbl) st' = Inr (Some m) \<and>
      LastInstantSynced m = LatestCommitTime (SnapTable snap)"
    by (auto simp: hudi_conversion_target_def hudi_snap_ok_def)
next
  fix st ic st'
  assume ok: "hudi_changes_ok envs tbl st ic" and ne: "TableChanges ic \<noteq> []"
    and c: "ctCommitChanges (hudi_conversion_target env envs tbl) st ic = (st', None)"
  then obtain t where t: "hudi_commit_changes envs 0 (hudi_open st tbl) (TableChanges ic) = (t, None)" "st' = ht_storage t"
    by (auto simp: hudi_conversion_target_def hudi_CommitChanges_def split: prod.splits)
  with changes_keep_table [of envs 0 "hudi_open st tbl" "TableChanges ic"] have "hudi_open st' tbl = t" by (simp add: hudi_reopen)
  moreover have "LatestCommitTime (TableAsOfChange (last (TableChanges ic))) = CommitTime (last (TableChanges ic))"
    "in_int64 (CommitTime (last (TableChanges ic)))"
    using ok ne by (auto simp: hudi_changes_ok_def list_all_iff)
  ultimately show "\<exists>m. ctGetTableMetadata (hudi_conversion_target env envs tbl) st' = Inr (Some m) \<and>
      LastInstantSynced m = CommitTime (last (TableChanges ic))"
    using commit_changes_watermark [OF _ t(1) ne] ok by (auto simp: hudi_conversion_target_def hudi_changes_ok_def)
qed

text \<open>
  A successful sync into a Hudi table leaves the watermark it reports, in the latest commit of the
  timeline, and the next sync that may run incrementally resumes exactly there.
\<close>

theorem hudi_sync_resumes:
  assumes "syncToTarget mode source (hudi_conversion_target env envs tbl) TableFormatHudi dur False st = (st', r)"
    and "StatusCode r = SyncStatusSuccess"
    and "\<And>snap. csGetCurrentSnapshot source st = Inr snap \<Longrightarrow> hudi_snap_ok env tbl st snap"
    and "\<And>i ic. csGetChangesSince source st i = Inr ic \<Longrightarrow> hudi_changes_ok envs tbl st ic"
    and "0 < ResLastInstantSynced r" "mode' \<noteq> SyncModeFull"
    and "csIsIncrementalSyncSafeFrom source' st' (ResLastInstantSynced r) = Inr True"
  shows "syncToTarget mode' source' (hudi_conversion_target env envs tbl) TableFormatHudi dur' dry st' =
      incremental_sync source' (hudi_conversion_target env envs tbl) TableFormatHudi dur' dry (ResLastInstantSynced r) st'"
  by (rule hudi_sync.next_sync_resumes [OF assms(1,2) _ _ assms(5-7)]) (use assms(3,4) in auto)

section \<open>A small sync\<close>

definition hudi_sample_source :: "mem_storage conversion_source" where
  "hudi_sample_source =
     \<lparr>csGetCurrentSnapshot = \<lambda>_. Inr hudi_snapshot,
      csGetChangesSince = \<lambda>_ _. Inr \<lparr>TableChanges = [], CurrentTable = hudi_table\<rparr>,
      csIsIncrementalSyncSafeFrom = \<lambda>_ _. Inr True\<rparr>"

abbreviation hudi_sample_target :: "mem_storage conversion_target" where
  "hudi_sample_target \<equiv> hudi_conversion_target (hudi_clock 0) (\<lambda>_. hudi_clock 60) hudi_table"

lemma hudi_open_sample: "hudi_open NewMemoryStorage hudi_table = hudi_target0"
  by (simp add: hudi_open_def hudi_target0_def)

lemma hudi_sample_metadata: "hudi_GetTableMetadata hudi_target0 = Inr None"
  using hudi_no_commits hudi_no_properties
  by (simp add: hudi_GetTableMetadata_def hudi_target0_parts latest_commit_metadata_def ReadProperties_def Let_def)

lemma hudi_sample_sync:
  "syncToTarget SyncModeIncremental hudi_sample_source hudi_sample_target TableFormatHudi 1 False NewMemoryStorage =
     (ht_storage hudi_target1, NewSuccessSyncResult TableFormatHudi 1000 1)"
proof -
  have "LatestCommitTime (SnapTable hudi_snapshot) = 1000" by (simp add: hudi_snapshot_def hudi_table_def)
  then show ?thesis
    by (simp add: syncToTarget_def sync_plan_def full_sync_def hudi_conversion_target_def hudi_open_sample hudi_sample_metadata
        hudi_sample_source_def hudi_commit_ok applyFallbackReason_def)
qed

lemma hudi_sample_ok:
  "hudi_snap_ok (hudi_clock 0) hudi_table NewMemoryStorage hudi_snapshot"
  "hudi_changes_ok envs hudi_table NewMemoryStorage \<lparr>TableChanges = [], CurrentTable = hudi_table\<rparr>"
  using hudi_can_commit by (simp_all add: hudi_snap_ok_def hudi_changes_ok_def hudi_open_sample hudi_target0_parts)
    (simp add: hudi_snapshot_def hudi_table_def in_int64_def)

theorem hudi_sync_resumes_witness:
  "syncToTarget SyncModeIncremental hudi_sample_source hudi_sample_target TableFormatHudi 2 False (ht_storage hudi_target1) =
     (ht_storage hudi_target1, (NewSuccessSyncResult TableFormatHudi 1000 2)\<lparr>NoOp := True\<rparr>)"
proof -
  have "syncToTarget SyncModeIncremental hudi_sample_source hudi_sample_target TableFormatHudi 2 False (ht_storage hudi_target1) =
      incremental_sync hudi_sample_source hudi_sample_target TableFormatHudi 2 False 1000 (ht_storage hudi_target1)"
    using hudi_sync_resumes [OF hudi_sample_sync, of SyncModeIncremental hudi_sample_source 2 False] hudi_sample_ok
    by (simp add: NewSuccessSyncResult_def hudi_sample_source_def SyncModeIncremental_def SyncModeFull_def)
  then show ?thesis by (simp add: incremental_sync_def hudi_sample_source_def)
qed

end
