(* ===== verification/Daemon_Server.thy ===== *)
theory Daemon_Server
  imports Conversion_Delta Conversion_Hudi
begin

text \<open>
  \<^verbatim>\<open>pkg/daemon/server.go\<close> and \<^verbatim>\<open>types.go\<close>: the REST server. A request is answered by one function per
  handler; an asynchronous conversion continues in a goroutine, whose end is an operation of its own.
  The adapters behind a storage backend are arguments. Response bodies are kept as the values that are
  encoded, and the detail of a decoding error is left out of its text.
\<close>

section \<open>Requests and responses\<close>

record convert_table_request =
  ReqSourceFormat :: table_format
  ReqTargetFormats :: "table_format list"
  ReqTableName :: string
  ReqTableBasePath :: string
  ReqTableDataPath :: string
  ReqNamespace :: string
  ReqSyncMode :: sync_mode
  ReqConfigurations :: "(string, string) gomap"
  ReqStorage :: "storage_config option"

record convert_table_response =
  ConversionID :: string
  Status :: string
  SubmittedAt :: int
  FinishedAt :: "int option"
  Results :: sync_results
  RespError :: string

record inspect_table_request =
  InsFormat :: table_format
  InsTableBasePath :: string
  InsStorage :: "storage_config option"

record inspect_table_response =
  InrTableName :: string
  InrFormat :: table_format
  InrTableBasePath :: string
  InrLatestCommitTime :: int
  ActiveDataFilesCount :: nat
  PartitionFields :: "string list"
  InrSchema :: "schema option"

record health_status =
  HealthState :: string
  HealthVersion :: string
  HealthTimestamp :: int

text \<open>Decoding the bodies: the decoder reads the first JSON value and leaves what follows it alone.\<close>

definition json_first :: "string \<Rightarrow> json option" where
  "json_first body = map_option fst (json_value (2 * length body + 2) body)"

definition dec_azure_storage :: "json \<Rightarrow> azure_storage_config option" where
  "dec_azure_storage j =
     Option.bind (struct_members j) (\<lambda>kvs.
     Option.bind (dec_string (jfield ''endpoint'' kvs)) (\<lambda>ep.
     Option.bind (dec_string (jfield ''accountName'' kvs)) (\<lambda>an.
     Option.bind (dec_string (jfield ''accountKeyEnv'' kvs)) (\<lambda>ke.
     Option.bind (dec_string (jfield ''sasTokenEnv'' kvs)) (\<lambda>st.
     Option.bind (dec_bool (jfield ''anonymous'' kvs)) (\<lambda>ay.
       Some \<lparr>AzcEndpoint = ep, AzcAccountName = an, AzcAccountKeyEnv = ke, AzcSASTokenEnv = st, AzcAnonymous = ay\<rparr>))))))"

definition dec_gcs_storage :: "json \<Rightarrow> gcs_storage_config option" where
  "dec_gcs_storage j =
     Option.bind (struct_members j) (\<lambda>kvs.
     Option.bind (dec_string (jfield ''endpoint'' kvs)) (\<lambda>ep.
     Option.bind (dec_bool (jfield ''anonymousAccess'' kvs)) (\<lambda>ay.
     Option.bind (dec_string (jfield ''credentialsFile'' kvs)) (\<lambda>cf.
       Some \<lparr>GccEndpoint = ep, GccAnonymousAccess = ay, GccCredentialsFile = cf\<rparr>))))"

definition dec_storage_config :: "json \<Rightarrow> storage_config option" where
  "dec_storage_config j =
     Option.bind (struct_members j) (\<lambda>kvs.
     Option.bind (dec_string (jfield ''region'' kvs)) (\<lambda>rg.
     Option.bind (dec_string (jfield ''endpoint'' kvs)) (\<lambda>ep.
     Option.bind (dec_bool (jfield ''usePathStyle'' kvs)) (\<lambda>ps.
     Option.bind (dec_ptr dec_azure_storage (jfield ''azure'' kvs)) (\<lambda>az.
     Option.bind (dec_ptr dec_gcs_storage (jfield ''gcs'' kvs)) (\<lambda>gc.
       Some \<lparr>ScRegion = rg, ScEndpoint = ep, ScUsePathStyle = ps, ScAzure = az, ScGCS = gc\<rparr>))))))"

definition dec_convert_request :: "json \<Rightarrow> convert_table_request option" where
  "dec_convert_request j =
     Option.bind (struct_members j) (\<lambda>kvs.
     Option.bind (dec_string (jfield ''sourceFormat'' kvs)) (\<lambda>sf.
     Option.bind (dec_strings (jfield ''targetFormats'' kvs)) (\<lambda>tf.
     Option.bind (dec_string (jfield ''tableName'' kvs)) (\<lambda>nm.
     Option.bind (dec_string (jfield ''tableBasePath'' kvs)) (\<lambda>bp.
     Option.bind (dec_string (jfield ''tableDataPath'' kvs)) (\<lambda>dp.
     Option.bind (dec_string (jfield ''namespace'' kvs)) (\<lambda>ns.
     Option.bind (dec_string (jfield ''syncMode'' kvs)) (\<lambda>sm.
     Option.bind (dec_smap (jfield ''configurations'' kvs)) (\<lambda>cf.
     Option.bind (dec_ptr dec_storage_config (jfield ''storage'' kvs)) (\<lambda>sg.
       Some \<lparr>ReqSourceFormat = sf, ReqTargetFormats = tf, ReqTableName = nm, ReqTableBasePath = bp,
             ReqTableDataPath = dp, ReqNamespace = ns, ReqSyncMode = sm, ReqConfigurations = cf, ReqStorage = sg\<rparr>))))))))))"

definition dec_inspect_request :: "json \<Rightarrow> inspect_table_request option" where
  "dec_inspect_request j =
     Option.bind (struct_members j) (\<lambda>kvs.
     Option.bind (dec_string (jfield ''format'' kvs)) (\<lambda>fm.
     Option.bind (dec_string (jfield ''tableBasePath'' kvs)) (\<lambda>bp.
     Option.bind (dec_ptr dec_storage_config (jfield ''storage'' kvs)) (\<lambda>sg.
       Some \<lparr>InsFormat = fm, InsTableBasePath = bp, InsStorage = sg\<rparr>))))"

text \<open>What the handlers read of a request and what they write.\<close>

record http_request =
  RqMethod :: string
  RqPath :: string
  RqPrefer :: string
  RqBody :: string

datatype http_body =
    PlainText string
  | HealthBody health_status
  | ConversionBody convert_table_response
  | InspectBody inspect_table_response

record http_response =
  HttpCode :: nat
  HttpBody :: http_body

definition http_Error :: "string \<Rightarrow> nat \<Rightarrow> http_response" where
  "http_Error msg code = \<lparr>HttpCode = code, HttpBody = PlainText (msg @ [CHR 0x0A])\<rparr>"

section \<open>The server\<close>

record server =
  svConversions :: "(string, convert_table_response) gomap"
  svVersion :: string
  svStorage :: "backend option"

definition NewServerWithStorage :: "string \<Rightarrow> backend option \<Rightarrow> server" where
  "NewServerWithStorage version storage =
     \<lparr>svConversions = [], svVersion = (if version = '''' then ''0.1.0-SNAPSHOT'' else version), svStorage = storage\<rparr>"

definition NewServer :: "string \<Rightarrow> server" where
  "NewServer version = NewServerWithStorage version None"

definition getStorage :: "server \<Rightarrow> string \<Rightarrow> storage_config option \<Rightarrow> backend res" where
  "getStorage s path storageConfig =
     (case svStorage s of
        Some b \<Rightarrow> Inr b
      | None \<Rightarrow>
          (case storageConfig of
             Some c \<Rightarrow> NewStorageForPathWithOptions path (ToOptionFuncs (Some c))
           | None \<Rightarrow> NewStorageForPath path))"

text \<open>The routing table: exact patterns, and the one pattern that ends in a slash.\<close>

datatype route = HealthRoute | ConvertRoute | StatusRoute | InspectRoute

definition route_of :: "string \<Rightarrow> route option" where
  "route_of path =
     (if path = ''/v1/health'' then Some HealthRoute
      else if path = ''/v1/conversion/table'' then Some ConvertRoute
      else if path = ''/v1/conversion/inspect'' then Some InspectRoute
      else if hasPrefix path ''/v1/conversion/table/'' then Some StatusRoute
      else None)"

definition handleHealth :: "server \<Rightarrow> int \<Rightarrow> http_response" where
  "handleHealth s now =
     \<lparr>HttpCode = 200, HttpBody = HealthBody \<lparr>HealthState = ''UP'', HealthVersion = svVersion s, HealthTimestamp = now\<rparr>\<rparr>"

text \<open>
  \<^verbatim>\<open>cloneConvertTableResponse\<close> in the order of its reads: the struct, then the time behind
  \<^verbatim>\<open>FinishedAt\<close>, then the results. Each part takes the record as it is at the time of that read.
\<close>

definition clone_finished :: "convert_table_response \<Rightarrow> convert_table_response \<Rightarrow> convert_table_response" where
  "clone_finished resp snapshot =
     (case FinishedAt resp of None \<Rightarrow> snapshot | Some t \<Rightarrow> snapshot\<lparr>FinishedAt := Some t\<rparr>)"

definition clone_results :: "convert_table_response \<Rightarrow> convert_table_response \<Rightarrow> convert_table_response" where
  "clone_results resp snapshot =
     (if Results resp = [] then snapshot else snapshot\<lparr>Results := Results resp\<rparr>)"

definition empty_response :: convert_table_response where
  "empty_response =
     \<lparr>ConversionID = '''', Status = '''', SubmittedAt = 0, FinishedAt = None, Results = [], RespError = ''''\<rparr>"

definition cloneConvertTableResponse :: "convert_table_response option \<Rightarrow> convert_table_response" where
  "cloneConvertTableResponse resp =
     (case resp of None \<Rightarrow> empty_response | Some r \<Rightarrow> clone_results r (clone_finished r r))"

lemma clone_id [simp]: "cloneConvertTableResponse (Some r) = r"
  by (cases r) (simp add: cloneConvertTableResponse_def clone_finished_def clone_results_def split: option.splits)

definition handleGetConversionStatus :: "server \<Rightarrow> http_request \<Rightarrow> http_response" where
  "handleGetConversionStatus s rq =
     (let conversionID = trimPrefix (RqPath rq) ''/v1/conversion/table/'' in
      if conversionID = '''' then http_Error ''missing conversionId'' 400
      else
        (case map_of (svConversions s) conversionID of
           None \<Rightarrow> http_Error ''conversion job not found'' 404
         | Some resp \<Rightarrow>
             (let snapshot = cloneConvertTableResponse (Some resp) in
              \<lparr>HttpCode = (if Status snapshot = ''RUNNING'' then 202 else 200), HttpBody = ConversionBody snapshot\<rparr>)))"

section \<open>Conversions\<close>

definition request_config :: "convert_table_request \<Rightarrow> dataset_config" where
  "request_config req =
     \<lparr>DcSourceFormat = ReqSourceFormat req, DcTargetFormats = ReqTargetFormats req,
      DcTableBasePath = ReqTableBasePath req, DcTableDataPath = ReqTableDataPath req,
      DcTableName = ReqTableName req, DcNamespace = ReqNamespace req, DcSyncMode = ReqSyncMode req,
      DcStorage = ReqStorage req, DcCatalogs = [], DcSourceCatalog = None, DcVendedCredentials = None\<rparr>"

text \<open>
  What a conversion does, in the foreground or in the background: find the storage, then sync. \<open>ctl\<close>
  gives the controller of a backend; \<open>st\<close> and \<open>c\<close> are the stores and catalogs of the world.
\<close>

datatype job_failure = StorageFailed gerr | SyncFailed gerr

definition convert_job :: "(backend \<Rightarrow> ('s, 'c) controller) \<Rightarrow> server \<Rightarrow> dataset_config \<Rightarrow> 's \<Rightarrow> 'c \<Rightarrow>
    ('s \<times> 'c \<times> (job_failure + sync_results)) option" where
  "convert_job ctl s cfg st c =
     (case getStorage s (DcTableBasePath cfg) (DcStorage cfg) of
        Inl e \<Rightarrow> Some (st, c, Inl (StorageFailed e))
      | Inr b \<Rightarrow>
          map_option (\<lambda>(st', c', r). (st', c', case r of Inl e \<Rightarrow> Inl (SyncFailed e) | Inr results \<Rightarrow> Inr results))
            (Sync (ctl b) cfg False st c))"

fun failure_cause :: "job_failure \<Rightarrow> gerr" where
  "failure_cause (StorageFailed e) = e"
| "failure_cause (SyncFailed e) = e"

definition running_response :: "string \<Rightarrow> int \<Rightarrow> convert_table_response" where
  "running_response conversionID now =
     \<lparr>ConversionID = conversionID, Status = ''RUNNING'', SubmittedAt = now, FinishedAt = None, Results = [],
      RespError = ''''\<rparr>"

text \<open>The asynchronous branch up to the point where the goroutine is started.\<close>

definition submit_conversion :: "server \<Rightarrow> string \<Rightarrow> int \<Rightarrow> server" where
  "submit_conversion s conversionID now =
     s\<lparr>svConversions := map_put conversionID (running_response conversionID now) (svConversions s)\<rparr>"

text \<open>The end of the goroutine: it records what the job returned, if the entry is still there.\<close>

definition recordFailure :: "server \<Rightarrow> string \<Rightarrow> int \<Rightarrow> gerr \<Rightarrow> server" where
  "recordFailure s i now err =
     (case map_of (svConversions s) i of
        None \<Rightarrow> s
      | Some conv \<Rightarrow>
          s\<lparr>svConversions := map_put i
              (conv\<lparr>Status := ''FAILED'', FinishedAt := Some now, RespError := err_text err\<rparr>) (svConversions s)\<rparr>)"

definition recordSuccess :: "server \<Rightarrow> string \<Rightarrow> int \<Rightarrow> sync_results \<Rightarrow> server" where
  "recordSuccess s i now results =
     (case map_of (svConversions s) i of
        None \<Rightarrow> s
      | Some conv \<Rightarrow>
          s\<lparr>svConversions := map_put i
              (conv\<lparr>Status := ''COMPLETED'', FinishedAt := Some now, Results := results\<rparr>) (svConversions s)\<rparr>)"

definition finish_conversion :: "server \<Rightarrow> string \<Rightarrow> int \<Rightarrow> job_failure + sync_results \<Rightarrow> server" where
  "finish_conversion s i now outcome =
     (case outcome of
        Inl f \<Rightarrow> recordFailure s i now (failure_cause f)
      | Inr results \<Rightarrow> recordSuccess s i now results)"

text \<open>The synchronous branch: the response to what the job returned.\<close>

definition sync_response :: "string \<Rightarrow> int \<Rightarrow> job_failure + sync_results \<Rightarrow> http_response" where
  "sync_response conversionID now outcome =
     (case outcome of
        Inl (StorageFailed e) \<Rightarrow> http_Error (''failed to init storage: '' @ err_text e) 500
      | Inl (SyncFailed e) \<Rightarrow>
          \<lparr>HttpCode = 500, HttpBody = ConversionBody
             \<lparr>ConversionID = conversionID, Status = ''FAILED'', SubmittedAt = now, FinishedAt = Some now, Results = [],
              RespError = err_text e\<rparr>\<rparr>
      | Inr results \<Rightarrow>
          \<lparr>HttpCode = 200, HttpBody = ConversionBody
             \<lparr>ConversionID = conversionID, Status = ''COMPLETED'', SubmittedAt = now, FinishedAt = Some now,
              Results = results, RespError = ''''\<rparr>\<rparr>)"

text \<open>
  The guards of \<^verbatim>\<open>handleConvertTable\<close>: a refusal, or the configuration of the dataset and whether the
  client prefers an asynchronous answer.
\<close>

definition convert_request :: "http_request \<Rightarrow> http_response + dataset_config \<times> bool" where
  "convert_request rq =
     (if RqMethod rq \<noteq> ''POST'' then Inl (http_Error ''Method not allowed'' 405)
      else
        (case Option.bind (json_first (RqBody rq)) dec_convert_request of
           None \<Rightarrow> Inl (http_Error ''invalid JSON payload: '' 400)
         | Some req \<Rightarrow> Inr (request_config req, RqPrefer rq = ''respond-async'')))"

section \<open>Inspection\<close>

record 's source_reader =
  srGetCurrentTable :: "'s \<Rightarrow> table res"
  srGetCurrentSnapshot :: "'s \<Rightarrow> snapshot res"

text \<open>A nil source field of a partition field panics; the server then drops the connection (\<open>Inl\<close>).\<close>

definition inspect_response :: "table \<Rightarrow> snapshot \<Rightarrow> http_response res" where
  "inspect_response tbl snap =
     bind_res (part_field_names tbl) (\<lambda>partFields.
     Inr \<lparr>HttpCode = 200, HttpBody = InspectBody
       \<lparr>InrTableName = TableName tbl, InrFormat = TableFormat tbl, InrTableBasePath = BasePath tbl,
        InrLatestCommitTime = LatestCommitTime tbl, ActiveDataFilesCount = length (DataFiles snap),
        PartitionFields = partFields, InrSchema = ReadSchema tbl\<rparr>\<rparr>)"

definition handleInspectTable :: "(backend \<Rightarrow> (string \<Rightarrow> 's source_reader) adapters) \<Rightarrow> server \<Rightarrow> http_request \<Rightarrow> 's \<Rightarrow> http_response res" where
  "handleInspectTable ad s rq st =
     (if RqMethod rq \<noteq> ''POST'' then Inr (http_Error ''Method not allowed'' 405)
      else
        (case Option.bind (json_first (RqBody rq)) dec_inspect_request of
           None \<Rightarrow> Inr (http_Error ''invalid payload: '' 400)
         | Some req \<Rightarrow>
             (case getStorage s (InsTableBasePath req) (InsStorage req) of
                Inl e \<Rightarrow> Inr (http_Error (''storage error: '' @ err_text e) 500)
              | Inr b \<Rightarrow>
                  (case formats_NewSource (ad b) (InsFormat req) (InsTableBasePath req) of
                     Inl e \<Rightarrow> Inr (http_Error (''failed to create format source: '' @ err_text e) 400)
                   | Inr source \<Rightarrow>
                       (case srGetCurrentTable source st of
                          Inl e \<Rightarrow> Inr (http_Error (''failed to read table metadata: '' @ err_text e) 500)
                        | Inr tbl \<Rightarrow>
                            (case srGetCurrentSnapshot source st of
                               Inl e \<Rightarrow> Inr (http_Error (''failed to read table snapshot: '' @ err_text e) 500)
                             | Inr snap \<Rightarrow> inspect_response tbl snap))))))"

end
