(* ===== verification/Daemon_Runs.thy ===== *)
theory Daemon_Runs
  imports Daemon_Server
begin

text \<open>
  The server at run time: a step relation over the requests that are accepted, the goroutines that
  finish them and the replies under way, and what holds in every state it can reach. A job takes effect
  in one step, at its end; what other processes do to the stores meanwhile is a step of its own. The
  handlers that hold the lock take one step; the reply to an asynchronous request copies the record
  without the lock and takes three.
\<close>

section \<open>Steps\<close>

datatype reply =
    CopyStruct
  | CopyFinished convert_table_response
  | CopyResults convert_table_response

record ('s, 'c) daemon_state =
  dsServer :: server
  dsJobs :: "(string, dataset_config) gomap"
  dsReplies :: "(string, reply) gomap"
  dsSent :: "(string \<times> convert_table_response) list"
  dsStores :: 's
  dsCatalogs :: 'c

definition daemon_start :: "server \<Rightarrow> 's \<Rightarrow> 'c \<Rightarrow> ('s, 'c) daemon_state" where
  "daemon_start srv st c =
     \<lparr>dsServer = srv, dsJobs = [], dsReplies = [], dsSent = [], dsStores = st, dsCatalogs = c\<rparr>"

definition entry_of :: "('s, 'c) daemon_state \<Rightarrow> string \<Rightarrow> convert_table_response option" where
  "entry_of d = map_of (svConversions (dsServer d))"

datatype daemon_event = Accept string | Answer http_response | Finish string | Reply string | Others

definition accepted :: "('s, 'c) daemon_state \<Rightarrow> string \<Rightarrow> int \<Rightarrow> dataset_config \<Rightarrow> ('s, 'c) daemon_state" where
  "accepted d i now cfg =
     d\<lparr>dsServer := submit_conversion (dsServer d) i now, dsJobs := map_put i cfg (dsJobs d),
       dsReplies := map_put i CopyStruct (dsReplies d)\<rparr>"

definition job_done :: "('s, 'c) daemon_state \<Rightarrow> string \<Rightarrow> int \<Rightarrow> 's \<Rightarrow> 'c \<Rightarrow> job_failure + sync_results \<Rightarrow> ('s, 'c) daemon_state" where
  "job_done d i now st' c' outcome =
     d\<lparr>dsServer := finish_conversion (dsServer d) i now outcome, dsJobs := map_del i (dsJobs d),
       dsStores := st', dsCatalogs := c'\<rparr>"

inductive daemon_step :: "(backend \<Rightarrow> ('s, 'c) controller) \<Rightarrow> ('s, 'c) daemon_state \<Rightarrow> daemon_event \<Rightarrow> ('s, 'c) daemon_state \<Rightarrow> bool"
  for ctl where
  accept: "convert_request rq = Inr (cfg, True) \<Longrightarrow> entry_of d i = None \<Longrightarrow>
    daemon_step ctl d (Accept i) (accepted d i now cfg)"
| answer: "convert_request rq = Inr (cfg, False) \<Longrightarrow>
    convert_job ctl (dsServer d) cfg (dsStores d) (dsCatalogs d) = Some (st', c', outcome) \<Longrightarrow>
    daemon_step ctl d (Answer (sync_response i now outcome)) (d\<lparr>dsStores := st', dsCatalogs := c'\<rparr>)"
| finish: "map_of (dsJobs d) i = Some cfg \<Longrightarrow>
    convert_job ctl (dsServer d) cfg (dsStores d) (dsCatalogs d) = Some (st', c', outcome) \<Longrightarrow>
    daemon_step ctl d (Finish i) (job_done d i now st' c' outcome)"
| copy_struct: "map_of (dsReplies d) i = Some CopyStruct \<Longrightarrow> entry_of d i = Some r \<Longrightarrow>
    daemon_step ctl d (Reply i) (d\<lparr>dsReplies := map_put i (CopyFinished r) (dsReplies d)\<rparr>)"
| copy_finished: "map_of (dsReplies d) i = Some (CopyFinished snapshot) \<Longrightarrow> entry_of d i = Some r \<Longrightarrow>
    daemon_step ctl d (Reply i) (d\<lparr>dsReplies := map_put i (CopyResults (clone_finished r snapshot)) (dsReplies d)\<rparr>)"
| copy_results: "map_of (dsReplies d) i = Some (CopyResults snapshot) \<Longrightarrow> entry_of d i = Some r \<Longrightarrow>
    daemon_step ctl d (Reply i)
      (d\<lparr>dsReplies := map_del i (dsReplies d), dsSent := dsSent d @ [(i, clone_results r snapshot)]\<rparr>)"
| others: "daemon_step ctl d Others (d\<lparr>dsStores := st', dsCatalogs := c'\<rparr>)"

inductive_cases finish_stepE: "daemon_step ctl d (Finish i) d'"

inductive daemon_reach :: "(backend \<Rightarrow> ('s, 'c) controller) \<Rightarrow> ('s, 'c) daemon_state \<Rightarrow> ('s, 'c) daemon_state \<Rightarrow> bool"
  for ctl d0 where
  start: "daemon_reach ctl d0 d0"
| step: "daemon_reach ctl d0 d \<Longrightarrow> daemon_step ctl d e d' \<Longrightarrow> daemon_reach ctl d0 d'"

lemma daemon_reach_trans:
  assumes "daemon_reach ctl d1 d2" and "daemon_reach ctl d0 d1"
  shows "daemon_reach ctl d0 d2"
  using assms by (induction rule: daemon_reach.induct) (auto intro: daemon_reach.step)

section \<open>The entries of the conversion table\<close>

text \<open>An entry is either as it was submitted or carries the end of its job.\<close>

definition finished_response :: "convert_table_response \<Rightarrow> bool" where
  "finished_response r \<longleftrightarrow> FinishedAt r \<noteq> None \<and>
     (Status r = ''COMPLETED'' \<and> RespError r = '''' \<or> Status r = ''FAILED'' \<and> Results r = [])"

definition entry_ok :: "('s, 'c) daemon_state \<Rightarrow> string \<Rightarrow> convert_table_response \<Rightarrow> bool" where
  "entry_ok d i r \<longleftrightarrow> ConversionID r = i \<and>
     (if map_of (dsJobs d) i = None then finished_response r else r = running_response i (SubmittedAt r))"

definition daemon_inv :: "('s, 'c) daemon_state \<Rightarrow> bool" where
  "daemon_inv d \<longleftrightarrow>
     (\<forall>i r. entry_of d i = Some r \<longrightarrow> entry_ok d i r) \<and>
     (\<forall>i. entry_of d i = None \<longrightarrow> map_of (dsJobs d) i = None \<and> map_of (dsReplies d) i = None)"

lemma daemon_invD:
  assumes "daemon_inv d"
  shows "entry_of d i = Some r \<Longrightarrow> entry_ok d i r"
    and "entry_of d i = None \<Longrightarrow> map_of (dsJobs d) i = None \<and> map_of (dsReplies d) i = None"
  using assms by (auto simp: daemon_inv_def)

lemma accepted_simps [simp]:
  "entry_of (accepted d i now cfg) = (entry_of d)(i \<mapsto> running_response i now)"
  "dsJobs (accepted d i now cfg) = map_put i cfg (dsJobs d)"
  "dsReplies (accepted d i now cfg) = map_put i CopyStruct (dsReplies d)"
  by (simp_all add: entry_of_def accepted_def submit_conversion_def)

lemma running_simps [simp]:
  "ConversionID (running_response i t) = i" "Status (running_response i t) = ''RUNNING''"
  "SubmittedAt (running_response i t) = t" "FinishedAt (running_response i t) = None"
  by (simp_all add: running_response_def)

definition ended :: "convert_table_response \<Rightarrow> int \<Rightarrow> job_failure + sync_results \<Rightarrow> convert_table_response" where
  "ended r now outcome =
     (case outcome of
        Inl f \<Rightarrow> r\<lparr>Status := ''FAILED'', FinishedAt := Some now, RespError := err_text (failure_cause f)\<rparr>
      | Inr results \<Rightarrow> r\<lparr>Status := ''COMPLETED'', FinishedAt := Some now, Results := results\<rparr>)"

lemma entry_done:
  "entry_of d i = Some r \<Longrightarrow> entry_of (job_done d i now st' c' outcome) = (entry_of d)(i \<mapsto> ended r now outcome)"
  by (auto simp: entry_of_def job_done_def finish_conversion_def recordFailure_def recordSuccess_def ended_def
      split: sum.splits)

lemma job_done_simps [simp]:
  "dsJobs (job_done d i now st' c' outcome) = map_del i (dsJobs d)"
  "dsReplies (job_done d i now st' c' outcome) = dsReplies d"
  by (simp_all add: job_done_def)

lemma ended_finished: "finished_response (ended (running_response i t) now outcome)"
  by (simp add: finished_response_def ended_def running_response_def split: sum.splits)

lemma entry_of_keeps [simp]:
  "entry_of (d\<lparr>dsStores := st', dsCatalogs := c'\<rparr>) = entry_of d"
  "entry_of (d\<lparr>dsReplies := rs\<rparr>) = entry_of d"
  "entry_of (d\<lparr>dsReplies := rs, dsSent := ss\<rparr>) = entry_of d"
  by (simp_all add: entry_of_def)

lemma daemon_inv_start: "svConversions srv = [] \<Longrightarrow> daemon_inv (daemon_start srv st c)"
  by (simp add: daemon_inv_def entry_of_def daemon_start_def)

lemma job_has_entry:
  assumes "daemon_inv d" and "map_of (dsJobs d) i = Some cfg"
  shows "\<exists>t. entry_of d i = Some (running_response i t)"
  using daemon_invD [OF assms(1), of i] assms(2) by (cases "entry_of d i") (auto simp: entry_ok_def)

lemma daemon_inv_step: "daemon_step ctl d e d' \<Longrightarrow> daemon_inv d \<Longrightarrow> daemon_inv d'"
proof (induction rule: daemon_step.induct)
  case (accept rq cfg d i now)
  then show ?case
    by (auto simp: daemon_inv_def entry_ok_def split: option.splits)
next
  case (finish d i cfg st' c' outcome now)
  from job_has_entry [OF finish.prems finish.hyps(1)] obtain t where t: "entry_of d i = Some (running_response i t)" ..
  have "ConversionID (ended (running_response i t) now outcome) = i"
    by (simp add: ended_def split: sum.splits)
  with finish.prems show ?case
    unfolding daemon_inv_def entry_done [OF t] entry_ok_def
    by (auto simp: ended_finished split: option.splits)
qed (auto simp: daemon_inv_def entry_ok_def split: option.splits)

lemma daemon_inv_reach: "daemon_reach ctl d0 d \<Longrightarrow> daemon_inv d0 \<Longrightarrow> daemon_inv d"
  by (induction rule: daemon_reach.induct) (auto intro: daemon_inv_step)

section \<open>What the status endpoint answers\<close>

definition status_request :: "string \<Rightarrow> http_request" where
  "status_request i = \<lparr>RqMethod = ''GET'', RqPath = ''/v1/conversion/table/'' @ i, RqPrefer = '''', RqBody = ''''\<rparr>"

text \<open>
  C13. Whatever requests the server has accepted and whatever has finished, the status endpoint tells
  where a conversion is: 202 with the record as submitted exactly while its goroutine runs, 200 with
  an end time and either results or an error afterwards, never a mixture, and 404 for an unknown id.
\<close>

theorem status_endpoint_truthful:
  assumes "daemon_reach ctl (daemon_start (NewServerWithStorage v b) st c) d" and "i \<noteq> ''''"
  shows "let rs = handleGetConversionStatus (dsServer d) (status_request i) in
    if map_of (dsJobs d) i \<noteq> None then \<exists>t. rs = \<lparr>HttpCode = 202, HttpBody = ConversionBody (running_response i t)\<rparr>
    else if entry_of d i \<noteq> None then
      \<exists>r. rs = \<lparr>HttpCode = 200, HttpBody = ConversionBody r\<rparr> \<and> finished_response r \<and> ConversionID r = i
    else rs = http_Error ''conversion job not found'' 404"
proof -
  have inv: "daemon_inv d"
    by (rule daemon_inv_reach [OF assms(1)], rule daemon_inv_start) (simp add: NewServerWithStorage_def)
  have id: "trimPrefix (RqPath (status_request i)) ''/v1/conversion/table/'' = i"
    by (simp add: status_request_def trimPrefix_append del: append.simps)
  show ?thesis
  proof (cases "entry_of d i")
    case None
    with daemon_invD(2) [OF inv None] assms(2) show ?thesis
      by (simp add: handleGetConversionStatus_def id entry_of_def)
  next
    case (Some r)
    then have e: "map_of (svConversions (dsServer d)) i = Some r" by (simp add: entry_of_def)
    from daemon_invD(1) [OF inv Some] have ok: "entry_ok d i r" .
    show ?thesis
    proof (cases "map_of (dsJobs d) i")
      case None
      with ok Some show ?thesis
        by (auto simp: handleGetConversionStatus_def id e assms(2) entry_ok_def finished_response_def)
    next
      case (Some cfg)
      with ok have "r = running_response i (SubmittedAt r)" by (simp add: entry_ok_def)
      with Some show ?thesis
        by (auto simp: handleGetConversionStatus_def id e assms(2)) (metis running_simps(2))
    qed
  qed
qed

section \<open>A finished conversion stays as it is\<close>

lemma finished_step:
  assumes "daemon_step ctl d e d'" and "daemon_inv d" and "entry_of d i = Some r" and "map_of (dsJobs d) i = None"
  shows "entry_of d' i = Some r \<and> map_of (dsJobs d') i = None"
  using assms(1)
proof cases
  case (accept rq cfg j now)
  with assms(3,4) show ?thesis by auto
next
  case (finish j cfg st' c' outcome now)
  from job_has_entry [OF assms(2) finish(3)] obtain t where "entry_of d j = Some (running_response j t)" ..
  from entry_done [OF this] finish assms(3,4) show ?thesis by auto
qed (use assms(3,4) in auto)

lemma finished_reach:
  assumes "daemon_reach ctl d d'" and "daemon_inv d" and "entry_of d i = Some r" and "map_of (dsJobs d) i = None"
  shows "entry_of d' i = Some r \<and> map_of (dsJobs d') i = None"
  using assms
proof (induction rule: daemon_reach.induct)
  case (step d1 e d2)
  with daemon_inv_reach [OF step.hyps(1)] finished_step [OF step.hyps(2)] show ?case by blast
qed simp

section \<open>Every conversion ends\<close>

text \<open>
  An infinite run, and weak fairness towards one goroutine: when it could finish from some point on,
  it does at some later point.
\<close>

definition daemon_run :: "(backend \<Rightarrow> ('s, 'c) controller) \<Rightarrow> (nat \<Rightarrow> ('s, 'c) daemon_state) \<Rightarrow> (nat \<Rightarrow> daemon_event) \<Rightarrow> bool" where
  "daemon_run ctl \<sigma> ev \<longleftrightarrow> (\<forall>n. daemon_step ctl (\<sigma> n) (ev n) (\<sigma> (Suc n)))"

definition can_finish :: "(backend \<Rightarrow> ('s, 'c) controller) \<Rightarrow> ('s, 'c) daemon_state \<Rightarrow> string \<Rightarrow> bool" where
  "can_finish ctl d i \<longleftrightarrow> (\<exists>d'. daemon_step ctl d (Finish i) d')"

definition fair_to :: "(backend \<Rightarrow> ('s, 'c) controller) \<Rightarrow> (nat \<Rightarrow> ('s, 'c) daemon_state) \<Rightarrow> (nat \<Rightarrow> daemon_event) \<Rightarrow> string \<Rightarrow> bool" where
  "fair_to ctl \<sigma> ev i \<longleftrightarrow> (\<forall>n. (\<forall>m\<ge>n. can_finish ctl (\<sigma> m) i) \<longrightarrow> (\<exists>m\<ge>n. ev m = Finish i))"

lemma run_reach: "daemon_run ctl \<sigma> ev \<Longrightarrow> daemon_reach ctl (\<sigma> n) (\<sigma> (n + k))"
  by (induction k) (auto intro: daemon_reach.intros simp: daemon_run_def)

lemma convert_job_total: "\<exists>st' c' outcome. convert_job ctl srv cfg st c = Some (st', c', outcome)"
proof (cases "getStorage srv (DcTableBasePath cfg) (DcStorage cfg)")
  case (Inr b)
  from Sync_total [of "ctl b" cfg False st c] Inr show ?thesis by (auto simp: convert_job_def)
qed (simp add: convert_job_def)

lemma job_can_finish: "map_of (dsJobs d) i = Some cfg \<Longrightarrow> can_finish ctl d i"
  using convert_job_total [of ctl "dsServer d" cfg "dsStores d" "dsCatalogs d"]
  by (auto simp: can_finish_def intro: daemon_step.finish)

lemma finish_ends:
  assumes "daemon_step ctl d (Finish i) d'" and "daemon_inv d"
  shows "\<exists>r. entry_of d' i = Some r \<and> finished_response r \<and> map_of (dsJobs d') i = None"
  using assms(1)
proof (rule finish_stepE)
  fix cfg st' c' outcome now
  assume s: "d' = job_done d i now st' c' outcome" "map_of (dsJobs d) i = Some cfg"
  from job_has_entry [OF assms(2) s(2)] obtain t where "entry_of d i = Some (running_response i t)" ..
  from entry_done [OF this] s show ?thesis by (auto simp: ended_finished)
qed

text \<open>
  C32. Every asynchronous conversion ends: in a run where its goroutine is scheduled fairly, whatever the
  adapters and catalogs answer and whatever else the server does, its record comes to carry an end
  time with results or an error, and never changes after that.
\<close>

theorem conversion_ends:
  assumes "daemon_run ctl \<sigma> ev" and "\<sigma> 0 = daemon_start (NewServerWithStorage v b) st c"
    and "fair_to ctl \<sigma> ev i" and "map_of (dsJobs (\<sigma> n)) i = Some cfg"
  shows "\<exists>m\<ge>n. \<exists>r. finished_response r \<and> (\<forall>k\<ge>m. entry_of (\<sigma> k) i = Some r)"
proof -
  have inv: "daemon_inv (\<sigma> m)" for m
    using daemon_inv_reach [OF run_reach [OF assms(1), of 0 m]] assms(2)
    by (simp add: daemon_inv_start NewServerWithStorage_def)
  have "\<exists>m\<ge>n. map_of (dsJobs (\<sigma> (Suc m))) i = None \<and> (\<exists>r. entry_of (\<sigma> (Suc m)) i = Some r \<and> finished_response r)"
  proof (cases "\<exists>m\<ge>n. ev m = Finish i")
    case True
    then obtain m where m: "m \<ge> n" "ev m = Finish i" by blast
    from assms(1) m(2) have "daemon_step ctl (\<sigma> m) (Finish i) (\<sigma> (Suc m))" by (metis daemon_run_def)
    from finish_ends [OF this inv] m(1) show ?thesis by blast
  next
    case False
    have "map_of (dsJobs (\<sigma> (n + k))) i = Some cfg" for k
    proof (induction k)
      case (Suc k)
      have s: "daemon_step ctl (\<sigma> (n + k)) (ev (n + k)) (\<sigma> (Suc (n + k)))" using assms(1) by (simp add: daemon_run_def)
      have ne: "ev (n + k) \<noteq> Finish i" using False by simp
      from job_has_entry [OF inv Suc.IH] obtain t where "entry_of (\<sigma> (n + k)) i = Some (running_response i t)" ..
      with s Suc.IH ne show ?case by (cases rule: daemon_step.cases) auto
    qed (use assms(4) in simp)
    then have "can_finish ctl (\<sigma> m) i" if "m \<ge> n" for m using that job_can_finish by (metis le_add_diff_inverse)
    with assms(3) False show ?thesis unfolding fair_to_def by blast
  qed
  then obtain m r where m: "m \<ge> n" "map_of (dsJobs (\<sigma> (Suc m))) i = None" "entry_of (\<sigma> (Suc m)) i = Some r" "finished_response r"
    by blast
  have "entry_of (\<sigma> k) i = Some r" if "k \<ge> Suc m" for k
    using finished_reach [OF run_reach [OF assms(1), of "Suc m" "k - Suc m"] inv m(3,2)] that by simp
  with m(1,4) show ?thesis by (meson le_SucI)
qed

section \<open>Foreground and background\<close>

lemma convert_job_submit: "convert_job ctl (submit_conversion srv i t) = convert_job ctl srv"
  by (simp add: convert_job_def getStorage_def submit_conversion_def fun_eq_iff)

text \<open>
  C33. An asynchronous conversion gives what a synchronous one does: the same job on the same world
  changes the stores and catalogs alike, and the record it leaves is, but for the time of submission,
  the body a synchronous client receives. When no storage can be opened the synchronous answer is
  plain text with the error that the asynchronous record carries.
\<close>

theorem async_equals_sync:
  "case convert_job ctl srv cfg st c of
     None \<Rightarrow> False
   | Some (st', c', outcome) \<Rightarrow>
       convert_job ctl (submit_conversion srv i t0) cfg st c = Some (st', c', outcome) \<and>
       (case map_of (svConversions (finish_conversion (submit_conversion srv i t0) i t1 outcome)) i of
          None \<Rightarrow> False
        | Some r \<Rightarrow>
            SubmittedAt r = t0 \<and>
            sync_response i t1 outcome =
              (case outcome of
                 Inl (StorageFailed e) \<Rightarrow> http_Error (''failed to init storage: '' @ RespError r) 500
               | _ \<Rightarrow> \<lparr>HttpCode = (if Status r = ''COMPLETED'' then 200 else 500),
                       HttpBody = ConversionBody (r\<lparr>SubmittedAt := t1\<rparr>)\<rparr>))"
proof -
  obtain st' c' outcome where j: "convert_job ctl srv cfg st c = Some (st', c', outcome)"
    using convert_job_total [of ctl srv cfg st c] by blast
  have lookup: "map_of (svConversions (submit_conversion srv i t0)) i = Some (running_response i t0)"
    by (simp add: submit_conversion_def)
  show ?thesis
    unfolding j convert_job_submit finish_conversion_def recordFailure_def recordSuccess_def lookup sync_response_def
    by (auto simp: running_response_def split: sum.splits job_failure.splits)
qed

section \<open>A sample run\<close>

text \<open>A request with an empty object is accepted and its conversion fails at validation.\<close>

definition sample_request :: http_request where
  "sample_request =
     \<lparr>RqMethod = ''POST'', RqPath = ''/v1/conversion/table'', RqPrefer = ''respond-async'', RqBody = ''{}''\<rparr>"

definition sample_job_cfg :: dataset_config where
  "sample_job_cfg =
     \<lparr>DcSourceFormat = '''', DcTargetFormats = [], DcTableBasePath = '''', DcTableDataPath = '''', DcTableName = '''',
      DcNamespace = '''', DcSyncMode = '''', DcStorage = None, DcCatalogs = [], DcSourceCatalog = None,
      DcVendedCredentials = None\<rparr>"

definition sample_failure :: "job_failure + sync_results" where
  "sample_failure = Inl (SyncFailed (ErrWrap ''invalid dataset configuration'' (ErrMsg ''sourceFormat is required'')))"

lemma sample_accepted: "convert_request sample_request = Inr (sample_job_cfg, True)"
proof -
  have "map_option request_config (Option.bind (json_first ''{}'') dec_convert_request) = Some sample_job_cfg"
    by code_simp
  then show ?thesis by (auto simp: convert_request_def sample_request_def)
qed

lemma sample_job:
  "svStorage srv = None \<Longrightarrow> convert_job ctl srv sample_job_cfg st c = Some (st, c, sample_failure)"
  by (simp add: convert_job_def getStorage_def sample_job_cfg_def NewStorageForPath_def
      NewStorageForPathWithOptions_def IsAzurePath_def azureSchemes_def Sync_def Dataset_Validate_def sample_failure_def)

definition run0 :: "'s \<Rightarrow> 'c \<Rightarrow> ('s, 'c) daemon_state" where
  "run0 st c = daemon_start (NewServerWithStorage ''1.0'' None) st c"

definition run1 :: "'s \<Rightarrow> 'c \<Rightarrow> ('s, 'c) daemon_state" where
  "run1 st c = accepted (run0 st c) ''j1'' 10 sample_job_cfg"

lemma run_parts:
  "entry_of (run0 st c) i = None" "entry_of (run1 st c) ''j1'' = Some (running_response ''j1'' 10)"
  "map_of (dsJobs (run1 st c)) ''j1'' = Some sample_job_cfg" "map_of (dsReplies (run1 st c)) ''j1'' = Some CopyStruct"
  "svStorage (dsServer (run1 st c)) = None" "dsStores (run1 st c) = st" "dsCatalogs (run1 st c) = c"
  unfolding run1_def
  by (simp_all add: run0_def entry_of_def daemon_start_def NewServerWithStorage_def)
    (simp_all add: accepted_def submit_conversion_def)

lemma run_accept: "daemon_step ctl (run0 st c) (Accept ''j1'') (run1 st c)"
  unfolding run1_def by (rule daemon_step.accept [OF sample_accepted run_parts(1)])

text \<open>The goroutine finishes from every state that still has the job and the stores of \<open>run1\<close>.\<close>

lemma run_finish:
  "map_of (dsJobs d) ''j1'' = Some sample_job_cfg \<Longrightarrow> svStorage (dsServer d) = None \<Longrightarrow>
    daemon_step ctl d (Finish ''j1'') (job_done d ''j1'' 20 (dsStores d) (dsCatalogs d) sample_failure)"
  by (rule daemon_step.finish [OF _ sample_job])

theorem status_endpoint_truthful_witness:
  "\<exists>t. handleGetConversionStatus (dsServer (run1 () ())) (status_request ''j1'') =
    \<lparr>HttpCode = 202, HttpBody = ConversionBody (running_response ''j1'' t)\<rparr>"
proof -
  have "daemon_reach (\<lambda>_. undefined) (daemon_start (NewServerWithStorage ''1.0'' None) () ()) (run1 () ())"
    using daemon_reach.step [OF daemon_reach.start run_accept] by (simp add: run0_def)
  from status_endpoint_truthful [OF this, of "''j1''"] show ?thesis by (simp add: run_parts(3))
qed

section \<open>A torn reply\<close>

text \<open>
  C38. The reply to an asynchronous request is copied without the lock, so it can mix two states: the
  status of the record as submitted with the end time of the finished one. Under every adapter there
  is a run in which a client is told \<open>RUNNING\<close> together with an end time.
\<close>

theorem accepted_reply_torn:
  "\<exists>d r. daemon_reach ctl (daemon_start (NewServerWithStorage ''1.0'' None) st c) d \<and> (''j1'', r) \<in> set (dsSent d) \<and>
    Status r = ''RUNNING'' \<and> FinishedAt r \<noteq> None"
proof -
  let ?r0 = "running_response ''j1'' 10" and ?r1 = "ended (running_response ''j1'' 10) 20 sample_failure"
  let ?d1 = "run1 st c"
  let ?d2 = "?d1\<lparr>dsReplies := map_put ''j1'' (CopyFinished ?r0) (dsReplies ?d1)\<rparr>"
  let ?d3 = "job_done ?d2 ''j1'' 20 (dsStores ?d2) (dsCatalogs ?d2) sample_failure"
  let ?d4 = "?d3\<lparr>dsReplies := map_put ''j1'' (CopyResults (clone_finished ?r1 ?r0)) (dsReplies ?d3)\<rparr>"
  let ?d5 = "?d4\<lparr>dsReplies := map_del ''j1'' (dsReplies ?d4), dsSent := dsSent ?d4 @ [(''j1'', clone_results ?r1 (clone_finished ?r1 ?r0))]\<rparr>"
  have s2: "daemon_step ctl ?d1 (Reply ''j1'') ?d2" by (rule daemon_step.copy_struct) (simp_all add: run_parts)
  have s3: "daemon_step ctl ?d2 (Finish ''j1'') ?d3" by (rule run_finish) (simp_all add: run_parts)
  have "entry_of ?d2 ''j1'' = Some ?r0" by (simp add: run_parts)
  from entry_done [OF this] have e3: "entry_of ?d3 ''j1'' = Some ?r1" by (simp only: fun_upd_same)
  have s4: "daemon_step ctl ?d3 (Reply ''j1'') ?d4" by (rule daemon_step.copy_finished [OF _ e3]) simp
  have e4: "entry_of ?d4 ''j1'' = Some ?r1" by (simp only: entry_of_keeps e3)
  have s5: "daemon_step ctl ?d4 (Reply ''j1'') ?d5" by (rule daemon_step.copy_results [OF _ e4]) simp
  have "daemon_reach ctl (run0 st c) ?d5"
    by (intro daemon_reach.step [OF _ s5] daemon_reach.step [OF _ s4] daemon_reach.step [OF _ s3]
        daemon_reach.step [OF _ s2] daemon_reach.step [OF _ run_accept] daemon_reach.start)
  moreover have "(''j1'', clone_results ?r1 (clone_finished ?r1 ?r0)) \<in> set (dsSent ?d5)" by simp
  moreover have "Status (clone_results ?r1 (clone_finished ?r1 ?r0)) = ''RUNNING'' \<and>
      FinishedAt (clone_results ?r1 (clone_finished ?r1 ?r0)) \<noteq> None"
    by (simp add: clone_results_def clone_finished_def ended_def sample_failure_def running_response_def)
  ultimately show ?thesis unfolding run0_def by blast
qed

section \<open>A fair run\<close>

definition run2 :: "(unit, unit) daemon_state" where
  "run2 = job_done (run1 () ()) ''j1'' 20 () () sample_failure"

definition sample_run :: "nat \<Rightarrow> (unit, unit) daemon_state" where
  "sample_run n = (if n = 0 then run0 () () else if n = 1 then run1 () () else run2)"

definition sample_events :: "nat \<Rightarrow> daemon_event" where
  "sample_events n = (if n = 0 then Accept ''j1'' else if n = 1 then Finish ''j1'' else Others)"

lemma run2_stays: "run2\<lparr>dsStores := dsStores run2, dsCatalogs := dsCatalogs run2\<rparr> = run2"
  by (cases run2) simp

lemma sample_run_runs: "daemon_run ctl sample_run sample_events"
proof -
  have "daemon_step ctl (run1 () ()) (Finish ''j1'') run2"
    using run_finish [of "run1 () ()"] by (simp add: run2_def run_parts)
  moreover have "daemon_step ctl run2 Others run2"
    using daemon_step.others [of ctl run2 "dsCatalogs run2" "dsStores run2"] by (simp only: run2_stays)
  ultimately show ?thesis using run_accept by (auto simp: daemon_run_def sample_run_def sample_events_def)
qed

lemma sample_run_fair: "fair_to ctl sample_run sample_events ''j1''"
proof -
  have "\<not> can_finish ctl (sample_run m) ''j1''" if "m \<ge> 2" for m
    using that by (auto simp: can_finish_def sample_run_def run2_def run_parts elim!: finish_stepE)
  then have "\<exists>m\<ge>n. \<not> can_finish ctl (sample_run m) ''j1''" for n
    by (meson nat_le_linear)
  then show ?thesis unfolding fair_to_def by blast
qed

theorem conversion_ends_witness:
  "\<exists>m\<ge>1. \<exists>r. finished_response r \<and> (\<forall>k\<ge>m. entry_of (sample_run k) ''j1'' = Some r)"
  by (rule conversion_ends [OF sample_run_runs _ sample_run_fair])
    (simp_all add: sample_run_def run0_def run_parts)

end
