(* ===== verification/Daemon_Loop.thy ===== *)
theory Daemon_Loop
  imports Conversion_Controller
begin

text \<open>
  \<^verbatim>\<open>pkg/daemon/daemon.go\<close>: the loop that syncs every configured dataset over and over. The datasets are
  shared by pointer, so what a pass fills in (defaults, the resolved table, the default mode) is there
  in the next one. The log lines are the values that are logged; catalogs and adapters are arguments.
\<close>

record daemon =
  dmSourceFormat :: table_format
  dmTargetFormats :: "table_format list"
  dmDatasets :: "dataset_config list"
  dmInterval :: int

definition NewDaemon :: "table_format \<Rightarrow> table_format list \<Rightarrow> dataset_config list \<Rightarrow> int \<Rightarrow> daemon" where
  "NewDaemon sourceFormat targetFormats datasets interval =
     \<lparr>dmSourceFormat = sourceFormat, dmTargetFormats = targetFormats, dmDatasets = datasets,
      dmInterval = (if interval \<le> 0 then 30000000000 else interval)\<rparr>"

definition with_defaults :: "daemon \<Rightarrow> dataset_config \<Rightarrow> dataset_config" where
  "with_defaults d ds =
     (let ds1 = (if DcSourceFormat ds = '''' \<and> dmSourceFormat d \<noteq> '''' then ds\<lparr>DcSourceFormat := dmSourceFormat d\<rparr> else ds)
      in if DcTargetFormats ds1 = [] \<and> dmTargetFormats d \<noteq> [] then ds1\<lparr>DcTargetFormats := dmTargetFormats d\<rparr> else ds1)"

text \<open>What \<^verbatim>\<open>Sync\<close> leaves of the configuration it validates.\<close>

definition validated :: "dataset_config \<Rightarrow> dataset_config" where
  "validated ds = (case Dataset_Validate ds of Inl _ \<Rightarrow> ds | Inr ds' \<Rightarrow> ds')"

datatype pass_log =
    LogResolveFailed string gerr
  | LogStorageFailed string gerr
  | LogSyncFailed string gerr
  | LogResults string sync_results

record ('src, 's, 'c) daemon_env =
  deOps :: "'src catalog_source_ops"
  deNewSource :: "catalog_config \<Rightarrow> 'src res"
  deController :: "backend \<Rightarrow> ('s, 'c) controller"

text \<open>The body of the loop of \<^verbatim>\<open>syncAll\<close>.\<close>

definition sync_dataset :: "('src, 's, 'c) daemon_env \<Rightarrow> daemon \<Rightarrow> dataset_config \<Rightarrow> 's \<Rightarrow> 'c \<Rightarrow>
    (dataset_config \<times> 's \<times> 'c \<times> pass_log) option" where
  "sync_dataset env d ds0 st c =
     (let ds = with_defaults d ds0 in
      case ResolveSourceCatalog (deOps env) (deNewSource env) ds of
        Inl e \<Rightarrow> Some (ds, st, c, LogResolveFailed (DcTableName ds) e)
      | Inr ds \<Rightarrow>
          (case NewStorageForPathWithOptions (DcTableBasePath ds) (StorageOptionFuncs ds) of
             Inl e \<Rightarrow> Some (ds, st, c, LogStorageFailed (DcTableBasePath ds) e)
           | Inr b \<Rightarrow>
               map_option (\<lambda>(st', c', r). (validated ds, st', c',
                   case r of Inl e \<Rightarrow> LogSyncFailed (DcTableName ds) e | Inr results \<Rightarrow> LogResults (DcTableName ds) results))
                 (Sync (deController env b) ds False st c)))"

text \<open>\<open>cancelled i\<close> is what \<^verbatim>\<open>ctx.Err() != nil\<close> gives before the dataset at index \<open>i\<close>.\<close>

fun syncAll :: "('src, 's, 'c) daemon_env \<Rightarrow> daemon \<Rightarrow> (nat \<Rightarrow> bool) \<Rightarrow> nat \<Rightarrow> dataset_config list \<Rightarrow> 's \<Rightarrow> 'c \<Rightarrow>
    (dataset_config list \<times> 's \<times> 'c \<times> pass_log list) option" where
  "syncAll env d cancelled i [] st c = Some ([], st, c, [])"
| "syncAll env d cancelled i (ds # dss) st c =
     (if cancelled i then Some (ds # dss, st, c, [])
      else
        Option.bind (sync_dataset env d ds st c) (\<lambda>(ds', st1, c1, l).
          map_option (\<lambda>(dss', st2, c2, ls). (ds' # dss', st2, c2, l # ls)) (syncAll env d cancelled (Suc i) dss st1 c1)))"

text \<open>\<^verbatim>\<open>Start\<close>: one pass at once and one per tick, until the context is cancelled after \<open>n\<close> ticks.\<close>

fun Start :: "('src, 's, 'c) daemon_env \<Rightarrow> daemon \<Rightarrow> (nat \<Rightarrow> nat \<Rightarrow> bool) \<Rightarrow> nat \<Rightarrow> 's \<Rightarrow> 'c \<Rightarrow>
    (daemon \<times> 's \<times> 'c \<times> pass_log list list) option" where
  "Start env d cancelled 0 st c =
     map_option (\<lambda>(dss, st', c', ls). (d\<lparr>dmDatasets := dss\<rparr>, st', c', [ls]))
       (syncAll env d (cancelled 0) 0 (dmDatasets d) st c)"
| "Start env d cancelled (Suc n) st c =
     Option.bind (Start env d cancelled n st c) (\<lambda>(d', st1, c1, lss).
       map_option (\<lambda>(dss, st', c', ls). (d'\<lparr>dmDatasets := dss\<rparr>, st', c', lss @ [ls]))
         (syncAll env d' (cancelled (Suc n)) 0 (dmDatasets d') st1 c1))"

section \<open>Passes end\<close>

text \<open>What a dataset is configured as when its turn is over.\<close>

definition settled :: "('src, 's, 'c) daemon_env \<Rightarrow> daemon \<Rightarrow> dataset_config \<Rightarrow> dataset_config" where
  "settled env d ds0 =
     (let ds = with_defaults d ds0 in
      case ResolveSourceCatalog (deOps env) (deNewSource env) ds of
        Inl e \<Rightarrow> ds
      | Inr ds \<Rightarrow>
          (case NewStorageForPathWithOptions (DcTableBasePath ds) (StorageOptionFuncs ds) of
             Inl e \<Rightarrow> ds
           | Inr b \<Rightarrow> validated ds))"

lemma sync_dataset_settles: "\<exists>st' c' l. sync_dataset env d ds st c = Some (settled env d ds, st', c', l)"
proof (cases "ResolveSourceCatalog (deOps env) (deNewSource env) (with_defaults d ds)")
  case (Inr ds1)
  show ?thesis
  proof (cases "NewStorageForPathWithOptions (DcTableBasePath ds1) (StorageOptionFuncs ds1)")
    case b: (Inr b)
    from Sync_total [of "deController env b" ds1 False st c] Inr b show ?thesis
      by (auto simp: sync_dataset_def settled_def)
  qed (simp add: sync_dataset_def settled_def Inr)
qed (simp add: sync_dataset_def settled_def Let_def)

lemma syncAll_settles:
  "(\<And>j. \<not> cancelled j) \<Longrightarrow>
    \<exists>st' c' ls. syncAll env d cancelled i dss st c = Some (map (settled env d) dss, st', c', ls) \<and> length ls = length dss"
proof (induction dss arbitrary: i st c)
  case (Cons ds dss)
  obtain st1 c1 l where "sync_dataset env d ds st c = Some (settled env d ds, st1, c1, l)"
    using sync_dataset_settles [of env d ds st c] by blast
  with Cons.IH [of "Suc i" st1 c1] Cons.prems show ?case by auto
qed simp

section \<open>The configuration settles\<close>

lemma with_defaults_formats:
  "DcSourceFormat (with_defaults d ds) = '''' \<Longrightarrow> dmSourceFormat d = ''''"
  "DcTargetFormats (with_defaults d ds) = [] \<Longrightarrow> dmTargetFormats d = []"
  by (auto simp: with_defaults_def Let_def split: if_splits)

lemma with_defaults_fixed:
  "(DcSourceFormat ds = '''' \<Longrightarrow> dmSourceFormat d = '''') \<Longrightarrow> (DcTargetFormats ds = [] \<Longrightarrow> dmTargetFormats d = []) \<Longrightarrow>
    with_defaults d ds = ds"
  by (auto simp: with_defaults_def Let_def)

lemma validated_cases: "validated ds = ds \<or> validated ds = ds\<lparr>DcSyncMode := SyncModeIncremental\<rparr>"
proof (cases "Dataset_Validate ds")
  case (Inr ds')
  then have "ds' = ds \<or> ds' = ds\<lparr>DcSyncMode := SyncModeIncremental\<rparr>"
    by (auto simp: Dataset_Validate_def split: if_splits option.splits)
  with Inr show ?thesis by (simp add: validated_def)
qed (simp add: validated_def)

lemma validated_idem: "validated (validated ds) = validated ds"
proof (cases "Dataset_Validate ds")
  case (Inr ds')
  then have "Dataset_Validate ds' = Inr ds'"
    by (auto simp: Dataset_Validate_def SyncModeIncremental_def split: if_splits option.splits)
  with Inr show ?thesis by (simp add: validated_def)
qed (simp add: validated_def)

lemma resolve_formats:
  assumes "ResolveSourceCatalog ops new ds = Inr ds'"
  shows "DcTargetFormats ds' = DcTargetFormats ds" and "DcSourceFormat ds' = '''' \<Longrightarrow> DcSourceFormat ds = ''''"
  using assms by (auto simp: ResolveSourceCatalog_def Let_def unset_to_def split: option.splits if_splits)

lemma resolve_idem:
  assumes "ResolveSourceCatalog ops new ds = Inr ds'"
  shows "ResolveSourceCatalog ops new (ds'\<lparr>DcSyncMode := m\<rparr>) = Inr (ds'\<lparr>DcSyncMode := m\<rparr>)"
proof (cases "DcSourceCatalog ds")
  case (Some sc)
  let ?i = "\<lparr>IdDatabase = DatabaseName (SccCatalog sc), IdTable = SccTable sc\<rparr>"
  from assms Some obtain src r where r: "SourceCatalog_Validate sc = Inr ()" "new (SccCatalog sc) = Inr src"
      "GetSourceTable ops src ?i = Inr r"
    by (auto simp: ResolveSourceCatalog_def Let_def)
  with assms Some show ?thesis
    by (auto simp: ResolveSourceCatalog_def Let_def unset_to_def)
qed (use assms in \<open>simp add: ResolveSourceCatalog_def\<close>)

lemma settled_idem: "settled env d (settled env d ds) = settled env d ds"
proof -
  let ?w = "with_defaults d ds"
  show ?thesis
  proof (cases "ResolveSourceCatalog (deOps env) (deNewSource env) ?w")
    case (Inl e)
    have "with_defaults d ?w = ?w" by (rule with_defaults_fixed) (simp_all add: with_defaults_formats)
    with Inl show ?thesis by (simp add: settled_def)
  next
    case (Inr ds1)
    have fixed: "settled env d (ds1\<lparr>DcSyncMode := m\<rparr>) =
        (case NewStorageForPathWithOptions (DcTableBasePath ds1) (StorageOptionFuncs ds1) of
           Inl e \<Rightarrow> ds1\<lparr>DcSyncMode := m\<rparr> | Inr b \<Rightarrow> validated (ds1\<lparr>DcSyncMode := m\<rparr>))" for m
    proof -
      have "with_defaults d (ds1\<lparr>DcSyncMode := m\<rparr>) = ds1\<lparr>DcSyncMode := m\<rparr>"
        using resolve_formats [OF Inr] by (intro with_defaults_fixed) (auto dest: with_defaults_formats)
      with resolve_idem [OF Inr, of m] show ?thesis by (simp add: settled_def StorageOptionFuncs_def Let_def)
    qed
    have "ds1 = ds1\<lparr>DcSyncMode := DcSyncMode ds1\<rparr>" by simp
    show ?thesis
    proof (cases "NewStorageForPathWithOptions (DcTableBasePath ds1) (StorageOptionFuncs ds1)")
      case n: (Inl e)
      then have "settled env d ds = ds1" by (simp add: settled_def Inr)
      with fixed [of "DcSyncMode ds1"] n show ?thesis by simp
    next
      case b: (Inr b)
      then have s: "settled env d ds = validated ds1" by (simp add: settled_def Inr)
      from validated_cases [of ds1] obtain m where m: "validated ds1 = ds1\<lparr>DcSyncMode := m\<rparr>"
        by (metis dataset_config.surjective dataset_config.update_convs(7))
      from fixed [of m] b show ?thesis by (simp add: s m [symmetric] validated_idem)
    qed
  qed
qed

text \<open>
  A pass of the daemon visits every dataset, whatever fails on the way, and the configuration it
  works with settles with the first pass: as long as the catalogs answer alike, later passes sync the
  same datasets from the same paths with the same formats, mode and credentials.
\<close>

theorem daemon_config_settles:
  assumes "syncAll env d (\<lambda>_. False) 0 dss st c = Some (dss', st', c', ls)"
  shows "length ls = length dss \<and>
    (\<exists>st2' c2' ls2. syncAll env d (\<lambda>_. False) 0 dss' st2 c2 = Some (dss', st2', c2', ls2) \<and> length ls2 = length dss)"
proof -
  from syncAll_settles [of "\<lambda>_. False" env d 0 dss st c] assms have "dss' = map (settled env d) dss" "length ls = length dss"
    by auto
  with syncAll_settles [of "\<lambda>_. False" env d 0 dss' st2 c2] show ?thesis by (simp add: settled_idem comp_def)
qed

section \<open>A sample pass\<close>

text \<open>A dataset without formats takes the daemon's; its source cannot be created.\<close>

definition sample_loop_env :: "(unit, unit, unit) daemon_env" where
  "sample_loop_env =
     \<lparr>deOps = \<lparr>GetSourceTable = \<lambda>_ _. Inl (ErrMsg ''none''), ListTables = \<lambda>_ _ _. []\<rparr>,
      deNewSource = \<lambda>_. Inl (ErrMsg ''none''),
      deController = \<lambda>_. \<lparr>createSource = \<lambda>_ _. Inl (ErrMsg ''none''), createTarget = \<lambda>_ _ _. Inl (ErrMsg ''none''),
        newCatalogClient = \<lambda>_. Inl (ErrMsg ''none''), elapsed = 0\<rparr>\<rparr>"

definition sample_loop_dataset :: dataset_config where
  "sample_loop_dataset =
     \<lparr>DcSourceFormat = '''', DcTargetFormats = [], DcTableBasePath = ''mem://t'', DcTableDataPath = '''',
      DcTableName = ''t'', DcNamespace = '''', DcSyncMode = '''', DcStorage = None, DcCatalogs = [],
      DcSourceCatalog = None, DcVendedCredentials = None\<rparr>"

definition sample_loop :: daemon where
  "sample_loop = NewDaemon TableFormatDelta [TableFormatHudi] [sample_loop_dataset] 0"

theorem daemon_config_settles_witness:
  "\<exists>st c ls. syncAll sample_loop_env sample_loop (\<lambda>_. False) 0
      [settled sample_loop_env sample_loop sample_loop_dataset] () () =
    Some ([settled sample_loop_env sample_loop sample_loop_dataset], st, c, ls) \<and> length ls = 1"
proof -
  obtain st' c' ls where "syncAll sample_loop_env sample_loop (\<lambda>_. False) 0 [sample_loop_dataset] () () =
      Some ([settled sample_loop_env sample_loop sample_loop_dataset], st', c', ls)"
    using syncAll_settles [of "\<lambda>_. False" sample_loop_env sample_loop 0 "[sample_loop_dataset]"] by auto
  from daemon_config_settles [OF this] show ?thesis by auto
qed

end
