(* ===== verification/Parquet_Merge.thy ===== *)
theory Parquet_Merge
  imports Model_Core "HOL-Library.Product_Lexorder"
begin

text \<open>
  \<^verbatim>\<open>pkg/formats/parquet/merge.go\<close>: the read schema of an unmanaged directory as the union of the
  schemas of its files. The lemmas show that the answer does not depend on the order of the listing,
  and what it says of every column of every file.
\<close>

section \<open>Signatures\<close>

definition metadata_any :: "schema \<Rightarrow> metadata_key \<Rightarrow> any" where
  "metadata_any s k = (case Metadata s k of None \<Rightarrow> ANil | Some v \<Rightarrow> v)"

function typeSignature :: "schema option \<Rightarrow> string" where
  "typeSignature None = ''<none>''"
| "typeSignature (Some s) =
     (case DataType s of
        TypeDecimal \<Rightarrow>
          ''DECIMAL('' @ sprintv (metadata_any s DecimalPrecision) @ '','' @ sprintv (metadata_any s DecimalScale) @ '')''
      | TypeList \<Rightarrow>
          ''LIST<'' @ (case ElementSchema s of None \<Rightarrow> ''<none>'' | Some f \<Rightarrow> typeSignature (FieldSchema f)) @ ''>''
      | TypeMap \<Rightarrow>
          ''MAP<'' @ (case KeySchema s of None \<Rightarrow> ''<none>'' | Some f \<Rightarrow> typeSignature (FieldSchema f)) @ '','' @
            (case ValueSchema s of None \<Rightarrow> ''<none>'' | Some f \<Rightarrow> typeSignature (FieldSchema f)) @ ''>''
      | TypeRecord \<Rightarrow>
          ''RECORD<'' @ joinWith '','' (map (\<lambda>f. FieldName f @ CHR '':'' # typeSignature (FieldSchema f)) (Fields s)) @ ''>''
      | t \<Rightarrow> Type_String t)"
  by pat_completeness auto
termination
  by (relation "measure child_size")
    (auto simp: child_size_def [of "Some _"] intro: child_size_field child_size_ptr)

declare typeSignature.simps(2) [simp del]

section \<open>Merging\<close>

record footer_schema =
  ftPath :: string
  ftModTime :: int
  ftSchema :: "schema option"

type_synonym record_part = "string \<times> schema"

text \<open>The columns of the parts in order of first appearance, and the occurrences of one of them.\<close>

definition add_name :: "string list \<Rightarrow> string \<Rightarrow> string list" where
  "add_name order name = (if name \<in> set order then order else order @ [name])"

definition column_order :: "record_part list \<Rightarrow> string list" where
  "column_order parts = foldl add_name [] (concat (map (\<lambda>p. map FieldName (Fields (snd p))) parts))"

definition occurrences :: "record_part list \<Rightarrow> string \<Rightarrow> (string \<times> field) list" where
  "occurrences parts name =
     concat (map (\<lambda>p. map (Pair (fst p)) (filter (\<lambda>f. FieldName f = name) (Fields (snd p)))) parts)"

text \<open>An occurrence with its schema; one without a schema is an error.\<close>

definition typed :: "string \<Rightarrow> string \<times> field \<Rightarrow> (string \<times> field \<times> schema) res" where
  "typed path occ =
     (case FieldSchema (snd occ) of
        None \<Rightarrow> Inl (ErrMsg (''column '' @ quoted path @ '' of '' @ fst occ @ '' has no type''))
      | Some s \<Rightarrow> Inr (fst occ, snd occ, s))"

definition checkTypesAgree :: "string \<Rightarrow> string \<times> schema \<Rightarrow> string \<times> schema \<Rightarrow> unit res" where
  "checkTypesAgree path first other =
     (if DataType (snd first) = TypeRecord \<and> DataType (snd other) = TypeRecord then Inr ()
      else
        (let firstType = typeSignature (Some (snd first)); otherType = typeSignature (Some (snd other)) in
         if firstType = otherType then Inr ()
         else Inl (ErrMsg (''column '' @ quoted path @ '' is '' @ firstType @ '' in '' @ fst first @ '' and '' @
           otherType @ '' in '' @ fst other))))"

text \<open>The copy keeps the merged schema from sharing its metadata with a file's; as values they are equal.\<close>

definition cloneSchema :: "schema \<Rightarrow> schema" where
  "cloneSchema s = s"

definition column_path :: "string \<Rightarrow> string \<Rightarrow> string" where
  "column_path parent name = (if parent = '''' then name else parent @ ''.'' @ name)"

lemma typed_eq: "typed path occ = Inr v \<longleftrightarrow> (\<exists>s. FieldSchema (snd occ) = Some s \<and> v = (fst occ, snd occ, s))"
  by (auto simp: typed_def split: option.splits)

lemma views_size:
  assumes "map_res (typed path) (occurrences parts name) = Inr views" and "views \<noteq> []"
  shows "sum_list (map (\<lambda>v. size (snd (snd v))) views) < sum_list (map (\<lambda>p. size (snd p)) parts)"
proof -
  have views: "sum_list (map (\<lambda>v. size (snd (snd v))) vs) \<le> sum_list (map (\<lambda>o'. size (snd o')) occs)"
    if "map_res (typed path) occs = Inr vs" for occs vs
    using that
  proof (induction occs arbitrary: vs)
    case (Cons occ occs)
    then obtain s vs' where v: "FieldSchema (snd occ) = Some s" "vs = (fst occ, snd occ, s) # vs'" "map_res (typed path) occs = Inr vs'"
      by (auto simp: typed_eq split: sum.splits)
    have "size s < size (snd occ)" using v(1) by (cases "snd occ") auto
    with Cons.IH [OF v(3)] v(2) show ?case by simp
  qed simp
  have one: "sum_list (map (\<lambda>o'. size (snd o')) (map (Pair f) (filter P fs))) \<le> size_list size fs" for f P and fs :: "field list"
    by (induction fs) auto
  have part: "size_list size (Fields s) < size s" for s by (cases s) auto
  have occs: "sum_list (map (\<lambda>o'. size (snd o')) (occurrences ps name)) \<le> sum_list (map (\<lambda>p. size (snd p)) ps) \<and>
      (ps \<noteq> [] \<longrightarrow> sum_list (map (\<lambda>o'. size (snd o')) (occurrences ps name)) < sum_list (map (\<lambda>p. size (snd p)) ps))" for ps
  proof (induction ps)
    case (Cons p ps)
    have "sum_list (map (\<lambda>o'. size (snd o')) (occurrences (p # ps) name)) =
        sum_list (map (\<lambda>o'. size (snd o')) (map (Pair (fst p)) (filter (\<lambda>f. FieldName f = name) (Fields (snd p))))) +
        sum_list (map (\<lambda>o'. size (snd o')) (occurrences ps name))"
      by (simp add: occurrences_def)
    with Cons.IH one [of "fst p" "\<lambda>f. FieldName f = name" "Fields (snd p)"] part [of "snd p"] show ?case by simp
  qed (simp add: occurrences_def)
  have "parts \<noteq> []" using assms by (auto simp: occurrences_def)
  with views [OF assms(1)] occs [of parts] show ?thesis by simp
qed

function mergeRecords :: "record_part list \<Rightarrow> string \<Rightarrow> schema res" where
  "mergeRecords parts parent =
     bind_res
       (map_res (\<lambda>name.
          bind_res (map_res (typed (column_path parent name)) (occurrences parts name)) (\<lambda>views.
          case views of
            [] \<Rightarrow> Inl (ErrPanic ''index out of range'')
          | (file, first, s) # rest \<Rightarrow>
              bind_res (map_res (checkTypesAgree (column_path parent name) (file, s)) (map (\<lambda>v. (fst v, snd (snd v))) rest)) (\<lambda>_.
              bind_res
                (if DataType s = TypeRecord
                 then mergeRecords (map (\<lambda>v. (fst v, snd (snd v))) views) (column_path parent name)
                 else Inr (cloneSchema s)) (\<lambda>schema.
              Inr (Field name (ParentPath first)
                (Some (set_nullable (length views < length parts \<or> list_ex (\<lambda>v. IsNullable (snd (snd v))) views) schema))
                (FieldID first) (DefaultValue first))))))
          (column_order parts))
       (\<lambda>merged.
          case parts of
            [] \<Rightarrow> Inl (ErrPanic ''index out of range'')
          | p # _ \<Rightarrow> Inr (NewRecordSchema (SchemaName (snd p)) merged (IsNullable (snd p))))"
  by pat_completeness auto
termination
  by (relation "measure (\<lambda>(parts, _). sum_list (map (\<lambda>p. size (snd p)) parts))")
    (auto simp: comp_def dest!: views_size)

declare mergeRecords.simps [simp del]

definition MergeFooterSchemas :: "footer_schema list \<Rightarrow> schema option res" where
  "MergeFooterSchemas footers =
     (let ordered = sort_key (\<lambda>f. (- ftModTime f, ftPath f)) (filter (\<lambda>f. ftSchema f \<noteq> None) footers) in
      if ordered = [] then Inr None
      else
        bind_res (mergeRecords (List.map_filter (\<lambda>f. map_option (Pair (ftPath f)) (ftSchema f)) ordered) '''')
          (\<lambda>s. Inr (Some s)))"

section \<open>The order of the listing does not matter\<close>

text \<open>
  The merged schema, or the conflict, depends on the files alone: listing the same footers in another
  order gives the same answer, as long as no two of them agree in both modification time and path.
\<close>

theorem merge_file_order:
  assumes "mset footers = mset footers'" and "distinct (map (\<lambda>f. (ftModTime f, ftPath f)) footers)"
  shows "MergeFooterSchemas footers = MergeFooterSchemas footers'"
proof -
  let ?k = "\<lambda>f. (- ftModTime f, ftPath f)" and ?fs = "filter (\<lambda>f. ftSchema f \<noteq> None) footers"
    and ?gs = "filter (\<lambda>f. ftSchema f \<noteq> None) footers'"
  have "inj_on (\<lambda>f. (ftModTime f, ftPath f)) (set footers)" using assms(2) by (simp add: distinct_map)
  then have "inj_on ?k (set ?fs)" by (auto simp: inj_on_def)
  moreover have "mset ?fs = mset (sort_key ?k ?gs)" using assms(1) by (simp add: mset_filter)
  ultimately have "sort_key ?k ?fs = sort_key ?k ?gs" by (intro sort_key_inj_key_eq) simp_all
  then show ?thesis by (simp only: MergeFooterSchemas_def)
qed

definition sample_footers :: "footer_schema list" where
  "sample_footers =
     [\<lparr>ftPath = ''a.parquet'', ftModTime = 1,
       ftSchema = Some (NewRecordSchema ''root'' [mkField ''id'' (Some (NewPrimitiveSchema TypeInt False))] False)\<rparr>,
      \<lparr>ftPath = ''b.parquet'', ftModTime = 2,
       ftSchema = Some (NewRecordSchema ''root'' [mkField ''name'' (Some (NewPrimitiveSchema TypeString False)),
         mkField ''id'' (Some (NewPrimitiveSchema TypeInt False))] False)\<rparr>]"

theorem merge_file_order_witness:
  "MergeFooterSchemas sample_footers = MergeFooterSchemas (rev sample_footers)"
  by (rule merge_file_order) (simp_all add: sample_footers_def)

section \<open>What the merged schema says of each file\<close>

lemma foldl_add_name:
  "set (foldl add_name ns xs) = set ns \<union> set xs \<and> (distinct ns \<longrightarrow> distinct (foldl add_name ns xs)) \<and>
    (\<exists>zs. foldl add_name ns xs = ns @ zs)"
proof (induction xs arbitrary: ns)
  case (Cons x xs)
  obtain zs where "foldl add_name (add_name ns x) xs = add_name ns x @ zs" using Cons.IH by blast
  then have "\<exists>zs. foldl add_name (add_name ns x) xs = ns @ zs" by (simp add: add_name_def)
  with Cons.IH [of "add_name ns x"] show ?case by (auto simp: add_name_def)
qed simp

lemma foldl_add_name_new: "distinct (ns @ xs) \<Longrightarrow> foldl add_name ns xs = ns @ xs"
  by (induction xs arbitrary: ns) (auto simp: add_name_def)

lemma set_column_order: "set (column_order parts) = (\<Union>p \<in> set parts. FieldName ` set (Fields (snd p)))"
  using foldl_add_name [of "[]"] by (auto simp: column_order_def)

lemma distinct_column_order: "distinct (column_order parts)"
  using foldl_add_name [of "[]"] by (simp add: column_order_def)

lemma prefix_column_order:
  assumes "distinct (map FieldName (Fields (snd p)))"
  shows "\<exists>older. column_order (p # parts) = map FieldName (Fields (snd p)) @ older"
  using foldl_add_name_new [of "[]" "map FieldName (Fields (snd p))"] assms
    foldl_add_name [of "map FieldName (Fields (snd p))" "concat (map (\<lambda>p. map FieldName (Fields (snd p))) parts)"]
  by (simp add: column_order_def)

lemma set_nullable_simps [simp]:
  "DataType (set_nullable n s) = DataType s" "IsNullable (set_nullable n s) = n" "Fields (set_nullable n s) = Fields s"
  "ElementSchema (set_nullable n s) = ElementSchema s" "KeySchema (set_nullable n s) = KeySchema s"
  "ValueSchema (set_nullable n s) = ValueSchema s" "Metadata (set_nullable n s) = Metadata s"
  by (cases s; simp)+

lemma typeSignature_set_nullable [simp]: "typeSignature (Some (set_nullable n s)) = typeSignature (Some s)"
  by (cases "DataType s") (simp_all add: typeSignature.simps(2) metadata_any_def)

text \<open>Two types the merge takes for one: both structs, or the same signature.\<close>

definition agree :: "schema \<Rightarrow> schema \<Rightarrow> bool" where
  "agree s t \<longleftrightarrow> DataType s = TypeRecord \<and> DataType t = TypeRecord \<or> typeSignature (Some s) = typeSignature (Some t)"

lemma checkTypesAgree_ok: "checkTypesAgree path (f, s) (g, t) = Inr u \<longleftrightarrow> agree s t"
  by (simp add: checkTypesAgree_def agree_def Let_def)

text \<open>The part of a merged column that does not depend on its nested columns.\<close>

definition merged_column :: "record_part list \<Rightarrow> field \<Rightarrow> bool" where
  "merged_column parts c \<longleftrightarrow>
     (\<exists>m. FieldSchema c = Some m \<and>
       (\<forall>p \<in> set parts. \<forall>f \<in> set (Fields (snd p)). FieldName f = FieldName c \<longrightarrow>
          (\<exists>s. FieldSchema f = Some s \<and> agree m s)) \<and>
       (IsNullable m \<longleftrightarrow> length (occurrences parts (FieldName c)) < length parts \<or>
          (\<exists>o' \<in> set (occurrences parts (FieldName c)). \<exists>s. FieldSchema (snd o') = Some s \<and> IsNullable s)))"

lemma in_occurrences: "p \<in> set parts \<Longrightarrow> f \<in> set (Fields (snd p)) \<Longrightarrow> (fst p, f) \<in> set (occurrences parts (FieldName f))"
  by (force simp: occurrences_def)

lemma signature_record:
  assumes "typeSignature (Some s) = typeSignature (Some t)" and "DataType s = TypeRecord"
  shows "DataType t = TypeRecord"
proof -
  have "hd (typeSignature (Some s)) = CHR ''R''" by (simp add: typeSignature.simps(2) assms(2))
  with assms(1) have "hd (typeSignature (Some t)) = CHR ''R''" by simp
  then show ?thesis by (cases "DataType t") (simp_all add: typeSignature.simps(2))
qed

lemma agree_refl [simp]: "agree s s"
  by (simp add: agree_def)

lemma agree_record: "agree s t \<Longrightarrow> DataType s = TypeRecord \<Longrightarrow> DataType t = TypeRecord"
  using signature_record by (auto simp: agree_def)

text \<open>The merge of one column, over the merge \<open>rec\<close> of the structs below it.\<close>

definition merge_column :: "(record_part list \<Rightarrow> string \<Rightarrow> schema res) \<Rightarrow> record_part list \<Rightarrow> string \<Rightarrow> string \<Rightarrow> field res" where
  "merge_column rec parts parent name =
     bind_res (map_res (typed (column_path parent name)) (occurrences parts name)) (\<lambda>views.
     case views of
       [] \<Rightarrow> Inl (ErrPanic ''index out of range'')
     | (fl, first, s) # rest \<Rightarrow>
         bind_res (map_res (checkTypesAgree (column_path parent name) (fl, s)) (map (\<lambda>v. (fst v, snd (snd v))) rest)) (\<lambda>_.
         bind_res
           (if DataType s = TypeRecord then rec (map (\<lambda>v. (fst v, snd (snd v))) views) (column_path parent name)
            else Inr (cloneSchema s)) (\<lambda>schema.
         Inr (Field name (ParentPath first)
           (Some (set_nullable (length views < length parts \<or> list_ex (\<lambda>v. IsNullable (snd (snd v))) views) schema))
           (FieldID first) (DefaultValue first)))))"

lemma mergeRecords_eq:
  "mergeRecords parts parent =
     bind_res (map_res (merge_column mergeRecords parts parent) (column_order parts))
       (\<lambda>merged.
          case parts of
            [] \<Rightarrow> Inl (ErrPanic ''index out of range'')
          | p # _ \<Rightarrow> Inr (NewRecordSchema (SchemaName (snd p)) merged (IsNullable (snd p))))"
  by (subst mergeRecords.simps) (simp only: merge_column_def [abs_def])

lemma merge_column_Inr:
  assumes "merge_column rec parts parent name = Inr c"
  obtains fl first s rest us schema where
    "map_res (typed (column_path parent name)) (occurrences parts name) = Inr ((fl, first, s) # rest)"
    "map_res (checkTypesAgree (column_path parent name) (fl, s)) (map (\<lambda>v. (fst v, snd (snd v))) rest) = Inr us"
    "(if DataType s = TypeRecord then rec (map (\<lambda>v. (fst v, snd (snd v))) ((fl, first, s) # rest)) (column_path parent name)
      else Inr (cloneSchema s)) = Inr schema"
    "c = Field name (ParentPath first)
      (Some (set_nullable (length ((fl, first, s) # rest) < length parts \<or>
        list_ex (\<lambda>v. IsNullable (snd (snd v))) ((fl, first, s) # rest)) schema)) (FieldID first) (DefaultValue first)"
proof -
  from assms obtain views where views: "map_res (typed (column_path parent name)) (occurrences parts name) = Inr views"
    unfolding merge_column_def bind_res_eq_Inr by blast
  from assms have "views \<noteq> []" by (auto simp: merge_column_def views)
  then obtain fl first s rest where v: "views = (fl, first, s) # rest" by (metis list.exhaust prod_cases3)
  show ?thesis
    using assms that [OF views [unfolded v]]
    unfolding merge_column_def views v bind_res.simps list.case prod.case bind_res_eq_Inr sum.inject by blast
qed

lemma mergeRecords_parts:
  "mergeRecords parts parent = Inr m \<Longrightarrow>
    DataType m = TypeRecord \<and> map_res (merge_column mergeRecords parts parent) (column_order parts) = Inr (Fields m)"
  by (cases parts) (auto simp: mergeRecords_eq NewRecordSchema_def)

lemma merge_column_name: "merge_column rec parts parent name = Inr c \<Longrightarrow> FieldName c = name"
  by (elim merge_column_Inr) simp

lemma mergeRecords_names:
  assumes "mergeRecords parts parent = Inr m"
  shows "map FieldName (Fields m) = column_order parts"
proof -
  have "map_res (merge_column mergeRecords parts parent) names = Inr cols \<Longrightarrow> map FieldName cols = names" for names cols
    by (induction names arbitrary: cols) (auto split: sum.splits dest: merge_column_name)
  with mergeRecords_parts [OF assms] show ?thesis by blast
qed

lemma mergeRecords_column:
  assumes "mergeRecords parts parent = Inr m" and "c \<in> set (Fields m)"
  shows "merged_column parts c"
proof -
  from mergeRecords_parts [OF assms(1)] assms(2) obtain name where "merge_column mergeRecords parts parent name = Inr c"
    by (metis map_res_elem)
  then obtain fl first s rest us schema where
      views0: "map_res (typed (column_path parent name)) (occurrences parts name) = Inr ((fl, first, s) # rest)"
    and check: "map_res (checkTypesAgree (column_path parent name) (fl, s)) (map (\<lambda>v. (fst v, snd (snd v))) rest) = Inr us"
    and sub: "(if DataType s = TypeRecord then mergeRecords (map (\<lambda>v. (fst v, snd (snd v))) ((fl, first, s) # rest)) (column_path parent name)
      else Inr (cloneSchema s)) = Inr schema"
    and c0: "c = Field name (ParentPath first)
      (Some (set_nullable (length ((fl, first, s) # rest) < length parts \<or>
        list_ex (\<lambda>v. IsNullable (snd (snd v))) ((fl, first, s) # rest)) schema)) (FieldID first) (DefaultValue first)"
    by (rule merge_column_Inr)
  define views where vs: "views = (fl, first, s) # rest"
  note views = views0 [folded vs]
  have c: "FieldSchema c = Some (set_nullable (length views < length parts \<or>
      list_ex (\<lambda>v. IsNullable (snd (snd v))) views) schema)" and nm: "FieldName c = name"
    by (simp_all only: c0 vs field.sel)
  have view: "\<exists>s'. FieldSchema (snd o') = Some s' \<and> (fst o', snd o', s') \<in> set views"
    if "o' \<in> set (occurrences parts name)" for o'
    using views that by (auto simp: map_res_Inr_iff list_all2_conv_all_nth in_set_conv_nth typed_eq) (metis fst_conv snd_conv)
  have occ: "(fst v, fst (snd v)) \<in> set (occurrences parts name) \<and> FieldSchema (fst (snd v)) = Some (snd (snd v))"
    if "v \<in> set views" for v
    using map_res_elem [OF views that] by (auto simp: typed_eq)
  have len: "length views = length (occurrences parts name)" using map_res_Inr_length [OF views] .
  have same: "agree s (snd (snd v))" if "v \<in> set views" for v
  proof (cases "v = (fl, first, s)")
    case False
    with that vs have "v \<in> set rest" by auto
    with check show ?thesis by (force simp: map_res_Inr_iff list_all2_conv_all_nth in_set_conv_nth checkTypesAgree_ok)
  qed simp
  have ag: "agree schema s'" if "agree s s'" for s'
  proof (cases "DataType s = TypeRecord")
    case True
    with sub have "DataType schema = TypeRecord" by (simp add: mergeRecords_parts)
    with agree_record [OF that True] show ?thesis by (simp add: agree_def)
  next
    case False
    with sub that show ?thesis by (simp add: cloneSchema_def)
  qed
  show ?thesis
    unfolding merged_column_def nm c
  proof (rule exI, intro conjI ballI impI)
    fix p f assume p: "p \<in> set parts" "f \<in> set (Fields (snd p))" "FieldName f = name"
    from view [OF in_occurrences [OF p(1,2), unfolded p(3)]] obtain s' where s': "FieldSchema f = Some s'" "(fst p, f, s') \<in> set views"
      by auto
    with ag [OF same [OF s'(2)]] show "\<exists>s'. FieldSchema f = Some s' \<and>
        agree (set_nullable (length views < length parts \<or> list_ex (\<lambda>v. IsNullable (snd (snd v))) views) schema) s'"
      by (auto simp: agree_def)
  next
    show "IsNullable (set_nullable (length views < length parts \<or> list_ex (\<lambda>v. IsNullable (snd (snd v))) views) schema) =
        (length (occurrences parts name) < length parts \<or>
          (\<exists>o' \<in> set (occurrences parts name). \<exists>s. FieldSchema (snd o') = Some s \<and> IsNullable s))"
      using view occ by (fastforce simp: len list_ex_iff)
  qed (rule refl)
qed

lemma occurrences_count:
  assumes "list_all (\<lambda>p. distinct (map FieldName (Fields (snd p)))) parts"
  shows "length (occurrences parts name) \<le> length parts \<and>
    (length (occurrences parts name) < length parts \<longleftrightarrow> (\<exists>p \<in> set parts. \<forall>f \<in> set (Fields (snd p)). FieldName f \<noteq> name))"
  using assms
proof (induction parts)
  case (Cons p parts)
  have one: "length (filter (\<lambda>f. FieldName f = name) fs) = (if name \<in> FieldName ` set fs then 1 else 0)"
    if "distinct (map FieldName fs)" for fs
    using that by (induction fs) (auto simp: image_iff)
  have "length (occurrences (p # parts) name) =
      length (filter (\<lambda>f. FieldName f = name) (Fields (snd p))) + length (occurrences parts name)"
    by (simp add: occurrences_def)
  with one [of "Fields (snd p)"] Cons show ?case by (auto simp: image_iff)
qed (simp add: occurrences_def)

text \<open>A file whose rows can be without a value for a column: it does not carry it, or carries it as nullable.\<close>

definition nullable_in :: "string \<Rightarrow> schema \<Rightarrow> bool" where
  "nullable_in name s \<longleftrightarrow>
     (\<forall>f \<in> set (Fields s). FieldName f \<noteq> name) \<or>
     (\<exists>f \<in> set (Fields s). FieldName f = name \<and> (\<exists>t. FieldSchema f = Some t \<and> IsNullable t))"

lemma set_occurrences:
  "set (occurrences parts name) = (\<Union>p \<in> set parts. Pair (fst p) ` {f \<in> set (Fields (snd p)). FieldName f = name})"
  by (simp add: occurrences_def)

lemma merged_nullable:
  assumes "list_all (\<lambda>p. distinct (map FieldName (Fields (snd p)))) parts"
  shows "length (occurrences parts name) < length parts \<or>
      (\<exists>o' \<in> set (occurrences parts name). \<exists>s. FieldSchema (snd o') = Some s \<and> IsNullable s) \<longleftrightarrow>
    (\<exists>p \<in> set parts. nullable_in name (snd p))"
proof -
  have "(\<exists>o' \<in> set (occurrences parts name). \<exists>s. FieldSchema (snd o') = Some s \<and> IsNullable s) \<longleftrightarrow>
      (\<exists>p \<in> set parts. \<exists>f \<in> set (Fields (snd p)). FieldName f = name \<and> (\<exists>t. FieldSchema f = Some t \<and> IsNullable t))"
    unfolding set_occurrences by (simp, blast)
  with occurrences_count [OF assms, of name] show ?thesis by (auto simp: nullable_in_def)
qed

text \<open>The files that have a schema, as the merge sees them.\<close>

definition footer_schemas :: "footer_schema list \<Rightarrow> schema set" where
  "footer_schemas footers = {s. \<exists>f \<in> set footers. ftSchema f = Some s}"

lemma footer_parts:
  "snd ` set (List.map_filter (\<lambda>f. map_option (Pair (ftPath f)) (ftSchema f)) (sort_key k (filter (\<lambda>f. ftSchema f \<noteq> None) footers))) =
    footer_schemas footers"
  by (force simp: footer_schemas_def List.map_filter_def)


lemma sample_merge:
  "MergeFooterSchemas sample_footers = Inr (Some (NewRecordSchema ''root''
     [mkField ''name'' (Some (NewPrimitiveSchema TypeString True)), mkField ''id'' (Some (NewPrimitiveSchema TypeInt False))] False))"
proof -
  have "sort_key (\<lambda>f. (- ftModTime f, ftPath f)) (filter (\<lambda>f. ftSchema f \<noteq> None) sample_footers) = rev sample_footers"
    by (simp add: sample_footers_def)
  then show ?thesis
    by (simp add: MergeFooterSchemas_def mergeRecords_eq merge_column_def column_order_def occurrences_def add_name_def
        sample_footers_def typed_def checkTypesAgree_def typeSignature.simps(2) cloneSchema_def NewRecordSchema_def
        NewPrimitiveSchema_def column_path_def List.map_filter_def Let_def)
qed


end
