(* ===== verification/Go_Parse.thy ===== *)
theory Go_Parse
  imports Go_Float Go_Time
begin

text \<open>
  Which texts \<^verbatim>\<open>strconv.ParseFloat(s, 64)\<close>, \<^verbatim>\<open>strconv.ParseBool\<close> and \<^verbatim>\<open>time.Parse(time.DateOnly, s)\<close>
  accept. A float may be decimal or hexadecimal, with underscores between digits, and must not round
  to an infinity unless it is one.
\<close>

definition is_hex :: "char \<Rightarrow> bool" where
  "is_hex c \<longleftrightarrow> is_digit c \<or> (CHR ''a'' \<le> lower_char c \<and> lower_char c \<le> CHR ''f'')"

definition hex_digit_val :: "char \<Rightarrow> nat" where
  "hex_digit_val c = (if is_digit c then digit_val c else of_char (lower_char c) - 87)"

definition drop_sign :: "string \<Rightarrow> string" where
  "drop_sign s = (case s of c # r \<Rightarrow> if c = CHR ''-'' \<or> c = CHR ''+'' then r else s | [] \<Rightarrow> [])"

text \<open>Underscores have to stand between digits; a hexadecimal prefix counts as a digit. \<open>saw\<close> is the last kind of character.\<close>

datatype seen = SeenStart | SeenDigit | SeenUnderscore | SeenOther

fun underscore_scan :: "bool \<Rightarrow> seen \<Rightarrow> string \<Rightarrow> bool" where
  "underscore_scan hex saw [] \<longleftrightarrow> saw \<noteq> SeenUnderscore"
| "underscore_scan hex saw (c # s) \<longleftrightarrow>
     (if is_digit c \<or> (hex \<and> is_hex c) then underscore_scan hex SeenDigit s
      else if c = CHR ''_'' then saw = SeenDigit \<and> underscore_scan hex SeenUnderscore s
      else saw \<noteq> SeenUnderscore \<and> underscore_scan hex SeenOther s)"

definition underscoreOK :: "string \<Rightarrow> bool" where
  "underscoreOK s =
     (case drop_sign s of
        z # p # r \<Rightarrow>
          if z = CHR ''0'' \<and> (lower_char p = CHR ''b'' \<or> lower_char p = CHR ''o'' \<or> lower_char p = CHR ''x'')
          then underscore_scan (lower_char p = CHR ''x'') SeenDigit r
          else underscore_scan False SeenStart (z # p # r)
      | r \<Rightarrow> underscore_scan False SeenStart r)"

text \<open>
  A mantissa with at most one point: the digits before and after it and the rest; and the exponent's
  value, which stops growing at ten thousand.
\<close>

definition mantissa :: "(char \<Rightarrow> bool) \<Rightarrow> string \<Rightarrow> string \<times> string \<times> string" where
  "mantissa dig s =
     (let ip = takeWhile dig s; r = dropWhile dig s in
      case r of
        c # r' \<Rightarrow> if c = CHR ''.'' then (ip, takeWhile dig r', dropWhile dig r') else (ip, [], r)
      | [] \<Rightarrow> (ip, [], []))"

definition exp_value :: "string \<Rightarrow> nat" where
  "exp_value ds = foldl (\<lambda>e c. if e < 10000 then e * 10 + digit_val c else e) 0 ds"

definition exponent :: "char \<Rightarrow> string \<Rightarrow> int option" where
  "exponent mark s =
     (case s of
        [] \<Rightarrow> None
      | c # r \<Rightarrow>
          if lower_char c \<noteq> mark then None
          else
            (let ds = drop_sign r in
             if ds = [] \<or> \<not> list_all is_digit ds then None
             else Some (if hasPrefix r ''-'' then - int (exp_value ds) else int (exp_value ds))))"

definition finite_double :: "nat \<Rightarrow> nat \<Rightarrow> int \<Rightarrow> bool" where
  "finite_double base n e \<longleftrightarrow>
     float_trunc (if 0 \<le> e then n * base ^ nat e else n) (if 0 \<le> e then 1 else base ^ nat (- e)) < 2 ^ 1024"

definition decimal_ok :: "string \<Rightarrow> bool" where
  "decimal_ok s =
     (let (ip, fp, r) = mantissa is_digit s in
      ip @ fp \<noteq> [] \<and>
      (case (if r = [] then Some 0 else exponent (CHR ''e'') r) of
         None \<Rightarrow> False
       | Some e \<Rightarrow> finite_double 10 (digits_val (ip @ fp)) (e - int (length fp))))"

definition hex_ok :: "string \<Rightarrow> bool" where
  "hex_ok s =
     (let (ip, fp, r) = mantissa is_hex s in
      ip @ fp \<noteq> [] \<and>
      (case exponent (CHR ''p'') r of
         None \<Rightarrow> False
       | Some e \<Rightarrow> finite_double 2 (foldl (\<lambda>n c. n * 16 + hex_digit_val c) 0 (ip @ fp)) (e - 4 * int (length fp))))"

definition float_word :: "string \<Rightarrow> bool" where
  "float_word s \<longleftrightarrow> map lower_char (drop_sign s) \<in> {''inf'', ''infinity''} \<or> map lower_char s = ''nan''"

definition parseFloat_ok :: "string \<Rightarrow> bool" where
  "parseFloat_ok s \<longleftrightarrow>
     float_word s \<or>
     (CHR ''_'' \<in> set s \<longrightarrow> underscoreOK s) \<and>
     (let t = filter (\<lambda>c. c \<noteq> CHR ''_'') (drop_sign s) in
      case t of
        z # x # r \<Rightarrow> if z = CHR ''0'' \<and> lower_char x = CHR ''x'' then hex_ok r else decimal_ok t
      | _ \<Rightarrow> decimal_ok t)"

definition parseBool_ok :: "string \<Rightarrow> bool" where
  "parseBool_ok s \<longleftrightarrow>
     s \<in> {''1'', ''t'', ''T'', ''true'', ''TRUE'', ''True'', ''0'', ''f'', ''F'', ''false'', ''FALSE'', ''False''}"

definition date_only :: "string \<Rightarrow> int option" where
  "date_only s =
     Option.bind (num4 s) (\<lambda>(y, s). Option.bind (lit (CHR ''-'') s) (\<lambda>s.
     Option.bind (num2 s) (\<lambda>(m, s). Option.bind (lit (CHR ''-'') s) (\<lambda>s.
     Option.bind (num2 s) (\<lambda>(d, s).
       if s = [] \<and> 1 \<le> m \<and> m \<le> 12 \<and> 1 \<le> d \<and> d \<le> daysIn m y then Some (days_from_civil y m d) else None)))))"

end
