(* ===== verification/Parquet_Partition.thy ===== *)
theory Parquet_Partition
  imports Parquet_Merge Go_Parse Storage_Memory
begin

text \<open>
  \<^verbatim>\<open>pkg/formats/parquet/partition.go\<close> and the parts of \<^verbatim>\<open>source.go\<close> that deal with partitions: the
  Hive-style directories of a file, the type of a partition column, and the partition specification of
  a directory. The lemmas show that the directories of a file are read back as written, and that the
  type given to a column fits every value seen for it.
\<close>

definition hiveNullMarker :: string where
  "hiveNullMarker = ''__HIVE_DEFAULT_PARTITION__''"

type_synonym hive_partition = "string \<times> string"

text \<open>\<^verbatim>\<open>filepath.Dir\<close>.\<close>

definition filepath_Dir :: "string \<Rightarrow> string" where
  "filepath_Dir p = path_Clean (rev (dropWhile (\<lambda>c. c \<noteq> CHR ''/'') (rev p)))"

definition HivePartitionsForFile :: "string \<Rightarrow> string \<Rightarrow> hive_partition list" where
  "HivePartitionsForFile filePath basePath =
     (let relPath = trimPrefix (trimPrefix filePath basePath) ''/'';
          dir = filepath_Dir relPath
      in if dir = ''.'' \<or> dir = '''' then []
         else List.map_filter (\<lambda>segment. cutStr segment ''='') (splitChar (CHR ''/'') dir))"

definition PartitionColumnSchema :: "string list \<Rightarrow> schema" where
  "PartitionColumnSchema values =
     (if values = [] \<or> list_ex (\<lambda>v. v = '''' \<or> v = hiveNullMarker) values then NewPrimitiveSchema TypeString True
      else if list_all (\<lambda>v. parseInt v \<noteq> None) values then NewPrimitiveSchema TypeLong True
      else if list_all parseFloat_ok values then NewPrimitiveSchema TypeDouble True
      else if list_all (\<lambda>v. date_only v \<noteq> None) values then NewPrimitiveSchema TypeDate True
      else NewPrimitiveSchema TypeString True)"

section \<open>The partition specification\<close>

text \<open>What the directories said about one column: its key, and each value with a file it was seen on.\<close>

record observed_partition =
  opKey :: string
  opSamples :: "(string \<times> string) list"

definition op_values :: "observed_partition \<Rightarrow> string list" where
  "op_values o' = map fst (opSamples o')"

definition valueFitsType :: "string \<Rightarrow> schema option \<Rightarrow> bool" where
  "valueFitsType v schema =
     (case schema of
        None \<Rightarrow> True
      | Some s \<Rightarrow>
          if v = '''' \<or> v = hiveNullMarker then True
          else
            (case DataType s of
               TypeInt \<Rightarrow> parseInt v \<noteq> None
             | TypeLong \<Rightarrow> parseInt v \<noteq> None
             | TypeFloat \<Rightarrow> parseFloat_ok v
             | TypeDouble \<Rightarrow> parseFloat_ok v
             | TypeDecimal \<Rightarrow> parseFloat_ok v
             | TypeBoolean \<Rightarrow> parseBool_ok v
             | TypeDate \<Rightarrow> date_only v \<noteq> None
             | _ \<Rightarrow> True))"

definition checkValuesFitColumn :: "observed_partition \<Rightarrow> field \<Rightarrow> gerr option" where
  "checkValuesFitColumn column f =
     (case List.find (\<lambda>sample. \<not> valueFitsType (fst sample) (FieldSchema f)) (opSamples column) of
        None \<Rightarrow> None
      | Some (v, path) \<Rightarrow>
          Some (ErrMsg (''partition directory '' @ opKey column @ ''='' @ v @ '' does not fit column '' @
            quoted (Field_Path f) @ '', which the data files declare '' @ typeSignature (FieldSchema f) @ '' ('' @ path @ '')'')))"

text \<open>The assignment \<^verbatim>\<open>schema.Fields = append(schema.Fields, f)\<close>.\<close>

fun append_field :: "field \<Rightarrow> schema \<Rightarrow> schema" where
  "append_field f (Schema n t c nl fs e k v r m) = Schema n t c nl (fs @ [f]) e k v r m"

text \<open>The loop over the observed columns; the schema is nil only when the directory has no footers.\<close>

fun resolve_columns :: "schema \<Rightarrow> observed_partition list \<Rightarrow> (schema \<times> partition_field list) res" where
  "resolve_columns s [] = Inr (s, [])"
| "resolve_columns s (column # columns) =
     (case FieldByPath (Some s) (opKey column) of
        None \<Rightarrow>
          (let f = mkField (opKey column) (Some (PartitionColumnSchema (op_values column))) in
           bind_res (resolve_columns (append_field f s) columns) (\<lambda>(s', pfs).
           Inr (s', mkPartitionField f # pfs)))
      | Some f \<Rightarrow>
          (case checkValuesFitColumn column f of
             Some e \<Rightarrow> Inl e
           | None \<Rightarrow>
               bind_res (resolve_columns s columns) (\<lambda>(s', pfs).
               Inr (s', mkPartitionField f # pfs))))"

definition partitionSpec :: "schema option \<Rightarrow> observed_partition list \<Rightarrow> (schema option \<times> partition_field list) res" where
  "partitionSpec schema observed =
     (if observed = [] then Inr (schema, [])
      else
        (case schema of
           None \<Rightarrow> Inl nil_panic
         | Some s \<Rightarrow> bind_res (resolve_columns s observed) (\<lambda>(s', pfs). Inr (Some s', pfs))))"

section \<open>Directories are read back\<close>

text \<open>A directory segment of a Hive layout: no slash in it and no equals sign in the key.\<close>

definition hive_segment :: "hive_partition \<Rightarrow> string" where
  "hive_segment kv = fst kv @ CHR ''='' # snd kv"

definition hive_ok :: "hive_partition \<Rightarrow> bool" where
  "hive_ok kv \<longleftrightarrow> CHR ''='' \<notin> set (fst kv) \<and> CHR ''/'' \<notin> set (fst kv) \<and> CHR ''/'' \<notin> set (snd kv)"

lemma hive_segment_proper: "hive_ok kv \<Longrightarrow> proper_seg (hive_segment kv)"
  by (cases "fst kv"; cases "tl (fst kv)") (auto simp: hive_segment_def hive_ok_def proper_seg_def)

lemma cut_hive_segment: "hive_ok kv \<Longrightarrow> cutStr (hive_segment kv) ''='' = Some kv"
proof -
  have "CHR ''='' \<notin> set k \<Longrightarrow> cutStr (k @ CHR ''='' # v) ''='' = Some (k, v)" for k v
    by (induction k) (auto simp: hasPrefix_Cons)
  then show "hive_ok kv \<Longrightarrow> cutStr (hive_segment kv) ''='' = Some kv" by (simp add: hive_ok_def hive_segment_def)
qed

lemma filepath_Dir_file:
  assumes "list_all proper_seg ws" and "proper_seg w"
  shows "filepath_Dir (joinWith ''/'' (ws @ [w])) = (if ws = [] then ''.'' else joinWith ''/'' ws)"
proof (cases ws)
  case Nil
  have "dropWhile (\<lambda>c. c \<noteq> CHR ''/'') (rev w) = []" using assms(2) by (auto simp: proper_seg_def dropWhile_eq_Nil_conv)
  with Nil show ?thesis by (simp add: filepath_Dir_def path_Clean_def)
next
  case (Cons v vs)
  have j: "joinWith ''/'' (ws @ [w]) = joinWith ''/'' ws @ CHR ''/'' # w"
    using joinWith_append [of ws "[w]"] Cons by simp
  have "dropWhile (\<lambda>c. c \<noteq> CHR ''/'') (rev w @ CHR ''/'' # rs) = CHR ''/'' # rs" for rs
    using assms(2) by (subst dropWhile_append2) (auto simp: proper_seg_def)
  then have d: "filepath_Dir (joinWith ''/'' (ws @ [w])) = path_Clean (joinWith ''/'' ws @ ''/'')"
    unfolding j by (simp add: filepath_Dir_def)
  have ne: "ws \<noteq> []" using Cons by simp
  have "clean_segs False (vs @ ['''']) st = rev st @ vs" if "list_all proper_seg vs" for vs st
    using that by (induction vs arbitrary: st) (auto simp: proper_seg_def)
  from this [OF assms(1), of "[]"] have cl: "clean_segs False (ws @ ['''']) [] = ws" by simp
  have sp: "splitChar (CHR ''/'') (joinWith ''/'' ws @ ''/'') = ws @ ['''']"
    using splitChar_append [of "CHR ''/''" "joinWith ''/'' ws" "[]"] splitChar_proper [OF ne assms(1)] by simp
  have jn: "joinWith ''/'' ws \<noteq> []" by (rule joinWith_proper_hd(1) [OF ne assms(1)])
  have np: "hasPrefix (joinWith ''/'' ws @ ''/'') ''/'' = False"
    using jn joinWith_proper_hd(2) [OF ne assms(1)] by (cases "joinWith ''/'' ws") (simp_all add: hasPrefix_Cons)
  show ?thesis unfolding d path_Clean_def Let_def sp np cl using ne jn by simp
qed

text \<open>
  A data file below its partition directories is read back with exactly those partitions, outermost
  first, for every base path, also for keys and values with odd characters, the values with equals
  signs among them.
\<close>

theorem hive_partitions_roundtrip:
  assumes "list_all hive_ok kvs" and "proper_seg w"
  shows "HivePartitionsForFile (base @ ''/'' @ joinWith ''/'' (map hive_segment kvs @ [w])) base = kvs"
proof -
  let ?dirs = "map hive_segment kvs"
  have p: "list_all proper_seg ?dirs" using assms(1) by (auto simp: list_all_iff hive_segment_proper)
  have rel: "trimPrefix (trimPrefix (base @ ''/'' @ joinWith ''/'' (?dirs @ [w])) base) ''/'' = joinWith ''/'' (?dirs @ [w])"
    by (simp only: trimPrefix_append)
  show ?thesis
  proof (cases "kvs = []")
    case False
    have "joinWith ''/'' ?dirs \<noteq> '''' \<and> joinWith ''/'' ?dirs \<noteq> ''.''"
    proof (intro conjI notI)
      assume d: "joinWith ''/'' ?dirs = ''.''"
      have "?dirs = splitChar (CHR ''/'') ''.''" using splitChar_proper [OF _ p] False by (simp add: d)
      then have "list_all proper_seg [''.'']" using p by simp
      then show False by (simp add: proper_seg_def)
    qed (use joinWith_proper_hd(1) [OF _ p] False in simp)
    moreover have "List.map_filter (\<lambda>s. cutStr s ''='') ?dirs = kvs"
      using assms(1) by (induction kvs) (simp_all add: List.map_filter_def cut_hive_segment)
    ultimately show ?thesis
      using False splitChar_proper [OF _ p]
      by (simp only: HivePartitionsForFile_def rel Let_def filepath_Dir_file [OF p assms(2)]) simp
  next
    case True
    have "filepath_Dir (joinWith ''/'' (?dirs @ [w])) = ''.''"
      using filepath_Dir_file [OF p assms(2)] by (simp only: True list.map if_True simp_thms)
    then show ?thesis unfolding HivePartitionsForFile_def rel Let_def using True by simp
  qed
qed

theorem hive_partitions_roundtrip_witness:
  "HivePartitionsForFile (''s3://b/t'' @ ''/'' @ joinWith ''/'' (map hive_segment [(''region'', ''eu=w''), (''day'', ''2026-01-02'')] @ [''part-0.parquet'']))
     ''s3://b/t'' = [(''region'', ''eu=w''), (''day'', ''2026-01-02'')]"
  by (rule hive_partitions_roundtrip) (simp_all add: hive_ok_def proper_seg_def)

section \<open>The specification fits the directories\<close>

lemma column_schema_fits: "v \<in> set values \<Longrightarrow> valueFitsType v (Some (PartitionColumnSchema values))"
  by (auto simp: PartitionColumnSchema_def valueFitsType_def NewPrimitiveSchema_def list_all_iff list_ex_iff split: if_splits)

lemma find_SomeD: "List.find P xs = Some x \<Longrightarrow> x \<in> set xs \<and> P x"
  by (induction xs) (auto split: if_splits)

lemma checkValuesFit_None:
  "checkValuesFitColumn column f = None \<Longrightarrow>
    list_all (\<lambda>sample. valueFitsType (fst sample) (FieldSchema f)) (opSamples column)"
  by (auto simp: checkValuesFitColumn_def list_all_iff find_None_iff split: option.splits)

lemma append_field_simps [simp]: "Fields (append_field f s) = Fields s @ [f]"
  by (cases s) simp

lemma resolve_path_nested: "resolve_path s p = Some f \<Longrightarrow> nested_in f (Fields s)"
proof (induction s p rule: resolve_path.induct)
  case (3 current part nxt parts)
  then obtain g s where g: "match_field part None (Fields current) = Some g" "FieldSchema g = Some s"
    "DataType s = TypeRecord" "resolve_path s (nxt # parts) = Some f"
    by (auto split: option.splits if_splits)
  with 3(1) [OF g(1,2)] have "nested_in f (children g)" by (simp add: children_def)
  with match_field_Some [OF g(1)] show ?case by (blast intro: nested_in.below)
qed (auto dest: match_field_Some intro: nested_in.top)

text \<open>A partition field of a column: the schema defines it and its type fits every value seen.\<close>

definition fitting_field :: "schema \<Rightarrow> observed_partition \<Rightarrow> partition_field \<Rightarrow> bool" where
  "fitting_field s column pf \<longleftrightarrow>
     (\<exists>f. SourceField pf = Some f \<and> nested_in f (Fields s) \<and>
       list_all (\<lambda>sample. valueFitsType (fst sample) (FieldSchema f)) (opSamples column))"

lemma resolve_columns_fit:
  "resolve_columns s columns = Inr (s', pfs) \<Longrightarrow>
    (\<exists>new. Fields s' = Fields s @ new \<and> FieldName ` set new \<subseteq> opKey ` set columns) \<and> list_all2 (fitting_field s') columns pfs"
proof (induction columns arbitrary: s pfs)
  case (Cons column columns)
  show ?case
  proof (cases "FieldByPath (Some s) (opKey column)")
    case None
    let ?f = "mkField (opKey column) (Some (PartitionColumnSchema (op_values column)))"
    from Cons.prems None obtain pfs' where r: "resolve_columns (append_field ?f s) columns = Inr (s', pfs')"
      "pfs = mkPartitionField ?f # pfs'" by (auto simp: Let_def)
    from Cons.IH [OF r(1)] obtain new where new: "Fields s' = Fields s @ ?f # new" "FieldName ` set new \<subseteq> opKey ` set columns"
      "list_all2 (fitting_field s') columns pfs'" by auto
    have "fitting_field s' column (mkPartitionField ?f)"
      using new(1) column_schema_fits [of _ "op_values column"]
      by (auto simp: fitting_field_def list_all_iff op_values_def)
    with new r(2) show ?thesis by (auto intro!: exI [of _ "?f # new"])
  next
    case (Some f)
    with Cons.prems obtain pfs' where c: "checkValuesFitColumn column f = None"
      and r: "resolve_columns s columns = Inr (s', pfs')" "pfs = mkPartitionField f # pfs'"
      by (auto split: option.splits)
    from Cons.IH [OF r(1)] obtain new where new: "Fields s' = Fields s @ new" "FieldName ` set new \<subseteq> opKey ` set columns"
      "list_all2 (fitting_field s') columns pfs'" by blast
    have "nested_in f (Fields s)" using Some by (auto dest: resolve_path_nested)
    with checkValuesFit_None [OF c] new(1) have "fitting_field s' column (mkPartitionField f)" by (simp add: fitting_field_def)
    with new r(2) show ?thesis by (auto intro!: exI [of _ new])
  qed
qed simp

text \<open>
  When the partition layout of a directory can be read, the table is partitioned by columns its own
  schema defines: the schema keeps the columns of the data files and gains only columns named by
  directories, every directory key has a partition field whose column the schema contains, and every
  value seen in a directory name can be read as the type of that column.
\<close>

theorem partition_spec_fits:
  assumes "partitionSpec (Some s) observed = Inr (schema', pfs)"
  shows "\<exists>s' new. schema' = Some s' \<and> Fields s' = Fields s @ new \<and> FieldName ` set new \<subseteq> opKey ` set observed \<and>
    list_all2 (fitting_field s') observed pfs"
proof (cases "observed = []")
  case False
  with assms obtain s' where s': "schema' = Some s'" "resolve_columns s observed = Inr (s', pfs)"
    by (auto simp: partitionSpec_def)
  with resolve_columns_fit [OF s'(2)] show ?thesis by blast
qed (use assms in \<open>auto simp: partitionSpec_def\<close>)

definition sample_observed :: "observed_partition list" where
  "sample_observed =
     [\<lparr>opKey = ''Region'', opSamples = [(''eu'', ''p/Region=eu/f.parquet'')]\<rparr>,
      \<lparr>opKey = ''day'', opSamples = [(''2026-01-02'', ''p/Region=eu/day=2026-01-02/f.parquet'')]\<rparr>]"

theorem partition_spec_fits_witness:
  "\<exists>s' pfs new. partitionSpec (Some (NewRecordSchema ''root'' [mkField ''region'' (Some (NewPrimitiveSchema TypeString False))] False))
      sample_observed = Inr (Some s', pfs) \<and>
    Fields s' = [mkField ''region'' (Some (NewPrimitiveSchema TypeString False))] @ new \<and>
    list_all2 (fitting_field s') sample_observed pfs"
proof -
  let ?s = "NewRecordSchema ''root'' [mkField ''region'' (Some (NewPrimitiveSchema TypeString False))] False"
  have "\<not> isl (partitionSpec (Some ?s) sample_observed)" by code_simp
  then obtain schema' pfs where p: "partitionSpec (Some ?s) sample_observed = Inr (schema', pfs)"
    by (cases "partitionSpec (Some ?s) sample_observed") auto
  from partition_spec_fits [OF this] p show ?thesis by (auto simp: NewRecordSchema_def)
qed

end
