(* ===== verification/Parquet_Schema.thy ===== *)
theory Parquet_Schema
  imports Model_Core
begin

text \<open>
  \<^verbatim>\<open>pkg/formats/parquet/schema.go\<close>: a Parquet schema as a canonical one. The schema tree of the Parquet
  library is given by what the code asks of a node: its name, whether it is optional, repeated or a
  leaf, its type when it is a leaf, and its fields. The lemmas show when a schema is refused.
\<close>

datatype pq_logical =
    LStringType | LEnumType | LDateType | LTimestampType | LUUIDType | LDecimalType int int | LOtherType

datatype pq_kind =
    KBoolean | KInt32 | KInt64 | KInt96 | KFloat | KDouble | KByteArray | KFixedLenByteArray

record pq_type =
  ptLogical :: "pq_logical option"
  ptKind :: pq_kind

datatype pq_node = PqNode
    (pqName: string)
    (pqOptional: bool)
    (pqRepeated: bool)
    (pqLeaf: bool)
    (pqType: "pq_type option")
    (pqFields: "pq_node list")

definition unmappable :: "string \<Rightarrow> string \<Rightarrow> gerr" where
  "unmappable path msg = ErrMsg (''column '' @ quoted path @ '': parquet: unmappable schema: '' @ msg)"

definition kind_type :: "pq_kind \<Rightarrow> dtype" where
  "kind_type k =
     (case k of
        KBoolean \<Rightarrow> TypeBoolean | KInt32 \<Rightarrow> TypeInt | KInt64 \<Rightarrow> TypeLong | KFloat \<Rightarrow> TypeFloat | KDouble \<Rightarrow> TypeDouble
      | KByteArray \<Rightarrow> TypeString | KFixedLenByteArray \<Rightarrow> TypeBytes | KInt96 \<Rightarrow> TypeString)"

definition convertType :: "pq_type option \<Rightarrow> bool \<Rightarrow> string \<Rightarrow> schema res" where
  "convertType t nullable path =
     (case t of
        None \<Rightarrow> Inl (unmappable path ''no physical or logical type'')
      | Some t \<Rightarrow>
          Inr (case ptLogical t of
             Some LStringType \<Rightarrow> NewPrimitiveSchema TypeString nullable
           | Some LEnumType \<Rightarrow> NewPrimitiveSchema TypeString nullable
           | Some LDateType \<Rightarrow> NewPrimitiveSchema TypeDate nullable
           | Some LTimestampType \<Rightarrow> NewPrimitiveSchema TypeTimestamp nullable
           | Some LUUIDType \<Rightarrow> NewPrimitiveSchema TypeUUID nullable
           | Some (LDecimalType p s) \<Rightarrow> NewDecimalSchema p s nullable
           | _ \<Rightarrow> NewPrimitiveSchema (kind_type (ptKind t)) nullable))"

lemma size_pq_child: "f \<in> set (pqFields n) \<Longrightarrow> size f < size n"
  using elem_size_list [of f "pqFields n" size] by (cases n) auto

function convertField :: "string \<Rightarrow> pq_node \<Rightarrow> field res" where
  "convertField parentPath f =
     (let path = (if parentPath \<noteq> '''' then parentPath @ ''.'' @ pqName f else pqName f) in
      if pqRepeated f \<and> pqLeaf f then
        bind_res (convertType (pqType f) False path) (\<lambda>elemType.
        Inr (mkField (pqName f) (Some (list_schema elemType (pqOptional f)))))
      else if pqLeaf f then
        bind_res (convertType (pqType f) (pqOptional f) path) (\<lambda>leafType. Inr (mkField (pqName f) (Some leafType)))
      else if pqRepeated f then
        Inl (unmappable path (''repeated group with '' @ nat_dec (length (pqFields f)) @
          '' child field(s) (LIST/MAP-shaped nested repetition is not supported)''))
      else
        bind_res (map_res (convertField path) (pqFields f)) (\<lambda>childFields.
        Inr (mkField (pqName f) (Some (NewRecordSchema (pqName f) childFields (pqOptional f))))))"
  by pat_completeness auto
termination
  by (relation "measure (size \<circ> snd)") (auto simp: size_pq_child)

declare convertField.simps [simp del]

definition convertGroupFields :: "pq_node list \<Rightarrow> string \<Rightarrow> field list res" where
  "convertGroupFields fs parentPath = map_res (convertField parentPath) fs"

text \<open>A schema is given by the fields of its root.\<close>

definition ParquetSchemaToModel :: "pq_node list option \<Rightarrow> schema option res" where
  "ParquetSchemaToModel schema =
     (case schema of
        None \<Rightarrow> Inr None
      | Some fs \<Rightarrow> bind_res (convertGroupFields fs '''') (\<lambda>fields. Inr (Some (NewRecordSchema ''root'' fields False))))"

section \<open>Which schemas are mapped\<close>

text \<open>No repeated group below, and every leaf has a type.\<close>

function mappable :: "pq_node \<Rightarrow> bool" where
  "mappable f \<longleftrightarrow> (if pqLeaf f then pqType f \<noteq> None else \<not> pqRepeated f \<and> list_all mappable (pqFields f))"
  by pat_completeness auto
termination
  by (relation "measure size") (auto simp: size_pq_child)

declare mappable.simps [simp del]

lemma map_res_exists: "(\<exists>ys. map_res f xs = Inr ys) \<longleftrightarrow> list_all (\<lambda>x. \<exists>y. f x = Inr y) xs"
  by (induction xs) (auto split: sum.splits)

lemma convertField_exists: "(\<exists>c. convertField parent f = Inr c) \<longleftrightarrow> mappable f"
proof (induction parent f rule: convertField.induct)
  case (1 parent f)
  let ?path = "if parent \<noteq> '''' then parent @ ''.'' @ pqName f else pqName f"
  show ?case
  proof (cases "pqLeaf f \<or> pqRepeated f")
    case True
    then show ?thesis
      by (auto simp: convertField.simps [of parent f] mappable.simps [of f] Let_def convertType_def split: option.splits)
  next
    case False
    have "(\<exists>c. convertField ?path x = Inr c) = mappable x" if "x \<in> set (pqFields f)" for x
      using 1 [OF refl _ _ _ that] False by simp
    then have "(\<exists>cs. map_res (convertField ?path) (pqFields f) = Inr cs) \<longleftrightarrow> list_all mappable (pqFields f)"
      unfolding map_res_exists by (simp add: list_all_iff)
    with False show ?thesis
      by (auto simp: convertField.simps [of parent f] mappable.simps [of f] Let_def)
  qed
qed

lemma convertField_name: "convertField parent f = Inr c \<Longrightarrow> FieldName c = pqName f \<and> FieldSchema c \<noteq> None"
  by (auto simp: convertField.simps [of parent f] Let_def split: if_splits)

lemma ParquetSchemaToModel_mappable:
  "(\<exists>s. ParquetSchemaToModel (Some fs) = Inr (Some s)) \<longleftrightarrow> list_all mappable fs"
  using map_res_exists [of "convertField ''''" fs]
  by (auto simp: ParquetSchemaToModel_def convertGroupFields_def convertField_exists)

lemma ParquetSchemaToModel_names:
  assumes "ParquetSchemaToModel (Some fs) = Inr (Some s)"
  shows "map FieldName (Fields s) = map pqName fs"
proof -
  have "map_res (convertField p) fs = Inr cs \<Longrightarrow> map FieldName cs = map pqName fs" for p cs
    by (induction fs arbitrary: cs) (auto split: sum.splits dest: convertField_name)
  with assms show ?thesis by (auto simp: ParquetSchemaToModel_def convertGroupFields_def NewRecordSchema_def)
qed

end
