(* ===== verification/Parquet_Stats.thy ===== *)
theory Parquet_Stats
  imports Parquet_Schema Go_Prelude
begin

text \<open>
  \<^verbatim>\<open>pkg/formats/parquet/stats.go\<close>: the statistics of a Parquet footer. Opening a file is the Parquet
  library's: an open file is given by what the code reads of it, a chunk by its column, counts, bounds
  and the comparison of its column type. The lemmas show that an aggregate encloses every row group.
\<close>

section \<open>Footers\<close>

datatype pq_value =
    VNull | VBoolean bool | VInt32 int | VInt64 int | VInt96 string | VFloat gfloat | VDouble gfloat
  | VByteArray string | VFixed string

text \<open>A chunk: its column, the column type's comparison, its counts, and its bounds when it has some.\<close>

record pq_chunk =
  ckIsFile :: bool
  ckColumn :: int
  ckCompare :: "(pq_value \<Rightarrow> pq_value \<Rightarrow> int) option"
  ckNumValues :: int
  ckNullCount :: int
  ckBounds :: "(pq_value \<times> pq_value) option"

record pq_file =
  pqfSchema :: "pq_node list option"
  pqfColumns :: "string list list"
  pqfNumRows :: int
  pqfRowGroups :: "pq_chunk list list"

record column_aggregate =
  agPath :: string
  agCompare :: "(pq_value \<Rightarrow> pq_value \<Rightarrow> int) option"
  agNumValues :: int
  agNumNulls :: int
  agBounds :: "(pq_value \<times> pq_value) option"

text \<open>\<^verbatim>\<open>hasBounds\<close> is whether \<open>agBounds\<close> is there.\<close>

definition merge_bounds :: "column_aggregate \<Rightarrow> pq_value \<Rightarrow> pq_value \<Rightarrow> column_aggregate" where
  "merge_bounds a minValue maxValue =
     (case agBounds a of
        None \<Rightarrow> a\<lparr>agBounds := Some (minValue, maxValue)\<rparr>
      | Some (mn, mx) \<Rightarrow>
          (case agCompare a of
             None \<Rightarrow> a
           | Some cmp \<Rightarrow>
               a\<lparr>agBounds := Some (if cmp minValue mn < 0 then minValue else mn, if cmp maxValue mx > 0 then maxValue else mx)\<rparr>))"

text \<open>One chunk of the inner loop; \<open>paths\<close> are the file's columns, one slot per column.\<close>

definition fold_chunk :: "string list \<Rightarrow> column_aggregate option \<Rightarrow> pq_chunk \<Rightarrow> column_aggregate" where
  "fold_chunk path slot chunk =
     (let agg = (case slot of
                   Some a \<Rightarrow> a
                 | None \<Rightarrow> \<lparr>agPath = joinWith ''.'' path, agCompare = ckCompare chunk, agNumValues = 0, agNumNulls = 0, agBounds = None\<rparr>);
          agg = agg\<lparr>agNumValues := wrap64 (agNumValues agg + ckNumValues chunk),
                    agNumNulls := wrap64 (agNumNulls agg + ckNullCount chunk)\<rparr>
      in case ckBounds chunk of None \<Rightarrow> agg | Some (mn, mx) \<Rightarrow> merge_bounds agg mn mx)"

definition add_chunk :: "string list list \<Rightarrow> column_aggregate option list \<Rightarrow> pq_chunk \<Rightarrow> column_aggregate option list" where
  "add_chunk paths aggregates chunk =
     (if \<not> ckIsFile chunk then aggregates
      else
        (let idx = ckColumn chunk in
         if idx < 0 \<or> idx \<ge> int (length aggregates) then aggregates
         else aggregates[nat idx := Some (fold_chunk (paths ! nat idx) (aggregates ! nat idx) chunk)]))"

definition footerAggregates :: "pq_file \<Rightarrow> column_aggregate list" where
  "footerAggregates f =
     List.map_filter (\<lambda>a. a)
       (foldl (add_chunk (pqfColumns f)) (map (\<lambda>_. None) (pqfColumns f)) (concat (pqfRowGroups f)))"

definition valueToModel :: "pq_value \<Rightarrow> schema option \<Rightarrow> any option" where
  "valueToModel v schema =
     (case schema of
        None \<Rightarrow> None
      | Some s \<Rightarrow>
          if v = VNull \<or> DataType s = TypeDecimal then None
          else
            (case v of
               VBoolean b \<Rightarrow> Some (ABool b)
             | VInt32 i \<Rightarrow> Some (AInt32 i)
             | VInt64 i \<Rightarrow> Some (AInt64 i)
             | VFloat f \<Rightarrow> if f = FNaN then None else Some (AFloat32 f)
             | VDouble f \<Rightarrow> if f = FNaN then None else Some (AFloat64 f)
             | VByteArray raw \<Rightarrow> Some (if DataType s = TypeString \<or> DataType s = TypeEnum then AStr raw else ABytes raw)
             | VFixed raw \<Rightarrow> Some (if DataType s = TypeString \<or> DataType s = TypeEnum then AStr raw else ABytes raw)
             | _ \<Rightarrow> None))"

definition any_or_nil :: "any option \<Rightarrow> any" where
  "any_or_nil v = (case v of None \<Rightarrow> ANil | Some x \<Rightarrow> x)"

definition stat_of_aggregate :: "schema \<Rightarrow> column_aggregate \<Rightarrow> column_stat option" where
  "stat_of_aggregate s agg =
     (case FieldByPath (Some s) (agPath agg) of
        None \<Rightarrow> None
      | Some f \<Rightarrow>
          Some \<lparr>StatField = Some f,
            StatRange =
              (case agBounds agg of
                 None \<Rightarrow> None
               | Some (mn, mx) \<Rightarrow>
                   (let minValue = valueToModel mn (FieldSchema f); maxValue = valueToModel mx (FieldSchema f) in
                    if minValue \<noteq> None \<or> maxValue \<noteq> None then Some (NewRange (any_or_nil minValue) (any_or_nil maxValue))
                    else None)),
            NumNulls = agNumNulls agg, NumNaNs = 0, TotalValues = agNumValues agg\<rparr>)"

definition columnStatsForSchema :: "column_aggregate list \<Rightarrow> schema option \<Rightarrow> column_stat list" where
  "columnStatsForSchema aggregates schema =
     (case schema of None \<Rightarrow> [] | Some s \<Rightarrow> List.map_filter (stat_of_aggregate s) aggregates)"

definition ColumnStatsFromFooter :: "pq_file option \<Rightarrow> schema option \<Rightarrow> column_stat list" where
  "ColumnStatsFromFooter f schema =
     (case f of
        None \<Rightarrow> []
      | Some pf \<Rightarrow> if schema = None then [] else columnStatsForSchema (footerAggregates pf) schema)"

section \<open>Bounds\<close>

text \<open>
  The bounds an aggregate holds after the chunks of its column, when the column's comparison is a total
  preorder: no chunk's minimum is below its minimum and no chunk's maximum is above its maximum.
\<close>

definition total_preorder :: "(pq_value \<Rightarrow> pq_value \<Rightarrow> int) \<Rightarrow> bool" where
  "total_preorder cmp \<longleftrightarrow>
     (\<forall>x y. cmp x y \<le> 0 \<or> cmp y x \<le> 0) \<and> (\<forall>x y. cmp x y > 0 \<longleftrightarrow> cmp y x < 0) \<and>
     (\<forall>x y z. cmp x y \<le> 0 \<longrightarrow> cmp y z \<le> 0 \<longrightarrow> cmp x z \<le> 0)"

definition encloses :: "(pq_value \<Rightarrow> pq_value \<Rightarrow> int) \<Rightarrow> (pq_value \<times> pq_value) option \<Rightarrow> pq_value \<times> pq_value \<Rightarrow> bool" where
  "encloses cmp bounds b \<longleftrightarrow>
     (\<exists>mn mx. bounds = Some (mn, mx) \<and> cmp mn (fst b) \<le> 0 \<and> cmp (snd b) mx \<le> 0)"

lemma merge_bounds_Compare [simp]: "agCompare (merge_bounds a mn mx) = agCompare a"
  by (simp add: merge_bounds_def split: option.splits)

lemma merge_bounds_encloses:
  assumes "total_preorder cmp" and "agCompare a = Some cmp"
  shows "encloses cmp (agBounds (merge_bounds a mn mx)) (mn, mx)"
    and "encloses cmp (agBounds a) r \<Longrightarrow> encloses cmp (agBounds (merge_bounds a mn mx)) r"
proof -
  have refl: "cmp x x \<le> 0" and trans: "cmp x y \<le> 0 \<Longrightarrow> cmp y z \<le> 0 \<Longrightarrow> cmp x z \<le> 0"
    and less: "cmp x y < 0 \<Longrightarrow> cmp x y \<le> 0" and flip: "cmp x y > 0 \<longleftrightarrow> cmp y x < 0" for x y z
    using assms(1) by (auto simp: total_preorder_def)
  have not: "\<not> cmp x y < 0 \<Longrightarrow> cmp y x \<le> 0" for x y using flip [of y x] by linarith
  show "encloses cmp (agBounds (merge_bounds a mn mx)) (mn, mx)"
    using assms(2) refl by (auto simp: merge_bounds_def encloses_def flip intro: not less split: option.splits)
  show "encloses cmp (agBounds (merge_bounds a mn mx)) r" if "encloses cmp (agBounds a) r"
    using that assms(2) by (auto simp: merge_bounds_def encloses_def flip) (meson less trans)+
qed

definition of_column :: "nat \<Rightarrow> pq_chunk \<Rightarrow> bool" where
  "of_column i c \<longleftrightarrow> ckIsFile c \<and> ckColumn c = int i"

text \<open>What the slot of a column holds after some chunks.\<close>

definition column_seen :: "string list \<Rightarrow> (pq_value \<Rightarrow> pq_value \<Rightarrow> int) \<Rightarrow> pq_chunk list \<Rightarrow> column_aggregate \<Rightarrow> bool" where
  "column_seen path cmp cs a \<longleftrightarrow>
     agPath a = joinWith ''.'' path \<and> agCompare a = Some cmp \<and>
     agNumValues a = wrap64 (sum_list (map ckNumValues cs)) \<and> agNumNulls a = wrap64 (sum_list (map ckNullCount cs)) \<and>
     list_all (\<lambda>c. \<forall>b. ckBounds c = Some b \<longrightarrow> encloses cmp (agBounds a) b) cs"

lemma wrap64_add: "wrap64 (wrap64 a + b) = wrap64 (a + b)"
  by (simp add: wrap64_def mod_simps algebra_simps)

lemma length_add_chunk [simp]: "length (add_chunk paths ags c) = length ags"
  by (simp add: add_chunk_def Let_def)

lemma add_chunk_other: "\<not> of_column i c \<Longrightarrow> add_chunk paths ags c ! i = ags ! i"
  by (cases "ckColumn c < 0") (auto simp: add_chunk_def Let_def of_column_def nth_list_update)

lemma add_chunk_same:
  "of_column i c \<Longrightarrow> i < length ags \<Longrightarrow> add_chunk paths ags c ! i = Some (fold_chunk (paths ! i) (ags ! i) c)"
  by (simp add: add_chunk_def Let_def of_column_def)

lemma fold_chunk_seen:
  assumes pre: "total_preorder cmp" and c: "ckCompare c = Some cmp"
    and seen: "case slot of None \<Rightarrow> cs = [] | Some a \<Rightarrow> column_seen path cmp cs a"
  shows "column_seen path cmp (cs @ [c]) (fold_chunk path slot c)"
proof -
  define u where "u = (case slot of Some a \<Rightarrow> a | None \<Rightarrow>
    \<lparr>agPath = joinWith ''.'' path, agCompare = ckCompare c, agNumValues = 0, agNumNulls = 0, agBounds = None\<rparr>)"
  define w where "w = u\<lparr>agNumValues := wrap64 (agNumValues u + ckNumValues c), agNumNulls := wrap64 (agNumNulls u + ckNullCount c)\<rparr>"
  have "column_seen path cmp cs u"
    using seen c by (auto simp: u_def column_seen_def wrap64_def split: option.splits)
  then have s1: "agPath w = joinWith ''.'' path" "agCompare w = Some cmp"
    "agNumValues w = wrap64 (sum_list (map ckNumValues (cs @ [c])))"
    "agNumNulls w = wrap64 (sum_list (map ckNullCount (cs @ [c])))"
    "list_all (\<lambda>c. \<forall>b. ckBounds c = Some b \<longrightarrow> encloses cmp (agBounds w) b) cs"
    by (simp_all add: w_def column_seen_def wrap64_add)
  have m: "agPath (merge_bounds a mn mx) = agPath a" "agNumValues (merge_bounds a mn mx) = agNumValues a"
    "agNumNulls (merge_bounds a mn mx) = agNumNulls a" for a mn mx
    by (simp_all add: merge_bounds_def split: option.splits)
  have "fold_chunk path slot c = (case ckBounds c of None \<Rightarrow> w | Some (mn, mx) \<Rightarrow> merge_bounds w mn mx)"
    unfolding fold_chunk_def Let_def w_def u_def ..
  with s1 merge_bounds_encloses [OF pre s1(2)] show ?thesis
    by (cases "ckBounds c") (auto simp: column_seen_def list_all_iff m)
qed

lemma foldl_add_chunk_seen:
  assumes pre: "total_preorder cmp" and i: "i < length paths"
    and cmp: "list_all (\<lambda>c. of_column i c \<longrightarrow> ckCompare c = Some cmp) chunks"
  shows "case foldl (add_chunk paths) (map (\<lambda>_. None) paths) chunks ! i of
    None \<Rightarrow> filter (of_column i) chunks = [] | Some a \<Rightarrow> column_seen (paths ! i) cmp (filter (of_column i) chunks) a"
  using cmp
proof (induction chunks rule: rev_induct)
  case Nil
  then show ?case using i by simp
next
  case (snoc c chunks)
  have "length (foldl (add_chunk paths) ags chunks) = length ags" for ags
    by (induction chunks arbitrary: ags) simp_all
  with i have l: "i < length (foldl (add_chunk paths) (map (\<lambda>_. None) paths) chunks)" by simp
  show ?case
  proof (cases "of_column i c")
    case True
    with snoc.prems have "ckCompare c = Some cmp" by simp
    with fold_chunk_seen [OF pre this] snoc True l show ?thesis
      by (simp add: add_chunk_same split: option.splits)
  qed (use snoc in \<open>simp add: add_chunk_other split: option.splits\<close>)
qed

text \<open>
  C35. The statistics of a file cover all its row groups: a column that has a chunk has an aggregate, its value
  and null counts are the sums over the column's chunks (as 64-bit integers), and its bounds enclose the
  bounds of each of the chunks, whatever the order of the row groups.
\<close>

theorem footer_aggregates_enclose:
  assumes "total_preorder cmp" and "i < length (pqfColumns f)"
    and "list_all (\<lambda>c. of_column i c \<longrightarrow> ckCompare c = Some cmp) (concat (pqfRowGroups f))"
    and "filter (of_column i) (concat (pqfRowGroups f)) \<noteq> []"
  shows "\<exists>a \<in> set (footerAggregates f). column_seen (pqfColumns f ! i) cmp (filter (of_column i) (concat (pqfRowGroups f))) a"
proof -
  let ?slots = "foldl (add_chunk (pqfColumns f)) (map (\<lambda>_. None) (pqfColumns f)) (concat (pqfRowGroups f))"
  have "length (foldl (add_chunk p) ags cs) = length ags" for p ags cs
    by (induction cs arbitrary: ags) simp_all
  then have l: "i < length ?slots" using assms(2) by simp
  from foldl_add_chunk_seen [OF assms(1-3)] assms(4) obtain a where a: "?slots ! i = Some a"
    "column_seen (pqfColumns f ! i) cmp (filter (of_column i) (concat (pqfRowGroups f))) a"
    by (auto split: option.splits)
  from l a(1) have "Some a \<in> set ?slots" by (metis nth_mem)
  then have "a \<in> set (footerAggregates f)" by (auto simp: footerAggregates_def map_filter_def image_iff intro!: bexI [of _ "Some a"])
  with a(2) show ?thesis by blast
qed

definition int_compare :: "pq_value \<Rightarrow> pq_value \<Rightarrow> int" where
  "int_compare x y =
     (let n = (\<lambda>v. case v of VInt64 i \<Rightarrow> i | _ \<Rightarrow> 0) in if n x < n y then - 1 else if n y < n x then 1 else 0)"

definition sample_pq_file :: pq_file where
  "sample_pq_file =
     \<lparr>pqfSchema = None, pqfColumns = [[''id'']], pqfNumRows = 5,
      pqfRowGroups =
        [[\<lparr>ckIsFile = True, ckColumn = 0, ckCompare = Some int_compare, ckNumValues = 3, ckNullCount = 1,
           ckBounds = Some (VInt64 4, VInt64 9)\<rparr>],
         [\<lparr>ckIsFile = True, ckColumn = 0, ckCompare = Some int_compare, ckNumValues = 2, ckNullCount = 0,
           ckBounds = Some (VInt64 1, VInt64 6)\<rparr>]]\<rparr>"

theorem footer_aggregates_enclose_witness:
  "\<exists>a \<in> set (footerAggregates sample_pq_file).
    agPath a = ''id'' \<and> agNumValues a = 5 \<and> agNumNulls a = 1 \<and>
    encloses int_compare (agBounds a) (VInt64 4, VInt64 9) \<and> encloses int_compare (agBounds a) (VInt64 1, VInt64 6)"
proof -
  have "total_preorder int_compare" by (auto simp: total_preorder_def int_compare_def Let_def)
  from footer_aggregates_enclose [OF this, of 0 sample_pq_file]
  show ?thesis by (auto simp: sample_pq_file_def of_column_def column_seen_def wrap64_def)
qed

end
