(* ===== verification/Parquet_Source.thy ===== *)
theory Parquet_Source
  imports Parquet_Partition Parquet_Stats Model_Diff
begin

text \<open>
  \<^verbatim>\<open>pkg/formats/parquet/source.go\<close>: the crawl that turns a directory of Parquet files into a snapshot. The
  Parquet library's decoder of a file's bytes is the argument \<open>open_file\<close>, and the clock the argument
  \<open>now\<close>, in milliseconds; the modification times of the storage are in nanoseconds. The lemmas show
  which files the snapshot holds, and that its partition values are those of the files' directories.
\<close>

section \<open>The crawl\<close>

record parquet_source =
  pqs_storage :: mem_storage
  pqs_basePath :: string

definition parquet_NewSource :: "mem_storage \<Rightarrow> string \<Rightarrow> parquet_source" where
  "parquet_NewSource storage basePath = \<lparr>pqs_storage = storage, pqs_basePath = basePath\<rparr>"

record crawled_file =
  cf_info :: file_info
  cf_numRows :: int
  cf_aggregates :: "column_aggregate list"
  cf_partitions :: "hive_partition list"

text \<open>Whether one listed file is a data file, or the error that stops the listing.\<close>

definition is_data_file :: "string \<Rightarrow> file_info \<Rightarrow> bool res" where
  "is_data_file base f =
     (if InfoIsDir f \<or> \<not> hasSuffix (InfoPath f) ''.parquet'' then Inr False
      else
        bind_res (wrap_res (''failed to relativize '' @ InfoPath f @ '' under '' @ base) (RelativizePath (InfoPath f) base))
          (\<lambda>rel. Inr (\<not> IsMetadataPath rel)))"

definition listDataFiles :: "parquet_source \<Rightarrow> file_info list res" where
  "listDataFiles s =
     (let allFiles = mem_List (pqs_storage s) (pqs_basePath s) in
      bind_res (map_res (is_data_file (pqs_basePath s)) allFiles) (\<lambda>kept.
      let parquetFiles = map fst (filter snd (zip allFiles kept)) in
      if parquetFiles = [] then Inl (ErrMsg (''no parquet files found under '' @ pqs_basePath s))
      else Inr (sort_key InfoPath parquetFiles)))"

definition add_sample :: "string \<Rightarrow> hive_partition \<Rightarrow> observed_partition \<Rightarrow> observed_partition" where
  "add_sample path kv p = (if opKey p = fst kv then p\<lparr>opSamples := opSamples p @ [(snd kv, path)]\<rparr> else p)"

definition observe :: "string \<Rightarrow> observed_partition list \<Rightarrow> hive_partition \<Rightarrow> observed_partition list" where
  "observe path observed kv =
     (case List.find (\<lambda>p. opKey p = fst kv) observed of
        None \<Rightarrow> observed @ [\<lparr>opKey = fst kv, opSamples = [(snd kv, path)]\<rparr>]
      | Some q \<Rightarrow>
          if snd kv \<in> set (op_values q) then observed
          else map (add_sample path kv) observed)"

definition observedPartitions :: "crawled_file list \<Rightarrow> observed_partition list" where
  "observedPartitions crawled =
     foldl (\<lambda>observed f. foldl (observe (InfoPath (cf_info f))) observed (cf_partitions f)) [] crawled"

definition partitionValues :: "crawled_file \<Rightarrow> (string, partition_field) gomap \<Rightarrow> partition_value list" where
  "partitionValues f fieldsByKey =
     List.map_filter (\<lambda>(k, v). case map_of fieldsByKey k of
         None \<Rightarrow> None
       | Some pf \<Rightarrow> Some \<lparr>PVField = Some pf, PVRange = Some (NewScalarRange (AStr v))\<rparr>) (cf_partitions f)"

definition mod_millis :: "file_info \<Rightarrow> int" where
  "mod_millis f = InfoModTime f div 1000000"

text \<open>The body of the first loop: one data file, read and opened once.\<close>

definition crawl_file :: "(string \<Rightarrow> pq_file res) \<Rightarrow> parquet_source \<Rightarrow> file_info \<Rightarrow> (crawled_file \<times> footer_schema) res" where
  "crawl_file open_file s pf =
     bind_res (wrap_res (''failed to read '' @ InfoPath pf) (mem_Read (pqs_storage s) (InfoPath pf))) (\<lambda>fileData.
     bind_res (wrap_res (''failed to parse '' @ InfoPath pf) (open_file fileData)) (\<lambda>pfObj.
     bind_res (wrap_res (''failed to read the schema of '' @ InfoPath pf) (ParquetSchemaToModel (pqfSchema pfObj))) (\<lambda>footerSchema.
     Inr (\<lparr>cf_info = pf, cf_numRows = pqfNumRows pfObj, cf_aggregates = footerAggregates pfObj,
           cf_partitions = HivePartitionsForFile (InfoPath pf) (pqs_basePath s)\<rparr>,
          \<lparr>ftPath = InfoPath pf, ftModTime = InfoModTime pf, ftSchema = footerSchema\<rparr>))))"

definition latest_mod_time :: "file_info list \<Rightarrow> int" where
  "latest_mod_time files = foldl (\<lambda>latest f. if mod_millis f > latest then mod_millis f else latest) 0 files"

definition fields_by_key :: "observed_partition list \<Rightarrow> partition_field list \<Rightarrow> (string, partition_field) gomap" where
  "fields_by_key observed pfs = foldl (\<lambda>m (p, pf). map_put (opKey p) pf m) [] (zip observed pfs)"

definition data_file_of :: "schema option \<Rightarrow> (string, partition_field) gomap \<Rightarrow> crawled_file \<Rightarrow> data_file" where
  "data_file_of tableSchema fieldsByKey f =
     \<lparr>PhysicalPath = InfoPath (cf_info f), FileFormat = FileFormatParquet, FileSizeBytes = InfoSize (cf_info f),
      RecordCount = cf_numRows f, PartitionValues = partitionValues f fieldsByKey,
      ColumnStats = columnStatsForSchema (cf_aggregates f) tableSchema, LastModified = mod_millis (cf_info f),
      DeletionVector = None\<rparr>"

definition parquet_GetCurrentSnapshot :: "(string \<Rightarrow> pq_file res) \<Rightarrow> int \<Rightarrow> parquet_source \<Rightarrow> snapshot res" where
  "parquet_GetCurrentSnapshot open_file now s =
     bind_res (listDataFiles s) (\<lambda>parquetFiles.
     bind_res (map_res (crawl_file open_file s) parquetFiles) (\<lambda>read.
     let crawled = map fst read; footers = map snd read; latestModTime = latest_mod_time parquetFiles in
     bind_res (wrap_res (''failed to merge the parquet schemas under '' @ pqs_basePath s) (MergeFooterSchemas footers)) (\<lambda>merged.
     let observed = observedPartitions crawled in
     bind_res (wrap_res (''failed to read the partition layout of '' @ pqs_basePath s) (partitionSpec merged observed))
       (\<lambda>(tableSchema, partitioningFields).
     Inr \<lparr>SnapTable =
            \<lparr>TableName = filepath_Base (pqs_basePath s), TableFormat = TableFormatParquet, ReadSchema = tableSchema,
             LayoutStrategy = LayoutUnset, BasePath = pqs_basePath s, DataPath = '''',
             PartitioningFields = partitioningFields,
             LatestCommitTime = (if latestModTime = 0 then now else latestModTime), LatestMetadataPath = ''''\<rparr>,
          PartitionedDataFiles = [],
          DataFiles = map (data_file_of tableSchema (fields_by_key observed partitioningFields)) crawled,
          SnapSourceIdentifier = ''0''\<rparr>))))"

definition parquet_GetCurrentTable :: "(string \<Rightarrow> pq_file res) \<Rightarrow> int \<Rightarrow> parquet_source \<Rightarrow> table res" where
  "parquet_GetCurrentTable open_file now s =
     bind_res (parquet_GetCurrentSnapshot open_file now s) (\<lambda>snap. Inr (SnapTable snap))"

definition parquet_GetTable :: "(string \<Rightarrow> pq_file res) \<Rightarrow> int \<Rightarrow> parquet_source \<Rightarrow> string \<Rightarrow> table res" where
  "parquet_GetTable open_file now s commitID = parquet_GetCurrentTable open_file now s"

definition parquet_GetTableChangeForCommit ::
  "(string \<Rightarrow> pq_file res) \<Rightarrow> int \<Rightarrow> parquet_source \<Rightarrow> string \<Rightarrow> table_change res" where
  "parquet_GetTableChangeForCommit open_file now s commitID =
     bind_res (parquet_GetCurrentSnapshot open_file now s) (\<lambda>snap.
     Inr \<lparr>FilesDiff = NewFilesDiff (DataFiles snap) [], TableAsOfChange = SnapTable snap,
          ChangeSourceIdentifier = commitID, CommitTime = LatestCommitTime (SnapTable snap)\<rparr>)"

text \<open>The change is crawled again, so the clock is read again.\<close>

definition parquet_GetChangesSince ::
  "(string \<Rightarrow> pq_file res) \<Rightarrow> int \<Rightarrow> int \<Rightarrow> parquet_source \<Rightarrow> int \<Rightarrow> incremental_changes res" where
  "parquet_GetChangesSince open_file now now' s fromInstant =
     bind_res (parquet_GetCurrentSnapshot open_file now s) (\<lambda>snap.
     bind_res
       (if LatestCommitTime (SnapTable snap) > fromInstant
        then bind_res (parquet_GetTableChangeForCommit open_file now' s (SnapSourceIdentifier snap)) (\<lambda>change. Inr [change])
        else Inr [])
       (\<lambda>changes. Inr \<lparr>TableChanges = changes, CurrentTable = SnapTable snap\<rparr>))"

definition parquet_IsIncrementalSyncSafeFrom :: "parquet_source \<Rightarrow> int \<Rightarrow> bool res" where
  "parquet_IsIncrementalSyncSafeFrom s earliestInstant = Inr False"

section \<open>Observed partitions\<close>

definition recorded :: "observed_partition list \<Rightarrow> hive_partition \<Rightarrow> bool" where
  "recorded observed kv \<longleftrightarrow> (\<exists>p \<in> set observed. opKey p = fst kv \<and> snd kv \<in> set (op_values p))"

lemma add_sample_key [simp]: "opKey (add_sample path kv p) = opKey p"
  by (simp add: add_sample_def)

lemma add_sample_values [simp]:
  "set (op_values (add_sample path kv p)) = (if opKey p = fst kv then insert (snd kv) (set (op_values p)) else set (op_values p))"
  by (simp add: add_sample_def op_values_def)

lemma observe_keys:
  "distinct (map opKey observed) \<Longrightarrow> distinct (map opKey (observe path observed kv))"
  by (auto simp: observe_def find_None_iff comp_def split: option.splits)

lemma observe_records: "recorded (observe path observed kv) kv"
proof (cases "List.find (\<lambda>p. opKey p = fst kv) observed")
  case (Some q)
  with find_SomeD [OF Some] show ?thesis by (auto simp: observe_def recorded_def)
qed (simp add: observe_def recorded_def op_values_def)

lemma observe_keeps: "recorded observed kv' \<Longrightarrow> recorded (observe path observed kv) kv'"
  by (auto simp: observe_def recorded_def split: option.splits) metis

lemma foldl_observe:
  "(distinct (map opKey obs) \<longrightarrow> distinct (map opKey (foldl (observe path) obs kvs))) \<and>
    (\<forall>kv. recorded obs kv \<or> kv \<in> set kvs \<longrightarrow> recorded (foldl (observe path) obs kvs) kv)"
proof (induction kvs arbitrary: obs)
  case (Cons kv kvs)
  from Cons.IH [of "observe path obs kv"] observe_records [of path obs kv] show ?case
    by (auto simp: observe_keys observe_keeps)
qed simp

lemma observedPartitions_keys: "distinct (map opKey (observedPartitions crawled))"
  and observedPartitions_complete:
    "f \<in> set crawled \<Longrightarrow> kv \<in> set (cf_partitions f) \<Longrightarrow> recorded (observedPartitions crawled) kv"
proof -
  have *: "(distinct (map opKey obs) \<longrightarrow> distinct (map opKey (foldl (\<lambda>observed f. foldl (observe (InfoPath (cf_info f))) observed (cf_partitions f)) obs crawled))) \<and>
      (\<forall>kv. recorded obs kv \<or> (\<exists>f \<in> set crawled. kv \<in> set (cf_partitions f)) \<longrightarrow> recorded (foldl (\<lambda>observed f. foldl (observe (InfoPath (cf_info f))) observed (cf_partitions f)) obs crawled) kv)"
    for obs
  proof (induction crawled arbitrary: obs)
    case (Cons f crawled)
    from Cons.IH [of "foldl (observe (InfoPath (cf_info f))) obs (cf_partitions f)"]
      foldl_observe [of obs "InfoPath (cf_info f)" "cf_partitions f"]
    show ?case by auto
  qed simp
  from * [of "[]"] show "distinct (map opKey (observedPartitions crawled))" by (simp add: observedPartitions_def)
  show "recorded (observedPartitions crawled) kv" if "f \<in> set crawled" "kv \<in> set (cf_partitions f)"
    using * [of "[]"] that by (auto simp only: observedPartitions_def)
qed

section \<open>The snapshot\<close>

lemma map_res_filter_zip:
  "map_res f xs = Inr bs \<Longrightarrow> map fst (filter snd (zip xs bs)) = filter (\<lambda>x. f x = Inr True) xs"
  by (induction xs arbitrary: bs) (auto split: sum.splits)

lemma listDataFiles_eq:
  "listDataFiles s = Inr fs \<Longrightarrow>
    fs = filter (\<lambda>f. is_data_file (pqs_basePath s) f = Inr True) (sort_key InfoPath (mem_List (pqs_storage s) (pqs_basePath s)))"
  by (auto simp: listDataFiles_def Let_def map_res_filter_zip filter_sort split: sum.splits if_splits)

lemma listDataFiles_sorted:
  assumes "mem_invar (pqs_storage s)" and "listDataFiles s = Inr fs"
  shows "sorted_wrt (<) (map InfoPath fs)"
proof -
  let ?l = "mem_List (pqs_storage s) (pqs_basePath s)"
  have l: "sorted_wrt (<) (map InfoPath ?l)" using mem.list_sorted [OF assms(1)] .
  then have "sort_key InfoPath ?l = ?l" by (intro sort_key_id_if_sorted) (simp add: strict_sorted_iff)
  then have "fs = filter (\<lambda>f. is_data_file (pqs_basePath s) f = Inr True) ?l" using listDataFiles_eq [OF assms(2)] by simp
  moreover have "sorted_wrt (<) (map InfoPath (filter P ?l))" for P
    using l by (simp add: sorted_wrt_map sorted_wrt_filter)
  ultimately show ?thesis by simp
qed

lemma is_data_file_True:
  "is_data_file base f = Inr True \<longleftrightarrow>
    \<not> InfoIsDir f \<and> hasSuffix (InfoPath f) ''.parquet'' \<and>
    (\<exists>rel. RelativizePath (InfoPath f) base = Inr rel \<and> \<not> IsMetadataPath rel)"
  by (cases "RelativizePath (InfoPath f) base") (auto simp: is_data_file_def)

lemma listed_paths:
  assumes "listDataFiles s = Inr fs"
  shows "InfoPath ` set fs =
    {p. (\<exists>d. mem_Read (pqs_storage s) p = Inr d) \<and> hasPrefix p (pqs_basePath s) \<and> hasSuffix p ''.parquet'' \<and>
      (\<exists>rel. RelativizePath p (pqs_basePath s) = Inr rel \<and> \<not> IsMetadataPath rel)}"
proof -
  have "\<not> InfoIsDir f" if "f \<in> set (mem_List (pqs_storage s) (pqs_basePath s))" for f
    using that by (auto simp: mem_List_def)
  then have "p \<in> InfoPath ` set fs \<longleftrightarrow> p \<in> InfoPath ` set (mem_List (pqs_storage s) (pqs_basePath s)) \<and> hasSuffix p ''.parquet'' \<and>
      (\<exists>rel. RelativizePath p (pqs_basePath s) = Inr rel \<and> \<not> IsMetadataPath rel)" for p
    unfolding listDataFiles_eq [OF assms] by (auto simp: is_data_file_True)
  then show ?thesis by (auto simp: mem_List_paths)
qed

text \<open>What the path of a data file says, in the order of its directories, against the file's partition values.\<close>

definition value_read :: "table \<Rightarrow> hive_partition \<Rightarrow> partition_value \<Rightarrow> bool" where
  "value_read tbl kv pv \<longleftrightarrow>
     PVRange pv = Some (NewScalarRange (AStr (snd kv))) \<and>
     (\<exists>pf f s. PVField pv = Some pf \<and> pf \<in> set (PartitioningFields tbl) \<and> SourceField pf = Some f \<and>
        ReadSchema tbl = Some s \<and> nested_in f (Fields s) \<and> valueFitsType (snd kv) (FieldSchema f))"

lemma fields_by_key_map_of:
  assumes "length observed = length pfs" and "distinct (map opKey observed)"
  shows "map_of (fields_by_key observed pfs) = map_of (zip (map opKey observed) pfs)"
proof -
  have "map_of (foldl (\<lambda>m (p, pf). map_put (opKey p) pf m) m0 (zip obs qs)) = map_of m0 ++ map_of (zip (map opKey obs) qs)"
    if "length obs = length qs" "distinct (map opKey obs)" for m0 obs and qs :: "partition_field list"
    using that
  proof (induction obs qs arbitrary: m0 rule: list_induct2)
    case (Cons p obs pf qs)
    then have "map_of (zip (map opKey obs) qs) (opKey p) = None"
      by (auto simp: map_of_eq_None_iff dest: set_zip_leftD)
    moreover have "map_of (foldl (\<lambda>m (p, pf). map_put (opKey p) pf m) (map_put (opKey p) pf m0) (zip obs qs)) =
        (map_of m0)(opKey p \<mapsto> pf) ++ map_of (zip (map opKey obs) qs)"
      using Cons.IH [of "map_put (opKey p) pf m0"] Cons.prems by (simp add: fun_upd_def)
    ultimately show ?case by (simp add: map_add_def fun_eq_iff split: option.splits)
  qed simp
  from this [OF assms, of "[]"] show ?thesis by (simp add: fields_by_key_def)
qed

lemma partitionValues_read:
  assumes spec: "partitionSpec merged (observedPartitions crawled) = Inr (schema', pfs)" and f: "f \<in> set crawled"
    and tbl: "ReadSchema tbl = schema'" "PartitioningFields tbl = pfs"
  shows "list_all2 (value_read tbl) (cf_partitions f) (partitionValues f (fields_by_key (observedPartitions crawled) pfs))"
proof -
  let ?obs = "observedPartitions crawled"
  let ?pv_of = "\<lambda>kv. map_option (\<lambda>pf. \<lparr>PVField = Some pf, PVRange = Some (NewScalarRange (AStr (snd kv)))\<rparr>)
    (map_of (fields_by_key ?obs pfs) (fst kv))"
  have "\<exists>pv. ?pv_of kv = Some pv \<and> value_read tbl kv pv" if kv: "kv \<in> set (cf_partitions f)" for kv
  proof -
    from observedPartitions_complete [OF f kv] obtain i where i: "i < length ?obs" "opKey (?obs ! i) = fst kv"
      "snd kv \<in> set (op_values (?obs ! i))" by (metis recorded_def in_set_conv_nth)
    then have "?obs \<noteq> []" by auto
    with spec obtain s s' where s': "schema' = Some s'" "resolve_columns s ?obs = Inr (s', pfs)"
      by (auto simp: partitionSpec_def split: option.splits sum.splits)
    from resolve_columns_fit [OF s'(2)] have fit: "list_all2 (fitting_field s') ?obs pfs" by blast
    then have len: "length ?obs = length pfs" and fi: "fitting_field s' (?obs ! i) (pfs ! i)"
      using i(1) by (auto dest: list_all2_lengthD list_all2_nthD)
    have "map_of (fields_by_key ?obs pfs) (fst kv) = Some (pfs ! i)"
      using map_of_zip_nth [of "map opKey ?obs" pfs i] len i(1,2)
      by (simp add: fields_by_key_map_of observedPartitions_keys)
    moreover have "value_read tbl kv \<lparr>PVField = Some (pfs ! i), PVRange = Some (NewScalarRange (AStr (snd kv)))\<rparr>"
      using fi i len tbl s'(1) by (auto simp: value_read_def fitting_field_def list_all_iff op_values_def)
    ultimately show ?thesis by simp
  qed
  then have "list_all2 (value_read tbl) kvs (List.map_filter ?pv_of kvs)" if "set kvs \<subseteq> set (cf_partitions f)" for kvs
    using that by (induction kvs) (fastforce simp: map_filter_simps)+
  moreover have "partitionValues f (fields_by_key ?obs pfs) = List.map_filter ?pv_of (cf_partitions f)"
    unfolding partitionValues_def by (rule arg_cong [of _ _ "\<lambda>g. List.map_filter g (cf_partitions f)"])
      (auto simp: fun_eq_iff split: option.splits)
  ultimately show ?thesis by simp
qed

text \<open>
  C12. A snapshot of an unmanaged directory holds exactly the data files under it, each once and in the order
  of their paths: every readable file below the base path that ends in .parquet and does not lie in a
  metadata directory. The partition values of each file are those written in its directory names, in
  order, each under a partition field of the table whose column the table's schema defines and whose
  type the value fits.
\<close>

theorem parquet_snapshot_faithful:
  assumes "parquet_GetCurrentSnapshot open_file now s = Inr snap" and "mem_invar (pqs_storage s)"
  shows "sorted_wrt (<) (map PhysicalPath (DataFiles snap)) \<and>
    PhysicalPath ` set (DataFiles snap) =
      {p. (\<exists>d. mem_Read (pqs_storage s) p = Inr d) \<and> hasPrefix p (pqs_basePath s) \<and> hasSuffix p ''.parquet'' \<and>
        (\<exists>rel. RelativizePath p (pqs_basePath s) = Inr rel \<and> \<not> IsMetadataPath rel)} \<and>
    list_all (\<lambda>d. list_all2 (value_read (SnapTable snap))
      (HivePartitionsForFile (PhysicalPath d) (pqs_basePath s)) (PartitionValues d)) (DataFiles snap)"
proof -
  let ?b = "pqs_basePath s"
  from assms(1) obtain fs read merged schema' pfs where fs: "listDataFiles s = Inr fs"
    and read: "map_res (crawl_file open_file s) fs = Inr read"
    and spec: "partitionSpec merged (observedPartitions (map fst read)) = Inr (schema', pfs)"
    and tbl: "ReadSchema (SnapTable snap) = schema'" "PartitioningFields (SnapTable snap) = pfs"
    and snap: "DataFiles snap = map (data_file_of schema' (fields_by_key (observedPartitions (map fst read)) pfs)) (map fst read)"
    by (auto simp: parquet_GetCurrentSnapshot_def Let_def split: sum.splits)
  have infos: "map (cf_info \<circ> fst) read = fs" and parts: "list_all (\<lambda>f. cf_partitions f =
      HivePartitionsForFile (InfoPath (cf_info f)) ?b) (map fst read)"
    using read by (induction fs arbitrary: read) (auto simp: crawl_file_def split: sum.splits)
  have paths: "map PhysicalPath (DataFiles snap) = map InfoPath fs"
    by (simp add: snap infos [symmetric] data_file_of_def comp_def)
  have sorted: "sorted_wrt (<) (map PhysicalPath (DataFiles snap))"
    unfolding paths by (rule listDataFiles_sorted [OF assms(2) fs])
  have "PhysicalPath ` set (DataFiles snap) = InfoPath ` set fs" using arg_cong [OF paths, of set] by simp
  then have "PhysicalPath ` set (DataFiles snap) = {p. (\<exists>d. mem_Read (pqs_storage s) p = Inr d) \<and> hasPrefix p ?b \<and>
      hasSuffix p ''.parquet'' \<and> (\<exists>rel. RelativizePath p ?b = Inr rel \<and> \<not> IsMetadataPath rel)}"
    unfolding listed_paths [OF fs] .
  moreover have "list_all (\<lambda>f. list_all2 (value_read (SnapTable snap)) (cf_partitions f)
      (partitionValues f (fields_by_key (observedPartitions (map fst read)) pfs))) (map fst read)"
    using partitionValues_read [OF spec _ tbl] by (simp only: list_all_iff) blast
  ultimately show ?thesis using sorted parts
    by (auto simp: snap list_all_iff data_file_of_def)
qed

definition sample_pq_source :: parquet_source where
  "sample_pq_source = parquet_NewSource
     (mem_Write (mem_Write (mem_Write NewMemoryStorage ''s3://b/t/day=2026-01-03/b.parquet'' ''x'' 2000000)
        ''s3://b/t/day=2026-01-02/a.parquet'' ''y'' 1000000)
        ''s3://b/t/_delta_log/00000000000000000010.checkpoint.parquet'' ''z'' 3000000) ''s3://b/t''"

definition sample_open :: "string \<Rightarrow> pq_file res" where
  "sample_open fileData = Inr (sample_pq_file\<lparr>pqfSchema := Some []\<rparr>)"

theorem parquet_snapshot_faithful_witness:
  "\<exists>snap. parquet_GetCurrentSnapshot sample_open 7 sample_pq_source = Inr snap \<and>
    sorted_wrt (<) (map PhysicalPath (DataFiles snap)) \<and>
    PhysicalPath ` set (DataFiles snap) =
      {p. (\<exists>d. mem_Read (pqs_storage sample_pq_source) p = Inr d) \<and> hasPrefix p ''s3://b/t'' \<and> hasSuffix p ''.parquet'' \<and>
        (\<exists>rel. RelativizePath p ''s3://b/t'' = Inr rel \<and> \<not> IsMetadataPath rel)}"
proof -
  have "\<not> isl (parquet_GetCurrentSnapshot sample_open 7 sample_pq_source)" by code_simp
  then obtain snap where s: "parquet_GetCurrentSnapshot sample_open 7 sample_pq_source = Inr snap"
    by (cases "parquet_GetCurrentSnapshot sample_open 7 sample_pq_source") auto
  have "mem_invar (pqs_storage sample_pq_source)" by (simp add: sample_pq_source_def parquet_NewSource_def)
  from parquet_snapshot_faithful [OF s this] s show ?thesis by (simp add: sample_pq_source_def parquet_NewSource_def)
qed

end
