(* ===== verification/Json_Indent.thy ===== *)
theory Json_Indent
  imports Json_Codec
begin

text \<open>
  \<^verbatim>\<open>json.MarshalIndent(v, "", "  ")\<close>, which the Parquet and Paimon targets write their metadata with: every
  element on a line of its own, two spaces deeper than its container. What it writes,
  \<^verbatim>\<open>json.Unmarshal\<close> reads back.
\<close>

definition newline :: "nat \<Rightarrow> string" where
  "newline d = CHR 0x0A # replicate (2 * d) (CHR '' '')"

fun json_indent :: "nat \<Rightarrow> json \<Rightarrow> string" where
  "json_indent d (JArr xs) =
     (if xs = [] then ''[]''
      else CHR ''['' # newline (Suc d) @ joinWith (CHR '','' # newline (Suc d)) (map (json_indent (Suc d)) xs) @
        newline d @ [CHR '']''])"
| "json_indent d (JObj kvs) =
     (if kvs = [] then ''{}''
      else CHR ''{'' # newline (Suc d) @
        joinWith (CHR '','' # newline (Suc d)) (map (\<lambda>kv. json_quote (fst kv) @ '': '' @ json_indent (Suc d) (snd kv)) kvs) @
        newline d @ [CHR ''}''])"
| "json_indent d j = json_print j"

definition marshal_indent :: "json \<Rightarrow> string" where
  "marshal_indent j = json_indent 0 j"

section \<open>Reading back\<close>

lemma skip_ws_append: "list_all is_jws w \<Longrightarrow> skip_ws (w @ s) = skip_ws s"
  by (induction w) simp_all

lemma json_value_ws: "list_all is_jws w \<Longrightarrow> json_value n (w @ s) = json_value n s"
  by (cases n) (simp_all add: skip_ws_append)

lemma newline_ws [simp]: "list_all is_jws (newline d)"
  by (simp add: newline_def is_jws_def list_all_iff)

lemma num_stop_newline [simp]: "num_stop (newline d @ r)"
  by (simp add: num_stop_def newline_def is_digit_def)

text \<open>A text that is read as a value, whatever follows it.\<close>

definition reads_as :: "string \<Rightarrow> json \<Rightarrow> bool" where
  "reads_as s j \<longleftrightarrow>
     s \<noteq> [] \<and> hd s \<notin> {CHR '']'', CHR ''}''} \<and> \<not> is_jws (hd s) \<and>
     (\<forall>n r. 2 * length s \<le> n \<longrightarrow> num_stop r \<longrightarrow> json_value n (s @ r) = Some (j, r))"

lemma reads_asD:
  "reads_as s j \<Longrightarrow> 2 * length s \<le> n \<Longrightarrow> num_stop r \<Longrightarrow> json_value n (s @ r) = Some (j, r)"
  by (simp add: reads_as_def)

lemma reads_as_print: "wf_json j \<Longrightarrow> reads_as (json_print j) j"
  using wf_json_print_hd [of j] json_okD [OF wf_json_ok] by (auto simp: reads_as_def)

lemma json_elems_read:
  assumes "xs \<noteq> []" and "list_all (\<lambda>x. reads_as (f x) x) xs" and "(\<Sum>x\<leftarrow>xs. 2 * length (f x) + 1) \<le> n"
    and w: "list_all is_jws w"
  shows "json_elems n (w @ joinWith (CHR '','' # w) (map f xs) @ newline d @ CHR '']'' # r) = Some (xs, r)"
  using assms(1-3)
proof (induction xs arbitrary: n)
  case (Cons x xs)
  then obtain m where n: "n = Suc m" by (cases n) auto
  have x: "reads_as (f x) x" and m: "2 * length (f x) \<le> m" using Cons.prems n by auto
  show ?case
  proof (cases "xs = []")
    case True
    with reads_asD [OF x m, of "newline d @ CHR '']'' # r"] show ?thesis
      by (simp add: n json_value_ws [OF w] skip_ws_append is_jws_def)
  next
    case False
    with Cons.prems n have "json_elems m (w @ joinWith (CHR '','' # w) (map f xs) @ newline d @ CHR '']'' # r) = Some (xs, r)"
      by (intro Cons.IH) auto
    with reads_asD [OF x m, of "CHR '','' # w @ joinWith (CHR '','' # w) (map f xs) @ newline d @ CHR '']'' # r"] False
    show ?thesis by (simp add: n json_value_ws [OF w] joinWith_Cons is_jws_def)
  qed
qed simp

lemma json_members_read:
  assumes "kvs \<noteq> []" and "list_all (\<lambda>kv. reads_as (f (snd kv)) (snd kv)) kvs"
    and "(\<Sum>kv\<leftarrow>kvs. 2 * length (f (snd kv)) + 1) \<le> n" and w: "list_all is_jws w"
  shows "json_members n (w @ joinWith (CHR '','' # w) (map (\<lambda>kv. json_quote (fst kv) @ '': '' @ f (snd kv)) kvs) @
    newline d @ CHR ''}'' # r) = Some (kvs, r)"
  using assms(1-3)
proof (induction kvs arbitrary: n)
  case (Cons kv kvs)
  then obtain m where n: "n = Suc m" by (cases n) auto
  obtain k v where kv: "kv = (k, v)" by fastforce
  let ?p = "\<lambda>kv. json_quote (fst kv) @ '': '' @ f (snd kv)"
  have v: "reads_as (f v) v" and m: "2 * length (f v) \<le> m" using Cons.prems n by (auto simp: kv)
  have sp: "json_value m (CHR '' '' # f v @ z) = json_value m (f v @ z)" for z
    using json_value_ws [of "[CHR '' '']" m "f v @ z"] by (simp add: is_jws_def)
  show ?case
  proof (cases "kvs = []")
    case True
    with reads_asD [OF v m, of "newline d @ CHR ''}'' # r"] show ?thesis
      by (simp add: n kv skip_ws_append [OF w] skip_ws_append json_quote_def json_chars_quote is_jws_def sp)
  next
    case False
    with Cons.prems n have "json_members m (w @ joinWith (CHR '','' # w) (map ?p kvs) @ newline d @ CHR ''}'' # r) = Some (kvs, r)"
      by (intro Cons.IH) auto
    with reads_asD [OF v m, of "CHR '','' # w @ joinWith (CHR '','' # w) (map ?p kvs) @ newline d @ CHR ''}'' # r"] False
    show ?thesis
      by (simp add: n kv skip_ws_append [OF w] joinWith_Cons json_quote_def json_chars_quote is_jws_def sp)
  qed
qed simp

lemma length_joinWith_sep:
  "sep \<noteq> [] \<Longrightarrow> xs \<noteq> [] \<Longrightarrow> (\<Sum>x\<leftarrow>xs. length (f x) + 1) \<le> length (joinWith sep (map f xs)) + 1"
proof (induction xs)
  case (Cons x xs)
  then show ?case by (cases "xs = []"; cases sep) (auto simp: joinWith_Cons)
qed simp

lemma reads_as_JArr:
  assumes "list_all (\<lambda>x. reads_as (json_indent (Suc d) x) x) xs"
  shows "reads_as (json_indent d (JArr xs)) (JArr xs)"
proof (cases "xs = []")
  case True
  have "json_value n (''[]'' @ r) = Some (JArr [], r)" if "4 \<le> n" for n r
    using that by (cases n) (simp_all add: is_jws_def)
  with True show ?thesis by (simp add: reads_as_def is_jws_def)
next
  case False
  let ?w = "newline (Suc d)" and ?f = "json_indent (Suc d)"
  let ?body = "?w @ joinWith (CHR '','' # ?w) (map ?f xs) @ newline d @ [CHR '']'']"
  have "json_value n (CHR ''['' # ?body @ r) = Some (JArr xs, r)" if n: "2 * length (CHR ''['' # ?body) \<le> n" for n r
  proof -
    obtain m where m: "n = Suc m" using n by (cases n) auto
    have "(\<Sum>x\<leftarrow>xs. 2 * length (?f x) + 1) \<le> m"
      using n length_joinWith_sep [of "CHR '','' # ?w" xs ?f] sum_list_fuel_le [of xs "\<lambda>x. length (?f x)" ?f] False
      by (simp add: m)
    from json_elems_read [OF False assms this newline_ws, of "Suc d" d r]
    have e: "json_elems m (?body @ r) = Some (xs, r)" by simp
    obtain x xs' where x: "xs = x # xs'" using False by (meson neq_Nil_conv)
    with assms have "reads_as (?f x) x" by simp
    then obtain c t where c: "?f x = c # t" "\<not> is_jws c" "c \<noteq> CHR '']''"
      by (cases "?f x") (auto simp: reads_as_def)
    have "\<exists>t'. skip_ws (?body @ r) = c # t'"
      using c x by (cases "xs' = []") (simp_all add: skip_ws_append joinWith_Cons)
    with e c(3) show ?thesis by (auto simp: m is_jws_def)
  qed
  with False show ?thesis by (simp add: reads_as_def is_jws_def)
qed

lemma reads_as_JObj:
  assumes "list_all (\<lambda>kv. reads_as (json_indent (Suc d) (snd kv)) (snd kv)) kvs"
  shows "reads_as (json_indent d (JObj kvs)) (JObj kvs)"
proof (cases "kvs = []")
  case True
  have "json_value n (''{}'' @ r) = Some (JObj [], r)" if "4 \<le> n" for n r
    using that by (cases n) (simp_all add: is_jws_def)
  with True show ?thesis by (simp add: reads_as_def is_jws_def)
next
  case False
  let ?w = "newline (Suc d)" and ?f = "json_indent (Suc d)"
  let ?p = "\<lambda>kv. json_quote (fst kv) @ '': '' @ ?f (snd kv)"
  let ?body = "?w @ joinWith (CHR '','' # ?w) (map ?p kvs) @ newline d @ [CHR ''}'']"
  have "json_value n (CHR ''{'' # ?body @ r) = Some (JObj kvs, r)" if n: "2 * length (CHR ''{'' # ?body) \<le> n" for n r
  proof -
    obtain m where m: "n = Suc m" using n by (cases n) auto
    have "(\<Sum>kv\<leftarrow>kvs. 2 * length (?f (snd kv)) + 1) \<le> m"
      using n length_joinWith_sep [of "CHR '','' # ?w" kvs ?p] sum_list_fuel_le [of kvs "\<lambda>kv. length (?f (snd kv))" ?p] False
      by (simp add: m)
    from json_members_read [OF False assms this newline_ws, of "Suc d" d r]
    have e: "json_members m (?body @ r) = Some (kvs, r)" by simp
    obtain kv kvs' where x: "kvs = kv # kvs'" using False by (meson neq_Nil_conv)
    have "\<exists>t'. skip_ws (?body @ r) = CHR 0x22 # t'"
      using x by (cases "kvs' = []") (simp_all add: skip_ws_append joinWith_Cons json_quote_def is_jws_def)
    with e show ?thesis by (auto simp: m is_jws_def)
  qed
  with False show ?thesis by (simp add: reads_as_def is_jws_def)
qed

lemma reads_as_indent: "wf_json j \<Longrightarrow> reads_as (json_indent d j) j"
proof (induction j arbitrary: d)
  case (JArr xs)
  then show ?case by (intro reads_as_JArr) (auto simp: list_all_iff)
next
  case (JObj kvs)
  then have "reads_as (json_indent (Suc d) (snd kv)) (snd kv)" if "kv \<in> set kvs" for kv
    using that by (cases kv) (auto simp: list_all_iff snds.simps)
  then show ?case by (intro reads_as_JObj) (simp add: list_all_iff)
qed (simp_all add: reads_as_print del: json_print.simps)

lemma json_unmarshal_indent [simp, go_conv]: "wf_json j \<Longrightarrow> json_unmarshal (marshal_indent j) = Some j"
  using reads_asD [OF reads_as_indent [of j 0], of "2 * length (json_indent 0 j) + 2" "[]"]
  by (simp add: json_unmarshal_def marshal_indent_def)

end
