(* ===== verification/Model_Json.thy ===== *)
theory Model_Json
  imports Delta_Stats Model_Sync_Metadata
begin

text \<open>
  The JSON texts of the canonical model, as the \<^verbatim>\<open>json\<close> tags of \<^verbatim>\<open>pkg/model\<close> give them. A value that cannot be
  marshalled (NaN, an infinity) has none.
\<close>

section \<open>The model as JSON\<close>

definition omit_list :: "string \<Rightarrow> ('a \<Rightarrow> json option) \<Rightarrow> 'a list \<Rightarrow> members option" where
  "omit_list k f xs = (if xs = [] then Some [] else map_option (\<lambda>js. [(k, JArr js)]) (opt_all f xs))"

definition omit_ptr :: "string \<Rightarrow> ('a \<Rightarrow> json option) \<Rightarrow> 'a option \<Rightarrow> members option" where
  "omit_ptr k f p = (case p of None \<Rightarrow> Some [] | Some x \<Rightarrow> map_option (\<lambda>j. [(k, j)]) (f x))"

definition enc_ptr :: "('a \<Rightarrow> json option) \<Rightarrow> 'a option \<Rightarrow> json option" where
  "enc_ptr f p = (case p of None \<Rightarrow> Some JNull | Some x \<Rightarrow> f x)"

lemma omit_list_cong [fundef_cong]:
  "xs = ys \<Longrightarrow> (\<And>x. x \<in> set ys \<Longrightarrow> f x = g x) \<Longrightarrow> omit_list k f xs = omit_list k g ys"
  using opt_all_cong [of xs ys f g] by (simp add: omit_list_def)

lemma omit_ptr_cong [fundef_cong]: "p = q \<Longrightarrow> (\<And>x. q = Some x \<Longrightarrow> f x = g x) \<Longrightarrow> omit_ptr k f p = omit_ptr k g q"
  by (simp add: omit_ptr_def split: option.splits)

lemma enc_ptr_cong [fundef_cong]: "p = q \<Longrightarrow> (\<And>x. q = Some x \<Longrightarrow> f x = g x) \<Longrightarrow> enc_ptr f p = enc_ptr g q"
  by (simp add: enc_ptr_def split: option.splits)

text \<open>The members of a struct, one result per field in the order of declaration.\<close>

definition enc_struct :: "members option list \<Rightarrow> json option" where
  "enc_struct ms = map_option (JObj \<circ> concat) (opt_all (\<lambda>m. m) ms)"

definition omit_any :: "string \<Rightarrow> any \<Rightarrow> members option" where
  "omit_any k v = (if v = ANil then Some [] else map_option (\<lambda>j. [(k, j)]) (enc_any v))"

text \<open>A map is printed in the order of its keys.\<close>

definition metadata_members :: "schema \<Rightarrow> members option" where
  "metadata_members s =
     map_option concat (opt_all (\<lambda>(k, name). case Metadata s k of None \<Rightarrow> Some [] | Some v \<Rightarrow> map_option (\<lambda>j. [(name, j)]) (enc_any v))
       [(DecimalPrecision, ''DECIMAL_PRECISION''), (DecimalScale, ''DECIMAL_SCALE''), (EnumValues, ''ENUM_VALUES''),
        (FixedBytesSize, ''FIXED_BYTES_SIZE''), (TimestampPrecision, ''TIMESTAMP_PRECISION'')])"

definition omit_metadata :: "schema \<Rightarrow> members option" where
  "omit_metadata s = map_option (\<lambda>ms. if ms = [] then [] else [(''metadata'', JObj ms)]) (metadata_members s)"

function enc_schema :: "schema \<Rightarrow> json option"
  and enc_field :: "field \<Rightarrow> json option" where
  "enc_schema s =
     enc_struct
       [Some (omit_str ''name'' (SchemaName s)), Some [(''dataType'', JStr (Type_String (DataType s)))],
        Some (omit_str ''comment'' (Comment s)), Some [(''isNullable'', JBool (IsNullable s))],
        omit_list ''fields'' enc_field (Fields s), omit_ptr ''elementSchema'' enc_field (ElementSchema s),
        omit_ptr ''keySchema'' enc_field (KeySchema s), omit_ptr ''valueSchema'' enc_field (ValueSchema s),
        omit_list ''recordKeyFields'' enc_field (RecordKeyFields s), omit_metadata s]"
| "enc_field f =
     enc_struct
       [Some [(''name'', JStr (FieldName f))], Some (omit_str ''parentPath'' (ParentPath f)),
        map_option (\<lambda>j. [(''schema'', j)]) (enc_ptr enc_schema (FieldSchema f)),
        Some (omit_nil ''fieldId'' jint (FieldID f)), omit_any ''defaultValue'' (DefaultValue f)]"
  by pat_completeness auto
termination
proof (relation "measure (case_sum size size)")
  have "f \<in> set fs \<Longrightarrow> size f < Suc (size_list size fs)" for f :: field and fs
    using elem_size_list [of f fs size] by simp
  then show "f \<in> set (Fields s) \<Longrightarrow> (Inr f, Inl s) \<in> measure (case_sum size size)"
    "f \<in> set (RecordKeyFields s) \<Longrightarrow> (Inr f, Inl s) \<in> measure (case_sum size size)" for f s
    by (cases s; fastforce)+
  show "ElementSchema s = Some f \<Longrightarrow> (Inr f, Inl s) \<in> measure (case_sum size size)"
    "KeySchema s = Some f \<Longrightarrow> (Inr f, Inl s) \<in> measure (case_sum size size)"
    "ValueSchema s = Some f \<Longrightarrow> (Inr f, Inl s) \<in> measure (case_sum size size)" for f s
    by (cases s; simp)+
  show "FieldSchema f = Some s \<Longrightarrow> (Inl s, Inr f) \<in> measure (case_sum size size)" for f s
    by (cases f) simp
qed simp

declare enc_schema.simps [simp del] enc_field.simps [simp del]

definition transform_text :: "partition_transform \<Rightarrow> string" where
  "transform_text t =
     (case t of TransformValue \<Rightarrow> ''VALUE'' | TransformYear \<Rightarrow> ''YEAR'' | TransformMonth \<Rightarrow> ''MONTH''
      | TransformDay \<Rightarrow> ''DAY'' | TransformHour \<Rightarrow> ''HOUR'')"

definition enc_partition_field :: "partition_field \<Rightarrow> json option" where
  "enc_partition_field pf =
     enc_struct
       [map_option (\<lambda>j. [(''sourceField'', j)]) (enc_ptr enc_field (SourceField pf)),
        Some [(''transformType'', JStr (transform_text (TransformType pf)))], Some (omit_str ''format'' (PFormat pf)),
        Some (omit_str ''customPartitionName'' (CustomPartitionName pf))]"

definition enc_range :: "range \<Rightarrow> json option" where
  "enc_range r = enc_struct [omit_any ''minValue'' (MinValue r), omit_any ''maxValue'' (MaxValue r)]"

definition enc_column_stat :: "column_stat \<Rightarrow> json option" where
  "enc_column_stat st =
     enc_struct
       [map_option (\<lambda>j. [(''field'', j)]) (enc_ptr enc_field (StatField st)), omit_ptr ''range'' enc_range (StatRange st),
        Some [(''numNulls'', jint (NumNulls st)), (''numNaNs'', jint (NumNaNs st)), (''totalValues'', jint (TotalValues st))]]"

definition enc_partition_value :: "partition_value \<Rightarrow> json option" where
  "enc_partition_value pv =
     enc_struct
       [map_option (\<lambda>j. [(''partitionField'', j)]) (enc_ptr enc_partition_field (PVField pv)),
        map_option (\<lambda>j. [(''range'', j)]) (enc_ptr enc_range (PVRange pv))]"

definition enc_deletion_vector :: "deletion_vector \<Rightarrow> json option" where
  "enc_deletion_vector dv =
     enc_struct
       [Some (omit_str ''storagePath'' (StoragePath dv) @ omit_int ''offset'' (DVOffset dv) @
          [(''sizeInBytes'', jint (SizeInBytes dv)), (''cardinality'', jint (Cardinality dv))] @
          omit_str ''inlineBytes'' (base64 (InlineBytes dv)))]"

definition file_format_text :: "file_format \<Rightarrow> string" where
  "file_format_text f =
     (case f of FileFormatParquet \<Rightarrow> ''APACHE_PARQUET'' | FileFormatORC \<Rightarrow> ''APACHE_ORC'' | FileFormatAvro \<Rightarrow> ''APACHE_AVRO'')"

definition enc_data_file :: "data_file \<Rightarrow> json option" where
  "enc_data_file d =
     enc_struct
       [Some [(''physicalPath'', JStr (PhysicalPath d)), (''fileFormat'', JStr (file_format_text (FileFormat d))),
          (''fileSizeBytes'', jint (FileSizeBytes d)), (''recordCount'', jint (RecordCount d))],
        omit_list ''partitionValues'' enc_partition_value (PartitionValues d),
        omit_list ''columnStats'' enc_column_stat (ColumnStats d), Some [(''lastModified'', jint (LastModified d))],
        omit_ptr ''deletionVector'' enc_deletion_vector (DeletionVector d)]"

definition enc_sync_metadata :: "sync_metadata \<Rightarrow> json" where
  "enc_sync_metadata md =
     JObj ([(''lastInstantSynced'', jint (LastInstantSynced md))] @
       (if InstantsToConsiderForNextSync md = [] then []
        else [(''instantsToConsiderForNextSync'', JArr (map jint (InstantsToConsiderForNextSync md)))]) @
       omit_str ''sourceFormat'' (SourceFormat md) @ omit_str ''targetFormat'' (TargetFormat md) @
       omit_str ''sourceIdentifier'' (SourceIdentifier md) @ omit_map ''customProperties'' JStr (CustomProperties md))"

definition dec_sync_metadata :: "json \<Rightarrow> sync_metadata option" where
  "dec_sync_metadata j =
     Option.bind (struct_members j) (\<lambda>kvs.
     Option.bind (dec_int (jfield ''lastInstantSynced'' kvs)) (\<lambda>lastInstant.
     Option.bind (dec_list (\<lambda>j. dec_int (Some j)) (jfield ''instantsToConsiderForNextSync'' kvs)) (\<lambda>instants.
     Option.bind (dec_string (jfield ''sourceFormat'' kvs)) (\<lambda>sourceFormat.
     Option.bind (dec_string (jfield ''targetFormat'' kvs)) (\<lambda>targetFormat.
     Option.bind (dec_string (jfield ''sourceIdentifier'' kvs)) (\<lambda>sourceIdentifier.
     Option.bind (dec_smap (jfield ''customProperties'' kvs)) (\<lambda>props.
     Some \<lparr>LastInstantSynced = lastInstant, InstantsToConsiderForNextSync = instants, SourceFormat = sourceFormat,
           TargetFormat = targetFormat, SourceIdentifier = sourceIdentifier, CustomProperties = props\<rparr>)))))))"

end
