(* ===== verification/Parquet_Target.thy ===== *)
theory Parquet_Target
  imports Json_Indent Model_Json Storage_Memory
begin

text \<open>
  \<^verbatim>\<open>pkg/formats/parquet/target.go\<close>: the manifests and the sync metadata written beside an unmanaged directory.
  A slice is printed as an array also when it is empty; the code prints a nil slice without
  \<^verbatim>\<open>omitempty\<close> as null, and nothing reads the manifests back. The identifiers, the time stamps and the store's clock are
  arguments. The lemmas show where the metadata goes and which watermark it keeps.
\<close>

section \<open>The target\<close>

record parquet_target =
  pqt_storage :: mem_storage
  pqt_targetTable :: "table option"
  pqt_metadataDir :: string

definition parquet_NewTarget :: "mem_storage \<Rightarrow> parquet_target" where
  "parquet_NewTarget storage = \<lparr>pqt_storage = storage, pqt_targetTable = None, pqt_metadataDir = ''''\<rparr>"

definition parquet_Init :: "parquet_target \<Rightarrow> table \<Rightarrow> parquet_target" where
  "parquet_Init t targetTable =
     t\<lparr>pqt_targetTable := Some targetTable, pqt_metadataDir := filepath_Join [BasePath targetTable, ''_polytable_metadata'']\<rparr>"

definition sync_metadata_path :: "parquet_target \<Rightarrow> string" where
  "sync_metadata_path t = filepath_Join [pqt_metadataDir t, ''sync_metadata.json'']"

definition parquet_GetTableMetadata :: "parquet_target \<Rightarrow> sync_metadata option res" where
  "parquet_GetTableMetadata t =
     (case mem_Read (pqt_storage t) (sync_metadata_path t) of
        Inl _ \<Rightarrow> Inr None
      | Inr data \<Rightarrow>
          (case Option.bind (json_unmarshal data) dec_sync_metadata of
             None \<Rightarrow> Inl (ErrMsg ''failed to parse sync metadata'')
           | Some md \<Rightarrow> Inr (Some md)))"

definition writeSyncMetadata :: "parquet_target \<Rightarrow> int \<Rightarrow> sync_metadata \<Rightarrow> parquet_target" where
  "writeSyncMetadata t now md =
     t\<lparr>pqt_storage := mem_Write (pqt_storage t) (sync_metadata_path t) (marshal_indent (enc_sync_metadata md)) now\<rparr>"

definition snapshot_manifest :: "string \<times> string \<Rightarrow> schema \<Rightarrow> snapshot \<Rightarrow> json option" where
  "snapshot_manifest stamp s snap =
     enc_struct
       [Some [(''version'', JStr ''1.0''), (''manifest_id'', JStr (fst stamp)), (''timestamp'', JStr (snd stamp))],
        map_option (\<lambda>j. [(''schema'', j)]) (enc_schema s),
        map_option (\<lambda>js. [(''data_files'', JArr js)]) (opt_all enc_data_file (DataFiles snap)),
        omit_list ''partition_fields'' enc_partition_field (PartitioningFields (SnapTable snap))]"

text \<open>The sync metadata both kinds of commit leave.\<close>

definition sync_state :: "int \<Rightarrow> table_format \<Rightarrow> sync_metadata" where
  "sync_state instant fmt =
     \<lparr>LastInstantSynced = instant, InstantsToConsiderForNextSync = [], SourceFormat = fmt, TargetFormat = TableFormatParquet,
      SourceIdentifier = '''', CustomProperties = []\<rparr>"

text \<open>A commit returns the target it leaves, also when it fails, and the error.\<close>

definition parquet_CommitSnapshot :: "string \<times> string \<Rightarrow> int \<Rightarrow> parquet_target \<Rightarrow> snapshot \<Rightarrow> parquet_target \<times> gerr option" where
  "parquet_CommitSnapshot stamp now t snap =
     (case ReadSchema (SnapTable snap) of
        None \<Rightarrow> (t, Some (ErrMsg ''invalid snapshot: missing table or schema''))
      | Some s \<Rightarrow>
          (case snapshot_manifest stamp s snap of
             None \<Rightarrow> (t, Some (ErrMsg ''failed to marshal manifest''))
           | Some j \<Rightarrow>
               (let t = t\<lparr>pqt_storage := mem_Write (pqt_storage t) (filepath_Join [pqt_metadataDir t, ''manifest.json'']) (marshal_indent j) now\<rparr> in
                (writeSyncMetadata t now
                   (sync_state (LatestCommitTime (SnapTable snap)) (TableFormat (SnapTable snap))), None))))"

definition change_manifest :: "string \<times> string \<Rightarrow> table_change \<Rightarrow> json option" where
  "change_manifest stamp change =
     enc_struct
       [Some [(''version'', JStr ''1.0''), (''change_id'', JStr (fst stamp)),
          (''snapshot_id'', JStr (ChangeSourceIdentifier change)), (''timestamp'', JStr (snd stamp))],
        omit_ptr ''schema'' enc_schema (ReadSchema (TableAsOfChange change)),
        map_option (\<lambda>js. [(''added_files'', JArr js)]) (opt_all enc_data_file (FilesAdded (FilesDiff change))),
        map_option (\<lambda>js. [(''removed_files'', JArr js)]) (opt_all enc_data_file (FilesRemoved (FilesDiff change))),
        omit_list ''partition_fields'' enc_partition_field (PartitioningFields (TableAsOfChange change))]"

fun parquet_commit_changes :: "(nat \<Rightarrow> string \<times> string) \<Rightarrow> int \<Rightarrow> parquet_target \<Rightarrow> nat \<Rightarrow> table_change list \<Rightarrow> parquet_target \<times> gerr option" where
  "parquet_commit_changes stamps now t n [] = (t, None)"
| "parquet_commit_changes stamps now t n (change # changes) =
     (case change_manifest (stamps n) change of
        None \<Rightarrow> (t, Some (ErrMsg ''failed to marshal change manifest''))
      | Some j \<Rightarrow>
          parquet_commit_changes stamps now
            (t\<lparr>pqt_storage := mem_Write (pqt_storage t)
                 (filepath_Join [pqt_metadataDir t, ''change_'' @ ChangeSourceIdentifier change @ ''.json'']) (marshal_indent j) now\<rparr>)
            (Suc n) changes)"

definition latest_sync_instant :: "table_change list \<Rightarrow> int" where
  "latest_sync_instant changes = foldl (\<lambda>latest c. if CommitTime c > latest then CommitTime c else latest) 0 changes"

definition parquet_CommitChanges ::
  "(nat \<Rightarrow> string \<times> string) \<Rightarrow> int \<Rightarrow> parquet_target \<Rightarrow> incremental_changes \<Rightarrow> parquet_target \<times> gerr option" where
  "parquet_CommitChanges stamps now t changes =
     (case parquet_commit_changes stamps now t 0 (TableChanges changes) of
        (t', Some e) \<Rightarrow> (t', Some e)
      | (t', None) \<Rightarrow>
          (writeSyncMetadata t' now
             (sync_state (latest_sync_instant (TableChanges changes)) (TableFormat (CurrentTable changes))), None))"

section \<open>Where the metadata goes\<close>

lemma clean_segs_snoc: "proper_seg w \<Longrightarrow> clean_segs r (ws @ [w]) st = clean_segs r ws st @ [w]"
  by (induction r ws st rule: clean_segs.induct) (auto simp: proper_seg_def split: list.splits)


lemma clean_segs_elems: "w \<in> set (clean_segs r ws st) \<Longrightarrow> w \<in> set ws \<union> set st"
  by (induction r ws st rule: clean_segs.induct) (auto split: if_splits list.splits)

lemma clean_segs_nonempty: "\<forall>v \<in> set st. v \<noteq> '''' \<Longrightarrow> w \<in> set (clean_segs r ws st) \<Longrightarrow> w \<noteq> ''''"
  by (induction r ws st rule: clean_segs.induct) (auto split: if_splits list.splits)

text \<open>A file of a directory: its path is the directory's, up to a separator, and its name.\<close>

lemma filepath_Join_proper:
  assumes "proper_seg w" and "d \<noteq> ''''"
  shows "filepath_Join [d, w] = (if hasPrefix d ''/'' then ''/'' else '''') @
    joinWith ''/'' (clean_segs (hasPrefix d ''/'') (splitChar (CHR ''/'') d) [] @ [w])"
proof -
  let ?out = "joinWith ''/'' (clean_segs (hasPrefix d ''/'') (splitChar (CHR ''/'') d) [] @ [w])"
  have w: "w \<noteq> ''''" "CHR ''/'' \<notin> set w" using assms(1) by (auto simp: proper_seg_def)
  have "hasPrefix (d @ CHR ''/'' # w) ''/'' = hasPrefix d ''/''" using assms(2) by (cases d) auto
  moreover have "?out \<noteq> ''''"
    using w(1) joinWith_append [of "clean_segs (hasPrefix d ''/'') (splitChar (CHR ''/'') d) []" "[w]" "''/''"]
    by (cases "clean_segs (hasPrefix d ''/'') (splitChar (CHR ''/'') d) [] = []") auto
  ultimately show ?thesis
    using assms w
    by (cases "hasPrefix d ''/''")
      (simp_all add: filepath_Join_def path_Clean_def splitChar_append splitChar_no_sep clean_segs_snoc Let_def)
qed

lemma double_slash_split: "splitChar (CHR ''/'') (a @ ''//'' @ b) = splitChar (CHR ''/'') a @ [] # splitChar (CHR ''/'') b"
  using splitChar_append [of "CHR ''/''" a "CHR ''/'' # b"] by simp

text \<open>A cleaned path has no double slash.\<close>

lemma path_Clean_no_double_slash: "path_Clean p \<noteq> a @ ''//'' @ b"
proof
  assume eq: "path_Clean p = a @ ''//'' @ b"
  define r where "r = hasPrefix p ''/''"
  define ws where "ws = clean_segs r (splitChar (CHR ''/'') p) []"
  have ns: "\<forall>v \<in> set ws. CHR ''/'' \<notin> set v" and ne: "\<forall>v \<in> set ws. v \<noteq> ''''"
    using clean_segs_elems [of _ r "splitChar (CHR ''/'') p" "[]"] clean_segs_nonempty [of "[]" _ r "splitChar (CHR ''/'') p"]
    by (auto simp: ws_def dest: splitChar_elems_no_sep)
  have "path_Clean p = ''.'' \<or> path_Clean p = ''/'' \<or>
      ws \<noteq> [] \<and> path_Clean p = (if r then ''/'' else '''') @ joinWith ''/'' ws"
    by (auto simp: path_Clean_def Let_def ws_def r_def)
  moreover have "splitChar (CHR ''/'') ((if r then ''/'' else '''') @ joinWith ''/'' ws) = (if r then [[]] else []) @ ws" if "ws \<noteq> []"
    using splitChar_joinWith [OF that, of "CHR ''/''"] ns by simp
  ultimately have "splitChar (CHR ''/'') (path_Clean p) \<in> {[''.''], ['''', ''''], ws, [] # ws} "
    by auto
  with eq have s: "splitChar (CHR ''/'') a @ [] # splitChar (CHR ''/'') b \<in> {[''.''], ['''', ''''], ws, [] # ws}"
    using double_slash_split [of a b] by simp
  obtain x xs y ys where x: "splitChar (CHR ''/'') a = x # xs" "splitChar (CHR ''/'') b = y # ys"
    using splitChar_nonempty by (metis neq_Nil_conv)
  from s x ne show False by (auto simp: Cons_eq_append_conv)
qed

lemma uri_scheme_double_slash: "p \<in> set uriSchemes \<Longrightarrow> hasPrefix base p \<Longrightarrow> \<exists>a b. base = a @ ''//'' @ b"
proof -
  assume p: "p \<in> set uriSchemes" "hasPrefix base p"
  then obtain b where b: "base = p @ b" by (auto simp: hasPrefix_iff)
  have "list_all (\<lambda>p. p = take (length p - 2) p @ ''//'') uriSchemes" by code_simp
  with p(1) obtain a where "p = a @ ''//''" by (auto simp: list_all_iff)
  with b show ?thesis by auto
qed

lemma filepath_Join_below_scheme:
  assumes "p \<in> set uriSchemes" and "hasPrefix base p"
  shows "\<not> hasPrefix (filepath_Join es) base"
proof
  assume "hasPrefix (filepath_Join es) base"
  moreover obtain a b where "base = a @ ''//'' @ b" using uri_scheme_double_slash [OF assms] by blast
  ultimately obtain c where c: "filepath_Join es = a @ ''//'' @ c" by (auto simp: hasPrefix_iff)
  then have "filepath_Join es \<noteq> ''''" by simp
  then have "\<exists>q. filepath_Join es = path_Clean q" unfolding filepath_Join_def by (cases "dropWhile (\<lambda>e. e = '''') es"; simp only: list.case; blast)
  with c path_Clean_no_double_slash show False by metis
qed

lemma filepath_Join_inj:
  assumes "proper_seg v" and "proper_seg w" and "d \<noteq> ''''"
  shows "filepath_Join [d, v] = filepath_Join [d, w] \<longleftrightarrow> v = w"
proof -
  let ?ws = "clean_segs (hasPrefix d ''/'') (splitChar (CHR ''/'') d) []"
  have "joinWith ''/'' (?ws @ [v]) = joinWith ''/'' (?ws @ [w]) \<longleftrightarrow> v = w"
    using joinWith_append [of ?ws "[v]" "''/''"] joinWith_append [of ?ws "[w]" "''/''"] by (cases "?ws = []") auto
  then show ?thesis by (simp add: filepath_Join_proper assms)
qed

lemma filepath_Join_nonempty: "proper_seg w \<Longrightarrow> d \<noteq> '''' \<Longrightarrow> filepath_Join [d, w] \<noteq> ''''"
  using joinWith_append [of "clean_segs (hasPrefix d ''/'') (splitChar (CHR ''/'') d) []" "[w]" "''/''"]
  by (cases "clean_segs (hasPrefix d ''/'') (splitChar (CHR ''/'') d) [] = []")
    (auto simp: filepath_Join_proper proper_seg_def)

section \<open>The watermark\<close>

lemma parquet_commit_changes_fields [simp]:
  "pqt_metadataDir (fst (parquet_commit_changes stamps now t n changes)) = pqt_metadataDir t"
  by (induction stamps now t n changes rule: parquet_commit_changes.induct) (simp_all split: option.splits)

lemma dec_enc_sync_metadata:
  assumes "in_int64 (LastInstantSynced md)" and "InstantsToConsiderForNextSync md = []" and "CustomProperties md = []"
  shows "dec_sync_metadata (enc_sync_metadata md) = Some md"
  using assms
  by (cases md) (simp add: dec_sync_metadata_def enc_sync_metadata_def key_simps omit_map_def)

lemma written_metadata_read:
  assumes "in_int64 (LastInstantSynced md)" and "InstantsToConsiderForNextSync md = []" and "CustomProperties md = []"
  shows "parquet_GetTableMetadata (writeSyncMetadata t now md) = Inr (Some md)"
proof -
  have "wf_json (enc_sync_metadata md)"
    using assms(2,3) by (simp add: enc_sync_metadata_def omit_map_def)
  then show ?thesis
    using dec_enc_sync_metadata [OF assms]
    by (simp add: parquet_GetTableMetadata_def writeSyncMetadata_def sync_metadata_path_def)
qed

lemma foldl_latest:
  "foldl (\<lambda>latest c. if CommitTime c > latest then CommitTime c else latest) m changes = Max (insert m (CommitTime ` set changes))"
proof (induction changes arbitrary: m)
  case (Cons c changes)
  have "Max (insert (max m (CommitTime c)) (CommitTime ` set changes)) = Max (insert m (insert (CommitTime c) (CommitTime ` set changes)))"
    by (cases "changes = []") (simp_all add: max.assoc)
  with Cons show ?case by (simp add: max_def split: if_splits)
qed simp

text \<open>A change's manifest never overwrites the sync metadata when its identifier is a plain name.\<close>

lemma pq_changes_watermark:
  assumes "pqt_metadataDir t \<noteq> ''''" and "list_all (\<lambda>c. CHR ''/'' \<notin> set (ChangeSourceIdentifier c)) changes"
  shows "parquet_GetTableMetadata (fst (parquet_commit_changes stamps now t n changes)) = parquet_GetTableMetadata t"
  using assms
proof (induction stamps now t n changes rule: parquet_commit_changes.induct)
  case (2 stamps now t n change changes)
  let ?w = "''change_'' @ ChangeSourceIdentifier change @ ''.json''"
  have "filepath_Join [pqt_metadataDir t, ''sync_metadata.json''] \<noteq> filepath_Join [pqt_metadataDir t, ?w]"
    using 2(2,3) filepath_Join_inj [of "''sync_metadata.json''" ?w "pqt_metadataDir t"] by (simp add: proper_seg_def)
  then have "parquet_GetTableMetadata (t\<lparr>pqt_storage := mem_Write (pqt_storage t) (filepath_Join [pqt_metadataDir t, ?w]) d now\<rparr>) =
      parquet_GetTableMetadata t" for d
    by (simp add: parquet_GetTableMetadata_def sync_metadata_path_def)
  with 2 show ?case by (simp split: option.splits)
qed simp

text \<open>
  C31. The sync metadata a commit leaves is exactly the watermark the next sync resumes from: a successful
  snapshot commit reads back with the table's latest commit time, a successful batch of changes with the
  latest of its commit times (the metadata of an initialised target, identifiers without slashes), and a
  commit that fails leaves the watermark that was there before.
\<close>

theorem parquet_commit_watermark:
  assumes "pqt_metadataDir t \<noteq> ''''" and "list_all (\<lambda>c. CHR ''/'' \<notin> set (ChangeSourceIdentifier c)) (TableChanges changes)"
    and "in_int64 (LatestCommitTime (SnapTable snap))" and "list_all (\<lambda>c. in_int64 (CommitTime c)) (TableChanges changes)"
  shows "parquet_GetTableMetadata (fst (parquet_CommitSnapshot stamp now t snap)) =
      (if snd (parquet_CommitSnapshot stamp now t snap) = None
       then Inr (Some (sync_state (LatestCommitTime (SnapTable snap)) (TableFormat (SnapTable snap))))
       else parquet_GetTableMetadata t) \<and>
    parquet_GetTableMetadata (fst (parquet_CommitChanges stamps now t changes)) =
      (if snd (parquet_CommitChanges stamps now t changes) = None
       then Inr (Some (sync_state (Max (insert 0 (CommitTime ` set (TableChanges changes)))) (TableFormat (CurrentTable changes))))
       else parquet_GetTableMetadata t)"
proof
  show "parquet_GetTableMetadata (fst (parquet_CommitSnapshot stamp now t snap)) =
      (if snd (parquet_CommitSnapshot stamp now t snap) = None
       then Inr (Some (sync_state (LatestCommitTime (SnapTable snap)) (TableFormat (SnapTable snap))))
       else parquet_GetTableMetadata t)"
    using assms(3) by (simp add: parquet_CommitSnapshot_def written_metadata_read sync_state_def Let_def split: option.splits)
  have "Max (insert 0 (CommitTime ` set (TableChanges changes))) \<in> insert 0 (CommitTime ` set (TableChanges changes))"
    by (intro Max_in) auto
  then have "in_int64 (Max (insert 0 (CommitTime ` set (TableChanges changes))))"
    using assms(4) by (auto simp: list_all_iff in_int64_def)
  then have w: "parquet_GetTableMetadata (writeSyncMetadata t' now
      (sync_state (latest_sync_instant (TableChanges changes)) (TableFormat (CurrentTable changes)))) =
      Inr (Some (sync_state (Max (insert 0 (CommitTime ` set (TableChanges changes)))) (TableFormat (CurrentTable changes))))" for t'
    by (simp add: written_metadata_read sync_state_def latest_sync_instant_def foldl_latest)
  show "parquet_GetTableMetadata (fst (parquet_CommitChanges stamps now t changes)) =
      (if snd (parquet_CommitChanges stamps now t changes) = None
       then Inr (Some (sync_state (Max (insert 0 (CommitTime ` set (TableChanges changes)))) (TableFormat (CurrentTable changes))))
       else parquet_GetTableMetadata t)"
    using pq_changes_watermark [OF assms(1,2), of stamps now 0]
    by (cases "parquet_commit_changes stamps now t 0 (TableChanges changes)") (auto simp: parquet_CommitChanges_def w split: option.splits)
qed

definition sample_pq_table :: "string \<Rightarrow> table" where
  "sample_pq_table base =
     \<lparr>TableName = ''t'', TableFormat = TableFormatDelta, ReadSchema = Some (NewRecordSchema ''root'' [] False),
      LayoutStrategy = LayoutUnset, BasePath = base, DataPath = '''', PartitioningFields = [], LatestCommitTime = 41,
      LatestMetadataPath = ''''\<rparr>"

definition sample_pq_snapshot :: "string \<Rightarrow> snapshot" where
  "sample_pq_snapshot base =
     \<lparr>SnapTable = sample_pq_table base, PartitionedDataFiles = [], DataFiles = [], SnapSourceIdentifier = ''7''\<rparr>"

definition sample_pq_changes :: "string \<Rightarrow> incremental_changes" where
  "sample_pq_changes base =
     \<lparr>TableChanges =
        [\<lparr>FilesDiff = \<lparr>FilesAdded = [], FilesRemoved = []\<rparr>, TableAsOfChange = sample_pq_table base,
          ChangeSourceIdentifier = ''8'', CommitTime = 42\<rparr>],
      CurrentTable = sample_pq_table base\<rparr>"

definition sample_pq_target :: "string \<Rightarrow> parquet_target" where
  "sample_pq_target base = parquet_Init (parquet_NewTarget NewMemoryStorage) (sample_pq_table base)"

lemma sample_pq_commits:
  "snd (parquet_CommitSnapshot (''id'', ''now'') 1 (sample_pq_target ''/d/t'') (sample_pq_snapshot ''/d/t'')) = None"
  "snd (parquet_CommitChanges (\<lambda>_. (''id'', ''now'')) 1 (sample_pq_target ''/d/t'') (sample_pq_changes ''/d/t'')) = None"
  by code_simp+

theorem parquet_commit_watermark_witness:
  "parquet_GetTableMetadata (fst (parquet_CommitSnapshot (''id'', ''now'') 1 (sample_pq_target ''/d/t'') (sample_pq_snapshot ''/d/t''))) =
     Inr (Some (sync_state 41 TableFormatDelta)) \<and>
   parquet_GetTableMetadata (fst (parquet_CommitChanges (\<lambda>_. (''id'', ''now'')) 1 (sample_pq_target ''/d/t'') (sample_pq_changes ''/d/t''))) =
     Inr (Some (sync_state 42 TableFormatDelta))"
proof -
  have d: "pqt_metadataDir (sample_pq_target ''/d/t'') \<noteq> ''''" by code_simp
  show ?thesis
    using parquet_commit_watermark [of "sample_pq_target ''/d/t''" "sample_pq_changes ''/d/t''" "sample_pq_snapshot ''/d/t''"
        "(''id'', ''now'')" 1 "\<lambda>_. (''id'', ''now'')"] d sample_pq_commits
    by (simp add: sample_pq_changes_def sample_pq_snapshot_def sample_pq_table_def in_int64_def)
qed

section \<open>Metadata of tables at a URI\<close>

lemma filter_map_put: "\<not> P (k, v) \<Longrightarrow> (\<And>v. P (k, v) = P (k, undefined)) \<Longrightarrow> filter P (map_put k v m) = filter P m"
  by (induction m) (auto simp: map_put_def, metis)

lemma mem_List_Write_other: "\<not> hasPrefix p pre \<Longrightarrow> mem_List (mem_Write s p d now) pre = mem_List s pre"
  by (simp add: mem_List_def mem_Write_def filter_map_put)

lemma writeSyncMetadata_listing:
  "\<not> hasPrefix (sync_metadata_path t) base \<Longrightarrow> mem_List (pqt_storage (writeSyncMetadata t now md)) base = mem_List (pqt_storage t) base"
  by (simp add: writeSyncMetadata_def mem_List_Write_other)

lemma commit_changes_listing:
  assumes "\<And>es. \<not> hasPrefix (filepath_Join es) base"
  shows "mem_List (pqt_storage (fst (parquet_commit_changes stamps now t n changes))) base = mem_List (pqt_storage t) base"
  by (induction stamps now t n changes rule: parquet_commit_changes.induct)
    (simp_all add: mem_List_Write_other assms split: option.splits)

text \<open>
  A table whose base path is a URI never gets its metadata: the paths are built with filepath.Join, which
  collapses the double slash of the scheme, so neither a snapshot commit nor a batch of changes writes
  anything a listing of the table's directory would show.
\<close>

theorem parquet_metadata_misplaced:
  assumes "list_ex (hasPrefix (BasePath tbl)) uriSchemes"
  shows "mem_List (pqt_storage (fst (parquet_CommitSnapshot stamp now (parquet_Init t tbl) snap))) (BasePath tbl) =
      mem_List (pqt_storage t) (BasePath tbl) \<and>
    mem_List (pqt_storage (fst (parquet_CommitChanges stamps now (parquet_Init t tbl) changes))) (BasePath tbl) =
      mem_List (pqt_storage t) (BasePath tbl)"
proof
  have j: "\<not> hasPrefix (filepath_Join es) (BasePath tbl)" for es
    using assms filepath_Join_below_scheme by (auto simp: list_ex_iff)
  have i: "pqt_storage (parquet_Init t tbl) = pqt_storage t" by (simp add: parquet_Init_def)
  show "mem_List (pqt_storage (fst (parquet_CommitSnapshot stamp now (parquet_Init t tbl) snap))) (BasePath tbl) =
      mem_List (pqt_storage t) (BasePath tbl)"
    by (simp add: parquet_CommitSnapshot_def Let_def writeSyncMetadata_listing sync_metadata_path_def j mem_List_Write_other i
        split: option.splits)
  show "mem_List (pqt_storage (fst (parquet_CommitChanges stamps now (parquet_Init t tbl) changes))) (BasePath tbl) =
      mem_List (pqt_storage t) (BasePath tbl)"
    using commit_changes_listing [OF j, of stamps now "parquet_Init t tbl" 0 "TableChanges changes"] i
    by (cases "parquet_commit_changes stamps now (parquet_Init t tbl) 0 (TableChanges changes)")
      (auto simp: parquet_CommitChanges_def writeSyncMetadata_listing sync_metadata_path_def j split: option.splits)
qed

theorem parquet_metadata_misplaced_witness:
  "mem_List (pqt_storage (fst (parquet_CommitSnapshot (''id'', ''now'') 1 (sample_pq_target ''s3://b/t'') (sample_pq_snapshot ''s3://b/t''))))
    ''s3://b/t'' = []"
  using parquet_metadata_misplaced [of "sample_pq_table ''s3://b/t''" "(''id'', ''now'')" 1 "parquet_NewTarget NewMemoryStorage"]
  by (simp add: sample_pq_target_def sample_pq_table_def uriSchemes_def parquet_NewTarget_def NewMemoryStorage_def mem_List_def)

end
