(* ===== verification/Json_Raw.thy ===== *)
theory Json_Raw
  imports Json_Indent
begin

text \<open>
  \<^verbatim>\<open>json.RawMessage\<close>: the text of a member or an element as it stands in the document, white space
  inside it included. Paimon's type column keeps that text and compares it byte by byte.
\<close>

text \<open>The value at the head of a text that starts with it: its bytes and what follows them.\<close>

definition raw_span :: "string \<Rightarrow> (string \<times> string) option" where
  "raw_span s =
     (case json_value (2 * length s + 2) s of
        None \<Rightarrow> None
      | Some (_, r) \<Rightarrow> Some (take (length s - length r) s, r))"

fun raw_members :: "nat \<Rightarrow> string \<Rightarrow> (string \<times> string) list" where
  "raw_members 0 s = []"
| "raw_members (Suc n) s =
     (case skip_ws s of
        c # t \<Rightarrow>
          (case json_chars t of
             None \<Rightarrow> []
           | Some (k, r) \<Rightarrow>
               (case raw_span (skip_ws (tl (skip_ws r))) of
                  None \<Rightarrow> []
                | Some (v, q) \<Rightarrow>
                    (k, v) # (if hasPrefix (skip_ws q) '','' then raw_members n (tl (skip_ws q)) else [])))
      | [] \<Rightarrow> [])"

fun raw_elems :: "nat \<Rightarrow> string \<Rightarrow> string list" where
  "raw_elems 0 s = []"
| "raw_elems (Suc n) s =
     (case raw_span (skip_ws s) of
        None \<Rightarrow> []
      | Some (v, q) \<Rightarrow> v # (if hasPrefix (skip_ws q) '','' then raw_elems n (tl (skip_ws q)) else []))"

text \<open>The members of a document that is an object, the elements of one that is an array.\<close>

definition raw_object :: "string \<Rightarrow> (string \<times> string) list" where
  "raw_object s =
     (case skip_ws s of
        c # t \<Rightarrow> if c = CHR ''{'' \<and> \<not> hasPrefix (skip_ws t) ''}'' then raw_members (length t) t else []
      | [] \<Rightarrow> [])"

definition raw_array :: "string \<Rightarrow> string list" where
  "raw_array s =
     (case skip_ws s of
        c # t \<Rightarrow> if c = CHR ''['' \<and> \<not> hasPrefix (skip_ws t) '']'' then raw_elems (length t) t else []
      | [] \<Rightarrow> [])"

text \<open>The member a struct field is decoded from, by the rule of \<open>jfield\<close>.\<close>

definition raw_field :: "string \<Rightarrow> string \<Rightarrow> string option" where
  "raw_field k s = map_option snd (List.find (\<lambda>kv. equalFold (fst kv) k) (rev (raw_object s)))"

section \<open>Indented documents\<close>

lemma raw_span_read:
  assumes "reads_as s j" and "num_stop r"
  shows "raw_span (s @ r) = Some (s, r)"
  using reads_asD [OF assms(1) _ assms(2), of "2 * length (s @ r) + 2"] by (simp add: raw_span_def)

lemma reads_as_skip: "reads_as s j \<Longrightarrow> skip_ws (s @ r) = s @ r"
  by (cases s) (simp_all add: reads_as_def)

lemma raw_elems_read:
  assumes "xs \<noteq> []" and "list_all (\<lambda>x. reads_as (f x) x) xs" and "length xs \<le> n" and w: "list_all is_jws w"
  shows "raw_elems n (w @ joinWith (CHR '','' # w) (map f xs) @ newline d @ CHR '']'' # r) = map f xs"
  using assms(1-3)
proof (induction xs arbitrary: n)
  case (Cons x xs)
  then obtain m where n: "n = Suc m" by (cases n) auto
  have x: "reads_as (f x) x" using Cons.prems by simp
  show ?case
  proof (cases "xs = []")
    case True
    then show ?thesis
      by (simp add: n skip_ws_append [OF w] reads_as_skip [OF x] raw_span_read [OF x] skip_ws_append is_jws_def)
  next
    case False
    then have "raw_elems m (w @ joinWith (CHR '','' # w) (map f xs) @ newline d @ CHR '']'' # r) = map f xs"
      using Cons.prems n by (intro Cons.IH) auto
    with False show ?thesis
      by (simp add: n skip_ws_append [OF w] joinWith_Cons reads_as_skip [OF x] raw_span_read [OF x] is_jws_def)
  qed
qed simp

lemma raw_members_read:
  assumes "kvs \<noteq> []" and "list_all (\<lambda>kv. reads_as (f (snd kv)) (snd kv)) kvs" and "length kvs \<le> n" and w: "list_all is_jws w"
  shows "raw_members n (w @ joinWith (CHR '','' # w) (map (\<lambda>kv. json_quote (fst kv) @ '': '' @ f (snd kv)) kvs) @
    newline d @ CHR ''}'' # r) = map (\<lambda>kv. (fst kv, f (snd kv))) kvs"
  using assms(1-3)
proof (induction kvs arbitrary: n)
  case (Cons kv kvs)
  then obtain m where n: "n = Suc m" by (cases n) auto
  obtain k v where kv: "kv = (k, v)" by fastforce
  let ?p = "\<lambda>kv. json_quote (fst kv) @ '': '' @ f (snd kv)"
  have v: "reads_as (f v) v" using Cons.prems by (simp add: kv)
  show ?case
  proof (cases "kvs = []")
    case True
    then show ?thesis
      by (simp add: n kv skip_ws_append [OF w] skip_ws_append json_quote_def json_chars_quote is_jws_def
          reads_as_skip [OF v] raw_span_read [OF v])
  next
    case False
    then have "raw_members m (w @ joinWith (CHR '','' # w) (map ?p kvs) @ newline d @ CHR ''}'' # r) = map (\<lambda>kv. (fst kv, f (snd kv))) kvs"
      using Cons.prems n by (intro Cons.IH) auto
    with False show ?thesis
      by (simp add: n kv skip_ws_append [OF w] joinWith_Cons json_quote_def json_chars_quote is_jws_def
          reads_as_skip [OF v] raw_span_read [OF v])
  qed
qed simp

lemma length_joinWith_elems: "sep \<noteq> [] \<Longrightarrow> length xs \<le> length (joinWith sep xs) + 1"
proof (induction xs)
  case (Cons x xs)
  then show ?case by (cases "xs = []"; cases sep) (auto simp: joinWith_Cons)
qed simp

lemma raw_array_indent:
  assumes "list_all wf_json xs"
  shows "raw_array (json_indent d (JArr xs)) = map (json_indent (Suc d)) xs"
proof (cases "xs = []")
  case False
  let ?w = "newline (Suc d)" and ?f = "json_indent (Suc d)"
  have all: "list_all (\<lambda>x. reads_as (?f x) x) xs" using assms by (auto simp: list_all_iff reads_as_indent)
  obtain x xs' where x: "xs = x # xs'" using False by (meson neq_Nil_conv)
  with all have "reads_as (?f x) x" by simp
  then obtain c t where c: "?f x = c # t" "\<not> is_jws c" "c \<noteq> CHR '']''" by (cases "?f x") (auto simp: reads_as_def)
  have "\<exists>t'. skip_ws (?w @ joinWith (CHR '','' # ?w) (map ?f xs) @ newline d @ '']'') = c # t'"
    using c x by (cases "xs' = []") (simp_all add: skip_ws_append joinWith_Cons)
  then have "\<not> hasPrefix (skip_ws (?w @ joinWith (CHR '','' # ?w) (map ?f xs) @ newline d @ '']'')) '']''" using c(3) by auto
  moreover have "length xs \<le> length (?w @ joinWith (CHR '','' # ?w) (map ?f xs) @ newline d @ '']'')"
    using length_joinWith_elems [of "CHR '','' # ?w" "map ?f xs"] by simp
  ultimately show ?thesis
    using raw_elems_read [OF False all _ newline_ws, of _ "Suc d" d "[]"] False by (simp add: raw_array_def is_jws_def del: raw_elems.simps)
qed (simp add: raw_array_def is_jws_def)

lemma raw_object_indent:
  assumes "list_all (\<lambda>kv. wf_json (snd kv)) kvs"
  shows "raw_object (json_indent d (JObj kvs)) = map (\<lambda>kv. (fst kv, json_indent (Suc d) (snd kv))) kvs"
proof (cases "kvs = []")
  case False
  let ?w = "newline (Suc d)" and ?f = "json_indent (Suc d)"
  let ?p = "\<lambda>kv. json_quote (fst kv) @ '': '' @ ?f (snd kv)"
  have all: "list_all (\<lambda>kv. reads_as (?f (snd kv)) (snd kv)) kvs" using assms by (auto simp: list_all_iff reads_as_indent)
  obtain kv kvs' where x: "kvs = kv # kvs'" using False by (meson neq_Nil_conv)
  have "\<exists>t'. skip_ws (?w @ joinWith (CHR '','' # ?w) (map ?p kvs) @ newline d @ ''}'') = CHR 0x22 # t'"
    using x by (cases "kvs' = []") (simp_all add: skip_ws_append joinWith_Cons json_quote_def is_jws_def)
  then have "\<not> hasPrefix (skip_ws (?w @ joinWith (CHR '','' # ?w) (map ?p kvs) @ newline d @ ''}'')) ''}''" by auto
  moreover have "length kvs \<le> length (?w @ joinWith (CHR '','' # ?w) (map ?p kvs) @ newline d @ ''}'')"
    using length_joinWith_elems [of "CHR '','' # ?w" "map ?p kvs"] by simp
  ultimately show ?thesis
    using raw_members_read [OF False all _ newline_ws, of _ "Suc d" d "[]"] False by (simp add: raw_object_def is_jws_def del: raw_members.simps)
qed (simp add: raw_object_def is_jws_def)

lemma raw_field_indent:
  "list_all (\<lambda>kv. wf_json (snd kv)) kvs \<Longrightarrow> raw_field k (json_indent d (JObj kvs)) = map_option (json_indent (Suc d)) (jfield k kvs)"
proof -
  assume wf: "list_all (\<lambda>kv. wf_json (snd kv)) kvs"
  have "raw_field k (json_indent d (JObj kvs)) =
      map_option snd (List.find (\<lambda>kv. equalFold (fst kv) k) (map (\<lambda>kv. (fst kv, json_indent (Suc d) (snd kv))) (rev kvs)))"
    by (simp only: raw_field_def raw_object_indent [OF wf] rev_map)
  also have "\<dots> = map_option (json_indent (Suc d)) (map_option snd (List.find (\<lambda>kv. equalFold (fst kv) k) (rev kvs)))"
  proof -
    have "map_option snd (List.find (\<lambda>kv. equalFold (fst kv) k) (map (\<lambda>kv. (fst kv, g (snd kv))) xs)) =
        map_option g (map_option snd (List.find (\<lambda>kv. equalFold (fst kv) k) xs))" for g :: "json \<Rightarrow> string" and xs
      by (induction xs) simp_all
    then show ?thesis .
  qed
  finally show ?thesis by (simp add: jfield_def)
qed

end
