(* ===== verification/Paimon_Schema.thy ===== *)
theory Paimon_Schema
  imports Model_Core Json_Raw Json_Struct
begin

text \<open>
  \<^verbatim>\<open>pkg/formats/paimon/schema.go\<close>: canonical schemas as Paimon schema files and back. A type column is kept as
  the text of its document (\<^verbatim>\<open>PaimonType.raw\<close>), as the code keeps it. Letter case and white space are those of ASCII.
\<close>

section \<open>Records\<close>

type_synonym paimon_type = string

record data_field =
  df_ID :: int
  df_Name :: string
  df_Type :: paimon_type
  df_Description :: string

record table_schema =
  ts_ID :: int
  ts_Fields :: "data_field list"
  ts_HighestFieldID :: int
  ts_PartitionKeys :: "string list"
  ts_PrimaryKeys :: "string list"
  ts_Options :: "(string, string) gomap"

text \<open>\<^verbatim>\<open>PaimonType.MarshalJSON\<close>: the document the text holds; a text that is none fails the marshalling.\<close>

definition type_document :: "paimon_type \<Rightarrow> json option" where
  "type_document raw = (if raw = '''' then Some JNull else json_unmarshal raw)"

definition enc_data_field :: "data_field \<Rightarrow> json option" where
  "enc_data_field f =
     map_option (\<lambda>t. JObj ([(''id'', jint (df_ID f)), (''name'', JStr (df_Name f)), (''type'', t)] @
       omit_str ''description'' (df_Description f))) (type_document (df_Type f))"

definition omit_strings :: "string \<Rightarrow> string list \<Rightarrow> members" where
  "omit_strings k xs = (if xs = [] then [] else [(k, JArr (map JStr xs))])"

definition enc_fields :: "data_field list \<Rightarrow> json" where
  "enc_fields fs = (if fs = [] then JNull else JArr (map (\<lambda>f. the (enc_data_field f)) fs))"

definition enc_table_schema :: "table_schema \<Rightarrow> json option" where
  "enc_table_schema ts =
     (if list_all (\<lambda>f. enc_data_field f \<noteq> None) (ts_Fields ts)
      then Some (JObj ([(''id'', jint (ts_ID ts)), (''fields'', enc_fields (ts_Fields ts)),
             (''highestFieldId'', jint (ts_HighestFieldID ts))] @ omit_strings ''partitionKeys'' (ts_PartitionKeys ts) @
             omit_strings ''primaryKeys'' (ts_PrimaryKeys ts) @ omit_map ''options'' JStr (ts_Options ts)))
      else None)"

section \<open>Writing types\<close>

definition withNullabilitySuffix :: "string \<Rightarrow> bool \<Rightarrow> string" where
  "withNullabilitySuffix base nullable = (if \<not> nullable then base @ '' NOT NULL'' else base)"

definition atomicPaimonType :: "string \<Rightarrow> paimon_type" where
  "atomicPaimonType sqlString = json_print (JStr sqlString)"

definition nested_document :: "paimon_type \<Rightarrow> json" where
  "nested_document raw = (case type_document raw of Some j \<Rightarrow> j | None \<Rightarrow> JNull)"

definition arrayPaimonType :: "bool \<Rightarrow> paimon_type \<Rightarrow> paimon_type" where
  "arrayPaimonType nullable element =
     json_print (JObj [(''type'', JStr (withNullabilitySuffix ''ARRAY'' nullable)), (''element'', nested_document element)])"

definition mapPaimonType :: "bool \<Rightarrow> paimon_type \<Rightarrow> paimon_type \<Rightarrow> paimon_type" where
  "mapPaimonType nullable key val =
     json_print (JObj [(''type'', JStr (withNullabilitySuffix ''MAP'' nullable)), (''key'', nested_document key),
       (''value'', nested_document val)])"

definition rowPaimonType :: "bool \<Rightarrow> data_field list \<Rightarrow> paimon_type" where
  "rowPaimonType nullable fs =
     json_print (JObj [(''type'', JStr (withNullabilitySuffix ''ROW'' nullable)),
       (''fields'', JArr (map (\<lambda>f. the (enc_data_field f)) fs))])"

definition unsupported_type :: "string \<Rightarrow> gerr" where
  "unsupported_type what = ErrMsg (''unsupported paimon type: '' @ what)"

definition timestampWritePrecision :: "schema \<Rightarrow> int" where
  "timestampWritePrecision s =
     (case Metadata s TimestampPrecision of
        Some (AMeta MetadataValueMillis) \<Rightarrow> 3
      | Some (AMeta MetadataValueMicros) \<Rightarrow> 6
      | Some (AMeta MetadataValueNanos) \<Rightarrow> 9
      | _ \<Rightarrow> 6)"

definition timestampPrecisionBucket :: "int \<Rightarrow> metadata_value" where
  "timestampPrecisionBucket precision =
     (if precision \<le> 3 then MetadataValueMillis else if precision \<le> 6 then MetadataValueMicros else MetadataValueNanos)"

text \<open>A loop that threads the counter \<^verbatim>\<open>*nextID\<close> and stops at the first error.\<close>

fun thread_res :: "('a \<Rightarrow> int \<Rightarrow> ('b \<times> int) res) \<Rightarrow> 'a list \<Rightarrow> int \<Rightarrow> ('b list \<times> int) res" where
  "thread_res f [] n = Inr ([], n)"
| "thread_res f (x # xs) n =
     bind_res (f x n) (\<lambda>(y, n'). bind_res (thread_res f xs n') (\<lambda>(ys, n''). Inr (y # ys, n'')))"

lemma thread_res_cong [fundef_cong]:
  "xs = ys \<Longrightarrow> (\<And>x n. x \<in> set ys \<Longrightarrow> f x n = g x n) \<Longrightarrow> n = m \<Longrightarrow> thread_res f xs n = thread_res g ys m"
proof (induction xs arbitrary: ys n m)
  case (Cons x xs)
  then show ?case by (cases "g x m") auto
qed simp

text \<open>The identifier of a field, and the counter after it.\<close>

definition take_field_id :: "int option \<Rightarrow> int \<Rightarrow> int \<times> int" where
  "take_field_id fieldID n =
     (case fieldID of
        Some i \<Rightarrow> if i > 0 then (i, if i > n then i else n) else (wrap64 (n + 1), wrap64 (n + 1))
      | None \<Rightarrow> (wrap64 (n + 1), wrap64 (n + 1)))"

function modelTypeToPaimonType :: "schema option \<Rightarrow> int \<Rightarrow> (paimon_type \<times> int) res"
  and modelFieldToPaimonField :: "field \<Rightarrow> int \<Rightarrow> (data_field \<times> int) res" where
  "modelTypeToPaimonType None n = Inl (unsupported_type ''nil schema'')"
| "modelTypeToPaimonType (Some s) n =
     (let atom = (\<lambda>base. Inr (atomicPaimonType (withNullabilitySuffix base (IsNullable s)), n)) in
      case DataType s of
        TypeBoolean \<Rightarrow> atom ''BOOLEAN''
      | TypeInt \<Rightarrow> atom ''INT''
      | TypeLong \<Rightarrow> atom ''BIGINT''
      | TypeFloat \<Rightarrow> atom ''FLOAT''
      | TypeDouble \<Rightarrow> atom ''DOUBLE''
      | TypeString \<Rightarrow> atom ''STRING''
      | TypeUUID \<Rightarrow> atom ''STRING''
      | TypeBytes \<Rightarrow> atom ''BYTES''
      | TypeFixed \<Rightarrow> atom ''BYTES''
      | TypeDate \<Rightarrow> atom ''DATE''
      | TypeTimestampNTZ \<Rightarrow> atom (''TIMESTAMP('' @ formatInt (timestampWritePrecision s) @ '')'')
      | TypeTimestamp \<Rightarrow> atom (''TIMESTAMP('' @ formatInt (timestampWritePrecision s) @ '') WITH LOCAL TIME ZONE'')
      | TypeDecimal \<Rightarrow> atom (''DECIMAL('' @ formatInt (decimal_precision s) @ '', '' @ formatInt (decimal_scale s) @ '')'')
      | TypeList \<Rightarrow>
          (case Option.bind (ElementSchema s) FieldSchema of
             None \<Rightarrow> Inl (unsupported_type ''LIST with no element schema'')
           | Some e \<Rightarrow>
               bind_res (wrap_res ''array element'' (modelTypeToPaimonType (Some e) n)) (\<lambda>(element, n').
               Inr (arrayPaimonType (IsNullable s) element, n')))
      | TypeMap \<Rightarrow>
          (case Option.bind (KeySchema s) FieldSchema of
             None \<Rightarrow> Inl (unsupported_type ''MAP with no key/value schema'')
           | Some k \<Rightarrow>
               (case Option.bind (ValueSchema s) FieldSchema of
                  None \<Rightarrow> Inl (unsupported_type ''MAP with no key/value schema'')
                | Some v \<Rightarrow>
                    bind_res (wrap_res ''map key'' (modelTypeToPaimonType (Some k) n)) (\<lambda>(key, n').
                    bind_res (wrap_res ''map value'' (modelTypeToPaimonType (Some v) n')) (\<lambda>(val, n'').
                    Inr (mapPaimonType (IsNullable s) key val, n'')))))
      | TypeRecord \<Rightarrow>
          bind_res (thread_res modelFieldToPaimonField (Fields s) n) (\<lambda>(nested, n').
          Inr (rowPaimonType (IsNullable s) nested, n'))
      | t \<Rightarrow> Inl (unsupported_type (Type_String t)))"
| "modelFieldToPaimonField f n =
     (let (fID, n1) = take_field_id (FieldID f) n in
      bind_res (wrap_res (''field '' @ quoted (FieldName f)) (modelTypeToPaimonType (FieldSchema f) n1)) (\<lambda>(t, n2).
      Inr (\<lparr>df_ID = fID, df_Name = FieldName f, df_Type = t,
            df_Description = (case FieldSchema f of None \<Rightarrow> '''' | Some s \<Rightarrow> Comment s)\<rparr>, n2)))"
  by pat_completeness auto
termination
proof (relation "measure (case_sum (\<lambda>(s, _). case s of None \<Rightarrow> 0 | Some s \<Rightarrow> size s) (\<lambda>(f, _). size f))")
  have "f \<in> set (Fields s) \<Longrightarrow> size f < size s" for f s
    using elem_size_list [of f "Fields s" size] by (cases s) simp
  then show "f \<in> set (Fields s) \<Longrightarrow> (Inr (f, m), Inl (Some s, n)) \<in>
      measure (case_sum (\<lambda>(s, _). case s of None \<Rightarrow> 0 | Some s \<Rightarrow> size s) (\<lambda>(f, _). size f))" for f s m n
    by simp
  show "(Inl (FieldSchema f, m), Inr (f, n)) \<in>
      measure (case_sum (\<lambda>(s, _). case s of None \<Rightarrow> 0 | Some s \<Rightarrow> size s) (\<lambda>(f, _). size f))" for f m n
    by (cases f) (simp split: option.splits)
qed (auto simp: bind_eq_Some_conv intro: size_child_field size_child_ptr)

declare modelTypeToPaimonType.simps(2) [simp del] modelFieldToPaimonField.simps [simp del]

definition SchemaToPaimon :: "schema option \<Rightarrow> string list \<Rightarrow> table_schema res" where
  "SchemaToPaimon schema partitionKeys =
     (case schema of
        None \<Rightarrow> Inl (ErrMsg ''schema cannot be nil'')
      | Some s \<Rightarrow>
          bind_res (thread_res modelFieldToPaimonField (Fields s) 0) (\<lambda>(fs, nextID).
          Inr \<lparr>ts_ID = 0, ts_Fields = fs, ts_HighestFieldID = nextID, ts_PartitionKeys = partitionKeys, ts_PrimaryKeys = [],
               ts_Options = []\<rparr>))"

section \<open>Reading types\<close>

definition re_space :: "char \<Rightarrow> bool" where
  "re_space c \<longleftrightarrow> c \<in> {CHR '' '', CHR 0x09, CHR 0x0A, CHR 0x0C, CHR 0x0D}"

text \<open>A match of \<^verbatim>\<open>\s*(\d+)\s*,\s*(\d+)\s*\)\<close> at the head of a text.\<close>

definition decimal_at :: "string \<Rightarrow> (string \<times> string) option" where
  "decimal_at s =
     (let s = dropWhile re_space s; p = takeWhile is_digit s;
          t = dropWhile re_space (dropWhile is_digit s);
          u = dropWhile re_space (tl t); q = takeWhile is_digit u;
          v = dropWhile re_space (dropWhile is_digit u)
      in if p \<noteq> '''' \<and> hasPrefix t '','' \<and> q \<noteq> '''' \<and> hasPrefix v '')'' then Some (p, q) else None)"

fun decimalParams :: "string \<Rightarrow> (string \<times> string) option" where
  "decimalParams [] = None"
| "decimalParams (c # s) =
     (if c = CHR ''('' then (case decimal_at s of Some m \<Rightarrow> Some m | None \<Rightarrow> decimalParams s) else decimalParams s)"

text \<open>\<^verbatim>\<open>strconv.Atoi\<close> of digits, the error ignored: the largest integer when out of range.\<close>

definition atoi_clamped :: "string \<Rightarrow> int" where
  "atoi_clamped ds = min (int (digits_val ds)) max_int64"

definition set_metadata :: "metadata_key \<Rightarrow> any \<Rightarrow> schema \<Rightarrow> schema" where
  "set_metadata k v s =
     Schema (SchemaName s) (DataType s) (Comment s) (IsNullable s) (Fields s) (ElementSchema s) (KeySchema s) (ValueSchema s)
       (RecordKeyFields s) ((Metadata s)(k \<mapsto> v))"

definition set_comment :: "string \<Rightarrow> schema \<Rightarrow> schema" where
  "set_comment c s =
     Schema (SchemaName s) (DataType s) c (IsNullable s) (Fields s) (ElementSchema s) (KeySchema s) (ValueSchema s)
       (RecordKeyFields s) (Metadata s)"

definition parseTimestampSQLString :: "string \<Rightarrow> bool \<Rightarrow> schema res" where
  "parseTimestampSQLString upper nullable =
     (let (ltz, body) =
        (if hasPrefix upper ''TIMESTAMP_LTZ'' then (True, trimSpace (trimPrefix upper ''TIMESTAMP_LTZ''))
         else (False, trimSpace (trimPrefix upper ''TIMESTAMP'')));
        malformed = Inl (ErrMsg (''unsupported paimon type: malformed TIMESTAMP precision in '' @ quoted upper))
      in
      bind_res
        (if hasPrefix body ''('' then
           (case cutStr (tl body) '')'' of
              None \<Rightarrow> malformed
            | Some (digits, rest) \<Rightarrow>
                (case parseInt (trimSpace digits) of None \<Rightarrow> malformed | Some p \<Rightarrow> Inr (p, trimSpace rest)))
         else Inr (6, body))
        (\<lambda>(precision, body).
         bind_res
           (if body = '''' \<or> body = ''WITHOUT TIME ZONE'' then Inr ltz
            else if body = ''WITH LOCAL TIME ZONE'' then Inr True
            else Inl (unsupported_type upper))
           (\<lambda>zoneAware.
            Inr (set_metadata TimestampPrecision (AMeta (timestampPrecisionBucket precision))
              (NewPrimitiveSchema (if zoneAware then TypeTimestamp else TypeTimestampNTZ) nullable)))))"

text \<open>The switch over the cleaned text.\<close>

definition atomic_schema :: "string \<Rightarrow> bool \<Rightarrow> schema res" where
  "atomic_schema clean nullable =
     (let upper = toUpper clean; prim = (\<lambda>t. Inr (NewPrimitiveSchema t nullable))
      in if upper = ''BOOLEAN'' then prim TypeBoolean
         else if upper = ''TINYINT'' \<or> upper = ''SMALLINT'' \<or> upper = ''INT'' \<or> upper = ''INTEGER'' then prim TypeInt
         else if upper = ''BIGINT'' then prim TypeLong
         else if upper = ''FLOAT'' then prim TypeFloat
         else if upper = ''DOUBLE'' \<or> upper = ''DOUBLE PRECISION'' then prim TypeDouble
         else if upper = ''STRING'' \<or> hasPrefix upper ''VARCHAR'' \<or> hasPrefix upper ''CHAR'' then prim TypeString
         else if upper = ''BYTES'' \<or> hasPrefix upper ''BINARY'' \<or> hasPrefix upper ''VARBINARY'' then prim TypeBytes
         else if upper = ''DATE'' then prim TypeDate
         else if hasPrefix upper ''DECIMAL'' \<or> hasPrefix upper ''NUMERIC'' \<or> hasPrefix upper ''DEC'' then
           (case decimalParams upper of
              None \<Rightarrow> Inr (NewDecimalSchema 10 0 nullable)
            | Some (p, s) \<Rightarrow> Inr (NewDecimalSchema (atoi_clamped p) (atoi_clamped s) nullable))
         else if hasPrefix upper ''TIMESTAMP'' then parseTimestampSQLString upper nullable
         else Inl (unsupported_type clean))"

definition parseAtomicTypeSQLString :: "string \<Rightarrow> schema res" where
  "parseAtomicTypeSQLString raw =
     (let clean = trimSpace raw in
      if hasSuffix (toUpper clean) ''NOT NULL'' then atomic_schema (trimSpace (take (length clean - 8) clean)) False
      else atomic_schema clean True)"

text \<open>
  A nested type, as the document its text holds; \<open>None\<close> is the empty text of an absent member. The
  fields of a row are decoded first, with the types left as they are.
\<close>

record raw_data_field =
  rf_ID :: int
  rf_Name :: string
  rf_Type :: "json option"
  rf_Description :: string

fun dec_raw_field :: "json \<Rightarrow> raw_data_field option" where
  "dec_raw_field j =
     Option.bind (struct_members j) (\<lambda>kvs.
     Option.bind (dec_int (jfield ''id'' kvs)) (\<lambda>i.
     Option.bind (dec_string (jfield ''name'' kvs)) (\<lambda>nm.
     Option.bind (dec_string (jfield ''description'' kvs)) (\<lambda>d.
     Some \<lparr>rf_ID = i, rf_Name = nm, rf_Type = jfield ''type'' kvs, rf_Description = d\<rparr>))))"

definition paimon_field :: "int \<Rightarrow> string \<Rightarrow> schema \<Rightarrow> string \<Rightarrow> field" where
  "paimon_field i nm s d = Field nm '''' (Some (set_comment d s)) (Some i) ANil"

definition row_fields :: "json \<Rightarrow> raw_data_field list option" where
  "row_fields j = (case j of JObj kvs \<Rightarrow> dec_list dec_raw_field (jfield ''fields'' kvs) | _ \<Rightarrow> None)"

lemma row_fields_size: "row_fields j = Some fs \<Longrightarrow> f \<in> set fs \<Longrightarrow> rf_Type f = Some r \<Longrightarrow> size r < size j"
proof -
  assume a: "row_fields j = Some fs" "f \<in> set fs" "rf_Type f = Some r"
  then obtain kvs where j: "j = JObj kvs" "dec_list dec_raw_field (jfield ''fields'' kvs) = Some fs"
    by (auto simp: row_fields_def split: json.splits)
  from dec_list_elems [OF j(2) a(2)] obtain xs x where x: "jfield ''fields'' kvs = Some (JArr xs)" "x \<in> set xs"
    "dec_raw_field x = Some f" by blast
  from x(3) a(3) obtain kvs' where "x = JObj kvs'" "jfield ''type'' kvs' = Some r"
    by (cases x) (auto simp: bind_eq_Some_conv)
  with jfield_size have "size r < size x" by metis
  also have "size x \<le> size_list size xs" by (rule elem_size_list [OF x(2)])
  also have "\<dots> < size (JArr xs)" by simp
  also have "\<dots> < size j" using jfield_size [OF x(1)] j by simp
  finally show ?thesis .
qed

definition member_of :: "string \<Rightarrow> json \<Rightarrow> json option" where
  "member_of k j = (case j of JObj kvs \<Rightarrow> jfield k kvs | _ \<Rightarrow> None)"

lemma member_of_size: "member_of k j = Some r \<Longrightarrow> size r < size j"
  using jfield_size by (auto simp: member_of_def split: json.splits)

function parse_document :: "json option \<Rightarrow> schema res" where
  "parse_document None = Inl (unsupported_type ''empty type'')"
| "parse_document (Some j) =
     (case struct_members j of
        None \<Rightarrow>
          (case dec_string (Some j) of
             None \<Rightarrow> Inl (ErrMsg (''paimon type '' @ quoted (json_print j) @ '' is neither a JSON string nor a JSON object''))
           | Some sqlString \<Rightarrow> parseAtomicTypeSQLString sqlString)
      | Some kvs \<Rightarrow>
          if j = JNull then parseAtomicTypeSQLString ''''
          else
            (case dec_string (member_of ''type'' j) of
               None \<Rightarrow> Inl (ErrMsg ''invalid paimon composite type'')
             | Some header \<Rightarrow>
                 (let upper = toUpper (trimSpace header); nullable = (\<not> containsStr upper ''NOT NULL'') in
                  if hasPrefix upper ''ROW'' then
                    (case row_fields j of
                       None \<Rightarrow> Inl (ErrMsg ''invalid ROW type'')
                     | Some fs \<Rightarrow>
                         bind_res
                           (map_res (\<lambda>f.
                              bind_res (wrap_res (''field '' @ quoted (rf_Name f)) (parse_document (rf_Type f))) (\<lambda>s.
                              Inr (paimon_field (rf_ID f) (rf_Name f) s (rf_Description f)))) fs)
                           (\<lambda>flds. Inr (NewRecordSchema '''' flds nullable)))
                  else if hasPrefix upper ''ARRAY'' then
                    bind_res (wrap_res ''array element'' (parse_document (member_of ''element'' j))) (\<lambda>e.
                    Inr (list_schema e nullable))
                  else if hasPrefix upper ''MAP'' then
                    bind_res (wrap_res ''map key'' (parse_document (member_of ''key'' j))) (\<lambda>k.
                    bind_res (wrap_res ''map value'' (parse_document (member_of ''value'' j))) (\<lambda>v.
                    Inr (map_schema k v nullable)))
                  else Inl (unsupported_type header))))"
  by pat_completeness auto
termination
proof (relation "measure (\<lambda>r. case r of None \<Rightarrow> 0 | Some j \<Rightarrow> Suc (size j))")
  have m: "(r, Some j) \<in> measure (\<lambda>r. case r of None \<Rightarrow> 0 | Some j \<Rightarrow> Suc (size j))"
    if "\<And>x. r = Some x \<Longrightarrow> size x < size j" for r :: "json option" and j
    using that by (cases r) auto
  show "row_fields j = Some fs \<Longrightarrow> f \<in> set fs \<Longrightarrow>
      (rf_Type f, Some j) \<in> measure (\<lambda>r. case r of None \<Rightarrow> 0 | Some j \<Rightarrow> Suc (size j))" for j fs f
    by (rule m) (rule row_fields_size)
qed (auto split: option.splits dest: member_of_size)

declare parse_document.simps(2) [simp del]

definition parsePaimonType :: "paimon_type \<Rightarrow> schema res" where
  "parsePaimonType raw =
     (if trimSpace raw = '''' then Inl (unsupported_type ''empty type'')
      else
        (case json_unmarshal raw of
           None \<Rightarrow> Inl (ErrMsg (''paimon type '' @ quoted raw @ '' is neither a JSON string nor a JSON object''))
         | Some j \<Rightarrow> parse_document (Some j)))"

definition paimonFieldsToModelFields :: "data_field list \<Rightarrow> field list res" where
  "paimonFieldsToModelFields dfs =
     map_res (\<lambda>df.
       bind_res (wrap_res (''field '' @ quoted (df_Name df)) (parsePaimonType (df_Type df))) (\<lambda>s.
       Inr (paimon_field (df_ID df) (df_Name df) s (df_Description df)))) dfs"

definition PaimonToSchema :: "table_schema option \<Rightarrow> schema res" where
  "PaimonToSchema ts =
     (case ts of
        None \<Rightarrow> Inl (ErrMsg ''paimon table schema cannot be nil'')
      | Some t \<Rightarrow> bind_res (paimonFieldsToModelFields (ts_Fields t)) (\<lambda>flds. Inr (NewRecordSchema ''paimon_table'' flds False)))"

text \<open>A schema file: the types keep the text they have in it.\<close>

definition dec_data_field :: "string \<Rightarrow> data_field option" where
  "dec_data_field raw =
     Option.bind (Option.bind (json_unmarshal raw) dec_raw_field) (\<lambda>f.
     Some \<lparr>df_ID = rf_ID f, df_Name = rf_Name f,
           df_Type = (case raw_field ''type'' raw of None \<Rightarrow> '''' | Some t \<Rightarrow> t), df_Description = rf_Description f\<rparr>)"

definition ParseTableSchemaJSON :: "string \<Rightarrow> table_schema res" where
  "ParseTableSchemaJSON data =
     (case
        Option.bind (Option.bind (json_unmarshal data) struct_members) (\<lambda>kvs.
        Option.bind (dec_int (jfield ''id'' kvs)) (\<lambda>i.
        Option.bind (dec_list Some (jfield ''fields'' kvs)) (\<lambda>_.
        Option.bind (opt_all dec_data_field (raw_array (case raw_field ''fields'' data of None \<Rightarrow> '''' | Some t \<Rightarrow> t))) (\<lambda>fs.
        Option.bind (dec_int (jfield ''highestFieldId'' kvs)) (\<lambda>h.
        Option.bind (dec_strings (jfield ''partitionKeys'' kvs)) (\<lambda>pk.
        Option.bind (dec_strings (jfield ''primaryKeys'' kvs)) (\<lambda>prim.
        Option.bind (dec_smap (jfield ''options'' kvs)) (\<lambda>opts.
        Some \<lparr>ts_ID = i, ts_Fields = fs, ts_HighestFieldID = h, ts_PartitionKeys = pk, ts_PrimaryKeys = prim,
              ts_Options = opts\<rparr>))))))))
      of None \<Rightarrow> Inl (ErrMsg ''json'') | Some ts \<Rightarrow> Inr ts)"

end
