(* ===== verification/Paimon_Source.thy ===== *)
theory Paimon_Source
  imports Paimon_Schema Model_Json Model_Diff Storage_Memory
begin

text \<open>
  \<^verbatim>\<open>pkg/formats/paimon/snapshot.go\<close>, \<^verbatim>\<open>manifest.go\<close> and \<^verbatim>\<open>source.go\<close>: the snapshot and manifest files of a Paimon
  table and how its source reads them. A file format in a manifest is one of the three the model names; any other
  text is read as Parquet.
\<close>

section \<open>Snapshot and manifest files\<close>

definition manifestDir :: string where "manifestDir = ''manifest''"
definition snapshotDir :: string where "snapshotDir = ''snapshot''"
definition schemaDir :: string where "schemaDir = ''schema''"
definition snapshotPrefix :: string where "snapshotPrefix = ''snapshot-''"
definition schemaPrefix :: string where "schemaPrefix = ''schema-''"

lemmas paimon_dirs = manifestDir_def snapshotDir_def schemaDir_def snapshotPrefix_def schemaPrefix_def

record paimon_snapshot =
  sn_Version :: int
  sn_ID :: int
  sn_SchemaID :: int
  sn_BaseManifestList :: string
  sn_DeltaManifestList :: string
  sn_CommitUser :: string
  sn_CommitIdentifier :: int
  sn_CommitKind :: string
  sn_TimeMillis :: int
  sn_TotalRecordCount :: "int option"
  sn_DeltaRecordCount :: "int option"
  sn_ChangelogRecordCount :: "int option"
  sn_LogOffset :: "(string, int) gomap"
  sn_Properties :: "(string, string) gomap"

definition enc_paimon_snapshot :: "paimon_snapshot \<Rightarrow> json" where
  "enc_paimon_snapshot s =
     JObj ([(''version'', jint (sn_Version s)), (''id'', jint (sn_ID s)), (''schemaId'', jint (sn_SchemaID s))] @
       omit_str ''baseManifestList'' (sn_BaseManifestList s) @ omit_str ''deltaManifestList'' (sn_DeltaManifestList s) @
       omit_str ''commitUser'' (sn_CommitUser s) @ omit_int ''commitIdentifier'' (sn_CommitIdentifier s) @
       omit_str ''commitKind'' (sn_CommitKind s) @ [(''timeMillis'', jint (sn_TimeMillis s))] @
       omit_nil ''totalRecordCount'' jint (sn_TotalRecordCount s) @ omit_nil ''deltaRecordCount'' jint (sn_DeltaRecordCount s) @
       omit_nil ''changelogRecordCount'' jint (sn_ChangelogRecordCount s) @ omit_map ''logOffset'' jint (sn_LogOffset s) @
       omit_map ''properties'' JStr (sn_Properties s))"

definition dec_paimon_snapshot :: "json \<Rightarrow> paimon_snapshot option" where
  "dec_paimon_snapshot j =
     Option.bind (struct_members j) (\<lambda>kvs.
     Option.bind (dec_int (jfield ''version'' kvs)) (\<lambda>version.
     Option.bind (dec_int (jfield ''id'' kvs)) (\<lambda>i.
     Option.bind (dec_int (jfield ''schemaId'' kvs)) (\<lambda>schemaId.
     Option.bind (dec_string (jfield ''baseManifestList'' kvs)) (\<lambda>baseList.
     Option.bind (dec_string (jfield ''deltaManifestList'' kvs)) (\<lambda>deltaList.
     Option.bind (dec_string (jfield ''commitUser'' kvs)) (\<lambda>user.
     Option.bind (dec_int (jfield ''commitIdentifier'' kvs)) (\<lambda>ident.
     Option.bind (dec_string (jfield ''commitKind'' kvs)) (\<lambda>kind.
     Option.bind (dec_int (jfield ''timeMillis'' kvs)) (\<lambda>millis.
     Option.bind (dec_int_ptr (jfield ''totalRecordCount'' kvs)) (\<lambda>total.
     Option.bind (dec_int_ptr (jfield ''deltaRecordCount'' kvs)) (\<lambda>delta.
     Option.bind (dec_int_ptr (jfield ''changelogRecordCount'' kvs)) (\<lambda>changelog.
     Option.bind (dec_map (\<lambda>v. dec_int (Some v)) (jfield ''logOffset'' kvs)) (\<lambda>offsets.
     Option.bind (dec_smap (jfield ''properties'' kvs)) (\<lambda>props.
     Some \<lparr>sn_Version = version, sn_ID = i, sn_SchemaID = schemaId, sn_BaseManifestList = baseList,
           sn_DeltaManifestList = deltaList, sn_CommitUser = user, sn_CommitIdentifier = ident, sn_CommitKind = kind,
           sn_TimeMillis = millis, sn_TotalRecordCount = total, sn_DeltaRecordCount = delta,
           sn_ChangelogRecordCount = changelog, sn_LogOffset = offsets, sn_Properties = props\<rparr>)))))))))))))))"

definition parsed :: "(json \<Rightarrow> 'a option) \<Rightarrow> string \<Rightarrow> 'a res" where
  "parsed dec data = (case Option.bind (json_unmarshal data) dec of None \<Rightarrow> Inl (ErrMsg ''json'') | Some x \<Rightarrow> Inr x)"

definition ParseSnapshotJSON :: "string \<Rightarrow> paimon_snapshot res" where
  "ParseSnapshotJSON data = parsed dec_paimon_snapshot data"

record file_meta =
  fm_FileName :: string
  fm_FileSize :: int
  fm_RowCount :: int
  fm_SchemaID :: int
  fm_Level :: int
  fm_CreationTime :: int
  fm_FileFormat :: string
  fm_Partition :: "(string, string) gomap"

record manifest_entry =
  me_Kind :: int
  me_Partition :: "(string, string) gomap"
  me_Bucket :: int
  me_TotalBuckets :: int
  me_File :: file_meta

record manifest_file_meta =
  mm_FileName :: string
  mm_FileSize :: int
  mm_NumAddedFiles :: int
  mm_NumDeletedFiles :: int
  mm_SchemaID :: int

definition enc_file_meta :: "file_meta \<Rightarrow> json" where
  "enc_file_meta f =
     JObj ([(''_FILE_NAME'', JStr (fm_FileName f)), (''_FILE_SIZE'', jint (fm_FileSize f)), (''_ROW_COUNT'', jint (fm_RowCount f)),
        (''_SCHEMA_ID'', jint (fm_SchemaID f)), (''_LEVEL'', jint (fm_Level f)), (''_CREATION_TIME'', jint (fm_CreationTime f))] @
        omit_str ''_FILE_FORMAT'' (fm_FileFormat f) @ omit_map ''_PARTITION'' JStr (fm_Partition f))"

definition dec_file_meta :: "json \<Rightarrow> file_meta option" where
  "dec_file_meta j =
     Option.bind (struct_members j) (\<lambda>kvs.
     Option.bind (dec_string (jfield ''_FILE_NAME'' kvs)) (\<lambda>nm.
     Option.bind (dec_int (jfield ''_FILE_SIZE'' kvs)) (\<lambda>sz.
     Option.bind (dec_int (jfield ''_ROW_COUNT'' kvs)) (\<lambda>rows.
     Option.bind (dec_int (jfield ''_SCHEMA_ID'' kvs)) (\<lambda>schemaId.
     Option.bind (dec_int (jfield ''_LEVEL'' kvs)) (\<lambda>lvl.
     Option.bind (dec_int (jfield ''_CREATION_TIME'' kvs)) (\<lambda>created.
     Option.bind (dec_string (jfield ''_FILE_FORMAT'' kvs)) (\<lambda>fmt.
     Option.bind (dec_smap (jfield ''_PARTITION'' kvs)) (\<lambda>part.
     Some \<lparr>fm_FileName = nm, fm_FileSize = sz, fm_RowCount = rows, fm_SchemaID = schemaId, fm_Level = lvl,
           fm_CreationTime = created, fm_FileFormat = fmt, fm_Partition = part\<rparr>)))))))))"

text \<open>A struct inside a struct: an absent member and null leave the zero value.\<close>

definition enc_manifest_entry :: "manifest_entry \<Rightarrow> json" where
  "enc_manifest_entry e =
     JObj ([(''_KIND'', jint (me_Kind e))] @ omit_map ''_PARTITION'' JStr (me_Partition e) @
       [(''_BUCKET'', jint (me_Bucket e)), (''_TOTAL_BUCKETS'', jint (me_TotalBuckets e)), (''_FILE'', enc_file_meta (me_File e))])"

definition dec_manifest_entry :: "json \<Rightarrow> manifest_entry option" where
  "dec_manifest_entry j =
     Option.bind (struct_members j) (\<lambda>kvs.
     Option.bind (dec_int (jfield ''_KIND'' kvs)) (\<lambda>kind.
     Option.bind (dec_smap (jfield ''_PARTITION'' kvs)) (\<lambda>part.
     Option.bind (dec_int (jfield ''_BUCKET'' kvs)) (\<lambda>bucket.
     Option.bind (dec_int (jfield ''_TOTAL_BUCKETS'' kvs)) (\<lambda>total.
     Option.bind (dec_file_meta (case jfield ''_FILE'' kvs of None \<Rightarrow> JNull | Some f \<Rightarrow> f)) (\<lambda>fm.
     Some \<lparr>me_Kind = kind, me_Partition = part, me_Bucket = bucket, me_TotalBuckets = total, me_File = fm\<rparr>))))))"

definition enc_manifest_file :: "manifest_entry list \<Rightarrow> json" where
  "enc_manifest_file es = JObj [(''entries'', JArr (map enc_manifest_entry es))]"

definition dec_manifest_file :: "json \<Rightarrow> manifest_entry list option" where
  "dec_manifest_file j = Option.bind (struct_members j) (\<lambda>kvs. dec_list dec_manifest_entry (jfield ''entries'' kvs))"

definition ParseManifestFileJSON :: "string \<Rightarrow> manifest_entry list res" where
  "ParseManifestFileJSON data = parsed dec_manifest_file data"

definition enc_manifest_meta :: "manifest_file_meta \<Rightarrow> json" where
  "enc_manifest_meta m =
     JObj [(''_FILE_NAME'', JStr (mm_FileName m)), (''_FILE_SIZE'', jint (mm_FileSize m)),
       (''_NUM_ADDED_FILES'', jint (mm_NumAddedFiles m)), (''_NUM_DELETED_FILES'', jint (mm_NumDeletedFiles m)),
       (''_SCHEMA_ID'', jint (mm_SchemaID m))]"

definition dec_manifest_meta :: "json \<Rightarrow> manifest_file_meta option" where
  "dec_manifest_meta j =
     Option.bind (struct_members j) (\<lambda>kvs.
     Option.bind (dec_string (jfield ''_FILE_NAME'' kvs)) (\<lambda>nm.
     Option.bind (dec_int (jfield ''_FILE_SIZE'' kvs)) (\<lambda>sz.
     Option.bind (dec_int (jfield ''_NUM_ADDED_FILES'' kvs)) (\<lambda>added.
     Option.bind (dec_int (jfield ''_NUM_DELETED_FILES'' kvs)) (\<lambda>deleted.
     Option.bind (dec_int (jfield ''_SCHEMA_ID'' kvs)) (\<lambda>schemaId.
     Some \<lparr>mm_FileName = nm, mm_FileSize = sz, mm_NumAddedFiles = added, mm_NumDeletedFiles = deleted, mm_SchemaID = schemaId\<rparr>))))))"

text \<open>A nil list of manifests is printed as null.\<close>

definition enc_manifest_list :: "manifest_file_meta list \<Rightarrow> json" where
  "enc_manifest_list ms = JObj [(''manifests'', if ms = [] then JNull else JArr (map enc_manifest_meta ms))]"

definition dec_manifest_list :: "json \<Rightarrow> manifest_file_meta list option" where
  "dec_manifest_list j = Option.bind (struct_members j) (\<lambda>kvs. dec_list dec_manifest_meta (jfield ''manifests'' kvs))"

definition ParseManifestListJSON :: "string \<Rightarrow> manifest_file_meta list res" where
  "ParseManifestListJSON data = parsed dec_manifest_list data"

section \<open>Files and entries\<close>

definition partition_entry :: "partition_value \<Rightarrow> (string \<times> string) option" where
  "partition_entry pv =
     (case (Option.bind (PVField pv) SourceField, PVRange pv) of
        (Some f, Some r) \<Rightarrow> Some (FieldName f, if MinValue r = ANil then '''' else sprintv (MinValue r))
      | _ \<Rightarrow> None)"

definition partitionMap :: "data_file \<Rightarrow> (string, string) gomap" where
  "partitionMap f = foldl (\<lambda>m (k, v). map_put k v m) [] (List.map_filter partition_entry (PartitionValues f))"

definition entryForDataFile :: "string \<Rightarrow> data_file \<Rightarrow> int \<Rightarrow> int \<Rightarrow> manifest_entry res" where
  "entryForDataFile basePath f kind schemaID =
     bind_res (wrap_res (''failed to place data file under '' @ basePath) (RelativizePath (PhysicalPath f) basePath)) (\<lambda>fileName.
     let part = partitionMap f in
     Inr \<lparr>me_Kind = kind, me_Partition = part, me_Bucket = 0, me_TotalBuckets = 1,
          me_File = \<lparr>fm_FileName = fileName, fm_FileSize = FileSizeBytes f, fm_RowCount = RecordCount f,
            fm_SchemaID = schemaID, fm_Level = 0, fm_CreationTime = LastModified f,
            fm_FileFormat = file_format_text (FileFormat f), fm_Partition = part\<rparr>\<rparr>)"

definition file_format_of :: "string \<Rightarrow> file_format" where
  "file_format_of s =
     (if s = ''APACHE_ORC'' then FileFormatORC else if s = ''APACHE_AVRO'' then FileFormatAvro else FileFormatParquet)"

definition sortedKeys :: "(string, string) gomap \<Rightarrow> string list" where
  "sortedKeys values = sort (map fst values)"

definition dataFileForEntry :: "string \<Rightarrow> manifest_entry \<Rightarrow> (string, partition_field) gomap \<Rightarrow> data_file" where
  "dataFileForEntry basePath entry partitionFields =
     (let fm = me_File entry; values = (if me_Partition entry = [] then fm_Partition fm else me_Partition entry) in
      \<lparr>PhysicalPath = JoinPath basePath [fm_FileName fm],
       FileFormat = (if fm_FileFormat fm \<noteq> '''' then file_format_of (fm_FileFormat fm) else FileFormatParquet),
       FileSizeBytes = fm_FileSize fm, RecordCount = fm_RowCount fm,
       PartitionValues =
         List.map_filter (\<lambda>name. case map_of partitionFields name of
             None \<Rightarrow> None
           | Some pf \<Rightarrow>
               Some \<lparr>PVField = Some pf,
                     PVRange = Some (NewScalarRange (AStr (case map_of values name of None \<Rightarrow> '''' | Some v \<Rightarrow> v)))\<rparr>)
           (sortedKeys values),
       ColumnStats = [], LastModified = fm_CreationTime fm, DeletionVector = None\<rparr>)"

section \<open>The source\<close>

record paimon_source =
  pms_storage :: mem_storage
  pms_basePath :: string

definition paimon_NewSource :: "mem_storage \<Rightarrow> string \<Rightarrow> paimon_source" where
  "paimon_NewSource storage basePath = \<lparr>pms_storage = storage, pms_basePath = basePath\<rparr>"

definition versioned_file :: "string \<Rightarrow> file_info \<Rightarrow> (int \<times> string) option" where
  "versioned_file prefix f =
     (let base = filepath_Base (InfoPath f) in
      if InfoIsDir f \<or> \<not> hasPrefix base prefix then None
      else map_option (\<lambda>i. (i, InfoPath f)) (parseInt (trimPrefix base prefix)))"

definition listVersioned :: "paimon_source \<Rightarrow> string \<Rightarrow> string \<Rightarrow> (int \<times> string) list" where
  "listVersioned s dir prefix = sort_key fst (List.map_filter (versioned_file prefix) (mem_List (pms_storage s) dir))"

definition readHint :: "paimon_source \<Rightarrow> string \<Rightarrow> string \<Rightarrow> int option" where
  "readHint s dir name =
     (case mem_Read (pms_storage s) (JoinPath dir [name]) of
        Inl _ \<Rightarrow> None
      | Inr data \<Rightarrow> parseInt (trimSpace data))"

text \<open>The text of a schema file, with its path.\<close>

definition schema_file :: "paimon_source \<Rightarrow> int \<Rightarrow> (string \<times> string) res" where
  "schema_file s i =
     (let dir = JoinPath (pms_basePath s) [schemaDir] in
      bind_res
        (if i < 0 then
           (case listVersioned s dir schemaPrefix of
              [] \<Rightarrow> Inl (ErrMsg (''no paimon schema files found in '' @ dir))
            | schemas \<Rightarrow> Inr (snd (last schemas)))
         else Inr (JoinPath dir [schemaPrefix @ formatInt i]))
        (\<lambda>schemaPath.
         bind_res (wrap_res (''failed to read schema file '' @ schemaPath) (mem_Read (pms_storage s) schemaPath)) (\<lambda>data.
         Inr (schemaPath, data))))"

definition readSchema :: "paimon_source \<Rightarrow> int \<Rightarrow> table_schema res" where
  "readSchema s i =
     bind_res (schema_file s i) (\<lambda>(schemaPath, data).
     wrap_res (''failed to parse schema '' @ schemaPath) (ParseTableSchemaJSON data))"

definition tableForSchema :: "paimon_source \<Rightarrow> table_schema \<Rightarrow> table res" where
  "tableForSchema s ts =
     bind_res (PaimonToSchema (Some ts)) (\<lambda>schema.
     Inr \<lparr>TableName = filepath_Base (pms_basePath s), TableFormat = TableFormatPaimon, ReadSchema = Some schema,
          LayoutStrategy = LayoutUnset, BasePath = pms_basePath s, DataPath = '''',
          PartitioningFields =
            List.map_filter (\<lambda>pk. map_option (\<lambda>f. mkPartitionField f) (FieldByPath (Some schema) pk)) (ts_PartitionKeys ts),
          LatestCommitTime = 0, LatestMetadataPath = ''''\<rparr>)"

definition paimon_GetCurrentTable :: "paimon_source \<Rightarrow> table res" where
  "paimon_GetCurrentTable s = bind_res (readSchema s (- 1)) (tableForSchema s)"

definition paimon_GetTable :: "paimon_source \<Rightarrow> string \<Rightarrow> table res" where
  "paimon_GetTable s commitID = paimon_GetCurrentTable s"

text \<open>A hint that names a readable file wins; otherwise the snapshot with the greatest number.\<close>

definition latestSnapshot :: "paimon_source \<Rightarrow> paimon_snapshot option res" where
  "latestSnapshot s =
     (let dir = JoinPath (pms_basePath s) [snapshotDir];
          hinted = (case readHint s dir ''LATEST'' of
                      None \<Rightarrow> Inl (ErrMsg ''no hint'')
                    | Some i \<Rightarrow> mem_Read (pms_storage s) (JoinPath dir [snapshotPrefix @ formatInt i]))
      in case hinted of
           Inr data \<Rightarrow> bind_res (ParseSnapshotJSON data) (\<lambda>snap. Inr (Some snap))
         | Inl _ \<Rightarrow>
             (case listVersioned s dir snapshotPrefix of
                [] \<Rightarrow> Inr None
              | snapshots \<Rightarrow>
                  (let latest = snd (last snapshots) in
                   bind_res (wrap_res (''failed to read snapshot '' @ latest) (mem_Read (pms_storage s) latest)) (\<lambda>data.
                   bind_res (wrap_res (''failed to parse snapshot '' @ latest) (ParseSnapshotJSON data)) (\<lambda>snap.
                   Inr (Some snap))))))"

definition readManifestList :: "paimon_source \<Rightarrow> string \<Rightarrow> manifest_entry list res" where
  "readManifestList s name =
     (if name = '''' then Inr []
      else
        (let dir = JoinPath (pms_basePath s) [manifestDir] in
         bind_res (wrap_res (''failed to read manifest list '' @ name) (mem_Read (pms_storage s) (JoinPath dir [name]))) (\<lambda>data.
         bind_res (wrap_res (''failed to parse manifest list '' @ name) (ParseManifestListJSON data)) (\<lambda>metas.
         bind_res
           (map_res (\<lambda>meta.
              bind_res (wrap_res (''failed to read manifest '' @ mm_FileName meta)
                  (mem_Read (pms_storage s) (JoinPath dir [mm_FileName meta]))) (\<lambda>manifestData.
              wrap_res (''failed to parse manifest '' @ mm_FileName meta) (ParseManifestFileJSON manifestData))) metas)
           (\<lambda>ess. Inr (concat ess))))))"

text \<open>One entry of the replay: the names in order of addition, and the files that are live.\<close>

definition replay_entry ::
  "string \<Rightarrow> (string, partition_field) gomap \<Rightarrow> string list \<times> (string, data_file) gomap \<Rightarrow> manifest_entry \<Rightarrow>
    string list \<times> (string, data_file) gomap" where
  "replay_entry basePath partitionFields st entry =
     (let (order, live) = st; name = fm_FileName (me_File entry) in
      if me_Kind entry = 1 then (order, map_del name live)
      else
        (if map_of live name = None then order @ [name] else order,
         map_put name (dataFileForEntry basePath entry partitionFields) live))"

definition partition_fields_map :: "table \<Rightarrow> (string, partition_field) gomap" where
  "partition_fields_map tbl =
     foldl (\<lambda>m pf. case SourceField pf of None \<Rightarrow> m | Some f \<Rightarrow> map_put (FieldName f) pf m) [] (PartitioningFields tbl)"

definition live_of :: "string list \<times> (string, data_file) gomap \<Rightarrow> data_file list" where
  "live_of st = List.map_filter (map_of (snd st)) (fst st)"

definition liveFiles :: "paimon_source \<Rightarrow> paimon_snapshot \<Rightarrow> table \<Rightarrow> data_file list res" where
  "liveFiles s snap tbl =
     bind_res (readManifestList s (sn_BaseManifestList snap)) (\<lambda>base.
     bind_res (readManifestList s (sn_DeltaManifestList snap)) (\<lambda>delta.
     Inr (live_of (foldl (replay_entry (pms_basePath s) (partition_fields_map tbl)) ([], []) (base @ delta)))))"

definition paimon_GetCurrentSnapshot :: "paimon_source \<Rightarrow> snapshot res" where
  "paimon_GetCurrentSnapshot s =
     bind_res (latestSnapshot s) (\<lambda>latest.
     case latest of
       None \<Rightarrow>
         bind_res (paimon_GetCurrentTable s) (\<lambda>tbl.
         Inr \<lparr>SnapTable = tbl, PartitionedDataFiles = [], DataFiles = [], SnapSourceIdentifier = ''0''\<rparr>)
     | Some snap \<Rightarrow>
         bind_res (readSchema s (sn_SchemaID snap)) (\<lambda>ts.
         bind_res (tableForSchema s ts) (\<lambda>tbl.
         let tbl = tbl\<lparr>LatestCommitTime := sn_TimeMillis snap\<rparr> in
         bind_res (liveFiles s snap tbl) (\<lambda>files.
         Inr \<lparr>SnapTable = tbl, PartitionedDataFiles = [], DataFiles = files,
              SnapSourceIdentifier = formatInt (sn_ID snap)\<rparr>))))"

definition paimon_GetSnapshot :: "paimon_source \<Rightarrow> string \<Rightarrow> snapshot res" where
  "paimon_GetSnapshot s snapshotID = paimon_GetCurrentSnapshot s"

definition paimon_GetTableChangeForCommit :: "paimon_source \<Rightarrow> string \<Rightarrow> table_change res" where
  "paimon_GetTableChangeForCommit s commitID =
     bind_res (paimon_GetCurrentSnapshot s) (\<lambda>snap.
     Inr \<lparr>FilesDiff = NewFilesDiff (DataFiles snap) [], TableAsOfChange = SnapTable snap,
          ChangeSourceIdentifier = commitID, CommitTime = LatestCommitTime (SnapTable snap)\<rparr>)"

definition paimon_GetChangesSince :: "paimon_source \<Rightarrow> int \<Rightarrow> incremental_changes res" where
  "paimon_GetChangesSince s fromInstant =
     bind_res (paimon_GetCurrentSnapshot s) (\<lambda>snap.
     bind_res
       (if LatestCommitTime (SnapTable snap) > fromInstant
        then bind_res (paimon_GetTableChangeForCommit s (SnapSourceIdentifier snap)) (\<lambda>change. Inr [change])
        else Inr [])
       (\<lambda>changes. Inr \<lparr>TableChanges = changes, CurrentTable = SnapTable snap\<rparr>))"

definition paimon_IsIncrementalSyncSafeFrom :: "paimon_source \<Rightarrow> int \<Rightarrow> bool res" where
  "paimon_IsIncrementalSyncSafeFrom s earliestInstant = Inr False"

end
