(* ===== verification/Paimon_Target.thy ===== *)
theory Paimon_Target
  imports Paimon_Source Model_Sync_Metadata
begin

text \<open>
  \<^verbatim>\<open>pkg/formats/paimon/target.go\<close>: commits into a Paimon table. The clock and the identifiers a commit draws
  (\<^verbatim>\<open>time.Now\<close>, \<^verbatim>\<open>uuid.New\<close>) are a parameter of each commit; the modification times of the storage are not read back.
\<close>

record paimon_target =
  pmt_storage :: mem_storage
  pmt_targetTable :: "table option"
  pmt_basePath :: string
  pmt_sourceBase :: "string option"

record paimon_stamp =
  stamp_base :: string
  stamp_delta :: string
  stamp_millis :: int

definition paimon_NewTarget :: "mem_storage \<Rightarrow> paimon_target" where
  "paimon_NewTarget storage = \<lparr>pmt_storage = storage, pmt_targetTable = None, pmt_basePath = '''', pmt_sourceBase = None\<rparr>"

definition paimon_Init :: "paimon_target \<Rightarrow> table \<Rightarrow> paimon_target" where
  "paimon_Init t targetTable =
     t\<lparr>pmt_targetTable := Some targetTable, pmt_basePath := BasePath targetTable, pmt_sourceBase := Some (BasePath targetTable)\<rparr>"

text \<open>The source a target reads its own table with shares its storage.\<close>

definition target_source :: "paimon_target \<Rightarrow> paimon_source option" where
  "target_source t = map_option (paimon_NewSource (pmt_storage t)) (pmt_sourceBase t)"

definition put_file :: "paimon_target \<Rightarrow> string \<Rightarrow> string \<Rightarrow> paimon_target" where
  "put_file t path data = t\<lparr>pmt_storage := mem_Write (pmt_storage t) path data 0\<rparr>"

definition paimon_GetTableMetadata :: "paimon_target \<Rightarrow> sync_metadata option res" where
  "paimon_GetTableMetadata t =
     (case target_source t of
        None \<Rightarrow> Inr None
      | Some src \<Rightarrow>
          (case latestSnapshot src of
             Inr (Some snap) \<Rightarrow>
               (if sn_Properties snap = [] then Inr None
                else
                  Inr (map_option (\<lambda>md. md\<lparr>TargetFormat := TableFormatPaimon, CustomProperties := sn_Properties snap\<rparr>)
                    (ReadSyncMetadataFromProperties (sn_Properties snap))))
           | _ \<Rightarrow> Inr None))"

section \<open>One commit\<close>

definition entriesFor :: "string \<Rightarrow> data_file list \<Rightarrow> int \<Rightarrow> int \<Rightarrow> manifest_entry list res" where
  "entriesFor basePath files kind schemaID = map_res (\<lambda>f. entryForDataFile basePath f kind schemaID) files"

record commit_params =
  cp_schemaID :: int
  cp_base :: "data_file list"
  cp_added :: "data_file list"
  cp_removed :: "data_file list"
  cp_commitKind :: string
  cp_properties :: "(string, string) gomap"

definition manifest_path :: "string \<Rightarrow> string \<Rightarrow> string" where
  "manifest_path basePath name = JoinPath (JoinPath basePath [manifestDir]) [name]"

definition manifest_meta :: "string \<Rightarrow> string \<Rightarrow> int \<Rightarrow> manifest_entry list \<Rightarrow> manifest_file_meta" where
  "manifest_meta name data schemaID entries =
     \<lparr>mm_FileName = name, mm_FileSize = wrap64 (int (length data)),
      mm_NumAddedFiles = wrap64 (int (length (filter (\<lambda>e. me_Kind e \<noteq> 1) entries))),
      mm_NumDeletedFiles = wrap64 (int (length (filter (\<lambda>e. me_Kind e = 1) entries))), mm_SchemaID = schemaID\<rparr>"

definition writeManifestList :: "string \<Rightarrow> paimon_target \<Rightarrow> manifest_entry list \<Rightarrow> int \<Rightarrow> paimon_target \<times> string" where
  "writeManifestList batch t entries schemaID =
     (let name = ''manifest-'' @ batch @ ''-0''; data = marshal_indent (enc_manifest_file entries);
          (t, metas) = (if entries = [] then (t, [])
             else (put_file t (manifest_path (pmt_basePath t) name) data, [manifest_meta name data schemaID entries]));
          listName = ''manifest-list-'' @ batch @ ''-0''
      in (put_file t (manifest_path (pmt_basePath t) listName) (marshal_indent (enc_manifest_list metas)), listName))"

definition nextSnapshotID :: "paimon_source \<Rightarrow> string \<Rightarrow> int" where
  "nextSnapshotID src basePath =
     (case listVersioned src (JoinPath basePath [snapshotDir]) snapshotPrefix of
        [] \<Rightarrow> 1
      | snapshots \<Rightarrow> wrap64 (fst (last snapshots) + 1))"

definition count_records :: "int \<Rightarrow> data_file list \<Rightarrow> int" where
  "count_records n files = foldl (\<lambda>a f. wrap64 (a + RecordCount f)) n files"

definition discount_records :: "int \<Rightarrow> data_file list \<Rightarrow> int" where
  "discount_records n files = foldl (\<lambda>a f. wrap64 (a - RecordCount f)) n files"

definition writeHint :: "paimon_target \<Rightarrow> string \<Rightarrow> string \<Rightarrow> int \<Rightarrow> paimon_target" where
  "writeHint t dir name i = put_file t (JoinPath dir [name]) (formatInt i)"

definition commit_record :: "paimon_stamp \<Rightarrow> commit_params \<Rightarrow> string \<Rightarrow> string \<Rightarrow> int \<Rightarrow> paimon_snapshot" where
  "commit_record stamp p baseList deltaList snapshotID =
     \<lparr>sn_Version = 3, sn_ID = snapshotID, sn_SchemaID = cp_schemaID p, sn_BaseManifestList = baseList,
      sn_DeltaManifestList = deltaList, sn_CommitUser = ''polytable'', sn_CommitIdentifier = snapshotID,
      sn_CommitKind = cp_commitKind p, sn_TimeMillis = stamp_millis stamp,
      sn_TotalRecordCount = Some (discount_records (count_records (count_records 0 (cp_base p)) (cp_added p)) (cp_removed p)),
      sn_DeltaRecordCount = Some (discount_records (count_records 0 (cp_added p)) (cp_removed p)),
      sn_ChangelogRecordCount = None, sn_LogOffset = [], sn_Properties = cp_properties p\<rparr>"

definition paimon_commit :: "paimon_stamp \<Rightarrow> paimon_target \<Rightarrow> commit_params \<Rightarrow> paimon_target \<times> gerr option" where
  "paimon_commit stamp t p =
     (case entriesFor (pmt_basePath t) (cp_base p) 0 (cp_schemaID p) of
        Inl e \<Rightarrow> (t, Some e)
      | Inr baseEntries \<Rightarrow>
     (case entriesFor (pmt_basePath t) (cp_removed p) 1 (cp_schemaID p) of
        Inl e \<Rightarrow> (t, Some e)
      | Inr deltaEntries \<Rightarrow>
     (case entriesFor (pmt_basePath t) (cp_added p) 0 (cp_schemaID p) of
        Inl e \<Rightarrow> (t, Some e)
      | Inr addedEntries \<Rightarrow>
          (let (t, baseList) = writeManifestList (stamp_base stamp) t baseEntries (cp_schemaID p);
               (t, deltaList) = writeManifestList (stamp_delta stamp) t (deltaEntries @ addedEntries) (cp_schemaID p)
           in case target_source t of
                None \<Rightarrow> (t, Some nil_panic)
              | Some src \<Rightarrow>
                  (let snapshotID = nextSnapshotID src (pmt_basePath t);
                       dir = JoinPath (pmt_basePath t) [snapshotDir];
                       t = put_file t (JoinPath dir [snapshotPrefix @ formatInt snapshotID])
                             (marshal_indent (enc_paimon_snapshot (commit_record stamp p baseList deltaList snapshotID)));
                       t = (if snapshotID = 1 then writeHint t dir ''EARLIEST'' snapshotID else t)
                   in (writeHint t dir ''LATEST'' snapshotID, None))))))"

section \<open>Schemas\<close>

text \<open>
  \<^verbatim>\<open>reflect.DeepEqual\<close> of a converted schema and one read from a file. The empty lists and maps of a converted schema
  are nil; those a file spells out are not, and differ from them.
\<close>

definition spelled_out_empty :: "string \<Rightarrow> bool" where
  "spelled_out_empty data =
     (case Option.bind (json_unmarshal data) struct_members of
        None \<Rightarrow> False
      | Some kvs \<Rightarrow>
          list_ex (\<lambda>k. jfield k kvs \<in> {Some (JArr []), Some (JObj [])}) [''fields'', ''partitionKeys'', ''primaryKeys'', ''options''])"

definition partition_keys :: "table \<Rightarrow> string list" where
  "partition_keys tbl = map FieldName (List.map_filter SourceField (PartitioningFields tbl))"

definition ensureSchema :: "paimon_target \<Rightarrow> table \<Rightarrow> paimon_target \<times> int res" where
  "ensureSchema t tbl =
     (if ReadSchema tbl = None then (t, Inl (ErrMsg ''invalid table: missing schema''))
      else
     (case wrap_res ''failed to convert schema to paimon'' (SchemaToPaimon (ReadSchema tbl) (partition_keys tbl)) of
        Inl e \<Rightarrow> (t, Inl e)
      | Inr ts \<Rightarrow>
     (case target_source t of
        None \<Rightarrow> (t, Inl nil_panic)
      | Some src \<Rightarrow>
          (let dir = JoinPath (pmt_basePath t) [schemaDir];
               reusable =
                 (case listVersioned src dir schemaPrefix of
                    [] \<Rightarrow> Inr (0, None)
                  | existing \<Rightarrow>
                      (let latest = fst (last existing) in
                       bind_res (schema_file src latest) (\<lambda>(schemaPath, data).
                       bind_res (readSchema src latest) (\<lambda>previous.
                       Inr (wrap64 (latest + 1),
                            if ts\<lparr>ts_ID := ts_ID previous\<rparr> = previous \<and> \<not> spelled_out_empty data
                            then Some (ts_ID previous) else None)))))
           in case reusable of
                Inl e \<Rightarrow> (t, Inl e)
              | Inr (_, Some previousID) \<Rightarrow> (t, Inr previousID)
              | Inr (nextID, None) \<Rightarrow>
                  (case enc_table_schema (ts\<lparr>ts_ID := nextID\<rparr>) of
                     None \<Rightarrow> (t, Inl (ErrMsg ''failed to marshal paimon schema''))
                   | Some j \<Rightarrow> (put_file t (JoinPath dir [schemaPrefix @ formatInt nextID]) (marshal_indent j), Inr nextID))))))"

section \<open>The state between commits\<close>

definition currentFiles :: "paimon_source \<Rightarrow> data_file list res" where
  "currentFiles src =
     bind_res (latestSnapshot src) (\<lambda>latest.
     case latest of
       None \<Rightarrow> Inr []
     | Some snap \<Rightarrow>
         bind_res (readSchema src (sn_SchemaID snap)) (\<lambda>ts.
         bind_res (tableForSchema src ts) (\<lambda>tbl. liveFiles src snap tbl)))"

definition fileKey :: "string \<Rightarrow> data_file \<Rightarrow> string" where
  "fileKey basePath f = (case RelativizePath (PhysicalPath f) basePath of Inr name \<Rightarrow> name | Inl _ \<Rightarrow> PhysicalPath f)"

definition applyDiff :: "string \<Rightarrow> data_file list \<Rightarrow> data_file list \<Rightarrow> data_file list \<Rightarrow> data_file list" where
  "applyDiff basePath base added removed =
     (let dropped = fileKey basePath ` set removed;
          kept = filter (\<lambda>f. fileKey basePath f \<notin> dropped) base
      in fst (foldl (\<lambda>(result, seen) f.
           let name = fileKey basePath f in
           if name \<in> seen then (result, seen) else (result @ [f], insert name seen))
           (kept, fileKey basePath ` set kept) added))"

definition syncProperties :: "int \<Rightarrow> table_format \<Rightarrow> string \<Rightarrow> (string, string) gomap" where
  "syncProperties lastInstant sourceFormat sourceIdentifier =
     WriteSyncMetadataProperties []
       \<lparr>LastInstantSynced = lastInstant, InstantsToConsiderForNextSync = [], SourceFormat = sourceFormat,
        TargetFormat = '''', SourceIdentifier = sourceIdentifier, CustomProperties = []\<rparr>"

section \<open>Commits\<close>

definition paimon_CommitSnapshot :: "paimon_stamp \<Rightarrow> paimon_target \<Rightarrow> snapshot \<Rightarrow> paimon_target \<times> gerr option" where
  "paimon_CommitSnapshot stamp t snap =
     (if ReadSchema (SnapTable snap) = None then (t, Some (ErrMsg ''invalid snapshot: missing table or schema''))
      else
        (case ensureSchema t (SnapTable snap) of
           (t, Inl e) \<Rightarrow> (t, Some e)
         | (t, Inr schemaID) \<Rightarrow>
             paimon_commit stamp t
               \<lparr>cp_schemaID = schemaID, cp_base = [], cp_added = AllDataFiles snap, cp_removed = [], cp_commitKind = ''OVERWRITE'',
                cp_properties = syncProperties (LatestCommitTime (SnapTable snap)) (TableFormat (SnapTable snap))
                  (SnapSourceIdentifier snap)\<rparr>))"

fun paimon_commit_changes ::
  "(nat \<Rightarrow> paimon_stamp) \<Rightarrow> table_format \<Rightarrow> paimon_target \<Rightarrow> nat \<Rightarrow> int \<Rightarrow> data_file list \<Rightarrow> table_change list \<Rightarrow>
    paimon_target \<times> gerr option" where
  "paimon_commit_changes stamps fmt t n latest base [] = (t, None)"
| "paimon_commit_changes stamps fmt t n latest base (change # changes) =
     (case ensureSchema t (TableAsOfChange change) of
        (t, Inl e) \<Rightarrow> (t, Some e)
      | (t, Inr schemaID) \<Rightarrow>
          (let added = FilesAdded (FilesDiff change); removed = FilesRemoved (FilesDiff change);
               latest = (if CommitTime change > latest then CommitTime change else latest)
           in case paimon_commit (stamps n) t
                \<lparr>cp_schemaID = schemaID, cp_base = base, cp_added = added, cp_removed = removed, cp_commitKind = ''APPEND'',
                 cp_properties = syncProperties latest fmt (ChangeSourceIdentifier change)\<rparr> of
                (t, Some e) \<Rightarrow> (t, Some e)
              | (t, None) \<Rightarrow>
                  paimon_commit_changes stamps fmt t (Suc n) latest (applyDiff (pmt_basePath t) base added removed) changes))"

definition paimon_CommitChanges :: "(nat \<Rightarrow> paimon_stamp) \<Rightarrow> paimon_target \<Rightarrow> incremental_changes \<Rightarrow> paimon_target \<times> gerr option" where
  "paimon_CommitChanges stamps t changes =
     (case target_source t of
        None \<Rightarrow> (t, Some nil_panic)
      | Some src \<Rightarrow>
          (case currentFiles src of
             Inl e \<Rightarrow> (t, Some e)
           | Inr base \<Rightarrow> paimon_commit_changes stamps (TableFormat (CurrentTable changes)) t 0 0 base (TableChanges changes)))"

end
