(* ===== verification/Paimon_Roundtrip.thy ===== *)
theory Paimon_Roundtrip
  imports Paimon_Schema
begin

text \<open>
  What a canonical schema becomes on the way through a Paimon schema file: the identifiers it gets, and its
  Paimon form (UUIDs are strings, fixed-size bytes are bytes, names of nested records and the comments inside lists and
  maps are dropped).
\<close>

section \<open>The Paimon form of a schema\<close>

fun thread :: "('a \<Rightarrow> int \<Rightarrow> 'b \<times> int) \<Rightarrow> 'a list \<Rightarrow> int \<Rightarrow> 'b list \<times> int" where
  "thread f [] n = ([], n)"
| "thread f (x # xs) n = (let (y, n1) = f x n; (ys, n2) = thread f xs n1 in (y # ys, n2))"

lemma thread_cong [fundef_cong]:
  "xs = ys \<Longrightarrow> (\<And>x n. x \<in> set ys \<Longrightarrow> f x n = g x n) \<Longrightarrow> n = m \<Longrightarrow> thread f xs n = thread g ys m"
proof (induction xs arbitrary: ys n m)
  case (Cons x xs)
  then show ?case by (cases "g x m") auto
qed simp

definition timestamp_form :: "dtype \<Rightarrow> schema \<Rightarrow> schema" where
  "timestamp_form t s =
     set_metadata TimestampPrecision (AMeta (timestampPrecisionBucket (timestampWritePrecision s))) (NewPrimitiveSchema t (IsNullable s))"

function paimon_form :: "schema \<Rightarrow> int \<Rightarrow> schema \<times> int" and form_field :: "field \<Rightarrow> int \<Rightarrow> field \<times> int" where
  "paimon_form s n =
     (case DataType s of
        TypeList \<Rightarrow>
          (case Option.bind (ElementSchema s) FieldSchema of
             None \<Rightarrow> (s, n)
           | Some e \<Rightarrow> (let (e', n') = paimon_form e n in (list_schema e' (IsNullable s), n')))
      | TypeMap \<Rightarrow>
          (case Option.bind (KeySchema s) FieldSchema of
             None \<Rightarrow> (s, n)
           | Some k \<Rightarrow>
               (case Option.bind (ValueSchema s) FieldSchema of
                  None \<Rightarrow> (s, n)
                | Some v \<Rightarrow>
                    (let (k', n1) = paimon_form k n; (v', n2) = paimon_form v n1 in (map_schema k' v' (IsNullable s), n2))))
      | TypeRecord \<Rightarrow>
          (let (fs, n') = thread form_field (Fields s) n in (NewRecordSchema '''' fs (IsNullable s), n'))
      | TypeDecimal \<Rightarrow> (NewDecimalSchema (decimal_precision s) (decimal_scale s) (IsNullable s), n)
      | TypeTimestamp \<Rightarrow> (timestamp_form TypeTimestamp s, n)
      | TypeTimestampNTZ \<Rightarrow> (timestamp_form TypeTimestampNTZ s, n)
      | TypeUUID \<Rightarrow> (NewPrimitiveSchema TypeString (IsNullable s), n)
      | TypeFixed \<Rightarrow> (NewPrimitiveSchema TypeBytes (IsNullable s), n)
      | t \<Rightarrow> (NewPrimitiveSchema t (IsNullable s), n))"
| "form_field f n =
     (let (i, n1) = take_field_id (FieldID f) n in
      case FieldSchema f of
        None \<Rightarrow> (f, n1)
      | Some s \<Rightarrow> (let (s', n2) = paimon_form s n1 in (paimon_field i (FieldName f) s' (Comment s), n2)))"
  by pat_completeness auto
termination
proof (relation "measure (case_sum (\<lambda>(s, _). size s) (\<lambda>(f, _). size f))")
  have "f \<in> set (Fields s) \<Longrightarrow> size f < size s" for f s
    using elem_size_list [of f "Fields s" size] by (cases s) simp
  then show "f \<in> set (Fields s) \<Longrightarrow> (Inr (f, m), Inl (s, n)) \<in> measure (case_sum (\<lambda>(s, _). size s) (\<lambda>(f, _). size f))" for f s m n
    by simp
  show "FieldSchema f = Some s \<Longrightarrow> (Inl (s, m), Inr (f, n)) \<in> measure (case_sum (\<lambda>(s, _). size s) (\<lambda>(f, _). size f))" for f s m n
    by (cases f) simp
qed (auto simp: bind_eq_Some_conv intro: size_child_field size_child_ptr)

declare paimon_form.simps [simp del] form_field.simps [simp del]

text \<open>The schemas Paimon can hold: no enumeration, union or null column, children present, decimals of machine size.\<close>

function paimon_ok :: "schema \<Rightarrow> bool" where
  "paimon_ok s =
     (case DataType s of
        TypeEnum \<Rightarrow> False
      | TypeUnion \<Rightarrow> False
      | TypeNull \<Rightarrow> False
      | TypeDecimal \<Rightarrow> 0 \<le> decimal_precision s \<and> decimal_precision s \<le> max_int64 \<and> 0 \<le> decimal_scale s \<and> decimal_scale s \<le> max_int64
      | TypeRecord \<Rightarrow>
          list_all (\<lambda>f. pred_option in_int64 (FieldID f) \<and> (case FieldSchema f of None \<Rightarrow> False | Some t \<Rightarrow> paimon_ok t)) (Fields s)
      | TypeList \<Rightarrow> (case Option.bind (ElementSchema s) FieldSchema of None \<Rightarrow> False | Some e \<Rightarrow> paimon_ok e)
      | TypeMap \<Rightarrow>
          (case Option.bind (KeySchema s) FieldSchema of None \<Rightarrow> False | Some k \<Rightarrow> paimon_ok k) \<and>
          (case Option.bind (ValueSchema s) FieldSchema of None \<Rightarrow> False | Some v \<Rightarrow> paimon_ok v)
      | _ \<Rightarrow> True)"
  by pat_completeness auto
termination
  by (relation "measure size") (auto intro: size_child_field size_child_ptr simp: bind_eq_Some_conv)

declare paimon_ok.simps [simp del]

section \<open>Atomic types\<close>

text \<open>A clean spelling is read back, with and without the nullability suffix.\<close>

definition clean_base :: "string \<Rightarrow> bool" where
  "clean_base b \<longleftrightarrow> b \<noteq> '''' \<and> \<not> is_space (hd b) \<and> \<not> is_space (last b) \<and> toUpper b = b \<and> \<not> hasSuffix b ''NOT NULL''"

lemma toUpper_append: "toUpper (a @ b) = toUpper a @ toUpper b"
  by (simp add: toUpper_def)

lemma parse_atomic_base:
  assumes "clean_base b"
  shows "parseAtomicTypeSQLString (withNullabilitySuffix b nullable) = atomic_schema b nullable"
proof (cases nullable)
  case True
  from assms have "trimSpace b = b" by (intro trimSpace_idem_hd) (auto simp: clean_base_def)
  with assms True show ?thesis by (simp add: parseAtomicTypeSQLString_def withNullabilitySuffix_def clean_base_def)
next
  case False
  let ?t = "b @ '' NOT NULL''"
  have t: "trimSpace ?t = ?t" using assms by (intro trimSpace_idem_hd) (auto simp: clean_base_def is_space_def)
  have u: "toUpper ?t = (b @ '' '') @ ''NOT NULL''"
    using assms by (simp add: toUpper_append clean_base_def) (simp add: toUpper_def upper_char_def)
  have s: "hasSuffix (toUpper ?t) ''NOT NULL''" unfolding u by (rule hasSuffix_append)
  have "take (length ?t - 8) ?t = b @ '' ''" by simp
  moreover have "dropWhile is_space (b @ '' '') = b @ '' ''" "dropWhile is_space b = b"
    using assms by (cases b; simp add: clean_base_def)+
  then have "trimSpace (b @ '' '') = trimSpace b" by (simp add: trimSpace_def) (simp add: is_space_def)
  moreover have "trimSpace b = b" using assms by (intro trimSpace_idem_hd) (auto simp: clean_base_def)
  ultimately show ?thesis using False t s by (simp add: parseAtomicTypeSQLString_def withNullabilitySuffix_def)
qed

lemma parse_atomic_document:
  "clean_base b \<Longrightarrow> parse_document (Some (JStr (withNullabilitySuffix b nullable))) = atomic_schema b nullable"
  by (simp add: parse_document.simps parse_atomic_base)

lemma atomic_bases:
  "clean_base ''BOOLEAN''" "clean_base ''INT''" "clean_base ''BIGINT''" "clean_base ''FLOAT''" "clean_base ''DOUBLE''"
  "clean_base ''STRING''" "clean_base ''BYTES''" "clean_base ''DATE''"
  by code_simp+

lemma atomic_schemas:
  "atomic_schema ''BOOLEAN'' n = Inr (NewPrimitiveSchema TypeBoolean n)"
  "atomic_schema ''INT'' n = Inr (NewPrimitiveSchema TypeInt n)"
  "atomic_schema ''BIGINT'' n = Inr (NewPrimitiveSchema TypeLong n)"
  "atomic_schema ''FLOAT'' n = Inr (NewPrimitiveSchema TypeFloat n)"
  "atomic_schema ''DOUBLE'' n = Inr (NewPrimitiveSchema TypeDouble n)"
  "atomic_schema ''STRING'' n = Inr (NewPrimitiveSchema TypeString n)"
  "atomic_schema ''BYTES'' n = Inr (NewPrimitiveSchema TypeBytes n)"
  "atomic_schema ''DATE'' n = Inr (NewPrimitiveSchema TypeDate n)"
  by (simp_all add: atomic_schema_def toUpper_def upper_char_def)

lemma timestamp_bases:
  assumes "p \<in> {3, 6, 9 :: int}"
  shows "clean_base (''TIMESTAMP('' @ formatInt p @ '')'')"
    and "clean_base (''TIMESTAMP('' @ formatInt p @ '') WITH LOCAL TIME ZONE'')"
    and "atomic_schema (''TIMESTAMP('' @ formatInt p @ '')'') n =
      Inr (set_metadata TimestampPrecision (AMeta (timestampPrecisionBucket p)) (NewPrimitiveSchema TypeTimestampNTZ n))"
    and "atomic_schema (''TIMESTAMP('' @ formatInt p @ '') WITH LOCAL TIME ZONE'') n =
      Inr (set_metadata TimestampPrecision (AMeta (timestampPrecisionBucket p)) (NewPrimitiveSchema TypeTimestamp n))"
proof -
  have f: "formatInt 3 = ''3''" "formatInt 6 = ''6''" "formatInt 9 = ''9''" by code_simp+
  have q: "parseInt ''3'' = Some 3" "parseInt ''6'' = Some 6" "parseInt ''9'' = Some 9" by code_simp+
  show "clean_base (''TIMESTAMP('' @ formatInt p @ '')'')" "clean_base (''TIMESTAMP('' @ formatInt p @ '') WITH LOCAL TIME ZONE'')"
    using assms by (auto simp: f) code_simp+
  show "atomic_schema (''TIMESTAMP('' @ formatInt p @ '')'') n =
      Inr (set_metadata TimestampPrecision (AMeta (timestampPrecisionBucket p)) (NewPrimitiveSchema TypeTimestampNTZ n))"
    "atomic_schema (''TIMESTAMP('' @ formatInt p @ '') WITH LOCAL TIME ZONE'') n =
      Inr (set_metadata TimestampPrecision (AMeta (timestampPrecisionBucket p)) (NewPrimitiveSchema TypeTimestamp n))"
    using assms
    by (auto simp: f q atomic_schema_def toUpper_def upper_char_def parseTimestampSQLString_def trimSpace_def is_space_def trimPrefix_def)
qed

lemma decimal_params:
  "decimalParams (''DECIMAL('' @ nat_dec p @ '', '' @ nat_dec s @ '')'') = Some (nat_dec p, nat_dec s)"
proof -
  have d: "list_all is_digit (nat_dec k)" for k by (rule nat_dec_digits)
  have sp: "is_digit c \<Longrightarrow> \<not> re_space c" for c by (auto simp: is_digit_def re_space_def)
  have dw: "dropWhile re_space (nat_dec k @ r) = nat_dec k @ r" for k r
    using d [of k] sp by (cases "nat_dec k") auto
  have tw: "takeWhile is_digit (nat_dec k @ c # r) = nat_dec k \<and> dropWhile is_digit (nat_dec k @ c # r) = c # r"
    if "\<not> is_digit c" for k c r
    using d [of k] that by (auto simp: list_all_iff takeWhile_append2 dropWhile_append2)
  have "decimal_at (nat_dec p @ '', '' @ nat_dec s @ '')'') = Some (nat_dec p, nat_dec s)"
  proof -
    have nd: "\<not> is_digit (CHR '','')" "\<not> is_digit (CHR '')'')" "\<not> re_space (CHR '','')" "\<not> re_space (CHR '')'')" "re_space (CHR '' '')"
      by (simp_all add: is_digit_def re_space_def)
    have "dropWhile re_space (CHR '' '' # nat_dec s @ '')'') = nat_dec s @ '')''" using dw nd(5) by simp
    with nd tw [OF nd(1), of p "CHR '' '' # nat_dec s @ '')''"] tw [OF nd(2), of s "[]"] show ?thesis
      by (simp add: decimal_at_def Let_def dw del: dropWhile.simps(2) takeWhile.simps(2)) simp
  qed
  then show ?thesis by simp
qed

lemma decimal_base:
  assumes "0 \<le> p" "p \<le> max_int64" "0 \<le> s" "s \<le> max_int64"
  shows "clean_base (''DECIMAL('' @ formatInt p @ '', '' @ formatInt s @ '')'')"
    and "atomic_schema (''DECIMAL('' @ formatInt p @ '', '' @ formatInt s @ '')'') n = Inr (NewDecimalSchema p s n)"
proof -
  have f: "formatInt p = nat_dec (nat p)" "formatInt s = nat_dec (nat s)" using assms by (simp_all add: formatInt_def)
  have "toUpper (nat_dec k) = nat_dec k" for k
    unfolding toUpper_def by (rule map_idI) (use nat_dec_digits [of k] in \<open>auto simp: list_all_iff is_digit_def upper_char_def Let_def\<close>)
  then have u: "toUpper (''DECIMAL('' @ formatInt p @ '', '' @ formatInt s @ '')'') = ''DECIMAL('' @ formatInt p @ '', '' @ formatInt s @ '')''"
    by (simp add: f toUpper_append) (simp add: toUpper_def upper_char_def)
  have "\<not> hasSuffix (x @ '')'') ''NOT NULL''" for x by (auto simp: hasSuffix_iff)
  from this [of "''DECIMAL('' @ formatInt p @ '', '' @ formatInt s"] u
  show "clean_base (''DECIMAL('' @ formatInt p @ '', '' @ formatInt s @ '')'')"
    by (simp add: clean_base_def is_space_def)
  have m: "atoi_clamped (nat_dec (nat p)) = p" "atoi_clamped (nat_dec (nat s)) = s" using assms by (simp_all add: atoi_clamped_def)
  show "atomic_schema (''DECIMAL('' @ formatInt p @ '', '' @ formatInt s @ '')'') n = Inr (NewDecimalSchema p s n)"
    using decimal_params [of "nat p" "nat s"] m unfolding atomic_schema_def Let_def u by (simp add: f)
qed

section \<open>Types written and parsed\<close>

lemma json_print_nonempty [simp]: "wf_json j \<Longrightarrow> json_print j \<noteq> []"
  using wf_json_print_hd by blast

lemma type_document_print [simp]: "wf_json j \<Longrightarrow> type_document (json_print j) = Some j"
  by (simp add: type_document_def)

lemma nested_document_print [simp]: "wf_json j \<Longrightarrow> nested_document (json_print j) = j"
  by (simp add: nested_document_def)

definition type_trip :: "schema \<Rightarrow> bool" where
  "type_trip s \<longleftrightarrow> (\<forall>n. \<exists>j. modelTypeToPaimonType (Some s) n = Inr (json_print j, snd (paimon_form s n)) \<and> wf_json j \<and>
     parse_document (Some j) = Inr (fst (paimon_form s n)))"

text \<open>A written field, and the field it is read back as.\<close>

definition field_doc :: "data_field \<Rightarrow> json \<Rightarrow> json" where
  "field_doc df j = JObj ([(''id'', jint (df_ID df)), (''name'', JStr (df_Name df)), (''type'', j)] @ omit_str ''description'' (df_Description df))"

definition field_trip :: "data_field \<Rightarrow> field \<Rightarrow> bool" where
  "field_trip df f' \<longleftrightarrow>
     (\<exists>j s. df_Type df = json_print j \<and> wf_json j \<and> in_int64 (df_ID df) \<and> parse_document (Some j) = Inr s \<and>
        f' = paimon_field (df_ID df) (df_Name df) s (df_Description df))"

lemma take_field_id_int64: "pred_option in_int64 i \<Longrightarrow> in_int64 (fst (take_field_id i n))"
  by (cases i) (auto simp: take_field_id_def)

lemma modelField_trip:
  assumes "FieldSchema f = Some s" and "type_trip s" and "pred_option in_int64 (FieldID f)"
  shows "\<exists>df. modelFieldToPaimonField f n = Inr (df, snd (form_field f n)) \<and> field_trip df (fst (form_field f n))"
proof -
  obtain i n1 where t: "take_field_id (FieldID f) n = (i, n1)" by fastforce
  with take_field_id_int64 [OF assms(3), of n] have i: "in_int64 i" by simp
  from assms(2) obtain j where j: "modelTypeToPaimonType (Some s) n1 = Inr (json_print j, snd (paimon_form s n1))" "wf_json j"
    "parse_document (Some j) = Inr (fst (paimon_form s n1))" unfolding type_trip_def by blast
  obtain s' n2 where p: "paimon_form s n1 = (s', n2)" by fastforce
  show ?thesis
    using assms(1) t i j p
    by (auto simp: modelFieldToPaimonField.simps form_field.simps field_trip_def)
qed

lemma thread_trip:
  assumes "\<And>f. f \<in> set fs \<Longrightarrow> \<exists>s. FieldSchema f = Some s \<and> type_trip s \<and> pred_option in_int64 (FieldID f)"
  shows "\<exists>dfs. thread_res modelFieldToPaimonField fs n = Inr (dfs, snd (thread form_field fs n)) \<and>
    list_all2 field_trip dfs (fst (thread form_field fs n))"
  using assms
proof (induction fs arbitrary: n)
  case (Cons f fs)
  from Cons.prems [of f] obtain s where "FieldSchema f = Some s" "type_trip s" "pred_option in_int64 (FieldID f)" by auto
  from modelField_trip [OF this, of n] obtain df where df: "modelFieldToPaimonField f n = Inr (df, snd (form_field f n))"
    "field_trip df (fst (form_field f n))" by blast
  have "\<exists>dfs. thread_res modelFieldToPaimonField fs (snd (form_field f n)) = Inr (dfs, snd (thread form_field fs (snd (form_field f n)))) \<and>
      list_all2 field_trip dfs (fst (thread form_field fs (snd (form_field f n))))"
    by (rule Cons.IH) (use Cons.prems in auto)
  with df show ?case by (auto simp: split_def Let_def)
qed simp

lemma enc_field_trip:
  assumes "field_trip df f'"
  shows "\<exists>j s. enc_data_field df = Some (field_doc df j) \<and> wf_json (field_doc df j) \<and>
    dec_raw_field (field_doc df j) = Some \<lparr>rf_ID = df_ID df, rf_Name = df_Name df, rf_Type = Some j, rf_Description = df_Description df\<rparr> \<and>
    df_Type df = json_print j \<and> wf_json j \<and> parse_document (Some j) = Inr s \<and> f' = paimon_field (df_ID df) (df_Name df) s (df_Description df)"
proof -
  from assms obtain j s where j: "df_Type df = json_print j" "wf_json j" "in_int64 (df_ID df)" "parse_document (Some j) = Inr s"
    "f' = paimon_field (df_ID df) (df_Name df) s (df_Description df)" by (auto simp: field_trip_def)
  then show ?thesis
    by (intro exI [of _ j] exI [of _ s]) (simp add: enc_data_field_def field_doc_def key_simps)
qed

lemma wf_documents [simp]:
  "wf_json (field_doc df j) \<longleftrightarrow> wf_json j"
  by (simp add: field_doc_def)

lemma parse_row_document:
  assumes "list_all2 field_trip dfs fs'"
  shows "parse_document (Some (JObj [(''type'', JStr (withNullabilitySuffix ''ROW'' nullable)),
      (''fields'', JArr (map (\<lambda>f. the (enc_data_field f)) dfs))])) = Inr (NewRecordSchema '''' fs' nullable)"
    and "list_all (\<lambda>f. wf_json (the (enc_data_field f))) dfs"
proof -
  let ?doc = "JObj [(''type'', JStr (withNullabilitySuffix ''ROW'' nullable)), (''fields'', JArr (map (\<lambda>f. the (enc_data_field f)) dfs))]"
  from assms have "\<exists>rs. opt_all dec_raw_field (map (\<lambda>f. the (enc_data_field f)) dfs) = Some rs \<and>
      map_res (\<lambda>f. bind_res (wrap_res (''field '' @ quoted (rf_Name f)) (parse_document (rf_Type f)))
        (\<lambda>s. Inr (paimon_field (rf_ID f) (rf_Name f) s (rf_Description f)))) rs = Inr fs' \<and>
      list_all (\<lambda>f. wf_json (the (enc_data_field f))) dfs"
  proof (induction rule: list_all2_induct)
    case (Cons df dfs f' fs')
    from enc_field_trip [OF Cons(1)] Cons.IH show ?case by fastforce
  qed simp
  then obtain rs where rs: "opt_all dec_raw_field (map (\<lambda>f. the (enc_data_field f)) dfs) = Some rs"
    "map_res (\<lambda>f. bind_res (wrap_res (''field '' @ quoted (rf_Name f)) (parse_document (rf_Type f)))
        (\<lambda>s. Inr (paimon_field (rf_ID f) (rf_Name f) s (rf_Description f)))) rs = Inr fs'"
    "list_all (\<lambda>f. wf_json (the (enc_data_field f))) dfs" by blast
  show "list_all (\<lambda>f. wf_json (the (enc_data_field f))) dfs" by (rule rs(3))
  have f: "row_fields ?doc = Some rs" using rs(1) by (simp add: row_fields_def key_simps)
  have h: "dec_string (member_of ''type'' ?doc) = Some (withNullabilitySuffix ''ROW'' nullable)"
    by (simp add: member_of_def key_simps)
  have u: "toUpper (trimSpace (withNullabilitySuffix ''ROW'' nullable)) = withNullabilitySuffix ''ROW'' nullable"
    by (cases nullable) (simp_all add: withNullabilitySuffix_def trimSpace_def is_space_def toUpper_def upper_char_def)
  have c: "containsStr (withNullabilitySuffix ''ROW'' nullable) ''NOT NULL'' \<longleftrightarrow> \<not> nullable" "hasPrefix (withNullabilitySuffix ''ROW'' nullable) ''ROW''"
    by (cases nullable; simp add: withNullabilitySuffix_def)+
  show "parse_document (Some ?doc) = Inr (NewRecordSchema '''' fs' nullable)"
    by (subst parse_document.simps(2)) (simp only: h f u c Let_def struct_members.simps option.case json.distinct if_False if_True rs(2) bind_res.simps simp_thms)
qed

lemma parse_array_document:
  "parse_document (Some (JObj [(''type'', JStr (withNullabilitySuffix ''ARRAY'' nullable)), (''element'', e)])) =
    bind_res (wrap_res ''array element'' (parse_document (Some e))) (\<lambda>s. Inr (list_schema s nullable))"
proof -
  let ?doc = "JObj [(''type'', JStr (withNullabilitySuffix ''ARRAY'' nullable)), (''element'', e)]"
  have h: "dec_string (member_of ''type'' ?doc) = Some (withNullabilitySuffix ''ARRAY'' nullable)" "member_of ''element'' ?doc = Some e"
    by (simp_all add: member_of_def key_simps)
  have u: "toUpper (trimSpace (withNullabilitySuffix ''ARRAY'' nullable)) = withNullabilitySuffix ''ARRAY'' nullable"
    by (cases nullable) (simp_all add: withNullabilitySuffix_def trimSpace_def is_space_def toUpper_def upper_char_def)
  have c: "containsStr (withNullabilitySuffix ''ARRAY'' nullable) ''NOT NULL'' \<longleftrightarrow> \<not> nullable"
    "hasPrefix (withNullabilitySuffix ''ARRAY'' nullable) ''ARRAY''" "\<not> hasPrefix (withNullabilitySuffix ''ARRAY'' nullable) ''ROW''"
    by (cases nullable; simp add: withNullabilitySuffix_def)+
  show ?thesis
    by (subst parse_document.simps(2)) (simp only: h u c Let_def struct_members.simps option.case json.distinct if_False if_True simp_thms)
qed

lemma parse_map_document:
  "parse_document (Some (JObj [(''type'', JStr (withNullabilitySuffix ''MAP'' nullable)), (''key'', k), (''value'', v)])) =
    bind_res (wrap_res ''map key'' (parse_document (Some k))) (\<lambda>ks.
    bind_res (wrap_res ''map value'' (parse_document (Some v))) (\<lambda>vs. Inr (map_schema ks vs nullable)))"
proof -
  let ?doc = "JObj [(''type'', JStr (withNullabilitySuffix ''MAP'' nullable)), (''key'', k), (''value'', v)]"
  have h: "dec_string (member_of ''type'' ?doc) = Some (withNullabilitySuffix ''MAP'' nullable)"
    "member_of ''key'' ?doc = Some k" "member_of ''value'' ?doc = Some v"
    by (simp_all add: member_of_def key_simps)
  have u: "toUpper (trimSpace (withNullabilitySuffix ''MAP'' nullable)) = withNullabilitySuffix ''MAP'' nullable"
    by (cases nullable) (simp_all add: withNullabilitySuffix_def trimSpace_def is_space_def toUpper_def upper_char_def)
  have c: "containsStr (withNullabilitySuffix ''MAP'' nullable) ''NOT NULL'' \<longleftrightarrow> \<not> nullable"
    "hasPrefix (withNullabilitySuffix ''MAP'' nullable) ''MAP''" "\<not> hasPrefix (withNullabilitySuffix ''MAP'' nullable) ''ROW''"
    "\<not> hasPrefix (withNullabilitySuffix ''MAP'' nullable) ''ARRAY''"
    by (cases nullable; simp add: withNullabilitySuffix_def)+
  show ?thesis
    by (subst parse_document.simps(2)) (simp only: h u c Let_def struct_members.simps option.case json.distinct if_False if_True simp_thms)
qed

lemma type_trip_atomic:
  assumes "\<And>n. modelTypeToPaimonType (Some s) n = Inr (atomicPaimonType (withNullabilitySuffix b (IsNullable s)), n)"
    and "clean_base b" and "\<And>n. paimon_form s n = (s', n)" and "atomic_schema b (IsNullable s) = Inr s'"
  shows "type_trip s"
  unfolding type_trip_def
  by (intro allI exI [of _ "JStr (withNullabilitySuffix b (IsNullable s))"])
    (simp add: assms parse_atomic_document atomicPaimonType_def)

lemma timestampWritePrecision_range: "timestampWritePrecision s \<in> {3, 6, 9}"
  by (simp add: timestampWritePrecision_def split: option.splits any.splits metadata_value.splits)

lemmas type_steps = modelTypeToPaimonType.simps(2) paimon_form.simps

lemma type_trip_list:
  assumes "DataType s = TypeList" and e: "Option.bind (ElementSchema s) FieldSchema = Some e" "type_trip e"
  shows "type_trip s"
  unfolding type_trip_def
proof
  fix n
  from e(2) obtain j where j: "modelTypeToPaimonType (Some e) n = Inr (json_print j, snd (paimon_form e n))" "wf_json j"
    "parse_document (Some j) = Inr (fst (paimon_form e n))" unfolding type_trip_def by blast
  then show "\<exists>j. modelTypeToPaimonType (Some s) n = Inr (json_print j, snd (paimon_form s n)) \<and> wf_json j \<and>
      parse_document (Some j) = Inr (fst (paimon_form s n))"
    using assms(1) e(1)
    by (intro exI [of _ "JObj [(''type'', JStr (withNullabilitySuffix ''ARRAY'' (IsNullable s))), (''element'', j)]"])
      (simp add: type_steps [of s] parse_array_document arrayPaimonType_def split_def Let_def)
qed

lemma type_trip_map:
  assumes "DataType s = TypeMap" and k: "Option.bind (KeySchema s) FieldSchema = Some k" "type_trip k"
    and v: "Option.bind (ValueSchema s) FieldSchema = Some v" "type_trip v"
  shows "type_trip s"
  unfolding type_trip_def
proof
  fix n
  from k(2) obtain j where j: "modelTypeToPaimonType (Some k) n = Inr (json_print j, snd (paimon_form k n))" "wf_json j"
    "parse_document (Some j) = Inr (fst (paimon_form k n))" unfolding type_trip_def by blast
  from v(2) obtain i where i: "modelTypeToPaimonType (Some v) (snd (paimon_form k n)) =
      Inr (json_print i, snd (paimon_form v (snd (paimon_form k n))))" "wf_json i"
    "parse_document (Some i) = Inr (fst (paimon_form v (snd (paimon_form k n))))" unfolding type_trip_def by blast
  show "\<exists>j. modelTypeToPaimonType (Some s) n = Inr (json_print j, snd (paimon_form s n)) \<and> wf_json j \<and>
      parse_document (Some j) = Inr (fst (paimon_form s n))"
    using assms(1) k(1) v(1) i j
    by (intro exI [of _ "JObj [(''type'', JStr (withNullabilitySuffix ''MAP'' (IsNullable s))), (''key'', j), (''value'', i)]"])
      (simp add: type_steps [of s] parse_map_document mapPaimonType_def split_def Let_def)
qed

lemma type_trip_record:
  assumes "DataType s = TypeRecord"
    and "\<And>f. f \<in> set (Fields s) \<Longrightarrow> \<exists>t. FieldSchema f = Some t \<and> type_trip t \<and> pred_option in_int64 (FieldID f)"
  shows "type_trip s"
  unfolding type_trip_def
proof
  fix n
  obtain dfs where dfs: "thread_res modelFieldToPaimonField (Fields s) n = Inr (dfs, snd (thread form_field (Fields s) n))"
    "list_all2 field_trip dfs (fst (thread form_field (Fields s) n))" using thread_trip [OF assms(2)] by blast
  from parse_row_document [OF dfs(2)] show "\<exists>j. modelTypeToPaimonType (Some s) n = Inr (json_print j, snd (paimon_form s n)) \<and> wf_json j \<and>
      parse_document (Some j) = Inr (fst (paimon_form s n))"
    using assms(1) dfs(1)
    by (intro exI [of _ "JObj [(''type'', JStr (withNullabilitySuffix ''ROW'' (IsNullable s))),
          (''fields'', JArr (map (\<lambda>f. the (enc_data_field f)) dfs))]"])
      (simp add: type_steps [of s] rowPaimonType_def split_def Let_def list_all_iff)
qed

lemma paimon_ok_trip: "paimon_ok s \<Longrightarrow> type_trip s"
proof (induction s rule: paimon_ok.induct)
  case (1 s)
  have prim: "type_trip s" if "(DataType s, b, t) \<in> {(TypeBoolean, ''BOOLEAN'', TypeBoolean), (TypeInt, ''INT'', TypeInt),
      (TypeLong, ''BIGINT'', TypeLong), (TypeFloat, ''FLOAT'', TypeFloat), (TypeDouble, ''DOUBLE'', TypeDouble),
      (TypeString, ''STRING'', TypeString), (TypeUUID, ''STRING'', TypeString), (TypeBytes, ''BYTES'', TypeBytes),
      (TypeFixed, ''BYTES'', TypeBytes), (TypeDate, ''DATE'', TypeDate)}" for b t
    by (rule type_trip_atomic [of s b "NewPrimitiveSchema t (IsNullable s)"])
      (use that in \<open>elim insertE emptyE; simp add: type_steps [of s] atomic_bases atomic_schemas\<close>)+
  show ?case
  proof (cases "DataType s")
    case TypeList
    with "1.prems" obtain e where e: "Option.bind (ElementSchema s) FieldSchema = Some e" "paimon_ok e"
      by (simp add: paimon_ok.simps [of s] split: option.splits)
    have "type_trip e" by (rule "1.IH"(2) [OF TypeList e])
    with type_trip_list [OF TypeList e(1)] show ?thesis .
  next
    case TypeMap
    with "1.prems" obtain k v where k: "Option.bind (KeySchema s) FieldSchema = Some k" "paimon_ok k"
      and v: "Option.bind (ValueSchema s) FieldSchema = Some v" "paimon_ok v"
      by (simp add: paimon_ok.simps [of s] split: option.splits)
    have "type_trip k" by (rule "1.IH"(3) [OF TypeMap k])
    moreover have "type_trip v" by (rule "1.IH"(4) [OF TypeMap v])
    ultimately
    show ?thesis using type_trip_map [OF TypeMap k(1) _ v(1)] by blast
  next
    case TypeRecord
    show ?thesis
    proof (rule type_trip_record [OF TypeRecord])
      fix f assume f: "f \<in> set (Fields s)"
      with TypeRecord "1.prems" obtain t where t: "FieldSchema f = Some t" "paimon_ok t" "pred_option in_int64 (FieldID f)"
        by (auto simp: paimon_ok.simps [of s] list_all_iff split: option.splits)
      have "type_trip t" by (rule "1.IH"(1) [OF TypeRecord f t(1,2)])
      with t show "\<exists>t. FieldSchema f = Some t \<and> type_trip t \<and> pred_option in_int64 (FieldID f)" by blast
    qed
  next
    case TypeDecimal
    with "1.prems" have d: "0 \<le> decimal_precision s" "decimal_precision s \<le> max_int64" "0 \<le> decimal_scale s" "decimal_scale s \<le> max_int64"
      by (simp_all add: paimon_ok.simps [of s])
    show ?thesis
      by (rule type_trip_atomic [OF _ decimal_base(1) [OF d] _ decimal_base(2) [OF d]]) (use TypeDecimal in \<open>simp_all add: type_steps [of s]\<close>)
  next
    case TypeTimestamp
    note t = timestamp_bases [OF timestampWritePrecision_range [of s]]
    show ?thesis
      by (rule type_trip_atomic [OF _ t(2) _ t(4)]) (use TypeTimestamp in \<open>simp_all add: type_steps [of s] timestamp_form_def\<close>)
  next
    case TypeTimestampNTZ
    note t = timestamp_bases [OF timestampWritePrecision_range [of s]]
    show ?thesis
      by (rule type_trip_atomic [OF _ t(1) _ t(3)]) (use TypeTimestampNTZ in \<open>simp_all add: type_steps [of s] timestamp_form_def\<close>)
  qed (use "1.prems" prim in \<open>simp_all add: paimon_ok.simps [of s]\<close>)
qed

section \<open>Schema files\<close>

text \<open>The text a type has in a schema file: its document, indented at its depth there.\<close>

definition stored_type :: "paimon_type \<Rightarrow> paimon_type" where
  "stored_type raw = json_indent 3 (nested_document raw)"

definition stored_field :: "data_field \<Rightarrow> data_field" where
  "stored_field df = df\<lparr>df_Type := stored_type (df_Type df)\<rparr>"

lemma json_unmarshal_any_indent: "wf_json j \<Longrightarrow> json_unmarshal (json_indent d j) = Some j"
  using reads_asD [OF reads_as_indent [of j d], of "2 * length (json_indent d j) + 2" "[]"]
  by (simp add: json_unmarshal_def)

lemma dec_stored_field:
  assumes "field_trip df f'"
  shows "dec_data_field (json_indent 2 (the (enc_data_field df))) = Some (stored_field df)"
proof -
  from enc_field_trip [OF assms] obtain j where j: "enc_data_field df = Some (field_doc df j)" "wf_json (field_doc df j)"
    "dec_raw_field (field_doc df j) = Some \<lparr>rf_ID = df_ID df, rf_Name = df_Name df, rf_Type = Some j, rf_Description = df_Description df\<rparr>"
    "df_Type df = json_print j" "wf_json j" by blast
  have "raw_field ''type'' (json_indent 2 (field_doc df j)) = Some (json_indent 3 j)"
    using j(2) unfolding field_doc_def by (subst raw_field_indent) (simp_all add: key_simps numeral_3_eq_3)
  with j show ?thesis by (simp add: dec_data_field_def json_unmarshal_any_indent stored_field_def stored_type_def)
qed

lemma wf_strings [simp]: "list_all (\<lambda>kv. wf_json (snd kv)) (omit_strings k xs)"
  by (simp add: omit_strings_def list_all_iff)

lemma dec_omit_strings:
  "dec_strings (jfield k (omit_strings k xs)) = Some xs"
  "\<not> equalFold k k' \<Longrightarrow> jfield k' (omit_strings k xs) = None"
  by (simp_all add: omit_strings_def jfield_Cons equalFold_def)

lemma parse_stored_schema:
  assumes trip: "list_all2 field_trip (ts_Fields ts) fs'" and "in_int64 (ts_ID ts)" "in_int64 (ts_HighestFieldID ts)"
    and "ts_PrimaryKeys ts = []" "ts_Options ts = []"
  shows "\<exists>j. enc_table_schema ts = Some j \<and> wf_json j \<and>
    ParseTableSchemaJSON (marshal_indent j) = Inr (ts\<lparr>ts_Fields := map stored_field (ts_Fields ts)\<rparr>)"
proof -
  let ?docs = "map (\<lambda>f. the (enc_data_field f)) (ts_Fields ts)"
  have docs: "list_all (\<lambda>f. enc_data_field f \<noteq> None) (ts_Fields ts)" "list_all wf_json ?docs"
    "opt_all dec_data_field (map (json_indent 2) ?docs) = Some (map stored_field (ts_Fields ts))"
    using trip
  proof (induction rule: list_all2_induct)
    case (Cons df dfs f' fs')
    from enc_field_trip [OF Cons(1)] Cons.IH dec_stored_field [OF Cons(1)]
    show "list_all (\<lambda>f. enc_data_field f \<noteq> None) (df # dfs)" "list_all wf_json (map (\<lambda>f. the (enc_data_field f)) (df # dfs))"
      "opt_all dec_data_field (map (json_indent 2) (map (\<lambda>f. the (enc_data_field f)) (df # dfs))) = Some (map stored_field (df # dfs))"
      by auto
  qed simp_all
  define kvs where "kvs = [(''id'', jint (ts_ID ts)), (''fields'', enc_fields (ts_Fields ts)), (''highestFieldId'', jint (ts_HighestFieldID ts))] @
    omit_strings ''partitionKeys'' (ts_PartitionKeys ts)"
  have e: "enc_table_schema ts = Some (JObj kvs)"
    using docs(1) assms(4,5) by (simp add: enc_table_schema_def omit_strings_def omit_map_def kvs_def)
  have wf: "list_all (\<lambda>kv. wf_json (snd kv)) kvs" using docs(2) by (simp add: enc_fields_def kvs_def)
  then have wfj: "wf_json (JObj kvs)" by simp
  have k: "jfield ''id'' kvs = Some (jint (ts_ID ts))" "jfield ''fields'' kvs = Some (enc_fields (ts_Fields ts))"
    "jfield ''highestFieldId'' kvs = Some (jint (ts_HighestFieldID ts))"
    "jfield ''partitionKeys'' kvs = jfield ''partitionKeys'' (omit_strings ''partitionKeys'' (ts_PartitionKeys ts))"
    "jfield ''primaryKeys'' kvs = None" "jfield ''options'' kvs = None"
    by (simp_all add: kvs_def omit_strings_def key_simps)
  have l: "dec_list Some (Some (enc_fields (ts_Fields ts))) \<noteq> None"
  proof -
    have "opt_all Some xs = Some xs" for xs :: "json list" by (induction xs) auto
    then show ?thesis by (simp add: enc_fields_def)
  qed
  have r: "raw_field ''fields'' (marshal_indent (JObj kvs)) = Some (json_indent 1 (enc_fields (ts_Fields ts)))"
    unfolding marshal_indent_def raw_field_indent [OF wf] k by simp
  have a: "raw_array (json_indent 1 (enc_fields (ts_Fields ts))) = map (json_indent 2) ?docs"
  proof (cases "ts_Fields ts = []")
    case True
    then show ?thesis by (simp add: enc_fields_def raw_array_def is_jws_def)
  next
    case False
    then have "enc_fields (ts_Fields ts) = JArr ?docs" by (simp add: enc_fields_def)
    then show ?thesis using raw_array_indent [OF docs(2), of 1] by (simp only: numeral_2_eq_2 One_nat_def)
  qed
  from l obtain xs where l: "dec_list Some (Some (enc_fields (ts_Fields ts))) = Some xs" by blast
  have "ParseTableSchemaJSON (marshal_indent (JObj kvs)) = Inr (ts\<lparr>ts_Fields := map stored_field (ts_Fields ts)\<rparr>)"
    unfolding ParseTableSchemaJSON_def json_unmarshal_indent [OF wfj] r option.case a docs(3)
    using assms(2-5) by (simp add: k l dec_omit_strings)
  with e wfj show ?thesis by blast
qed

lemma take_field_id_counter: "in_int64 n \<Longrightarrow> pred_option in_int64 i \<Longrightarrow> in_int64 (snd (take_field_id i n))"
  by (cases i) (auto simp: take_field_id_def)

lemma thread_counter:
  "(\<And>f m. f \<in> set fs \<Longrightarrow> in_int64 m \<Longrightarrow> in_int64 (snd (g f m))) \<Longrightarrow> in_int64 n \<Longrightarrow> in_int64 (snd (thread g fs n))"
  by (induction fs arbitrary: n) (auto simp: split_def Let_def)

lemma form_counter: "paimon_ok s \<Longrightarrow> in_int64 n \<Longrightarrow> in_int64 (snd (paimon_form s n))"
proof (induction s arbitrary: n rule: paimon_ok.induct)
  case (1 s)
  show ?case
  proof (cases "DataType s")
    case TypeList
    with "1.prems"(1) obtain e where e: "Option.bind (ElementSchema s) FieldSchema = Some e" "paimon_ok e"
      by (simp add: paimon_ok.simps [of s] split: option.splits)
    with "1.IH"(2) [OF TypeList e "1.prems"(2)] TypeList show ?thesis by (simp add: paimon_form.simps [of s] split_def Let_def)
  next
    case TypeMap
    with "1.prems"(1) obtain k v where k: "Option.bind (KeySchema s) FieldSchema = Some k" "paimon_ok k"
      and v: "Option.bind (ValueSchema s) FieldSchema = Some v" "paimon_ok v"
      by (simp add: paimon_ok.simps [of s] split: option.splits)
    from "1.IH"(4) [OF TypeMap v "1.IH"(3) [OF TypeMap k "1.prems"(2)]] TypeMap k v show ?thesis
      by (simp add: paimon_form.simps [of s] split_def Let_def)
  next
    case TypeRecord
    have "in_int64 (snd (form_field f m))" if f: "f \<in> set (Fields s)" and m: "in_int64 m" for f m
    proof -
      from TypeRecord "1.prems"(1) f obtain t where t: "FieldSchema f = Some t" "paimon_ok t" "pred_option in_int64 (FieldID f)"
        by (auto simp: paimon_ok.simps [of s] list_all_iff split: option.splits)
      from "1.IH"(1) [OF TypeRecord f t(1,2) take_field_id_counter [OF m t(3)]] t show ?thesis
        by (simp add: form_field.simps split_def Let_def)
    qed
    with thread_counter [of "Fields s" form_field n] "1.prems"(2) TypeRecord show ?thesis
      by (simp add: paimon_form.simps [of s] split_def Let_def)
  qed (use "1.prems" in \<open>simp_all add: paimon_form.simps [of s]\<close>)
qed

lemma parse_stored_type:
  assumes "wf_json j"
  shows "parsePaimonType (json_print j) = parse_document (Some j)" "parsePaimonType (json_indent d j) = parse_document (Some j)"
proof -
  have t: "trimSpace s \<noteq> ''''" if s: "s \<noteq> ''''" "\<not> is_space (hd s)" for s
  proof -
    from s obtain c s' where c: "s = c # s'" "\<not> is_space c" by (cases s) auto
    have "c \<in> set (rev (dropWhile is_space (rev (c # s'))))"
      using c(2) by (simp add: dropWhile_append)
    with c show ?thesis by (auto simp: trimSpace_def)
  qed
  have sp: "is_space c \<Longrightarrow> is_jws c \<or> c = CHR 0x0B \<or> c = CHR 0x0C" for c
  proof -
    assume "is_space c"
    then have "(of_char c :: nat) = 32 \<or> (of_char c :: nat) = 9 \<or> (of_char c :: nat) = 10 \<or> (of_char c :: nat) = 11 \<or>
        (of_char c :: nat) = 12 \<or> (of_char c :: nat) = 13"
      by (simp add: is_space_def Let_def) arith
    then show ?thesis
      using of_char_nat_eq [of c "CHR '' ''"] of_char_nat_eq [of c "CHR 0x09"] of_char_nat_eq [of c "CHR 0x0A"]
        of_char_nat_eq [of c "CHR 0x0B"] of_char_nat_eq [of c "CHR 0x0C"] of_char_nat_eq [of c "CHR 0x0D"]
      by (simp add: is_jws_def) blast
  qed
  have h: "s \<noteq> '''' \<and> \<not> is_space (hd s)" if "reads_as s j" for s
  proof -
    from that have "s \<noteq> ''''" "\<not> is_jws (hd s)" by (auto simp: reads_as_def)
    moreover have "hd s \<noteq> CHR 0x0B \<and> hd s \<noteq> CHR 0x0C"
    proof -
      from reads_asD [OF that, of "Suc (2 * length s)" "[]"] obtain v where v: "json_value (Suc (2 * length s)) s = Some v" by auto
      obtain c s' where c: "s = c # s'" using \<open>s \<noteq> ''''\<close> by (cases s) auto
      have "json_number (CHR 0x0B # s') = None" "json_number (CHR 0x0C # s') = None"
        by (simp_all add: json_number_def num_int_def is_digit_def)
      with v c show ?thesis by (auto simp: is_jws_def)
    qed
    ultimately show ?thesis using sp by blast
  qed
  show "parsePaimonType (json_print j) = parse_document (Some j)"
    using t h reads_as_print [OF assms] assms by (simp add: parsePaimonType_def)
  show "parsePaimonType (json_indent d j) = parse_document (Some j)"
    using t h reads_as_indent [OF assms] assms by (simp add: parsePaimonType_def json_unmarshal_any_indent)
qed

lemma stored_fields_form:
  "list_all2 field_trip dfs fs' \<Longrightarrow> paimonFieldsToModelFields (map stored_field dfs) = Inr fs'"
proof (induction rule: list_all2_induct)
  case (Cons df dfs f' fs')
  from Cons(1) obtain j s where j: "df_Type df = json_print j" "wf_json j" "parse_document (Some j) = Inr s"
    "f' = paimon_field (df_ID df) (df_Name df) s (df_Description df)" by (auto simp: field_trip_def)
  then have "parsePaimonType (df_Type (stored_field df)) = Inr s"
    by (simp add: stored_field_def stored_type_def parse_stored_type(2))
  with Cons.IH j(4) show ?case by (simp add: paimonFieldsToModelFields_def stored_field_def)
qed (simp add: paimonFieldsToModelFields_def)

lemma root_trip:
  assumes "paimon_ok s" and "DataType s = TypeRecord"
  shows "\<exists>dfs. thread_res modelFieldToPaimonField (Fields s) 0 = Inr (dfs, snd (thread form_field (Fields s) 0)) \<and>
    list_all2 field_trip dfs (fst (thread form_field (Fields s) 0)) \<and> in_int64 (snd (thread form_field (Fields s) 0))"
proof -
  have "\<exists>t. FieldSchema f = Some t \<and> type_trip t \<and> pred_option in_int64 (FieldID f)" if "f \<in> set (Fields s)" for f
    using assms that paimon_ok_trip by (auto simp: paimon_ok.simps [of s] list_all_iff split: option.splits)
  moreover have "in_int64 (snd (thread form_field (Fields s) 0))"
    using form_counter [OF assms(1), of 0] assms(2) by (simp add: paimon_form.simps [of s] split_def Let_def in_int64_def)
  ultimately show ?thesis using thread_trip [of "Fields s" 0] by blast
qed

text \<open>
  C25. A schema written to a Paimon schema file reads back as its Paimon form: the conversion succeeds for every
  schema without enumeration, union and null columns, the file parses, keeps its identifier, the partition keys
  and the highest field identifier, and converting it back gives every column with its type, nullability, comment
  and identifier, nested rows, lists and maps included.
\<close>

theorem paimon_schema_roundtrip:
  assumes "paimon_ok s" and "DataType s = TypeRecord" and "in_int64 i"
  shows "\<exists>ts j ts'. SchemaToPaimon (Some s) keys = Inr ts \<and> enc_table_schema (ts\<lparr>ts_ID := i\<rparr>) = Some j \<and>
    ParseTableSchemaJSON (marshal_indent j) = Inr ts' \<and> ts_ID ts' = i \<and> ts_PartitionKeys ts' = keys \<and>
    ts_HighestFieldID ts' = snd (thread form_field (Fields s) 0) \<and>
    PaimonToSchema (Some ts') = Inr (NewRecordSchema ''paimon_table'' (fst (thread form_field (Fields s) 0)) False)"
proof -
  from root_trip [OF assms(1,2)] obtain dfs where dfs:
    "thread_res modelFieldToPaimonField (Fields s) 0 = Inr (dfs, snd (thread form_field (Fields s) 0))"
    "list_all2 field_trip dfs (fst (thread form_field (Fields s) 0))" "in_int64 (snd (thread form_field (Fields s) 0))" by blast
  let ?ts = "\<lparr>ts_ID = 0, ts_Fields = dfs, ts_HighestFieldID = snd (thread form_field (Fields s) 0), ts_PartitionKeys = keys,
    ts_PrimaryKeys = [], ts_Options = []\<rparr>"
  have ts: "SchemaToPaimon (Some s) keys = Inr ?ts" by (simp add: SchemaToPaimon_def dfs(1))
  from parse_stored_schema [of "?ts\<lparr>ts_ID := i\<rparr>"] dfs(2,3) assms(3) obtain j where
    "enc_table_schema (?ts\<lparr>ts_ID := i\<rparr>) = Some j"
    "ParseTableSchemaJSON (marshal_indent j) = Inr (?ts\<lparr>ts_ID := i, ts_Fields := map stored_field dfs\<rparr>)" by auto
  with ts stored_fields_form [OF dfs(2)] show ?thesis by (fastforce simp: PaimonToSchema_def)
qed

definition sample_paimon_schema :: schema where
  "sample_paimon_schema =
     NewRecordSchema ''t''
       [mkField ''id'' (Some (NewPrimitiveSchema TypeLong False)),
        mkField ''at'' (Some (set_metadata TimestampPrecision (AMeta MetadataValueMillis) (NewPrimitiveSchema TypeTimestamp True))),
        mkField ''price'' (Some (NewDecimalSchema 12 2 False)),
        mkField ''tags'' (Some (list_schema (NewRecordSchema ''e'' [mkField ''k'' (Some (NewPrimitiveSchema TypeUUID True))] True) True))] False"

lemma sample_paimon_ok: "paimon_ok sample_paimon_schema" "DataType sample_paimon_schema = TypeRecord"
  by (simp_all add: sample_paimon_schema_def paimon_ok.simps NewRecordSchema_def NewPrimitiveSchema_def NewDecimalSchema_def
      list_schema_def set_metadata_def decimal_precision_def decimal_scale_def)

theorem paimon_schema_roundtrip_witness:
  "\<exists>ts j ts'. SchemaToPaimon (Some sample_paimon_schema) [''id''] = Inr ts \<and> enc_table_schema (ts\<lparr>ts_ID := 3\<rparr>) = Some j \<and>
    ParseTableSchemaJSON (marshal_indent j) = Inr ts' \<and> ts_ID ts' = 3 \<and> ts_PartitionKeys ts' = [''id''] \<and>
    PaimonToSchema (Some ts') = Inr (NewRecordSchema ''paimon_table'' (fst (thread form_field (Fields sample_paimon_schema) 0)) False)"
  using paimon_schema_roundtrip [OF sample_paimon_ok, of 3 "[''id'']"] by (fastforce simp: in_int64_def)

section \<open>Field identifiers\<close>

text \<open>The identifiers of a schema tree in the order the conversion meets its fields.\<close>

function field_ids :: "schema \<Rightarrow> int list" where
  "field_ids s =
     (case DataType s of
        TypeRecord \<Rightarrow>
          concat (map (\<lambda>f. (case FieldID f of None \<Rightarrow> [] | Some i \<Rightarrow> [i]) @
            (case FieldSchema f of None \<Rightarrow> [] | Some t \<Rightarrow> field_ids t)) (Fields s))
      | TypeList \<Rightarrow> (case Option.bind (ElementSchema s) FieldSchema of None \<Rightarrow> [] | Some e \<Rightarrow> field_ids e)
      | TypeMap \<Rightarrow>
          (case Option.bind (KeySchema s) FieldSchema of None \<Rightarrow> [] | Some k \<Rightarrow> field_ids k) @
          (case Option.bind (ValueSchema s) FieldSchema of None \<Rightarrow> [] | Some v \<Rightarrow> field_ids v)
      | _ \<Rightarrow> [])"
  by pat_completeness auto
termination
  by (relation "measure size") (auto intro: size_child_field size_child_ptr simp: bind_eq_Some_conv)

declare field_ids.simps [simp del]

lemma field_ids_simps [simp]:
  "field_ids (NewPrimitiveSchema t n) = (if t = TypeRecord \<or> t = TypeList \<or> t = TypeMap then field_ids (NewPrimitiveSchema t n) else [])"
  "field_ids (NewDecimalSchema p sc n) = []" "field_ids (list_schema e n) = field_ids e"
  "field_ids (map_schema k v n) = field_ids k @ field_ids v"
  "field_ids (timestamp_form TypeTimestamp s) = []" "field_ids (timestamp_form TypeTimestampNTZ s) = []"
  by (auto simp: field_ids.simps NewPrimitiveSchema_def NewDecimalSchema_def list_schema_def map_schema_def timestamp_form_def
      set_metadata_def split: dtype.splits)

lemma field_ids_set_comment [simp]: "field_ids (set_comment c s) = field_ids s"
proof -
  have "Fields (set_comment c s) = Fields s" "ElementSchema (set_comment c s) = ElementSchema s" "KeySchema (set_comment c s) = KeySchema s"
    "ValueSchema (set_comment c s) = ValueSchema s" "DataType (set_comment c s) = DataType s"
    by (simp_all add: set_comment_def)
  then show ?thesis by (simp only: field_ids.simps [of "set_comment c s"] field_ids.simps [of s])
qed

lemma field_ids_record [simp]:
  "field_ids (NewRecordSchema nm fs n) = concat (map (\<lambda>f. (case FieldID f of None \<Rightarrow> [] | Some i \<Rightarrow> [i]) @
      (case FieldSchema f of None \<Rightarrow> [] | Some t \<Rightarrow> field_ids t)) fs)"
  by (simp add: field_ids.simps NewRecordSchema_def)

text \<open>The number of fields of a schema tree, the elements of lists and maps not counted.\<close>

function row_fields_below :: "schema \<Rightarrow> nat" where
  "row_fields_below s =
     (case DataType s of
        TypeRecord \<Rightarrow> sum_list (map (\<lambda>f. Suc (case FieldSchema f of None \<Rightarrow> 0 | Some t \<Rightarrow> row_fields_below t)) (Fields s))
      | TypeList \<Rightarrow> (case Option.bind (ElementSchema s) FieldSchema of None \<Rightarrow> 0 | Some e \<Rightarrow> row_fields_below e)
      | TypeMap \<Rightarrow>
          (case Option.bind (KeySchema s) FieldSchema of None \<Rightarrow> 0 | Some k \<Rightarrow> row_fields_below k) +
          (case Option.bind (ValueSchema s) FieldSchema of None \<Rightarrow> 0 | Some v \<Rightarrow> row_fields_below v)
      | _ \<Rightarrow> 0)"
  by pat_completeness auto
termination
  by (relation "measure size") (auto intro: size_child_field size_child_ptr simp: bind_eq_Some_conv)

declare row_fields_below.simps [simp del]

text \<open>Fresh identifiers: the next ones, in order, one per field.\<close>

definition numbered :: "int \<Rightarrow> nat \<Rightarrow> int list" where
  "numbered n k = map (\<lambda>i. n + int i) [1..<Suc k]"

lemma numbered_add: "numbered n (a + b) = numbered n a @ numbered (n + int a) b"
proof -
  have "map (\<lambda>i. n + int i) [Suc a..<Suc (a + b)] = map (\<lambda>i. n + int a + int i) [1..<Suc b]"
    by (rule nth_equalityI) (simp_all del: upt_Suc)
  then show ?thesis
    using upt_add_eq_append [of 1 "Suc a" b] by (simp add: numbered_def del: upt_Suc)
qed

definition fresh_form :: "schema \<Rightarrow> bool" where
  "fresh_form s \<longleftrightarrow> (\<forall>n. 0 \<le> n \<longrightarrow> n + int (row_fields_below s) \<le> max_int64 \<longrightarrow>
     snd (paimon_form s n) = n + int (row_fields_below s) \<and> field_ids (fst (paimon_form s n)) = numbered n (row_fields_below s))"

lemma numbered_Suc: "numbered n (Suc k) = (n + 1) # numbered (n + 1) k"
  using numbered_add [of n 1 k] by (simp add: numbered_def)

lemma numbered_0 [simp]: "numbered n 0 = []"
  by (simp add: numbered_def)

text \<open>No field of the tree has an identifier yet.\<close>

function unnumbered :: "schema \<Rightarrow> bool" where
  "unnumbered s =
     (case DataType s of
        TypeRecord \<Rightarrow> list_all (\<lambda>f. FieldID f = None \<and> (case FieldSchema f of None \<Rightarrow> True | Some t \<Rightarrow> unnumbered t)) (Fields s)
      | TypeList \<Rightarrow> (case Option.bind (ElementSchema s) FieldSchema of None \<Rightarrow> True | Some e \<Rightarrow> unnumbered e)
      | TypeMap \<Rightarrow>
          (case Option.bind (KeySchema s) FieldSchema of None \<Rightarrow> True | Some k \<Rightarrow> unnumbered k) \<and>
          (case Option.bind (ValueSchema s) FieldSchema of None \<Rightarrow> True | Some v \<Rightarrow> unnumbered v)
      | _ \<Rightarrow> True)"
  by pat_completeness auto
termination
  by (relation "measure size") (auto intro: size_child_field size_child_ptr simp: bind_eq_Some_conv)

declare unnumbered.simps [simp del]

definition fields_below :: "field list \<Rightarrow> nat" where
  "fields_below fs = sum_list (map (\<lambda>f. Suc (case FieldSchema f of None \<Rightarrow> 0 | Some t \<Rightarrow> row_fields_below t)) fs)"

definition ids_of :: "field list \<Rightarrow> int list" where
  "ids_of fs = concat (map (\<lambda>f. (case FieldID f of None \<Rightarrow> [] | Some i \<Rightarrow> [i]) @
      (case FieldSchema f of None \<Rightarrow> [] | Some t \<Rightarrow> field_ids t)) fs)"

lemma fresh_field:
  assumes "FieldID f = None" and "FieldSchema f = Some t" and "fresh_form t"
    and "0 \<le> n" "n + 1 + int (row_fields_below t) \<le> max_int64"
  shows "snd (form_field f n) = n + 1 + int (row_fields_below t) \<and>
    ids_of [fst (form_field f n)] = numbered n (Suc (row_fields_below t))"
proof -
  have w: "wrap64 (n + 1) = n + 1" using assms(4,5) by (simp add: in_int64_def)
  from assms(3)[unfolded fresh_form_def, rule_format, of "n + 1"] assms(4,5)
  have t: "snd (paimon_form t (n + 1)) = n + 1 + int (row_fields_below t)"
    "field_ids (fst (paimon_form t (n + 1))) = numbered (n + 1) (row_fields_below t)" by simp_all
  show ?thesis
    using t assms(1,2)
    by (simp add: form_field.simps take_field_id_def w split_def Let_def ids_of_def paimon_field_def numbered_Suc)
qed

lemma fresh_fields:
  assumes "\<And>f. f \<in> set fs \<Longrightarrow> FieldID f = None \<and> (\<exists>t. FieldSchema f = Some t \<and> fresh_form t)"
    and "0 \<le> n" "n + int (fields_below fs) \<le> max_int64"
  shows "snd (thread form_field fs n) = n + int (fields_below fs) \<and>
    ids_of (fst (thread form_field fs n)) = numbered n (fields_below fs)"
  using assms
proof (induction fs arbitrary: n)
  case Nil
  then show ?case by (simp add: fields_below_def ids_of_def)
next
  case (Cons f fs)
  from Cons.prems(1) [of f] obtain t where t: "FieldID f = None" "FieldSchema f = Some t" "fresh_form t" by auto
  let ?k = "Suc (row_fields_below t)"
  have b: "fields_below (f # fs) = ?k + fields_below fs" using t(2) by (simp add: fields_below_def)
  have f: "snd (form_field f n) = n + int ?k" "ids_of [fst (form_field f n)] = numbered n ?k"
    using fresh_field [OF t Cons.prems(2)] Cons.prems(3) b by simp_all
  have r: "snd (thread form_field fs (n + int ?k)) = n + int ?k + int (fields_below fs)"
    "ids_of (fst (thread form_field fs (n + int ?k))) = numbered (n + int ?k) (fields_below fs)"
    using Cons.IH [of "n + int ?k"] Cons.prems b by auto
  have "ids_of (fst (thread form_field (f # fs) n)) = ids_of [fst (form_field f n)] @ ids_of (fst (thread form_field fs (snd (form_field f n))))"
    by (simp add: ids_of_def split_def Let_def)
  moreover have "snd (thread form_field (f # fs) n) = snd (thread form_field fs (snd (form_field f n)))"
    by (simp add: split_def Let_def)
  ultimately show ?case using f r unfolding b numbered_add by simp
qed

lemma row_fields_record: "DataType s = TypeRecord \<Longrightarrow> row_fields_below s = fields_below (Fields s)"
  by (simp add: row_fields_below.simps [of s] fields_below_def)

lemma form_record:
  "DataType s = TypeRecord \<Longrightarrow> snd (paimon_form s n) = snd (thread form_field (Fields s) n) \<and>
    field_ids (fst (paimon_form s n)) = ids_of (fst (thread form_field (Fields s) n))"
  by (simp add: paimon_form.simps [of s] split_def Let_def ids_of_def)

lemma fresh_forms: "paimon_ok s \<Longrightarrow> unnumbered s \<Longrightarrow> fresh_form s"
proof (induction s rule: paimon_ok.induct)
  case (1 s)
  show ?case
  proof (cases "DataType s")
    case TypeList
    with "1.prems" obtain e where e: "Option.bind (ElementSchema s) FieldSchema = Some e" "paimon_ok e" "unnumbered e"
      by (simp add: paimon_ok.simps [of s] unnumbered.simps [of s] split: option.splits)
    from "1.IH"(2) [OF TypeList e] TypeList e(1) show ?thesis
      by (simp add: fresh_form_def paimon_form.simps [of s] row_fields_below.simps [of s] split_def Let_def)
  next
    case TypeMap
    with "1.prems" obtain k v where k: "Option.bind (KeySchema s) FieldSchema = Some k" "paimon_ok k" "unnumbered k"
      and v: "Option.bind (ValueSchema s) FieldSchema = Some v" "paimon_ok v" "unnumbered v"
      by (simp add: paimon_ok.simps [of s] unnumbered.simps [of s] split: option.splits)
    show ?thesis
      unfolding fresh_form_def
    proof (intro allI impI)
      fix n assume n: "0 \<le> n" "n + int (row_fields_below s) \<le> max_int64"
      have b: "row_fields_below s = row_fields_below k + row_fields_below v"
        using TypeMap k(1) v(1) by (simp add: row_fields_below.simps [of s])
      from "1.IH"(3) [OF TypeMap k, unfolded fresh_form_def, rule_format, of n]
        "1.IH"(4) [OF TypeMap v, unfolded fresh_form_def, rule_format, of "n + int (row_fields_below k)"] n b
      show "snd (paimon_form s n) = n + int (row_fields_below s) \<and> field_ids (fst (paimon_form s n)) = numbered n (row_fields_below s)"
        using TypeMap k(1) v(1) by (simp add: paimon_form.simps [of s] split_def Let_def numbered_add)
    qed
  next
    case TypeRecord
    have "FieldID f = None \<and> (\<exists>t. FieldSchema f = Some t \<and> fresh_form t)" if f: "f \<in> set (Fields s)" for f
    proof -
      from TypeRecord "1.prems" f obtain t where t: "FieldSchema f = Some t" "paimon_ok t" "unnumbered t" "FieldID f = None"
        by (auto simp: paimon_ok.simps [of s] unnumbered.simps [of s] list_all_iff split: option.splits)
      from "1.IH"(1) [OF TypeRecord f t(1-3)] t show ?thesis by blast
    qed
    from fresh_fields [OF this] show ?thesis
      by (auto simp: fresh_form_def form_record [OF TypeRecord] row_fields_record [OF TypeRecord])
  qed (use "1.prems" in \<open>simp_all add: fresh_form_def paimon_form.simps [of s] row_fields_below.simps [of s]\<close>)
qed

lemma paimon_fresh_ids:
  assumes "paimon_ok s" and "unnumbered s" and "DataType s = TypeRecord" and "int (row_fields_below s) \<le> max_int64"
  shows "\<exists>ts m. SchemaToPaimon (Some s) keys = Inr ts \<and> PaimonToSchema (Some ts) = Inr m \<and>
      field_ids m = map int [1..<Suc (row_fields_below s)] \<and> distinct (field_ids m) \<and>
      ts_HighestFieldID ts = int (row_fields_below s)"
proof -
  from root_trip [OF assms(1,3)] obtain dfs where dfs:
    "thread_res modelFieldToPaimonField (Fields s) 0 = Inr (dfs, snd (thread form_field (Fields s) 0))"
    "list_all2 field_trip dfs (fst (thread form_field (Fields s) 0))" by blast
  have "paimonFieldsToModelFields dfs = Inr (fst (thread form_field (Fields s) 0))"
    using dfs(2)
  proof (induction rule: list_all2_induct)
    case (Cons df dfs f' fs')
    from Cons(1) obtain j s where "df_Type df = json_print j" "wf_json j" "parse_document (Some j) = Inr s"
      "f' = paimon_field (df_ID df) (df_Name df) s (df_Description df)" by (auto simp: field_trip_def)
    with Cons.IH parse_stored_type(1) show ?case by (simp add: paimonFieldsToModelFields_def)
  qed (simp add: paimonFieldsToModelFields_def)
  then have m: "PaimonToSchema (Some \<lparr>ts_ID = 0, ts_Fields = dfs, ts_HighestFieldID = snd (thread form_field (Fields s) 0),
      ts_PartitionKeys = keys, ts_PrimaryKeys = [], ts_Options = []\<rparr>) =
      Inr (NewRecordSchema ''paimon_table'' (fst (thread form_field (Fields s) 0)) False)" by (simp add: PaimonToSchema_def)
  from fresh_forms [OF assms(1,2), unfolded fresh_form_def, rule_format, of 0] assms(4)
  have f: "snd (thread form_field (Fields s) 0) = int (row_fields_below s)"
    "ids_of (fst (thread form_field (Fields s) 0)) = numbered 0 (row_fields_below s)"
    by (simp_all add: form_record [OF assms(3)])
  have "field_ids (NewRecordSchema ''paimon_table'' (fst (thread form_field (Fields s) 0)) False) = map int [1..<Suc (row_fields_below s)]"
    using f(2) by (simp add: ids_of_def numbered_def del: upt_Suc)
  moreover have "distinct (map int [1..<Suc k])" for k by (simp add: distinct_map del: upt_Suc)
  ultimately show "\<exists>ts m. SchemaToPaimon (Some s) keys = Inr ts \<and> PaimonToSchema (Some ts) = Inr m \<and>
      field_ids m = map int [1..<Suc (row_fields_below s)] \<and> distinct (field_ids m) \<and>
      ts_HighestFieldID ts = int (row_fields_below s)"
    using m f(1) by (simp add: SchemaToPaimon_def dfs(1) del: upt_Suc field_ids_record)
qed

lemma paimon_mixed_ids:
  "\<exists>ts. SchemaToPaimon (Some (NewRecordSchema ''t'' [Field a '''' (Some (NewPrimitiveSchema TypeInt True)) None ANil,
        Field b '''' (Some (NewPrimitiveSchema TypeInt True)) (Some 1) ANil] False)) keys = Inr ts \<and>
      map df_ID (ts_Fields ts) = [1, 1]"
  by (simp add: SchemaToPaimon_def NewRecordSchema_def NewPrimitiveSchema_def modelFieldToPaimonField.simps
        modelTypeToPaimonType.simps(2) take_field_id_def wrap64_def)

text \<open>
  C36. The field identifiers of a written schema: when the canonical schema carries none, every field of the tree,
  nested rows inside lists and maps included, gets its own, 1 to the highest identifier the file records, in the
  order of the conversion. When only some fields carry one, an assigned identifier can collide: a field without
  identifier followed by a field with identifier 1 gives both the identifier 1.
\<close>

theorem paimon_field_ids:
  assumes "paimon_ok s" and "unnumbered s" and "DataType s = TypeRecord" and "int (row_fields_below s) \<le> max_int64"
  shows "(\<exists>ts m. SchemaToPaimon (Some s) keys = Inr ts \<and> PaimonToSchema (Some ts) = Inr m \<and>
      field_ids m = map int [1..<Suc (row_fields_below s)] \<and> distinct (field_ids m) \<and>
      ts_HighestFieldID ts = int (row_fields_below s)) \<and>
    (\<exists>ts. SchemaToPaimon (Some (NewRecordSchema ''t'' [Field a '''' (Some (NewPrimitiveSchema TypeInt True)) None ANil,
        Field b '''' (Some (NewPrimitiveSchema TypeInt True)) (Some 1) ANil] False)) keys = Inr ts \<and>
      map df_ID (ts_Fields ts) = [1, 1])"
  using paimon_fresh_ids [OF assms] paimon_mixed_ids by blast

lemma sample_paimon_unnumbered: "unnumbered sample_paimon_schema" "row_fields_below sample_paimon_schema = 5"
  by (simp_all add: sample_paimon_schema_def unnumbered.simps row_fields_below.simps NewRecordSchema_def NewPrimitiveSchema_def
      NewDecimalSchema_def list_schema_def set_metadata_def)

theorem paimon_field_ids_witness:
  "\<exists>ts m. SchemaToPaimon (Some sample_paimon_schema) [] = Inr ts \<and> PaimonToSchema (Some ts) = Inr m \<and>
    field_ids m = [1, 2, 3, 4, 5] \<and> ts_HighestFieldID ts = 5"
  using paimon_field_ids [OF sample_paimon_ok(1) sample_paimon_unnumbered(1) sample_paimon_ok(2), where keys = "[]" and a = "''a''" and b = "''b''"]
  by (auto simp: sample_paimon_unnumbered(2) upt_rec)

section \<open>Which schemas a file keeps byte by byte\<close>

text \<open>An atomic type is stored as it is written; a nested one is indented, which its written text is not.\<close>

definition all_atomic :: "schema \<Rightarrow> bool" where
  "all_atomic s \<longleftrightarrow> list_all (\<lambda>f. case FieldSchema f of None \<Rightarrow> True | Some t \<Rightarrow> DataType t \<notin> {TypeRecord, TypeList, TypeMap}) (Fields s)"

lemma stored_string: "stored_type (json_print (JStr x)) = json_print (JStr x)"
  using nested_document_print [of "JStr x"] by (simp add: stored_type_def)

lemma stored_object: "wf_json (JObj (kv # kvs)) \<Longrightarrow> stored_type (json_print (JObj (kv # kvs))) \<noteq> json_print (JObj (kv # kvs))"
proof -
  assume wf: "wf_json (JObj (kv # kvs))"
  have "CHR 0x0A \<notin> set (json_print (JObj (kv # kvs)))"
    using json_print_printable [OF wf, of "CHR 0x0A"] by (auto simp: printable_def)
  moreover have "CHR 0x0A \<in> set (json_indent 3 (JObj (kv # kvs)))" by (simp add: newline_def)
  ultimately show ?thesis using nested_document_print [OF wf] unfolding stored_type_def by metis
qed

lemma written_type_shape:
  assumes "modelTypeToPaimonType (Some s) n = Inr (raw, n')"
  shows "(\<exists>x. raw = json_print (JStr x)) \<and> DataType s \<notin> {TypeRecord, TypeList, TypeMap} \<or>
    (\<exists>kv kvs. raw = json_print (JObj (kv # kvs))) \<and> DataType s \<in> {TypeRecord, TypeList, TypeMap}"
  using assms
  by (cases "DataType s")
    (auto simp: modelTypeToPaimonType.simps(2) [of s] atomicPaimonType_def arrayPaimonType_def mapPaimonType_def rowPaimonType_def
      split_def Let_def split: option.splits sum.splits simp del: json_print.simps)

lemma print_object_shape:
  assumes "wf_json j" and "json_print j = json_print (JObj (kv # kvs))"
  shows "\<exists>kv' kvs'. j = JObj (kv' # kvs')"
proof -
  have "\<exists>t. json_print (JObj (kv # kvs)) = CHR ''{'' # CHR 0x22 # t"
    by (cases "kvs = []") (simp_all add: json_quote_def joinWith_Cons)
  with assms(2) obtain t where t: "json_print j = CHR ''{'' # CHR 0x22 # t" by auto
  show ?thesis
  proof (cases j)
    case (JObj kvs')
    with t show ?thesis by (cases kvs') auto
  next
    case (JNum l)
    with assms(1) obtain c l' where "l = c # l'" "is_digit c \<or> c = CHR ''-''" by (auto elim: wf_num_hd)
    with t JNum show ?thesis by (auto simp: is_digit_def)
  next
    case (JBool b)
    with t show ?thesis by (cases b) simp_all
  qed (use t in \<open>simp_all add: json_quote_def\<close>)
qed

lemma written_field_stored:
  assumes "modelFieldToPaimonField f n = Inr (df, n')" and "field_trip df f'"
  shows "stored_field df = df \<longleftrightarrow> (case FieldSchema f of None \<Rightarrow> True | Some t \<Rightarrow> DataType t \<notin> {TypeRecord, TypeList, TypeMap})"
proof -
  from assms(1) obtain s m where s: "FieldSchema f = Some s" "modelTypeToPaimonType (Some s) m = Inr (df_Type df, n')"
    by (cases "FieldSchema f") (auto simp: modelFieldToPaimonField.simps split_def Let_def split: sum.splits)
  from assms(2) obtain j where j: "df_Type df = json_print j" "wf_json j" by (auto simp: field_trip_def)
  have eq: "stored_field df = df \<longleftrightarrow> stored_type (df_Type df) = df_Type df" by (cases df) (simp add: stored_field_def)
  from written_type_shape [OF s(2)] show ?thesis
  proof (elim disjE conjE exE)
    fix x assume "df_Type df = json_print (JStr x)" "DataType s \<notin> {TypeRecord, TypeList, TypeMap}"
    then show ?thesis using eq s(1) stored_string [of x] by simp
  next
    fix kv kvs assume o': "df_Type df = json_print (JObj (kv # kvs))" "DataType s \<in> {TypeRecord, TypeList, TypeMap}"
    with j print_object_shape [OF j(2)] obtain kv' kvs' where "j = JObj (kv' # kvs')" by metis
    with o' j stored_object [of kv' kvs'] show ?thesis using eq s(1) by simp
  qed
qed

end
