(* ===== verification/Paimon_Readback.thy ===== *)
theory Paimon_Readback
  imports Paimon_Target Paimon_Roundtrip Parquet_Target Hudi_Commit
begin

text \<open>
  What the Paimon source reads back from the commits of the Paimon target: the codecs of the snapshot and manifest
  files, the files a commit leaves, the live files of a replay, and the schema files of successive commits.
\<close>

section \<open>Files of a snapshot and of a manifest\<close>

definition snapshot_ok :: "paimon_snapshot \<Rightarrow> bool" where
  "snapshot_ok s \<longleftrightarrow>
     in_int64 (sn_Version s) \<and> in_int64 (sn_ID s) \<and> in_int64 (sn_SchemaID s) \<and> in_int64 (sn_CommitIdentifier s) \<and>
     in_int64 (sn_TimeMillis s) \<and> pred_option in_int64 (sn_TotalRecordCount s) \<and> pred_option in_int64 (sn_DeltaRecordCount s) \<and>
     sn_ChangelogRecordCount s = None \<and> sn_LogOffset s = [] \<and> wf_map (sn_Properties s)"

definition canon_snapshot :: "paimon_snapshot \<Rightarrow> paimon_snapshot" where
  "canon_snapshot s = s\<lparr>sn_Properties := sort_key fst (sn_Properties s)\<rparr>"

definition canon_entry :: "manifest_entry \<Rightarrow> manifest_entry" where
  "canon_entry e = e\<lparr>me_Partition := sort_key fst (me_Partition e),
     me_File := (me_File e)\<lparr>fm_Partition := sort_key fst (fm_Partition (me_File e))\<rparr>\<rparr>"

definition entry_ok :: "manifest_entry \<Rightarrow> bool" where
  "entry_ok e \<longleftrightarrow>
     in_int64 (me_Kind e) \<and> in_int64 (me_Bucket e) \<and> in_int64 (me_TotalBuckets e) \<and> wf_map (me_Partition e) \<and>
     in_int64 (fm_FileSize (me_File e)) \<and> in_int64 (fm_RowCount (me_File e)) \<and> in_int64 (fm_SchemaID (me_File e)) \<and>
     in_int64 (fm_Level (me_File e)) \<and> in_int64 (fm_CreationTime (me_File e)) \<and> wf_map (fm_Partition (me_File e))"

definition meta_ok :: "manifest_file_meta \<Rightarrow> bool" where
  "meta_ok m \<longleftrightarrow> in_int64 (mm_FileSize m) \<and> in_int64 (mm_NumAddedFiles m) \<and> in_int64 (mm_NumDeletedFiles m) \<and> in_int64 (mm_SchemaID m)"

lemma dec_omitted [simp]:
  "dec_string (if s \<noteq> '''' then Some (JStr s) else None) = Some s"
  "in_int64 i \<Longrightarrow> dec_int (if i \<noteq> 0 then Some (jint i) else None) = Some i"
  "wf_map m \<Longrightarrow> dec_smap (if m \<noteq> [] then Some (enc_map JStr m) else None) = Some (sort_key fst m)"
  "pred_option in_int64 p \<Longrightarrow> dec_int_ptr (case p of None \<Rightarrow> None | Some x \<Rightarrow> Some (jint x)) = Some p"
  by (auto split: option.splits)

lemma or_else_None [simp]: "(case x of None \<Rightarrow> None | Some y \<Rightarrow> Some y) = x"
  by (cases x) auto

lemma dec_enc_snapshot: "snapshot_ok s \<Longrightarrow> dec_paimon_snapshot (enc_paimon_snapshot s) = Some (canon_snapshot s)"
  by (cases s)
    (simp add: snapshot_ok_def enc_paimon_snapshot_def dec_paimon_snapshot_def canon_snapshot_def key_simps cong: option.case_cong)

lemma wf_enc_snapshot: "wf_json (enc_paimon_snapshot s)"
  by (simp add: enc_paimon_snapshot_def pred_option_def)

lemma dec_enc_entry: "entry_ok e \<Longrightarrow> dec_manifest_entry (enc_manifest_entry e) = Some (canon_entry e)"
  by (simp add: entry_ok_def enc_manifest_entry_def dec_manifest_entry_def enc_file_meta_def dec_file_meta_def canon_entry_def key_simps
      cong: option.case_cong)

lemma wf_enc_entry: "wf_json (enc_manifest_entry e)"
  by (simp add: enc_manifest_entry_def enc_file_meta_def)

lemma dec_enc_meta: "meta_ok m \<Longrightarrow> dec_manifest_meta (enc_manifest_meta m) = Some m"
  by (simp add: meta_ok_def enc_manifest_meta_def dec_manifest_meta_def key_simps)

lemma wf_enc_meta: "wf_json (enc_manifest_meta m)"
  by (simp add: enc_manifest_meta_def)

lemma parse_written_snapshot: "snapshot_ok s \<Longrightarrow> ParseSnapshotJSON (marshal_indent (enc_paimon_snapshot s)) = Inr (canon_snapshot s)"
  by (simp add: ParseSnapshotJSON_def parsed_def wf_enc_snapshot dec_enc_snapshot)

lemma parse_written_manifest:
  assumes "list_all entry_ok es"
  shows "ParseManifestFileJSON (marshal_indent (enc_manifest_file es)) = Inr (map canon_entry es)"
proof -
  have "wf_json (enc_manifest_file es)" by (simp add: enc_manifest_file_def list_all_iff wf_enc_entry)
  moreover have "opt_all dec_manifest_entry (map enc_manifest_entry es) = Some (map canon_entry es)"
    using assms by (intro opt_all_map) (auto simp: list_all_iff dec_enc_entry)
  ultimately show ?thesis
    by (simp add: ParseManifestFileJSON_def parsed_def dec_manifest_file_def enc_manifest_file_def key_simps)
qed

lemma parse_written_list:
  assumes "list_all meta_ok ms"
  shows "ParseManifestListJSON (marshal_indent (enc_manifest_list ms)) = Inr ms"
proof -
  have "wf_json (enc_manifest_list ms)" by (simp add: enc_manifest_list_def list_all_iff wf_enc_meta)
  moreover have "opt_all dec_manifest_meta (map enc_manifest_meta ms) = Some ms"
    using assms by (intro opt_all_map_id) (auto simp: list_all_iff dec_enc_meta)
  ultimately show ?thesis
    by (simp add: ParseManifestListJSON_def parsed_def dec_manifest_list_def enc_manifest_list_def key_simps)
qed

section \<open>Paths of a table\<close>

lemma table_root:
  assumes "table_base base"
  obtains root where "\<And>d. proper_seg d \<Longrightarrow> JoinPath base [d] = root @ ''/'' @ d"
    "\<And>d n. proper_seg d \<Longrightarrow> proper_seg n \<Longrightarrow> JoinPath (JoinPath base [d]) [n] = root @ ''/'' @ d @ ''/'' @ n"
proof -
  obtain pre bs where b: "base_prefix pre" "bs \<noteq> []" "list_all proper_seg bs" "base = base_path pre bs"
    using assms by (auto simp: table_base_def)
  have one: "JoinPath base [d] = base_path pre (bs @ [d])" if "proper_seg d" for d
    using JoinPath_base [OF b(1-3), of "[d]"] that by (simp add: b(4))
  have two: "JoinPath (JoinPath base [d]) [n] = base_path pre (bs @ [d, n])" if "proper_seg d" "proper_seg n" for d n
    using JoinPath_base [OF b(1), of "bs @ [d]" "[n]"] that b(2,3) by (simp add: one [OF that(1)])
  show ?thesis
  proof (rule that [of base])
    show "JoinPath base [d] = base @ ''/'' @ d" if "proper_seg d" for d
      unfolding one [OF that] using b by (simp add: base_path_def joinWith_append)
    show "JoinPath (JoinPath base [d]) [n] = base @ ''/'' @ d @ ''/'' @ n" if "proper_seg d" "proper_seg n" for d n
      unfolding two [OF that] using b by (simp add: base_path_def joinWith_append)
  qed
qed

definition meta_path :: "string \<Rightarrow> string \<Rightarrow> string \<Rightarrow> string" where
  "meta_path base dir name = JoinPath (JoinPath base [dir]) [name]"

lemma split_slash: "CHR ''/'' \<notin> set d \<Longrightarrow> CHR ''/'' \<notin> set d' \<Longrightarrow> d @ CHR ''/'' # n = d' @ CHR ''/'' # n' \<longleftrightarrow> d = d' \<and> n = n'"
proof -
  assume "CHR ''/'' \<notin> set d" "CHR ''/'' \<notin> set d'"
  then have "takeWhile (\<lambda>c. c \<noteq> CHR ''/'') (d @ CHR ''/'' # n) = d" "takeWhile (\<lambda>c. c \<noteq> CHR ''/'') (d' @ CHR ''/'' # n') = d'"
    by (auto simp: takeWhile_append)
  then show ?thesis by (metis append_same_eq same_append_eq list.inject)
qed

lemma meta_path_inj:
  "table_base base \<Longrightarrow> proper_seg d \<Longrightarrow> proper_seg n \<Longrightarrow> proper_seg d' \<Longrightarrow> proper_seg n' \<Longrightarrow>
    meta_path base d n = meta_path base d' n' \<longleftrightarrow> d = d' \<and> n = n'"
  by (erule table_root) (auto simp: meta_path_def proper_seg_def split_slash)

lemma meta_path_prefix:
  "table_base base \<Longrightarrow> proper_seg d \<Longrightarrow> proper_seg n \<Longrightarrow> proper_seg d' \<Longrightarrow>
    hasPrefix (meta_path base d n) (JoinPath base [d']) = hasPrefix (d @ ''/'' @ n) d'"
  by (erule table_root) (simp add: meta_path_def hasPrefix_def)

lemma meta_path_Base: "table_base base \<Longrightarrow> proper_seg d \<Longrightarrow> proper_seg n \<Longrightarrow> filepath_Base (meta_path base d n) = n"
proof (erule table_root)
  fix root assume "proper_seg d" "proper_seg n"
    and "\<And>d n. proper_seg d \<Longrightarrow> proper_seg n \<Longrightarrow> JoinPath (JoinPath base [d]) [n] = root @ ''/'' @ d @ ''/'' @ n"
  then show "filepath_Base (meta_path base d n) = n"
    using filepath_Base_append [of n "root @ ''/'' @ d"] by (simp add: meta_path_def proper_seg_def)
qed

section \<open>One commit\<close>

definition ready :: "paimon_target \<Rightarrow> bool" where
  "ready t \<longleftrightarrow> table_base (pmt_basePath t) \<and> pmt_sourceBase t = Some (pmt_basePath t) \<and> mem_invar (pmt_storage t)"

definition own_source :: "paimon_target \<Rightarrow> paimon_source" where
  "own_source t = paimon_NewSource (pmt_storage t) (pmt_basePath t)"

lemma own_source_simps [simp]: "pms_storage (own_source t) = pmt_storage t" "pms_basePath (own_source t) = pmt_basePath t"
  by (simp_all add: own_source_def paimon_NewSource_def)

lemma target_own_source: "ready t \<Longrightarrow> target_source t = Some (own_source t)"
  by (simp add: ready_def target_source_def own_source_def)

text \<open>The identifiers a commit draws are distinct UUIDs, and its clock shows milliseconds of 64 bits.\<close>

definition stamp_ok :: "paimon_stamp \<Rightarrow> bool" where
  "stamp_ok s \<longleftrightarrow> length (stamp_base s) = 36 \<and> length (stamp_delta s) = 36 \<and> CHR ''/'' \<notin> set (stamp_base s) \<and>
     CHR ''/'' \<notin> set (stamp_delta s) \<and> stamp_base s \<noteq> stamp_delta s \<and> in_int64 (stamp_millis s)"

lemma manifest_path_eq: "manifest_path base name = meta_path base manifestDir name"
  by (simp add: manifest_path_def meta_path_def)

lemma dirs_proper [simp]: "proper_seg manifestDir" "proper_seg snapshotDir" "proper_seg schemaDir"
  by (simp_all add: paimon_dirs proper_seg_def)

lemma formatInt_no_slash: "CHR ''/'' \<notin> set (formatInt i)"
  using number_text [of "CHR ''/''" i] by (auto simp: is_digit_def)

lemma names_proper [simp]:
  "CHR ''/'' \<notin> set b \<Longrightarrow> proper_seg (''manifest-'' @ b @ ''-0'')"
  "CHR ''/'' \<notin> set b \<Longrightarrow> proper_seg (''manifest-list-'' @ b @ ''-0'')"
  "proper_seg (snapshotPrefix @ formatInt i)" "proper_seg (schemaPrefix @ formatInt i)"
  "proper_seg ''LATEST''" "proper_seg ''EARLIEST''"
  using formatInt_no_slash [of i] by (simp_all add: proper_seg_def paimon_dirs)

lemma entriesFor_ok:
  assumes "entriesFor base fs kind sid = Inr es" and "kind \<in> {0, 1}" and "in_int64 sid"
    and "list_all (\<lambda>f. in_int64 (FileSizeBytes f) \<and> in_int64 (RecordCount f) \<and> in_int64 (LastModified f)) fs"
  shows "list_all entry_ok es"
proof -
  have "entry_ok e" if "entryForDataFile base f kind sid = Inr e" "f \<in> set fs" for f e
  proof -
    have "wf_map (foldl (\<lambda>m (k, v). map_put k v m) m kvs)" if "wf_map m" for m :: "(string, string) gomap" and kvs
      using that by (induction kvs arbitrary: m) (auto split: prod.splits)
    then have "wf_map (partitionMap f)" by (simp add: partitionMap_def wf_map_def)
    moreover have "in_int64 kind" "in_int64 1" "in_int64 0" using assms(2) by (auto simp: in_int64_def)
    ultimately show ?thesis
      using that assms(3,4) by (cases "RelativizePath (PhysicalPath f) base") (auto simp: entryForDataFile_def entry_ok_def Let_def list_all_iff)
  qed
  with assms(1) show ?thesis
    unfolding entriesFor_def map_res_Inr_iff by (force simp: list_all_length list_all2_conv_all_nth)
qed

text \<open>A manifest list that was written is read back entry by entry.\<close>

lemma read_written_list:
  assumes "mem_Read (pms_storage s) (meta_path (pms_basePath s) manifestDir ln) = Inr (marshal_indent (enc_manifest_list metas))"
    and "ln \<noteq> ''''" and "list_all entry_ok es" and "in_int64 sid"
    and "es = [] \<Longrightarrow> metas = []"
    and "es \<noteq> [] \<Longrightarrow> metas = [manifest_meta nm (marshal_indent (enc_manifest_file es)) sid es] \<and>
      mem_Read (pms_storage s) (meta_path (pms_basePath s) manifestDir nm) = Inr (marshal_indent (enc_manifest_file es))"
  shows "readManifestList s ln = Inr (map canon_entry es)"
proof (cases "es = []")
  case True
  with assms(1,2,5) show ?thesis
    using parse_written_list [of "[]"] by (simp add: readManifestList_def meta_path_def)
next
  case False
  let ?m = "manifest_meta nm (marshal_indent (enc_manifest_file es)) sid es"
  have "meta_ok ?m" "mm_FileName ?m = nm" using assms(4) by (simp_all add: meta_ok_def manifest_meta_def)
  with False assms parse_written_list [of "[?m]"] parse_written_manifest [OF assms(3)] show ?thesis
    by (simp add: readManifestList_def meta_path_def)
qed

lemma put_file_simps [simp]:
  "pmt_basePath (put_file t p d) = pmt_basePath t" "pmt_sourceBase (put_file t p d) = pmt_sourceBase t"
  "pmt_storage (put_file t p d) = mem_Write (pmt_storage t) p d 0" "ready t \<Longrightarrow> ready (put_file t p d)"
  by (simp_all add: put_file_def ready_def)


definition manifest_name :: "string \<Rightarrow> string" where
  "manifest_name b = ''manifest-'' @ b @ ''-0''"

definition list_name :: "string \<Rightarrow> string" where
  "list_name b = ''manifest-list-'' @ b @ ''-0''"

definition written_metas :: "string \<Rightarrow> manifest_entry list \<Rightarrow> int \<Rightarrow> manifest_file_meta list" where
  "written_metas b es sid =
     (if es = [] then [] else [manifest_meta (manifest_name b) (marshal_indent (enc_manifest_file es)) sid es])"

lemma writeManifestList_effect:
  obtains t' where "writeManifestList b t es sid = (t', list_name b)"
    "pmt_basePath t' = pmt_basePath t" "pmt_sourceBase t' = pmt_sourceBase t" "ready t \<Longrightarrow> ready t'"
    "\<And>q. mem_Read (pmt_storage t') q =
      (if q = meta_path (pmt_basePath t) manifestDir (list_name b) then Inr (marshal_indent (enc_manifest_list (written_metas b es sid)))
       else if es \<noteq> [] \<and> q = meta_path (pmt_basePath t) manifestDir (manifest_name b) then Inr (marshal_indent (enc_manifest_file es))
       else mem_Read (pmt_storage t) q)"
    "\<And>pre. \<not> hasPrefix (meta_path (pmt_basePath t) manifestDir (list_name b)) pre \<Longrightarrow>
      \<not> hasPrefix (meta_path (pmt_basePath t) manifestDir (manifest_name b)) pre \<Longrightarrow>
      mem_List (pmt_storage t') pre = mem_List (pmt_storage t) pre"
proof -
  have "writeManifestList b t es sid =
      (put_file (if es = [] then t else put_file t (meta_path (pmt_basePath t) manifestDir (manifest_name b)) (marshal_indent (enc_manifest_file es)))
        (meta_path (pmt_basePath t) manifestDir (list_name b)) (marshal_indent (enc_manifest_list (written_metas b es sid))), list_name b)"
    by (simp add: writeManifestList_def Let_def manifest_path_eq manifest_name_def list_name_def written_metas_def)
  then show ?thesis by (rule that) (auto simp: mem_List_Write_other)
qed

lemma nextSnapshotID_listing:
  "mem_List (pms_storage s) (JoinPath base [snapshotDir]) = mem_List (pms_storage s') (JoinPath base [snapshotDir]) \<Longrightarrow>
    nextSnapshotID s base = nextSnapshotID s' base"
  by (simp add: nextSnapshotID_def listVersioned_def)

lemma nextSnapshotID_int64: "in_int64 (nextSnapshotID s base)"
  by (simp add: nextSnapshotID_def in_int64_def [of 1] split: list.splits)

lemma trimSpace_formatInt [simp]: "trimSpace (formatInt i) = formatInt i"
  by (rule trimSpace_idem_hd)
    (use number_text_plain [of "hd (formatInt i)" i] number_text_plain [of "last (formatInt i)" i] in simp_all)

lemma count_int64: "in_int64 n \<Longrightarrow> in_int64 (count_records n fs)" "in_int64 n \<Longrightarrow> in_int64 (discount_records n fs)"
  by (induction fs arbitrary: n) (simp_all add: count_records_def discount_records_def)

lemma latestSnapshot_hinted:
  assumes "mem_Read (pms_storage s) (meta_path (pms_basePath s) snapshotDir ''LATEST'') = Inr (formatInt i)" and "in_int64 i"
    and "mem_Read (pms_storage s) (meta_path (pms_basePath s) snapshotDir (snapshotPrefix @ formatInt i)) = Inr data"
    and "ParseSnapshotJSON data = Inr snap"
  shows "latestSnapshot s = Inr (Some snap)"
  using assms by (simp add: latestSnapshot_def readHint_def meta_path_def Let_def)

lemma commit_effect:
  assumes rd: "ready t" and st: "stamp_ok stamp"
    and es: "entriesFor (pmt_basePath t) (cp_base p) 0 (cp_schemaID p) = Inr be"
      "entriesFor (pmt_basePath t) (cp_removed p) 1 (cp_schemaID p) = Inr re"
      "entriesFor (pmt_basePath t) (cp_added p) 0 (cp_schemaID p) = Inr ae"
    and ok: "list_all entry_ok (be @ re @ ae)" "in_int64 (cp_schemaID p)" "wf_map (cp_properties p)"
  obtains t' where "paimon_commit stamp t p = (t', None)" "ready t'" "pmt_basePath t' = pmt_basePath t"
    "latestSnapshot (own_source t') =
      Inr (Some (canon_snapshot (commit_record stamp p (list_name (stamp_base stamp)) (list_name (stamp_delta stamp))
        (nextSnapshotID (own_source t) (pmt_basePath t)))))"
    "readManifestList (own_source t') (list_name (stamp_base stamp)) = Inr (map canon_entry be)"
    "readManifestList (own_source t') (list_name (stamp_delta stamp)) = Inr (map canon_entry (re @ ae))"
    "\<And>n. proper_seg n \<Longrightarrow> mem_Read (pmt_storage t') (meta_path (pmt_basePath t) schemaDir n) =
      mem_Read (pmt_storage t) (meta_path (pmt_basePath t) schemaDir n)"
    "mem_List (pmt_storage t') (JoinPath (pmt_basePath t) [schemaDir]) = mem_List (pmt_storage t) (JoinPath (pmt_basePath t) [schemaDir])"
proof -
  define B where "B = pmt_basePath t"
  define b1 where "b1 = stamp_base stamp"
  define b2 where "b2 = stamp_delta stamp"
  define i where "i = nextSnapshotID (own_source t) B"
  have base: "table_base B" using rd by (simp add: ready_def B_def)
  have b: "CHR ''/'' \<notin> set b1" "CHR ''/'' \<notin> set b2" "b1 \<noteq> b2" "length b1 = 36" "length b2 = 36"
    using st by (simp_all add: stamp_ok_def b1_def b2_def)
  have nms: "proper_seg (manifest_name b1)" "proper_seg (manifest_name b2)" "proper_seg (list_name b1)" "proper_seg (list_name b2)"
    using b by (simp_all add: manifest_name_def list_name_def del: append.simps)
  have "manifest_name x \<noteq> list_name y" if "x \<in> {b1, b2}" "y \<in> {b1, b2}" for x y
    using b that by (auto simp: manifest_name_def list_name_def dest: arg_cong [of _ _ length])
  then have neq: "manifest_name b1 \<noteq> list_name b1" "manifest_name b1 \<noteq> list_name b2" "manifest_name b2 \<noteq> list_name b1"
    "manifest_name b2 \<noteq> list_name b2" "manifest_name b1 \<noteq> manifest_name b2" "list_name b1 \<noteq> list_name b2"
    using b by (simp_all add: manifest_name_def list_name_def)
  have ne: "list_name x \<noteq> ''''" for x by (simp add: list_name_def)
  obtain t1 where t1: "writeManifestList b1 t be (cp_schemaID p) = (t1, list_name b1)" "pmt_basePath t1 = B" "ready t1"
    "\<And>q. mem_Read (pmt_storage t1) q =
      (if q = meta_path B manifestDir (list_name b1) then Inr (marshal_indent (enc_manifest_list (written_metas b1 be (cp_schemaID p))))
       else if be \<noteq> [] \<and> q = meta_path B manifestDir (manifest_name b1) then Inr (marshal_indent (enc_manifest_file be))
       else mem_Read (pmt_storage t) q)"
    "\<And>pre. \<not> hasPrefix (meta_path B manifestDir (list_name b1)) pre \<Longrightarrow> \<not> hasPrefix (meta_path B manifestDir (manifest_name b1)) pre \<Longrightarrow>
      mem_List (pmt_storage t1) pre = mem_List (pmt_storage t) pre"
    by (rule writeManifestList_effect [of b1 t be "cp_schemaID p"]) (use rd in \<open>auto simp: B_def\<close>)
  obtain t2 where t2: "writeManifestList b2 t1 (re @ ae) (cp_schemaID p) = (t2, list_name b2)" "pmt_basePath t2 = B" "ready t2"
    "\<And>q. mem_Read (pmt_storage t2) q =
      (if q = meta_path B manifestDir (list_name b2) then Inr (marshal_indent (enc_manifest_list (written_metas b2 (re @ ae) (cp_schemaID p))))
       else if re @ ae \<noteq> [] \<and> q = meta_path B manifestDir (manifest_name b2) then Inr (marshal_indent (enc_manifest_file (re @ ae)))
       else mem_Read (pmt_storage t1) q)"
    "\<And>pre. \<not> hasPrefix (meta_path B manifestDir (list_name b2)) pre \<Longrightarrow> \<not> hasPrefix (meta_path B manifestDir (manifest_name b2)) pre \<Longrightarrow>
      mem_List (pmt_storage t2) pre = mem_List (pmt_storage t1) pre"
    by (rule writeManifestList_effect [of b2 t1 "re @ ae" "cp_schemaID p"]) (use t1 in auto)
  let ?snap = "commit_record stamp p (list_name b1) (list_name b2) i"
  define t3 where "t3 = put_file t2 (meta_path B snapshotDir (snapshotPrefix @ formatInt i)) (marshal_indent (enc_paimon_snapshot ?snap))"
  define t4 where "t4 = (if i = 1 then put_file t3 (meta_path B snapshotDir ''EARLIEST'') (formatInt i) else t3)"
  define t5 where "t5 = put_file t4 (meta_path B snapshotDir ''LATEST'') (formatInt i)"
  have pre: "\<not> hasPrefix (meta_path B d n) (JoinPath B [schemaDir])" if "d \<in> {manifestDir, snapshotDir}" "proper_seg n" for d n
    using that base by (auto simp: meta_path_prefix) (simp_all add: paimon_dirs)
  have pre': "\<not> hasPrefix (meta_path B manifestDir n) (JoinPath B [snapshotDir])" if "proper_seg n" for n
    using that base by (simp add: meta_path_prefix) (simp add: paimon_dirs)
  have "nextSnapshotID (own_source t2) B = i"
    unfolding i_def by (rule nextSnapshotID_listing) (simp add: t2(5) t1(5) pre' nms)
  then have "paimon_commit stamp t p = (t5, None)"
    using es target_own_source [OF t2(3)]
    by (simp add: paimon_commit_def t1(1) t2(1) B_def [symmetric] t2(2) b1_def [symmetric] b2_def [symmetric]
        Let_def t3_def t4_def t5_def writeHint_def meta_path_def)
  moreover have "ready t5" "pmt_basePath t5 = pmt_basePath t"
    using t2(2,3) by (simp_all add: t3_def t4_def t5_def B_def)
  moreover have rd5: "mem_Read (pmt_storage t5) q =
      (if q = meta_path B snapshotDir ''LATEST'' then Inr (formatInt i)
       else if i = 1 \<and> q = meta_path B snapshotDir ''EARLIEST'' then Inr (formatInt i)
       else if q = meta_path B snapshotDir (snapshotPrefix @ formatInt i) then Inr (marshal_indent (enc_paimon_snapshot ?snap))
       else mem_Read (pmt_storage t2) q)" for q
    by (simp add: t3_def t4_def t5_def)
  have inj: "meta_path B d n = meta_path B d' n' \<longleftrightarrow> d = d' \<and> n = n'"
    if "d \<in> {manifestDir, snapshotDir, schemaDir}" "d' \<in> {manifestDir, snapshotDir, schemaDir}" "proper_seg n" "proper_seg n'" for d d' n n'
    using that base by (auto simp: meta_path_inj)
  have dirs: "manifestDir \<noteq> snapshotDir" "manifestDir \<noteq> schemaDir" "snapshotDir \<noteq> schemaDir" by (simp_all add: paimon_dirs)
  have sn: "snapshotPrefix @ formatInt i \<noteq> ''LATEST''" "snapshotPrefix @ formatInt i \<noteq> ''EARLIEST''" by (simp_all add: paimon_dirs)
  have i64: "in_int64 i" by (simp add: i_def nextSnapshotID_int64)
  have sok: "snapshot_ok ?snap"
    using st ok(2,3) i64
    by (simp add: snapshot_ok_def commit_record_def stamp_ok_def count_int64 in_int64_def [of 3] in_int64_def [of 0])
  have "latestSnapshot (own_source t5) = Inr (Some (canon_snapshot ?snap))"
    by (rule latestSnapshot_hinted [of _ i])
      (use \<open>pmt_basePath t5 = _\<close> i64 parse_written_snapshot [OF sok] in \<open>simp_all add: rd5 B_def [symmetric] inj sn sn [symmetric]\<close>)
  moreover have "readManifestList (own_source t5) (list_name b1) = Inr (map canon_entry be)"
    by (rule read_written_list [where metas = "written_metas b1 be (cp_schemaID p)" and sid = "cp_schemaID p" and nm = "manifest_name b1"])
      (use ok \<open>pmt_basePath t5 = _\<close> nms neq neq [symmetric] in
        \<open>simp_all add: rd5 t2(4) t1(4) B_def [symmetric] inj dirs written_metas_def ne\<close>)
  moreover have "readManifestList (own_source t5) (list_name b2) = Inr (map canon_entry (re @ ae))"
    by (rule read_written_list [where metas = "written_metas b2 (re @ ae) (cp_schemaID p)" and sid = "cp_schemaID p" and nm = "manifest_name b2"])
      (use ok \<open>pmt_basePath t5 = _\<close> nms neq neq [symmetric] in
        \<open>simp_all add: rd5 t2(4) B_def [symmetric] inj dirs written_metas_def ne\<close>)
  moreover have "mem_Read (pmt_storage t5) (meta_path B schemaDir n) = mem_Read (pmt_storage t) (meta_path B schemaDir n)"
    if "proper_seg n" for n
    using that nms dirs by (simp add: rd5 t2(4) t1(4) inj)
  moreover have "mem_List (pmt_storage t5) (JoinPath B [schemaDir]) = mem_List (pmt_storage t) (JoinPath B [schemaDir])"
    using nms by (simp add: t3_def t4_def t5_def t2(5) t1(5) pre mem_List_Write_other)
  ultimately show ?thesis
    by (intro that [of t5]) (simp_all add: B_def b1_def b2_def i_def)
qed


section \<open>Live files\<close>

text \<open>A file as the source lists it: the columns' statistics are not stored, the partition values are texts.\<close>

definition listed_file :: "(string, partition_field) gomap \<Rightarrow> data_file \<Rightarrow> data_file" where
  "listed_file pfs f = f\<lparr>
     PartitionValues := List.map_filter (\<lambda>name. case map_of pfs name of
         None \<Rightarrow> None
       | Some pf \<Rightarrow> Some \<lparr>PVField = Some pf, PVRange = Some (NewScalarRange (AStr (the (map_of (partitionMap f) name))))\<rparr>)
       (sortedKeys (partitionMap f)),
     ColumnStats := [], DeletionVector := None\<rparr>"

lemma listed_fields:
  "f\<lparr>PartitionValues := pvs, ColumnStats := [], DeletionVector := None\<rparr> =
     \<lparr>PhysicalPath = PhysicalPath f, FileFormat = FileFormat f, FileSizeBytes = FileSizeBytes f, RecordCount = RecordCount f,
      PartitionValues = pvs, ColumnStats = [], LastModified = LastModified f, DeletionVector = None\<rparr>"
  by (cases f) simp

definition storable :: "string \<Rightarrow> data_file \<Rightarrow> bool" where
  "storable base f \<longleftrightarrow> below base (PhysicalPath f) \<and> in_int64 (FileSizeBytes f) \<and> in_int64 (RecordCount f) \<and> in_int64 (LastModified f)"

lemma file_format_roundtrip [simp]: "file_format_of (file_format_text x) = x" "file_format_text x \<noteq> ''''"
  by (cases x; simp add: file_format_of_def file_format_text_def)+

lemma map_filter_cong: "xs = ys \<Longrightarrow> (\<And>x. x \<in> set ys \<Longrightarrow> f x = g x) \<Longrightarrow> List.map_filter f xs = List.map_filter g ys"
  by (induction xs arbitrary: ys) (auto simp: List.map_filter_simps split: option.splits)

lemma wf_partitionMap: "wf_map (partitionMap f)"
proof -
  have "wf_map (foldl (\<lambda>m (k, v). map_put k v m) m kvs)" if "wf_map m" for m :: "(string, string) gomap" and kvs
    using that by (induction kvs arbitrary: m) (auto split: prod.splits)
  then show ?thesis by (simp add: partitionMap_def wf_map_def)
qed

lemma storable_entry:
  assumes "storable base f"
  obtains e where "entryForDataFile base f kind sid = Inr e" "me_Kind e = kind" "fm_FileName (me_File e) = fileKey base f"
    "JoinPath base [fileKey base f] = PhysicalPath f" "dataFileForEntry base (canon_entry e) pfs = listed_file pfs f"
proof -
  obtain rel where r: "RelativizePath (PhysicalPath f) base = Inr rel" "JoinPath base [rel] = PhysicalPath f"
    using below_relative assms by (auto simp: storable_def)
  define m where "m = partitionMap f"
  have v: "(case map_of (sort_key fst m) n of None \<Rightarrow> '''' | Some v \<Rightarrow> v) = the (map_of m n)" if "n \<in> set (sortedKeys m)" for n
    using that map_of_eq_None_iff [of m n] wf_partitionMap [of f] by (auto simp: sortedKeys_def m_def split: option.splits)
  have k: "sortedKeys (sort_key fst m) = sortedKeys m"
    unfolding sortedKeys_def by (rule properties_for_sort) simp_all
  let ?e = "\<lparr>me_Kind = kind, me_Partition = m, me_Bucket = 0, me_TotalBuckets = 1,
    me_File = \<lparr>fm_FileName = rel, fm_FileSize = FileSizeBytes f, fm_RowCount = RecordCount f, fm_SchemaID = sid, fm_Level = 0,
      fm_CreationTime = LastModified f, fm_FileFormat = file_format_text (FileFormat f), fm_Partition = m\<rparr>\<rparr>"
  have "entryForDataFile base f kind sid = Inr ?e" by (simp add: entryForDataFile_def Let_def r m_def)
  moreover have "dataFileForEntry base (canon_entry ?e) pfs = listed_file pfs f"
  proof -
    have ev: "me_Partition (canon_entry ?e) = sort_key fst m" "fm_Partition (me_File (canon_entry ?e)) = sort_key fst m"
      "fm_FileName (me_File (canon_entry ?e)) = rel" "fm_FileSize (me_File (canon_entry ?e)) = FileSizeBytes f"
      "fm_RowCount (me_File (canon_entry ?e)) = RecordCount f" "fm_CreationTime (me_File (canon_entry ?e)) = LastModified f"
      "fm_FileFormat (me_File (canon_entry ?e)) = file_format_text (FileFormat f)"
      by (simp_all add: canon_entry_def)
    show ?thesis
      unfolding dataFileForEntry_def Let_def ev if_cancel
      by (simp add: listed_file_def listed_fields m_def [symmetric] k r)
        (intro map_filter_cong refl, simp add: v m_def [symmetric] split: option.split)
  qed
  moreover have "fileKey base f = rel" by (simp add: fileKey_def r)
  ultimately show ?thesis using that [of ?e] r(2) by simp
qed


text \<open>The replay of additions and of deletions.\<close>

lemma replay_added:
  assumes "list_all (storable B) fs" and "distinct (map (fileKey B) fs)" and "entriesFor B fs 0 sid = Inr es"
    and "foldl (replay_entry B pfs) (ord, live) (map canon_entry es) = (ord', live')"
  shows "ord' = ord @ filter (\<lambda>n. map_of live n = None) (map (fileKey B) fs) \<and>
    map_of live' = map_of live ++ map_of (map (\<lambda>f. (fileKey B f, listed_file pfs f)) fs)"
  using assms
proof (induction fs arbitrary: ord live es)
  case Nil
  then show ?case by (simp add: entriesFor_def)
next
  case (Cons f fs)
  obtain e where e: "entryForDataFile B f 0 sid = Inr e" "me_Kind e = 0" "fm_FileName (me_File e) = fileKey B f"
    "dataFileForEntry B (canon_entry e) pfs = listed_file pfs f"
    using storable_entry [of B f 0 sid pfs] Cons.prems(1) by auto
  with Cons.prems(3) obtain es' where es': "es = e # es'" "entriesFor B fs 0 sid = Inr es'"
    by (auto simp: entriesFor_def split: sum.splits)
  have step: "replay_entry B pfs (ord, live) (canon_entry e) =
      (if map_of live (fileKey B f) = None then ord @ [fileKey B f] else ord, map_put (fileKey B f) (listed_file pfs f) live)"
    using e by (simp add: replay_entry_def canon_entry_def Let_def)
  from Cons.prems(2) have "filter (\<lambda>n. map_of (map_put (fileKey B f) (listed_file pfs f) live) n = None) (map (fileKey B) fs) =
      filter (\<lambda>n. map_of live n = None) (map (fileKey B) fs)"
    by (intro filter_cong refl) (auto simp: image_iff)
  moreover have "map_of (map_put (fileKey B f) (listed_file pfs f) live) ++ map_of (map (\<lambda>f. (fileKey B f, listed_file pfs f)) fs) =
      map_of live ++ map_of (map (\<lambda>f. (fileKey B f, listed_file pfs f)) (f # fs))"
  proof -
    have "map_of (map (\<lambda>f. (fileKey B f, listed_file pfs f)) fs) (fileKey B f) = None"
      using Cons.prems(2) by (simp add: map_of_eq_None_iff image_image)
    then show ?thesis by (auto simp: fun_eq_iff map_add_def split: option.splits)
  qed
  moreover have "ord' = (if map_of live (fileKey B f) = None then ord @ [fileKey B f] else ord) @
        filter (\<lambda>n. map_of (map_put (fileKey B f) (listed_file pfs f) live) n = None) (map (fileKey B) fs) \<and>
      map_of live' = map_of (map_put (fileKey B f) (listed_file pfs f) live) ++ map_of (map (\<lambda>f. (fileKey B f, listed_file pfs f)) fs)"
    using Cons.IH [OF _ _ es'(2), of _ "map_put (fileKey B f) (listed_file pfs f) live"] Cons.prems es'(1) step
    by (simp del: map_of_map_put)
  ultimately show ?case
    by (simp del: map_of_map_put map_of.simps split: if_splits)
qed

lemma replay_removed:
  assumes "list_all (storable B) fs" and "entriesFor B fs 1 sid = Inr es"
    and "foldl (replay_entry B pfs) (ord, live) (map canon_entry es) = (ord', live')"
  shows "ord' = ord \<and> map_of live' = (\<lambda>n. if n \<in> fileKey B ` set fs then None else map_of live n)"
  using assms
proof (induction fs arbitrary: live es)
  case Nil
  then show ?case by (simp add: entriesFor_def)
next
  case (Cons f fs)
  obtain e where e: "entryForDataFile B f 1 sid = Inr e" "me_Kind e = 1" "fm_FileName (me_File e) = fileKey B f"
    using storable_entry [of B f 1 sid pfs] Cons.prems(1) by auto
  with Cons.prems(2) obtain es' where es': "es = e # es'" "entriesFor B fs 1 sid = Inr es'"
    by (auto simp: entriesFor_def split: sum.splits)
  have "replay_entry B pfs (ord, live) (canon_entry e) = (ord, map_del (fileKey B f) live)"
    using e by (simp add: replay_entry_def canon_entry_def Let_def)
  with Cons.IH [OF _ es'(2), of "map_del (fileKey B f) live"] Cons.prems es'(1) show ?case
    by (auto simp: fun_eq_iff)
qed


text \<open>
  What the source lists after a commit: each base file in its place, unless it was removed and not added again, with
  the content of the added file of its name if there is one; then the added files whose names were not in force.
\<close>

definition after_commit :: "string \<Rightarrow> data_file list \<Rightarrow> data_file list \<Rightarrow> data_file list \<Rightarrow> data_file list" where
  "after_commit B base removed added =
     (let gone = fileKey B ` set removed;
          newest = (\<lambda>f. case List.find (\<lambda>g. fileKey B g = fileKey B f) added of
                     Some g \<Rightarrow> Some g
                   | None \<Rightarrow> if fileKey B f \<in> gone then None else Some f)
      in List.map_filter newest base @
         filter (\<lambda>g. fileKey B g \<notin> fileKey B ` {f \<in> set base. fileKey B f \<notin> gone}) added)"

lemma map_of_files:
  "map_of (map (\<lambda>f. (k f, h f)) fs) n = map_option h (List.find (\<lambda>g. k g = n) fs)"
  by (induction fs) auto

lemma map_filter_option: "List.map_filter (\<lambda>x. map_option h (f x)) xs = map h (List.map_filter f xs)"
  by (induction xs) (auto simp: List.map_filter_simps split: option.splits)

lemma find_distinct: "distinct (map k fs) \<Longrightarrow> f \<in> set fs \<Longrightarrow> List.find (\<lambda>g. k g = k f) fs = Some f"
  by (induction fs) (auto simp: image_iff)

lemma replay_commit:
  assumes st: "list_all (storable B) (base @ removed @ added)"
    and d: "distinct (map (fileKey B) base)" "distinct (map (fileKey B) added)"
    and es: "entriesFor B base 0 sid = Inr be" "entriesFor B removed 1 sid = Inr re" "entriesFor B added 0 sid = Inr ae"
  shows "live_of (foldl (replay_entry B pfs) ([], []) (map canon_entry be @ map canon_entry (re @ ae))) =
    map (listed_file pfs) (after_commit B base removed added)"
proof -
  let ?k = "fileKey B" and ?gone = "fileKey B ` set removed"
  let ?find = "\<lambda>fs n. List.find (\<lambda>g. fileKey B g = n) fs"
  obtain o1 l1 where 1: "foldl (replay_entry B pfs) ([], []) (map canon_entry be) = (o1, l1)" by fastforce
  obtain o2 l2 where 2: "foldl (replay_entry B pfs) (o1, l1) (map canon_entry re) = (o2, l2)" by fastforce
  obtain o3 l3 where 3: "foldl (replay_entry B pfs) (o2, l2) (map canon_entry ae) = (o3, l3)" by fastforce
  from replay_added [OF _ d(1) es(1) 1] st have r1: "o1 = map ?k base"
    "map_of l1 = (\<lambda>n. map_option (listed_file pfs) (?find base n))"
    by (auto simp: map_of_files fun_eq_iff)
  from replay_removed [OF _ es(2) 2] st have r2: "o2 = o1" "map_of l2 = (\<lambda>n. if n \<in> ?gone then None else map_of l1 n)" by auto
  from replay_added [OF _ d(2) es(3) 3] st have r3: "o3 = o2 @ filter (\<lambda>n. map_of l2 n = None) (map ?k added)"
    "map_of l3 = map_of l2 ++ (\<lambda>n. map_option (listed_file pfs) (?find added n))"
    by (auto simp: map_of_files fun_eq_iff map_add_def)
  define newest where "newest = (\<lambda>f. case ?find added (?k f) of Some g \<Rightarrow> Some g | None \<Rightarrow> if ?k f \<in> ?gone then None else Some f)"
  have l3_base: "map_of l3 (?k f) = map_option (listed_file pfs) (newest f)" if "f \<in> set base" for f
    using find_distinct [OF d(1) that] by (simp add: r3(2) r2(2) r1(2) newest_def map_add_def split: option.splits)
  have l3_added: "map_of l3 (?k g) = Some (listed_file pfs g)" if "g \<in> set added" for g
    using find_distinct [OF d(2) that] by (simp add: r3(2) map_add_def)
  have l2_none: "map_of l2 n = None \<longleftrightarrow> n \<notin> ?k ` {f \<in> set base. ?k f \<notin> ?gone}" for n
    by (auto simp: r2(2) r1(2) find_None_iff image_iff) metis
  have "List.map_filter (map_of l3) (map ?k base) = map (listed_file pfs) (List.map_filter newest base)"
    unfolding map_filter_option [symmetric] map_filter_map by (rule map_filter_cong) (simp_all add: l3_base)
  moreover have "List.map_filter (map_of l3) (map ?k gs) = map (listed_file pfs) gs" if "set gs \<subseteq> set added" for gs
    using that by (induction gs) (simp_all add: List.map_filter_simps l3_added)
  moreover have "filter (\<lambda>n. map_of l2 n = None) (map ?k added) =
      map ?k (filter (\<lambda>g. ?k g \<notin> ?k ` {f \<in> set base. ?k f \<notin> ?gone}) added)"
    by (simp add: filter_map comp_def l2_none)
  ultimately show ?thesis
    using 1 2 3 by (simp add: live_of_def map_filter_append r3(1) r2(1) r1(1) after_commit_def Let_def newest_def)
qed


section \<open>Schema files\<close>

lemma set_listVersioned:
  "(i, p) \<in> set (listVersioned s dir pre) \<longleftrightarrow>
     (\<exists>d. mem_Read (pms_storage s) p = Inr d) \<and> hasPrefix p dir \<and> hasPrefix (filepath_Base p) pre \<and>
     parseInt (trimPrefix (filepath_Base p) pre) = Some i"
proof -
  have dir: "\<not> InfoIsDir f" if "f \<in> set (mem_List (pms_storage s) dir)" for f
    using that by (auto simp: mem_List_def)
  have "(i, p) \<in> set (listVersioned s dir pre) \<longleftrightarrow>
      p \<in> InfoPath ` set (mem_List (pms_storage s) dir) \<and> hasPrefix (filepath_Base p) pre \<and>
      parseInt (trimPrefix (filepath_Base p) pre) = Some i"
    by (auto simp: listVersioned_def set_map_filter versioned_file_def Let_def dir split: if_splits)
  then show ?thesis by (simp add: mem_List_paths)
qed

lemma listVersioned_last:
  assumes "listVersioned s dir pre \<noteq> []"
  shows "last (listVersioned s dir pre) \<in> set (listVersioned s dir pre)"
    "\<And>v. v \<in> set (listVersioned s dir pre) \<Longrightarrow> fst v \<le> fst (last (listVersioned s dir pre))"
proof -
  let ?vs = "listVersioned s dir pre"
  show "last ?vs \<in> set ?vs" using assms by simp
  have srt: "sorted (map fst ?vs)" by (simp add: listVersioned_def)
  show "fst v \<le> fst (last ?vs)" if "v \<in> set ?vs" for v
  proof -
    from that obtain j where "j < length ?vs" "?vs ! j = v" by (auto simp: in_set_conv_nth)
    with sorted_nth_mono [OF srt, of j "length ?vs - 1"] assms show ?thesis by (auto simp: last_conv_nth)
  qed
qed

definition schema_path :: "string \<Rightarrow> int \<Rightarrow> string" where
  "schema_path B i = meta_path B schemaDir (schemaPrefix @ formatInt i)"

lemma schema_path_version:
  assumes "table_base B" "in_int64 i"
  shows "hasPrefix (schema_path B i) (JoinPath B [schemaDir])" "hasPrefix (filepath_Base (schema_path B i)) schemaPrefix"
    "parseInt (trimPrefix (filepath_Base (schema_path B i)) schemaPrefix) = Some i"
  using assms by (simp_all add: schema_path_def meta_path_prefix meta_path_Base)

lemma schema_file_at:
  "0 \<le> i \<Longrightarrow> mem_Read (pms_storage s) (schema_path (pms_basePath s) i) = Inr data \<Longrightarrow>
    schema_file s i = Inr (schema_path (pms_basePath s) i, data)"
  by (simp add: schema_file_def schema_path_def meta_path_def Let_def)

lemma readSchema_at:
  "0 \<le> i \<Longrightarrow> readSchema s i = Inr ts \<longleftrightarrow>
    (\<exists>data. mem_Read (pms_storage s) (schema_path (pms_basePath s) i) = Inr data \<and> ParseTableSchemaJSON data = Inr ts)"
  by (cases "mem_Read (pms_storage s) (schema_path (pms_basePath s) i)")
    (auto simp: readSchema_def schema_file_def schema_path_def meta_path_def Let_def wrap_res_eq_Inr)

text \<open>A well-formed table: every numbered schema file holds a schema of that number, and numbers are left.\<close>

definition schemas_ok :: "nat \<Rightarrow> paimon_source \<Rightarrow> bool" where
  "schemas_ok n s \<longleftrightarrow> int n \<le> max_int64 \<and>
     list_all (\<lambda>(i, p). 0 \<le> i \<and> i + int n \<le> max_int64 \<and> (case readSchema s i of Inl _ \<Rightarrow> False | Inr ts \<Rightarrow> ts_ID ts = i))
       (listVersioned s (JoinPath (pms_basePath s) [schemaDir]) schemaPrefix)"

definition table_ok :: "nat \<Rightarrow> paimon_target \<Rightarrow> bool" where
  "table_ok n t \<longleftrightarrow> ready t \<and> schemas_ok n (own_source t)"

lemma schemas_okD:
  "schemas_ok n s \<Longrightarrow> (i, p) \<in> set (listVersioned s (JoinPath (pms_basePath s) [schemaDir]) schemaPrefix) \<Longrightarrow>
    0 \<le> i \<and> i + int n \<le> max_int64 \<and> (\<exists>ts. readSchema s i = Inr ts \<and> ts_ID ts = i)"
  by (auto simp: schemas_ok_def list_all_iff split: sum.splits)

text \<open>Only the schema directory matters.\<close>

lemma schemas_ok_cong:
  assumes "pms_basePath s' = pms_basePath s" "table_base (pms_basePath s)"
    and "\<And>n. proper_seg n \<Longrightarrow> mem_Read (pms_storage s') (meta_path (pms_basePath s) schemaDir n) =
      mem_Read (pms_storage s) (meta_path (pms_basePath s) schemaDir n)"
    and "mem_List (pms_storage s') (JoinPath (pms_basePath s) [schemaDir]) = mem_List (pms_storage s) (JoinPath (pms_basePath s) [schemaDir])"
  shows "schemas_ok n s' = schemas_ok n s" "0 \<le> i \<Longrightarrow> readSchema s' i = readSchema s i"
proof -
  have r: "readSchema s' i = readSchema s i" if "0 \<le> i" for i
    using that assms(1,3) by (simp add: readSchema_def schema_file_def Let_def meta_path_def)
  then show "0 \<le> i \<Longrightarrow> readSchema s' i = readSchema s i" .
  have "listVersioned s' (JoinPath (pms_basePath s) [schemaDir]) schemaPrefix = listVersioned s (JoinPath (pms_basePath s) [schemaDir]) schemaPrefix"
    using assms(4) by (simp add: listVersioned_def)
  then show "schemas_ok n s' = schemas_ok n s"
    using assms(1) r by (fastforce simp: schemas_ok_def list_all_iff)
qed


definition form_of :: "schema \<Rightarrow> schema" where
  "form_of s = NewRecordSchema ''paimon_table'' (fst (thread form_field (Fields s) 0)) False"

definition writable :: "table \<Rightarrow> bool" where
  "writable tbl \<longleftrightarrow> (case ReadSchema tbl of None \<Rightarrow> False | Some s \<Rightarrow> paimon_ok s \<and> DataType s = TypeRecord)"

lemma written_fields_form: "list_all2 field_trip dfs fs' \<Longrightarrow> paimonFieldsToModelFields dfs = Inr fs'"
proof (induction rule: list_all2_induct)
  case (Cons df dfs f' fs')
  from Cons(1) obtain j s where "df_Type df = json_print j" "wf_json j" "parse_document (Some j) = Inr s"
    "f' = paimon_field (df_ID df) (df_Name df) s (df_Description df)" by (auto simp: field_trip_def)
  with Cons.IH parse_stored_type(1) show ?case by (simp add: paimonFieldsToModelFields_def)
qed (simp add: paimonFieldsToModelFields_def)

lemma converted_schema:
  assumes "ReadSchema tbl = Some s" "writable tbl"
  obtains dfs h where "SchemaToPaimon (ReadSchema tbl) keys =
      Inr \<lparr>ts_ID = 0, ts_Fields = dfs, ts_HighestFieldID = h, ts_PartitionKeys = keys, ts_PrimaryKeys = [], ts_Options = []\<rparr>"
    "thread_res modelFieldToPaimonField (Fields s) 0 = Inr (dfs, h)"
    "list_all2 field_trip dfs (fst (thread form_field (Fields s) 0))" "in_int64 h"
  using root_trip [of s] assms by (auto simp: SchemaToPaimon_def writable_def)

text \<open>Writing the schema file of a new number.\<close>

lemma schema_written:
  assumes ok: "table_ok (Suc n) t" and i: "0 \<le> i" "i + int n \<le> max_int64"
    and p: "ParseTableSchemaJSON data = Inr ts" "ts_ID ts = i"
  shows "table_ok n (put_file t (schema_path (pmt_basePath t) i) data)"
    "readSchema (own_source (put_file t (schema_path (pmt_basePath t) i) data)) i = Inr ts"
proof -
  let ?t = "put_file t (schema_path (pmt_basePath t) i) data"
  have base: "table_base (pmt_basePath t)" using ok by (simp add: table_ok_def ready_def)
  show read: "readSchema (own_source ?t) i = Inr ts" using i(1) p(1) by (simp add: readSchema_at)
  have "0 \<le> k \<and> k + int n \<le> max_int64 \<and> (\<exists>ts'. readSchema (own_source ?t) k = Inr ts' \<and> ts_ID ts' = k)"
    if v: "(k, q) \<in> set (listVersioned (own_source ?t) (JoinPath (pmt_basePath t) [schemaDir]) schemaPrefix)" for k q
  proof (cases "q = schema_path (pmt_basePath t) i")
    case True
    have "in_int64 i" using i by (simp add: in_int64_def)
    then have "k = i" using v schema_path_version(3) [OF base, of i] by (simp add: True set_listVersioned)
    with i read p(2) show ?thesis by blast
  next
    case False
    with v have "(k, q) \<in> set (listVersioned (own_source t) (JoinPath (pmt_basePath t) [schemaDir]) schemaPrefix)"
      by (auto simp: set_listVersioned split: if_splits)
    with ok obtain ts' where k: "0 \<le> k" "k + int (Suc n) \<le> max_int64"
      "readSchema (own_source t) k = Inr ts'" "ts_ID ts' = k"
      using schemas_okD [of "Suc n" "own_source t" k q] unfolding table_ok_def own_source_simps by blast
    show ?thesis
    proof (cases "schema_path (pmt_basePath t) k = schema_path (pmt_basePath t) i")
      case True
      have "in_int64 k" "in_int64 i" using k i by (simp_all add: in_int64_def)
      then have "k = i" using True schema_path_version(3) [OF base] by (metis option.inject)
      with i read p(2) show ?thesis by blast
    next
      case False
      with k show ?thesis by (auto simp: readSchema_at)
    qed
  qed
  then show "table_ok n ?t"
    using ok by (fastforce simp: table_ok_def schemas_ok_def list_all_iff)
qed


lemma table_ok_mono: "table_ok (Suc n) t \<Longrightarrow> table_ok n t"
  by (fastforce simp: table_ok_def schemas_ok_def list_all_iff)

definition fresh_schema :: "paimon_target \<Rightarrow> table_schema \<Rightarrow> int \<Rightarrow> paimon_target \<times> int res" where
  "fresh_schema t ts i =
     (case enc_table_schema (ts\<lparr>ts_ID := i\<rparr>) of
        None \<Rightarrow> (t, Inl (ErrMsg ''failed to marshal paimon schema''))
      | Some j \<Rightarrow> (put_file t (schema_path (pmt_basePath t) i) (marshal_indent j), Inr i))"

abbreviation schema_versions :: "paimon_target \<Rightarrow> (int \<times> string) list" where
  "schema_versions t \<equiv> listVersioned (own_source t) (JoinPath (pmt_basePath t) [schemaDir]) schemaPrefix"

lemma ensureSchema_cases:
  assumes "ready t" and "ReadSchema tbl = Some s" and "SchemaToPaimon (Some s) (partition_keys tbl) = Inr ts"
  shows "schema_versions t = [] \<Longrightarrow> ensureSchema t tbl = fresh_schema t ts 0"
    "schema_versions t \<noteq> [] \<Longrightarrow> fst (last (schema_versions t)) = v \<Longrightarrow> schema_file (own_source t) v = Inr (p, data) \<Longrightarrow>
      readSchema (own_source t) v = Inr previous \<Longrightarrow>
      ensureSchema t tbl =
        (if ts\<lparr>ts_ID := ts_ID previous\<rparr> = previous \<and> \<not> spelled_out_empty data then (t, Inr (ts_ID previous))
         else fresh_schema t ts (wrap64 (v + 1)))"
proof -
  show "ensureSchema t tbl = fresh_schema t ts 0" if "schema_versions t = []"
    using that assms
    by (simp add: ensureSchema_def target_own_source [OF assms(1)] fresh_schema_def schema_path_def meta_path_def Let_def split: option.split)
  assume v: "schema_versions t \<noteq> []" "fst (last (schema_versions t)) = v" "schema_file (own_source t) v = Inr (p, data)"
    "readSchema (own_source t) v = Inr previous"
  then obtain x xs where x: "schema_versions t = x # xs" by (cases "schema_versions t") auto
  with v have "fst (last (x # xs)) = v" by simp
  with v(3,4) x assms show "ensureSchema t tbl =
      (if ts\<lparr>ts_ID := ts_ID previous\<rparr> = previous \<and> \<not> spelled_out_empty data then (t, Inr (ts_ID previous))
       else fresh_schema t ts (wrap64 (v + 1)))"
    by (simp add: ensureSchema_def target_own_source [OF assms(1)] fresh_schema_def schema_path_def meta_path_def Let_def
        del: last.simps split: option.split)
qed

text \<open>The fields of the schema a commit refers to, and of the file it may have written.\<close>

lemma fresh_schema_effect:
  assumes ok: "table_ok (Suc n) t" and i: "0 \<le> i" "i + int n \<le> max_int64"
    and trip: "list_all2 field_trip dfs fs'" and h: "in_int64 h"
    and ts: "ts = \<lparr>ts_ID = 0, ts_Fields = dfs, ts_HighestFieldID = h, ts_PartitionKeys = keys, ts_PrimaryKeys = [], ts_Options = []\<rparr>"
  obtains t' where "fresh_schema t ts i = (t', Inr i)" "table_ok n t'" "pmt_basePath t' = pmt_basePath t"
    "readSchema (own_source t') i = Inr (ts\<lparr>ts_ID := i, ts_Fields := map stored_field dfs\<rparr>)"
    "\<And>q. q \<noteq> schema_path (pmt_basePath t) i \<Longrightarrow> mem_Read (pmt_storage t') q = mem_Read (pmt_storage t) q"
    "\<exists>j. enc_table_schema (ts\<lparr>ts_ID := i\<rparr>) = Some j \<and> mem_Read (pmt_storage t') (schema_path (pmt_basePath t) i) = Inr (marshal_indent j)"
proof -
  have "in_int64 i" using i by (simp add: in_int64_def)
  with parse_stored_schema [of "ts\<lparr>ts_ID := i\<rparr>" fs'] trip h ts obtain j where
    j: "enc_table_schema (ts\<lparr>ts_ID := i\<rparr>) = Some j"
      "ParseTableSchemaJSON (marshal_indent j) = Inr (ts\<lparr>ts_ID := i, ts_Fields := map stored_field dfs\<rparr>)" by auto
  show ?thesis
    by (rule that [of "put_file t (schema_path (pmt_basePath t) i) (marshal_indent j)"])
      (use schema_written [OF ok i j(2)] j(1) in \<open>simp_all add: fresh_schema_def\<close>)
qed


lemma schema_file_of: "0 \<le> i \<Longrightarrow> readSchema s i = Inr ts \<Longrightarrow> \<exists>p data. schema_file s i = Inr (p, data)"
  using schema_file_at readSchema_at by metis

lemma ensure_effect:
  assumes ok: "table_ok (Suc n) t" and s: "ReadSchema tbl = Some s" and w: "writable tbl"
  obtains t' i ts where "ensureSchema t tbl = (t', Inr i)" "table_ok n t'" "pmt_basePath t' = pmt_basePath t" "0 \<le> i" "in_int64 i"
    "readSchema (own_source t') i = Inr ts" "PaimonToSchema (Some ts) = Inr (form_of s)" "ts_PartitionKeys ts = partition_keys tbl"
proof -
  obtain dfs h where c: "SchemaToPaimon (Some s) (partition_keys tbl) =
      Inr \<lparr>ts_ID = 0, ts_Fields = dfs, ts_HighestFieldID = h, ts_PartitionKeys = partition_keys tbl, ts_PrimaryKeys = [], ts_Options = []\<rparr>"
    "list_all2 field_trip dfs (fst (thread form_field (Fields s) 0))" "in_int64 h"
    by (rule converted_schema [OF s w, of "partition_keys tbl"]) (use s in auto)
  let ?ts = "\<lparr>ts_ID = 0, ts_Fields = dfs, ts_HighestFieldID = h, ts_PartitionKeys = partition_keys tbl, ts_PrimaryKeys = [], ts_Options = []\<rparr>"
  note result = that
  note rd = ok [unfolded table_ok_def, THEN conjunct1]
  note cases = ensureSchema_cases [OF rd s c(1)]
  have forms: "PaimonToSchema (Some (?ts\<lparr>ts_ID := i, ts_Fields := map stored_field dfs\<rparr>)) = Inr (form_of s)"
    "PaimonToSchema (Some (?ts\<lparr>ts_ID := i\<rparr>)) = Inr (form_of s)" for i
    using stored_fields_form [OF c(2)] written_fields_form [OF c(2)] by (simp_all add: PaimonToSchema_def form_of_def)
  have fresh: ?thesis if i: "0 \<le> i" "i + int n \<le> max_int64" "ensureSchema t tbl = fresh_schema t ?ts i" for i
  proof -
    from fresh_schema_effect [OF ok i(1,2) c(2,3) refl, of "partition_keys tbl"] obtain t' where
      f: "fresh_schema t ?ts i = (t', Inr i)" "table_ok n t'" "pmt_basePath t' = pmt_basePath t"
      "readSchema (own_source t') i = Inr (?ts\<lparr>ts_ID := i, ts_Fields := map stored_field dfs\<rparr>)" by blast
    show ?thesis by (rule result [of t' i "?ts\<lparr>ts_ID := i, ts_Fields := map stored_field dfs\<rparr>"]) (use f i forms(1) [of i] in \<open>simp_all add: in_int64_def\<close>)
  qed
  show ?thesis
  proof (cases "schema_versions t = []")
    case True
    with fresh [of 0] cases(1) ok show ?thesis by (simp add: table_ok_def schemas_ok_def)
  next
    case False
    obtain v q where v: "last (schema_versions t) = (v, q)" by fastforce
    with listVersioned_last(1) [OF False] have "(v, q) \<in> set (schema_versions t)" by simp
    with ok obtain prev where p: "0 \<le> v" "v + int (Suc n) \<le> max_int64" "readSchema (own_source t) v = Inr prev" "ts_ID prev = v"
      using schemas_okD [of "Suc n" "own_source t" v q] unfolding table_ok_def own_source_simps by blast
    obtain pth data where f: "schema_file (own_source t) v = Inr (pth, data)" using schema_file_of [OF p(1,3)] by blast
    have e: "ensureSchema t tbl = (if ?ts\<lparr>ts_ID := v\<rparr> = prev \<and> \<not> spelled_out_empty data then (t, Inr v) else fresh_schema t ?ts (v + 1))"
      using cases(2) [OF False _ f p(3)] v p by (simp add: in_int64_def)
    show ?thesis
    proof (cases "?ts\<lparr>ts_ID := v\<rparr> = prev \<and> \<not> spelled_out_empty data")
      case True
      then have "ts_PartitionKeys prev = partition_keys tbl" by auto
      with True show ?thesis
        using that [of t v prev] e table_ok_mono [OF ok] p forms(2) [of v] by (simp add: in_int64_def)
    next
      case False
      then have "ensureSchema t tbl = fresh_schema t ?ts (v + 1)" unfolding e by (rule if_not_P)
      then show ?thesis by (intro fresh [of "v + 1"]) (use p in simp_all)
    qed
  qed
qed


section \<open>Reading a commit back\<close>

definition read_table :: "string \<Rightarrow> string list \<Rightarrow> schema \<Rightarrow> table" where
  "read_table B keys m =
     \<lparr>TableName = filepath_Base B, TableFormat = TableFormatPaimon, ReadSchema = Some m, LayoutStrategy = LayoutUnset,
      BasePath = B, DataPath = '''',
      PartitioningFields = List.map_filter (\<lambda>pk. map_option mkPartitionField (FieldByPath (Some m) pk)) keys,
      LatestCommitTime = 0, LatestMetadataPath = ''''\<rparr>"

lemma tableForSchema_read: "PaimonToSchema (Some ts) = Inr m \<Longrightarrow> tableForSchema s ts = Inr (read_table (pms_basePath s) (ts_PartitionKeys ts) m)"
  by (simp add: tableForSchema_def read_table_def)

text \<open>What a commit of given parameters leaves.\<close>

definition commit_state :: "paimon_stamp \<Rightarrow> commit_params \<Rightarrow> schema \<Rightarrow> string list \<Rightarrow> paimon_target \<Rightarrow> bool" where
  "commit_state stamp p m keys t \<longleftrightarrow>
     (\<exists>ts baseList deltaList i. ts_PartitionKeys ts = keys \<and>
        latestSnapshot (own_source t) = Inr (Some (canon_snapshot (commit_record stamp p baseList deltaList i))) \<and>
        readSchema (own_source t) (cp_schemaID p) = Inr ts \<and> PaimonToSchema (Some ts) = Inr m \<and>
        (\<forall>tb. liveFiles (own_source t) (canon_snapshot (commit_record stamp p baseList deltaList i)) tb =
           Inr (map (listed_file (partition_fields_map tb)) (after_commit (pmt_basePath t) (cp_base p) (cp_removed p) (cp_added p)))))"

lemma commit_listed:
  assumes ok: "table_ok n t" and st: "stamp_ok stamp" and i: "0 \<le> cp_schemaID p" "in_int64 (cp_schemaID p)"
    and ts: "readSchema (own_source t) (cp_schemaID p) = Inr ts" "PaimonToSchema (Some ts) = Inr m"
    and p: "wf_map (cp_properties p)" "list_all (storable (pmt_basePath t)) (cp_base p @ cp_removed p @ cp_added p)"
      "distinct (map (fileKey (pmt_basePath t)) (cp_base p))" "distinct (map (fileKey (pmt_basePath t)) (cp_added p))"
  obtains t' where "paimon_commit stamp t p = (t', None)" "table_ok n t'" "pmt_basePath t' = pmt_basePath t"
    "commit_state stamp p m (ts_PartitionKeys ts) t'"
proof -
  define B where "B = pmt_basePath t"
  have es: "\<exists>es. entriesFor B fs k (cp_schemaID p) = Inr es \<and> list_all entry_ok es"
    if "list_all (storable B) fs" "k \<in> {0, 1}" for fs k
  proof -
    have "\<exists>es. entriesFor B fs k (cp_schemaID p) = Inr es"
      using that(1) by (induction fs) (auto simp: entriesFor_def elim!: storable_entry [of B _ k "cp_schemaID p" "[]"] split: sum.splits)
    moreover have "list_all (\<lambda>f. in_int64 (FileSizeBytes f) \<and> in_int64 (RecordCount f) \<and> in_int64 (LastModified f)) fs"
      using that(1) by (auto simp: list_all_iff storable_def)
    ultimately show ?thesis using entriesFor_ok that(2) i(2) by blast
  qed
  from p(2) es obtain be re ae where e: "entriesFor B (cp_base p) 0 (cp_schemaID p) = Inr be"
    "entriesFor B (cp_removed p) 1 (cp_schemaID p) = Inr re" "entriesFor B (cp_added p) 0 (cp_schemaID p) = Inr ae"
    "list_all entry_ok (be @ re @ ae)"
    unfolding B_def by (metis insertI1 insertI2 list_all_append)
  obtain t' where t': "paimon_commit stamp t p = (t', None)" "ready t'" "pmt_basePath t' = B"
    "latestSnapshot (own_source t') =
      Inr (Some (canon_snapshot (commit_record stamp p (list_name (stamp_base stamp)) (list_name (stamp_delta stamp)) (nextSnapshotID (own_source t) B))))"
    "readManifestList (own_source t') (list_name (stamp_base stamp)) = Inr (map canon_entry be)"
    "readManifestList (own_source t') (list_name (stamp_delta stamp)) = Inr (map canon_entry (re @ ae))"
    "\<And>n. proper_seg n \<Longrightarrow> mem_Read (pmt_storage t') (meta_path B schemaDir n) = mem_Read (pmt_storage t) (meta_path B schemaDir n)"
    "mem_List (pmt_storage t') (JoinPath B [schemaDir]) = mem_List (pmt_storage t) (JoinPath B [schemaDir])"
    using commit_effect [OF _ st e [unfolded B_def] i(2) p(1)] ok unfolding table_ok_def B_def by blast
  have base: "table_base B" using ok by (simp add: table_ok_def ready_def B_def)
  have same: "schemas_ok n (own_source t') = schemas_ok n (own_source t)" "\<And>i. 0 \<le> i \<Longrightarrow> readSchema (own_source t') i = readSchema (own_source t) i"
    using schemas_ok_cong [of "own_source t'" "own_source t"] t'(3,7,8) base by (simp_all add: B_def)
  have live: "liveFiles (own_source t') (canon_snapshot (commit_record stamp p (list_name (stamp_base stamp)) (list_name (stamp_delta stamp)) j)) tb =
      Inr (map (listed_file (partition_fields_map tb)) (after_commit B (cp_base p) (cp_removed p) (cp_added p)))" for tb j
    using replay_commit [OF p(2) [folded B_def] p(3,4) [folded B_def] e(1-3)] t'(3,5,6)
    by (simp add: liveFiles_def canon_snapshot_def commit_record_def)
  have "commit_state stamp p m (ts_PartitionKeys ts) t'"
    unfolding commit_state_def t'(3)
    by (rule exI [of _ ts], rule exI [of _ "list_name (stamp_base stamp)"], rule exI [of _ "list_name (stamp_delta stamp)"],
        rule exI [of _ "nextSnapshotID (own_source t) B"])
      (simp add: t'(4) same(2) [OF i(1)] ts live)
  with t'(1-3) same(1) ok show ?thesis by (intro that [of t']) (simp_all add: table_ok_def B_def)
qed


lemma commit_state_read:
  assumes "commit_state stamp p m keys t"
  defines "tb \<equiv> (read_table (pmt_basePath t) keys m)\<lparr>LatestCommitTime := stamp_millis stamp\<rparr>"
  shows "\<exists>i. paimon_GetCurrentSnapshot (own_source t) =
      Inr \<lparr>SnapTable = tb, PartitionedDataFiles = [],
           DataFiles = map (listed_file (partition_fields_map tb)) (after_commit (pmt_basePath t) (cp_base p) (cp_removed p) (cp_added p)),
           SnapSourceIdentifier = formatInt i\<rparr>"
    and "currentFiles (own_source t) =
      Inr (map (listed_file (partition_fields_map tb)) (after_commit (pmt_basePath t) (cp_base p) (cp_removed p) (cp_added p)))"
proof -
  from assms(1) obtain ts bl dl i where "ts_PartitionKeys ts = keys"
    "latestSnapshot (own_source t) = Inr (Some (canon_snapshot (commit_record stamp p bl dl i)))"
    "readSchema (own_source t) (cp_schemaID p) = Inr ts" "PaimonToSchema (Some ts) = Inr m"
    "\<And>tb. liveFiles (own_source t) (canon_snapshot (commit_record stamp p bl dl i)) tb =
      Inr (map (listed_file (partition_fields_map tb)) (after_commit (pmt_basePath t) (cp_base p) (cp_removed p) (cp_added p)))"
    unfolding commit_state_def by blast
  then obtain c where c: "latestSnapshot (own_source t) = Inr (Some c)" "sn_SchemaID c = cp_schemaID p" "sn_TimeMillis c = stamp_millis stamp"
    "readSchema (own_source t) (cp_schemaID p) = Inr ts" "PaimonToSchema (Some ts) = Inr m" "ts_PartitionKeys ts = keys"
    "\<And>tb. liveFiles (own_source t) c tb =
      Inr (map (listed_file (partition_fields_map tb)) (after_commit (pmt_basePath t) (cp_base p) (cp_removed p) (cp_added p)))"
    by (auto simp: canon_snapshot_def commit_record_def)
  moreover have "partition_fields_map (x\<lparr>LatestCommitTime := l\<rparr>) = partition_fields_map x" for x l
    by (simp add: partition_fields_map_def)
  ultimately show "\<exists>i. paimon_GetCurrentSnapshot (own_source t) =
      Inr \<lparr>SnapTable = tb, PartitionedDataFiles = [],
           DataFiles = map (listed_file (partition_fields_map tb)) (after_commit (pmt_basePath t) (cp_base p) (cp_removed p) (cp_added p)),
           SnapSourceIdentifier = formatInt i\<rparr>"
    "currentFiles (own_source t) =
      Inr (map (listed_file (partition_fields_map tb)) (after_commit (pmt_basePath t) (cp_base p) (cp_removed p) (cp_added p)))"
    by (auto simp: paimon_GetCurrentSnapshot_def currentFiles_def tableForSchema_read tb_def)
qed

lemma commit_state_watermark:
  assumes "commit_state stamp p m keys t" "ready t" and "cp_properties p = syncProperties instant fmt ident" "in_int64 instant"
  shows "\<exists>md. paimon_GetTableMetadata t = Inr (Some md) \<and> LastInstantSynced md = instant \<and> (fmt \<noteq> '''' \<longrightarrow> SourceFormat md = fmt)"
proof -
  let ?m = "\<lparr>LastInstantSynced = instant, InstantsToConsiderForNextSync = [], SourceFormat = fmt, TargetFormat = '''',
    SourceIdentifier = ident, CustomProperties = []\<rparr>"
  from Read_Write_watermark [of ?m "[]"] assms(4) obtain md where
    md: "ReadSyncMetadataFromProperties (syncProperties instant fmt ident) = Some md" "LastInstantSynced md = instant"
      "fmt \<noteq> '''' \<longrightarrow> SourceFormat md = fmt" unfolding syncProperties_def by auto
  have "wf_map ([] :: (string, string) gomap)" by (simp add: wf_map_def)
  then have wf: "wf_map (syncProperties instant fmt ident)" unfolding syncProperties_def by (rule wf_Write)
  have ne: "sort_key fst (syncProperties instant fmt ident) \<noteq> []"
    using set_sort [of fst "syncProperties instant fmt ident"] by (metis Write_nonempty set_empty syncProperties_def)
  from assms(1) obtain bl dl i where "latestSnapshot (own_source t) = Inr (Some (canon_snapshot (commit_record stamp p bl dl i)))"
    unfolding commit_state_def by blast
  with assms(2,3) md ne Read_sorted [OF wf] show ?thesis
    by (simp add: paimon_GetTableMetadata_def target_own_source canon_snapshot_def commit_record_def)
qed

section \<open>Diffs\<close>

lemma applyDiff_fold:
  assumes "distinct (map (fileKey B) added)"
  shows "fst (foldl (\<lambda>(result, seen) f. let name = fileKey B f in if name \<in> seen then (result, seen) else (result @ [f], insert name seen))
    (res, seen) added) = res @ filter (\<lambda>g. fileKey B g \<notin> seen) added"
  using assms
proof (induction added arbitrary: res seen)
  case (Cons f added)
  then have "filter (\<lambda>g. fileKey B g \<notin> insert (fileKey B f) seen) added = filter (\<lambda>g. fileKey B g \<notin> seen) added"
    by (intro filter_cong refl) (auto simp: image_iff)
  with Cons show ?case by (simp add: Let_def)
qed simp

lemma applyDiff_eq:
  "distinct (map (fileKey B) added) \<Longrightarrow>
    applyDiff B base added removed =
      (let kept = filter (\<lambda>f. fileKey B f \<notin> fileKey B ` set removed) base
       in kept @ filter (\<lambda>g. fileKey B g \<notin> fileKey B ` set kept) added)"
  by (simp add: applyDiff_def Let_def applyDiff_fold [unfolded Let_def])

lemma applyDiff_keeps:
  assumes "distinct (map (fileKey B) added)"
  shows "list_all P base \<Longrightarrow> list_all P added \<Longrightarrow> list_all P (applyDiff B base added removed)"
    "distinct (map (fileKey B) base) \<Longrightarrow> distinct (map (fileKey B) (applyDiff B base added removed))"
  using assms by (auto simp: applyDiff_eq Let_def list_all_iff distinct_map_filter image_iff)

text \<open>A commit that adds no name in force is read back as the diff; a file it removes and adds again is listed twice.\<close>

lemma after_commit_diff:
  assumes "distinct (map (fileKey B) added)" and "list_all (\<lambda>g. fileKey B g \<notin> fileKey B ` set base) added"
  shows "after_commit B base removed added = applyDiff B base added removed"
proof -
  have "List.find (\<lambda>g. fileKey B g = fileKey B f) added = None" if "f \<in> set base" for f
    using that assms(2) by (auto simp: find_None_iff list_all_iff image_iff)
  then have "List.map_filter (\<lambda>f. case List.find (\<lambda>g. fileKey B g = fileKey B f) added of
        Some g \<Rightarrow> Some g | None \<Rightarrow> if fileKey B f \<in> fileKey B ` set removed then None else Some f) base =
      List.map_filter (\<lambda>f. if fileKey B f \<in> fileKey B ` set removed then None else Some f) base"
    by (intro map_filter_cong refl) simp
  also have "\<dots> = filter (\<lambda>f. fileKey B f \<notin> fileKey B ` set removed) base"
    by (induction base) (simp_all add: List.map_filter_simps)
  finally show ?thesis by (simp add: after_commit_def applyDiff_eq [OF assms(1)] Let_def Collect_conj_eq [symmetric])
qed

lemma filter_distinct_key: "distinct (map k xs) \<Longrightarrow> x \<in> set xs \<Longrightarrow> filter (\<lambda>y. k y = k x) xs = [x]"
  by (induction xs) (auto simp: filter_empty_conv image_iff)

lemma filter_map_filter:
  "(\<And>x y. h x = Some y \<Longrightarrow> k y = k x) \<Longrightarrow> filter (\<lambda>y. k y = n) (List.map_filter h xs) = List.map_filter h (filter (\<lambda>x. k x = n) xs)"
  by (induction xs) (auto simp: List.map_filter_simps split: option.splits)

text \<open>
  The same two operations over any key of a file. Where two keys tell the same files apart they agree, so the
  names of the manifests can be replaced by the paths.
\<close>

definition commit_by :: "(data_file \<Rightarrow> string) \<Rightarrow> data_file list \<Rightarrow> data_file list \<Rightarrow> data_file list \<Rightarrow> data_file list" where
  "commit_by k base removed added =
     List.map_filter (\<lambda>f. case List.find (\<lambda>g. k g = k f) added of
         Some g \<Rightarrow> Some g
       | None \<Rightarrow> if k f \<in> k ` set removed then None else Some f) base @
     filter (\<lambda>g. k g \<notin> k ` {f \<in> set base. k f \<notin> k ` set removed}) added"

definition diff_by :: "(data_file \<Rightarrow> string) \<Rightarrow> data_file list \<Rightarrow> data_file list \<Rightarrow> data_file list \<Rightarrow> data_file list" where
  "diff_by k base removed added =
     (let kept = filter (\<lambda>f. k f \<notin> k ` set removed) base in kept @ filter (\<lambda>g. k g \<notin> k ` set kept) added)"

lemma commit_by_fileKey: "after_commit B base removed added = commit_by (fileKey B) base removed added"
  by (simp add: after_commit_def commit_by_def)

lemma diff_by_fileKey: "distinct (map (fileKey B) added) \<Longrightarrow> applyDiff B base added removed = diff_by (fileKey B) base removed added"
  by (simp add: applyDiff_eq diff_by_def)

lemma image_key:
  assumes "\<And>x y. x \<in> S \<Longrightarrow> y \<in> S \<Longrightarrow> k x = k y \<longleftrightarrow> k' x = k' y" "x \<in> S" "X \<subseteq> S"
  shows "k x \<in> k ` X \<longleftrightarrow> k' x \<in> k' ` X"
  using assms by (fastforce simp: image_iff)

lemma by_key:
  assumes k: "\<And>x y. x \<in> S \<Longrightarrow> y \<in> S \<Longrightarrow> k x = k y \<longleftrightarrow> k' x = k' y"
    and s: "set base \<subseteq> S" "set removed \<subseteq> S" "set added \<subseteq> S"
  shows "commit_by k base removed added = commit_by k' base removed added"
    and "diff_by k base removed added = diff_by k' base removed added"
proof -
  note i = image_key [of S k k', OF k]
  have gone: "k x \<in> k ` set removed \<longleftrightarrow> k' x \<in> k' ` set removed" if "x \<in> S" for x by (rule i [OF _ _ that s(2)])
  have left: "{f \<in> set base. k f \<notin> k ` set removed} = {f \<in> set base. k' f \<notin> k' ` set removed}"
    using gone s(1) by blast
  have "List.find (\<lambda>g. k g = k f) added = List.find (\<lambda>g. k' g = k' f) added" if "f \<in> set base" for f
    by (rule find_cong [OF refl]) (use that s k in blast)
  then have "List.map_filter (\<lambda>f. case List.find (\<lambda>g. k g = k f) added of Some g \<Rightarrow> Some g
        | None \<Rightarrow> if k f \<in> k ` set removed then None else Some f) base =
      List.map_filter (\<lambda>f. case List.find (\<lambda>g. k' g = k' f) added of Some g \<Rightarrow> Some g
        | None \<Rightarrow> if k' f \<in> k' ` set removed then None else Some f) base"
    using gone s(1) by (intro map_filter_cong refl) (auto split: option.split)
  moreover have sub: "{f \<in> set base. k' f \<notin> k' ` set removed} \<subseteq> S" using s(1) by blast
  have new: "k g \<notin> k ` {f \<in> set base. k' f \<notin> k' ` set removed} \<longleftrightarrow> k' g \<notin> k' ` {f \<in> set base. k' f \<notin> k' ` set removed}"
    if "g \<in> set added" for g using i [OF _ _ _ sub, of g] that s(3) by blast
  then have "filter (\<lambda>g. k g \<notin> k ` {f \<in> set base. k f \<notin> k ` set removed}) added =
      filter (\<lambda>g. k' g \<notin> k' ` {f \<in> set base. k' f \<notin> k' ` set removed}) added"
    unfolding left by (rule filter_cong [OF refl])
  ultimately show "commit_by k base removed added = commit_by k' base removed added" by (simp add: commit_by_def)
  have kept: "filter (\<lambda>f. k f \<notin> k ` set removed) base = filter (\<lambda>f. k' f \<notin> k' ` set removed) base"
    by (rule filter_cong [OF refl]) (use gone s(1) in blast)
  have "filter (\<lambda>g. k g \<notin> k ` set (filter (\<lambda>f. k' f \<notin> k' ` set removed) base)) added =
      filter (\<lambda>g. k' g \<notin> k' ` set (filter (\<lambda>f. k' f \<notin> k' ` set removed) base)) added"
    by (rule filter_cong [OF refl]) (use new in \<open>simp only: set_filter\<close>)
  then show "diff_by k base removed added = diff_by k' base removed added" by (simp only: diff_by_def kept Let_def)
qed

text \<open>How often a commit lists a key: what the diff leaves, but twice what it removes and adds again.\<close>

lemma commit_hits:
  assumes d: "distinct (map k base)" "distinct (map k added)"
  shows "List.find (\<lambda>g. k g = n) added = None \<Longrightarrow>
      filter (\<lambda>h. k h = n) (commit_by k base removed added) = filter (\<lambda>h. k h = n) (diff_by k base removed added)"
    and "n \<notin> k ` set base \<Longrightarrow>
      filter (\<lambda>h. k h = n) (commit_by k base removed added) = filter (\<lambda>h. k h = n) (diff_by k base removed added)"
    and "g \<in> set added \<Longrightarrow> k g = n \<Longrightarrow> n \<in> k ` set base \<Longrightarrow>
      filter (\<lambda>h. k h = n) (commit_by k base removed added) = (if n \<in> k ` set removed then [g, g] else [g])"
proof -
  let ?newest = "\<lambda>f. case List.find (\<lambda>g. k g = k f) added of Some g \<Rightarrow> Some g | None \<Rightarrow> if k f \<in> k ` set removed then None else Some f"
  have key: "?newest x = Some y \<Longrightarrow> k y = k x" for x y
    by (auto simp: find_Some_iff split: option.splits if_splits)
  have at: "filter (\<lambda>h. k h = n) (List.map_filter ?newest xs) = List.map_filter ?newest (filter (\<lambda>h. k h = n) xs)" for xs
    by (rule filter_map_filter) (rule key)
  show "filter (\<lambda>h. k h = n) (commit_by k base removed added) = filter (\<lambda>h. k h = n) (diff_by k base removed added)"
    if none: "List.find (\<lambda>g. k g = n) added = None"
  proof -
    have "List.map_filter ?newest (filter (\<lambda>h. k h = n) xs) = filter (\<lambda>h. k h = n \<and> k h \<notin> k ` set removed) xs" for xs
      using none by (induction xs) (simp_all add: List.map_filter_simps)
    moreover have "filter (\<lambda>h. k h = n \<and> P h) added = []" for P
      using none by (auto simp: find_None_iff filter_empty_conv)
    ultimately show ?thesis by (simp add: commit_by_def diff_by_def Let_def at) (auto intro: filter_cong)
  qed
  show "filter (\<lambda>h. k h = n) (commit_by k base removed added) = filter (\<lambda>h. k h = n) (diff_by k base removed added)"
    if none: "n \<notin> k ` set base"
  proof -
    have "filter (\<lambda>h. k h = n) base = []" "filter (\<lambda>h. k h = n) (filter P base) = []" for P
      using none by (auto simp: filter_empty_conv)
    then show ?thesis by (simp only: commit_by_def diff_by_def Let_def filter_append at List.map_filter_simps set_filter append_Nil)
  qed
  assume g: "g \<in> set added" "k g = n" "n \<in> k ` set base"
  from g(3) obtain f where f: "f \<in> set base" "k f = n" by auto
  have "?newest f = Some g" using find_distinct [OF d(2) g(1)] f(2) g(2) by simp
  moreover have "filter (\<lambda>h. k h = n) base = [f]" using filter_distinct_key [OF d(1) f(1)] f(2) by simp
  ultimately have 1: "filter (\<lambda>h. k h = n) (List.map_filter ?newest base) = [g]" by (simp add: at List.map_filter_simps)
  have "filter (\<lambda>h. k h = n) (filter (\<lambda>g. k g \<notin> k ` {f \<in> set base. k f \<notin> k ` set removed}) added) =
      (if n \<in> k ` set removed then filter (\<lambda>h. k h = k g) added else [])"
    unfolding filter_filter using f g(2) by (auto simp: filter_empty_conv image_iff intro!: filter_cong)
  with 1 show "filter (\<lambda>h. k h = n) (commit_by k base removed added) = (if n \<in> k ` set removed then [g, g] else [g])"
    using filter_distinct_key [OF d(2) g(1)] by (simp add: commit_by_def)
qed

lemma commit_keys:
  assumes "distinct (map k base)" "distinct (map k added)"
  shows "k ` set (commit_by k base removed added) = k ` set (diff_by k base removed added)"
proof -
  have hit: "n \<in> k ` set xs \<longleftrightarrow> filter (\<lambda>h. k h = n) xs \<noteq> []" for n xs
    by (auto simp: filter_empty_conv)
  have "n \<in> k ` set (commit_by k base removed added) \<longleftrightarrow> n \<in> k ` set (diff_by k base removed added)" for n
  proof (cases "List.find (\<lambda>g. k g = n) added = None \<or> n \<notin> k ` set base")
    case True
    then have "filter (\<lambda>h. k h = n) (commit_by k base removed added) = filter (\<lambda>h. k h = n) (diff_by k base removed added)"
      using commit_hits(1,2) [OF assms] by blast
    then show ?thesis by (simp only: hit)
  next
    case False
    then obtain g f where g: "g \<in> set added" "k g = n" and f: "f \<in> set base" "k f = n" by (auto simp: find_None_iff)
    have "filter (\<lambda>h. k h = n) (commit_by k base removed added) \<noteq> []"
      using commit_hits(3) [OF assms g] f by (auto split: if_splits)
    moreover have "f \<in> set (diff_by k base removed added)" if "n \<notin> k ` set removed"
      using f that by (simp add: diff_by_def Let_def)
    moreover have "g \<in> set (diff_by k base removed added)" if "n \<in> k ` set removed"
      using g that by (simp add: diff_by_def Let_def) auto
    moreover have "n \<in> k ` set xs" if "f \<in> set xs \<or> g \<in> set xs" for xs
      using that f(2) g(2) by (metis imageI)
    ultimately show ?thesis unfolding hit by blast
  qed
  then show ?thesis by blast
qed

end
