(* ===== verification/Paimon_Commits.thy ===== *)
theory Paimon_Commits
  imports Paimon_Readback Hudi_Samples
begin

text \<open>
  The properties of the commits into a Paimon table (\<^verbatim>\<open>pkg/formats/paimon/target.go\<close>), each read back by the Paimon
  source: whole snapshots, batches of changes, files rewritten in place, and the schema files of successive commits.
\<close>

section \<open>Snapshots\<close>

lemma storable_keys:
  assumes "list_all (storable B) fs" "distinct (map PhysicalPath fs)"
  shows "distinct (map (fileKey B) fs)"
proof -
  have "JoinPath B [fileKey B f] = PhysicalPath f" if "f \<in> set fs" for f
    using storable_entry [of B f 0 0 "[]"] assms(1) that by (auto simp: list_all_iff)
  then have "map PhysicalPath fs = map (\<lambda>r. JoinPath B [r]) (map (fileKey B) fs)" by simp
  with assms(2) show ?thesis using distinct_map by metis
qed

lemma after_whole_snapshot [simp]: "after_commit B [] [] fs = fs"
  by (simp add: after_commit_def)

lemma snapshot_commit:
  assumes ok: "table_ok (Suc n) t" and st: "stamp_ok stamp" and w: "writable (SnapTable snap)" "ReadSchema (SnapTable snap) = Some s"
    and fs: "list_all (storable (pmt_basePath t)) (AllDataFiles snap)" "distinct (map PhysicalPath (AllDataFiles snap))"
  obtains t' p where "paimon_CommitSnapshot stamp t snap = (t', None)" "table_ok n t'" "pmt_basePath t' = pmt_basePath t"
    "commit_state stamp p (form_of s) (partition_keys (SnapTable snap)) t'" "cp_base p = []" "cp_removed p = []" "cp_added p = AllDataFiles snap"
    "cp_properties p = syncProperties (LatestCommitTime (SnapTable snap)) (TableFormat (SnapTable snap)) (SnapSourceIdentifier snap)"
proof -
  obtain t1 i ts where e: "ensureSchema t (SnapTable snap) = (t1, Inr i)" "table_ok n t1" "pmt_basePath t1 = pmt_basePath t" "0 \<le> i"
    "in_int64 i" "readSchema (own_source t1) i = Inr ts" "PaimonToSchema (Some ts) = Inr (form_of s)"
    "ts_PartitionKeys ts = partition_keys (SnapTable snap)"
    by (rule ensure_effect [OF ok w(2,1)])
  let ?p = "\<lparr>cp_schemaID = i, cp_base = [], cp_added = AllDataFiles snap, cp_removed = [], cp_commitKind = ''OVERWRITE'',
    cp_properties = syncProperties (LatestCommitTime (SnapTable snap)) (TableFormat (SnapTable snap)) (SnapSourceIdentifier snap)\<rparr>"
  have wf: "wf_map (syncProperties a b c)" for a b c by (simp add: syncProperties_def wf_map_def [of "[]"])
  obtain t' where t': "paimon_commit stamp t1 ?p = (t', None)" "table_ok n t'" "pmt_basePath t' = pmt_basePath t1"
    "commit_state stamp ?p (form_of s) (ts_PartitionKeys ts) t'"
    by (rule commit_listed [OF e(2) st, of ?p ts "form_of s"]) (use e fs storable_keys [OF fs] wf in simp_all)
  show ?thesis
    by (rule that [of t' ?p]) (use t' e w(2) in \<open>simp_all add: paimon_CommitSnapshot_def\<close>)
qed

text \<open>
  C21. A snapshot committed to a Paimon table reads back: the commit succeeds on every well-formed table, whatever was
  in it before, the table stays well-formed, and its source then returns exactly the snapshot's files, in order, each
  with its path, format, size, row count and time, under the schema in Paimon form, at the time of the commit; the
  watermark is the commit time of the snapshot's table.
\<close>

theorem paimon_snapshot_reads_back:
  assumes "table_ok (Suc n) t" and "stamp_ok stamp" and "writable (SnapTable snap)" and "ReadSchema (SnapTable snap) = Some s"
    and "list_all (storable (pmt_basePath t)) (AllDataFiles snap)" and "distinct (map PhysicalPath (AllDataFiles snap))"
    and "in_int64 (LatestCommitTime (SnapTable snap))"
  shows "\<exists>t' rb. paimon_CommitSnapshot stamp t snap = (t', None) \<and> table_ok n t' \<and>
    paimon_GetCurrentSnapshot (own_source t') = Inr rb \<and> ReadSchema (SnapTable rb) = Some (form_of s) \<and>
    LatestCommitTime (SnapTable rb) = stamp_millis stamp \<and>
    DataFiles rb = map (listed_file (partition_fields_map (SnapTable rb))) (AllDataFiles snap) \<and>
    (\<exists>md. paimon_GetTableMetadata t' = Inr (Some md) \<and> LastInstantSynced md = LatestCommitTime (SnapTable snap))"
proof -
  obtain t' p where t': "paimon_CommitSnapshot stamp t snap = (t', None)" "table_ok n t'" "pmt_basePath t' = pmt_basePath t"
    "commit_state stamp p (form_of s) (partition_keys (SnapTable snap)) t'" "cp_base p = []" "cp_removed p = []" "cp_added p = AllDataFiles snap"
    "cp_properties p = syncProperties (LatestCommitTime (SnapTable snap)) (TableFormat (SnapTable snap)) (SnapSourceIdentifier snap)"
    by (rule snapshot_commit [OF assms(1-6)])
  have "ready t'" using t'(2) by (simp add: table_ok_def)
  with commit_state_read(1) [OF t'(4)] commit_state_watermark [OF t'(4) _ t'(8) assms(7)] t'(1,2,5-7) show ?thesis
    by (fastforce simp: read_table_def)
qed

section \<open>Batches of changes\<close>

definition folded_files :: "string \<Rightarrow> data_file list \<Rightarrow> table_change list \<Rightarrow> data_file list" where
  "folded_files B base cs = foldl (\<lambda>fs c. applyDiff B fs (FilesAdded (FilesDiff c)) (FilesRemoved (FilesDiff c))) base cs"

definition change_ok :: "string \<Rightarrow> table_change \<Rightarrow> bool" where
  "change_ok B c \<longleftrightarrow> writable (TableAsOfChange c) \<and> in_int64 (CommitTime c) \<and>
     list_all (storable B) (FilesAdded (FilesDiff c)) \<and> list_all (storable B) (FilesRemoved (FilesDiff c)) \<and>
     distinct (map PhysicalPath (FilesAdded (FilesDiff c)))"

text \<open>What a batch leaves is the commit of its last change over the files of the earlier ones.\<close>

lemma changes_commit:
  assumes "table_ok (length cs) t" and "\<And>i. stamp_ok (stamps i)" and "list_all (change_ok (pmt_basePath t)) cs"
    and "list_all (storable (pmt_basePath t)) base" "distinct (map (fileKey (pmt_basePath t)) base)" and "cs \<noteq> []"
    and "in_int64 latest"
  shows "\<exists>t' p s. paimon_commit_changes stamps fmt t n latest base cs = (t', None) \<and> table_ok 0 t' \<and> pmt_basePath t' = pmt_basePath t \<and>
    ReadSchema (TableAsOfChange (last cs)) = Some s \<and>
    commit_state (stamps (n + length cs - 1)) p (form_of s) (partition_keys (TableAsOfChange (last cs))) t' \<and>
    cp_base p = folded_files (pmt_basePath t) base (butlast cs) \<and> cp_removed p = FilesRemoved (FilesDiff (last cs)) \<and>
    cp_added p = FilesAdded (FilesDiff (last cs)) \<and>
    cp_properties p = syncProperties (foldl (\<lambda>l c. if CommitTime c > l then CommitTime c else l) latest cs) fmt
      (ChangeSourceIdentifier (last cs))"
  using assms(1,3-)
proof (induction cs arbitrary: t n latest base)
  case (Cons c cs)
  let ?B = "pmt_basePath t" and ?add = "FilesAdded (FilesDiff c)" and ?rem = "FilesRemoved (FilesDiff c)"
  let ?l = "if CommitTime c > latest then CommitTime c else latest"
  from Cons.prems(2) have c: "change_ok ?B c" by simp
  then obtain s where s: "ReadSchema (TableAsOfChange c) = Some s" by (auto simp: change_ok_def writable_def split: option.splits)
  have add: "list_all (storable ?B) ?add" "distinct (map (fileKey ?B) ?add)" "list_all (storable ?B) ?rem"
    using c storable_keys by (auto simp: change_ok_def)
  obtain t1 i ts where e: "ensureSchema t (TableAsOfChange c) = (t1, Inr i)" "table_ok (length cs) t1" "pmt_basePath t1 = ?B" "0 \<le> i"
    "in_int64 i" "readSchema (own_source t1) i = Inr ts" "PaimonToSchema (Some ts) = Inr (form_of s)"
    "ts_PartitionKeys ts = partition_keys (TableAsOfChange c)"
    by (rule ensure_effect [OF _ s]) (use Cons.prems(1) c in \<open>auto simp: change_ok_def\<close>)
  let ?p = "\<lparr>cp_schemaID = i, cp_base = base, cp_added = ?add, cp_removed = ?rem, cp_commitKind = ''APPEND'',
    cp_properties = syncProperties ?l fmt (ChangeSourceIdentifier c)\<rparr>"
  have wf: "wf_map (syncProperties a b c)" for a b c by (simp add: syncProperties_def wf_map_def [of "[]"])
  obtain t2 where t2: "paimon_commit (stamps n) t1 ?p = (t2, None)" "table_ok (length cs) t2" "pmt_basePath t2 = pmt_basePath t1"
    "commit_state (stamps n) ?p (form_of s) (ts_PartitionKeys ts) t2"
    by (rule commit_listed [OF e(2) assms(2), of ?p ts "form_of s"]) (use e add Cons.prems(3,4) wf in simp_all)
  have step: "paimon_commit_changes stamps fmt t n latest base (c # cs) =
      paimon_commit_changes stamps fmt t2 (Suc n) ?l (applyDiff ?B base ?add ?rem) cs"
    using e(1,3) t2(1,3) by (simp add: Let_def)
  show ?case
  proof (cases "cs = []")
    case True
    with step t2 e s show ?thesis by (auto simp: folded_files_def intro!: exI [of _ ?p])
  next
    case False
    have l: "in_int64 ?l" using Cons.prems(6) c by (simp add: change_ok_def)
    note keeps = applyDiff_keeps [OF add(2)]
    have "\<exists>t' p s'. paimon_commit_changes stamps fmt t2 (Suc n) ?l (applyDiff ?B base ?add ?rem) cs = (t', None) \<and> table_ok 0 t' \<and>
        pmt_basePath t' = pmt_basePath t2 \<and> ReadSchema (TableAsOfChange (last cs)) = Some s' \<and>
        commit_state (stamps (Suc n + length cs - 1)) p (form_of s') (partition_keys (TableAsOfChange (last cs))) t' \<and>
        cp_base p = folded_files (pmt_basePath t2) (applyDiff ?B base ?add ?rem) (butlast cs) \<and> cp_removed p = FilesRemoved (FilesDiff (last cs)) \<and>
        cp_added p = FilesAdded (FilesDiff (last cs)) \<and>
        cp_properties p = syncProperties (foldl (\<lambda>l c. if CommitTime c > l then CommitTime c else l) ?l cs) fmt
          (ChangeSourceIdentifier (last cs))"
      by (rule Cons.IH) (use t2 e(3) Cons.prems keeps add False l in simp_all)
    with step False t2(3) e(3) show ?thesis by (simp add: folded_files_def)
  qed
qed simp


lemma after_commit_elems: "set (after_commit B base removed added) \<subseteq> set base \<union> set added"
proof -
  have "g \<in> set added" if "List.find P added = Some g" for P g
    using that by (auto simp: find_Some_iff)
  then show ?thesis
    by (auto simp: after_commit_def Let_def set_map_filter split: option.splits if_splits)
qed

lemma storable_key: "storable B f \<Longrightarrow> JoinPath B [fileKey B f] = PhysicalPath f"
  by (erule storable_entry [of B f 0 0 "[]"])

lemma same_key: "storable B f \<Longrightarrow> storable B g \<Longrightarrow> fileKey B f = fileKey B g \<longleftrightarrow> PhysicalPath f = PhysicalPath g"
  by (metis storable_key fileKey_def)

lemma folded_files_keep:
  assumes "list_all (change_ok B) cs" "list_all (storable B) base" "distinct (map (fileKey B) base)"
  shows "list_all (storable B) (folded_files B base cs) \<and> distinct (map (fileKey B) (folded_files B base cs))"
  using assms
proof (induction cs arbitrary: base)
  case (Cons c cs)
  then have "list_all (storable B) (FilesAdded (FilesDiff c))" "distinct (map (fileKey B) (FilesAdded (FilesDiff c)))"
    using storable_keys by (auto simp: change_ok_def)
  with Cons applyDiff_keeps [OF this(2)] show ?case by (simp add: folded_files_def)
qed (simp add: folded_files_def)

lemma changes_listed:
  assumes "table_ok (length cs) t" and "\<And>i. stamp_ok (stamps i)" and "list_all (change_ok (pmt_basePath t)) cs" and "cs \<noteq> []"
    and "currentFiles (own_source t) = Inr base" "list_all (storable (pmt_basePath t)) base" "distinct (map PhysicalPath base)"
  defines "before \<equiv> folded_files (pmt_basePath t) base (butlast cs)"
  obtains t' rb where "paimon_CommitChanges stamps t \<lparr>TableChanges = cs, CurrentTable = tbl\<rparr> = (t', None)" "table_ok 0 t'"
    "pmt_basePath t' = pmt_basePath t" "paimon_GetCurrentSnapshot (own_source t') = Inr rb"
    "DataFiles rb = map (listed_file (partition_fields_map (SnapTable rb)))
      (after_commit (pmt_basePath t) before (FilesRemoved (FilesDiff (last cs))) (FilesAdded (FilesDiff (last cs))))"
    "\<exists>md. paimon_GetTableMetadata t' = Inr (Some md) \<and> LastInstantSynced md = Max (insert 0 (CommitTime ` set cs))"
proof -
  have rd: "ready t" using assms(1) by (simp add: table_ok_def)
  have run: "paimon_CommitChanges stamps t \<lparr>TableChanges = cs, CurrentTable = tbl\<rparr> = paimon_commit_changes stamps (TableFormat tbl) t 0 0 base cs"
    using assms(5) by (simp add: paimon_CommitChanges_def target_own_source [OF rd])
  obtain t' p s where t': "paimon_commit_changes stamps (TableFormat tbl) t 0 0 base cs = (t', None)" "table_ok 0 t'"
    "pmt_basePath t' = pmt_basePath t"
    "commit_state (stamps (0 + length cs - 1)) p (form_of s) (partition_keys (TableAsOfChange (last cs))) t'"
    "cp_base p = before" "cp_removed p = FilesRemoved (FilesDiff (last cs))" "cp_added p = FilesAdded (FilesDiff (last cs))"
    "cp_properties p = syncProperties (foldl (\<lambda>l c. if CommitTime c > l then CommitTime c else l) 0 cs) (TableFormat tbl)
      (ChangeSourceIdentifier (last cs))"
    using changes_commit [where stamps = stamps, OF assms(1-3,6) storable_keys [OF assms(6,7)] assms(4), where n = 0 and fmt = "TableFormat tbl" and latest = 0] assms(8)
    by (auto simp: in_int64_def)
  have m: "foldl (\<lambda>l c. if CommitTime c > l then CommitTime c else l) 0 cs = Max (insert 0 (CommitTime ` set cs))"
    by (rule foldl_latest)
  have "in_int64 (Max (insert 0 (CommitTime ` set cs)))"
    using assms(3) Max_in [of "insert 0 (CommitTime ` set cs)"] by (auto simp: list_all_iff change_ok_def in_int64_def)
  with commit_state_watermark [OF t'(4) _ t'(8)] t'(2) m
  have w: "\<exists>md. paimon_GetTableMetadata t' = Inr (Some md) \<and> LastInstantSynced md = Max (insert 0 (CommitTime ` set cs))"
    by (auto simp: table_ok_def)
  from commit_state_read(1) [OF t'(4)] t'(3,5-7) obtain rb where
    "paimon_GetCurrentSnapshot (own_source t') = Inr rb"
    "DataFiles rb = map (listed_file (partition_fields_map (SnapTable rb)))
      (after_commit (pmt_basePath t) before (FilesRemoved (FilesDiff (last cs))) (FilesAdded (FilesDiff (last cs))))" by auto
  with that run t'(1-3) w show ?thesis by metis
qed

text \<open>
  The files a batch leaves, stated on the paths alone: a change takes out the files at the paths it removes and adds
  its files, except at a path that is still in force.
\<close>

abbreviation diff_files :: "data_file list \<Rightarrow> table_change \<Rightarrow> data_file list" where
  "diff_files fs c \<equiv> diff_by PhysicalPath fs (FilesRemoved (FilesDiff c)) (FilesAdded (FilesDiff c))"

definition batch_files :: "data_file list \<Rightarrow> table_change list \<Rightarrow> data_file list" where
  "batch_files base cs = foldl diff_files base cs"

lemma folded_batch:
  assumes "list_all (change_ok B) cs" "list_all (storable B) base"
  shows "folded_files B base cs = batch_files base cs"
  using assms
proof (induction cs arbitrary: base)
  case (Cons c cs)
  let ?add = "FilesAdded (FilesDiff c)" and ?rem = "FilesRemoved (FilesDiff c)"
  have c: "list_all (storable B) ?add" "list_all (storable B) ?rem" "distinct (map (fileKey B) ?add)"
    using Cons.prems(1) storable_keys by (auto simp: change_ok_def)
  have "applyDiff B base ?add ?rem = diff_files base c"
    unfolding diff_by_fileKey [OF c(3)]
    by (rule by_key(2) [of "Collect (storable B)"]) (use c Cons.prems(2) same_key in \<open>auto simp: list_all_iff\<close>)
  moreover have "list_all (storable B) (applyDiff B base ?add ?rem)" by (rule applyDiff_keeps(1) [OF c(3) Cons.prems(2) c(1)])
  ultimately show ?case using Cons.IH [of "diff_files base c"] Cons.prems(1) by (simp add: folded_files_def batch_files_def)
qed (simp add: folded_files_def batch_files_def)

lemma filter_listed: "filter (\<lambda>h. PhysicalPath h = p) (map (listed_file pfs) fs) = map (listed_file pfs) (filter (\<lambda>h. PhysicalPath h = p) fs)"
  by (simp add: filter_map comp_def listed_file_def)

text \<open>
  C10. A batch of changes committed to a Paimon table reads back: starting from the files the table lists, the commit
  succeeds, the table stays well-formed, the watermark is the latest commit time of the batch, and its source returns
  afterwards files at exactly the paths the diffs leave, folded one after the other. If the last change adds no path
  in force before it, the source returns exactly the files the diffs leave, in their order. If it does, every other
  path is still listed as the diffs leave it; the added file is listed in place of the one in force, and twice when
  the change also removes that path, as the diff of a file rewritten in place does.
\<close>

theorem paimon_changes_read_back:
  assumes "table_ok (length cs) t" and "\<And>i. stamp_ok (stamps i)" and "list_all (change_ok (pmt_basePath t)) cs" and "cs \<noteq> []"
    and "currentFiles (own_source t) = Inr base" "list_all (storable (pmt_basePath t)) base" "distinct (map PhysicalPath base)"
  shows "\<exists>t' rb listed. paimon_CommitChanges stamps t \<lparr>TableChanges = cs, CurrentTable = tbl\<rparr> = (t', None) \<and> table_ok 0 t' \<and>
    paimon_GetCurrentSnapshot (own_source t') = Inr rb \<and>
    DataFiles rb = map (listed_file (partition_fields_map (SnapTable rb))) listed \<and>
    PhysicalPath ` set listed = PhysicalPath ` set (batch_files base cs) \<and>
    ((\<forall>g \<in> set (FilesAdded (FilesDiff (last cs))). PhysicalPath g \<notin> PhysicalPath ` set (batch_files base (butlast cs))) \<longrightarrow>
      listed = batch_files base cs) \<and>
    (\<forall>p. p \<notin> PhysicalPath ` set (FilesAdded (FilesDiff (last cs))) \<or> p \<notin> PhysicalPath ` set (batch_files base (butlast cs)) \<longrightarrow>
      filter (\<lambda>h. PhysicalPath h = p) listed = filter (\<lambda>h. PhysicalPath h = p) (batch_files base cs)) \<and>
    (\<forall>g \<in> set (FilesAdded (FilesDiff (last cs))). PhysicalPath g \<in> PhysicalPath ` set (batch_files base (butlast cs)) \<longrightarrow>
      filter (\<lambda>h. PhysicalPath h = PhysicalPath g) listed =
        (if PhysicalPath g \<in> PhysicalPath ` set (FilesRemoved (FilesDiff (last cs))) then [g, g] else [g])) \<and>
    (\<exists>md. paimon_GetTableMetadata t' = Inr (Some md) \<and> LastInstantSynced md = Max (insert 0 (CommitTime ` set cs)))"
proof -
  let ?B = "pmt_basePath t" and ?add = "FilesAdded (FilesDiff (last cs))" and ?rem = "FilesRemoved (FilesDiff (last cs))"
  let ?before = "batch_files base (butlast cs)" and ?k = PhysicalPath
  let ?listed = "commit_by ?k ?before ?rem ?add"
  have last: "change_ok ?B (last cs)" "list_all (change_ok ?B) (butlast cs)"
    using assms(3,4) by (auto simp: list_all_iff dest: in_set_butlastD)
  then have add: "list_all (storable ?B) ?add" "list_all (storable ?B) ?rem" "distinct (map ?k ?add)" "distinct (map (fileKey ?B) ?add)"
    using storable_keys by (auto simp: change_ok_def)
  have fold: "folded_files ?B base (butlast cs) = ?before" by (rule folded_batch [OF last(2) assms(6)])
  have before: "list_all (storable ?B) ?before" "distinct (map (fileKey ?B) ?before)"
    using folded_files_keep [OF last(2) assms(6) storable_keys [OF assms(6,7)]] by (simp_all add: fold)
  have key: "fileKey ?B x = fileKey ?B y \<longleftrightarrow> ?k x = ?k y" if "x \<in> Collect (storable ?B)" "y \<in> Collect (storable ?B)" for x y
    using that same_key by simp
  have in_store: "set ?before \<subseteq> Collect (storable ?B)" "set ?rem \<subseteq> Collect (storable ?B)" "set ?add \<subseteq> Collect (storable ?B)"
    using before(1) add(1,2) by (auto simp: list_all_iff)
  note paths = by_key [where k = "fileKey ?B" and k' = ?k, OF key in_store]
  have d: "distinct (map ?k ?before)"
    using before(2) in_store(1) same_key by (fastforce simp: distinct_map inj_on_def)
  obtain t' rb where t': "paimon_CommitChanges stamps t \<lparr>TableChanges = cs, CurrentTable = tbl\<rparr> = (t', None)" "table_ok 0 t'"
    "paimon_GetCurrentSnapshot (own_source t') = Inr rb"
    "DataFiles rb = map (listed_file (partition_fields_map (SnapTable rb))) (after_commit ?B ?before ?rem ?add)"
    "\<exists>md. paimon_GetTableMetadata t' = Inr (Some md) \<and> LastInstantSynced md = Max (insert 0 (CommitTime ` set cs))"
    by (rule changes_listed [OF assms(1-7), where tbl = tbl, unfolded fold])
  have listed: "after_commit ?B ?before ?rem ?add = ?listed"
    unfolding commit_by_fileKey by (rule paths(1))
  have diff: "batch_files base cs = diff_by ?k ?before ?rem ?add"
    using assms(4) by (cases cs rule: rev_cases) (simp_all add: batch_files_def)
  have whole: "?listed = batch_files base cs" if "\<forall>g \<in> set ?add. ?k g \<notin> ?k ` set ?before"
  proof -
    have "list_all (\<lambda>g. fileKey ?B g \<notin> fileKey ?B ` set ?before) ?add"
      using that add(1) before(1) same_key by (fastforce simp: list_all_iff)
    from after_commit_diff [where removed = ?rem, OF add(4) this] have "?listed = applyDiff ?B ?before ?add ?rem" by (simp only: listed)
    also have "\<dots> = diff_by (fileKey ?B) ?before ?rem ?add" by (rule diff_by_fileKey [OF add(4)])
    also have "\<dots> = batch_files base cs" unfolding diff by (rule paths(2))
    finally show ?thesis .
  qed
  have none: "List.find (\<lambda>g. ?k g = p) ?add = None \<longleftrightarrow> p \<notin> ?k ` set ?add" for p by (auto simp: find_None_iff)
  note hits = commit_hits [where removed = ?rem, OF d add(3), folded diff, unfolded none]
  show ?thesis
  proof (rule exI [of _ t'], rule exI [of _ rb], rule exI [of _ ?listed], intro conjI)
    show "?k ` set ?listed = ?k ` set (batch_files base cs)" unfolding diff by (rule commit_keys [OF d add(3)])
  qed (use t' listed whole hits in auto)
qed



section \<open>Schema files of successive commits\<close>

lemma thread_res_elems:
  "thread_res g fs n = Inr (dfs, m) \<Longrightarrow> list_all2 (\<lambda>f df. \<exists>a b. g f a = Inr (df, b)) fs dfs"
  by (induction fs arbitrary: n dfs) (auto split: sum.splits prod.splits)

lemma stored_fields_atomic:
  assumes "thread_res modelFieldToPaimonField (Fields s) n = Inr (dfs, m)" "list_all2 field_trip dfs fs'"
  shows "map stored_field dfs = dfs \<longleftrightarrow> all_atomic s"
proof -
  let ?atomic = "\<lambda>f. case FieldSchema f of None \<Rightarrow> True | Some t \<Rightarrow> DataType t \<notin> {TypeRecord, TypeList, TypeMap}"
  have "map stored_field dfs = dfs \<longleftrightarrow> list_all ?atomic fs"
    if "list_all2 (\<lambda>f df. \<exists>a b. modelFieldToPaimonField f a = Inr (df, b)) fs dfs" "list_all2 field_trip dfs fs'" for fs
    using that
  proof (induction fs dfs arbitrary: fs' rule: list_all2_induct)
    case (Cons f fs df dfs)
    from Cons(1) obtain a b where w: "modelFieldToPaimonField f a = Inr (df, b)" by blast
    from Cons.prems obtain f' fs'' where "field_trip df f'" "list_all2 field_trip dfs fs''" by (auto simp: list_all2_Cons1)
    with Cons.IH written_field_stored [OF w] show ?case by simp
  qed simp
  with thread_res_elems [OF assms(1)] assms(2) show ?thesis by (simp add: all_atomic_def)
qed

lemma not_spelled_out:
  assumes "enc_table_schema ts = Some j" "wf_json j" "ts_PrimaryKeys ts = []" "ts_Options ts = []"
  shows "\<not> spelled_out_empty (marshal_indent j)"
proof -
  define kvs where "kvs = [(''id'', jint (ts_ID ts)), (''fields'', enc_fields (ts_Fields ts)),
      (''highestFieldId'', jint (ts_HighestFieldID ts))] @ omit_strings ''partitionKeys'' (ts_PartitionKeys ts)"
  have j: "j = JObj kvs"
    using assms(1,3,4) by (simp add: enc_table_schema_def omit_strings_def omit_map_def kvs_def split: if_splits)
  have k: "jfield ''fields'' kvs = Some (enc_fields (ts_Fields ts))" "jfield ''primaryKeys'' kvs = None" "jfield ''options'' kvs = None"
    "jfield ''partitionKeys'' kvs = (if ts_PartitionKeys ts = [] then None else Some (JArr (map JStr (ts_PartitionKeys ts))))"
    by (simp_all add: kvs_def omit_strings_def key_simps)
  have f: "enc_fields (ts_Fields ts) \<noteq> JArr []" "enc_fields (ts_Fields ts) \<noteq> JObj []" by (simp_all add: enc_fields_def)
  show ?thesis
    using assms(2) f unfolding j by (simp add: spelled_out_empty_def k)
qed

text \<open>The newest schema file of a table is the one the target wrote for a table's schema.\<close>

definition newest_schema :: "table_schema \<Rightarrow> int \<Rightarrow> paimon_target \<Rightarrow> bool" where
  "newest_schema ts i t \<longleftrightarrow> schema_versions t \<noteq> [] \<and> fst (last (schema_versions t)) = i \<and>
     (\<exists>j. enc_table_schema (ts\<lparr>ts_ID := i\<rparr>) = Some j \<and> mem_Read (pmt_storage t) (schema_path (pmt_basePath t) i) = Inr (marshal_indent j))"

lemma fresh_schema_newest:
  assumes ok: "table_ok (Suc n) t" and i: "0 \<le> i" "i + int n \<le> max_int64" and new: "\<And>v. v \<in> set (schema_versions t) \<Longrightarrow> fst v < i"
    and trip: "list_all2 field_trip dfs fs'" "in_int64 h"
    and ts: "ts = \<lparr>ts_ID = 0, ts_Fields = dfs, ts_HighestFieldID = h, ts_PartitionKeys = keys, ts_PrimaryKeys = [], ts_Options = []\<rparr>"
  obtains t' where "fresh_schema t ts i = (t', Inr i)" "table_ok n t'" "newest_schema ts i t'"
proof -
  have base: "table_base (pmt_basePath t)" using ok by (simp add: table_ok_def ready_def)
  have i64: "in_int64 i" using i by (simp add: in_int64_def)
  obtain t' where t': "fresh_schema t ts i = (t', Inr i)" "table_ok n t'" "pmt_basePath t' = pmt_basePath t"
    "readSchema (own_source t') i = Inr (ts\<lparr>ts_ID := i, ts_Fields := map stored_field dfs\<rparr>)"
    "\<And>q. q \<noteq> schema_path (pmt_basePath t) i \<Longrightarrow> mem_Read (pmt_storage t') q = mem_Read (pmt_storage t) q"
    "\<exists>j. enc_table_schema (ts\<lparr>ts_ID := i\<rparr>) = Some j \<and> mem_Read (pmt_storage t') (schema_path (pmt_basePath t) i) = Inr (marshal_indent j)"
    by (rule fresh_schema_effect [OF ok i trip ts], rule that, assumption+)
  have mem: "(i, schema_path (pmt_basePath t) i) \<in> set (schema_versions t')"
    using schema_path_version [OF base i64] t'(3,6) by (auto simp: set_listVersioned)
  have le: "k \<le> i" if kq: "(k, q) \<in> set (schema_versions t')" for k q
  proof (cases "q = schema_path (pmt_basePath t) i")
    case True
    then show ?thesis using kq schema_path_version(3) [OF base i64] by (simp add: set_listVersioned)
  next
    case False
    with kq have "(k, q) \<in> set (schema_versions t)" by (simp add: set_listVersioned t'(3,5))
    from new [OF this] show ?thesis by simp
  qed
  have ne: "schema_versions t' \<noteq> []" using mem by auto
  obtain k q where l: "last (schema_versions t') = (k, q)" by fastforce
  with listVersioned_last [OF ne] mem le [of k q] have "k = i" by fastforce
  with l ne t'(3,6) have "newest_schema ts i t'" by (simp add: newest_schema_def)
  with t'(1,2) show ?thesis by (rule that)
qed

lemma newest_schema_again:
  assumes ok: "table_ok (Suc n) t" and s: "ReadSchema tbl = Some s" and w: "writable tbl"
    and ts: "SchemaToPaimon (Some s) (partition_keys tbl) = Inr ts" and nw: "newest_schema ts i t"
  shows "if all_atomic s then ensureSchema t tbl = (t, Inr i)
    else \<exists>t'. ensureSchema t tbl = (t', Inr (i + 1)) \<and> table_ok n t' \<and> newest_schema ts (i + 1) t'"
proof -
  obtain dfs h where c: "SchemaToPaimon (Some s) (partition_keys tbl) =
      Inr \<lparr>ts_ID = 0, ts_Fields = dfs, ts_HighestFieldID = h, ts_PartitionKeys = partition_keys tbl, ts_PrimaryKeys = [], ts_Options = []\<rparr>"
    "thread_res modelFieldToPaimonField (Fields s) 0 = Inr (dfs, h)"
    "list_all2 field_trip dfs (fst (thread form_field (Fields s) 0))" "in_int64 h"
    by (rule converted_schema [OF s w, of "partition_keys tbl"]) (use s in auto)
  with ts have ts_eq: "ts = \<lparr>ts_ID = 0, ts_Fields = dfs, ts_HighestFieldID = h, ts_PartitionKeys = partition_keys tbl, ts_PrimaryKeys = [],
    ts_Options = []\<rparr>" by simp
  have rd: "ready t" using ok by (simp add: table_ok_def)
  from nw obtain j where nw: "schema_versions t \<noteq> []" "fst (last (schema_versions t)) = i"
    "enc_table_schema (ts\<lparr>ts_ID := i\<rparr>) = Some j" "mem_Read (pmt_storage t) (schema_path (pmt_basePath t) i) = Inr (marshal_indent j)"
    by (auto simp: newest_schema_def)
  have mx: "fst v \<le> i" if "v \<in> set (schema_versions t)" for v
    using listVersioned_last(2) [OF nw(1) that] nw(2) by simp
  obtain q where "(i, q) \<in> set (schema_versions t)" using listVersioned_last(1) [OF nw(1)] nw(2) by (metis prod.collapse)
  with ok have i: "0 \<le> i" "i + int (Suc n) \<le> max_int64"
    using schemas_okD [of "Suc n" "own_source t" i q] unfolding table_ok_def own_source_simps by blast+
  let ?prev = "ts\<lparr>ts_ID := i, ts_Fields := map stored_field dfs\<rparr>"
  have "in_int64 i" using i by (simp add: in_int64_def)
  with parse_stored_schema [of "ts\<lparr>ts_ID := i\<rparr>" "fst (thread form_field (Fields s) 0)"] c(3,4) ts_eq nw(3)
  have p: "wf_json j" "ParseTableSchemaJSON (marshal_indent j) = Inr ?prev" by auto
  have prev: "readSchema (own_source t) i = Inr ?prev" using i(1) nw(4) p(2) by (simp add: readSchema_at)
  have sf: "schema_file (own_source t) i = Inr (schema_path (pmt_basePath t) i, marshal_indent j)"
    using schema_file_at [of i "own_source t"] i(1) nw(4) by simp
  have "\<not> spelled_out_empty (marshal_indent j)" by (rule not_spelled_out [OF nw(3) p(1)]) (simp_all add: ts_eq)
  moreover have "ts\<lparr>ts_ID := i\<rparr> = ?prev \<longleftrightarrow> all_atomic s" using stored_fields_atomic [OF c(2,3)] by (auto simp: ts_eq)
  moreover have "wrap64 (i + 1) = i + 1" using i by (simp add: in_int64_def)
  ultimately have e: "ensureSchema t tbl = (if all_atomic s then (t, Inr i) else fresh_schema t ts (i + 1))"
    using ensureSchema_cases(2) [OF rd s ts nw(1,2) sf prev] by (simp add: ts_eq)
  obtain t' where "fresh_schema t ts (i + 1) = (t', Inr (i + 1))" "table_ok n t'" "newest_schema ts (i + 1) t'"
    by (rule fresh_schema_newest [OF ok _ _ _ c(3,4) ts_eq, of "i + 1"]) (use i mx in fastforce)+
  with e show ?thesis by auto
qed


lemma ensured_repeatedly:
  assumes "table_ok (Suc k + n) t" and s: "ReadSchema tbl = Some s" and w: "writable tbl" and "schema_versions t = []"
    and ts: "SchemaToPaimon (Some s) (partition_keys tbl) = Inr ts"
  shows "table_ok n (((\<lambda>t. fst (ensureSchema t tbl)) ^^ Suc k) t) \<and>
    newest_schema ts (if all_atomic s then 0 else int k) (((\<lambda>t. fst (ensureSchema t tbl)) ^^ Suc k) t)"
  using assms(1,4)
proof (induction k arbitrary: n)
  case 0
  obtain dfs h where c: "SchemaToPaimon (Some s) (partition_keys tbl) =
      Inr \<lparr>ts_ID = 0, ts_Fields = dfs, ts_HighestFieldID = h, ts_PartitionKeys = partition_keys tbl, ts_PrimaryKeys = [], ts_Options = []\<rparr>"
    "list_all2 field_trip dfs (fst (thread form_field (Fields s) 0))" "in_int64 h"
    by (rule converted_schema [OF s w, of "partition_keys tbl"]) (use s in auto)
  with ts have ts_eq: "ts = \<lparr>ts_ID = 0, ts_Fields = dfs, ts_HighestFieldID = h, ts_PartitionKeys = partition_keys tbl, ts_PrimaryKeys = [],
    ts_Options = []\<rparr>" by simp
  have rd: "ready t" and n: "int n \<le> max_int64" using 0 by (simp_all add: table_ok_def schemas_ok_def)
  obtain t' where "fresh_schema t ts 0 = (t', Inr 0)" "table_ok n t'" "newest_schema ts 0 t'"
    by (rule fresh_schema_newest [OF _ _ _ _ c(2,3) ts_eq, of n t 0]) (use 0 n in simp_all)
  with ensureSchema_cases(1) [OF rd s ts 0(2)] show ?case by simp
next
  case (Suc k)
  define t1 where "t1 = ((\<lambda>t. fst (ensureSchema t tbl)) ^^ Suc k) t"
  from Suc.IH [of "Suc n"] Suc.prems have t1: "table_ok (Suc n) t1" "newest_schema ts (if all_atomic s then 0 else int k) t1"
    by (simp_all add: t1_def)
  have step: "((\<lambda>t. fst (ensureSchema t tbl)) ^^ Suc (Suc k)) t = fst (ensureSchema t1 tbl)" by (simp add: t1_def)
  show ?case
    unfolding step using newest_schema_again [OF t1(1) s w ts t1(2)] t1 table_ok_mono [OF t1(1)]
    by (auto simp: add.commute split: if_splits)
qed

text \<open>
  C37. The schema a commit refers to: when the target writes the same table again and again into a new Paimon table, a
  schema of atomic columns keeps the file and the number of the first commit, as intended; a schema with a nested
  column is never recognised, because the file holds the column's type indented while the conversion gives it on one
  line, so every commit writes one more schema file and refers to a new number.
\<close>

theorem paimon_schema_versions:
  assumes "table_ok (Suc k + n) t" and "ReadSchema tbl = Some s" and "writable tbl" and "schema_versions t = []"
  shows "snd (ensureSchema (((\<lambda>t. fst (ensureSchema t tbl)) ^^ k) t) tbl) = Inr (if all_atomic s then 0 else int k)"
proof -
  obtain dfs h where ts: "SchemaToPaimon (Some s) (partition_keys tbl) =
      Inr \<lparr>ts_ID = 0, ts_Fields = dfs, ts_HighestFieldID = h, ts_PartitionKeys = partition_keys tbl, ts_PrimaryKeys = [], ts_Options = []\<rparr>"
    by (rule converted_schema [OF assms(2,3), of "partition_keys tbl"]) (use assms(2) in auto)
  show ?thesis
  proof (cases k)
    case 0
    obtain t' i where e: "ensureSchema t tbl = (t', Inr i)"
      by (rule ensure_effect [OF _ assms(2,3), of n t]) (use assms(1) 0 in auto)
    have "ready t" using assms(1) by (simp add: table_ok_def)
    from ensureSchema_cases(1) [OF this assms(2) ts assms(4)] e 0 show ?thesis
      by (auto simp: fresh_schema_def split: option.splits)
  next
    case (Suc j)
    let ?t = "((\<lambda>t. fst (ensureSchema t tbl)) ^^ Suc j) t"
    note t = ensured_repeatedly [OF _ assms(2-4) ts, of j "Suc n", THEN conjunct1] ensured_repeatedly [OF _ assms(2-4) ts, of j "Suc n", THEN conjunct2]
    have j: "table_ok (Suc j + Suc n) t" using assms(1) Suc by simp
    show ?thesis
      unfolding Suc using newest_schema_again [OF t(1) [OF j] assms(2,3) ts t(2) [OF j]] by (auto simp: add.commute split: if_splits)
  qed
qed

section \<open>A small table\<close>

definition paimon_target0 :: paimon_target where
  "paimon_target0 = paimon_Init (paimon_NewTarget NewMemoryStorage) hudi_table"

definition paimon_clock :: "nat \<Rightarrow> paimon_stamp" where
  "paimon_clock n = \<lparr>stamp_base = replicate 36 (CHR ''a''), stamp_delta = replicate 36 (CHR ''b''), stamp_millis = 2000 + int (n mod 2)\<rparr>"

lemma paimon_clock_ok: "stamp_ok (paimon_clock n)"
proof -
  have "set (replicate 36 (CHR ''a'')) \<noteq> set (replicate 36 (CHR ''b''))" by (simp)
  then have "replicate 36 (CHR ''a'') \<noteq> replicate 36 (CHR ''b'')" by metis
  then show ?thesis by (simp add: stamp_ok_def paimon_clock_def in_int64_def)
qed

lemma paimon_target0_base: "pmt_basePath paimon_target0 = ''s3://b/t''"
  by (simp add: paimon_target0_def paimon_Init_def hudi_table_def)

lemma paimon_target0_storage: "pmt_storage paimon_target0 = NewMemoryStorage"
  by (simp add: paimon_target0_def paimon_Init_def paimon_NewTarget_def)

lemma paimon_target0_ok: "int n \<le> max_int64 \<Longrightarrow> table_ok n paimon_target0" "schema_versions paimon_target0 = []"
proof -
  show v: "schema_versions paimon_target0 = []"
    by (simp add: listVersioned_def paimon_target0_storage mem_List_def NewMemoryStorage_def map_filter_simps)
  have "ready paimon_target0"
    using hudi_base paimon_target0_base by (simp add: ready_def paimon_target0_storage) (simp add: paimon_target0_def paimon_Init_def hudi_table_def)
  with v show "int n \<le> max_int64 \<Longrightarrow> table_ok n paimon_target0" by (simp add: table_ok_def schemas_ok_def)
qed

lemma paimon_target0_files: "currentFiles (own_source paimon_target0) = Inr []"
  by (simp add: currentFiles_def latestSnapshot_def readHint_def listVersioned_def paimon_target0_storage NewMemoryStorage_def
      mem_Read_def mem_List_def map_filter_simps Let_def)

lemma hudi_table_writable: "writable hudi_table" "ReadSchema hudi_table = Some (NewRecordSchema ''t'' [mkField ''id'' (Some (NewPrimitiveSchema TypeLong False))] False)"
  by (simp_all add: writable_def hudi_table_def NewRecordSchema_def NewPrimitiveSchema_def paimon_ok.simps)

lemma hudi_file_storable: "proper_seg p \<Longrightarrow> storable ''s3://b/t'' (hudi_file p)"
  using hudi_below [of p] by (simp add: storable_def hudi_file_def in_int64_def)

lemma sample_segs: "proper_seg ''a''" "proper_seg ''c''"
  by (simp_all add: proper_seg_def)

theorem paimon_snapshot_reads_back_witness:
  "\<exists>t' rb. paimon_CommitSnapshot (paimon_clock 0) paimon_target0 hudi_snapshot = (t', None) \<and>
    paimon_GetCurrentSnapshot (own_source t') = Inr rb \<and> map PhysicalPath (DataFiles rb) = [''s3://b/t/a'']"
proof -
  have "list_all (storable (pmt_basePath paimon_target0)) (AllDataFiles hudi_snapshot)"
    using hudi_file_storable sample_segs by (simp add: hudi_target0_parts paimon_target0_base)
  moreover have "SnapTable hudi_snapshot = hudi_table" "LatestCommitTime hudi_table = 1000"
    by (simp_all add: hudi_snapshot_def hudi_table_def)
  ultimately have "\<exists>t' rb. paimon_CommitSnapshot (paimon_clock 0) paimon_target0 hudi_snapshot = (t', None) \<and> table_ok 0 t' \<and>
      paimon_GetCurrentSnapshot (own_source t') = Inr rb \<and>
      ReadSchema (SnapTable rb) = Some (form_of (NewRecordSchema ''t'' [mkField ''id'' (Some (NewPrimitiveSchema TypeLong False))] False)) \<and>
      LatestCommitTime (SnapTable rb) = stamp_millis (paimon_clock 0) \<and>
      DataFiles rb = map (listed_file (partition_fields_map (SnapTable rb))) (AllDataFiles hudi_snapshot) \<and>
      (\<exists>md. paimon_GetTableMetadata t' = Inr (Some md) \<and> LastInstantSynced md = LatestCommitTime (SnapTable hudi_snapshot))"
    by (intro paimon_snapshot_reads_back)
      (use paimon_target0_ok(1) [of 1] paimon_clock_ok hudi_table_writable in \<open>simp_all add: hudi_target0_parts in_int64_def\<close>)
  then show ?thesis by (auto simp: hudi_target0_parts listed_file_def) (auto simp: hudi_file_def)
qed

definition sample_change :: "data_file list \<Rightarrow> data_file list \<Rightarrow> table_change" where
  "sample_change added removed =
     \<lparr>FilesDiff = \<lparr>FilesAdded = added, FilesRemoved = removed\<rparr>, TableAsOfChange = hudi_table, ChangeSourceIdentifier = ''10'', CommitTime = 1000\<rparr>"

lemma sample_change_ok:
  "list_all proper_seg (as @ rs) \<Longrightarrow> distinct as \<Longrightarrow> change_ok ''s3://b/t'' (sample_change (map hudi_file as) (map hudi_file rs))"
  using hudi_file_storable hudi_table_writable(1)
  by (auto simp: change_ok_def sample_change_def in_int64_def list_all_iff distinct_map inj_on_def hudi_file_def)

lemma sample_key: "proper_seg p \<Longrightarrow> fileKey ''s3://b/t'' (hudi_file p) = fileKey ''s3://b/t'' (hudi_file q) \<Longrightarrow> proper_seg q \<Longrightarrow> p = q"
  using same_key [OF hudi_file_storable hudi_file_storable, of p q] by (simp add: hudi_file_def)

text \<open>
  Two batches over the empty table: the first replaces \<open>a\<close> by \<open>c\<close>, the second writes \<open>a\<close> and then rewrites it in
  place, which lists it twice.
\<close>

theorem paimon_changes_read_back_witness:
  "(\<exists>t' rb. paimon_CommitChanges paimon_clock paimon_target0
      \<lparr>TableChanges = [sample_change [hudi_file ''a''] [], sample_change [hudi_file ''c''] [hudi_file ''a'']], CurrentTable = hudi_table\<rparr> = (t', None) \<and>
    paimon_GetCurrentSnapshot (own_source t') = Inr rb \<and> map PhysicalPath (DataFiles rb) = [''s3://b/t/c'']) \<and>
   (\<exists>t' rb. paimon_CommitChanges paimon_clock paimon_target0
      \<lparr>TableChanges = [sample_change [hudi_file ''a''] [], sample_change [hudi_file ''a''] [hudi_file ''a'']], CurrentTable = hudi_table\<rparr> = (t', None) \<and>
    paimon_GetCurrentSnapshot (own_source t') = Inr rb \<and> length (filter (\<lambda>h. PhysicalPath h = ''s3://b/t/a'') (DataFiles rb)) = 2)"
proof
  let ?batch = "\<lambda>x. [sample_change [hudi_file ''a''] [], sample_change [hudi_file x] [hudi_file ''a'']]"
  have ok: "list_all (change_ok ''s3://b/t'') (?batch ''c'')" "list_all (change_ok ''s3://b/t'') (?batch ''a'')"
    using sample_change_ok [of "[''a'']" "[]"] sample_change_ok [of "[''c'']" "[''a'']"] sample_change_ok [of "[''a'']" "[''a'']"] sample_segs
    by simp_all
  have f: "batch_files [] (?batch ''c'') = [hudi_file ''c'']" "batch_files [] (butlast (?batch x)) = [hudi_file ''a'']" for x
    by (auto simp: batch_files_def sample_change_def diff_by_def Let_def)
  have n: "PhysicalPath (hudi_file ''c'') \<noteq> PhysicalPath (hudi_file ''a'')" by (simp add: hudi_file_def)
  note start = paimon_target0_ok(1) [of "Suc (Suc 0)"] paimon_clock_ok paimon_target0_files
  have run: "table_ok (length (?batch x)) paimon_target0" "\<And>i. stamp_ok (paimon_clock i)" "?batch x \<noteq> []"
    "currentFiles (own_source paimon_target0) = Inr []" "list_all (storable (pmt_basePath paimon_target0)) []"
    "distinct (map PhysicalPath ([] :: data_file list))" for x
    using start by simp_all
  note read_back = paimon_changes_read_back [where tbl = hudi_table and stamps = paimon_clock, OF run(1) run(2) _ run(3) run(4) run(5) run(6), unfolded paimon_target0_base]
  show "\<exists>t' rb. paimon_CommitChanges paimon_clock paimon_target0 \<lparr>TableChanges = ?batch ''c'', CurrentTable = hudi_table\<rparr> = (t', None) \<and>
    paimon_GetCurrentSnapshot (own_source t') = Inr rb \<and> map PhysicalPath (DataFiles rb) = [''s3://b/t/c'']"
  proof -
    obtain t' rb listed where r: "paimon_CommitChanges paimon_clock paimon_target0 \<lparr>TableChanges = ?batch ''c'', CurrentTable = hudi_table\<rparr> = (t', None)"
      "paimon_GetCurrentSnapshot (own_source t') = Inr rb"
      "DataFiles rb = map (listed_file (partition_fields_map (SnapTable rb))) listed"
      "(\<forall>g \<in> set (FilesAdded (FilesDiff (last (?batch ''c'')))). PhysicalPath g \<notin> PhysicalPath ` set [hudi_file ''a'']) \<longrightarrow>
        listed = [hudi_file ''c'']"
      using read_back [OF ok(1), unfolded f] by (elim exE conjE) (rule that; assumption)
    have "listed = [hudi_file ''c'']" using r(4) n by (simp add: sample_change_def)
    with r(1-3) show ?thesis by (simp add: listed_file_def hudi_file_def)
  qed
  show "\<exists>t' rb. paimon_CommitChanges paimon_clock paimon_target0 \<lparr>TableChanges = ?batch ''a'', CurrentTable = hudi_table\<rparr> = (t', None) \<and>
    paimon_GetCurrentSnapshot (own_source t') = Inr rb \<and> length (filter (\<lambda>h. PhysicalPath h = ''s3://b/t/a'') (DataFiles rb)) = 2"
  proof -
    obtain t' rb listed where r: "paimon_CommitChanges paimon_clock paimon_target0 \<lparr>TableChanges = ?batch ''a'', CurrentTable = hudi_table\<rparr> = (t', None)"
      "paimon_GetCurrentSnapshot (own_source t') = Inr rb"
      "DataFiles rb = map (listed_file (partition_fields_map (SnapTable rb))) listed"
      "\<forall>g \<in> set (FilesAdded (FilesDiff (last (?batch ''a'')))). PhysicalPath g \<in> PhysicalPath ` set [hudi_file ''a''] \<longrightarrow>
        filter (\<lambda>h. PhysicalPath h = PhysicalPath g) listed =
          (if PhysicalPath g \<in> PhysicalPath ` set (FilesRemoved (FilesDiff (last (?batch ''a'')))) then [g, g] else [g])"
      using read_back [OF ok(2), unfolded f] by (elim exE conjE) (rule that; assumption)
    have "filter (\<lambda>h. PhysicalPath h = PhysicalPath (hudi_file ''a'')) listed = [hudi_file ''a'', hudi_file ''a'']"
      using r(4) by (simp add: sample_change_def)
    moreover have "PhysicalPath (hudi_file ''a'') = ''s3://b/t/a''" by (simp add: hudi_file_def)
    ultimately show ?thesis using r(1-3) by (auto simp: filter_listed)
  qed
qed

theorem paimon_schema_versions_witness:
  "snd (ensureSchema (((\<lambda>t. fst (ensureSchema t (hudi_table\<lparr>ReadSchema := Some sample_paimon_schema\<rparr>))) ^^ 3) paimon_target0)
      (hudi_table\<lparr>ReadSchema := Some sample_paimon_schema\<rparr>)) = Inr 3 \<and>
   snd (ensureSchema (((\<lambda>t. fst (ensureSchema t hudi_table)) ^^ 3) paimon_target0) hudi_table) = Inr 0"
proof -
  have "\<not> all_atomic sample_paimon_schema"
    by (simp add: all_atomic_def sample_paimon_schema_def NewRecordSchema_def list_schema_def)
  moreover have "all_atomic (NewRecordSchema ''t'' [mkField ''id'' (Some (NewPrimitiveSchema TypeLong False))] False)"
    by (simp add: all_atomic_def NewRecordSchema_def NewPrimitiveSchema_def)
  moreover have "writable (hudi_table\<lparr>ReadSchema := Some sample_paimon_schema\<rparr>)" using sample_paimon_ok by (simp add: writable_def)
  ultimately show ?thesis
    using paimon_schema_versions [of 3 0 paimon_target0 "hudi_table\<lparr>ReadSchema := Some sample_paimon_schema\<rparr>" sample_paimon_schema]
      paimon_schema_versions [OF _ hudi_table_writable(2,1), of 3 0 paimon_target0] paimon_target0_ok(1) [of 4] paimon_target0_ok(2)
    by simp
qed

end
