(* ===== verification/Conversion_Paimon.thy ===== *)
theory Conversion_Paimon
  imports Conversion_Hudi Paimon_Commits
begin

text \<open>
  The Paimon adapter behind the controller's interfaces. The interpretation of \<open>sync_target\<close> on the Paimon target
  gives the controller's watermark lemmas for syncs into Paimon tables.
\<close>

definition paimon_open :: "mem_storage \<Rightarrow> table \<Rightarrow> paimon_target" where
  "paimon_open st tbl = paimon_Init (paimon_NewTarget st) tbl"

definition paimon_conversion_target :: "paimon_stamp \<Rightarrow> (nat \<Rightarrow> paimon_stamp) \<Rightarrow> table \<Rightarrow> mem_storage conversion_target" where
  "paimon_conversion_target stamp stamps tbl =
     \<lparr>ctGetTableMetadata = \<lambda>st. paimon_GetTableMetadata (paimon_open st tbl),
      ctCommitSnapshot = \<lambda>st snap. (case paimon_CommitSnapshot stamp (paimon_open st tbl) snap of (t, e) \<Rightarrow> (pmt_storage t, e)),
      ctCommitChanges = \<lambda>st ic. (case paimon_CommitChanges stamps (paimon_open st tbl) ic of (t, e) \<Rightarrow> (pmt_storage t, e))\<rparr>"

text \<open>
  What a sync into a Paimon table needs: a well-formed table, files below it, and instants of 64 bits that grow along
  a batch, as the sources deliver them (the target records the greatest, the controller reports the last).
\<close>

definition paimon_snap_ok :: "paimon_stamp \<Rightarrow> table \<Rightarrow> mem_storage \<Rightarrow> snapshot \<Rightarrow> bool" where
  "paimon_snap_ok stamp tbl st snap \<longleftrightarrow>
     table_ok 1 (paimon_open st tbl) \<and> stamp_ok stamp \<and> writable (SnapTable snap) \<and> in_int64 (LatestCommitTime (SnapTable snap)) \<and>
     list_all (storable (BasePath tbl)) (AllDataFiles snap) \<and> distinct (map PhysicalPath (AllDataFiles snap))"

definition paimon_changes_ok :: "(nat \<Rightarrow> paimon_stamp) \<Rightarrow> table \<Rightarrow> mem_storage \<Rightarrow> incremental_changes \<Rightarrow> bool" where
  "paimon_changes_ok stamps tbl st ic \<longleftrightarrow>
     table_ok (length (TableChanges ic)) (paimon_open st tbl) \<and> (\<forall>i. stamp_ok (stamps i)) \<and>
     list_all (change_ok (BasePath tbl)) (TableChanges ic) \<and>
     (case currentFiles (own_source (paimon_open st tbl)) of
        Inl _ \<Rightarrow> False
      | Inr base \<Rightarrow> list_all (storable (BasePath tbl)) base \<and> distinct (map PhysicalPath base)) \<and>
     (TableChanges ic \<noteq> [] \<longrightarrow> CommitTime (last (TableChanges ic)) = Max (insert 0 (CommitTime ` set (TableChanges ic))))"

lemma paimon_open_parts [simp]:
  "pmt_basePath (paimon_open st tbl) = BasePath tbl" "pmt_storage (paimon_open st tbl) = st"
  "pmt_sourceBase (paimon_open st tbl) = Some (BasePath tbl)"
  by (simp_all add: paimon_open_def paimon_Init_def paimon_NewTarget_def)

text \<open>A target opened again reads what the target that wrote it reads.\<close>

lemma paimon_reopened:
  assumes "ready t" "pmt_basePath t = BasePath tbl"
  shows "own_source (paimon_open (pmt_storage t) tbl) = own_source t"
    "paimon_GetTableMetadata (paimon_open (pmt_storage t) tbl) = paimon_GetTableMetadata t"
    "table_ok n (paimon_open (pmt_storage t) tbl) = table_ok n t"
proof -
  show src: "own_source (paimon_open (pmt_storage t) tbl) = own_source t" using assms(2) by (simp add: own_source_def)
  have rd: "ready (paimon_open (pmt_storage t) tbl)" using assms by (simp add: ready_def)
  show "paimon_GetTableMetadata (paimon_open (pmt_storage t) tbl) = paimon_GetTableMetadata t"
    by (simp add: paimon_GetTableMetadata_def target_own_source [OF rd] target_own_source [OF assms(1)] src)
  show "table_ok n (paimon_open (pmt_storage t) tbl) = table_ok n t" by (simp add: table_ok_def rd assms(1) src)
qed

lemma paimon_snapshot_sync:
  assumes "paimon_snap_ok stamp tbl st snap"
  obtains t rb where "paimon_CommitSnapshot stamp (paimon_open st tbl) snap = (t, None)" "table_ok 0 t" "pmt_basePath t = BasePath tbl"
    "paimon_GetCurrentSnapshot (own_source t) = Inr rb"
    "DataFiles rb = map (listed_file (partition_fields_map (SnapTable rb))) (AllDataFiles snap)"
    "\<exists>md. paimon_GetTableMetadata t = Inr (Some md) \<and> LastInstantSynced md = LatestCommitTime (SnapTable snap)"
proof -
  from assms obtain s where s: "ReadSchema (SnapTable snap) = Some s" by (auto simp: paimon_snap_ok_def writable_def split: option.splits)
  obtain t p where t: "paimon_CommitSnapshot stamp (paimon_open st tbl) snap = (t, None)" "table_ok 0 t" "pmt_basePath t = BasePath tbl"
    "commit_state stamp p (form_of s) (partition_keys (SnapTable snap)) t" "cp_base p = []" "cp_removed p = []" "cp_added p = AllDataFiles snap"
    "cp_properties p = syncProperties (LatestCommitTime (SnapTable snap)) (TableFormat (SnapTable snap)) (SnapSourceIdentifier snap)"
    by (rule snapshot_commit [of 0 "paimon_open st tbl" stamp snap s]) (use assms s in \<open>auto simp: paimon_snap_ok_def\<close>)
  from commit_state_read(1) [OF t(4)] t(3,5-7) obtain rb where "paimon_GetCurrentSnapshot (own_source t) = Inr rb"
    "DataFiles rb = map (listed_file (partition_fields_map (SnapTable rb))) (AllDataFiles snap)" by auto
  with that t(1-3) commit_state_watermark [OF t(4) _ t(8)] assms show ?thesis by (auto simp: table_ok_def paimon_snap_ok_def)
qed

interpretation paimon_sync: sync_target "paimon_conversion_target stamp stamps tbl" "paimon_snap_ok stamp tbl" "paimon_changes_ok stamps tbl"
  for stamp stamps tbl
proof
  fix st snap st'
  assume ok: "paimon_snap_ok stamp tbl st snap"
    and c: "ctCommitSnapshot (paimon_conversion_target stamp stamps tbl) st snap = (st', None)"
  obtain t rb where t: "paimon_CommitSnapshot stamp (paimon_open st tbl) snap = (t, None)" "table_ok 0 t" "pmt_basePath t = BasePath tbl"
    "paimon_GetCurrentSnapshot (own_source t) = Inr rb"
    "DataFiles rb = map (listed_file (partition_fields_map (SnapTable rb))) (AllDataFiles snap)"
    "\<exists>md. paimon_GetTableMetadata t = Inr (Some md) \<and> LastInstantSynced md = LatestCommitTime (SnapTable snap)"
    by (rule paimon_snapshot_sync [OF ok])
  from c t(1) have "st' = pmt_storage t" by (simp add: paimon_conversion_target_def)
  with t(2,3,6) paimon_reopened(2) [of t tbl]
  show "\<exists>m. ctGetTableMetadata (paimon_conversion_target stamp stamps tbl) st' = Inr (Some m) \<and>
      LastInstantSynced m = LatestCommitTime (SnapTable snap)"
    by (simp add: paimon_conversion_target_def table_ok_def)
next
  fix st ic st'
  assume ok: "paimon_changes_ok stamps tbl st ic" and ne: "TableChanges ic \<noteq> []"
    and c: "ctCommitChanges (paimon_conversion_target stamp stamps tbl) st ic = (st', None)"
  from ok obtain base where base: "currentFiles (own_source (paimon_open st tbl)) = Inr base" "list_all (storable (BasePath tbl)) base"
    "distinct (map PhysicalPath base)" by (auto simp: paimon_changes_ok_def split: sum.splits)
  have last: "CommitTime (last (TableChanges ic)) = Max (insert 0 (CommitTime ` set (TableChanges ic)))" using ok ne by (simp add: paimon_changes_ok_def)
  have st: "\<And>i. stamp_ok (stamps i)" using ok by (simp add: paimon_changes_ok_def)
  obtain t rb where t: "paimon_CommitChanges stamps (paimon_open st tbl) \<lparr>TableChanges = TableChanges ic, CurrentTable = CurrentTable ic\<rparr> = (t, None)"
    "table_ok 0 t" "pmt_basePath t = pmt_basePath (paimon_open st tbl)"
    "\<exists>md. paimon_GetTableMetadata t = Inr (Some md) \<and> LastInstantSynced md = Max (insert 0 (CommitTime ` set (TableChanges ic)))"
    by (rule changes_listed [of "TableChanges ic" "paimon_open st tbl" stamps base, where tbl = "CurrentTable ic"])
      (use ok ne base st in \<open>auto simp: paimon_changes_ok_def\<close>)
  have "\<lparr>TableChanges = TableChanges ic, CurrentTable = CurrentTable ic\<rparr> = ic" by simp
  with c t(1) have "st' = pmt_storage t" by (simp add: paimon_conversion_target_def)
  with t(2-4) last paimon_reopened(2) [of t tbl]
  show "\<exists>m. ctGetTableMetadata (paimon_conversion_target stamp stamps tbl) st' = Inr (Some m) \<and>
      LastInstantSynced m = CommitTime (last (TableChanges ic))"
    by (simp add: paimon_conversion_target_def table_ok_def)
qed


text \<open>A successful sync into a Paimon table leaves the watermark it reports, and the next sync resumes there.\<close>

lemma paimon_sync_resumes:
  assumes "syncToTarget mode source (paimon_conversion_target stamp stamps tbl) TableFormatPaimon dur False st = (st', r)"
    and "StatusCode r = SyncStatusSuccess"
    and "\<And>snap. csGetCurrentSnapshot source st = Inr snap \<Longrightarrow> paimon_snap_ok stamp tbl st snap"
    and "\<And>i ic. csGetChangesSince source st i = Inr ic \<Longrightarrow> paimon_changes_ok stamps tbl st ic"
    and "0 < ResLastInstantSynced r" "mode' \<noteq> SyncModeFull"
    and "csIsIncrementalSyncSafeFrom source' st' (ResLastInstantSynced r) = Inr True"
  shows "syncToTarget mode' source' (paimon_conversion_target stamp stamps tbl) TableFormatPaimon dur' dry st' =
      incremental_sync source' (paimon_conversion_target stamp stamps tbl) TableFormatPaimon dur' dry (ResLastInstantSynced r) st'"
  by (rule paimon_sync.next_sync_resumes [OF assms(1,2) _ _ assms(5-7)]) (use assms(3,4) in auto)

text \<open>
  C2. A full sync into a Paimon table mirrors its source: whatever the source is and whatever the table held before, the
  sync succeeds, a Paimon source opened on the result lists exactly the files of the source's snapshot, none of earlier
  syncs, the watermark is the one the sync reports, and the table is well-formed for the next sync.
\<close>

theorem paimon_full_sync_mirrors:
  assumes "csGetCurrentSnapshot source st = Inr snap" and "paimon_snap_ok stamp tbl st snap"
  shows "\<exists>st' rb. syncToTarget SyncModeFull source (paimon_conversion_target stamp stamps tbl) TableFormatPaimon dur False st =
      (st', NewSuccessSyncResult TableFormatPaimon (LatestCommitTime (SnapTable snap)) dur) \<and>
    paimon_GetCurrentSnapshot (paimon_NewSource st' (BasePath tbl)) = Inr rb \<and>
    map PhysicalPath (DataFiles rb) = map PhysicalPath (AllDataFiles snap) \<and>
    map RecordCount (DataFiles rb) = map RecordCount (AllDataFiles snap) \<and>
    (\<exists>md. paimon_GetTableMetadata (paimon_open st' tbl) = Inr (Some md) \<and> LastInstantSynced md = LatestCommitTime (SnapTable snap)) \<and>
    table_ok 0 (paimon_open st' tbl)"
proof -
  obtain t rb where t: "paimon_CommitSnapshot stamp (paimon_open st tbl) snap = (t, None)" "table_ok 0 t" "pmt_basePath t = BasePath tbl"
    "paimon_GetCurrentSnapshot (own_source t) = Inr rb"
    "DataFiles rb = map (listed_file (partition_fields_map (SnapTable rb))) (AllDataFiles snap)"
    "\<exists>md. paimon_GetTableMetadata t = Inr (Some md) \<and> LastInstantSynced md = LatestCommitTime (SnapTable snap)"
    by (rule paimon_snapshot_sync [OF assms(2)])
  have plan: "sync_plan SyncModeFull source st m = Inl ''''" for m by (simp add: sync_plan_def split: option.split)
  have run: "syncToTarget SyncModeFull source (paimon_conversion_target stamp stamps tbl) TableFormatPaimon dur False st =
      (pmt_storage t, NewSuccessSyncResult TableFormatPaimon (LatestCommitTime (SnapTable snap)) dur)"
    using assms(1) t(1) by (simp add: syncToTarget_def plan full_sync_def paimon_conversion_target_def applyFallbackReason_def)
  have "paimon_NewSource (pmt_storage t) (BasePath tbl) = own_source t" using t(3) by (simp add: own_source_def)
  with run t paimon_reopened(2,3) [of t tbl] show ?thesis
    by (auto simp: table_ok_def listed_file_def comp_def)
qed

theorem paimon_full_sync_mirrors_witness:
  "\<exists>st' rb. syncToTarget SyncModeFull (hudi_sample_source :: mem_storage conversion_source)
      (paimon_conversion_target (paimon_clock 0) paimon_clock hudi_table) TableFormatPaimon 5 False NewMemoryStorage =
      (st', NewSuccessSyncResult TableFormatPaimon 1000 5) \<and>
    paimon_GetCurrentSnapshot (paimon_NewSource st' ''s3://b/t'') = Inr rb \<and> map PhysicalPath (DataFiles rb) = [''s3://b/t/a'']"
proof -
  have "paimon_open NewMemoryStorage hudi_table = paimon_target0" by (simp add: paimon_open_def paimon_target0_def)
  moreover have "LatestCommitTime (SnapTable hudi_snapshot) = 1000" "SnapTable hudi_snapshot = hudi_table" "BasePath hudi_table = ''s3://b/t''"
    by (simp_all add: hudi_snapshot_def hudi_table_def)
  ultimately have ok: "paimon_snap_ok (paimon_clock 0) hudi_table NewMemoryStorage hudi_snapshot"
    using paimon_target0_ok(1) [of 1] paimon_clock_ok hudi_table_writable hudi_file_storable sample_segs
    by (simp add: paimon_snap_ok_def hudi_target0_parts in_int64_def)
  have src: "csGetCurrentSnapshot hudi_sample_source NewMemoryStorage = Inr hudi_snapshot" by (simp add: hudi_sample_source_def)
  from paimon_full_sync_mirrors [OF src ok, of paimon_clock 5] show ?thesis
    using \<open>LatestCommitTime (SnapTable hudi_snapshot) = 1000\<close> \<open>BasePath hudi_table = ''s3://b/t''\<close>
    by (auto simp: hudi_target0_parts) (auto simp: hudi_file_def)
qed

end
