(* ===== verification/Iceberg_Metadata.thy ===== *)
theory Iceberg_Metadata
  imports Json_Struct Go_Float Model_Core
begin

text \<open>
  \<^verbatim>\<open>pkg/formats/iceberg/metadata.go\<close>: the structs of an Iceberg table and the JSON form their tags give them.
  The \<^verbatim>\<open>Type\<close> of a field is an \<^verbatim>\<open>any\<close> with two shapes: what the converter builds (a type name, or a Go map for a
  struct, list or map) and what \<^verbatim>\<open>encoding/json\<close> puts there when a document is read, \<open>TDoc\<close>. A list of pointers read
  from a document may hold nil. A document that was read is never written again.
\<close>

section \<open>Schemas\<close>

datatype ice_type =
    TName string
  | TStruct "ice_field list"
  | TList int ice_type bool
  | TMap int ice_type int ice_type bool
  | TDoc json
  and ice_field = IceField
    (nf_ID: int)
    (nf_Name: string)
    (nf_Type: ice_type)
    (nf_Required: bool)
    (nf_Doc: string)
    (nf_InitialDefault: json)
    (nf_WriteDefault: json)

record ice_schema =
  is_Type :: string
  is_SchemaID :: int
  is_IdentifierFieldIDs :: "int list"
  is_Fields :: "ice_field option list"

text \<open>A nil slice is printed as null; the members of a Go map in the order of their keys.\<close>

definition jslice :: "json list \<Rightarrow> json" where
  "jslice js = (if js = [] then JNull else JArr js)"

definition omit_doc :: "string \<Rightarrow> json \<Rightarrow> members" where
  "omit_doc k j = (if j = JNull then [] else [(k, j)])"

fun enc_ice_type :: "ice_type \<Rightarrow> json"
  and enc_ice_field :: "ice_field \<Rightarrow> json" where
  "enc_ice_type (TName s) = JStr s"
| "enc_ice_type (TStruct fs) = JObj [(''fields'', jslice (map enc_ice_field fs)), (''type'', JStr ''struct'')]"
| "enc_ice_type (TList i e req) =
     JObj [(''element'', enc_ice_type e), (''element-id'', jint i), (''element-required'', JBool req), (''type'', JStr ''list'')]"
| "enc_ice_type (TMap ki k vi v req) =
     JObj [(''key'', enc_ice_type k), (''key-id'', jint ki), (''type'', JStr ''map''), (''value'', enc_ice_type v),
       (''value-id'', jint vi), (''value-required'', JBool req)]"
| "enc_ice_type (TDoc j) = j"
| "enc_ice_field (IceField i nm t req doc initial write_default) =
     JObj ([(''id'', jint i), (''name'', JStr nm), (''type'', enc_ice_type t), (''required'', JBool req)] @ omit_str ''doc'' doc @
       omit_doc ''initial-default'' initial @ omit_doc ''write-default'' write_default)"

definition enc_pointer :: "('a \<Rightarrow> json) \<Rightarrow> 'a option \<Rightarrow> json" where
  "enc_pointer f p = (case p of None \<Rightarrow> JNull | Some x \<Rightarrow> f x)"

definition enc_ice_schema :: "ice_schema \<Rightarrow> json" where
  "enc_ice_schema s =
     JObj ([(''type'', JStr (is_Type s)), (''schema-id'', jint (is_SchemaID s))] @
       (if is_IdentifierFieldIDs s = [] then [] else [(''identifier-field-ids'', JArr (map jint (is_IdentifierFieldIDs s)))]) @
       [(''fields'', jslice (map (enc_pointer enc_ice_field) (is_Fields s)))])"

text \<open>A value read into an \<^verbatim>\<open>any\<close>, and a list of pointers.\<close>

definition dec_doc :: "json option \<Rightarrow> json option" where
  "dec_doc j = (case j of None \<Rightarrow> Some JNull | Some v \<Rightarrow> if floats_ok v then Some v else None)"

fun doc_type :: "json \<Rightarrow> ice_type" where
  "doc_type (JStr s) = TName s"
| "doc_type j = TDoc j"

abbreviation dec_pointers :: "(json \<Rightarrow> 'a option) \<Rightarrow> json option \<Rightarrow> 'a option list option" where
  "dec_pointers f \<equiv> dec_list (\<lambda>j. dec_ptr f (Some j))"

definition dec_ice_field :: "json \<Rightarrow> ice_field option" where
  "dec_ice_field j =
     Option.bind (struct_members j) (\<lambda>kvs.
     Option.bind (dec_int (jfield ''id'' kvs)) (\<lambda>i.
     Option.bind (dec_string (jfield ''name'' kvs)) (\<lambda>nm.
     Option.bind (dec_doc (jfield ''type'' kvs)) (\<lambda>t.
     Option.bind (dec_bool (jfield ''required'' kvs)) (\<lambda>req.
     Option.bind (dec_string (jfield ''doc'' kvs)) (\<lambda>doc.
     Option.bind (dec_doc (jfield ''initial-default'' kvs)) (\<lambda>initial.
     Option.bind (dec_doc (jfield ''write-default'' kvs)) (\<lambda>write_default.
     Some (IceField i nm (doc_type t) req doc initial write_default)))))))))"

definition dec_ice_schema :: "json \<Rightarrow> ice_schema option" where
  "dec_ice_schema j =
     Option.bind (struct_members j) (\<lambda>kvs.
     Option.bind (dec_string (jfield ''type'' kvs)) (\<lambda>t.
     Option.bind (dec_int (jfield ''schema-id'' kvs)) (\<lambda>i.
     Option.bind (dec_list (\<lambda>v. dec_int (Some v)) (jfield ''identifier-field-ids'' kvs)) (\<lambda>idents.
     Option.bind (dec_pointers dec_ice_field (jfield ''fields'' kvs)) (\<lambda>fs.
     Some \<lparr>is_Type = t, is_SchemaID = i, is_IdentifierFieldIDs = idents, is_Fields = fs\<rparr>)))))"

section \<open>Partition specs and sort orders\<close>

record ice_partition_field =
  ipf_SourceID :: int
  ipf_FieldID :: int
  ipf_Name :: string
  ipf_Transform :: string

record ice_spec =
  spec_ID :: int
  spec_Fields :: "ice_partition_field option list"

record ice_sort_field =
  sf_Transform :: string
  sf_SourceID :: int
  sf_Direction :: string
  sf_NullOrder :: string

record ice_sort_order =
  so_OrderID :: int
  so_Fields :: "ice_sort_field option list"

definition enc_ice_partition_field :: "ice_partition_field \<Rightarrow> json" where
  "enc_ice_partition_field f =
     JObj [(''source-id'', jint (ipf_SourceID f)), (''field-id'', jint (ipf_FieldID f)), (''name'', JStr (ipf_Name f)),
       (''transform'', JStr (ipf_Transform f))]"

definition dec_ice_partition_field :: "json \<Rightarrow> ice_partition_field option" where
  "dec_ice_partition_field j =
     Option.bind (struct_members j) (\<lambda>kvs.
     Option.bind (dec_int (jfield ''source-id'' kvs)) (\<lambda>src.
     Option.bind (dec_int (jfield ''field-id'' kvs)) (\<lambda>i.
     Option.bind (dec_string (jfield ''name'' kvs)) (\<lambda>nm.
     Option.bind (dec_string (jfield ''transform'' kvs)) (\<lambda>tr.
     Some \<lparr>ipf_SourceID = src, ipf_FieldID = i, ipf_Name = nm, ipf_Transform = tr\<rparr>)))))"

text \<open>The two slices below are made with an empty array where the code writes them.\<close>

definition enc_ice_spec :: "ice_spec \<Rightarrow> json" where
  "enc_ice_spec s =
     JObj [(''spec-id'', jint (spec_ID s)), (''fields'', JArr (map (enc_pointer enc_ice_partition_field) (spec_Fields s)))]"

definition dec_ice_spec :: "json \<Rightarrow> ice_spec option" where
  "dec_ice_spec j =
     Option.bind (struct_members j) (\<lambda>kvs.
     Option.bind (dec_int (jfield ''spec-id'' kvs)) (\<lambda>i.
     Option.bind (dec_pointers dec_ice_partition_field (jfield ''fields'' kvs)) (\<lambda>fs.
     Some \<lparr>spec_ID = i, spec_Fields = fs\<rparr>)))"

definition enc_ice_sort_field :: "ice_sort_field \<Rightarrow> json" where
  "enc_ice_sort_field f =
     JObj [(''transform'', JStr (sf_Transform f)), (''source-id'', jint (sf_SourceID f)), (''direction'', JStr (sf_Direction f)),
       (''null-order'', JStr (sf_NullOrder f))]"

definition dec_ice_sort_field :: "json \<Rightarrow> ice_sort_field option" where
  "dec_ice_sort_field j =
     Option.bind (struct_members j) (\<lambda>kvs.
     Option.bind (dec_string (jfield ''transform'' kvs)) (\<lambda>tr.
     Option.bind (dec_int (jfield ''source-id'' kvs)) (\<lambda>src.
     Option.bind (dec_string (jfield ''direction'' kvs)) (\<lambda>dir.
     Option.bind (dec_string (jfield ''null-order'' kvs)) (\<lambda>nulls.
     Some \<lparr>sf_Transform = tr, sf_SourceID = src, sf_Direction = dir, sf_NullOrder = nulls\<rparr>)))))"

definition enc_ice_sort_order :: "ice_sort_order \<Rightarrow> json" where
  "enc_ice_sort_order s =
     JObj [(''order-id'', jint (so_OrderID s)), (''fields'', JArr (map (enc_pointer enc_ice_sort_field) (so_Fields s)))]"

definition dec_ice_sort_order :: "json \<Rightarrow> ice_sort_order option" where
  "dec_ice_sort_order j =
     Option.bind (struct_members j) (\<lambda>kvs.
     Option.bind (dec_int (jfield ''order-id'' kvs)) (\<lambda>i.
     Option.bind (dec_pointers dec_ice_sort_field (jfield ''fields'' kvs)) (\<lambda>fs.
     Some \<lparr>so_OrderID = i, so_Fields = fs\<rparr>)))"

section \<open>Snapshots\<close>

record ice_summary =
  sum_Operation :: string
  sum_AddedDataFiles :: string
  sum_AddedRecords :: string
  sum_TotalDataFiles :: string
  sum_TotalRecords :: string
  sum_ExtraProperties :: "(string, string) gomap"

record ice_snapshot =
  isn_SnapshotID :: int
  isn_ParentSnapshotID :: "int option"
  isn_SequenceNumber :: int
  isn_TimestampMs :: int
  isn_ManifestList :: string
  isn_Summary :: "(string, string) gomap"
  isn_SchemaID :: "int option"

record ice_log_entry =
  sle_SnapshotID :: int
  sle_TimestampMs :: int

text \<open>A summary is a map the target always fills; a nil one, which would be printed as null, is not told from an empty one.\<close>

definition enc_ice_snapshot :: "ice_snapshot \<Rightarrow> json" where
  "enc_ice_snapshot s =
     JObj ([(''snapshot-id'', jint (isn_SnapshotID s))] @ omit_nil ''parent-snapshot-id'' jint (isn_ParentSnapshotID s) @
       [(''sequence-number'', jint (isn_SequenceNumber s)), (''timestamp-ms'', jint (isn_TimestampMs s)),
        (''manifest-list'', JStr (isn_ManifestList s)), (''summary'', enc_map JStr (isn_Summary s))] @
       omit_nil ''schema-id'' jint (isn_SchemaID s))"

definition dec_ice_snapshot :: "json \<Rightarrow> ice_snapshot option" where
  "dec_ice_snapshot j =
     Option.bind (struct_members j) (\<lambda>kvs.
     Option.bind (dec_int (jfield ''snapshot-id'' kvs)) (\<lambda>i.
     Option.bind (dec_int_ptr (jfield ''parent-snapshot-id'' kvs)) (\<lambda>parent.
     Option.bind (dec_int (jfield ''sequence-number'' kvs)) (\<lambda>seq.
     Option.bind (dec_int (jfield ''timestamp-ms'' kvs)) (\<lambda>ts.
     Option.bind (dec_string (jfield ''manifest-list'' kvs)) (\<lambda>lst.
     Option.bind (dec_smap (jfield ''summary'' kvs)) (\<lambda>summary.
     Option.bind (dec_int_ptr (jfield ''schema-id'' kvs)) (\<lambda>sid.
     Some \<lparr>isn_SnapshotID = i, isn_ParentSnapshotID = parent, isn_SequenceNumber = seq, isn_TimestampMs = ts,
           isn_ManifestList = lst, isn_Summary = summary, isn_SchemaID = sid\<rparr>))))))))"

definition enc_ice_log_entry :: "ice_log_entry \<Rightarrow> json" where
  "enc_ice_log_entry e = JObj [(''snapshot-id'', jint (sle_SnapshotID e)), (''timestamp-ms'', jint (sle_TimestampMs e))]"

definition dec_ice_log_entry :: "json \<Rightarrow> ice_log_entry option" where
  "dec_ice_log_entry j =
     Option.bind (struct_members j) (\<lambda>kvs.
     Option.bind (dec_int (jfield ''snapshot-id'' kvs)) (\<lambda>i.
     Option.bind (dec_int (jfield ''timestamp-ms'' kvs)) (\<lambda>ts.
     Some \<lparr>sle_SnapshotID = i, sle_TimestampMs = ts\<rparr>)))"

section \<open>Table metadata\<close>

record ice_metadata =
  im_FormatVersion :: int
  im_TableUUID :: string
  im_Location :: string
  im_LastSequenceNumber :: int
  im_LastUpdatedMs :: int
  im_LastColumnID :: int
  im_CurrentSchemaID :: int
  im_Schemas :: "ice_schema option list"
  im_DefaultSpecID :: int
  im_PartitionSpecs :: "ice_spec option list"
  im_LastPartitionID :: int
  im_SortOrders :: "ice_sort_order option list"
  im_DefaultSortOrderID :: int
  im_Properties :: "(string, string) gomap"
  im_CurrentSnapshotID :: "int option"
  im_Snapshots :: "ice_snapshot option list"
  im_SnapshotLog :: "ice_log_entry option list"

definition omit_slice :: "string \<Rightarrow> ('a \<Rightarrow> json) \<Rightarrow> 'a option list \<Rightarrow> members" where
  "omit_slice k f xs = (if xs = [] then [] else [(k, JArr (map (enc_pointer f) xs))])"

definition enc_ice_metadata :: "ice_metadata \<Rightarrow> json" where
  "enc_ice_metadata m =
     JObj ([(''format-version'', jint (im_FormatVersion m)), (''table-uuid'', JStr (im_TableUUID m)), (''location'', JStr (im_Location m)),
        (''last-sequence-number'', jint (im_LastSequenceNumber m)), (''last-updated-ms'', jint (im_LastUpdatedMs m)),
        (''last-column-id'', jint (im_LastColumnID m)), (''current-schema-id'', jint (im_CurrentSchemaID m)),
        (''schemas'', jslice (map (enc_pointer enc_ice_schema) (im_Schemas m))), (''default-spec-id'', jint (im_DefaultSpecID m)),
        (''partition-specs'', jslice (map (enc_pointer enc_ice_spec) (im_PartitionSpecs m))),
        (''last-partition-id'', jint (im_LastPartitionID m)),
        (''sort-orders'', jslice (map (enc_pointer enc_ice_sort_order) (im_SortOrders m))),
        (''default-sort-order-id'', jint (im_DefaultSortOrderID m))] @
        omit_map ''properties'' JStr (im_Properties m) @ omit_nil ''current-snapshot-id'' jint (im_CurrentSnapshotID m) @
        omit_slice ''snapshots'' enc_ice_snapshot (im_Snapshots m) @ omit_slice ''snapshot-log'' enc_ice_log_entry (im_SnapshotLog m))"

definition dec_ice_metadata :: "json \<Rightarrow> ice_metadata option" where
  "dec_ice_metadata j =
     Option.bind (struct_members j) (\<lambda>kvs.
     Option.bind (dec_int (jfield ''format-version'' kvs)) (\<lambda>version.
     Option.bind (dec_string (jfield ''table-uuid'' kvs)) (\<lambda>uuid.
     Option.bind (dec_string (jfield ''location'' kvs)) (\<lambda>location.
     Option.bind (dec_int (jfield ''last-sequence-number'' kvs)) (\<lambda>seq.
     Option.bind (dec_int (jfield ''last-updated-ms'' kvs)) (\<lambda>updated.
     Option.bind (dec_int (jfield ''last-column-id'' kvs)) (\<lambda>column.
     Option.bind (dec_int (jfield ''current-schema-id'' kvs)) (\<lambda>schemaID.
     Option.bind (dec_pointers dec_ice_schema (jfield ''schemas'' kvs)) (\<lambda>schemas.
     Option.bind (dec_int (jfield ''default-spec-id'' kvs)) (\<lambda>specID.
     Option.bind (dec_pointers dec_ice_spec (jfield ''partition-specs'' kvs)) (\<lambda>specs.
     Option.bind (dec_int (jfield ''last-partition-id'' kvs)) (\<lambda>partition.
     Option.bind (dec_pointers dec_ice_sort_order (jfield ''sort-orders'' kvs)) (\<lambda>orders.
     Option.bind (dec_int (jfield ''default-sort-order-id'' kvs)) (\<lambda>orderID.
     Option.bind (dec_smap (jfield ''properties'' kvs)) (\<lambda>props.
     Option.bind (dec_int_ptr (jfield ''current-snapshot-id'' kvs)) (\<lambda>snapshotID.
     Option.bind (dec_pointers dec_ice_snapshot (jfield ''snapshots'' kvs)) (\<lambda>snapshots.
     Option.bind (dec_pointers dec_ice_log_entry (jfield ''snapshot-log'' kvs)) (\<lambda>log.
     Some \<lparr>im_FormatVersion = version, im_TableUUID = uuid, im_Location = location, im_LastSequenceNumber = seq,
           im_LastUpdatedMs = updated, im_LastColumnID = column, im_CurrentSchemaID = schemaID, im_Schemas = schemas,
           im_DefaultSpecID = specID, im_PartitionSpecs = specs, im_LastPartitionID = partition, im_SortOrders = orders,
           im_DefaultSortOrderID = orderID, im_Properties = props, im_CurrentSnapshotID = snapshotID,
           im_Snapshots = snapshots, im_SnapshotLog = log\<rparr>))))))))))))))))))"

section \<open>Manifests\<close>

record manifest_data_file =
  mdf_Content :: int
  mdf_FilePath :: string
  mdf_FileFormat :: string
  mdf_Partition :: "(string, any) gomap"
  mdf_RecordCount :: int
  mdf_FileSizeInBytes :: int
  mdf_ColumnSizes :: "(int, int) gomap"
  mdf_ValueCounts :: "(int, int) gomap"
  mdf_NullValueCounts :: "(int, int) gomap"
  mdf_NanValueCounts :: "(int, int) gomap"
  mdf_LowerBounds :: "(int, string) gomap"
  mdf_UpperBounds :: "(int, string) gomap"

record ice_manifest_entry =
  ime_Status :: int
  ime_SnapshotID :: int
  ime_SequenceNumber :: "int option"
  ime_FileSequenceNumber :: "int option"
  ime_DataFile :: "manifest_data_file option"

record manifest_list_entry =
  mle_ManifestPath :: string
  mle_ManifestLength :: int
  mle_PartitionSpecID :: int
  mle_Content :: int
  mle_SequenceNumber :: int
  mle_MinSequenceNumber :: int
  mle_AddedSnapshotID :: int
  mle_AddedFilesCount :: int
  mle_ExistingFilesCount :: int
  mle_DeletedFilesCount :: int
  mle_AddedRowsCount :: int
  mle_ExistingRowsCount :: int
  mle_DeletedRowsCount :: int

end
