(* ===== verification/Go_Ieee.thy ===== *)
theory Go_Ieee
  imports Go_Parse Model_Core
begin

text \<open>
  IEEE 754 floats as Go stores them: the double or single nearest to a literal as a mantissa and an exponent, its bit
  pattern (\<^verbatim>\<open>math.Float64bits\<close>, \<^verbatim>\<open>math.Float32bits\<close>) and back, conversions between the two widths and to integers, and the
  value of a text that \<^verbatim>\<open>strconv.ParseFloat\<close> accepts. A float read from its bits is given by the literal of its exact
  value.
\<close>

section \<open>Rounding\<close>

text \<open>
  \<open>round_parts p emin n d\<close> is \<open>(m, e)\<close> with \<open>m * 2^e\<close> the float of precision \<open>p\<close> and least exponent \<open>emin\<close> nearest to
  \<open>n / d\<close>, ties to even.
\<close>

definition round_parts :: "nat \<Rightarrow> int \<Rightarrow> nat \<Rightarrow> nat \<Rightarrow> nat \<times> int" where
  "round_parts p emin n d =
     (if n = 0 then (0, emin)
      else
        (let k = (if d \<le> n then int (ilog2 (n div d)) else - int (ilog2 ((d - 1) div n) + 1));
             e = max (k - int (p - 1)) emin
         in (if 0 \<le> e then round_div n (d * 2 ^ nat e) else round_div (n * 2 ^ nat (- e)) d, e)))"

abbreviation double_parts :: "nat \<Rightarrow> nat \<Rightarrow> nat \<times> int" where
  "double_parts \<equiv> round_parts 53 (- 1074)"

abbreviation single_parts :: "nat \<Rightarrow> nat \<Rightarrow> nat \<times> int" where
  "single_parts \<equiv> round_parts 24 (- 149)"

text \<open>The exact value of \<open>m * 2^e\<close> as numerator and denominator, and as a literal.\<close>

definition scaled :: "nat \<times> int \<Rightarrow> nat \<times> nat" where
  "scaled me = (case me of (m, e) \<Rightarrow> if 0 \<le> e then (m * 2 ^ nat e, 1) else (m, 2 ^ nat (- e)))"

definition exact_literal :: "bool \<Rightarrow> nat \<times> int \<Rightarrow> string" where
  "exact_literal neg me =
     (case me of
        (m, e) \<Rightarrow>
          (if neg then ''-'' else '''') @
          (if 0 \<le> e then nat_dec (m * 2 ^ nat e) else nat_dec (m * 5 ^ nat (- e)) @ ''e-'' @ nat_dec (nat (- e))))"

text \<open>The double a literal denotes.\<close>

definition literal_double :: "string \<Rightarrow> bool \<times> nat \<times> int" where
  "literal_double l = (case literal_value l of (neg, n, d) \<Rightarrow> (neg, double_parts n d))"

definition literal_single :: "string \<Rightarrow> bool \<times> nat \<times> int" where
  "literal_single l = (case literal_value l of (neg, n, d) \<Rightarrow> (neg, single_parts n d))"

section \<open>Bit patterns\<close>

text \<open>The pattern of a magnitude; what does not fit is an infinity. A sign is the bit above.\<close>

definition magnitude_bits :: "nat \<Rightarrow> int \<Rightarrow> nat \<Rightarrow> nat \<times> int \<Rightarrow> nat" where
  "magnitude_bits p emin ceil me = (case me of (m, e) \<Rightarrow> min ceil (nat (e - emin) * 2 ^ (p - 1) + m))"

definition float64_bits :: "gfloat \<Rightarrow> nat" where
  "float64_bits f =
     (case f of
        FNaN \<Rightarrow> 2047 * 2 ^ 52 + 2 ^ 51 + 1
      | FPosInf \<Rightarrow> 2047 * 2 ^ 52
      | FNegInf \<Rightarrow> 2 ^ 63 + 2047 * 2 ^ 52
      | FFin l \<Rightarrow> (case literal_double l of (neg, me) \<Rightarrow> (if neg then 2 ^ 63 else 0) + magnitude_bits 53 (- 1074) (2047 * 2 ^ 52) me))"

text \<open>\<^verbatim>\<open>math.Float32bits(float32(f))\<close> of a double: it is rounded to 24 bits.\<close>

definition float32_bits :: "gfloat \<Rightarrow> nat" where
  "float32_bits f =
     (case f of
        FNaN \<Rightarrow> 255 * 2 ^ 23 + 2 ^ 22
      | FPosInf \<Rightarrow> 255 * 2 ^ 23
      | FNegInf \<Rightarrow> 2 ^ 31 + 255 * 2 ^ 23
      | FFin l \<Rightarrow>
          (case literal_double l of
             (neg, me) \<Rightarrow>
               (case scaled me of (n, d) \<Rightarrow>
                  (if neg then 2 ^ 31 else 0) + magnitude_bits 24 (- 149) (255 * 2 ^ 23) (single_parts n d))))"

definition float_of_bits :: "nat \<Rightarrow> nat \<Rightarrow> int \<Rightarrow> nat \<Rightarrow> gfloat" where
  "float_of_bits p eb emin b =
     (let m = b mod 2 ^ (p - 1); ef = b div 2 ^ (p - 1) mod 2 ^ eb; neg = odd (b div 2 ^ (p - 1 + eb)) in
      if ef = 2 ^ eb - 1 then (if m \<noteq> 0 then FNaN else if neg then FNegInf else FPosInf)
      else FFin (exact_literal neg (if ef = 0 then (m, emin) else (m + 2 ^ (p - 1), emin + int ef - 1))))"

abbreviation float64_of_bits :: "nat \<Rightarrow> gfloat" where
  "float64_of_bits \<equiv> float_of_bits 53 11 (- 1074)"

abbreviation float32_of_bits :: "nat \<Rightarrow> gfloat" where
  "float32_of_bits \<equiv> float_of_bits 24 8 (- 149)"

section \<open>Conversions\<close>

text \<open>\<^verbatim>\<open>float64(x)\<close> of a \<^verbatim>\<open>float32\<close>, which is exact.\<close>

fun widen :: "gfloat \<Rightarrow> gfloat" where
  "widen (FFin l) = FFin (case literal_single l of (neg, me) \<Rightarrow> exact_literal neg me)"
| "widen f = f"

definition is_zero :: "gfloat \<Rightarrow> bool" where
  "is_zero f = (case f of FFin l \<Rightarrow> fst (snd (literal_double l)) = 0 | _ \<Rightarrow> False)"

text \<open>The integer a double is, if it is one.\<close>

definition float_integer :: "gfloat \<Rightarrow> int option" where
  "float_integer f =
     (case f of
        FFin l \<Rightarrow>
          (case literal_double l of
             (neg, me) \<Rightarrow>
               (case scaled me of (n, d) \<Rightarrow>
                  if d dvd n then Some (if neg then - int (n div d) else int (n div d)) else None))
      | _ \<Rightarrow> None)"

section \<open>ParseFloat\<close>

text \<open>The value of a text that is accepted: digits and exponent, in base ten or two.\<close>

definition decimal_literal :: "string \<Rightarrow> string" where
  "decimal_literal s =
     (let (ip, fp, r) = mantissa is_digit s;
          e = (case (if r = [] then Some 0 else exponent (CHR ''e'') r) of None \<Rightarrow> 0 | Some e \<Rightarrow> e)
      in nat_dec (digits_val (ip @ fp)) @ ''e'' @ formatInt (e - int (length fp)))"

definition hex_literal :: "string \<Rightarrow> string" where
  "hex_literal s =
     (let (ip, fp, r) = mantissa is_hex s;
          e = (case exponent (CHR ''p'') r of None \<Rightarrow> 0 | Some e \<Rightarrow> e)
      in exact_literal False (foldl (\<lambda>n c. n * 16 + hex_digit_val c) 0 (ip @ fp), e - 4 * int (length fp)))"

definition parseFloat :: "string \<Rightarrow> gfloat option" where
  "parseFloat s =
     (if \<not> parseFloat_ok s then None
      else if map lower_char s = ''nan'' then Some FNaN
      else if float_word s then Some (if hasPrefix s ''-'' then FNegInf else FPosInf)
      else
        (let t = filter (\<lambda>c. c \<noteq> CHR ''_'') (drop_sign s);
             l = (case t of
                    z # x # r \<Rightarrow> if z = CHR ''0'' \<and> lower_char x = CHR ''x'' then hex_literal r else decimal_literal t
                  | _ \<Rightarrow> decimal_literal t)
         in Some (FFin ((if hasPrefix s ''-'' then ''-'' else '''') @ l))))"

end
