(* ===== verification/Iceberg_Stats.thy ===== *)
theory Iceberg_Stats
  imports Iceberg_Metadata Go_Ieee
begin

text \<open>
  \<^verbatim>\<open>pkg/formats/iceberg/stats.go\<close>: single-value serialization of column bounds, and the column statistics of a manifest
  entry in both directions. The libraries \<^verbatim>\<open>github.com/google/uuid\<close> and \<^verbatim>\<open>github.com/iskorotkov/avro\<close> are the fields of
  \<open>ice_libs\<close>: an Avro writer refuses a schema or a record or yields the bytes of the file, a reader refuses the bytes or
  yields the outcome of each read and the error it ends with. Of Go's integer types only those any adapter produces are in \<^typ>\<open>any\<close>.
\<close>

record ice_libs =
  lib_uuid_parse :: "string \<Rightarrow> string option"
  lib_uuid_text :: "string \<Rightarrow> string option"
  lib_ocf_new :: "json \<Rightarrow> (string, string) gomap \<Rightarrow> gerr option"
  lib_ocf_encode :: "json \<Rightarrow> (string, any) gomap \<Rightarrow> gerr option"
  lib_ocf_close :: "json \<Rightarrow> (string, string) gomap \<Rightarrow> (string, any) gomap list \<Rightarrow> string res"
  lib_ocf_open :: "string \<Rightarrow> ((string, any) gomap res list \<times> gerr option) res"

datatype bound_position = LowerBound | UpperBound

section \<open>Coercions\<close>

fun coerceBool :: "any \<Rightarrow> bool option" where
  "coerceBool (ABool b) = Some b"
| "coerceBool (AStr s) = (if parseBool_ok s then Some (s \<in> {''1'', ''t'', ''T'', ''true'', ''TRUE'', ''True''}) else None)"
| "coerceBool _ = None"

text \<open>An integral double in the range of \<^verbatim>\<open>int64\<close>.\<close>

definition floatToInt64 :: "gfloat \<Rightarrow> int option" where
  "floatToInt64 f = (case float_integer f of None \<Rightarrow> None | Some v \<Rightarrow> if - (2 ^ 63) \<le> v \<and> v < 2 ^ 63 then Some v else None)"

fun coerceInt64 :: "any \<Rightarrow> int option" where
  "coerceInt64 (AInt i) = Some i"
| "coerceInt64 (AInt32 i) = Some i"
| "coerceInt64 (AInt64 i) = Some i"
| "coerceInt64 (AFloat32 f) = floatToInt64 (widen f)"
| "coerceInt64 (AFloat64 f) = floatToInt64 f"
| "coerceInt64 (AStr s) = parseInt s"
| "coerceInt64 _ = None"

fun coerceFloat64 :: "any \<Rightarrow> gfloat option" where
  "coerceFloat64 (AFloat32 f) = Some (widen f)"
| "coerceFloat64 (AFloat64 f) = Some f"
| "coerceFloat64 (AInt i) = Some (FFin (formatInt i))"
| "coerceFloat64 (AInt32 i) = Some (FFin (formatInt i))"
| "coerceFloat64 (AInt64 i) = Some (FFin (formatInt i))"
| "coerceFloat64 (AStr s) = parseFloat s"
| "coerceFloat64 _ = None"

fun coerceString :: "any \<Rightarrow> string option" where
  "coerceString (AStr s) = Some s"
| "coerceString (ABytes s) = Some s"
| "coerceString _ = None"

fun coerceBytes :: "any \<Rightarrow> string option" where
  "coerceBytes (ABytes s) = Some s"
| "coerceBytes (AStr s) = Some s"
| "coerceBytes _ = None"

text \<open>\<^verbatim>\<open>new(big.Int).SetString(s, 10)\<close>.\<close>

definition big_of_text :: "string \<Rightarrow> int option" where
  "big_of_text s =
     (let ds = drop_sign s in
      if ds \<noteq> [] \<and> list_all is_digit ds then Some (if hasPrefix s ''-'' then - int (digits_val ds) else int (digits_val ds)) else None)"

fun coerceBigInt :: "any \<Rightarrow> int option" where
  "coerceBigInt (ABig i) = Some i"
| "coerceBigInt (AInt i) = Some i"
| "coerceBigInt (AInt32 i) = Some i"
| "coerceBigInt (AInt64 i) = Some i"
| "coerceBigInt (AStr s) = big_of_text s"
| "coerceBigInt _ = None"

section \<open>Bytes\<close>

text \<open>Little-endian two's complement of a fixed width.\<close>

fun le_bytes :: "nat \<Rightarrow> nat \<Rightarrow> string" where
  "le_bytes 0 n = []"
| "le_bytes (Suc k) n = char_of (n mod 256) # le_bytes k (n div 256)"

fun le_nat :: "string \<Rightarrow> nat" where
  "le_nat [] = 0"
| "le_nat (c # s) = of_char c + 256 * le_nat s"

definition to_unsigned :: "nat \<Rightarrow> int \<Rightarrow> nat" where
  "to_unsigned w i = nat (i mod 2 ^ w)"

definition to_signed :: "nat \<Rightarrow> nat \<Rightarrow> int" where
  "to_signed w n = (if n < 2 ^ (w - 1) then int n else int n - 2 ^ w)"

text \<open>\<^verbatim>\<open>big.Int.Bytes\<close>, \<^verbatim>\<open>SetBytes\<close> and \<^verbatim>\<open>BitLen\<close>: big-endian without leading zeros.\<close>

fun be_bytes :: "nat \<Rightarrow> string" where
  "be_bytes n = (if n = 0 then [] else be_bytes (n div 256) @ [char_of (n mod 256)])"

declare be_bytes.simps [simp del]

definition be_nat :: "string \<Rightarrow> nat" where
  "be_nat s = foldl (\<lambda>a c. 256 * a + of_char c) 0 s"

definition bit_len :: "nat \<Rightarrow> nat" where
  "bit_len n = (if n = 0 then 0 else ilog2 n + 1)"

definition high_bit :: "char \<Rightarrow> bool" where
  "high_bit c \<longleftrightarrow> 128 \<le> (of_char c :: nat)"

definition encodeUnscaledDecimal :: "int \<Rightarrow> string" where
  "encodeUnscaledDecimal n =
     (if n = 0 then [char_of (0 :: nat)]
      else if n > 0 then (let b = be_bytes (nat n) in if high_bit (hd b) then char_of (0 :: nat) # b else b)
      else
        (let a = nat (- n); k = (bit_len a + 7) div 8; k = (if k = 0 then 1 else k);
             numBytes = (if a > 2 ^ (8 * k - 1) then k + 1 else k);
             out = be_bytes (nat (2 ^ (8 * numBytes) + n))
         in if length out < numBytes then replicate (numBytes - length out) (char_of (0 :: nat)) @ out else out))"

definition decodeUnscaledDecimal :: "string \<Rightarrow> int" where
  "decodeUnscaledDecimal raw =
     (let n = int (be_nat raw) in if high_bit (hd raw) then n - 2 ^ (8 * length raw) else n)"

section \<open>Bounds\<close>

definition normalizeZeroBound :: "gfloat \<Rightarrow> bound_position \<Rightarrow> gfloat" where
  "normalizeZeroBound f pos = (if \<not> is_zero f then f else if pos = LowerBound then FFin ''-0'' else FFin ''0'')"

text \<open>The bytes of a value of a type; \<open>None\<close> where the code answers false.\<close>

definition bound_bytes :: "ice_libs \<Rightarrow> dtype \<Rightarrow> any \<Rightarrow> bound_position \<Rightarrow> string option" where
  "bound_bytes lib t val pos =
     (case t of
        TypeBoolean \<Rightarrow> map_option (\<lambda>b. [char_of (if b then 1 else 0 :: nat)]) (coerceBool val)
      | TypeInt \<Rightarrow> (case coerceInt64 val of None \<Rightarrow> None | Some n \<Rightarrow> if n < - (2 ^ 31) \<or> n > 2 ^ 31 - 1 then None else Some (le_bytes 4 (to_unsigned 32 n)))
      | TypeDate \<Rightarrow> (case coerceInt64 val of None \<Rightarrow> None | Some n \<Rightarrow> if n < - (2 ^ 31) \<or> n > 2 ^ 31 - 1 then None else Some (le_bytes 4 (to_unsigned 32 n)))
      | TypeLong \<Rightarrow> map_option (\<lambda>n. le_bytes 8 (to_unsigned 64 n)) (coerceInt64 val)
      | TypeTimestamp \<Rightarrow> map_option (\<lambda>n. le_bytes 8 (to_unsigned 64 n)) (coerceInt64 val)
      | TypeTimestampNTZ \<Rightarrow> map_option (\<lambda>n. le_bytes 8 (to_unsigned 64 n)) (coerceInt64 val)
      | TypeFloat \<Rightarrow> (case coerceFloat64 val of None \<Rightarrow> None | Some f \<Rightarrow> if f = FNaN then None else Some (le_bytes 4 (float32_bits (normalizeZeroBound f pos))))
      | TypeDouble \<Rightarrow> (case coerceFloat64 val of None \<Rightarrow> None | Some f \<Rightarrow> if f = FNaN then None else Some (le_bytes 8 (float64_bits (normalizeZeroBound f pos))))
      | TypeString \<Rightarrow> coerceString val
      | TypeEnum \<Rightarrow> coerceString val
      | TypeUUID \<Rightarrow> Option.bind (coerceString val) (lib_uuid_parse lib)
      | TypeBytes \<Rightarrow> coerceBytes val
      | TypeFixed \<Rightarrow> coerceBytes val
      | TypeDecimal \<Rightarrow> map_option encodeUnscaledDecimal (coerceBigInt val)
      | _ \<Rightarrow> None)"

definition EncodeBound :: "ice_libs \<Rightarrow> schema option \<Rightarrow> any \<Rightarrow> bound_position \<Rightarrow> string option" where
  "EncodeBound lib schema val pos =
     (case schema of None \<Rightarrow> None | Some s \<Rightarrow> if val = ANil then None else bound_bytes lib (DataType s) val pos)"

definition non_nan :: "(gfloat \<Rightarrow> any) \<Rightarrow> gfloat \<Rightarrow> any option" where
  "non_nan c f = (if f = FNaN then None else Some (c f))"

definition bound_value :: "ice_libs \<Rightarrow> dtype \<Rightarrow> string \<Rightarrow> any option" where
  "bound_value lib t raw =
     (case t of
        TypeBoolean \<Rightarrow> if length raw \<noteq> 1 then None else Some (ABool (of_char (hd raw) \<noteq> (0 :: nat)))
      | TypeInt \<Rightarrow> if length raw \<noteq> 4 then None else Some (AInt32 (to_signed 32 (le_nat raw)))
      | TypeDate \<Rightarrow> if length raw \<noteq> 4 then None else Some (AInt32 (to_signed 32 (le_nat raw)))
      | TypeLong \<Rightarrow> if length raw \<noteq> 8 then None else Some (AInt64 (to_signed 64 (le_nat raw)))
      | TypeTimestamp \<Rightarrow> if length raw \<noteq> 8 then None else Some (AInt64 (to_signed 64 (le_nat raw)))
      | TypeTimestampNTZ \<Rightarrow> if length raw \<noteq> 8 then None else Some (AInt64 (to_signed 64 (le_nat raw)))
      | TypeFloat \<Rightarrow> if length raw \<noteq> 4 then None else non_nan AFloat32 (float32_of_bits (le_nat raw))
      | TypeDouble \<Rightarrow> if length raw \<noteq> 8 then None else non_nan AFloat64 (float64_of_bits (le_nat raw))
      | TypeString \<Rightarrow> Some (AStr raw)
      | TypeEnum \<Rightarrow> Some (AStr raw)
      | TypeUUID \<Rightarrow> map_option AStr (lib_uuid_text lib raw)
      | TypeBytes \<Rightarrow> Some (ABytes raw)
      | TypeFixed \<Rightarrow> Some (ABytes raw)
      | TypeDecimal \<Rightarrow> if raw = [] then None else Some (ABig (decodeUnscaledDecimal raw))
      | _ \<Rightarrow> None)"

text \<open>A nil slice, \<open>None\<close>, is a missing bound; an empty one is a bound.\<close>

definition DecodeBound :: "ice_libs \<Rightarrow> schema option \<Rightarrow> string option \<Rightarrow> any option" where
  "DecodeBound lib schema raw =
     (case (schema, raw) of (Some s, Some bs) \<Rightarrow> bound_value lib (DataType s) bs | _ \<Rightarrow> None)"

section \<open>Column statistics\<close>

definition manifestHasStatsFor :: "manifest_data_file \<Rightarrow> int \<Rightarrow> bool" where
  "manifestHasStatsFor mdf i \<longleftrightarrow>
     map_of (mdf_ValueCounts mdf) i \<noteq> None \<or> map_of (mdf_NullValueCounts mdf) i \<noteq> None \<or> map_of (mdf_NanValueCounts mdf) i \<noteq> None \<or>
     map_of (mdf_LowerBounds mdf) i \<noteq> None \<or> map_of (mdf_UpperBounds mdf) i \<noteq> None"

definition count_at :: "(int, int) gomap \<Rightarrow> int \<Rightarrow> int" where
  "count_at m i = (case map_of m i of None \<Rightarrow> 0 | Some n \<Rightarrow> n)"

definition nil_or :: "any option \<Rightarrow> any" where
  "nil_or v = (case v of None \<Rightarrow> ANil | Some x \<Rightarrow> x)"

definition stat_from_manifest :: "ice_libs \<Rightarrow> manifest_data_file \<Rightarrow> field \<Rightarrow> column_stat option" where
  "stat_from_manifest lib mdf f =
     (case FieldID f of
        None \<Rightarrow> None
      | Some i \<Rightarrow>
          if \<not> manifestHasStatsFor mdf i then None
          else
            (let mn = DecodeBound lib (FieldSchema f) (map_of (mdf_LowerBounds mdf) i);
                 mx = DecodeBound lib (FieldSchema f) (map_of (mdf_UpperBounds mdf) i)
             in Some \<lparr>StatField = Some f,
                  StatRange = (if mn \<noteq> None \<or> mx \<noteq> None then Some (NewRange (nil_or mn) (nil_or mx)) else None),
                  NumNulls = count_at (mdf_NullValueCounts mdf) i, NumNaNs = count_at (mdf_NanValueCounts mdf) i,
                  TotalValues = count_at (mdf_ValueCounts mdf) i\<rparr>))"

definition columnStatsFromManifest :: "ice_libs \<Rightarrow> manifest_data_file \<Rightarrow> schema option \<Rightarrow> column_stat list" where
  "columnStatsFromManifest lib mdf schema =
     (case schema of None \<Rightarrow> [] | Some s \<Rightarrow> List.map_filter (stat_from_manifest lib mdf) (AllFields (Some s)))"

definition put_bytes :: "int \<Rightarrow> string option \<Rightarrow> (int, string) gomap \<Rightarrow> (int, string) gomap" where
  "put_bytes i b m = (case b of None \<Rightarrow> m | Some bs \<Rightarrow> map_put i bs m)"

definition stat_to_manifest :: "ice_libs \<Rightarrow> (string, int) gomap \<Rightarrow> manifest_data_file \<Rightarrow> column_stat \<Rightarrow> manifest_data_file" where
  "stat_to_manifest lib idsByName mdf cs =
     (case StatField cs of
        None \<Rightarrow> mdf
      | Some f \<Rightarrow>
          (case map_of idsByName (Field_Path f) of
             None \<Rightarrow> mdf
           | Some i \<Rightarrow>
               (let mdf = mdf\<lparr>mdf_ValueCounts := map_put i (TotalValues cs) (mdf_ValueCounts mdf),
                              mdf_NullValueCounts := map_put i (NumNulls cs) (mdf_NullValueCounts mdf)\<rparr>;
                    mdf = (if NumNaNs cs > 0 then mdf\<lparr>mdf_NanValueCounts := map_put i (NumNaNs cs) (mdf_NanValueCounts mdf)\<rparr> else mdf)
                in case StatRange cs of
                     None \<Rightarrow> mdf
                   | Some r \<Rightarrow>
                       mdf\<lparr>mdf_LowerBounds := put_bytes i (EncodeBound lib (FieldSchema f) (MinValue r) LowerBound) (mdf_LowerBounds mdf),
                           mdf_UpperBounds := put_bytes i (EncodeBound lib (FieldSchema f) (MaxValue r) UpperBound) (mdf_UpperBounds mdf)\<rparr>)))"

definition columnStatsToManifest :: "ice_libs \<Rightarrow> manifest_data_file \<Rightarrow> column_stat list \<Rightarrow> ice_field list \<Rightarrow> manifest_data_file" where
  "columnStatsToManifest lib mdf stats fs =
     foldl (stat_to_manifest lib (foldl (\<lambda>m f. map_put (nf_Name f) (nf_ID f) m) [] fs)) mdf stats"

end
