(* ===== verification/Iceberg_Schema.thy ===== *)
theory Iceberg_Schema
  imports Iceberg_Metadata
begin

text \<open>
  \<^verbatim>\<open>pkg/formats/iceberg/schema.go\<close>: canonical schemas to Iceberg and back, the assignment of field identifiers
  and the fallback name mapping. A nil schema or field pointer dereferenced by the converter is a panic.
\<close>

section \<open>Identifiers on record\<close>

definition join_path :: "string \<Rightarrow> string \<Rightarrow> string" where
  "join_path prefix name = (if prefix \<noteq> '''' then prefix @ ''.'' @ name else name)"

fun asInt :: "json \<Rightarrow> int option" where
  "asInt (JNum l) = Some (float_int l)"
| "asInt _ = None"

definition put_opt :: "string \<Rightarrow> int option \<Rightarrow> (string, int) gomap \<Rightarrow> (string, int) gomap" where
  "put_opt k v out = (case v of None \<Rightarrow> out | Some i \<Rightarrow> map_put k i out)"

text \<open>The fields of a decoded document: an element that is not an object is passed over.\<close>

fun doc_views :: "json list \<Rightarrow> members list" where
  "doc_views [] = []"
| "doc_views (JObj m # xs) = m # doc_views xs"
| "doc_views (_ # xs) = doc_views xs"

fun json_elems_of :: "json \<Rightarrow> json list" where
  "json_elems_of (JArr xs) = xs"
| "json_elems_of _ = []"

lemma doc_views_size: "m \<in> set (doc_views xs) \<Longrightarrow> size (JObj m) \<le> size_list size xs"
  by (induction xs rule: doc_views.induct) auto

lemma json_elems_size: "size_list size (json_elems_of j) \<le> size j"
  by (cases j) auto

lemma doc_view_size: "m \<in> set (doc_views (json_elems_of (jget k kvs))) \<Longrightarrow> size (jget k' m) < size (JObj kvs)"
  using doc_views_size [of m "json_elems_of (jget k kvs)"] json_elems_size [of "jget k kvs"] jget_size [of k kvs] jget_size [of k' m]
  by linarith

function doc_type_ids :: "json \<Rightarrow> string \<Rightarrow> (string, int) gomap \<Rightarrow> (string, int) gomap" where
  "doc_type_ids (JObj kvs) prefix out =
     (let t = jget ''type'' kvs in
      if t = JStr ''struct'' then
        fold (\<lambda>m out. let path = join_path prefix (any_string (jget ''name'' m)) in
            doc_type_ids (jget ''type'' m) path
              (map_put path (case asInt (jget ''id'' m) of None \<Rightarrow> 0 | Some i \<Rightarrow> i) out))
          (doc_views (json_elems_of (jget ''fields'' kvs))) out
      else if t = JStr ''list'' then
        doc_type_ids (jget ''element'' kvs) (prefix @ ''.element'') (put_opt (prefix @ ''.element'') (asInt (jget ''element-id'' kvs)) out)
      else if t = JStr ''map'' then
        doc_type_ids (jget ''value'' kvs) (prefix @ ''.value'')
          (doc_type_ids (jget ''key'' kvs) (prefix @ ''.key'')
            (put_opt (prefix @ ''.value'') (asInt (jget ''value-id'' kvs)) (put_opt (prefix @ ''.key'') (asInt (jget ''key-id'' kvs)) out)))
      else out)"
| "doc_type_ids (JStr s) prefix out = out"
| "doc_type_ids (JNum l) prefix out = out"
| "doc_type_ids (JBool b) prefix out = out"
| "doc_type_ids JNull prefix out = out"
| "doc_type_ids (JArr xs) prefix out = out"
  by pat_completeness auto
termination
  by (relation "measure (\<lambda>(j, _, _). size j)") (auto simp: doc_view_size [simplified] jget_size [simplified])

fun collectTypeIDs :: "ice_type \<Rightarrow> string \<Rightarrow> (string, int) gomap \<Rightarrow> (string, int) gomap"
  and collectFieldID :: "ice_field \<Rightarrow> string \<Rightarrow> (string, int) gomap \<Rightarrow> (string, int) gomap" where
  "collectTypeIDs (TName s) prefix out = out"
| "collectTypeIDs (TStruct fs) prefix out = fold (\<lambda>f. collectFieldID f prefix) fs out"
| "collectTypeIDs (TList i e req) prefix out = collectTypeIDs e (prefix @ ''.element'') (map_put (prefix @ ''.element'') i out)"
| "collectTypeIDs (TMap ki k vi v req) prefix out =
     collectTypeIDs v (prefix @ ''.value'')
       (collectTypeIDs k (prefix @ ''.key'') (map_put (prefix @ ''.value'') vi (map_put (prefix @ ''.key'') ki out)))"
| "collectTypeIDs (TDoc j) prefix out = doc_type_ids j prefix out"
| "collectFieldID (IceField i nm t req doc initial write_default) prefix out =
     (let path = join_path prefix nm in collectTypeIDs t path (map_put path i out))"

definition fieldPathIDs :: "ice_schema option \<Rightarrow> (string, int) gomap res" where
  "fieldPathIDs schema =
     (case schema of
        None \<Rightarrow> Inr []
      | Some s \<Rightarrow>
          if None \<in> set (is_Fields s) then Inl nil_panic
          else Inr (fold (\<lambda>f. collectFieldID f '''') (map the (is_Fields s)) []))"

section \<open>To Iceberg\<close>

definition assignFieldID :: "int option \<Rightarrow> string \<Rightarrow> (string, int) gomap \<Rightarrow> int \<Rightarrow> int \<times> int" where
  "assignFieldID explicit path prevIDs nextID =
     (let bumped = (\<lambda>i. (i, if i \<ge> nextID then wrap64 (i + 1) else nextID));
          recorded = (case map_of prevIDs path of Some i \<Rightarrow> bumped i | None \<Rightarrow> (nextID, wrap64 (nextID + 1)))
      in case explicit of Some i \<Rightarrow> if i > 0 then bumped i else recorded | None \<Rightarrow> recorded)"

definition fixed_size :: "schema \<Rightarrow> int" where
  "fixed_size s = (case Metadata s FixedBytesSize of Some (AInt n) \<Rightarrow> n | _ \<Rightarrow> 16)"

text \<open>The type names; \<open>None\<close> for the nested types.\<close>

definition ice_type_name :: "schema \<Rightarrow> string option" where
  "ice_type_name s =
     (case DataType s of
        TypeBoolean \<Rightarrow> Some ''boolean''
      | TypeInt \<Rightarrow> Some ''int''
      | TypeLong \<Rightarrow> Some ''long''
      | TypeFloat \<Rightarrow> Some ''float''
      | TypeDouble \<Rightarrow> Some ''double''
      | TypeUUID \<Rightarrow> Some ''uuid''
      | TypeBytes \<Rightarrow> Some ''binary''
      | TypeFixed \<Rightarrow> Some (''fixed['' @ formatInt (fixed_size s) @ '']'')
      | TypeDate \<Rightarrow> Some ''date''
      | TypeTimestamp \<Rightarrow> Some ''timestamptz''
      | TypeTimestampNTZ \<Rightarrow> Some ''timestamp''
      | TypeDecimal \<Rightarrow> Some (''decimal('' @ formatInt (decimal_precision s) @ '','' @ formatInt (decimal_scale s) @ '')'')
      | TypeRecord \<Rightarrow> None
      | TypeList \<Rightarrow> None
      | TypeMap \<Rightarrow> None
      | _ \<Rightarrow> Some ''string'')"

text \<open>A loop over fields that threads the next identifier.\<close>

fun thread_fields :: "('a \<Rightarrow> int \<Rightarrow> ('b \<times> int) res) \<Rightarrow> 'a list \<Rightarrow> int \<Rightarrow> ('b list \<times> int) res" where
  "thread_fields f [] n = Inr ([], n)"
| "thread_fields f (x # xs) n =
     bind_res (f x n) (\<lambda>(y, n'). bind_res (thread_fields f xs n') (\<lambda>(ys, n''). Inr (y # ys, n'')))"

lemma thread_fields_cong [fundef_cong]:
  "xs = ys \<Longrightarrow> (\<And>x n. x \<in> set ys \<Longrightarrow> f x n = g x n) \<Longrightarrow> n = m \<Longrightarrow> thread_fields f xs n = thread_fields g ys m"
proof (induction xs arbitrary: ys n m)
  case (Cons x xs)
  then show ?case by (cases "g x m") auto
qed simp

text \<open>One field at a path: its identifier, its type and then what the code reads off its schema.\<close>

function convertTypeToIceberg :: "schema option \<Rightarrow> string \<Rightarrow> (string, int) gomap \<Rightarrow> int \<Rightarrow> (ice_type \<times> int) res"
  and convert_field :: "field \<Rightarrow> string \<Rightarrow> (string, int) gomap \<Rightarrow> int \<Rightarrow> (ice_field \<times> int) res" where
  "convertTypeToIceberg None path prevIDs n = Inr (TName ''string'', n)"
| "convertTypeToIceberg (Some s) path prevIDs n =
     (case ice_type_name s of
        Some nm \<Rightarrow> Inr (TName nm, n)
      | None \<Rightarrow>
          if DataType s = TypeRecord then
            bind_res (thread_fields (\<lambda>f. convert_field f (join_path path (FieldName f)) prevIDs) (Fields s) n) (\<lambda>(fs, n').
            Inr (TStruct fs, n'))
          else if DataType s = TypeList then
            (case ElementSchema s of
               None \<Rightarrow> Inl nil_panic
             | Some e \<Rightarrow>
                 (let (i, n1) = assignFieldID None (path @ ''.element'') prevIDs n in
                  bind_res (convertTypeToIceberg (FieldSchema e) (path @ ''.element'') prevIDs n1) (\<lambda>(t, n2).
                  case FieldSchema e of None \<Rightarrow> Inl nil_panic | Some es \<Rightarrow> Inr (TList i t (\<not> IsNullable es), n2))))
          else
            (case KeySchema s of
               None \<Rightarrow> Inl nil_panic
             | Some k \<Rightarrow>
                 (let (ki, n1) = assignFieldID None (path @ ''.key'') prevIDs n in
                  bind_res (convertTypeToIceberg (FieldSchema k) (path @ ''.key'') prevIDs n1) (\<lambda>(kt, n2).
                  let (vi, n3) = assignFieldID None (path @ ''.value'') prevIDs n2 in
                  case ValueSchema s of
                    None \<Rightarrow> Inl nil_panic
                  | Some v \<Rightarrow>
                      bind_res (convertTypeToIceberg (FieldSchema v) (path @ ''.value'') prevIDs n3) (\<lambda>(vt, n4).
                      case FieldSchema v of None \<Rightarrow> Inl nil_panic | Some vs \<Rightarrow> Inr (TMap ki kt vi vt (\<not> IsNullable vs), n4))))))"
| "convert_field f path prevIDs n =
     (let (i, n1) = assignFieldID (FieldID f) path prevIDs n in
      bind_res (convertTypeToIceberg (FieldSchema f) path prevIDs n1) (\<lambda>(t, n2).
      case FieldSchema f of
        None \<Rightarrow> Inl nil_panic
      | Some s \<Rightarrow> Inr (IceField i (FieldName f) t (\<not> IsNullable s) (Comment s) JNull JNull, n2)))"
  by pat_completeness auto
termination
proof (relation "measure (case_sum (\<lambda>(s, _). child_size s) (\<lambda>(f, _). size f))")
  have "f \<in> set (Fields s) \<Longrightarrow> size f < size s" for f s
    using elem_size_list [of f "Fields s" size] by (cases s) simp
  then show "f \<in> set (Fields s) \<Longrightarrow> (Inr (f, q, m, k), Inl (Some s, p, l, n)) \<in>
      measure (case_sum (\<lambda>(s, _). child_size s) (\<lambda>(f, _). size f))" for f s q m k p l n
    by (fastforce simp: child_size_def)
  show "(Inl (FieldSchema f, q, l, m), Inr (f, p, l, n)) \<in>
      measure (case_sum (\<lambda>(s, _). child_size s) (\<lambda>(f, _). size f))" for f q l m p n
    by (cases f) (simp add: child_size_def split: option.splits)
qed (auto simp: child_size_def [of "Some _"] intro: child_size_ptr)

declare convertTypeToIceberg.simps(2) [simp del] convert_field.simps [simp del]

definition SchemaToIceberg :: "schema option \<Rightarrow> int \<Rightarrow> ice_schema option \<Rightarrow> int \<Rightarrow> (ice_schema \<times> int) res" where
  "SchemaToIceberg schema schemaID prevSchema prevLastColumnID =
     (case schema of
        None \<Rightarrow> Inl (ErrMsg ''schema cannot be nil'')
      | Some s \<Rightarrow>
          bind_res (fieldPathIDs prevSchema) (\<lambda>prevIDs.
          let nextID = wrap64 (prevLastColumnID + 1) in
          bind_res (thread_fields (\<lambda>f. convert_field f (FieldName f) prevIDs) (Fields s) (if nextID < 1 then 1 else nextID)) (\<lambda>(fs, n).
          Inr (\<lparr>is_Type = ''struct'', is_SchemaID = schemaID, is_IdentifierFieldIDs = [], is_Fields = map Some fs\<rparr>, wrap64 (n - 1)))))"

section \<open>The name mapping\<close>

definition NameMappingProperty :: string where
  "NameMappingProperty = ''schema.name-mapping.default''"

datatype name_mapping = NameMapping (nm_FieldID: "int option") (nm_Names: "string list") (nm_Fields: "name_mapping list")

fun enc_name_mapping :: "name_mapping \<Rightarrow> json" where
  "enc_name_mapping (NameMapping i names fs) =
     JObj (omit_nil ''field-id'' jint i @ [(''names'', jslice (map JStr names))] @
       (if fs = [] then [] else [(''fields'', JArr (map enc_name_mapping fs))]))"

text \<open>A decoded type: its fields are no \<^verbatim>\<open>[]*NestedField\<close> and its identifiers no \<^verbatim>\<open>int\<close>.\<close>

function doc_name_mapping :: "json \<Rightarrow> name_mapping list" where
  "doc_name_mapping (JObj kvs) =
     (let t = jget ''type'' kvs in
      if t = JStr ''list'' then [NameMapping None [''element''] (doc_name_mapping (jget ''element'' kvs))]
      else if t = JStr ''map'' then
        [NameMapping None [''key''] (doc_name_mapping (jget ''key'' kvs)), NameMapping None [''value''] (doc_name_mapping (jget ''value'' kvs))]
      else [])"
| "doc_name_mapping (JStr s) = []"
| "doc_name_mapping (JNum l) = []"
| "doc_name_mapping (JBool b) = []"
| "doc_name_mapping JNull = []"
| "doc_name_mapping (JArr xs) = []"
  by pat_completeness auto
termination
  by (relation "measure size") (auto simp: jget_size [simplified])

fun nameMappingForType :: "ice_type \<Rightarrow> name_mapping list"
  and nameMappingForField :: "ice_field \<Rightarrow> name_mapping" where
  "nameMappingForType (TName s) = []"
| "nameMappingForType (TStruct fs) = map nameMappingForField fs"
| "nameMappingForType (TList i e req) = [NameMapping (Some i) [''element''] (nameMappingForType e)]"
| "nameMappingForType (TMap ki k vi v req) =
     [NameMapping (Some ki) [''key''] (nameMappingForType k), NameMapping (Some vi) [''value''] (nameMappingForType v)]"
| "nameMappingForType (TDoc j) = doc_name_mapping j"
| "nameMappingForField (IceField i nm t req doc initial write_default) = NameMapping (Some i) [nm] (nameMappingForType t)"

definition NameMappingJSON :: "ice_schema option \<Rightarrow> string res" where
  "NameMappingJSON schema =
     (case schema of
        None \<Rightarrow> Inl (ErrMsg ''iceberg schema cannot be nil'')
      | Some s \<Rightarrow>
          if None \<in> set (is_Fields s) then Inl nil_panic
          else Inr (json_print (JArr (map (enc_name_mapping \<circ> nameMappingForField \<circ> the) (is_Fields s)))))"

section \<open>From Iceberg\<close>

definition unsupported_ice_type :: "string \<Rightarrow> gerr" where
  "unsupported_ice_type detail = ErrMsg (''iceberg: unsupported type: '' @ detail)"

definition ice_decimal_name :: "string \<Rightarrow> bool \<Rightarrow> schema" where
  "ice_decimal_name v nullable =
     (case splitChar (CHR '','') (trimSuffix (trimPrefix v ''decimal('') '')'') of
        [a, b] \<Rightarrow>
          NewDecimalSchema (case parseInt (trimSpace a) of None \<Rightarrow> 10 | Some p \<Rightarrow> p)
            (case parseInt (trimSpace b) of None \<Rightarrow> 0 | Some s \<Rightarrow> s) nullable
      | _ \<Rightarrow> NewDecimalSchema 10 0 nullable)"

definition fixed_schema :: "int \<Rightarrow> bool \<Rightarrow> schema" where
  "fixed_schema n nullable = Schema '''' TypeFixed '''' nullable [] None None None [] [FixedBytesSize \<mapsto> AInt n]"

text \<open>The text of an error of \<^verbatim>\<open>strconv\<close> is left out.\<close>

definition ice_parse_name :: "string \<Rightarrow> bool \<Rightarrow> schema res" where
  "ice_parse_name raw nullable =
     (let v = toLower raw in
      if v = ''boolean'' then Inr (NewPrimitiveSchema TypeBoolean nullable)
      else if v = ''int'' then Inr (NewPrimitiveSchema TypeInt nullable)
      else if v = ''long'' then Inr (NewPrimitiveSchema TypeLong nullable)
      else if v = ''float'' then Inr (NewPrimitiveSchema TypeFloat nullable)
      else if v = ''double'' then Inr (NewPrimitiveSchema TypeDouble nullable)
      else if v = ''string'' then Inr (NewPrimitiveSchema TypeString nullable)
      else if v = ''uuid'' then Inr (NewPrimitiveSchema TypeUUID nullable)
      else if v = ''binary'' then Inr (NewPrimitiveSchema TypeBytes nullable)
      else if v = ''date'' then Inr (NewPrimitiveSchema TypeDate nullable)
      else if v = ''timestamp'' then Inr (NewPrimitiveSchema TypeTimestampNTZ nullable)
      else if v = ''timestamptz'' then Inr (NewPrimitiveSchema TypeTimestamp nullable)
      else if hasPrefix v ''decimal'' then Inr (ice_decimal_name v nullable)
      else if hasPrefix v ''fixed['' \<and> hasSuffix v '']'' then
        (case parseInt (trimSpace (trimSuffix (trimPrefix v ''fixed['') '']'')) of
           None \<Rightarrow> Inl (unsupported_ice_type (''malformed fixed length '' @ quoted v))
         | Some n \<Rightarrow> Inr (fixed_schema n nullable))
      else Inl (unsupported_ice_type (quoted v)))"

definition with_doc :: "string \<Rightarrow> schema \<Rightarrow> schema" where
  "with_doc doc s =
     (if doc = '''' then s
      else Schema (SchemaName s) (DataType s) doc (IsNullable s) (Fields s) (ElementSchema s) (KeySchema s) (ValueSchema s)
        (RecordKeyFields s) (Metadata s))"

fun any_bool :: "json \<Rightarrow> bool" where
  "any_bool (JBool b) = b"
| "any_bool _ = False"

text \<open>A type that was read from a document. The verb \<^verbatim>\<open>%#v\<close> of the last error is left out.\<close>

function parse_doc_type :: "json \<Rightarrow> bool \<Rightarrow> schema res" where
  "parse_doc_type (JStr s) nullable = ice_parse_name s nullable"
| "parse_doc_type (JObj kvs) nullable =
     (let t = any_string (jget ''type'' kvs) in
      if t = ''struct'' then
        bind_res
          (map_res (\<lambda>m. bind_res (parse_doc_type (jget ''type'' m) (\<not> any_bool (jget ''required'' m))) (\<lambda>c.
              Inr (mkField (any_string (jget ''name'' m)) (Some (with_doc (any_string (jget ''doc'' m)) c)))))
            (doc_views (json_elems_of (jget ''fields'' kvs))))
          (\<lambda>fs. Inr (NewRecordSchema '''' fs nullable))
      else if t = ''list'' then
        bind_res (parse_doc_type (jget ''element'' kvs) (\<not> any_bool (jget ''element-required'' kvs))) (\<lambda>e. Inr (list_schema e nullable))
      else if t = ''map'' then
        bind_res (parse_doc_type (jget ''key'' kvs) False) (\<lambda>k.
        bind_res (parse_doc_type (jget ''value'' kvs) (\<not> any_bool (jget ''value-required'' kvs))) (\<lambda>v. Inr (map_schema k v nullable)))
      else Inl (unsupported_ice_type (quoted t)))"
| "parse_doc_type (JNum l) nullable = Inl (unsupported_ice_type '''')"
| "parse_doc_type (JBool b) nullable = Inl (unsupported_ice_type '''')"
| "parse_doc_type JNull nullable = Inl (unsupported_ice_type '''')"
| "parse_doc_type (JArr xs) nullable = Inl (unsupported_ice_type '''')"
  by pat_completeness auto
termination
  by (relation "measure (\<lambda>(j, _). size j)") (auto simp: doc_view_size [simplified] jget_size [simplified])

declare parse_doc_type.simps(2) [simp del]

text \<open>The fields of a struct the converter built are no \<^verbatim>\<open>[]any\<close>: they are not read.\<close>

fun parseIcebergType :: "ice_type \<Rightarrow> bool \<Rightarrow> schema res" where
  "parseIcebergType (TName s) nullable = ice_parse_name s nullable"
| "parseIcebergType (TStruct fs) nullable = Inr (NewRecordSchema '''' [] nullable)"
| "parseIcebergType (TList i e req) nullable = bind_res (parseIcebergType e (\<not> req)) (\<lambda>s. Inr (list_schema s nullable))"
| "parseIcebergType (TMap ki k vi v req) nullable =
     bind_res (parseIcebergType k False) (\<lambda>ks. bind_res (parseIcebergType v (\<not> req)) (\<lambda>vs. Inr (map_schema ks vs nullable)))"
| "parseIcebergType (TDoc j) nullable = parse_doc_type j nullable"

definition read_ice_field :: "ice_field option \<Rightarrow> field res" where
  "read_ice_field p =
     (case p of
        None \<Rightarrow> Inl nil_panic
      | Some nf \<Rightarrow>
          bind_res (wrap_res (''failed to parse iceberg field '' @ nf_Name nf) (parseIcebergType (nf_Type nf) (\<not> nf_Required nf))) (\<lambda>s.
          Inr (Field (nf_Name nf) '''' (Some (with_doc (nf_Doc nf) s)) (Some (nf_ID nf)) ANil)))"

definition IcebergToSchema :: "ice_schema option \<Rightarrow> schema res" where
  "IcebergToSchema schema =
     (case schema of
        None \<Rightarrow> Inl (ErrMsg ''iceberg schema cannot be nil'')
      | Some s \<Rightarrow> bind_res (map_res read_ice_field (is_Fields s)) (\<lambda>fs. Inr (NewRecordSchema ''root'' fs False)))"

end
