(* ===== verification/Iceberg_Roundtrip.thy ===== *)
theory Iceberg_Roundtrip
  imports Iceberg_Schema
begin

text \<open>
  Iceberg schemas written and read back: the normal form a canonical schema has after a round trip through the
  metadata document, and the identifiers the converter assigns (stable for the columns on record, fresh and unique
  for new ones).
\<close>

section \<open>What Iceberg can hold\<close>

function ice_ok :: "schema \<Rightarrow> bool" where
  "ice_ok s =
     (case DataType s of
        TypeDecimal \<Rightarrow> in_int64 (decimal_precision s) \<and> in_int64 (decimal_scale s)
      | TypeFixed \<Rightarrow> in_int64 (fixed_size s)
      | TypeRecord \<Rightarrow> list_all (\<lambda>f. case FieldSchema f of None \<Rightarrow> False | Some t \<Rightarrow> ice_ok t) (Fields s)
      | TypeList \<Rightarrow> (case Option.bind (ElementSchema s) FieldSchema of None \<Rightarrow> False | Some e \<Rightarrow> ice_ok e)
      | TypeMap \<Rightarrow>
          (case Option.bind (KeySchema s) FieldSchema of None \<Rightarrow> False | Some k \<Rightarrow> ice_ok k) \<and>
          (case Option.bind (ValueSchema s) FieldSchema of None \<Rightarrow> False | Some v \<Rightarrow> ice_ok v)
      | _ \<Rightarrow> True)"
  by pat_completeness auto
termination
  by (relation "measure size") (auto intro: size_child_field size_child_ptr simp: bind_eq_Some_conv)

text \<open>
  The normal form: enumerations, unions and null columns are strings, keys of a map are not null, names of nested
  records, defaults and the identifiers of nested fields are dropped, comments of columns stay.
\<close>

function ice_form :: "bool \<Rightarrow> schema \<Rightarrow> schema" where
  "ice_form n s =
     (case DataType s of
        TypeDecimal \<Rightarrow> NewDecimalSchema (decimal_precision s) (decimal_scale s) n
      | TypeFixed \<Rightarrow> fixed_schema (fixed_size s) n
      | TypeRecord \<Rightarrow>
          NewRecordSchema '''' (map (\<lambda>f. mkField (FieldName f)
            (case FieldSchema f of None \<Rightarrow> None | Some t \<Rightarrow> Some (with_doc (Comment t) (ice_form (IsNullable t) t)))) (Fields s)) n
      | TypeList \<Rightarrow>
          (case Option.bind (ElementSchema s) FieldSchema of None \<Rightarrow> s | Some e \<Rightarrow> list_schema (ice_form (IsNullable e) e) n)
      | TypeMap \<Rightarrow>
          (case Option.bind (KeySchema s) FieldSchema of
             None \<Rightarrow> s
           | Some k \<Rightarrow>
               (case Option.bind (ValueSchema s) FieldSchema of
                  None \<Rightarrow> s
                | Some v \<Rightarrow> map_schema (ice_form False k) (ice_form (IsNullable v) v) n))
      | TypeEnum \<Rightarrow> NewPrimitiveSchema TypeString n
      | TypeUnion \<Rightarrow> NewPrimitiveSchema TypeString n
      | TypeNull \<Rightarrow> NewPrimitiveSchema TypeString n
      | t \<Rightarrow> NewPrimitiveSchema t n)"
  by pat_completeness auto
termination
  by (relation "measure (\<lambda>(_, s). size s)") (auto intro: size_child_field size_child_ptr simp: bind_eq_Some_conv)

declare ice_ok.simps [simp del] ice_form.simps [simp del]

section \<open>Type names\<close>

lemma ice_decimal_read:
  assumes "in_int64 p" "in_int64 sc"
  shows "ice_parse_name (''decimal('' @ formatInt p @ '','' @ formatInt sc @ '')'') n = Inr (NewDecimalSchema p sc n)"
proof -
  let ?d = "formatInt p @ '','' @ formatInt sc"
  have l: "toLower (''decimal('' @ ?d @ '')'') = ''decimal('' @ ?d @ '')''"
    using toLower_formatInt [of p] toLower_formatInt [of sc] by (simp add: toLower_def lower_char_def)
  have t: "trimSuffix (trimPrefix (''decimal('' @ ?d @ '')'') ''decimal('') '')'' = ?d"
    by (simp only: trimPrefix_append trimSuffix_append)
  have nc: "CHR '','' \<notin> set (formatInt i)" for i using number_text_plain [of "CHR '',''" i] by blast
  have "splitChar (CHR '','') ?d = [formatInt p, formatInt sc]"
    using splitChar_append_sep [OF nc [of p], of "formatInt sc"] by (simp add: splitChar_no_sep [OF nc])
  moreover have "trimSpace (formatInt i) = formatInt i" for i
    by (rule trimSpace_idem_hd)
      (use number_text_plain [of "hd (formatInt i)" i] number_text_plain [of "last (formatInt i)" i] in simp_all)
  ultimately show ?thesis
    using assms l t unfolding ice_parse_name_def ice_decimal_name_def Let_def by simp
qed

lemma ice_fixed_read:
  assumes "in_int64 i"
  shows "ice_parse_name (''fixed['' @ formatInt i @ '']'') n = Inr (fixed_schema i n)"
proof -
  have l: "toLower (''fixed['' @ formatInt i @ '']'') = ''fixed['' @ formatInt i @ '']''"
    using toLower_formatInt [of i] by (simp add: toLower_def lower_char_def)
  have t: "trimSuffix (trimPrefix (''fixed['' @ formatInt i @ '']'') ''fixed['') '']'' = formatInt i"
    by (simp only: trimPrefix_append trimSuffix_append)
  have s: "hasPrefix (''fixed['' @ formatInt i @ '']'') ''fixed[''" "hasSuffix (''fixed['' @ formatInt i @ '']'') '']''"
    using hasPrefix_append [of "''fixed[''" "formatInt i @ '']''"] hasSuffix_append [of "''fixed['' @ formatInt i" "'']''"] by simp_all
  have "trimSpace (formatInt i) = formatInt i"
    by (rule trimSpace_idem_hd)
      (use number_text_plain [of "hd (formatInt i)" i] number_text_plain [of "last (formatInt i)" i] in simp_all)
  then show ?thesis
    using assms l t s unfolding ice_parse_name_def Let_def by simp
qed

lemma ice_simple_read:
  "DataType s \<notin> {TypeDecimal, TypeFixed, TypeRecord, TypeList, TypeMap} \<Longrightarrow>
    ice_parse_name (the (ice_type_name s)) n = Inr (ice_form n s)"
  by (subst ice_form.simps; cases "DataType s")
    (simp_all add: ice_type_name_def ice_parse_name_def toLower_def lower_char_def Let_def)

lemma ice_name_read:
  assumes "ice_type_name s = Some nm" "ice_ok s"
  shows "ice_parse_name nm n = Inr (ice_form n s)"
proof -
  have nested: "DataType s \<notin> {TypeRecord, TypeList, TypeMap}" using assms(1) by (auto simp: ice_type_name_def)
  consider "DataType s = TypeDecimal" | "DataType s = TypeFixed" | "DataType s \<notin> {TypeDecimal, TypeFixed, TypeRecord, TypeList, TypeMap}"
    using nested by blast
  then show ?thesis
  proof cases
    case 1
    with assms(2) have "in_int64 (decimal_precision s)" "in_int64 (decimal_scale s)" by (simp_all add: ice_ok.simps [of s])
    with 1 assms(1) ice_decimal_read [of "decimal_precision s" "decimal_scale s" n] show ?thesis
      by (simp add: ice_type_name_def ice_form.simps [of n s] flip: append_assoc)
  next
    case 2
    with assms(2) have "in_int64 (fixed_size s)" by (simp add: ice_ok.simps [of s])
    with 2 assms(1) ice_fixed_read [of "fixed_size s" n] show ?thesis by (simp add: ice_type_name_def ice_form.simps [of n s])
  next
    case 3
    from ice_simple_read [OF this, of n] assms(1) show ?thesis by simp
  qed
qed

section \<open>Documents\<close>

text \<open>What the converter builds has no part that was read from a document; its identifiers.\<close>

fun built :: "ice_type \<Rightarrow> bool" and built_field :: "ice_field \<Rightarrow> bool" where
  "built (TName s) = True"
| "built (TStruct fs) = list_all built_field fs"
| "built (TList i e req) = built e"
| "built (TMap ki k vi v req) = (built k \<and> built v)"
| "built (TDoc j) = False"
| "built_field (IceField i nm t req doc initial write_default) = (built t \<and> initial = JNull \<and> write_default = JNull)"

fun type_slots :: "ice_type \<Rightarrow> string \<Rightarrow> (string \<times> int) list"
  and field_slots :: "ice_field \<Rightarrow> string \<Rightarrow> (string \<times> int) list" where
  "type_slots (TName s) p = []"
| "type_slots (TStruct fs) p = concat (map (\<lambda>f. field_slots f p) fs)"
| "type_slots (TList i e req) p = (p @ ''.element'', i) # type_slots e (p @ ''.element'')"
| "type_slots (TMap ki k vi v req) p =
     (p @ ''.key'', ki) # type_slots k (p @ ''.key'') @ (p @ ''.value'', vi) # type_slots v (p @ ''.value'')"
| "type_slots (TDoc j) p = []"
| "field_slots (IceField i nm t req doc initial write_default) p = (join_path p nm, i) # type_slots t (join_path p nm)"

text \<open>Identifiers a \<^verbatim>\<open>float64\<close> holds exactly.\<close>

definition exact_id :: "int \<Rightarrow> bool" where
  "exact_id i \<longleftrightarrow> \<bar>i\<bar> < 2 ^ 53"

definition exact_slots :: "(string \<times> int) list \<Rightarrow> bool" where
  "exact_slots xs \<longleftrightarrow> list_all (\<lambda>(p, i). exact_id i) xs"

lemma exact_slots_simps [simp]:
  "exact_slots []" "exact_slots ((p, i) # xs) \<longleftrightarrow> exact_id i \<and> exact_slots xs"
  "exact_slots (xs @ ys) \<longleftrightarrow> exact_slots xs \<and> exact_slots ys"
  "exact_slots (concat xss) \<longleftrightarrow> (\<forall>xs \<in> set xss. exact_slots xs)"
  by (auto simp: exact_slots_def list_all_iff)

lemma exact_jint: "exact_id i \<Longrightarrow> in_int64 i \<and> asInt (jint i) = Some i \<and> floats_ok (jint i)"
  using float_int_formatInt [of i] by (auto simp: exact_id_def jint_def in_int64_def abs_less_iff)

definition field_members :: "ice_field \<Rightarrow> members" where
  "field_members f =
     [(''id'', jint (nf_ID f)), (''name'', JStr (nf_Name f)), (''type'', enc_ice_type (nf_Type f)), (''required'', JBool (nf_Required f))] @
     omit_str ''doc'' (nf_Doc f) @ omit_doc ''initial-default'' (nf_InitialDefault f) @ omit_doc ''write-default'' (nf_WriteDefault f)"

lemma enc_ice_field_members: "enc_ice_field f = JObj (field_members f)"
  by (cases f) (simp add: field_members_def)

lemma jget_field_members [simp]:
  "jget ''id'' (field_members f) = jint (nf_ID f)" "jget ''name'' (field_members f) = JStr (nf_Name f)"
  "jget ''type'' (field_members f) = enc_ice_type (nf_Type f)" "jget ''required'' (field_members f) = JBool (nf_Required f)"
  "any_string (jget ''doc'' (field_members f)) = nf_Doc f"
  by (simp_all add: field_members_def jget_def omit_str_def omit_doc_def)

lemma doc_views_fields [simp]: "doc_views (json_elems_of (jslice (map enc_ice_field fs))) = map field_members fs"
proof -
  have "doc_views (map enc_ice_field fs) = map field_members fs" by (induction fs) (simp_all add: enc_ice_field_members)
  then show ?thesis by (cases fs) (auto simp: jslice_def)
qed

lemma jget_types [simp]:
  "jget ''type'' [(''fields'', f), (''type'', t)] = t" "jget ''fields'' [(''fields'', f), (''type'', t)] = f"
  "jget ''type'' [(''element'', e), (''element-id'', i), (''element-required'', r), (''type'', t)] = t"
  "jget ''element'' [(''element'', e), (''element-id'', i), (''element-required'', r), (''type'', t)] = e"
  "jget ''element-id'' [(''element'', e), (''element-id'', i), (''element-required'', r), (''type'', t)] = i"
  "jget ''element-required'' [(''element'', e), (''element-id'', i), (''element-required'', r), (''type'', t)] = r"
  "jget ''type'' [(''key'', k), (''key-id'', ki), (''type'', t), (''value'', v), (''value-id'', vi), (''value-required'', r)] = t"
  "jget ''key'' [(''key'', k), (''key-id'', ki), (''type'', t), (''value'', v), (''value-id'', vi), (''value-required'', r)] = k"
  "jget ''key-id'' [(''key'', k), (''key-id'', ki), (''type'', t), (''value'', v), (''value-id'', vi), (''value-required'', r)] = ki"
  "jget ''value'' [(''key'', k), (''key-id'', ki), (''type'', t), (''value'', v), (''value-id'', vi), (''value-required'', r)] = v"
  "jget ''value-id'' [(''key'', k), (''key-id'', ki), (''type'', t), (''value'', v), (''value-id'', vi), (''value-required'', r)] = vi"
  "jget ''value-required'' [(''key'', k), (''key-id'', ki), (''type'', t), (''value'', v), (''value-id'', vi), (''value-required'', r)] = r"
  by (simp_all add: jget_def)

lemma exact_built_docs:
  "built t \<Longrightarrow> exact_slots (type_slots t p) \<Longrightarrow> wf_json (enc_ice_type t) \<and> floats_ok (enc_ice_type t)"
  "built_field f \<Longrightarrow> exact_slots (field_slots f p) \<Longrightarrow> wf_json (enc_ice_field f) \<and> floats_ok (enc_ice_field f)"
proof (induction t and f arbitrary: p and p rule: built_built_field.induct)
  case (2 fs)
  then show ?case by (fastforce simp: jslice_def list_all_iff)
qed (auto simp: exact_jint omit_str_def omit_doc_def)

text \<open>The recorded identifiers are those the document has.\<close>

lemma doc_ids:
  "built t \<Longrightarrow> exact_slots (type_slots t p) \<Longrightarrow> doc_type_ids (enc_ice_type t) p out = collectTypeIDs t p out"
  "built_field f \<Longrightarrow> exact_slots (field_slots f p) \<Longrightarrow>
    doc_type_ids (enc_ice_type (nf_Type f)) (join_path p (nf_Name f)) (map_put (join_path p (nf_Name f)) (nf_ID f) out) = collectFieldID f p out"
proof (induction t and f arbitrary: p out and p out rule: built_built_field.induct)
  case (2 fs)
  have "fold (\<lambda>m out. doc_type_ids (jget ''type'' m) (join_path p (any_string (jget ''name'' m)))
      (map_put (join_path p (any_string (jget ''name'' m))) (case asInt (jget ''id'' m) of None \<Rightarrow> 0 | Some i \<Rightarrow> i) out))
      (map field_members fs) out = fold (\<lambda>f. collectFieldID f p) fs out"
    unfolding fold_map
  proof (rule fold_cong [OF refl refl])
    fix f assume f: "f \<in> set fs"
    then have "built_field f" "exact_slots (field_slots f p)" using "2.prems" by (auto simp: list_all_iff)
    moreover from this have "exact_id (nf_ID f)" by (cases f) simp
    ultimately show "((\<lambda>m out. doc_type_ids (jget ''type'' m) (join_path p (any_string (jget ''name'' m)))
      (map_put (join_path p (any_string (jget ''name'' m))) (case asInt (jget ''id'' m) of None \<Rightarrow> 0 | Some i \<Rightarrow> i) out)) \<circ> field_members) f =
      collectFieldID f p"
      using "2.IH" [OF f] by (auto simp: exact_jint)
  qed
  then show ?case by (simp add: Let_def)
qed (auto simp: exact_jint put_opt_def Let_def)

lemma dec_built_field:
  assumes "built_field f" "exact_slots (field_slots f p)"
  shows "dec_ice_field (enc_ice_field f) = Some (IceField (nf_ID f) (nf_Name f) (doc_type (enc_ice_type (nf_Type f))) (nf_Required f) (nf_Doc f) JNull JNull)"
proof (cases f)
  case (IceField i nm t req doc initial write_default)
  with assms have "built t" "exact_slots (type_slots t (join_path p nm))" "exact_id i" "initial = JNull" "write_default = JNull" by auto
  with exact_built_docs(1) [of t "join_path p nm"] exact_jint [of i] show ?thesis
    by (simp add: IceField dec_ice_field_def dec_doc_def key_simps omit_doc_def omit_str_def cong: option.case_cong)
qed

lemma parse_doc [simp]: "parseIcebergType (doc_type j) n = parse_doc_type j n"
  by (cases j) simp_all

section \<open>The normal form is what is read\<close>

lemma thread_fields_all2:
  "thread_fields f xs n = Inr (ys, n') \<Longrightarrow> list_all2 (\<lambda>x y. \<exists>m m'. f x m = Inr (y, m')) xs ys"
proof (induction xs arbitrary: ys n)
  case (Cons x xs)
  then show ?case by (auto split: prod.splits)
qed simp

lemma thread_fields_total:
  "(\<And>x m. x \<in> set xs \<Longrightarrow> \<exists>y m'. f x m = Inr (y, m')) \<Longrightarrow> \<exists>ys n'. thread_fields f xs n = Inr (ys, n')"
proof (induction xs arbitrary: n)
  case (Cons x xs)
  obtain y m where "f x n = Inr (y, m)" using Cons.prems [of x n] by auto
  moreover obtain ys m' where "thread_fields f xs m = Inr (ys, m')" using Cons.IH [of m] Cons.prems by auto
  ultimately show ?case by simp
qed simp

lemma parse_struct:
  "parse_doc_type (enc_ice_type (TStruct fs)) n =
     bind_res (map_res (\<lambda>f. bind_res (parse_doc_type (enc_ice_type (nf_Type f)) (\<not> nf_Required f)) (\<lambda>c.
        Inr (mkField (nf_Name f) (Some (with_doc (nf_Doc f) c))))) fs) (\<lambda>gs. Inr (NewRecordSchema '''' gs n))"
  by (simp add: parse_doc_type.simps(2) map_res_map)

lemma parse_list_map:
  "parse_doc_type (enc_ice_type (TList i e req)) n = bind_res (parse_doc_type (enc_ice_type e) (\<not> req)) (\<lambda>s. Inr (list_schema s n))"
  "parse_doc_type (enc_ice_type (TMap ki k vi v req)) n =
     bind_res (parse_doc_type (enc_ice_type k) False) (\<lambda>ks. bind_res (parse_doc_type (enc_ice_type v) (\<not> req)) (\<lambda>vs. Inr (map_schema ks vs n)))"
  by (simp_all add: parse_doc_type.simps(2))

definition reads_form :: "ice_type \<Rightarrow> schema \<Rightarrow> bool" where
  "reads_form t s \<longleftrightarrow> built t \<and> (\<forall>n. parse_doc_type (enc_ice_type t) n = Inr (ice_form n s))"

definition field_reads :: "ice_field \<Rightarrow> field \<Rightarrow> schema \<Rightarrow> bool" where
  "field_reads nf f s \<longleftrightarrow> built_field nf \<and> nf_Name nf = FieldName f \<and> nf_Doc nf = Comment s \<and> nf_Required nf = (\<not> IsNullable s) \<and>
     reads_form (nf_Type nf) s"

lemma nested_kinds: "ice_type_name s = None \<longleftrightarrow> DataType s \<in> {TypeRecord, TypeList, TypeMap}"
  by (auto simp: ice_type_name_def split: dtype.splits)

lemma struct_reads:
  assumes "list_all2 (\<lambda>f nf. \<exists>t. FieldSchema f = Some t \<and> field_reads nf f t) (Fields s) fs" "DataType s = TypeRecord"
  shows "reads_form (TStruct fs) s"
proof -
  have "map_res (\<lambda>f. bind_res (parse_doc_type (enc_ice_type (nf_Type f)) (\<not> nf_Required f)) (\<lambda>c.
        Inr (mkField (nf_Name f) (Some (with_doc (nf_Doc f) c))))) fs =
      Inr (map (\<lambda>f. mkField (FieldName f)
        (case FieldSchema f of None \<Rightarrow> None | Some t \<Rightarrow> Some (with_doc (Comment t) (ice_form (IsNullable t) t)))) (Fields s))"
    using assms(1) by (induction rule: list_all2_induct) (auto simp: field_reads_def reads_form_def)
  moreover have "list_all built_field fs"
    using assms(1) by (induction rule: list_all2_induct) (auto simp: field_reads_def)
  ultimately show ?thesis
    unfolding reads_form_def parse_struct using assms(2) by (simp add: ice_form.simps [of _ s])
qed

lemma convert_reads:
  "convertTypeToIceberg sch path prev n = Inr (t, n') \<Longrightarrow> sch = Some s \<Longrightarrow> ice_ok s \<Longrightarrow> reads_form t s"
  "convert_field f path prev n = Inr (nf, n') \<Longrightarrow> FieldSchema f = Some s \<Longrightarrow> ice_ok s \<Longrightarrow> field_reads nf f s"
proof (induction sch path prev n and f path prev n arbitrary: t n' s and nf n' s rule: convertTypeToIceberg_convert_field.induct)
  case (2 s0 path prev n)
  then have s: "s0 = s" by simp
  show ?case
  proof (cases "ice_type_name s")
    case (Some nm)
    with "2.prems"(1) have "t = TName nm" by (simp add: s convertTypeToIceberg.simps(2))
    with ice_name_read [OF Some "2.prems"(3)] show ?thesis by (simp add: reads_form_def)
  next
    case None
    note conv = "2.prems"(1) [unfolded s convertTypeToIceberg.simps(2) None option.case]
    consider "DataType s = TypeRecord" | "DataType s = TypeList" | "DataType s = TypeMap" using None by (auto simp: nested_kinds)
    then show ?thesis
    proof cases
      case 1
      from conv 1 obtain fs where fs: "thread_fields (\<lambda>f. convert_field f (join_path path (FieldName f)) prev) (Fields s) n = Inr (fs, n')"
        and t: "t = TStruct fs" by auto
      have ok: "list_all (\<lambda>f. case FieldSchema f of None \<Rightarrow> False | Some t \<Rightarrow> ice_ok t) (Fields s)"
        using "2.prems"(3) 1 by (simp add: ice_ok.simps [of s])
      have "list_all2 (\<lambda>f nf. \<exists>t. FieldSchema f = Some t \<and> field_reads nf f t) (Fields s) fs"
        using thread_fields_all2 [OF fs]
      proof (rule list.rel_mono_strong)
        fix f nf assume f: "f \<in> set (Fields s)" and c: "\<exists>m m'. convert_field f (join_path path (FieldName f)) prev m = Inr (nf, m')"
        then obtain m m' where c: "convert_field f (join_path path (FieldName f)) prev m = Inr (nf, m')" by blast
        from ok f obtain u where u: "FieldSchema f = Some u" "ice_ok u" by (auto simp: list_all_iff split: option.splits)
        from "2.IH"(1) [of f m nf m' u] None 1 f c u show "\<exists>t. FieldSchema f = Some t \<and> field_reads nf f t" by (auto simp: s)
      qed
      from struct_reads [OF this 1] t show ?thesis by simp
    next
      case 2
      then have "ice_ok s = (case Option.bind (ElementSchema s) FieldSchema of None \<Rightarrow> False | Some e \<Rightarrow> ice_ok e)"
        by (simp add: ice_ok.simps [of s])
      with "2.prems"(3) obtain e es where e: "ElementSchema s = Some e" "FieldSchema e = Some es" "ice_ok es"
        by (auto simp: bind_eq_Some_conv split: option.splits)
      obtain i n1 where i: "assignFieldID None (path @ ''.element'') prev n = (i, n1)" by fastforce
      from conv 2 e i obtain t1 where t1: "convertTypeToIceberg (FieldSchema e) (path @ ''.element'') prev n1 = Inr (t1, n')"
        and t: "t = TList i t1 (\<not> IsNullable es)" by auto
      have "reads_form t1 es" by (rule "2.IH"(2)) (use None 2 e i t1 s in auto)
      with t 2 e show ?thesis unfolding reads_form_def by (simp add: parse_list_map ice_form.simps [of _ s] del: enc_ice_type.simps)
    next
      case 3
      then have "ice_ok s = ((case Option.bind (KeySchema s) FieldSchema of None \<Rightarrow> False | Some k \<Rightarrow> ice_ok k) \<and>
          (case Option.bind (ValueSchema s) FieldSchema of None \<Rightarrow> False | Some v \<Rightarrow> ice_ok v))"
        by (simp add: ice_ok.simps [of s])
      with "2.prems"(3) obtain k ks v vs where kv: "KeySchema s = Some k" "FieldSchema k = Some ks" "ice_ok ks"
        "ValueSchema s = Some v" "FieldSchema v = Some vs" "ice_ok vs" by (auto simp: bind_eq_Some_conv split: option.splits)
      obtain ki n1 where ki: "assignFieldID None (path @ ''.key'') prev n = (ki, n1)" by fastforce
      from conv 3 kv ki obtain t1 n2 where t1: "convertTypeToIceberg (FieldSchema k) (path @ ''.key'') prev n1 = Inr (t1, n2)"
        by (cases "convertTypeToIceberg (FieldSchema k) (path @ ''.key'') prev n1") auto
      obtain vi n3 where vi: "assignFieldID None (path @ ''.value'') prev n2 = (vi, n3)" by fastforce
      from conv 3 kv ki t1 vi obtain t2 where t2: "convertTypeToIceberg (FieldSchema v) (path @ ''.value'') prev n3 = Inr (t2, n')"
        and t: "t = TMap ki t1 vi t2 (\<not> IsNullable vs)" by auto
      have "reads_form t1 ks" by (rule "2.IH"(3)) (use None 3 kv ki t1 s in auto)
      moreover have "reads_form t2 vs" by (rule "2.IH"(4)) (use None 3 kv ki t1 vi t2 s in auto)
      ultimately show ?thesis using t 3 kv unfolding reads_form_def
        by (simp add: parse_list_map ice_form.simps [of _ s] del: enc_ice_type.simps)
    qed
  qed
next
  case (3 f path prev n)
  obtain i n1 where i: "assignFieldID (FieldID f) path prev n = (i, n1)" by fastforce
  from "3.prems" i obtain t where t: "convertTypeToIceberg (FieldSchema f) path prev n1 = Inr (t, n')"
    and nf: "nf = IceField i (FieldName f) t (\<not> IsNullable s) (Comment s) JNull JNull"
    by (auto simp: convert_field.simps)
  have "reads_form t s" by (rule "3.IH") (use i t "3.prems" in auto)
  with nf show ?case by (simp add: field_reads_def reads_form_def)
qed auto

section \<open>The identifiers assigned\<close>

text \<open>The identifiers the source supplies itself.\<close>

definition own_id :: "field \<Rightarrow> int list" where
  "own_id f = (case FieldID f of Some i \<Rightarrow> if i > 0 then [i] else [] | None \<Rightarrow> [])"

function explicit_ids :: "schema \<Rightarrow> int list" where
  "explicit_ids s =
     (case DataType s of
        TypeRecord \<Rightarrow> concat (map (\<lambda>f. own_id f @ (case FieldSchema f of None \<Rightarrow> [] | Some t \<Rightarrow> explicit_ids t)) (Fields s))
      | TypeList \<Rightarrow> (case Option.bind (ElementSchema s) FieldSchema of None \<Rightarrow> [] | Some e \<Rightarrow> explicit_ids e)
      | TypeMap \<Rightarrow>
          (case Option.bind (KeySchema s) FieldSchema of None \<Rightarrow> [] | Some k \<Rightarrow> explicit_ids k) @
          (case Option.bind (ValueSchema s) FieldSchema of None \<Rightarrow> [] | Some v \<Rightarrow> explicit_ids v)
      | _ \<Rightarrow> [])"
  by pat_completeness auto
termination
  by (relation "measure size") (auto intro: size_child_field size_child_ptr simp: bind_eq_Some_conv)

declare explicit_ids.simps [simp del]

text \<open>
  The slots allotted between two values of the counter: those on record keep their identifier, the others are fresh
  and distinct. \<open>L\<close> bounds what is on record and the counter, \<open>k\<close> is the number of slots allowed.
\<close>

definition alloc :: "(string, int) gomap \<Rightarrow> int \<Rightarrow> (string \<times> int) list \<Rightarrow> int \<Rightarrow> bool" where
  "alloc prev n xs n' \<longleftrightarrow>
     list_all (\<lambda>(p, i). case map_of prev p of Some j \<Rightarrow> i = j | None \<Rightarrow> n \<le> i \<and> i < n') xs \<and>
     distinct (map snd (filter (\<lambda>(p, i). map_of prev p = None) xs))"

definition recorded_positive :: "(string, int) gomap \<Rightarrow> bool" where
  "recorded_positive prev \<longleftrightarrow> (\<forall>p i. map_of prev p = Some i \<longrightarrow> 0 < i)"

definition allotted :: "(string, int) gomap \<Rightarrow> bool \<Rightarrow> int \<Rightarrow> nat \<Rightarrow> int \<Rightarrow> (string \<times> int) list \<Rightarrow> int \<Rightarrow> bool" where
  "allotted prev e L k n xs n' \<longleftrightarrow>
     n \<le> n' \<and> n' \<le> L + 1 + int k \<and> list_all (\<lambda>(p, i). \<bar>i\<bar> \<le> L + int k) xs \<and> (e \<longrightarrow> alloc prev n xs n') \<and>
     (recorded_positive prev \<longrightarrow> list_all (\<lambda>(p, i). 0 < i) xs)"

definition recorded_within :: "int \<Rightarrow> (string, int) gomap \<Rightarrow> bool" where
  "recorded_within L prev \<longleftrightarrow> (\<forall>p i. map_of prev p = Some i \<longrightarrow> \<bar>i\<bar> \<le> L)"

definition recorded_below :: "int \<Rightarrow> (string, int) gomap \<Rightarrow> bool" where
  "recorded_below n prev \<longleftrightarrow> (\<forall>p i. map_of prev p = Some i \<longrightarrow> i < n)"

lemma list_all_pair: "list_all (\<lambda>(p, i). P p i) xs \<Longrightarrow> (p, i) \<in> set xs \<Longrightarrow> P p i"
  by (auto simp: list_all_iff)

lemma alloc_at:
  "alloc prev n xs n' \<Longrightarrow> (p, i) \<in> set xs \<Longrightarrow> case map_of prev p of Some j \<Rightarrow> i = j | None \<Rightarrow> n \<le> i \<and> i < n'"
  by (auto simp: alloc_def list_all_iff)

lemma alloc_append:
  assumes "alloc prev n xs m" "alloc prev m ys n'" "n \<le> m" "m \<le> n'"
  shows "alloc prev n (xs @ ys) n'"
proof -
  have "set (map snd (filter (\<lambda>(p, i). map_of prev p = None) xs)) \<inter> set (map snd (filter (\<lambda>(p, i). map_of prev p = None) ys)) = {}"
    using assms(1,2) by (fastforce simp: alloc_def list_all_iff)
  moreover have "list_all (\<lambda>(p, i). case map_of prev p of Some j \<Rightarrow> i = j | None \<Rightarrow> n \<le> i \<and> i < n') (xs @ ys)"
    using assms by (fastforce simp: alloc_def list_all_iff split: option.splits)
  ultimately show ?thesis using assms(1,2) by (simp add: alloc_def)
qed

lemma allotted_append:
  assumes "allotted prev e L k n xs m" "allotted prev e (L + int k) k' m ys n'"
  shows "allotted prev e L (k + k') n (xs @ ys) n'"
  using assms alloc_append [of prev n xs m ys n'] by (fastforce simp: allotted_def list_all_iff)

lemma allotted_mono: "allotted prev e L k n xs n' \<Longrightarrow> k \<le> k' \<Longrightarrow> (e' \<Longrightarrow> e) \<Longrightarrow> allotted prev e' L k' n xs n'"
  by (fastforce simp: allotted_def list_all_iff)

lemma allotted_Nil: "n \<le> L + 1 \<Longrightarrow> allotted prev e L 0 n [] n"
  by (simp add: allotted_def alloc_def)

lemma allotted_assign:
  assumes "assignFieldID explicit path prev n = (i, n')" and L: "recorded_within L prev" "1 \<le> n" "n \<le> L + 1" "L + 1 < max_int64"
    and x: "\<And>j. explicit = Some j \<Longrightarrow> j \<le> L" and e: "e \<Longrightarrow> recorded_below n prev \<and> (\<forall>j. explicit = Some j \<longrightarrow> j \<le> 0)"
  shows "allotted prev e L 1 n [(path, i)] n'"
proof -
  define rec where "rec \<longleftrightarrow> (\<forall>j. explicit = Some j \<longrightarrow> j \<le> 0)"
  have w: "wrap64 (j + 1) = j + 1" if "\<bar>j\<bar> \<le> L + 1" "j \<le> L + 1" for j using that L by (simp add: in_int64_def)
  consider (ex) j where "explicit = Some j" "0 < j" | (recd) j where rec "map_of prev path = Some j" | (fresh) rec "map_of prev path = None"
    unfolding rec_def by (cases explicit) (force, meson not_le option.exhaust)
  then show ?thesis
  proof cases
    case (ex j)
    then have "\<not> e" using e by auto
    moreover have "j \<le> L" using x ex by simp
    ultimately show ?thesis using ex assms(1) w [of j] L by (auto simp: assignFieldID_def allotted_def Let_def split: if_splits)
  next
    case (recd j)
    then have "\<bar>j\<bar> \<le> L" using L(1) by (auto simp: recorded_within_def)
    moreover have "i = j" "n' = (if j \<ge> n then wrap64 (j + 1) else n)"
      using recd assms(1) by (auto simp: rec_def assignFieldID_def Let_def split: option.splits if_splits)
    ultimately show ?thesis using recd w [of j] L by (auto simp: allotted_def alloc_def recorded_positive_def)
  next
    case fresh
    then have "i = n" "n' = wrap64 (n + 1)"
      using assms(1) by (auto simp: rec_def assignFieldID_def Let_def split: option.splits if_splits)
    with fresh w [of n] L show ?thesis by (simp add: allotted_def alloc_def)
  qed
qed

lemma allotted_thread:
  assumes "thread_fields f xs n = Inr (ys, n')" and "1 \<le> n" "n \<le> L + 1" "L + int (sum_list (map w xs)) < max_int64"
    and "e \<Longrightarrow> recorded_below n prev" and "recorded_within L prev"
    and step: "\<And>x y m m' K. x \<in> set xs \<Longrightarrow> f x m = Inr (y, m') \<Longrightarrow> 1 \<le> m \<Longrightarrow> m \<le> K + 1 \<Longrightarrow> L \<le> K \<Longrightarrow> K + int (w x) < max_int64 \<Longrightarrow>
      (e \<Longrightarrow> recorded_below m prev) \<Longrightarrow> recorded_within K prev \<Longrightarrow> allotted prev e K (w x) m (sl y) m'"
  shows "allotted prev e L (sum_list (map w xs)) n (concat (map sl ys)) n'"
  using assms
proof (induction xs arbitrary: n L ys)
  case Nil
  then show ?case by (simp add: allotted_Nil)
next
  case (Cons x xs)
  from Cons.prems(1) obtain y m zs where y: "f x n = Inr (y, m)" and zs: "thread_fields f xs m = Inr (zs, n')" and ys: "ys = y # zs"
    by (auto split: prod.splits)
  have a: "allotted prev e L (w x) n (sl y) m"
    by (rule Cons.prems(7) [OF _ y]) (use Cons.prems in auto)
  then have m: "n \<le> m" "m \<le> L + 1 + int (w x)" by (simp_all add: allotted_def)
  have "allotted prev e (L + int (w x)) (sum_list (map w xs)) m (concat (map sl zs)) n'"
  proof (rule Cons.IH [OF zs])
    show "e \<Longrightarrow> recorded_below m prev" using Cons.prems(5) m by (fastforce simp: recorded_below_def)
    show "recorded_within (L + int (w x)) prev" using Cons.prems(6) by (fastforce simp: recorded_within_def)
    show "allotted prev e K (w x') k (sl y') k'" if "x' \<in> set xs" "f x' k = Inr (y', k')" "1 \<le> k" "k \<le> K + 1" "L + int (w x) \<le> K"
      "K + int (w x') < max_int64" "e \<Longrightarrow> recorded_below k prev" "recorded_within K prev" for x' y' k k' K
      by (rule Cons.prems(7)) (use that in auto)
  qed (use Cons.prems m in auto)
  from allotted_append [OF a this] show ?case by (simp add: ys)
qed

definition field_ids_of :: "field \<Rightarrow> int list" where
  "field_ids_of f = own_id f @ (case FieldSchema f of None \<Rightarrow> [] | Some t \<Rightarrow> explicit_ids t)"

lemma sum_size_le: "sum_list (map size xs) \<le> size_list size xs"
  by (induction xs) auto

lemma size_parts:
  "sum_list (map size (Fields s)) < size s" "FieldSchema f = Some u \<Longrightarrow> 1 + size u \<le> size f"
  "ElementSchema s = Some f \<Longrightarrow> FieldSchema f = Some u \<Longrightarrow> 1 + size u \<le> size s"
  "KeySchema s = Some f \<Longrightarrow> FieldSchema f = Some u \<Longrightarrow> ValueSchema s = Some g \<Longrightarrow> FieldSchema g = Some v \<Longrightarrow> 2 + size u + size v \<le> size s"
  using sum_size_le [of "Fields s"] by (cases s; cases f; cases g; simp)+

lemma field_slots_converted:
  "field_slots (IceField i nm t req doc a b) p = (join_path p nm, i) # type_slots t (join_path p nm)"
  by simp

lemma ids_le_mono: "list_all (\<lambda>i. i \<le> L) (xs :: int list) \<Longrightarrow> L \<le> K \<Longrightarrow> list_all (\<lambda>i. i \<le> K) xs"
  by (induction xs) auto

lemma convert_allots:
  "convertTypeToIceberg sch path prev n = Inr (t, n') \<Longrightarrow> sch = Some s \<Longrightarrow> ice_ok s \<Longrightarrow> 1 \<le> n \<Longrightarrow> n \<le> L + 1 \<Longrightarrow>
    L + int (size s) < max_int64 \<Longrightarrow> (e \<Longrightarrow> recorded_below n prev) \<Longrightarrow> (e \<Longrightarrow> explicit_ids s = []) \<Longrightarrow>
    recorded_within L prev \<Longrightarrow> list_all (\<lambda>i. i \<le> L) (explicit_ids s) \<Longrightarrow> allotted prev e L (size s) n (type_slots t path) n'"
  "convert_field f path prev n = Inr (nf, n') \<Longrightarrow> FieldSchema f = Some s \<Longrightarrow> ice_ok s \<Longrightarrow> path = join_path p (FieldName f) \<Longrightarrow> 1 \<le> n \<Longrightarrow> n \<le> L + 1 \<Longrightarrow>
    L + int (size f) < max_int64 \<Longrightarrow> (e \<Longrightarrow> recorded_below n prev) \<Longrightarrow> (e \<Longrightarrow> field_ids_of f = []) \<Longrightarrow>
    recorded_within L prev \<Longrightarrow> list_all (\<lambda>i. i \<le> L) (field_ids_of f) \<Longrightarrow> allotted prev e L (size f) n (field_slots nf p) n'"
proof (induction sch path prev n and f path prev n arbitrary: t n' s L and nf n' s p L rule: convertTypeToIceberg_convert_field.induct)
  case (2 s0 path prev n)
  then have s: "s0 = s" by simp
  note prems = "2.prems"(4-)
  show ?case
  proof (cases "ice_type_name s")
    case (Some nm)
    with "2.prems"(1) have "t = TName nm" "n' = n" by (simp_all add: s convertTypeToIceberg.simps(2))
    with allotted_mono [OF allotted_Nil [OF prems(2)], of "size s" e] show ?thesis by simp
  next
    case None
    note conv = "2.prems"(1) [unfolded s convertTypeToIceberg.simps(2) None option.case]
    consider "DataType s = TypeRecord" | "DataType s = TypeList" | "DataType s = TypeMap" using None by (auto simp: nested_kinds)
    then show ?thesis
    proof cases
      case 1
      from conv 1 obtain fs where fs: "thread_fields (\<lambda>f. convert_field f (join_path path (FieldName f)) prev) (Fields s) n = Inr (fs, n')"
        and t: "t = TStruct fs" by auto
      have ids: "explicit_ids s = concat (map field_ids_of (Fields s))"
        using 1 by (simp add: explicit_ids.simps [of s] field_ids_of_def [abs_def])
      have ok: "list_all (\<lambda>f. case FieldSchema f of None \<Rightarrow> False | Some t \<Rightarrow> ice_ok t) (Fields s)"
        using "2.prems"(3) 1 by (simp add: ice_ok.simps [of s])
      have "allotted prev e L (sum_list (map size (Fields s))) n (concat (map (\<lambda>nf. field_slots nf path) fs)) n'"
      proof (rule allotted_thread [OF fs])
        show "L + int (sum_list (map size (Fields s))) < max_int64" using prems(3) size_parts(1) [of s] by linarith
        show "allotted prev e K (size f) m (field_slots nf path) m'"
          if f: "f \<in> set (Fields s)" and c: "convert_field f (join_path path (FieldName f)) prev m = Inr (nf, m')"
            and K: "1 \<le> m" "m \<le> K + 1" "L \<le> K" "K + int (size f) < max_int64" "e \<Longrightarrow> recorded_below m prev" "recorded_within K prev"
          for f nf m m' K
        proof -
          from ok f obtain u where u: "FieldSchema f = Some u" "ice_ok u" by (auto simp: list_all_iff split: option.splits)
          show ?thesis
          proof (rule "2.IH"(1) [of f m nf m' u path K])
            show "e \<Longrightarrow> field_ids_of f = []" using prems(5) f by (auto simp: ids)
            show "list_all (\<lambda>i. i \<le> K) (field_ids_of f)" using prems(7) f K(3) by (fastforce simp: ids list_all_iff)
          qed (use None 1 f c K s u in auto)
        qed
      qed (use prems in auto)
      from allotted_mono [OF this, of "size s" e] show ?thesis using size_parts(1) [of s] by (simp add: t)
    next
      case 2
      then have "ice_ok s = (case Option.bind (ElementSchema s) FieldSchema of None \<Rightarrow> False | Some e \<Rightarrow> ice_ok e)"
        by (simp add: ice_ok.simps [of s])
      with "2.prems"(3) obtain f es where f: "ElementSchema s = Some f" "FieldSchema f = Some es" and ok: "ice_ok es"
        by (auto simp: bind_eq_Some_conv split: option.splits)
      obtain i n1 where i: "assignFieldID None (path @ ''.element'') prev n = (i, n1)" by fastforce
      from conv 2 f i obtain t1 where t1: "convertTypeToIceberg (FieldSchema f) (path @ ''.element'') prev n1 = Inr (t1, n')"
        and t: "t = TList i t1 (\<not> IsNullable es)" by auto
      have ids: "explicit_ids s = explicit_ids es" using 2 f by (simp add: explicit_ids.simps [of s])
      note sz = size_parts(3) [OF f]
      have a: "allotted prev e L 1 n [(path @ ''.element'', i)] n1"
        by (rule allotted_assign [OF i]) (use prems sz in auto)
      have "allotted prev e (L + int 1) (size es) n1 (type_slots t1 (path @ ''.element'')) n'"
      proof (rule "2.IH"(2))
        show "e \<Longrightarrow> recorded_below n1 prev" using prems(4) a by (fastforce simp: recorded_below_def allotted_def)
        show "recorded_within (L + int 1) prev" using prems(6) by (fastforce simp: recorded_within_def)
        show "list_all (\<lambda>i. i \<le> L + int 1) (explicit_ids es)" using prems(7) by (auto simp: ids elim: ids_le_mono)
        show "e \<Longrightarrow> explicit_ids es = []" using prems(5) ids by simp
      qed (use None 2 f ok i t1 s a prems sz in \<open>auto simp: allotted_def\<close>)
      from allotted_mono [OF allotted_append [OF a this] sz, of e] show ?thesis by (simp add: t)
    next
      case 3
      then have "ice_ok s = ((case Option.bind (KeySchema s) FieldSchema of None \<Rightarrow> False | Some k \<Rightarrow> ice_ok k) \<and>
          (case Option.bind (ValueSchema s) FieldSchema of None \<Rightarrow> False | Some v \<Rightarrow> ice_ok v))"
        by (simp add: ice_ok.simps [of s])
      with "2.prems"(3) obtain k ks v vs where k: "KeySchema s = Some k" "FieldSchema k = Some ks" "ValueSchema s = Some v" "FieldSchema v = Some vs"
        and ok: "ice_ok ks" "ice_ok vs" by (auto simp: bind_eq_Some_conv split: option.splits)
      obtain ki n1 where ki: "assignFieldID None (path @ ''.key'') prev n = (ki, n1)" by fastforce
      from conv 3 k ki obtain t1 n2 where t1: "convertTypeToIceberg (FieldSchema k) (path @ ''.key'') prev n1 = Inr (t1, n2)"
        by (cases "convertTypeToIceberg (FieldSchema k) (path @ ''.key'') prev n1") auto
      obtain vi n3 where vi: "assignFieldID None (path @ ''.value'') prev n2 = (vi, n3)" by fastforce
      from conv 3 k ki t1 vi obtain t2 where t2: "convertTypeToIceberg (FieldSchema v) (path @ ''.value'') prev n3 = Inr (t2, n')"
        and t: "t = TMap ki t1 vi t2 (\<not> IsNullable vs)" by auto
      have ids: "explicit_ids s = explicit_ids ks @ explicit_ids vs" using 3 k by (simp add: explicit_ids.simps [of s])
      note sz = size_parts(4) [OF k]
      have a: "allotted prev e L 1 n [(path @ ''.key'', ki)] n1"
        by (rule allotted_assign [OF ki]) (use prems sz in auto)
      have "allotted prev e (L + int 1) (size ks) n1 (type_slots t1 (path @ ''.key'')) n2"
      proof (rule "2.IH"(3))
        show "e \<Longrightarrow> recorded_below n1 prev" using prems(4) a by (fastforce simp: recorded_below_def allotted_def)
        show "recorded_within (L + int 1) prev" using prems(6) by (fastforce simp: recorded_within_def)
        show "list_all (\<lambda>i. i \<le> L + int 1) (explicit_ids ks)" using prems(7) by (auto simp: ids elim: ids_le_mono)
        show "e \<Longrightarrow> explicit_ids ks = []" using prems(5) ids by simp
      qed (use None 3 k ok ki t1 s a prems sz in \<open>auto simp: allotted_def\<close>)
      note b = allotted_append [OF a this]
      have c: "allotted prev e (L + int (1 + size ks)) 1 n2 [(path @ ''.value'', vi)] n3"
      proof (rule allotted_assign [OF vi])
        show "e \<Longrightarrow> recorded_below n2 prev \<and> (\<forall>j. None = Some j \<longrightarrow> j \<le> 0)" using prems(4) b by (fastforce simp: recorded_below_def allotted_def)
        show "recorded_within (L + int (1 + size ks)) prev" using prems(6) by (fastforce simp: recorded_within_def)
      qed (use b prems sz in \<open>auto simp: allotted_def\<close>)
      note d = allotted_append [OF b c]
      have "allotted prev e (L + int (1 + size ks + 1)) (size vs) n3 (type_slots t2 (path @ ''.value'')) n'"
      proof (rule "2.IH"(4))
        show "e \<Longrightarrow> recorded_below n3 prev" using prems(4) d by (fastforce simp: recorded_below_def allotted_def)
        show "recorded_within (L + int (1 + size ks + 1)) prev" using prems(6) by (fastforce simp: recorded_within_def)
        show "list_all (\<lambda>i. i \<le> L + int (1 + size ks + 1)) (explicit_ids vs)" using prems(7) by (auto simp: ids elim: ids_le_mono)
        show "e \<Longrightarrow> explicit_ids vs = []" using prems(5) ids by simp
      qed (use None 3 k ok ki t1 vi t2 s d prems sz in \<open>auto simp: allotted_def\<close>)
      from allotted_mono [OF allotted_append [OF d this], of "size s" e] sz show ?thesis by (simp add: t)
    qed
  qed
next
  case (3 f path prev n)
  note prems = "3.prems"(5-)
  obtain i n1 where i: "assignFieldID (FieldID f) path prev n = (i, n1)" by fastforce
  from "3.prems"(1,2) i obtain t where t: "convertTypeToIceberg (FieldSchema f) path prev n1 = Inr (t, n')"
    and nf: "nf = IceField i (FieldName f) t (\<not> IsNullable s) (Comment s) JNull JNull"
    by (auto simp: convert_field.simps)
  have ids: "field_ids_of f = own_id f @ explicit_ids s" using "3.prems"(2) by (simp add: field_ids_of_def)
  note sz = size_parts(2) [OF "3.prems"(2)]
  have a: "allotted prev e L 1 n [(path, i)] n1"
  proof (rule allotted_assign [OF i])
    show "j \<le> L" if "FieldID f = Some j" for j
      using prems(7) that prems(1,2) by (cases "j > 0") (auto simp: ids own_id_def)
    show "e \<Longrightarrow> recorded_below n prev \<and> (\<forall>j. FieldID f = Some j \<longrightarrow> j \<le> 0)"
      using prems(4,5) by (force simp: ids own_id_def split: if_splits)
  qed (use prems sz in auto)
  have "allotted prev e (L + int 1) (size s) n1 (type_slots t path) n'"
  proof (rule "3.IH")
    show "e \<Longrightarrow> recorded_below n1 prev" using prems(4) a by (fastforce simp: recorded_below_def allotted_def)
    show "recorded_within (L + int 1) prev" using prems(6) by (fastforce simp: recorded_within_def)
    show "list_all (\<lambda>i. i \<le> L + int 1) (explicit_ids s)" using prems(7) by (auto simp: ids elim: ids_le_mono)
    show "e \<Longrightarrow> explicit_ids s = []" using prems(5) ids by simp
  qed (use i t "3.prems"(2,3) a prems sz in \<open>auto simp: allotted_def\<close>)
  from allotted_mono [OF allotted_append [OF a this] sz, of e] show ?case using "3.prems"(4) by (simp add: nf)
qed auto

section \<open>A converted schema\<close>

lemma convert_total:
  "sch = Some s \<Longrightarrow> ice_ok s \<Longrightarrow> \<exists>t n'. convertTypeToIceberg sch path prev n = Inr (t, n')"
  "FieldSchema f = Some s \<Longrightarrow> ice_ok s \<Longrightarrow> \<exists>nf n'. convert_field f path prev n = Inr (nf, n')"
proof (induction sch path prev n and f path prev n arbitrary: s and s rule: convertTypeToIceberg_convert_field.induct)
  case (2 s0 path prev n)
  then have s: "s0 = s" by simp
  show ?case
  proof (cases "ice_type_name s")
    case (Some nm)
    then show ?thesis by (simp add: s convertTypeToIceberg.simps(2) [of s path prev n])
  next
    case None
    consider "DataType s = TypeRecord" | "DataType s = TypeList" | "DataType s = TypeMap" using None by (auto simp: nested_kinds)
    then show ?thesis
    proof cases
      case 1
      have ok: "list_all (\<lambda>f. case FieldSchema f of None \<Rightarrow> False | Some t \<Rightarrow> ice_ok t) (Fields s)"
        using "2.prems"(2) 1 by (simp add: ice_ok.simps [of s])
      have "\<exists>fs n'. thread_fields (\<lambda>f. convert_field f (join_path path (FieldName f)) prev) (Fields s) n = Inr (fs, n')"
      proof (rule thread_fields_total)
        fix f m assume f: "f \<in> set (Fields s)"
        with ok obtain u where "FieldSchema f = Some u" "ice_ok u" by (auto simp: list_all_iff split: option.splits)
        with "2.IH"(1) [of f] None 1 f show "\<exists>y m'. convert_field f (join_path path (FieldName f)) prev m = Inr (y, m')" by (simp add: s)
      qed
      with None 1 show ?thesis by (auto simp: s convertTypeToIceberg.simps(2) [of s path prev n])
    next
      case 2
      then have "ice_ok s = (case Option.bind (ElementSchema s) FieldSchema of None \<Rightarrow> False | Some e \<Rightarrow> ice_ok e)"
        by (simp add: ice_ok.simps [of s])
      with "2.prems"(2) obtain f es where f: "ElementSchema s = Some f" "FieldSchema f = Some es" and ok: "ice_ok es"
        by (auto simp: bind_eq_Some_conv split: option.splits)
      obtain i n1 where i: "assignFieldID None (path @ ''.element'') prev n = (i, n1)" by fastforce
      have "\<exists>t n'. convertTypeToIceberg (FieldSchema f) (path @ ''.element'') prev n1 = Inr (t, n')"
        by (rule "2.IH"(2)) (use None 2 f ok i s in auto)
      with None 2 f i show ?thesis by (auto simp: s convertTypeToIceberg.simps(2) [of s path prev n])
    next
      case 3
      then have "ice_ok s = ((case Option.bind (KeySchema s) FieldSchema of None \<Rightarrow> False | Some k \<Rightarrow> ice_ok k) \<and>
          (case Option.bind (ValueSchema s) FieldSchema of None \<Rightarrow> False | Some v \<Rightarrow> ice_ok v))"
        by (simp add: ice_ok.simps [of s])
      with "2.prems"(2) obtain k ks v vs where k: "KeySchema s = Some k" "FieldSchema k = Some ks" "ValueSchema s = Some v" "FieldSchema v = Some vs"
        and ok: "ice_ok ks" "ice_ok vs" by (auto simp: bind_eq_Some_conv split: option.splits)
      obtain ki n1 where ki: "assignFieldID None (path @ ''.key'') prev n = (ki, n1)" by fastforce
      have "\<exists>t n'. convertTypeToIceberg (FieldSchema k) (path @ ''.key'') prev n1 = Inr (t, n')"
        by (rule "2.IH"(3)) (use None 3 k ok(1) ki s in auto)
      then obtain t1 n2 where t1: "convertTypeToIceberg (FieldSchema k) (path @ ''.key'') prev n1 = Inr (t1, n2)" by blast
      obtain vi n3 where vi: "assignFieldID None (path @ ''.value'') prev n2 = (vi, n3)" by fastforce
      have "\<exists>t n'. convertTypeToIceberg (FieldSchema v) (path @ ''.value'') prev n3 = Inr (t, n')"
        by (rule "2.IH"(4)) (use None 3 k ok(2) ki t1 vi s in auto)
      with None 3 k ki t1 vi show ?thesis by (auto simp: s convertTypeToIceberg.simps(2) [of s path prev n])
    qed
  qed
next
  case (3 f path prev n)
  obtain i n1 where i: "assignFieldID (FieldID f) path prev n = (i, n1)" by fastforce
  have "\<exists>t n'. convertTypeToIceberg (FieldSchema f) path prev n1 = Inr (t, n')"
    by (rule "3.IH") (use i "3.prems" in auto)
  with i "3.prems" show ?case by (auto simp: convert_field.simps)
qed auto

text \<open>
  The paths of the columns of a canonical schema, those inside lists, maps and records included, in order. The
  converter gives each of them an identifier.
\<close>

function type_paths :: "schema \<Rightarrow> string \<Rightarrow> string list" where
  "type_paths s p =
     (case DataType s of
        TypeRecord \<Rightarrow> concat (map (\<lambda>f. let q = (if p = '''' then FieldName f else p @ ''.'' @ FieldName f) in
          q # (case FieldSchema f of None \<Rightarrow> [] | Some t \<Rightarrow> type_paths t q)) (Fields s))
      | TypeList \<Rightarrow> (p @ ''.element'') #
          (case Option.bind (ElementSchema s) FieldSchema of None \<Rightarrow> [] | Some e \<Rightarrow> type_paths e (p @ ''.element''))
      | TypeMap \<Rightarrow>
          (p @ ''.key'') # (case Option.bind (KeySchema s) FieldSchema of None \<Rightarrow> [] | Some k \<Rightarrow> type_paths k (p @ ''.key'')) @
          (p @ ''.value'') # (case Option.bind (ValueSchema s) FieldSchema of None \<Rightarrow> [] | Some v \<Rightarrow> type_paths v (p @ ''.value''))
      | _ \<Rightarrow> [])"
  by pat_completeness auto
termination
  by (relation "measure (\<lambda>(s, _). size s)") (auto intro: size_child_field size_child_ptr simp: bind_eq_Some_conv)

declare type_paths.simps [simp del]

definition column_paths :: "schema \<Rightarrow> string list" where
  "column_paths s = type_paths s ''''"

definition field_paths :: "string \<Rightarrow> field \<Rightarrow> string list" where
  "field_paths p f = join_path p (FieldName f) #
     (case FieldSchema f of None \<Rightarrow> [] | Some t \<Rightarrow> type_paths t (join_path p (FieldName f)))"

lemma type_paths_record: "DataType s = TypeRecord \<Longrightarrow> type_paths s p = concat (map (field_paths p) (Fields s))"
  by (subst type_paths.simps) (auto simp: field_paths_def join_path_def Let_def intro!: arg_cong [of _ _ concat] split: option.split)

lemma thread_slots:
  assumes "thread_fields g xs n = Inr (ys, n')" and "\<And>x y m m'. x \<in> set xs \<Longrightarrow> g x m = Inr (y, m') \<Longrightarrow> map fst (h y) = k x"
  shows "map fst (concat (map h ys)) = concat (map k xs)"
  using thread_fields_all2 [OF assms(1)] assms(2)
  by (induction rule: list_all2_induct) auto

lemma convert_paths:
  "convertTypeToIceberg sch path prev n = Inr (t, n') \<Longrightarrow> sch = Some s \<Longrightarrow> ice_ok s \<Longrightarrow> map fst (type_slots t path) = type_paths s path"
  "convert_field f path prev n = Inr (nf, n') \<Longrightarrow> FieldSchema f = Some s \<Longrightarrow> ice_ok s \<Longrightarrow> path = join_path p (FieldName f) \<Longrightarrow>
    map fst (field_slots nf p) = field_paths p f"
proof (induction sch path prev n and f path prev n arbitrary: t n' s and nf n' s p rule: convertTypeToIceberg_convert_field.induct)
  case (2 s0 path prev n)
  then have s: "s0 = s" by simp
  show ?case
  proof (cases "ice_type_name s")
    case (Some nm)
    then have "DataType s \<notin> {TypeRecord, TypeList, TypeMap}" by (auto simp: ice_type_name_def)
    then have "type_paths s path = []" by (subst type_paths.simps) (cases "DataType s"; simp)
    with Some "2.prems"(1) show ?thesis by (auto simp: s convertTypeToIceberg.simps(2))
  next
    case None
    note conv = "2.prems"(1) [unfolded s convertTypeToIceberg.simps(2) None option.case]
    consider "DataType s = TypeRecord" | "DataType s = TypeList" | "DataType s = TypeMap" using None by (auto simp: nested_kinds)
    then show ?thesis
    proof cases
      case 1
      from conv 1 obtain fs where fs: "thread_fields (\<lambda>f. convert_field f (join_path path (FieldName f)) prev) (Fields s) n = Inr (fs, n')"
        and t: "t = TStruct fs" by auto
      have ok: "list_all (\<lambda>f. case FieldSchema f of None \<Rightarrow> False | Some t \<Rightarrow> ice_ok t) (Fields s)"
        using "2.prems"(3) 1 by (simp add: ice_ok.simps [of s])
      have "map fst (concat (map (\<lambda>nf. field_slots nf path) fs)) = concat (map (field_paths path) (Fields s))"
      proof (rule thread_slots [OF fs])
        fix f nf m m' assume f: "f \<in> set (Fields s)" and c: "convert_field f (join_path path (FieldName f)) prev m = Inr (nf, m')"
        from ok f obtain u where "FieldSchema f = Some u" "ice_ok u" by (auto simp: list_all_iff split: option.splits)
        with "2.IH"(1) [of f m nf m' u path] None 1 f c show "map fst (field_slots nf path) = field_paths path f" by (auto simp: s)
      qed
      then show ?thesis by (simp add: t type_paths_record [OF 1])
    next
      case 2
      then have "ice_ok s = (case Option.bind (ElementSchema s) FieldSchema of None \<Rightarrow> False | Some e \<Rightarrow> ice_ok e)"
        by (simp add: ice_ok.simps [of s])
      with "2.prems"(3) obtain e es where e: "ElementSchema s = Some e" "FieldSchema e = Some es" "ice_ok es"
        by (auto simp: bind_eq_Some_conv split: option.splits)
      obtain i n1 where i: "assignFieldID None (path @ ''.element'') prev n = (i, n1)" by fastforce
      from conv 2 e i obtain t1 where t1: "convertTypeToIceberg (FieldSchema e) (path @ ''.element'') prev n1 = Inr (t1, n')"
        and t: "t = TList i t1 (\<not> IsNullable es)" by auto
      have "map fst (type_slots t1 (path @ ''.element'')) = type_paths es (path @ ''.element'')" by (rule "2.IH"(2)) (use None 2 e i t1 s in auto)
      with t 2 e show ?thesis by (simp add: type_paths.simps [of s])
    next
      case 3
      then have "ice_ok s = ((case Option.bind (KeySchema s) FieldSchema of None \<Rightarrow> False | Some k \<Rightarrow> ice_ok k) \<and>
          (case Option.bind (ValueSchema s) FieldSchema of None \<Rightarrow> False | Some v \<Rightarrow> ice_ok v))"
        by (simp add: ice_ok.simps [of s])
      with "2.prems"(3) obtain k ks v vs where k: "KeySchema s = Some k" "FieldSchema k = Some ks" "ValueSchema s = Some v" "FieldSchema v = Some vs"
        and ok: "ice_ok ks" "ice_ok vs" by (auto simp: bind_eq_Some_conv split: option.splits)
      obtain ki n1 where ki: "assignFieldID None (path @ ''.key'') prev n = (ki, n1)" by fastforce
      from conv 3 k ki obtain t1 n2 where t1: "convertTypeToIceberg (FieldSchema k) (path @ ''.key'') prev n1 = Inr (t1, n2)"
        by (cases "convertTypeToIceberg (FieldSchema k) (path @ ''.key'') prev n1") auto
      obtain vi n3 where vi: "assignFieldID None (path @ ''.value'') prev n2 = (vi, n3)" by fastforce
      from conv 3 k ki t1 vi obtain t2 where t2: "convertTypeToIceberg (FieldSchema v) (path @ ''.value'') prev n3 = Inr (t2, n')"
        and t: "t = TMap ki t1 vi t2 (\<not> IsNullable vs)" by auto
      have "map fst (type_slots t1 (path @ ''.key'')) = type_paths ks (path @ ''.key'')" by (rule "2.IH"(3)) (use None 3 k ok ki t1 s in auto)
      moreover have "map fst (type_slots t2 (path @ ''.value'')) = type_paths vs (path @ ''.value'')"
        by (rule "2.IH"(4)) (use None 3 k ok ki t1 vi t2 s in auto)
      ultimately show ?thesis using t 3 k by (simp add: type_paths.simps [of s])
    qed
  qed
next
  case (3 f path prev n)
  obtain i n1 where i: "assignFieldID (FieldID f) path prev n = (i, n1)" by fastforce
  from "3.prems"(1,2) i obtain t where t: "convertTypeToIceberg (FieldSchema f) path prev n1 = Inr (t, n')"
    and nf: "nf = IceField i (FieldName f) t (\<not> IsNullable s) (Comment s) JNull JNull"
    by (auto simp: convert_field.simps)
  have "map fst (type_slots t path) = type_paths s path" by (rule "3.IH") (use i t "3.prems" in auto)
  with "3.prems"(2,4) show ?case by (simp add: nf field_paths_def)
qed auto

text \<open>The slots of a schema, and what the converter makes of a record.\<close>

abbreviation schema_slots :: "ice_field list \<Rightarrow> (string \<times> int) list" where
  "schema_slots fs \<equiv> concat (map (\<lambda>f. field_slots f '''') fs)"

definition built_schema :: "int \<Rightarrow> ice_field list \<Rightarrow> ice_schema" where
  "built_schema i fs = \<lparr>is_Type = ''struct'', is_SchemaID = i, is_IdentifierFieldIDs = [], is_Fields = map Some fs\<rparr>"

definition columns_read :: "field list \<Rightarrow> ice_field list \<Rightarrow> bool" where
  "columns_read = list_all2 (\<lambda>f nf. \<exists>s. FieldSchema f = Some s \<and> field_reads nf f s)"

lemma columns_names: "columns_read gs fs \<Longrightarrow> map nf_Name fs = map FieldName gs"
  unfolding columns_read_def by (induction rule: list_all2_induct) (auto simp: field_reads_def)

lemma schema_converted:
  assumes s: "ice_ok s" "DataType s = TypeRecord" and old: "fieldPathIDs prev = Inr old" "recorded_within L old"
    and L: "0 \<le> lst" "lst \<le> L" "list_all (\<lambda>i. i \<le> L) (explicit_ids s)" "L + int (size s) < 2 ^ 53"
  obtains fs lst' where "SchemaToIceberg (Some s) i prev lst = Inr (built_schema i fs, lst')" "columns_read (Fields s) fs"
    "exact_slots (schema_slots fs)" "lst \<le> lst'" "lst' \<le> L + int (size s)"
    "recorded_below (lst + 1) old \<Longrightarrow> explicit_ids s = [] \<Longrightarrow> alloc old (lst + 1) (schema_slots fs) (lst' + 1)"
    "list_all (\<lambda>(p, i). \<bar>i\<bar> \<le> L + int (size s)) (schema_slots fs)"
    "recorded_positive old \<Longrightarrow> list_all (\<lambda>(p, i). 0 < i) (schema_slots fs)" "map fst (schema_slots fs) = column_paths s"
proof -
  let ?f = "\<lambda>f. convert_field f (FieldName f) old"
  define e where "e \<longleftrightarrow> recorded_below (lst + 1) old \<and> explicit_ids s = []"
  have ok: "list_all (\<lambda>f. case FieldSchema f of None \<Rightarrow> False | Some t \<Rightarrow> ice_ok t) (Fields s)"
    using s by (simp add: ice_ok.simps [of s])
  have ids: "explicit_ids s = concat (map field_ids_of (Fields s))"
    using s(2) by (simp add: explicit_ids.simps [of s] field_ids_of_def [abs_def])
  have "\<exists>fs n'. thread_fields ?f (Fields s) (lst + 1) = Inr (fs, n')"
  proof (rule thread_fields_total)
    fix f m assume f: "f \<in> set (Fields s)"
    with ok obtain u where "FieldSchema f = Some u" "ice_ok u" by (auto simp: list_all_iff split: option.splits)
    then show "\<exists>y m'. ?f f m = Inr (y, m')" by (rule convert_total(2))
  qed
  then obtain fs n' where fs: "thread_fields ?f (Fields s) (lst + 1) = Inr (fs, n')" by blast
  have "columns_read (Fields s) fs"
    unfolding columns_read_def using thread_fields_all2 [OF fs]
  proof (rule list.rel_mono_strong)
    fix f nf assume f: "f \<in> set (Fields s)" and c: "\<exists>m m'. ?f f m = Inr (nf, m')"
    then obtain m m' where c: "?f f m = Inr (nf, m')" by blast
    from ok f obtain u where u: "FieldSchema f = Some u" "ice_ok u" by (auto simp: list_all_iff split: option.splits)
    from convert_reads(2) [OF c u] u show "\<exists>s. FieldSchema f = Some s \<and> field_reads nf f s" by blast
  qed
  moreover have al: "allotted old e L (sum_list (map size (Fields s))) (lst + 1) (schema_slots fs) n'"
  proof (rule allotted_thread [OF fs])
    show "allotted old e K (size f) m (field_slots nf '''') m'"
      if f: "f \<in> set (Fields s)" and c: "?f f m = Inr (nf, m')"
        and K: "1 \<le> m" "m \<le> K + 1" "L \<le> K" "K + int (size f) < max_int64" "e \<Longrightarrow> recorded_below m old" "recorded_within K old"
      for f nf m m' K
    proof -
      from ok f obtain u where u: "FieldSchema f = Some u" "ice_ok u" by (auto simp: list_all_iff split: option.splits)
      show ?thesis
      proof (rule convert_allots(2) [OF c u])
        show "e \<Longrightarrow> field_ids_of f = []" using f by (auto simp: e_def ids)
        show "list_all (\<lambda>i. i \<le> K) (field_ids_of f)" using L(3) f K(3) by (fastforce simp: ids list_all_iff)
        show "FieldName f = join_path '''' (FieldName f)" by (simp add: join_path_def)
      qed (use K in auto)
    qed
  qed (use L old e_def size_parts(1) [of s] in auto)
  have bounds: "lst \<le> n' - 1" "n' - 1 \<le> L + int (size s)" "list_all (\<lambda>(p, i). \<bar>i\<bar> \<le> L + int (size s)) (schema_slots fs)"
    using al size_parts(1) [of s] by (fastforce simp: allotted_def list_all_iff)+
  moreover have "exact_slots (schema_slots fs)"
    using bounds(3) L(4) unfolding exact_slots_def exact_id_def by (fastforce simp: list_all_iff)
  moreover have "wrap64 (lst + 1) = lst + 1" "wrap64 (n' - 1) = n' - 1" using bounds L by (simp_all add: in_int64_def)
  then have "SchemaToIceberg (Some s) i prev lst = Inr (built_schema i fs, n' - 1)"
    using fs old L(1) by (simp add: SchemaToIceberg_def built_schema_def)
  moreover have "alloc old (lst + 1) (schema_slots fs) (n' - 1 + 1)" if "recorded_below (lst + 1) old" "explicit_ids s = []"
    using al that by (simp add: allotted_def e_def)
  moreover have "list_all (\<lambda>(p, i). 0 < i) (schema_slots fs)" if "recorded_positive old"
    using al that by (simp add: allotted_def)
  moreover have "map fst (schema_slots fs) = column_paths s"
    unfolding column_paths_def type_paths_record [OF s(2)]
  proof (rule thread_slots [OF fs])
    fix f nf m m' assume f: "f \<in> set (Fields s)" and c: "?f f m = Inr (nf, m')"
    from ok f obtain u where "FieldSchema f = Some u" "ice_ok u" by (auto simp: list_all_iff split: option.splits)
    from convert_paths(2) [OF c this, of "''''"] show "map fst (field_slots nf '''') = field_paths '''' f" by (simp add: join_path_def)
  qed
  ultimately show ?thesis using that by blast
qed

section \<open>The document of a schema\<close>

definition reread_field :: "ice_field \<Rightarrow> ice_field" where
  "reread_field nf =
     IceField (nf_ID nf) (nf_Name nf) (doc_type (enc_ice_type (nf_Type nf))) (nf_Required nf) (nf_Doc nf) JNull JNull"

definition reread_schema :: "int \<Rightarrow> ice_field list \<Rightarrow> ice_schema" where
  "reread_schema i fs = built_schema i (map reread_field fs)"

definition ice_column :: "field \<Rightarrow> int \<Rightarrow> field" where
  "ice_column f i =
     Field (FieldName f) '''' (map_option (\<lambda>s. with_doc (Comment s) (ice_form (IsNullable s) s)) (FieldSchema f)) (Some i) ANil"

text \<open>The canonical schema a written one reads back as.\<close>

definition read_columns :: "field list \<Rightarrow> ice_field list \<Rightarrow> schema" where
  "read_columns gs fs = NewRecordSchema ''root'' (map2 (\<lambda>f nf. ice_column f (nf_ID nf)) gs fs) False"

lemma columns_built: "columns_read gs fs \<Longrightarrow> list_all built_field fs"
  unfolding columns_read_def by (induction rule: list_all2_induct) (auto simp: field_reads_def)

lemma dec_ptr_slice:
  assumes "\<And>x. x \<in> set xs \<Longrightarrow> \<exists>kvs. f x = JObj kvs" "\<And>x. x \<in> set xs \<Longrightarrow> d (f x) = Some (g x)"
  shows "dec_pointers d (Some (jslice (map (enc_pointer f) (map Some xs)))) = Some (map (\<lambda>x. Some (g x)) xs)"
    "dec_pointers d (Some (JArr (map (enc_pointer f) (map Some xs)))) = Some (map (\<lambda>x. Some (g x)) xs)"
proof -
  have "opt_all (\<lambda>j. dec_ptr d (Some j)) (map f xs) = Some (map (\<lambda>x. Some (g x)) xs)"
    by (rule opt_all_map) (use assms in \<open>metis dec_ptr_obj option.simps(9)\<close>)
  then show "dec_pointers d (Some (JArr (map (enc_pointer f) (map Some xs)))) = Some (map (\<lambda>x. Some (g x)) xs)"
    by (simp add: enc_pointer_def comp_def)
  then show "dec_pointers d (Some (jslice (map (enc_pointer f) (map Some xs)))) = Some (map (\<lambda>x. Some (g x)) xs)"
    by (cases xs) (simp_all add: jslice_def)
qed

lemma wf_jslice [simp]: "wf_json (jslice js) \<longleftrightarrow> list_all wf_json js"
  by (simp add: jslice_def)

lemma slots_elem: "exact_slots (schema_slots fs) \<Longrightarrow> f \<in> set fs \<Longrightarrow> exact_slots (field_slots f '''')"
  by auto

lemma schema_document:
  assumes "list_all built_field fs" "exact_slots (schema_slots fs)" "in_int64 i"
  shows "dec_ice_schema (enc_ice_schema (built_schema i fs)) = Some (reread_schema i fs)"
    "wf_json (enc_ice_schema (built_schema i fs))"
proof -
  have b: "built_field f" "exact_slots (field_slots f '''')" if "f \<in> set fs" for f
    using that assms(1,2) slots_elem [of fs f] by (auto simp: list_all_iff)
  have "dec_pointers dec_ice_field (Some (jslice (map (enc_pointer enc_ice_field) (map Some fs)))) = Some (map (\<lambda>x. Some (reread_field x)) fs)"
    by (rule dec_ptr_slice) (use b dec_built_field in \<open>auto simp: reread_field_def enc_ice_field_members\<close>)
  then show "dec_ice_schema (enc_ice_schema (built_schema i fs)) = Some (reread_schema i fs)"
    using assms(3) by (simp add: enc_ice_schema_def dec_ice_schema_def built_schema_def reread_schema_def key_simps comp_def cong: option.case_cong)
  have "list_all wf_json (map (enc_pointer enc_ice_field) (map Some fs))"
    unfolding list_all_iff using exact_built_docs(2) b by (auto simp: enc_pointer_def)
  then show "wf_json (enc_ice_schema (built_schema i fs))"
    by (simp add: enc_ice_schema_def built_schema_def)
qed

lemma schema_reads:
  assumes "columns_read gs fs"
  shows "IcebergToSchema (Some (reread_schema i fs)) = Inr (read_columns gs fs)"
proof -
  have col: "read_ice_field (Some (reread_field nf)) = Inr (ice_column f (nf_ID nf))" if "FieldSchema f = Some s" "field_reads nf f s" for f nf s
    using that by (simp add: read_ice_field_def reread_field_def field_reads_def reads_form_def ice_column_def)
  have "map_res read_ice_field (map Some (map reread_field fs)) = Inr (map2 (\<lambda>f nf. ice_column f (nf_ID nf)) gs fs)"
    using assms unfolding columns_read_def by (induction rule: list_all2_induct) (auto simp: col)
  then show ?thesis by (simp add: IcebergToSchema_def reread_schema_def built_schema_def read_columns_def)
qed

lemma schema_path_ids:
  assumes "list_all built_field fs" "exact_slots (schema_slots fs)"
  shows "fieldPathIDs (Some (reread_schema i fs)) = Inr (fold (\<lambda>f. collectFieldID f '''') fs [])"
    "fieldPathIDs (Some (built_schema i fs)) = Inr (fold (\<lambda>f. collectFieldID f '''') fs [])"
proof -
  have "collectFieldID (reread_field f) '''' out = collectFieldID f '''' out" if "f \<in> set fs" for f out
  proof -
    have b: "built_field f" "exact_slots (field_slots f '''')" using that assms slots_elem [of fs f] by (auto simp: list_all_iff)
    have "collectTypeIDs (doc_type j) p out = doc_type_ids j p out" for j p out by (cases j) simp_all
    with doc_ids(2) [OF b, of out] show ?thesis by (cases f) (simp add: reread_field_def Let_def)
  qed
  then have "fold (\<lambda>f. collectFieldID f '''') (map reread_field fs) [] = fold (\<lambda>f. collectFieldID f '''') fs []"
    unfolding fold_map by (intro fold_cong) auto
  then show "fieldPathIDs (Some (reread_schema i fs)) = Inr (fold (\<lambda>f. collectFieldID f '''') fs [])"
    by (auto simp: fieldPathIDs_def reread_schema_def built_schema_def comp_def)
  show "fieldPathIDs (Some (built_schema i fs)) = Inr (fold (\<lambda>f. collectFieldID f '''') fs [])"
    by (auto simp: fieldPathIDs_def built_schema_def comp_def)
qed

text \<open>Every recorded path is a slot and every slot is recorded.\<close>

lemma collect_slots:
  "built t \<Longrightarrow> map_of (collectTypeIDs t p out) q = Some i \<Longrightarrow> (q, i) \<in> set (type_slots t p) \<or> map_of out q = Some i"
  "built_field f \<Longrightarrow> map_of (collectFieldID f p out) q = Some i \<Longrightarrow> (q, i) \<in> set (field_slots f p) \<or> map_of out q = Some i"
proof (induction t and f arbitrary: p out and p out rule: built_built_field.induct)
  case (2 fs)
  then have "map_of (fold (\<lambda>f. collectFieldID f p) fs out) q = Some i" by simp
  with "2.IH" "2.prems"(1) have "(\<exists>f \<in> set fs. (q, i) \<in> set (field_slots f p)) \<or> map_of out q = Some i"
  proof (induction fs arbitrary: out)
    case (Cons f fs)
    have "(\<exists>f \<in> set fs. (q, i) \<in> set (field_slots f p)) \<or> map_of (collectFieldID f p out) q = Some i"
      by (rule Cons.IH) (use Cons.prems in auto)
    with Cons.prems(1) [of f p out] Cons.prems(2) show ?case by auto
  qed simp
  then show ?case by auto
next
  case (3 i' e req)
  from "3.IH" [of "p @ ''.element''" "map_put (p @ ''.element'') i' out"] "3.prems" show ?case by (auto split: if_splits)
next
  case (4 ki k vi v req)
  from "4.IH"(2) [OF _ "4.prems"(2) [simplified]] "4.prems"(1)
    "4.IH"(1) [of "p @ ''.key''" "map_put (p @ ''.value'') vi (map_put (p @ ''.key'') ki out)"]
  show ?case by (auto split: if_splits)
next
  case (6 i' nm t req doc a b)
  from "6.IH" [of "join_path p nm" "map_put (join_path p nm) i' out"] "6.prems" show ?case by (auto simp: Let_def split: if_splits)
qed auto

lemma slots_recorded:
  "built t \<Longrightarrow> fst ` set (type_slots t p) \<union> fst ` set out \<subseteq> fst ` set (collectTypeIDs t p out)"
  "built_field f \<Longrightarrow> fst ` set (field_slots f p) \<union> fst ` set out \<subseteq> fst ` set (collectFieldID f p out)"
proof (induction t and f arbitrary: p out and p out rule: built_built_field.induct)
  case (2 fs)
  have "(\<Union>f \<in> set fs. fst ` set (field_slots f p)) \<union> fst ` set out \<subseteq> fst ` set (fold (\<lambda>f. collectFieldID f p) fs out)"
    using "2.IH" "2.prems"
  proof (induction fs arbitrary: out)
    case (Cons f fs)
    have "fst ` set (field_slots f p) \<union> fst ` set out \<subseteq> fst ` set (collectFieldID f p out)"
      by (rule Cons.prems(1)) (use Cons.prems(2) in auto)
    moreover have "(\<Union>f \<in> set fs. fst ` set (field_slots f p)) \<union> fst ` set (collectFieldID f p out) \<subseteq>
        fst ` set (fold (\<lambda>f. collectFieldID f p) fs (collectFieldID f p out))"
      by (rule Cons.IH) (use Cons.prems in auto)
    ultimately show ?case by (simp only: list.set UN_insert fold_simps) blast
  qed simp
  then show ?case by (simp only: type_slots.simps collectTypeIDs.simps set_concat set_map image_UN image_image)
next
  case (3 i' e req)
  from "3.IH" [of "p @ ''.element''" "map_put (p @ ''.element'') i' out"] "3.prems" show ?case by auto
next
  case (4 ki k vi v req)
  let ?o = "map_put (p @ ''.value'') vi (map_put (p @ ''.key'') ki out)"
  have "fst ` set (type_slots k (p @ ''.key'')) \<union> fst ` set ?o \<subseteq> fst ` set (collectTypeIDs k (p @ ''.key'') ?o)"
    by (rule "4.IH"(1)) (use "4.prems" in simp)
  moreover have "fst ` set (type_slots v (p @ ''.value'')) \<union> fst ` set (collectTypeIDs k (p @ ''.key'') ?o) \<subseteq>
      fst ` set (collectTypeIDs v (p @ ''.value'') (collectTypeIDs k (p @ ''.key'') ?o))"
    by (rule "4.IH"(2)) (use "4.prems" in simp)
  ultimately show ?case
    by (simp only: type_slots.simps collectTypeIDs.simps list.set set_append image_insert image_Un fst_conv fst_set_map_put) blast
next
  case (6 i' nm t req doc a b)
  from "6.IH" [of "join_path p nm" "map_put (join_path p nm) i' out"] "6.prems" show ?case by (auto simp: Let_def)
qed auto

text \<open>The identifiers on record after a conversion.\<close>

lemma recorded_slots:
  assumes "list_all built_field fs"
  shows "map_of (fold (\<lambda>f. collectFieldID f '''') fs []) q = Some i \<Longrightarrow> (q, i) \<in> set (schema_slots fs)"
    "q \<in> fst ` set (schema_slots fs) \<Longrightarrow> \<exists>i. map_of (fold (\<lambda>f. collectFieldID f '''') fs []) q = Some i"
proof -
  have "built (TStruct fs)" using assms by simp
  from collect_slots(1) [OF this, of "''''" "[]" q i] show "map_of (fold (\<lambda>f. collectFieldID f '''') fs []) q = Some i \<Longrightarrow> (q, i) \<in> set (schema_slots fs)"
    by simp
  from slots_recorded(1) [OF \<open>built (TStruct fs)\<close>, of "''''" "[]"]
  show "q \<in> fst ` set (schema_slots fs) \<Longrightarrow> \<exists>i. map_of (fold (\<lambda>f. collectFieldID f '''') fs []) q = Some i"
    using map_of_eq_None_iff [of "fold (\<lambda>f. collectFieldID f '''') fs []" q] by auto
qed

lemma alloc_pair:
  assumes "alloc old n xs n'" "(p, i) \<in> set xs" "(q, i) \<in> set xs" "p \<noteq> q" "recorded_below n old"
    and inj: "\<And>p q j. map_of old p = Some j \<Longrightarrow> map_of old q = Some j \<Longrightarrow> p = q"
  shows False
proof -
  let ?fresh = "filter (\<lambda>(p, i). map_of old p = None) xs"
  have at: "case map_of old r of Some j \<Rightarrow> i = j | None \<Rightarrow> n \<le> i \<and> i < n'" if "(r, i) \<in> set xs" for r
    using assms(1) that by (auto simp: alloc_def list_all_iff)
  show False
  proof (cases "map_of old p")
    case None
    with at [OF assms(2)] at [OF assms(3)] assms(5) have "map_of old q = None"
      by (fastforce simp: recorded_below_def split: option.splits)
    with None assms(2,3) have "(p, i) \<in> set ?fresh" "(q, i) \<in> set ?fresh" by auto
    with assms(1,4) show False by (auto simp: alloc_def distinct_map inj_on_def)
  next
    case (Some j)
    with at [OF assms(2)] at [OF assms(3)] assms(5) have "map_of old q = Some j"
      by (fastforce simp: recorded_below_def split: option.splits)
    with inj Some assms(4) show False by blast
  qed
qed

section \<open>Properties\<close>

text \<open>
  C26. A record schema written as an Iceberg schema reads back. Whatever the schema on record before, the conversion
  succeeds, and the document it prints, parsed again, is converted to the columns of the source in order, each with
  its name, comment, nullability and type in Iceberg's normal form and with the identifier it was assigned.
\<close>

theorem iceberg_schema_roundtrip:
  assumes "ice_ok s" and "DataType s = TypeRecord" and "fieldPathIDs prev = Inr old" and "recorded_within L old"
    and "0 \<le> lst" and "lst \<le> L" and "list_all (\<lambda>i. i \<le> L) (explicit_ids s)" and "L + int (size s) < 2 ^ 53" and "in_int64 i"
  shows "\<exists>fs lst' j t. SchemaToIceberg (Some s) i prev lst = Inr (built_schema i fs, lst') \<and>
    json_unmarshal (json_print (enc_ice_schema (built_schema i fs))) = Some j \<and> dec_ice_schema j = Some t \<and>
    IcebergToSchema (Some t) = Inr (NewRecordSchema ''root'' (map2 (\<lambda>f nf. ice_column f (nf_ID nf)) (Fields s) fs) False) \<and>
    length fs = length (Fields s)"
proof -
  obtain fs lst' where fs: "SchemaToIceberg (Some s) i prev lst = Inr (built_schema i fs, lst')" "columns_read (Fields s) fs"
    "exact_slots (schema_slots fs)"
    by (rule schema_converted [OF assms(1-8)])
  note doc = schema_document [OF columns_built [OF fs(2)] fs(3) assms(9)]
  have "length fs = length (Fields s)" using fs(2) by (simp add: columns_read_def list_all2_lengthD)
  with fs(1) doc schema_reads [OF fs(2), of i] show ?thesis unfolding read_columns_def
    by (intro exI [of _ fs] exI [of _ lst'] exI [of _ "enc_ice_schema (built_schema i fs)"] exI [of _ "reread_schema i fs"] conjI) simp_all
qed

definition ice_sample :: schema where
  "ice_sample = NewRecordSchema ''t''
     [mkField ''id'' (Some (NewPrimitiveSchema TypeLong False)), mkField ''price'' (Some (NewDecimalSchema 10 2 True)),
      mkField ''tags'' (Some (list_schema (NewPrimitiveSchema TypeString True) True))] False"

lemma ice_sample_ok: "ice_ok ice_sample" "DataType ice_sample = TypeRecord" "explicit_ids ice_sample = []" "size ice_sample < 100"
  by (simp_all add: ice_sample_def NewRecordSchema_def NewPrimitiveSchema_def NewDecimalSchema_def list_schema_def ice_ok.simps
      explicit_ids.simps own_id_def decimal_precision_def decimal_scale_def in_int64_def)

theorem iceberg_schema_roundtrip_witness:
  "\<exists>fs lst' j t. SchemaToIceberg (Some ice_sample) 0 None 0 = Inr (built_schema 0 fs, lst') \<and>
    json_unmarshal (json_print (enc_ice_schema (built_schema 0 fs))) = Some j \<and> dec_ice_schema j = Some t \<and>
    IcebergToSchema (Some t) = Inr (NewRecordSchema ''root'' (map2 (\<lambda>f nf. ice_column f (nf_ID nf)) (Fields ice_sample) fs) False) \<and>
    length fs = length (Fields ice_sample)"
  by (rule iceberg_schema_roundtrip [where old = "[]" and L = 0])
    (use ice_sample_ok in \<open>auto simp: fieldPathIDs_def recorded_within_def in_int64_def\<close>)

text \<open>
  The schema on record: none, or one the converter built earlier, in memory or as the metadata document gives it back.
  Its slots are the identifiers its columns carry, nested ones included.
\<close>

definition on_record :: "ice_schema option \<Rightarrow> (string \<times> int) list \<Rightarrow> bool" where
  "on_record prev slots \<longleftrightarrow>
     prev = None \<and> slots = [] \<or>
     (\<exists>i fs. list_all built_field fs \<and> slots = schema_slots fs \<and> exact_slots slots \<and> in_int64 i \<and>
       (prev = Some (built_schema i fs) \<or> prev = dec_ice_schema (enc_ice_schema (built_schema i fs))))"

lemma on_record_ids:
  assumes "on_record prev slots" "distinct (map fst slots)"
  shows "\<exists>old. fieldPathIDs prev = Inr old \<and> map_of old = map_of slots"
proof -
  consider "prev = None" "slots = []" | i fs where "list_all built_field fs" "slots = schema_slots fs" "exact_slots slots" "in_int64 i"
      "prev = Some (built_schema i fs) \<or> prev = dec_ice_schema (enc_ice_schema (built_schema i fs))"
    using assms(1) unfolding on_record_def by blast
  then show ?thesis
  proof cases
    case 1
    then show ?thesis by (simp add: fieldPathIDs_def)
  next
    case 2
    let ?old = "fold (\<lambda>f. collectFieldID f '''') fs []"
    have "fieldPathIDs prev = Inr ?old"
      using 2 schema_path_ids [of fs i] schema_document(1) [of fs i] by auto
    moreover have "map_of ?old q = map_of slots q" for q
    proof (cases "map_of ?old q")
      case None
      then have "q \<notin> fst ` set slots" using recorded_slots(2) [OF 2(1), of q] 2(2) by auto
      then have "map_of slots q = None" by (simp add: map_of_eq_None_iff)
      then show ?thesis using None by simp
    next
      case (Some j)
      then have "(q, j) \<in> set slots" using recorded_slots(1) [OF 2(1)] 2(2) by simp
      then show ?thesis using Some assms(2) by simp
    qed
    ultimately show ?thesis by blast
  qed
qed

text \<open>
  C27. Field identifiers are stable, for a source that supplies none of its own. When a table's schema is converted
  against the schema on record, whose columns carry distinct positive identifiers up to the last-column-id, the schema
  written has exactly the columns of the source, those inside lists, maps and records included; every path on record
  keeps its identifier, every new path gets one above the last-column-id and not above the new one, and no two paths
  share one. The document of the new schema, read back, is the record of the next commit: it has the same identifiers,
  and the next conversion finds each of them under its path.
\<close>

theorem iceberg_ids_stable:
  assumes "ice_ok s" and "DataType s = TypeRecord" and "explicit_ids s = []" and "in_int64 i" and "0 \<le> lst" and "lst + int (size s) < 2 ^ 53"
    and "on_record prev slots" and "distinct (map fst slots)" and "distinct (map snd slots)" and "\<forall>(p, j) \<in> set slots. 0 < j \<and> j \<le> lst"
  shows "\<exists>fs lst' t new. SchemaToIceberg (Some s) i prev lst = Inr (built_schema i fs, lst') \<and> lst \<le> lst' \<and>
    map fst (schema_slots fs) = column_paths s \<and>
    (\<forall>(p, j) \<in> set (schema_slots fs). 0 < j \<and> j \<le> lst' \<and>
      (if p \<in> fst ` set slots then (p, j) \<in> set slots else lst < j)) \<and>
    (\<forall>p q j. (p, j) \<in> set (schema_slots fs) \<and> (q, j) \<in> set (schema_slots fs) \<longrightarrow> p = q) \<and>
    dec_ice_schema (enc_ice_schema (built_schema i fs)) = Some t \<and> on_record (Some t) (schema_slots fs) \<and>
    fieldPathIDs (Some t) = Inr new \<and> dom (map_of new) = set (column_paths s) \<and>
    (\<forall>p j. map_of new p = Some j \<longrightarrow> (p, j) \<in> set (schema_slots fs))"
proof -
  obtain old where old: "fieldPathIDs prev = Inr old" "map_of old = map_of slots" using on_record_ids [OF assms(7,8)] by blast
  have rec: "map_of old p = Some j \<longleftrightarrow> (p, j) \<in> set slots" for p j using old(2) assms(8) by simp
  have none: "map_of old p = None \<longleftrightarrow> p \<notin> fst ` set slots" for p by (simp add: old(2) map_of_eq_None_iff)
  have within: "recorded_within lst old" "recorded_below (lst + 1) old" "recorded_positive old"
    using assms(10) by (fastforce simp: recorded_within_def recorded_below_def recorded_positive_def rec)+
  obtain fs lst' where fs: "SchemaToIceberg (Some s) i prev lst = Inr (built_schema i fs, lst')" "columns_read (Fields s) fs"
    "exact_slots (schema_slots fs)" "lst \<le> lst'" "alloc old (lst + 1) (schema_slots fs) (lst' + 1)"
    "list_all (\<lambda>(p, i). 0 < i) (schema_slots fs)" "map fst (schema_slots fs) = column_paths s"
    by (rule schema_converted [OF assms(1,2) old(1) within(1) assms(5) order_refl]) (use assms(3,6) within(2,3) in auto)
  note built = columns_built [OF fs(2)]
  let ?new = "fold (\<lambda>f. collectFieldID f '''') fs []"
  have "0 < j \<and> j \<le> lst' \<and> (if p \<in> fst ` set slots then (p, j) \<in> set slots else lst < j)" if pj: "(p, j) \<in> set (schema_slots fs)" for p j
  proof -
    have "0 < j" using list_all_pair [OF fs(6) pj] .
    with alloc_at [OF fs(5) pj] show ?thesis
      by (cases "map_of old p") (use none [of p] rec [of p j] fs(4) assms(10) in auto)
  qed
  moreover have "p = q" if "(p, j) \<in> set (schema_slots fs)" "(q, j) \<in> set (schema_slots fs)" for p q j
  proof (rule ccontr)
    assume "p \<noteq> q"
    moreover have "p' = q'" if "map_of old p' = Some j'" "map_of old q' = Some j'" for p' q' j'
      using that assms(9) inj_onD [of snd "set slots" "(p', j')" "(q', j')"] by (simp add: rec distinct_map)
    ultimately show False using alloc_pair [OF fs(5) that _ within(2)] by blast
  qed
  moreover have "dec_ice_schema (enc_ice_schema (built_schema i fs)) = Some (reread_schema i fs)"
    by (rule schema_document [OF built fs(3) assms(4)])
  moreover from this have "on_record (Some (reread_schema i fs)) (schema_slots fs)"
    using built fs(3) assms(4) unfolding on_record_def by metis
  moreover have "dom (map_of ?new) = set (column_paths s)"
    using recorded_slots [OF built] unfolding fs(7) [symmetric] set_map by force
  ultimately show ?thesis using fs(1,4,7) schema_path_ids(1) [OF built fs(3), of i] recorded_slots(1) [OF built]
    by (intro exI [of _ fs] exI [of _ lst'] exI [of _ "reread_schema i fs"] exI [of _ ?new] conjI) blast+
qed

text \<open>
  Against a record of two columns and the elements of one: the columns on record keep 2, 5 and 6, also the nested one,
  and the new column gets the next identifier.
\<close>

theorem iceberg_ids_stable_witness:
  "\<exists>fs lst'. SchemaToIceberg (Some ice_sample) 1 (Some (built_schema 0 [IceField 2 ''id'' (TName ''long'') True '''' JNull JNull,
      IceField 5 ''tags'' (TList 6 (TName ''string'') False) False '''' JNull JNull])) 6 = Inr (built_schema 1 fs, lst') \<and>
    map fst (schema_slots fs) = [''id'', ''price'', ''tags'', ''tags.element''] \<and>
    {(''id'', 2), (''tags'', 5), (''tags.element'', 6)} \<subseteq> set (schema_slots fs) \<and> (\<forall>j. (''price'', j) \<in> set (schema_slots fs) \<longrightarrow> 6 < j)"
proof -
  let ?fs0 = "[IceField 2 ''id'' (TName ''long'') True '''' JNull JNull, IceField 5 ''tags'' (TList 6 (TName ''string'') False) False '''' JNull JNull]"
  let ?slots = "[(''id'', 2), (''tags'', 5), (''tags.element'', 6)] :: (string \<times> int) list"
  have slots: "schema_slots ?fs0 = ?slots" by (simp add: join_path_def)
  have rec: "on_record (Some (built_schema 0 ?fs0)) ?slots"
    unfolding on_record_def slots [symmetric] by (intro disjI2 exI [of _ 0] exI [of _ ?fs0]) (simp add: exact_id_def in_int64_def)
  have paths: "column_paths ice_sample = [''id'', ''price'', ''tags'', ''tags.element'']"
    by (simp add: column_paths_def ice_sample_def NewRecordSchema_def NewPrimitiveSchema_def NewDecimalSchema_def list_schema_def type_paths.simps)
  have "\<exists>fs lst' t new. SchemaToIceberg (Some ice_sample) 1 (Some (built_schema 0 ?fs0)) 6 = Inr (built_schema 1 fs, lst') \<and> 6 \<le> lst' \<and>
    map fst (schema_slots fs) = column_paths ice_sample \<and>
    (\<forall>(p, j) \<in> set (schema_slots fs). 0 < j \<and> j \<le> lst' \<and> (if p \<in> fst ` set ?slots then (p, j) \<in> set ?slots else 6 < j)) \<and>
    (\<forall>p q j. (p, j) \<in> set (schema_slots fs) \<and> (q, j) \<in> set (schema_slots fs) \<longrightarrow> p = q) \<and>
    dec_ice_schema (enc_ice_schema (built_schema 1 fs)) = Some t \<and> on_record (Some t) (schema_slots fs) \<and>
    fieldPathIDs (Some t) = Inr new \<and> dom (map_of new) = set (column_paths ice_sample) \<and>
    (\<forall>p j. map_of new p = Some j \<longrightarrow> (p, j) \<in> set (schema_slots fs))"
    by (rule iceberg_ids_stable [OF ice_sample_ok(1-3) _ _ _ rec]) (use ice_sample_ok(4) in \<open>auto simp: in_int64_def\<close>)
  then obtain fs lst' where c: "SchemaToIceberg (Some ice_sample) 1 (Some (built_schema 0 ?fs0)) 6 = Inr (built_schema 1 fs, lst')"
    and p: "map fst (schema_slots fs) = column_paths ice_sample"
    and k: "\<forall>(p, j) \<in> set (schema_slots fs). 0 < j \<and> j \<le> lst' \<and> (if p \<in> fst ` set ?slots then (p, j) \<in> set ?slots else 6 < j)"
    by blast
  have "\<exists>j. (q, j) \<in> set xs" if "q \<in> set (map fst xs)" for q :: string and xs :: "(string \<times> int) list" using that by auto
  then have at: "\<exists>j. (q, j) \<in> set (schema_slots fs)" if "q \<in> set (column_paths ice_sample)" for q using that unfolding p [symmetric] by blast
  have keeps: "(q, i) \<in> set (schema_slots fs)" if qi: "(q, i) \<in> set ?slots" for q i
  proof -
    have "q \<in> set (column_paths ice_sample)" "q \<in> fst ` set ?slots" using qi unfolding paths by auto
    with at obtain j where j: "(q, j) \<in> set (schema_slots fs)" by blast
    from bspec [OF k this] \<open>q \<in> fst ` set ?slots\<close> have "(q, j) \<in> set ?slots" by (simp only: prod.case if_True)
    with qi have "j = i" by auto
    with j show ?thesis by simp
  qed
  have "{(''id'', 2), (''tags'', 5), (''tags.element'', 6)} \<subseteq> set (schema_slots fs)"
    using keeps [of "''id''" 2] keeps [of "''tags''" 5] keeps [of "''tags.element''" 6] by (simp only: list.set insert_iff insert_subset empty_subsetI simp_thms)
  moreover have "6 < j" if "(''price'', j) \<in> set (schema_slots fs)" for j
  proof -
    have "''price'' \<notin> fst ` set ?slots" by simp
    with bspec [OF k that] show ?thesis by (simp only: prod.case if_False)
  qed
  ultimately show ?thesis
    by (intro exI [of _ fs] exI [of _ lst'] conjI allI impI) (assumption | rule c | rule p [unfolded paths])+
qed

text \<open>
  An identifier the source supplies is taken as it is, also when an earlier column was already given it: two columns
  of one schema then share an identifier.
\<close>

lemma explicit_id_collides:
  "\<exists>t n. SchemaToIceberg (Some (NewRecordSchema ''t''
      [mkField ''a'' (Some (NewPrimitiveSchema TypeInt True)), Field ''b'' '''' (Some (NewPrimitiveSchema TypeInt True)) (Some 1) ANil] False)) 0 None 0 =
      Inr (t, n) \<and> map (nf_ID \<circ> the) (is_Fields t) = [1, 1]"
  by (simp add: SchemaToIceberg_def NewRecordSchema_def NewPrimitiveSchema_def fieldPathIDs_def convert_field.simps
      convertTypeToIceberg.simps(2) ice_type_name_def assignFieldID_def wrap64_def)

end
