(* ===== verification/Iceberg_Bounds.thy ===== *)
theory Iceberg_Bounds
  imports Iceberg_Stats Iceberg_Roundtrip
begin

text \<open>
  Bounds written into a manifest and read back: the fixed-width integers, the minimal two's complement of decimals, and
  the statistics of the columns of a file.
\<close>

section \<open>Bytes\<close>

lemma le_bytes_length [simp]: "length (le_bytes k n) = k"
  by (induction k n rule: le_bytes.induct) simp_all

lemma le_nat_bytes: "n < 256 ^ k \<Longrightarrow> le_nat (le_bytes k n) = n"
proof (induction k n rule: le_bytes.induct)
  case (2 k n)
  then have "n div 256 < 256 ^ k" by (simp add: less_mult_imp_div_less mult.commute)
  with 2 show ?case by simp
qed simp

lemma to_unsigned_less: "to_unsigned w i < 2 ^ w"
  by (simp add: to_unsigned_def nat_less_iff)

lemma to_signed_unsigned:
  assumes "0 < w" "- (2 ^ (w - 1)) \<le> i" "i < 2 ^ (w - 1)"
  shows "to_signed w (to_unsigned w i) = i"
proof -
  have w: "(2::int) ^ w = 2 * 2 ^ (w - 1)" using assms(1) by (cases w) auto
  show ?thesis
  proof (cases "0 \<le> i")
    case True
    with assms w have "i mod 2 ^ w = i" by simp
    with True assms(3) show ?thesis by (simp add: to_signed_def to_unsigned_def nat_less_iff)
  next
    case False
    have "(i + 2 ^ w) mod 2 ^ w = i + 2 ^ w" using False assms(2) w by (intro mod_pos_pos_trivial) auto
    then have "i mod 2 ^ w = i + 2 ^ w" by simp
    with False assms(2) w show ?thesis by (simp add: to_signed_def to_unsigned_def nat_less_iff not_less)
  qed
qed

lemma be_bytes_Nil_iff [simp]: "be_bytes n = [] \<longleftrightarrow> n = 0"
  by (subst be_bytes.simps) simp

lemma be_nat_snoc: "be_nat (s @ [c]) = 256 * be_nat s + of_char c"
  by (simp add: be_nat_def)

lemma be_nat_zero: "be_nat (char_of (0 :: nat) # s) = be_nat s"
  by (simp add: be_nat_def)

lemma be_nat_bytes [simp]: "be_nat (be_bytes n) = n"
proof (induction n rule: be_bytes.induct)
  case (1 n)
  show ?case
  proof (cases "n = 0")
    case True
    then show ?thesis by (simp add: be_bytes.simps [of 0] be_nat_def)
  next
    case False
    then have "be_bytes n = be_bytes (n div 256) @ [char_of (n mod 256)]" by (simp add: be_bytes.simps [of n])
    with 1 False show ?thesis by (simp add: be_nat_snoc)
  qed
qed

lemma be_bytes_shape: "n \<noteq> 0 \<Longrightarrow> (\<exists>h t. be_bytes n = char_of h # t \<and> 0 < h \<and> h < 256 \<and> h * 256 ^ length t \<le> n \<and> n < (h + 1) * 256 ^ length t)"
proof (induction n rule: be_bytes.induct)
  case (1 n)
  have b: "be_bytes n = be_bytes (n div 256) @ [char_of (n mod 256)]" using 1 by (simp add: be_bytes.simps [of n])
  show ?case
  proof (cases "n div 256 = 0")
    case True
    then have "be_bytes n = [char_of n]" "n < 256" using b by (auto simp: be_bytes.simps [of 0] div_eq_0_iff)
    with "1.prems" show ?thesis by (intro exI [of _ n] exI [of _ "[]"]) simp
  next
    case False
    with "1.IH" [OF "1.prems" False] obtain h t where ih: "be_bytes (n div 256) = char_of h # t" "0 < h" "h < 256"
      "h * 256 ^ length t \<le> n div 256" "n div 256 < (h + 1) * 256 ^ length t" by blast
    from ih(4) have "h * 256 ^ length t * 256 \<le> n" by (meson div_mult_self_is_m le_trans mult_le_mono1 div_times_less_eq_dividend)
    moreover from ih(5) have "n < (h + 1) * 256 ^ length t * 256" using div_less_iff_less_mult [of 256 n] by simp
    ultimately show ?thesis using b ih(1-3) by (auto simp: ac_simps)
  qed
qed

lemma high_bit_hd:
  assumes "n \<noteq> 0"
  shows "high_bit (hd (be_bytes n)) \<longleftrightarrow> 128 * 256 ^ (length (be_bytes n) - 1) \<le> n"
    "n < 256 ^ length (be_bytes n)" "256 ^ (length (be_bytes n) - 1) \<le> n"
proof -
  from be_bytes_shape [OF assms] obtain h t where b: "be_bytes n = char_of h # t" "0 < h" "h < 256"
    "h * 256 ^ length t \<le> n" "n < (h + 1) * 256 ^ length t" by blast
  have hb: "high_bit (hd (be_bytes n)) \<longleftrightarrow> 128 \<le> h" using b(1,3) by (simp add: high_bit_def)
  show "high_bit (hd (be_bytes n)) \<longleftrightarrow> 128 * 256 ^ (length (be_bytes n) - 1) \<le> n"
  proof
    assume "high_bit (hd (be_bytes n))"
    then have "128 * 256 ^ length t \<le> h * 256 ^ length t" using hb by (intro mult_le_mono1) simp
    also note b(4)
    finally show "128 * 256 ^ (length (be_bytes n) - 1) \<le> n" using b(1) by simp
  next
    assume "128 * 256 ^ (length (be_bytes n) - 1) \<le> n"
    then have "128 * 256 ^ length t \<le> n" using b(1) by simp
    also note b(5)
    finally have "128 < h + 1" by (simp only: mult_less_cancel2)
    then show "high_bit (hd (be_bytes n))" using hb by simp
  qed
  note b(5)
  also have "(h + 1) * 256 ^ length t \<le> 256 * 256 ^ length t" using b(3) by (intro mult_le_mono1) simp
  finally show "n < 256 ^ length (be_bytes n)" using b(1) by simp
  have "1 * 256 ^ length t \<le> h * 256 ^ length t" using b(2) by (intro mult_le_mono1) simp
  also note b(4)
  finally show "256 ^ (length (be_bytes n) - 1) \<le> n" using b(1) by simp
qed

lemma be_bytes_length: "n \<noteq> 0 \<Longrightarrow> n < 256 ^ k \<Longrightarrow> length (be_bytes n) \<le> k"
proof (rule ccontr)
  assume n: "n \<noteq> 0" "n < 256 ^ k" and "\<not> length (be_bytes n) \<le> k"
  then have "(256::nat) ^ k \<le> 256 ^ (length (be_bytes n) - 1)" by (intro power_increasing) auto
  also note high_bit_hd(3) [OF n(1)]
  finally show False using n(2) by simp
qed

section \<open>Decimals\<close>

lemma pow256: "(256::nat) ^ k = 2 ^ (8 * k)"
  by (simp add: power_mult)

lemma ilog2_range: "n \<noteq> 0 \<Longrightarrow> 2 ^ ilog2 n \<le> n \<and> n < 2 ^ (ilog2 n + 1)"
proof (induction n rule: ilog2.induct)
  case (1 n)
  show ?case
  proof (cases "n < 2")
    case True
    with "1.prems" show ?thesis by (simp add: ilog2.simps [of n])
  next
    case False
    then have "2 ^ ilog2 (n div 2) \<le> n div 2" "n div 2 < 2 ^ (ilog2 (n div 2) + 1)" using 1 by auto
    then have "2 ^ ilog2 (n div 2) * 2 \<le> n" "n < 2 ^ (ilog2 (n div 2) + 1) * 2" by linarith+
    with False show ?thesis by (simp add: ilog2.simps [of n] mult.commute)
  qed
qed

lemma half_pow: "0 < k \<Longrightarrow> 128 * (256::nat) ^ (k - 1) = 2 ^ (8 * k - 1)"
proof -
  assume "0 < k"
  then obtain j where "k = Suc j" by (cases k) auto
  then have "2 ^ (8 * k - 1) = (2::nat) ^ (7 + 8 * j)" by simp
  also have "\<dots> = 128 * 256 ^ j" by (simp add: pow256 power_add)
  finally show ?thesis using \<open>k = Suc j\<close> by simp
qed

lemma encode_positive:
  assumes "0 < n"
  shows "decodeUnscaledDecimal (encodeUnscaledDecimal n) = n"
    "0 < k \<Longrightarrow> n < 2 ^ (8 * k - 1) \<Longrightarrow> length (encodeUnscaledDecimal n) \<le> k"
proof -
  let ?b = "be_bytes (nat n)"
  have e: "encodeUnscaledDecimal n = (if high_bit (hd ?b) then char_of (0 :: nat) # ?b else ?b)"
    using assms by (simp add: encodeUnscaledDecimal_def Let_def)
  show "decodeUnscaledDecimal (encodeUnscaledDecimal n) = n"
    using assms unfolding e by (simp add: decodeUnscaledDecimal_def be_nat_zero high_bit_def)
  assume k: "0 < k" "n < 2 ^ (8 * k - 1)"
  then have nk: "nat n < 2 ^ (8 * k - 1)" using assms by (simp add: nat_less_iff)
  also have "\<dots> \<le> (2::nat) ^ (8 * k)" by (rule power_increasing) auto
  finally have l: "length ?b \<le> k" using be_bytes_length [of "nat n" k] assms by (simp add: pow256)
  moreover have "length ?b < k" if "high_bit (hd ?b)"
  proof (rule ccontr)
    assume "\<not> length ?b < k"
    with l have "length ?b = k" by simp
    with that high_bit_hd(1) [of "nat n"] assms nk half_pow [OF k(1)] show False by simp
  qed
  ultimately show "length (encodeUnscaledDecimal n) \<le> k" unfolding e by auto
qed

lemma encode_negative:
  assumes "n < 0"
  shows "decodeUnscaledDecimal (encodeUnscaledDecimal n) = n"
    "0 < k \<Longrightarrow> - (2 ^ (8 * k - 1)) \<le> n \<Longrightarrow> length (encodeUnscaledDecimal n) \<le> k"
proof -
  define a where "a = nat (- n)"
  have a: "a \<noteq> 0" "n = - int a" using assms by (simp_all add: a_def)
  define j where "j = (bit_len a + 7) div 8"
  have bl: "bit_len a = ilog2 a + 1" using a by (simp add: bit_len_def)
  then have j: "0 < j" "bit_len a \<le> 8 * j" by (simp_all add: j_def)
  have aj: "a < 2 ^ (8 * j)"
    using ilog2_range [OF a(1)] power_increasing [of "ilog2 a + 1" "8 * j" "2::nat"] j(2) bl by auto
  define N where "N = (if a > 2 ^ (8 * j - 1) then j + 1 else j)"
  have aN: "a \<le> 2 ^ (8 * N - 1)"
  proof (cases "a > 2 ^ (8 * j - 1)")
    case True
    have "(2::nat) ^ (8 * j) \<le> 2 ^ (8 * N - 1)" using True by (intro power_increasing) (auto simp: N_def)
    then show ?thesis using aj by linarith
  qed (simp add: N_def)
  have N: "0 < N" using j by (simp add: N_def)
  have two: "(2::nat) ^ (8 * m) = 2 * 2 ^ (8 * m - 1)" if "0 < m" for m
    using that power_Suc [of "2::nat" "8 * m - 1"] by simp
  define c where "c = 2 ^ (8 * N) - a"
  have "a \<le> 2 ^ (8 * N)" using aN two [OF N] by linarith
  then have "int c = 2 ^ (8 * N) + n" using a(2) by (simp add: c_def of_nat_diff)
  moreover have "(0::nat) < 2 ^ (8 * N - 1)" by simp
  ultimately have c: "2 ^ (8 * N - 1) \<le> c" "c < 2 ^ (8 * N)" "c \<noteq> 0" "int c = 2 ^ (8 * N) + n"
    using aN a two [OF N] unfolding c_def by linarith+
  have len: "length (be_bytes c) = N"
  proof (rule antisym)
    show "length (be_bytes c) \<le> N" using be_bytes_length [OF c(3), of N] c(2) by (simp add: pow256)
    show "N \<le> length (be_bytes c)"
    proof (rule ccontr)
      assume "\<not> N \<le> length (be_bytes c)"
      then have "(256::nat) ^ length (be_bytes c) \<le> 256 ^ (N - 1)" by (intro power_increasing) auto
      also have "\<dots> \<le> 2 ^ (8 * N - 1)" unfolding pow256 by (intro power_increasing) (use N in auto)
      finally show False using high_bit_hd(2) [OF c(3)] c(1) by simp
    qed
  qed
  have "nat (2 ^ (8 * N) + n) = c" using c(4) by (metis nat_int)
  moreover have "(if j = 0 then 1 else j) = j" using j(1) by simp
  ultimately have e: "encodeUnscaledDecimal n = be_bytes c"
    using assms len unfolding encodeUnscaledDecimal_def Let_def a_def [symmetric] j_def [symmetric] by (simp only: N_def [symmetric]) (simp add: not_less)?
  have "high_bit (hd (be_bytes c))" using high_bit_hd(1) [OF c(3)] len c(1) half_pow [OF N] by simp
  with len c(4) show "decodeUnscaledDecimal (encodeUnscaledDecimal n) = n" unfolding e by (simp add: decodeUnscaledDecimal_def)
  assume k: "0 < k" "- (2 ^ (8 * k - 1)) \<le> n"
  then have "int a \<le> int (2 ^ (8 * k - 1))" using a(2) by simp
  then have ak: "a \<le> 2 ^ (8 * k - 1)" by (simp only: of_nat_le_iff)
  have "j \<le> k"
  proof (rule ccontr)
    assume "\<not> j \<le> k"
    then have "8 * k < bit_len a" by (simp add: j_def)
    have "(2::nat) ^ (8 * k) \<le> 2 ^ ilog2 a" using bl \<open>8 * k < bit_len a\<close> by (intro power_increasing) auto
    also have "\<dots> \<le> a" using ilog2_range [OF a(1)] by simp
    finally have "2 ^ (8 * k) \<le> a" .
    moreover have "(0::nat) < 2 ^ (8 * k - 1)" by simp
    ultimately show False using ak two [OF k(1)] by linarith
  qed
  moreover have "j \<noteq> k" if "a > 2 ^ (8 * j - 1)" using that ak by auto
  ultimately show "length (encodeUnscaledDecimal n) \<le> k" unfolding e len by (auto simp: N_def)
qed

lemma decimal_trip: "decodeUnscaledDecimal (encodeUnscaledDecimal n) = n"
proof -
  consider "n = 0" | "0 < n" | "n < 0" by linarith
  then show ?thesis
    by cases (simp add: encodeUnscaledDecimal_def decodeUnscaledDecimal_def high_bit_def be_nat_def, simp_all only: encode_positive(1) encode_negative(1))
qed

text \<open>
  C28. The bytes of a decimal bound: every unscaled integer, of whatever size and sign, reads back from its encoding, and
  no shorter two's complement could hold it.
\<close>

theorem decimal_bound_roundtrip:
  "decodeUnscaledDecimal (encodeUnscaledDecimal n) = n \<and>
   (0 < k \<and> - (2 ^ (8 * k - 1)) \<le> n \<and> n < 2 ^ (8 * k - 1) \<longrightarrow> length (encodeUnscaledDecimal n) \<le> k)"
proof -
  consider "n = 0" | "0 < n" | "n < 0" by linarith
  then show ?thesis
  proof cases
    case 1
    then show ?thesis by (simp add: encodeUnscaledDecimal_def decodeUnscaledDecimal_def high_bit_def be_nat_def Suc_le_eq)
  qed (auto simp: encode_positive encode_negative)
qed

theorem decimal_bound_roundtrip_witness:
  "decodeUnscaledDecimal (encodeUnscaledDecimal (-129)) = -129 \<and> length (encodeUnscaledDecimal (-129)) \<le> 2"
  using decimal_bound_roundtrip [of "-129" 2] by simp

section \<open>Bounds of other types\<close>

text \<open>Go's machine integers hold 64 bits; a document's numbers and texts are checked by the coercions.\<close>

definition machine_any :: "any \<Rightarrow> bool" where
  "machine_any v \<longleftrightarrow> (case v of AInt i \<Rightarrow> in_int64 i | AInt32 i \<Rightarrow> in_int64 i | AInt64 i \<Rightarrow> in_int64 i | _ \<Rightarrow> True)"

text \<open>
  The value a bound has after a round trip, typed by the column: itself where it is of the column's own Go type, else what
  the code coerces it to.
\<close>

definition own_value :: "dtype \<Rightarrow> any \<Rightarrow> bool" where
  "own_value t v \<longleftrightarrow>
     (case v of
        ABool b \<Rightarrow> t = TypeBoolean
      | AInt32 i \<Rightarrow> t \<in> {TypeInt, TypeDate} \<and> - (2 ^ 31) \<le> i \<and> i \<le> 2 ^ 31 - 1
      | AInt64 i \<Rightarrow> t \<in> {TypeLong, TypeTimestamp, TypeTimestampNTZ}
      | AStr s \<Rightarrow> t \<in> {TypeString, TypeEnum}
      | ABytes s \<Rightarrow> t \<in> {TypeBytes, TypeFixed}
      | ABig i \<Rightarrow> t = TypeDecimal
      | _ \<Rightarrow> False)"

definition coerced_bound :: "ice_libs \<Rightarrow> dtype \<Rightarrow> any \<Rightarrow> any option" where
  "coerced_bound lib t v =
     (if v = ANil then None
      else if t = TypeBoolean then map_option ABool (coerceBool v)
      else if t \<in> {TypeInt, TypeDate} then
        Option.bind (coerceInt64 v) (\<lambda>n. if - (2 ^ 31) \<le> n \<and> n \<le> 2 ^ 31 - 1 then Some (AInt32 n) else None)
      else if t \<in> {TypeLong, TypeTimestamp, TypeTimestampNTZ} then map_option AInt64 (coerceInt64 v)
      else if t \<in> {TypeString, TypeEnum} then map_option AStr (coerceString v)
      else if t = TypeUUID then map_option AStr (Option.bind (Option.bind (coerceString v) (lib_uuid_parse lib)) (lib_uuid_text lib))
      else if t \<in> {TypeBytes, TypeFixed} then map_option ABytes (coerceBytes v)
      else if t = TypeDecimal then map_option ABig (coerceBigInt v)
      else None)"

definition kept_bound :: "ice_libs \<Rightarrow> dtype \<Rightarrow> any \<Rightarrow> any option" where
  "kept_bound lib t v = (if own_value t v then Some v else coerced_bound lib t v)"

lemma kept_coerced: "kept_bound lib t v = coerced_bound lib t v"
proof (cases "own_value t v")
  case True
  then have "coerced_bound lib t v = Some v" by (cases v) (auto simp: own_value_def coerced_bound_def)
  with True show ?thesis by (simp add: kept_bound_def)
qed (simp add: kept_bound_def)

lemma coerceInt64_range: "machine_any v \<Longrightarrow> coerceInt64 v = Some n \<Longrightarrow> in_int64 n"
  by (cases v) (auto simp: machine_any_def floatToInt64_def in_int64_def dest: parseInt_in_int64 split: option.splits if_splits)

lemma encode_nonempty: "encodeUnscaledDecimal n \<noteq> []"
proof (cases "n < 0")
  case True
  define k where "k = (bit_len (nat (- n)) + 7) div 8"
  have "0 < k" using True by (simp add: k_def bit_len_def)
  with True show ?thesis by (auto simp: encodeUnscaledDecimal_def Let_def k_def [symmetric] be_bytes.simps [of 0])
qed (simp add: encodeUnscaledDecimal_def Let_def)

lemma bound_trip:
  assumes "t \<notin> {TypeFloat, TypeDouble}" "machine_any v"
  shows "Option.bind (if v = ANil then None else bound_bytes lib t v pos) (bound_value lib t) = kept_bound lib t v"
proof -
  have w32: "to_signed 32 (le_nat (le_bytes 4 (to_unsigned 32 n))) = n" if "- (2 ^ 31) \<le> n" "n \<le> 2 ^ 31 - 1" for n
    using to_signed_unsigned [of 32 n] le_nat_bytes [of "to_unsigned 32 n" 4] to_unsigned_less [of 32 n] that by simp
  have w64: "to_signed 64 (le_nat (le_bytes 8 (to_unsigned 64 n))) = n" if "coerceInt64 v = Some n" for n
    using to_signed_unsigned [of 64 n] le_nat_bytes [of "to_unsigned 64 n" 8] to_unsigned_less [of 64 n]
      coerceInt64_range [OF assms(2) that] by (simp add: in_int64_def)
  show ?thesis
    using assms(1) w32 w64
    by (cases t) (auto simp: bound_bytes_def bound_value_def kept_coerced coerced_bound_def encode_nonempty decimal_trip map_option_case
        split: option.splits if_splits Option.bind_splits)
qed

section \<open>The statistics of a file\<close>

text \<open>Fields without an identifier hold no statistics; in a schema that was read those are the nested ones.\<close>

lemma level_order_append: "level_order (fs @ gs) = fs @ level_order (gs @ concat (map children fs))"
  by (induction fs arbitrary: gs) simp_all

lemma form_anonymous: "ice_ok s \<Longrightarrow> nested_in f (Fields (ice_form n s)) \<Longrightarrow> FieldID f = None"
proof (induction n s arbitrary: f rule: ice_form.induct)
  case (1 n s)
  show ?case
  proof (cases "DataType s = TypeRecord")
    case True
    let ?col = "\<lambda>f. mkField (FieldName f)
      (case FieldSchema f of None \<Rightarrow> None | Some t \<Rightarrow> Some (with_doc (Comment t) (ice_form (IsNullable t) t)))"
    have fs: "Fields (ice_form n s) = map ?col (Fields s)" using True by (simp add: ice_form.simps [of n s] NewRecordSchema_def)
    from "1.prems"(2) consider "f \<in> set (map ?col (Fields s))" | g where "g \<in> set (Fields s)" "nested_in f (children (?col g))"
      unfolding fs by (subst (asm) nested_in_iff) auto
    then show ?thesis
    proof cases
      case (2 g)
      have "list_all (\<lambda>f. case FieldSchema f of None \<Rightarrow> False | Some t \<Rightarrow> ice_ok t) (Fields s)"
        using "1.prems"(1) True by (simp add: ice_ok.simps [of s])
      with 2(1) obtain t where t: "FieldSchema g = Some t" "ice_ok t" by (auto simp: list_all_iff split: option.splits)
      have "Fields (with_doc d u) = Fields u" for d u by (simp add: with_doc_def)
      with 2(2) t have "nested_in f (Fields (ice_form (IsNullable t) t))" by (simp add: children_def)
      with "1.IH"(1) [OF True 2(1) t(1)] t(2) show ?thesis by simp
    qed auto
  next
    case False
    then have "Fields (ice_form n s) = []"
      using "1.prems"(1) by (subst ice_form.simps) (cases "DataType s"; auto simp: ice_ok.simps [of s] NewPrimitiveSchema_def
        NewDecimalSchema_def fixed_schema_def list_schema_def map_schema_def bind_eq_Some_conv split: option.splits)
    with "1.prems"(2) show ?thesis by simp
  qed
qed

lemma nested_in_concat: "nested_in f (concat xss) \<longleftrightarrow> (\<exists>xs \<in> set xss. nested_in f xs)"
  by (induction xss) auto

lemma set_map_filter_ice: "x \<in> set (List.map_filter h xs) \<longleftrightarrow> (\<exists>y \<in> set xs. h y = Some x)"
  by (induction xs) (auto simp: List.map_filter_simps split: option.splits)

lemma map_filter_none: "(\<And>x. x \<in> set xs \<Longrightarrow> h x = None) \<Longrightarrow> List.map_filter h xs = []"
  by (induction xs) (simp_all add: List.map_filter_simps)

lemma map_filter_app: "List.map_filter h (xs @ ys) = List.map_filter h xs @ List.map_filter h ys"
  by (simp add: List.map_filter_def)

lemma stats_of_columns:
  assumes "columns_read gs fs" "list_all (\<lambda>g. pred_option ice_ok (FieldSchema g)) gs"
  shows "columnStatsFromManifest lib mdf (Some (read_columns gs fs)) =
    List.map_filter (stat_from_manifest lib mdf) (map2 (\<lambda>g nf. ice_column g (nf_ID nf)) gs fs)"
proof -
  let ?cols = "map2 (\<lambda>g nf. ice_column g (nf_ID nf)) gs fs"
  have "AllFields (Some (read_columns gs fs)) = ?cols @ level_order (concat (map children ?cols))"
    using level_order_append [of ?cols "[]"] by (simp add: read_columns_def NewRecordSchema_def)
  moreover have "FieldID f = None" if "f \<in> set (level_order (concat (map children ?cols)))" for f
  proof -
    from that obtain c where c: "c \<in> set ?cols" "nested_in f (children c)" by (auto simp: set_level_order nested_in_concat)
    then obtain g i where g: "g \<in> set gs" "c = ice_column g i" by (auto dest: set_zip_leftD)
    with c(2) obtain s where s: "FieldSchema g = Some s" "nested_in f (children c)" by (cases "FieldSchema g") (auto simp: ice_column_def children_def)
    moreover from s(1) g(1) assms(2) have "ice_ok s" by (auto simp: list_all_iff)
    ultimately show ?thesis using form_anonymous [of s f "IsNullable s"] g(2) by (simp add: ice_column_def children_def with_doc_def split: if_splits)
  qed
  ultimately show ?thesis
    by (simp add: columnStatsFromManifest_def map_filter_app map_filter_none stat_from_manifest_def del: AllFields.simps)
qed

text \<open>The slot a statistic goes to, and the maps after the statistics of a file were put.\<close>

definition stat_slot :: "(string, int) gomap \<Rightarrow> column_stat \<Rightarrow> int option" where
  "stat_slot ids cs = Option.bind (StatField cs) (\<lambda>f. map_of ids (Field_Path f))"

definition put_at :: "(column_stat \<Rightarrow> 'a option) \<Rightarrow> column_stat option \<Rightarrow> 'a option \<Rightarrow> 'a option" where
  "put_at h c old = (case c of None \<Rightarrow> old | Some cs \<Rightarrow> (case h cs of None \<Rightarrow> old | Some x \<Rightarrow> Some x))"

definition stat_bound :: "ice_libs \<Rightarrow> bound_position \<Rightarrow> column_stat \<Rightarrow> string option" where
  "stat_bound lib pos cs =
     Option.bind (StatField cs) (\<lambda>f. Option.bind (StatRange cs) (\<lambda>r.
       EncodeBound lib (FieldSchema f) (if pos = LowerBound then MinValue r else MaxValue r) pos))"

lemma stats_put:
  assumes "distinct (List.map_filter (stat_slot ids) stats)"
    and c_def: "c = List.find (\<lambda>cs. stat_slot ids cs = Some i) stats"
  shows "map_of (mdf_ValueCounts (foldl (stat_to_manifest lib ids) mdf stats)) i = put_at (\<lambda>cs. Some (TotalValues cs)) c (map_of (mdf_ValueCounts mdf) i)"
    "map_of (mdf_NullValueCounts (foldl (stat_to_manifest lib ids) mdf stats)) i = put_at (\<lambda>cs. Some (NumNulls cs)) c (map_of (mdf_NullValueCounts mdf) i)"
    "map_of (mdf_NanValueCounts (foldl (stat_to_manifest lib ids) mdf stats)) i =
      put_at (\<lambda>cs. if NumNaNs cs > 0 then Some (NumNaNs cs) else None) c (map_of (mdf_NanValueCounts mdf) i)"
    "map_of (mdf_LowerBounds (foldl (stat_to_manifest lib ids) mdf stats)) i = put_at (stat_bound lib LowerBound) c (map_of (mdf_LowerBounds mdf) i)"
    "map_of (mdf_UpperBounds (foldl (stat_to_manifest lib ids) mdf stats)) i = put_at (stat_bound lib UpperBound) c (map_of (mdf_UpperBounds mdf) i)"
proof -
  let ?P = "\<lambda>mdf' mdf c.
    map_of (mdf_ValueCounts mdf') i = put_at (\<lambda>cs. Some (TotalValues cs)) c (map_of (mdf_ValueCounts mdf) i) \<and>
    map_of (mdf_NullValueCounts mdf') i = put_at (\<lambda>cs. Some (NumNulls cs)) c (map_of (mdf_NullValueCounts mdf) i) \<and>
    map_of (mdf_NanValueCounts mdf') i = put_at (\<lambda>cs. if NumNaNs cs > 0 then Some (NumNaNs cs) else None) c (map_of (mdf_NanValueCounts mdf) i) \<and>
    map_of (mdf_LowerBounds mdf') i = put_at (stat_bound lib LowerBound) c (map_of (mdf_LowerBounds mdf) i) \<and>
    map_of (mdf_UpperBounds mdf') i = put_at (stat_bound lib UpperBound) c (map_of (mdf_UpperBounds mdf) i)"
  have step: "?P (stat_to_manifest lib ids mdf cs) mdf (if stat_slot ids cs = Some i then Some cs else None)" for mdf cs
    by (auto simp: stat_to_manifest_def stat_slot_def put_at_def stat_bound_def put_bytes_def Let_def split: option.splits)
  have "?P (foldl (stat_to_manifest lib ids) mdf stats) mdf c"
    using assms(1) unfolding c_def
  proof (induction stats arbitrary: mdf)
    case Nil
    then show ?case by (simp add: put_at_def)
  next
    case (Cons cs stats)
    from Cons.prems have "distinct (List.map_filter (stat_slot ids) stats)" by (auto simp: List.map_filter_simps split: option.splits)
    from Cons.IH [OF this, of "stat_to_manifest lib ids mdf cs"] step [of mdf cs]
    show ?case
    proof (cases "stat_slot ids cs = Some i")
      case True
      with Cons.prems have "i \<notin> set (List.map_filter (stat_slot ids) stats)" by (simp add: List.map_filter_simps)
      then have "\<not> (\<exists>x \<in> set stats. stat_slot ids x = Some i)" by (simp add: set_map_filter_ice)
      then have "List.find (\<lambda>cs. stat_slot ids cs = Some i) stats = None" by (simp add: find_None_iff)
      with Cons.IH [OF \<open>distinct (List.map_filter (stat_slot ids) stats)\<close>, of "stat_to_manifest lib ids mdf cs"] step [of mdf cs] True
      show ?thesis by (simp add: put_at_def)
    qed (simp add: put_at_def)
  qed
  then show "map_of (mdf_ValueCounts (foldl (stat_to_manifest lib ids) mdf stats)) i = put_at (\<lambda>cs. Some (TotalValues cs)) c (map_of (mdf_ValueCounts mdf) i)"
    "map_of (mdf_NullValueCounts (foldl (stat_to_manifest lib ids) mdf stats)) i = put_at (\<lambda>cs. Some (NumNulls cs)) c (map_of (mdf_NullValueCounts mdf) i)"
    "map_of (mdf_NanValueCounts (foldl (stat_to_manifest lib ids) mdf stats)) i =
      put_at (\<lambda>cs. if NumNaNs cs > 0 then Some (NumNaNs cs) else None) c (map_of (mdf_NanValueCounts mdf) i)"
    "map_of (mdf_LowerBounds (foldl (stat_to_manifest lib ids) mdf stats)) i = put_at (stat_bound lib LowerBound) c (map_of (mdf_LowerBounds mdf) i)"
    "map_of (mdf_UpperBounds (foldl (stat_to_manifest lib ids) mdf stats)) i = put_at (stat_bound lib UpperBound) c (map_of (mdf_UpperBounds mdf) i)"
    by blast+
qed

text \<open>A statistic as it is after a round trip, and what a file's statistics have to be for it.\<close>

definition kept_stat :: "ice_libs \<Rightarrow> field \<Rightarrow> column_stat \<Rightarrow> column_stat" where
  "kept_stat lib col cs =
     (let t = (case Option.bind (StatField cs) FieldSchema of None \<Rightarrow> TypeNull | Some s \<Rightarrow> DataType s);
          mn = Option.bind (StatRange cs) (\<lambda>r. kept_bound lib t (MinValue r));
          mx = Option.bind (StatRange cs) (\<lambda>r. kept_bound lib t (MaxValue r))
      in \<lparr>StatField = Some col, StatRange = (if mn \<noteq> None \<or> mx \<noteq> None then Some (NewRange (nil_or mn) (nil_or mx)) else None),
          NumNulls = NumNulls cs, NumNaNs = NumNaNs cs, TotalValues = TotalValues cs\<rparr>)"

definition stat_ok :: "field list \<Rightarrow> column_stat \<Rightarrow> bool" where
  "stat_ok gs cs \<longleftrightarrow>
     (case StatField cs of
        None \<Rightarrow> False
      | Some g \<Rightarrow>
          g \<in> set gs \<and> ParentPath g = '''' \<and> 0 \<le> NumNaNs cs \<and>
          pred_option (\<lambda>s. DataType s \<notin> {TypeFloat, TypeDouble}) (FieldSchema g) \<and>
          pred_option (\<lambda>r. machine_any (MinValue r) \<and> machine_any (MaxValue r)) (StatRange cs))"

lemma form_type: "ice_ok s \<Longrightarrow> DataType (ice_form n s) = (if DataType s \<in> {TypeEnum, TypeUnion, TypeNull} then TypeString else DataType s)"
  by (subst ice_form.simps) (cases "DataType s"; auto simp: ice_ok.simps [of s] NewPrimitiveSchema_def NewDecimalSchema_def fixed_schema_def
      NewRecordSchema_def list_schema_def map_schema_def bind_eq_Some_conv split: option.splits)

lemma bound_kept:
  assumes "FieldSchema g = Some s" "ice_ok s" "DataType s \<notin> {TypeFloat, TypeDouble}" "machine_any v"
  shows "DecodeBound lib (FieldSchema (ice_column g i)) (EncodeBound lib (Some s) v pos) = kept_bound lib (DataType s) v"
proof -
  have "DataType (with_doc d u) = DataType u" for d u by (simp add: with_doc_def)
  then have t: "FieldSchema (ice_column g i) = Some u \<Longrightarrow> bound_value lib (DataType u) = bound_value lib (DataType s) \<or> DataType s \<in> {TypeUnion, TypeNull}" for u
    using assms(1,2) by (auto simp: ice_column_def form_type bound_value_def fun_eq_iff)
  obtain u where u: "FieldSchema (ice_column g i) = Some u" using assms(1) by (simp add: ice_column_def)
  have b: "DecodeBound lib (Some u) (EncodeBound lib (Some s) v pos) =
      Option.bind (if v = ANil then None else bound_bytes lib (DataType s) v pos) (bound_value lib (DataType u))"
    by (simp add: DecodeBound_def EncodeBound_def split: option.split)
  show ?thesis
  proof (cases "DataType s \<in> {TypeUnion, TypeNull}")
    case True
    then show ?thesis unfolding u b by (auto simp: bound_bytes_def kept_coerced coerced_bound_def)
  next
    case False
    with t [OF u] have "bound_value lib (DataType u) = bound_value lib (DataType s)" by blast
    with bound_trip [OF assms(3,4)] show ?thesis unfolding u b by simp
  qed
qed

lemma name_ids:
  assumes "distinct (map nf_Name fs)" "nf \<in> set fs"
  shows "map_of (foldl (\<lambda>m f. map_put (nf_Name f) (nf_ID f) m) [] fs) (nf_Name nf) = Some (nf_ID nf)"
  using assms by (induction fs rule: rev_induct) (auto simp: rev_image_eqI)

lemma name_ids_set: "map_of (foldl (\<lambda>m f. map_put (nf_Name f) (nf_ID f) m) [] fs) nm = Some i \<Longrightarrow> \<exists>nf \<in> set fs. nf_Name nf = nm \<and> nf_ID nf = i"
  by (induction fs rule: rev_induct) (auto split: if_splits)

lemma zip_elem: "columns_read gs fs \<Longrightarrow> (g, nf) \<in> set (zip gs fs) \<Longrightarrow>
    g \<in> set gs \<and> nf \<in> set fs \<and> nf_Name nf = FieldName g \<and> (\<exists>s. FieldSchema g = Some s \<and> field_reads nf g s)"
  unfolding columns_read_def by (auto dest: set_zip_leftD set_zip_rightD simp: list_all2_iff field_reads_def)

lemma zip_left: "columns_read gs fs \<Longrightarrow> g \<in> set gs \<Longrightarrow> \<exists>nf. (g, nf) \<in> set (zip gs fs)"
  unfolding columns_read_def by (drule list_all2_lengthD, erule (1) in_set_impl_in_set_zip1) blast

end
