(* ===== verification/Iceberg_Manifest.thy ===== *)
theory Iceberg_Manifest
  imports Iceberg_Schema Iceberg_Stats Delta_Stats
begin

text \<open>
  \<^verbatim>\<open>pkg/formats/iceberg/manifest.go\<close>: manifest lists and manifests as Avro container files. The Avro library is behind
  \<open>ice_libs\<close>; a schema text is given to it as the document it denotes. A record is a \<^verbatim>\<open>map[string]any\<close>.
\<close>

definition manifestStatusAdded :: int where "manifestStatusAdded = 1"
definition manifestStatusDeleted :: int where "manifestStatusDeleted = 2"
definition contentData :: int where "contentData = 0"

section \<open>Avro schemas\<close>

definition avro_member :: "string \<Rightarrow> int \<Rightarrow> json \<Rightarrow> json" where
  "avro_member nm i t = JObj [(''name'', JStr nm), (''field-id'', jint i), (''type'', t)]"

definition null_or :: "json \<Rightarrow> json" where
  "null_or t = JArr [JStr ''null'', t]"

definition avro_optional :: "string \<Rightarrow> int \<Rightarrow> json \<Rightarrow> json" where
  "avro_optional nm i t = JObj [(''name'', JStr nm), (''field-id'', jint i), (''type'', null_or t), (''default'', JNull)]"

definition avro_record_type :: "string \<Rightarrow> json list \<Rightarrow> json" where
  "avro_record_type nm fs = JObj [(''type'', JStr ''record''), (''name'', JStr nm), (''fields'', JArr fs)]"

definition avro_items :: "int \<Rightarrow> json \<Rightarrow> json" where
  "avro_items i t = JObj [(''type'', JStr ''array''), (''element-id'', jint i), (''items'', t)]"

text \<open>A statistic keyed by column: an array of key and value records.\<close>

definition avro_keyed :: "string \<Rightarrow> int \<Rightarrow> string \<Rightarrow> int \<Rightarrow> int \<Rightarrow> string \<Rightarrow> json" where
  "avro_keyed nm i rec_name key_id value_id t =
     JObj [(''name'', JStr nm), (''field-id'', jint i), (''default'', JNull),
       (''type'', null_or (JObj [(''type'', JStr ''array''), (''logicalType'', JStr ''map''),
          (''items'', avro_record_type rec_name
             [avro_member ''key'' key_id (JStr ''int''), avro_member ''value'' value_id (JStr t)])]))]"

definition manifestEntrySchemaTemplate :: "json \<Rightarrow> json" where
  "manifestEntrySchemaTemplate partition_type =
     avro_record_type ''manifest_entry''
       [avro_member ''status'' 0 (JStr ''int''),
        avro_optional ''snapshot_id'' 1 (JStr ''long''),
        avro_optional ''sequence_number'' 3 (JStr ''long''),
        avro_optional ''file_sequence_number'' 4 (JStr ''long''),
        avro_member ''data_file'' 2 (avro_record_type ''r2''
          [avro_member ''content'' 134 (JStr ''int''),
           avro_member ''file_path'' 100 (JStr ''string''),
           avro_member ''file_format'' 101 (JStr ''string''),
           avro_member ''partition'' 102 partition_type,
           avro_member ''record_count'' 103 (JStr ''long''),
           avro_member ''file_size_in_bytes'' 104 (JStr ''long''),
           avro_keyed ''column_sizes'' 108 ''k117_v118'' 117 118 ''long'',
           avro_keyed ''value_counts'' 109 ''k119_v120'' 119 120 ''long'',
           avro_keyed ''null_value_counts'' 110 ''k121_v122'' 121 122 ''long'',
           avro_keyed ''nan_value_counts'' 137 ''k138_v139'' 138 139 ''long'',
           avro_keyed ''lower_bounds'' 125 ''k126_v127'' 126 127 ''bytes'',
           avro_keyed ''upper_bounds'' 128 ''k129_v130'' 129 130 ''bytes'',
           avro_optional ''key_metadata'' 131 (JStr ''bytes''),
           avro_optional ''split_offsets'' 132 (avro_items 133 (JStr ''long'')),
           avro_optional ''equality_ids'' 135 (avro_items 136 (JStr ''int'')),
           avro_optional ''sort_order_id'' 140 (JStr ''int'')])]"

definition manifestListSchema :: json where
  "manifestListSchema =
     avro_record_type ''manifest_file''
       [avro_member ''manifest_path'' 500 (JStr ''string''),
        avro_member ''manifest_length'' 501 (JStr ''long''),
        avro_member ''partition_spec_id'' 502 (JStr ''int''),
        avro_member ''content'' 517 (JStr ''int''),
        avro_member ''sequence_number'' 515 (JStr ''long''),
        avro_member ''min_sequence_number'' 516 (JStr ''long''),
        avro_member ''added_snapshot_id'' 503 (JStr ''long''),
        avro_member ''added_files_count'' 504 (JStr ''int''),
        avro_member ''existing_files_count'' 505 (JStr ''int''),
        avro_member ''deleted_files_count'' 506 (JStr ''int''),
        avro_member ''added_rows_count'' 512 (JStr ''long''),
        avro_member ''existing_rows_count'' 513 (JStr ''long''),
        avro_member ''deleted_rows_count'' 514 (JStr ''long''),
        avro_optional ''partitions'' 507 (avro_items 508 (avro_record_type ''r508''
          [avro_member ''contains_null'' 509 (JStr ''boolean''),
           avro_optional ''contains_nan'' 518 (JStr ''boolean''),
           avro_optional ''lower_bound'' 510 (JStr ''bytes''),
           avro_optional ''upper_bound'' 511 (JStr ''bytes'')])),
        avro_optional ''key_metadata'' 519 (JStr ''bytes'')]"

section \<open>File formats\<close>

fun icebergFileFormat :: "file_format \<Rightarrow> string" where
  "icebergFileFormat FileFormatParquet = ''PARQUET''"
| "icebergFileFormat FileFormatORC = ''ORC''"
| "icebergFileFormat FileFormatAvro = ''AVRO''"

definition modelFileFormat :: "string \<Rightarrow> file_format" where
  "modelFileFormat nm =
     (if equalFold nm ''ORC'' then FileFormatORC else if equalFold nm ''AVRO'' then FileFormatAvro else FileFormatParquet)"

lemma modelFileFormat_spelled [simp]: "modelFileFormat (icebergFileFormat f) = f"
  by (cases f) (simp_all add: modelFileFormat_def equalFold_def toLower_def lower_char_def)

section \<open>Partition values\<close>

definition partitionAvroTypes :: "string list" where
  "partitionAvroTypes = [''boolean'', ''int'', ''long'', ''float'', ''double'', ''string'']"

record partition_column =
  pcol_name :: string
  pcol_fieldID :: int
  pcol_avroType :: string

text \<open>The column a partition field is derived from; a decoded type is a document.\<close>

fun source_type :: "ice_partition_field \<Rightarrow> ice_field option list \<Rightarrow> string res" where
  "source_type pf [] = Inl (ErrMsg (''iceberg partition field '' @ ipf_Name pf @ '' is derived from source id '' @
     formatInt (ipf_SourceID pf) @ '', which the schema does not contain''))"
| "source_type pf (None # fs) = Inl nil_panic"
| "source_type pf (Some f # fs) =
     (if nf_ID f \<noteq> ipf_SourceID pf then source_type pf fs
      else
        (case nf_Type f of
           TName n \<Rightarrow> Inr n
         | TDoc (JStr n) \<Rightarrow> Inr n
         | _ \<Rightarrow> Inl (ErrMsg (''iceberg partition field '' @ ipf_Name pf @ '' is derived from the nested column '' @ nf_Name f @
             '', which cannot be a partition source''))))"

definition partitionSourceType :: "ice_partition_field \<Rightarrow> ice_schema option \<Rightarrow> string res" where
  "partitionSourceType pf tableSchema =
     (case tableSchema of
        None \<Rightarrow> Inl (ErrMsg (''iceberg partition field '' @ ipf_Name pf @ '' cannot be typed without a schema''))
      | Some s \<Rightarrow> source_type pf (is_Fields s))"

definition partition_column_of :: "ice_schema option \<Rightarrow> ice_partition_field option \<Rightarrow> partition_column res" where
  "partition_column_of tableSchema p =
     (case p of
        None \<Rightarrow> Inl nil_panic
      | Some pf \<Rightarrow>
          if ipf_Transform pf \<noteq> ''identity'' then
            Inl (ErrMsg (''iceberg partition field '' @ ipf_Name pf @ '' uses the '' @ quoted (ipf_Transform pf) @
              '' transform, which this port cannot write into a manifest''))
          else
            bind_res (partitionSourceType pf tableSchema) (\<lambda>t.
              if t \<in> set partitionAvroTypes then Inr \<lparr>pcol_name = ipf_Name pf, pcol_fieldID = ipf_FieldID pf, pcol_avroType = t\<rparr>
              else Inl (ErrMsg (''iceberg partition field '' @ ipf_Name pf @ '' has source type '' @ t @
                '', which this port cannot serialize into a manifest partition''))))"

definition newPartitionEncoder :: "ice_spec option \<Rightarrow> ice_schema option \<Rightarrow> partition_column list res" where
  "newPartitionEncoder spec tableSchema =
     (case spec of None \<Rightarrow> Inr [] | Some s \<Rightarrow> map_res (partition_column_of tableSchema) (spec_Fields s))"

text \<open>\<^verbatim>\<open>json.Marshal\<close> writes the keys of a map in order.\<close>

definition encoder_schemaJSON :: "partition_column list \<Rightarrow> json" where
  "encoder_schemaJSON cols =
     JObj [(''fields'', JArr (map (\<lambda>c.
         JObj [(''default'', JNull), (''field-id'', jint (pcol_fieldID c)), (''name'', JStr (pcol_name c)),
           (''type'', null_or (JStr (pcol_avroType c)))]) cols)),
       (''name'', JStr ''r102''), (''type'', JStr ''record'')]"

text \<open>\<^verbatim>\<open>float32(v)\<close>.\<close>

definition narrow :: "gfloat \<Rightarrow> gfloat" where
  "narrow f = float32_of_bits (float32_bits f)"

definition coercePartitionValue :: "partition_column \<Rightarrow> any \<Rightarrow> any res" where
  "coercePartitionValue c raw =
     (let t = pcol_avroType c;
          v = (if t = ''boolean'' then map_option ABool (coerceBool raw)
               else if t = ''int'' then
                 Option.bind (coerceInt64 raw) (\<lambda>v. if v < - (2 ^ 31) \<or> v > 2 ^ 31 - 1 then None else Some (AInt32 v))
               else if t = ''long'' then map_option AInt64 (coerceInt64 raw)
               else if t = ''float'' then map_option (AFloat32 \<circ> narrow) (coerceFloat64 raw)
               else if t = ''double'' then map_option AFloat64 (coerceFloat64 raw)
               else if t = ''string'' then map_option AStr (coerceString raw)
               else None)
      in case v of
           Some x \<Rightarrow> Inr x
         | None \<Rightarrow> Inl (ErrMsg (''partition value '' @ sprintv raw @ '' ('' @ go_type raw @ '') for field '' @ pcol_name c @
             '' is not a valid '' @ t)))"

fun encoder_record :: "(string, any) gomap \<Rightarrow> partition_column list \<Rightarrow> (string, any) gomap \<Rightarrow> (string, any) gomap res" where
  "encoder_record vals [] out = Inr out"
| "encoder_record vals (c # cols) out =
     (case map_of vals (pcol_name c) of
        None \<Rightarrow> encoder_record vals cols (map_put (pcol_name c) ANil out)
      | Some raw \<Rightarrow>
          if raw = ANil then encoder_record vals cols (map_put (pcol_name c) ANil out)
          else bind_res (coercePartitionValue c raw) (\<lambda>v. encoder_record vals cols (map_put (pcol_name c) v out)))"

section \<open>Container files\<close>

definition first_error :: "('a \<Rightarrow> gerr option) \<Rightarrow> 'a list \<Rightarrow> gerr option" where
  "first_error f xs = (case List.map_filter f xs of [] \<Rightarrow> None | e # _ \<Rightarrow> Some e)"

definition writeAvroContainer :: "ice_libs \<Rightarrow> json \<Rightarrow> (string, string) gomap \<Rightarrow> (string, any) gomap list \<Rightarrow> string res" where
  "writeAvroContainer lib schema meta records =
     (case lib_ocf_new lib schema meta of
        Some e \<Rightarrow> Inl (ErrWrap ''failed to open the avro writer'' e)
      | None \<Rightarrow>
          (case first_error (lib_ocf_encode lib schema) records of
             Some e \<Rightarrow> Inl (ErrWrap ''failed to encode an avro record'' e)
           | None \<Rightarrow> wrap_res ''failed to finish the avro container'' (lib_ocf_close lib schema meta records)))"

definition readAvroContainer :: "ice_libs \<Rightarrow> string \<Rightarrow> (string, any) gomap list res" where
  "readAvroContainer lib bytes =
     bind_res (wrap_res ''failed to open the avro container'' (lib_ocf_open lib bytes)) (\<lambda>(reads, final).
     bind_res (map_res (wrap_res ''failed to decode an avro record'') reads) (\<lambda>records.
       case final of Some e \<Rightarrow> Inl (ErrWrap ''failed to read the avro container'' e) | None \<Rightarrow> Inr records))"

section \<open>Writing\<close>

definition optionalInt64 :: "int option \<Rightarrow> any" where
  "optionalInt64 v = (case v of None \<Rightarrow> ANil | Some i \<Rightarrow> AInt64 i)"

definition key_records :: "('a \<Rightarrow> any) \<Rightarrow> (int, 'a) gomap \<Rightarrow> any" where
  "key_records enc m =
     (if m = [] then ANil
      else AList (map (\<lambda>kv. AMap [(''key'', AInt (fst kv)), (''value'', enc (snd kv))]) (sort_key fst m)))"

definition int64KVRecords :: "(int, int) gomap \<Rightarrow> any" where
  "int64KVRecords = key_records AInt64"

definition bytesKVRecords :: "(int, string) gomap \<Rightarrow> any" where
  "bytesKVRecords = key_records ABytes"

definition data_file_record :: "manifest_data_file \<Rightarrow> (string, any) gomap \<Rightarrow> any" where
  "data_file_record df part =
     AMap
       [(''content'', AInt (mdf_Content df)),
        (''file_path'', AStr (mdf_FilePath df)),
        (''file_format'', AStr (mdf_FileFormat df)),
        (''partition'', AMap part),
        (''record_count'', AInt64 (mdf_RecordCount df)),
        (''file_size_in_bytes'', AInt64 (mdf_FileSizeInBytes df)),
        (''column_sizes'', int64KVRecords (mdf_ColumnSizes df)),
        (''value_counts'', int64KVRecords (mdf_ValueCounts df)),
        (''null_value_counts'', int64KVRecords (mdf_NullValueCounts df)),
        (''nan_value_counts'', int64KVRecords (mdf_NanValueCounts df)),
        (''lower_bounds'', bytesKVRecords (mdf_LowerBounds df)),
        (''upper_bounds'', bytesKVRecords (mdf_UpperBounds df)),
        (''key_metadata'', ANil),
        (''split_offsets'', ANil),
        (''equality_ids'', ANil),
        (''sort_order_id'', ANil)]"

definition manifestEntryRecord :: "partition_column list \<Rightarrow> ice_manifest_entry \<Rightarrow> (string, any) gomap res" where
  "manifestEntryRecord cols entry =
     (case ime_DataFile entry of
        None \<Rightarrow> Inl (ErrMsg (''the manifest entry for snapshot '' @ formatInt (ime_SnapshotID entry) @ '' carries no data file''))
      | Some df \<Rightarrow>
          bind_res (encoder_record (mdf_Partition df) cols []) (\<lambda>part.
            Inr [(''status'', AInt (ime_Status entry)),
                 (''snapshot_id'', AInt64 (ime_SnapshotID entry)),
                 (''sequence_number'', optionalInt64 (ime_SequenceNumber entry)),
                 (''file_sequence_number'', optionalInt64 (ime_FileSequenceNumber entry)),
                 (''data_file'', data_file_record df part)]))"

definition manifestMetadata :: "ice_schema \<Rightarrow> ice_spec option \<Rightarrow> int \<Rightarrow> (string, string) gomap" where
  "manifestMetadata tableSchema spec formatVersion =
     [(''schema'', json_print (enc_ice_schema tableSchema)),
      (''schema-id'', formatInt (is_SchemaID tableSchema)),
      (''partition-spec'', json_print (JArr (case spec of None \<Rightarrow> [] | Some s \<Rightarrow> map (enc_pointer enc_ice_partition_field) (spec_Fields s)))),
      (''partition-spec-id'', formatInt (case spec of None \<Rightarrow> 0 | Some s \<Rightarrow> spec_ID s)),
      (''format-version'', formatInt formatVersion),
      (''content'', ''data'')]"

definition writeManifest :: "ice_libs \<Rightarrow> ice_manifest_entry list \<Rightarrow> ice_schema option \<Rightarrow> ice_spec option \<Rightarrow> int \<Rightarrow> string res" where
  "writeManifest lib entries tableSchema spec formatVersion =
     (case tableSchema of
        None \<Rightarrow> Inl (ErrMsg ''an iceberg manifest cannot be written without a schema'')
      | Some s \<Rightarrow>
          bind_res (newPartitionEncoder spec tableSchema) (\<lambda>cols.
          bind_res (map_res (manifestEntryRecord cols) entries) (\<lambda>records.
            writeAvroContainer lib (manifestEntrySchemaTemplate (encoder_schemaJSON cols)) (manifestMetadata s spec formatVersion) records)))"

definition manifest_list_record :: "manifest_list_entry \<Rightarrow> (string, any) gomap" where
  "manifest_list_record e =
     [(''manifest_path'', AStr (mle_ManifestPath e)),
      (''manifest_length'', AInt64 (mle_ManifestLength e)),
      (''partition_spec_id'', AInt (mle_PartitionSpecID e)),
      (''content'', AInt (mle_Content e)),
      (''sequence_number'', AInt64 (mle_SequenceNumber e)),
      (''min_sequence_number'', AInt64 (mle_MinSequenceNumber e)),
      (''added_snapshot_id'', AInt64 (mle_AddedSnapshotID e)),
      (''added_files_count'', AInt (mle_AddedFilesCount e)),
      (''existing_files_count'', AInt (mle_ExistingFilesCount e)),
      (''deleted_files_count'', AInt (mle_DeletedFilesCount e)),
      (''added_rows_count'', AInt64 (mle_AddedRowsCount e)),
      (''existing_rows_count'', AInt64 (mle_ExistingRowsCount e)),
      (''deleted_rows_count'', AInt64 (mle_DeletedRowsCount e)),
      (''partitions'', ANil),
      (''key_metadata'', ANil)]"

definition ice_writeManifestList :: "ice_libs \<Rightarrow> manifest_list_entry list \<Rightarrow> int \<Rightarrow> int option \<Rightarrow> int \<Rightarrow> int \<Rightarrow> string res" where
  "ice_writeManifestList lib entries snapshotID parentSnapshotID sequenceNumber formatVersion =
     writeAvroContainer lib manifestListSchema
       [(''snapshot-id'', formatInt snapshotID),
        (''parent-snapshot-id'', case parentSnapshotID of None \<Rightarrow> ''null'' | Some i \<Rightarrow> formatInt i),
        (''sequence-number'', formatInt sequenceNumber),
        (''format-version'', formatInt formatVersion)]
       (map manifest_list_record entries)"

section \<open>Reading\<close>

definition member :: "(string, any) gomap \<Rightarrow> string \<Rightarrow> any" where
  "member record key = (case map_of record key of None \<Rightarrow> ANil | Some v \<Rightarrow> v)"

definition avroString :: "(string, any) gomap \<Rightarrow> string \<Rightarrow> string" where
  "avroString record key = (case coerceString (member record key) of None \<Rightarrow> '''' | Some s \<Rightarrow> s)"

definition avroInt64 :: "(string, any) gomap \<Rightarrow> string \<Rightarrow> int" where
  "avroInt64 record key = (case coerceInt64 (member record key) of None \<Rightarrow> 0 | Some n \<Rightarrow> n)"

abbreviation avroInt :: "(string, any) gomap \<Rightarrow> string \<Rightarrow> int" where
  "avroInt \<equiv> avroInt64"

definition avroOptionalInt64 :: "(string, any) gomap \<Rightarrow> string \<Rightarrow> int option" where
  "avroOptionalInt64 record key = coerceInt64 (member record key)"

text \<open>A nested record; what is no map is nil.\<close>

definition avroRecord :: "(string, any) gomap \<Rightarrow> string \<Rightarrow> (string, any) gomap option" where
  "avroRecord record key = (case member record key of AMap m \<Rightarrow> Some m | _ \<Rightarrow> None)"

text \<open>An array, possibly in the envelope of its union branch.\<close>

lemma map_of_any_size [termination_simp]: "map_of m k = Some v \<Longrightarrow> size (v :: any) < Suc (size_list (\<lambda>x. Suc (size (snd x))) m)"
  by (induction m) (auto split: if_splits)

fun avroArray :: "any \<Rightarrow> any list" where
  "avroArray (AList xs) = xs"
| "avroArray (AMap m) = (case map_of m ''array'' of Some inner \<Rightarrow> avroArray inner | None \<Rightarrow> [])"
| "avroArray _ = []"

fun key_value :: "(any \<Rightarrow> 'a option) \<Rightarrow> any \<Rightarrow> (int \<times> 'a) option" where
  "key_value dec (AMap entry) =
     Option.bind (coerceInt64 (member entry ''key'')) (\<lambda>i. map_option (Pair i) (dec (member entry ''value'')))"
| "key_value dec _ = None"

definition avro_keyed_values :: "(any \<Rightarrow> 'a option) \<Rightarrow> (string, any) gomap \<Rightarrow> string \<Rightarrow> (int, 'a) gomap" where
  "avro_keyed_values dec record key =
     fold (\<lambda>kv. map_put (fst kv) (snd kv)) (List.map_filter (key_value dec) (avroArray (member record key))) []"

definition avroKVInt64 :: "(string, any) gomap \<Rightarrow> string \<Rightarrow> (int, int) gomap" where
  "avroKVInt64 = avro_keyed_values coerceInt64"

fun only_bytes :: "any \<Rightarrow> string option" where
  "only_bytes (ABytes b) = Some b"
| "only_bytes _ = None"

definition avroKVBytes :: "(string, any) gomap \<Rightarrow> string \<Rightarrow> (int, string) gomap" where
  "avroKVBytes = avro_keyed_values only_bytes"

definition manifest_list_entry_of :: "(string, any) gomap \<Rightarrow> manifest_list_entry res" where
  "manifest_list_entry_of r =
     (let path = avroString r ''manifest_path'' in
      if path = '''' then Inl (ErrMsg ''a manifest list entry carries no manifest path'')
      else
        Inr \<lparr>mle_ManifestPath = path, mle_ManifestLength = avroInt64 r ''manifest_length'',
             mle_PartitionSpecID = avroInt r ''partition_spec_id'', mle_Content = avroInt r ''content'',
             mle_SequenceNumber = avroInt64 r ''sequence_number'', mle_MinSequenceNumber = avroInt64 r ''min_sequence_number'',
             mle_AddedSnapshotID = avroInt64 r ''added_snapshot_id'', mle_AddedFilesCount = avroInt r ''added_files_count'',
             mle_ExistingFilesCount = avroInt r ''existing_files_count'', mle_DeletedFilesCount = avroInt r ''deleted_files_count'',
             mle_AddedRowsCount = avroInt64 r ''added_rows_count'', mle_ExistingRowsCount = avroInt64 r ''existing_rows_count'',
             mle_DeletedRowsCount = avroInt64 r ''deleted_rows_count''\<rparr>)"

definition ice_readManifestList :: "ice_libs \<Rightarrow> string \<Rightarrow> manifest_list_entry list res" where
  "ice_readManifestList lib bytes = bind_res (readAvroContainer lib bytes) (map_res manifest_list_entry_of)"

definition data_file_read :: "(string, any) gomap \<Rightarrow> manifest_data_file" where
  "data_file_read df =
     \<lparr>mdf_Content = avroInt df ''content'', mdf_FilePath = avroString df ''file_path'',
      mdf_FileFormat = avroString df ''file_format'',
      mdf_Partition = (case avroRecord df ''partition'' of None \<Rightarrow> [] | Some m \<Rightarrow> m),
      mdf_RecordCount = avroInt64 df ''record_count'', mdf_FileSizeInBytes = avroInt64 df ''file_size_in_bytes'',
      mdf_ColumnSizes = avroKVInt64 df ''column_sizes'', mdf_ValueCounts = avroKVInt64 df ''value_counts'',
      mdf_NullValueCounts = avroKVInt64 df ''null_value_counts'', mdf_NanValueCounts = avroKVInt64 df ''nan_value_counts'',
      mdf_LowerBounds = avroKVBytes df ''lower_bounds'', mdf_UpperBounds = avroKVBytes df ''upper_bounds''\<rparr>"

definition manifest_entry_read :: "(string, any) gomap \<Rightarrow> ice_manifest_entry res" where
  "manifest_entry_read r =
     (case avroRecord r ''data_file'' of
        None \<Rightarrow> Inl (ErrMsg ''a manifest entry carries no data file'')
      | Some df \<Rightarrow>
          Inr \<lparr>ime_Status = avroInt r ''status'', ime_SnapshotID = avroInt64 r ''snapshot_id'',
               ime_SequenceNumber = avroOptionalInt64 r ''sequence_number'',
               ime_FileSequenceNumber = avroOptionalInt64 r ''file_sequence_number'',
               ime_DataFile = Some (data_file_read df)\<rparr>)"

definition readManifest :: "ice_libs \<Rightarrow> string \<Rightarrow> ice_manifest_entry list res" where
  "readManifest lib bytes = bind_res (readAvroContainer lib bytes) (map_res manifest_entry_read)"

end
