(* ===== verification/Iceberg_Source.thy ===== *)
theory Iceberg_Source
  imports Iceberg_Manifest Storage_Memory Model_Diff
begin

text \<open>
  \<^verbatim>\<open>pkg/formats/iceberg/source.go\<close>: metadata files, tables, snapshots and the history of an Iceberg table. A nil pointer
  in a list of the metadata is a panic where the code dereferences it. The walk along parent links may not end, so it
  is a partial function whose value None is a walk that does not return.
\<close>

definition maxReadableFormatVersion :: int where "maxReadableFormatVersion = 2"

record ice_source =
  isr_storage :: mem_storage
  isr_basePath :: string

definition ice_NewSource :: "mem_storage \<Rightarrow> string \<Rightarrow> ice_source" where
  "ice_NewSource storage basePath = \<lparr>isr_storage = storage, isr_basePath = basePath\<rparr>"

section \<open>Metadata files\<close>

definition version_number :: "string \<Rightarrow> int option" where
  "version_number digits = (case parseInt digits of None \<Rightarrow> None | Some v \<Rightarrow> if v \<ge> 0 then Some v else None)"

definition MetadataFileVersion :: "string \<Rightarrow> int option" where
  "MetadataFileVersion fileName =
     (let stem = trimSuffix fileName ''.metadata.json'' in
      if \<not> hasSuffix fileName ''.metadata.json'' \<or> stem = '''' then None
      else if hasPrefix stem ''v'' then version_number (trimPrefix stem ''v'')
      else version_number (case cutStr stem ''-'' of None \<Rightarrow> stem | Some (digits, _) \<Rightarrow> digits))"

text \<open>One listed file: of two with the same version the lexically last path is kept.\<close>

definition note_metadata :: "int list \<times> (int, string) gomap \<Rightarrow> file_info \<Rightarrow> int list \<times> (int, string) gomap" where
  "note_metadata st f =
     (case st of
        (versions, paths) \<Rightarrow>
          (case MetadataFileVersion (filepath_Base (InfoPath f)) of
             None \<Rightarrow> st
           | Some v \<Rightarrow>
               (case map_of paths v of
                  Some existing \<Rightarrow> if InfoPath f \<le> existing then st else (versions, map_put v (InfoPath f) paths)
                | None \<Rightarrow> (versions @ [v], map_put v (InfoPath f) paths))))"

definition listMetadataFiles :: "ice_source \<Rightarrow> int list \<times> (int, string) gomap" where
  "listMetadataFiles s =
     (case foldl note_metadata ([], []) (mem_List (isr_storage s) (JoinPath (isr_basePath s) [''metadata''])) of
        (versions, paths) \<Rightarrow> (sort versions, paths))"

definition readMetadata :: "ice_source \<Rightarrow> string \<Rightarrow> ice_metadata res" where
  "readMetadata s filePath =
     bind_res (wrap_res (''failed to read iceberg metadata '' @ filePath) (mem_Read (isr_storage s) filePath)) (\<lambda>data.
     case Option.bind (json_unmarshal data) dec_ice_metadata of
       None \<Rightarrow> Inl (ErrMsg ''failed to parse iceberg metadata JSON'')
     | Some meta \<Rightarrow>
         if im_FormatVersion meta < 1 then
           Inl (ErrMsg (''iceberg metadata '' @ filePath @ '': format-version '' @ formatInt (im_FormatVersion meta) @
             '' is missing or invalid (must be >= 1)''))
         else if im_FormatVersion meta > maxReadableFormatVersion then
           Inl (ErrMsg (''iceberg metadata '' @ filePath @ '': format-version '' @ formatInt (im_FormatVersion meta) @
             '' exceeds the highest version this reader supports ('' @ formatInt maxReadableFormatVersion @ '')''))
         else Inr meta)"

text \<open>The path of the latest version; a map read at a missing key gives the empty path.\<close>

definition path_at :: "(int, string) gomap \<Rightarrow> int \<Rightarrow> string" where
  "path_at paths v = (case map_of paths v of None \<Rightarrow> '''' | Some p \<Rightarrow> p)"

definition no_metadata :: "ice_source \<Rightarrow> gerr" where
  "no_metadata s = ErrMsg (''no iceberg metadata files found in '' @ isr_basePath s)"

definition latest_metadata :: "ice_source \<Rightarrow> (int \<times> ice_metadata) res" where
  "latest_metadata s =
     (case listMetadataFiles s of
        (versions, paths) \<Rightarrow>
          if versions = [] then Inl (no_metadata s)
          else bind_res (readMetadata s (path_at paths (last versions))) (\<lambda>meta. Inr (last versions, meta)))"

section \<open>Tables\<close>

text \<open>A loop that stops at the first element with a property; a nil element before it is dereferenced.\<close>

fun find_ptr :: "('a \<Rightarrow> bool) \<Rightarrow> 'a option list \<Rightarrow> 'a option res" where
  "find_ptr P [] = Inr None"
| "find_ptr P (None # xs) = Inl nil_panic"
| "find_ptr P (Some x # xs) = (if P x then Inr (Some x) else find_ptr P xs)"

definition spec_partition_field :: "schema \<Rightarrow> ice_partition_field option \<Rightarrow> partition_field res" where
  "spec_partition_field readSchema p =
     (case p of
        None \<Rightarrow> Inl nil_panic
      | Some pf \<Rightarrow>
          Inr (mkPartitionField
            (case FieldByPath (Some readSchema) (ipf_Name pf) of
               Some f \<Rightarrow> f
             | None \<Rightarrow> mkField (ipf_Name pf) (Some (NewPrimitiveSchema TypeString True)))))"

definition resolveSchemaAndPartitions :: "ice_metadata \<Rightarrow> int \<Rightarrow> (schema \<times> partition_field list) res" where
  "resolveSchemaAndPartitions meta schemaID =
     bind_res (find_ptr (\<lambda>sc. is_SchemaID sc = schemaID) (im_Schemas meta)) (\<lambda>found.
     let active = (case found of Some sc \<Rightarrow> Some sc | None \<Rightarrow> (case im_Schemas meta of [] \<Rightarrow> None | sc # _ \<Rightarrow> sc)) in
     case active of
       None \<Rightarrow> Inl (ErrMsg ''no schema found'')
     | Some sc \<Rightarrow>
         bind_res (wrap_res ''failed to convert iceberg schema'' (IcebergToSchema (Some sc))) (\<lambda>readSchema.
         bind_res (find_ptr (\<lambda>ps. spec_ID ps = im_DefaultSpecID meta) (im_PartitionSpecs meta)) (\<lambda>spec.
         bind_res
           (case spec of None \<Rightarrow> Inr [] | Some ps \<Rightarrow> map_res (spec_partition_field readSchema) (spec_Fields ps))
           (\<lambda>pfs. Inr (readSchema, pfs)))))"

definition ice_table :: "ice_source \<Rightarrow> schema \<times> partition_field list \<Rightarrow> int \<Rightarrow> table" where
  "ice_table s resolved commitTime =
     \<lparr>TableName = filepath_Base (isr_basePath s), TableFormat = TableFormatIceberg, ReadSchema = Some (fst resolved),
      LayoutStrategy = LayoutUnset, BasePath = isr_basePath s, DataPath = '''', PartitioningFields = snd resolved,
      LatestCommitTime = commitTime, LatestMetadataPath = ''''\<rparr>"

definition ice_GetTable :: "ice_source \<Rightarrow> string \<Rightarrow> table res" where
  "ice_GetTable s commitID =
     (case parseInt commitID of
        None \<Rightarrow> Inl (ErrMsg (''invalid iceberg metadata version '' @ commitID))
      | Some ver \<Rightarrow>
          (case map_of (snd (listMetadataFiles s)) ver of
             None \<Rightarrow> Inl (ErrMsg (''no iceberg metadata file for version '' @ formatInt ver @ '' in '' @ isr_basePath s))
           | Some path \<Rightarrow>
               bind_res (readMetadata s path) (\<lambda>meta.
               bind_res (wrap_res (''iceberg metadata v'' @ formatInt ver) (resolveSchemaAndPartitions meta (im_CurrentSchemaID meta))) (\<lambda>resolved.
               Inr (ice_table s resolved (im_LastUpdatedMs meta))))))"

definition ice_GetCurrentTable :: "ice_source \<Rightarrow> table res" where
  "ice_GetCurrentTable s =
     (case fst (listMetadataFiles s) of
        [] \<Rightarrow> Inl (no_metadata s)
      | versions \<Rightarrow> ice_GetTable s (formatInt (last versions)))"

definition tableAsOfSnapshot :: "ice_source \<Rightarrow> ice_metadata \<Rightarrow> ice_snapshot \<Rightarrow> table res" where
  "tableAsOfSnapshot s meta snap =
     bind_res
       (wrap_res (''iceberg snapshot '' @ formatInt (isn_SnapshotID snap))
         (resolveSchemaAndPartitions meta (case isn_SchemaID snap of None \<Rightarrow> im_CurrentSchemaID meta | Some i \<Rightarrow> i)))
       (\<lambda>resolved. Inr (ice_table s resolved (isn_TimestampMs snap)))"

section \<open>Files\<close>

definition read_partition_value :: "(string, any) gomap \<Rightarrow> partition_field \<Rightarrow> partition_value option res" where
  "read_partition_value partition_record pf =
     (case SourceField pf of
        None \<Rightarrow> Inl nil_panic
      | Some f \<Rightarrow>
          Inr (case map_of partition_record (FieldName f) of
                 None \<Rightarrow> None
               | Some v \<Rightarrow> Some \<lparr>PVField = Some pf, PVRange = Some (NewScalarRange v)\<rparr>))"

definition convertManifestDataFile :: "ice_libs \<Rightarrow> manifest_data_file \<Rightarrow> table \<Rightarrow> data_file res" where
  "convertManifestDataFile lib mdf tbl =
     bind_res
       (if mdf_Partition mdf = [] then Inr [] else map_res (read_partition_value (mdf_Partition mdf)) (PartitioningFields tbl))
       (\<lambda>pvs. Inr
          \<lparr>PhysicalPath = mdf_FilePath mdf, FileFormat = modelFileFormat (mdf_FileFormat mdf),
           FileSizeBytes = mdf_FileSizeInBytes mdf, RecordCount = mdf_RecordCount mdf,
           PartitionValues = List.map_filter (\<lambda>p. p) pvs,
           ColumnStats = columnStatsFromManifest lib mdf (ReadSchema tbl), LastModified = 0, DeletionVector = None\<rparr>)"

text \<open>The data file of an entry that is live, if it is one of data.\<close>

definition live_data_file :: "ice_manifest_entry \<Rightarrow> manifest_data_file option" where
  "live_data_file e =
     (if ime_Status e = manifestStatusDeleted then None
      else (case ime_DataFile e of None \<Rightarrow> None | Some mdf \<Rightarrow> if mdf_Content mdf \<noteq> contentData then None else Some mdf))"

definition manifest_data_files :: "ice_libs \<Rightarrow> ice_source \<Rightarrow> table \<Rightarrow> manifest_list_entry \<Rightarrow> data_file list res" where
  "manifest_data_files lib s tbl mle =
     (if mle_Content mle \<noteq> contentData then Inr []
      else
        bind_res (wrap_res (''failed to read manifest '' @ mle_ManifestPath mle) (mem_Read (isr_storage s) (mle_ManifestPath mle))) (\<lambda>data.
        bind_res (wrap_res (''failed to parse manifest '' @ mle_ManifestPath mle) (readManifest lib data)) (\<lambda>entries.
        map_res (\<lambda>mdf. convertManifestDataFile lib mdf tbl) (List.map_filter live_data_file entries))))"

definition dataFilesForSnapshot :: "ice_libs \<Rightarrow> ice_source \<Rightarrow> ice_snapshot \<Rightarrow> table \<Rightarrow> data_file list res" where
  "dataFilesForSnapshot lib s snap tbl =
     bind_res (wrap_res (''failed to read iceberg manifest list '' @ isn_ManifestList snap) (mem_Read (isr_storage s) (isn_ManifestList snap))) (\<lambda>data.
     bind_res (wrap_res (''failed to parse iceberg manifest list '' @ isn_ManifestList snap) (ice_readManifestList lib data)) (\<lambda>manifests.
     bind_res (map_res (manifest_data_files lib s tbl) manifests) (\<lambda>files. Inr (concat files))))"

section \<open>Snapshots\<close>

definition current_snapshot :: "ice_metadata \<Rightarrow> int \<Rightarrow> ice_snapshot res" where
  "current_snapshot meta i =
     bind_res (find_ptr (\<lambda>snap. isn_SnapshotID snap = i) (im_Snapshots meta)) (\<lambda>found.
     case found of
       Some snap \<Rightarrow> Inr snap
     | None \<Rightarrow> (case last (im_Snapshots meta) of None \<Rightarrow> Inl nil_panic | Some snap \<Rightarrow> Inr snap))"

definition ice_GetCurrentSnapshot :: "ice_libs \<Rightarrow> ice_source \<Rightarrow> snapshot res" where
  "ice_GetCurrentSnapshot lib s =
     bind_res (latest_metadata s) (\<lambda>(latestVer, meta).
     bind_res (ice_GetTable s (formatInt latestVer)) (\<lambda>tbl.
     if im_CurrentSnapshotID meta = None \<or> im_Snapshots meta = [] then
       Inr \<lparr>SnapTable = tbl, PartitionedDataFiles = [], DataFiles = [], SnapSourceIdentifier = formatInt latestVer\<rparr>
     else
       bind_res (current_snapshot meta (the (im_CurrentSnapshotID meta))) (\<lambda>snap.
       bind_res (dataFilesForSnapshot lib s snap tbl) (\<lambda>files.
       Inr \<lparr>SnapTable = tbl, PartitionedDataFiles = [], DataFiles = files, SnapSourceIdentifier = formatInt (isn_SnapshotID snap)\<rparr>))))"

definition snapshotsByID :: "ice_metadata \<Rightarrow> (int, ice_snapshot) gomap res" where
  "snapshotsByID meta =
     (if None \<in> set (im_Snapshots meta) then Inl nil_panic
      else Inr (foldl (\<lambda>byID snap. map_put (isn_SnapshotID snap) snap byID) [] (map the (im_Snapshots meta))))"

section \<open>Changes\<close>

definition parent_files ::
  "ice_libs \<Rightarrow> ice_source \<Rightarrow> ice_metadata \<Rightarrow> (int, ice_snapshot) gomap \<Rightarrow> ice_snapshot \<Rightarrow> data_file list res" where
  "parent_files lib s meta byID snap =
     (case isn_ParentSnapshotID snap of
        None \<Rightarrow> Inr []
      | Some p \<Rightarrow>
          (case map_of byID p of
             None \<Rightarrow> Inl (ErrMsg (''iceberg snapshot '' @ formatInt (isn_SnapshotID snap) @ [char_of (39 :: nat)] @ ''s parent '' @ formatInt p @
               '' has been expired out of table metadata; its diff cannot be computed and a full snapshot sync is required to recover''))
           | Some parent \<Rightarrow> bind_res (tableAsOfSnapshot s meta parent) (dataFilesForSnapshot lib s parent)))"

definition changeForSnapshot ::
  "ice_libs \<Rightarrow> ice_source \<Rightarrow> ice_metadata \<Rightarrow> (int, ice_snapshot) gomap \<Rightarrow> ice_snapshot \<Rightarrow> table_change res" where
  "changeForSnapshot lib s meta byID snap =
     bind_res (tableAsOfSnapshot s meta snap) (\<lambda>tbl.
     bind_res (dataFilesForSnapshot lib s snap tbl) (\<lambda>newFiles.
     bind_res (parent_files lib s meta byID snap) (\<lambda>oldFiles.
     Inr \<lparr>FilesDiff = DiffFiles oldFiles newFiles, TableAsOfChange = tbl,
          ChangeSourceIdentifier = formatInt (isn_SnapshotID snap), CommitTime = isn_TimestampMs snap\<rparr>)))"

definition ice_GetTableChangeForCommit :: "ice_libs \<Rightarrow> ice_source \<Rightarrow> string \<Rightarrow> table_change res" where
  "ice_GetTableChangeForCommit lib s commitID =
     (case parseInt commitID of
        None \<Rightarrow> Inl (ErrMsg (''invalid iceberg snapshot id '' @ commitID))
      | Some snapID \<Rightarrow>
          bind_res (latest_metadata s) (\<lambda>(_, meta).
          bind_res (snapshotsByID meta) (\<lambda>byID.
          case map_of byID snapID of
            None \<Rightarrow> Inl (ErrMsg (''iceberg snapshot '' @ formatInt snapID @ '' not found in table metadata of '' @ isr_basePath s))
          | Some snap \<Rightarrow> changeForSnapshot lib s meta byID snap)))"

definition ice_advanceCommitTime :: "int \<Rightarrow> int \<Rightarrow> int" where
  "ice_advanceCommitTime previous raw = (if raw > previous then raw else wrap64 (previous + 1))"

text \<open>The snapshots from one back to the table's first or to the oldest that is retained, newest first.\<close>

partial_function (option) walk_parents :: "(int, ice_snapshot) gomap \<Rightarrow> ice_snapshot \<Rightarrow> ice_snapshot list option" where
  "walk_parents byID cursor =
     (case Option.bind (isn_ParentSnapshotID cursor) (map_of byID) of
        None \<Rightarrow> Some [cursor]
      | Some parent \<Rightarrow> Option.bind (walk_parents byID parent) (\<lambda>older. Some (cursor # older)))"

definition expired_error :: "ice_source \<Rightarrow> ice_snapshot \<Rightarrow> int \<Rightarrow> int \<Rightarrow> gerr" where
  "expired_error s oldest p fromInstant =
     ErrMsg (''iceberg snapshot '' @ formatInt (isn_SnapshotID oldest) @ [char_of (39 :: nat)] @ ''s parent '' @ formatInt p @
       '' has been expired out of table metadata of '' @ isr_basePath s @ '', and '' @ formatInt (isn_SnapshotID oldest) @
       '' (the oldest snapshot still retained) was committed after fromInstant='' @ formatInt fromInstant @
       '': the requested incremental range is not fully covered by retained history; a full snapshot sync is required to recover'')"

fun changes_after ::
  "(ice_snapshot \<Rightarrow> table_change res) \<Rightarrow> int \<Rightarrow> int \<Rightarrow> ice_snapshot list \<Rightarrow> table_change list res" where
  "changes_after change fromInstant lastInstant [] = Inr []"
| "changes_after change fromInstant lastInstant (snap # snaps) =
     (let lastInstant = ice_advanceCommitTime lastInstant (isn_TimestampMs snap) in
      if lastInstant \<le> fromInstant then changes_after change fromInstant lastInstant snaps
      else
        bind_res (change snap) (\<lambda>c.
        bind_res (changes_after change fromInstant lastInstant snaps) (\<lambda>cs.
        Inr (c\<lparr>CommitTime := lastInstant\<rparr> # cs))))"

definition history_changes ::
  "ice_libs \<Rightarrow> ice_source \<Rightarrow> ice_metadata \<Rightarrow> (int, ice_snapshot) gomap \<Rightarrow> int \<Rightarrow> ice_snapshot list \<Rightarrow> table_change list res" where
  "history_changes lib s meta byID fromInstant newestFirst =
     (let oldest = last newestFirst in
      case isn_ParentSnapshotID oldest of
        Some p \<Rightarrow>
          if map_of byID p = None \<and> isn_TimestampMs oldest > fromInstant then Inl (expired_error s oldest p fromInstant)
          else changes_after (changeForSnapshot lib s meta byID) fromInstant 0 (rev newestFirst)
      | None \<Rightarrow> changes_after (changeForSnapshot lib s meta byID) fromInstant 0 (rev newestFirst))"

text \<open>None: the walk along the parents does not return.\<close>

definition ice_GetChangesSince :: "ice_libs \<Rightarrow> ice_source \<Rightarrow> int \<Rightarrow> incremental_changes res option" where
  "ice_GetChangesSince lib s fromInstant =
     (case bind_res (latest_metadata s) (\<lambda>(latestVer, meta). bind_res (ice_GetTable s (formatInt latestVer)) (\<lambda>tbl. Inr (meta, tbl))) of
        Inl e \<Rightarrow> Some (Inl e)
      | Inr (meta, tbl) \<Rightarrow>
          (case im_CurrentSnapshotID meta of
             None \<Rightarrow> Some (Inr \<lparr>TableChanges = [], CurrentTable = tbl\<rparr>)
           | Some i \<Rightarrow>
               (case snapshotsByID meta of
                  Inl e \<Rightarrow> Some (Inl e)
                | Inr byID \<Rightarrow>
                    (case map_of byID i of
                       None \<Rightarrow> Some (Inl (ErrMsg (''iceberg current snapshot '' @ formatInt i @ '' is not present in table metadata of '' @ isr_basePath s)))
                     | Some snap \<Rightarrow>
                         map_option (\<lambda>newestFirst.
                             bind_res (history_changes lib s meta byID fromInstant newestFirst) (\<lambda>changes.
                             Inr \<lparr>TableChanges = changes, CurrentTable = tbl\<rparr>))
                           (walk_parents byID snap)))))"

definition ice_IsIncrementalSyncSafeFrom :: "ice_source \<Rightarrow> int \<Rightarrow> bool res" where
  "ice_IsIncrementalSyncSafeFrom s earliestInstant =
     (if fst (listMetadataFiles s) = [] then Inr False
      else
        bind_res (latest_metadata s) (\<lambda>(_, meta).
        if im_Snapshots meta = [] then Inr False
        else if None \<in> set (im_Snapshots meta) then Inl nil_panic
        else
          (case map (isn_TimestampMs \<circ> the) (im_Snapshots meta) of
             first # rest \<Rightarrow> Inr (foldl (\<lambda>oldest t. if t < oldest then t else oldest) first rest \<le> earliestInstant)
           | [] \<Rightarrow> Inr False)))"

end
