(* ===== verification/Iceberg_Target.thy ===== *)
theory Iceberg_Target
  imports Iceberg_Source Model_Sync_Metadata Model_Json
begin

text \<open>
  \<^verbatim>\<open>pkg/formats/iceberg/target.go\<close>: commits into an Iceberg table. The clock and the identifiers a commit draws
  (\<^verbatim>\<open>time.Now\<close>, \<^verbatim>\<open>uuid.New\<close>) are a parameter of each commit; the modification times of the storage are not read back.
\<close>

definition icebergFormatVersion :: int where "icebergFormatVersion = 2"

record ice_target =
  it_storage :: mem_storage
  it_targetTable :: "table option"

record ice_stamp =
  ist_millis :: int
  ist_manifest :: string
  ist_list :: string
  ist_table :: string

definition ice_NewTarget :: "mem_storage \<Rightarrow> ice_target" where
  "ice_NewTarget storage = \<lparr>it_storage = storage, it_targetTable = None\<rparr>"

definition ice_Init :: "ice_target \<Rightarrow> table \<Rightarrow> ice_target" where
  "ice_Init t targetTable = t\<lparr>it_targetTable := Some targetTable\<rparr>"

text \<open>The source that \<^verbatim>\<open>Init\<close> makes shares the storage of the target.\<close>

definition ice_target_source :: "ice_target \<Rightarrow> ice_source option" where
  "ice_target_source t = map_option (\<lambda>tbl. ice_NewSource (it_storage t) (BasePath tbl)) (it_targetTable t)"

definition ice_GetTableMetadata :: "ice_target \<Rightarrow> sync_metadata option res" where
  "ice_GetTableMetadata t =
     (case ice_target_source t of
        None \<Rightarrow> Inr None
      | Some src \<Rightarrow>
          (case listMetadataFiles src of
             (versions, paths) \<Rightarrow>
               if versions = [] then Inr None
               else
                 bind_res (readMetadata src (path_at paths (last versions))) (\<lambda>meta.
                 Inr (map_option (\<lambda>md. md\<lparr>TargetFormat := TableFormatIceberg, CustomProperties := im_Properties meta\<rparr>)
                   (ReadSyncMetadataFromProperties (im_Properties meta))))))"

section \<open>The previous commit\<close>

definition schemaByID :: "ice_schema option list \<Rightarrow> int \<Rightarrow> ice_schema option" where
  "schemaByID schemas i =
     (case List.find (\<lambda>s. case s of None \<Rightarrow> False | Some sc \<Rightarrow> is_SchemaID sc = i) schemas of
        Some s \<Rightarrow> s
      | None \<Rightarrow> if schemas = [] then None else last schemas)"

text \<open>The next version and the metadata the commit follows.\<close>

definition previous_commit :: "ice_source \<Rightarrow> (int \<times> ice_metadata option) res" where
  "previous_commit src =
     (case listMetadataFiles src of
        (versions, paths) \<Rightarrow>
          if versions = [] then Inr (1, None)
          else
            bind_res (wrap_res ''failed to read existing iceberg metadata before committing a snapshot''
              (readMetadata src (path_at paths (last versions)))) (\<lambda>meta.
            Inr (wrap64 (last versions + 1), Some meta)))"

definition new_snapshot_id :: "int \<Rightarrow> ice_metadata option \<Rightarrow> int res" where
  "new_snapshot_id now prev =
     (case prev of
        None \<Rightarrow> Inr now
      | Some m \<Rightarrow>
          if None \<in> set (im_Snapshots m) then Inl nil_panic
          else Inr (foldl (\<lambda>i s. if isn_SnapshotID s \<ge> i then wrap64 (isn_SnapshotID s + 1) else i) now (map the (im_Snapshots m))))"

section \<open>Partition columns\<close>

text \<open>The identifier of a column and the fields of the schema, which gains the column when it lacks it.\<close>

definition partition_source ::
  "(string, int) gomap \<Rightarrow> field \<Rightarrow> ice_field list \<Rightarrow> int \<Rightarrow> (int \<times> ice_field list \<times> int) res" where
  "partition_source prevIDs f cols lastColID =
     (let sourceID = (case List.find (\<lambda>nf. nf_Name nf = FieldName f) cols of None \<Rightarrow> 0 | Some nf \<Rightarrow> nf_ID nf) in
      if sourceID \<noteq> 0 then Inr (sourceID, cols, lastColID)
      else
        (let sourceID = (case map_of prevIDs (FieldName f) of Some i \<Rightarrow> i | None \<Rightarrow> wrap64 (lastColID + 1)) in
         bind_res (wrap_res (''failed to type the partition column '' @ FieldName f)
             (convertTypeToIceberg (FieldSchema f) (FieldName f) prevIDs (wrap64 (sourceID + 1)))) (\<lambda>(t, _).
         case t of
           TName _ \<Rightarrow>
             Inr (sourceID, cols @ [IceField sourceID (FieldName f) t False '''' JNull JNull],
                  if sourceID > lastColID then sourceID else lastColID)
         | _ \<Rightarrow> Inl (ErrMsg (''partition column '' @ FieldName f @ '' has a nested type, which cannot be a partition source'')))))"

fun partition_defs ::
  "(string, int) gomap \<Rightarrow> partition_field list \<Rightarrow> int \<Rightarrow> ice_field list \<Rightarrow> int \<Rightarrow>
    (ice_partition_field list \<times> ice_field list \<times> int) res" where
  "partition_defs prevIDs [] idx cols lastColID = Inr ([], cols, lastColID)"
| "partition_defs prevIDs (pf # pfs) idx cols lastColID =
     (case SourceField pf of
        None \<Rightarrow> Inl nil_panic
      | Some f \<Rightarrow>
          if TransformType pf \<noteq> TransformValue then
            Inl (ErrMsg (''iceberg target cannot write the '' @ transform_text (TransformType pf) @ '' partition transform on '' @
              FieldName f @ '': only the identity transform is implemented''))
          else
            bind_res (partition_source prevIDs f cols lastColID) (\<lambda>(sourceID, cols, lastColID).
            bind_res (partition_defs prevIDs pfs (idx + 1) cols lastColID) (\<lambda>(defs, cols, lastColID).
            Inr (\<lparr>ipf_SourceID = sourceID, ipf_FieldID = 1000 + idx, ipf_Name = FieldName f, ipf_Transform = ''identity''\<rparr> # defs,
                 cols, lastColID))))"

section \<open>Manifest entries\<close>

definition put_partition :: "(string, any) gomap \<Rightarrow> partition_value \<Rightarrow> (string, any) gomap" where
  "put_partition m pv =
     (case (Option.bind (PVField pv) SourceField, PVRange pv) of
        (Some f, Some r) \<Rightarrow> map_put (FieldName f) (MinValue r) m
      | _ \<Rightarrow> m)"

definition manifest_file :: "ice_libs \<Rightarrow> ice_field list \<Rightarrow> data_file \<Rightarrow> manifest_data_file" where
  "manifest_file lib cols df =
     columnStatsToManifest lib
       \<lparr>mdf_Content = contentData, mdf_FilePath = PhysicalPath df, mdf_FileFormat = icebergFileFormat (FileFormat df),
        mdf_Partition = foldl put_partition [] (PartitionValues df), mdf_RecordCount = RecordCount df,
        mdf_FileSizeInBytes = FileSizeBytes df, mdf_ColumnSizes = [], mdf_ValueCounts = [], mdf_NullValueCounts = [],
        mdf_NanValueCounts = [], mdf_LowerBounds = [], mdf_UpperBounds = []\<rparr>
       (ColumnStats df) cols"

definition added_entry :: "ice_libs \<Rightarrow> ice_field list \<Rightarrow> int \<Rightarrow> data_file \<Rightarrow> ice_manifest_entry" where
  "added_entry lib cols snapshotID df =
     \<lparr>ime_Status = manifestStatusAdded, ime_SnapshotID = snapshotID, ime_SequenceNumber = None, ime_FileSequenceNumber = None,
      ime_DataFile = Some (manifest_file lib cols df)\<rparr>"

section \<open>A commit\<close>

definition ice_path :: "string \<Rightarrow> string \<Rightarrow> string" where
  "ice_path basePath name = JoinPath basePath [''metadata'', name]"

text \<open>What a commit is made of before anything is written.\<close>

record ice_plan =
  pl_version :: int
  pl_prev :: "ice_metadata option"
  pl_snapshotID :: int
  pl_schemaID :: int
  pl_schema :: ice_schema
  pl_lastColumnID :: int
  pl_defs :: "ice_partition_field list"

definition plan_commit :: "int \<Rightarrow> ice_source \<Rightarrow> table \<Rightarrow> ice_plan res" where
  "plan_commit now src tbl =
     bind_res (previous_commit src) (\<lambda>(version, prev).
     bind_res (new_snapshot_id now prev) (\<lambda>snapshotID.
     let schemaID = (case prev of None \<Rightarrow> 0 | Some m \<Rightarrow> wrap64 (im_CurrentSchemaID m + 1));
         prevSchema = (case prev of None \<Rightarrow> None | Some m \<Rightarrow> schemaByID (im_Schemas m) (im_CurrentSchemaID m));
         prevLast = (case prev of None \<Rightarrow> 0 | Some m \<Rightarrow> im_LastColumnID m)
     in bind_res (wrap_res ''failed to convert schema to iceberg'' (SchemaToIceberg (ReadSchema tbl) schemaID prevSchema prevLast)) (\<lambda>(schema, lastColID).
        bind_res (fieldPathIDs prevSchema) (\<lambda>prevIDs.
        bind_res (partition_defs prevIDs (PartitioningFields tbl) 0 (List.map_filter (\<lambda>f. f) (is_Fields schema)) lastColID) (\<lambda>(defs, cols, lastColID).
        Inr \<lparr>pl_version = version, pl_prev = prev, pl_snapshotID = snapshotID, pl_schemaID = schemaID,
             pl_schema = schema\<lparr>is_Fields := map Some cols\<rparr>, pl_lastColumnID = lastColID, pl_defs = defs\<rparr>)))))"

definition plan_spec :: "ice_plan \<Rightarrow> ice_spec" where
  "plan_spec p = \<lparr>spec_ID = 0, spec_Fields = map Some (pl_defs p)\<rparr>"

definition plan_sequence :: "ice_plan \<Rightarrow> int" where
  "plan_sequence p = (case pl_prev p of None \<Rightarrow> 1 | Some m \<Rightarrow> wrap64 (im_LastSequenceNumber m + 1))"

definition plan_parent :: "ice_plan \<Rightarrow> int option" where
  "plan_parent p = Option.bind (pl_prev p) im_CurrentSnapshotID"

definition plan_entries :: "ice_libs \<Rightarrow> ice_plan \<Rightarrow> data_file list \<Rightarrow> ice_manifest_entry list" where
  "plan_entries lib p = map (added_entry lib (List.map_filter (\<lambda>f. f) (is_Fields (pl_schema p))) (pl_snapshotID p))"

definition list_entry :: "ice_plan \<Rightarrow> string \<Rightarrow> string \<Rightarrow> data_file list \<Rightarrow> manifest_list_entry" where
  "list_entry p manifestPath manifestBytes files =
     \<lparr>mle_ManifestPath = manifestPath, mle_ManifestLength = int (length manifestBytes), mle_PartitionSpecID = 0,
      mle_Content = contentData, mle_SequenceNumber = plan_sequence p, mle_MinSequenceNumber = plan_sequence p,
      mle_AddedSnapshotID = pl_snapshotID p, mle_AddedFilesCount = int (length files), mle_ExistingFilesCount = 0,
      mle_DeletedFilesCount = 0, mle_AddedRowsCount = foldl (\<lambda>n df. wrap64 (n + RecordCount df)) 0 files,
      mle_ExistingRowsCount = 0, mle_DeletedRowsCount = 0\<rparr>"

definition commit_properties :: "ice_plan \<Rightarrow> snapshot \<Rightarrow> (string, string) gomap res" where
  "commit_properties p snap =
     bind_res (NameMappingJSON (Some (pl_schema p))) (\<lambda>nameMapping.
     Inr (map_put NameMappingProperty nameMapping
       (WriteSyncMetadataProperties (case pl_prev p of None \<Rightarrow> [] | Some m \<Rightarrow> im_Properties m)
         \<lparr>LastInstantSynced = LatestCommitTime (SnapTable snap), InstantsToConsiderForNextSync = [],
          SourceFormat = TableFormat (SnapTable snap), TargetFormat = '''', SourceIdentifier = SnapSourceIdentifier snap,
          CustomProperties = []\<rparr>)))"

definition snapshot_record :: "ice_plan \<Rightarrow> int \<Rightarrow> string \<Rightarrow> nat \<Rightarrow> ice_snapshot" where
  "snapshot_record p now listPath n =
     \<lparr>isn_SnapshotID = pl_snapshotID p, isn_ParentSnapshotID = plan_parent p, isn_SequenceNumber = plan_sequence p,
      isn_TimestampMs = now, isn_ManifestList = listPath,
      isn_Summary = [(''operation'', ''replace''), (''added-data-files'', formatInt (int n)), (''total-data-files'', formatInt (int n))],
      isn_SchemaID = Some (pl_schemaID p)\<rparr>"

definition commit_metadata :: "ice_stamp \<Rightarrow> string \<Rightarrow> ice_plan \<Rightarrow> (string, string) gomap \<Rightarrow> ice_snapshot \<Rightarrow> ice_metadata" where
  "commit_metadata stamp basePath p props snap =
     \<lparr>im_FormatVersion = icebergFormatVersion,
      im_TableUUID = (case pl_prev p of None \<Rightarrow> ist_table stamp | Some m \<Rightarrow> if im_TableUUID m \<noteq> '''' then im_TableUUID m else ist_table stamp),
      im_Location = basePath, im_LastSequenceNumber = plan_sequence p, im_LastUpdatedMs = ist_millis stamp,
      im_LastColumnID = pl_lastColumnID p, im_CurrentSchemaID = pl_schemaID p, im_Schemas = [Some (pl_schema p)],
      im_DefaultSpecID = 0, im_PartitionSpecs = [Some (plan_spec p)], im_LastPartitionID = 1000 + int (length (pl_defs p)),
      im_SortOrders = [Some \<lparr>so_OrderID = 0, so_Fields = []\<rparr>], im_DefaultSortOrderID = 0, im_Properties = props,
      im_CurrentSnapshotID = Some (pl_snapshotID p),
      im_Snapshots = (case pl_prev p of None \<Rightarrow> [] | Some m \<Rightarrow> im_Snapshots m) @ [Some snap], im_SnapshotLog = []\<rparr>"

definition ice_put :: "ice_target \<Rightarrow> string \<Rightarrow> string \<Rightarrow> ice_target" where
  "ice_put t path data = t\<lparr>it_storage := mem_Write (it_storage t) path data 0\<rparr>"

definition ice_CommitSnapshot :: "ice_libs \<Rightarrow> ice_stamp \<Rightarrow> ice_target \<Rightarrow> snapshot \<Rightarrow> ice_target \<times> gerr option" where
  "ice_CommitSnapshot lib stamp t snap =
     (case ice_target_source t of
        None \<Rightarrow> (t, Some nil_panic)
      | Some src \<Rightarrow>
     (case plan_commit (ist_millis stamp) src (SnapTable snap) of
        Inl e \<Rightarrow> (t, Some e)
      | Inr p \<Rightarrow>
          (let base = isr_basePath src; files = AllDataFiles snap;
               manifestPath = ice_path base (ist_manifest stamp @ ''-m0.avro'');
               listPath = ice_path base (''snap-'' @ formatInt (pl_snapshotID p) @ ''-0-'' @ ist_list stamp @ ''.avro'')
           in case wrap_res (''failed to encode manifest file '' @ manifestPath)
                (writeManifest lib (plan_entries lib p files) (Some (pl_schema p)) (Some (plan_spec p)) icebergFormatVersion) of
                Inl e \<Rightarrow> (t, Some e)
              | Inr manifestBytes \<Rightarrow>
          (let t = ice_put t manifestPath manifestBytes
           in case wrap_res (''failed to encode manifest list '' @ listPath)
                (ice_writeManifestList lib [list_entry p manifestPath manifestBytes files] (pl_snapshotID p) (plan_parent p)
                  (plan_sequence p) icebergFormatVersion) of
                Inl e \<Rightarrow> (t, Some e)
              | Inr listBytes \<Rightarrow>
          (let t = ice_put t listPath listBytes
           in case commit_properties p snap of
                Inl e \<Rightarrow> (t, Some e)
              | Inr props \<Rightarrow>
          (let meta = commit_metadata stamp base p props (snapshot_record p (ist_millis stamp) listPath (length files));
               t = ice_put t (ice_path base (''v'' @ formatInt (pl_version p) @ ''.metadata.json'')) (json_print (enc_ice_metadata meta))
           in (ice_put t (ice_path base ''version-hint.text'') (formatInt (pl_version p)), None)))))))"

section \<open>Changes\<close>

definition applyFilesDiff :: "data_file list \<Rightarrow> files_diff \<Rightarrow> data_file list" where
  "applyFilesDiff live diff =
     filter (\<lambda>f. PhysicalPath f \<notin> PhysicalPath ` set (FilesRemoved diff)) live @ FilesAdded diff"

definition previousLiveFiles :: "ice_libs \<Rightarrow> ice_source \<Rightarrow> data_file list res" where
  "previousLiveFiles lib src =
     (if fst (listMetadataFiles src) = [] then Inr [] else bind_res (ice_GetCurrentSnapshot lib src) (\<lambda>snap. Inr (DataFiles snap)))"

definition ice_change_snapshot :: "data_file list \<Rightarrow> table_change \<Rightarrow> snapshot" where
  "ice_change_snapshot live change =
     \<lparr>SnapTable = TableAsOfChange change, PartitionedDataFiles = [], DataFiles = applyFilesDiff live (FilesDiff change),
      SnapSourceIdentifier = ChangeSourceIdentifier change\<rparr>"

fun ice_commit_changes :: "ice_libs \<Rightarrow> (nat \<Rightarrow> ice_stamp) \<Rightarrow> nat \<Rightarrow> ice_target \<Rightarrow> table_change list \<Rightarrow> ice_target \<times> gerr option" where
  "ice_commit_changes lib stamps n t [] = (t, None)"
| "ice_commit_changes lib stamps n t (change # changes) =
     (case ice_target_source t of
        None \<Rightarrow> (t, Some nil_panic)
      | Some src \<Rightarrow>
          (case wrap_res ''failed to read the previous live file set before committing an incremental change'' (previousLiveFiles lib src) of
             Inl e \<Rightarrow> (t, Some e)
           | Inr live \<Rightarrow>
               (case ice_CommitSnapshot lib (stamps n) t (ice_change_snapshot live change) of
                  (t, Some e) \<Rightarrow> (t, Some e)
                | (t, None) \<Rightarrow> ice_commit_changes lib stamps (Suc n) t changes)))"

definition ice_CommitChanges :: "ice_libs \<Rightarrow> (nat \<Rightarrow> ice_stamp) \<Rightarrow> ice_target \<Rightarrow> incremental_changes \<Rightarrow> ice_target \<times> gerr option" where
  "ice_CommitChanges lib stamps t changes = ice_commit_changes lib stamps 0 t (TableChanges changes)"

end
