(* ===== verification/Iceberg_History.thy ===== *)
theory Iceberg_History
  imports Iceberg_Target
begin

text \<open>
  The history of an Iceberg table: when the walk along parent links ends and what it collects, and which changes an
  incremental read delivers.
\<close>

section \<open>The walk along parents\<close>

definition parent_of :: "(int, ice_snapshot) gomap \<Rightarrow> ice_snapshot \<Rightarrow> ice_snapshot option" where
  "parent_of byID snap = Option.bind (isn_ParentSnapshotID snap) (map_of byID)"

text \<open>The \<open>n\<close>-th retained ancestor.\<close>

fun ancestor :: "(int, ice_snapshot) gomap \<Rightarrow> ice_snapshot \<Rightarrow> nat \<Rightarrow> ice_snapshot option" where
  "ancestor byID snap 0 = Some snap"
| "ancestor byID snap (Suc n) = Option.bind (parent_of byID snap) (\<lambda>p. ancestor byID p n)"

lemma walk_parents_step:
  "walk_parents byID snap =
     (case parent_of byID snap of None \<Rightarrow> Some [snap] | Some p \<Rightarrow> map_option ((#) snap) (walk_parents byID p))"
  by (subst walk_parents.simps) (auto simp: parent_of_def map_conv_bind_option comp_def split: option.split)

lemma walk_bounded: "ancestor byID snap (Suc n) = None \<Longrightarrow> \<exists>chain. walk_parents byID snap = Some chain \<and> length chain \<le> Suc n"
proof (induction n arbitrary: snap)
  case 0
  then show ?case by (auto simp: walk_parents_step [of byID snap] bind_eq_None_conv)
next
  case (Suc n)
  show ?case
  proof (cases "parent_of byID snap")
    case None
    then show ?thesis by (simp add: walk_parents_step [of byID snap])
  next
    case (Some p)
    with Suc.prems have "ancestor byID p (Suc n) = None" by simp
    from Suc.IH [OF this] Some show ?thesis by (auto simp: walk_parents_step [of byID snap])
  qed
qed

lemma walk_ancestors:
  assumes "walk_parents byID snap = Some chain"
  shows "chain \<noteq> [] \<and> hd chain = snap \<and> (\<forall>i < length chain. ancestor byID snap i = Some (chain ! i)) \<and>
    parent_of byID (last chain) = None"
proof (rule walk_parents.raw_induct [OF _ assms])
  fix walk byID cursor chain
  assume 1: "\<And>b s c. walk b s = Some c \<Longrightarrow> c \<noteq> [] \<and> hd c = s \<and> (\<forall>i < length c. ancestor b s i = Some (c ! i)) \<and> parent_of b (last c) = None"
    "(case Option.bind (isn_ParentSnapshotID cursor) (map_of byID) of None \<Rightarrow> Some [cursor]
      | Some parent \<Rightarrow> Option.bind (walk byID parent) (\<lambda>older. Some (cursor # older))) = Some chain"
  show "chain \<noteq> [] \<and> hd chain = cursor \<and> (\<forall>i < length chain. ancestor byID cursor i = Some (chain ! i)) \<and>
      parent_of byID (last chain) = None"
  proof (cases "parent_of byID cursor")
    case None
    with 1(2) show ?thesis by (auto simp: parent_of_def)
  next
    case (Some p)
    then have p: "Option.bind (isn_ParentSnapshotID cursor) (map_of byID) = Some p" by (simp add: parent_of_def)
    with 1(2) obtain older where o: "walk byID p = Some older" "chain = cursor # older" by (auto simp: bind_eq_Some_conv)
    from 1(1) [OF o(1)] have "older \<noteq> []" "hd older = p" "\<forall>i < length older. ancestor byID p i = Some (older ! i)"
      "parent_of byID (last older) = None" by auto
    with Some o(2) show ?thesis by (auto simp: nth_Cons' gr0_conv_Suc less_Suc_eq_0_disj)
  qed
qed

lemma ancestor_next: "ancestor byID snap (Suc n) = Option.bind (ancestor byID snap n) (parent_of byID)"
proof (induction n arbitrary: snap)
  case (Suc n)
  have "ancestor byID snap (Suc (Suc n)) = Option.bind (parent_of byID snap) (\<lambda>p. ancestor byID p (Suc n))"
    by (rule ancestor.simps)
  also have "\<dots> = Option.bind (parent_of byID snap) (\<lambda>p. Option.bind (ancestor byID p n) (parent_of byID))"
    by (simp only: Suc.IH)
  finally show ?case by simp
qed simp

lemma walk_stops: "walk_parents byID snap = Some chain \<Longrightarrow> ancestor byID snap (length chain) = None"
proof -
  assume "walk_parents byID snap = Some chain"
  note anc = walk_ancestors [OF this]
  then have "last chain = chain ! (length chain - 1)" by (simp add: last_conv_nth)
  with anc ancestor_next [of byID snap "length chain - 1"] show ?thesis by (simp del: ancestor.simps)
qed

text \<open>
  What the walk from a snapshot returns, and when. It ends exactly if some retained ancestor has no retained parent,
  and then it is the snapshot followed by all its retained ancestors, newest first; on metadata whose parent links form
  a cycle it does not return.
\<close>

theorem walk_collects_ancestors:
  "walk_parents byID snap = Some chain \<longleftrightarrow>
    chain \<noteq> [] \<and> map (ancestor byID snap) [0..<length chain] = map Some chain \<and> ancestor byID snap (length chain) = None"
proof
  assume w: "walk_parents byID snap = Some chain"
  note anc = walk_ancestors [OF w]
  then have "map (ancestor byID snap) [0..<length chain] = map Some chain" by (intro nth_equalityI) simp_all
  moreover have "ancestor byID snap (length chain) = None" using walk_stops [OF w] .
  ultimately show "chain \<noteq> [] \<and> map (ancestor byID snap) [0..<length chain] = map Some chain \<and> ancestor byID snap (length chain) = None"
    using anc by simp
next
  assume c: "chain \<noteq> [] \<and> map (ancestor byID snap) [0..<length chain] = map Some chain \<and> ancestor byID snap (length chain) = None"
  then obtain n where n: "length chain = Suc n" by (cases chain) auto
  with c walk_bounded obtain chain' where w: "walk_parents byID snap = Some chain'" "length chain' \<le> length chain" by metis
  note anc = walk_ancestors [OF w(1)]
  have nth: "ancestor byID snap i = Some (chain ! i)" if "i < length chain" for i
    using c that by (metis add_0 diff_zero length_map length_upt nth_map nth_upt)
  have "length chain' = length chain"
  proof (rule ccontr)
    assume "length chain' \<noteq> length chain"
    with w(2) have "length chain' < length chain" by simp
    then have "ancestor byID snap (length chain') \<noteq> None" using nth by simp
    moreover have "ancestor byID snap (length chain') = None" using walk_stops [OF w(1)] .
    ultimately show False by simp
  qed
  moreover from this have "chain' = chain" using anc nth by (intro nth_equalityI) auto
  ultimately show "walk_parents byID snap = Some chain" using w(1) by simp
qed

lemma own_parent_hangs:
  assumes "map_of byID (isn_SnapshotID snap) = Some snap" and "isn_ParentSnapshotID snap = Some (isn_SnapshotID snap)"
  shows "walk_parents byID snap = None"
proof -
  have "ancestor byID snap n = Some snap" for n using assms by (induction n) (auto simp: parent_of_def)
  moreover have "parent_of byID snap = Some snap" using assms by (simp add: parent_of_def)
  ultimately show ?thesis using walk_ancestors [of byID snap]
    by (metis One_nat_def diff_less last_conv_nth length_greater_0_conv not_None_eq option.inject zero_less_one)
qed

text \<open>Links to snapshots with smaller identifiers, as every commit of the target makes them, cannot form a cycle.\<close>

lemma walk_returns:
  assumes "\<And>i s p. map_of byID i = Some s \<Longrightarrow> isn_ParentSnapshotID s = Some p \<Longrightarrow> p < i" and "map_of byID i = Some snap"
  shows "\<exists>chain. walk_parents byID snap = Some chain"
  using assms(2)
proof (induction "card {j \<in> dom (map_of byID). j < i}" arbitrary: i snap rule: less_induct)
  case less
  show ?case
  proof (cases "parent_of byID snap")
    case None
    then show ?thesis by (simp add: walk_parents_step [of byID snap])
  next
    case (Some p)
    then obtain k where k: "isn_ParentSnapshotID snap = Some k" "map_of byID k = Some p" by (auto simp: parent_of_def bind_eq_Some_conv)
    then have "k < i" using assms(1) less.prems by blast
    then have "{j \<in> dom (map_of byID). j < k} \<subset> {j \<in> dom (map_of byID). j < i}" using k(2) by (auto simp: domI)
    then have "card {j \<in> dom (map_of byID). j < k} < card {j \<in> dom (map_of byID). j < i}"
      by (intro psubset_card_mono) (auto intro: finite_subset [OF _ finite_dom_map_of])
    from less.hyps [OF this k(2)] Some show ?thesis by (auto simp: walk_parents_step [of byID snap])
  qed
qed

definition older_parent :: "ice_snapshot option \<Rightarrow> bool" where
  "older_parent p = pred_option (\<lambda>snap. pred_option (\<lambda>i. i < isn_SnapshotID snap) (isn_ParentSnapshotID snap)) p"

lemma snapshotsByID_index: "snapshotsByID meta = Inr byID \<Longrightarrow> byID = index_by isn_SnapshotID (map the (im_Snapshots meta))"
  by (simp add: snapshotsByID_def index_by_def split: if_splits)

lemma snapshotsByID_Some:
  "snapshotsByID meta = Inr byID \<Longrightarrow> map_of byID i = Some snap \<Longrightarrow> Some snap \<in> set (im_Snapshots meta) \<and> isn_SnapshotID snap = i"
proof -
  assume b: "snapshotsByID meta = Inr byID" and m: "map_of byID i = Some snap"
  from index_by_Some [OF m [unfolded snapshotsByID_index [OF b]]] have "snap \<in> the ` set (im_Snapshots meta)" "isn_SnapshotID snap = i" by simp_all
  moreover have "None \<notin> set (im_Snapshots meta)" using b by (simp add: snapshotsByID_def split: if_splits)
  ultimately show ?thesis by (metis imageE option.collapse)
qed

text \<open>
  An incremental read of an Iceberg table returns, with changes or with an error, when every snapshot's parent has
  a smaller identifier.
\<close>

theorem ice_changes_return:
  assumes "latest_metadata s = Inr (v, meta)" and "list_all older_parent (im_Snapshots meta)"
  shows "\<exists>r. ice_GetChangesSince lib s from = Some r"
proof (cases "ice_GetTable s (formatInt v)")
  case (Inr tbl)
  have walk: "\<exists>chain. walk_parents byID snap = Some chain" if "snapshotsByID meta = Inr byID" "map_of byID i = Some snap" for byID i snap
  proof (rule walk_returns [OF _ that(2)])
    fix j s p assume "map_of byID j = Some s" "isn_ParentSnapshotID s = Some p"
    then show "p < j" using snapshotsByID_Some [OF that(1)] assms(2) by (force simp: list_all_iff older_parent_def)
  qed
  then show ?thesis
    using assms(1) Inr by (auto simp: ice_GetChangesSince_def split: option.split sum.split)
qed (use assms(1) in \<open>simp add: ice_GetChangesSince_def\<close>)

section \<open>Instants\<close>

fun ice_instants :: "int \<Rightarrow> ice_snapshot list \<Rightarrow> int list" where
  "ice_instants t [] = []"
| "ice_instants t (c # cs) = (let t' = ice_advanceCommitTime t (isn_TimestampMs c) in t' # ice_instants t' cs)"

lemma length_ice_instants [simp]: "length (ice_instants t cs) = length cs"
  by (induction cs arbitrary: t) (auto simp: Let_def)

definition ice_times_ok :: "int \<Rightarrow> ice_snapshot list \<Rightarrow> bool" where
  "ice_times_ok t cs \<longleftrightarrow> list_all (\<lambda>i. in_int64 i \<and> i < max_int64) (t # ice_instants t cs)"

lemma ice_instants_increase: "ice_times_ok t cs \<Longrightarrow> sorted_wrt (<) (t # ice_instants t cs)"
proof (induction cs arbitrary: t)
  case (Cons c cs)
  let ?t = "ice_advanceCommitTime t (isn_TimestampMs c)"
  from Cons.prems have "ice_times_ok ?t cs" by (simp add: ice_times_ok_def Let_def)
  from Cons.IH [OF this] have "sorted_wrt (<) (?t # ice_instants ?t cs)" .
  moreover have "t < ?t" using Cons.prems by (simp add: ice_times_ok_def ice_advanceCommitTime_def in_int64_def)
  ultimately show ?case by (fastforce simp: Let_def)
qed simp

section \<open>Changes\<close>

definition made_change :: "(ice_snapshot \<Rightarrow> table_change res) \<Rightarrow> ice_snapshot \<times> int \<Rightarrow> table_change \<Rightarrow> bool" where
  "made_change change st c \<longleftrightarrow> (\<exists>c0. change (fst st) = Inr c0 \<and> c = c0\<lparr>CommitTime := snd st\<rparr>)"

lemma changes_after_spec:
  "changes_after change from t snaps = Inr cs \<Longrightarrow>
    list_all2 (made_change change) (filter (\<lambda>st. from < snd st) (zip snaps (ice_instants t snaps))) cs"
proof (induction snaps arbitrary: t cs)
  case (Cons snap snaps)
  then show ?case by (auto simp: Let_def made_change_def split: if_splits)
qed simp

lemma later_instants:
  assumes "sorted_wrt (<) (map snd xs)" and "k < length xs"
  shows "filter (\<lambda>st. snd (xs ! k) < snd st) xs = drop (Suc k) (xs :: ('a \<times> int) list)"
  using assms
proof (induction xs arbitrary: k)
  case (Cons x xs)
  show ?case
  proof (cases k)
    case 0
    with Cons.prems(1) show ?thesis by (auto simp: filter_id_conv)
  next
    case (Suc j)
    with Cons have "filter (\<lambda>st. snd (xs ! j) < snd st) xs = drop (Suc j) xs" by simp
    moreover have "snd x < snd (xs ! j)" using Cons.prems Suc by auto
    ultimately show ?thesis by (simp add: Suc)
  qed
qed simp

section \<open>Replaying changes\<close>

definition files_at :: "ice_libs \<Rightarrow> ice_source \<Rightarrow> ice_metadata \<Rightarrow> ice_snapshot \<Rightarrow> data_file list res" where
  "files_at lib s meta snap = bind_res (tableAsOfSnapshot s meta snap) (dataFilesForSnapshot lib s snap)"

text \<open>What a list of files holds: paths with sizes and row counts.\<close>

definition file_content :: "data_file list \<Rightarrow> (string \<times> int \<times> int) set" where
  "file_content fs = (\<lambda>f. (PhysicalPath f, FileSizeBytes f, RecordCount f)) ` set fs"

lemma same_paths: "file_content fs = file_content gs \<Longrightarrow> PhysicalPath ` set fs = PhysicalPath ` set gs"
proof -
  assume "file_content fs = file_content gs"
  then have "fst ` file_content fs = fst ` file_content gs" by simp
  then show ?thesis by (simp add: file_content_def image_image)
qed

text \<open>Removing and adding what the diff of two file lists says turns the content of the one into that of the other.\<close>

lemma applyFilesDiff_content:
  assumes "file_content live = file_content old" and "distinct (map PhysicalPath old)" and "distinct (map PhysicalPath new)"
  shows "file_content (applyFilesDiff live (DiffFiles old new)) = file_content new"
proof -
  let ?d = "DiffFiles old new"
  have key: "keyed PhysicalPath old (PhysicalPath g) = Some h \<longleftrightarrow> h \<in> set old \<and> PhysicalPath h = PhysicalPath g" for g h
    by (simp add: keyed_def index_by_distinct_iff [OF assms(2)])
  have new: "f = g" if "f \<in> set new" "g \<in> set new" "PhysicalPath f = PhysicalPath g" for f g
    using that assms(3) by (auto simp: distinct_map inj_on_def)
  have "x \<in> file_content (applyFilesDiff live ?d) \<longleftrightarrow> x \<in> file_content new" for x
  proof
    assume "x \<in> file_content (applyFilesDiff live ?d)"
    then consider f where "f \<in> set live" "PhysicalPath f \<notin> PhysicalPath ` set (FilesRemoved ?d)"
        "x = (PhysicalPath f, FileSizeBytes f, RecordCount f)" | "x \<in> file_content (FilesAdded ?d)"
      by (auto simp: file_content_def applyFilesDiff_def)
    then show "x \<in> file_content new"
    proof cases
      case 1
      then have "x \<in> file_content old" using assms(1) by (auto simp: file_content_def)
      then obtain h where h: "h \<in> set old" "x = (PhysicalPath h, FileSizeBytes h, RecordCount h)" by (auto simp: file_content_def)
      with 1 have kept: "h \<notin> set (FilesRemoved ?d)" by (metis fst_conv image_eqI)
      then obtain g where g: "g \<in> set new" "PhysicalPath g = PhysicalPath h" using h(1) by (auto simp: set_FilesRemoved)
      with h(1) have "keyed PhysicalPath old (PhysicalPath g) = Some h" by (simp add: key)
      with kept g have "sameContent h g" by (auto simp: set_FilesRemoved)
      with g h(2) have "x = (PhysicalPath g, FileSizeBytes g, RecordCount g)" by (simp add: sameContent_def)
      with g(1) show ?thesis by (auto simp: file_content_def)
    qed (auto simp: file_content_def set_FilesAdded)
  next
    assume "x \<in> file_content new"
    then obtain g where g: "g \<in> set new" "x = (PhysicalPath g, FileSizeBytes g, RecordCount g)" by (auto simp: file_content_def)
    show "x \<in> file_content (applyFilesDiff live ?d)"
    proof (cases "g \<in> set (FilesAdded ?d)")
      case True
      with g(2) show ?thesis by (auto simp: file_content_def applyFilesDiff_def)
    next
      case False
      with g(1) obtain h where h: "h \<in> set old" "PhysicalPath h = PhysicalPath g" "sameContent h g"
        by (auto simp: set_FilesAdded key)
      have gone: "PhysicalPath r \<noteq> PhysicalPath g" if "r \<in> set (FilesRemoved ?d)" for r
      proof
        assume r: "PhysicalPath r = PhysicalPath g"
        from that g(1) r obtain f where f: "f \<in> set new" "keyed PhysicalPath old (PhysicalPath f) = Some r" "\<not> sameContent r f"
          by (auto simp: set_FilesRemoved)
        with r g(1) new have "f = g" by (metis key)
        with f r have "keyed PhysicalPath old (PhysicalPath g) = Some r" "\<not> sameContent r g" by simp_all
        moreover have "keyed PhysicalPath old (PhysicalPath g) = Some h" using h by (simp add: key)
        ultimately show False using h(3) by simp
      qed
      have "x = (PhysicalPath h, FileSizeBytes h, RecordCount h)" using h(2,3) g(2) by (simp add: sameContent_def)
      then have "x \<in> file_content live" using assms(1) h(1) by (auto simp: file_content_def)
      then obtain f where f: "f \<in> set live" "x = (PhysicalPath f, FileSizeBytes f, RecordCount f)" by (auto simp: file_content_def)
      then have "PhysicalPath f \<notin> PhysicalPath ` set (FilesRemoved ?d)" using gone g(2) by (metis fst_conv imageE)
      with f(1) have "f \<in> set (applyFilesDiff live ?d)" by (simp add: applyFilesDiff_def)
      with \<open>x = (PhysicalPath f, FileSizeBytes f, RecordCount f)\<close> show ?thesis by (auto simp: file_content_def)
    qed
  qed
  then show ?thesis by blast
qed

text \<open>Every snapshot of a list is the child of the one before it.\<close>

fun linked :: "(int, ice_snapshot) gomap \<Rightarrow> ice_snapshot \<Rightarrow> ice_snapshot list \<Rightarrow> bool" where
  "linked byID x [] = True"
| "linked byID x (y # ys) = (parent_of byID y = Some x \<and> linked byID y ys)"

definition clear_files :: "ice_libs \<Rightarrow> ice_source \<Rightarrow> ice_metadata \<Rightarrow> ice_snapshot \<Rightarrow> bool" where
  "clear_files lib s meta snap = (case files_at lib s meta snap of Inl _ \<Rightarrow> True | Inr fs \<Rightarrow> distinct (map PhysicalPath fs))"

lemma change_between:
  assumes "changeForSnapshot lib s meta byID y = Inr c" and "parent_of byID y = Some x"
  shows "\<exists>old new. files_at lib s meta x = Inr old \<and> files_at lib s meta y = Inr new \<and> FilesDiff c = DiffFiles old new \<and>
    ChangeSourceIdentifier c = formatInt (isn_SnapshotID y)"
  using assms by (auto simp: changeForSnapshot_def parent_files_def parent_of_def files_at_def bind_eq_Some_conv)

lemma replay_changes:
  assumes "list_all2 (made_change (changeForSnapshot lib s meta byID)) (zip ys ts) cs" and "length ts = length ys"
    and "linked byID x ys" and "list_all (clear_files lib s meta) (x # ys)"
    and "files_at lib s meta x = Inr fs" and "file_content live = file_content fs"
  shows "\<exists>gs. files_at lib s meta (last (x # ys)) = Inr gs \<and>
    file_content (foldl (\<lambda>l c. applyFilesDiff l (FilesDiff c)) live cs) = file_content gs"
  using assms
proof (induction ys arbitrary: ts cs x fs live)
  case (Cons y ys)
  then obtain t ts' c cs' where s: "ts = t # ts'" "cs = c # cs'" by (cases ts; cases cs) auto
  with Cons.prems(1) obtain c0 where c: "changeForSnapshot lib s meta byID y = Inr c0" "c = c0\<lparr>CommitTime := t\<rparr>"
    by (auto simp: made_change_def)
  from change_between [OF c(1)] Cons.prems(3,5) obtain new where new: "files_at lib s meta y = Inr new" "FilesDiff c0 = DiffFiles fs new"
    by auto
  have "file_content (applyFilesDiff live (DiffFiles fs new)) = file_content new"
    using applyFilesDiff_content [OF Cons.prems(6)] Cons.prems(4,5) new(1) by (simp add: clear_files_def)
  with Cons.IH [of ts' cs' y new "applyFilesDiff live (DiffFiles fs new)"] Cons.prems(1-4) s c new show ?case by simp
qed simp

lemma walk_linked:
  assumes "walk_parents byID snap = Some chain" and "k < length chain"
  shows "linked byID (rev chain ! k) (drop (Suc k) (rev chain))"
proof -
  note anc = walk_ancestors [OF assms(1)]
  have par: "parent_of byID (chain ! i) = Some (chain ! Suc i)" if "Suc i < length chain" for i
    using anc that ancestor_next [of byID snap i] by (metis Suc_lessD bind.bind_lunit)
  show ?thesis using assms(2)
  proof (induction "length chain - k" arbitrary: k)
    case (Suc n)
    show ?case
    proof (cases "Suc k < length chain")
      case True
      then have "drop (Suc k) (rev chain) = rev chain ! Suc k # drop (Suc (Suc k)) (rev chain)"
        by (intro Cons_nth_drop_Suc [symmetric]) simp
      moreover have "linked byID (rev chain ! Suc k) (drop (Suc (Suc k)) (rev chain))" using Suc True by simp
      moreover have "parent_of byID (rev chain ! Suc k) = Some (rev chain ! k)"
        using par [of "length chain - Suc (Suc k)"] True by (simp add: rev_nth Suc_diff_Suc)
      ultimately show ?thesis by simp
    qed simp
  qed simp
qed

lemma GetChangesSince_made:
  assumes "latest_metadata s = Inr (v, meta)" and "im_CurrentSnapshotID meta = Some i" and "snapshotsByID meta = Inr byID"
    and "map_of byID i = Some cur" and "walk_parents byID cur = Some chain" and "ice_GetChangesSince lib s from = Some (Inr ic)"
  shows "list_all2 (made_change (changeForSnapshot lib s meta byID))
    (filter (\<lambda>st. from < snd st) (zip (rev chain) (ice_instants 0 (rev chain)))) (TableChanges ic)"
proof -
  from assms obtain cs where "history_changes lib s meta byID from chain = Inr cs" "TableChanges ic = cs"
    by (auto simp: ice_GetChangesSince_def split: sum.splits)
  then have "changes_after (changeForSnapshot lib s meta byID) from 0 (rev chain) = Inr (TableChanges ic)"
    by (auto simp: history_changes_def Let_def split: option.splits if_splits)
  then show ?thesis by (rule changes_after_spec)
qed

text \<open>
  C8. Resuming an incremental read of an Iceberg table at the instant of one of its snapshots. The changes are those of
  the later snapshots in order, each with its own, strictly larger instant, also when timestamps repeat or go backwards;
  and a target that held the files of the resume snapshot and carries the changes out one after the other holds the
  files of the current one: the same paths, sizes and row counts.
\<close>

theorem ice_changes_replay:
  assumes "latest_metadata s = Inr (v, meta)" and "im_CurrentSnapshotID meta = Some i" and "snapshotsByID meta = Inr byID"
    and "map_of byID i = Some cur" and "walk_parents byID cur = Some chain" and "ice_times_ok 0 (rev chain)"
    and "list_all (clear_files lib s meta) chain" and "k < length chain"
    and "ice_GetChangesSince lib s (ice_instants 0 (rev chain) ! k) = Some (Inr ic)"
    and "files_at lib s meta (rev chain ! k) = Inr fs" and "file_content live = file_content fs"
  shows "map ChangeSourceIdentifier (TableChanges ic) = map (formatInt \<circ> isn_SnapshotID) (drop (Suc k) (rev chain)) \<and>
    map CommitTime (TableChanges ic) = drop (Suc k) (ice_instants 0 (rev chain)) \<and> sorted_wrt (<) (ice_instants 0 (rev chain)) \<and>
    (\<exists>gs. files_at lib s meta cur = Inr gs \<and>
      file_content (foldl (\<lambda>l c. applyFilesDiff l (FilesDiff c)) live (TableChanges ic)) = file_content gs)"
proof -
  let ?ch = "rev chain" and ?ts = "ice_instants 0 (rev chain)"
  have k: "k < length ?ch" using assms(8) by simp
  have inc: "sorted_wrt (<) ?ts" using ice_instants_increase [OF assms(6)] by simp
  then have "filter (\<lambda>st. ?ts ! k < snd st) (zip ?ch ?ts) = drop (Suc k) (zip ?ch ?ts)"
    using later_instants [of "zip ?ch ?ts" k] k by simp
  also have "\<dots> = zip (drop (Suc k) ?ch) (drop (Suc k) ?ts)" by (rule drop_zip)
  finally have made: "list_all2 (made_change (changeForSnapshot lib s meta byID)) (zip (drop (Suc k) ?ch) (drop (Suc k) ?ts)) (TableChanges ic)"
    using GetChangesSince_made [OF assms(1-5,9)] by simp
  have ids: "ChangeSourceIdentifier c = formatInt (isn_SnapshotID (fst st)) \<and> CommitTime c = snd st"
    if "made_change (changeForSnapshot lib s meta byID) st c" for st c
    using that by (auto simp: made_change_def changeForSnapshot_def)
  have "map ChangeSourceIdentifier (TableChanges ic) = map (\<lambda>st. formatInt (isn_SnapshotID (fst st))) (zip (drop (Suc k) ?ch) (drop (Suc k) ?ts)) \<and>
      map CommitTime (TableChanges ic) = map snd (zip (drop (Suc k) ?ch) (drop (Suc k) ?ts))"
    using made by (induction rule: list_all2_induct) (auto simp: ids)
  moreover have "map (\<lambda>st. formatInt (isn_SnapshotID (fst st))) (zip (drop (Suc k) ?ch) (drop (Suc k) ?ts)) =
      map (formatInt \<circ> isn_SnapshotID) (drop (Suc k) ?ch)"
    (is "?L = ?R")
  proof -
    have "?L = map (formatInt \<circ> isn_SnapshotID) (map fst (zip (drop (Suc k) ?ch) (drop (Suc k) ?ts)))"
      by (simp only: map_map comp_def)
    also have "map fst (zip (drop (Suc k) ?ch) (drop (Suc k) ?ts)) = drop (Suc k) ?ch" by (rule map_fst_zip) simp
    finally show ?thesis .
  qed
  moreover have suffix: "?ch ! k # drop (Suc k) ?ch = drop k ?ch" by (rule Cons_nth_drop_Suc [OF k])
  have "list_all (clear_files lib s meta) (?ch ! k # drop (Suc k) ?ch)"
    unfolding suffix using assms(7) by (auto simp: list_all_iff dest: in_set_dropD)
  from replay_changes [OF made _ walk_linked [OF assms(5,8)] this assms(10,11)]
  have "\<exists>gs. files_at lib s meta (last (?ch ! k # drop (Suc k) ?ch)) = Inr gs \<and>
      file_content (foldl (\<lambda>l c. applyFilesDiff l (FilesDiff c)) live (TableChanges ic)) = file_content gs" by simp
  moreover have "last (?ch ! k # drop (Suc k) ?ch) = cur"
    unfolding suffix using walk_ancestors [OF assms(5)] k by (simp add: last_rev)
  ultimately show ?thesis using inc by simp
qed

end
