(* ===== verification/Iceberg_Codec.thy ===== *)
theory Iceberg_Codec
  imports Iceberg_Roundtrip Paimon_Readback
begin

text \<open>
  The document of an Iceberg table's metadata: what is decoded from what the target encodes. Maps come back sorted by
  key and the schema in the form of a decoded one.
\<close>

section \<open>Snapshots\<close>

definition snap_ok :: "ice_snapshot \<Rightarrow> bool" where
  "snap_ok s \<longleftrightarrow>
     in_int64 (isn_SnapshotID s) \<and> pred_option in_int64 (isn_ParentSnapshotID s) \<and> in_int64 (isn_SequenceNumber s) \<and>
     in_int64 (isn_TimestampMs s) \<and> wf_map (isn_Summary s) \<and> pred_option in_int64 (isn_SchemaID s)"

definition canon_snap :: "ice_snapshot \<Rightarrow> ice_snapshot" where
  "canon_snap s = s\<lparr>isn_Summary := sort_key fst (isn_Summary s)\<rparr>"

lemma canon_snap_simps [simp]:
  "isn_SnapshotID (canon_snap s) = isn_SnapshotID s" "isn_ParentSnapshotID (canon_snap s) = isn_ParentSnapshotID s"
  "isn_SequenceNumber (canon_snap s) = isn_SequenceNumber s" "isn_TimestampMs (canon_snap s) = isn_TimestampMs s"
  "isn_ManifestList (canon_snap s) = isn_ManifestList s" "isn_SchemaID (canon_snap s) = isn_SchemaID s"
  "snap_ok (canon_snap s) = snap_ok s"
  by (simp_all add: canon_snap_def snap_ok_def wf_map_def distinct_map)

lemma dec_enc_snap: "snap_ok s \<Longrightarrow> dec_ice_snapshot (enc_ice_snapshot s) = Some (canon_snap s)"
  by (cases s) (simp add: snap_ok_def enc_ice_snapshot_def dec_ice_snapshot_def canon_snap_def key_simps cong: option.case_cong)

lemma wf_enc_snap: "wf_json (enc_ice_snapshot s)"
  by (simp add: enc_ice_snapshot_def pred_option_def)

section \<open>Specs and sort orders\<close>

definition spec_ok :: "ice_spec \<Rightarrow> bool" where
  "spec_ok s \<longleftrightarrow> in_int64 (spec_ID s) \<and>
     list_all (\<lambda>p. \<exists>f. p = Some f \<and> in_int64 (ipf_SourceID f) \<and> in_int64 (ipf_FieldID f)) (spec_Fields s)"

lemma list_all_Some: "list_all (\<lambda>p. \<exists>f. p = Some f \<and> Q f) xs \<longleftrightarrow> (\<exists>ys. xs = map Some ys \<and> list_all Q ys)"
  by (induction xs) (auto simp: Cons_eq_map_conv)

lemma dec_enc_spec: "spec_ok s \<Longrightarrow> dec_ice_spec (enc_ice_spec s) = Some s"
proof -
  assume ok: "spec_ok s"
  then obtain fs where fs: "spec_Fields s = map Some fs" "list_all (\<lambda>f. in_int64 (ipf_SourceID f) \<and> in_int64 (ipf_FieldID f)) fs"
    by (auto simp: spec_ok_def list_all_Some)
  have "dec_pointers dec_ice_partition_field (Some (JArr (map (enc_pointer enc_ice_partition_field) (map Some fs)))) = Some (map (\<lambda>x. Some x) fs)"
    by (rule dec_ptr_slice(2) [where g = "\<lambda>x. x"])
      (use fs(2) in \<open>auto simp: enc_ice_partition_field_def dec_ice_partition_field_def key_simps list_all_iff\<close>)
  with ok fs(1) show ?thesis by (cases s) (simp add: spec_ok_def enc_ice_spec_def dec_ice_spec_def key_simps)
qed

lemma wf_enc_spec: "wf_json (enc_ice_spec s)"
  by (auto simp: enc_ice_spec_def enc_pointer_def enc_ice_partition_field_def list_all_iff split: option.splits)

definition unsorted_order :: ice_sort_order where
  "unsorted_order = \<lparr>so_OrderID = 0, so_Fields = []\<rparr>"

lemma dec_enc_unsorted: "dec_ice_sort_order (enc_ice_sort_order unsorted_order) = Some unsorted_order" "wf_json (enc_ice_sort_order unsorted_order)"
  by (simp_all add: unsorted_order_def enc_ice_sort_order_def dec_ice_sort_order_def key_simps in_int64_def)

section \<open>Table metadata\<close>

definition metadata_ok :: "int \<Rightarrow> ice_field list \<Rightarrow> ice_snapshot list \<Rightarrow> ice_metadata \<Rightarrow> bool" where
  "metadata_ok i cols snaps m \<longleftrightarrow>
     in_int64 (im_FormatVersion m) \<and> in_int64 (im_LastSequenceNumber m) \<and> in_int64 (im_LastUpdatedMs m) \<and>
     in_int64 (im_LastColumnID m) \<and> in_int64 (im_CurrentSchemaID m) \<and> in_int64 i \<and>
     im_Schemas m = [Some (built_schema i cols)] \<and> list_all built_field cols \<and> exact_slots (schema_slots cols) \<and>
     in_int64 (im_DefaultSpecID m) \<and> (\<exists>s. im_PartitionSpecs m = [Some s] \<and> spec_ok s) \<and> in_int64 (im_LastPartitionID m) \<and>
     im_SortOrders m = [Some unsorted_order] \<and> in_int64 (im_DefaultSortOrderID m) \<and> wf_map (im_Properties m) \<and>
     pred_option in_int64 (im_CurrentSnapshotID m) \<and> im_Snapshots m = map Some snaps \<and> list_all snap_ok snaps \<and> im_SnapshotLog m = []"

definition read_metadata :: "int \<Rightarrow> ice_field list \<Rightarrow> ice_snapshot list \<Rightarrow> ice_metadata \<Rightarrow> ice_metadata" where
  "read_metadata i cols snaps m =
     m\<lparr>im_Schemas := [Some (reread_schema i cols)], im_Properties := sort_key fst (im_Properties m),
       im_Snapshots := map (Some \<circ> canon_snap) snaps\<rparr>"

lemma int_pointer [simp]: "pred_option in_int64 p \<Longrightarrow> dec_int_ptr (map_option jint p) = Some p"
  by (cases p) simp_all

lemma one_pointer:
  assumes "\<exists>kvs. f x = JObj kvs" "d (f x) = Some y"
  shows "dec_pointers d (Some (jslice [enc_pointer f (Some x)])) = Some [Some y]"
  using dec_ptr_slice(1) [of "[x]" f d "\<lambda>_. y"] assms by simp

lemma dec_enc_ice_metadata:
  assumes "metadata_ok i cols snaps m"
  shows "dec_ice_metadata (enc_ice_metadata m) = Some (read_metadata i cols snaps m)"
proof -
  note ok = assms [unfolded metadata_ok_def]
  from ok obtain s where s: "im_PartitionSpecs m = [Some s]" "spec_ok s" by blast
  have schemas: "dec_pointers dec_ice_schema (Some (jslice [enc_pointer enc_ice_schema (Some (built_schema i cols))])) = Some [Some (reread_schema i cols)]"
    by (rule one_pointer) (simp add: enc_ice_schema_def, use ok in \<open>simp add: schema_document(1)\<close>)
  have specs: "dec_pointers dec_ice_spec (Some (jslice [enc_pointer enc_ice_spec (Some s)])) = Some [Some s]"
    by (rule one_pointer) (simp_all add: dec_enc_spec [OF s(2)], simp add: enc_ice_spec_def)
  have orders: "dec_pointers dec_ice_sort_order (Some (jslice [enc_pointer enc_ice_sort_order (Some unsorted_order)])) = Some [Some unsorted_order]"
    by (rule one_pointer) (simp_all add: dec_enc_unsorted(1), simp add: enc_ice_sort_order_def)
  have snaps: "dec_pointers dec_ice_snapshot (Some (JArr (map (enc_pointer enc_ice_snapshot) (map Some snaps)))) = Some (map (\<lambda>x. Some (canon_snap x)) snaps)"
    by (rule dec_ptr_slice(2)) (use ok dec_enc_snap in \<open>auto simp: enc_ice_snapshot_def list_all_iff\<close>)
  show ?thesis
    using ok s(1) schemas specs orders snaps
    by (cases m) (simp add: enc_ice_metadata_def dec_ice_metadata_def read_metadata_def omit_slice_def key_simps comp_def cong: option.case_cong)
qed

lemma wf_enc_metadata:
  assumes "metadata_ok i cols snaps m"
  shows "wf_json (enc_ice_metadata m)"
proof -
  note ok = assms [unfolded metadata_ok_def]
  from ok obtain s where s: "im_PartitionSpecs m = [Some s]" "spec_ok s" by blast
  have "list_all wf_json (map (enc_pointer enc_ice_snapshot) (map Some snaps))" by (simp add: list_all_iff enc_pointer_def wf_enc_snap)
  with ok s(1) schema_document(2) [of cols i] show ?thesis
    by (simp add: enc_ice_metadata_def omit_slice_def enc_pointer_def wf_enc_spec dec_enc_unsorted(2) pred_option_def)
qed

text \<open>The text of a metadata file reads back.\<close>

lemma metadata_text_back:
  "metadata_ok i cols snaps m \<Longrightarrow>
    Option.bind (json_unmarshal (json_print (enc_ice_metadata m))) dec_ice_metadata = Some (read_metadata i cols snaps m)"
  by (simp add: wf_enc_metadata dec_enc_ice_metadata)

end
