(* ===== verification/Iceberg_Samples.thy ===== *)
theory Iceberg_Samples
  imports Iceberg_History Iceberg_Codec
begin

text \<open>
  A concrete Iceberg table: two snapshots with the same timestamp, the second of which drops one file and adds another.
  It shows that the hypotheses of the theorems on histories can hold.
\<close>

definition sample_columns :: "ice_field list" where
  "sample_columns = [IceField 1 ''id'' (TName ''long'') False '''' JNull JNull]"

definition sample_snap :: "int \<Rightarrow> int option \<Rightarrow> string \<Rightarrow> ice_snapshot" where
  "sample_snap i parent path =
     \<lparr>isn_SnapshotID = i, isn_ParentSnapshotID = parent, isn_SequenceNumber = i, isn_TimestampMs = 1000, isn_ManifestList = path,
      isn_Summary = [], isn_SchemaID = None\<rparr>"

definition ice_meta_sample :: ice_metadata where
  "ice_meta_sample =
     \<lparr>im_FormatVersion = 2, im_TableUUID = ''u'', im_Location = ''/t'', im_LastSequenceNumber = 2, im_LastUpdatedMs = 1000,
      im_LastColumnID = 1, im_CurrentSchemaID = 0, im_Schemas = [Some (built_schema 0 sample_columns)], im_DefaultSpecID = 0,
      im_PartitionSpecs = [Some \<lparr>spec_ID = 0, spec_Fields = []\<rparr>], im_LastPartitionID = 1000, im_SortOrders = [Some unsorted_order], im_DefaultSortOrderID = 0, im_Properties = [],
      im_CurrentSnapshotID = Some 2,
      im_Snapshots = [Some (sample_snap 1 None ''l1''), Some (sample_snap 2 (Some 1) ''l2'')], im_SnapshotLog = []\<rparr>"

definition ice_sample_entry :: "string \<Rightarrow> int \<Rightarrow> int \<Rightarrow> (string, any) gomap" where
  "ice_sample_entry p sz n =
     [(''status'', AInt 1), (''snapshot_id'', AInt64 1),
      (''data_file'', AMap [(''content'', AInt 0), (''file_path'', AStr p), (''file_format'', AStr ''PARQUET''), (''partition'', AMap []),
         (''record_count'', AInt64 n), (''file_size_in_bytes'', AInt64 sz)])]"

definition sample_libs :: ice_libs where
  "sample_libs =
     \<lparr>lib_uuid_parse = (\<lambda>_. None), lib_uuid_text = (\<lambda>_. None), lib_ocf_new = (\<lambda>_ _. None), lib_ocf_encode = (\<lambda>_ _. None),
      lib_ocf_close = (\<lambda>_ _ _. Inr ''''),
      lib_ocf_open = (\<lambda>b. Inr (map Inr
        (if b = ''L1'' then [[(''manifest_path'', AStr ''m1'')]]
         else if b = ''L2'' then [[(''manifest_path'', AStr ''m2'')]]
         else if b = ''M1'' then [ice_sample_entry ''a'' 10 1, ice_sample_entry ''b'' 20 2]
         else [ice_sample_entry ''a'' 10 1, ice_sample_entry ''c'' 30 3]), None))\<rparr>"

definition ice_sample_source :: ice_source where
  "ice_sample_source = ice_NewSource
     \<lparr>mem_files = map (\<lambda>(p, d). (p, \<lparr>mf_data = d, mf_modTime = 0\<rparr>))
        [(''/t/metadata/v1.metadata.json'', json_print (enc_ice_metadata ice_meta_sample)),
         (''l1'', ''L1''), (''l2'', ''L2''), (''m1'', ''M1''), (''m2'', ''M2'')]\<rparr> ''/t''"

definition ice_meta_read :: ice_metadata where
  "ice_meta_read = ice_meta_sample\<lparr>im_Schemas := [Some (reread_schema 0 sample_columns)]\<rparr>"

lemma sample_metadata_ok: "metadata_ok 0 sample_columns [sample_snap 1 None ''l1'', sample_snap 2 (Some 1) ''l2''] ice_meta_sample"
  by (simp add: metadata_ok_def ice_meta_sample_def in_int64_def sample_columns_def exact_id_def spec_ok_def wf_map_def sample_snap_def snap_ok_def)

lemma sample_text_back: "Option.bind (json_unmarshal (json_print (enc_ice_metadata ice_meta_sample))) dec_ice_metadata = Some ice_meta_read"
  unfolding metadata_text_back [OF sample_metadata_ok]
  by (simp add: read_metadata_def ice_meta_read_def ice_meta_sample_def sample_snap_def canon_snap_def)

lemma sample_listing: "listMetadataFiles ice_sample_source = ([1], [(1, ''/t/metadata/v1.metadata.json'')])"
proof -
  have d: "JoinPath ''/t'' [''metadata''] = ''/t/metadata''" by code_simp
  have v: "MetadataFileVersion (filepath_Base ''/t/metadata/v1.metadata.json'') = Some 1" by code_simp
  show ?thesis
    by (simp add: listMetadataFiles_def ice_sample_source_def ice_NewSource_def mem_List_def d hasPrefix_def note_metadata_def v map_put_def)
qed

lemma sample_latest: "latest_metadata ice_sample_source = Inr (1, ice_meta_read)"
proof -
  have "readMetadata ice_sample_source ''/t/metadata/v1.metadata.json'' = Inr ice_meta_read"
    using sample_text_back
    by (simp add: readMetadata_def ice_sample_source_def ice_NewSource_def mem_Read_def)
      (simp add: ice_meta_read_def ice_meta_sample_def maxReadableFormatVersion_def)
  then show ?thesis by (simp add: latest_metadata_def sample_listing path_at_def)
qed

text \<open>The table of the sample and the files of its two snapshots.\<close>

lemma sample_resolved: "\<exists>sc. resolveSchemaAndPartitions ice_meta_read 0 = Inr (sc, [])"
  by (simp add: resolveSchemaAndPartitions_def ice_meta_read_def ice_meta_sample_def reread_schema_def built_schema_def sample_columns_def
      reread_field_def IcebergToSchema_def read_ice_field_def ice_parse_name_def toLower_def lower_char_def)

definition ice_sample_schema :: schema where
  "ice_sample_schema = (case resolveSchemaAndPartitions ice_meta_read 0 of Inr r \<Rightarrow> fst r | Inl _ \<Rightarrow> NewRecordSchema '''' [] False)"

lemma sample_resolves: "resolveSchemaAndPartitions ice_meta_read 0 = Inr (ice_sample_schema, [])"
  using sample_resolved by (auto simp: ice_sample_schema_def)

lemma ice_sample_table: "ice_GetTable ice_sample_source (formatInt 1) = Inr (ice_table ice_sample_source (ice_sample_schema, []) 1000)"
proof -
  have "readMetadata ice_sample_source ''/t/metadata/v1.metadata.json'' = Inr ice_meta_read"
    using sample_latest by (auto simp: latest_metadata_def sample_listing path_at_def)
  moreover have "im_CurrentSchemaID ice_meta_read = 0" "im_LastUpdatedMs ice_meta_read = 1000"
    by (simp_all add: ice_meta_read_def ice_meta_sample_def)
  ultimately show ?thesis using sample_resolves by (simp add: ice_GetTable_def sample_listing in_int64_def)
qed

lemma sample_converted:
  assumes "manifest_entry_read (ice_sample_entry p sz n) = Inr e"
  shows "\<exists>mdf. live_data_file e = Some mdf \<and> convertManifestDataFile lib mdf (ice_table s (sc, []) t) = Inr (sample_file p sz n)"
proof -
  obtain mdf where mdf: "live_data_file e = Some mdf" "mdf_FilePath mdf = p" "mdf_FileFormat mdf = ''PARQUET''" "mdf_Partition mdf = []"
    "mdf_RecordCount mdf = n" "mdf_FileSizeInBytes mdf = sz" "mdf_ValueCounts mdf = []" "mdf_NullValueCounts mdf = []"
    "mdf_NanValueCounts mdf = []" "mdf_LowerBounds mdf = []" "mdf_UpperBounds mdf = []"
    using assms by (auto simp: manifest_entry_read_def ice_sample_entry_def avroRecord_def member_def live_data_file_def data_file_read_def
        avroInt64_def avroString_def manifestStatusDeleted_def contentData_def avroKVInt64_def avroKVBytes_def avro_keyed_values_def
        List.map_filter_simps)
  have "stat_from_manifest lib mdf f = None" for f
    by (simp add: stat_from_manifest_def manifestHasStatsFor_def mdf split: option.split)
  then have "List.map_filter (stat_from_manifest lib mdf) fs = []" for fs
    by (induction fs) (simp_all add: List.map_filter_simps)
  then have "convertManifestDataFile lib mdf (ice_table s (sc, []) t) = Inr (sample_file p sz n)"
    by (simp add: convertManifestDataFile_def columnStatsFromManifest_def ice_table_def sample_file_def mdf modelFileFormat_def
        equalFold_def toLower_def lower_char_def List.map_filter_simps)
  with mdf(1) show ?thesis by blast
qed

lemma sample_reads:
  "mem_Read (isr_storage ice_sample_source) ''l1'' = Inr ''L1''" "mem_Read (isr_storage ice_sample_source) ''l2'' = Inr ''L2''"
  "mem_Read (isr_storage ice_sample_source) ''m1'' = Inr ''M1''" "mem_Read (isr_storage ice_sample_source) ''m2'' = Inr ''M2''"
  by (simp_all add: ice_sample_source_def ice_NewSource_def mem_Read_def)

lemma sample_manifest_files:
  assumes "manifest_entry_read (ice_sample_entry p sz n) = Inr e" "manifest_entry_read (ice_sample_entry p' sz' n') = Inr e'"
  shows "map_res (\<lambda>mdf. convertManifestDataFile lib mdf (ice_table s (sc, []) t)) (List.map_filter live_data_file [e, e']) =
    Inr [sample_file p sz n, sample_file p' sz' n']"
  using sample_converted [OF assms(1), of lib s sc t] sample_converted [OF assms(2), of lib s sc t]
  by (auto simp: List.map_filter_simps)

lemma sample_entry_reads: "\<exists>e. manifest_entry_read (ice_sample_entry p sz n) = Inr e"
  by (simp add: manifest_entry_read_def ice_sample_entry_def avroRecord_def member_def)

lemma sample_files_at:
  "files_at sample_libs ice_sample_source ice_meta_read (sample_snap i par ''l1'') = Inr [sample_file ''a'' 10 1, sample_file ''b'' 20 2]"
  "files_at sample_libs ice_sample_source ice_meta_read (sample_snap i par ''l2'') = Inr [sample_file ''a'' 10 1, sample_file ''c'' 30 3]"
proof -
  obtain a where a: "manifest_entry_read (ice_sample_entry ''a'' 10 1) = Inr a" using sample_entry_reads by blast
  obtain b where b: "manifest_entry_read (ice_sample_entry ''b'' 20 2) = Inr b" using sample_entry_reads by blast
  obtain c where c: "manifest_entry_read (ice_sample_entry ''c'' 30 3) = Inr c" using sample_entry_reads by blast
  have tb: "tableAsOfSnapshot ice_sample_source ice_meta_read (sample_snap i par l) =
      Inr (ice_table ice_sample_source (ice_sample_schema, []) 1000)" for l
    using sample_resolves by (simp add: tableAsOfSnapshot_def sample_snap_def) (simp add: ice_meta_read_def ice_meta_sample_def)
  have l: "isn_ManifestList (sample_snap i par l) = l" for l by (simp add: sample_snap_def)
  note defs = files_at_def tb l dataFilesForSnapshot_def sample_reads ice_readManifestList_def readAvroContainer_def sample_libs_def
    manifest_list_entry_of_def avroString_def avroInt64_def member_def manifest_data_files_def contentData_def readManifest_def a b c
  show "files_at sample_libs ice_sample_source ice_meta_read (sample_snap i par ''l1'') = Inr [sample_file ''a'' 10 1, sample_file ''b'' 20 2]"
    using sample_manifest_files [OF a b] by (simp add: defs)
  show "files_at sample_libs ice_sample_source ice_meta_read (sample_snap i par ''l2'') = Inr [sample_file ''a'' 10 1, sample_file ''c'' 30 3]"
    using sample_manifest_files [OF a c] by (simp add: defs)
qed

section \<open>Its history\<close>

abbreviation first_snap :: ice_snapshot where "first_snap \<equiv> sample_snap 1 None ''l1''"
abbreviation second_snap :: ice_snapshot where "second_snap \<equiv> sample_snap 2 (Some 1) ''l2''"

definition sample_byID :: "(int, ice_snapshot) gomap" where
  "sample_byID = [(1, first_snap), (2, second_snap)]"

lemma sample_history:
  "im_CurrentSnapshotID ice_meta_read = Some 2" "snapshotsByID ice_meta_read = Inr sample_byID" "map_of sample_byID 2 = Some second_snap"
  "walk_parents sample_byID second_snap = Some [second_snap, first_snap]"
  by (simp_all add: ice_meta_read_def ice_meta_sample_def snapshotsByID_def sample_snap_def map_put_def sample_byID_def
      walk_parents_step parent_of_def)

lemma ice_sample_instants: "ice_instants 0 [first_snap, second_snap] = [1000, 1001]"
  by (simp add: sample_snap_def ice_advanceCommitTime_def wrap64_def)

lemma ice_sample_change: "\<exists>c. changeForSnapshot sample_libs ice_sample_source ice_meta_read sample_byID second_snap = Inr c"
proof -
  obtain t2 where t2: "tableAsOfSnapshot ice_sample_source ice_meta_read second_snap = Inr t2"
    "dataFilesForSnapshot sample_libs ice_sample_source second_snap t2 = Inr [sample_file ''a'' 10 1, sample_file ''c'' 30 3]"
    using sample_files_at(2) [of 2 "Some 1"] by (auto simp: files_at_def)
  have "parent_files sample_libs ice_sample_source ice_meta_read sample_byID second_snap = files_at sample_libs ice_sample_source ice_meta_read first_snap"
    by (simp add: parent_files_def files_at_def sample_byID_def sample_snap_def [of 2])
  with t2 sample_files_at(1) [of 1 None] show ?thesis by (simp add: changeForSnapshot_def)
qed

lemma ice_sample_changes: "\<exists>ic. ice_GetChangesSince sample_libs ice_sample_source 1000 = Some (Inr ic)"
proof -
  have i: "isn_TimestampMs first_snap = 1000" "isn_TimestampMs second_snap = 1000" "isn_ParentSnapshotID first_snap = None"
    by (simp_all add: sample_snap_def)
  obtain c where "changeForSnapshot sample_libs ice_sample_source ice_meta_read sample_byID second_snap = Inr c" using ice_sample_change by blast
  then have "history_changes sample_libs ice_sample_source ice_meta_read sample_byID 1000 [second_snap, first_snap] = Inr [c\<lparr>CommitTime := 1001\<rparr>]"
    by (simp add: history_changes_def i ice_advanceCommitTime_def wrap64_def)
  then show ?thesis by (simp add: ice_GetChangesSince_def sample_latest ice_sample_table sample_history)
qed

theorem ice_changes_replay_witness:
  "\<exists>ic. ice_GetChangesSince sample_libs ice_sample_source 1000 = Some (Inr ic) \<and>
    map ChangeSourceIdentifier (TableChanges ic) = [''2''] \<and> map CommitTime (TableChanges ic) = [1001] \<and>
    file_content (foldl (\<lambda>l c. applyFilesDiff l (FilesDiff c)) [sample_file ''b'' 20 2, sample_file ''a'' 10 1] (TableChanges ic)) =
      {(''a'', 10, 1), (''c'', 30, 3)}"
proof -
  obtain ic where ic: "ice_GetChangesSince sample_libs ice_sample_source 1000 = Some (Inr ic)" using ice_sample_changes by blast
  have clear: "list_all (clear_files sample_libs ice_sample_source ice_meta_read) [second_snap, first_snap]"
    using sample_files_at(1) [of 1 None] sample_files_at(2) [of 2 "Some 1"] by (simp add: clear_files_def sample_file_def)
  have times: "ice_times_ok 0 (rev [second_snap, first_snap])" "ice_instants 0 (rev [second_snap, first_snap]) ! 0 = 1000"
    using ice_sample_instants by (simp_all add: ice_times_ok_def in_int64_def)
  have two: "formatInt 2 = ''2''" by code_simp
  have id: "isn_SnapshotID second_snap = 2" by (simp add: sample_snap_def)
  have "map ChangeSourceIdentifier (TableChanges ic) = map (formatInt \<circ> isn_SnapshotID) (drop (Suc 0) (rev [second_snap, first_snap])) \<and>
      map CommitTime (TableChanges ic) = drop (Suc 0) (ice_instants 0 (rev [second_snap, first_snap])) \<and>
      sorted_wrt (<) (ice_instants 0 (rev [second_snap, first_snap])) \<and>
      (\<exists>gs. files_at sample_libs ice_sample_source ice_meta_read second_snap = Inr gs \<and>
        file_content (foldl (\<lambda>l c. applyFilesDiff l (FilesDiff c)) [sample_file ''b'' 20 2, sample_file ''a'' 10 1] (TableChanges ic)) = file_content gs)"
    by (rule ice_changes_replay [OF sample_latest sample_history times(1) clear])
      (use ic times(2) sample_files_at(1) [of 1 None] in \<open>auto simp: file_content_def sample_file_def\<close>)
  then show ?thesis
    using ic ice_sample_instants sample_files_at(2) [of 2 "Some 1"] by (simp add: two id file_content_def sample_file_def)
qed

theorem ice_changes_return_witness: "\<exists>r. ice_GetChangesSince sample_libs ice_sample_source 0 = Some r"
  by (rule ice_changes_return [OF sample_latest])
    (simp add: ice_meta_read_def ice_meta_sample_def older_parent_def sample_snap_def)

text \<open>
  The target records the commit time of the table a change carries, here 1000, as its watermark, while the change itself
  has the instant 1001: the next read from the watermark delivers the change again, and a file it adds is then listed
  twice.
\<close>

lemma tied_change_redelivered:
  "\<exists>ic c. ice_GetChangesSince sample_libs ice_sample_source 1000 = Some (Inr ic) \<and> TableChanges ic = [c] \<and>
    CommitTime c = 1001 \<and> LatestCommitTime (TableAsOfChange c) = 1000"
proof -
  have i: "isn_TimestampMs first_snap = 1000" "isn_TimestampMs second_snap = 1000" "isn_ParentSnapshotID first_snap = None"
    by (simp_all add: sample_snap_def)
  obtain c where c: "changeForSnapshot sample_libs ice_sample_source ice_meta_read sample_byID second_snap = Inr c" using ice_sample_change by blast
  then have "LatestCommitTime (TableAsOfChange c) = 1000"
    by (auto simp: changeForSnapshot_def tableAsOfSnapshot_def ice_table_def i)
  moreover have "history_changes sample_libs ice_sample_source ice_meta_read sample_byID 1000 [second_snap, first_snap] = Inr [c\<lparr>CommitTime := 1001\<rparr>]"
    using c by (simp add: history_changes_def i ice_advanceCommitTime_def wrap64_def)
  ultimately show ?thesis by (simp add: ice_GetChangesSince_def sample_latest ice_sample_table sample_history)
qed

lemma added_twice: "map PhysicalPath (applyFilesDiff [sample_file ''c'' 30 3] (NewFilesDiff [sample_file ''c'' 30 3] [])) = [''c'', ''c'']"
  by (simp add: applyFilesDiff_def NewFilesDiff_def sample_file_def)

end
