(* ===== verification/Iceberg_Plan.thy ===== *)
theory Iceberg_Plan
  imports Iceberg_Target Iceberg_Codec
begin

text \<open>
  What a commit of the Iceberg target plans before it writes: a new snapshot identifier, the columns with those of
  the partition fields, and metadata that can be read back.
\<close>

section \<open>The previous metadata\<close>

text \<open>
  Column identifiers at most \<open>L\<close> and snapshot identifiers below \<open>K\<close>, so that there are numbers left; the parts a
  commit copies into the next metadata file are 64-bit.
\<close>

definition columns_within :: "int \<Rightarrow> ice_metadata \<Rightarrow> bool" where
  "columns_within L m \<longleftrightarrow> 0 \<le> im_LastColumnID m \<and> im_LastColumnID m \<le> L \<and>
     (\<exists>old. fieldPathIDs (schemaByID (im_Schemas m) (im_CurrentSchemaID m)) = Inr old \<and> recorded_within L old)"

definition snapshots_below :: "int \<Rightarrow> ice_metadata \<Rightarrow> bool" where
  "snapshots_below K m \<longleftrightarrow> pred_option in_int64 (im_CurrentSnapshotID m) \<and>
     list_all (\<lambda>p. \<exists>s. p = Some s \<and> snap_ok s \<and> isn_SnapshotID s < K) (im_Snapshots m)"

definition previous_ok :: "int \<Rightarrow> int \<Rightarrow> ice_metadata option \<Rightarrow> bool" where
  "previous_ok L K prev \<longleftrightarrow> 0 \<le> L \<and> K \<le> max_int64 \<and>
     pred_option (\<lambda>m. wf_map (im_Properties m) \<and> columns_within L m \<and> snapshots_below K m) prev"

lemma new_id_above:
  assumes "list_all (\<lambda>s. isn_SnapshotID s < K) snaps" and "now \<le> K" and "in_int64 now" and "K \<le> max_int64"
  defines "i \<equiv> foldl (\<lambda>i s. if isn_SnapshotID s \<ge> i then wrap64 (isn_SnapshotID s + 1) else i) now snaps"
  shows "now \<le> i" "i \<le> K" "in_int64 i" "list_all (\<lambda>s. isn_SnapshotID s < i) snaps"
proof -
  have "now \<le> foldl (\<lambda>i s. if isn_SnapshotID s \<ge> i then wrap64 (isn_SnapshotID s + 1) else i) now ss \<and>
      foldl (\<lambda>i s. if isn_SnapshotID s \<ge> i then wrap64 (isn_SnapshotID s + 1) else i) now ss \<le> K \<and>
      list_all (\<lambda>s. isn_SnapshotID s < foldl (\<lambda>i s. if isn_SnapshotID s \<ge> i then wrap64 (isn_SnapshotID s + 1) else i) now ss) ss"
    if "list_all (\<lambda>s. isn_SnapshotID s < K) ss" for ss
    using that
  proof (induction ss rule: rev_induct)
    case Nil
    then show ?case using assms(2) by simp
  next
    case (snoc s ss)
    define j where "j = foldl (\<lambda>i s. if isn_SnapshotID s \<ge> i then wrap64 (isn_SnapshotID s + 1) else i) now ss"
    from snoc have j: "now \<le> j" "j \<le> K" "list_all (\<lambda>s. isn_SnapshotID s < j) ss" "isn_SnapshotID s < K" by (simp_all add: j_def)
    show ?case
    proof (cases "isn_SnapshotID s \<ge> j")
      case True
      then have "in_int64 (isn_SnapshotID s + 1)" using j assms(3,4) by (simp add: in_int64_def)
      with True j show ?thesis by (auto simp: j_def [symmetric] list_all_iff)
    next
      case False
      with j show ?thesis by (simp add: j_def [symmetric])
    qed
  qed
  from this [OF assms(1)] show "now \<le> i" "i \<le> K" "list_all (\<lambda>s. isn_SnapshotID s < i) snaps" by (simp_all add: i_def)
  with assms(3,4) show "in_int64 i" by (simp add: in_int64_def)
qed

lemma new_snapshot_id_ok:
  assumes "new_snapshot_id now prev = Inr i" and "previous_ok L K prev" and "now \<le> K" and "in_int64 now"
  shows "i \<le> K" "in_int64 i" "pred_option (\<lambda>m. list_all (\<lambda>p. isn_SnapshotID (the p) < i) (im_Snapshots m)) prev"
proof -
  have "i \<le> K \<and> in_int64 i \<and> pred_option (\<lambda>m. list_all (\<lambda>p. isn_SnapshotID (the p) < i) (im_Snapshots m)) prev"
  proof (cases prev)
    case None
    with assms show ?thesis by (simp add: new_snapshot_id_def)
  next
    case (Some m)
    have "list_all (\<lambda>s. isn_SnapshotID s < K) (map the (im_Snapshots m))" "K \<le> max_int64"
      using assms(2) by (auto simp: Some previous_ok_def snapshots_below_def list_all_iff)
    from new_id_above [OF this(1) assms(3,4) this(2)] assms(1) show ?thesis
      by (auto simp: Some new_snapshot_id_def list_all_iff split: if_splits)
  qed
  then show "i \<le> K" "in_int64 i" "pred_option (\<lambda>m. list_all (\<lambda>p. isn_SnapshotID (the p) < i) (im_Snapshots m)) prev" by auto
qed

section \<open>Partition columns\<close>

text \<open>A partition field that is no column becomes one, optional and without its comment.\<close>

definition bare_schema :: "schema \<Rightarrow> schema" where
  "bare_schema s = Schema (SchemaName s) (DataType s) '''' True (Fields s) (ElementSchema s) (KeySchema s) (ValueSchema s)
     (RecordKeyFields s) (Metadata s)"

definition partition_col :: "field \<Rightarrow> field" where
  "partition_col f = mkField (FieldName f) (map_option bare_schema (FieldSchema f))"

text \<open>
  The columns a schema with the given column names gains: those of the partition fields that it lacks, each once, in the
  order of the partition fields.
\<close>

fun absent_columns :: "string list \<Rightarrow> partition_field list \<Rightarrow> field list" where
  "absent_columns names [] = []"
| "absent_columns names (pf # pfs) =
     (case SourceField pf of
        None \<Rightarrow> absent_columns names pfs
      | Some f \<Rightarrow>
          if FieldName f \<in> set names then absent_columns names pfs
          else partition_col f # absent_columns (names @ [FieldName f]) pfs)"

definition partition_ok :: "partition_field \<Rightarrow> bool" where
  "partition_ok pf \<longleftrightarrow> (\<exists>f s. SourceField pf = Some f \<and> FieldSchema f = Some s \<and> ice_ok s)"

definition slots_within :: "int \<Rightarrow> ice_field list \<Rightarrow> bool" where
  "slots_within M cols \<longleftrightarrow> list_all (\<lambda>(p, i). \<bar>i\<bar> \<le> M) (schema_slots cols)"

lemma slots_within_append [simp]: "slots_within M (xs @ ys) \<longleftrightarrow> slots_within M xs \<and> slots_within M ys"
  by (simp add: slots_within_def)

lemma slots_within_mono: "slots_within M cols \<Longrightarrow> M \<le> N \<Longrightarrow> slots_within N cols"
  by (fastforce simp: slots_within_def list_all_iff)

lemma slots_within_exact: "slots_within M cols \<Longrightarrow> M < 2 ^ 53 \<Longrightarrow> exact_slots (schema_slots cols)"
  by (fastforce simp: slots_within_def exact_slots_def exact_id_def list_all_iff)

lemma column_id_within: "slots_within M cols \<Longrightarrow> nf \<in> set cols \<Longrightarrow> \<bar>nf_ID nf\<bar> \<le> M"
  by (cases nf) (fastforce simp: slots_within_def list_all_iff)

lemma paths_append [simp]: "map fst (schema_slots (xs @ ys)) = map fst (schema_slots xs) @ map fst (schema_slots ys)"
  by simp

text \<open>The identifiers given out are positive.\<close>

definition slots_positive :: "ice_field list \<Rightarrow> bool" where
  "slots_positive cols \<longleftrightarrow> list_all (\<lambda>(p, i). 0 < i) (schema_slots cols)"

lemma slots_positive_append [simp]: "slots_positive (xs @ ys) \<longleftrightarrow> slots_positive xs \<and> slots_positive ys"
  by (simp add: slots_positive_def)

lemma column_id_positive: "slots_positive cols \<Longrightarrow> nf \<in> set cols \<Longrightarrow> 0 < nf_ID nf"
  by (cases nf) (fastforce simp: slots_positive_def list_all_iff)

lemma bare_simps [simp]:
  "ice_type_name (bare_schema s) = ice_type_name s" "DataType (bare_schema s) = DataType s" "IsNullable (bare_schema s)" "Comment (bare_schema s) = ''''"
  "decimal_precision (bare_schema s) = decimal_precision s" "decimal_scale (bare_schema s) = decimal_scale s" "fixed_size (bare_schema s) = fixed_size s"
  by (simp_all add: bare_schema_def ice_type_name_def decimal_precision_def decimal_scale_def fixed_size_def cong: dtype.case_cong)

lemma bare_ok: "ice_ok s \<Longrightarrow> ice_ok (bare_schema s)"
  by (subst ice_ok.simps, subst (asm) ice_ok.simps) (simp add: bare_schema_def decimal_precision_def decimal_scale_def fixed_size_def cong: dtype.case_cong)

lemma partition_column_reads:
  assumes "FieldSchema f = Some s" "ice_ok s" "convertTypeToIceberg (Some s) path prev n = Inr (TName nm, n')"
  shows "field_reads (IceField i (FieldName f) (TName nm) False '''' JNull JNull) (partition_col f) (bare_schema s)"
proof -
  have "ice_type_name s = Some nm"
    using assms(3) by (auto simp: convertTypeToIceberg.simps(2) Let_def split: option.splits prod.splits if_splits) (metis surj_pair option.distinct(1))+
  then have "ice_parse_name nm k = Inr (ice_form k (bare_schema s))" for k
    using ice_name_read [of "bare_schema s" nm k] bare_ok [OF assms(2)] by simp
  then show ?thesis by (simp add: field_reads_def reads_form_def partition_col_def)
qed

lemma partition_source_ok:
  assumes run: "partition_source old f cols lst = Inr (src, cols', lst')" and cols: "columns_read gs cols" "slots_within M cols"
    and M: "0 \<le> lst" "lst \<le> M" "recorded_within M old" "M + 1 < 2 ^ 53" and f: "FieldSchema f = Some s" "ice_ok s"
  shows "\<exists>new. columns_read (gs @ new) cols' \<and> set new \<subseteq> {partition_col f} \<and> slots_within (M + 1) cols' \<and>
    lst \<le> lst' \<and> lst' \<le> M + 1 \<and> \<bar>src\<bar> \<le> M + 1 \<and>
    map fst (schema_slots cols') = map fst (schema_slots cols) @ map FieldName new \<and>
    (recorded_positive old \<longrightarrow> slots_positive cols \<longrightarrow> slots_positive cols' \<and>
      new = (if FieldName f \<in> set (map FieldName gs) then [] else [partition_col f])) \<and>
    (alloc old b (schema_slots cols) (lst + 1) \<longrightarrow> recorded_below b old \<longrightarrow> b \<le> lst + 1 \<longrightarrow> alloc old b (schema_slots cols') (lst' + 1))"
proof -
  have names: "map nf_Name cols = map FieldName gs" using cols(1) by (rule columns_names)
  define i where "i = (case List.find (\<lambda>nf. nf_Name nf = FieldName f) cols of None \<Rightarrow> 0 | Some nf \<Rightarrow> nf_ID nf)"
  show ?thesis
  proof (cases "i = 0")
    case False
    then obtain nf where nf: "List.find (\<lambda>nf. nf_Name nf = FieldName f) cols = Some nf" "i = nf_ID nf"
      by (auto simp: i_def split: option.splits)
    then have "nf \<in> set cols" "nf_Name nf = FieldName f" by (auto simp: find_Some_iff)
    from column_id_within [OF cols(2) this(1)] nf(2) have "\<bar>i\<bar> \<le> M" by simp
    moreover from run False have "src = i" "cols' = cols" "lst' = lst" by (simp_all add: partition_source_def i_def [symmetric])
    moreover have "FieldName f \<in> set (map FieldName gs)"
      using \<open>nf \<in> set cols\<close> \<open>nf_Name nf = FieldName f\<close> unfolding names [symmetric] by (metis image_eqI set_map)
    ultimately show ?thesis using cols M slots_within_mono [OF cols(2), of "M + 1"] by (intro exI [of _ "[]"]) simp
  next
    case True
    define j where "j = (case map_of old (FieldName f) of Some i \<Rightarrow> i | None \<Rightarrow> wrap64 (lst + 1))"
    have w: "wrap64 (lst + 1) = lst + 1" using M by (simp add: in_int64_def)
    have j: "\<bar>j\<bar> \<le> M + 1" using M w by (fastforce simp: j_def recorded_within_def split: option.splits)
    from run True obtain ty n where ty: "convertTypeToIceberg (Some s) (FieldName f) old (wrap64 (j + 1)) = Inr (ty, n)"
      by (auto simp: partition_source_def i_def [symmetric] j_def [symmetric] Let_def f(1))
    with run True obtain nm where t: "convertTypeToIceberg (Some s) (FieldName f) old (wrap64 (j + 1)) = Inr (TName nm, n)"
      and r: "src = j" "cols' = cols @ [IceField j (FieldName f) (TName nm) False '''' JNull JNull]" "lst' = (if j > lst then j else lst)"
      by (cases ty) (auto simp: partition_source_def i_def [symmetric] j_def [symmetric] Let_def f(1))
    have "columns_read (gs @ [partition_col f]) cols'"
      unfolding r(2) columns_read_def
      by (rule list_all2_appendI [OF cols(1) [unfolded columns_read_def]])
        (use partition_column_reads [OF f t] in \<open>simp add: partition_col_def f(1)\<close>)
    moreover have "slots_within (M + 1) cols'"
      using slots_within_mono [OF cols(2), of "M + 1"] j by (simp add: r(2) slots_within_def)
    moreover have "map fst (schema_slots cols') = map fst (schema_slots cols) @ map FieldName [partition_col f]"
      by (simp add: r(2) join_path_def partition_col_def)
    moreover have "slots_positive cols' \<and> FieldName f \<notin> set (map FieldName gs)" if "recorded_positive old" "slots_positive cols"
    proof -
      have "0 < j" using that(1) M(1) w by (auto simp: j_def recorded_positive_def split: option.split)
      have "nf_Name nf \<noteq> FieldName f" if "nf \<in> set cols" for nf
      proof
        assume "nf_Name nf = FieldName f"
        with \<open>nf \<in> set cols\<close> obtain nf' where "List.find (\<lambda>nf. nf_Name nf = FieldName f) cols = Some nf'"
          by (cases "List.find (\<lambda>nf. nf_Name nf = FieldName f) cols") (auto simp: find_None_iff)
        moreover from this have "nf' \<in> set cols" by (auto simp: find_Some_iff)
        ultimately show False using column_id_positive [OF \<open>slots_positive cols\<close>, of nf'] True by (simp add: i_def)
      qed
      then have "FieldName f \<notin> set (map FieldName gs)" unfolding names [symmetric] by (metis (no_types) imageE set_map)
      with \<open>0 < j\<close> show ?thesis using that(2) by (simp add: r(2)) (simp add: slots_positive_def)
    qed
    moreover have "alloc old b (schema_slots cols') (lst' + 1)"
      if "alloc old b (schema_slots cols) (lst + 1)" "recorded_below b old" "b \<le> lst + 1"
    proof -
      have "alloc old (lst + 1) [(FieldName f, j)] (lst' + 1)" "lst \<le> lst'"
        using that(2,3) w by (auto simp: alloc_def r(3) j_def recorded_below_def split: option.splits)
      with alloc_append [OF that(1) this(1)] that(3) show ?thesis by (simp add: r(2) join_path_def)
    qed
    ultimately show ?thesis using r j M by (intro exI [of _ "[partition_col f]"]) auto
  qed
qed

lemma partition_defs_ok:
  assumes "partition_defs old pfs idx cols lst = Inr (defs, cols', lst')" and "columns_read gs cols" "slots_within M cols"
    and "0 \<le> lst" "lst \<le> M" "recorded_within M old" "M + int (length pfs) < 2 ^ 53" and "list_all partition_ok pfs" and "0 \<le> idx" "idx + int (length pfs) < 2 ^ 53"
  shows "\<exists>new. columns_read (gs @ new) cols' \<and> set new \<subseteq> {partition_col f |f. Some f \<in> SourceField ` set pfs} \<and>
    slots_within (M + int (length pfs)) cols' \<and> lst \<le> lst' \<and> lst' \<le> M + int (length pfs) \<and> length defs = length pfs \<and>
    list_all (\<lambda>d. in_int64 (ipf_SourceID d) \<and> in_int64 (ipf_FieldID d)) defs \<and>
    map fst (schema_slots cols') = map fst (schema_slots cols) @ map FieldName new \<and>
    (recorded_positive old \<longrightarrow> slots_positive cols \<longrightarrow> slots_positive cols' \<and> new = absent_columns (map FieldName gs) pfs) \<and>
    (alloc old b (schema_slots cols) (lst + 1) \<longrightarrow> recorded_below b old \<longrightarrow> b \<le> lst + 1 \<longrightarrow> alloc old b (schema_slots cols') (lst' + 1))"
  using assms
proof (induction pfs arbitrary: idx cols lst gs M defs)
  case Nil
  then show ?case by (intro exI [of _ "[]"]) simp
next
  case (Cons pf pfs)
  from Cons.prems(8) obtain f s where f: "SourceField pf = Some f" "FieldSchema f = Some s" "ice_ok s" by (auto simp: partition_ok_def)
  from Cons.prems(1) f(1) obtain src cols1 lst1 defs1 where s: "partition_source old f cols lst = Inr (src, cols1, lst1)"
    and d: "partition_defs old pfs (idx + 1) cols1 lst1 = Inr (defs1, cols', lst')"
    and defs: "defs = \<lparr>ipf_SourceID = src, ipf_FieldID = 1000 + idx, ipf_Name = FieldName f, ipf_Transform = ''identity''\<rparr> # defs1"
    by (auto split: if_splits)
  obtain new1 where n1: "columns_read (gs @ new1) cols1" "set new1 \<subseteq> {partition_col f}" "slots_within (M + 1) cols1" "lst \<le> lst1" "lst1 \<le> M + 1"
    "\<bar>src\<bar> \<le> M + 1" "map fst (schema_slots cols1) = map fst (schema_slots cols) @ map FieldName new1"
    "recorded_positive old \<Longrightarrow> slots_positive cols \<Longrightarrow> slots_positive cols1 \<and>
      new1 = (if FieldName f \<in> set (map FieldName gs) then [] else [partition_col f])"
    "alloc old b (schema_slots cols) (lst + 1) \<Longrightarrow> recorded_below b old \<Longrightarrow> b \<le> lst + 1 \<Longrightarrow> alloc old b (schema_slots cols1) (lst1 + 1)"
    using partition_source_ok [where b = b, OF s Cons.prems(2-6) _ f(2,3)] Cons.prems(7) by auto
  have "\<exists>new. columns_read ((gs @ new1) @ new) cols' \<and> set new \<subseteq> {partition_col f |f. Some f \<in> SourceField ` set pfs} \<and>
      slots_within (M + 1 + int (length pfs)) cols' \<and> lst1 \<le> lst' \<and> lst' \<le> M + 1 + int (length pfs) \<and> length defs1 = length pfs \<and>
      list_all (\<lambda>d. in_int64 (ipf_SourceID d) \<and> in_int64 (ipf_FieldID d)) defs1 \<and>
      map fst (schema_slots cols') = map fst (schema_slots cols1) @ map FieldName new \<and>
      (recorded_positive old \<longrightarrow> slots_positive cols1 \<longrightarrow> slots_positive cols' \<and> new = absent_columns (map FieldName (gs @ new1)) pfs) \<and>
      (alloc old b (schema_slots cols1) (lst1 + 1) \<longrightarrow> recorded_below b old \<longrightarrow> b \<le> lst1 + 1 \<longrightarrow> alloc old b (schema_slots cols') (lst' + 1))"
  proof (rule Cons.IH [OF d n1(1,3)])
    show "recorded_within (M + 1) old" using Cons.prems(6) by (fastforce simp: recorded_within_def)
  qed (use Cons.prems n1 in auto)
  then obtain new where n: "columns_read ((gs @ new1) @ new) cols'" "set new \<subseteq> {partition_col f |f. Some f \<in> SourceField ` set pfs}"
    "slots_within (M + 1 + int (length pfs)) cols'" "lst1 \<le> lst'" "lst' \<le> M + 1 + int (length pfs)" "length defs1 = length pfs"
    "list_all (\<lambda>d. in_int64 (ipf_SourceID d) \<and> in_int64 (ipf_FieldID d)) defs1"
    "map fst (schema_slots cols') = map fst (schema_slots cols1) @ map FieldName new"
    "recorded_positive old \<Longrightarrow> slots_positive cols1 \<Longrightarrow> slots_positive cols' \<and> new = absent_columns (map FieldName (gs @ new1)) pfs"
    "alloc old b (schema_slots cols1) (lst1 + 1) \<Longrightarrow> recorded_below b old \<Longrightarrow> b \<le> lst1 + 1 \<Longrightarrow> alloc old b (schema_slots cols') (lst' + 1)"
    by blast
  have "in_int64 src" "in_int64 (1000 + idx)" using n1(6) Cons.prems(7,9,10) by (auto simp: in_int64_def)
  moreover have "set (new1 @ new) \<subseteq> {partition_col f |f. Some f \<in> SourceField ` set (pf # pfs)}" using n1(2) n(2) f(1) by force
  moreover have "slots_positive cols' \<and> new1 @ new = absent_columns (map FieldName gs) (pf # pfs)"
    if pos: "recorded_positive old" "slots_positive cols"
    using n1(8) [OF pos] n(9) [OF pos(1)] f(1) by (auto simp: partition_col_def)
  moreover have "alloc old b (schema_slots cols') (lst' + 1)"
    if al: "alloc old b (schema_slots cols) (lst + 1)" "recorded_below b old" "b \<le> lst + 1"
    using n(10) [OF n1(9) [OF al] al(2)] al(3) n1(4) by simp
  moreover have "map fst (schema_slots cols') = map fst (schema_slots cols) @ map FieldName (new1 @ new)"
    using n1(7) n(8) by (simp only: map_append append_assoc)
  ultimately show ?case using n(1,3-7) n1(4) defs by (intro exI [of _ "new1 @ new"]) (simp add: ac_simps)
qed

section \<open>The plan\<close>

definition ice_growth :: "table \<Rightarrow> int" where
  "ice_growth T = (case ReadSchema T of None \<Rightarrow> 0 | Some s \<Rightarrow> int (size s)) + int (length (PartitioningFields T))"

text \<open>A table the target can take when the identifiers given so far are at most \<open>L\<close>.\<close>

definition ice_table_ok :: "int \<Rightarrow> table \<Rightarrow> bool" where
  "ice_table_ok L T \<longleftrightarrow>
     (\<exists>s. ReadSchema T = Some s \<and> ice_ok s \<and> DataType s = TypeRecord \<and> list_all (\<lambda>i. i \<le> L) (explicit_ids s)) \<and>
     L + ice_growth T < 2 ^ 53 \<and> list_all partition_ok (PartitioningFields T)"

definition new_columns :: "table \<Rightarrow> field set" where
  "new_columns T = {partition_col f |f. Some f \<in> SourceField ` set (PartitioningFields T)}"

text \<open>
  The column identifiers the metadata has on record: they may be required to be positive, and further to be distinct
  and at most the last column identifier, as those are that this code assigned.
\<close>

definition record_ids :: "ice_metadata option \<Rightarrow> (string, int) gomap \<Rightarrow> bool" where
  "record_ids prev old \<longleftrightarrow>
     fieldPathIDs (case prev of None \<Rightarrow> None | Some m \<Rightarrow> schemaByID (im_Schemas m) (im_CurrentSchemaID m)) = Inr old"

definition ids_positive :: "ice_metadata option \<Rightarrow> bool" where
  "ids_positive prev \<longleftrightarrow> (\<forall>old. record_ids prev old \<longrightarrow> recorded_positive old)"

definition ids_in_order :: "ice_metadata option \<Rightarrow> bool" where
  "ids_in_order prev \<longleftrightarrow>
     (\<forall>old. record_ids prev old \<longrightarrow>
        recorded_positive old \<and> recorded_below ((case prev of None \<Rightarrow> 0 | Some m \<Rightarrow> im_LastColumnID m) + 1) old \<and>
        (\<forall>p q i. map_of old p = Some i \<and> map_of old q = Some i \<longrightarrow> p = q))"

definition slots_unique :: "int \<Rightarrow> ice_field list \<Rightarrow> bool" where
  "slots_unique l cols \<longleftrightarrow>
     (\<forall>(p, i) \<in> set (schema_slots cols). i \<le> l) \<and>
     (\<forall>p q i. (p, i) \<in> set (schema_slots cols) \<and> (q, i) \<in> set (schema_slots cols) \<longrightarrow> p = q)"

definition plan_columns :: "table \<Rightarrow> ice_plan \<Rightarrow> field list \<Rightarrow> ice_field list \<Rightarrow> bool" where
  "plan_columns T p gs cols \<longleftrightarrow>
     (\<exists>s new. ReadSchema T = Some s \<and> gs = Fields s @ new \<and> map fst (schema_slots cols) = column_paths s @ map FieldName new \<and>
        (ids_positive (pl_prev p) \<longrightarrow> slots_positive cols \<and> new = absent_columns (map FieldName (Fields s)) (PartitioningFields T)) \<and>
        (ids_in_order (pl_prev p) \<and> explicit_ids s = [] \<longrightarrow> slots_unique (pl_lastColumnID p) cols))"

lemma alloc_unique:
  assumes al: "alloc old (b + 1) (schema_slots cols) (l + 1)" and below: "recorded_below (b + 1) old" and "b \<le> l"
    and inj: "\<And>p q i. map_of old p = Some i \<Longrightarrow> map_of old q = Some i \<Longrightarrow> p = q"
  shows "slots_unique l cols"
proof -
  have "i \<le> l" if "(p, i) \<in> set (schema_slots cols)" for p i
    using alloc_at [OF al that] below assms(3) by (fastforce simp: recorded_below_def split: option.splits)
  moreover have "p = q" if "(p, i) \<in> set (schema_slots cols)" "(q, i) \<in> set (schema_slots cols)" for p q i
    using alloc_pair [OF al that _ below] inj by blast
  ultimately show ?thesis unfolding slots_unique_def by blast
qed

lemma slot_ids: "set (map nf_ID cols) \<subseteq> set (map snd (schema_slots cols))"
proof (induction cols)
  case (Cons f cols)
  then show ?case by (cases f) auto
qed simp

text \<open>Distinct slots with distinct paths are columns with distinct identifiers.\<close>

lemma unique_ids:
  assumes "slots_unique l cols" "distinct (map fst (schema_slots cols))"
  shows "distinct (map nf_ID cols)"
proof -
  have "inj_on snd (set (schema_slots cols))"
    using assms(1) unfolding slots_unique_def by (intro inj_onI) (metis prod.collapse)
  then have "distinct (map snd (schema_slots cols))"
    using assms(2) by (simp only: distinct_map)
  then show ?thesis
  proof (induction cols)
    case (Cons f cols)
    have d: "distinct (map snd (field_slots f '''') @ map snd (schema_slots cols))" using Cons.prems by simp
    moreover have "nf_ID f \<in> set (map snd (field_slots f ''''))" by (cases f) simp
    ultimately have "nf_ID f \<notin> set (map nf_ID cols)" using slot_ids [of cols] by (simp only: distinct_append) blast
    moreover have "distinct (map snd (schema_slots cols))" using d by (simp only: distinct_append)
    ultimately show ?case using Cons.IH by simp
  qed simp
qed

definition plan_ok :: "int \<Rightarrow> int \<Rightarrow> table \<Rightarrow> ice_plan \<Rightarrow> field list \<Rightarrow> ice_field list \<Rightarrow> bool" where
  "plan_ok L K T p gs cols \<longleftrightarrow>
     pl_schema p = built_schema (pl_schemaID p) cols \<and> columns_read gs cols \<and> slots_within (L + ice_growth T) cols \<and>
     (\<exists>s new. ReadSchema T = Some s \<and> gs = Fields s @ new \<and> set new \<subseteq> new_columns T) \<and>
     0 \<le> pl_lastColumnID p \<and> pl_lastColumnID p \<le> L + ice_growth T \<and> in_int64 (pl_schemaID p) \<and>
     list_all (\<lambda>d. in_int64 (ipf_SourceID d) \<and> in_int64 (ipf_FieldID d)) (pl_defs p) \<and>
     length (pl_defs p) = length (PartitioningFields T) \<and> in_int64 (pl_snapshotID p) \<and> pl_snapshotID p \<le> K \<and>
     pred_option (\<lambda>m. list_all (\<lambda>q. isn_SnapshotID (the q) < pl_snapshotID p) (im_Snapshots m)) (pl_prev p) \<and> plan_columns T p gs cols"

lemma map_filter_ids [simp]: "List.map_filter (\<lambda>f. f) (map Some xs) = xs"
  by (induction xs) (simp_all add: List.map_filter_simps)

lemma plan_facts:
  assumes run: "plan_commit now src T = Inr p" and prev: "previous_commit src = Inr (v, prev)" "previous_ok L K prev"
    and now: "now \<le> K" "in_int64 now" and T: "ice_table_ok L T"
  obtains gs cols where "plan_ok L K T p gs cols" "pl_version p = v" "pl_prev p = prev"
proof -
  define schemaID where "schemaID = (case prev of None \<Rightarrow> 0 | Some m \<Rightarrow> wrap64 (im_CurrentSchemaID m + 1))"
  define prevSchema where "prevSchema = (case prev of None \<Rightarrow> None | Some m \<Rightarrow> schemaByID (im_Schemas m) (im_CurrentSchemaID m))"
  define prevLast where "prevLast = (case prev of None \<Rightarrow> 0 | Some m \<Rightarrow> im_LastColumnID m)"
  obtain s where s: "ReadSchema T = Some s" "ice_ok s" "DataType s = TypeRecord" "list_all (\<lambda>i. i \<le> L) (explicit_ids s)"
    using T by (auto simp: ice_table_ok_def)
  have grow: "ice_growth T = int (size s) + int (length (PartitioningFields T))" by (simp add: ice_growth_def s(1))
  obtain old where old: "fieldPathIDs prevSchema = Inr old" "recorded_within L old"
    using prev(2) by (cases prev) (auto simp: prevSchema_def previous_ok_def columns_within_def fieldPathIDs_def recorded_within_def)
  have lst: "0 \<le> prevLast" "prevLast \<le> L"
    using prev(2) by (auto simp: prevLast_def previous_ok_def columns_within_def split: option.splits)
  obtain fs l where conv: "SchemaToIceberg (Some s) schemaID prevSchema prevLast = Inr (built_schema schemaID fs, l)"
    and fs: "columns_read (Fields s) fs" "prevLast \<le> l" "l \<le> L + int (size s)" "slots_within (L + int (size s)) fs"
      "recorded_positive old \<Longrightarrow> slots_positive fs" "map fst (schema_slots fs) = column_paths s"
      "recorded_below (prevLast + 1) old \<Longrightarrow> explicit_ids s = [] \<Longrightarrow> alloc old (prevLast + 1) (schema_slots fs) (l + 1)"
    by (rule schema_converted [OF s(2,3) old lst s(4), of schemaID]) (use T grow in \<open>auto simp: ice_table_ok_def slots_within_def slots_positive_def\<close>)
  from run obtain sid defs cols l' where sid: "new_snapshot_id now prev = Inr sid"
    and d: "partition_defs old (PartitioningFields T) 0 fs l = Inr (defs, cols, l')"
    and p: "p = \<lparr>pl_version = v, pl_prev = prev, pl_snapshotID = sid, pl_schemaID = schemaID,
             pl_schema = built_schema schemaID cols, pl_lastColumnID = l', pl_defs = defs\<rparr>"
    by (auto simp: plan_commit_def prev(1) s(1) conv old(1) Let_def schemaID_def [symmetric] prevSchema_def [symmetric]
        prevLast_def [symmetric] built_schema_def [of schemaID fs]) (auto simp: built_schema_def)
  obtain new where new: "columns_read (Fields s @ new) cols" "set new \<subseteq> new_columns T"
    "slots_within (L + int (size s) + int (length (PartitioningFields T))) cols" "l \<le> l'"
    "l' \<le> L + int (size s) + int (length (PartitioningFields T))" "length defs = length (PartitioningFields T)"
    "list_all (\<lambda>d. in_int64 (ipf_SourceID d) \<and> in_int64 (ipf_FieldID d)) defs"
    "map fst (schema_slots cols) = map fst (schema_slots fs) @ map FieldName new"
    "recorded_positive old \<Longrightarrow> slots_positive fs \<Longrightarrow>
      slots_positive cols \<and> new = absent_columns (map FieldName (Fields s)) (PartitioningFields T)"
    "alloc old (prevLast + 1) (schema_slots fs) (l + 1) \<Longrightarrow> recorded_below (prevLast + 1) old \<Longrightarrow>
      alloc old (prevLast + 1) (schema_slots cols) (l' + 1)"
  proof -
    have "recorded_within (L + int (size s)) old" using old(2) by (fastforce simp: recorded_within_def)
    moreover have "int (length (PartitioningFields T)) < 2 ^ 53" "0 \<le> L" using T grow prev(2) by (auto simp: ice_table_ok_def previous_ok_def)
    ultimately show ?thesis
      using partition_defs_ok [where b = "prevLast + 1", OF d fs(1,4)] fs(2,3) lst T grow that unfolding new_columns_def
      by (auto simp: ice_table_ok_def)
  qed
  have "record_ids prev old" using old(1) by (simp add: record_ids_def prevSchema_def)
  then have pc: "plan_columns T p (Fields s @ new) cols"
    using fs(2,5-7) new(4,8-10) s(1) unfolding plan_columns_def ids_positive_def ids_in_order_def p
    by (intro exI [of _ s] exI [of _ new]) (auto simp: prevLast_def [symmetric] intro!: alloc_unique)
  have "in_int64 schemaID" by (simp add: schemaID_def in_int64_def [of 0] split: option.split)
  then have "plan_ok L K T p (Fields s @ new) cols"
    using pc new(1-7) new_snapshot_id_ok [OF sid prev(2) now] fs(2) lst(1) s(1) by (simp add: plan_ok_def p grow add.assoc)
  with that [of "Fields s @ new" cols] show ?thesis by (simp add: p)
qed

section \<open>The metadata of a commit\<close>

definition plan_snapshots :: "ice_plan \<Rightarrow> ice_snapshot list" where
  "plan_snapshots p = (case pl_prev p of None \<Rightarrow> [] | Some m \<Rightarrow> map the (im_Snapshots m))"

lemma plan_snapshots_ok:
  assumes "previous_ok L K (pl_prev p)"
  shows "(case pl_prev p of None \<Rightarrow> [] | Some m \<Rightarrow> im_Snapshots m) = map Some (plan_snapshots p)"
    "list_all snap_ok (plan_snapshots p)" "list_all (\<lambda>s. isn_SnapshotID s < K) (plan_snapshots p)" "pred_option in_int64 (plan_parent p)"
proof -
  have all: "map Some (map the xs) = xs" if "list_all (\<lambda>p. \<exists>s. p = Some s \<and> Q s) xs" for xs and Q :: "ice_snapshot \<Rightarrow> bool"
    using that by (induction xs) auto
  show "(case pl_prev p of None \<Rightarrow> [] | Some m \<Rightarrow> im_Snapshots m) = map Some (plan_snapshots p)"
  proof (cases "pl_prev p")
    case (Some m)
    then have "list_all (\<lambda>p. \<exists>s. p = Some s \<and> snap_ok s \<and> isn_SnapshotID s < K) (im_Snapshots m)"
      using assms by (simp add: previous_ok_def snapshots_below_def)
    from all [OF this] Some show ?thesis by (simp add: plan_snapshots_def)
  qed (simp add: plan_snapshots_def)
  show "list_all snap_ok (plan_snapshots p)" "list_all (\<lambda>s. isn_SnapshotID s < K) (plan_snapshots p)"
    using assms by (cases "pl_prev p"; fastforce simp: plan_snapshots_def previous_ok_def snapshots_below_def list_all_iff)+
  show "pred_option in_int64 (plan_parent p)"
    using assms by (cases "pl_prev p") (auto simp: plan_parent_def previous_ok_def snapshots_below_def)
qed

lemma record_ok:
  assumes "previous_ok L K (pl_prev p)" "plan_ok L K T p gs cols" "in_int64 now"
  shows "snap_ok (snapshot_record p now path n)"
proof -
  have "in_int64 (plan_sequence p)" by (simp add: plan_sequence_def in_int64_def [of 1] split: option.split)
  with assms plan_snapshots_ok(4) [OF assms(1)] show ?thesis by (simp add: snap_ok_def snapshot_record_def plan_ok_def wf_map_def)
qed

lemma planned_metadata_ok:
  assumes p: "plan_ok L K T p gs cols" "previous_ok L K (pl_prev p)" and T: "ice_table_ok L T" and "wf_map props" "in_int64 (ist_millis stamp)"
  shows "metadata_ok (pl_schemaID p) cols (plan_snapshots p @ [snapshot_record p (ist_millis stamp) path n])
    (commit_metadata stamp B p props (snapshot_record p (ist_millis stamp) path n))"
proof -
  have bounds: "L + ice_growth T < 2 ^ 53" "0 \<le> L" "int (length (PartitioningFields T)) \<le> ice_growth T"
    using T p(2) by (simp_all add: ice_table_ok_def previous_ok_def ice_growth_def split: option.split)
  have "exact_slots (schema_slots cols)" using p(1) bounds(1) slots_within_exact by (auto simp: plan_ok_def)
  moreover have "list_all built_field cols" using p(1) columns_built by (auto simp: plan_ok_def)
  moreover have "spec_ok (plan_spec p)" using p(1) by (auto simp: spec_ok_def plan_spec_def plan_ok_def in_int64_def list_all_iff)
  moreover have "in_int64 (plan_sequence p)" by (simp add: plan_sequence_def in_int64_def [of 1] split: option.split)
  moreover have "in_int64 (pl_lastColumnID p)" "in_int64 (1000 + int (length (pl_defs p)))"
    using p(1) bounds by (auto simp: plan_ok_def in_int64_def)
  ultimately show ?thesis
    using assms plan_snapshots_ok(1,2) [OF p(2)] record_ok [OF p(2,1), of "ist_millis stamp" path n]
    by (simp add: metadata_ok_def commit_metadata_def plan_ok_def unsorted_order_def icebergFormatVersion_def in_int64_def [of 0] in_int64_def [of 2])
qed

text \<open>What is read of it.\<close>

definition read_plan :: "ice_stamp \<Rightarrow> string \<Rightarrow> ice_plan \<Rightarrow> (string, string) gomap \<Rightarrow> ice_snapshot \<Rightarrow> ice_field list \<Rightarrow> ice_metadata" where
  "read_plan stamp B p props snap cols =
     read_metadata (pl_schemaID p) cols (plan_snapshots p @ [snap]) (commit_metadata stamp B p props snap)"

lemma read_plan_simps [simp]:
  "im_FormatVersion (read_plan stamp B p props snap cols) = 2" "im_LastUpdatedMs (read_plan stamp B p props snap cols) = ist_millis stamp"
  "im_CurrentSchemaID (read_plan stamp B p props snap cols) = pl_schemaID p" "im_Properties (read_plan stamp B p props snap cols) = sort_key fst props"
  "im_CurrentSnapshotID (read_plan stamp B p props snap cols) = Some (pl_snapshotID p)"
  "im_Snapshots (read_plan stamp B p props snap cols) = map (Some \<circ> canon_snap) (plan_snapshots p @ [snap])"
  "im_Schemas (read_plan stamp B p props snap cols) = [Some (reread_schema (pl_schemaID p) cols)]"
  "im_LastColumnID (read_plan stamp B p props snap cols) = pl_lastColumnID p"
  "im_PartitionSpecs (read_plan stamp B p props snap cols) = [Some (plan_spec p)]" "im_DefaultSpecID (read_plan stamp B p props snap cols) = 0"
  by (simp_all add: read_plan_def read_metadata_def commit_metadata_def icebergFormatVersion_def)

lemma reread_id [simp]: "is_SchemaID (reread_schema i cols) = i"
  by (simp add: reread_schema_def built_schema_def)

lemma read_plan_previous:
  assumes p: "plan_ok L K T p gs cols" "previous_ok L K (pl_prev p)" and T: "ice_table_ok L T" and "wf_map props" and "K < max_int64"
    and snap: "snap_ok snap" "isn_SnapshotID snap = pl_snapshotID p"
  shows "previous_ok (L + ice_growth T) (K + 1) (Some (read_plan stamp B p props snap cols))"
proof -
  let ?m = "read_plan stamp B p props snap cols"
  have b: "list_all built_field cols" using p(1) columns_built by (auto simp: plan_ok_def)
  have w: "slots_within (L + ice_growth T) cols" using p(1) by (simp add: plan_ok_def)
  moreover have "L + ice_growth T < 2 ^ 53" using T by (simp add: ice_table_ok_def)
  ultimately have e: "exact_slots (schema_slots cols)" by (rule slots_within_exact)
  have "schemaByID (im_Schemas ?m) (im_CurrentSchemaID ?m) = Some (reread_schema (pl_schemaID p) cols)" by (simp add: schemaByID_def)
  then have "columns_within (L + ice_growth T) ?m"
    using schema_path_ids(1) [OF b e] recorded_slots(1) [OF b] w p(1)
    by (fastforce simp: columns_within_def recorded_within_def plan_ok_def slots_within_def list_all_iff)
  moreover have "snapshots_below (K + 1) ?m"
    using plan_snapshots_ok(2,3) [OF p(2)] snap p(1) by (fastforce simp: snapshots_below_def list_all_iff plan_ok_def)
  moreover have "0 \<le> ice_growth T" by (simp add: ice_growth_def split: option.split)
  ultimately show ?thesis using assms(4,5) p(2) by (simp add: previous_ok_def wf_map_def distinct_map)
qed

lemma read_plan_ids:
  assumes p: "plan_ok L K T p gs cols" and T: "ice_table_ok L T" "ReadSchema T = Some s"
  shows "ids_positive (pl_prev p) \<Longrightarrow> ids_positive (Some (read_plan stamp B p props snap cols))"
    and "ids_in_order (pl_prev p) \<Longrightarrow> explicit_ids s = [] \<Longrightarrow> ids_in_order (Some (read_plan stamp B p props snap cols))"
proof -
  let ?m = "read_plan stamp B p props snap cols"
  have b: "list_all built_field cols" using p columns_built by (auto simp: plan_ok_def)
  have e: "exact_slots (schema_slots cols)"
    by (rule slots_within_exact [of "L + ice_growth T"]) (use p T in \<open>simp_all add: plan_ok_def ice_table_ok_def\<close>)
  have "schemaByID (im_Schemas ?m) (im_CurrentSchemaID ?m) = Some (reread_schema (pl_schemaID p) cols)" by (simp add: schemaByID_def)
  then have ids: "record_ids (Some ?m) old \<Longrightarrow> map_of old q = Some i \<Longrightarrow> (q, i) \<in> set (schema_slots cols)" for old q i
    using schema_path_ids(1) [OF b e] recorded_slots(1) [OF b] by (simp add: record_ids_def)
  from p have c: "plan_columns T p gs cols" by (simp add: plan_ok_def)
  show "ids_positive (Some ?m)" if "ids_positive (pl_prev p)"
  proof -
    have pos: "list_all (\<lambda>(p, i). 0 < i) (schema_slots cols)" using c that by (auto simp: plan_columns_def slots_positive_def)
    show ?thesis unfolding ids_positive_def recorded_positive_def
      by (intro allI impI) (rule list_all_pair [OF pos ids])
  qed
  show "ids_in_order (Some ?m)" if o: "ids_in_order (pl_prev p)" "explicit_ids s = []"
  proof -
    have "ids_positive (pl_prev p)" using o(1) by (simp add: ids_positive_def ids_in_order_def)
    with c o T(2) have pos: "list_all (\<lambda>(p, i). 0 < i) (schema_slots cols)" and u: "slots_unique (pl_lastColumnID p) cols"
      by (auto simp: plan_columns_def slots_positive_def)
    have below: "i \<le> pl_lastColumnID p" if "(q, i) \<in> set (schema_slots cols)" for q i
      using u that unfolding slots_unique_def by blast
    show ?thesis
      unfolding ids_in_order_def recorded_positive_def recorded_below_def option.case read_plan_simps
    proof (intro allI impI conjI)
      fix old q i assume r: "record_ids (Some ?m) old" "map_of old q = Some i"
      note s = ids [OF r]
      show "0 < i" by (rule list_all_pair [OF pos s])
      show "i < pl_lastColumnID p + 1" using below [OF s] by simp
    next
      fix old q q' i assume "record_ids (Some ?m) old" "map_of old q = Some i \<and> map_of old q' = Some i"
      with ids u show "q = q'" unfolding slots_unique_def by metis
    qed
  qed
qed

lemma read_plan_resolves:
  assumes "plan_ok L K T p gs cols"
  shows "\<exists>pfs. resolveSchemaAndPartitions (read_plan stamp B p props snap cols) (pl_schemaID p) = Inr (read_columns gs cols, pfs) \<and>
    list_all (\<lambda>pf. SourceField pf \<noteq> None) pfs"
proof -
  have "\<exists>pfs. map_res (spec_partition_field sc) (map Some ds) = Inr pfs \<and> list_all (\<lambda>pf. SourceField pf \<noteq> None) pfs" for sc ds
  proof (induction ds)
    case (Cons d ds)
    obtain pf where "spec_partition_field sc (Some d) = Inr pf" "SourceField pf \<noteq> None" by (simp add: spec_partition_field_def)
    with Cons show ?case by auto
  qed simp
  then obtain pfs where "map_res (spec_partition_field (read_columns gs cols)) (map Some (pl_defs p)) = Inr pfs"
    "list_all (\<lambda>pf. SourceField pf \<noteq> None) pfs" by blast
  moreover have "IcebergToSchema (Some (reread_schema (pl_schemaID p) cols)) = Inr (read_columns gs cols)"
    using assms schema_reads by (auto simp: plan_ok_def)
  ultimately show ?thesis by (simp add: resolveSchemaAndPartitions_def plan_spec_def)
qed

end
