(* ===== verification/Iceberg_Avro.thy ===== *)
theory Iceberg_Avro
  imports Iceberg_Manifest
begin

text \<open>
  What is read back from a manifest or a manifest list. The theorems assume of the Avro library that a reader yields the
  records that \<^verbatim>\<open>manifest.go\<close> wrote under its two schemas: a value comes back as the Go value of its Avro type (an int as
  \<^verbatim>\<open>int\<close>, a long as \<^verbatim>\<open>int64\<close>, a float with the same bits), and an array behind a nullable union possibly in the envelope
  of its branch.
\<close>

section \<open>The library\<close>

inductive avro_back :: "any \<Rightarrow> any \<Rightarrow> bool" where
  back_nil: "avro_back ANil ANil"
| back_bool: "avro_back (ABool b) (ABool b)"
| back_int: "avro_back (AInt i) (AInt i)"
| back_int_long: "avro_back (AInt i) (AInt64 i)"
| back_int32: "avro_back (AInt32 i) (AInt i)"
| back_long: "avro_back (AInt64 i) (AInt64 i)"
| back_float: "float32_bits (widen f) = float32_bits (widen g) \<Longrightarrow> avro_back (AFloat32 f) (AFloat32 g)"
| back_double: "float64_bits f = float64_bits g \<Longrightarrow> avro_back (AFloat64 f) (AFloat64 g)"
| back_string: "avro_back (AStr s) (AStr s)"
| back_bytes: "avro_back (ABytes s) (ABytes s)"
| back_array: "list_all2 avro_back xs ys \<Longrightarrow> avro_back (AList xs) (AList ys)"
| back_branch: "list_all2 avro_back xs ys \<Longrightarrow> avro_back (AList xs) (AMap [(''array'', AList ys)])"
| back_record: "(\<And>k. rel_option avro_back (map_of m k) (map_of m' k)) \<Longrightarrow> avro_back (AMap m) (AMap m')"
  monos option.rel_mono_strong list_all2_mono

inductive_cases avro_back_cases: "avro_back (ABool b) r" "avro_back (AInt i) r" "avro_back (AInt32 i) r" "avro_back (AInt64 i) r"
  "avro_back (AFloat32 f) r" "avro_back (AFloat64 f) r" "avro_back (AStr s) r" "avro_back (ABytes s) r" "avro_back (AList xs) r"
  "avro_back (AMap m) r"

inductive_simps avro_back_nil [simp]: "avro_back ANil r"

inductive_simps avro_back_plain [simp]: "avro_back (ABool b) r" "avro_back (AStr s) r" "avro_back (ABytes s) r" "avro_back (AInt64 i) r"

definition record_back :: "(string, any) gomap \<Rightarrow> (string, any) gomap \<Rightarrow> bool" where
  "record_back m m' \<longleftrightarrow> (\<forall>k. rel_option avro_back (map_of m k) (map_of m' k))"

text \<open>The containers the code writes: manifest lists and manifests, each with its schema.\<close>

definition written_container :: "json \<Rightarrow> (string, any) gomap list \<Rightarrow> bool" where
  "written_container sch rs \<longleftrightarrow>
     (sch = manifestListSchema \<and> (\<exists>es. rs = map manifest_list_record es)) \<or>
     (\<exists>cols es. sch = manifestEntrySchemaTemplate (encoder_schemaJSON cols) \<and> map_res (manifestEntryRecord cols) es = Inr rs)"

definition avro_faithful :: "ice_libs \<Rightarrow> bool" where
  "avro_faithful lib \<longleftrightarrow>
     (\<forall>sch meta rs bytes.
        written_container sch rs \<and> lib_ocf_new lib sch meta = None \<and> first_error (lib_ocf_encode lib sch) rs = None \<and> lib_ocf_close lib sch meta rs = Inr bytes \<longrightarrow>
        (\<exists>rs'. lib_ocf_open lib bytes = Inr (map Inr rs', None) \<and> list_all2 record_back rs rs'))"

lemma map_res_Inr [simp]: "map_res (wrap_res c) (map Inr xs) = Inr xs"
  by (induction xs) auto

lemma container_back:
  assumes "avro_faithful lib" and "written_container sch rs" and "writeAvroContainer lib sch meta rs = Inr bytes"
  shows "\<exists>rs'. readAvroContainer lib bytes = Inr rs' \<and> list_all2 record_back rs rs'"
proof -
  from assms(3) have "lib_ocf_new lib sch meta = None \<and> first_error (lib_ocf_encode lib sch) rs = None \<and> lib_ocf_close lib sch meta rs = Inr bytes"
    by (auto simp: writeAvroContainer_def split: option.splits)
  with assms(1,2) obtain rs' where "lib_ocf_open lib bytes = Inr (map Inr rs', None)" "list_all2 record_back rs rs'"
    unfolding avro_faithful_def by blast
  then show ?thesis by (simp add: readAvroContainer_def)
qed

section \<open>Fields of a record\<close>

lemma back_lookup: "record_back m m' \<Longrightarrow> map_of m k = Some v \<Longrightarrow> avro_back v (member m' k)"
  by (auto simp: record_back_def member_def dest!: spec [of _ k] split: option.splits)

lemma back_int64: "record_back m m' \<Longrightarrow> map_of m k = Some (AInt64 i) \<Longrightarrow> avroInt64 m' k = i"
  using back_lookup [of m m' k] by (fastforce simp: avroInt64_def)

lemma back_int_field: "record_back m m' \<Longrightarrow> map_of m k = Some (AInt i) \<Longrightarrow> avroInt64 m' k = i"
  using back_lookup [of m m' k] by (fastforce simp: avroInt64_def elim: avro_back_cases)

lemma back_text: "record_back m m' \<Longrightarrow> map_of m k = Some (AStr s) \<Longrightarrow> avroString m' k = s"
  using back_lookup [of m m' k] by (fastforce simp: avroString_def)

lemma back_optional: "record_back m m' \<Longrightarrow> map_of m k = Some (optionalInt64 v) \<Longrightarrow> avroOptionalInt64 m' k = v"
  using back_lookup [of m m' k] by (cases v) (auto simp: avroOptionalInt64_def optionalInt64_def)

lemma back_nested: "record_back m m' \<Longrightarrow> map_of m k = Some (AMap r) \<Longrightarrow> \<exists>r'. avroRecord m' k = Some r' \<and> record_back r r'"
  using back_lookup [of m m' k] by (fastforce simp: avroRecord_def record_back_def elim: avro_back_cases)

section \<open>Statistics keyed by column\<close>

lemma back_key_value:
  assumes "avro_back (AMap [(''key'', AInt k), (''value'', w)]) y" and "\<And>r. avro_back w r \<Longrightarrow> dec r = Some v"
  shows "key_value dec y = Some (k, v)"
proof -
  from assms(1) obtain m' where y: "y = AMap m'" and m': "record_back [(''key'', AInt k), (''value'', w)] m'"
    by (auto simp: record_back_def elim: avro_back_cases)
  have "avro_back (AInt k) (member m' ''key'')" "avro_back w (member m' ''value'')"
    using back_lookup [OF m', of "''key''"] back_lookup [OF m', of "''value''"] by simp_all
  then show ?thesis using assms(2) by (auto simp: y elim: avro_back_cases)
qed

lemma fold_put_map: "distinct (map fst kvs) \<Longrightarrow> map_of (fold (\<lambda>kv. map_put (fst kv) (snd kv)) kvs m) k =
    (case map_of kvs k of Some v \<Rightarrow> Some v | None \<Rightarrow> map_of m k)"
proof (induction kvs arbitrary: m)
  case (Cons kv kvs)
  have "map_of kvs (fst kv) = None" using Cons.prems by (simp add: map_of_eq_None_iff)
  with Cons show ?case by (auto split: option.splits)
qed simp

lemma back_keyed:
  assumes "avro_back (key_records enc m) r" and "wf_map m" and dec: "\<And>v s. avro_back (enc v) s \<Longrightarrow> dec s = Some v"
  shows "map_of (fold (\<lambda>kv. map_put (fst kv) (snd kv)) (List.map_filter (key_value dec) (avroArray r)) []) = map_of m"
proof (cases "m = []")
  case True
  with assms(1) show ?thesis by (simp add: key_records_def List.map_filter_simps)
next
  case False
  let ?xs = "map (\<lambda>kv. AMap [(''key'', AInt (fst kv)), (''value'', enc (snd kv))]) (sort_key fst m)"
  from assms(1) False obtain ys where ys: "avroArray r = ys" "list_all2 avro_back ?xs ys"
    by (auto simp: key_records_def elim: avro_back_cases)
  have "List.map_filter (key_value dec) ys = sort_key fst m"
    if "list_all2 avro_back (map (\<lambda>kv. AMap [(''key'', AInt (fst kv)), (''value'', enc (snd kv))]) kvs) ys" "kvs = sort_key fst m" for kvs
    using that(1) unfolding that(2) [symmetric]
  proof (induction kvs arbitrary: ys)
    case (Cons kv kvs)
    then obtain y ys' where y: "ys = y # ys'" "avro_back (AMap [(''key'', AInt (fst kv)), (''value'', enc (snd kv))]) y"
      "list_all2 avro_back (map (\<lambda>kv. AMap [(''key'', AInt (fst kv)), (''value'', enc (snd kv))]) kvs) ys'"
      by (auto simp: list_all2_Cons1)
    have "key_value dec y = Some kv" using back_key_value [OF y(2), of dec "snd kv"] dec by simp
    with y Cons.IH [OF y(3)] show ?case by (simp add: List.map_filter_simps)
  qed (simp add: List.map_filter_simps)
  from this [OF ys(2)] have "List.map_filter (key_value dec) (avroArray r) = sort_key fst m" by (simp add: ys(1))
  moreover have "distinct (map fst (sort_key fst m))" using assms(2) by (simp add: wf_map_def distinct_map)
  ultimately show ?thesis using assms(2) by (auto simp: fold_put_map split: option.splits)
qed

lemma back_counts: "record_back m m' \<Longrightarrow> map_of m k = Some (int64KVRecords c) \<Longrightarrow> wf_map c \<Longrightarrow> map_of (avroKVInt64 m' k) = map_of c"
  unfolding avroKVInt64_def avro_keyed_values_def int64KVRecords_def by (rule back_keyed [OF back_lookup]) auto

lemma back_bounds: "record_back m m' \<Longrightarrow> map_of m k = Some (bytesKVRecords c) \<Longrightarrow> wf_map c \<Longrightarrow> map_of (avroKVBytes m' k) = map_of c"
  unfolding avroKVBytes_def avro_keyed_values_def bytesKVRecords_def by (rule back_keyed [OF back_lookup]) auto

section \<open>Manifest lists\<close>

lemma list_record_back:
  assumes "record_back (manifest_list_record e) r" and "mle_ManifestPath e \<noteq> ''''"
  shows "manifest_list_entry_of r = Inr e"
proof -
  have i64: "avroInt64 r k = i" if "map_of (manifest_list_record e) k = Some (AInt64 i)" for k i by (rule back_int64 [OF assms(1) that])
  have i: "avroInt64 r k = i" if "map_of (manifest_list_record e) k = Some (AInt i)" for k i by (rule back_int_field [OF assms(1) that])
  have "avroString r ''manifest_path'' = mle_ManifestPath e" by (rule back_text [OF assms(1)]) (simp add: manifest_list_record_def)
  moreover have "avroInt64 r ''manifest_length'' = mle_ManifestLength e" "avroInt64 r ''sequence_number'' = mle_SequenceNumber e"
    "avroInt64 r ''min_sequence_number'' = mle_MinSequenceNumber e" "avroInt64 r ''added_snapshot_id'' = mle_AddedSnapshotID e"
    "avroInt64 r ''added_rows_count'' = mle_AddedRowsCount e" "avroInt64 r ''existing_rows_count'' = mle_ExistingRowsCount e"
    "avroInt64 r ''deleted_rows_count'' = mle_DeletedRowsCount e"
    by (rule i64, simp add: manifest_list_record_def)+
  moreover have "avroInt64 r ''partition_spec_id'' = mle_PartitionSpecID e" "avroInt64 r ''content'' = mle_Content e"
    "avroInt64 r ''added_files_count'' = mle_AddedFilesCount e" "avroInt64 r ''existing_files_count'' = mle_ExistingFilesCount e"
    "avroInt64 r ''deleted_files_count'' = mle_DeletedFilesCount e"
    by (rule i, simp add: manifest_list_record_def)+
  ultimately show ?thesis using assms(2) by (simp add: manifest_list_entry_of_def)
qed

lemma manifest_list_back:
  assumes "avro_faithful lib" and "ice_writeManifestList lib es i par seq ver = Inr bytes" and "list_all (\<lambda>e. mle_ManifestPath e \<noteq> '''') es"
  shows "ice_readManifestList lib bytes = Inr es"
proof -
  have "written_container manifestListSchema (map manifest_list_record es)" by (auto simp: written_container_def)
  from container_back [OF assms(1) this assms(2) [unfolded ice_writeManifestList_def]] obtain rs where
    rs: "readAvroContainer lib bytes = Inr rs" "list_all2 record_back (map manifest_list_record es) rs" by blast
  have "map_res manifest_list_entry_of rs = Inr es" if "list_all2 record_back (map manifest_list_record es) rs" "list_all (\<lambda>e. mle_ManifestPath e \<noteq> '''') es"
    for es rs using that
    by (induction es arbitrary: rs) (auto simp: list_all2_Cons1 list_record_back)
  from this [OF rs(2) assms(3)] rs(1) show ?thesis by (simp add: ice_readManifestList_def)
qed

section \<open>Manifests\<close>

definition stat_maps_ok :: "manifest_data_file \<Rightarrow> bool" where
  "stat_maps_ok df \<longleftrightarrow> wf_map (mdf_ColumnSizes df) \<and> wf_map (mdf_ValueCounts df) \<and> wf_map (mdf_NullValueCounts df) \<and>
     wf_map (mdf_NanValueCounts df) \<and> wf_map (mdf_LowerBounds df) \<and> wf_map (mdf_UpperBounds df)"

text \<open>A data file of a manifest as it is read; \<open>part\<close> is the partition record that was written.\<close>

definition data_file_back :: "(string, any) gomap \<Rightarrow> manifest_data_file \<Rightarrow> manifest_data_file \<Rightarrow> bool" where
  "data_file_back part df r \<longleftrightarrow>
     mdf_Content r = mdf_Content df \<and> mdf_FilePath r = mdf_FilePath df \<and> mdf_FileFormat r = mdf_FileFormat df \<and>
     record_back part (mdf_Partition r) \<and> mdf_RecordCount r = mdf_RecordCount df \<and> mdf_FileSizeInBytes r = mdf_FileSizeInBytes df \<and>
     map_of (mdf_ColumnSizes r) = map_of (mdf_ColumnSizes df) \<and> map_of (mdf_ValueCounts r) = map_of (mdf_ValueCounts df) \<and>
     map_of (mdf_NullValueCounts r) = map_of (mdf_NullValueCounts df) \<and> map_of (mdf_NanValueCounts r) = map_of (mdf_NanValueCounts df) \<and>
     map_of (mdf_LowerBounds r) = map_of (mdf_LowerBounds df) \<and> map_of (mdf_UpperBounds r) = map_of (mdf_UpperBounds df)"

lemma data_file_read_back:
  assumes "data_file_record df part = AMap m" and "record_back m r" and "stat_maps_ok df"
  shows "data_file_back part df (data_file_read r)"
proof -
  have m: "m = (case data_file_record df part of AMap m \<Rightarrow> m)" by (simp add: assms(1))
  have i64: "avroInt64 r k = i" if "map_of m k = Some (AInt64 i)" for k i by (rule back_int64 [OF assms(2) that])
  have str: "avroString r k = s" if "map_of m k = Some (AStr s)" for k s by (rule back_text [OF assms(2) that])
  have cnt: "map_of (avroKVInt64 r k) = map_of c" if "map_of m k = Some (int64KVRecords c)" "wf_map c" for k c
    by (rule back_counts [OF assms(2) that])
  have bnd: "map_of (avroKVBytes r k) = map_of c" if "map_of m k = Some (bytesKVRecords c)" "wf_map c" for k c
    by (rule back_bounds [OF assms(2) that])
  have "avroInt64 r ''content'' = mdf_Content df"
    by (rule back_int_field [OF assms(2)]) (simp add: m data_file_record_def)
  moreover have "avroString r ''file_path'' = mdf_FilePath df" "avroString r ''file_format'' = mdf_FileFormat df"
    by (rule str, simp add: m data_file_record_def)+
  moreover have "avroInt64 r ''record_count'' = mdf_RecordCount df" "avroInt64 r ''file_size_in_bytes'' = mdf_FileSizeInBytes df"
    by (rule i64, simp add: m data_file_record_def)+
  moreover obtain p where "avroRecord r ''partition'' = Some p" "record_back part p"
    using back_nested [OF assms(2), of "''partition''" part] by (auto simp: m data_file_record_def)
  moreover have "map_of (avroKVInt64 r ''column_sizes'') = map_of (mdf_ColumnSizes df)"
    "map_of (avroKVInt64 r ''value_counts'') = map_of (mdf_ValueCounts df)"
    "map_of (avroKVInt64 r ''null_value_counts'') = map_of (mdf_NullValueCounts df)"
    "map_of (avroKVInt64 r ''nan_value_counts'') = map_of (mdf_NanValueCounts df)"
    by (rule cnt, simp add: m data_file_record_def, use assms(3) in \<open>simp add: stat_maps_ok_def\<close>)+
  moreover have "map_of (avroKVBytes r ''lower_bounds'') = map_of (mdf_LowerBounds df)"
    "map_of (avroKVBytes r ''upper_bounds'') = map_of (mdf_UpperBounds df)"
    by (rule bnd, simp add: m data_file_record_def, use assms(3) in \<open>simp add: stat_maps_ok_def\<close>)+
  ultimately show ?thesis by (simp add: data_file_back_def data_file_read_def)
qed

definition entry_back :: "partition_column list \<Rightarrow> ice_manifest_entry \<Rightarrow> ice_manifest_entry \<Rightarrow> bool" where
  "entry_back cols e r \<longleftrightarrow>
     ime_Status r = ime_Status e \<and> ime_SnapshotID r = ime_SnapshotID e \<and> ime_SequenceNumber r = ime_SequenceNumber e \<and>
     ime_FileSequenceNumber r = ime_FileSequenceNumber e \<and>
     (\<exists>df part df'. ime_DataFile e = Some df \<and> encoder_record (mdf_Partition df) cols [] = Inr part \<and>
        ime_DataFile r = Some df' \<and> data_file_back part df df')"

lemma entry_read_back:
  assumes "manifestEntryRecord cols e = Inr m" and "record_back m r" and "pred_option stat_maps_ok (ime_DataFile e)"
  shows "\<exists>e'. manifest_entry_read r = Inr e' \<and> entry_back cols e e'"
proof -
  from assms(1) obtain df part where df: "ime_DataFile e = Some df" "encoder_record (mdf_Partition df) cols [] = Inr part"
    and m: "m = [(''status'', AInt (ime_Status e)), (''snapshot_id'', AInt64 (ime_SnapshotID e)),
                 (''sequence_number'', optionalInt64 (ime_SequenceNumber e)),
                 (''file_sequence_number'', optionalInt64 (ime_FileSequenceNumber e)), (''data_file'', data_file_record df part)]"
    by (auto simp: manifestEntryRecord_def split: option.splits)
  obtain d where d: "data_file_record df part = AMap d" by (simp add: data_file_record_def)
  obtain d' where d': "avroRecord r ''data_file'' = Some d'" "record_back d d'"
    using back_nested [OF assms(2), of "''data_file''" d] by (auto simp: m d)
  have "data_file_back part df (data_file_read d')" using data_file_read_back [OF d d'(2)] assms(3) df(1) by simp
  moreover have "avroInt64 r ''status'' = ime_Status e" by (rule back_int_field [OF assms(2)]) (simp add: m)
  moreover have "avroInt64 r ''snapshot_id'' = ime_SnapshotID e" by (rule back_int64 [OF assms(2)]) (simp add: m)
  moreover have "avroOptionalInt64 r ''sequence_number'' = ime_SequenceNumber e" by (rule back_optional [OF assms(2)]) (simp add: m)
  moreover have "avroOptionalInt64 r ''file_sequence_number'' = ime_FileSequenceNumber e"
    by (rule back_optional [OF assms(2)]) (simp add: m)
  ultimately show ?thesis using df d' by (simp add: manifest_entry_read_def entry_back_def)
qed

lemma manifest_back:
  assumes "avro_faithful lib" and "writeManifest lib es (Some s) spec ver = Inr bytes"
    and "list_all (\<lambda>e. pred_option stat_maps_ok (ime_DataFile e)) es"
  obtains cols es' where "newPartitionEncoder spec (Some s) = Inr cols" "readManifest lib bytes = Inr es'" "list_all2 (entry_back cols) es es'"
proof -
  from assms(2) obtain cols rs where c: "newPartitionEncoder spec (Some s) = Inr cols" "map_res (manifestEntryRecord cols) es = Inr rs"
    "writeAvroContainer lib (manifestEntrySchemaTemplate (encoder_schemaJSON cols)) (manifestMetadata s spec ver) rs = Inr bytes"
    by (auto simp: writeManifest_def)
  from c(2) have "written_container (manifestEntrySchemaTemplate (encoder_schemaJSON cols)) rs" unfolding written_container_def by blast
  from container_back [OF assms(1) this c(3)] obtain rs' where rs': "readAvroContainer lib bytes = Inr rs'" "list_all2 record_back rs rs'" by blast
  have "list_all2 (\<lambda>e m. manifestEntryRecord cols e = Inr m) es rs" using c(2) by (simp add: map_res_Inr_iff)
  then have "\<exists>es'. map_res manifest_entry_read rs' = Inr es' \<and> list_all2 (entry_back cols) es es'"
    using rs'(2) assms(3)
  proof (induction arbitrary: rs' rule: list_all2_induct)
    case (Cons e es m rs)
    then obtain r rs'' where r: "rs' = r # rs''" "record_back m r" "list_all2 record_back rs rs''" by (auto simp: list_all2_Cons1)
    from entry_read_back [OF Cons(1) r(2)] Cons(5) obtain e' where "manifest_entry_read r = Inr e'" "entry_back cols e e'" by auto
    moreover obtain es' where "map_res manifest_entry_read rs'' = Inr es'" "list_all2 (entry_back cols) es es'"
      using Cons(3) [OF r(3)] Cons(5) by auto
    ultimately show ?case by (auto simp: r(1))
  qed simp
  then show ?thesis using that c(1) rs'(1) by (auto simp: readManifest_def)
qed

end
