(* ===== verification/Iceberg_Commit.thy ===== *)
theory Iceberg_Commit
  imports Iceberg_Plan Iceberg_Avro Iceberg_Bounds
begin

text \<open>
  What a commit of the Iceberg target does to the store, and what the source reads there afterwards: the latest metadata
  file, the watermark in its properties, the manifests and the files they list.
\<close>

section \<open>Listing metadata files\<close>

definition version_at :: "string \<Rightarrow> int option" where
  "version_at p = MetadataFileVersion (filepath_Base p)"

lemma note_metadata_ignores: "version_at (InfoPath f) = None \<Longrightarrow> note_metadata st f = st"
  by (cases st) (simp add: note_metadata_def version_at_def)

lemma note_metadata_filter: "foldl note_metadata st fs = foldl note_metadata st (filter (\<lambda>f. version_at (InfoPath f) \<noteq> None) fs)"
  by (induction fs arbitrary: st) (auto simp: note_metadata_ignores)

lemma mem_List_filter_Write:
  "\<not> P q \<Longrightarrow> filter (\<lambda>f. P (InfoPath f)) (mem_List (mem_Write st q d now) pre) = filter (\<lambda>f. P (InfoPath f)) (mem_List st pre)"
  by (simp add: mem_List_def mem_Write_def filter_sort filter_map filter_map_put comp_def)

text \<open>A file that is no metadata file does not change the listing.\<close>

lemma listing_ignores:
  assumes "version_at q = None"
  shows "listMetadataFiles (ice_NewSource (mem_Write st q d now) B) = listMetadataFiles (ice_NewSource st B)"
proof -
  have "foldl note_metadata ([], []) (mem_List (mem_Write st q d now) pre) = foldl note_metadata ([], []) (mem_List st pre)" for pre
    using note_metadata_filter [of _ "mem_List (mem_Write st q d now) pre"] note_metadata_filter [of _ "mem_List st pre"]
      mem_List_filter_Write [of "\<lambda>p. version_at p \<noteq> None" q st d now pre] assms by simp
  then show ?thesis by (simp add: listMetadataFiles_def ice_NewSource_def)
qed

lemma note_fold:
  assumes "foldl note_metadata ([], []) fs = (vs, ps)"
  shows "set vs = dom (map_of ps)"
    and "map_of ps v = Some p \<Longrightarrow> p \<in> InfoPath ` set fs \<and> version_at p = Some v"
    and "f \<in> set fs \<Longrightarrow> version_at (InfoPath f) = Some v \<Longrightarrow> \<exists>p. map_of ps v = Some p"
proof -
  have "set vs = dom (map_of ps) \<and> (\<forall>v p. map_of ps v = Some p \<longrightarrow> p \<in> InfoPath ` set fs \<and> version_at p = Some v) \<and>
      (\<forall>f \<in> set fs. \<forall>v. version_at (InfoPath f) = Some v \<longrightarrow> map_of ps v \<noteq> None)"
    using assms
  proof (induction fs arbitrary: vs ps rule: rev_induct)
    case (snoc f fs)
    obtain vs0 ps0 where s: "foldl note_metadata ([], []) fs = (vs0, ps0)" by fastforce
    note IH = snoc.IH [OF s]
    from snoc.prems s have n: "note_metadata (vs0, ps0) f = (vs, ps)" by simp
    show ?case
    proof (cases "version_at (InfoPath f)")
      case None
      with n IH show ?thesis by (auto simp: note_metadata_ignores)
    next
      case (Some v)
      then have "(vs, ps) = (vs0, ps0) \<and> map_of ps0 v \<noteq> None \<or>
          ps = map_put v (InfoPath f) ps0 \<and> set vs = insert v (set vs0)"
        using n IH by (auto simp: note_metadata_def version_at_def split: option.splits if_splits)
      with IH Some show ?thesis by (auto split: if_splits)
    qed
  qed simp
  then show "set vs = dom (map_of ps)" "map_of ps v = Some p \<Longrightarrow> p \<in> InfoPath ` set fs \<and> version_at p = Some v"
    "f \<in> set fs \<Longrightarrow> version_at (InfoPath f) = Some v \<Longrightarrow> \<exists>p. map_of ps v = Some p" by auto
qed

text \<open>The listing in terms of the files of the store.\<close>

lemma listing_spec:
  assumes "listMetadataFiles s = (vs, ps)"
  defines "listed \<equiv> \<lambda>p. (\<exists>d. mem_Read (isr_storage s) p = Inr d) \<and> hasPrefix p (JoinPath (isr_basePath s) [''metadata''])"
  shows "sorted vs" and "set vs = dom (map_of ps)"
    and "map_of ps v = Some p \<Longrightarrow> listed p \<and> version_at p = Some v"
    and "listed p \<Longrightarrow> version_at p = Some v \<Longrightarrow> v \<in> set vs"
proof -
  let ?fs = "mem_List (isr_storage s) (JoinPath (isr_basePath s) [''metadata''])"
  obtain vs0 where f: "foldl note_metadata ([], []) ?fs = (vs0, ps)" "vs = sort vs0"
    using assms(1) by (auto simp: listMetadataFiles_def split: prod.splits)
  note fold = note_fold [OF f(1)]
  show "sorted vs" "set vs = dom (map_of ps)" using f(2) fold(1) by simp_all
  show "map_of ps v = Some p \<Longrightarrow> listed p \<and> version_at p = Some v"
    using fold(2) mem_List_paths unfolding listed_def by blast
  show "v \<in> set vs" if "listed p" "version_at p = Some v"
  proof -
    have "p \<in> InfoPath ` set ?fs" using that(1) mem_List_paths unfolding listed_def by blast
    with fold(3) that(2) have "\<exists>q. map_of ps v = Some q" by blast
    then show ?thesis using fold(1) f(2) by auto
  qed
qed

text \<open>A metadata file with a version above all others is the latest one.\<close>

lemma newest_listed:
  assumes old: "listMetadataFiles (ice_NewSource st B) = (vs, ps)" and new: "list_all (\<lambda>v. v < N) vs"
    and p: "version_at p = Some N" "hasPrefix p (JoinPath B [''metadata''])"
  obtains vs' ps' where "listMetadataFiles (ice_NewSource (mem_Write st p d now) B) = (vs', ps')" "vs' \<noteq> []" "last vs' = N" "map_of ps' N = Some p"
proof -
  let ?s = "ice_NewSource (mem_Write st p d now) B" and ?o = "ice_NewSource st B"
  obtain vs' ps' where l: "listMetadataFiles ?s = (vs', ps')" by fastforce
  have store: "isr_storage ?s = mem_Write st p d now" "isr_basePath ?s = B" "isr_storage ?o = st" "isr_basePath ?o = B"
    by (simp_all add: ice_NewSource_def)
  note n = listing_spec [OF l, unfolded store] and o = listing_spec [OF old, unfolded store]
  have N: "N \<in> set vs'" using n(4) [of p N] p by simp
  have le: "v \<le> N" if v: "v \<in> set vs'" for v
  proof -
    obtain q where q: "map_of ps' v = Some q" using v n(2) by auto
    show ?thesis
    proof (cases "q = p")
      case True
      with n(3) [OF q] p(1) show ?thesis by simp
    next
      case False
      with n(3) [OF q] o(4) [of q v] have "v \<in> set vs" by auto
      with new show ?thesis by (auto simp: list_all_iff)
    qed
  qed
  have "last vs' \<in> set vs'" using N by (cases vs') auto
  moreover have "N \<le> last vs'"
    using n(1) N by (cases vs' rule: rev_cases) (auto simp: sorted_append)
  ultimately have "last vs' = N" using le by force
  moreover obtain q where q: "map_of ps' N = Some q" using N n(2) by auto
  have "q = p"
  proof (rule ccontr)
    assume "q \<noteq> p"
    with n(3) [OF q] o(4) [of q N] have "N \<in> set vs" by auto
    with new show False by (auto simp: list_all_iff)
  qed
  ultimately show ?thesis using that [OF l] N q by fastforce
qed

section \<open>Paths\<close>

text \<open>The names the commit makes of a UUID: digits, lower-case letters and dashes.\<close>

definition uuid_name :: "string \<Rightarrow> bool" where
  "uuid_name s \<longleftrightarrow> list_all (\<lambda>c. c \<in> set ''0123456789abcdef-'') s"

definition manifest_name_of :: "string \<Rightarrow> string" where
  "manifest_name_of u = u @ ''-m0.avro''"

definition list_name_of :: "int \<Rightarrow> string \<Rightarrow> string" where
  "list_name_of i u = ''snap-'' @ formatInt i @ ''-0-'' @ u @ ''.avro''"

definition metadata_name :: "int \<Rightarrow> string" where
  "metadata_name v = ''v'' @ formatInt v @ ''.metadata.json''"

lemma ice_path_eq: "table_base B \<Longrightarrow> proper_seg n \<Longrightarrow> ice_path B n = JoinPath B [''metadata''] @ ''/'' @ n"
  unfolding ice_path_def by (rule JoinPath_dir_file) (simp_all add: proper_seg_def)

lemma ice_path_inj: "table_base B \<Longrightarrow> proper_seg n \<Longrightarrow> proper_seg n' \<Longrightarrow> ice_path B n = ice_path B n' \<longleftrightarrow> n = n'"
  by (simp add: ice_path_eq)

lemma version_at_path: "table_base B \<Longrightarrow> proper_seg n \<Longrightarrow> version_at (ice_path B n) = MetadataFileVersion n"
  using filepath_Base_append [of n "JoinPath B [''metadata'']"] by (simp add: version_at_def ice_path_eq proper_seg_def)

lemma uuid_no_slash: "uuid_name u \<Longrightarrow> CHR ''/'' \<notin> set u"
  by (auto simp: uuid_name_def list_all_iff)

lemma commit_names_proper [simp]:
  "uuid_name u \<Longrightarrow> proper_seg (manifest_name_of u)" "uuid_name u \<Longrightarrow> proper_seg (list_name_of i u)" "proper_seg (metadata_name v)"
  "proper_seg ''version-hint.text''"
  using uuid_no_slash [of u] formatInt_no_slash
  by (cases u; simp add: proper_seg_def manifest_name_of_def list_name_of_def metadata_name_def)+

lemma commit_names_differ:
  shows "uuid_name u \<Longrightarrow> manifest_name_of u \<noteq> list_name_of i w" "uuid_name u \<Longrightarrow> manifest_name_of u \<noteq> metadata_name v"
    "uuid_name u \<Longrightarrow> manifest_name_of u \<noteq> ''version-hint.text''" "list_name_of i w \<noteq> metadata_name v"
    "list_name_of i w \<noteq> ''version-hint.text''" "metadata_name v \<noteq> ''version-hint.text''"
  using number_text [of "CHR ''e''" v]
  by (cases u; force simp: uuid_name_def manifest_name_of_def list_name_of_def metadata_name_def)+

lemma not_metadata: "hasSuffix n ''.avro'' \<Longrightarrow> MetadataFileVersion n = None"
proof -
  assume "hasSuffix n ''.avro''"
  then have "\<not> hasSuffix n ''.metadata.json''" by (auto simp: hasSuffix_iff dest: arg_cong [of _ _ last])
  then show ?thesis by (simp add: MetadataFileVersion_def)
qed

lemma commit_versions [simp]:
  "MetadataFileVersion (manifest_name_of u) = None" "MetadataFileVersion (list_name_of i u) = None"
  "MetadataFileVersion ''version-hint.text'' = None"
proof -
  show "MetadataFileVersion (manifest_name_of u) = None" by (rule not_metadata) (auto simp: hasSuffix_iff manifest_name_of_def)
  show "MetadataFileVersion (list_name_of i u) = None"
    by (rule not_metadata) (auto simp: hasSuffix_iff list_name_of_def intro: exI [of _ "''snap-'' @ formatInt i @ ''-0-'' @ u"])
  show "MetadataFileVersion ''version-hint.text'' = None" by code_simp
qed

lemma metadata_version: "in_int64 v \<Longrightarrow> 0 \<le> v \<Longrightarrow> MetadataFileVersion (metadata_name v) = Some v"
proof -
  assume "in_int64 v" "0 \<le> v"
  moreover have "trimSuffix (metadata_name v) ''.metadata.json'' = ''v'' @ formatInt v" "hasSuffix (metadata_name v) ''.metadata.json''"
    using trimSuffix_append [of "''v'' @ formatInt v" "''.metadata.json''"] hasSuffix_append [of "''v'' @ formatInt v" "''.metadata.json''"]
    by (simp_all add: metadata_name_def)
  moreover have "hasPrefix (''v'' @ formatInt v) ''v''" "trimPrefix (''v'' @ formatInt v) ''v'' = formatInt v"
    by (rule hasPrefix_append, rule trimPrefix_append)
  ultimately show ?thesis by (simp add: MetadataFileVersion_def version_number_def)
qed

lemma version_range: "version_at p = Some v \<Longrightarrow> 0 \<le> v \<and> in_int64 v"
  by (auto simp: version_at_def MetadataFileVersion_def version_number_def Let_def split: if_splits option.splits prod.splits dest: parseInt_in_int64)

section \<open>What a commit writes\<close>

lemma ice_put_simps [simp]:
  "it_targetTable (ice_put t p d) = it_targetTable t" "it_storage (ice_put t p d) = mem_Write (it_storage t) p d 0"
  by (simp_all add: ice_put_def)

definition plan_manifest :: "string \<Rightarrow> ice_stamp \<Rightarrow> string" where
  "plan_manifest B stamp = ice_path B (manifest_name_of (ist_manifest stamp))"

definition plan_list :: "string \<Rightarrow> ice_stamp \<Rightarrow> ice_plan \<Rightarrow> string" where
  "plan_list B stamp p = ice_path B (list_name_of (pl_snapshotID p) (ist_list stamp))"

definition plan_metadata :: "ice_stamp \<Rightarrow> string \<Rightarrow> ice_plan \<Rightarrow> (string, string) gomap \<Rightarrow> nat \<Rightarrow> ice_metadata" where
  "plan_metadata stamp B p props n =
     commit_metadata stamp B p props (snapshot_record p (ist_millis stamp) (plan_list B stamp p) n)"

definition stored_files :: "mem_storage \<Rightarrow> (string \<times> string) list \<Rightarrow> mem_storage" where
  "stored_files st pds = foldl (\<lambda>st (p, d). mem_Write st p d 0) st pds"

lemma commit_success:
  assumes "it_targetTable t = Some tbl" and "BasePath tbl = B" and "ice_CommitSnapshot lib stamp t snap = (t', None)"
  obtains p mb lb props where
    "plan_commit (ist_millis stamp) (ice_NewSource (it_storage t) B) (SnapTable snap) = Inr p"
    "writeManifest lib (plan_entries lib p (AllDataFiles snap)) (Some (pl_schema p)) (Some (plan_spec p)) icebergFormatVersion = Inr mb"
    "ice_writeManifestList lib [list_entry p (plan_manifest B stamp) mb (AllDataFiles snap)] (pl_snapshotID p) (plan_parent p)
       (plan_sequence p) icebergFormatVersion = Inr lb"
    "commit_properties p snap = Inr props"
    "it_targetTable t' = Some tbl"
    "it_storage t' = stored_files (it_storage t) [(plan_manifest B stamp, mb), (plan_list B stamp p, lb),
       (ice_path B (metadata_name (pl_version p)), json_print (enc_ice_metadata (plan_metadata stamp B p props (length (AllDataFiles snap))))),
       (ice_path B ''version-hint.text'', formatInt (pl_version p))]"
proof -
  have src: "ice_target_source t = Some (ice_NewSource (it_storage t) B)" "isr_basePath (ice_NewSource (it_storage t) B) = B"
    using assms(1,2) by (simp_all add: ice_target_source_def ice_NewSource_def)
  note run = assms(3) [unfolded ice_CommitSnapshot_def src option.case src(2) Let_def]
  note names = plan_manifest_def plan_list_def plan_metadata_def manifest_name_of_def list_name_of_def metadata_name_def stored_files_def
  from run obtain p where p: "plan_commit (ist_millis stamp) (ice_NewSource (it_storage t) B) (SnapTable snap) = Inr p"
    by (auto split: sum.splits)
  from run obtain mb where mb: "writeManifest lib (plan_entries lib p (AllDataFiles snap)) (Some (pl_schema p)) (Some (plan_spec p))
      icebergFormatVersion = Inr mb"
    by (auto simp: p split: sum.splits)
  from run obtain lb where lb: "ice_writeManifestList lib [list_entry p (plan_manifest B stamp) mb (AllDataFiles snap)] (pl_snapshotID p)
      (plan_parent p) (plan_sequence p) icebergFormatVersion = Inr lb"
    by (auto simp: p mb names split: sum.splits)
  from run obtain props where props: "commit_properties p snap = Inr props"
    by (auto simp: p mb lb [unfolded names] split: sum.splits)
  from run show ?thesis
    by (intro that [OF p mb lb props]) (auto simp: p mb lb [unfolded names] props names assms(1))
qed

text \<open>A commit that fails has written at most its manifest and its manifest list.\<close>

lemma commit_failure:
  assumes "it_targetTable t = Some tbl" and "BasePath tbl = B" and "ice_CommitSnapshot lib stamp t snap = (t', Some e)"
  obtains p pds where "it_targetTable t' = Some tbl" "it_storage t' = stored_files (it_storage t) pds"
    "set (map fst pds) \<subseteq> {plan_manifest B stamp, plan_list B stamp p}"
proof -
  have src: "ice_target_source t = Some (ice_NewSource (it_storage t) B)" "isr_basePath (ice_NewSource (it_storage t) B) = B"
    using assms(1,2) by (simp_all add: ice_target_source_def ice_NewSource_def)
  note run = assms(3) [unfolded ice_CommitSnapshot_def src option.case src(2) Let_def]
  note names = plan_manifest_def plan_list_def manifest_name_of_def list_name_of_def stored_files_def
  show ?thesis
  proof (cases "plan_commit (ist_millis stamp) (ice_NewSource (it_storage t) B) (SnapTable snap)")
    case (Inl e')
    with run assms(1) show ?thesis by (intro that [where pds = "[]"]) (simp_all add: stored_files_def)
  next
    case (Inr p)
    from run Inr consider "t' = t" | mb where "t' = ice_put t (plan_manifest B stamp) mb"
      | mb lb where "t' = ice_put (ice_put t (plan_manifest B stamp) mb) (plan_list B stamp p) lb"
      by (auto simp: names split: sum.splits)
    then show ?thesis
    proof cases
      case 1
      then show ?thesis using assms(1) by (intro that [where pds = "[]"]) (simp_all add: stored_files_def)
    next
      case (2 mb)
      then show ?thesis using assms(1) by (intro that [where pds = "[(plan_manifest B stamp, mb)]"]) (simp_all add: stored_files_def)
    next
      case (3 mb lb)
      then show ?thesis using assms(1)
        by (intro that [where pds = "[(plan_manifest B stamp, mb), (plan_list B stamp p, lb)]" and p = p]) (simp_all add: stored_files_def)
    qed
  qed
qed

section \<open>The store after a commit\<close>

definition ice_stamp_ok :: "ice_stamp \<Rightarrow> bool" where
  "ice_stamp_ok stamp \<longleftrightarrow> uuid_name (ist_manifest stamp) \<and> uuid_name (ist_list stamp) \<and> in_int64 (ist_millis stamp)"

lemma stored_files_other: "q \<notin> fst ` set pds \<Longrightarrow> mem_Read (stored_files st pds) q = mem_Read st q"
  unfolding stored_files_def by (induction pds arbitrary: st) auto

lemma written_listing:
  "list_all (\<lambda>pd. version_at (fst pd) = None) pds \<Longrightarrow>
    listMetadataFiles (ice_NewSource (stored_files st pds) B) = listMetadataFiles (ice_NewSource st B)"
proof (induction pds arbitrary: st)
  case (Cons pd pds)
  then show ?case using listing_ignores [of "fst pd" st "snd pd" 0 B] by (simp add: stored_files_def split_def)
qed (simp add: stored_files_def)

lemma written_metadata:
  assumes "table_base B" and "ice_stamp_ok stamp" and "previous_commit (ice_NewSource st B) = Inr (v, prev)" and "0 < v"
    and st': "st' = stored_files st [(plan_manifest B stamp, mb), (plan_list B stamp p, lb),
       (ice_path B (metadata_name v), text), (ice_path B ''version-hint.text'', hint)]"
  obtains vs ps where "listMetadataFiles (ice_NewSource st' B) = (vs, ps)" "vs \<noteq> []" "last vs = v" "in_int64 v"
    "map_of ps v = Some (ice_path B (metadata_name v))" "mem_Read st' (ice_path B (metadata_name v)) = Inr text"
    "mem_Read st' (plan_manifest B stamp) = Inr mb" "mem_Read st' (plan_list B stamp p) = Inr lb"
proof -
  obtain vs0 ps0 where l0: "listMetadataFiles (ice_NewSource st B) = (vs0, ps0)" by fastforce
  have v: "v = (if vs0 = [] then 1 else wrap64 (last vs0 + 1))"
    using assms(3) by (auto simp: previous_commit_def l0 split: if_splits)
  then have i64: "in_int64 v" by (simp add: in_int64_def [of 1])
  note spec = listing_spec [OF l0]
  have below: "list_all (\<lambda>w. w < v) vs0"
  proof (cases vs0 rule: rev_cases)
    case (snoc ws w)
    have r: "0 \<le> x \<and> in_int64 x" if x: "x \<in> set vs0" for x
    proof -
      obtain q where "map_of ps0 x = Some q" using spec(2) x by auto
      with spec(3) version_range show ?thesis by blast
    qed
    have "w < max_int64"
    proof (rule ccontr)
      assume "\<not> w < max_int64"
      with r [of w] have "w = max_int64" by (simp add: snoc in_int64_def)
      then have "v = min_int64" using v by (simp add: snoc wrap64_def)
      with \<open>0 < v\<close> show False by simp
    qed
    with r [of w] have "v = w + 1" using v by (simp add: snoc in_int64_def)
    moreover have "\<forall>x \<in> set vs0. x \<le> w" using spec(1) by (auto simp: snoc sorted_append)
    ultimately show ?thesis by (auto simp: list_all_iff)
  qed simp
  have ps: "proper_seg (manifest_name_of (ist_manifest stamp))" "proper_seg (list_name_of i (ist_list stamp))" for i
    using assms(2) by (simp_all add: ice_stamp_ok_def)
  note vers = version_at_path [OF assms(1)]
  define st2 where "st2 = stored_files st [(plan_manifest B stamp, mb), (plan_list B stamp p, lb)]"
  have l2: "listMetadataFiles (ice_NewSource st2 B) = (vs0, ps0)"
    unfolding st2_def by (subst written_listing) (simp_all add: plan_manifest_def plan_list_def vers ps l0)
  have "hasPrefix (ice_path B (metadata_name v)) (JoinPath B [''metadata''])" by (simp add: ice_path_eq [OF assms(1)] hasPrefix_def)
  moreover have "version_at (ice_path B (metadata_name v)) = Some v" using i64 assms(4) by (simp add: vers metadata_version)
  ultimately obtain vs ps where l: "listMetadataFiles (ice_NewSource (mem_Write st2 (ice_path B (metadata_name v)) text 0) B) = (vs, ps)"
    "vs \<noteq> []" "last vs = v" "map_of ps v = Some (ice_path B (metadata_name v))"
    using newest_listed [OF l2 below] by blast
  have "listMetadataFiles (ice_NewSource st' B) = (vs, ps)"
    using listing_ignores [of "ice_path B ''version-hint.text''" "mem_Write st2 (ice_path B (metadata_name v)) text 0" hint 0 B] l(1)
    by (simp add: st' st2_def stored_files_def vers)
  moreover have "mem_Read st' (ice_path B (metadata_name v)) = Inr text" "mem_Read st' (plan_manifest B stamp) = Inr mb"
    "mem_Read st' (plan_list B stamp p) = Inr lb"
    using assms(2) ps
    by (simp_all add: commit_names_differ commit_names_differ [symmetric] st' stored_files_def plan_manifest_def plan_list_def ice_path_inj [OF assms(1)] ice_stamp_ok_def)
  ultimately show ?thesis using that l i64 by blast
qed

section \<open>The files of a commit\<close>

lemma stats_put_frame:
  fixes lib stats ids df
  defines "r \<equiv> foldl (stat_to_manifest lib ids) df stats"
  shows "mdf_Content r = mdf_Content df" "mdf_FilePath r = mdf_FilePath df" "mdf_FileFormat r = mdf_FileFormat df"
    "mdf_RecordCount r = mdf_RecordCount df" "mdf_FileSizeInBytes r = mdf_FileSizeInBytes df" "stat_maps_ok df \<Longrightarrow> stat_maps_ok r"
proof -
  have step: "mdf_Content (stat_to_manifest lib ids d cs) = mdf_Content d \<and> mdf_FilePath (stat_to_manifest lib ids d cs) = mdf_FilePath d \<and>
      mdf_FileFormat (stat_to_manifest lib ids d cs) = mdf_FileFormat d \<and> mdf_RecordCount (stat_to_manifest lib ids d cs) = mdf_RecordCount d \<and>
      mdf_FileSizeInBytes (stat_to_manifest lib ids d cs) = mdf_FileSizeInBytes d \<and> (stat_maps_ok d \<longrightarrow> stat_maps_ok (stat_to_manifest lib ids d cs))" for d cs
    by (auto simp: stat_to_manifest_def Let_def stat_maps_ok_def put_bytes_def split: option.splits)
  have "mdf_Content r = mdf_Content df \<and> mdf_FilePath r = mdf_FilePath df \<and> mdf_FileFormat r = mdf_FileFormat df \<and>
      mdf_RecordCount r = mdf_RecordCount df \<and> mdf_FileSizeInBytes r = mdf_FileSizeInBytes df \<and> (stat_maps_ok df \<longrightarrow> stat_maps_ok r)"
    unfolding r_def by (induction stats arbitrary: df) (auto simp: step)
  then show "mdf_Content r = mdf_Content df" "mdf_FilePath r = mdf_FilePath df" "mdf_FileFormat r = mdf_FileFormat df"
    "mdf_RecordCount r = mdf_RecordCount df" "mdf_FileSizeInBytes r = mdf_FileSizeInBytes df" "stat_maps_ok df \<Longrightarrow> stat_maps_ok r" by auto
qed

lemma manifest_file_simps [simp]:
  "mdf_Content (manifest_file lib cols df) = contentData" "mdf_FilePath (manifest_file lib cols df) = PhysicalPath df"
  "mdf_FileFormat (manifest_file lib cols df) = icebergFileFormat (FileFormat df)" "mdf_RecordCount (manifest_file lib cols df) = RecordCount df"
  "mdf_FileSizeInBytes (manifest_file lib cols df) = FileSizeBytes df" "stat_maps_ok (manifest_file lib cols df)"
  by (simp_all add: manifest_file_def columnStatsToManifest_def stats_put_frame) (rule stats_put_frame(6), simp add: stat_maps_ok_def)

text \<open>
  The statistics of a file that has one for each of some columns, as they are after the way through the manifest: in the
  order of the columns, each on its column as it is read.
\<close>

definition kept_stats :: "ice_libs \<Rightarrow> field list \<Rightarrow> int list \<Rightarrow> column_stat list \<Rightarrow> column_stat list" where
  "kept_stats lib gs ids stats =
     List.map_filter (\<lambda>(g, i). map_option (kept_stat lib (ice_column g i)) (List.find (\<lambda>cs. StatField cs = Some g) stats)) (zip gs ids)"

lemma column_slot:
  assumes cr: "columns_read gs cols" and names: "distinct (map FieldName gs)" and ids: "distinct (map nf_ID cols)"
    and z: "(g, nf) \<in> set (zip gs cols)" and cs: "stat_ok gs cs"
  defines "by_name \<equiv> foldl (\<lambda>m f. map_put (nf_Name f) (nf_ID f) m) [] cols"
  shows "\<exists>i. stat_slot by_name cs = Some i" "stat_slot by_name cs = Some (nf_ID nf) \<longleftrightarrow> StatField cs = Some g"
proof -
  have g: "g \<in> set gs" "nf \<in> set cols" "nf_Name nf = FieldName g" using zip_elem [OF cr z] by auto
  from cs obtain h where h: "StatField cs = Some h" "h \<in> set gs" "ParentPath h = ''''" by (auto simp: stat_ok_def split: option.splits)
  obtain nf' where nf': "(h, nf') \<in> set (zip gs cols)" using zip_left [OF cr h(2)] by blast
  then have h': "nf' \<in> set cols" "nf_Name nf' = FieldName h" using zip_elem [OF cr nf'] by auto
  have "distinct (map nf_Name cols)" using names unfolding columns_names [OF cr] .
  then have slot: "stat_slot by_name cs = Some (nf_ID nf')"
    using name_ids [of cols nf'] h' h(1,3) by (simp add: stat_slot_def by_name_def Field_Path_def)
  then show "\<exists>i. stat_slot by_name cs = Some i" by blast
  have "nf_ID nf' = nf_ID nf \<longleftrightarrow> nf' = nf" using ids h'(1) g(2) by (auto simp: distinct_map inj_on_def)
  also have "\<dots> \<longleftrightarrow> h = g"
  proof
    assume "nf' = nf"
    then have "FieldName h = FieldName g" using h'(2) g(3) by simp
    with names h(2) g(1) show "h = g" by (auto simp: distinct_map inj_on_def)
  next
    assume "h = g"
    then have "nf_Name nf' = nf_Name nf" using h'(2) g(3) by simp
    with \<open>distinct (map nf_Name cols)\<close> h'(1) g(2) show "nf' = nf" by (auto simp: distinct_map inj_on_def)
  qed
  finally show "stat_slot by_name cs = Some (nf_ID nf) \<longleftrightarrow> StatField cs = Some g" by (simp add: slot h(1))
qed

lemma column_stat_kept:
  assumes cr: "columns_read gs cols" and ok: "list_all (\<lambda>g. pred_option ice_ok (FieldSchema g)) gs"
    and names: "distinct (map FieldName gs)" and ids: "distinct (map nf_ID cols)"
    and stats: "list_all (stat_ok gs) (ColumnStats f)" and one: "distinct (map StatField (ColumnStats f))"
    and z: "(g, nf) \<in> set (zip gs cols)"
  shows "stat_from_manifest lib (manifest_file lib cols f) (ice_column g (nf_ID nf)) =
    map_option (kept_stat lib (ice_column g (nf_ID nf))) (List.find (\<lambda>cs. StatField cs = Some g) (ColumnStats f))"
proof -
  let ?stats = "ColumnStats f" and ?i = "nf_ID nf" and ?c = "List.find (\<lambda>cs. StatField cs = Some g) (ColumnStats f)"
  define by_name where "by_name = foldl (\<lambda>m f. map_put (nf_Name f) (nf_ID f) m) [] cols"
  define base where "base = \<lparr>mdf_Content = contentData, mdf_FilePath = PhysicalPath f, mdf_FileFormat = icebergFileFormat (FileFormat f),
        mdf_Partition = foldl put_partition [] (PartitionValues f), mdf_RecordCount = RecordCount f,
        mdf_FileSizeInBytes = FileSizeBytes f, mdf_ColumnSizes = [], mdf_ValueCounts = [], mdf_NullValueCounts = [],
        mdf_NanValueCounts = [], mdf_LowerBounds = [], mdf_UpperBounds = []\<rparr>"
  have m: "manifest_file lib cols f = foldl (stat_to_manifest lib by_name) base ?stats"
    by (simp add: manifest_file_def columnStatsToManifest_def by_name_def base_def)
  note slot = column_slot [OF cr names ids, folded by_name_def]
  have each: "stat_ok gs cs" if "cs \<in> set ?stats" for cs using stats that by (simp add: list_all_iff)
  obtain s where g: "g \<in> set gs" "FieldSchema g = Some s" using zip_elem [OF cr z] by auto
  with ok have s: "ice_ok s" by (auto simp: list_all_iff)
  have c: "?c = List.find (\<lambda>cs. stat_slot by_name cs = Some ?i) ?stats"
    by (rule find_cong [OF refl]) (simp add: slot(2) [OF z each])
  have "distinct (List.map_filter (stat_slot by_name) ?stats)"
    unfolding map_filter_def
  proof (rule distinct_map [THEN iffD2], intro conjI inj_onI)
    show "distinct (filter (\<lambda>x. stat_slot by_name x \<noteq> None) ?stats)" using one by (simp add: distinct_map)
    fix x y assume xy: "x \<in> set (filter (\<lambda>x. stat_slot by_name x \<noteq> None) ?stats)" "y \<in> set (filter (\<lambda>x. stat_slot by_name x \<noteq> None) ?stats)"
      and eq: "(the \<circ> stat_slot by_name) x = (the \<circ> stat_slot by_name) y"
    from xy each have "stat_ok gs x" "stat_ok gs y" by simp_all
    then obtain h where h: "StatField x = Some h" "h \<in> set gs" by (auto simp: stat_ok_def split: option.splits)
    obtain nf' where nf': "(h, nf') \<in> set (zip gs cols)" using zip_left [OF cr h(2)] by blast
    have "stat_slot by_name x = Some (nf_ID nf')" using slot(2) [OF nf' \<open>stat_ok gs x\<close>] h(1) by simp
    moreover have "stat_slot by_name x = stat_slot by_name y" using xy eq by auto
    ultimately have "StatField y = StatField x" using slot(2) [OF nf' \<open>stat_ok gs y\<close>] h(1) by simp
    with one xy show "x = y" by (auto simp: distinct_map inj_on_def)
  qed
  note put = stats_put [OF this c, of lib base, folded m]
  have col: "FieldID (ice_column g ?i) = Some ?i" by (simp add: ice_column_def)
  show ?thesis
  proof (cases ?c)
    case None
    with put show ?thesis by (simp add: stat_from_manifest_def col manifestHasStatsFor_def put_at_def base_def)
  next
    case (Some cs)
    then have cs: "cs \<in> set ?stats" "StatField cs = Some g" by (auto simp: find_Some_iff)
    from each [OF cs(1)] cs(2) have k: "0 \<le> NumNaNs cs" "DataType s \<notin> {TypeFloat, TypeDouble}"
      "pred_option (\<lambda>r. machine_any (MinValue r) \<and> machine_any (MaxValue r)) (StatRange cs)" by (auto simp: stat_ok_def g(2))
    have "DecodeBound lib (FieldSchema (ice_column g ?i)) (stat_bound lib LowerBound cs) =
        Option.bind (StatRange cs) (\<lambda>r. kept_bound lib (DataType s) (MinValue r))"
      "DecodeBound lib (FieldSchema (ice_column g ?i)) (stat_bound lib UpperBound cs) =
        Option.bind (StatRange cs) (\<lambda>r. kept_bound lib (DataType s) (MaxValue r))"
      using bound_kept [OF g(2) s k(2)] k(3) by (cases "StatRange cs"; simp add: stat_bound_def cs(2) g(2) DecodeBound_def split: option.split)+
    moreover have "put_at (stat_bound lib pos) (Some cs) None = stat_bound lib pos cs" for pos by (simp add: put_at_def split: option.split)
    ultimately show ?thesis
      using put k(1) by (simp add: Some stat_from_manifest_def col manifestHasStatsFor_def base_def count_at_def kept_stat_def cs(2) g(2) Let_def)
        (auto simp: put_at_def)
  qed
qed

lemma column_stats_kept:
  assumes "columns_read gs cols" "list_all (\<lambda>g. pred_option ice_ok (FieldSchema g)) gs" "distinct (map FieldName gs)" "distinct (map nf_ID cols)"
    and "list_all (stat_ok gs) (ColumnStats f)" "distinct (map StatField (ColumnStats f))"
  shows "columnStatsFromManifest lib (manifest_file lib cols f) (Some (read_columns gs cols)) = kept_stats lib gs (map nf_ID cols) (ColumnStats f)"
proof -
  have "List.map_filter (stat_from_manifest lib (manifest_file lib cols f)) (map (\<lambda>(g, nf). ice_column g (nf_ID nf)) zs) =
      List.map_filter (\<lambda>(g, i). map_option (kept_stat lib (ice_column g i)) (List.find (\<lambda>cs. StatField cs = Some g) (ColumnStats f)))
        (map (\<lambda>(g, nf). (g, nf_ID nf)) zs)" if "set zs \<subseteq> set (zip gs cols)" for zs
    using that column_stat_kept [OF assms] by (induction zs) (auto simp: List.map_filter_simps split: option.splits)
  from this [of "zip gs cols"] show ?thesis
    by (simp add: stats_of_columns [OF assms(1,2)] kept_stats_def zip_map2)
qed

text \<open>A file read back: its statistics are those the manifest entry was given.\<close>

definition committed_file :: "ice_libs \<Rightarrow> schema option \<Rightarrow> ice_field list \<Rightarrow> data_file \<Rightarrow> data_file \<Rightarrow> bool" where
  "committed_file lib sch cols f g \<longleftrightarrow>
     PhysicalPath g = PhysicalPath f \<and> FileFormat g = FileFormat f \<and> FileSizeBytes g = FileSizeBytes f \<and> RecordCount g = RecordCount f \<and>
     ColumnStats g = columnStatsFromManifest lib (manifest_file lib cols f) sch"

lemma stats_same_maps:
  assumes "data_file_back part df r"
  shows "columnStatsFromManifest lib r sch = columnStatsFromManifest lib df sch"
proof -
  have "stat_from_manifest lib r = stat_from_manifest lib df"
    using assms by (auto simp: data_file_back_def stat_from_manifest_def manifestHasStatsFor_def count_at_def fun_eq_iff split: option.split)
  then show ?thesis by (simp only: columnStatsFromManifest_def)
qed

lemma file_converted:
  assumes "data_file_back part (manifest_file lib cols f) r" and "list_all (\<lambda>pf. SourceField pf \<noteq> None) (PartitioningFields tbl)"
  shows "\<exists>g. convertManifestDataFile lib r tbl = Inr g \<and> committed_file lib (ReadSchema tbl) cols f g"
proof -
  have "\<exists>pvs. map_res (read_partition_value m) pfs = Inr pvs" if "list_all (\<lambda>pf. SourceField pf \<noteq> None) pfs" for m pfs
    using that by (induction pfs) (auto simp: read_partition_value_def)
  then obtain pvs where "(if mdf_Partition r = [] then Inr [] else map_res (read_partition_value (mdf_Partition r)) (PartitioningFields tbl)) = Inr pvs"
    using assms(2) by (cases "mdf_Partition r = []") auto
  with assms(1) show ?thesis
    by (simp add: convertManifestDataFile_def committed_file_def stats_same_maps [OF assms(1)]) (simp add: data_file_back_def)
qed

lemma entries_converted:
  assumes "list_all2 (entry_back enc) (map (added_entry lib cols sid) fs) es" and "list_all (\<lambda>pf. SourceField pf \<noteq> None) (PartitioningFields tbl)"
  shows "\<exists>gs. map_res (\<lambda>mdf. convertManifestDataFile lib mdf tbl) (List.map_filter live_data_file es) = Inr gs \<and>
    list_all2 (committed_file lib (ReadSchema tbl) cols) fs gs"
  using assms(1)
proof (induction fs arbitrary: es)
  case Nil
  then show ?case by (simp add: List.map_filter_simps)
next
  case (Cons f fs)
  then obtain e es' where e: "es = e # es'" "entry_back enc (added_entry lib cols sid f) e" "list_all2 (entry_back enc) (map (added_entry lib cols sid) fs) es'"
    by (auto simp: list_all2_Cons1)
  then obtain part r where r: "ime_DataFile e = Some r" "data_file_back part (manifest_file lib cols f) r" "ime_Status e = manifestStatusAdded"
    by (auto simp: entry_back_def added_entry_def)
  then have "live_data_file e = Some r"
    by (simp add: live_data_file_def manifestStatusAdded_def manifestStatusDeleted_def data_file_back_def)
  moreover obtain g where "convertManifestDataFile lib r tbl = Inr g" "committed_file lib (ReadSchema tbl) cols f g"
    using file_converted [OF r(2) assms(2)] by blast
  moreover obtain gs where "map_res (\<lambda>mdf. convertManifestDataFile lib mdf tbl) (List.map_filter live_data_file es') = Inr gs"
    "list_all2 (committed_file lib (ReadSchema tbl) cols) fs gs" using Cons.IH [OF e(3)] by blast
  ultimately show ?case by (simp add: e(1) List.map_filter_simps)
qed

section \<open>Reading the commit\<close>

lemma name_mapping_keeps_mark: "m \<noteq> [] \<Longrightarrow> ReadSyncMetadataFromProperties (map_put NameMappingProperty x m) = ReadSyncMetadataFromProperties m"
proof -
  assume m: "m \<noteq> []"
  have k: "KeyXTableMetadata \<noteq> NameMappingProperty" "KeyLastInstantSynced \<noteq> NameMappingProperty" "KeySourceFormat \<noteq> NameMappingProperty"
    by (simp_all add: metadata_keys NameMappingProperty_def)
  have "map_put NameMappingProperty x m \<noteq> []" by (rule notI, drule arg_cong [of _ _ map_of]) simp
  moreover have "flat_sync_metadata (map_put NameMappingProperty x m) = flat_sync_metadata m"
    using k by (simp add: flat_sync_metadata_def cong: option.case_cong)
  moreover have "map_of (map_put NameMappingProperty x m) KeyXTableMetadata = map_of m KeyXTableMetadata" using k by simp
  ultimately show ?thesis using m by (simp only: ReadSyncMetadataFromProperties_def)
qed

lemma commit_properties_mark:
  assumes "commit_properties p snap = Inr props" and "previous_ok L K (pl_prev p)" and "in_int64 (LatestCommitTime (SnapTable snap))"
  shows "wf_map props" "\<exists>m. ReadSyncMetadataFromProperties (sort_key fst props) = Some m \<and> LastInstantSynced m = LatestCommitTime (SnapTable snap)"
proof -
  define old where "old = (case pl_prev p of None \<Rightarrow> [] | Some m \<Rightarrow> im_Properties m)"
  define md where "md = \<lparr>LastInstantSynced = LatestCommitTime (SnapTable snap), InstantsToConsiderForNextSync = [],
          SourceFormat = TableFormat (SnapTable snap), TargetFormat = '''', SourceIdentifier = SnapSourceIdentifier snap, CustomProperties = []\<rparr>"
  have "wf_map old" using assms(2) by (cases "pl_prev p") (simp_all add: old_def previous_ok_def)
  moreover from assms(1) obtain nm where props: "props = map_put NameMappingProperty nm (WriteSyncMetadataProperties old md)"
    by (auto simp: commit_properties_def old_def md_def)
  ultimately show wf: "wf_map props" by simp
  show "\<exists>m. ReadSyncMetadataFromProperties (sort_key fst props) = Some m \<and> LastInstantSynced m = LatestCommitTime (SnapTable snap)"
    unfolding Read_sorted [OF wf] unfolding props name_mapping_keeps_mark [OF Write_nonempty]
    using Read_Write_watermark [of md old] assms(3) by (auto simp: md_def)
qed

lemma find_last: "list_all (\<lambda>s. \<not> P s) xs \<Longrightarrow> P x \<Longrightarrow> find_ptr P (map Some (xs @ [x])) = Inr (Some x)"
  by (induction xs) auto

lemma current_is_last:
  assumes "pred_option (\<lambda>m. list_all (\<lambda>q. isn_SnapshotID (the q) < pl_snapshotID p) (im_Snapshots m)) (pl_prev p)" "isn_SnapshotID snap = pl_snapshotID p"
  shows "current_snapshot (read_plan stamp B p props snap cols) (pl_snapshotID p) = Inr (canon_snap snap)"
proof -
  have "list_all (\<lambda>s. isn_SnapshotID s \<noteq> pl_snapshotID p) (map canon_snap (plan_snapshots p))"
    using assms(1) by (cases "pl_prev p") (fastforce simp: plan_snapshots_def list_all_iff)+
  then have "find_ptr (\<lambda>s. isn_SnapshotID s = pl_snapshotID p) (map Some (map canon_snap (plan_snapshots p) @ [canon_snap snap])) = Inr (Some (canon_snap snap))"
    by (intro find_last) (simp_all add: assms(2))
  then show ?thesis by (simp add: current_snapshot_def)
qed

lemma list_entry_path: "table_base B \<Longrightarrow> ice_stamp_ok stamp \<Longrightarrow> plan_manifest B stamp \<noteq> ''''"
  by (simp add: plan_manifest_def ice_path_eq ice_stamp_ok_def)

lemma commit_files_read:
  assumes lib: "avro_faithful lib" and B: "table_base B" "ice_stamp_ok stamp"
    and p: "pl_schema p = built_schema i cols"
    and mb: "writeManifest lib (plan_entries lib p fs) (Some (pl_schema p)) spec icebergFormatVersion = Inr mb"
    and lb: "ice_writeManifestList lib [list_entry p (plan_manifest B stamp) mb fs] i' par seq ver = Inr lb"
    and store: "mem_Read (isr_storage s) (plan_manifest B stamp) = Inr mb" "mem_Read (isr_storage s) (isn_ManifestList snap) = Inr lb"
    and tbl: "list_all (\<lambda>pf. SourceField pf \<noteq> None) (PartitioningFields tbl)"
  shows "\<exists>gs. dataFilesForSnapshot lib s snap tbl = Inr gs \<and> list_all2 (committed_file lib (ReadSchema tbl) cols) fs gs"
proof -
  have l: "ice_readManifestList lib lb = Inr [list_entry p (plan_manifest B stamp) mb fs]"
    by (rule manifest_list_back [OF lib lb]) (simp add: list_entry_def list_entry_path [OF B])
  obtain enc es where es: "readManifest lib mb = Inr es" "list_all2 (entry_back enc) (plan_entries lib p fs) es"
    by (rule manifest_back [OF lib mb]) (simp_all add: plan_entries_def added_entry_def list_all_iff)
  have "plan_entries lib p fs = map (added_entry lib cols (pl_snapshotID p)) fs" by (simp add: plan_entries_def p built_schema_def)
  with entries_converted [of enc lib cols "pl_snapshotID p" fs es tbl] es(2) tbl
  obtain gs where "map_res (\<lambda>mdf. convertManifestDataFile lib mdf tbl) (List.map_filter live_data_file es) = Inr gs"
    "list_all2 (committed_file lib (ReadSchema tbl) cols) fs gs" by auto
  with l es(1) store show ?thesis
    by (simp add: dataFilesForSnapshot_def manifest_data_files_def list_entry_def)
qed

section \<open>A whole commit\<close>

text \<open>
  A target that can take \<open>n\<close> commits: versions and snapshot identifiers are left, and the previous metadata, if any, is
  in order.
\<close>

definition ice_ready :: "nat \<Rightarrow> int \<Rightarrow> int \<Rightarrow> ice_target \<Rightarrow> table \<Rightarrow> bool" where
  "ice_ready n L K t tbl \<longleftrightarrow> it_targetTable t = Some tbl \<and> table_base (BasePath tbl) \<and> K + int n \<le> max_int64 \<and>
     (\<exists>v prev. previous_commit (ice_NewSource (it_storage t) (BasePath tbl)) = Inr (v, prev) \<and> 0 < v \<and> v + int n \<le> max_int64 \<and>
        previous_ok L K prev)"

abbreviation own_ice_source :: "ice_target \<Rightarrow> table \<Rightarrow> ice_source" where
  "own_ice_source t tbl \<equiv> ice_NewSource (it_storage t) (BasePath tbl)"

definition read_after :: "ice_libs \<Rightarrow> ice_stamp \<Rightarrow> table \<Rightarrow> snapshot \<Rightarrow> snapshot \<Rightarrow> bool" where
  "read_after lib stamp tbl snap rb \<longleftrightarrow>
     (\<exists>s new cols.
        ReadSchema (SnapTable snap) = Some s \<and> set new \<subseteq> new_columns (SnapTable snap) \<and> columns_read (Fields s @ new) cols \<and>
        ReadSchema (SnapTable rb) = Some (read_columns (Fields s @ new) cols) \<and>
        list_all2 (committed_file lib (ReadSchema (SnapTable rb)) cols) (AllDataFiles snap) (DataFiles rb)) \<and>
     TableName (SnapTable rb) = filepath_Base (BasePath tbl) \<and> LatestCommitTime (SnapTable rb) = ist_millis stamp \<and>
     PartitionedDataFiles rb = []"

text \<open>
  What the source reads after a commit, stated on the snapshot that was committed. Each file comes back with its path,
  format, size and row count, and with its statistics where it has at most one for each column, of a type that is not
  floating-point, and the columns have names and identifiers of their own. The schema has the columns of the synced
  table and then the partition columns it lacks, in Iceberg form under positive identifiers, which are distinct if the
  code gave all of them out. \<open>prev\<close> is the metadata before the commit.
\<close>

definition file_back :: "ice_libs \<Rightarrow> field list \<Rightarrow> int list \<Rightarrow> data_file \<Rightarrow> data_file \<Rightarrow> bool" where
  "file_back lib gs ids f g \<longleftrightarrow>
     PhysicalPath g = PhysicalPath f \<and> FileFormat g = FileFormat f \<and> FileSizeBytes g = FileSizeBytes f \<and> RecordCount g = RecordCount f \<and>
     (distinct (map FieldName gs) \<and> distinct ids \<and> list_all (stat_ok gs) (ColumnStats f) \<and> distinct (map StatField (ColumnStats f)) \<longrightarrow>
       ColumnStats g = kept_stats lib gs ids (ColumnStats f))"

definition snapshot_back :: "ice_libs \<Rightarrow> ice_stamp \<Rightarrow> table \<Rightarrow> ice_metadata option \<Rightarrow> snapshot \<Rightarrow> snapshot \<Rightarrow> bool" where
  "snapshot_back lib stamp tbl prev snap rb \<longleftrightarrow>
     (\<exists>s new ids.
        ReadSchema (SnapTable snap) = Some s \<and>
        new = absent_columns (map FieldName (Fields s)) (PartitioningFields (SnapTable snap)) \<and>
        length ids = length (Fields s @ new) \<and> list_all (\<lambda>i. 0 < i) ids \<and>
        (ids_in_order prev \<and> explicit_ids s = [] \<and> distinct (column_paths s @ map FieldName new) \<longrightarrow> distinct ids) \<and>
        ReadSchema (SnapTable rb) = Some (NewRecordSchema ''root'' (map2 ice_column (Fields s @ new) ids) False) \<and>
        list_all2 (file_back lib (Fields s @ new) ids) (AllDataFiles snap) (DataFiles rb)) \<and>
     TableName (SnapTable rb) = filepath_Base (BasePath tbl) \<and> LatestCommitTime (SnapTable rb) = ist_millis stamp \<and>
     PartitionedDataFiles rb = []"

lemma read_columns_ids: "read_columns gs cols = NewRecordSchema ''root'' (map2 ice_column gs (map nf_ID cols)) False"
  by (simp add: read_columns_def zip_map2 split_def comp_def)

lemma planned_columns_ok:
  assumes "plan_ok L K T p gs cols" "ice_table_ok L T"
  shows "list_all (\<lambda>g. pred_option ice_ok (FieldSchema g)) gs"
proof -
  from assms(1) obtain s new where s: "ReadSchema T = Some s" "gs = Fields s @ new" "set new \<subseteq> new_columns T" by (auto simp: plan_ok_def)
  from assms(2) s(1) have "ice_ok s" "DataType s = TypeRecord" "list_all partition_ok (PartitioningFields T)" by (auto simp: ice_table_ok_def)
  then have "list_all (\<lambda>g. pred_option ice_ok (FieldSchema g)) (Fields s)" by (auto simp: ice_ok.simps [of s] list_all_iff split: option.splits)
  moreover have "pred_option ice_ok (FieldSchema g)" if g: "g \<in> set new" for g
  proof -
    from s(3) g obtain f pf where f: "g = partition_col f" "pf \<in> set (PartitioningFields T)" "SourceField pf = Some f"
      by (force simp: new_columns_def)
    with \<open>list_all partition_ok (PartitioningFields T)\<close> obtain u where "FieldSchema f = Some u" "ice_ok u"
      by (auto simp: list_all_iff partition_ok_def dest: bspec)
    then show ?thesis by (simp add: f(1) partition_col_def bare_ok)
  qed
  ultimately show ?thesis unfolding s(2) list_all_append by (simp only: list_all_iff) blast
qed

lemma planned_read_back:
  assumes p: "plan_ok L K (SnapTable snap) p gs cols" and T: "ice_table_ok L (SnapTable snap)" and pos: "ids_positive (pl_prev p)"
    and rb: "ReadSchema (SnapTable rb) = Some (read_columns gs cols)" "TableName (SnapTable rb) = filepath_Base (BasePath tbl)"
      "LatestCommitTime (SnapTable rb) = ist_millis stamp" "PartitionedDataFiles rb = []"
    and files: "list_all2 (committed_file lib (ReadSchema (SnapTable rb)) cols) (AllDataFiles snap) (DataFiles rb)"
  shows "snapshot_back lib stamp tbl (pl_prev p) snap rb"
proof -
  let ?new = "\<lambda>s. absent_columns (map FieldName (Fields s)) (PartitioningFields (SnapTable snap))"
  have cr: "columns_read gs cols" using p by (simp add: plan_ok_def)
  from p pos obtain s where s: "ReadSchema (SnapTable snap) = Some s" "gs = Fields s @ ?new s"
    and c: "map fst (schema_slots cols) = column_paths s @ map FieldName (?new s)" "slots_positive cols"
      "ids_in_order (pl_prev p) \<Longrightarrow> explicit_ids s = [] \<Longrightarrow> slots_unique (pl_lastColumnID p) cols"
    by (auto simp: plan_ok_def plan_columns_def)
  have "length (map nf_ID cols) = length gs" using cr by (simp add: columns_read_def list_all2_lengthD)
  moreover have "list_all (\<lambda>i. 0 < i) (map nf_ID cols)" using column_id_positive [OF c(2)] by (simp add: list_all_iff)
  moreover have "distinct (map nf_ID cols)"
    if "ids_in_order (pl_prev p) \<and> explicit_ids s = [] \<and> distinct (column_paths s @ map FieldName (?new s))"
    using unique_ids [OF c(3)] that c(1) by simp
  moreover have "list_all2 (file_back lib gs (map nf_ID cols)) (AllDataFiles snap) (DataFiles rb)"
    using files
  proof (rule list.rel_mono_strong)
    fix f g assume "committed_file lib (ReadSchema (SnapTable rb)) cols f g"
    then show "file_back lib gs (map nf_ID cols) f g"
      using column_stats_kept [OF cr planned_columns_ok [OF p T]] by (simp add: committed_file_def file_back_def rb(1))
  qed
  ultimately show ?thesis
    unfolding snapshot_back_def using s rb by (intro conjI exI [of _ s] exI [of _ "?new s"] exI [of _ "map nf_ID cols"]) (simp_all add: read_columns_ids)
qed

text \<open>The metadata a successful commit left and the manifests it wrote.\<close>

definition commit_left :: "ice_libs \<Rightarrow> ice_stamp \<Rightarrow> table \<Rightarrow> snapshot \<Rightarrow> ice_target \<Rightarrow> ice_plan \<Rightarrow> ice_snapshot \<Rightarrow> ice_metadata \<Rightarrow> bool" where
  "commit_left lib stamp tbl snap t p rec M \<longleftrightarrow>
     isn_SnapshotID rec = pl_snapshotID p \<and> isn_ManifestList rec = plan_list (BasePath tbl) stamp p \<and> snap_ok rec \<and>
     (\<exists>path. map_of (snd (listMetadataFiles (own_ice_source t tbl))) (pl_version p) = Some path \<and> readMetadata (own_ice_source t tbl) path = Inr M) \<and>
     latest_metadata (own_ice_source t tbl) = Inr (pl_version p, M) \<and>
     previous_commit (own_ice_source t tbl) = Inr (wrap64 (pl_version p + 1), Some M) \<and> in_int64 (pl_version p) \<and>
     (\<exists>mb lb. writeManifest lib (plan_entries lib p (AllDataFiles snap)) (Some (pl_schema p)) (Some (plan_spec p)) icebergFormatVersion = Inr mb \<and>
        ice_writeManifestList lib [list_entry p (plan_manifest (BasePath tbl) stamp) mb (AllDataFiles snap)] (pl_snapshotID p) (plan_parent p)
          (plan_sequence p) icebergFormatVersion = Inr lb \<and>
        mem_Read (it_storage t) (plan_manifest (BasePath tbl) stamp) = Inr mb \<and> mem_Read (it_storage t) (plan_list (BasePath tbl) stamp p) = Inr lb)"

lemma commit_latest:
  assumes rd: "ice_ready n L K t tbl" and st: "ice_stamp_ok stamp" "ist_millis stamp \<le> K"
    and T: "ice_table_ok L (SnapTable snap)" "in_int64 (LatestCommitTime (SnapTable snap))"
    and run: "ice_CommitSnapshot lib stamp t snap = (t', None)"
  obtains p gs cols props rec where "it_targetTable t' = Some tbl" "plan_ok L K (SnapTable snap) p gs cols" "previous_ok L K (pl_prev p)"
    "0 < pl_version p" "pl_version p + int n \<le> max_int64" "commit_properties p snap = Inr props"
    "commit_left lib stamp tbl snap t' p rec (read_plan stamp (BasePath tbl) p props rec cols)"
    "previous_commit (own_ice_source t tbl) = Inr (pl_version p, pl_prev p)"
proof -
  let ?B = "BasePath tbl" and ?s = "own_ice_source t' tbl" and ?fs = "AllDataFiles snap"
  from rd obtain v prev where r: "it_targetTable t = Some tbl" "table_base ?B"
    "previous_commit (own_ice_source t tbl) = Inr (v, prev)" "0 < v" "v + int n \<le> max_int64" "previous_ok L K prev"
    unfolding ice_ready_def by blast
  obtain p mb lb props where c: "plan_commit (ist_millis stamp) (own_ice_source t tbl) (SnapTable snap) = Inr p"
    and w: "writeManifest lib (plan_entries lib p ?fs) (Some (pl_schema p)) (Some (plan_spec p)) icebergFormatVersion = Inr mb"
      "ice_writeManifestList lib [list_entry p (plan_manifest ?B stamp) mb ?fs] (pl_snapshotID p) (plan_parent p) (plan_sequence p)
        icebergFormatVersion = Inr lb"
    and pr: "commit_properties p snap = Inr props" and tt: "it_targetTable t' = Some tbl"
    and st': "it_storage t' = stored_files (it_storage t) [(plan_manifest ?B stamp, mb), (plan_list ?B stamp p, lb),
       (ice_path ?B (metadata_name (pl_version p)), json_print (enc_ice_metadata (plan_metadata stamp ?B p props (length ?fs)))),
       (ice_path ?B ''version-hint.text'', formatInt (pl_version p))]"
    by (rule commit_success [OF r(1) refl run])
  have now: "in_int64 (ist_millis stamp)" using st by (simp add: ice_stamp_ok_def)
  obtain gs cols where p: "plan_ok L K (SnapTable snap) p gs cols" "pl_version p = v" "pl_prev p = prev"
    by (rule plan_facts [OF c r(3,6) st(2) now T(1)])
  note prev = r(6) [folded p(3)]
  obtain vs ps where l: "listMetadataFiles ?s = (vs, ps)" "vs \<noteq> []" "last vs = v" "in_int64 v"
    "map_of ps v = Some (ice_path ?B (metadata_name v))"
    "mem_Read (it_storage t') (ice_path ?B (metadata_name v)) = Inr (json_print (enc_ice_metadata (plan_metadata stamp ?B p props (length ?fs))))"
    "mem_Read (it_storage t') (plan_manifest ?B stamp) = Inr mb" "mem_Read (it_storage t') (plan_list ?B stamp p) = Inr lb"
    by (rule written_metadata [OF r(2) st(1) r(3,4) st' [unfolded p(2)]])
  define rec where "rec = snapshot_record p (ist_millis stamp) (plan_list ?B stamp p) (length ?fs)"
  have rec: "isn_SnapshotID rec = pl_snapshotID p" "isn_ManifestList rec = plan_list ?B stamp p" "snap_ok rec"
    using record_ok [OF prev p(1) now] by (simp_all add: rec_def) (simp_all add: snapshot_record_def)
  have ok: "metadata_ok (pl_schemaID p) cols (plan_snapshots p @ [rec]) (plan_metadata stamp ?B p props (length ?fs))"
    using planned_metadata_ok [OF p(1) prev T(1) commit_properties_mark(1) [OF pr prev T(2)] now] by (simp add: plan_metadata_def rec_def)
  let ?M = "read_plan stamp ?B p props rec cols"
  have "read_metadata (pl_schemaID p) cols (plan_snapshots p @ [rec]) (plan_metadata stamp ?B p props (length ?fs)) = ?M"
    by (simp add: read_plan_def plan_metadata_def rec_def)
  with metadata_text_back [OF ok] l(6) have read: "readMetadata ?s (ice_path ?B (metadata_name v)) = Inr ?M"
    by (simp add: readMetadata_def ice_NewSource_def maxReadableFormatVersion_def)
  have at: "path_at ps v = ice_path ?B (metadata_name v)" by (simp add: path_at_def l(5))
  have "commit_left lib stamp tbl snap t' p rec ?M"
    using rec w l(4,5,7,8) by (simp add: commit_left_def latest_metadata_def previous_commit_def l(1-3) at read p(2))
  with that tt p prev pr r(3-5) show ?thesis by simp
qed

lemma commit_marks:
  assumes rd: "ice_ready (Suc n) L K t tbl" and st: "ice_stamp_ok stamp" "ist_millis stamp \<le> K"
    and T: "ice_table_ok L (SnapTable snap)" "in_int64 (LatestCommitTime (SnapTable snap))"
    and run: "ice_CommitSnapshot lib stamp t snap = (t', None)"
  shows "ice_ready n (L + ice_growth (SnapTable snap)) (K + 1) t' tbl"
    "\<exists>md. ice_GetTableMetadata t' = Inr (Some md) \<and> LastInstantSynced md = LatestCommitTime (SnapTable snap)"
proof -
  obtain p gs cols props rec where c: "it_targetTable t' = Some tbl" "plan_ok L K (SnapTable snap) p gs cols" "previous_ok L K (pl_prev p)"
    "0 < pl_version p" "pl_version p + int (Suc n) \<le> max_int64" "commit_properties p snap = Inr props"
    and left: "commit_left lib stamp tbl snap t' p rec (read_plan stamp (BasePath tbl) p props rec cols)"
    by (rule commit_latest [OF rd st T run])
  let ?M = "read_plan stamp (BasePath tbl) p props rec cols"
  note mark = commit_properties_mark [OF c(6,3) T(2)]
  have K: "K + int (Suc n) \<le> max_int64" "table_base (BasePath tbl)" using rd by (auto simp: ice_ready_def)
  then have "previous_ok (L + ice_growth (SnapTable snap)) (K + 1) (Some ?M)"
    by (intro read_plan_previous [OF c(2,3) T(1) mark(1)]) (use left in \<open>auto simp: commit_left_def\<close>)
  moreover have "wrap64 (pl_version p + 1) = pl_version p + 1" using c(4,5) by (simp add: in_int64_def)
  ultimately show "ice_ready n (L + ice_growth (SnapTable snap)) (K + 1) t' tbl"
    using left c(1,4,5) K by (simp add: ice_ready_def commit_left_def)
  from left have "latest_metadata (own_ice_source t' tbl) = Inr (pl_version p, ?M)" by (simp add: commit_left_def)
  then show "\<exists>md. ice_GetTableMetadata t' = Inr (Some md) \<and> LastInstantSynced md = LatestCommitTime (SnapTable snap)"
    using c(1) mark(2) by (auto simp: ice_GetTableMetadata_def ice_target_source_def latest_metadata_def split: prod.splits if_splits)
qed

lemma commit_reads:
  assumes lib: "avro_faithful lib" and rd: "ice_ready n L K t tbl" and st: "ice_stamp_ok stamp" "ist_millis stamp \<le> K"
    and T: "ice_table_ok L (SnapTable snap)" "in_int64 (LatestCommitTime (SnapTable snap))"
    and run: "ice_CommitSnapshot lib stamp t snap = (t', None)"
  shows "\<exists>rb. ice_GetCurrentSnapshot lib (own_ice_source t' tbl) = Inr rb \<and> read_after lib stamp tbl snap rb \<and>
    (\<forall>v prev. previous_commit (own_ice_source t tbl) = Inr (v, prev) \<and> ids_positive prev \<longrightarrow> snapshot_back lib stamp tbl prev snap rb)"
proof -
  let ?s = "own_ice_source t' tbl"
  obtain p gs cols props rec where c: "plan_ok L K (SnapTable snap) p gs cols"
    and left: "commit_left lib stamp tbl snap t' p rec (read_plan stamp (BasePath tbl) p props rec cols)"
    and prev: "previous_commit (own_ice_source t tbl) = Inr (pl_version p, pl_prev p)"
    by (rule commit_latest [OF rd st T run])
  have B: "table_base (BasePath tbl)" using rd by (auto simp: ice_ready_def)
  let ?M = "read_plan stamp (BasePath tbl) p props rec cols"
  obtain pfs where pfs: "resolveSchemaAndPartitions ?M (pl_schemaID p) = Inr (read_columns gs cols, pfs)" "list_all (\<lambda>pf. SourceField pf \<noteq> None) pfs"
    using read_plan_resolves [OF c] by blast
  let ?tbl = "ice_table ?s (read_columns gs cols, pfs) (ist_millis stamp)"
  have parts: "PartitioningFields ?tbl = pfs" "ReadSchema ?tbl = Some (read_columns gs cols)" "TableName ?tbl = filepath_Base (BasePath tbl)"
    "LatestCommitTime ?tbl = ist_millis stamp" by (simp_all add: ice_table_def ice_NewSource_def)
  obtain mb lb where w: "writeManifest lib (plan_entries lib p (AllDataFiles snap)) (Some (pl_schema p)) (Some (plan_spec p)) icebergFormatVersion = Inr mb"
    "ice_writeManifestList lib [list_entry p (plan_manifest (BasePath tbl) stamp) mb (AllDataFiles snap)] (pl_snapshotID p) (plan_parent p)
      (plan_sequence p) icebergFormatVersion = Inr lb"
    "mem_Read (it_storage t') (plan_manifest (BasePath tbl) stamp) = Inr mb" "mem_Read (it_storage t') (plan_list (BasePath tbl) stamp p) = Inr lb"
    using left unfolding commit_left_def by blast
  have sch: "pl_schema p = built_schema (pl_schemaID p) cols" using c by (simp add: plan_ok_def)
  obtain fs where fs: "dataFilesForSnapshot lib ?s (canon_snap rec) ?tbl = Inr fs"
    "list_all2 (committed_file lib (ReadSchema ?tbl) cols) (AllDataFiles snap) fs"
  proof -
    have "isr_storage ?s = it_storage t'" "isn_ManifestList (canon_snap rec) = plan_list (BasePath tbl) stamp p"
      "list_all (\<lambda>pf. SourceField pf \<noteq> None) (PartitioningFields ?tbl)"
      using left pfs(2) by (simp_all only: parts) (simp_all add: ice_NewSource_def commit_left_def)
    with commit_files_read [OF lib B st(1) sch w(1,2), of ?s "canon_snap rec" ?tbl] w(3,4) that show ?thesis by metis
  qed
  have "ice_GetTable ?s (formatInt (pl_version p)) = Inr ?tbl"
    using left pfs(1) by (auto simp: commit_left_def ice_GetTable_def)
  moreover have "current_snapshot ?M (pl_snapshotID p) = Inr (canon_snap rec)"
    by (rule current_is_last) (use c left in \<open>simp_all add: plan_ok_def commit_left_def\<close>)
  ultimately obtain rb where rb: "ice_GetCurrentSnapshot lib ?s = Inr rb" "SnapTable rb = ?tbl" "DataFiles rb = fs" "PartitionedDataFiles rb = []"
    using left fs(1) by (simp add: ice_GetCurrentSnapshot_def commit_left_def)
  obtain s new where "ReadSchema (SnapTable snap) = Some s" "gs = Fields s @ new" "set new \<subseteq> new_columns (SnapTable snap)" "columns_read gs cols"
    using c by (auto simp: plan_ok_def)
  with rb fs(2) parts have "read_after lib stamp tbl snap rb" unfolding read_after_def by auto
  moreover have "snapshot_back lib stamp tbl (pl_prev p) snap rb" if "ids_positive (pl_prev p)"
    by (rule planned_read_back [OF c T(1) that]) (use rb fs(2) parts in simp_all)
  ultimately show ?thesis using rb(1) prev by auto
qed

text \<open>The identifiers on record after a commit are in order when those before were.\<close>

lemma commit_ids:
  assumes "ice_ready n L K t tbl" "ice_stamp_ok stamp" "ist_millis stamp \<le> K" "ice_table_ok L (SnapTable snap)"
    "in_int64 (LatestCommitTime (SnapTable snap))" "ice_CommitSnapshot lib stamp t snap = (t', None)"
    and "previous_commit (own_ice_source t tbl) = Inr (v, prev)" "ReadSchema (SnapTable snap) = Some s"
  shows "\<exists>v' m. previous_commit (own_ice_source t' tbl) = Inr (v', Some m) \<and> (ids_positive prev \<longrightarrow> ids_positive (Some m)) \<and>
    (ids_in_order prev \<and> explicit_ids s = [] \<longrightarrow> ids_in_order (Some m))"
proof -
  obtain p gs cols props rec where c: "plan_ok L K (SnapTable snap) p gs cols"
    and left: "commit_left lib stamp tbl snap t' p rec (read_plan stamp (BasePath tbl) p props rec cols)"
    and prev: "previous_commit (own_ice_source t tbl) = Inr (pl_version p, pl_prev p)"
    by (rule commit_latest [OF assms(1-6)])
  from prev assms(7) have "prev = pl_prev p" by simp
  with read_plan_ids [OF c assms(4,8)] left show ?thesis by (auto simp: commit_left_def)
qed

end
