(* ===== verification/Iceberg_Library.thy ===== *)
theory Iceberg_Library
  imports Iceberg_Avro
begin

text \<open>
  What the theorems assume of the Avro library where they state that a commit does not fail, and a container library
  with both properties: it takes the records that conform to the schema and reads back what was written. Its containers
  are JSON texts with a tag for each Avro type.
\<close>

section \<open>What a library accepts\<close>

text \<open>
  The mapping the library documents between Avro types and Go values: an \<^verbatim>\<open>int\<close> holds 32 bits, a \<^verbatim>\<open>long\<close> an \<^verbatim>\<open>int64\<close>, a
  union the values of its branches, a record a map with exactly its fields.
\<close>

definition avro_primitive :: "string \<Rightarrow> any \<Rightarrow> bool" where
  "avro_primitive t v \<longleftrightarrow>
     (case v of
        ANil \<Rightarrow> t = ''null''
      | ABool b \<Rightarrow> t = ''boolean''
      | AInt i \<Rightarrow> t = ''long'' \<or> t = ''int'' \<and> - (2 ^ 31) \<le> i \<and> i < 2 ^ 31
      | AInt32 i \<Rightarrow> t = ''int''
      | AInt64 i \<Rightarrow> t = ''long''
      | AFloat32 f \<Rightarrow> t = ''float''
      | AFloat64 f \<Rightarrow> t = ''double''
      | AStr s \<Rightarrow> t = ''string''
      | ABytes s \<Rightarrow> t = ''bytes''
      | _ \<Rightarrow> False)"

function avro_conforms :: "json \<Rightarrow> any \<Rightarrow> bool" where
  "avro_conforms (JStr t) v = avro_primitive t v"
| "avro_conforms (JArr ts) v = list_ex (\<lambda>t. avro_conforms t v) ts"
| "avro_conforms (JObj kvs) v =
     (if jget ''type'' kvs = JStr ''record'' then
        (case v of
           AMap m \<Rightarrow>
             (let fs = doc_views (json_elems_of (jget ''fields'' kvs)) in
              wf_map m \<and> fst ` set m \<subseteq> (\<lambda>f. any_string (jget ''name'' f)) ` set fs \<and>
              list_all (\<lambda>f. case map_of m (any_string (jget ''name'' f)) of None \<Rightarrow> False | Some w \<Rightarrow> avro_conforms (jget ''type'' f) w) fs)
         | _ \<Rightarrow> False)
      else if jget ''type'' kvs = JStr ''array'' then
        (case v of AList xs \<Rightarrow> list_all (avro_conforms (jget ''items'' kvs)) xs | _ \<Rightarrow> False)
      else False)"
| "avro_conforms (JNum l) v = False"
| "avro_conforms (JBool b) v = False"
| "avro_conforms JNull v = False"
  by pat_completeness auto
termination
  by (relation "measure (\<lambda>(j, _). size j)")
    (auto simp: doc_view_size [simplified] jget_size [simplified], auto simp: less_Suc_eq_le intro: size_list_estimation')

text \<open>The schemas of manifest lists and of the manifests of unpartitioned tables are valid and conforming records are written.\<close>

definition avro_accepts :: "ice_libs \<Rightarrow> bool" where
  "avro_accepts lib \<longleftrightarrow>
     (\<forall>sch \<in> {manifestListSchema, manifestEntrySchemaTemplate (encoder_schemaJSON [])}.
        (\<forall>meta. lib_ocf_new lib sch meta = None) \<and> (\<forall>r. avro_conforms sch (AMap r) \<longrightarrow> lib_ocf_encode lib sch r = None) \<and>
        (\<forall>meta rs. list_all (\<lambda>r. avro_conforms sch (AMap r)) rs \<longrightarrow> (\<exists>bytes. lib_ocf_close lib sch meta rs = Inr bytes)))"

lemma accepted_container:
  assumes "avro_accepts lib" "sch \<in> {manifestListSchema, manifestEntrySchemaTemplate (encoder_schemaJSON [])}"
    and "list_all (\<lambda>r. avro_conforms sch (AMap r)) rs"
  shows "\<exists>bytes. writeAvroContainer lib sch meta rs = Inr bytes"
proof -
  note s = bspec [OF assms(1) [unfolded avro_accepts_def] assms(2)]
  from s have lib: "lib_ocf_new lib sch meta = None" "\<And>r. avro_conforms sch (AMap r) \<Longrightarrow> lib_ocf_encode lib sch r = None" by auto
  have "List.map_filter (lib_ocf_encode lib sch) rs = []"
    using assms(3) lib(2) by (induction rs) (simp_all add: List.map_filter_simps)
  then have "first_error (lib_ocf_encode lib sch) rs = None" by (simp add: first_error_def)
  moreover obtain bytes where "lib_ocf_close lib sch meta rs = Inr bytes" using s assms(3) by metis
  ultimately show ?thesis using lib(1) by (simp add: writeAvroContainer_def)
qed

text \<open>The values Avro has, whatever the schema.\<close>

fun avro_value :: "any \<Rightarrow> bool" where
  "avro_value (ABig i) = False"
| "avro_value (AMeta m) = False"
| "avro_value (AList xs) = list_all avro_value xs"
| "avro_value (AMap m) = list_all (\<lambda>kv. avro_value (snd kv)) m"
| "avro_value _ = True"

lemma conforms_value: "avro_conforms j v \<Longrightarrow> avro_value v"
proof (induction j v rule: avro_conforms.induct)
  case (1 t v)
  then show ?case by (cases v) (simp_all add: avro_primitive_def)
next
  case (2 ts v)
  then show ?case by (auto simp: list_ex_iff)
next
  case (3 kvs v)
  show ?case
  proof (cases "jget ''type'' kvs = JStr ''record''")
    case True
    with "3.prems" obtain m where m: "v = AMap m" by (auto split: any.splits)
    let ?fs = "doc_views (json_elems_of (jget ''fields'' kvs))"
    have c: "wf_map m" "fst ` set m \<subseteq> (\<lambda>f. any_string (jget ''name'' f)) ` set ?fs"
      "list_all (\<lambda>f. case map_of m (any_string (jget ''name'' f)) of None \<Rightarrow> False | Some w \<Rightarrow> avro_conforms (jget ''type'' f) w) ?fs"
      using "3.prems" True by (simp_all add: m Let_def)
    have "avro_value w" if kw: "(k, w) \<in> set m" for k w
    proof -
      have w: "map_of m k = Some w" using c(1) kw by (simp add: wf_map_def)
      from c(2) kw obtain f where f: "f \<in> set ?fs" "k = any_string (jget ''name'' f)" by force
      with c(3) w have "avro_conforms (jget ''type'' f) w" by (auto simp: list_all_iff dest: bspec)
      with "3.IH"(1) [OF True m refl f(1), of w] w f(2) show ?thesis by auto
    qed
    then show ?thesis by (auto simp: m list_all_iff)
  next
    case False
    with "3.prems" obtain xs where xs: "v = AList xs" "jget ''type'' kvs = JStr ''array''"
        "list_all (avro_conforms (jget ''items'' kvs)) xs" by (auto split: any.splits if_splits)
    with "3.IH"(2) [OF False xs(2,1)] show ?thesis by (auto simp: list_all_iff)
  qed
qed simp_all

section \<open>Values as JSON\<close>

definition text_int :: "string \<Rightarrow> int" where
  "text_int s = (if hasPrefix s ''-'' then - int (digits_val (tl s)) else int (digits_val s))"

lemma text_int_formatInt [simp]: "text_int (formatInt i) = i"
proof (cases "i < 0")
  case False
  have "\<not> hasPrefix (nat_dec (nat i)) ''-''"
    using digits_hd(1) [OF nat_dec_nonempty nat_dec_digits, of "nat i"] by (cases "nat_dec (nat i)") (auto simp: hasPrefix_def)
  with False show ?thesis by (simp add: formatInt_def text_int_def)
qed (simp add: formatInt_def text_int_def hasPrefix_def)

fun float_parts :: "gfloat \<Rightarrow> json list" where
  "float_parts FNaN = [JStr ''n'', JStr '''']"
| "float_parts FPosInf = [JStr ''p'', JStr '''']"
| "float_parts FNegInf = [JStr ''m'', JStr '''']"
| "float_parts (FFin s) = [JStr ''v'', JStr s]"

fun parts_float :: "json list \<Rightarrow> gfloat" where
  "parts_float [JStr t, JStr s] = (if t = ''n'' then FNaN else if t = ''p'' then FPosInf else if t = ''m'' then FNegInf else FFin s)"
| "parts_float _ = FNaN"

fun tag_any :: "any \<Rightarrow> json" where
  "tag_any ANil = JNull"
| "tag_any (ABool b) = JBool b"
| "tag_any (AInt i) = JArr [JStr ''i'', JNum (formatInt i)]"
| "tag_any (AInt32 i) = JArr [JStr ''i'', JNum (formatInt i)]"
| "tag_any (AInt64 i) = JArr [JStr ''l'', JNum (formatInt i)]"
| "tag_any (AFloat32 f) = JArr (JStr ''f'' # float_parts f)"
| "tag_any (AFloat64 f) = JArr (JStr ''d'' # float_parts f)"
| "tag_any (AStr s) = JStr s"
| "tag_any (ABytes s) = JArr [JStr ''b'', JStr s]"
| "tag_any (AMeta m) = JArr []"
| "tag_any (ABig i) = JArr []"
| "tag_any (AMap m) = JObj (map (\<lambda>kv. (fst kv, tag_any (snd kv))) m)"
| "tag_any (AList xs) = JArr (JStr ''a'' # map tag_any xs)"

fun json_text :: "json \<Rightarrow> string" where
  "json_text (JStr s) = s"
| "json_text (JNum l) = l"
| "json_text _ = ''''"

fun untag_any :: "json \<Rightarrow> any" where
  "untag_any JNull = ANil"
| "untag_any (JBool b) = ABool b"
| "untag_any (JStr s) = AStr s"
| "untag_any (JNum l) = ANil"
| "untag_any (JObj kvs) = AMap (map (\<lambda>kv. (fst kv, untag_any (snd kv))) kvs)"
| "untag_any (JArr []) = ANil"
| "untag_any (JArr (t # js)) =
     (if t = JStr ''a'' then AList (map untag_any js)
      else if t = JStr ''i'' then AInt (text_int (json_text (hd js)))
      else if t = JStr ''l'' then AInt64 (text_int (json_text (hd js)))
      else if t = JStr ''f'' then AFloat32 (parts_float js)
      else if t = JStr ''d'' then AFloat64 (parts_float js)
      else if t = JStr ''b'' then ABytes (json_text (hd js))
      else ANil)"

lemma parts_float_parts [simp]: "parts_float (float_parts f) = f"
  by (cases f) simp_all

lemma wf_float_parts [simp]: "list_all wf_json (float_parts f)"
  by (cases f) simp_all

lemma wf_tag_any [simp]: "wf_json (tag_any v)"
  by (induction v rule: tag_any.induct) (auto simp: list_all_iff wf_num_formatInt wf_float_parts [unfolded list_all_iff])

lemma untag_tag: "avro_value v \<Longrightarrow> avro_back v (untag_any (tag_any v))"
proof (induction v rule: tag_any.induct)
  case (12 m)
  have "rel_option avro_back (map_of m k) (map_of (map (\<lambda>kv. (fst kv, untag_any (tag_any (snd kv)))) m) k)" for k
    using 12 by (induction m) auto
  then show ?case by (simp add: comp_def back_record)
next
  case (13 xs)
  then have "list_all2 avro_back xs (map (\<lambda>x. untag_any (tag_any x)) xs)" by (induction xs) auto
  then show ?case by (simp add: comp_def back_array)
qed (auto intro: avro_back.intros)

section \<open>The library\<close>

fun container_record :: "any \<Rightarrow> (string, any) gomap res" where
  "container_record (AMap m) = Inr m"
| "container_record _ = Inl (ErrMsg ''not a record'')"

definition json_libs :: ice_libs where
  "json_libs =
     \<lparr>lib_uuid_parse = (\<lambda>_. None), lib_uuid_text = (\<lambda>_. None), lib_ocf_new = (\<lambda>_ _. None),
      lib_ocf_encode = (\<lambda>_ r. if avro_value (AMap r) then None else Some (ErrMsg ''no Avro value'')),
      lib_ocf_close = (\<lambda>_ _ rs. Inr (json_print (JArr (map (\<lambda>r. tag_any (AMap r)) rs)))),
      lib_ocf_open = (\<lambda>bytes.
        (case json_unmarshal bytes of
           Some (JArr js) \<Rightarrow> Inr (map (\<lambda>j. container_record (untag_any j)) js, None)
         | _ \<Rightarrow> Inl (ErrMsg ''no container'')))\<rparr>"

lemma json_libs_accept: "avro_accepts json_libs"
  using conforms_value by (auto simp: avro_accepts_def json_libs_def simp del: avro_value.simps)

lemma json_libs_faithful: "avro_faithful json_libs"
  unfolding avro_faithful_def
proof (intro allI impI)
  fix sch meta rs bytes
  assume a: "written_container sch rs \<and> lib_ocf_new json_libs sch meta = None \<and> first_error (lib_ocf_encode json_libs sch) rs = None \<and> lib_ocf_close json_libs sch meta rs = Inr bytes"
  have ok: "list_all (\<lambda>r. avro_value (AMap r)) rs"
  proof -
    have "first_error (lib_ocf_encode json_libs sch) rs = None" using a by simp
    then have "List.map_filter (\<lambda>r. if avro_value (AMap r) then None else Some (ErrMsg ''no Avro value'')) rs = []"
      by (simp add: json_libs_def first_error_def split: list.splits)
    then show ?thesis by (induction rs) (simp_all add: List.map_filter_simps split: if_splits)
  qed
  let ?rs = "map (map (\<lambda>kv. (fst kv, untag_any (tag_any (snd kv))))) rs"
  have bytes: "bytes = json_print (JArr (map (\<lambda>r. tag_any (AMap r)) rs))" using a by (simp add: json_libs_def)
  have "wf_json (JArr (map (\<lambda>r. tag_any (AMap r)) rs))" using wf_tag_any [of "AMap _"] by (auto simp: list_all_iff)
  then have "json_unmarshal bytes = Some (JArr (map (\<lambda>r. tag_any (AMap r)) rs))" unfolding bytes by (rule json_unmarshal_print)
  then have "lib_ocf_open json_libs bytes = Inr (map Inr ?rs, None)" by (simp add: json_libs_def comp_def)
  moreover have "list_all2 record_back rs ?rs"
    using ok
  proof (induction rs)
    case (Cons r rs)
    have "avro_back (AMap r) (AMap (map (\<lambda>kv. (fst kv, untag_any (tag_any (snd kv)))) r))"
      using untag_tag [of "AMap r"] Cons.prems by (simp add: comp_def)
    then have "record_back r (map (\<lambda>kv. (fst kv, untag_any (tag_any (snd kv)))) r)" by (auto simp: record_back_def elim: avro_back_cases)
    with Cons show ?case by simp
  qed simp
  ultimately show "\<exists>rs'. lib_ocf_open json_libs bytes = Inr (map Inr rs', None) \<and> list_all2 record_back rs rs'" by blast
qed

end
