(* ===== verification/Iceberg_Batches.thy ===== *)
theory Iceberg_Batches
  imports Iceberg_Commit Iceberg_Library Hudi_Samples
begin

text \<open>
  Commits of the Iceberg target as a whole: a snapshot, which replaces the files of the table, a batch of changes, which
  carries the changes out on the files listed before, and a commit that fails, which leaves the table's metadata.
\<close>

section \<open>A commit that fails\<close>

lemma failed_commit_keeps:
  assumes rd: "ice_ready n L K t tbl" and st: "ice_stamp_ok stamp" and run: "ice_CommitSnapshot lib stamp t snap = (t', Some e)"
  shows "it_targetTable t' = Some tbl" "listMetadataFiles (own_ice_source t' tbl) = listMetadataFiles (own_ice_source t tbl)"
    "version_at q \<noteq> None \<Longrightarrow> readMetadata (own_ice_source t' tbl) q = readMetadata (own_ice_source t tbl) q"
    "latest_metadata (own_ice_source t' tbl) = latest_metadata (own_ice_source t tbl)" "ice_GetTableMetadata t' = ice_GetTableMetadata t"
proof -
  have r: "it_targetTable t = Some tbl" "table_base (BasePath tbl)" using rd by (auto simp: ice_ready_def)
  obtain p pds where pds: "it_targetTable t' = Some tbl" "it_storage t' = stored_files (it_storage t) pds"
    "set (map fst pds) \<subseteq> {plan_manifest (BasePath tbl) stamp, plan_list (BasePath tbl) stamp p}"
    by (rule commit_failure [OF r(1) refl run])
  have "version_at (plan_manifest (BasePath tbl) stamp) = None" "version_at (plan_list (BasePath tbl) stamp p) = None"
    using st by (simp_all add: plan_manifest_def plan_list_def version_at_path [OF r(2)] ice_stamp_ok_def)
  then have none: "list_all (\<lambda>pd. version_at (fst pd) = None) pds" using pds(3) by (auto simp: list_all_iff)
  show tt: "it_targetTable t' = Some tbl" by (rule pds(1))
  show l: "listMetadataFiles (own_ice_source t' tbl) = listMetadataFiles (own_ice_source t tbl)"
    by (simp add: pds(2) written_listing [OF none])
  have read: "readMetadata (own_ice_source t' tbl) q = readMetadata (own_ice_source t tbl) q" if "version_at q \<noteq> None" for q
  proof -
    have "q \<notin> fst ` set pds" using none that by (auto simp: list_all_iff)
    then show ?thesis by (simp add: readMetadata_def ice_NewSource_def pds(2) stored_files_other)
  qed
  show "version_at q \<noteq> None \<Longrightarrow> readMetadata (own_ice_source t' tbl) q = readMetadata (own_ice_source t tbl) q" by (rule read)
  obtain vs ps where s: "listMetadataFiles (own_ice_source t tbl) = (vs, ps)" by fastforce
  have "vs \<noteq> [] \<Longrightarrow> version_at (path_at ps (last vs)) \<noteq> None"
  proof -
    assume "vs \<noteq> []"
    then obtain q where "map_of ps (last vs) = Some q" using listing_spec(2) [OF s] last_in_set by blast
    with listing_spec(3) [OF s] show ?thesis by (auto simp: path_at_def)
  qed
  moreover have base: "isr_basePath (ice_NewSource st (BasePath tbl)) = BasePath tbl" for st by (simp add: ice_NewSource_def)
  ultimately show "latest_metadata (own_ice_source t' tbl) = latest_metadata (own_ice_source t tbl)" "ice_GetTableMetadata t' = ice_GetTableMetadata t"
    using read [of "path_at ps (last vs)"] base [of "it_storage t"] base [of "it_storage t'"]
    by (auto simp: latest_metadata_def l s ice_GetTableMetadata_def ice_target_source_def tt r(1) no_metadata_def)
qed

section \<open>A batch of changes\<close>

fun ice_changes_ok :: "int \<Rightarrow> table_change list \<Rightarrow> bool" where
  "ice_changes_ok L [] = True"
| "ice_changes_ok L (c # cs) =
     (ice_table_ok L (TableAsOfChange c) \<and> in_int64 (LatestCommitTime (TableAsOfChange c)) \<and>
      ice_changes_ok (L + ice_growth (TableAsOfChange c)) cs)"

definition ice_stamps_ok :: "int \<Rightarrow> (nat \<Rightarrow> ice_stamp) \<Rightarrow> bool" where
  "ice_stamps_ok K stamps \<longleftrightarrow> (\<forall>i. ice_stamp_ok (stamps i) \<and> ist_millis (stamps i) \<le> K)"

text \<open>What a change does to the path, format, size and row count of the listed files.\<close>

definition file_row :: "data_file \<Rightarrow> string \<times> file_format \<times> int \<times> int" where
  "file_row f = (PhysicalPath f, FileFormat f, FileSizeBytes f, RecordCount f)"

definition rows_after :: "(string \<times> file_format \<times> int \<times> int) list \<Rightarrow> table_change \<Rightarrow> (string \<times> file_format \<times> int \<times> int) list" where
  "rows_after rows c =
     filter (\<lambda>r. fst r \<notin> PhysicalPath ` set (FilesRemoved (FilesDiff c))) rows @ map file_row (FilesAdded (FilesDiff c))"

lemma committed_row: "list_all2 (committed_file lib sch cols) fs gs \<Longrightarrow> map file_row gs = map file_row fs"
  by (induction rule: list_all2_induct) (auto simp: committed_file_def file_row_def)

lemma applied_rows: "map file_row (applyFilesDiff live (FilesDiff c)) = rows_after (map file_row live) c"
  by (simp add: applyFilesDiff_def rows_after_def filter_map comp_def file_row_def)

lemma change_snapshot_simps [simp]:
  "SnapTable (ice_change_snapshot live c) = TableAsOfChange c" "AllDataFiles (ice_change_snapshot live c) = applyFilesDiff live (FilesDiff c)"
  by (simp_all add: ice_change_snapshot_def AllDataFiles_def)

lemma live_after_commit:
  assumes "ice_ready n L K t tbl" and "ice_GetCurrentSnapshot lib (own_ice_source t tbl) = Inr rb"
  shows "previousLiveFiles lib (own_ice_source t tbl) = Inr (DataFiles rb)"
  using assms(2) by (auto simp: previousLiveFiles_def ice_GetCurrentSnapshot_def latest_metadata_def split: prod.splits if_splits)

lemma changes_committed:
  assumes "ice_commit_changes lib stamps i t cs = (t', None)" and "ice_ready (length cs + n) L K t tbl" and "ice_changes_ok L cs"
    and "ice_stamps_ok K stamps"
  shows "\<exists>L'. ice_ready n L' (K + int (length cs)) t' tbl"
    and "cs \<noteq> [] \<Longrightarrow> \<exists>md. ice_GetTableMetadata t' = Inr (Some md) \<and> LastInstantSynced md = LatestCommitTime (TableAsOfChange (last cs))"
    and "avro_faithful lib \<Longrightarrow> previousLiveFiles lib (own_ice_source t tbl) = Inr live \<Longrightarrow>
      \<exists>live'. previousLiveFiles lib (own_ice_source t' tbl) = Inr live' \<and> map file_row live' = foldl rows_after (map file_row live) cs"
proof -
  have "(\<exists>L'. ice_ready n L' (K + int (length cs)) t' tbl) \<and>
      (cs \<noteq> [] \<longrightarrow> (\<exists>md. ice_GetTableMetadata t' = Inr (Some md) \<and> LastInstantSynced md = LatestCommitTime (TableAsOfChange (last cs)))) \<and>
      (avro_faithful lib \<longrightarrow> previousLiveFiles lib (own_ice_source t tbl) = Inr live \<longrightarrow>
        (\<exists>live'. previousLiveFiles lib (own_ice_source t' tbl) = Inr live' \<and> map file_row live' = foldl rows_after (map file_row live) cs))"
    using assms
  proof (induction cs arbitrary: i t L K live)
    case Nil
    then show ?case by auto
  next
    case (Cons c cs)
    have src: "ice_target_source t = Some (own_ice_source t tbl)" using Cons.prems(2) by (simp add: ice_ready_def ice_target_source_def)
    from Cons.prems(1) src obtain fs t1 where fs: "previousLiveFiles lib (own_ice_source t tbl) = Inr fs"
      and t1: "ice_CommitSnapshot lib (stamps i) t (ice_change_snapshot fs c) = (t1, None)"
      and rest: "ice_commit_changes lib stamps (Suc i) t1 cs = (t', None)"
      by (auto split: sum.splits prod.splits option.splits)
    have st: "ice_stamp_ok (stamps i)" "ist_millis (stamps i) \<le> K" using Cons.prems(4) by (simp_all add: ice_stamps_ok_def)
    have rd: "ice_ready (Suc (length cs + n)) L K t tbl" using Cons.prems(2) by simp
    have T: "ice_table_ok L (SnapTable (ice_change_snapshot fs c))" "in_int64 (LatestCommitTime (SnapTable (ice_change_snapshot fs c)))"
      using Cons.prems(3) by simp_all
    note m = commit_marks [OF rd st T t1]
    have "ice_stamps_ok (K + 1) stamps" using Cons.prems(4) by (auto simp: ice_stamps_ok_def intro: order_trans [of _ K])
    note IH = Cons.IH [OF rest m(1) _ this]
    show ?case
    proof (intro conjI impI)
      show "\<exists>L'. ice_ready n L' (K + int (length (c # cs))) t' tbl" using IH Cons.prems(3) by (simp add: ac_simps)
      show "\<exists>md. ice_GetTableMetadata t' = Inr (Some md) \<and> LastInstantSynced md = LatestCommitTime (TableAsOfChange (last (c # cs)))"
        using IH Cons.prems(3) m(2) rest by (cases "cs = []") auto
      assume lib: "avro_faithful lib" and live: "previousLiveFiles lib (own_ice_source t tbl) = Inr live"
      from commit_reads [OF lib rd st T t1] obtain rb where rb: "ice_GetCurrentSnapshot lib (own_ice_source t1 tbl) = Inr rb"
        "read_after lib (stamps i) tbl (ice_change_snapshot fs c) rb" by blast
      then have "map file_row (DataFiles rb) = rows_after (map file_row live) c"
        using fs live by (auto simp: read_after_def committed_row applied_rows)
      with live_after_commit [OF m(1) rb(1)] IH [of "DataFiles rb"] lib Cons.prems(3)
      show "\<exists>live'. previousLiveFiles lib (own_ice_source t' tbl) = Inr live' \<and> map file_row live' = foldl rows_after (map file_row live) (c # cs)"
        by simp
    qed
  qed
  then show "\<exists>L'. ice_ready n L' (K + int (length cs)) t' tbl"
    "cs \<noteq> [] \<Longrightarrow> \<exists>md. ice_GetTableMetadata t' = Inr (Some md) \<and> LastInstantSynced md = LatestCommitTime (TableAsOfChange (last cs))"
    "avro_faithful lib \<Longrightarrow> previousLiveFiles lib (own_ice_source t tbl) = Inr live \<Longrightarrow>
      \<exists>live'. previousLiveFiles lib (own_ice_source t' tbl) = Inr live' \<and> map file_row live' = foldl rows_after (map file_row live) cs"
    by blast+
qed

section \<open>A commit that succeeds\<close>

lemma plan_succeeds:
  assumes prev: "previous_commit src = Inr (v, prev)" "previous_ok L K prev" and T: "ice_table_ok L T" "PartitioningFields T = []"
  shows "\<exists>p cols. plan_commit now src T = Inr p \<and> pl_defs p = [] \<and> pl_schema p = built_schema (pl_schemaID p) cols \<and>
    slots_within (L + ice_growth T) cols"
proof -
  define schemaID where "schemaID = (case prev of None \<Rightarrow> 0 | Some m \<Rightarrow> wrap64 (im_CurrentSchemaID m + 1))"
  define prevSchema where "prevSchema = (case prev of None \<Rightarrow> None | Some m \<Rightarrow> schemaByID (im_Schemas m) (im_CurrentSchemaID m))"
  define prevLast where "prevLast = (case prev of None \<Rightarrow> 0 | Some m \<Rightarrow> im_LastColumnID m)"
  obtain s where s: "ReadSchema T = Some s" "ice_ok s" "DataType s = TypeRecord" "list_all (\<lambda>i. i \<le> L) (explicit_ids s)"
    using T by (auto simp: ice_table_ok_def)
  obtain old where old: "fieldPathIDs prevSchema = Inr old" "recorded_within L old"
    using prev(2) by (cases prev) (auto simp: prevSchema_def previous_ok_def columns_within_def fieldPathIDs_def recorded_within_def)
  have lst: "0 \<le> prevLast" "prevLast \<le> L"
    using prev(2) by (auto simp: prevLast_def previous_ok_def columns_within_def split: option.splits)
  have grow: "ice_growth T = int (size s)" using T s(1) by (simp add: ice_growth_def)
  obtain fs l where conv: "SchemaToIceberg (Some s) schemaID prevSchema prevLast = Inr (built_schema schemaID fs, l)"
    and within: "slots_within (L + ice_growth T) fs"
    by (rule schema_converted [OF s(2,3) old lst s(4), of schemaID]) (use T grow in \<open>auto simp: ice_table_ok_def slots_within_def\<close>)
  have "\<exists>sid. new_snapshot_id now prev = Inr sid"
    using prev(2) by (cases prev) (fastforce simp: new_snapshot_id_def previous_ok_def snapshots_below_def list_all_iff)+
  then obtain sid where sid: "new_snapshot_id now prev = Inr sid" by blast
  show ?thesis
    using within
    by (simp add: plan_commit_def prev(1) sid s(1) conv old(1) T(2) Let_def schemaID_def [symmetric] prevSchema_def [symmetric] prevLast_def [symmetric])
      (auto simp: built_schema_def)
qed

text \<open>
  What keeps the \<^verbatim>\<open>int\<close> values of the records within the 32 bits of Avro's type: the column identifiers and the number of
  files.
\<close>

definition fits_avro :: "int \<Rightarrow> snapshot \<Rightarrow> bool" where
  "fits_avro L snap \<longleftrightarrow>
     PartitioningFields (SnapTable snap) = [] \<and> L + ice_growth (SnapTable snap) < 2 ^ 31 \<and> int (length (AllDataFiles snap)) < 2 ^ 31"

lemma keyed_conforms:
  assumes "list_all (\<lambda>kv. \<bar>fst kv\<bar> < 2 ^ 31 \<and> avro_primitive t (enc (snd kv))) m"
  shows "avro_conforms (null_or (JObj [(''type'', JStr ''array''), (''logicalType'', JStr ''map''),
    (''items'', avro_record_type nm [avro_member ''key'' i (JStr ''int''), avro_member ''value'' j (JStr t)])])) (key_records enc m)"
proof (cases "m = []")
  case True
  then show ?thesis by (simp add: key_records_def null_or_def avro_primitive_def)
next
  case False
  let ?item = "avro_record_type nm [avro_member ''key'' i (JStr ''int''), avro_member ''value'' j (JStr t)]"
  have "avro_conforms ?item (AMap [(''key'', AInt k), (''value'', enc v)])" if "(k, v) \<in> set m" for k v
    using assms that
    by (force simp: list_all_iff avro_record_type_def avro_member_def jget_def wf_map_def avro_primitive_def [of "''int''"] abs_less_iff)
  then have "list_all (avro_conforms ?item) (map (\<lambda>kv. AMap [(''key'', AInt (fst kv)), (''value'', enc (snd kv))]) (sort_key fst m))"
    by (auto simp: list_all_iff)
  with False show ?thesis by (simp add: key_records_def null_or_def jget_def)
qed

lemma list_record_conforms:
  assumes "\<bar>mle_PartitionSpecID e\<bar> < 2 ^ 31" "\<bar>mle_Content e\<bar> < 2 ^ 31" "\<bar>mle_AddedFilesCount e\<bar> < 2 ^ 31"
    "\<bar>mle_ExistingFilesCount e\<bar> < 2 ^ 31" "\<bar>mle_DeletedFilesCount e\<bar> < 2 ^ 31"
  shows "avro_conforms manifestListSchema (AMap (manifest_list_record e))"
  using assms by (simp add: manifestListSchema_def manifest_list_record_def avro_record_type_def avro_member_def avro_optional_def null_or_def
      jget_def wf_map_def avro_primitive_def abs_less_iff)

text \<open>The keys of the statistics of a file are column identifiers.\<close>

definition stat_keys_in :: "int set \<Rightarrow> manifest_data_file \<Rightarrow> bool" where
  "stat_keys_in S df \<longleftrightarrow>
     fst ` set (mdf_ColumnSizes df) \<subseteq> S \<and> fst ` set (mdf_ValueCounts df) \<subseteq> S \<and> fst ` set (mdf_NullValueCounts df) \<subseteq> S \<and>
     fst ` set (mdf_NanValueCounts df) \<subseteq> S \<and> fst ` set (mdf_LowerBounds df) \<subseteq> S \<and> fst ` set (mdf_UpperBounds df) \<subseteq> S"

lemma manifest_file_keys: "stat_keys_in (nf_ID ` set cols) (manifest_file lib cols f)"
proof -
  let ?ids = "foldl (\<lambda>m f. map_put (nf_Name f) (nf_ID f) m) [] cols"
  have id: "i \<in> nf_ID ` set cols" if "map_of ?ids nm = Some i" for nm i using name_ids_set [OF that] by auto
  have step: "stat_keys_in (nf_ID ` set cols) (stat_to_manifest lib ?ids df cs)" if "stat_keys_in (nf_ID ` set cols) df" for df cs
    using that id by (auto simp: stat_to_manifest_def Let_def stat_keys_in_def put_bytes_def fst_set_map_put split: option.splits)
  have "stat_keys_in (nf_ID ` set cols) (foldl (stat_to_manifest lib ?ids) df stats)" if "stat_keys_in (nf_ID ` set cols) df" for df stats
    using that by (induction stats arbitrary: df) (auto intro: step)
  then show ?thesis by (simp add: manifest_file_def columnStatsToManifest_def stat_keys_in_def)
qed

lemma data_file_conforms:
  assumes "\<bar>mdf_Content df\<bar> < 2 ^ 31" "stat_keys_in S df" "\<And>i. i \<in> S \<Longrightarrow> \<bar>i\<bar> < 2 ^ 31"
    "\<bar>ime_Status e\<bar> < 2 ^ 31" "ime_DataFile e = Some df"
  shows "\<exists>r. manifestEntryRecord [] e = Inr r \<and> avro_conforms (manifestEntrySchemaTemplate (encoder_schemaJSON [])) (AMap r)"
proof -
  have keys: "list_all (\<lambda>kv. \<bar>fst kv\<bar> < 2 ^ 31 \<and> avro_primitive ''long'' (AInt64 (snd kv))) m" if "fst ` set m \<subseteq> S" for m :: "(int, int) gomap"
    using that assms(3) by (force simp: list_all_iff avro_primitive_def)
  have bkeys: "list_all (\<lambda>kv. \<bar>fst kv\<bar> < 2 ^ 31 \<and> avro_primitive ''bytes'' (ABytes (snd kv))) m" if "fst ` set m \<subseteq> S" for m :: "(int, string) gomap"
    using that assms(3) by (force simp: list_all_iff avro_primitive_def)
  have k: "fst ` set (mdf_ColumnSizes df) \<subseteq> S" "fst ` set (mdf_ValueCounts df) \<subseteq> S" "fst ` set (mdf_NullValueCounts df) \<subseteq> S"
    "fst ` set (mdf_NanValueCounts df) \<subseteq> S" "fst ` set (mdf_LowerBounds df) \<subseteq> S" "fst ` set (mdf_UpperBounds df) \<subseteq> S"
    using assms(2) by (simp_all add: stat_keys_in_def)
  note keyed = keyed_conforms [where enc = AInt64, OF keys [OF k(1)]] keyed_conforms [where enc = AInt64, OF keys [OF k(2)]]
    keyed_conforms [where enc = AInt64, OF keys [OF k(3)]] keyed_conforms [where enc = AInt64, OF keys [OF k(4)]]
    keyed_conforms [where enc = ABytes, OF bkeys [OF k(5)]] keyed_conforms [where enc = ABytes, OF bkeys [OF k(6)]]
  have opt: "avro_conforms (null_or (JStr ''long'')) (optionalInt64 v)" for v
    by (cases v) (simp_all add: null_or_def optionalInt64_def avro_primitive_def)
  have long: "avro_conforms (null_or (JStr ''long'')) (AInt64 i)" for i by (simp add: null_or_def avro_primitive_def)
  have nil: "avro_conforms (null_or t) ANil" for t by (simp add: null_or_def avro_primitive_def)
  show ?thesis
    using assms(1,4)
    by (simp add: manifestEntryRecord_def assms(5) data_file_record_def manifestEntrySchemaTemplate_def encoder_schemaJSON_def avro_keyed_def
        int64KVRecords_def bytesKVRecords_def avro_record_type_def [of "''manifest_entry''"] avro_record_type_def [of "''r2''"] avro_member_def [of "''status''"]
        avro_optional_def jget_def wf_map_def keyed opt nil)
      (simp add: avro_member_def jget_def wf_map_def avro_primitive_def abs_less_iff long nil keyed [unfolded avro_member_def])
qed

lemma manifest_accepted:
  assumes "avro_accepts lib" and "slots_within M cols" "M < 2 ^ 31"
  shows "\<exists>mb. writeManifest lib (map (added_entry lib cols sid) fs) (Some sch) (Some \<lparr>spec_ID = i, spec_Fields = []\<rparr>) ver = Inr mb"
proof -
  let ?schema = "manifestEntrySchemaTemplate (encoder_schemaJSON [])"
  have enc: "newPartitionEncoder (Some \<lparr>spec_ID = i, spec_Fields = []\<rparr>) (Some sch) = Inr []" by (simp add: newPartitionEncoder_def)
  have ids: "\<bar>i\<bar> < 2 ^ 31" if "i \<in> nf_ID ` set cols" for i using that column_id_within [OF assms(2)] assms(3) by fastforce
  have "\<exists>r. manifestEntryRecord [] (added_entry lib cols sid f) = Inr r \<and> avro_conforms ?schema (AMap r)" for f
    by (rule data_file_conforms [OF _ manifest_file_keys ids]) (simp_all add: added_entry_def contentData_def manifestStatusAdded_def)
  then have "\<exists>rs. map_res (manifestEntryRecord []) (map (added_entry lib cols sid) fs) = Inr rs \<and> list_all (\<lambda>r. avro_conforms ?schema (AMap r)) rs"
  proof (induction fs)
    case (Cons f fs)
    obtain r where "manifestEntryRecord [] (added_entry lib cols sid f) = Inr r" "avro_conforms ?schema (AMap r)" using Cons.prems by blast
    with Cons show ?case by auto
  qed simp
  then obtain rs where "map_res (manifestEntryRecord []) (map (added_entry lib cols sid) fs) = Inr rs" "list_all (\<lambda>r. avro_conforms ?schema (AMap r)) rs"
    by blast
  with accepted_container [OF assms(1) _ this(2)] show ?thesis by (simp add: writeManifest_def enc)
qed

lemma commit_succeeds:
  assumes lib: "avro_accepts lib" and rd: "ice_ready n L K t tbl" and T: "ice_table_ok L (SnapTable snap)" "fits_avro L snap"
  shows "\<exists>t'. ice_CommitSnapshot lib stamp t snap = (t', None)"
proof -
  from rd obtain v prev where r: "it_targetTable t = Some tbl" "previous_commit (own_ice_source t tbl) = Inr (v, prev)" "previous_ok L K prev"
    unfolding ice_ready_def by blast
  have fit: "PartitioningFields (SnapTable snap) = []" "L + ice_growth (SnapTable snap) < 2 ^ 31" "int (length (AllDataFiles snap)) < 2 ^ 31"
    using T(2) by (simp_all add: fits_avro_def)
  have src: "ice_target_source t = Some (own_ice_source t tbl)" by (simp add: ice_target_source_def r(1))
  obtain p cols where p: "plan_commit (ist_millis stamp) (own_ice_source t tbl) (SnapTable snap) = Inr p" "pl_defs p = []"
    "pl_schema p = built_schema (pl_schemaID p) cols" "slots_within (L + ice_growth (SnapTable snap)) cols"
    using plan_succeeds [OF r(2,3) T(1) fit(1)] by blast
  have spec: "plan_spec p = \<lparr>spec_ID = 0, spec_Fields = []\<rparr>" by (simp add: plan_spec_def p(2))
  have "List.map_filter (\<lambda>f. f) (is_Fields (pl_schema p)) = cols" by (simp add: p(3) built_schema_def)
  then obtain mb where mb: "writeManifest lib (plan_entries lib p (AllDataFiles snap)) (Some (pl_schema p)) (Some (plan_spec p)) icebergFormatVersion = Inr mb"
    using manifest_accepted [OF lib p(4) fit(2)] unfolding spec plan_entries_def by metis
  have lb: "\<exists>lb. ice_writeManifestList lib [list_entry p path mb (AllDataFiles snap)] i par sq ver = Inr lb" for path i par sq ver
    unfolding ice_writeManifestList_def
    by (rule accepted_container [OF lib])
      (use list_record_conforms [of "list_entry p path mb (AllDataFiles snap)"] fit(3) in \<open>simp_all add: list_entry_def contentData_def\<close>)
  obtain props where props: "commit_properties p snap = Inr props"
    by (auto simp: commit_properties_def NameMappingJSON_def p(3) built_schema_def)
  obtain lb where l: "ice_writeManifestList lib [list_entry p (ice_path (BasePath tbl) (ist_manifest stamp @ ''-m0.avro'')) mb (AllDataFiles snap)]
      (pl_snapshotID p) (plan_parent p) (plan_sequence p) icebergFormatVersion = Inr lb" using lb by blast
  have "isr_basePath (own_ice_source t tbl) = BasePath tbl" by (simp add: ice_NewSource_def)
  then show ?thesis by (simp add: ice_CommitSnapshot_def src p(1) mb props l Let_def)
qed

text \<open>The same for a batch over the files listed before it.\<close>

fun batch_fits_avro :: "int \<Rightarrow> int \<Rightarrow> table_change list \<Rightarrow> bool" where
  "batch_fits_avro L n [] = True"
| "batch_fits_avro L n (c # cs) =
     (PartitioningFields (TableAsOfChange c) = [] \<and> L + ice_growth (TableAsOfChange c) < 2 ^ 31 \<and>
      n + int (length (FilesAdded (FilesDiff c))) < 2 ^ 31 \<and>
      batch_fits_avro (L + ice_growth (TableAsOfChange c)) (n + int (length (FilesAdded (FilesDiff c)))) cs)"

lemma batch_fits_fewer: "batch_fits_avro L n cs \<Longrightarrow> m \<le> n \<Longrightarrow> batch_fits_avro L m cs"
  by (induction cs arbitrary: L n m) force+

lemma changes_succeed:
  assumes "avro_accepts lib" "avro_faithful lib" "ice_ready (length cs + n) L K t tbl" "ice_changes_ok L cs" "ice_stamps_ok K stamps"
    and "batch_fits_avro L (int (length live)) cs" and "previousLiveFiles lib (own_ice_source t tbl) = Inr live"
  shows "\<exists>t'. ice_commit_changes lib stamps i t cs = (t', None)"
  using assms
proof (induction cs arbitrary: i t L K live)
  case (Cons c cs)
  have src: "ice_target_source t = Some (own_ice_source t tbl)" using Cons.prems(3) by (simp add: ice_ready_def ice_target_source_def)
  have st: "ice_stamp_ok (stamps i)" "ist_millis (stamps i) \<le> K" "ice_stamps_ok (K + 1) stamps"
    using Cons.prems(5) by (auto simp: ice_stamps_ok_def intro: order_trans [of _ K])
  have rd: "ice_ready (Suc (length cs + n)) L K t tbl" using Cons.prems(3) by simp
  have len: "int (length (applyFilesDiff live (FilesDiff c))) \<le> int (length live) + int (length (FilesAdded (FilesDiff c)))"
    by (simp add: applyFilesDiff_def)
  have T: "ice_table_ok L (SnapTable (ice_change_snapshot live c))" "in_int64 (LatestCommitTime (SnapTable (ice_change_snapshot live c)))"
    "fits_avro L (ice_change_snapshot live c)" using Cons.prems(4,6) len by (simp_all add: fits_avro_def)
  obtain t1 where t1: "ice_CommitSnapshot lib (stamps i) t (ice_change_snapshot live c) = (t1, None)"
    using commit_succeeds [OF Cons.prems(1) rd T(1,3)] by blast
  note m = commit_marks(1) [OF rd st(1,2) T(1,2) t1]
  obtain rb where rb: "ice_GetCurrentSnapshot lib (own_ice_source t1 tbl) = Inr rb" "read_after lib (stamps i) tbl (ice_change_snapshot live c) rb"
    using commit_reads [OF Cons.prems(2) rd st(1,2) T(1,2) t1] by blast
  from rb(2) have "length (DataFiles rb) = length (applyFilesDiff live (FilesDiff c))" by (auto simp: read_after_def list_all2_lengthD)
  with len have "batch_fits_avro (L + ice_growth (TableAsOfChange c)) (int (length (DataFiles rb))) cs"
    using Cons.prems(6) by (auto elim: batch_fits_fewer)
  with Cons.IH [OF Cons.prems(1,2) m _ st(3) _ live_after_commit [OF m rb(1)]] Cons.prems(4)
  obtain t' where "ice_commit_changes lib stamps (Suc i) t1 cs = (t', None)" by auto
  with src Cons.prems(7) t1 show ?case by simp
qed simp

section \<open>What a commit comes to\<close>

text \<open>
  C22. A commit into an Iceberg table whose recorded column identifiers are positive reads back. When the commit reports
  no error, an Iceberg source opened on the table lists exactly the committed files in their order, with path, format,
  size and row count, and with their column statistics, each on its column with its counts and its bounds typed by the
  column (for a file that has at most one statistic for a column, none on a floating-point or nested one). The schema
  is that of the synced table in Iceberg form, followed by exactly the partition columns it lacks, under positive
  identifiers that are distinct where the code gave all of them out. The table has the time of the commit, the watermark
  is the commit time of the synced table, and the table is ready for the next commit. When the commit reports an error,
  the latest metadata and the watermark are what they were. It reports none for an unpartitioned table whose identifiers
  and files an Avro \<^verbatim>\<open>int\<close> can number if the Avro library writes the records that conform to the code's schemas.
\<close>

theorem iceberg_commit_reads_back:
  assumes "avro_faithful lib" and "ice_ready (Suc n) L K t tbl" and "ice_stamp_ok stamp" and "ist_millis stamp \<le> K"
    and "ice_table_ok L (SnapTable snap)" and "in_int64 (LatestCommitTime (SnapTable snap))"
    and "previous_commit (ice_NewSource (it_storage t) (BasePath tbl)) = Inr (v, prev)" and "ids_positive prev"
    and "ice_CommitSnapshot lib stamp t snap = (t', err)"
  shows "(case err of
      None \<Rightarrow> (\<exists>rb md v' m. ice_GetCurrentSnapshot lib (ice_NewSource (it_storage t') (BasePath tbl)) = Inr rb \<and>
        snapshot_back lib stamp tbl prev snap rb \<and>
        ice_GetTableMetadata t' = Inr (Some md) \<and> LastInstantSynced md = LatestCommitTime (SnapTable snap) \<and>
        ice_ready n (L + ice_growth (SnapTable snap)) (K + 1) t' tbl \<and>
        previous_commit (ice_NewSource (it_storage t') (BasePath tbl)) = Inr (v', Some m) \<and> ids_positive (Some m) \<and>
        (ids_in_order prev \<and> pred_option (\<lambda>s. explicit_ids s = []) (ReadSchema (SnapTable snap)) \<longrightarrow> ids_in_order (Some m)))
    | Some e \<Rightarrow> latest_metadata (ice_NewSource (it_storage t') (BasePath tbl)) = latest_metadata (ice_NewSource (it_storage t) (BasePath tbl)) \<and>
        ice_GetTableMetadata t' = ice_GetTableMetadata t \<and> it_targetTable t' = it_targetTable t) \<and>
    (avro_accepts lib \<and> fits_avro L snap \<longrightarrow> err = None)"
proof -
  have succ: "err = None" if "avro_accepts lib" "fits_avro L snap"
    using commit_succeeds [OF that(1) assms(2,5) that(2), of stamp] assms(9) by auto
  have tt: "it_targetTable t = Some tbl" using assms(2) by (simp add: ice_ready_def)
  show ?thesis
  proof (cases err)
    case None
    with assms(9) have run: "ice_CommitSnapshot lib stamp t snap = (t', None)" by simp
    obtain s where s: "ReadSchema (SnapTable snap) = Some s" using assms(5) by (auto simp: ice_table_ok_def)
    obtain rb where "ice_GetCurrentSnapshot lib (own_ice_source t' tbl) = Inr rb" "snapshot_back lib stamp tbl prev snap rb"
      using commit_reads [OF assms(1-6) run] assms(7,8) by blast
    moreover obtain v' m where "previous_commit (own_ice_source t' tbl) = Inr (v', Some m)" "ids_positive (Some m)"
      "ids_in_order prev \<and> explicit_ids s = [] \<longrightarrow> ids_in_order (Some m)"
      using commit_ids [OF assms(2-6) run assms(7) s] assms(8) by blast
    ultimately show ?thesis using None commit_marks [OF assms(2-6) run] by (fastforce simp: s)
  next
    case (Some e)
    with succ failed_commit_keeps [OF assms(2,3)] assms(9) tt show ?thesis by auto
  qed
qed

text \<open>
  C11. A batch of changes committed to an Iceberg table carries the changes out, one after the other: the source lists
  the files before the batch without those a change removes, followed by those it adds, with their format, size and row
  count, and the watermark is that of the last change. A batch of unpartitioned tables whose identifiers and files an Avro
  \<^verbatim>\<open>int\<close> can number reports no error if the Avro library writes the records that conform to the code's schemas.
\<close>

theorem iceberg_changes_read_back:
  assumes "avro_faithful lib" and "ice_ready (length (TableChanges ic) + n) L K t tbl" and "ice_changes_ok L (TableChanges ic)"
    and "ice_stamps_ok K stamps" and "TableChanges ic \<noteq> []" and "previousLiveFiles lib (ice_NewSource (it_storage t) (BasePath tbl)) = Inr live"
    and "ice_CommitChanges lib stamps t ic = (t', err)"
  shows "(err = None \<longrightarrow> (\<exists>rb md. ice_GetCurrentSnapshot lib (ice_NewSource (it_storage t') (BasePath tbl)) = Inr rb \<and>
      map file_row (DataFiles rb) = foldl rows_after (map file_row live) (TableChanges ic) \<and>
      ice_GetTableMetadata t' = Inr (Some md) \<and> LastInstantSynced md = LatestCommitTime (TableAsOfChange (last (TableChanges ic))))) \<and>
    (avro_accepts lib \<and> batch_fits_avro L (int (length live)) (TableChanges ic) \<longrightarrow> err = None)"
proof (intro conjI impI)
  assume "err = None"
  with assms(7) have run: "ice_commit_changes lib stamps 0 t (TableChanges ic) = (t', None)" by (simp add: ice_CommitChanges_def)
  from changes_committed(1) [OF run assms(2-4)] have tt: "it_targetTable t' = Some tbl" by (auto simp: ice_ready_def)
  obtain md where md: "ice_GetTableMetadata t' = Inr (Some md)" "LastInstantSynced md = LatestCommitTime (TableAsOfChange (last (TableChanges ic)))"
    using changes_committed(2) [OF run assms(2-5)] by blast
  from md(1) have "fst (listMetadataFiles (own_ice_source t' tbl)) \<noteq> []"
    by (auto simp: ice_GetTableMetadata_def ice_target_source_def tt split: prod.splits)
  with changes_committed(3) [OF run assms(2-4,1,6)] md
  show "\<exists>rb md. ice_GetCurrentSnapshot lib (ice_NewSource (it_storage t') (BasePath tbl)) = Inr rb \<and>
      map file_row (DataFiles rb) = foldl rows_after (map file_row live) (TableChanges ic) \<and>
      ice_GetTableMetadata t' = Inr (Some md) \<and> LastInstantSynced md = LatestCommitTime (TableAsOfChange (last (TableChanges ic)))"
    by (auto simp: previousLiveFiles_def)
next
  assume "avro_accepts lib \<and> batch_fits_avro L (int (length live)) (TableChanges ic)"
  with changes_succeed [OF _ assms(1-4) _ assms(6), of 0] assms(7) show "err = None" by (auto simp: ice_CommitChanges_def)
qed

section \<open>Samples\<close>

definition ice_clock :: "nat \<Rightarrow> ice_stamp" where
  "ice_clock i = \<lparr>ist_millis = 2000, ist_manifest = ''a'' @ formatInt (int (i mod 2)), ist_list = ''b'' @ formatInt (int (i mod 2)), ist_table = ''u''\<rparr>"

definition ice_target0 :: ice_target where
  "ice_target0 = ice_Init (ice_NewTarget NewMemoryStorage) hudi_table"

lemma ice_clock_ok: "ice_stamps_ok 2000 ice_clock" "ice_stamp_ok (ice_clock i)" "ist_millis (ice_clock i) = 2000"
proof -
  have "uuid_name (formatInt (int (j mod 2)))" for j :: nat
  proof -
    have "j mod 2 = 0 \<or> j mod 2 = 1" by auto
    moreover have "formatInt 0 = ''0''" "formatInt 1 = ''1''" by code_simp+
    ultimately show ?thesis by (auto simp: uuid_name_def)
  qed
  then have "ice_stamp_ok (ice_clock j)" for j by (simp add: ice_stamp_ok_def ice_clock_def uuid_name_def in_int64_def)
  then show "ice_stamps_ok 2000 ice_clock" "ice_stamp_ok (ice_clock i)" "ist_millis (ice_clock i) = 2000"
    by (simp_all add: ice_stamps_ok_def) (simp_all add: ice_clock_def)
qed

lemma ice_sample_fits: "0 \<le> L \<Longrightarrow> L \<le> 1000 \<Longrightarrow> ice_table_ok L hudi_table" "ice_growth hudi_table \<le> 100" "0 \<le> ice_growth hudi_table"
  "PartitioningFields hudi_table = []" "in_int64 (LatestCommitTime hudi_table)" "SnapTable hudi_snapshot = hudi_table"
  by (simp_all add: ice_table_ok_def ice_growth_def hudi_table_def NewRecordSchema_def NewPrimitiveSchema_def ice_ok.simps explicit_ids.simps own_id_def
      in_int64_def hudi_snapshot_def)

lemma ice_target0_ready: "int n \<le> 1000 \<Longrightarrow> ice_ready n 0 2000 ice_target0 hudi_table"
proof -
  have "BasePath hudi_table = ''s3://b/t''" "it_storage ice_target0 = NewMemoryStorage" "it_targetTable ice_target0 = Some hudi_table"
    by (simp_all add: hudi_table_def ice_target0_def ice_Init_def ice_NewTarget_def)
  moreover have "previous_commit (ice_NewSource NewMemoryStorage B) = Inr (1, None)" for B
    by (simp add: previous_commit_def listMetadataFiles_def ice_NewSource_def NewMemoryStorage_def mem_List_def)
  ultimately show "int n \<le> 1000 \<Longrightarrow> ice_ready n 0 2000 ice_target0 hudi_table"
    using hudi_base by (simp add: ice_ready_def previous_ok_def)
qed

lemma ice_target0_prev: "previous_commit (own_ice_source ice_target0 hudi_table) = Inr (1, None)" "ids_positive None"
  "previousLiveFiles json_libs (own_ice_source ice_target0 hudi_table) = Inr []"
  by (simp_all add: previous_commit_def previousLiveFiles_def listMetadataFiles_def ice_NewSource_def ice_target0_def ice_Init_def
      ice_NewTarget_def NewMemoryStorage_def mem_List_def ids_positive_def record_ids_def fieldPathIDs_def recorded_positive_def)

definition ice_id :: field where
  "ice_id = mkField ''id'' (Some (NewPrimitiveSchema TypeLong False))"

definition ice_id_stat :: "field \<Rightarrow> column_stat" where
  "ice_id_stat col = \<lparr>StatField = Some col, StatRange = Some (NewRange (AInt64 3) (AInt64 7)), NumNulls = 0, NumNaNs = 0, TotalValues = 2\<rparr>"

definition ice_snapshot :: snapshot where
  "ice_snapshot = hudi_snapshot\<lparr>DataFiles := [(hudi_file ''a'')\<lparr>ColumnStats := [ice_id_stat ice_id]\<rparr>]\<rparr>"

lemma ice_snapshot_parts: "SnapTable ice_snapshot = hudi_table" "AllDataFiles ice_snapshot = [(hudi_file ''a'')\<lparr>ColumnStats := [ice_id_stat ice_id]\<rparr>]"
  "fits_avro 0 ice_snapshot" "ReadSchema hudi_table = Some (NewRecordSchema ''t'' [ice_id] False)"
  using ice_sample_fits(2,4,6) by (simp_all add: ice_snapshot_def AllDataFiles_def fits_avro_def) (simp_all add: hudi_snapshot_def hudi_table_def ice_id_def)

lemma ice_id_kept: "kept_stats lib [ice_id] [i] [ice_id_stat ice_id] = [ice_id_stat (ice_column ice_id i)]" "stat_ok [ice_id] (ice_id_stat ice_id)"
  by (simp_all add: kept_stats_def List.map_filter_simps kept_stat_def ice_id_stat_def ice_id_def stat_ok_def machine_any_def in_int64_def
      NewPrimitiveSchema_def kept_bound_def own_value_def NewRange_def nil_or_def)

theorem iceberg_commit_reads_back_witness:
  "\<exists>t' rb md i. ice_CommitSnapshot json_libs (ice_clock 0) ice_target0 ice_snapshot = (t', None) \<and>
    ice_GetCurrentSnapshot json_libs (ice_NewSource (it_storage t') ''s3://b/t'') = Inr rb \<and> 0 < i \<and>
    ReadSchema (SnapTable rb) = Some (NewRecordSchema ''root'' [ice_column ice_id i] False) \<and>
    map PhysicalPath (DataFiles rb) = [''s3://b/t/a''] \<and> map ColumnStats (DataFiles rb) = [[ice_id_stat (ice_column ice_id i)]] \<and>
    ice_GetTableMetadata t' = Inr (Some md) \<and> LastInstantSynced md = 1000"
proof -
  obtain t' err where run: "ice_CommitSnapshot json_libs (ice_clock 0) ice_target0 ice_snapshot = (t', err)" by fastforce
  have ok: "ice_ready (Suc 0) 0 2000 ice_target0 hudi_table" "ice_stamp_ok (ice_clock 0)" "ist_millis (ice_clock 0) \<le> 2000"
    "ice_table_ok 0 (SnapTable ice_snapshot)" "in_int64 (LatestCommitTime (SnapTable ice_snapshot))"
    using ice_target0_ready [of 1] ice_clock_ok ice_sample_fits ice_snapshot_parts(1) by simp_all
  note C = iceberg_commit_reads_back [OF json_libs_faithful ok ice_target0_prev(1,2)]
  from C [OF run] json_libs_accept ice_snapshot_parts(3) have none: "err = None" by simp
  from C [OF run [unfolded none]] obtain rb md where
    rb: "ice_GetCurrentSnapshot json_libs (ice_NewSource (it_storage t') (BasePath hudi_table)) = Inr rb"
    "snapshot_back json_libs (ice_clock 0) hudi_table None ice_snapshot rb"
    "ice_GetTableMetadata t' = Inr (Some md)" "LastInstantSynced md = LatestCommitTime hudi_table"
    by (auto simp: ice_snapshot_parts(1))
  from rb(2) obtain ids where ids: "length ids = 1" "list_all (\<lambda>i. 0 < i) ids"
    "ReadSchema (SnapTable rb) = Some (NewRecordSchema ''root'' (map2 ice_column [ice_id] ids) False)"
    "list_all2 (file_back json_libs [ice_id] ids) (AllDataFiles ice_snapshot) (DataFiles rb)"
    by (auto simp: snapshot_back_def ice_snapshot_parts(1,4) ice_sample_fits(4) NewRecordSchema_def)
  then obtain i where i: "ids = [i]" by (auto simp: length_Suc_conv)
  have "BasePath hudi_table = ''s3://b/t''" "LatestCommitTime hudi_table = 1000" by (simp_all add: hudi_table_def)
  moreover have "map PhysicalPath (DataFiles rb) = [''s3://b/t/a'']" "map ColumnStats (DataFiles rb) = [[ice_id_stat (ice_column ice_id i)]]"
    using ids(4) ice_id_kept by (auto simp: i ice_snapshot_parts(2) list_all2_Cons1 file_back_def) (simp add: hudi_file_def)
  ultimately show ?thesis using run none rb ids(2,3) by (auto simp: i)
qed

definition ice_batch :: incremental_changes where
  "ice_batch = \<lparr>TableChanges =
     [\<lparr>FilesDiff = NewFilesDiff [hudi_file ''a'', hudi_file ''b''] [], TableAsOfChange = hudi_table, ChangeSourceIdentifier = ''1'', CommitTime = 900\<rparr>,
      \<lparr>FilesDiff = NewFilesDiff [hudi_file ''c''] [hudi_file ''a''], TableAsOfChange = hudi_table, ChangeSourceIdentifier = ''2'', CommitTime = 1000\<rparr>],
     CurrentTable = hudi_table\<rparr>"

theorem iceberg_changes_read_back_witness:
  "\<exists>t' rb md. ice_CommitChanges json_libs ice_clock ice_target0 ice_batch = (t', None) \<and>
    ice_GetCurrentSnapshot json_libs (ice_NewSource (it_storage t') ''s3://b/t'') = Inr rb \<and>
    map file_row (DataFiles rb) = [file_row (hudi_file ''b''), file_row (hudi_file ''c'')] \<and>
    ice_GetTableMetadata t' = Inr (Some md) \<and> LastInstantSynced md = 1000"
proof -
  obtain t' err where run: "ice_CommitChanges json_libs ice_clock ice_target0 ice_batch = (t', err)" by fastforce
  have parts: "TableChanges ice_batch \<noteq> []" "length (TableChanges ice_batch) = 2" "TableAsOfChange (last (TableChanges ice_batch)) = hudi_table"
    "batch_fits_avro 0 0 (TableChanges ice_batch)"
    using ice_sample_fits(2,4) by (simp_all add: ice_batch_def NewFilesDiff_def)
  have "ice_changes_ok 0 (TableChanges ice_batch)"
    using ice_sample_fits(1) [of 0] ice_sample_fits(1) [of "ice_growth hudi_table"] ice_sample_fits(2,3,5) by (simp add: ice_batch_def)
  moreover have "ice_ready (length (TableChanges ice_batch) + 0) 0 2000 ice_target0 hudi_table" using ice_target0_ready [of 2] by (simp add: parts)
  ultimately have C: "(err = None \<longrightarrow> (\<exists>rb md. ice_GetCurrentSnapshot json_libs (ice_NewSource (it_storage t') (BasePath hudi_table)) = Inr rb \<and>
      map file_row (DataFiles rb) = foldl rows_after (map file_row []) (TableChanges ice_batch) \<and>
      ice_GetTableMetadata t' = Inr (Some md) \<and> LastInstantSynced md = LatestCommitTime (TableAsOfChange (last (TableChanges ice_batch))))) \<and>
    (avro_accepts json_libs \<and> batch_fits_avro 0 (int (length ([] :: data_file list))) (TableChanges ice_batch) \<longrightarrow> err = None)"
    using ice_target0_prev(3) json_libs_faithful ice_clock_ok(1) parts(1) run by (intro iceberg_changes_read_back [where n = 0 and L = 0 and K = 2000]) auto
  moreover have "foldl rows_after [] (TableChanges ice_batch) = [file_row (hudi_file ''b''), file_row (hudi_file ''c'')]"
    by (simp add: ice_batch_def rows_after_def file_row_def NewFilesDiff_def hudi_file_def)
  moreover have "BasePath hudi_table = ''s3://b/t''" "LatestCommitTime hudi_table = 1000" by (simp_all add: hudi_table_def)
  ultimately show ?thesis using run json_libs_accept parts(3,4) by auto
qed

end
