(* ===== verification/Conversion_Iceberg.thy ===== *)
theory Conversion_Iceberg
  imports Conversion_Hudi Iceberg_Batches
begin

text \<open>
  The Iceberg adapter behind the controller's interfaces. The interpretation of \<open>sync_target\<close> on the Iceberg target
  gives the controller's watermark lemmas for syncs into Iceberg tables.
\<close>

definition ice_open :: "mem_storage \<Rightarrow> table \<Rightarrow> ice_target" where
  "ice_open st tbl = ice_Init (ice_NewTarget st) tbl"

definition iceberg_conversion_target :: "ice_libs \<Rightarrow> ice_stamp \<Rightarrow> (nat \<Rightarrow> ice_stamp) \<Rightarrow> table \<Rightarrow> mem_storage conversion_target" where
  "iceberg_conversion_target lib stamp stamps tbl =
     \<lparr>ctGetTableMetadata = \<lambda>st. ice_GetTableMetadata (ice_open st tbl),
      ctCommitSnapshot = \<lambda>st snap. (case ice_CommitSnapshot lib stamp (ice_open st tbl) snap of (t, e) \<Rightarrow> (it_storage t, e)),
      ctCommitChanges = \<lambda>st ic. (case ice_CommitChanges lib stamps (ice_open st tbl) ic of (t, e) \<Rightarrow> (it_storage t, e))\<rparr>"

text \<open>
  What a sync into an Iceberg table needs. The target records the commit time of the table of the last change where the
  controller reports the instant of the change: they agree unless the source had to move a tied instant.
\<close>

definition ice_snap_ok :: "ice_stamp \<Rightarrow> table \<Rightarrow> mem_storage \<Rightarrow> snapshot \<Rightarrow> bool" where
  "ice_snap_ok stamp tbl st snap \<longleftrightarrow>
     (\<exists>L K. ice_ready 1 L K (ice_open st tbl) tbl \<and> ice_stamp_ok stamp \<and> ist_millis stamp \<le> K \<and>
        ice_table_ok L (SnapTable snap) \<and> in_int64 (LatestCommitTime (SnapTable snap)))"

definition ice_batch_ok :: "(nat \<Rightarrow> ice_stamp) \<Rightarrow> table \<Rightarrow> mem_storage \<Rightarrow> incremental_changes \<Rightarrow> bool" where
  "ice_batch_ok stamps tbl st ic \<longleftrightarrow>
     (\<exists>L K. ice_ready (length (TableChanges ic)) L K (ice_open st tbl) tbl \<and> ice_stamps_ok K stamps \<and> ice_changes_ok L (TableChanges ic)) \<and>
     (TableChanges ic \<noteq> [] \<longrightarrow> CommitTime (last (TableChanges ic)) = LatestCommitTime (TableAsOfChange (last (TableChanges ic))))"

text \<open>A snapshot whose records an Avro library takes: their \<^verbatim>\<open>int\<close> values are within 32 bits.\<close>

definition ice_snap_fits :: "table \<Rightarrow> mem_storage \<Rightarrow> snapshot \<Rightarrow> bool" where
  "ice_snap_fits tbl st snap \<longleftrightarrow>
     (\<exists>L K. ice_ready 1 L K (ice_open st tbl) tbl \<and> ice_table_ok L (SnapTable snap) \<and> fits_avro L snap)"

lemma ice_reopened: "it_targetTable t = Some tbl \<Longrightarrow> ice_open (it_storage t) tbl = t"
  by (cases t) (simp add: ice_open_def ice_Init_def ice_NewTarget_def)

lemma ice_open_storage [simp]: "it_storage (ice_open st tbl) = st" "it_targetTable (ice_open st tbl) = Some tbl"
  by (simp_all add: ice_open_def ice_Init_def ice_NewTarget_def)

interpretation iceberg_sync: sync_target "iceberg_conversion_target lib stamp stamps tbl" "ice_snap_ok stamp tbl" "ice_batch_ok stamps tbl"
  for lib stamp stamps tbl
proof
  fix st snap st'
  assume "ice_snap_ok stamp tbl st snap" and c: "ctCommitSnapshot (iceberg_conversion_target lib stamp stamps tbl) st snap = (st', None)"
  then obtain L K where ok: "ice_ready (Suc 0) L K (ice_open st tbl) tbl" "ice_stamp_ok stamp" "ist_millis stamp \<le> K"
    "ice_table_ok L (SnapTable snap)" "in_int64 (LatestCommitTime (SnapTable snap))" by (auto simp: ice_snap_ok_def)
  from c obtain t where t: "ice_CommitSnapshot lib stamp (ice_open st tbl) snap = (t, None)" "st' = it_storage t"
    by (auto simp: iceberg_conversion_target_def split: prod.splits)
  note m = commit_marks [OF ok t(1)]
  from m(1) have "ice_open st' tbl = t" by (simp add: t(2) ice_reopened ice_ready_def)
  with m(2) show "\<exists>m. ctGetTableMetadata (iceberg_conversion_target lib stamp stamps tbl) st' = Inr (Some m) \<and>
      LastInstantSynced m = LatestCommitTime (SnapTable snap)" by (simp add: iceberg_conversion_target_def)
next
  fix st ic st'
  assume ok: "ice_batch_ok stamps tbl st ic" and ne: "TableChanges ic \<noteq> []"
    and c: "ctCommitChanges (iceberg_conversion_target lib stamp stamps tbl) st ic = (st', None)"
  from ok obtain L K where b: "ice_ready (length (TableChanges ic) + 0) L K (ice_open st tbl) tbl" "ice_changes_ok L (TableChanges ic)" "ice_stamps_ok K stamps"
    by (auto simp: ice_batch_ok_def)
  from c obtain t where t: "ice_commit_changes lib stamps 0 (ice_open st tbl) (TableChanges ic) = (t, None)" "st' = it_storage t"
    by (auto simp: iceberg_conversion_target_def ice_CommitChanges_def split: prod.splits)
  from changes_committed(1) [OF t(1) b] have "ice_open st' tbl = t" by (auto simp: t(2) ice_reopened ice_ready_def)
  with changes_committed(2) [OF t(1) b ne] ok ne
  show "\<exists>m. ctGetTableMetadata (iceberg_conversion_target lib stamp stamps tbl) st' = Inr (Some m) \<and>
      LastInstantSynced m = CommitTime (last (TableChanges ic))" by (simp add: iceberg_conversion_target_def ice_batch_ok_def)
qed

text \<open>A successful sync into an Iceberg table leaves the watermark it reports, and the next sync resumes there.\<close>

lemma iceberg_sync_resumes:
  assumes "syncToTarget mode source (iceberg_conversion_target lib stamp stamps tbl) TableFormatIceberg dur False st = (st', r)"
    and "StatusCode r = SyncStatusSuccess"
    and "\<And>snap. csGetCurrentSnapshot source st = Inr snap \<Longrightarrow> ice_snap_ok stamp tbl st snap"
    and "\<And>i ic. csGetChangesSince source st i = Inr ic \<Longrightarrow> ice_batch_ok stamps tbl st ic"
    and "0 < ResLastInstantSynced r" "mode' \<noteq> SyncModeFull"
    and "csIsIncrementalSyncSafeFrom source' st' (ResLastInstantSynced r) = Inr True"
  shows "syncToTarget mode' source' (iceberg_conversion_target lib stamp stamps tbl) TableFormatIceberg dur' dry st' =
      incremental_sync source' (iceberg_conversion_target lib stamp stamps tbl) TableFormatIceberg dur' dry (ResLastInstantSynced r) st'"
  by (rule iceberg_sync.next_sync_resumes [OF assms(1,2) _ _ assms(5-7)]) (use assms(3,4) in auto)

text \<open>
  C6. A full sync into an Iceberg table mirrors its source or leaves the table: if it succeeds, an Iceberg source opened
  on the result lists exactly the files of the source's snapshot, none of earlier syncs, with their sizes and row counts,
  and the watermark is the one the sync reports; if it fails, the latest metadata is what it was. An unpartitioned table
  whose column identifiers and files an Avro \<^verbatim>\<open>int\<close> can number does not fail if the Avro library takes the records that
  conform to the code's schemas.
\<close>

theorem iceberg_full_sync_mirrors:
  assumes "avro_faithful lib" and "csGetCurrentSnapshot source st = Inr snap" and "ice_snap_ok stamp tbl st snap"
    and "syncToTarget SyncModeFull source (iceberg_conversion_target lib stamp stamps tbl) TableFormatIceberg dur False st = (st', r)"
  shows "(StatusCode r = SyncStatusSuccess \<longrightarrow> ResLastInstantSynced r = LatestCommitTime (SnapTable snap) \<and>
      (\<exists>rb md. ice_GetCurrentSnapshot lib (ice_NewSource st' (BasePath tbl)) = Inr rb \<and>
        map file_row (DataFiles rb) = map file_row (AllDataFiles snap) \<and>
        ice_GetTableMetadata (ice_open st' tbl) = Inr (Some md) \<and> LastInstantSynced md = LatestCommitTime (SnapTable snap))) \<and>
    (StatusCode r \<noteq> SyncStatusSuccess \<longrightarrow>
      latest_metadata (ice_NewSource st' (BasePath tbl)) = latest_metadata (ice_NewSource st (BasePath tbl))) \<and>
    (avro_accepts lib \<and> ice_snap_fits tbl st snap \<longrightarrow> StatusCode r = SyncStatusSuccess)"
proof -
  from assms(3) obtain L K where ok: "ice_ready (Suc 0) L K (ice_open st tbl) tbl" "ice_stamp_ok stamp" "ist_millis stamp \<le> K"
    "ice_table_ok L (SnapTable snap)" "in_int64 (LatestCommitTime (SnapTable snap))" by (auto simp: ice_snap_ok_def)
  obtain t err where t: "ice_CommitSnapshot lib stamp (ice_open st tbl) snap = (t, err)" by fastforce
  have "sync_plan SyncModeFull source st m = Inl ''''" for m by (simp add: sync_plan_def split: option.split)
  with assms(2,4) t have r: "st' = it_storage t" "StatusCode r = SyncStatusSuccess \<longleftrightarrow> err = None"
    "err = None \<Longrightarrow> ResLastInstantSynced r = LatestCommitTime (SnapTable snap)"
    by (auto simp: syncToTarget_def full_sync_def iceberg_conversion_target_def applyFallbackReason_def result_defs split: option.splits)
  have succ: "err = None" if "avro_accepts lib" "ice_snap_fits tbl st snap"
    using that commit_succeeds [of lib 1 _ _ "ice_open st tbl" tbl snap stamp] t by (auto simp: ice_snap_fits_def)
  show ?thesis
  proof (cases err)
    case None
    with t have t: "ice_CommitSnapshot lib stamp (ice_open st tbl) snap = (t, None)" by simp
    note m = commit_marks [OF ok t]
    obtain rb where rb: "ice_GetCurrentSnapshot lib (own_ice_source t tbl) = Inr rb" "read_after lib stamp tbl snap rb"
      using commit_reads [OF assms(1) ok t] by blast
    then have "map file_row (DataFiles rb) = map file_row (AllDataFiles snap)" by (auto simp: read_after_def committed_row)
    moreover from m(1) have "ice_open st' tbl = t" by (simp add: r(1) ice_reopened ice_ready_def)
    ultimately show ?thesis using None m(2) rb(1) r by auto
  next
    case (Some e)
    with failed_commit_keeps(4) [OF ok(1,2), of lib snap t e] t succ r show ?thesis by auto
  qed
qed

theorem iceberg_full_sync_mirrors_witness:
  "\<exists>st' r rb. syncToTarget SyncModeFull (hudi_sample_source :: mem_storage conversion_source)
      (iceberg_conversion_target json_libs (ice_clock 0) ice_clock hudi_table) TableFormatIceberg 5 False NewMemoryStorage = (st', r) \<and>
    StatusCode r = SyncStatusSuccess \<and> ResLastInstantSynced r = 1000 \<and>
    ice_GetCurrentSnapshot json_libs (ice_NewSource st' ''s3://b/t'') = Inr rb \<and> map file_row (DataFiles rb) = [file_row (hudi_file ''a'')]"
proof -
  obtain st' r where run: "syncToTarget SyncModeFull (hudi_sample_source :: mem_storage conversion_source)
      (iceberg_conversion_target json_libs (ice_clock 0) ice_clock hudi_table) TableFormatIceberg 5 False NewMemoryStorage = (st', r)" by fastforce
  have "ice_open NewMemoryStorage hudi_table = ice_target0" by (simp add: ice_open_def ice_target0_def)
  then have ok: "ice_snap_ok (ice_clock 0) hudi_table NewMemoryStorage hudi_snapshot"
    unfolding ice_snap_ok_def using ice_target0_ready [of 1] ice_clock_ok ice_sample_fits
    by (intro exI [of _ 0] exI [of _ 2000]) simp
  have fits: "ice_snap_fits hudi_table NewMemoryStorage hudi_snapshot"
    unfolding ice_snap_fits_def using ice_target0_ready [of 1] ice_sample_fits \<open>ice_open NewMemoryStorage hudi_table = ice_target0\<close>
    by (intro exI [of _ 0] exI [of _ 2000]) (simp add: fits_avro_def hudi_target0_parts(4))
  have src: "csGetCurrentSnapshot hudi_sample_source NewMemoryStorage = Inr hudi_snapshot" by (simp add: hudi_sample_source_def)
  have "AllDataFiles hudi_snapshot = [hudi_file ''a'']" "BasePath hudi_table = ''s3://b/t''" "LatestCommitTime hudi_table = 1000"
    by (simp_all add: hudi_snapshot_def AllDataFiles_def hudi_table_def)
  with iceberg_full_sync_mirrors [OF json_libs_faithful src ok run] json_libs_accept fits ice_sample_fits(6) run show ?thesis by auto
qed

end
