(* ===== verification/Spec2Isabelle.thy ===== *)
theory Spec2Isabelle
  imports Model_Diff Conversion_Delta Conversion_Hudi Daemon_Runs Daemon_Loop Parquet_Source Parquet_Target Conversion_Paimon Iceberg_Bounds Iceberg_Samples Conversion_Iceberg
begin

text \<open>
  A verification of polytable, a Go program that converts the metadata of lakehouse tables between formats without
  rewriting data files.

  The program. A source adapter (\<^verbatim>\<open>pkg/formats/<format>/source.go\<close>) reads a table of one format into the canonical model
  of \<^verbatim>\<open>pkg/model\<close>: a snapshot (schema, partition fields, data files with statistics) or a list of changes since an
  instant. A target adapter (\<^verbatim>\<open>target.go\<close>) writes either into a table of another format beside the same data files, with a
  watermark, the instant last synced. The controller (\<^verbatim>\<open>pkg/conversion\<close>) opens the adapters through the registry
  (\<^verbatim>\<open>pkg/formats/registry.go\<close>), decides from the watermark whether a sync can be incremental, carries it out and then
  updates external catalogs (\<^verbatim>\<open>pkg/catalog\<close>). Configuration files and catalog discovery make the datasets it works on; a
  daemon syncs them in a loop and a REST server converts on request (\<^verbatim>\<open>pkg/daemon\<close>). All files are reached through the
  storage interface of \<^verbatim>\<open>pkg/io\<close>.

  Go in HOL. Go_Prelude has error values, results (\<^verbatim>\<open>error + value\<close>), 64-bit wrap-around (an int64 is an int in range; an
  operation that can leave it goes through wrap64), maps as association lists with one entry per key and the functions
  of \<^verbatim>\<open>strings\<close>, \<^verbatim>\<open>strconv\<close> and \<^verbatim>\<open>fmt\<close> the program calls; a panic is the error value ErrPanic, which no caller recovers
  from. Json_Codec, Json_Struct, Json_Indent and Json_Raw are \<^verbatim>\<open>encoding/json\<close>: printer, parser, struct tags, indentation
  and raw messages, with their round trips. Go_Time, Go_Scanner, Go_Float and Go_Parse are the parts of \<^verbatim>\<open>time\<close>, \<^verbatim>\<open>bufio\<close>
  and \<^verbatim>\<open>strconv\<close> the formats depend on: RFC 3339 texts and the calendar, the 64 KiB line limit of bufio.Scanner, float64
  literals, the accepted spellings of numbers.

  The theories and the code.
    Model_Core, Model_Diff, Model_Sync_Metadata, Model_Json: \<^verbatim>\<open>pkg/model\<close>. Every struct is a record or datatype with the
      fields of the code; a pointer that may be nil is an option. Model_Diff compares two lists of files; its contract,
      shared with catalog partitions, is the locale reconciling_diff of Reconcile.
    Storage_Paths, Storage_Memory: \<^verbatim>\<open>pkg/io/storage.go\<close>, \<^verbatim>\<open>memory.go\<close>, \<^verbatim>\<open>metadata.go\<close>, \<^verbatim>\<open>s3_credentials.go\<close>. The locale
      object_store is the contract of io.Storage; the in-memory backend is its interpretation. The adapters work on that
      backend.
    Delta_Actions, Delta_Stats, Delta_Schema, Delta_Source, Delta_Target: \<^verbatim>\<open>pkg/formats/delta\<close>. Theorems in Delta_Log
      (replay of the log and changes since a commit, against an abstract log), Delta_Roundtrip, Delta_Commit and
      Delta_Readback (what a commit does to the files in force and what is read back).
    Hudi_Timeline, Hudi_Schema, Hudi_Source, Hudi_Target: \<^verbatim>\<open>pkg/formats/hudi\<close>. Theorems in Hudi_Log, Hudi_Commit and
      Hudi_Readback, in the same order.
    Parquet_Merge, Parquet_Partition, Parquet_Schema, Parquet_Stats, Parquet_Source, Parquet_Target:
      \<^verbatim>\<open>pkg/formats/parquet\<close>, an unmanaged directory of Parquet files.
    Paimon_Schema, Paimon_Source, Paimon_Target: \<^verbatim>\<open>pkg/formats/paimon\<close>. Theorems in Paimon_Roundtrip (schema files and
      field identifiers), Paimon_Readback (what the source reads after a commit) and Paimon_Commits.
    Iceberg_Metadata, Iceberg_Schema, Iceberg_Stats, Iceberg_Manifest, Iceberg_Source, Iceberg_Target:
      \<^verbatim>\<open>pkg/formats/iceberg\<close>. Go_Ieee is the binary64 arithmetic its bounds need. Theorems in Iceberg_Roundtrip (schema
      documents and the stability of field identifiers), Iceberg_Bounds (statistics), Iceberg_Avro (manifests and
      manifest lists read back), Iceberg_Codec (metadata files read back), Iceberg_History (the walk along parents and the
      changes since an instant, with a concrete table in Iceberg_Samples), Iceberg_Plan, Iceberg_Commit and Iceberg_Batches
      (what a commit plans, writes and leaves to be read, for snapshots and batches of changes). Iceberg_Library is a
      container library that has the properties these theorems assume of the Avro library.
    Catalog_Core, Catalog_Credentials, Catalog_Partition: \<^verbatim>\<open>pkg/catalog\<close>. The catalogs themselves are arguments.
    Conversion_Config, Conversion_Controller: \<^verbatim>\<open>pkg/conversion\<close> and \<^verbatim>\<open>pkg/spi\<close>. The locale sync_target is what the
      controller needs of a target so that watermarks are right; Conversion_Delta, Conversion_Hudi, Conversion_Paimon
      and Conversion_Iceberg interpret it on the adapters. Conversion_Delta also holds the registry.
    Daemon_Server, Daemon_Runs, Daemon_Loop: \<^verbatim>\<open>pkg/daemon\<close>. Daemon_Runs is a step relation over the server's shared state
      with its reachable states; Daemon_Loop is the loop over datasets.

  What the theorems show.
    Data model: carrying out a diff reconciles; relative paths and the sync metadata round-trip.
    Sources: an incremental read of an Iceberg table delivers the later snapshots in order, and carrying its changes out on
      the files of the snapshot it resumes at gives the current files; the snapshot of a Delta log, of a Hudi timeline
      and of a Paimon table is the replay of its commits, stated against an abstract map from paths to the entry
      in force; a Parquet snapshot holds exactly the data files of the directory with the partition values of their paths.
    Targets: what a snapshot or a batch of changes commits is read back by the source of the same format, and where it is
      not (files a full sync leaves in Delta and Hudi tables, removals that Hudi drops, a rewritten file that Paimon
      lists twice, Parquet metadata at a URI) the theorem says exactly what happens instead.
    Schemas: the schema of each format reads back in that format's normal form, for every canonical schema the format can
      carry.
    Syncs: the watermark a successful sync reports is the one the target holds afterwards, so the next incremental sync
      resumes exactly there; result flags are truthful; a dry run writes nothing; every sync returns.
    Catalogs: a reconciliation leaves exactly the desired partitions, in batches of the limit; options built from a
      configuration contain no secrets; formats read from catalogs are supported ones.
    Server: in every reachable state the status endpoint answers by the state of the conversion; conversions end; an
      asynchronous conversion leaves the record a synchronous one returns; the unlocked copy of the reply can be torn.

  Bounds and fuel. The JSON parser recurses on a fuel of twice the length of the text plus two, which is proved to be
  enough for every text (json_fuel). The batch loop of the catalog is a partial function whose value exists for every
  positive batch size; the walk of the Iceberg source along parent links is one too, and the theorems say exactly when it
  returns. Everything else is structural recursion or has a termination proof. Numbers of commits,
  snapshots and schema files are 64-bit; theorems about chains of commits assume that numbers are left.

  Parameters. The clock, UUIDs, the checkpoint and Parquet file decoders, the Avro and UUID libraries of Iceberg (the
  record ice_libs), the catalogs' network clients, and in the
  controller the adapters themselves are arguments of the definitions that use them. Theorems name what they assume of
  them (a clock that moves past the timeline, distinct UUIDs, decoders that return what the checkpoint describes,
  an Avro library whose containers read back as the records written, as Iceberg_Library has it).

  What is idealised. Strings are byte lists and are taken to be valid UTF-8 where Go would replace invalid bytes. Floats
  are kept as the literals of the document. A Go map is iterated in the order of its entries, where the code sorts
  afterwards or the order is not observable. sort.Slice is taken to be stable. A conversion takes effect in the stores in
  one step. Log lines are values or left out; contexts are never cancelled inside an adapter. A write to the in-memory
  store does not fail, so the error branches of a failing write are not modelled; those of reads are.

  Not modelled. The cloud and local storage backends, the Glue and REST catalog clients with their authentication and the
  commands are input and output against services, SDKs and the operating system around the modelled packages. The Parquet
  target writes no table format of its own, so the locale sync_target is not interpreted on it; its watermark is the
  subject of parquet_commit_watermark.
\<close>

end
